(* ===== verification/Prelude.thy ===== *)
theory Prelude
  imports Main "HOL-Library.Word" "HOL-Library.Multiset"
    "HOL-Library.List_Lexorder" "HOL-Library.Char_ord"
begin

text \<open>
  Shared vocabulary of the development: byte strings, the errors the TypeScript throws and
  the result type that carries them, little-endian integers, lower-case hexadecimal text,
  and the stable \<open>Array.prototype.sort\<close> of JavaScript with the contract its comparators
  have to meet (locale \<open>comparator\<close>).
\<close>

section \<open>Bytes, errors, results\<close>

type_synonym byte = "8 word"
type_synonym bytes = "byte list"

text \<open>
  A thrown \<open>OgpValidationError\<close> is known by its \<open>code\<close>, any other \<open>Error\<close> by its message;
  the human-readable message of an \<open>OgpValidationError\<close> never influences control flow.
\<close>

datatype js_error = OgpValidationError string | JsError string

type_synonym 'a result = "js_error + 'a"

named_theorems result_simps \<open>evaluation and inversion of the result combinators\<close>

definition bindE :: "'e + 'a \<Rightarrow> ('a \<Rightarrow> 'e + 'b) \<Rightarrow> 'e + 'b" where
  "bindE m f = (case m of Inl e \<Rightarrow> Inl e | Inr x \<Rightarrow> f x)"

text \<open>\<open>if (b) throw new OgpValidationError(code, ...)\<close>\<close>

definition throwIf :: "bool \<Rightarrow> string \<Rightarrow> unit result" where
  "throwIf b code = (if b then Inl (OgpValidationError code) else Inr ())"

text \<open>\<open>if (b) throw new Error(message)\<close>\<close>

definition failIf :: "bool \<Rightarrow> string \<Rightarrow> unit result" where
  "failIf b msg = (if b then Inl (JsError msg) else Inr ())"

text \<open>A sequence of assertions: the first one that throws decides.\<close>

fun runE :: "('e + unit) list \<Rightarrow> 'e + unit" where
  "runE [] = Inr ()"
| "runE (m # ms) = bindE m (\<lambda>_. runE ms)"

fun mapE :: "('a \<Rightarrow> 'e + 'b) \<Rightarrow> 'a list \<Rightarrow> 'e + 'b list" where
  "mapE f [] = Inr []"
| "mapE f (x # xs) = bindE (f x) (\<lambda>y. bindE (mapE f xs) (\<lambda>ys. Inr (y # ys)))"

definition isOk :: "'e + 'a \<Rightarrow> bool" where
  "isOk m = (case m of Inl _ \<Rightarrow> False | Inr _ \<Rightarrow> True)"

text \<open>A call into a library that throws (\<open>None\<close>) or returns.\<close>

definition fromLib :: "string \<Rightarrow> 'a option \<Rightarrow> 'a result" where
  "fromLib msg r = (case r of None \<Rightarrow> Inl (JsError msg) | Some x \<Rightarrow> Inr x)"

lemma bindE_simps [simp, result_simps]:
  "bindE (Inl e) f = Inl e" "bindE (Inr x) f = f x"
  by (simp_all add: bindE_def)

lemma bindE_Inr_iff [result_simps]: "bindE m f = Inr y \<longleftrightarrow> (\<exists>x. m = Inr x \<and> f x = Inr y)"
  by (cases m) auto

lemma bindE_Inl_iff: "bindE m f = Inl e \<longleftrightarrow> m = Inl e \<or> (\<exists>x. m = Inr x \<and> f x = Inl e)"
  by (cases m) auto

lemma bindE_assoc: "bindE (bindE m f) g = bindE m (\<lambda>x. bindE (f x) g)"
  by (cases m) auto

lemma throwIf_Inr_iff [simp, result_simps]: "throwIf b c = Inr u \<longleftrightarrow> \<not> b"
  by (simp add: throwIf_def)

lemma throwIf_Inl_iff [simp, result_simps]: "throwIf b c = Inl e \<longleftrightarrow> b \<and> e = OgpValidationError c"
  by (auto simp: throwIf_def)

lemma throwIf_simps [simp]:
  "throwIf True c = Inl (OgpValidationError c)" "throwIf False c = Inr ()"
  by (simp_all add: throwIf_def)

lemma failIf_Inr_iff [simp, result_simps]: "failIf b c = Inr u \<longleftrightarrow> \<not> b"
  by (simp add: failIf_def)

lemma failIf_simps [simp]:
  "failIf True c = Inl (JsError c)" "failIf False c = Inr ()"
  by (simp_all add: failIf_def)

lemma runE_Inr_iff [result_simps]: "runE ms = Inr u \<longleftrightarrow> (\<forall>m \<in> set ms. m = Inr ())"
  by (induction ms) (auto simp: bindE_Inr_iff)

lemma mapE_Inr_iff: "mapE f xs = Inr ys \<longleftrightarrow> list_all2 (\<lambda>x y. f x = Inr y) xs ys"
  by (induction xs arbitrary: ys) (auto simp: bindE_Inr_iff list_all2_Cons1)

lemma isOk_simps [simp]: "isOk (Inr x)" "\<not> isOk (Inl e)"
  by (simp_all add: isOk_def)

lemma isOk_iff: "isOk m \<longleftrightarrow> (\<exists>x. m = Inr x)"
  by (cases m) auto

lemma fromLib_Inr_iff [simp, result_simps]: "fromLib msg r = Inr x \<longleftrightarrow> r = Some x"
  by (auto simp: fromLib_def split: option.splits)

lemma fromLib_simps [simp]:
  "fromLib msg None = Inl (JsError msg)" "fromLib msg (Some x) = Inr x"
  by (simp_all add: fromLib_def)

section \<open>Little-endian integers\<close>

text \<open>\<open>leBytes k n\<close>: the low \<open>k\<close> bytes of \<open>n\<close> (two's complement when \<open>n\<close> is negative).\<close>

fun leBytes :: "nat \<Rightarrow> int \<Rightarrow> bytes" where
  "leBytes 0 n = []"
| "leBytes (Suc k) n = word_of_int n # leBytes k (n div 256)"

fun leInt :: "bytes \<Rightarrow> int" where
  "leInt [] = 0"
| "leInt (b # bs) = uint b + 256 * leInt bs"

lemma length_leBytes [simp]: "length (leBytes k n) = k"
  by (induction k arbitrary: n) auto

lemma leInt_leBytes: "leInt (leBytes k n) = n mod 256 ^ k"
proof (induction k arbitrary: n)
  case (Suc k)
  have "leInt (leBytes (Suc k) n) = n mod 256 + 256 * (n div 256 mod 256 ^ k)"
    by (simp add: Suc uint_word_of_int)
  also have "\<dots> = n mod 256 ^ Suc k"
    by (simp add: zmod_zmult2_eq)
  finally show ?case .
qed simp

lemma leInt_leBytes_id: "0 \<le> n \<Longrightarrow> n < 256 ^ k \<Longrightarrow> leInt (leBytes k n) = n"
  by (simp add: leInt_leBytes)

lemma leBytes_inject:
  "leBytes k m = leBytes k n \<Longrightarrow> 0 \<le> m \<Longrightarrow> m < 256 ^ k \<Longrightarrow> 0 \<le> n \<Longrightarrow> n < 256 ^ k \<Longrightarrow> m = n"
  by (metis leInt_leBytes_id)

lemma leInt_bounds: "0 \<le> leInt bs \<and> leInt bs < 256 ^ length bs"
proof (induction bs)
  case (Cons b bs)
  have "0 \<le> uint b" "uint b < 256"
    using uint_lt2p [of b] by simp_all
  with Cons show ?case by auto
qed simp

lemma leBytes_leInt: "leBytes (length bs) (leInt bs) = bs"
proof (induction bs)
  case (Cons b bs)
  have b: "0 \<le> uint b" "uint b < 256"
    using uint_lt2p [of b] by simp_all
  have w: "word_of_int (uint b + 256 * leInt bs) = b"
    using b by (simp only: word_uint_eq_iff uint_word_of_int) simp
  from b Cons w show ?case by simp
qed simp

text \<open>Two's complement reading of \<open>k\<close> bytes.\<close>

definition leSigned :: "bytes \<Rightarrow> int" where
  "leSigned bs = (let n = leInt bs; m = 256 ^ length bs in if 2 * n < m then n else n - m)"

lemma leSigned_leBytes:
  assumes "- (256 ^ k) \<le> 2 * n" "2 * n < 256 ^ k"
  shows "leSigned (leBytes k n) = n"
proof (cases "0 \<le> n")
  case True
  with assms have "n mod 256 ^ k = n" by simp
  with assms show ?thesis by (simp add: leSigned_def leInt_leBytes)
next
  case False
  with assms have "(n + 256 ^ k) mod 256 ^ k = n + 256 ^ k" by (intro mod_pos_pos_trivial) auto
  then have "n mod 256 ^ k = n + 256 ^ k" by simp
  with assms False show ?thesis by (simp add: leSigned_def leInt_leBytes)
qed

end
