(* ===== verification/JsArrays.thy ===== *)
theory JsArrays
  imports Prelude
begin

text \<open>
  The JavaScript array and text operations the packages share: lower-case hexadecimal text,
  byte-wise and textual comparison, and the stable \<open>Array.prototype.sort\<close>. A comparator is a
  function into \<open>int\<close>; the contract \<open>sort\<close> relies on is the locale \<open>comparator\<close>, which is
  interpreted on every comparator the code passes to \<open>sort\<close>.
\<close>

section \<open>Hexadecimal text\<close>

definition hexDigit :: "nat \<Rightarrow> char" where
  "hexDigit n = ''0123456789abcdef'' ! n"

definition byteHex :: "byte \<Rightarrow> string" where
  "byteHex b = [hexDigit (unat b div 16), hexDigit (unat b mod 16)]"

text \<open>\<open>Array.from(value, (byte) => byte.toString(16).padStart(2, "0")).join("")\<close>\<close>

definition bytesToHex :: "bytes \<Rightarrow> string" where
  "bytesToHex bs = concat (map byteHex bs)"

lemma hexDigit_inject: "m < 16 \<Longrightarrow> n < 16 \<Longrightarrow> hexDigit m = hexDigit n \<longleftrightarrow> m = n"
  unfolding hexDigit_def
  by (rule nth_eq_iff_index_eq) simp_all

lemma byteHex_inject [simp]: "byteHex a = byteHex b \<longleftrightarrow> a = b"
proof
  assume eq: "byteHex a = byteHex b"
  have lt: "unat a < 256" "unat b < 256"
    using unsigned_less [of a] unsigned_less [of b] by simp_all
  then have "unat a div 16 < 16" "unat b div 16 < 16" by simp_all
  with eq have "unat a div 16 = unat b div 16" "unat a mod 16 = unat b mod 16"
    by (simp_all add: byteHex_def hexDigit_inject)
  then have "unat a = unat b" by (metis div_mult_mod_eq)
  then show "a = b" by (rule word_unat_eq_iff [THEN iffD2])
qed simp

lemma length_byteHex [simp]: "length (byteHex b) = 2"
  by (simp add: byteHex_def)

lemma bytesToHex_simps [simp]:
  "bytesToHex [] = []" "bytesToHex (b # bs) = byteHex b @ bytesToHex bs"
  by (simp_all add: bytesToHex_def)

lemma length_bytesToHex [simp]: "length (bytesToHex bs) = 2 * length bs"
  by (induction bs) simp_all

lemma bytesToHex_inject [simp]: "bytesToHex as = bytesToHex bs \<longleftrightarrow> as = bs"
proof (induction as arbitrary: bs)
  case Nil
  then show ?case by (cases bs) (auto simp: byteHex_def)
next
  case (Cons a as)
  then show ?case by (cases bs) (auto simp: byteHex_def dest: injD simp flip: byteHex_inject)
qed

section \<open>Comparison\<close>

text \<open>Subtract the first differing bytes, otherwise the lengths.\<close>

fun compareBytes :: "bytes \<Rightarrow> bytes \<Rightarrow> int" where
  "compareBytes (l # ls) (r # rs) =
     (let difference = uint l - uint r
      in if difference \<noteq> 0 then difference else compareBytes ls rs)"
| "compareBytes ls rs = int (length ls) - int (length rs)"

definition compareText :: "string \<Rightarrow> string \<Rightarrow> int" where
  "compareText l r = (if l < r then -1 else if r < l then 1 else 0)"

text \<open>\<open>a || b\<close> on numbers.\<close>

definition orElse :: "int \<Rightarrow> int \<Rightarrow> int" where
  "orElse a b = (if a \<noteq> 0 then a else b)"

locale comparator =
  fixes cmp :: "'a \<Rightarrow> 'a \<Rightarrow> int"
  assumes swap: "0 \<le> cmp y x \<longleftrightarrow> cmp x y \<le> 0"
    and trans: "cmp x y \<le> 0 \<Longrightarrow> cmp y z \<le> 0 \<Longrightarrow> cmp x z \<le> 0"

section \<open>Stable sorting\<close>

text \<open>
  ECMAScript fixes the result of \<open>sort\<close> for a consistent comparator: the stable sorted
  arrangement. Insertion from the right computes it.
\<close>

fun insertBy :: "('a \<Rightarrow> 'a \<Rightarrow> int) \<Rightarrow> 'a \<Rightarrow> 'a list \<Rightarrow> 'a list" where
  "insertBy cmp x [] = [x]"
| "insertBy cmp x (y # ys) = (if cmp x y \<le> 0 then x # y # ys else y # insertBy cmp x ys)"

fun sortBy :: "('a \<Rightarrow> 'a \<Rightarrow> int) \<Rightarrow> 'a list \<Rightarrow> 'a list" where
  "sortBy cmp [] = []"
| "sortBy cmp (x # xs) = insertBy cmp x (sortBy cmp xs)"

lemma mset_insertBy [simp]: "mset (insertBy cmp x ys) = add_mset x (mset ys)"
  by (induction ys) auto

lemma mset_sortBy [simp]: "mset (sortBy cmp xs) = mset xs"
  by (induction xs) auto

lemma set_sortBy [simp]: "set (sortBy cmp xs) = set xs"
  by (metis mset_sortBy set_mset_mset)

lemma length_sortBy [simp]: "length (sortBy cmp xs) = length xs"
  by (metis mset_sortBy size_mset)

lemma distinct_sortBy [simp]: "distinct (sortBy cmp xs) = distinct xs"
  by (metis mset_sortBy mset_eq_imp_distinct_iff)

context comparator begin

lemma total: "cmp x y \<le> 0 \<or> cmp y x \<le> 0"
  using swap [of x y] by auto

lemma sorted_insertBy:
  "sorted_wrt (\<lambda>x y. cmp x y \<le> 0) ys \<Longrightarrow> sorted_wrt (\<lambda>x y. cmp x y \<le> 0) (insertBy cmp x ys)"
proof (induction ys)
  case (Cons y ys)
  have set: "set (insertBy cmp x ys) = insert x (set ys)"
    by (metis mset_insertBy set_mset_add_mset_insert set_mset_mset)
  show ?case
  proof (cases "cmp x y \<le> 0")
    case True
    with Cons.prems show ?thesis by (auto intro: trans)
  next
    case False
    then have "cmp y x \<le> 0" using total [of x y] by simp
    with False Cons set show ?thesis by auto
  qed
qed simp

lemma sorted_sortBy: "sorted_wrt (\<lambda>x y. cmp x y \<le> 0) (sortBy cmp xs)"
  by (induction xs) (auto intro: sorted_insertBy)

text \<open>Two sorted arrangements of the same elements agree when the comparator tells them apart.\<close>

lemma sorted_unique:
  assumes "sorted_wrt (\<lambda>x y. cmp x y \<le> 0) xs" "sorted_wrt (\<lambda>x y. cmp x y \<le> 0) ys"
    "mset xs = mset ys"
    "\<And>x y. x \<in> set xs \<Longrightarrow> y \<in> set xs \<Longrightarrow> cmp x y = 0 \<Longrightarrow> x = y"
  shows "xs = ys"
  using assms
proof (induction xs arbitrary: ys)
  case (Cons x xs)
  then obtain y ys' where ys: "ys = y # ys'" by (cases ys) auto
  have "y \<in> set (x # xs)" "x \<in> set (y # ys')"
    using Cons.prems(3) ys by (metis list.set_intros(1) mset_eq_setD)+
  with Cons.prems(1,2) ys have "x = y \<or> (cmp x y \<le> 0 \<and> cmp y x \<le> 0)" by auto
  then have "x = y"
    using Cons.prems(4) \<open>y \<in> set (x # xs)\<close> swap [of y x] by (metis list.set_intros(1) order_antisym)
  moreover from this Cons.prems(3) ys have "mset xs = mset ys'" by simp
  ultimately show ?case using Cons.IH [of ys'] Cons.prems ys by simp
qed simp

lemma sortBy_cong_mset:
  assumes "mset xs = mset ys"
    "\<And>x y. x \<in> set xs \<Longrightarrow> y \<in> set xs \<Longrightarrow> cmp x y = 0 \<Longrightarrow> x = y"
  shows "sortBy cmp xs = sortBy cmp ys"
  using assms by (intro sorted_unique sorted_sortBy) auto

lemma sortBy_idle: "sorted_wrt (\<lambda>x y. cmp x y \<le> 0) xs \<Longrightarrow> sortBy cmp xs = xs"
proof (induction xs)
  case (Cons x xs)
  then show ?case by (cases xs) auto
qed simp

end

lemma comparator_key: "comparator cmp \<Longrightarrow> comparator (\<lambda>x y. cmp (f x) (f y))"
  unfolding comparator_def by blast

lemma comparator_orElse:
  assumes "comparator c" "comparator d"
  shows "comparator (\<lambda>x y. orElse (c x y) (d x y))"
proof
  fix x y z
  show "0 \<le> orElse (c y x) (d y x) \<longleftrightarrow> orElse (c x y) (d x y) \<le> 0"
    using comparator.swap [OF assms(1), of y x] comparator.swap [OF assms(1), of x y]
      comparator.swap [OF assms(2), of y x]
    by (auto simp: orElse_def)
  assume "orElse (c x y) (d x y) \<le> 0" "orElse (c y z) (d y z) \<le> 0"
  then show "orElse (c x z) (d x z) \<le> 0"
    using comparator.trans [OF assms(1), of x y z] comparator.trans [OF assms(1), of z x y]
      comparator.trans [OF assms(1), of y z x] comparator.trans [OF assms(2), of x y z]
      comparator.swap [OF assms(1), of x y] comparator.swap [OF assms(1), of y z]
      comparator.swap [OF assms(1), of x z]
      comparator.swap [OF assms(1), of y x] comparator.swap [OF assms(1), of z y]
      comparator.swap [OF assms(1), of z x]
    by (auto simp: orElse_def split: if_splits)
qed

lemma comparator_int: "comparator (\<lambda>x y :: int. x - y)"
  by unfold_locales auto

lemma compareBytes_swap: "compareBytes y x = - compareBytes x y"
  by (induction x y rule: compareBytes.induct) (auto simp: Let_def)

lemma compareBytes_le_iff: "compareBytes x y \<le> 0 \<longleftrightarrow> x \<le> y"
proof (induction x y rule: compareBytes.induct)
  case (1 l ls r rs)
  have "uint l = uint r \<longleftrightarrow> l = r" "uint l < uint r \<longleftrightarrow> l < r"
    by (simp_all add: word_less_def word_uint_eq_iff)
  with 1 show ?case by (auto simp: Let_def)
qed auto

lemma compareBytes_eq_0 [simp]: "compareBytes x y = 0 \<longleftrightarrow> x = y"
  using compareBytes_le_iff [of x y] compareBytes_le_iff [of y x] compareBytes_swap [of x y] by auto

lemma compareText_eq_0 [simp]: "compareText x y = 0 \<longleftrightarrow> x = y"
  by (auto simp: compareText_def)

interpretation byte_order: comparator compareBytes
proof
  fix x y z
  show "0 \<le> compareBytes y x \<longleftrightarrow> compareBytes x y \<le> 0"
    by (subst compareBytes_swap) auto
  show "compareBytes x y \<le> 0 \<Longrightarrow> compareBytes y z \<le> 0 \<Longrightarrow> compareBytes x z \<le> 0"
    by (auto simp: compareBytes_le_iff)
qed

interpretation text_order: comparator compareText
  by unfold_locales (auto simp: compareText_def split: if_splits)

interpretation int_order: comparator "\<lambda>x y :: int. x - y"
  by (rule comparator_int)

end
