(* ===== verification/SharedTypes.thy ===== *)
theory SharedTypes
  imports JsArrays
begin

text \<open>
  \<open>packages/shared-types/src/index.ts\<close>: the protocol constants, the data every package
  exchanges, and the assertions on lengths and integer ranges.

  An interface is a \<open>record\<close>; an interface that extends another is a record extension, so a
  function on payloads takes the signed object too, as in TypeScript. A \<open>Uint8Array\<close> is a
  byte list, a \<open>bigint\<close> an \<open>int\<close>; a \<open>number\<close> field is the integer it holds (every such
  field is checked with \<open>Number.isInteger\<close> before use). The field prefixes (\<open>dm_\<close>, \<open>da_\<close>,
  \<dots>) only keep equally named fields of different interfaces apart.
\<close>

section \<open>Constants\<close>

definition PROTOCOL_NAME :: bytes where
  "PROTOCOL_NAME = [0x4f, 0x47, 0x50, 0, 0, 0, 0, 0]"

definition PROTOCOL_VERSION :: int where "PROTOCOL_VERSION = 1"
definition SCHEMA_VERSION :: int where "SCHEMA_VERSION = 1"
definition HASH_LENGTH :: nat where "HASH_LENGTH = 32"
definition PUBLIC_KEY_LENGTH :: nat where "PUBLIC_KEY_LENGTH = 32"
definition SIGNATURE_LENGTH :: nat where "SIGNATURE_LENGTH = 64"
definition CHALLENGE_LENGTH :: nat where "CHALLENGE_LENGTH = 32"
definition DOMAIN_LENGTH :: nat where "DOMAIN_LENGTH = 110"
definition MAX_BRANCH_DEPTH :: int where "MAX_BRANCH_DEPTH = 32"

definition U32_MAX :: int where "U32_MAX = 0xffffffff"
definition U64_MAX :: int where "U64_MAX = 2 ^ 64 - 1"
definition I64_MIN :: int where "I64_MIN = - (2 ^ 63)"
definition I64_MAX :: int where "I64_MAX = 2 ^ 63 - 1"

lemmas protocol_constants =
  PROTOCOL_NAME_def PROTOCOL_VERSION_def SCHEMA_VERSION_def HASH_LENGTH_def
  PUBLIC_KEY_LENGTH_def SIGNATURE_LENGTH_def CHALLENGE_LENGTH_def DOMAIN_LENGTH_def
  MAX_BRANCH_DEPTH_def U32_MAX_def U64_MAX_def I64_MIN_def I64_MAX_def

section \<open>Enumerations\<close>

text \<open>A TypeScript \<open>enum\<close> value is its number; a decoded field may hold any other number.\<close>

datatype NetworkId = Localnet | Devnet | MainnetBeta

fun networkNumber :: "NetworkId \<Rightarrow> int" where
  "networkNumber Localnet = 0"
| "networkNumber Devnet = 1"
| "networkNumber MainnetBeta = 2"

datatype ObjectType =
  DeviceAuthorizationObject | SessionCertificateObject | GenesisStateObject
| PaymentStateObject | PaymentCredentialObject | MerchantReceiptObject
| ClaimCommitmentObject | ForkWitnessObject | ResolutionPlanObject
| IdentityAttestationObject

fun objectNumber :: "ObjectType \<Rightarrow> int" where
  "objectNumber DeviceAuthorizationObject = 1"
| "objectNumber SessionCertificateObject = 2"
| "objectNumber GenesisStateObject = 3"
| "objectNumber PaymentStateObject = 4"
| "objectNumber PaymentCredentialObject = 5"
| "objectNumber MerchantReceiptObject = 6"
| "objectNumber ClaimCommitmentObject = 7"
| "objectNumber ForkWitnessObject = 8"
| "objectNumber ResolutionPlanObject = 9"
| "objectNumber IdentityAttestationObject = 10"

datatype AttestationStatus = ActiveAttestation | RevokedAttestation

fun attestationNumber :: "AttestationStatus \<Rightarrow> int" where
  "attestationNumber ActiveAttestation = 0"
| "attestationNumber RevokedAttestation = 1"

lemma objectNumber_inject [simp]: "objectNumber a = objectNumber b \<longleftrightarrow> a = b"
  by (cases a; cases b) simp_all

section \<open>Data\<close>

record Domain =
  dm_protocolName :: bytes
  dm_protocolVersion :: int
  dm_schemaVersion :: int
  dm_objectType :: int
  dm_networkId :: int
  dm_clusterGenesisHash :: bytes
  dm_programId :: bytes
  dm_sessionId :: bytes

record DomainContext =
  cx_networkId :: int
  cx_clusterGenesisHash :: bytes
  cx_programId :: bytes
  cx_sessionId :: bytes

record ProtocolTrustContext = DomainContext +
  cx_trustedCertificateIssuer :: bytes

record DeviceAuthorizationPayload =
  da_domain :: Domain
  da_owner :: bytes
  da_devicePublicKey :: bytes
  da_sessionId :: bytes
  da_vault :: bytes
  da_branchSpendingLimit :: int
  da_collateralCoverageCap :: int
  da_maxBranchDepth :: int
  da_issuedAt :: int
  da_expiresAt :: int
  da_authorizationNonce :: bytes

record DeviceAuthorization = DeviceAuthorizationPayload +
  da_walletSignature :: bytes

record SessionCertificatePayload =
  sc_domain :: Domain
  sc_sessionId :: bytes
  sc_owner :: bytes
  sc_devicePublicKey :: bytes
  sc_vault :: bytes
  sc_tokenMint :: bytes
  sc_branchSpendingLimit :: int
  sc_collateralLocked :: int
  sc_collateralCoverageCap :: int
  sc_maxBranchDepth :: int
  sc_issuedAt :: int
  sc_expiresAt :: int
  sc_claimSubmissionDeadline :: int
  sc_genesisStateHash :: bytes
  sc_deviceAuthorizationHash :: bytes
  sc_identityAttestationHash :: bytes
  sc_issuer :: bytes
  sc_finalizedSlot :: int
  sc_certificateNonce :: bytes

record SessionCertificate = SessionCertificatePayload +
  sc_issuerSignature :: bytes

record GenesisState =
  gs_domain :: Domain
  gs_owner :: bytes
  gs_devicePublicKey :: bytes
  gs_branchSpendingLimit :: int
  gs_maxBranchDepth :: int
  gs_initialRemaining :: int
  gs_issuedAt :: int
  gs_expiresAt :: int

record PaymentState =
  ps_domain :: Domain
  ps_previousStateHash :: bytes
  ps_sequence :: int
  ps_merchant :: bytes
  ps_amount :: int
  ps_merchantChallenge :: bytes
  ps_previousRemaining :: int
  ps_newRemaining :: int

record PaymentCredentialPayload =
  pc_domain :: Domain
  pc_sessionId :: bytes
  pc_sequence :: int
  pc_payer :: bytes
  pc_payerDeviceKey :: bytes
  pc_merchant :: bytes
  pc_merchantDeviceKey :: bytes
  pc_amount :: int
  pc_previousStateHash :: bytes
  pc_newStateHash :: bytes
  pc_previousRemaining :: int
  pc_newRemaining :: int
  pc_merchantChallenge :: bytes
  pc_createdAt :: int
  pc_sessionExpiresAt :: int

record PaymentCredential = PaymentCredentialPayload +
  pc_payerSignature :: bytes

record CredentialProofBundle =
  sessionCertificate :: SessionCertificate
  deviceAuthorization :: DeviceAuthorization
  credentials :: "PaymentCredential list"

record IdentityAttestationPayload =
  ia_domain :: Domain
  ia_issuer :: bytes
  ia_subjectWallet :: bytes
  ia_assuranceLevel :: int
  ia_issuedAt :: int
  ia_expiresAt :: int
  ia_attestationId :: bytes
  ia_status :: int

record IdentityAttestation = IdentityAttestationPayload +
  ia_issuerSignature :: bytes

section \<open>Assertions\<close>

definition assertBytes :: "bytes \<Rightarrow> nat \<Rightarrow> unit result" where
  "assertBytes value len = throwIf (length value \<noteq> len) ''INVALID_LENGTH''"

definition assertU8 :: "int \<Rightarrow> unit result" where
  "assertU8 value = throwIf (value < 0 \<or> value > 0xff) ''INTEGER_OUT_OF_RANGE''"

definition assertU16 :: "int \<Rightarrow> unit result" where
  "assertU16 value = throwIf (value < 0 \<or> value > 0xffff) ''INTEGER_OUT_OF_RANGE''"

definition assertU32 :: "int \<Rightarrow> unit result" where
  "assertU32 value = throwIf (value < 0 \<or> value > U32_MAX) ''INTEGER_OUT_OF_RANGE''"

definition assertU64 :: "int \<Rightarrow> unit result" where
  "assertU64 value = throwIf (value < 0 \<or> value > U64_MAX) ''INTEGER_OUT_OF_RANGE''"

definition assertI64 :: "int \<Rightarrow> unit result" where
  "assertI64 value = throwIf (value < I64_MIN \<or> value > I64_MAX) ''INTEGER_OUT_OF_RANGE''"

lemma assertBytes_ok [simp, result_simps]: "assertBytes v n = Inr u \<longleftrightarrow> length v = n"
  by (auto simp: assertBytes_def)

lemma assertU8_ok [simp, result_simps]: "assertU8 v = Inr u \<longleftrightarrow> 0 \<le> v \<and> v < 2 ^ 8"
  by (auto simp: assertU8_def)

lemma assertU16_ok [simp, result_simps]: "assertU16 v = Inr u \<longleftrightarrow> 0 \<le> v \<and> v < 2 ^ 16"
  by (auto simp: assertU16_def)

lemma assertU32_ok [simp, result_simps]: "assertU32 v = Inr u \<longleftrightarrow> 0 \<le> v \<and> v < 2 ^ 32"
  by (auto simp: assertU32_def U32_MAX_def)

lemma assertU64_ok [simp, result_simps]: "assertU64 v = Inr u \<longleftrightarrow> 0 \<le> v \<and> v < 2 ^ 64"
  by (auto simp: assertU64_def U64_MAX_def)

lemma assertI64_ok [simp, result_simps]: "assertI64 v = Inr u \<longleftrightarrow> - (2 ^ 63) \<le> v \<and> v < 2 ^ 63"
  by (auto simp: assertI64_def I64_MIN_def I64_MAX_def)

section \<open>Constant-time byte comparison\<close>

text \<open>
  The loop accumulates the bitwise difference of every position instead of returning at the
  first one.
\<close>

unbundle bit_operations_syntax

fun byteDifference :: "byte \<Rightarrow> bytes \<Rightarrow> bytes \<Rightarrow> byte" where
  "byteDifference difference (l # ls) (r # rs) = byteDifference (difference OR (l XOR r)) ls rs"
| "byteDifference difference _ _ = difference"

definition equalBytes :: "bytes \<Rightarrow> bytes \<Rightarrow> bool" where
  "equalBytes left right =
     (if length left \<noteq> length right then False else byteDifference 0 left right = 0)"

lemma byteDifference_eq_0:
  "length ls = length rs \<Longrightarrow> byteDifference d ls rs = 0 \<longleftrightarrow> d = 0 \<and> ls = rs"
proof (induction d ls rs rule: byteDifference.induct)
  case (1 d l ls r rs)
  have "d OR (l XOR r) = 0 \<longleftrightarrow> d = 0 \<and> l = r"
    by (auto simp: bit_eq_iff bit_simps dest: bit_imp_le_length)
  with 1 show ?case by auto
qed auto

lemma equalBytes_eq [simp]: "equalBytes a b \<longleftrightarrow> a = b"
  by (auto simp: equalBytes_def byteDifference_eq_0)

end
