(* ===== verification/Borsh.thy ===== *)
theory Borsh
  imports JsArrays
begin

text \<open>
  The interface of the third-party package \<open>borsh\<close> as the codec uses it. Its code is not part
  of the repository: \<open>serialize\<close> and \<open>deserialize\<close> are parameters, and locale \<open>borsh_library\<close>
  states the documented behaviour the codec relies on in terms of the published Borsh layout
  (\<open>borshBytes\<close>): integers little-endian at their width, a fixed array as its elements, a
  dynamic array with a \<open>u32\<close> count in front, a struct as its fields in schema order.
  \<open>readValue\<close> is the reader that layout determines; the locale is interpreted on the pair.
\<close>

section \<open>Schemas and values\<close>

text \<open>\<open>type Schema\<close> and the JavaScript values it describes (\<open>number\<close>, \<open>bigint\<close>, array, object).\<close>

datatype schema =
  U8 | U16 | U32 | U64 | I64
| ArraySchema schema "nat option"
| StructSchema "(string \<times> schema) list"

datatype js_value =
  JsNumber int
| JsBigint int
| JsArray "js_value list"
| JsObject "(string \<times> js_value) list"

definition fixedBytes :: "nat \<Rightarrow> schema" where
  "fixedBytes len = ArraySchema U8 (Some len)"

text \<open>\<open>Array.from(value)\<close> for a \<open>Uint8Array\<close>.\<close>

definition bytesValue :: "bytes \<Rightarrow> js_value" where
  "bytesValue bs = JsArray (map (\<lambda>b. JsNumber (uint b)) bs)"

section \<open>The Borsh layout\<close>

definition leUnsigned :: "nat \<Rightarrow> int \<Rightarrow> bytes option" where
  "leUnsigned k n = (if 0 \<le> n \<and> n < 256 ^ k then Some (leBytes k n) else None)"

fun borshBytes :: "schema \<Rightarrow> js_value \<Rightarrow> bytes option"
  and borshFields :: "(string \<times> schema) list \<Rightarrow> (string \<times> js_value) list \<Rightarrow> bytes option"
where
  "borshBytes U8 (JsNumber n) = leUnsigned 1 n"
| "borshBytes U16 (JsNumber n) = leUnsigned 2 n"
| "borshBytes U32 (JsNumber n) = leUnsigned 4 n"
| "borshBytes U64 (JsBigint n) = leUnsigned 8 n"
| "borshBytes I64 (JsBigint n) =
     (if - (2 ^ 63) \<le> n \<and> n < 2 ^ 63 then Some (leBytes 8 n) else None)"
| "borshBytes (ArraySchema s (Some len)) (JsArray vs) =
     (if length vs = len then map_option concat (those (map (borshBytes s) vs)) else None)"
| "borshBytes (ArraySchema s None) (JsArray vs) =
     (case leUnsigned 4 (int (length vs)) of None \<Rightarrow> None
      | Some n \<Rightarrow> map_option (\<lambda>bss. n @ concat bss) (those (map (borshBytes s) vs)))"
| "borshBytes (StructSchema fs) (JsObject obj) = borshFields fs obj"
| "borshBytes _ _ = None"
| "borshFields [] obj = Some []"
| "borshFields ((k, s) # fs) obj =
     (case map_of obj k of None \<Rightarrow> None
      | Some v \<Rightarrow> (case borshBytes s v of None \<Rightarrow> None
          | Some b \<Rightarrow> map_option (\<lambda>bs. b @ bs) (borshFields fs obj)))"

text \<open>
  A value in the shape \<open>deserialize\<close> returns: an object holds exactly the schema's fields, in
  schema order.
\<close>

fun exactShape :: "schema \<Rightarrow> js_value \<Rightarrow> bool"
  and exactFields :: "(string \<times> schema) list \<Rightarrow> (string \<times> js_value) list \<Rightarrow> bool"
where
  "exactShape (ArraySchema s len) (JsArray vs) = list_all (exactShape s) vs"
| "exactShape (StructSchema fs) (JsObject obj) = (distinct (map fst fs) \<and> exactFields fs obj)"
| "exactShape s v = True"
| "exactFields [] obj = (obj = [])"
| "exactFields ((k, s) # fs) obj =
     (case obj of [] \<Rightarrow> False
      | (k', v) # obj' \<Rightarrow> k' = k \<and> exactShape s v \<and> exactFields fs obj')"

locale borsh_library =
  fixes serialize :: "schema \<Rightarrow> js_value \<Rightarrow> bytes option"
    and deserialize :: "schema \<Rightarrow> bytes \<Rightarrow> js_value option"
  assumes serialize_layout: "borshBytes s v = Some bs \<Longrightarrow> serialize s v = Some bs"
    and deserialize_layout: "exactShape s v \<Longrightarrow> borshBytes s v = Some bs \<Longrightarrow> deserialize s bs = Some v"
    and deserialize_conforms: "deserialize s bs = Some v \<Longrightarrow> borshBytes s v \<noteq> None"

section \<open>Facts about the layout\<close>

lemma those_map_Some: "those (map (\<lambda>x. Some (f x)) xs) = Some (map f xs)"
  by (induction xs) simp_all

lemma leUnsigned_Some_iff: "leUnsigned k n = Some bs \<longleftrightarrow> 0 \<le> n \<and> n < 256 ^ k \<and> bs = leBytes k n"
  by (auto simp: leUnsigned_def)

lemma leUnsigned_byte [simp]: "leUnsigned (Suc 0) (uint (b :: byte)) = Some [b]"
  using uint_lt2p [of b] by (simp add: leUnsigned_def)

lemma borshBytes_bytesValue [simp]:
  "borshBytes (fixedBytes n) (bytesValue bs) = (if length bs = n then Some bs else None)"
proof -
  have "map (borshBytes U8) (map (\<lambda>b. JsNumber (uint b)) bs) = map (\<lambda>b. Some [b]) bs"
    by simp
  then have "those (map (borshBytes U8) (map (\<lambda>b. JsNumber (uint b)) bs)) = Some (map (\<lambda>b. [b]) bs)"
    by (simp only: those_map_Some)
  moreover have "concat (map (\<lambda>b. [b]) bs) = bs" by (induction bs) simp_all
  ultimately show ?thesis by (simp add: fixedBytes_def bytesValue_def)
qed

lemma exactShape_bytesValue [simp]: "exactShape (fixedBytes n) (bytesValue bs)"
  by (simp add: fixedBytes_def bytesValue_def list_all_iff)

lemma borshBytes_fixedBytes_inv:
  assumes "borshBytes (fixedBytes n) v = Some bs"
  shows "length bs = n \<and> v = bytesValue bs"
proof -
  have one: "\<exists>b. borshBytes U8 x = Some [b] \<and> x = JsNumber (uint b)" if "borshBytes U8 x \<noteq> None" for x
  proof (cases x)
    case (JsNumber m)
    with that have "0 \<le> m" "m < 256" by (auto simp: leUnsigned_def split: if_splits)
    then have "uint (word_of_int m :: byte) = m" by (simp add: uint_word_of_int)
    then show ?thesis using JsNumber \<open>0 \<le> m\<close> \<open>m < 256\<close>
      by (intro exI [of _ "word_of_int m"]) (simp add: leUnsigned_def)
  qed (use that in auto)
  have many: "those (map (borshBytes U8) vs) = Some bss \<Longrightarrow>
      length (concat bss) = length vs \<and> vs = map (\<lambda>b. JsNumber (uint b)) (concat bss)" for vs bss
  proof (induction vs arbitrary: bss)
    case (Cons v vs)
    then obtain c bss' where c: "borshBytes U8 v = Some c" "those (map (borshBytes U8) vs) = Some bss'"
      "bss = c # bss'" by (auto split: option.splits)
    then obtain b where b: "c = [b]" "v = JsNumber (uint b)" using one [of v] by auto
    have len: "length (concat bss') = length vs"
      and eq: "vs = map (\<lambda>b. JsNumber (uint b)) (concat bss')"
      using Cons.IH [OF c(2)] by (rule conjunct1, rule conjunct2)
    have "v # vs = map (\<lambda>b. JsNumber (uint b)) (concat bss)"
      by (simp add: c(3) b flip: eq)
    moreover have "length (concat bss) = length (v # vs)" by (simp add: c(3) b len)
    ultimately show ?case by (rule conjI [rotated])
  qed simp
  from assms obtain vs bss where v: "v = JsArray vs" "length vs = n"
      "those (map (borshBytes U8) vs) = Some bss" "bs = concat bss"
    by (cases v) (auto simp: fixedBytes_def split: if_splits)
  have len: "length bs = length vs" and eq: "vs = map (\<lambda>b. JsNumber (uint b)) bs"
    using many [OF v(3)] unfolding v(4) by (rule conjunct1, rule conjunct2)
  show ?thesis by (simp add: v(1,2) bytesValue_def len flip: eq)
qed

section \<open>The reader of the layout\<close>

function readValue :: "schema \<Rightarrow> bytes \<Rightarrow> (js_value \<times> bytes) option"
  and readMany :: "nat \<Rightarrow> schema \<Rightarrow> bytes \<Rightarrow> (js_value list \<times> bytes) option"
  and readFields :: "(string \<times> schema) list \<Rightarrow> bytes \<Rightarrow> ((string \<times> js_value) list \<times> bytes) option"
where
  "readValue U8 bs = (if length bs < 1 then None else Some (JsNumber (leInt (take 1 bs)), drop 1 bs))"
| "readValue U16 bs = (if length bs < 2 then None else Some (JsNumber (leInt (take 2 bs)), drop 2 bs))"
| "readValue U32 bs = (if length bs < 4 then None else Some (JsNumber (leInt (take 4 bs)), drop 4 bs))"
| "readValue U64 bs = (if length bs < 8 then None else Some (JsBigint (leInt (take 8 bs)), drop 8 bs))"
| "readValue I64 bs = (if length bs < 8 then None else Some (JsBigint (leSigned (take 8 bs)), drop 8 bs))"
| "readValue (ArraySchema s (Some len)) bs = map_option (\<lambda>(vs, rest). (JsArray vs, rest)) (readMany len s bs)"
| "readValue (ArraySchema s None) bs =
     (if length bs < 4 then None
      else map_option (\<lambda>(vs, rest). (JsArray vs, rest)) (readMany (nat (leInt (take 4 bs))) s (drop 4 bs)))"
| "readValue (StructSchema fs) bs =
     (if distinct (map fst fs) then map_option (\<lambda>(obj, rest). (JsObject obj, rest)) (readFields fs bs) else None)"
| "readMany 0 s bs = Some ([], bs)"
| "readMany (Suc n) s bs =
     (case readValue s bs of None \<Rightarrow> None
      | Some (v, rest) \<Rightarrow> map_option (\<lambda>(vs, rest'). (v # vs, rest')) (readMany n s rest))"
| "readFields [] bs = Some ([], bs)"
| "readFields ((k, s) # fs) bs =
     (case readValue s bs of None \<Rightarrow> None
      | Some (v, rest) \<Rightarrow> map_option (\<lambda>(obj, rest'). ((k, v) # obj, rest')) (readFields fs rest))"
  by pat_completeness auto
termination
  by (relation "measures [\<lambda>x. case x of Inl (s, _) \<Rightarrow> 2 * size s | Inr (Inl (n, s, _)) \<Rightarrow> 2 * size s + 1
        | Inr (Inr (fs, _)) \<Rightarrow> 2 * size_list (size_prod (\<lambda>_. 0) size) fs,
      \<lambda>x. case x of Inl _ \<Rightarrow> 0 | Inr (Inl (n, _)) \<Rightarrow> n | Inr (Inr (fs, _)) \<Rightarrow> length fs]") auto

definition readAll :: "schema \<Rightarrow> bytes \<Rightarrow> js_value option" where
  "readAll s bs = (case readValue s bs of Some (v, []) \<Rightarrow> Some v | _ \<Rightarrow> None)"


subsection \<open>Writing then reading\<close>

lemma exactFields_keys: "exactFields fs obj \<Longrightarrow> map fst obj = map fst fs"
proof (induction fs arbitrary: obj)
  case (Cons f fs)
  then show ?case by (cases f; cases obj) auto
qed simp

lemma readValue_borshBytes:
  "borshBytes s v = Some enc \<Longrightarrow> exactShape s v \<Longrightarrow> bs = enc @ rest \<Longrightarrow> readValue s bs = Some (v, rest)"
  and readMany_borshBytes:
  "those (map (borshBytes s) vs) = Some encs \<Longrightarrow> list_all (exactShape s) vs \<Longrightarrow> length vs = n \<Longrightarrow>
     bs = concat encs @ rest \<Longrightarrow> readMany n s bs = Some (vs, rest)"
  and readFields_borshFields:
  "borshFields fs full = Some enc \<Longrightarrow> exactFields fs obj \<Longrightarrow>
     (\<And>k v. (k, v) \<in> set obj \<Longrightarrow> map_of full k = Some v) \<Longrightarrow> bs = enc @ rest \<Longrightarrow>
     readFields fs bs = Some (obj, rest)"
proof (induction s bs and n s bs and fs bs
    arbitrary: v enc rest and vs encs rest and full enc obj rest
    rule: readValue_readMany_readFields.induct)
  case (1 bs)
  then show ?case by (cases v) (auto simp: leUnsigned_Some_iff uint_word_of_int)
next
  case (2 bs)
  then show ?case by (cases v) (auto simp: leUnsigned_Some_iff leInt_leBytes_id)
next
  case (3 bs)
  then show ?case by (cases v) (auto simp: leUnsigned_Some_iff leInt_leBytes_id)
next
  case (4 bs)
  then show ?case by (cases v) (auto simp: leUnsigned_Some_iff leInt_leBytes_id)
next
  case (5 bs)
  then show ?case by (cases v) (auto simp: leSigned_leBytes split: if_splits)
next
  case (6 s len bs)
  then obtain vs encs where "v = JsArray vs" "length vs = len"
    "those (map (borshBytes s) vs) = Some encs" "enc = concat encs"
    by (cases v) (auto split: if_splits)
  with 6 show ?case by auto
next
  case (7 s bs)
  then obtain vs encs where v: "v = JsArray vs" "int (length vs) < 256 ^ 4"
    "those (map (borshBytes s) vs) = Some encs" "enc = leBytes 4 (int (length vs)) @ concat encs"
    by (cases v) (auto simp: leUnsigned_Some_iff split: option.splits)
  then have "nat (leInt (take 4 bs)) = length vs" "drop 4 bs = concat encs @ rest" "\<not> length bs < 4"
    using 7 by (simp_all add: leInt_leBytes_id)
  with v 7 show ?case by auto
next
  case (8 fs bs)
  then obtain obj where v: "v = JsObject obj" by (cases v) auto
  have "(k, x) \<in> set obj \<Longrightarrow> map_of obj k = Some x" for k x
    using 8 v by (auto simp: exactFields_keys intro!: map_of_is_SomeI)
  with 8 v show ?case by auto
next
  case (10 n s bs)
  then obtain w vs' c encs' where "vs = w # vs'" "borshBytes s w = Some c"
    "those (map (borshBytes s) vs') = Some encs'" "encs = c # encs'"
    by (cases vs) (auto split: option.splits)
  with 10 show ?case by auto
next
  case (12 k s fs bs)
  then obtain w obj' where o: "obj = (k, w) # obj'" by (cases obj) auto
  have full: "map_of full k = Some w" using 12(5) o by simp
  obtain c cs where e: "borshBytes s w = Some c" "borshFields fs full = Some cs" "enc = c @ cs"
    using 12(3) full by (auto split: option.splits)
  have "readValue s bs = Some (w, cs @ rest)"
    using 12(1) [of w c "cs @ rest"] 12(4,6) e o by simp
  moreover have "readFields fs (cs @ rest) = Some (obj', rest)"
    using 12(2) [OF calculation refl e(2), of obj' rest] 12(4,5) o by simp
  ultimately show ?case using o by simp
qed auto

subsection \<open>What is read conforms\<close>

lemma leInt_take_bound: "n \<le> length bs \<Longrightarrow> leInt (take n bs) < 256 ^ n"
  using leInt_bounds [of "take n bs"] by (simp add: min_absorb2)

lemma leInt_nonneg [simp]: "0 \<le> leInt bs"
  using leInt_bounds [of bs] by simp

lemma leSigned_bounds: "- (256 ^ length bs) \<le> 2 * leSigned bs \<and> 2 * leSigned bs < 256 ^ length bs"
proof -
  have "0 \<le> leInt bs" "leInt bs < 256 ^ length bs" "(0 :: int) < 256 ^ length bs"
    using leInt_bounds [of bs] by simp_all
  moreover from this have "- (256 ^ length bs) \<le> 2 * leInt bs" by linarith
  ultimately show ?thesis by (simp add: leSigned_def Let_def)
qed

lemma borshFields_None: "borshFields fs obj \<noteq> None \<longleftrightarrow>
    (\<forall>(k, s) \<in> set fs. \<exists>v. map_of obj k = Some v \<and> borshBytes s v \<noteq> None)"
  by (induction fs) (auto split: option.splits)

lemma readMany_length: "readMany n s bs = Some (vs, rest) \<Longrightarrow> length vs = n"
  by (induction n arbitrary: bs vs rest) (auto split: option.splits)

lemma readValue_conforms: "readValue s bs = Some (v, rest) \<Longrightarrow> borshBytes s v \<noteq> None"
  and readMany_conforms:
  "readMany n s bs = Some (vs, rest) \<Longrightarrow> those (map (borshBytes s) vs) \<noteq> None"
  and readFields_conforms:
  "readFields fs bs = Some (obj, rest) \<Longrightarrow> map fst obj = map fst fs \<and>
     list_all2 (\<lambda>f e. borshBytes (snd f) (snd e) \<noteq> None) fs obj"
proof (induction s bs and n s bs and fs bs
    arbitrary: v rest and vs rest and obj rest rule: readValue_readMany_readFields.induct)
  case (1 bs)
  then have "Suc 0 \<le> length bs" by (cases bs) auto
  with 1 show ?case using leInt_take_bound [of "Suc 0" bs]
    by (auto simp: leUnsigned_def split: if_splits)
next
  case (2 bs)
  then show ?case using leInt_take_bound [of 2 bs] by (auto simp: leUnsigned_def split: if_splits)
next
  case (3 bs)
  then show ?case using leInt_take_bound [of 4 bs] by (auto simp: leUnsigned_def split: if_splits)
next
  case (4 bs)
  then show ?case using leInt_take_bound [of 8 bs] by (auto simp: leUnsigned_def split: if_splits)
next
  case (5 bs)
  then show ?case using leSigned_bounds [of "take 8 bs"] by (auto split: if_splits)
next
  case (6 s len bs)
  then show ?case using readMany_length by fastforce
next
  case (7 s bs)
  then show ?case using leInt_take_bound [of 4 bs] readMany_length
    by (fastforce simp: leUnsigned_def split: if_splits)
next
  case (8 fs bs)
  then obtain obj where o: "v = JsObject obj" "readFields fs bs = Some (obj, rest)" "distinct (map fst fs)"
    by (auto split: if_splits)
  with 8 have keys: "map fst obj = map fst fs"
    and all: "list_all2 (\<lambda>f e. borshBytes (snd f) (snd e) \<noteq> None) fs obj" by blast+
  have "\<exists>v. map_of obj k = Some v \<and> borshBytes s v \<noteq> None" if f: "(k, s) \<in> set fs" for k s
  proof -
    from f obtain i where i: "i < length fs" "fs ! i = (k, s)" by (auto simp: in_set_conv_nth)
    with all have "i < length obj" "borshBytes s (snd (obj ! i)) \<noteq> None"
      by (auto simp: list_all2_conv_all_nth)
    moreover from this i keys have "fst (obj ! i) = k"
      by (metis fst_conv nth_map)
    ultimately have "map_of obj k = Some (snd (obj ! i))"
      using o(3) keys by (intro map_of_is_SomeI) (auto simp: in_set_conv_nth)
    with \<open>borshBytes s (snd (obj ! i)) \<noteq> None\<close> show ?thesis by blast
  qed
  then have "borshFields fs obj \<noteq> None" unfolding borshFields_None by blast
  then show ?case by (simp add: o)
next
  case (10 n s bs)
  then show ?case by (fastforce split: option.splits)
next
  case (12 k s fs bs)
  then show ?case by (fastforce split: option.splits)
qed auto

interpretation borsh: borsh_library borshBytes readAll
proof
  show "exactShape s v \<Longrightarrow> borshBytes s v = Some bs \<Longrightarrow> readAll s bs = Some v" for s v bs
    using readValue_borshBytes [of s v bs bs "[]"] by (simp add: readAll_def)
  show "readAll s bs = Some v \<Longrightarrow> borshBytes s v \<noteq> None" for s v bs
    using readValue_conforms [of s bs v "[]"] by (auto simp: readAll_def split: option.splits list.splits)
qed

end
