(* ===== verification/Crypto.thy ===== *)
theory Crypto
  imports Borsh
begin

text \<open>
  \<open>packages/crypto/src/index.ts\<close> over the third-party functions it wraps. Record \<open>lib\<close> collects
  every third-party function the packages call: \<open>borsh\<close>, \<open>@noble/hashes\<close> and
  \<open>@noble/ed25519\<close>. A call that throws is \<open>None\<close>. What is assumed of them is stated where it
  is needed, by \<open>borsh_library\<close>, \<open>hash_library\<close> and \<open>signature_library\<close>.
\<close>

record lib =
  borshSerialize :: "schema \<Rightarrow> js_value \<Rightarrow> bytes option"
  borshDeserialize :: "schema \<Rightarrow> bytes \<Rightarrow> js_value option"
  sha256 :: "bytes \<Rightarrow> bytes"
  ed25519GetPublicKey :: "bytes \<Rightarrow> bytes option"
  ed25519Sign :: "bytes \<Rightarrow> bytes \<Rightarrow> bytes option"
  ed25519Verify :: "bytes \<Rightarrow> bytes \<Rightarrow> bytes \<Rightarrow> bool option"

definition borsh_ok :: "lib \<Rightarrow> bool" where
  "borsh_ok L \<longleftrightarrow> borsh_library (borshSerialize L) (borshDeserialize L)"

lemma borshSerialize_layout:
  "borsh_ok L \<Longrightarrow> borshBytes s v = Some bs \<Longrightarrow> borshSerialize L s v = Some bs"
  unfolding borsh_ok_def by (rule borsh_library.serialize_layout)

lemma borshDeserialize_layout:
  "borsh_ok L \<Longrightarrow> exactShape s v \<Longrightarrow> borshBytes s v = Some bs \<Longrightarrow> borshDeserialize L s bs = Some v"
  unfolding borsh_ok_def by (rule borsh_library.deserialize_layout)

lemma borshDeserialize_conforms:
  "borsh_ok L \<Longrightarrow> borshDeserialize L s bs = Some v \<Longrightarrow> borshBytes s v \<noteq> None"
  unfolding borsh_ok_def by (rule borsh_library.deserialize_conforms)

text \<open>A SHA-256 digest has 32 bytes.\<close>

definition hash_ok :: "lib \<Rightarrow> bool" where
  "hash_ok L \<longleftrightarrow> (\<forall>m. length (sha256 L m) = 32)"

text \<open>
  Ed25519: a signature made with a secret key has 64 bytes and verifies under the public key
  derived from it.
\<close>

definition signature_ok :: "lib \<Rightarrow> bool" where
  "signature_ok L \<longleftrightarrow> (\<forall>m sk s pk. ed25519Sign L m sk = Some s \<longrightarrow> ed25519GetPublicKey L sk = Some pk \<longrightarrow>
     length s = 64 \<and> ed25519Verify L s m pk = Some True)"

section \<open>The wrappers\<close>

definition hashSha256 :: "lib \<Rightarrow> bytes \<Rightarrow> bytes" where
  "hashSha256 L message = sha256 L message"

definition derivePublicKey :: "lib \<Rightarrow> bytes \<Rightarrow> bytes result" where
  "derivePublicKey L secretKey = fromLib ''ed25519.getPublicKey'' (ed25519GetPublicKey L secretKey)"

definition signEd25519 :: "lib \<Rightarrow> bytes \<Rightarrow> bytes \<Rightarrow> bytes result" where
  "signEd25519 L message secretKey = fromLib ''ed25519.sign'' (ed25519Sign L message secretKey)"

definition verifyEd25519 :: "lib \<Rightarrow> bytes \<Rightarrow> bytes \<Rightarrow> bytes \<Rightarrow> bool" where
  "verifyEd25519 L signature message publicKey =
     (case ed25519Verify L signature message publicKey of None \<Rightarrow> False | Some b \<Rightarrow> b)"

lemma length_hashSha256: "hash_ok L \<Longrightarrow> length (hashSha256 L m) = 32"
  by (simp add: hash_ok_def hashSha256_def)

lemma verify_signEd25519:
  "signature_ok L \<Longrightarrow> signEd25519 L m sk = Inr s \<Longrightarrow> derivePublicKey L sk = Inr pk \<Longrightarrow>
     length s = 64 \<and> verifyEd25519 L s m pk"
  unfolding signature_ok_def signEd25519_def derivePublicKey_def verifyEd25519_def
  by (metis fromLib_Inr_iff option.case(2))

section \<open>Random bytes\<close>

text \<open>
  The operating system's generator is a state \<open>'s\<close> with a function that fills a buffer of a
  given length (\<open>globalThis.crypto\<close>, absent when it is \<open>None\<close>).
\<close>

type_synonym 's csprng = "nat \<Rightarrow> 's \<Rightarrow> bytes \<times> 's"

definition randomBytes :: "'s csprng option \<Rightarrow> int \<Rightarrow> 's \<Rightarrow> (bytes \<times> 's) result" where
  "randomBytes provider len s =
     (if len > 2 ^ 53 - 1 \<or> len \<le> 0 then Inl (JsError ''length must be a positive safe integer'')
      else case provider of
          None \<Rightarrow> Inl (JsError ''OS CSPRNG is unavailable'')
        | Some getRandomValues \<Rightarrow> Inr (getRandomValues (nat len) s))"

definition generateSecretKey :: "'s csprng option \<Rightarrow> 's \<Rightarrow> (bytes \<times> 's) result" where
  "generateSecretKey provider s = randomBytes provider 32 s"

definition allZero :: "bytes \<Rightarrow> bool" where
  "allZero bs = list_all (\<lambda>b. b = 0) bs"

text \<open>
  \<open>generateChallenge\<close> draws until a block is not all zero: it may not return, so its result is
  an option.
\<close>

partial_function (option) generateChallenge ::
  "'s csprng option \<Rightarrow> 's \<Rightarrow> (bytes \<times> 's) result option" where
  "generateChallenge provider s =
     (case randomBytes provider 32 s of
        Inl e \<Rightarrow> Some (Inl e)
      | Inr (challenge, s') \<Rightarrow>
          (if allZero challenge then generateChallenge provider s'
           else Some (Inr (challenge, s'))))"

text \<open>The generator's state after \<open>n\<close> further draws of 32 bytes.\<close>

fun afterDraws :: "'s csprng \<Rightarrow> nat \<Rightarrow> 's \<Rightarrow> 's" where
  "afterDraws g 0 s = s"
| "afterDraws g (Suc n) s = afterDraws g n (snd (g 32 s))"

lemma randomBytes_32: "randomBytes (Some g) 32 s = Inr (g 32 s)"
  by (simp add: randomBytes_def)

lemma generateChallenge_step:
  "generateChallenge (Some g) s =
     (if allZero (fst (g 32 s)) then generateChallenge (Some g) (snd (g 32 s))
      else Some (Inr (g 32 s)))"
  by (subst generateChallenge.simps) (simp add: randomBytes_32 split: prod.split)

lemma generateChallenge_returns:
  assumes "\<not> allZero (fst (g 32 (afterDraws g n s)))"
  shows "\<exists>challenge s'. generateChallenge (Some g) s = Some (Inr (challenge, s')) \<and> \<not> allZero challenge"
  using assms
proof (induction n arbitrary: s)
  case 0
  then show ?case
    by (simp add: generateChallenge_step) (metis prod.collapse)
next
  case (Suc n)
  show ?case
  proof (cases "allZero (fst (g 32 s))")
    case True
    with Suc show ?thesis by (simp add: generateChallenge_step [of g s])
  next
    case False
    then show ?thesis by (simp add: generateChallenge_step) (metis prod.collapse)
  qed
qed

lemma generateChallenge_nonzero:
  assumes "generateChallenge p s = Some (Inr (challenge, s'))"
  shows "\<not> allZero challenge"
proof -
  have "\<forall>c t. r = Inr (c, t) \<longrightarrow> \<not> allZero c" if "generateChallenge p s = Some r" for r
  proof (rule generateChallenge.raw_induct
      [where P = "\<lambda>p s r. \<forall>c t. r = Inr (c, t) \<longrightarrow> \<not> allZero c", OF _ that])
    fix gc and p :: "'a csprng option" and s and r :: "(bytes \<times> 'a) result"
    assume IH: "\<And>p s r. gc p s = Some r \<Longrightarrow> \<forall>c t. r = Inr (c, t) \<longrightarrow> \<not> allZero c"
      and eq: "(case randomBytes p 32 s of Inl e \<Rightarrow> Some (Inl e)
        | Inr (challenge, s') \<Rightarrow> if allZero challenge then gc p s' else Some (Inr (challenge, s'))) = Some r"
    then show "\<forall>c t. r = Inr (c, t) \<longrightarrow> \<not> allZero c"
      by (auto split: sum.splits prod.splits if_splits)
  qed
  with assms show ?thesis by blast
qed

end
