(* ===== verification/CanonicalCodec.thy ===== *)
theory CanonicalCodec
  imports SharedTypes Crypto
begin

text \<open>
  \<open>packages/canonical-codec/src/index.ts\<close>: the Borsh schemas, the validation of each object
  before it is serialised, the canonical encoders, the strict decoders of the three objects
  that travel between devices, and the proof bundle. Theory \<open>CodecContract\<close> shows what they
  promise.
\<close>

section \<open>Schemas\<close>

type_synonym fields = "(string \<times> schema) list"
type_synonym js_object = "(string \<times> js_value) list"

definition domainFields :: fields where
  "domainFields =
    [(''protocolName'', fixedBytes 8),
     (''protocolVersion'', U16),
     (''schemaVersion'', U16),
     (''objectType'', U8),
     (''networkId'', U8),
     (''clusterGenesisHash'', fixedBytes 32),
     (''programId'', fixedBytes 32),
     (''sessionId'', fixedBytes 32)]"

definition deviceAuthorizationFields :: fields where
  "deviceAuthorizationFields = domainFields @
    [(''owner'', fixedBytes 32),
     (''devicePublicKey'', fixedBytes 32),
     (''payloadSessionId'', fixedBytes 32),
     (''vault'', fixedBytes 32),
     (''branchSpendingLimit'', U64),
     (''collateralCoverageCap'', U64),
     (''maxBranchDepth'', U32),
     (''issuedAt'', I64),
     (''expiresAt'', I64),
     (''authorizationNonce'', fixedBytes 32)]"

definition sessionCertificateFields :: fields where
  "sessionCertificateFields = domainFields @
    [(''payloadSessionId'', fixedBytes 32),
     (''owner'', fixedBytes 32),
     (''devicePublicKey'', fixedBytes 32),
     (''vault'', fixedBytes 32),
     (''tokenMint'', fixedBytes 32),
     (''branchSpendingLimit'', U64),
     (''collateralLocked'', U64),
     (''collateralCoverageCap'', U64),
     (''maxBranchDepth'', U32),
     (''issuedAt'', I64),
     (''expiresAt'', I64),
     (''claimSubmissionDeadline'', I64),
     (''genesisStateHash'', fixedBytes 32),
     (''deviceAuthorizationHash'', fixedBytes 32),
     (''identityAttestationHash'', fixedBytes 32),
     (''issuer'', fixedBytes 32),
     (''finalizedSlot'', U64),
     (''certificateNonce'', fixedBytes 32)]"

definition genesisStateFields :: fields where
  "genesisStateFields = domainFields @
    [(''owner'', fixedBytes 32),
     (''devicePublicKey'', fixedBytes 32),
     (''branchSpendingLimit'', U64),
     (''maxBranchDepth'', U32),
     (''initialRemaining'', U64),
     (''issuedAt'', I64),
     (''expiresAt'', I64)]"

definition paymentStateFields :: fields where
  "paymentStateFields = domainFields @
    [(''previousStateHash'', fixedBytes 32),
     (''sequence'', U32),
     (''merchant'', fixedBytes 32),
     (''amount'', U64),
     (''merchantChallenge'', fixedBytes 32),
     (''previousRemaining'', U64),
     (''newRemaining'', U64)]"

definition paymentCredentialFields :: fields where
  "paymentCredentialFields = domainFields @
    [(''payloadSessionId'', fixedBytes 32),
     (''sequence'', U32),
     (''payer'', fixedBytes 32),
     (''payerDeviceKey'', fixedBytes 32),
     (''merchant'', fixedBytes 32),
     (''merchantDeviceKey'', fixedBytes 32),
     (''amount'', U64),
     (''previousStateHash'', fixedBytes 32),
     (''newStateHash'', fixedBytes 32),
     (''previousRemaining'', U64),
     (''newRemaining'', U64),
     (''merchantChallenge'', fixedBytes 32),
     (''createdAt'', I64),
     (''sessionExpiresAt'', I64)]"

definition identityAttestationFields :: fields where
  "identityAttestationFields = domainFields @
    [(''issuer'', fixedBytes 32),
     (''subjectWallet'', fixedBytes 32),
     (''assuranceLevel'', U8),
     (''issuedAt'', I64),
     (''expiresAt'', I64),
     (''attestationId'', fixedBytes 32),
     (''status'', U8)]"

text \<open>\<open>ENCODED_LENGTHS\<close>\<close>

definition LEN_deviceAuthorizationPayload :: nat where "LEN_deviceAuthorizationPayload = 306"
definition LEN_deviceAuthorization :: nat where "LEN_deviceAuthorization = 370"
definition LEN_sessionCertificatePayload :: nat where "LEN_sessionCertificatePayload = 490"
definition LEN_sessionCertificate :: nat where "LEN_sessionCertificate = 554"
definition LEN_genesisState :: nat where "LEN_genesisState = 210"
definition LEN_paymentState :: nat where "LEN_paymentState = 234"
definition LEN_paymentCredentialPayload :: nat where "LEN_paymentCredentialPayload = 410"
definition LEN_paymentCredential :: nat where "LEN_paymentCredential = 474"
definition LEN_identityAttestationPayload :: nat where "LEN_identityAttestationPayload = 224"
definition LEN_identityAttestation :: nat where "LEN_identityAttestation = 288"

lemmas encoded_lengths =
  LEN_deviceAuthorizationPayload_def LEN_deviceAuthorization_def
  LEN_sessionCertificatePayload_def LEN_sessionCertificate_def LEN_genesisState_def
  LEN_paymentState_def LEN_paymentCredentialPayload_def LEN_paymentCredential_def
  LEN_identityAttestationPayload_def LEN_identityAttestation_def

lemmas object_fields =
  deviceAuthorizationFields_def sessionCertificateFields_def genesisStateFields_def
  paymentStateFields_def paymentCredentialFields_def identityAttestationFields_def
  domainFields_def

section \<open>Validation\<close>

definition domainValue :: "Domain \<Rightarrow> js_object" where
  "domainValue domain =
    [(''protocolName'', bytesValue (dm_protocolName domain)),
     (''protocolVersion'', JsNumber (dm_protocolVersion domain)),
     (''schemaVersion'', JsNumber (dm_schemaVersion domain)),
     (''objectType'', JsNumber (dm_objectType domain)),
     (''networkId'', JsNumber (dm_networkId domain)),
     (''clusterGenesisHash'', bytesValue (dm_clusterGenesisHash domain)),
     (''programId'', bytesValue (dm_programId domain)),
     (''sessionId'', bytesValue (dm_sessionId domain))]"

definition assertDomain :: "Domain \<Rightarrow> ObjectType option \<Rightarrow> unit result" where
  "assertDomain domain expectedType = runE
    [assertBytes (dm_protocolName domain) 8,
     throwIf (\<not> equalBytes (dm_protocolName domain) PROTOCOL_NAME) ''DOMAIN_MISMATCH'',
     assertU16 (dm_protocolVersion domain),
     assertU16 (dm_schemaVersion domain),
     throwIf (dm_protocolVersion domain \<noteq> PROTOCOL_VERSION \<or> dm_schemaVersion domain \<noteq> SCHEMA_VERSION)
       ''DOMAIN_MISMATCH'',
     assertU8 (dm_objectType domain),
     assertU8 (dm_networkId domain),
     throwIf (dm_networkId domain > 2) ''DOMAIN_MISMATCH'',
     throwIf (case expectedType of None \<Rightarrow> False | Some t \<Rightarrow> dm_objectType domain \<noteq> objectNumber t)
       ''DOMAIN_MISMATCH'',
     assertBytes (dm_clusterGenesisHash domain) HASH_LENGTH,
     assertBytes (dm_programId domain) PUBLIC_KEY_LENGTH,
     assertBytes (dm_sessionId domain) HASH_LENGTH]"

definition commonValue :: "Domain \<Rightarrow> ObjectType \<Rightarrow> js_object result" where
  "commonValue domain type = bindE (assertDomain domain (Some type)) (\<lambda>_. Inr (domainValue domain))"

definition deviceAuthorizationValue :: "'a DeviceAuthorizationPayload_scheme \<Rightarrow> js_object result" where
  "deviceAuthorizationValue value =
    bindE (runE
      [assertBytes (da_owner value) 32,
       assertBytes (da_devicePublicKey value) 32,
       assertBytes (da_sessionId value) 32,
       assertBytes (da_vault value) 32,
       assertU64 (da_branchSpendingLimit value),
       assertU64 (da_collateralCoverageCap value),
       assertU32 (da_maxBranchDepth value),
       assertI64 (da_issuedAt value),
       assertI64 (da_expiresAt value),
       assertBytes (da_authorizationNonce value) 32]) (\<lambda>_.
    bindE (commonValue (da_domain value) DeviceAuthorizationObject) (\<lambda>domain.
      Inr (domain @
       [(''owner'', bytesValue (da_owner value)),
        (''devicePublicKey'', bytesValue (da_devicePublicKey value)),
        (''payloadSessionId'', bytesValue (da_sessionId value)),
        (''vault'', bytesValue (da_vault value)),
        (''branchSpendingLimit'', JsBigint (da_branchSpendingLimit value)),
        (''collateralCoverageCap'', JsBigint (da_collateralCoverageCap value)),
        (''maxBranchDepth'', JsNumber (da_maxBranchDepth value)),
        (''issuedAt'', JsBigint (da_issuedAt value)),
        (''expiresAt'', JsBigint (da_expiresAt value)),
        (''authorizationNonce'', bytesValue (da_authorizationNonce value))])))"

definition sessionCertificateValue :: "'a SessionCertificatePayload_scheme \<Rightarrow> js_object result" where
  "sessionCertificateValue value =
    bindE (runE
      [assertBytes (sc_sessionId value) 32,
       assertBytes (sc_owner value) 32,
       assertBytes (sc_devicePublicKey value) 32,
       assertBytes (sc_vault value) 32,
       assertBytes (sc_tokenMint value) 32,
       assertBytes (sc_genesisStateHash value) 32,
       assertBytes (sc_deviceAuthorizationHash value) 32,
       assertBytes (sc_identityAttestationHash value) 32,
       assertBytes (sc_issuer value) 32,
       assertBytes (sc_certificateNonce value) 32,
       assertU64 (sc_branchSpendingLimit value),
       assertU64 (sc_collateralLocked value),
       assertU64 (sc_collateralCoverageCap value),
       assertU64 (sc_finalizedSlot value),
       assertU32 (sc_maxBranchDepth value),
       assertI64 (sc_issuedAt value),
       assertI64 (sc_expiresAt value),
       assertI64 (sc_claimSubmissionDeadline value)]) (\<lambda>_.
    bindE (commonValue (sc_domain value) SessionCertificateObject) (\<lambda>domain.
      Inr (domain @
       [(''payloadSessionId'', bytesValue (sc_sessionId value)),
        (''owner'', bytesValue (sc_owner value)),
        (''devicePublicKey'', bytesValue (sc_devicePublicKey value)),
        (''vault'', bytesValue (sc_vault value)),
        (''tokenMint'', bytesValue (sc_tokenMint value)),
        (''branchSpendingLimit'', JsBigint (sc_branchSpendingLimit value)),
        (''collateralLocked'', JsBigint (sc_collateralLocked value)),
        (''collateralCoverageCap'', JsBigint (sc_collateralCoverageCap value)),
        (''maxBranchDepth'', JsNumber (sc_maxBranchDepth value)),
        (''issuedAt'', JsBigint (sc_issuedAt value)),
        (''expiresAt'', JsBigint (sc_expiresAt value)),
        (''claimSubmissionDeadline'', JsBigint (sc_claimSubmissionDeadline value)),
        (''genesisStateHash'', bytesValue (sc_genesisStateHash value)),
        (''deviceAuthorizationHash'', bytesValue (sc_deviceAuthorizationHash value)),
        (''identityAttestationHash'', bytesValue (sc_identityAttestationHash value)),
        (''issuer'', bytesValue (sc_issuer value)),
        (''finalizedSlot'', JsBigint (sc_finalizedSlot value)),
        (''certificateNonce'', bytesValue (sc_certificateNonce value))])))"

definition genesisStateValue :: "GenesisState \<Rightarrow> js_object result" where
  "genesisStateValue value =
    bindE (runE
      [assertBytes (gs_owner value) 32,
       assertBytes (gs_devicePublicKey value) 32,
       assertU64 (gs_branchSpendingLimit value),
       assertU32 (gs_maxBranchDepth value),
       assertU64 (gs_initialRemaining value),
       assertI64 (gs_issuedAt value),
       assertI64 (gs_expiresAt value)]) (\<lambda>_.
    bindE (commonValue (gs_domain value) GenesisStateObject) (\<lambda>domain.
      Inr (domain @
       [(''owner'', bytesValue (gs_owner value)),
        (''devicePublicKey'', bytesValue (gs_devicePublicKey value)),
        (''branchSpendingLimit'', JsBigint (gs_branchSpendingLimit value)),
        (''maxBranchDepth'', JsNumber (gs_maxBranchDepth value)),
        (''initialRemaining'', JsBigint (gs_initialRemaining value)),
        (''issuedAt'', JsBigint (gs_issuedAt value)),
        (''expiresAt'', JsBigint (gs_expiresAt value))])))"

definition paymentStateValue :: "PaymentState \<Rightarrow> js_object result" where
  "paymentStateValue value =
    bindE (runE
      [assertBytes (ps_previousStateHash value) 32,
       assertU32 (ps_sequence value),
       assertBytes (ps_merchant value) 32,
       assertU64 (ps_amount value),
       assertBytes (ps_merchantChallenge value) CHALLENGE_LENGTH,
       assertU64 (ps_previousRemaining value),
       assertU64 (ps_newRemaining value)]) (\<lambda>_.
    bindE (commonValue (ps_domain value) PaymentStateObject) (\<lambda>domain.
      Inr (domain @
       [(''previousStateHash'', bytesValue (ps_previousStateHash value)),
        (''sequence'', JsNumber (ps_sequence value)),
        (''merchant'', bytesValue (ps_merchant value)),
        (''amount'', JsBigint (ps_amount value)),
        (''merchantChallenge'', bytesValue (ps_merchantChallenge value)),
        (''previousRemaining'', JsBigint (ps_previousRemaining value)),
        (''newRemaining'', JsBigint (ps_newRemaining value))])))"

definition paymentCredentialValue :: "'a PaymentCredentialPayload_scheme \<Rightarrow> js_object result" where
  "paymentCredentialValue value =
    bindE (runE
      [assertBytes (pc_sessionId value) 32,
       assertBytes (pc_payer value) 32,
       assertBytes (pc_payerDeviceKey value) 32,
       assertBytes (pc_merchant value) 32,
       assertBytes (pc_merchantDeviceKey value) 32,
       assertBytes (pc_previousStateHash value) 32,
       assertBytes (pc_newStateHash value) 32,
       assertBytes (pc_merchantChallenge value) 32,
       assertU32 (pc_sequence value),
       assertU64 (pc_amount value),
       assertU64 (pc_previousRemaining value),
       assertU64 (pc_newRemaining value),
       assertI64 (pc_createdAt value),
       assertI64 (pc_sessionExpiresAt value)]) (\<lambda>_.
    bindE (commonValue (pc_domain value) PaymentCredentialObject) (\<lambda>domain.
      Inr (domain @
       [(''payloadSessionId'', bytesValue (pc_sessionId value)),
        (''sequence'', JsNumber (pc_sequence value)),
        (''payer'', bytesValue (pc_payer value)),
        (''payerDeviceKey'', bytesValue (pc_payerDeviceKey value)),
        (''merchant'', bytesValue (pc_merchant value)),
        (''merchantDeviceKey'', bytesValue (pc_merchantDeviceKey value)),
        (''amount'', JsBigint (pc_amount value)),
        (''previousStateHash'', bytesValue (pc_previousStateHash value)),
        (''newStateHash'', bytesValue (pc_newStateHash value)),
        (''previousRemaining'', JsBigint (pc_previousRemaining value)),
        (''newRemaining'', JsBigint (pc_newRemaining value)),
        (''merchantChallenge'', bytesValue (pc_merchantChallenge value)),
        (''createdAt'', JsBigint (pc_createdAt value)),
        (''sessionExpiresAt'', JsBigint (pc_sessionExpiresAt value))])))"

definition identityAttestationValue :: "'a IdentityAttestationPayload_scheme \<Rightarrow> js_object result" where
  "identityAttestationValue value =
    bindE (runE
      [assertBytes (ia_issuer value) 32,
       assertBytes (ia_subjectWallet value) 32,
       assertU8 (ia_assuranceLevel value),
       assertI64 (ia_issuedAt value),
       assertI64 (ia_expiresAt value),
       assertBytes (ia_attestationId value) 32,
       assertU8 (ia_status value),
       throwIf (ia_status value > 1) ''UNKNOWN_ENUM'']) (\<lambda>_.
    bindE (commonValue (ia_domain value) IdentityAttestationObject) (\<lambda>domain.
      Inr (domain @
       [(''issuer'', bytesValue (ia_issuer value)),
        (''subjectWallet'', bytesValue (ia_subjectWallet value)),
        (''assuranceLevel'', JsNumber (ia_assuranceLevel value)),
        (''issuedAt'', JsBigint (ia_issuedAt value)),
        (''expiresAt'', JsBigint (ia_expiresAt value)),
        (''attestationId'', bytesValue (ia_attestationId value)),
        (''status'', JsNumber (ia_status value))])))"

section \<open>Encoders\<close>

definition encodeStruct :: "lib \<Rightarrow> fields \<Rightarrow> js_object \<Rightarrow> nat \<Rightarrow> bytes result" where
  "encodeStruct L shape value expectedLength =
    bindE (fromLib ''borsh.serialize'' (borshSerialize L (StructSchema shape) (JsObject value))) (\<lambda>encoded.
    bindE (throwIf (length encoded \<noteq> expectedLength) ''NON_CANONICAL_ENCODING'') (\<lambda>_.
      Inr encoded))"

definition encodeDeviceAuthorizationPayload :: "lib \<Rightarrow> 'a DeviceAuthorizationPayload_scheme \<Rightarrow> bytes result" where
  "encodeDeviceAuthorizationPayload L value =
    bindE (deviceAuthorizationValue value) (\<lambda>object. encodeStruct L deviceAuthorizationFields object LEN_deviceAuthorizationPayload)"

definition encodeDeviceAuthorization :: "lib \<Rightarrow> DeviceAuthorization \<Rightarrow> bytes result" where
  "encodeDeviceAuthorization L value =
    bindE (assertBytes (da_walletSignature value) SIGNATURE_LENGTH) (\<lambda>_.
    bindE (deviceAuthorizationValue value) (\<lambda>object.
      encodeStruct L (deviceAuthorizationFields @ [(''walletSignature'', fixedBytes 64)])
        (object @ [(''walletSignature'', bytesValue (da_walletSignature value))]) LEN_deviceAuthorization))"

definition encodeSessionCertificatePayload :: "lib \<Rightarrow> 'a SessionCertificatePayload_scheme \<Rightarrow> bytes result" where
  "encodeSessionCertificatePayload L value =
    bindE (sessionCertificateValue value) (\<lambda>object. encodeStruct L sessionCertificateFields object LEN_sessionCertificatePayload)"

definition encodeSessionCertificate :: "lib \<Rightarrow> SessionCertificate \<Rightarrow> bytes result" where
  "encodeSessionCertificate L value =
    bindE (assertBytes (sc_issuerSignature value) 64) (\<lambda>_.
    bindE (sessionCertificateValue value) (\<lambda>object.
      encodeStruct L (sessionCertificateFields @ [(''issuerSignature'', fixedBytes 64)])
        (object @ [(''issuerSignature'', bytesValue (sc_issuerSignature value))]) LEN_sessionCertificate))"

definition encodeGenesisState :: "lib \<Rightarrow> GenesisState \<Rightarrow> bytes result" where
  "encodeGenesisState L value =
    bindE (genesisStateValue value) (\<lambda>object. encodeStruct L genesisStateFields object LEN_genesisState)"

definition encodePaymentState :: "lib \<Rightarrow> PaymentState \<Rightarrow> bytes result" where
  "encodePaymentState L value =
    bindE (paymentStateValue value) (\<lambda>object. encodeStruct L paymentStateFields object LEN_paymentState)"

definition encodePaymentCredentialPayload :: "lib \<Rightarrow> 'a PaymentCredentialPayload_scheme \<Rightarrow> bytes result" where
  "encodePaymentCredentialPayload L value =
    bindE (paymentCredentialValue value) (\<lambda>object. encodeStruct L paymentCredentialFields object LEN_paymentCredentialPayload)"

definition encodePaymentCredential :: "lib \<Rightarrow> PaymentCredential \<Rightarrow> bytes result" where
  "encodePaymentCredential L value =
    bindE (assertBytes (pc_payerSignature value) 64) (\<lambda>_.
    bindE (paymentCredentialValue value) (\<lambda>object.
      encodeStruct L (paymentCredentialFields @ [(''payerSignature'', fixedBytes 64)])
        (object @ [(''payerSignature'', bytesValue (pc_payerSignature value))]) LEN_paymentCredential))"

definition encodeIdentityAttestationPayload :: "lib \<Rightarrow> 'a IdentityAttestationPayload_scheme \<Rightarrow> bytes result" where
  "encodeIdentityAttestationPayload L value =
    bindE (identityAttestationValue value) (\<lambda>object. encodeStruct L identityAttestationFields object LEN_identityAttestationPayload)"

definition encodeIdentityAttestation :: "lib \<Rightarrow> IdentityAttestation \<Rightarrow> bytes result" where
  "encodeIdentityAttestation L value =
    bindE (assertBytes (ia_issuerSignature value) 64) (\<lambda>_.
    bindE (identityAttestationValue value) (\<lambda>object.
      encodeStruct L (identityAttestationFields @ [(''issuerSignature'', fixedBytes 64)])
        (object @ [(''issuerSignature'', bytesValue (ia_issuerSignature value))]) LEN_identityAttestation))"

section \<open>The proof bundle\<close>

definition credentialProofBundleSchema :: schema where
  "credentialProofBundleSchema = StructSchema
    [(''sessionCertificate'', StructSchema (sessionCertificateFields @ [(''issuerSignature'', fixedBytes 64)])),
     (''deviceAuthorization'', StructSchema (deviceAuthorizationFields @ [(''walletSignature'', fixedBytes 64)])),
     (''credentials'', ArraySchema (StructSchema (paymentCredentialFields @ [(''payerSignature'', fixedBytes 64)])) None)]"

definition credentialProofBundleEncodedLength :: "int \<Rightarrow> nat result" where
  "credentialProofBundleEncodedLength depth =
    bindE (assertU32 depth) (\<lambda>_.
    bindE (throwIf (depth > MAX_BRANCH_DEPTH) ''BRANCH_DEPTH_EXCEEDED'') (\<lambda>_.
      Inr (LEN_sessionCertificate + LEN_deviceAuthorization + 4 + nat depth * LEN_paymentCredential)))"

definition encodeCredentialProofBundle :: "lib \<Rightarrow> CredentialProofBundle \<Rightarrow> bytes result" where
  "encodeCredentialProofBundle L value =
    bindE (credentialProofBundleEncodedLength (int (length (credentials value)))) (\<lambda>expectedLength.
    bindE (sessionCertificateValue (sessionCertificate value)) (\<lambda>certificate.
    bindE (deviceAuthorizationValue (deviceAuthorization value)) (\<lambda>authorization.
    bindE (mapE (\<lambda>credential. bindE (paymentCredentialValue credential) (\<lambda>object.
        Inr (JsObject (object @ [(''payerSignature'', bytesValue (pc_payerSignature credential))]))))
      (credentials value)) (\<lambda>creds.
    bindE (fromLib ''borsh.serialize'' (borshSerialize L credentialProofBundleSchema (JsObject
      [(''sessionCertificate'', JsObject (certificate @
          [(''issuerSignature'', bytesValue (sc_issuerSignature (sessionCertificate value)))])),
       (''deviceAuthorization'', JsObject (authorization @
          [(''walletSignature'', bytesValue (da_walletSignature (deviceAuthorization value)))])),
       (''credentials'', JsArray creds)]))) (\<lambda>encoded.
    bindE (throwIf (length encoded \<noteq> expectedLength) ''NON_CANONICAL_ENCODING'') (\<lambda>_.
      Inr encoded))))))"

section \<open>Decoders\<close>

fun byteItem :: "js_value \<Rightarrow> byte option" where
  "byteItem (JsNumber n) = (if n < 0 \<or> n > 255 then None else Some (word_of_int n))"
| "byteItem _ = None"

definition decodedBytes :: "js_value option \<Rightarrow> bytes result" where
  "decodedBytes value =
    (case value of
       Some (JsArray items) \<Rightarrow>
         (case those (map byteItem items) of
            None \<Rightarrow> Inl (OgpValidationError ''NON_CANONICAL_ENCODING'')
          | Some bs \<Rightarrow> Inr bs)
     | _ \<Rightarrow> Inl (OgpValidationError ''NON_CANONICAL_ENCODING''))"

text \<open>
  \<open>Number(x)\<close> and \<open>BigInt(x)\<close> on a decoded field. On anything but a number, \<open>Number\<close> yields
  \<open>NaN\<close>, which the range assertion of the field rejects.
\<close>

definition numberField :: "js_object \<Rightarrow> string \<Rightarrow> int result" where
  "numberField value key =
    (case map_of value key of
       Some (JsNumber n) \<Rightarrow> Inr n
     | Some (JsBigint n) \<Rightarrow> Inr n
     | _ \<Rightarrow> Inl (OgpValidationError ''INTEGER_OUT_OF_RANGE''))"

definition bigintField :: "js_object \<Rightarrow> string \<Rightarrow> int result" where
  "bigintField value key =
    (case map_of value key of
       Some (JsNumber n) \<Rightarrow> Inr n
     | Some (JsBigint n) \<Rightarrow> Inr n
     | _ \<Rightarrow> Inl (JsError ''BigInt''))"

definition bytesField :: "js_object \<Rightarrow> string \<Rightarrow> bytes result" where
  "bytesField value key = decodedBytes (map_of value key)"

definition domainFromDecoded :: "js_object \<Rightarrow> Domain result" where
  "domainFromDecoded value =
    bindE (bytesField value ''protocolName'') (\<lambda>protocolName.
    bindE (numberField value ''protocolVersion'') (\<lambda>protocolVersion.
    bindE (numberField value ''schemaVersion'') (\<lambda>schemaVersion.
    bindE (numberField value ''objectType'') (\<lambda>objectType.
    bindE (numberField value ''networkId'') (\<lambda>networkId.
    bindE (bytesField value ''clusterGenesisHash'') (\<lambda>clusterGenesisHash.
    bindE (bytesField value ''programId'') (\<lambda>programId.
    bindE (bytesField value ''sessionId'') (\<lambda>sessionId.
      Inr \<lparr>dm_protocolName = protocolName, dm_protocolVersion = protocolVersion,
        dm_schemaVersion = schemaVersion, dm_objectType = objectType, dm_networkId = networkId,
        dm_clusterGenesisHash = clusterGenesisHash, dm_programId = programId,
        dm_sessionId = sessionId\<rparr>))))))))"

text \<open>Decode, serialise again, and accept only if the bytes are the input.\<close>

definition strictDecode :: "lib \<Rightarrow> fields \<Rightarrow> bytes \<Rightarrow> nat \<Rightarrow> js_object result" where
  "strictDecode L shape input expectedLength =
    bindE (throwIf (length input \<noteq> expectedLength) ''INVALID_LENGTH'') (\<lambda>_.
    bindE (case borshDeserialize L (StructSchema shape) input of
        Some (JsObject object) \<Rightarrow> Inr object
      | _ \<Rightarrow> Inl (OgpValidationError ''NON_CANONICAL_ENCODING'')) (\<lambda>decoded.
    bindE (fromLib ''borsh.serialize'' (borshSerialize L (StructSchema shape) (JsObject decoded))) (\<lambda>again.
    bindE (throwIf (\<not> equalBytes again input) ''NON_CANONICAL_ENCODING'') (\<lambda>_.
      Inr decoded))))"

definition paymentCredentialFromDecoded :: "js_object \<Rightarrow> PaymentCredential result" where
  "paymentCredentialFromDecoded value =
     bindE (domainFromDecoded value) (\<lambda>domain.
     bindE (bytesField value ''payloadSessionId'') (\<lambda>sessionId.
     bindE (numberField value ''sequence'') (\<lambda>sequence.
     bindE (bytesField value ''payer'') (\<lambda>payer.
     bindE (bytesField value ''payerDeviceKey'') (\<lambda>payerDeviceKey.
     bindE (bytesField value ''merchant'') (\<lambda>merchant.
     bindE (bytesField value ''merchantDeviceKey'') (\<lambda>merchantDeviceKey.
     bindE (bigintField value ''amount'') (\<lambda>amount.
     bindE (bytesField value ''previousStateHash'') (\<lambda>previousStateHash.
     bindE (bytesField value ''newStateHash'') (\<lambda>newStateHash.
     bindE (bigintField value ''previousRemaining'') (\<lambda>previousRemaining.
     bindE (bigintField value ''newRemaining'') (\<lambda>newRemaining.
     bindE (bytesField value ''merchantChallenge'') (\<lambda>merchantChallenge.
     bindE (bigintField value ''createdAt'') (\<lambda>createdAt.
     bindE (bigintField value ''sessionExpiresAt'') (\<lambda>sessionExpiresAt.
     bindE (bytesField value ''payerSignature'') (\<lambda>payerSignature.
     Inr \<lparr>pc_domain = domain, pc_sessionId = sessionId, pc_sequence = sequence,
        pc_payer = payer, pc_payerDeviceKey = payerDeviceKey, pc_merchant = merchant,
        pc_merchantDeviceKey = merchantDeviceKey, pc_amount = amount,
        pc_previousStateHash = previousStateHash, pc_newStateHash = newStateHash,
        pc_previousRemaining = previousRemaining, pc_newRemaining = newRemaining,
        pc_merchantChallenge = merchantChallenge, pc_createdAt = createdAt,
        pc_sessionExpiresAt = sessionExpiresAt,
        pc_payerSignature = payerSignature\<rparr>))))))))))))))))"

definition decodePaymentCredential :: "lib \<Rightarrow> bytes \<Rightarrow> PaymentCredential result" where
  "decodePaymentCredential L input =
    bindE (strictDecode L (paymentCredentialFields @ [(''payerSignature'', fixedBytes 64)]) input LEN_paymentCredential) (\<lambda>value.
    bindE (paymentCredentialFromDecoded value) (\<lambda>result.
    bindE (paymentCredentialValue result) (\<lambda>_.
      Inr result)))"

definition deviceAuthorizationFromDecoded :: "js_object \<Rightarrow> DeviceAuthorization result" where
  "deviceAuthorizationFromDecoded value =
     bindE (domainFromDecoded value) (\<lambda>domain.
     bindE (bytesField value ''owner'') (\<lambda>owner.
     bindE (bytesField value ''devicePublicKey'') (\<lambda>devicePublicKey.
     bindE (bytesField value ''payloadSessionId'') (\<lambda>sessionId.
     bindE (bytesField value ''vault'') (\<lambda>vault.
     bindE (bigintField value ''branchSpendingLimit'') (\<lambda>branchSpendingLimit.
     bindE (bigintField value ''collateralCoverageCap'') (\<lambda>collateralCoverageCap.
     bindE (numberField value ''maxBranchDepth'') (\<lambda>maxBranchDepth.
     bindE (bigintField value ''issuedAt'') (\<lambda>issuedAt.
     bindE (bigintField value ''expiresAt'') (\<lambda>expiresAt.
     bindE (bytesField value ''authorizationNonce'') (\<lambda>authorizationNonce.
     bindE (bytesField value ''walletSignature'') (\<lambda>walletSignature.
     Inr \<lparr>da_domain = domain, da_owner = owner, da_devicePublicKey = devicePublicKey,
        da_sessionId = sessionId, da_vault = vault,
        da_branchSpendingLimit = branchSpendingLimit,
        da_collateralCoverageCap = collateralCoverageCap, da_maxBranchDepth = maxBranchDepth,
        da_issuedAt = issuedAt, da_expiresAt = expiresAt,
        da_authorizationNonce = authorizationNonce,
        da_walletSignature = walletSignature\<rparr>))))))))))))"

definition decodeDeviceAuthorization :: "lib \<Rightarrow> bytes \<Rightarrow> DeviceAuthorization result" where
  "decodeDeviceAuthorization L input =
    bindE (strictDecode L (deviceAuthorizationFields @ [(''walletSignature'', fixedBytes 64)]) input LEN_deviceAuthorization) (\<lambda>value.
    bindE (deviceAuthorizationFromDecoded value) (\<lambda>result.
    bindE (deviceAuthorizationValue result) (\<lambda>_.
      Inr result)))"

definition sessionCertificateFromDecoded :: "js_object \<Rightarrow> SessionCertificate result" where
  "sessionCertificateFromDecoded value =
     bindE (domainFromDecoded value) (\<lambda>domain.
     bindE (bytesField value ''payloadSessionId'') (\<lambda>sessionId.
     bindE (bytesField value ''owner'') (\<lambda>owner.
     bindE (bytesField value ''devicePublicKey'') (\<lambda>devicePublicKey.
     bindE (bytesField value ''vault'') (\<lambda>vault.
     bindE (bytesField value ''tokenMint'') (\<lambda>tokenMint.
     bindE (bigintField value ''branchSpendingLimit'') (\<lambda>branchSpendingLimit.
     bindE (bigintField value ''collateralLocked'') (\<lambda>collateralLocked.
     bindE (bigintField value ''collateralCoverageCap'') (\<lambda>collateralCoverageCap.
     bindE (numberField value ''maxBranchDepth'') (\<lambda>maxBranchDepth.
     bindE (bigintField value ''issuedAt'') (\<lambda>issuedAt.
     bindE (bigintField value ''expiresAt'') (\<lambda>expiresAt.
     bindE (bigintField value ''claimSubmissionDeadline'') (\<lambda>claimSubmissionDeadline.
     bindE (bytesField value ''genesisStateHash'') (\<lambda>genesisStateHash.
     bindE (bytesField value ''deviceAuthorizationHash'') (\<lambda>deviceAuthorizationHash.
     bindE (bytesField value ''identityAttestationHash'') (\<lambda>identityAttestationHash.
     bindE (bytesField value ''issuer'') (\<lambda>issuer.
     bindE (bigintField value ''finalizedSlot'') (\<lambda>finalizedSlot.
     bindE (bytesField value ''certificateNonce'') (\<lambda>certificateNonce.
     bindE (bytesField value ''issuerSignature'') (\<lambda>issuerSignature.
     Inr \<lparr>sc_domain = domain, sc_sessionId = sessionId, sc_owner = owner,
        sc_devicePublicKey = devicePublicKey, sc_vault = vault, sc_tokenMint = tokenMint,
        sc_branchSpendingLimit = branchSpendingLimit, sc_collateralLocked = collateralLocked,
        sc_collateralCoverageCap = collateralCoverageCap, sc_maxBranchDepth = maxBranchDepth,
        sc_issuedAt = issuedAt, sc_expiresAt = expiresAt,
        sc_claimSubmissionDeadline = claimSubmissionDeadline,
        sc_genesisStateHash = genesisStateHash,
        sc_deviceAuthorizationHash = deviceAuthorizationHash,
        sc_identityAttestationHash = identityAttestationHash, sc_issuer = issuer,
        sc_finalizedSlot = finalizedSlot, sc_certificateNonce = certificateNonce,
        sc_issuerSignature = issuerSignature\<rparr>))))))))))))))))))))"

definition decodeSessionCertificate :: "lib \<Rightarrow> bytes \<Rightarrow> SessionCertificate result" where
  "decodeSessionCertificate L input =
    bindE (strictDecode L (sessionCertificateFields @ [(''issuerSignature'', fixedBytes 64)]) input LEN_sessionCertificate) (\<lambda>value.
    bindE (sessionCertificateFromDecoded value) (\<lambda>result.
    bindE (sessionCertificateValue result) (\<lambda>_.
      Inr result)))"

end
