(* ===== verification/CodecContract.thy ===== *)
theory CodecContract
  imports CanonicalCodec
begin

text \<open>
  What \<open>packages/canonical-codec\<close> promises, given a \<open>borsh\<close> package that meets
  \<open>borsh_library\<close>. Every encoder succeeds exactly on the valid objects of its kind
  (\<open>encode*_ok\<close>) and returns exactly the published number of bytes, encoding is injective
  (\<open>encode*_inject\<close>), and a decoder accepts an input exactly when the object it returns encodes
  back to that input (\<open>decode*_iff\<close>). The laws are proved once per contract, in the locales
  \<open>canonical_encoder\<close> and \<open>canonical_codec\<close>, and interpreted on every object kind.
\<close>

section \<open>Width of a fixed layout\<close>

fun fixedWidth :: "schema \<Rightarrow> bool" where
  "fixedWidth (ArraySchema s (Some n)) = fixedWidth s"
| "fixedWidth (ArraySchema s None) = False"
| "fixedWidth (StructSchema fs) = list_all (\<lambda>f. fixedWidth (snd f)) fs"
| "fixedWidth _ = True"

fun width :: "schema \<Rightarrow> nat" where
  "width U8 = 1"
| "width U16 = 2"
| "width U32 = 4"
| "width U64 = 8"
| "width I64 = 8"
| "width (ArraySchema s (Some n)) = n * width s"
| "width (ArraySchema s None) = 0"
| "width (StructSchema fs) = sum_list (map (\<lambda>f. width (snd f)) fs)"

lemma width_fixedBytes [simp]: "width (fixedBytes n) = n" "fixedWidth (fixedBytes n)"
  by (simp_all add: fixedBytes_def)

lemma length_concat_const: "\<forall>xs \<in> set xss. length xs = n \<Longrightarrow> length (concat xss) = length xss * n"
  by (induction xss) auto

lemma length_borshBytes: "borshBytes s v = Some bs \<Longrightarrow> fixedWidth s \<Longrightarrow> length bs = width s"
  and length_borshFields: "borshFields fs obj = Some bs \<Longrightarrow> list_all (\<lambda>f. fixedWidth (snd f)) fs \<Longrightarrow>
    length bs = sum_list (map (\<lambda>f. width (snd f)) fs)"
proof (induction s v and fs obj arbitrary: bs and bs rule: borshBytes_borshFields.induct)
  case (6 s len vs)
  then obtain bss where b: "length vs = len" "those (map (borshBytes s) vs) = Some bss" "bs = concat bss"
    by (auto split: if_splits)
  have "length bss = length vs \<and> (\<forall>b \<in> set bss. length b = width s)"
    using b(2) 6(1,3) b(1)
  proof (induction vs arbitrary: bss len)
    case (Cons v vs)
    then show ?case by (fastforce split: option.splits)
  qed simp
  with b length_concat_const [of bss "width s"] show ?case by simp
qed (auto simp: leUnsigned_Some_iff split: option.splits if_splits)

section \<open>Encoding a valid object\<close>

lemma borshFields_exact:
  assumes "map fst obj = map fst fs" "distinct (map fst fs)"
    and "list_all2 (\<lambda>f e. borshBytes (snd f) (snd e) \<noteq> None) fs obj"
  shows "borshFields fs obj \<noteq> None"
proof -
  have "\<exists>v. map_of obj k = Some v \<and> borshBytes s v \<noteq> None" if f: "(k, s) \<in> set fs" for k s
  proof -
    from f obtain i where i: "i < length fs" "fs ! i = (k, s)" by (auto simp: in_set_conv_nth)
    with assms(3) have o: "i < length obj" "borshBytes s (snd (obj ! i)) \<noteq> None"
      by (auto simp: list_all2_conv_all_nth)
    moreover from o i assms(1) have "fst (obj ! i) = k" by (metis fst_conv nth_map)
    ultimately have "map_of obj k = Some (snd (obj ! i))"
      using assms(1,2) by (intro map_of_is_SomeI) (auto simp: in_set_conv_nth)
    with o(2) show ?thesis by blast
  qed
  then show ?thesis unfolding borshFields_None by blast
qed

lemma encodeStruct_layout:
  assumes "borsh_ok L" "borshFields shape obj = Some bs" "length bs = n"
  shows "encodeStruct L shape obj n = Inr bs"
proof -
  have "borshSerialize L (StructSchema shape) (JsObject obj) = Some bs"
    using assms(1,2) by (simp add: borshSerialize_layout)
  with assms(3) show ?thesis by (simp add: encodeStruct_def)
qed

text \<open>Every field conforms, the keys are the schema's keys, the widths add up: encoding succeeds.\<close>

lemma encodeStruct_ok:
  assumes "borsh_ok L" "map fst obj = map fst shape" "distinct (map fst shape)"
    and "list_all2 (\<lambda>f e. borshBytes (snd f) (snd e) \<noteq> None) shape obj"
    and "list_all (\<lambda>f. fixedWidth (snd f)) shape" "sum_list (map (\<lambda>f. width (snd f)) shape) = n"
  obtains bs where "encodeStruct L shape obj n = Inr bs" "borshFields shape obj = Some bs" "length bs = n"
proof -
  obtain bs where b: "borshFields shape obj = Some bs"
    using borshFields_exact [OF assms(2-4)] by blast
  with assms(5,6) have "length bs = n" by (auto dest: length_borshFields)
  with b assms(1) show ?thesis by (auto intro: that encodeStruct_layout)
qed

lemmas conforming = leUnsigned_def list_all_iff

section \<open>The contract of one object kind\<close>

definition encodeWith :: "lib \<Rightarrow> ('a \<Rightarrow> js_object result) \<Rightarrow> fields \<Rightarrow> nat \<Rightarrow> 'a \<Rightarrow> bytes result" where
  "encodeWith L toObject shape len value = bindE (toObject value) (\<lambda>object. encodeStruct L shape object len)"

definition fieldConforms :: "js_object \<Rightarrow> string \<Rightarrow> schema \<Rightarrow> bool" where
  "fieldConforms obj k s \<longleftrightarrow> (\<exists>v. map_of obj k = Some v \<and> borshBytes s v \<noteq> None)"

lemma borshFields_conforms:
  "borshFields fs obj \<noteq> None \<longleftrightarrow> (\<forall>(k, s) \<in> set fs. fieldConforms obj k s)"
  unfolding borshFields_None fieldConforms_def ..

lemma borshFields_cong:
  "(\<And>k s. (k, s) \<in> set fs \<Longrightarrow> map_of a k = map_of b k) \<Longrightarrow> borshFields fs a = borshFields fs b"
proof (induction fs)
  case (Cons f fs)
  obtain k s where f: "f = (k, s)" by force
  have "map_of a k = map_of b k" "borshFields fs a = borshFields fs b"
    using Cons f by auto
  then show ?case by (simp add: f split: option.split)
qed simp

lemma exactFields_zip:
  "map fst obj = map fst fs \<Longrightarrow> list_all2 (\<lambda>f e. exactShape (snd f) (snd e)) fs obj \<Longrightarrow> exactFields fs obj"
proof (induction fs arbitrary: obj)
  case (Cons f fs)
  then show ?case by (cases f; cases obj) auto
qed simp

text \<open>
  \<open>toObject\<close> validates a value and lays it out as an object of \<open>shape\<close>; the layout has \<open>len\<close>
  bytes.
\<close>

locale canonical_encoder =
  fixes toObject :: "'a \<Rightarrow> js_object result" and shape :: fields and len :: nat
  assumes keys: "toObject v = Inr obj \<Longrightarrow> map fst obj = map fst shape"
    and conforms: "toObject v = Inr obj \<Longrightarrow> list_all2 (\<lambda>f e. borshBytes (snd f) (snd e) \<noteq> None) shape obj"
    and exact: "toObject v = Inr obj \<Longrightarrow> list_all2 (\<lambda>f e. exactShape (snd f) (snd e)) shape obj"
    and distinct_keys: "distinct (map fst shape)"
    and fixed: "list_all (\<lambda>f. fixedWidth (snd f)) shape"
    and total_width: "sum_list (map (\<lambda>f. width (snd f)) shape) = len"
begin

lemma exactShape: "toObject v = Inr obj \<Longrightarrow> exactShape (StructSchema shape) (JsObject obj)"
  by (simp add: distinct_keys exactFields_zip exact keys)

lemma layout:
  assumes "toObject v = Inr obj"
  obtains bs where "borshFields shape obj = Some bs" "length bs = len"
proof -
  obtain bs where "borshFields shape obj = Some bs"
    using borshFields_exact [OF keys [OF assms] distinct_keys conforms [OF assms]] by blast
  with length_borshFields [OF this fixed] total_width show ?thesis by (intro that) simp_all
qed

lemma encodeWith_Inr_iff:
  assumes "borsh_ok L"
  shows "encodeWith L toObject shape len v = Inr bs \<longleftrightarrow>
    (\<exists>obj. toObject v = Inr obj \<and> borshFields shape obj = Some bs)"
proof -
  have "encodeStruct L shape obj len = Inr bs \<longleftrightarrow> borshFields shape obj = Some bs"
    if obj: "toObject v = Inr obj" for obj
  proof -
    obtain bs' where "borshFields shape obj = Some bs'" "length bs' = len"
      using layout [OF obj] .
    with encodeStruct_layout [OF assms this] show ?thesis by auto
  qed
  then show ?thesis by (auto simp: encodeWith_def bindE_Inr_iff)
qed

lemma encodeWith_ok:
  assumes "borsh_ok L"
  shows "isOk (encodeWith L toObject shape len v) \<longleftrightarrow> isOk (toObject v)"
  unfolding isOk_iff encodeWith_Inr_iff [OF assms] by (meson layout)

lemma encodeWith_error: "toObject v = Inl e \<Longrightarrow> encodeWith L toObject shape len v = Inl e"
  by (simp add: encodeWith_def)

lemma encodeWith_length: "encodeWith L toObject shape len v = Inr bs \<Longrightarrow> length bs = len"
  by (auto simp: encodeWith_def encodeStruct_def bindE_Inr_iff)

lemma encodeWith_inject:
  assumes "borsh_ok L" "encodeWith L toObject shape len v = Inr bs" "encodeWith L toObject shape len w = Inr bs"
  shows "toObject v = toObject w"
proof -
  obtain a b where ab: "toObject v = Inr a" "borshFields shape a = Some bs"
    "toObject w = Inr b" "borshFields shape b = Some bs"
    using assms by (auto simp: encodeWith_Inr_iff)
  have "readValue (StructSchema shape) bs = Some (JsObject a, [])"
    by (rule readValue_borshBytes [OF _ exactShape [OF ab(1)]]) (simp_all add: ab)
  moreover have "readValue (StructSchema shape) bs = Some (JsObject b, [])"
    by (rule readValue_borshBytes [OF _ exactShape [OF ab(3)]]) (simp_all add: ab)
  ultimately show ?thesis using ab by simp
qed

end

text \<open>
  A decoder of the same object kind: \<open>fromDecoded\<close> reads the object's fields back and
  \<open>check\<close> validates the result.
\<close>

locale canonical_codec = canonical_encoder toObject shape len
  for toObject :: "'a \<Rightarrow> js_object result" and shape :: fields and len :: nat +
  fixes fromDecoded :: "js_object \<Rightarrow> 'a result" and check :: "'a \<Rightarrow> js_object result"
  assumes check_ok: "toObject r = Inr obj \<Longrightarrow> isOk (check r)"
    and fromDecoded_toObject: "toObject r = Inr obj \<Longrightarrow> fromDecoded obj = Inr r"
    and fromDecoded_lookups: "fromDecoded decoded = Inr r \<Longrightarrow> isOk (check r) \<Longrightarrow>
      (\<And>k s. (k, s) \<in> set shape \<Longrightarrow> fieldConforms decoded k s) \<Longrightarrow>
      \<exists>obj. toObject r = Inr obj \<and> (\<forall>(k, s) \<in> set shape. map_of obj k = map_of decoded k)"
begin

lemma decode_encode:
  assumes "borsh_ok L" "encodeWith L toObject shape len r = Inr bs"
  shows "bindE (strictDecode L shape bs len) (\<lambda>value. bindE (fromDecoded value) (\<lambda>result.
    bindE (check result) (\<lambda>_. Inr result))) = Inr r"
proof -
  obtain obj where obj: "toObject r = Inr obj" "borshFields shape obj = Some bs"
    using assms by (auto simp: encodeWith_Inr_iff)
  have "borshDeserialize L (StructSchema shape) bs = Some (JsObject obj)"
    by (rule borshDeserialize_layout [OF assms(1) exactShape [OF obj(1)]]) (simp add: obj(2))
  moreover have "borshSerialize L (StructSchema shape) (JsObject obj) = Some bs"
    by (rule borshSerialize_layout [OF assms(1)]) (simp add: obj(2))
  ultimately have "strictDecode L shape bs len = Inr obj"
    using encodeWith_length [OF assms(2)] by (simp add: strictDecode_def)
  moreover obtain checked where "check r = Inr checked"
    using check_ok [OF obj(1)] by (auto simp: isOk_iff)
  ultimately show ?thesis using fromDecoded_toObject [OF obj(1)] by simp
qed

lemma encode_decode:
  assumes "borsh_ok L" "bindE (strictDecode L shape bs len) (\<lambda>value. bindE (fromDecoded value) (\<lambda>result.
    bindE (check result) (\<lambda>_. Inr result))) = Inr r"
  shows "encodeWith L toObject shape len r = Inr bs"
proof -
  obtain decoded where d: "borshDeserialize L (StructSchema shape) bs = Some (JsObject decoded)"
    "borshSerialize L (StructSchema shape) (JsObject decoded) = Some bs"
    and r: "fromDecoded decoded = Inr r" "isOk (check r)"
    using assms(2)
    by (auto simp: bindE_Inr_iff strictDecode_def isOk_iff split: option.splits js_value.splits)
  have "borshFields shape decoded \<noteq> None"
    using borshDeserialize_conforms [OF assms(1) d(1)] by simp
  then obtain bs' where bs': "borshFields shape decoded = Some bs'" and
    conf: "\<And>k s. (k, s) \<in> set shape \<Longrightarrow> fieldConforms decoded k s"
    using borshFields_conforms [of shape decoded] by auto
  have "borshSerialize L (StructSchema shape) (JsObject decoded) = Some bs'"
    by (rule borshSerialize_layout [OF assms(1)]) (simp add: bs')
  with d(2) bs' have layout: "borshFields shape decoded = Some bs" by simp
  obtain obj where obj: "toObject r = Inr obj"
    "\<forall>(k, s) \<in> set shape. map_of obj k = map_of decoded k"
    using fromDecoded_lookups [OF r conf] by blast
  have "borshFields shape obj = Some bs"
    unfolding layout [symmetric] using obj(2) by (intro borshFields_cong) fast
  with obj(1) show ?thesis unfolding encodeWith_Inr_iff [OF assms(1)] by blast
qed

end

section \<open>Validity\<close>

definition validDomain :: "Domain \<Rightarrow> ObjectType \<Rightarrow> bool" where
  "validDomain d t \<longleftrightarrow> dm_protocolName d = PROTOCOL_NAME \<and> dm_protocolVersion d = 1 \<and>
     dm_schemaVersion d = 1 \<and> dm_objectType d = objectNumber t \<and> 0 \<le> dm_networkId d \<and> dm_networkId d \<le> 2 \<and>
     length (dm_clusterGenesisHash d) = 32 \<and> length (dm_programId d) = 32 \<and> length (dm_sessionId d) = 32"

definition isU8 :: "int \<Rightarrow> bool" where "isU8 n \<longleftrightarrow> 0 \<le> n \<and> n < 2 ^ 8"
definition isU32 :: "int \<Rightarrow> bool" where "isU32 n \<longleftrightarrow> 0 \<le> n \<and> n < 2 ^ 32"
definition isU64 :: "int \<Rightarrow> bool" where "isU64 n \<longleftrightarrow> 0 \<le> n \<and> n < 2 ^ 64"
definition isI64 :: "int \<Rightarrow> bool" where "isI64 n \<longleftrightarrow> - (2 ^ 63) \<le> n \<and> n < 2 ^ 63"

lemmas integer_ranges = isU8_def isU32_def isU64_def isI64_def

lemma objectNumber_range: "0 < objectNumber t" "objectNumber t \<le> 10"
  by (cases t; simp)+

lemma assertDomain_iff: "assertDomain d (Some t) = Inr u \<longleftrightarrow> validDomain d t"
  using objectNumber_range [of t]
  by (auto simp: assertDomain_def validDomain_def bindE_Inr_iff protocol_constants)

lemma commonValue_iff: "commonValue d t = Inr obj \<longleftrightarrow> validDomain d t \<and> obj = domainValue d"
  by (auto simp: commonValue_def bindE_Inr_iff assertDomain_iff)

text \<open>
  The abstract description of the objects each validation function accepts.
\<close>

definition validDeviceAuthorization :: "'a DeviceAuthorizationPayload_scheme \<Rightarrow> bool" where
  "validDeviceAuthorization v \<longleftrightarrow> validDomain (da_domain v) DeviceAuthorizationObject \<and> length (da_owner v) = 32 \<and> length (da_devicePublicKey v) = 32
     \<and> length (da_sessionId v) = 32 \<and> length (da_vault v) = 32
     \<and> isU64 (da_branchSpendingLimit v) \<and> isU64 (da_collateralCoverageCap v)
     \<and> isU32 (da_maxBranchDepth v) \<and> isI64 (da_issuedAt v) \<and> isI64 (da_expiresAt v)
     \<and> length (da_authorizationNonce v) = 32"

definition validSessionCertificate :: "'a SessionCertificatePayload_scheme \<Rightarrow> bool" where
  "validSessionCertificate v \<longleftrightarrow> validDomain (sc_domain v) SessionCertificateObject \<and> length (sc_sessionId v) = 32 \<and> length (sc_owner v) = 32
     \<and> length (sc_devicePublicKey v) = 32 \<and> length (sc_vault v) = 32
     \<and> length (sc_tokenMint v) = 32 \<and> isU64 (sc_branchSpendingLimit v)
     \<and> isU64 (sc_collateralLocked v) \<and> isU64 (sc_collateralCoverageCap v)
     \<and> isU32 (sc_maxBranchDepth v) \<and> isI64 (sc_issuedAt v) \<and> isI64 (sc_expiresAt v)
     \<and> isI64 (sc_claimSubmissionDeadline v) \<and> length (sc_genesisStateHash v) = 32
     \<and> length (sc_deviceAuthorizationHash v) = 32
     \<and> length (sc_identityAttestationHash v) = 32 \<and> length (sc_issuer v) = 32
     \<and> isU64 (sc_finalizedSlot v) \<and> length (sc_certificateNonce v) = 32"

definition validGenesisState :: "GenesisState \<Rightarrow> bool" where
  "validGenesisState v \<longleftrightarrow> validDomain (gs_domain v) GenesisStateObject \<and> length (gs_owner v) = 32 \<and> length (gs_devicePublicKey v) = 32
     \<and> isU64 (gs_branchSpendingLimit v) \<and> isU32 (gs_maxBranchDepth v)
     \<and> isU64 (gs_initialRemaining v) \<and> isI64 (gs_issuedAt v) \<and> isI64 (gs_expiresAt v)"

definition validPaymentState :: "PaymentState \<Rightarrow> bool" where
  "validPaymentState v \<longleftrightarrow> validDomain (ps_domain v) PaymentStateObject \<and> length (ps_previousStateHash v) = 32 \<and> isU32 (ps_sequence v)
     \<and> length (ps_merchant v) = 32 \<and> isU64 (ps_amount v)
     \<and> length (ps_merchantChallenge v) = 32 \<and> isU64 (ps_previousRemaining v)
     \<and> isU64 (ps_newRemaining v)"

definition validPaymentCredential :: "'a PaymentCredentialPayload_scheme \<Rightarrow> bool" where
  "validPaymentCredential v \<longleftrightarrow> validDomain (pc_domain v) PaymentCredentialObject \<and> length (pc_sessionId v) = 32 \<and> isU32 (pc_sequence v)
     \<and> length (pc_payer v) = 32 \<and> length (pc_payerDeviceKey v) = 32
     \<and> length (pc_merchant v) = 32 \<and> length (pc_merchantDeviceKey v) = 32
     \<and> isU64 (pc_amount v) \<and> length (pc_previousStateHash v) = 32
     \<and> length (pc_newStateHash v) = 32 \<and> isU64 (pc_previousRemaining v)
     \<and> isU64 (pc_newRemaining v) \<and> length (pc_merchantChallenge v) = 32
     \<and> isI64 (pc_createdAt v) \<and> isI64 (pc_sessionExpiresAt v)"

definition validIdentityAttestation :: "'a IdentityAttestationPayload_scheme \<Rightarrow> bool" where
  "validIdentityAttestation v \<longleftrightarrow> validDomain (ia_domain v) IdentityAttestationObject \<and> length (ia_issuer v) = 32 \<and> length (ia_subjectWallet v) = 32
     \<and> isU8 (ia_assuranceLevel v) \<and> isI64 (ia_issuedAt v) \<and> isI64 (ia_expiresAt v)
     \<and> length (ia_attestationId v) = 32 \<and> isU8 (ia_status v) \<and> ia_status v \<le> 1"

section \<open>Every object kind meets the contract\<close>

lemma deviceAuthorizationValue_ok: "isOk (deviceAuthorizationValue v) \<longleftrightarrow> validDeviceAuthorization v"
  by (auto simp: isOk_iff deviceAuthorizationValue_def validDeviceAuthorization_def bindE_Inr_iff commonValue_iff integer_ranges
      CHALLENGE_LENGTH_def)

lemma deviceAuthorizationValue_shape:
  assumes "deviceAuthorizationValue v = Inr obj"
  shows "map fst obj = map fst deviceAuthorizationFields"
    and "list_all2 (\<lambda>f e. borshBytes (snd f) (snd e) \<noteq> None) deviceAuthorizationFields obj"
    and "list_all2 (\<lambda>f e. exactShape (snd f) (snd e)) deviceAuthorizationFields obj"
  using assms
  by (auto simp: deviceAuthorizationValue_def bindE_Inr_iff commonValue_iff domainValue_def
      object_fields validDomain_def PROTOCOL_NAME_def CHALLENGE_LENGTH_def conforming)

interpretation authorization_payload: canonical_encoder deviceAuthorizationValue deviceAuthorizationFields LEN_deviceAuthorizationPayload
  by unfold_locales (auto dest: deviceAuthorizationValue_shape simp: object_fields encoded_lengths)

lemma encodeDeviceAuthorizationPayload_def': "encodeDeviceAuthorizationPayload L = encodeWith L deviceAuthorizationValue deviceAuthorizationFields LEN_deviceAuthorizationPayload"
  by (simp add: fun_eq_iff encodeDeviceAuthorizationPayload_def encodeWith_def)

lemma sessionCertificateValue_ok: "isOk (sessionCertificateValue v) \<longleftrightarrow> validSessionCertificate v"
  by (auto simp: isOk_iff sessionCertificateValue_def validSessionCertificate_def bindE_Inr_iff commonValue_iff integer_ranges
      CHALLENGE_LENGTH_def)

lemma sessionCertificateValue_shape:
  assumes "sessionCertificateValue v = Inr obj"
  shows "map fst obj = map fst sessionCertificateFields"
    and "list_all2 (\<lambda>f e. borshBytes (snd f) (snd e) \<noteq> None) sessionCertificateFields obj"
    and "list_all2 (\<lambda>f e. exactShape (snd f) (snd e)) sessionCertificateFields obj"
  using assms
  by (auto simp: sessionCertificateValue_def bindE_Inr_iff commonValue_iff domainValue_def
      object_fields validDomain_def PROTOCOL_NAME_def CHALLENGE_LENGTH_def conforming)

interpretation certificate_payload: canonical_encoder sessionCertificateValue sessionCertificateFields LEN_sessionCertificatePayload
  by unfold_locales (auto dest: sessionCertificateValue_shape simp: object_fields encoded_lengths)

lemma encodeSessionCertificatePayload_def': "encodeSessionCertificatePayload L = encodeWith L sessionCertificateValue sessionCertificateFields LEN_sessionCertificatePayload"
  by (simp add: fun_eq_iff encodeSessionCertificatePayload_def encodeWith_def)

lemma genesisStateValue_ok: "isOk (genesisStateValue v) \<longleftrightarrow> validGenesisState v"
  by (auto simp: isOk_iff genesisStateValue_def validGenesisState_def bindE_Inr_iff commonValue_iff integer_ranges
      CHALLENGE_LENGTH_def)

lemma genesisStateValue_shape:
  assumes "genesisStateValue v = Inr obj"
  shows "map fst obj = map fst genesisStateFields"
    and "list_all2 (\<lambda>f e. borshBytes (snd f) (snd e) \<noteq> None) genesisStateFields obj"
    and "list_all2 (\<lambda>f e. exactShape (snd f) (snd e)) genesisStateFields obj"
  using assms
  by (auto simp: genesisStateValue_def bindE_Inr_iff commonValue_iff domainValue_def
      object_fields validDomain_def PROTOCOL_NAME_def CHALLENGE_LENGTH_def conforming)

interpretation genesis_payload: canonical_encoder genesisStateValue genesisStateFields LEN_genesisState
  by unfold_locales (auto dest: genesisStateValue_shape simp: object_fields encoded_lengths)

lemma encodeGenesisState_def': "encodeGenesisState L = encodeWith L genesisStateValue genesisStateFields LEN_genesisState"
  by (simp add: fun_eq_iff encodeGenesisState_def encodeWith_def)

lemma paymentStateValue_ok: "isOk (paymentStateValue v) \<longleftrightarrow> validPaymentState v"
  by (auto simp: isOk_iff paymentStateValue_def validPaymentState_def bindE_Inr_iff commonValue_iff integer_ranges
      CHALLENGE_LENGTH_def)

lemma paymentStateValue_shape:
  assumes "paymentStateValue v = Inr obj"
  shows "map fst obj = map fst paymentStateFields"
    and "list_all2 (\<lambda>f e. borshBytes (snd f) (snd e) \<noteq> None) paymentStateFields obj"
    and "list_all2 (\<lambda>f e. exactShape (snd f) (snd e)) paymentStateFields obj"
  using assms
  by (auto simp: paymentStateValue_def bindE_Inr_iff commonValue_iff domainValue_def
      object_fields validDomain_def PROTOCOL_NAME_def CHALLENGE_LENGTH_def conforming)

interpretation payment_payload: canonical_encoder paymentStateValue paymentStateFields LEN_paymentState
  by unfold_locales (auto dest: paymentStateValue_shape simp: object_fields encoded_lengths)

lemma encodePaymentState_def': "encodePaymentState L = encodeWith L paymentStateValue paymentStateFields LEN_paymentState"
  by (simp add: fun_eq_iff encodePaymentState_def encodeWith_def)

lemma paymentCredentialValue_ok: "isOk (paymentCredentialValue v) \<longleftrightarrow> validPaymentCredential v"
  by (auto simp: isOk_iff paymentCredentialValue_def validPaymentCredential_def bindE_Inr_iff commonValue_iff integer_ranges
      CHALLENGE_LENGTH_def)

lemma paymentCredentialValue_shape:
  assumes "paymentCredentialValue v = Inr obj"
  shows "map fst obj = map fst paymentCredentialFields"
    and "list_all2 (\<lambda>f e. borshBytes (snd f) (snd e) \<noteq> None) paymentCredentialFields obj"
    and "list_all2 (\<lambda>f e. exactShape (snd f) (snd e)) paymentCredentialFields obj"
  using assms
  by (auto simp: paymentCredentialValue_def bindE_Inr_iff commonValue_iff domainValue_def
      object_fields validDomain_def PROTOCOL_NAME_def CHALLENGE_LENGTH_def conforming)

interpretation credential_payload: canonical_encoder paymentCredentialValue paymentCredentialFields LEN_paymentCredentialPayload
  by unfold_locales (auto dest: paymentCredentialValue_shape simp: object_fields encoded_lengths)

lemma encodePaymentCredentialPayload_def': "encodePaymentCredentialPayload L = encodeWith L paymentCredentialValue paymentCredentialFields LEN_paymentCredentialPayload"
  by (simp add: fun_eq_iff encodePaymentCredentialPayload_def encodeWith_def)

lemma identityAttestationValue_ok: "isOk (identityAttestationValue v) \<longleftrightarrow> validIdentityAttestation v"
  by (auto simp: isOk_iff identityAttestationValue_def validIdentityAttestation_def bindE_Inr_iff commonValue_iff integer_ranges
      CHALLENGE_LENGTH_def)

lemma identityAttestationValue_shape:
  assumes "identityAttestationValue v = Inr obj"
  shows "map fst obj = map fst identityAttestationFields"
    and "list_all2 (\<lambda>f e. borshBytes (snd f) (snd e) \<noteq> None) identityAttestationFields obj"
    and "list_all2 (\<lambda>f e. exactShape (snd f) (snd e)) identityAttestationFields obj"
  using assms
  by (auto simp: identityAttestationValue_def bindE_Inr_iff commonValue_iff domainValue_def
      object_fields validDomain_def PROTOCOL_NAME_def CHALLENGE_LENGTH_def conforming)

interpretation attestation_payload: canonical_encoder identityAttestationValue identityAttestationFields LEN_identityAttestationPayload
  by unfold_locales (auto dest: identityAttestationValue_shape simp: object_fields encoded_lengths)

lemma encodeIdentityAttestationPayload_def': "encodeIdentityAttestationPayload L = encodeWith L identityAttestationValue identityAttestationFields LEN_identityAttestationPayload"
  by (simp add: fun_eq_iff encodeIdentityAttestationPayload_def encodeWith_def)

definition signedDeviceAuthorization :: "DeviceAuthorization \<Rightarrow> js_object result" where
  "signedDeviceAuthorization value =
    bindE (assertBytes (da_walletSignature value) 64) (\<lambda>_.
    bindE (deviceAuthorizationValue value) (\<lambda>object. Inr (object @ [(''walletSignature'', bytesValue (da_walletSignature value))])))"

lemma signedDeviceAuthorization_ok: "isOk (signedDeviceAuthorization v) \<longleftrightarrow> length (da_walletSignature v) = 64 \<and> validDeviceAuthorization v"
  by (auto simp: isOk_iff signedDeviceAuthorization_def bindE_Inr_iff simp flip: deviceAuthorizationValue_ok)

interpretation authorization_signed: canonical_encoder signedDeviceAuthorization "deviceAuthorizationFields @ [(''walletSignature'', fixedBytes 64)]" LEN_deviceAuthorization
proof
  fix v obj
  assume "signedDeviceAuthorization v = Inr obj"
  then obtain o' where o': "deviceAuthorizationValue v = Inr o'" "obj = o' @ [(''walletSignature'', bytesValue (da_walletSignature v))]"
    "length (da_walletSignature v) = 64"
    by (auto simp: signedDeviceAuthorization_def bindE_Inr_iff)
  note shape = deviceAuthorizationValue_shape [OF o'(1)]
  show "map fst obj = map fst (deviceAuthorizationFields @ [(''walletSignature'', fixedBytes 64)])"
    using shape(1) o' by simp
  show "list_all2 (\<lambda>f e. borshBytes (snd f) (snd e) \<noteq> None) (deviceAuthorizationFields @ [(''walletSignature'', fixedBytes 64)]) obj"
    unfolding o'(2) by (rule list_all2_appendI [OF shape(2)]) (simp add: o'(3))
  show "list_all2 (\<lambda>f e. exactShape (snd f) (snd e)) (deviceAuthorizationFields @ [(''walletSignature'', fixedBytes 64)]) obj"
    unfolding o'(2) by (rule list_all2_appendI [OF shape(3)]) simp
qed (simp_all add: object_fields encoded_lengths)

lemma encodeDeviceAuthorization_def': "encodeDeviceAuthorization L = encodeWith L signedDeviceAuthorization (deviceAuthorizationFields @ [(''walletSignature'', fixedBytes 64)]) LEN_deviceAuthorization"
  by (simp add: fun_eq_iff encodeDeviceAuthorization_def encodeWith_def signedDeviceAuthorization_def bindE_assoc SIGNATURE_LENGTH_def)

definition signedSessionCertificate :: "SessionCertificate \<Rightarrow> js_object result" where
  "signedSessionCertificate value =
    bindE (assertBytes (sc_issuerSignature value) 64) (\<lambda>_.
    bindE (sessionCertificateValue value) (\<lambda>object. Inr (object @ [(''issuerSignature'', bytesValue (sc_issuerSignature value))])))"

lemma signedSessionCertificate_ok: "isOk (signedSessionCertificate v) \<longleftrightarrow> length (sc_issuerSignature v) = 64 \<and> validSessionCertificate v"
  by (auto simp: isOk_iff signedSessionCertificate_def bindE_Inr_iff simp flip: sessionCertificateValue_ok)

interpretation certificate_signed: canonical_encoder signedSessionCertificate "sessionCertificateFields @ [(''issuerSignature'', fixedBytes 64)]" LEN_sessionCertificate
proof
  fix v obj
  assume "signedSessionCertificate v = Inr obj"
  then obtain o' where o': "sessionCertificateValue v = Inr o'" "obj = o' @ [(''issuerSignature'', bytesValue (sc_issuerSignature v))]"
    "length (sc_issuerSignature v) = 64"
    by (auto simp: signedSessionCertificate_def bindE_Inr_iff)
  note shape = sessionCertificateValue_shape [OF o'(1)]
  show "map fst obj = map fst (sessionCertificateFields @ [(''issuerSignature'', fixedBytes 64)])"
    using shape(1) o' by simp
  show "list_all2 (\<lambda>f e. borshBytes (snd f) (snd e) \<noteq> None) (sessionCertificateFields @ [(''issuerSignature'', fixedBytes 64)]) obj"
    unfolding o'(2) by (rule list_all2_appendI [OF shape(2)]) (simp add: o'(3))
  show "list_all2 (\<lambda>f e. exactShape (snd f) (snd e)) (sessionCertificateFields @ [(''issuerSignature'', fixedBytes 64)]) obj"
    unfolding o'(2) by (rule list_all2_appendI [OF shape(3)]) simp
qed (simp_all add: object_fields encoded_lengths)

lemma encodeSessionCertificate_def': "encodeSessionCertificate L = encodeWith L signedSessionCertificate (sessionCertificateFields @ [(''issuerSignature'', fixedBytes 64)]) LEN_sessionCertificate"
  by (simp add: fun_eq_iff encodeSessionCertificate_def encodeWith_def signedSessionCertificate_def bindE_assoc SIGNATURE_LENGTH_def)

definition signedPaymentCredential :: "PaymentCredential \<Rightarrow> js_object result" where
  "signedPaymentCredential value =
    bindE (assertBytes (pc_payerSignature value) 64) (\<lambda>_.
    bindE (paymentCredentialValue value) (\<lambda>object. Inr (object @ [(''payerSignature'', bytesValue (pc_payerSignature value))])))"

lemma signedPaymentCredential_ok: "isOk (signedPaymentCredential v) \<longleftrightarrow> length (pc_payerSignature v) = 64 \<and> validPaymentCredential v"
  by (auto simp: isOk_iff signedPaymentCredential_def bindE_Inr_iff simp flip: paymentCredentialValue_ok)

interpretation credential_signed: canonical_encoder signedPaymentCredential "paymentCredentialFields @ [(''payerSignature'', fixedBytes 64)]" LEN_paymentCredential
proof
  fix v obj
  assume "signedPaymentCredential v = Inr obj"
  then obtain o' where o': "paymentCredentialValue v = Inr o'" "obj = o' @ [(''payerSignature'', bytesValue (pc_payerSignature v))]"
    "length (pc_payerSignature v) = 64"
    by (auto simp: signedPaymentCredential_def bindE_Inr_iff)
  note shape = paymentCredentialValue_shape [OF o'(1)]
  show "map fst obj = map fst (paymentCredentialFields @ [(''payerSignature'', fixedBytes 64)])"
    using shape(1) o' by simp
  show "list_all2 (\<lambda>f e. borshBytes (snd f) (snd e) \<noteq> None) (paymentCredentialFields @ [(''payerSignature'', fixedBytes 64)]) obj"
    unfolding o'(2) by (rule list_all2_appendI [OF shape(2)]) (simp add: o'(3))
  show "list_all2 (\<lambda>f e. exactShape (snd f) (snd e)) (paymentCredentialFields @ [(''payerSignature'', fixedBytes 64)]) obj"
    unfolding o'(2) by (rule list_all2_appendI [OF shape(3)]) simp
qed (simp_all add: object_fields encoded_lengths)

lemma encodePaymentCredential_def': "encodePaymentCredential L = encodeWith L signedPaymentCredential (paymentCredentialFields @ [(''payerSignature'', fixedBytes 64)]) LEN_paymentCredential"
  by (simp add: fun_eq_iff encodePaymentCredential_def encodeWith_def signedPaymentCredential_def bindE_assoc SIGNATURE_LENGTH_def)

definition signedIdentityAttestation :: "IdentityAttestation \<Rightarrow> js_object result" where
  "signedIdentityAttestation value =
    bindE (assertBytes (ia_issuerSignature value) 64) (\<lambda>_.
    bindE (identityAttestationValue value) (\<lambda>object. Inr (object @ [(''issuerSignature'', bytesValue (ia_issuerSignature value))])))"

lemma signedIdentityAttestation_ok: "isOk (signedIdentityAttestation v) \<longleftrightarrow> length (ia_issuerSignature v) = 64 \<and> validIdentityAttestation v"
  by (auto simp: isOk_iff signedIdentityAttestation_def bindE_Inr_iff simp flip: identityAttestationValue_ok)

interpretation attestation_signed: canonical_encoder signedIdentityAttestation "identityAttestationFields @ [(''issuerSignature'', fixedBytes 64)]" LEN_identityAttestation
proof
  fix v obj
  assume "signedIdentityAttestation v = Inr obj"
  then obtain o' where o': "identityAttestationValue v = Inr o'" "obj = o' @ [(''issuerSignature'', bytesValue (ia_issuerSignature v))]"
    "length (ia_issuerSignature v) = 64"
    by (auto simp: signedIdentityAttestation_def bindE_Inr_iff)
  note shape = identityAttestationValue_shape [OF o'(1)]
  show "map fst obj = map fst (identityAttestationFields @ [(''issuerSignature'', fixedBytes 64)])"
    using shape(1) o' by simp
  show "list_all2 (\<lambda>f e. borshBytes (snd f) (snd e) \<noteq> None) (identityAttestationFields @ [(''issuerSignature'', fixedBytes 64)]) obj"
    unfolding o'(2) by (rule list_all2_appendI [OF shape(2)]) (simp add: o'(3))
  show "list_all2 (\<lambda>f e. exactShape (snd f) (snd e)) (identityAttestationFields @ [(''issuerSignature'', fixedBytes 64)]) obj"
    unfolding o'(2) by (rule list_all2_appendI [OF shape(3)]) simp
qed (simp_all add: object_fields encoded_lengths)

lemma encodeIdentityAttestation_def': "encodeIdentityAttestation L = encodeWith L signedIdentityAttestation (identityAttestationFields @ [(''issuerSignature'', fixedBytes 64)]) LEN_identityAttestation"
  by (simp add: fun_eq_iff encodeIdentityAttestation_def encodeWith_def signedIdentityAttestation_def bindE_assoc SIGNATURE_LENGTH_def)

section \<open>The decoders meet the contract\<close>

lemma byteItem_uint [simp]: "byteItem (JsNumber (uint b)) = Some b"
  using uint_lt2p [of b] by simp

lemma decodedBytes_bytesValue [simp]: "decodedBytes (Some (bytesValue bs)) = Inr bs"
proof -
  have "those (map byteItem (map (\<lambda>b. JsNumber (uint b)) bs)) = Some bs"
    by (induction bs) (simp_all del: byteItem.simps)
  then show ?thesis by (simp add: decodedBytes_def bytesValue_def)
qed

lemma bytesValue_inject [simp]: "bytesValue a = bytesValue b \<longleftrightarrow> a = b"
  by (metis decodedBytes_bytesValue sum.inject(2))

text \<open>On a conforming field, reading it determines the value the field holds.\<close>

lemma bytesField_iff:
  assumes "fieldConforms obj k (fixedBytes n)"
  shows "bytesField obj k = Inr bs \<longleftrightarrow> map_of obj k = Some (bytesValue bs) \<and> length bs = n"
proof -
  obtain v enc where v: "map_of obj k = Some v" "borshBytes (fixedBytes n) v = Some enc"
    using assms by (auto simp: fieldConforms_def)
  with borshBytes_fixedBytes_inv [OF v(2)] show ?thesis
    by (auto simp: bytesField_def)
qed

lemma numberField_iff:
  assumes "fieldConforms obj k s" "s = U8 \<or> s = U16 \<or> s = U32"
  shows "numberField obj k = Inr n \<longleftrightarrow> map_of obj k = Some (JsNumber n)"
proof -
  obtain v where v: "map_of obj k = Some v" "borshBytes s v \<noteq> None"
    using assms(1) by (auto simp: fieldConforms_def)
  with assms(2) show ?thesis by (cases v) (auto simp: numberField_def)
qed

lemma bigintField_iff:
  assumes "fieldConforms obj k s" "s = U64 \<or> s = I64"
  shows "bigintField obj k = Inr n \<longleftrightarrow> map_of obj k = Some (JsBigint n)"
proof -
  obtain v where v: "map_of obj k = Some v" "borshBytes s v \<noteq> None"
    using assms(1) by (auto simp: fieldConforms_def)
  with assms(2) show ?thesis by (cases v) (auto simp: bigintField_def)
qed

lemmas field_iffs = bytesField_iff
  numberField_iff [of _ _ U8, simplified] numberField_iff [of _ _ U16, simplified]
  numberField_iff [of _ _ U32, simplified]
  bigintField_iff [of _ _ U64, simplified] bigintField_iff [of _ _ I64, simplified]

lemma domainFromDecoded_lookups:
  assumes "domainFromDecoded decoded = Inr d" "list_all (\<lambda>(k, s). fieldConforms decoded k s) domainFields"
  shows "\<forall>(k, v) \<in> set (domainValue d). map_of decoded k = Some v"
  using assms by (auto simp: domainFromDecoded_def domainFields_def domainValue_def bindE_Inr_iff field_iffs)

lemma agree_on_keys:
  assumes "map fst obj = map fst shape" "distinct (map fst shape)"
    "\<forall>(k, v) \<in> set obj. map_of decoded k = Some v"
  shows "\<forall>(k, s) \<in> set shape. map_of obj k = map_of decoded k"
proof safe
  fix k s assume "(k, s) \<in> set shape"
  then have "k \<in> fst ` set obj" using assms(1) by (metis fst_conv image_eqI list.set_map)
  then obtain v where "(k, v) \<in> set obj" by force
  with assms show "map_of obj k = map_of decoded k" by auto
qed

lemma paymentCredentialFromDecoded_lookups:
  assumes "paymentCredentialFromDecoded decoded = Inr r" "paymentCredentialValue r = Inr obj"
    "list_all (\<lambda>(k, s). fieldConforms decoded k s) (paymentCredentialFields @ [(''payerSignature'', fixedBytes 64)])"
  shows "length (pc_payerSignature r) = 64"
    "\<forall>(k, v) \<in> set (obj @ [(''payerSignature'', bytesValue (pc_payerSignature r))]). map_of decoded k = Some v"
proof -
  have conf: "list_all (\<lambda>(k, s). fieldConforms decoded k s) domainFields"
    using assms(3) by (simp add: paymentCredentialFields_def)
  obtain d where d: "domainFromDecoded decoded = Inr d" "pc_domain r = d"
    using assms(1) by (auto simp: paymentCredentialFromDecoded_def bindE_Inr_iff)
  note domain = domainFromDecoded_lookups [OF d(1) conf]
  show "length (pc_payerSignature r) = 64"
    using assms(1,3) by (auto simp: paymentCredentialFromDecoded_def bindE_Inr_iff field_iffs)
  show "\<forall>(k, v) \<in> set (obj @ [(''payerSignature'', bytesValue (pc_payerSignature r))]). map_of decoded k = Some v"
    using assms(1,3) domain assms(2) [unfolded paymentCredentialValue_def] d(2)
    by (auto simp: paymentCredentialFromDecoded_def paymentCredentialFields_def bindE_Inr_iff commonValue_iff field_iffs)
qed

interpretation credential_codec: canonical_codec signedPaymentCredential "paymentCredentialFields @ [(''payerSignature'', fixedBytes 64)]"
  LEN_paymentCredential paymentCredentialFromDecoded paymentCredentialValue
proof
  show "signedPaymentCredential r = Inr obj \<Longrightarrow> isOk (paymentCredentialValue r)" for r obj
    by (auto simp: signedPaymentCredential_def bindE_Inr_iff isOk_iff)
  show "signedPaymentCredential r = Inr obj \<Longrightarrow> paymentCredentialFromDecoded obj = Inr r" for r obj
    by (auto simp: signedPaymentCredential_def bindE_Inr_iff paymentCredentialValue_def commonValue_iff domainValue_def
      paymentCredentialFromDecoded_def domainFromDecoded_def bytesField_def numberField_def bigintField_def)
next
  fix decoded r
  let ?shape = "paymentCredentialFields @ [(''payerSignature'', fixedBytes 64)]"
  assume r: "paymentCredentialFromDecoded decoded = Inr r" "isOk (paymentCredentialValue r)"
    and "\<And>k s. (k, s) \<in> set ?shape \<Longrightarrow> fieldConforms decoded k s"
  then have conf: "list_all (\<lambda>(k, s). fieldConforms decoded k s) ?shape" by (auto simp: list_all_iff)
  obtain obj where obj: "paymentCredentialValue r = Inr obj" using r(2) by (auto simp: isOk_iff)
  note lookups = paymentCredentialFromDecoded_lookups [OF r(1) obj conf]
  have signed: "signedPaymentCredential r = Inr (obj @ [(''payerSignature'', bytesValue (pc_payerSignature r))])"
    using lookups(1) obj by (simp add: signedPaymentCredential_def bindE_Inr_iff)
  from agree_on_keys [OF credential_signed.keys [OF signed] credential_signed.distinct_keys lookups(2)] signed
  show "\<exists>obj. signedPaymentCredential r = Inr obj \<and> (\<forall>(k, s) \<in> set ?shape. map_of obj k = map_of decoded k)"
    by blast
qed

lemma deviceAuthorizationFromDecoded_lookups:
  assumes "deviceAuthorizationFromDecoded decoded = Inr r" "deviceAuthorizationValue r = Inr obj"
    "list_all (\<lambda>(k, s). fieldConforms decoded k s) (deviceAuthorizationFields @ [(''walletSignature'', fixedBytes 64)])"
  shows "length (da_walletSignature r) = 64"
    "\<forall>(k, v) \<in> set (obj @ [(''walletSignature'', bytesValue (da_walletSignature r))]). map_of decoded k = Some v"
proof -
  have conf: "list_all (\<lambda>(k, s). fieldConforms decoded k s) domainFields"
    using assms(3) by (simp add: deviceAuthorizationFields_def)
  obtain d where d: "domainFromDecoded decoded = Inr d" "da_domain r = d"
    using assms(1) by (auto simp: deviceAuthorizationFromDecoded_def bindE_Inr_iff)
  note domain = domainFromDecoded_lookups [OF d(1) conf]
  show "length (da_walletSignature r) = 64"
    using assms(1,3) by (auto simp: deviceAuthorizationFromDecoded_def bindE_Inr_iff field_iffs)
  show "\<forall>(k, v) \<in> set (obj @ [(''walletSignature'', bytesValue (da_walletSignature r))]). map_of decoded k = Some v"
    using assms(1,3) domain assms(2) [unfolded deviceAuthorizationValue_def] d(2)
    by (auto simp: deviceAuthorizationFromDecoded_def deviceAuthorizationFields_def bindE_Inr_iff commonValue_iff field_iffs)
qed

interpretation authorization_codec: canonical_codec signedDeviceAuthorization "deviceAuthorizationFields @ [(''walletSignature'', fixedBytes 64)]"
  LEN_deviceAuthorization deviceAuthorizationFromDecoded deviceAuthorizationValue
proof
  show "signedDeviceAuthorization r = Inr obj \<Longrightarrow> isOk (deviceAuthorizationValue r)" for r obj
    by (auto simp: signedDeviceAuthorization_def bindE_Inr_iff isOk_iff)
  show "signedDeviceAuthorization r = Inr obj \<Longrightarrow> deviceAuthorizationFromDecoded obj = Inr r" for r obj
    by (auto simp: signedDeviceAuthorization_def bindE_Inr_iff deviceAuthorizationValue_def commonValue_iff domainValue_def
      deviceAuthorizationFromDecoded_def domainFromDecoded_def bytesField_def numberField_def bigintField_def)
next
  fix decoded r
  let ?shape = "deviceAuthorizationFields @ [(''walletSignature'', fixedBytes 64)]"
  assume r: "deviceAuthorizationFromDecoded decoded = Inr r" "isOk (deviceAuthorizationValue r)"
    and "\<And>k s. (k, s) \<in> set ?shape \<Longrightarrow> fieldConforms decoded k s"
  then have conf: "list_all (\<lambda>(k, s). fieldConforms decoded k s) ?shape" by (auto simp: list_all_iff)
  obtain obj where obj: "deviceAuthorizationValue r = Inr obj" using r(2) by (auto simp: isOk_iff)
  note lookups = deviceAuthorizationFromDecoded_lookups [OF r(1) obj conf]
  have signed: "signedDeviceAuthorization r = Inr (obj @ [(''walletSignature'', bytesValue (da_walletSignature r))])"
    using lookups(1) obj by (simp add: signedDeviceAuthorization_def bindE_Inr_iff)
  from agree_on_keys [OF authorization_signed.keys [OF signed] authorization_signed.distinct_keys lookups(2)] signed
  show "\<exists>obj. signedDeviceAuthorization r = Inr obj \<and> (\<forall>(k, s) \<in> set ?shape. map_of obj k = map_of decoded k)"
    by blast
qed

lemma sessionCertificateFromDecoded_lookups:
  assumes "sessionCertificateFromDecoded decoded = Inr r" "sessionCertificateValue r = Inr obj"
    "list_all (\<lambda>(k, s). fieldConforms decoded k s) (sessionCertificateFields @ [(''issuerSignature'', fixedBytes 64)])"
  shows "length (sc_issuerSignature r) = 64"
    "\<forall>(k, v) \<in> set (obj @ [(''issuerSignature'', bytesValue (sc_issuerSignature r))]). map_of decoded k = Some v"
proof -
  have conf: "list_all (\<lambda>(k, s). fieldConforms decoded k s) domainFields"
    using assms(3) by (simp add: sessionCertificateFields_def)
  obtain d where d: "domainFromDecoded decoded = Inr d" "sc_domain r = d"
    using assms(1) by (auto simp: sessionCertificateFromDecoded_def bindE_Inr_iff)
  note domain = domainFromDecoded_lookups [OF d(1) conf]
  show "length (sc_issuerSignature r) = 64"
    using assms(1,3) by (auto simp: sessionCertificateFromDecoded_def bindE_Inr_iff field_iffs)
  show "\<forall>(k, v) \<in> set (obj @ [(''issuerSignature'', bytesValue (sc_issuerSignature r))]). map_of decoded k = Some v"
    using assms(1,3) domain assms(2) [unfolded sessionCertificateValue_def] d(2)
    by (auto simp: sessionCertificateFromDecoded_def sessionCertificateFields_def bindE_Inr_iff commonValue_iff field_iffs)
qed

interpretation certificate_codec: canonical_codec signedSessionCertificate "sessionCertificateFields @ [(''issuerSignature'', fixedBytes 64)]"
  LEN_sessionCertificate sessionCertificateFromDecoded sessionCertificateValue
proof
  show "signedSessionCertificate r = Inr obj \<Longrightarrow> isOk (sessionCertificateValue r)" for r obj
    by (auto simp: signedSessionCertificate_def bindE_Inr_iff isOk_iff)
  show "signedSessionCertificate r = Inr obj \<Longrightarrow> sessionCertificateFromDecoded obj = Inr r" for r obj
    by (auto simp: signedSessionCertificate_def bindE_Inr_iff sessionCertificateValue_def commonValue_iff domainValue_def
      sessionCertificateFromDecoded_def domainFromDecoded_def bytesField_def numberField_def bigintField_def)
next
  fix decoded r
  let ?shape = "sessionCertificateFields @ [(''issuerSignature'', fixedBytes 64)]"
  assume r: "sessionCertificateFromDecoded decoded = Inr r" "isOk (sessionCertificateValue r)"
    and "\<And>k s. (k, s) \<in> set ?shape \<Longrightarrow> fieldConforms decoded k s"
  then have conf: "list_all (\<lambda>(k, s). fieldConforms decoded k s) ?shape" by (auto simp: list_all_iff)
  obtain obj where obj: "sessionCertificateValue r = Inr obj" using r(2) by (auto simp: isOk_iff)
  note lookups = sessionCertificateFromDecoded_lookups [OF r(1) obj conf]
  have signed: "signedSessionCertificate r = Inr (obj @ [(''issuerSignature'', bytesValue (sc_issuerSignature r))])"
    using lookups(1) obj by (simp add: signedSessionCertificate_def bindE_Inr_iff)
  from agree_on_keys [OF certificate_signed.keys [OF signed] certificate_signed.distinct_keys lookups(2)] signed
  show "\<exists>obj. signedSessionCertificate r = Inr obj \<and> (\<forall>(k, s) \<in> set ?shape. map_of obj k = map_of decoded k)"
    by blast
qed

lemma decodePaymentCredential_iff:
  assumes "borsh_ok L"
  shows "decodePaymentCredential L bs = Inr r \<longleftrightarrow> encodePaymentCredential L r = Inr bs"
  unfolding decodePaymentCredential_def encodePaymentCredential_def'
  using credential_codec.decode_encode [OF assms] credential_codec.encode_decode [OF assms] by blast

lemma decodeDeviceAuthorization_iff:
  assumes "borsh_ok L"
  shows "decodeDeviceAuthorization L bs = Inr r \<longleftrightarrow> encodeDeviceAuthorization L r = Inr bs"
  unfolding decodeDeviceAuthorization_def encodeDeviceAuthorization_def'
  using authorization_codec.decode_encode [OF assms] authorization_codec.encode_decode [OF assms] by blast

lemma decodeSessionCertificate_iff:
  assumes "borsh_ok L"
  shows "decodeSessionCertificate L bs = Inr r \<longleftrightarrow> encodeSessionCertificate L r = Inr bs"
  unfolding decodeSessionCertificate_def encodeSessionCertificate_def'
  using certificate_codec.decode_encode [OF assms] certificate_codec.encode_decode [OF assms] by blast

section \<open>Success and length of the encoders\<close>

lemma encodeDeviceAuthorizationPayload_ok:
  "borsh_ok L \<Longrightarrow> isOk (encodeDeviceAuthorizationPayload L v) \<longleftrightarrow> validDeviceAuthorization v"
  by (simp add: encodeDeviceAuthorizationPayload_def' authorization_payload.encodeWith_ok deviceAuthorizationValue_ok)

lemma encodeSessionCertificatePayload_ok:
  "borsh_ok L \<Longrightarrow> isOk (encodeSessionCertificatePayload L v) \<longleftrightarrow> validSessionCertificate v"
  by (simp add: encodeSessionCertificatePayload_def' certificate_payload.encodeWith_ok sessionCertificateValue_ok)

lemma encodeGenesisState_ok:
  "borsh_ok L \<Longrightarrow> isOk (encodeGenesisState L v) \<longleftrightarrow> validGenesisState v"
  by (simp add: encodeGenesisState_def' genesis_payload.encodeWith_ok genesisStateValue_ok)

lemma encodePaymentState_ok:
  "borsh_ok L \<Longrightarrow> isOk (encodePaymentState L v) \<longleftrightarrow> validPaymentState v"
  by (simp add: encodePaymentState_def' payment_payload.encodeWith_ok paymentStateValue_ok)

lemma encodePaymentCredentialPayload_ok:
  "borsh_ok L \<Longrightarrow> isOk (encodePaymentCredentialPayload L v) \<longleftrightarrow> validPaymentCredential v"
  by (simp add: encodePaymentCredentialPayload_def' credential_payload.encodeWith_ok paymentCredentialValue_ok)

lemma encodeIdentityAttestationPayload_ok:
  "borsh_ok L \<Longrightarrow> isOk (encodeIdentityAttestationPayload L v) \<longleftrightarrow> validIdentityAttestation v"
  by (simp add: encodeIdentityAttestationPayload_def' attestation_payload.encodeWith_ok identityAttestationValue_ok)

lemma encodeDeviceAuthorization_ok:
  "borsh_ok L \<Longrightarrow> isOk (encodeDeviceAuthorization L v) \<longleftrightarrow>
     length (da_walletSignature v) = 64 \<and> validDeviceAuthorization v"
  by (simp add: encodeDeviceAuthorization_def' authorization_signed.encodeWith_ok signedDeviceAuthorization_ok)

lemma encodeSessionCertificate_ok:
  "borsh_ok L \<Longrightarrow> isOk (encodeSessionCertificate L v) \<longleftrightarrow>
     length (sc_issuerSignature v) = 64 \<and> validSessionCertificate v"
  by (simp add: encodeSessionCertificate_def' certificate_signed.encodeWith_ok signedSessionCertificate_ok)

lemma encodePaymentCredential_ok:
  "borsh_ok L \<Longrightarrow> isOk (encodePaymentCredential L v) \<longleftrightarrow>
     length (pc_payerSignature v) = 64 \<and> validPaymentCredential v"
  by (simp add: encodePaymentCredential_def' credential_signed.encodeWith_ok signedPaymentCredential_ok)

lemma encodePaymentCredential_length: "encodePaymentCredential L v = Inr bs \<Longrightarrow> length bs = 474"
  unfolding encodePaymentCredential_def' LEN_paymentCredential_def [symmetric]
  by (rule credential_signed.encodeWith_length)

lemma encodeDeviceAuthorization_length: "encodeDeviceAuthorization L v = Inr bs \<Longrightarrow> length bs = 370"
  unfolding encodeDeviceAuthorization_def' LEN_deviceAuthorization_def [symmetric]
  by (rule authorization_signed.encodeWith_length)

lemma encodeSessionCertificate_length: "encodeSessionCertificate L v = Inr bs \<Longrightarrow> length bs = 554"
  unfolding encodeSessionCertificate_def' LEN_sessionCertificate_def [symmetric]
  by (rule certificate_signed.encodeWith_length)

section \<open>The layout determines the object\<close>

lemma domainValue_inject: "domainValue a = domainValue b \<longleftrightarrow> a = b"
  by (cases a; cases b) (simp add: domainValue_def)

lemma genesisStateValue_inject:
  "genesisStateValue a = Inr obj \<Longrightarrow> genesisStateValue b = Inr obj \<Longrightarrow> a = b"
  by (cases a; cases b)
    (auto simp: genesisStateValue_def bindE_Inr_iff commonValue_iff domainValue_def intro: Domain.equality)

lemma paymentStateValue_inject:
  "paymentStateValue a = Inr obj \<Longrightarrow> paymentStateValue b = Inr obj \<Longrightarrow> a = b"
  by (cases a; cases b)
    (auto simp: paymentStateValue_def bindE_Inr_iff commonValue_iff domainValue_def intro: Domain.equality)

lemma paymentCredentialValue_inject:
  "paymentCredentialValue a = Inr obj \<Longrightarrow> paymentCredentialValue b = Inr obj \<Longrightarrow>
     PaymentCredentialPayload.truncate a = PaymentCredentialPayload.truncate b"
  by (cases a; cases b)
    (auto simp: paymentCredentialValue_def PaymentCredentialPayload.truncate_def bindE_Inr_iff commonValue_iff
      domainValue_def intro: Domain.equality)

lemma encodeGenesisState_inject:
  assumes "borsh_ok L" "encodeGenesisState L a = Inr bs" "encodeGenesisState L b = Inr bs"
  shows "a = b"
  using genesis_payload.encodeWith_inject [OF assms(1) assms(2,3) [unfolded encodeGenesisState_def']]
    assms(2,3) by (auto simp: encodeGenesisState_def bindE_Inr_iff dest: genesisStateValue_inject)

lemma encodePaymentState_inject:
  assumes "borsh_ok L" "encodePaymentState L a = Inr bs" "encodePaymentState L b = Inr bs"
  shows "a = b"
  using payment_payload.encodeWith_inject [OF assms(1) assms(2,3) [unfolded encodePaymentState_def']]
    assms(2,3) by (auto simp: encodePaymentState_def bindE_Inr_iff dest: paymentStateValue_inject)

lemma encodePaymentCredentialPayload_inject:
  fixes a b :: "'a PaymentCredentialPayload_scheme"
  assumes "borsh_ok L" "encodePaymentCredentialPayload L a = Inr bs" "encodePaymentCredentialPayload L b = Inr bs"
  shows "PaymentCredentialPayload.truncate a = PaymentCredentialPayload.truncate b"
  using credential_payload.encodeWith_inject [OF assms(1) assms(2,3) [unfolded encodePaymentCredentialPayload_def']]
    assms(2,3) by (auto simp: encodePaymentCredentialPayload_def bindE_Inr_iff dest: paymentCredentialValue_inject)

section \<open>The proof bundle\<close>

lemma signed_layout:
  assumes "borsh_ok L"
  shows "signedSessionCertificate c = Inr obj \<Longrightarrow>
     \<exists>bs. borshBytes (StructSchema (sessionCertificateFields @ [(''issuerSignature'', fixedBytes 64)])) (JsObject obj) = Some bs \<and>
       encodeSessionCertificate L c = Inr bs"
  "signedDeviceAuthorization a = Inr obj \<Longrightarrow>
     \<exists>bs. borshBytes (StructSchema (deviceAuthorizationFields @ [(''walletSignature'', fixedBytes 64)])) (JsObject obj) = Some bs \<and>
       encodeDeviceAuthorization L a = Inr bs"
  "signedPaymentCredential p = Inr obj \<Longrightarrow>
     \<exists>bs. borshBytes (StructSchema (paymentCredentialFields @ [(''payerSignature'', fixedBytes 64)])) (JsObject obj) = Some bs \<and>
       encodePaymentCredential L p = Inr bs"
  unfolding encodeSessionCertificate_def' encodeDeviceAuthorization_def' encodePaymentCredential_def'
    certificate_signed.encodeWith_Inr_iff [OF assms] authorization_signed.encodeWith_Inr_iff [OF assms]
    credential_signed.encodeWith_Inr_iff [OF assms]
  by (auto elim: certificate_signed.layout authorization_signed.layout credential_signed.layout)

lemma credentials_layout:
  fixes cs :: "PaymentCredential list"
  assumes "borsh_ok L" "mapE (\<lambda>c. bindE (paymentCredentialValue c) (\<lambda>object.
      Inr (JsObject (object @ [(''payerSignature'', bytesValue (pc_payerSignature c))])))) cs = Inr vs"
    and "\<forall>c \<in> set cs. length (pc_payerSignature c) = 64"
  shows "length vs = length cs \<and> (\<exists>encs.
    those (map (borshBytes (StructSchema (paymentCredentialFields @ [(''payerSignature'', fixedBytes 64)]))) vs) = Some encs \<and>
    list_all2 (\<lambda>c e. encodePaymentCredential L c = Inr e) cs encs)"
  using assms(2,3)
proof (induction cs arbitrary: vs)
  case (Cons c cs)
  then obtain object vs' where c: "paymentCredentialValue c = Inr object"
    and vs: "vs = JsObject (object @ [(''payerSignature'', bytesValue (pc_payerSignature c))]) # vs'"
    and rest: "mapE (\<lambda>c. bindE (paymentCredentialValue c) (\<lambda>object.
      Inr (JsObject (object @ [(''payerSignature'', bytesValue (pc_payerSignature c))])))) cs = Inr vs'"
    by (auto simp: bindE_Inr_iff)
  have "signedPaymentCredential c = Inr (object @ [(''payerSignature'', bytesValue (pc_payerSignature c))])"
    using c Cons.prems by (simp add: signedPaymentCredential_def bindE_Inr_iff)
  from signed_layout(3) [OF assms(1) this] Cons.IH [OF rest] Cons.prems(2) show ?case
    by (auto simp: vs simp del: borshBytes.simps)
qed simp

lemma encoded_credentials_length:
  "list_all2 (\<lambda>c e. encodePaymentCredential L c = Inr e) cs encs \<Longrightarrow> length (concat encs) = length cs * 474"
  by (induction cs encs rule: list_all2_induct) (auto dest: encodePaymentCredential_length)

lemma bundle_layout:
  "borshBytes sc c = Some cb \<Longrightarrow> borshBytes sa a = Some ab \<Longrightarrow> borshBytes sr r = Some rb \<Longrightarrow>
    borshBytes (StructSchema [(''sessionCertificate'', sc), (''deviceAuthorization'', sa), (''credentials'', sr)])
      (JsObject [(''sessionCertificate'', c), (''deviceAuthorization'', a), (''credentials'', r)]) = Some (cb @ ab @ rb)"
  by simp

lemma array_layout:
  "length vs < 2 ^ 32 \<Longrightarrow> those (map (borshBytes s) vs) = Some encs \<Longrightarrow>
    borshBytes (ArraySchema s None) (JsArray vs) = Some (leBytes 4 (int (length vs)) @ concat encs)"
  by (simp add: leUnsigned_def)

definition validBundle :: "CredentialProofBundle \<Rightarrow> bool" where
  "validBundle b \<longleftrightarrow> length (credentials b) \<le> 32 \<and>
     validSessionCertificate (sessionCertificate b) \<and> length (sc_issuerSignature (sessionCertificate b)) = 64 \<and>
     validDeviceAuthorization (deviceAuthorization b) \<and> length (da_walletSignature (deviceAuthorization b)) = 64 \<and>
     (\<forall>c \<in> set (credentials b). validPaymentCredential c \<and> length (pc_payerSignature c) = 64)"

lemma credentialProofBundleEncodedLength_iff:
  "credentialProofBundleEncodedLength d = Inr n \<longleftrightarrow> 0 \<le> d \<and> d \<le> 32 \<and> n = 928 + nat d * 474"
  by (auto simp: credentialProofBundleEncodedLength_def bindE_Inr_iff encoded_lengths MAX_BRANCH_DEPTH_def)

lemma isOk_mapE: "isOk (mapE f xs) \<longleftrightarrow> (\<forall>x \<in> set xs. isOk (f x))"
  by (induction xs) (auto simp: isOk_iff bindE_Inr_iff)

text \<open>The encoding of a bundle is the encodings of its parts, with the number of credentials.\<close>

lemma encodeCredentialProofBundle_layout:
  assumes "borsh_ok L" "validBundle b"
  shows "\<exists>cb ab encs. encodeSessionCertificate L (sessionCertificate b) = Inr cb \<and>
    encodeDeviceAuthorization L (deviceAuthorization b) = Inr ab \<and>
    list_all2 (\<lambda>c e. encodePaymentCredential L c = Inr e) (credentials b) encs \<and>
    encodeCredentialProofBundle L b = Inr (cb @ ab @ leBytes 4 (int (length (credentials b))) @ concat encs)"
proof -
  let ?cert = "sessionCertificate b" and ?auth = "deviceAuthorization b"
  have v: "length (credentials b) \<le> 32" "length (sc_issuerSignature ?cert) = 64" "length (da_walletSignature ?auth) = 64"
    "\<forall>c \<in> set (credentials b). length (pc_payerSignature c) = 64"
    "isOk (sessionCertificateValue ?cert)" "isOk (deviceAuthorizationValue ?auth)"
    "\<forall>c \<in> set (credentials b). isOk (paymentCredentialValue c)"
    using assms(2) by (auto simp: validBundle_def sessionCertificateValue_ok deviceAuthorizationValue_ok paymentCredentialValue_ok)
  obtain cert auth where c: "sessionCertificateValue ?cert = Inr cert" and a: "deviceAuthorizationValue ?auth = Inr auth"
    using v(5,6) by (auto simp: isOk_iff)
  obtain creds where m: "mapE (\<lambda>c. bindE (paymentCredentialValue c) (\<lambda>object.
      Inr (JsObject (object @ [(''payerSignature'', bytesValue (pc_payerSignature c))])))) (credentials b) = Inr creds"
    using v(7) isOk_mapE [of "\<lambda>c. bindE (paymentCredentialValue c) (\<lambda>object.
      Inr (JsObject (object @ [(''payerSignature'', bytesValue (pc_payerSignature c))])))" "credentials b"]
    by (auto simp: isOk_iff bindE_Inr_iff)
  obtain encs where e: "length creds = length (credentials b)"
    "those (map (borshBytes (StructSchema (paymentCredentialFields @ [(''payerSignature'', fixedBytes 64)]))) creds) = Some encs"
    "list_all2 (\<lambda>c e. encodePaymentCredential L c = Inr e) (credentials b) encs"
    using credentials_layout [OF assms(1) m v(4)] by blast
  have cert_object: "signedSessionCertificate ?cert = Inr (cert @ [(''issuerSignature'', bytesValue (sc_issuerSignature ?cert))])"
    using c v(2) by (simp add: signedSessionCertificate_def bindE_Inr_iff)
  obtain cb where cb: "borshBytes (StructSchema (sessionCertificateFields @ [(''issuerSignature'', fixedBytes 64)]))
      (JsObject (cert @ [(''issuerSignature'', bytesValue (sc_issuerSignature ?cert))])) = Some cb" "encodeSessionCertificate L ?cert = Inr cb"
    using signed_layout(1) [OF assms(1) cert_object] by blast
  have auth_object: "signedDeviceAuthorization ?auth = Inr (auth @ [(''walletSignature'', bytesValue (da_walletSignature ?auth))])"
    using a v(3) by (simp add: signedDeviceAuthorization_def bindE_Inr_iff)
  obtain ab where ab: "borshBytes (StructSchema (deviceAuthorizationFields @ [(''walletSignature'', fixedBytes 64)]))
      (JsObject (auth @ [(''walletSignature'', bytesValue (da_walletSignature ?auth))])) = Some ab" "encodeDeviceAuthorization L ?auth = Inr ab"
    using signed_layout(2) [OF assms(1) auth_object] by blast
  let ?object = "JsObject
      [(''sessionCertificate'', JsObject (cert @ [(''issuerSignature'', bytesValue (sc_issuerSignature ?cert))])),
       (''deviceAuthorization'', JsObject (auth @ [(''walletSignature'', bytesValue (da_walletSignature ?auth))])),
       (''credentials'', JsArray creds)]"
  from e(1) v(1) have "length creds < 2 ^ 32" by simp
  from bundle_layout [OF cb(1) ab(1) array_layout [OF this e(2)]]
  have "borshBytes credentialProofBundleSchema ?object = Some (cb @ ab @ leBytes 4 (int (length creds)) @ concat encs)"
    unfolding credentialProofBundleSchema_def .
  note serialized = borshSerialize_layout [OF assms(1) this]
  have lengths: "length cb = 554" "length ab = 370" "length (concat encs) = length (credentials b) * 474"
    using cb(2) ab(2) encoded_credentials_length [OF e(3)]
    by (simp_all add: encodeSessionCertificate_length encodeDeviceAuthorization_length)
  have "encodeCredentialProofBundle L b = Inr (cb @ ab @ leBytes 4 (int (length (credentials b))) @ concat encs)"
    using serialized c a m lengths e(1) v(1)
    by (simp add: encodeCredentialProofBundle_def bindE_Inr_iff credentialProofBundleEncodedLength_iff)
  with cb(2) ab(2) e(3) show ?thesis by blast
qed

lemma encodeCredentialProofBundle_ok: "borsh_ok L \<Longrightarrow> validBundle b \<Longrightarrow> isOk (encodeCredentialProofBundle L b)"
  using encodeCredentialProofBundle_layout [of L b] by (auto simp: isOk_iff)

lemma encodeCredentialProofBundle_length:
  assumes "encodeCredentialProofBundle L b = Inr bs"
  shows "length (credentials b) \<le> 32" "length bs = 928 + 474 * length (credentials b)"
  using assms
  by (auto simp: encodeCredentialProofBundle_def bindE_Inr_iff credentialProofBundleEncodedLength_iff)

end
