(* ===== verification/Credentials.thy ===== *)
theory Credentials
  imports CodecContract JsArrays
begin

text \<open>
  \<open>packages/credentials/src/index.ts\<close>: domains, device authorizations, session certificates,
  the creation and the validation of payment credentials, proof bundles and fork detection
  among candidates.

  Every function that hashes or signs takes the third-party functions \<open>L\<close> first and returns
  a result, because the encoder it calls may throw.
\<close>

section \<open>Data\<close>

record ParentState =
  pt_stateHash :: bytes
  pt_sequence :: int
  pt_remaining :: int

record PaymentRequest =
  rq_merchant :: bytes
  rq_merchantDeviceKey :: bytes
  rq_amount :: int
  rq_merchantChallenge :: bytes
  rq_createdAt :: int

record ForkDetectionResult =
  fd_authenticatedFork :: bool
  fd_branchCount :: nat
  fd_validCredentials :: "PaymentCredential list"
  fd_rejected :: "(PaymentCredential \<times> string) list"

text \<open>\<open>Omit<GenesisState, "domain">\<close>\<close>

record GenesisFields =
  gf_owner :: bytes
  gf_devicePublicKey :: bytes
  gf_branchSpendingLimit :: int
  gf_maxBranchDepth :: int
  gf_initialRemaining :: int
  gf_issuedAt :: int
  gf_expiresAt :: int

section \<open>Domains\<close>

definition createDomain :: "'a DomainContext_scheme \<Rightarrow> ObjectType \<Rightarrow> Domain" where
  "createDomain context objectType =
    \<lparr>dm_protocolName = PROTOCOL_NAME, dm_protocolVersion = PROTOCOL_VERSION,
     dm_schemaVersion = SCHEMA_VERSION, dm_objectType = objectNumber objectType,
     dm_networkId = cx_networkId context, dm_clusterGenesisHash = cx_clusterGenesisHash context,
     dm_programId = cx_programId context, dm_sessionId = cx_sessionId context\<rparr>"

definition assertSessionBinding :: "Domain \<Rightarrow> bytes \<Rightarrow> unit result" where
  "assertSessionBinding domain sessionId =
    throwIf (\<not> equalBytes (dm_sessionId domain) sessionId) ''SESSION_MISMATCH''"

definition assertDomainContext :: "Domain \<Rightarrow> 'a DomainContext_scheme \<Rightarrow> ObjectType \<Rightarrow> unit result" where
  "assertDomainContext domain context expectedType =
    throwIf (dm_objectType domain \<noteq> objectNumber expectedType \<or> dm_networkId domain \<noteq> cx_networkId context \<or>
        \<not> equalBytes (dm_clusterGenesisHash domain) (cx_clusterGenesisHash context) \<or>
        \<not> equalBytes (dm_programId domain) (cx_programId context) \<or>
        \<not> equalBytes (dm_sessionId domain) (cx_sessionId context))
      ''DOMAIN_MISMATCH''"

text \<open>\<open>try { return ... } catch { return false; }\<close>\<close>

definition orFalse :: "bool result \<Rightarrow> bool" where
  "orFalse r = (case r of Inl _ \<Rightarrow> False | Inr b \<Rightarrow> b)"

section \<open>Device authorizations and session certificates\<close>

definition signDeviceAuthorization ::
  "lib \<Rightarrow> DeviceAuthorizationPayload \<Rightarrow> bytes \<Rightarrow> DeviceAuthorization result" where
  "signDeviceAuthorization L payload walletSecretKey =
    bindE (assertSessionBinding (da_domain payload) (da_sessionId payload)) (\<lambda>_.
    bindE (encodeDeviceAuthorizationPayload L payload) (\<lambda>message.
    bindE (signEd25519 L message walletSecretKey) (\<lambda>signature.
      Inr (DeviceAuthorizationPayload.extend payload (DeviceAuthorization.fields signature)))))"

definition verifyDeviceAuthorization :: "lib \<Rightarrow> DeviceAuthorization \<Rightarrow> bool" where
  "verifyDeviceAuthorization L value = orFalse
    (bindE (assertSessionBinding (da_domain value) (da_sessionId value)) (\<lambda>_.
     bindE (encodeDeviceAuthorizationPayload L value) (\<lambda>message.
       Inr (verifyEd25519 L (da_walletSignature value) message (da_owner value)))))"

definition deviceAuthorizationHash :: "lib \<Rightarrow> DeviceAuthorization \<Rightarrow> bytes result" where
  "deviceAuthorizationHash L value =
    bindE (encodeDeviceAuthorization L value) (\<lambda>encoded. Inr (hashSha256 L encoded))"

definition signSessionCertificate ::
  "lib \<Rightarrow> SessionCertificatePayload \<Rightarrow> bytes \<Rightarrow> SessionCertificate result" where
  "signSessionCertificate L payload issuerSecretKey =
    bindE (assertSessionBinding (sc_domain payload) (sc_sessionId payload)) (\<lambda>_.
    bindE (encodeSessionCertificatePayload L payload) (\<lambda>message.
    bindE (signEd25519 L message issuerSecretKey) (\<lambda>signature.
      Inr (SessionCertificatePayload.extend payload (SessionCertificate.fields signature)))))"

definition verifySessionCertificate :: "lib \<Rightarrow> SessionCertificate \<Rightarrow> bool" where
  "verifySessionCertificate L value = orFalse
    (bindE (assertSessionBinding (sc_domain value) (sc_sessionId value)) (\<lambda>_.
     bindE (encodeSessionCertificatePayload L value) (\<lambda>message.
       Inr (verifyEd25519 L (sc_issuerSignature value) message (sc_issuer value)))))"

definition validateCertificateChain ::
  "lib \<Rightarrow> ProtocolTrustContext \<Rightarrow> SessionCertificate \<Rightarrow> DeviceAuthorization \<Rightarrow> unit result" where
  "validateCertificateChain L context certificate authorization =
    bindE (assertDomainContext (da_domain authorization) context DeviceAuthorizationObject) (\<lambda>_.
    bindE (assertDomainContext (sc_domain certificate) context SessionCertificateObject) (\<lambda>_.
    bindE (throwIf (\<not> verifyDeviceAuthorization L authorization) ''INVALID_DEVICE_AUTHORIZATION'') (\<lambda>_.
    bindE (throwIf (\<not> verifySessionCertificate L certificate) ''INVALID_SESSION_CERTIFICATE'') (\<lambda>_.
    bindE (throwIf (\<not> equalBytes (sc_issuer certificate) (cx_trustedCertificateIssuer context)) ''UNTRUSTED_ISSUER'') (\<lambda>_.
    bindE (throwIf (equalBytes (da_owner authorization) (da_devicePublicKey authorization)) ''INVALID_DEVICE_AUTHORIZATION'') (\<lambda>_.
    bindE (deviceAuthorizationHash L authorization) (\<lambda>hash.
    bindE (throwIf (\<not> equalBytes (sc_deviceAuthorizationHash certificate) hash) ''INVALID_DEVICE_AUTHORIZATION'') (\<lambda>_.
    bindE (throwIf (list_ex (\<lambda>(left, right). \<not> equalBytes left right)
          [(sc_sessionId certificate, da_sessionId authorization), (sc_owner certificate, da_owner authorization),
           (sc_devicePublicKey certificate, da_devicePublicKey authorization), (sc_vault certificate, da_vault authorization)] \<or>
        sc_branchSpendingLimit certificate \<noteq> da_branchSpendingLimit authorization \<or>
        sc_collateralCoverageCap certificate \<noteq> da_collateralCoverageCap authorization \<or>
        sc_maxBranchDepth certificate \<noteq> da_maxBranchDepth authorization \<or>
        sc_issuedAt certificate \<noteq> da_issuedAt authorization \<or>
        sc_expiresAt certificate \<noteq> da_expiresAt authorization) ''INVALID_DEVICE_AUTHORIZATION'') (\<lambda>_.
    bindE (throwIf (sc_branchSpendingLimit certificate \<le> 0 \<or> sc_collateralLocked certificate \<le> 0 \<or>
        sc_collateralCoverageCap certificate \<noteq> sc_collateralLocked certificate \<or>
        sc_branchSpendingLimit certificate * 30000 > sc_collateralLocked certificate * 10000) ''INVALID_SESSION_CERTIFICATE'') (\<lambda>_.
      throwIf (sc_maxBranchDepth certificate \<noteq> MAX_BRANCH_DEPTH \<or>
        sc_expiresAt certificate \<le> sc_issuedAt certificate \<or>
        sc_expiresAt certificate - sc_issuedAt certificate > 3 * 60 * 60 \<or>
        sc_claimSubmissionDeadline certificate \<noteq> sc_expiresAt certificate + 6 * 60 * 60) ''INVALID_SESSION_CERTIFICATE''))))))))))"

definition sessionCertificateHash :: "lib \<Rightarrow> SessionCertificate \<Rightarrow> bytes result" where
  "sessionCertificateHash L value =
    bindE (encodeSessionCertificate L value) (\<lambda>encoded. Inr (hashSha256 L encoded))"

section \<open>States\<close>

definition createGenesisState :: "'a DomainContext_scheme \<Rightarrow> GenesisFields \<Rightarrow> GenesisState result" where
  "createGenesisState context shape =
    bindE (throwIf (gf_initialRemaining shape \<noteq> gf_branchSpendingLimit shape) ''INVALID_TRANSITION'') (\<lambda>_.
    bindE (throwIf (gf_branchSpendingLimit shape \<le> 0) ''INVALID_AMOUNT'') (\<lambda>_.
    bindE (throwIf (gf_maxBranchDepth shape \<noteq> MAX_BRANCH_DEPTH) ''BRANCH_DEPTH_EXCEEDED'') (\<lambda>_.
    bindE (throwIf (gf_expiresAt shape \<le> gf_issuedAt shape) ''SESSION_EXPIRED_METADATA'') (\<lambda>_.
      Inr \<lparr>gs_domain = createDomain context GenesisStateObject, gs_owner = gf_owner shape,
        gs_devicePublicKey = gf_devicePublicKey shape, gs_branchSpendingLimit = gf_branchSpendingLimit shape,
        gs_maxBranchDepth = gf_maxBranchDepth shape, gs_initialRemaining = gf_initialRemaining shape,
        gs_issuedAt = gf_issuedAt shape, gs_expiresAt = gf_expiresAt shape\<rparr>))))"

definition genesisStateHash :: "lib \<Rightarrow> GenesisState \<Rightarrow> bytes result" where
  "genesisStateHash L value = bindE (encodeGenesisState L value) (\<lambda>encoded. Inr (hashSha256 L encoded))"

definition paymentStateHash :: "lib \<Rightarrow> PaymentState \<Rightarrow> bytes result" where
  "paymentStateHash L value = bindE (encodePaymentState L value) (\<lambda>encoded. Inr (hashSha256 L encoded))"

section \<open>Payment credentials\<close>

definition createPaymentCredential ::
  "lib \<Rightarrow> ProtocolTrustContext \<Rightarrow> SessionCertificate \<Rightarrow> 'a ParentState_scheme \<Rightarrow> PaymentRequest \<Rightarrow> bytes \<Rightarrow>
   PaymentCredential result" where
  "createPaymentCredential L context certificate parent request payerDeviceSecretKey =
    bindE (assertDomainContext (sc_domain certificate) context SessionCertificateObject) (\<lambda>_.
    bindE (throwIf (\<not> verifySessionCertificate L certificate) ''INVALID_SESSION_CERTIFICATE'') (\<lambda>_.
    bindE (throwIf (\<not> equalBytes (sc_issuer certificate) (cx_trustedCertificateIssuer context)) ''UNTRUSTED_ISSUER'') (\<lambda>_.
    bindE (throwIf (\<not> equalBytes (cx_sessionId context) (sc_sessionId certificate)) ''SESSION_MISMATCH'') (\<lambda>_.
    bindE (assertBytes (rq_merchant request) 32) (\<lambda>_.
    bindE (assertBytes (rq_merchantDeviceKey request) 32) (\<lambda>_.
    bindE (assertBytes (rq_merchantChallenge request) 32) (\<lambda>_.
    bindE (throwIf (list_all (\<lambda>value. value = 0) (rq_merchantChallenge request)) ''INVALID_CHALLENGE'') (\<lambda>_.
    bindE (throwIf (equalBytes (sc_owner certificate) (rq_merchant request)) ''SELF_MERCHANT_FORBIDDEN'') (\<lambda>_.
    bindE (assertU64 (rq_amount request)) (\<lambda>_.
    bindE (throwIf (rq_amount request = 0 \<or> rq_amount request > pt_remaining parent) ''INVALID_AMOUNT'') (\<lambda>_.
    bindE (assertU32 (pt_sequence parent)) (\<lambda>_.
    bindE (throwIf (pt_sequence parent \<ge> sc_maxBranchDepth certificate) ''BRANCH_DEPTH_EXCEEDED'') (\<lambda>_.
    bindE (assertI64 (rq_createdAt request)) (\<lambda>_.
    bindE (throwIf (rq_createdAt request < sc_issuedAt certificate \<or> rq_createdAt request > sc_expiresAt certificate)
      ''SESSION_EXPIRED_METADATA'') (\<lambda>_.
    let sequence = pt_sequence parent + 1;
        newRemaining = pt_remaining parent - rq_amount request;
        state = \<lparr>ps_domain = createDomain context PaymentStateObject, ps_previousStateHash = pt_stateHash parent,
          ps_sequence = sequence, ps_merchant = rq_merchant request, ps_amount = rq_amount request,
          ps_merchantChallenge = rq_merchantChallenge request, ps_previousRemaining = pt_remaining parent,
          ps_newRemaining = newRemaining\<rparr>
    in
    bindE (paymentStateHash L state) (\<lambda>newStateHash.
    let payload = \<lparr>pc_domain = createDomain context PaymentCredentialObject, pc_sessionId = cx_sessionId context,
          pc_sequence = sequence, pc_payer = sc_owner certificate, pc_payerDeviceKey = sc_devicePublicKey certificate,
          pc_merchant = rq_merchant request, pc_merchantDeviceKey = rq_merchantDeviceKey request,
          pc_amount = rq_amount request, pc_previousStateHash = pt_stateHash parent, pc_newStateHash = newStateHash,
          pc_previousRemaining = pt_remaining parent, pc_newRemaining = newRemaining,
          pc_merchantChallenge = rq_merchantChallenge request, pc_createdAt = rq_createdAt request,
          pc_sessionExpiresAt = sc_expiresAt certificate\<rparr>
    in
    bindE (derivePublicKey L payerDeviceSecretKey) (\<lambda>publicKey.
    bindE (throwIf (\<not> equalBytes publicKey (sc_devicePublicKey certificate)) ''INVALID_DEVICE_AUTHORIZATION'') (\<lambda>_.
    bindE (encodePaymentCredentialPayload L payload) (\<lambda>message.
    bindE (signEd25519 L message payerDeviceSecretKey) (\<lambda>signature.
      Inr (PaymentCredentialPayload.extend payload (PaymentCredential.fields signature))))))))))))))))))))))"

text \<open>The state \<open>validatePaymentCredential\<close> recomputes from the credential.\<close>

definition credentialState :: "'a DomainContext_scheme \<Rightarrow> PaymentCredential \<Rightarrow> PaymentState" where
  "credentialState context credential =
    \<lparr>ps_domain = createDomain context PaymentStateObject, ps_previousStateHash = pc_previousStateHash credential,
     ps_sequence = pc_sequence credential, ps_merchant = pc_merchant credential, ps_amount = pc_amount credential,
     ps_merchantChallenge = pc_merchantChallenge credential, ps_previousRemaining = pc_previousRemaining credential,
     ps_newRemaining = pc_newRemaining credential\<rparr>"

definition validatePaymentCredential ::
  "lib \<Rightarrow> ProtocolTrustContext \<Rightarrow> SessionCertificate \<Rightarrow> 'a ParentState_scheme \<Rightarrow> PaymentCredential \<Rightarrow> unit result" where
  "validatePaymentCredential L context certificate parent credential =
    bindE (assertDomainContext (sc_domain certificate) context SessionCertificateObject) (\<lambda>_.
    bindE (assertDomainContext (pc_domain credential) context PaymentCredentialObject) (\<lambda>_.
    bindE (assertSessionBinding (pc_domain credential) (pc_sessionId credential)) (\<lambda>_.
    bindE (throwIf (\<not> equalBytes (cx_sessionId context) (pc_sessionId credential) \<or>
        \<not> equalBytes (sc_sessionId certificate) (pc_sessionId credential)) ''SESSION_MISMATCH'') (\<lambda>_.
    bindE (throwIf (\<not> verifySessionCertificate L certificate) ''INVALID_SESSION_CERTIFICATE'') (\<lambda>_.
    bindE (throwIf (\<not> equalBytes (sc_issuer certificate) (cx_trustedCertificateIssuer context)) ''UNTRUSTED_ISSUER'') (\<lambda>_.
    bindE (throwIf (\<not> equalBytes (pc_payer credential) (sc_owner certificate) \<or>
        \<not> equalBytes (pc_payerDeviceKey credential) (sc_devicePublicKey certificate)) ''INVALID_DEVICE_AUTHORIZATION'') (\<lambda>_.
    bindE (throwIf (equalBytes (pc_payer credential) (pc_merchant credential)) ''SELF_MERCHANT_FORBIDDEN'') (\<lambda>_.
    bindE (throwIf (\<not> equalBytes (pc_previousStateHash credential) (pt_stateHash parent) \<or>
        pc_sequence credential \<noteq> pt_sequence parent + 1) ''INVALID_PARENT'') (\<lambda>_.
    bindE (throwIf (pc_sequence credential > sc_maxBranchDepth certificate) ''BRANCH_DEPTH_EXCEEDED'') (\<lambda>_.
    bindE (throwIf (pc_amount credential = 0 \<or> pc_amount credential > pt_remaining parent \<or>
        pc_previousRemaining credential \<noteq> pt_remaining parent \<or>
        pc_newRemaining credential \<noteq> pt_remaining parent - pc_amount credential) ''INVALID_TRANSITION'') (\<lambda>_.
    bindE (throwIf (pc_createdAt credential < sc_issuedAt certificate \<or> pc_createdAt credential > sc_expiresAt certificate \<or>
        pc_sessionExpiresAt credential \<noteq> sc_expiresAt certificate) ''SESSION_EXPIRED_METADATA'') (\<lambda>_.
    bindE (throwIf (length (pc_merchantChallenge credential) \<noteq> 32 \<or>
        list_all (\<lambda>value. value = 0) (pc_merchantChallenge credential)) ''INVALID_CHALLENGE'') (\<lambda>_.
    bindE (paymentStateHash L (credentialState context credential)) (\<lambda>stateHash.
    bindE (throwIf (\<not> equalBytes stateHash (pc_newStateHash credential)) ''INVALID_TRANSITION'') (\<lambda>_.
    bindE (encodePaymentCredentialPayload L credential) (\<lambda>message.
      throwIf (\<not> verifyEd25519 L (pc_payerSignature credential) message (sc_devicePublicKey certificate))
        ''INVALID_SIGNATURE''))))))))))))))))"

section \<open>Proof bundles and forks\<close>

text \<open>The state after an accepted credential.\<close>

definition nextParent :: "PaymentCredential \<Rightarrow> ParentState" where
  "nextParent credential =
    \<lparr>pt_stateHash = pc_newStateHash credential, pt_sequence = pc_sequence credential,
     pt_remaining = pc_newRemaining credential\<rparr>"

fun replayCredentials ::
  "lib \<Rightarrow> ProtocolTrustContext \<Rightarrow> SessionCertificate \<Rightarrow> ParentState \<Rightarrow> PaymentCredential list \<Rightarrow> ParentState result" where
  "replayCredentials L context certificate parent [] = Inr parent"
| "replayCredentials L context certificate parent (credential # rest) =
    bindE (validatePaymentCredential L context certificate parent credential) (\<lambda>_.
      replayCredentials L context certificate (nextParent credential) rest)"

definition certificateGenesis :: "SessionCertificate \<Rightarrow> GenesisFields" where
  "certificateGenesis certificate =
    \<lparr>gf_owner = sc_owner certificate, gf_devicePublicKey = sc_devicePublicKey certificate,
     gf_branchSpendingLimit = sc_branchSpendingLimit certificate, gf_maxBranchDepth = sc_maxBranchDepth certificate,
     gf_initialRemaining = sc_branchSpendingLimit certificate, gf_issuedAt = sc_issuedAt certificate,
     gf_expiresAt = sc_expiresAt certificate\<rparr>"

definition validateCredentialProofBundle ::
  "lib \<Rightarrow> ProtocolTrustContext \<Rightarrow> CredentialProofBundle \<Rightarrow> ParentState result" where
  "validateCredentialProofBundle L context bundle =
    bindE (validateCertificateChain L context (sessionCertificate bundle) (deviceAuthorization bundle)) (\<lambda>_.
    let certificate = sessionCertificate bundle in
    bindE (throwIf (int (length (credentials bundle)) > sc_maxBranchDepth certificate) ''BRANCH_DEPTH_EXCEEDED'') (\<lambda>_.
    bindE (createGenesisState context (certificateGenesis certificate)) (\<lambda>genesis.
    bindE (genesisStateHash L genesis) (\<lambda>stateHash.
    bindE (throwIf (\<not> equalBytes stateHash (sc_genesisStateHash certificate)) ''INVALID_SESSION_CERTIFICATE'') (\<lambda>_.
      replayCredentials L context certificate
        \<lparr>pt_stateHash = stateHash, pt_sequence = 0, pt_remaining = sc_branchSpendingLimit certificate\<rparr>
        (credentials bundle))))))"

text \<open>A JavaScript \<open>Set\<close> of strings, in insertion order.\<close>

definition setAdd :: "string \<Rightarrow> string list \<Rightarrow> string list" where
  "setAdd x xs = (if x \<in> set xs then xs else xs @ [x])"

text \<open>\<open>error instanceof OgpValidationError ? error.code : fallback\<close>\<close>

fun errorReason :: "string \<Rightarrow> js_error \<Rightarrow> string" where
  "errorReason fallback (OgpValidationError code) = code"
| "errorReason fallback (JsError message) = fallback"

fun classifyCandidates ::
  "lib \<Rightarrow> ProtocolTrustContext \<Rightarrow> SessionCertificate \<Rightarrow> 'a ParentState_scheme \<Rightarrow> PaymentCredential list \<Rightarrow>
   PaymentCredential list \<Rightarrow> (PaymentCredential \<times> string) list \<Rightarrow> string list \<Rightarrow>
   PaymentCredential list \<times> (PaymentCredential \<times> string) list \<times> string list" where
  "classifyCandidates L context certificate parent [] validCredentials rejected childHashes =
     (validCredentials, rejected, childHashes)"
| "classifyCandidates L context certificate parent (credential # rest) validCredentials rejected childHashes =
     (case validatePaymentCredential L context certificate parent credential of
        Inr _ \<Rightarrow> classifyCandidates L context certificate parent rest (validCredentials @ [credential]) rejected
          (setAdd (bytesToHex (pc_newStateHash credential)) childHashes)
      | Inl error \<Rightarrow> classifyCandidates L context certificate parent rest validCredentials
          (rejected @ [(credential, errorReason ''UNKNOWN_ERROR'' error)]) childHashes)"

definition detectAuthenticatedFork ::
  "lib \<Rightarrow> ProtocolTrustContext \<Rightarrow> SessionCertificate \<Rightarrow> 'a ParentState_scheme \<Rightarrow> PaymentCredential list \<Rightarrow>
   ForkDetectionResult" where
  "detectAuthenticatedFork L context certificate parent candidates =
    (let (validCredentials, rejected, childHashes) =
       classifyCandidates L context certificate parent candidates [] [] []
     in \<lparr>fd_authenticatedFork = length childHashes > 1, fd_branchCount = length childHashes,
         fd_validCredentials = validCredentials, fd_rejected = rejected\<rparr>)"

definition credentialHash :: "lib \<Rightarrow> PaymentCredential \<Rightarrow> bytes result" where
  "credentialHash L value = bindE (encodePaymentCredential L value) (\<lambda>encoded. Inr (hashSha256 L encoded))"

definition verifyCredentialSignature :: "lib \<Rightarrow> PaymentCredential \<Rightarrow> bool" where
  "verifyCredentialSignature L value =
    (if length (pc_payerSignature value) \<noteq> SIGNATURE_LENGTH then False
     else orFalse (bindE (encodePaymentCredentialPayload L value) (\<lambda>message.
       Inr (verifyEd25519 L (pc_payerSignature value) message (pc_payerDeviceKey value)))))"

section \<open>Identity attestations\<close>

definition signIdentityAttestation ::
  "lib \<Rightarrow> IdentityAttestationPayload \<Rightarrow> bytes \<Rightarrow> IdentityAttestation result" where
  "signIdentityAttestation L payload issuerSecretKey =
    bindE (encodeIdentityAttestationPayload L payload) (\<lambda>message.
    bindE (signEd25519 L message issuerSecretKey) (\<lambda>signature.
      Inr (IdentityAttestationPayload.extend payload (IdentityAttestation.fields signature))))"

definition verifyIdentityAttestation ::
  "lib \<Rightarrow> 'a DomainContext_scheme \<Rightarrow> IdentityAttestation \<Rightarrow> bytes \<Rightarrow> bool" where
  "verifyIdentityAttestation L context value trustedIdentityIssuer = orFalse
    (bindE (assertDomainContext (ia_domain value) context IdentityAttestationObject) (\<lambda>_.
      if \<not> equalBytes (ia_issuer value) trustedIdentityIssuer then Inr False
      else bindE (encodeIdentityAttestationPayload L value) (\<lambda>message.
        Inr (verifyEd25519 L (ia_issuerSignature value) message trustedIdentityIssuer))))"

definition identityAttestationHash :: "lib \<Rightarrow> IdentityAttestation \<Rightarrow> bytes result" where
  "identityAttestationHash L value =
    bindE (encodeIdentityAttestation L value) (\<lambda>encoded. Inr (hashSha256 L encoded))"

end
