(* ===== verification/CredentialFacts.thy ===== *)
theory CredentialFacts
  imports Credentials
begin

text \<open>
  What \<open>packages/credentials\<close> promises. \<open>validatePaymentCredential_iff\<close> describes the accepted
  credentials declaratively; creation and validation agree; replaying a chain conserves value
  (locale \<open>payment_chain\<close>).
\<close>

section \<open>Guards\<close>

definition contextDomain :: "'a DomainContext_scheme \<Rightarrow> ObjectType \<Rightarrow> Domain \<Rightarrow> bool" where
  "contextDomain cx t d \<longleftrightarrow> dm_objectType d = objectNumber t \<and> dm_networkId d = cx_networkId cx \<and>
     dm_clusterGenesisHash d = cx_clusterGenesisHash cx \<and> dm_programId d = cx_programId cx \<and>
     dm_sessionId d = cx_sessionId cx"

lemma assertDomainContext_iff [simp, result_simps]:
  "assertDomainContext d cx t = Inr u \<longleftrightarrow> contextDomain cx t d"
  by (auto simp: assertDomainContext_def contextDomain_def)

lemma assertSessionBinding_iff [simp, result_simps]:
  "assertSessionBinding d s = Inr u \<longleftrightarrow> dm_sessionId d = s"
  by (auto simp: assertSessionBinding_def)

lemma contextDomain_createDomain [simp]: "contextDomain cx t (createDomain cx t)"
  by (simp add: contextDomain_def createDomain_def)

lemma createDomain_sessionId [simp]: "dm_sessionId (createDomain cx t) = cx_sessionId cx"
  by (simp add: createDomain_def)

lemma validDomain_createDomain:
  "contextDomain cx s d \<Longrightarrow> validDomain d s \<Longrightarrow> validDomain (createDomain cx t) t"
  by (auto simp: contextDomain_def validDomain_def createDomain_def PROTOCOL_VERSION_def SCHEMA_VERSION_def)

lemma validDomain_createDomain_iff:
  "validDomain (createDomain cx t) t \<longleftrightarrow> 0 \<le> cx_networkId cx \<and> cx_networkId cx \<le> 2 \<and>
     length (cx_clusterGenesisHash cx) = 32 \<and> length (cx_programId cx) = 32 \<and> length (cx_sessionId cx) = 32"
  by (auto simp: validDomain_def createDomain_def PROTOCOL_VERSION_def SCHEMA_VERSION_def)

lemma orFalse_iff [simp]: "orFalse r \<longleftrightarrow> r = Inr True"
  by (auto simp: orFalse_def split: sum.splits)

lemma verifySessionCertificate_iff:
  "verifySessionCertificate L v \<longleftrightarrow> dm_sessionId (sc_domain v) = sc_sessionId v \<and>
    (\<exists>m. encodeSessionCertificatePayload L v = Inr m \<and> verifyEd25519 L (sc_issuerSignature v) m (sc_issuer v))"
  by (auto simp: verifySessionCertificate_def bindE_Inr_iff)

lemma verifyDeviceAuthorization_iff:
  "verifyDeviceAuthorization L v \<longleftrightarrow> dm_sessionId (da_domain v) = da_sessionId v \<and>
    (\<exists>m. encodeDeviceAuthorizationPayload L v = Inr m \<and> verifyEd25519 L (da_walletSignature v) m (da_owner v))"
  by (auto simp: verifyDeviceAuthorization_def bindE_Inr_iff)

lemma verifySessionCertificate_valid:
  "borsh_ok L \<Longrightarrow> verifySessionCertificate L v \<Longrightarrow> validSessionCertificate v"
  by (auto simp: verifySessionCertificate_iff isOk_iff simp flip: encodeSessionCertificatePayload_ok [of L])

lemma verifyDeviceAuthorization_valid:
  "borsh_ok L \<Longrightarrow> verifyDeviceAuthorization L v \<Longrightarrow> validDeviceAuthorization v"
  by (auto simp: verifyDeviceAuthorization_iff isOk_iff simp flip: encodeDeviceAuthorizationPayload_ok [of L])

text \<open>A certificate of this environment, signed by the issuer the device trusts.\<close>

definition trustedCertificate :: "lib \<Rightarrow> ProtocolTrustContext \<Rightarrow> SessionCertificate \<Rightarrow> bool" where
  "trustedCertificate L cx cert \<longleftrightarrow> contextDomain cx SessionCertificateObject (sc_domain cert) \<and>
     verifySessionCertificate L cert \<and> sc_issuer cert = cx_trustedCertificateIssuer cx"

lemma trusted_session: "trustedCertificate L cx cert \<Longrightarrow> sc_sessionId cert = cx_sessionId cx"
  by (auto simp: trustedCertificate_def contextDomain_def verifySessionCertificate_iff)

lemma trusted_domain:
  "borsh_ok L \<Longrightarrow> trustedCertificate L cx cert \<Longrightarrow> validDomain (createDomain cx t) t"
  using verifySessionCertificate_valid [of L cert]
  by (auto simp: trustedCertificate_def validSessionCertificate_def intro: validDomain_createDomain)

lemma trusted_valid: "borsh_ok L \<Longrightarrow> trustedCertificate L cx cert \<Longrightarrow> validSessionCertificate cert"
  by (auto simp: trustedCertificate_def intro: verifySessionCertificate_valid)

section \<open>Signing and verifying\<close>

lemma encode_extend:
  "encodeDeviceAuthorizationPayload L (DeviceAuthorizationPayload.extend a x) = encodeDeviceAuthorizationPayload L a"
  "encodeSessionCertificatePayload L (SessionCertificatePayload.extend c y) = encodeSessionCertificatePayload L c"
  "encodePaymentCredentialPayload L (PaymentCredentialPayload.extend p z) = encodePaymentCredentialPayload L p"
  "encodeIdentityAttestationPayload L (IdentityAttestationPayload.extend i w) = encodeIdentityAttestationPayload L i"
  by (simp_all add: encodeDeviceAuthorizationPayload_def deviceAuthorizationValue_def
      encodeSessionCertificatePayload_def sessionCertificateValue_def
      encodePaymentCredentialPayload_def paymentCredentialValue_def
      encodeIdentityAttestationPayload_def identityAttestationValue_def
      DeviceAuthorizationPayload.extend_def SessionCertificatePayload.extend_def
      PaymentCredentialPayload.extend_def IdentityAttestationPayload.extend_def)

lemmas extend_defs =
  DeviceAuthorizationPayload.extend_def DeviceAuthorization.fields_def
  SessionCertificatePayload.extend_def SessionCertificate.fields_def
  PaymentCredentialPayload.extend_def PaymentCredential.fields_def
  IdentityAttestationPayload.extend_def IdentityAttestation.fields_def

lemma signDeviceAuthorization_verifies:
  assumes "signature_ok L" "derivePublicKey L sk = Inr (da_owner payload)"
    and signed: "signDeviceAuthorization L payload sk = Inr authorization"
  shows "verifyDeviceAuthorization L authorization" "length (da_walletSignature authorization) = 64"
    "DeviceAuthorizationPayload.truncate authorization = payload"
proof -
  obtain m s where m: "dm_sessionId (da_domain payload) = da_sessionId payload"
      "encodeDeviceAuthorizationPayload L payload = Inr m" "signEd25519 L m sk = Inr s"
      "authorization = DeviceAuthorizationPayload.extend payload (DeviceAuthorization.fields s)"
    using signed by (auto simp: signDeviceAuthorization_def bindE_Inr_iff)
  with verify_signEd25519 [OF assms(1) m(3) assms(2)] show
    "verifyDeviceAuthorization L authorization" "length (da_walletSignature authorization) = 64"
    "DeviceAuthorizationPayload.truncate authorization = payload"
    by (simp_all add: verifyDeviceAuthorization_iff encode_extend)
      (simp_all add: extend_defs DeviceAuthorizationPayload.truncate_def)
qed

lemma signSessionCertificate_verifies:
  assumes "signature_ok L" "derivePublicKey L sk = Inr (sc_issuer payload)"
    and signed: "signSessionCertificate L payload sk = Inr certificate"
  shows "verifySessionCertificate L certificate" "length (sc_issuerSignature certificate) = 64"
    "SessionCertificatePayload.truncate certificate = payload"
proof -
  obtain m s where m: "dm_sessionId (sc_domain payload) = sc_sessionId payload"
      "encodeSessionCertificatePayload L payload = Inr m" "signEd25519 L m sk = Inr s"
      "certificate = SessionCertificatePayload.extend payload (SessionCertificate.fields s)"
    using signed by (auto simp: signSessionCertificate_def bindE_Inr_iff)
  with verify_signEd25519 [OF assms(1) m(3) assms(2)] show
    "verifySessionCertificate L certificate" "length (sc_issuerSignature certificate) = 64"
    "SessionCertificatePayload.truncate certificate = payload"
    by (simp_all add: verifySessionCertificate_iff encode_extend)
      (simp_all add: extend_defs SessionCertificatePayload.truncate_def)
qed

lemma signIdentityAttestation_verifies:
  assumes "signature_ok L" "derivePublicKey L sk = Inr (ia_issuer payload)"
    and "signIdentityAttestation L payload sk = Inr attestation"
    and "contextDomain cx IdentityAttestationObject (ia_domain payload)"
  shows "verifyIdentityAttestation L cx attestation (ia_issuer payload)"
proof -
  obtain m s where m: "encodeIdentityAttestationPayload L payload = Inr m" "signEd25519 L m sk = Inr s"
      "attestation = IdentityAttestationPayload.extend payload (IdentityAttestation.fields s)"
    using assms(3) by (auto simp: signIdentityAttestation_def bindE_Inr_iff)
  have "ia_domain attestation = ia_domain payload" "ia_issuer attestation = ia_issuer payload"
    "ia_issuerSignature attestation = s"
    by (simp_all add: m(3) extend_defs)
  with m verify_signEd25519 [OF assms(1) m(2) assms(2)] assms(4) show ?thesis
    by (simp add: verifyIdentityAttestation_def bindE_Inr_iff encode_extend)
qed

section \<open>Accepted payments\<close>

text \<open>The credential is a spend of \<open>parent\<close> under the certificate.\<close>

definition spends ::
  "ProtocolTrustContext \<Rightarrow> SessionCertificate \<Rightarrow> 'a ParentState_scheme \<Rightarrow> PaymentCredential \<Rightarrow> bool" where
  "spends cx cert parent c \<longleftrightarrow>
     contextDomain cx PaymentCredentialObject (pc_domain c) \<and> pc_sessionId c = cx_sessionId cx \<and>
     pc_payer c = sc_owner cert \<and> pc_payerDeviceKey c = sc_devicePublicKey cert \<and> pc_merchant c \<noteq> sc_owner cert \<and>
     pc_previousStateHash c = pt_stateHash parent \<and> pc_sequence c = pt_sequence parent + 1 \<and>
     pc_sequence c \<le> sc_maxBranchDepth cert \<and>
     0 < pc_amount c \<and> pc_amount c \<le> pt_remaining parent \<and> pc_previousRemaining c = pt_remaining parent \<and>
     pc_newRemaining c = pt_remaining parent - pc_amount c \<and>
     sc_issuedAt cert \<le> pc_createdAt c \<and> pc_createdAt c \<le> sc_expiresAt cert \<and> pc_sessionExpiresAt c = sc_expiresAt cert \<and>
     length (pc_merchantChallenge c) = 32 \<and> \<not> list_all (\<lambda>b. b = 0) (pc_merchantChallenge c)"

lemma paymentStateHash_iff:
  "paymentStateHash L s = Inr h \<longleftrightarrow> (\<exists>bs. encodePaymentState L s = Inr bs \<and> h = hashSha256 L bs)"
  by (auto simp: paymentStateHash_def bindE_Inr_iff)

lemma encodePaymentState_amount: "encodePaymentState L s = Inr bs \<Longrightarrow> 0 \<le> ps_amount s"
  by (auto simp: encodePaymentState_def paymentStateValue_def bindE_Inr_iff)

lemma validatePaymentCredential_iff:
  "validatePaymentCredential L cx cert parent c = Inr () \<longleftrightarrow>
     trustedCertificate L cx cert \<and> spends cx cert parent c \<and>
     paymentStateHash L (credentialState cx c) = Inr (pc_newStateHash c) \<and>
     (\<exists>m. encodePaymentCredentialPayload L c = Inr m \<and> verifyEd25519 L (pc_payerSignature c) m (sc_devicePublicKey cert))"
  (is "?lhs \<longleftrightarrow> ?rhs")
proof
  assume l: ?lhs
  then obtain h where "paymentStateHash L (credentialState cx c) = Inr h"
    by (auto simp: validatePaymentCredential_def bindE_Inr_iff)
  then have "0 \<le> pc_amount c"
    by (auto simp: paymentStateHash_iff credentialState_def dest: encodePaymentState_amount)
  with l show ?rhs
    by (auto simp: validatePaymentCredential_def bindE_Inr_iff trustedCertificate_def spends_def)
next
  assume r: ?rhs
  then have "sc_sessionId cert = cx_sessionId cx" by (auto dest: trusted_session)
  with r show ?lhs
    by (auto simp: validatePaymentCredential_def bindE_Inr_iff trustedCertificate_def spends_def contextDomain_def)
qed

lemma validate_spends: "validatePaymentCredential L cx cert parent c = Inr () \<Longrightarrow> spends cx cert parent c"
  by (simp add: validatePaymentCredential_iff)

lemma spends_more: "spends cx cert (ParentState.truncate p) c \<longleftrightarrow> spends cx cert p c"
  by (simp add: spends_def ParentState.truncate_def)

lemma validate_more:
  "validatePaymentCredential L cx cert (ParentState.truncate p) c = validatePaymentCredential L cx cert p c"
  by (simp add: validatePaymentCredential_def ParentState.truncate_def)

section \<open>Creation and validation agree\<close>

lemma createPaymentCredential_iff:
  "createPaymentCredential L cx cert parent rq sk = Inr c \<longleftrightarrow>
    trustedCertificate L cx cert \<and>
    length (rq_merchant rq) = 32 \<and> length (rq_merchantDeviceKey rq) = 32 \<and> length (rq_merchantChallenge rq) = 32 \<and>
    \<not> list_all (\<lambda>b. b = 0) (rq_merchantChallenge rq) \<and> sc_owner cert \<noteq> rq_merchant rq \<and>
    0 < rq_amount rq \<and> rq_amount rq < 2 ^ 64 \<and> rq_amount rq \<le> pt_remaining parent \<and>
    0 \<le> pt_sequence parent \<and> pt_sequence parent < 2 ^ 32 \<and> pt_sequence parent < sc_maxBranchDepth cert \<and>
    isI64 (rq_createdAt rq) \<and> sc_issuedAt cert \<le> rq_createdAt rq \<and> rq_createdAt rq \<le> sc_expiresAt cert \<and>
    derivePublicKey L sk = Inr (sc_devicePublicKey cert) \<and>
    (\<exists>m. encodePaymentCredentialPayload L c = Inr m \<and> signEd25519 L m sk = Inr (pc_payerSignature c)) \<and>
    paymentStateHash L (credentialState cx c) = Inr (pc_newStateHash c) \<and>
    c = \<lparr>pc_domain = createDomain cx PaymentCredentialObject, pc_sessionId = cx_sessionId cx,
      pc_sequence = pt_sequence parent + 1, pc_payer = sc_owner cert, pc_payerDeviceKey = sc_devicePublicKey cert,
      pc_merchant = rq_merchant rq, pc_merchantDeviceKey = rq_merchantDeviceKey rq, pc_amount = rq_amount rq,
      pc_previousStateHash = pt_stateHash parent, pc_newStateHash = pc_newStateHash c,
      pc_previousRemaining = pt_remaining parent, pc_newRemaining = pt_remaining parent - rq_amount rq,
      pc_merchantChallenge = rq_merchantChallenge rq, pc_createdAt = rq_createdAt rq,
      pc_sessionExpiresAt = sc_expiresAt cert, pc_payerSignature = pc_payerSignature c\<rparr>"
  (is "?l \<longleftrightarrow> ?r")
proof
  assume l: ?l
  then obtain h pk m s where c: "c = PaymentCredentialPayload.extend
      \<lparr>pc_domain = createDomain cx PaymentCredentialObject, pc_sessionId = cx_sessionId cx,
      pc_sequence = pt_sequence parent + 1, pc_payer = sc_owner cert, pc_payerDeviceKey = sc_devicePublicKey cert,
      pc_merchant = rq_merchant rq, pc_merchantDeviceKey = rq_merchantDeviceKey rq, pc_amount = rq_amount rq,
      pc_previousStateHash = pt_stateHash parent, pc_newStateHash = h,
      pc_previousRemaining = pt_remaining parent, pc_newRemaining = pt_remaining parent - rq_amount rq,
      pc_merchantChallenge = rq_merchantChallenge rq, pc_createdAt = rq_createdAt rq,
      pc_sessionExpiresAt = sc_expiresAt cert\<rparr> (PaymentCredential.fields s)"
    and s: "encodePaymentCredentialPayload L c = Inr m" "signEd25519 L m sk = Inr s"
    and h: "paymentStateHash L \<lparr>ps_domain = createDomain cx PaymentStateObject, ps_previousStateHash = pt_stateHash parent,
          ps_sequence = pt_sequence parent + 1, ps_merchant = rq_merchant rq, ps_amount = rq_amount rq,
          ps_merchantChallenge = rq_merchantChallenge rq, ps_previousRemaining = pt_remaining parent,
          ps_newRemaining = pt_remaining parent - rq_amount rq\<rparr> = Inr h"
    by (auto simp: createPaymentCredential_def bindE_Inr_iff Let_def encode_extend)
  have "credentialState cx c = \<lparr>ps_domain = createDomain cx PaymentStateObject, ps_previousStateHash = pt_stateHash parent,
          ps_sequence = pt_sequence parent + 1, ps_merchant = rq_merchant rq, ps_amount = rq_amount rq,
          ps_merchantChallenge = rq_merchantChallenge rq, ps_previousRemaining = pt_remaining parent,
          ps_newRemaining = pt_remaining parent - rq_amount rq\<rparr>"
    by (simp add: c extend_defs credentialState_def)
  with h s c l show ?r
    by (auto simp: createPaymentCredential_def bindE_Inr_iff Let_def trustedCertificate_def isI64_def extend_defs)
next
  assume r: ?r
  define p where "p = PaymentCredentialPayload.truncate c"
  from r have p: "p = \<lparr>pc_domain = createDomain cx PaymentCredentialObject, pc_sessionId = cx_sessionId cx,
      pc_sequence = pt_sequence parent + 1, pc_payer = sc_owner cert, pc_payerDeviceKey = sc_devicePublicKey cert,
      pc_merchant = rq_merchant rq, pc_merchantDeviceKey = rq_merchantDeviceKey rq, pc_amount = rq_amount rq,
      pc_previousStateHash = pt_stateHash parent, pc_newStateHash = pc_newStateHash c,
      pc_previousRemaining = pt_remaining parent, pc_newRemaining = pt_remaining parent - rq_amount rq,
      pc_merchantChallenge = rq_merchantChallenge rq, pc_createdAt = rq_createdAt rq,
      pc_sessionExpiresAt = sc_expiresAt cert\<rparr>"
    unfolding p_def PaymentCredentialPayload.truncate_def by (metis (no_types, lifting) PaymentCredentialPayload.select_convs)
  have c: "c = PaymentCredentialPayload.extend p (PaymentCredential.fields (pc_payerSignature c))"
    by (cases c) (simp add: p_def extend_defs PaymentCredentialPayload.truncate_def)
  have "encodePaymentCredentialPayload L p = encodePaymentCredentialPayload L c"
    by (metis c encode_extend(3))
  moreover have "credentialState cx c = \<lparr>ps_domain = createDomain cx PaymentStateObject, ps_previousStateHash = pt_stateHash parent,
          ps_sequence = pt_sequence parent + 1, ps_merchant = rq_merchant rq, ps_amount = rq_amount rq,
          ps_merchantChallenge = rq_merchantChallenge rq, ps_previousRemaining = pt_remaining parent,
          ps_newRemaining = pt_remaining parent - rq_amount rq\<rparr>"
    by (subst c) (simp add: p extend_defs credentialState_def)
  moreover have "cx_sessionId cx = sc_sessionId cert" using r trusted_session by metis
  ultimately show ?l
    using r c unfolding p
    by (auto simp: createPaymentCredential_def bindE_Inr_iff Let_def trustedCertificate_def isI64_def)
qed

lemma created_spends:
  "createPaymentCredential L cx cert parent rq sk = Inr c \<Longrightarrow> spends cx cert parent c"
  unfolding createPaymentCredential_iff
  by (clarify, erule ssubst) (simp add: spends_def)

lemma created_validates:
  assumes "signature_ok L" "createPaymentCredential L cx cert parent rq sk = Inr c"
  shows "validatePaymentCredential L cx cert parent c = Inr ()" "length (pc_payerSignature c) = 64"
  using assms(2) created_spends [OF assms(2)] verify_signEd25519 [OF assms(1)]
  unfolding createPaymentCredential_iff validatePaymentCredential_iff
  by blast+

lemma created_fields:
  assumes "createPaymentCredential L cx cert parent rq sk = Inr c"
  shows "pc_merchant c = rq_merchant rq" "pc_merchantDeviceKey c = rq_merchantDeviceKey rq" "pc_amount c = rq_amount rq"
    "pc_merchantChallenge c = rq_merchantChallenge rq" "pc_createdAt c = rq_createdAt rq"
    "pc_sequence c = pt_sequence parent + 1" "pc_previousStateHash c = pt_stateHash parent"
    "pc_previousRemaining c = pt_remaining parent" "pc_newRemaining c = pt_remaining parent - rq_amount rq"
proof -
  from assms have c: "c = \<lparr>pc_domain = createDomain cx PaymentCredentialObject, pc_sessionId = cx_sessionId cx,
      pc_sequence = pt_sequence parent + 1, pc_payer = sc_owner cert, pc_payerDeviceKey = sc_devicePublicKey cert,
      pc_merchant = rq_merchant rq, pc_merchantDeviceKey = rq_merchantDeviceKey rq, pc_amount = rq_amount rq,
      pc_previousStateHash = pt_stateHash parent, pc_newStateHash = pc_newStateHash c,
      pc_previousRemaining = pt_remaining parent, pc_newRemaining = pt_remaining parent - rq_amount rq,
      pc_merchantChallenge = rq_merchantChallenge rq, pc_createdAt = rq_createdAt rq,
      pc_sessionExpiresAt = sc_expiresAt cert, pc_payerSignature = pc_payerSignature c\<rparr>"
    unfolding createPaymentCredential_iff by blast
  show "pc_merchant c = rq_merchant rq" "pc_merchantDeviceKey c = rq_merchantDeviceKey rq" "pc_amount c = rq_amount rq"
    "pc_merchantChallenge c = rq_merchantChallenge rq" "pc_createdAt c = rq_createdAt rq"
    "pc_sequence c = pt_sequence parent + 1" "pc_previousStateHash c = pt_stateHash parent"
    "pc_previousRemaining c = pt_remaining parent" "pc_newRemaining c = pt_remaining parent - rq_amount rq"
    by (subst c, simp)+
qed

text \<open>Every request within the certificate's limits is served.\<close>

lemma createPaymentCredential_serves:
  assumes "borsh_ok L" "hash_ok L" "trustedCertificate L cx cert"
    and "length (pt_stateHash parent) = 32" "0 \<le> pt_sequence parent" "pt_sequence parent < sc_maxBranchDepth cert"
    and "0 < rq_amount rq" "rq_amount rq \<le> pt_remaining parent" "pt_remaining parent < 2 ^ 64"
    and "length (rq_merchant rq) = 32" "length (rq_merchantDeviceKey rq) = 32" "rq_merchant rq \<noteq> sc_owner cert"
    and "length (rq_merchantChallenge rq) = 32" "\<not> list_all (\<lambda>b. b = 0) (rq_merchantChallenge rq)"
    and "sc_issuedAt cert \<le> rq_createdAt rq" "rq_createdAt rq \<le> sc_expiresAt cert"
    and "derivePublicKey L sk = Inr (sc_devicePublicKey cert)" "\<forall>m. ed25519Sign L m sk \<noteq> None"
  shows "isOk (createPaymentCredential L cx cert parent rq sk)"
proof -
  note cert = trusted_valid [OF assms(1,3)] and domain = trusted_domain [OF assms(1,3)]
  let ?state = "\<lparr>ps_domain = createDomain cx PaymentStateObject, ps_previousStateHash = pt_stateHash parent,
      ps_sequence = pt_sequence parent + 1, ps_merchant = rq_merchant rq, ps_amount = rq_amount rq,
      ps_merchantChallenge = rq_merchantChallenge rq, ps_previousRemaining = pt_remaining parent,
      ps_newRemaining = pt_remaining parent - rq_amount rq\<rparr>"
  have depth: "isU32 (sc_maxBranchDepth cert)" using cert by (simp add: validSessionCertificate_def)
  have "validPaymentState ?state"
    using assms(4-16) depth domain by (simp add: validPaymentState_def integer_ranges)
  then obtain bs where "encodePaymentState L ?state = Inr bs"
    using encodePaymentState_ok [OF assms(1)] by (auto simp: isOk_iff)
  then obtain h where h: "paymentStateHash L ?state = Inr h" "length h = 32"
    using length_hashSha256 [OF assms(2)] by (auto simp: paymentStateHash_iff)
  let ?payload = "\<lparr>pc_domain = createDomain cx PaymentCredentialObject, pc_sessionId = cx_sessionId cx,
      pc_sequence = pt_sequence parent + 1, pc_payer = sc_owner cert, pc_payerDeviceKey = sc_devicePublicKey cert,
      pc_merchant = rq_merchant rq, pc_merchantDeviceKey = rq_merchantDeviceKey rq, pc_amount = rq_amount rq,
      pc_previousStateHash = pt_stateHash parent, pc_newStateHash = h,
      pc_previousRemaining = pt_remaining parent, pc_newRemaining = pt_remaining parent - rq_amount rq,
      pc_merchantChallenge = rq_merchantChallenge rq, pc_createdAt = rq_createdAt rq,
      pc_sessionExpiresAt = sc_expiresAt cert\<rparr>"
  have "validPaymentCredential ?payload"
    using assms(4-16) cert domain h(2) trusted_session [OF assms(3)]
    by (auto simp: validPaymentCredential_def validSessionCertificate_def integer_ranges)
  then obtain m where m: "encodePaymentCredentialPayload L ?payload = Inr m"
    using encodePaymentCredentialPayload_ok [OF assms(1)] by (auto simp: isOk_iff)
  obtain s where s: "signEd25519 L m sk = Inr s"
    using assms(18) by (auto simp: signEd25519_def)
  let ?c = "PaymentCredentialPayload.extend ?payload (PaymentCredential.fields s)"
  have "createPaymentCredential L cx cert parent rq sk = Inr ?c"
    unfolding createPaymentCredential_iff
    using assms cert depth h m s
    by (auto simp: encode_extend integer_ranges validSessionCertificate_def)
      (simp_all add: extend_defs credentialState_def)
  then show ?thesis by simp
qed

section \<open>Chains of payments\<close>

text \<open>
  The contract between a validator of single payments and whoever strings payments together:
  an accepted payment moves the state to \<open>next c\<close>, one step deeper and poorer by its amount.
\<close>

locale payment_chain =
  fixes accepts :: "ParentState \<Rightarrow> 'c \<Rightarrow> unit result" and "next" :: "'c \<Rightarrow> ParentState"
    and amount :: "'c \<Rightarrow> int" and depth :: int
  assumes deeper: "accepts p c = Inr () \<Longrightarrow> pt_sequence (next c) = pt_sequence p + 1"
    and bounded: "accepts p c = Inr () \<Longrightarrow> pt_sequence (next c) \<le> depth"
    and positive: "accepts p c = Inr () \<Longrightarrow> 0 < amount c"
    and conserved: "accepts p c = Inr () \<Longrightarrow> pt_remaining (next c) + amount c = pt_remaining p"
    and covered: "accepts p c = Inr () \<Longrightarrow> amount c \<le> pt_remaining p"
begin

fun chain :: "ParentState \<Rightarrow> 'c list \<Rightarrow> ParentState result" where
  "chain p [] = Inr p"
| "chain p (c # cs) = bindE (accepts p c) (\<lambda>_. chain (next c) cs)"

lemma chain_append: "chain p (cs @ ds) = bindE (chain p cs) (\<lambda>q. chain q ds)"
  by (induction cs arbitrary: p) (simp_all add: bindE_assoc)

lemma chain_totals:
  "chain p cs = Inr q \<Longrightarrow> pt_sequence q = pt_sequence p + int (length cs) \<and>
     pt_remaining q = pt_remaining p - sum_list (map amount cs) \<and> (\<forall>c \<in> set cs. 0 < amount c) \<and>
     (0 \<le> pt_remaining p \<longrightarrow> 0 \<le> pt_remaining q) \<and> (cs \<noteq> [] \<longrightarrow> pt_sequence q \<le> depth)"
proof (induction cs arbitrary: p)
  case (Cons c cs)
  then have c: "accepts p c = Inr ()" and rest: "chain (next c) cs = Inr q"
    by (auto simp: bindE_Inr_iff)
  from Cons.IH [OF rest] deeper [OF c] bounded [OF c] positive [OF c] conserved [OF c] covered [OF c] rest
  show ?case by auto
qed simp

lemma chain_end: "chain p cs = Inr q \<Longrightarrow> cs \<noteq> [] \<Longrightarrow> q = next (last cs)"
  by (induction cs arbitrary: p) (auto simp: bindE_Inr_iff split: if_splits)

end

interpretation payments: payment_chain "validatePaymentCredential L cx cert" nextParent pc_amount "sc_maxBranchDepth cert"
  for L cx cert
  by unfold_locales (drule validate_spends; simp add: spends_def nextParent_def)+

lemma replayCredentials_chain: "replayCredentials L cx cert p cs = payments.chain L cx cert p cs"
  by (induction cs arbitrary: p) simp_all

lemmas replay_totals = payments.chain_totals [folded replayCredentials_chain]
lemmas replay_append = payments.chain_append [folded replayCredentials_chain]

section \<open>Certificate chains and proof bundles\<close>

text \<open>The economic and temporal limits a session certificate has to respect.\<close>

definition soundTerms :: "SessionCertificate \<Rightarrow> bool" where
  "soundTerms cert \<longleftrightarrow> 0 < sc_branchSpendingLimit cert \<and> 3 * sc_branchSpendingLimit cert \<le> sc_collateralLocked cert \<and>
     sc_collateralCoverageCap cert = sc_collateralLocked cert \<and> sc_maxBranchDepth cert = 32 \<and>
     sc_issuedAt cert < sc_expiresAt cert \<and> sc_expiresAt cert \<le> sc_issuedAt cert + 10800 \<and>
     sc_claimSubmissionDeadline cert = sc_expiresAt cert + 21600"

text \<open>The authorization the certificate was issued on.\<close>

definition matchesAuthorization :: "SessionCertificate \<Rightarrow> DeviceAuthorization \<Rightarrow> bool" where
  "matchesAuthorization cert auth \<longleftrightarrow> sc_sessionId cert = da_sessionId auth \<and> sc_owner cert = da_owner auth \<and>
     sc_devicePublicKey cert = da_devicePublicKey auth \<and> sc_vault cert = da_vault auth \<and>
     sc_branchSpendingLimit cert = da_branchSpendingLimit auth \<and>
     sc_collateralCoverageCap cert = da_collateralCoverageCap auth \<and>
     sc_maxBranchDepth cert = da_maxBranchDepth auth \<and> sc_issuedAt cert = da_issuedAt auth \<and>
     sc_expiresAt cert = da_expiresAt auth \<and> da_owner auth \<noteq> da_devicePublicKey auth"

lemma validateCertificateChain_iff:
  "validateCertificateChain L cx cert auth = Inr () \<longleftrightarrow>
     trustedCertificate L cx cert \<and> contextDomain cx DeviceAuthorizationObject (da_domain auth) \<and>
     verifyDeviceAuthorization L auth \<and> deviceAuthorizationHash L auth = Inr (sc_deviceAuthorizationHash cert) \<and>
     matchesAuthorization cert auth \<and> soundTerms cert"
  unfolding validateCertificateChain_def trustedCertificate_def matchesAuthorization_def soundTerms_def
  by (simp only: bindE_Inr_iff assertDomainContext_iff throwIf_Inr_iff equalBytes_eq list_ex_iff
      case_prod_conv MAX_BRANCH_DEPTH_def) auto

definition genesisParent :: "SessionCertificate \<Rightarrow> ParentState" where
  "genesisParent cert = \<lparr>pt_stateHash = sc_genesisStateHash cert, pt_sequence = 0,
     pt_remaining = sc_branchSpendingLimit cert\<rparr>"

definition genesisOf :: "'a DomainContext_scheme \<Rightarrow> SessionCertificate \<Rightarrow> GenesisState" where
  "genesisOf cx cert = \<lparr>gs_domain = createDomain cx GenesisStateObject, gs_owner = sc_owner cert,
     gs_devicePublicKey = sc_devicePublicKey cert, gs_branchSpendingLimit = sc_branchSpendingLimit cert,
     gs_maxBranchDepth = sc_maxBranchDepth cert, gs_initialRemaining = sc_branchSpendingLimit cert,
     gs_issuedAt = sc_issuedAt cert, gs_expiresAt = sc_expiresAt cert\<rparr>"

lemma createGenesisState_iff:
  "createGenesisState cx (certificateGenesis cert) = Inr g \<longleftrightarrow>
     0 < sc_branchSpendingLimit cert \<and> sc_maxBranchDepth cert = 32 \<and> sc_issuedAt cert < sc_expiresAt cert \<and>
     g = genesisOf cx cert"
  by (auto simp: createGenesisState_def certificateGenesis_def genesisOf_def bindE_Inr_iff MAX_BRANCH_DEPTH_def)

lemma validateCredentialProofBundle_iff:
  "validateCredentialProofBundle L cx bundle = Inr q \<longleftrightarrow>
     validateCertificateChain L cx (sessionCertificate bundle) (deviceAuthorization bundle) = Inr () \<and>
     length (credentials bundle) \<le> 32 \<and>
     genesisStateHash L (genesisOf cx (sessionCertificate bundle)) = Inr (sc_genesisStateHash (sessionCertificate bundle)) \<and>
     replayCredentials L cx (sessionCertificate bundle) (genesisParent (sessionCertificate bundle)) (credentials bundle) = Inr q"
  by (auto simp: validateCredentialProofBundle_def Let_def bindE_Inr_iff createGenesisState_iff genesisParent_def
      validateCertificateChain_iff soundTerms_def)

lemma bundle_extended:
  assumes "signature_ok L" "validateCredentialProofBundle L cx bundle = Inr q"
    and "createPaymentCredential L cx (sessionCertificate bundle) q rq sk = Inr c"
  shows "validateCredentialProofBundle L cx (bundle\<lparr>credentials := credentials bundle @ [c]\<rparr>) = Inr (nextParent c)"
proof -
  have accepted: "validatePaymentCredential L cx (sessionCertificate bundle) q c = Inr ()"
    by (rule created_validates(1) [OF assms(1,3)])
  from assms(2) have b: "soundTerms (sessionCertificate bundle)"
    and r: "replayCredentials L cx (sessionCertificate bundle) (genesisParent (sessionCertificate bundle)) (credentials bundle) = Inr q"
    by (auto simp: validateCredentialProofBundle_iff validateCertificateChain_iff)
  have "pt_sequence q = int (length (credentials bundle))"
    using replay_totals [OF r] by (simp add: genesisParent_def)
  moreover have "pt_sequence q < 32"
    using assms(3) b by (simp add: createPaymentCredential_iff soundTerms_def)
  ultimately show ?thesis
    using assms(2) r accepted by (simp add: validateCredentialProofBundle_iff replay_append)
qed

lemma bundle_last:
  assumes "validateCredentialProofBundle L cx bundle = Inr q" "credentials bundle \<noteq> []"
  shows "q = nextParent (last (credentials bundle))"
proof -
  have "credentials bundle = butlast (credentials bundle) @ [last (credentials bundle)]" using assms(2) by simp
  then have "replayCredentials L cx (sessionCertificate bundle) (genesisParent (sessionCertificate bundle))
      (butlast (credentials bundle) @ [last (credentials bundle)]) = Inr q"
    using assms(1) by (simp add: validateCredentialProofBundle_iff)
  then show ?thesis by (auto simp: replay_append bindE_Inr_iff)
qed

section \<open>Fork detection among candidates\<close>

definition acceptedBy ::
  "lib \<Rightarrow> ProtocolTrustContext \<Rightarrow> SessionCertificate \<Rightarrow> 'a ParentState_scheme \<Rightarrow> PaymentCredential \<Rightarrow> bool" where
  "acceptedBy L cx cert parent c \<longleftrightarrow> isOk (validatePaymentCredential L cx cert parent c)"

lemma acceptedBy_iff: "acceptedBy L cx cert parent c \<longleftrightarrow> validatePaymentCredential L cx cert parent c = Inr ()"
  by (auto simp: acceptedBy_def isOk_iff)

lemma setAdd_set [simp]: "set (setAdd x xs) = insert x (set xs)"
  by (auto simp: setAdd_def)

lemma setAdd_distinct: "distinct xs \<Longrightarrow> distinct (setAdd x xs)"
  by (auto simp: setAdd_def)

lemma classifyCandidates_spec:
  "classifyCandidates L cx cert parent cs vs rs hs =
     (vs @ filter (acceptedBy L cx cert parent) cs,
      rs @ map (\<lambda>c. (c, errorReason ''UNKNOWN_ERROR'' (projl (validatePaymentCredential L cx cert parent c))))
        (filter (Not \<circ> acceptedBy L cx cert parent) cs),
      fold setAdd (map (bytesToHex \<circ> pc_newStateHash) (filter (acceptedBy L cx cert parent) cs)) hs)"
  by (induction cs arbitrary: vs rs hs) (auto simp: acceptedBy_def split: sum.split)

lemma fold_setAdd: "distinct hs \<Longrightarrow> distinct (fold setAdd xs hs) \<and> set (fold setAdd xs hs) = set hs \<union> set xs"
  by (induction xs arbitrary: hs) (auto simp: setAdd_distinct)

lemma length_fold_setAdd: "length (fold setAdd xs []) = card (set xs)"
  using fold_setAdd [of "[]" xs] distinct_card [of "fold setAdd xs []"] by simp

lemma card_hex: "card ((\<lambda>x. bytesToHex (f x)) ` S) = card (f ` S)"
proof -
  have "card (bytesToHex ` f ` S) = card (f ` S)" by (intro card_image inj_onI) simp
  then show ?thesis by (simp add: image_comp comp_def)
qed

lemma detectAuthenticatedFork_spec:
  fixes L :: lib and cx :: ProtocolTrustContext and cert :: SessionCertificate
    and parent :: "'a ParentState_scheme" and candidates :: "PaymentCredential list"
  defines "accepted \<equiv> filter (acceptedBy L cx cert parent) candidates"
  shows "fd_validCredentials (detectAuthenticatedFork L cx cert parent candidates) = accepted"
    "map fst (fd_rejected (detectAuthenticatedFork L cx cert parent candidates)) =
      filter (Not \<circ> acceptedBy L cx cert parent) candidates"
    "fd_branchCount (detectAuthenticatedFork L cx cert parent candidates) = card (pc_newStateHash ` set accepted)"
    "fd_authenticatedFork (detectAuthenticatedFork L cx cert parent candidates) \<longleftrightarrow>
      (\<exists>a \<in> set accepted. \<exists>b \<in> set accepted. pc_newStateHash a \<noteq> pc_newStateHash b)"
proof -
  have hashes: "length (fold setAdd (map (bytesToHex \<circ> pc_newStateHash) accepted) []) = card (pc_newStateHash ` set accepted)"
    by (simp add: length_fold_setAdd card_hex)
  then show "fd_branchCount (detectAuthenticatedFork L cx cert parent candidates) = card (pc_newStateHash ` set accepted)"
    by (simp add: detectAuthenticatedFork_def classifyCandidates_spec accepted_def)
  have "Suc 0 < card (pc_newStateHash ` set accepted) \<longleftrightarrow>
      (\<exists>a \<in> set accepted. \<exists>b \<in> set accepted. pc_newStateHash a \<noteq> pc_newStateHash b)"
    using card_le_Suc0_iff_eq [of "pc_newStateHash ` set accepted"] by (auto simp: not_le [symmetric])
  with hashes show "fd_authenticatedFork (detectAuthenticatedFork L cx cert parent candidates) \<longleftrightarrow>
      (\<exists>a \<in> set accepted. \<exists>b \<in> set accepted. pc_newStateHash a \<noteq> pc_newStateHash b)"
    by (simp add: detectAuthenticatedFork_def classifyCandidates_spec accepted_def)
  show "fd_validCredentials (detectAuthenticatedFork L cx cert parent candidates) = accepted"
    "map fst (fd_rejected (detectAuthenticatedFork L cx cert parent candidates)) =
      filter (Not \<circ> acceptedBy L cx cert parent) candidates"
    by (simp_all add: detectAuthenticatedFork_def classifyCandidates_spec accepted_def comp_def)
qed

section \<open>Hashes as commitments\<close>

text \<open>
  Collision freedom is only ever assumed of a given set of messages. Two credentials of one
  session whose states hash alike describe the same spend.
\<close>

lemma paymentStateHash_inject:
  assumes "borsh_ok L" "paymentStateHash L a = Inr h" "paymentStateHash L b = Inr h"
    and "inj_on (sha256 L) {m. encodePaymentState L a = Inr m \<or> encodePaymentState L b = Inr m}"
  shows "a = b"
proof -
  obtain m n where "encodePaymentState L a = Inr m" "encodePaymentState L b = Inr n" "sha256 L m = sha256 L n"
    using assms(2,3) by (auto simp: paymentStateHash_iff hashSha256_def)
  with assms(4) have "m = n" by (auto dest: inj_onD)
  with \<open>encodePaymentState L a = Inr m\<close> \<open>encodePaymentState L b = Inr n\<close> show ?thesis
    using encodePaymentState_inject [OF assms(1)] by blast
qed

lemma credentialHash_iff:
  "credentialHash L c = Inr h \<longleftrightarrow> (\<exists>bs. encodePaymentCredential L c = Inr bs \<and> h = sha256 L bs)"
  by (auto simp: credentialHash_def hashSha256_def bindE_Inr_iff)

lemma credentialHash_inject:
  assumes "borsh_ok L" "credentialHash L a = Inr h" "credentialHash L b = Inr h"
    and "inj_on (sha256 L) S" "\<And>m. encodePaymentCredential L a = Inr m \<Longrightarrow> m \<in> S"
      "\<And>m. encodePaymentCredential L b = Inr m \<Longrightarrow> m \<in> S"
  shows "a = b"
proof -
  obtain m n where mn: "encodePaymentCredential L a = Inr m" "encodePaymentCredential L b = Inr n" "sha256 L m = sha256 L n"
    using assms(2,3) by (auto simp: credentialHash_iff)
  with assms(4-6) have "m = n" by (auto dest: inj_onD)
  with mn decodePaymentCredential_iff [OF assms(1)] show ?thesis by (metis sum.inject(2))
qed

end
