(* ===== verification/Samples.thy ===== *)
theory Samples
  imports CredentialFacts
begin

text \<open>
  Concrete third-party functions that meet the hypotheses of this development, and concrete
  protocol objects made with them by the model's own functions. The witnesses of the
  properties use them: they show the hypotheses can hold together.

  \<open>sampleLib\<close> serialises with the Borsh layout itself; its digest and its signatures are the
  last bytes of the message.
\<close>

section \<open>The third-party functions\<close>

definition lastBytes :: "nat \<Rightarrow> bytes \<Rightarrow> bytes" where
  "lastBytes n m = take n (rev m @ replicate n 0)"

definition sampleLib :: lib where
  "sampleLib = \<lparr>borshSerialize = borshBytes, borshDeserialize = readAll, sha256 = lastBytes 32,
     ed25519GetPublicKey = Some, ed25519Sign = (\<lambda>m sk. Some (lastBytes 64 m)),
     ed25519Verify = (\<lambda>s m pk. Some (s = lastBytes 64 m))\<rparr>"

lemma length_lastBytes [simp]: "length (lastBytes n m) = n"
  by (simp add: lastBytes_def)

lemma sampleLib_borsh [simp]: "borsh_ok sampleLib"
  by (simp add: borsh_ok_def sampleLib_def borsh.borsh_library_axioms)

lemma sampleLib_hash [simp]: "hash_ok sampleLib"
  by (simp add: hash_ok_def sampleLib_def)

lemma sampleLib_signature [simp]: "signature_ok sampleLib"
  by (auto simp: signature_ok_def sampleLib_def)

lemma sampleLib_signs [simp]: "signEd25519 sampleLib m sk = Inr (lastBytes 64 m)"
  "derivePublicKey sampleLib sk = Inr sk" "\<forall>m. ed25519Sign sampleLib m sk \<noteq> None"
  by (simp_all add: signEd25519_def derivePublicKey_def sampleLib_def)

section \<open>A session\<close>

definition sampleContext :: ProtocolTrustContext where
  "sampleContext = \<lparr>cx_networkId = 1, cx_clusterGenesisHash = replicate 32 1, cx_programId = replicate 32 2,
     cx_sessionId = replicate 32 3, cx_trustedCertificateIssuer = replicate 32 4\<rparr>"

definition sampleAuthorizationPayload :: DeviceAuthorizationPayload where
  "sampleAuthorizationPayload = \<lparr>da_domain = createDomain sampleContext DeviceAuthorizationObject,
     da_owner = replicate 32 5, da_devicePublicKey = replicate 32 6, da_sessionId = replicate 32 3,
     da_vault = replicate 32 7, da_branchSpendingLimit = 100, da_collateralCoverageCap = 300,
     da_maxBranchDepth = 32, da_issuedAt = 1000, da_expiresAt = 11800, da_authorizationNonce = replicate 32 8\<rparr>"

definition sampleAuthorization :: DeviceAuthorization where
  "sampleAuthorization = projr (signDeviceAuthorization sampleLib sampleAuthorizationPayload (replicate 32 5))"

definition sampleGenesis :: GenesisState where
  "sampleGenesis = \<lparr>gs_domain = createDomain sampleContext GenesisStateObject, gs_owner = replicate 32 5,
     gs_devicePublicKey = replicate 32 6, gs_branchSpendingLimit = 100, gs_maxBranchDepth = 32,
     gs_initialRemaining = 100, gs_issuedAt = 1000, gs_expiresAt = 11800\<rparr>"

definition sampleAuthorizationHash :: bytes where
  "sampleAuthorizationHash = projr (deviceAuthorizationHash sampleLib sampleAuthorization)"

definition sampleGenesisHash :: bytes where
  "sampleGenesisHash = projr (genesisStateHash sampleLib sampleGenesis)"

definition sampleCertificatePayload :: SessionCertificatePayload where
  "sampleCertificatePayload = \<lparr>sc_domain = createDomain sampleContext SessionCertificateObject,
     sc_sessionId = replicate 32 3, sc_owner = replicate 32 5, sc_devicePublicKey = replicate 32 6,
     sc_vault = replicate 32 7, sc_tokenMint = replicate 32 12, sc_branchSpendingLimit = 100,
     sc_collateralLocked = 300, sc_collateralCoverageCap = 300, sc_maxBranchDepth = 32, sc_issuedAt = 1000,
     sc_expiresAt = 11800, sc_claimSubmissionDeadline = 33400,
     sc_genesisStateHash = sampleGenesisHash,
     sc_deviceAuthorizationHash = sampleAuthorizationHash,
     sc_identityAttestationHash = replicate 32 13, sc_issuer = replicate 32 4, sc_finalizedSlot = 5,
     sc_certificateNonce = replicate 32 14\<rparr>"

definition sampleCertificate :: SessionCertificate where
  "sampleCertificate = projr (signSessionCertificate sampleLib sampleCertificatePayload (replicate 32 4))"

lemma sampleDomain_valid [simp]: "validDomain (createDomain sampleContext t) t"
  by (simp add: validDomain_createDomain_iff sampleContext_def)

lemma sampleContext_session [simp]: "cx_sessionId sampleContext = replicate 32 3"
  "cx_trustedCertificateIssuer sampleContext = replicate 32 4"
  by (simp_all add: sampleContext_def)

lemma sampleAuthorization_signed:
  "signDeviceAuthorization sampleLib sampleAuthorizationPayload (replicate 32 5) = Inr sampleAuthorization"
proof -
  have "validDeviceAuthorization sampleAuthorizationPayload"
    by (simp add: validDeviceAuthorization_def sampleAuthorizationPayload_def integer_ranges)
  then have "isOk (signDeviceAuthorization sampleLib sampleAuthorizationPayload (replicate 32 5))"
    using encodeDeviceAuthorizationPayload_ok [of sampleLib sampleAuthorizationPayload]
    by (auto simp: isOk_iff signDeviceAuthorization_def bindE_Inr_iff)
      (simp add: sampleAuthorizationPayload_def)
  then show ?thesis by (auto simp: isOk_iff sampleAuthorization_def)
qed

lemma sampleAuthorization_fields_all:
  "da_domain sampleAuthorization = createDomain sampleContext DeviceAuthorizationObject \<and>
    da_owner sampleAuthorization = replicate 32 5 \<and>
    da_devicePublicKey sampleAuthorization = replicate 32 6 \<and>
    da_sessionId sampleAuthorization = replicate 32 3 \<and>
    da_vault sampleAuthorization = replicate 32 7 \<and>
    da_branchSpendingLimit sampleAuthorization = 100 \<and>
    da_collateralCoverageCap sampleAuthorization = 300 \<and>
    da_maxBranchDepth sampleAuthorization = 32 \<and>
    da_issuedAt sampleAuthorization = 1000 \<and>
    da_expiresAt sampleAuthorization = 11800 \<and>
    da_authorizationNonce sampleAuthorization = replicate 32 8"
proof -
  obtain s where signed: "DeviceAuthorizationPayload.extend sampleAuthorizationPayload (DeviceAuthorization.fields s) = sampleAuthorization"
    using sampleAuthorization_signed by (auto simp: signDeviceAuthorization_def bindE_Inr_iff)
  show ?thesis unfolding signed [symmetric] by (simp add: extend_defs sampleAuthorizationPayload_def)
qed

lemma sampleAuthorization_fields [simp]:
  "da_domain sampleAuthorization = createDomain sampleContext DeviceAuthorizationObject"
  "da_owner sampleAuthorization = replicate 32 5" "da_devicePublicKey sampleAuthorization = replicate 32 6"
  "da_sessionId sampleAuthorization = replicate 32 3" "da_vault sampleAuthorization = replicate 32 7"
  "da_branchSpendingLimit sampleAuthorization = 100" "da_collateralCoverageCap sampleAuthorization = 300"
  "da_maxBranchDepth sampleAuthorization = 32" "da_issuedAt sampleAuthorization = 1000"
  "da_expiresAt sampleAuthorization = 11800" "da_authorizationNonce sampleAuthorization = replicate 32 8"
  by (simp_all add: sampleAuthorization_fields_all)

lemma sampleAuthorization_verifies [simp]: "verifyDeviceAuthorization sampleLib sampleAuthorization"
  "length (da_walletSignature sampleAuthorization) = 64"
  using signDeviceAuthorization_verifies [OF _ _ sampleAuthorization_signed]
  by (simp_all add: sampleAuthorizationPayload_def)

lemma sampleAuthorization_hash [simp]:
  "deviceAuthorizationHash sampleLib sampleAuthorization = Inr (sampleAuthorizationHash)"
  "length (sampleAuthorizationHash) = 32"
proof -
  have "validDeviceAuthorization sampleAuthorization"
    by (simp add: validDeviceAuthorization_def integer_ranges)
  then obtain m where "encodeDeviceAuthorization sampleLib sampleAuthorization = Inr m"
    using encodeDeviceAuthorization_ok [of sampleLib sampleAuthorization] by (auto simp: isOk_iff)
  then show "deviceAuthorizationHash sampleLib sampleAuthorization = Inr (sampleAuthorizationHash)"
    "length (sampleAuthorizationHash) = 32"
    by (simp_all add: sampleAuthorizationHash_def deviceAuthorizationHash_def length_hashSha256)
qed

lemma sampleGenesis_hash [simp]:
  "genesisStateHash sampleLib sampleGenesis = Inr (sampleGenesisHash)"
  "length (sampleGenesisHash) = 32"
proof -
  have "validGenesisState sampleGenesis"
    by (simp add: validGenesisState_def integer_ranges sampleGenesis_def)
  then obtain m where "encodeGenesisState sampleLib sampleGenesis = Inr m"
    using encodeGenesisState_ok [of sampleLib sampleGenesis] by (auto simp: isOk_iff)
  then show "genesisStateHash sampleLib sampleGenesis = Inr (sampleGenesisHash)"
    "length (sampleGenesisHash) = 32"
    by (simp_all add: sampleGenesisHash_def genesisStateHash_def length_hashSha256)
qed

lemma sampleCertificate_signed:
  "signSessionCertificate sampleLib sampleCertificatePayload (replicate 32 4) = Inr sampleCertificate"
proof -
  have "validSessionCertificate sampleCertificatePayload"
    by (simp add: validSessionCertificate_def sampleCertificatePayload_def integer_ranges)
  then have "isOk (signSessionCertificate sampleLib sampleCertificatePayload (replicate 32 4))"
    using encodeSessionCertificatePayload_ok [of sampleLib sampleCertificatePayload]
    by (auto simp: isOk_iff signSessionCertificate_def bindE_Inr_iff)
      (simp add: sampleCertificatePayload_def)
  then show ?thesis by (auto simp: isOk_iff sampleCertificate_def)
qed

lemma sampleCertificate_payload:
  "SessionCertificatePayload.truncate sampleCertificate = sampleCertificatePayload"
  using signSessionCertificate_verifies(3) [OF _ _ sampleCertificate_signed]
  by (simp add: sampleCertificatePayload_def)

lemma sampleCertificate_fields_all:
  "sc_domain sampleCertificate = createDomain sampleContext SessionCertificateObject \<and>
    sc_sessionId sampleCertificate = replicate 32 3 \<and>
    sc_owner sampleCertificate = replicate 32 5 \<and>
    sc_devicePublicKey sampleCertificate = replicate 32 6 \<and>
    sc_vault sampleCertificate = replicate 32 7 \<and>
    sc_branchSpendingLimit sampleCertificate = 100 \<and>
    sc_collateralLocked sampleCertificate = 300 \<and>
    sc_collateralCoverageCap sampleCertificate = 300 \<and>
    sc_maxBranchDepth sampleCertificate = 32 \<and>
    sc_issuedAt sampleCertificate = 1000 \<and>
    sc_expiresAt sampleCertificate = 11800 \<and>
    sc_claimSubmissionDeadline sampleCertificate = 33400 \<and>
    sc_issuer sampleCertificate = replicate 32 4 \<and>
    sc_genesisStateHash sampleCertificate = sampleGenesisHash \<and>
    sc_deviceAuthorizationHash sampleCertificate = sampleAuthorizationHash"
proof -
  obtain s where signed: "SessionCertificatePayload.extend sampleCertificatePayload (SessionCertificate.fields s) = sampleCertificate"
    using sampleCertificate_signed by (auto simp: signSessionCertificate_def bindE_Inr_iff)
  show ?thesis unfolding signed [symmetric] by (simp add: extend_defs sampleCertificatePayload_def)
qed

lemma sampleCertificate_fields [simp]:
  "sc_domain sampleCertificate = createDomain sampleContext SessionCertificateObject"
  "sc_sessionId sampleCertificate = replicate 32 3" "sc_owner sampleCertificate = replicate 32 5"
  "sc_devicePublicKey sampleCertificate = replicate 32 6" "sc_vault sampleCertificate = replicate 32 7"
  "sc_branchSpendingLimit sampleCertificate = 100" "sc_collateralLocked sampleCertificate = 300"
  "sc_collateralCoverageCap sampleCertificate = 300" "sc_maxBranchDepth sampleCertificate = 32"
  "sc_issuedAt sampleCertificate = 1000" "sc_expiresAt sampleCertificate = 11800"
  "sc_claimSubmissionDeadline sampleCertificate = 33400" "sc_issuer sampleCertificate = replicate 32 4"
  "sc_genesisStateHash sampleCertificate = sampleGenesisHash"
  "sc_deviceAuthorizationHash sampleCertificate = sampleAuthorizationHash"
  by (simp_all add: sampleCertificate_fields_all)

lemma sampleCertificate_trusted [simp]: "trustedCertificate sampleLib sampleContext sampleCertificate"
  using signSessionCertificate_verifies(1) [OF _ _ sampleCertificate_signed]
  by (simp add: trustedCertificate_def) (simp add: sampleCertificatePayload_def)

lemma sampleChain_valid [simp]:
  "validateCertificateChain sampleLib sampleContext sampleCertificate sampleAuthorization = Inr ()"
  by (simp add: validateCertificateChain_iff matchesAuthorization_def soundTerms_def)

lemma sampleGenesis_committed [simp]:
  "genesisStateHash sampleLib (genesisOf sampleContext sampleCertificate) = Inr (sc_genesisStateHash sampleCertificate)"
proof -
  have "genesisOf sampleContext sampleCertificate = sampleGenesis"
    by (simp add: genesisOf_def sampleGenesis_def)
  then show ?thesis by simp
qed

section \<open>Payments\<close>

text \<open>Pay 40 of 100 to one merchant, or 30 of the same 100 to another, then 60 after the first.\<close>

definition sampleParent :: ParentState where
  "sampleParent = genesisParent sampleCertificate"

definition sampleRequest :: PaymentRequest where
  "sampleRequest = \<lparr>rq_merchant = replicate 32 9, rq_merchantDeviceKey = replicate 32 10, rq_amount = 40,
     rq_merchantChallenge = replicate 32 11, rq_createdAt = 2000\<rparr>"

definition rivalRequest :: PaymentRequest where
  "rivalRequest = \<lparr>rq_merchant = replicate 32 15, rq_merchantDeviceKey = replicate 32 16, rq_amount = 30,
     rq_merchantChallenge = replicate 32 17, rq_createdAt = 2500\<rparr>"

definition secondRequest :: PaymentRequest where
  "secondRequest = \<lparr>rq_merchant = replicate 32 15, rq_merchantDeviceKey = replicate 32 16, rq_amount = 60,
     rq_merchantChallenge = replicate 32 18, rq_createdAt = 3000\<rparr>"

definition samplePayment :: PaymentCredential where
  "samplePayment = projr (createPaymentCredential sampleLib sampleContext sampleCertificate sampleParent sampleRequest (replicate 32 6))"

definition rivalPayment :: PaymentCredential where
  "rivalPayment = projr (createPaymentCredential sampleLib sampleContext sampleCertificate sampleParent rivalRequest (replicate 32 6))"

definition secondPayment :: PaymentCredential where
  "secondPayment = projr (createPaymentCredential sampleLib sampleContext sampleCertificate (nextParent samplePayment)
     secondRequest (replicate 32 6))"

lemma sampleParent_fields [simp]: "pt_sequence sampleParent = 0" "pt_remaining sampleParent = 100"
  "length (pt_stateHash sampleParent) = 32"
  by (simp_all add: sampleParent_def genesisParent_def)

lemma samplePayment_created:
  "createPaymentCredential sampleLib sampleContext sampleCertificate sampleParent sampleRequest (replicate 32 6) = Inr samplePayment"
proof -
  have "isOk (createPaymentCredential sampleLib sampleContext sampleCertificate sampleParent sampleRequest (replicate 32 6))"
    by (rule createPaymentCredential_serves) (simp_all add: sampleRequest_def list_all_iff)
  then show ?thesis by (auto simp: isOk_iff samplePayment_def)
qed

lemma rivalPayment_created:
  "createPaymentCredential sampleLib sampleContext sampleCertificate sampleParent rivalRequest (replicate 32 6) = Inr rivalPayment"
proof -
  have "isOk (createPaymentCredential sampleLib sampleContext sampleCertificate sampleParent rivalRequest (replicate 32 6))"
    by (rule createPaymentCredential_serves) (simp_all add: rivalRequest_def list_all_iff)
  then show ?thesis by (auto simp: isOk_iff rivalPayment_def)
qed

lemma created_stateHash:
  "hash_ok L \<Longrightarrow> createPaymentCredential L cx cert parent rq sk = Inr c \<Longrightarrow> length (pc_newStateHash c) = 32"
  unfolding createPaymentCredential_iff paymentStateHash_iff by (metis length_hashSha256)

lemma samplePayment_next [simp]:
  "length (pc_newStateHash samplePayment) = 32" "pc_sequence samplePayment = 1" "pc_newRemaining samplePayment = 60"
  "pc_amount samplePayment = 40" "pc_newRemaining rivalPayment = 70" "pc_amount rivalPayment = 30"
  "pc_sequence rivalPayment = 1"
  using created_stateHash [OF _ samplePayment_created] created_spends [OF samplePayment_created]
    created_spends [OF rivalPayment_created] samplePayment_created rivalPayment_created
  by (auto simp: spends_def createPaymentCredential_iff sampleRequest_def rivalRequest_def dest: arg_cong [where f = pc_amount])

lemma secondPayment_created:
  "createPaymentCredential sampleLib sampleContext sampleCertificate (nextParent samplePayment) secondRequest (replicate 32 6)
    = Inr secondPayment"
proof -
  have "isOk (createPaymentCredential sampleLib sampleContext sampleCertificate (nextParent samplePayment) secondRequest (replicate 32 6))"
    by (rule createPaymentCredential_serves) (simp_all add: secondRequest_def nextParent_def list_all_iff)
  then show ?thesis by (auto simp: isOk_iff secondPayment_def)
qed

lemma sample_payments_accepted:
  "validatePaymentCredential sampleLib sampleContext sampleCertificate sampleParent samplePayment = Inr ()"
  "validatePaymentCredential sampleLib sampleContext sampleCertificate sampleParent rivalPayment = Inr ()"
  "validatePaymentCredential sampleLib sampleContext sampleCertificate (nextParent samplePayment) secondPayment = Inr ()"
  using created_validates(1) [OF sampleLib_signature samplePayment_created]
    created_validates(1) [OF sampleLib_signature rivalPayment_created]
    created_validates(1) [OF sampleLib_signature secondPayment_created] by blast+

definition sampleBundle :: CredentialProofBundle where
  "sampleBundle = \<lparr>sessionCertificate = sampleCertificate, deviceAuthorization = sampleAuthorization,
     credentials = [samplePayment, secondPayment]\<rparr>"

lemma sampleBundle_valid:
  "validateCredentialProofBundle sampleLib sampleContext sampleBundle = Inr (nextParent secondPayment)"
  using sample_payments_accepted(1) [unfolded sampleParent_def]
  by (simp add: validateCredentialProofBundle_iff sampleBundle_def sample_payments_accepted)

lemma samplePayments_valid:
  "validPaymentCredential samplePayment" "length (pc_payerSignature samplePayment) = 64"
  "validPaymentCredential secondPayment" "length (pc_payerSignature secondPayment) = 64"
  "validSessionCertificate sampleCertificate" "length (sc_issuerSignature sampleCertificate) = 64"
  using created_validates [OF sampleLib_signature samplePayment_created]
    created_validates [OF sampleLib_signature secondPayment_created]
    encodePaymentCredentialPayload_ok [OF sampleLib_borsh, of samplePayment]
    encodePaymentCredentialPayload_ok [OF sampleLib_borsh, of secondPayment]
    trusted_valid [OF sampleLib_borsh sampleCertificate_trusted]
    signSessionCertificate_verifies(2) [OF _ _ sampleCertificate_signed]
  by (auto simp: validatePaymentCredential_iff isOk_iff) (simp add: sampleCertificatePayload_def)

end
