(* ===== verification/CredentialTheorems.thy ===== *)
theory CredentialTheorems
  imports Samples
begin

text \<open>
  The properties of \<open>packages/canonical-codec\<close> and \<open>packages/credentials\<close>, each with a witness
  on the sample session.
\<close>

section \<open>Canonical encoding\<close>

text \<open>
  C13: the three strict decoders are the exact inverses of their encoders, in
  both directions: an input is accepted with a given result exactly when that result encodes
  to that very input. So every object has one encoding and a decoder accepts no other bytes.
\<close>

theorem codec_roundtrip:
  assumes "borsh_ok L"
  shows "(decodePaymentCredential L bs = Inr c \<longleftrightarrow> encodePaymentCredential L c = Inr bs) \<and>
    (decodeDeviceAuthorization L bs = Inr a \<longleftrightarrow> encodeDeviceAuthorization L a = Inr bs) \<and>
    (decodeSessionCertificate L bs = Inr s \<longleftrightarrow> encodeSessionCertificate L s = Inr bs)"
  using decodePaymentCredential_iff decodeDeviceAuthorization_iff decodeSessionCertificate_iff assms
  by blast

theorem codec_roundtrip_witness:
  "\<exists>bs. length bs = 474 \<and> decodePaymentCredential sampleLib bs = Inr samplePayment"
proof -
  have "length (pc_payerSignature samplePayment) = 64" "isOk (encodePaymentCredentialPayload sampleLib samplePayment)"
    using created_validates [OF sampleLib_signature samplePayment_created]
    by (auto simp: validatePaymentCredential_iff isOk_iff)
  then have "isOk (encodePaymentCredential sampleLib samplePayment)"
    by (simp add: encodePaymentCredential_ok encodePaymentCredentialPayload_ok)
  then obtain bs where "encodePaymentCredential sampleLib samplePayment = Inr bs" by (auto simp: isOk_iff)
  with codec_roundtrip [OF sampleLib_borsh, of bs samplePayment] encodePaymentCredential_length
  show ?thesis by blast
qed

text \<open>
  The encoders of credentials, authorizations and certificates succeed exactly
  on objects whose every field is in range, whose domain is this protocol's, version 1, of the
  right object type, and whose signature has 64 bytes; they return exactly 474, 370 and 554
  bytes.
\<close>

theorem codec_success:
  assumes "borsh_ok L"
  shows "((\<exists>bs. encodePaymentCredential L c = Inr bs) \<longleftrightarrow> validPaymentCredential c \<and> length (pc_payerSignature c) = 64) \<and>
    ((\<exists>bs. encodeDeviceAuthorization L a = Inr bs) \<longleftrightarrow> validDeviceAuthorization a \<and> length (da_walletSignature a) = 64) \<and>
    ((\<exists>bs. encodeSessionCertificate L s = Inr bs) \<longleftrightarrow> validSessionCertificate s \<and> length (sc_issuerSignature s) = 64) \<and>
    (\<forall>bs. (encodePaymentCredential L c = Inr bs \<longrightarrow> length bs = 474) \<and>
      (encodeDeviceAuthorization L a = Inr bs \<longrightarrow> length bs = 370) \<and>
      (encodeSessionCertificate L s = Inr bs \<longrightarrow> length bs = 554))"
  using encodePaymentCredential_ok [OF assms] encodeDeviceAuthorization_ok [OF assms]
    encodeSessionCertificate_ok [OF assms] encodePaymentCredential_length encodeDeviceAuthorization_length
    encodeSessionCertificate_length
  unfolding isOk_iff by blast

theorem codec_success_witness:
  "\<exists>bs. encodeDeviceAuthorization sampleLib sampleAuthorization = Inr bs \<and> length bs = 370"
proof -
  have "validDeviceAuthorization sampleAuthorization \<and> length (da_walletSignature sampleAuthorization) = 64"
    by (simp add: validDeviceAuthorization_def integer_ranges)
  with codec_success [OF sampleLib_borsh, of samplePayment sampleAuthorization sampleCertificate]
  show ?thesis by blast
qed

text \<open>
  A proof bundle of at most 32 valid, signed credentials always encodes, to
  exactly 928 + 474 n bytes; a longer bundle never does.
\<close>

theorem codec_bundle:
  assumes "borsh_ok L"
  shows "(validBundle b \<longrightarrow> (\<exists>bs. encodeCredentialProofBundle L b = Inr bs \<and>
      length bs = 928 + 474 * length (credentials b))) \<and>
    (32 < length (credentials b) \<longrightarrow> (\<exists>e. encodeCredentialProofBundle L b = Inl e))"
proof (intro conjI impI)
  assume "validBundle b"
  then obtain bs where "encodeCredentialProofBundle L b = Inr bs"
    using encodeCredentialProofBundle_ok [OF assms] by (auto simp: isOk_iff)
  then show "\<exists>bs. encodeCredentialProofBundle L b = Inr bs \<and> length bs = 928 + 474 * length (credentials b)"
    using encodeCredentialProofBundle_length by blast
next
  assume "32 < length (credentials b)"
  then show "\<exists>e. encodeCredentialProofBundle L b = Inl e"
    using encodeCredentialProofBundle_length(1) [of L b] by (cases "encodeCredentialProofBundle L b") auto
qed

theorem codec_bundle_witness:
  "\<exists>bs. encodeCredentialProofBundle sampleLib sampleBundle = Inr bs \<and> length bs = 1876"
proof -
  have "validBundle sampleBundle"
    by (simp add: validBundle_def sampleBundle_def samplePayments_valid) (simp add: validDeviceAuthorization_def integer_ranges)
  with codec_bundle [OF sampleLib_borsh, of sampleBundle] show ?thesis
    by (simp add: sampleBundle_def)
qed

text \<open>
  Encodings bind every field. Two payment states with the same encoding are
  equal, two genesis states too, and two credential payloads with the same signed message agree
  on every field but the signature; in particular they belong to the same session, program and
  network.
\<close>

theorem codec_binding:
  fixes p q :: PaymentCredential
  assumes "borsh_ok L"
  shows "(encodePaymentState L x = Inr bs \<longrightarrow> encodePaymentState L y = Inr bs \<longrightarrow> x = y) \<and>
    (encodeGenesisState L g = Inr bs \<longrightarrow> encodeGenesisState L h = Inr bs \<longrightarrow> g = h) \<and>
    (encodePaymentCredentialPayload L p = Inr bs \<longrightarrow> encodePaymentCredentialPayload L q = Inr bs \<longrightarrow>
      PaymentCredentialPayload.truncate p = PaymentCredentialPayload.truncate q \<and> pc_domain p = pc_domain q)"
  using encodePaymentState_inject [OF assms] encodeGenesisState_inject [OF assms]
    encodePaymentCredentialPayload_inject [OF assms, of p bs q]
  by (auto simp: PaymentCredentialPayload.truncate_def)

theorem codec_binding_witness:
  "encodePaymentCredentialPayload sampleLib samplePayment \<noteq> encodePaymentCredentialPayload sampleLib secondPayment"
proof
  assume same: "encodePaymentCredentialPayload sampleLib samplePayment = encodePaymentCredentialPayload sampleLib secondPayment"
  obtain m where m: "encodePaymentCredentialPayload sampleLib samplePayment = Inr m"
    using encodePaymentCredentialPayload_ok [OF sampleLib_borsh, of samplePayment] samplePayments_valid(1)
    by (auto simp: isOk_iff)
  with same codec_binding [OF sampleLib_borsh, of _ m _ _ _ samplePayment secondPayment]
  have "PaymentCredentialPayload.truncate samplePayment = PaymentCredentialPayload.truncate secondPayment" by simp
  then have "pc_sequence samplePayment = pc_sequence secondPayment"
    by (simp add: PaymentCredentialPayload.truncate_def)
  moreover have "pc_sequence secondPayment = 2"
    using created_spends [OF secondPayment_created] by (simp add: spends_def nextParent_def)
  ultimately show False by simp
qed

section \<open>Creating and validating payments\<close>

text \<open>
  Whatever \<open>createPaymentCredential\<close> returns, every verifier with
  the same trust context, certificate and parent state accepts, and the credential carries a
  64-byte signature and the parent's value less the requested amount.
\<close>

theorem created_payment_validates:
  assumes "signature_ok L" "createPaymentCredential L cx cert parent rq sk = Inr c"
  shows "validatePaymentCredential L cx cert parent c = Inr () \<and> verifyCredentialSignature L c \<and>
    nextParent c = \<lparr>pt_stateHash = pc_newStateHash c, pt_sequence = pt_sequence parent + 1,
      pt_remaining = pt_remaining parent - rq_amount rq\<rparr>"
proof (intro conjI)
  show "validatePaymentCredential L cx cert parent c = Inr ()" by (rule created_validates [OF assms])
  then show "verifyCredentialSignature L c"
    using created_validates(2) [OF assms]
    by (auto simp: validatePaymentCredential_iff verifyCredentialSignature_def spends_def bindE_Inr_iff SIGNATURE_LENGTH_def)
  have "pc_amount c = rq_amount rq"
    using assms(2) unfolding createPaymentCredential_iff by (metis PaymentCredentialPayload.select_convs(8))
  with created_spends [OF assms(2)] show "nextParent c = \<lparr>pt_stateHash = pc_newStateHash c,
      pt_sequence = pt_sequence parent + 1, pt_remaining = pt_remaining parent - rq_amount rq\<rparr>"
    by (simp add: spends_def nextParent_def)
qed

theorem created_payment_validates_witness:
  "validatePaymentCredential sampleLib sampleContext sampleCertificate sampleParent samplePayment = Inr () \<and>
   pt_remaining (nextParent samplePayment) = 60"
  using created_payment_validates [OF sampleLib_signature samplePayment_created]
  by (simp add: sampleRequest_def)

text \<open>
  A payer holding a trusted certificate can spend any positive amount
  up to what remains: creation fails on none of the requests within the certificate's depth and
  time window.
\<close>

theorem payment_request_served:
  assumes "borsh_ok L" "hash_ok L" "trustedCertificate L cx cert"
    and "length (pt_stateHash parent) = 32" "0 \<le> pt_sequence parent" "pt_sequence parent < sc_maxBranchDepth cert"
    and "0 < rq_amount rq" "rq_amount rq \<le> pt_remaining parent" "pt_remaining parent < 2 ^ 64"
    and "length (rq_merchant rq) = 32" "length (rq_merchantDeviceKey rq) = 32" "rq_merchant rq \<noteq> sc_owner cert"
    and "length (rq_merchantChallenge rq) = 32" "\<not> list_all (\<lambda>b. b = 0) (rq_merchantChallenge rq)"
    and "sc_issuedAt cert \<le> rq_createdAt rq" "rq_createdAt rq \<le> sc_expiresAt cert"
    and "derivePublicKey L sk = Inr (sc_devicePublicKey cert)" "\<forall>m. ed25519Sign L m sk \<noteq> None"
  shows "\<exists>c. createPaymentCredential L cx cert parent rq sk = Inr c \<and> pc_amount c = rq_amount rq \<and>
    pc_merchant c = rq_merchant rq \<and> pc_sequence c = pt_sequence parent + 1"
proof -
  obtain c where c: "createPaymentCredential L cx cert parent rq sk = Inr c"
    using createPaymentCredential_serves [OF assms] by (auto simp: isOk_iff)
  then have "pc_amount c = rq_amount rq" "pc_merchant c = rq_merchant rq"
    unfolding createPaymentCredential_iff
    by (metis PaymentCredentialPayload.select_convs(8), metis PaymentCredentialPayload.select_convs(6))
  with c created_spends [OF c] show ?thesis by (simp add: spends_def)
qed

theorem payment_request_served_witness:
  "\<exists>c. createPaymentCredential sampleLib sampleContext sampleCertificate sampleParent sampleRequest (replicate 32 6) = Inr c \<and>
     pc_amount c = 40"
  using payment_request_served [of sampleLib sampleContext sampleCertificate sampleParent sampleRequest "replicate 32 6"]
  by (auto simp: sampleRequest_def list_all_iff)

text \<open>
  C5: an accepted credential spends exactly its parent state: it is
  positive and covered by what remains, one deeper and within the branch depth, made inside the
  certificate's time window for somebody other than the payer, in this session, program and
  network, under a certificate of the trusted issuer; its new state hash is the hash of exactly the
  state it leads to, and it is signed by the certified device.
\<close>

theorem accepted_payment_is_a_spend:
  assumes "validatePaymentCredential L cx cert parent c = Inr ()"
  shows "0 < pc_amount c \<and> pc_amount c \<le> pt_remaining parent \<and>
    pc_newRemaining c = pt_remaining parent - pc_amount c \<and> 0 \<le> pc_newRemaining c \<and>
    pc_sequence c = pt_sequence parent + 1 \<and> pc_sequence c \<le> sc_maxBranchDepth cert \<and>
    sc_issuedAt cert \<le> pc_createdAt c \<and> pc_createdAt c \<le> sc_expiresAt cert \<and>
    pc_sessionExpiresAt c = sc_expiresAt cert \<and> trustedCertificate L cx cert \<and>
    pc_payer c = sc_owner cert \<and> pc_payerDeviceKey c = sc_devicePublicKey cert \<and>
    pc_merchant c \<noteq> sc_owner cert \<and> pc_previousStateHash c = pt_stateHash parent \<and>
    pc_previousRemaining c = pt_remaining parent \<and>
    paymentStateHash L (credentialState cx c) = Inr (pc_newStateHash c) \<and> contextDomain cx PaymentCredentialObject (pc_domain c) \<and>
    dm_programId (pc_domain c) = cx_programId cx \<and> dm_sessionId (pc_domain c) = cx_sessionId cx \<and>
    (\<exists>m. encodePaymentCredentialPayload L c = Inr m \<and>
       ed25519Verify L (pc_payerSignature c) m (sc_devicePublicKey cert) = Some True)"
  using validate_spends [OF assms] assms
  by (auto simp: spends_def contextDomain_def validatePaymentCredential_iff verifyEd25519_def split: option.splits)

theorem accepted_payment_is_a_spend_witness:
  "pc_newRemaining secondPayment = pc_newRemaining samplePayment - pc_amount secondPayment"
  using accepted_payment_is_a_spend [OF sample_payments_accepted(3)] by (simp add: nextParent_def)

text \<open>
  While SHA-256 does not collide on the two state encodings, two
  accepted credentials that lead to the same state hash make the same payment: same parent,
  depth, merchant, amount and challenge.
\<close>

theorem state_hash_binds_payment:
  fixes p :: "'a ParentState_scheme" and q :: "'b ParentState_scheme"
  assumes "borsh_ok L" "validatePaymentCredential L cx cert p a = Inr ()"
    and "validatePaymentCredential L cx cert q b = Inr ()" "pc_newStateHash a = pc_newStateHash b"
    and "inj_on (sha256 L) {m. encodePaymentState L (credentialState cx a) = Inr m \<or>
      encodePaymentState L (credentialState cx b) = Inr m}"
  shows "pc_merchant a = pc_merchant b \<and> pc_amount a = pc_amount b \<and> pc_sequence a = pc_sequence b \<and>
    pc_merchantChallenge a = pc_merchantChallenge b \<and> pc_previousStateHash a = pc_previousStateHash b \<and>
    pc_newRemaining a = pc_newRemaining b"
proof -
  have "paymentStateHash L (credentialState cx a) = Inr (pc_newStateHash a)"
    "paymentStateHash L (credentialState cx b) = Inr (pc_newStateHash a)"
    using assms(2,3,4) by (auto simp: validatePaymentCredential_iff)
  from paymentStateHash_inject [OF assms(1) this assms(5)] show ?thesis
    by (simp add: credentialState_def)
qed

theorem state_hash_binds_payment_witness:
  "\<exists>c. c \<noteq> samplePayment \<and> validatePaymentCredential sampleLib sampleContext sampleCertificate sampleParent c = Inr () \<and>
     pc_newStateHash c = pc_newStateHash samplePayment \<and> pc_merchant c = pc_merchant samplePayment"
proof -
  have "isOk (createPaymentCredential sampleLib sampleContext sampleCertificate sampleParent
      (sampleRequest\<lparr>rq_createdAt := 2100\<rparr>) (replicate 32 6))"
    by (rule createPaymentCredential_serves) (simp_all add: sampleRequest_def list_all_iff)
  then obtain c where created: "createPaymentCredential sampleLib sampleContext sampleCertificate sampleParent
      (sampleRequest\<lparr>rq_createdAt := 2100\<rparr>) (replicate 32 6) = Inr c"
    by (auto simp: isOk_iff)
  note c = created_validates(1) [OF sampleLib_signature created]
  note fields = created_fields [OF created] created_fields [OF samplePayment_created]
  have state: "credentialState sampleContext c = credentialState sampleContext samplePayment"
    unfolding credentialState_def fields by simp
  then have hash: "pc_newStateHash c = pc_newStateHash samplePayment"
    using c sample_payments_accepted(1) by (auto simp: validatePaymentCredential_iff)
  have "pc_createdAt c \<noteq> pc_createdAt samplePayment" using fields(5,14) by (simp add: sampleRequest_def)
  then have "c \<noteq> samplePayment" by blast
  with c hash state_hash_binds_payment [OF sampleLib_borsh c sample_payments_accepted(1) hash] state
  show ?thesis by (auto simp: inj_on_def)
qed

section \<open>Certificates, bundles, forks\<close>

text \<open>
  An accepted certificate was issued by the trusted issuer on the
  wallet's own signed authorization, field by field; its collateral is at least three times the
  spending limit and covers claims in full amount, it lasts at most three hours, and claims
  close six hours after it expires.
\<close>

theorem certificate_chain_sound:
  assumes "validateCertificateChain L cx cert auth = Inr ()"
  shows "sc_issuer cert = cx_trustedCertificateIssuer cx \<and> verifySessionCertificate L cert \<and>
    verifyDeviceAuthorization L auth \<and> matchesAuthorization cert auth \<and>
    deviceAuthorizationHash L auth = Inr (sc_deviceAuthorizationHash cert) \<and>
    0 < sc_branchSpendingLimit cert \<and> 3 * sc_branchSpendingLimit cert \<le> sc_collateralCoverageCap cert \<and>
    sc_maxBranchDepth cert = 32 \<and> sc_issuedAt cert < sc_expiresAt cert \<and>
    sc_expiresAt cert \<le> sc_issuedAt cert + 3 * 3600 \<and>
    sc_claimSubmissionDeadline cert = sc_expiresAt cert + 6 * 3600"
  using assms by (auto simp: validateCertificateChain_iff trustedCertificate_def soundTerms_def)

theorem certificate_chain_sound_witness:
  "3 * sc_branchSpendingLimit sampleCertificate \<le> sc_collateralCoverageCap sampleCertificate"
  using certificate_chain_sound [OF sampleChain_valid] by blast

text \<open>
  C20: a valid proof bundle holds at most 32 payments, each positive; the
  state it proves is that many steps deep, and what remains plus everything paid is the
  certificate's spending limit, never less than zero. All payments of the bundle together are
  at most a third of the collateral.
\<close>

theorem bundle_conserves_value:
  assumes "validateCredentialProofBundle L cx bundle = Inr q"
  shows "length (credentials bundle) \<le> 32 \<and> pt_sequence q = int (length (credentials bundle)) \<and>
    pt_remaining q + sum_list (map pc_amount (credentials bundle)) = sc_branchSpendingLimit (sessionCertificate bundle) \<and>
    0 \<le> pt_remaining q \<and> (\<forall>c \<in> set (credentials bundle). 0 < pc_amount c) \<and>
    3 * sum_list (map pc_amount (credentials bundle)) \<le> sc_collateralLocked (sessionCertificate bundle)"
proof -
  from assms have b: "length (credentials bundle) \<le> 32" "soundTerms (sessionCertificate bundle)"
    and r: "replayCredentials L cx (sessionCertificate bundle) (genesisParent (sessionCertificate bundle)) (credentials bundle) = Inr q"
    by (auto simp: validateCredentialProofBundle_iff validateCertificateChain_iff)
  from replay_totals [OF r] b show ?thesis
    by (auto simp: genesisParent_def soundTerms_def)
qed

theorem bundle_conserves_value_witness:
  "pt_sequence (nextParent secondPayment) = 2 \<and>
   3 * sum_list (map pc_amount (credentials sampleBundle)) \<le> sc_collateralLocked sampleCertificate"
  using bundle_conserves_value [OF sampleBundle_valid] by (simp add: sampleBundle_def)

text \<open>
  A payer who holds a valid bundle of fewer than 32 payments and creates the
  next credential from the state it proves can present the longer bundle: it is valid too, and
  proves the state after the new payment.
\<close>

theorem bundle_extends:
  assumes "signature_ok L" "validateCredentialProofBundle L cx bundle = Inr q"
    and "createPaymentCredential L cx (sessionCertificate bundle) q rq sk = Inr c"
  shows "validateCredentialProofBundle L cx (bundle\<lparr>credentials := credentials bundle @ [c]\<rparr>) = Inr (nextParent c)"
  using assms by (rule bundle_extended)

theorem bundle_extends_witness:
  "validateCredentialProofBundle sampleLib sampleContext
     (sampleBundle\<lparr>credentials := [samplePayment]\<rparr>\<lparr>credentials := [samplePayment, secondPayment]\<rparr>) = Inr (nextParent secondPayment)"
proof -
  have "validateCredentialProofBundle sampleLib sampleContext (sampleBundle\<lparr>credentials := [samplePayment]\<rparr>) = Inr (nextParent samplePayment)"
    using sample_payments_accepted(1) [unfolded sampleParent_def]
    by (simp add: validateCredentialProofBundle_iff sampleBundle_def)
  from bundle_extends [OF sampleLib_signature this] secondPayment_created show ?thesis
    by (simp add: sampleBundle_def)
qed

text \<open>
  A device authorization signed with the wallet's key, a session certificate
  signed with the issuer's key and an identity attestation signed with the attestor's key all
  verify, and signing changes no field of the payload.
\<close>

theorem signing_verifies:
  assumes "signature_ok L"
  shows "(signDeviceAuthorization L a sk = Inr authorization \<longrightarrow> derivePublicKey L sk = Inr (da_owner a) \<longrightarrow>
      verifyDeviceAuthorization L authorization \<and> DeviceAuthorizationPayload.truncate authorization = a) \<and>
    (signSessionCertificate L s sk = Inr certificate \<longrightarrow> derivePublicKey L sk = Inr (sc_issuer s) \<longrightarrow>
      verifySessionCertificate L certificate \<and> SessionCertificatePayload.truncate certificate = s) \<and>
    (signIdentityAttestation L i sk = Inr attestation \<longrightarrow> derivePublicKey L sk = Inr (ia_issuer i) \<longrightarrow>
      contextDomain cx IdentityAttestationObject (ia_domain i) \<longrightarrow>
      verifyIdentityAttestation L cx attestation (ia_issuer i))"
  by (intro conjI impI; elim signDeviceAuthorization_verifies(1,3) [OF assms, rotated]
      signSessionCertificate_verifies(1,3) [OF assms, rotated] signIdentityAttestation_verifies [OF assms, rotated])

theorem signing_verifies_witness: "verifySessionCertificate sampleLib sampleCertificate"
proof -
  have "derivePublicKey sampleLib (replicate 32 4) = Inr (sc_issuer sampleCertificatePayload)"
    by (simp add: sampleCertificatePayload_def)
  with signing_verifies [OF sampleLib_signature] sampleCertificate_signed show ?thesis by blast
qed

text \<open>
  \<open>detectAuthenticatedFork\<close> splits the candidates, in order, into those
  that validate against the parent and those that do not, counts the distinct states the valid
  ones lead to, and reports a fork exactly when two valid candidates lead to different states.
\<close>

theorem fork_detection_exact:
  "fd_validCredentials (detectAuthenticatedFork L cx cert parent candidates) =
     filter (\<lambda>c. isOk (validatePaymentCredential L cx cert parent c)) candidates \<and>
   map fst (fd_rejected (detectAuthenticatedFork L cx cert parent candidates)) =
     filter (\<lambda>c. \<not> isOk (validatePaymentCredential L cx cert parent c)) candidates \<and>
   fd_branchCount (detectAuthenticatedFork L cx cert parent candidates) =
     card {pc_newStateHash c |c. c \<in> set candidates \<and> isOk (validatePaymentCredential L cx cert parent c)} \<and>
   (fd_authenticatedFork (detectAuthenticatedFork L cx cert parent candidates) \<longleftrightarrow>
     (\<exists>a b. {a, b} \<subseteq> set candidates \<and> isOk (validatePaymentCredential L cx cert parent a) \<and>
        isOk (validatePaymentCredential L cx cert parent b) \<and> pc_newStateHash a \<noteq> pc_newStateHash b))"
proof (intro conjI)
  have eq: "acceptedBy L cx cert parent = (\<lambda>c. isOk (validatePaymentCredential L cx cert parent c))"
    by (simp add: fun_eq_iff acceptedBy_def)
  note spec = detectAuthenticatedFork_spec [of L cx cert parent candidates, unfolded eq]
  show "fd_validCredentials (detectAuthenticatedFork L cx cert parent candidates) =
      filter (\<lambda>c. isOk (validatePaymentCredential L cx cert parent c)) candidates"
    "map fst (fd_rejected (detectAuthenticatedFork L cx cert parent candidates)) =
      filter (\<lambda>c. \<not> isOk (validatePaymentCredential L cx cert parent c)) candidates"
    using spec(1,2) by (simp_all add: comp_def)
  have "pc_newStateHash ` set (filter (\<lambda>c. isOk (validatePaymentCredential L cx cert parent c)) candidates) =
      {pc_newStateHash c |c. c \<in> set candidates \<and> isOk (validatePaymentCredential L cx cert parent c)}"
    by auto
  with spec(3) show "fd_branchCount (detectAuthenticatedFork L cx cert parent candidates) =
      card {pc_newStateHash c |c. c \<in> set candidates \<and> isOk (validatePaymentCredential L cx cert parent c)}"
    by simp
  show "fd_authenticatedFork (detectAuthenticatedFork L cx cert parent candidates) \<longleftrightarrow>
     (\<exists>a b. {a, b} \<subseteq> set candidates \<and> isOk (validatePaymentCredential L cx cert parent a) \<and>
        isOk (validatePaymentCredential L cx cert parent b) \<and> pc_newStateHash a \<noteq> pc_newStateHash b)"
    using spec(4) by auto
qed

end
