(* ===== verification/DecimalText.thy ===== *)
theory DecimalText
  imports JsArrays
begin

text \<open>
  Decimal rendering of integers, as \<open>toString\<close> and template literals produce it, and the facts
  about separators that make joined texts readable back.
\<close>

section \<open>Rendering\<close>

function natDecimal :: "nat \<Rightarrow> string" where
  "natDecimal n = (if n < 10 then [hexDigit n] else natDecimal (n div 10) @ [hexDigit (n mod 10)])"
  by pat_completeness auto
termination by (relation "measure id") simp_all

declare natDecimal.simps [simp del]

text \<open>\<open>value.toString()\<close> of an integer\<close>

definition decimal :: "int \<Rightarrow> string" where
  "decimal n = (if n < 0 then ''-'' @ natDecimal (nat (- n)) else natDecimal (nat n))"

section \<open>Injectivity\<close>

lemma hexDigit_colon: "n < 16 \<Longrightarrow> hexDigit n \<noteq> CHR '':''"
proof -
  assume "n < 16"
  then have "n \<in> set [0..<16]" by simp
  moreover have "\<forall>n \<in> set [0..<16]. hexDigit n \<noteq> CHR '':''" by (simp add: hexDigit_def upt_rec)
  ultimately show ?thesis by blast
qed

lemma hex_colon [simp]: "CHR '':'' \<notin> set (bytesToHex bs)"
proof (induction bs)
  case (Cons b bs)
  have "unat b < 256" using unsigned_less [of b] by simp
  then have "unat b div 16 < 16" "unat b mod 16 < 16" by simp_all
  then have "CHR '':'' \<notin> set (byteHex b)"
    using hexDigit_colon [of "unat b div 16"] hexDigit_colon [of "unat b mod 16"] by (auto simp: byteHex_def)
  with Cons show ?case by simp
qed simp

lemma natDecimal_nonempty [simp]: "natDecimal n \<noteq> []"
  by (subst natDecimal.simps) simp

lemma natDecimal_chars: "c \<in> set (natDecimal n) \<Longrightarrow> \<exists>d < 10. c = hexDigit d"
proof (induction n rule: natDecimal.induct)
  case (1 n)
  then show ?case by (subst (asm) (2) natDecimal.simps) (auto split: if_splits intro: exI [of _ "n mod 10"])
qed

lemma natDecimal_inject [simp]: "natDecimal m = natDecimal n \<longleftrightarrow> m = n"
proof
  show "natDecimal m = natDecimal n \<Longrightarrow> m = n"
  proof (induction m arbitrary: n rule: natDecimal.induct)
    case (1 m)
    note eq = 1(2)
    show ?case
    proof (cases "m < 10")
      case True
      with eq have d: "[hexDigit m] = natDecimal n" by (simp add: natDecimal.simps [of m])
      then have "n < 10" by (cases "n < 10") (simp_all add: natDecimal.simps [of n] Cons_eq_append_conv)
      with d True show ?thesis by (simp add: natDecimal.simps [of n] hexDigit_inject)
    next
      case False
      then have m: "natDecimal m = natDecimal (m div 10) @ [hexDigit (m mod 10)]" by (subst natDecimal.simps) simp
      have "\<not> n < 10"
      proof
        assume "n < 10"
        then have "natDecimal n = [hexDigit n]" by (subst natDecimal.simps) simp
        with eq m show False by (simp add: append_eq_Cons_conv)
      qed
      then have n: "natDecimal n = natDecimal (n div 10) @ [hexDigit (n mod 10)]" by (subst natDecimal.simps) simp
      from eq m n have "natDecimal (m div 10) = natDecimal (n div 10)" "hexDigit (m mod 10) = hexDigit (n mod 10)" by simp_all
      with 1(1) [OF False] have "m div 10 = n div 10" "m mod 10 = n mod 10" by (simp_all add: hexDigit_inject)
      then show ?thesis by (metis div_mult_mod_eq)
    qed
  qed
qed simp

lemma decimal_chars: "c \<in> set (decimal n) \<Longrightarrow> c = CHR ''-'' \<or> (\<exists>d < 10. c = hexDigit d)"
  by (auto simp: decimal_def dest: natDecimal_chars split: if_splits)

lemma hexDigit_minus: "d < 10 \<Longrightarrow> hexDigit d \<noteq> CHR ''-''"
proof -
  assume "d < 10"
  then have "d \<in> set [0..<10]" by simp
  moreover have "\<forall>n \<in> set [0..<10]. hexDigit n \<noteq> CHR ''-''" by (simp add: hexDigit_def upt_rec)
  ultimately show ?thesis by blast
qed

lemma decimal_colon [simp]: "CHR '':'' \<notin> set (decimal n)"
proof
  assume "CHR '':'' \<in> set (decimal n)"
  from decimal_chars [OF this] obtain d where "d < 10" "CHR '':'' = hexDigit d" by auto
  with hexDigit_colon [of d] show False by simp
qed

lemma natDecimal_minus [simp]: "CHR ''-'' # xs \<noteq> natDecimal n" "natDecimal n \<noteq> CHR ''-'' # xs"
  using natDecimal_chars [of "CHR ''-''" n] hexDigit_minus by (metis list.set_intros(1))+

lemma decimal_inject [simp]: "decimal m = decimal n \<longleftrightarrow> m = n"
  by (auto simp: decimal_def)

text \<open>A text without the separator ends at the first separator.\<close>

lemma separator_split:
  "c \<notin> set xs \<Longrightarrow> c \<notin> set ys \<Longrightarrow> xs @ c # xs' = ys @ c # ys' \<longleftrightarrow> xs = ys \<and> xs' = ys'"
proof (induction xs arbitrary: ys)
  case Nil
  then show ?case by (cases ys) auto
next
  case (Cons x xs)
  then show ?case by (cases ys) auto
qed

lemmas colon_split = separator_split [of "CHR '':''"]

end
