(* ===== verification/OfflineLedger.thy ===== *)
theory OfflineLedger
  imports CredentialFacts DecimalText "HOL-Library.AList"
begin

text \<open>
  \<open>packages/offline-ledger/src/index.ts\<close>: the deterministic state graph of a session, built
  from any bag of credentials.

  A \<open>Map\<close> is an association list in insertion order (\<open>AList.update\<close> is \<open>set\<close>, \<open>map_of\<close> is
  \<open>get\<close>). The arrays and maps \<open>buildStateGraph\<close> mutates while it runs are the fields of
  \<open>LedgerState\<close>. The map \<open>malformedSortKeys\<close>, keyed by object identity, holds the diagnostic
  key of each malformed entry's own credential, so it is computed from the entry.
\<close>

section \<open>Data\<close>

datatype DuplicateReason = DUPLICATE_CREDENTIAL | DUPLICATE_STATE_EDGE

fun duplicateReasonText :: "DuplicateReason \<Rightarrow> string" where
  "duplicateReasonText DUPLICATE_CREDENTIAL = ''DUPLICATE_CREDENTIAL''"
| "duplicateReasonText DUPLICATE_STATE_EDGE = ''DUPLICATE_STATE_EDGE''"

record LedgerGenesis = ParentState +
  lg_state :: GenesisState

record StateNode = ParentState +
  nd_incomingCredentialHash :: "bytes option"

record StateEdge =
  ed_credential :: PaymentCredential
  ed_credentialHash :: bytes
  ed_parentStateHash :: bytes
  ed_childStateHash :: bytes
  ed_sequence :: int
  ed_merchant :: bytes
  ed_amount :: int

record RejectedCredential =
  rc_credential :: PaymentCredential
  rc_credentialHash :: "bytes option"
  rc_reason :: string

record DuplicateCredential =
  dc_credential :: PaymentCredential
  dc_credentialHash :: bytes
  dc_canonicalCredentialHash :: bytes
  dc_reason :: DuplicateReason

record ForkPoint =
  fp_sessionId :: bytes
  fp_parentStateHash :: bytes
  fp_sequence :: int
  fp_childStateHashes :: "bytes list"
  fp_credentialHashes :: "bytes list"
  fp_branchCount :: nat

record StateGraph =
  sg_sessionId :: bytes
  sg_genesis :: LedgerGenesis
  sg_nodes :: "StateNode list"
  sg_edges :: "StateEdge list"
  sg_invalidCredentials :: "RejectedCredential list"
  sg_duplicateCredentials :: "DuplicateCredential list"
  sg_forks :: "ForkPoint list"

record BuildStateGraphInput =
  in_context :: ProtocolTrustContext
  in_sessionCertificate :: SessionCertificate
  in_deviceAuthorization :: DeviceAuthorization
  in_credentials :: "PaymentCredential list"

record VerifiedTransition =
  vt_edge :: StateEdge
  vt_nextState :: StateNode

record IndexedCredential =
  ix_credential :: PaymentCredential
  ix_credentialHash :: bytes
  ix_credentialHashHex :: string

section \<open>Text\<close>

text \<open>\<open>parts.join(":")\<close>\<close>

fun joinColon :: "string list \<Rightarrow> string" where
  "joinColon [] = ''''"
| "joinColon [x] = x"
| "joinColon (x # xs) = x @ '':'' @ joinColon xs"

definition diagnosticCredentialKey :: "PaymentCredential \<Rightarrow> string" where
  "diagnosticCredentialKey credential =
    joinColon
      (map decimal
        [dm_protocolVersion (pc_domain credential), dm_schemaVersion (pc_domain credential),
         dm_objectType (pc_domain credential), dm_networkId (pc_domain credential), pc_sequence credential,
         pc_amount credential, pc_previousRemaining credential, pc_newRemaining credential,
         pc_createdAt credential, pc_sessionExpiresAt credential] @
       map bytesToHex
        [dm_sessionId (pc_domain credential), pc_sessionId credential, pc_payer credential,
         pc_payerDeviceKey credential, pc_merchant credential, pc_merchantDeviceKey credential,
         pc_previousStateHash credential, pc_newStateHash credential, pc_merchantChallenge credential,
         pc_payerSignature credential])"

definition errorCode :: "js_error \<Rightarrow> string" where
  "errorCode error = errorReason ''INVALID_CREDENTIAL'' error"

section \<open>Genesis\<close>

definition assertCertificateContext :: "lib \<Rightarrow> ProtocolTrustContext \<Rightarrow> SessionCertificate \<Rightarrow> unit result" where
  "assertCertificateContext L context certificate =
    (let domain = sc_domain certificate in
     bindE (throwIf (dm_objectType domain \<noteq> objectNumber SessionCertificateObject \<or>
         dm_networkId domain \<noteq> cx_networkId context \<or>
         \<not> equalBytes (dm_clusterGenesisHash domain) (cx_clusterGenesisHash context) \<or>
         \<not> equalBytes (dm_programId domain) (cx_programId context) \<or>
         \<not> equalBytes (dm_sessionId domain) (cx_sessionId context) \<or>
         \<not> equalBytes (sc_sessionId certificate) (cx_sessionId context)) ''DOMAIN_MISMATCH'') (\<lambda>_.
     bindE (throwIf (\<not> equalBytes (sc_issuer certificate) (cx_trustedCertificateIssuer context)) ''UNTRUSTED_ISSUER'') (\<lambda>_.
       throwIf (\<not> verifySessionCertificate L certificate) ''INVALID_SESSION_CERTIFICATE'')))"

definition createLedgerGenesis :: "lib \<Rightarrow> ProtocolTrustContext \<Rightarrow> SessionCertificate \<Rightarrow> LedgerGenesis result" where
  "createLedgerGenesis L context certificate =
    bindE (assertCertificateContext L context certificate) (\<lambda>_.
    bindE (createGenesisState context (certificateGenesis certificate)) (\<lambda>state.
    bindE (genesisStateHash L state) (\<lambda>stateHash.
    bindE (throwIf (\<not> equalBytes stateHash (sc_genesisStateHash certificate)) ''INVALID_SESSION_CERTIFICATE'') (\<lambda>_.
      Inr \<lparr>pt_stateHash = stateHash, pt_sequence = 0, pt_remaining = sc_branchSpendingLimit certificate,
        lg_state = state\<rparr>))))"

section \<open>Transitions\<close>

definition applyPayment ::
  "lib \<Rightarrow> ProtocolTrustContext \<Rightarrow> SessionCertificate \<Rightarrow> 'a ParentState_scheme \<Rightarrow> PaymentRequest \<Rightarrow> bytes \<Rightarrow>
   PaymentCredential result" where
  "applyPayment L context certificate parent request payerDeviceSecretKey =
    createPaymentCredential L context certificate parent request payerDeviceSecretKey"

definition verifyStateTransition ::
  "lib \<Rightarrow> ProtocolTrustContext \<Rightarrow> SessionCertificate \<Rightarrow> 'a ParentState_scheme \<Rightarrow> PaymentCredential \<Rightarrow>
   VerifiedTransition result" where
  "verifyStateTransition L context certificate parent credential =
    bindE (throwIf (pt_sequence parent > sc_maxBranchDepth certificate \<or>
        pt_remaining parent > sc_branchSpendingLimit certificate) ''INVALID_PARENT'') (\<lambda>_.
    bindE (validatePaymentCredential L context certificate parent credential) (\<lambda>_.
    bindE (credentialHash L credential) (\<lambda>hash.
      Inr \<lparr>vt_edge = \<lparr>ed_credential = credential, ed_credentialHash = hash,
             ed_parentStateHash = pc_previousStateHash credential, ed_childStateHash = pc_newStateHash credential,
             ed_sequence = pc_sequence credential, ed_merchant = pc_merchant credential, ed_amount = pc_amount credential\<rparr>,
           vt_nextState = \<lparr>pt_stateHash = pc_newStateHash credential, pt_sequence = pc_sequence credential,
             pt_remaining = pc_newRemaining credential, nd_incomingCredentialHash = Some hash\<rparr>\<rparr>)))"

section \<open>Forks\<close>

definition edgeIdentity :: "StateEdge \<Rightarrow> string" where
  "edgeIdentity edge =
     bytesToHex (ed_parentStateHash edge) @ '':'' @ decimal (ed_sequence edge) @ '':'' @
     bytesToHex (ed_childStateHash edge)"

definition forkKey :: "StateEdge \<Rightarrow> string" where
  "forkKey edge = bytesToHex (ed_parentStateHash edge) @ '':'' @ decimal (ed_sequence edge)"

definition groupEdge :: "StateEdge \<Rightarrow> (string \<times> StateEdge list) list \<Rightarrow> (string \<times> StateEdge list) list" where
  "groupEdge edge groups =
    (case map_of groups (forkKey edge) of
       None \<Rightarrow> AList.update (forkKey edge) [edge] groups
     | Some members \<Rightarrow> AList.update (forkKey edge) (members @ [edge]) groups)"

definition uniqueChildren :: "StateEdge list \<Rightarrow> (string \<times> StateEdge) list" where
  "uniqueChildren members =
     fold (\<lambda>edge children. AList.update (bytesToHex (ed_childStateHash edge)) edge children) members []"

definition forkOfGroup :: "bytes \<Rightarrow> StateEdge list \<Rightarrow> ForkPoint option" where
  "forkOfGroup sessionId members =
    (let children = uniqueChildren members in
     if length children \<le> 1 then None
     else let branches = sortBy (\<lambda>left right. compareBytes (ed_childStateHash left) (ed_childStateHash right)) (map snd children)
       in (case branches of
             [] \<Rightarrow> None
           | first # _ \<Rightarrow> Some
              \<lparr>fp_sessionId = sessionId, fp_parentStateHash = ed_parentStateHash first, fp_sequence = ed_sequence first,
               fp_childStateHashes = map ed_childStateHash branches, fp_credentialHashes = map ed_credentialHash branches,
               fp_branchCount = length branches\<rparr>))"

definition detectForksFromVerifiedEdges :: "bytes \<Rightarrow> StateEdge list \<Rightarrow> ForkPoint list" where
  "detectForksFromVerifiedEdges sessionId edges =
    (let groups = fold groupEdge edges [];
         forks = List.map_filter (forkOfGroup sessionId) (map snd groups)
     in sortBy (\<lambda>left right. orElse (compareBytes (fp_parentStateHash left) (fp_parentStateHash right))
          (fp_sequence left - fp_sequence right)) forks)"

definition detectForks :: "StateGraph \<Rightarrow> ForkPoint list" where
  "detectForks graph = detectForksFromVerifiedEdges (sg_sessionId graph) (sg_edges graph)"

section \<open>Building the graph\<close>

text \<open>The first pass: reject what has no canonical encoding, drop exact duplicates.\<close>

record Intake =
  it_representatives :: "(string \<times> IndexedCredential) list"
  it_duplicates :: "DuplicateCredential list"
  it_invalid :: "RejectedCredential list"

definition intakeStep :: "lib \<Rightarrow> PaymentCredential \<Rightarrow> Intake \<Rightarrow> Intake" where
  "intakeStep L credential it =
    (case credentialHash L credential of
       Inl error \<Rightarrow> it\<lparr>it_invalid := it_invalid it @
         [\<lparr>rc_credential = credential, rc_credentialHash = None, rc_reason = errorCode error\<rparr>]\<rparr>
     | Inr hash \<Rightarrow>
        (let hashHex = bytesToHex hash in
         (case map_of (it_representatives it) hashHex of
            Some existing \<Rightarrow> it\<lparr>it_duplicates := it_duplicates it @
              [\<lparr>dc_credential = credential, dc_credentialHash = hash,
                dc_canonicalCredentialHash = ix_credentialHash existing, dc_reason = DUPLICATE_CREDENTIAL\<rparr>]\<rparr>
          | None \<Rightarrow> it\<lparr>it_representatives := AList.update hashHex
              \<lparr>ix_credential = credential, ix_credentialHash = hash, ix_credentialHashHex = hashHex\<rparr>
              (it_representatives it)\<rparr>)))"

definition intake :: "lib \<Rightarrow> PaymentCredential list \<Rightarrow> Intake" where
  "intake L creds = fold (intakeStep L) creds \<lparr>it_representatives = [], it_duplicates = [], it_invalid = []\<rparr>"

text \<open>The second pass: repeated rounds over the credentials whose parent is known.\<close>

record LedgerState =
  ls_nodesByHash :: "(string \<times> StateNode) list"
  ls_acceptedEdges :: "(string \<times> StateEdge) list"
  ls_edges :: "StateEdge list"
  ls_duplicates :: "DuplicateCredential list"
  ls_invalid :: "RejectedCredential list"

definition rejectEntry :: "IndexedCredential \<Rightarrow> string \<Rightarrow> LedgerState \<Rightarrow> LedgerState" where
  "rejectEntry entry reason st = st\<lparr>ls_invalid := ls_invalid st @
     [\<lparr>rc_credential = ix_credential entry, rc_credentialHash = Some (ix_credentialHash entry), rc_reason = reason\<rparr>]\<rparr>"

text \<open>An entry whose parent node is known; the body of the inner loop from \<open>progressed = true\<close> on.\<close>

definition settleEntry ::
  "lib \<Rightarrow> ProtocolTrustContext \<Rightarrow> SessionCertificate \<Rightarrow> StateNode \<Rightarrow> IndexedCredential \<Rightarrow> LedgerState \<Rightarrow> LedgerState" where
  "settleEntry L context certificate parent entry st =
    (case verifyStateTransition L context certificate parent (ix_credential entry) of
       Inl error \<Rightarrow> rejectEntry entry (errorCode error) st
     | Inr transition \<Rightarrow>
        (let identity = edgeIdentity (vt_edge transition) in
         (case map_of (ls_acceptedEdges st) identity of
            Some equivalentEdge \<Rightarrow> st\<lparr>ls_duplicates := ls_duplicates st @
              [\<lparr>dc_credential = ix_credential entry, dc_credentialHash = ix_credentialHash entry,
                dc_canonicalCredentialHash = ed_credentialHash equivalentEdge, dc_reason = DUPLICATE_STATE_EDGE\<rparr>]\<rparr>
          | None \<Rightarrow>
             (let childHashHex = bytesToHex (pt_stateHash (vt_nextState transition)) in
              if map_of (ls_nodesByHash st) childHashHex \<noteq> None
              then rejectEntry entry ''STATE_HASH_COLLISION'' st
              else st\<lparr>ls_acceptedEdges := AList.update identity (vt_edge transition) (ls_acceptedEdges st),
                ls_edges := ls_edges st @ [vt_edge transition],
                ls_nodesByHash := AList.update childHashHex (vt_nextState transition) (ls_nodesByHash st)\<rparr>))))"

fun settleRound ::
  "lib \<Rightarrow> ProtocolTrustContext \<Rightarrow> SessionCertificate \<Rightarrow> IndexedCredential list \<Rightarrow>
   bool \<Rightarrow> IndexedCredential list \<Rightarrow> LedgerState \<Rightarrow> bool \<times> IndexedCredential list \<times> LedgerState" where
  "settleRound L context certificate [] progressed nextPending st = (progressed, nextPending, st)"
| "settleRound L context certificate (entry # pending) progressed nextPending st =
    (case map_of (ls_nodesByHash st) (bytesToHex (pc_previousStateHash (ix_credential entry))) of
       None \<Rightarrow> settleRound L context certificate pending progressed (nextPending @ [entry]) st
     | Some parent \<Rightarrow> settleRound L context certificate pending True nextPending
         (settleEntry L context certificate parent entry st))"

lemma settleRound_shrinks:
  "settleRound L cx cert pending progressed next st = (progressed', next', st') \<Longrightarrow>
     length next' \<le> length next + length pending \<and>
     (progressed' \<longrightarrow> \<not> progressed \<longrightarrow> length next' < length next + length pending)"
  by (induction L cx cert pending progressed "next" st rule: settleRound.induct)
    (fastforce split: option.splits)+

function settle ::
  "lib \<Rightarrow> ProtocolTrustContext \<Rightarrow> SessionCertificate \<Rightarrow> IndexedCredential list \<Rightarrow> LedgerState \<Rightarrow> LedgerState" where
  "settle L context certificate pending st =
    (if pending = [] then st
     else (case settleRound L context certificate pending False [] st of
        (progressed, nextPending, st') \<Rightarrow>
          if \<not> progressed then fold (\<lambda>entry. rejectEntry entry ''INVALID_PARENT'') nextPending st'
          else settle L context certificate nextPending st'))"
  by pat_completeness auto
termination
  by (relation "measure (\<lambda>(L, context, certificate, pending, st). length pending)")
    (auto dest!: sym [where s = "(_, _, _)"] settleRound_shrinks)

declare settle.simps [simp del]

section \<open>Orders\<close>

definition compareEdges :: "StateEdge \<Rightarrow> StateEdge \<Rightarrow> int" where
  "compareEdges left right =
     orElse (ed_sequence left - ed_sequence right)
    (orElse (compareBytes (ed_parentStateHash left) (ed_parentStateHash right))
    (orElse (compareBytes (ed_childStateHash left) (ed_childStateHash right))
      (compareBytes (ed_credentialHash left) (ed_credentialHash right))))"

definition compareNodes :: "StateNode \<Rightarrow> StateNode \<Rightarrow> int" where
  "compareNodes left right =
     orElse (pt_sequence left - pt_sequence right) (compareBytes (pt_stateHash left) (pt_stateHash right))"

definition compareRejected :: "RejectedCredential \<Rightarrow> RejectedCredential \<Rightarrow> int" where
  "compareRejected left right =
    (case (rc_credentialHash left, rc_credentialHash right) of
       (Some l, Some r) \<Rightarrow> orElse (compareBytes l r) (compareText (rc_reason left) (rc_reason right))
     | (Some l, None) \<Rightarrow> -1
     | (None, Some r) \<Rightarrow> 1
     | (None, None) \<Rightarrow> orElse (compareText (diagnosticCredentialKey (rc_credential left))
           (diagnosticCredentialKey (rc_credential right)))
         (compareText (rc_reason left) (rc_reason right)))"

definition compareDuplicates :: "DuplicateCredential \<Rightarrow> DuplicateCredential \<Rightarrow> int" where
  "compareDuplicates left right =
     orElse (compareText (duplicateReasonText (dc_reason left)) (duplicateReasonText (dc_reason right)))
       (compareBytes (dc_credentialHash left) (dc_credentialHash right))"

definition buildStateGraph :: "lib \<Rightarrow> BuildStateGraphInput \<Rightarrow> StateGraph result" where
  "buildStateGraph L input =
    bindE (validateCertificateChain L (in_context input) (in_sessionCertificate input) (in_deviceAuthorization input)) (\<lambda>_.
    bindE (createLedgerGenesis L (in_context input) (in_sessionCertificate input)) (\<lambda>genesis.
    let taken = intake L (in_credentials input);
        pending = sortBy (\<lambda>left right. compareText (ix_credentialHashHex left) (ix_credentialHashHex right))
          (map snd (it_representatives taken));
        st = settle L (in_context input) (in_sessionCertificate input) pending
          \<lparr>ls_nodesByHash = [(bytesToHex (pt_stateHash genesis),
             \<lparr>pt_stateHash = pt_stateHash genesis, pt_sequence = 0, pt_remaining = pt_remaining genesis,
              nd_incomingCredentialHash = None\<rparr>)],
           ls_acceptedEdges = [], ls_edges = [], ls_duplicates = it_duplicates taken, ls_invalid = it_invalid taken\<rparr>;
        edges = sortBy compareEdges (ls_edges st)
    in Inr \<lparr>sg_sessionId = sc_sessionId (in_sessionCertificate input), sg_genesis = genesis,
         sg_nodes = sortBy compareNodes (map snd (ls_nodesByHash st)), sg_edges = edges,
         sg_invalidCredentials = sortBy compareRejected (ls_invalid st),
         sg_duplicateCredentials = sortBy compareDuplicates (ls_duplicates st),
         sg_forks = detectForksFromVerifiedEdges (sc_sessionId (in_sessionCertificate input)) edges\<rparr>))"

end
