(* ===== verification/LedgerFacts.thy ===== *)
theory LedgerFacts
  imports OfflineLedger Samples
begin

text \<open>
  What \<open>packages/offline-ledger\<close> promises: the graph is a tree grown from the genesis by valid
  transitions (\<open>grown\<close>), every input ends in exactly one of its lists, it is closed under the
  valid transitions of the input, and it does not depend on the order of the input.
\<close>

section \<open>Keys\<close>

lemma forkKey_inject:
  "forkKey a = forkKey b \<longleftrightarrow> ed_parentStateHash a = ed_parentStateHash b \<and> ed_sequence a = ed_sequence b"
  by (simp add: forkKey_def colon_split)

lemma edgeIdentity_inject:
  "edgeIdentity a = edgeIdentity b \<longleftrightarrow> ed_parentStateHash a = ed_parentStateHash b \<and>
     ed_sequence a = ed_sequence b \<and> ed_childStateHash a = ed_childStateHash b"
  by (simp add: edgeIdentity_def colon_split)

lemma update_fresh: "map_of al k = None \<Longrightarrow> AList.update k v al = al @ [(k, v)]"
  by (induction al) (auto split: if_splits)

section \<open>Transitions\<close>

lemma assertCertificateContext_iff:
  "assertCertificateContext L cx cert = Inr () \<longleftrightarrow> trustedCertificate L cx cert"
  using trusted_session [of L cx cert]
  by (auto simp: assertCertificateContext_def trustedCertificate_def contextDomain_def bindE_Inr_iff Let_def)

lemma verifyStateTransition_iff:
  "verifyStateTransition L cx cert p c = Inr t \<longleftrightarrow>
     pt_sequence p \<le> sc_maxBranchDepth cert \<and> pt_remaining p \<le> sc_branchSpendingLimit cert \<and>
     validatePaymentCredential L cx cert p c = Inr () \<and>
     (\<exists>h. credentialHash L c = Inr h \<and>
       t = \<lparr>vt_edge = \<lparr>ed_credential = c, ed_credentialHash = h, ed_parentStateHash = pc_previousStateHash c,
             ed_childStateHash = pc_newStateHash c, ed_sequence = pc_sequence c, ed_merchant = pc_merchant c,
             ed_amount = pc_amount c\<rparr>,
            vt_nextState = \<lparr>pt_stateHash = pc_newStateHash c, pt_sequence = pc_sequence c,
             pt_remaining = pc_newRemaining c, nd_incomingCredentialHash = Some h\<rparr>\<rparr>)"
  by (auto simp: verifyStateTransition_def bindE_Inr_iff)

lemma transition_edge:
  assumes "verifyStateTransition L cx cert p c = Inr t"
  shows "ed_credential (vt_edge t) = c" "ed_parentStateHash (vt_edge t) = pt_stateHash p"
    "ed_childStateHash (vt_edge t) = pt_stateHash (vt_nextState t)" "ed_sequence (vt_edge t) = pt_sequence (vt_nextState t)"
    "ed_sequence (vt_edge t) = pt_sequence p + 1" "0 < ed_amount (vt_edge t)" "ed_amount (vt_edge t) = pc_amount c"
    "pt_remaining (vt_nextState t) = pt_remaining p - ed_amount (vt_edge t)" "ed_amount (vt_edge t) \<le> pt_remaining p"
    "credentialHash L c = Inr (ed_credentialHash (vt_edge t))" "ed_merchant (vt_edge t) = pc_merchant c"
    "nextParent c = ParentState.truncate (vt_nextState t)"
    "nd_incomingCredentialHash (vt_nextState t) = Some (ed_credentialHash (vt_edge t))"
    "pt_sequence (vt_nextState t) \<le> sc_maxBranchDepth cert"
  using assms validate_spends [of L cx cert p c]
  by (auto simp: verifyStateTransition_iff spends_def nextParent_def ParentState.truncate_def)

section \<open>Grown graphs\<close>

text \<open>Nodes and edges in the order in which valid transitions added them to the genesis node \<open>g\<close>.\<close>

inductive grown ::
  "lib \<Rightarrow> ProtocolTrustContext \<Rightarrow> SessionCertificate \<Rightarrow> StateNode \<Rightarrow> StateNode list \<Rightarrow> StateEdge list \<Rightarrow> bool"
  for L cx cert g where
  genesis: "grown L cx cert g [g] []"
| extend: "grown L cx cert g ns es \<Longrightarrow> p \<in> set ns \<Longrightarrow> verifyStateTransition L cx cert p c = Inr t \<Longrightarrow>
    pt_stateHash (vt_nextState t) \<notin> pt_stateHash ` set ns \<Longrightarrow>
    grown L cx cert g (ns @ [vt_nextState t]) (es @ [vt_edge t])"

inductive_cases grown_snocE: "grown L cx cert g ns (es @ [e])"

lemma grown_genesis: "grown L cx cert g ns es \<Longrightarrow> g \<in> set ns"
  by (induction rule: grown.induct) auto

lemma grown_length: "grown L cx cert g ns es \<Longrightarrow> length ns = Suc (length es)"
  by (induction rule: grown.induct) auto

lemma grown_distinct: "grown L cx cert g ns es \<Longrightarrow> distinct (map pt_stateHash ns)"
  by (induction rule: grown.induct) auto

lemma grown_hashes:
  "grown L cx cert g ns es \<Longrightarrow> map pt_stateHash ns = pt_stateHash g # map ed_childStateHash es"
  by (induction rule: grown.induct) (auto dest: transition_edge)

lemma grown_distinct_children: "grown L cx cert g ns es \<Longrightarrow> distinct (map ed_childStateHash es)"
  using grown_distinct grown_hashes by (metis distinct.simps(2))

lemma grown_edge:
  "grown L cx cert g ns es \<Longrightarrow> e \<in> set es \<Longrightarrow> \<exists>p \<in> set ns. \<exists>n \<in> set ns.
     verifyStateTransition L cx cert p (ed_credential e) = Inr \<lparr>vt_edge = e, vt_nextState = n\<rparr>"
proof (induction rule: grown.induct)
  case (extend ns es p c t)
  show ?case
  proof (cases "e \<in> set es")
    case True
    with extend show ?thesis by auto
  next
    case False
    with extend have "e = vt_edge t" by simp
    with extend transition_edge(1) [OF extend(3)] show ?thesis by (cases t) auto
  qed
qed simp

text \<open>Every node is proved by a chain of accepted payments from the genesis.\<close>

lemma grown_chain:
  "grown L cx cert g ns es \<Longrightarrow> n \<in> set ns \<Longrightarrow> \<exists>cs. set cs \<subseteq> ed_credential ` set es \<and>
     replayCredentials L cx cert (ParentState.truncate g) cs = Inr (ParentState.truncate n)"
proof (induction arbitrary: n rule: grown.induct)
  case genesis
  then show ?case by (intro exI [of _ "[]"]) simp
next
  case (extend ns es p c t)
  show ?case
  proof (cases "n \<in> set ns")
    case True
    with extend.IH [of n] show ?thesis by auto
  next
    case False
    with extend.prems have n: "n = vt_nextState t" by simp
    obtain cs where cs: "set cs \<subseteq> ed_credential ` set es"
      "replayCredentials L cx cert (ParentState.truncate g) cs = Inr (ParentState.truncate p)"
      using extend.IH [OF extend.hyps(2)] by blast
    have "validatePaymentCredential L cx cert (ParentState.truncate p) c = Inr ()"
      using extend.hyps(3) by (simp add: verifyStateTransition_iff validate_more)
    with cs transition_edge(12) [OF extend.hyps(3)]
    have "replayCredentials L cx cert (ParentState.truncate g) (cs @ [c]) = Inr (ParentState.truncate n)"
      by (simp add: replay_append n)
    with cs(1) transition_edge(1) [OF extend.hyps(3)] show ?thesis by (intro exI [of _ "cs @ [c]"]) auto
  qed
qed

section \<open>The building loop\<close>

text \<open>The maps mirror the lists, and the lists form a grown graph.\<close>

definition mirrored :: "LedgerState \<Rightarrow> bool" where
  "mirrored st \<longleftrightarrow>
     ls_nodesByHash st = map (\<lambda>n. (bytesToHex (pt_stateHash n), n)) (map snd (ls_nodesByHash st)) \<and>
     ls_acceptedEdges st = map (\<lambda>e. (edgeIdentity e, e)) (ls_edges st)"

definition nodesOf :: "LedgerState \<Rightarrow> StateNode list" where
  "nodesOf st = map snd (ls_nodesByHash st)"

definition sound :: "lib \<Rightarrow> ProtocolTrustContext \<Rightarrow> SessionCertificate \<Rightarrow> StateNode \<Rightarrow> LedgerState \<Rightarrow> bool" where
  "sound L cx cert g st \<longleftrightarrow> mirrored st \<and> grown L cx cert g (nodesOf st) (ls_edges st)"

lemma map_of_keyed_Some: "map_of (map (\<lambda>x. (f x, x)) xs) k = Some y \<Longrightarrow> y \<in> set xs \<and> f y = k"
  by (induction xs) (auto split: if_splits)

lemma map_of_keyed_None: "map_of (map (\<lambda>x. (f x, x)) xs) k = None \<longleftrightarrow> k \<notin> f ` set xs"
  by (induction xs) auto

lemma map_of_keyed_distinct:
  "distinct (map f xs) \<Longrightarrow> y \<in> set xs \<Longrightarrow> map_of (map (\<lambda>x. (f x, x)) xs) (f y) = Some y"
  by (induction xs) (auto simp: rev_image_eqI)

lemma node_lookup:
  assumes "mirrored st"
  shows "map_of (ls_nodesByHash st) (bytesToHex h) = Some n \<Longrightarrow> n \<in> set (nodesOf st) \<and> pt_stateHash n = h"
    and "map_of (ls_nodesByHash st) (bytesToHex h) = None \<longleftrightarrow> h \<notin> pt_stateHash ` set (nodesOf st)"
proof -
  have eq: "ls_nodesByHash st = map (\<lambda>n. (bytesToHex (pt_stateHash n), n)) (nodesOf st)"
    using assms unfolding mirrored_def nodesOf_def by blast
  show "map_of (ls_nodesByHash st) (bytesToHex h) = Some n \<Longrightarrow> n \<in> set (nodesOf st) \<and> pt_stateHash n = h"
    unfolding eq by (drule map_of_keyed_Some) simp
  show "map_of (ls_nodesByHash st) (bytesToHex h) = None \<longleftrightarrow> h \<notin> pt_stateHash ` set (nodesOf st)"
    unfolding eq map_of_keyed_None by auto
qed

lemma edge_lookup:
  assumes "mirrored st" "map_of (ls_acceptedEdges st) k = Some e"
  shows "e \<in> set (ls_edges st) \<and> edgeIdentity e = k"
  using assms map_of_keyed_Some [of edgeIdentity "ls_edges st" k e] unfolding mirrored_def by simp

lemma reject_simps [simp]:
  "ls_nodesByHash (rejectEntry x r st) = ls_nodesByHash st" "ls_acceptedEdges (rejectEntry x r st) = ls_acceptedEdges st"
  "ls_edges (rejectEntry x r st) = ls_edges st" "ls_duplicates (rejectEntry x r st) = ls_duplicates st"
  "nodesOf (rejectEntry x r st) = nodesOf st" "sound L cx cert g (rejectEntry x r st) = sound L cx cert g st"
  by (simp_all add: rejectEntry_def nodesOf_def sound_def mirrored_def)

text \<open>What settling one entry does: reject it, call it a duplicate, or grow the graph.\<close>

lemma settleEntry_cases:
  assumes "mirrored st" "pt_stateHash p = pc_previousStateHash (ix_credential x)"
  obtains (Invalid) e where "verifyStateTransition L cx cert p (ix_credential x) = Inl e"
      "settleEntry L cx cert p x st = rejectEntry x (errorCode e) st"
    | (Duplicate) t e where "verifyStateTransition L cx cert p (ix_credential x) = Inr t" "e \<in> set (ls_edges st)"
      "edgeIdentity e = edgeIdentity (vt_edge t)"
      "settleEntry L cx cert p x st = st\<lparr>ls_duplicates := ls_duplicates st @
         [\<lparr>dc_credential = ix_credential x, dc_credentialHash = ix_credentialHash x,
           dc_canonicalCredentialHash = ed_credentialHash e, dc_reason = DUPLICATE_STATE_EDGE\<rparr>]\<rparr>"
    | (Collision) t where "verifyStateTransition L cx cert p (ix_credential x) = Inr t"
      "pt_stateHash (vt_nextState t) \<in> pt_stateHash ` set (nodesOf st)"
      "settleEntry L cx cert p x st = rejectEntry x ''STATE_HASH_COLLISION'' st"
    | (Grow) t where "verifyStateTransition L cx cert p (ix_credential x) = Inr t"
      "pt_stateHash (vt_nextState t) \<notin> pt_stateHash ` set (nodesOf st)"
      "edgeIdentity (vt_edge t) \<notin> edgeIdentity ` set (ls_edges st)"
      "settleEntry L cx cert p x st = st\<lparr>
         ls_acceptedEdges := ls_acceptedEdges st @ [(edgeIdentity (vt_edge t), vt_edge t)],
         ls_edges := ls_edges st @ [vt_edge t],
         ls_nodesByHash := ls_nodesByHash st @ [(bytesToHex (pt_stateHash (vt_nextState t)), vt_nextState t)]\<rparr>"
proof (cases "verifyStateTransition L cx cert p (ix_credential x)")
  case (Inl e)
  then show thesis by (intro Invalid) (simp_all add: settleEntry_def)
next
  case (Inr t)
  show thesis
  proof (cases "map_of (ls_acceptedEdges st) (edgeIdentity (vt_edge t))")
    case (Some e)
    with edge_lookup [OF assms(1)] Inr show thesis
      by (intro Duplicate [of t e]) (simp_all add: settleEntry_def)
  next
    case None
    show thesis
    proof (cases "map_of (ls_nodesByHash st) (bytesToHex (pt_stateHash (vt_nextState t)))")
      case (Some n)
      then have "pt_stateHash (vt_nextState t) \<in> pt_stateHash ` set (nodesOf st)"
        using node_lookup(1) [OF assms(1) Some] by (metis image_eqI)
      with Inr None Some show thesis by (intro Collision [of t]) (simp_all add: settleEntry_def Let_def)
    next
      case fresh: None
      have "edgeIdentity (vt_edge t) \<notin> edgeIdentity ` set (ls_edges st)"
        using None assms(1) map_of_keyed_None [of edgeIdentity "ls_edges st"] unfolding mirrored_def by metis
      moreover have "pt_stateHash (vt_nextState t) \<notin> pt_stateHash ` set (nodesOf st)"
        using node_lookup(2) [OF assms(1)] fresh by simp
      ultimately show thesis
        by (intro Grow [OF Inr]) (simp_all add: settleEntry_def Inr Let_def None fresh update_fresh)
    qed
  qed
qed

lemma settleEntry_sound:
  assumes "sound L cx cert g st" "p \<in> set (nodesOf st)" "pt_stateHash p = pc_previousStateHash (ix_credential x)"
  shows "sound L cx cert g (settleEntry L cx cert p x st)"
proof -
  have "mirrored st" using assms(1) by (simp add: sound_def)
  then show ?thesis using assms(3)
  proof (cases rule: settleEntry_cases [where L = L and cx = cx and cert = cert])
    case (Grow t)
    with assms grown.extend [OF _ assms(2) Grow(1,2)] show ?thesis
      unfolding sound_def mirrored_def nodesOf_def by simp
  qed (use assms in \<open>simp_all add: sound_def mirrored_def nodesOf_def\<close>)
qed

lemma settleEntry_nodes:
  assumes "mirrored st" "pt_stateHash p = pc_previousStateHash (ix_credential x)"
  shows "set (nodesOf st) \<subseteq> set (nodesOf (settleEntry L cx cert p x st))"
    and "verifyStateTransition L cx cert p (ix_credential x) = Inr t \<Longrightarrow>
      pt_stateHash (vt_nextState t) \<in> pt_stateHash ` set (nodesOf (settleEntry L cx cert p x st))
      \<or> vt_edge t \<in> set (ls_edges st) \<or> edgeIdentity (vt_edge t) \<in> edgeIdentity ` set (ls_edges st)"
proof -
  show "set (nodesOf st) \<subseteq> set (nodesOf (settleEntry L cx cert p x st))"
    using assms
    by (cases rule: settleEntry_cases [where L = L and cx = cx and cert = cert]) (auto simp: nodesOf_def)
  show "verifyStateTransition L cx cert p (ix_credential x) = Inr t \<Longrightarrow>
      pt_stateHash (vt_nextState t) \<in> pt_stateHash ` set (nodesOf (settleEntry L cx cert p x st))
      \<or> vt_edge t \<in> set (ls_edges st) \<or> edgeIdentity (vt_edge t) \<in> edgeIdentity ` set (ls_edges st)"
    using assms
  proof (cases rule: settleEntry_cases [where L = L and cx = cx and cert = cert])
    case (Duplicate t' e)
    assume "verifyStateTransition L cx cert p (ix_credential x) = Inr t"
    with Duplicate show ?thesis by (metis image_eqI sum.inject(2))
  qed (auto simp: nodesOf_def)
qed

subsection \<open>Accounting\<close>

text \<open>The credentials a state has dealt with.\<close>

definition settledCredentials :: "LedgerState \<Rightarrow> PaymentCredential multiset" where
  "settledCredentials st = mset (map ed_credential (ls_edges st)) + mset (map dc_credential (ls_duplicates st)) +
     mset (map rc_credential (ls_invalid st))"

lemma settledCredentials_reject [simp]:
  "settledCredentials (rejectEntry x r st) = add_mset (ix_credential x) (settledCredentials st)"
  by (simp add: settledCredentials_def rejectEntry_def)

lemma settledCredentials_entry:
  assumes "mirrored st" "pt_stateHash p = pc_previousStateHash (ix_credential x)"
  shows "settledCredentials (settleEntry L cx cert p x st) = add_mset (ix_credential x) (settledCredentials st)"
  using assms
proof (cases rule: settleEntry_cases [where L = L and cx = cx and cert = cert])
  case (Grow t)
  with transition_edge(1) [OF Grow(1)] show ?thesis by (simp add: settledCredentials_def)
qed (simp_all add: settledCredentials_def rejectEntry_def)

section \<open>Rounds\<close>

text \<open>A transition of \<open>c\<close> from a node is answered for: the node it leads to exists.\<close>

definition answered :: "lib \<Rightarrow> ProtocolTrustContext \<Rightarrow> SessionCertificate \<Rightarrow> LedgerState \<Rightarrow> PaymentCredential \<Rightarrow> bool" where
  "answered L cx cert st c \<longleftrightarrow> (\<forall>p \<in> set (nodesOf st). \<forall>t. verifyStateTransition L cx cert p c = Inr t \<longrightarrow>
     pt_stateHash (vt_nextState t) \<in> pt_stateHash ` set (nodesOf st))"

lemma sound_same_node:
  "sound L cx cert g st \<Longrightarrow> p \<in> set (nodesOf st) \<Longrightarrow> q \<in> set (nodesOf st) \<Longrightarrow> pt_stateHash p = pt_stateHash q \<Longrightarrow> p = q"
  using grown_distinct [of L cx cert g "nodesOf st" "ls_edges st"]
  by (auto simp: sound_def distinct_map dest: inj_onD)

lemma sound_child_node:
  assumes "sound L cx cert g st" "e \<in> set (ls_edges st)"
  shows "ed_childStateHash e \<in> pt_stateHash ` set (nodesOf st)"
  using grown_hashes [of L cx cert g "nodesOf st" "ls_edges st"] assms
  by (metis image_eqI image_set list.set_intros(2) set_map sound_def)

lemma transition_parent: "verifyStateTransition L cx cert p c = Inr t \<Longrightarrow> pt_stateHash p = pc_previousStateHash c"
  by (auto simp: verifyStateTransition_iff dest!: validate_spends simp: spends_def)

lemma answered_mono:
  assumes "answered L cx cert st c" "sound L cx cert g st'" "set (nodesOf st) \<subseteq> set (nodesOf st')"
    and "pc_previousStateHash c \<in> pt_stateHash ` set (nodesOf st)"
  shows "answered L cx cert st' c"
  unfolding answered_def
proof (intro ballI allI impI)
  fix p t assume p: "p \<in> set (nodesOf st')" "verifyStateTransition L cx cert p c = Inr t"
  obtain q where q: "q \<in> set (nodesOf st)" "pc_previousStateHash c = pt_stateHash q" using assms(4) by auto
  with p assms(2,3) transition_parent [OF p(2)] have "p = q" by (auto intro: sound_same_node)
  with assms(1,3) p q show "pt_stateHash (vt_nextState t) \<in> pt_stateHash ` set (nodesOf st')"
    unfolding answered_def by blast
qed

lemma settleEntry_answered:
  assumes "sound L cx cert g st" "p \<in> set (nodesOf st)" "pt_stateHash p = pc_previousStateHash (ix_credential x)"
  shows "answered L cx cert (settleEntry L cx cert p x st) (ix_credential x)"
  unfolding answered_def
proof (intro ballI allI impI)
  let ?st = "settleEntry L cx cert p x st"
  note sound' = settleEntry_sound [OF assms]
  have m: "mirrored st" using assms(1) by (simp add: sound_def)
  note mono = settleEntry_nodes(1) [OF m assms(3), of L cx cert]
  fix q t assume q: "q \<in> set (nodesOf ?st)" "verifyStateTransition L cx cert q (ix_credential x) = Inr t"
  with transition_parent [OF q(2)] assms(2,3) mono have "q = p" by (intro sound_same_node [OF sound']) auto
  with q settleEntry_nodes(2) [OF m assms(3)]
  consider "pt_stateHash (vt_nextState t) \<in> pt_stateHash ` set (nodesOf ?st)"
    | e where "e \<in> set (ls_edges st)" "edgeIdentity e = edgeIdentity (vt_edge t)" by fastforce
  then show "pt_stateHash (vt_nextState t) \<in> pt_stateHash ` set (nodesOf ?st)"
  proof cases
    case 2
    with sound_child_node [OF assms(1) 2(1)] transition_edge(3) [OF q(2)] mono show ?thesis
      by (auto simp: edgeIdentity_inject)
  qed
qed

lemma settleRound_spec:
  assumes "settleRound L cx cert pending progressed waiting st = (progressed', waiting', st')" "sound L cx cert g st"
  shows "sound L cx cert g st'" "set (nodesOf st) \<subseteq> set (nodesOf st')"
    "settledCredentials st' + mset (map ix_credential waiting') =
       settledCredentials st + mset (map ix_credential waiting) + mset (map ix_credential pending)"
    "set waiting' \<subseteq> set waiting \<union> set pending"
    "\<forall>x \<in> set pending. x \<in> set waiting' \<or>
       (answered L cx cert st' (ix_credential x) \<and> pc_previousStateHash (ix_credential x) \<in> pt_stateHash ` set (nodesOf st'))"
    "\<not> progressed' \<Longrightarrow> \<not> progressed \<and> st' = st \<and> waiting' = waiting @ pending \<and>
       (\<forall>x \<in> set pending. pc_previousStateHash (ix_credential x) \<notin> pt_stateHash ` set (nodesOf st))"
    "set waiting \<subseteq> set waiting'"
proof -
  have "sound L cx cert g st' \<and> set (nodesOf st) \<subseteq> set (nodesOf st') \<and>
    settledCredentials st' + mset (map ix_credential waiting') =
       settledCredentials st + mset (map ix_credential waiting) + mset (map ix_credential pending) \<and>
    set waiting' \<subseteq> set waiting \<union> set pending \<and>
    (\<forall>x \<in> set pending. x \<in> set waiting' \<or>
       (answered L cx cert st' (ix_credential x) \<and> pc_previousStateHash (ix_credential x) \<in> pt_stateHash ` set (nodesOf st'))) \<and>
    (\<not> progressed' \<longrightarrow> \<not> progressed \<and> st' = st \<and> waiting' = waiting @ pending \<and>
       (\<forall>x \<in> set pending. pc_previousStateHash (ix_credential x) \<notin> pt_stateHash ` set (nodesOf st))) \<and>
    set waiting \<subseteq> set waiting'"
    using assms
  proof (induction L cx cert pending progressed waiting st rule: settleRound.induct)
    case (2 L cx cert x pending progressed waiting st)
    have m: "mirrored st" using 2(4) by (simp add: sound_def)
    show ?case
    proof (cases "map_of (ls_nodesByHash st) (bytesToHex (pc_previousStateHash (ix_credential x)))")
      case None
      with 2 node_lookup(2) [OF m] show ?thesis by (auto simp: ac_simps)
    next
      case (Some p)
      note p = node_lookup(1) [OF m Some]
      let ?st = "settleEntry L cx cert p x st"
      note step = settleEntry_sound [OF 2(4), of p x] settleEntry_answered [OF 2(4), of p x]
        settleEntry_nodes(1) [OF m, of p x L cx cert] settledCredentials_entry [OF m, of p x L cx cert]
      from 2(2) [OF Some _ step(1)] 2(3) Some p
      have IH: "sound L cx cert g st'" "set (nodesOf ?st) \<subseteq> set (nodesOf st')"
        "settledCredentials st' + mset (map ix_credential waiting') =
          settledCredentials ?st + mset (map ix_credential waiting) + mset (map ix_credential pending)"
        "set waiting' \<subseteq> set waiting \<union> set pending"
        "\<forall>x \<in> set pending. x \<in> set waiting' \<or> (answered L cx cert st' (ix_credential x) \<and>
           pc_previousStateHash (ix_credential x) \<in> pt_stateHash ` set (nodesOf st'))" "progressed'"
        "set waiting \<subseteq> set waiting'"
        by auto
      have known: "pc_previousStateHash (ix_credential x) \<in> pt_stateHash ` set (nodesOf ?st)"
        using p step(3) by force
      have "answered L cx cert st' (ix_credential x)"
        by (rule answered_mono [OF step(2) IH(1,2) known]) (use p in auto)
      with IH step p known show ?thesis by (auto simp: ac_simps)
    qed
  qed simp
  then show "sound L cx cert g st'" "set (nodesOf st) \<subseteq> set (nodesOf st')"
    "settledCredentials st' + mset (map ix_credential waiting') =
       settledCredentials st + mset (map ix_credential waiting) + mset (map ix_credential pending)"
    "set waiting' \<subseteq> set waiting \<union> set pending"
    "\<forall>x \<in> set pending. x \<in> set waiting' \<or>
       (answered L cx cert st' (ix_credential x) \<and> pc_previousStateHash (ix_credential x) \<in> pt_stateHash ` set (nodesOf st'))"
    "\<not> progressed' \<Longrightarrow> \<not> progressed \<and> st' = st \<and> waiting' = waiting @ pending \<and>
       (\<forall>x \<in> set pending. pc_previousStateHash (ix_credential x) \<notin> pt_stateHash ` set (nodesOf st))"
    "set waiting \<subseteq> set waiting'"
    by blast+
qed

lemma reject_all:
  "sound L cx cert g (fold (\<lambda>x. rejectEntry x r) xs st) = sound L cx cert g st"
  "nodesOf (fold (\<lambda>x. rejectEntry x r) xs st) = nodesOf st"
  "ls_edges (fold (\<lambda>x. rejectEntry x r) xs st) = ls_edges st"
  "settledCredentials (fold (\<lambda>x. rejectEntry x r) xs st) = settledCredentials st + mset (map ix_credential xs)"
  by (induction xs arbitrary: st) (simp_all add: ac_simps)

text \<open>
  \<open>settle\<close> ends in a sound state, accounts for every pending credential, and leaves no valid
  transition of a pending credential unanswered.
\<close>

lemma settle_spec:
  assumes "sound L cx cert g st"
  shows "sound L cx cert g (settle L cx cert pending st) \<and> set (nodesOf st) \<subseteq> set (nodesOf (settle L cx cert pending st)) \<and>
    settledCredentials (settle L cx cert pending st) = settledCredentials st + mset (map ix_credential pending) \<and>
    (\<forall>x \<in> set pending. answered L cx cert (settle L cx cert pending st) (ix_credential x))"
  using assms
proof (induction L cx cert pending st rule: settle.induct)
  case (1 L cx cert pending st)
  show ?case
  proof (cases "pending = []")
    case True
    with 1 show ?thesis by (simp add: settle.simps)
  next
    case False
    obtain progressed waiting st' where r: "settleRound L cx cert pending False [] st = (progressed, waiting, st')"
      by (metis prod_cases3)
    note spec = settleRound_spec [OF r 1(2)]
    show ?thesis
    proof (cases progressed)
      case False
      note stuck = spec(6) [OF this]
      have eq: "settle L cx cert pending st = fold (\<lambda>x. rejectEntry x ''INVALID_PARENT'') pending st"
        using stuck r \<open>pending \<noteq> []\<close> False by (subst settle.simps) simp
      have "answered L cx cert st (ix_credential x)" if "x \<in> set pending" for x
        unfolding answered_def
      proof (intro ballI allI impI)
        fix p t assume "p \<in> set (nodesOf st)" "verifyStateTransition L cx cert p (ix_credential x) = Inr t"
        with stuck that transition_parent [of L cx cert p "ix_credential x" t]
        show "pt_stateHash (vt_nextState t) \<in> pt_stateHash ` set (nodesOf st)" by (metis image_eqI)
      qed
      with 1(2) show ?thesis by (simp add: eq reject_all answered_def)
    next
      case True
      have eq: "settle L cx cert pending st = settle L cx cert waiting st'"
        using r \<open>pending \<noteq> []\<close> True by (subst settle.simps) simp
      have IH: "sound L cx cert g (settle L cx cert waiting st')"
        "set (nodesOf st') \<subseteq> set (nodesOf (settle L cx cert waiting st'))"
        "settledCredentials (settle L cx cert waiting st') = settledCredentials st' + mset (map ix_credential waiting)"
        "\<forall>x \<in> set waiting. answered L cx cert (settle L cx cert waiting st') (ix_credential x)"
        using 1(1) [OF \<open>pending \<noteq> []\<close> r [symmetric] refl _ spec(1)] True by auto
      have "answered L cx cert (settle L cx cert waiting st') (ix_credential x)" if "x \<in> set pending" for x
        using spec(5) that IH(4) answered_mono [OF _ IH(1,2)] by blast
      with IH spec(2,3) show ?thesis by (auto simp: eq)
    qed
  qed
qed

section \<open>Intake\<close>

definition indexed :: "lib \<Rightarrow> PaymentCredential \<Rightarrow> IndexedCredential" where
  "indexed L c = \<lparr>ix_credential = c, ix_credentialHash = projr (credentialHash L c),
     ix_credentialHashHex = bytesToHex (projr (credentialHash L c))\<rparr>"

definition intakeSound :: "lib \<Rightarrow> PaymentCredential set \<Rightarrow> Intake \<Rightarrow> bool" where
  "intakeSound L C it \<longleftrightarrow>
     (\<forall>(k, x) \<in> set (it_representatives it). ix_credential x \<in> C \<and> isOk (credentialHash L (ix_credential x)) \<and>
        x = indexed L (ix_credential x) \<and> k = ix_credentialHashHex x) \<and>
     distinct (map fst (it_representatives it))"

lemma intakeStep_sound:
  assumes "intakeSound L C it"
  shows "intakeSound L (insert c C) (intakeStep L c it)"
proof (cases "credentialHash L c")
  case (Inl e)
  with assms show ?thesis by (auto simp: intakeSound_def intakeStep_def)
next
  case (Inr h)
  show ?thesis
  proof (cases "map_of (it_representatives it) (bytesToHex h)")
    case None
    then have "bytesToHex h \<notin> fst ` set (it_representatives it)" by (simp add: map_of_eq_None_iff)
    with assms Inr None show ?thesis
      by (auto simp: intakeSound_def intakeStep_def Let_def update_fresh indexed_def)
  next
    case (Some x)
    with assms Inr show ?thesis by (auto simp: intakeSound_def intakeStep_def Let_def)
  qed
qed

definition intakeCredentials :: "Intake \<Rightarrow> PaymentCredential multiset" where
  "intakeCredentials it = mset (map (ix_credential \<circ> snd) (it_representatives it)) +
     mset (map dc_credential (it_duplicates it)) + mset (map rc_credential (it_invalid it))"

lemma intakeStep_credentials:
  "intakeCredentials (intakeStep L c it) = add_mset c (intakeCredentials it)"
  by (auto simp: intakeCredentials_def intakeStep_def Let_def update_fresh split: sum.split option.split)

lemma intake_sound: "intakeSound L (set cs) (intake L cs)"
proof -
  have "intakeSound L C it \<Longrightarrow> intakeSound L (C \<union> set cs) (fold (intakeStep L) cs it)" for C it
  proof (induction cs arbitrary: C it)
    case (Cons c cs)
    from Cons.IH [OF intakeStep_sound [OF Cons.prems, of c]] show ?case by simp
  qed simp
  from this [of "{}" "\<lparr>it_representatives = [], it_duplicates = [], it_invalid = []\<rparr>"]
  show ?thesis by (simp add: intake_def) (simp add: intakeSound_def)
qed

lemma intake_credentials: "intakeCredentials (intake L cs) = mset cs"
proof -
  have "intakeCredentials (fold (intakeStep L) cs it) = intakeCredentials it + mset cs" for it
    by (induction cs arbitrary: it) (simp_all add: intakeStep_credentials)
  then show ?thesis by (simp add: intake_def intakeCredentials_def)
qed

text \<open>Every input with a canonical hash has a representative with that hash.\<close>

lemma intake_represented:
  assumes "c \<in> set cs" "credentialHash L c = Inr h"
  shows "\<exists>x. (bytesToHex h, x) \<in> set (it_representatives (intake L cs))"
proof -
  have mono: "map_of (it_representatives (intakeStep L d it)) k \<noteq> None" if "map_of (it_representatives it) k \<noteq> None" for d it k
    using that by (auto simp: intakeStep_def Let_def update_conv' split: sum.split option.split)
  have step: "map_of (it_representatives (intakeStep L c it)) (bytesToHex h) \<noteq> None" for it
    using assms(2) by (auto simp: intakeStep_def Let_def update_conv' split: option.split)
  have fold: "map_of (it_representatives it) k \<noteq> None \<Longrightarrow> map_of (it_representatives (fold (intakeStep L) ds it)) k \<noteq> None" for it k ds
  proof (induction ds arbitrary: it)
    case (Cons d ds)
    from Cons.IH [OF mono [OF Cons.prems]] show ?case by simp
  qed simp
  have "map_of (it_representatives (fold (intakeStep L) cs it)) (bytesToHex h) \<noteq> None" for it
    using assms(1)
  proof (induction cs arbitrary: it)
    case (Cons d ds)
    then show ?case using fold [OF step] by auto
  qed simp
  then show ?thesis by (auto simp: intake_def dest: map_of_SomeD)
qed

section \<open>The graph\<close>

lemma createLedgerGenesis_iff:
  "createLedgerGenesis L cx cert = Inr g \<longleftrightarrow> trustedCertificate L cx cert \<and>
     0 < sc_branchSpendingLimit cert \<and> sc_maxBranchDepth cert = 32 \<and> sc_issuedAt cert < sc_expiresAt cert \<and>
     genesisStateHash L (genesisOf cx cert) = Inr (sc_genesisStateHash cert) \<and>
     g = \<lparr>pt_stateHash = sc_genesisStateHash cert, pt_sequence = 0, pt_remaining = sc_branchSpendingLimit cert,
          lg_state = genesisOf cx cert\<rparr>"
  by (auto simp: createLedgerGenesis_def bindE_Inr_iff assertCertificateContext_iff createGenesisState_iff)

definition genesisNode :: "SessionCertificate \<Rightarrow> StateNode" where
  "genesisNode cert = \<lparr>pt_stateHash = sc_genesisStateHash cert, pt_sequence = 0,
     pt_remaining = sc_branchSpendingLimit cert, nd_incomingCredentialHash = None\<rparr>"

definition pendingOf :: "lib \<Rightarrow> PaymentCredential list \<Rightarrow> IndexedCredential list" where
  "pendingOf L cs = sortBy (\<lambda>left right. compareText (ix_credentialHashHex left) (ix_credentialHashHex right))
     (map snd (it_representatives (intake L cs)))"

definition startState :: "lib \<Rightarrow> SessionCertificate \<Rightarrow> PaymentCredential list \<Rightarrow> LedgerState" where
  "startState L cert cs = \<lparr>ls_nodesByHash = [(bytesToHex (sc_genesisStateHash cert), genesisNode cert)],
     ls_acceptedEdges = [], ls_edges = [], ls_duplicates = it_duplicates (intake L cs), ls_invalid = it_invalid (intake L cs)\<rparr>"

definition finalState :: "lib \<Rightarrow> BuildStateGraphInput \<Rightarrow> LedgerState" where
  "finalState L i = settle L (in_context i) (in_sessionCertificate i) (pendingOf L (in_credentials i))
     (startState L (in_sessionCertificate i) (in_credentials i))"

text \<open>The certificate side of the input alone decides whether there is a graph.\<close>

definition buildable :: "lib \<Rightarrow> BuildStateGraphInput \<Rightarrow> bool" where
  "buildable L i \<longleftrightarrow>
     validateCertificateChain L (in_context i) (in_sessionCertificate i) (in_deviceAuthorization i) = Inr () \<and>
     genesisStateHash L (genesisOf (in_context i) (in_sessionCertificate i)) = Inr (sc_genesisStateHash (in_sessionCertificate i))"

lemma buildStateGraph_iff:
  "buildStateGraph L i = Inr g \<longleftrightarrow> buildable L i \<and> g =
     \<lparr>sg_sessionId = sc_sessionId (in_sessionCertificate i),
      sg_genesis = \<lparr>pt_stateHash = sc_genesisStateHash (in_sessionCertificate i), pt_sequence = 0,
        pt_remaining = sc_branchSpendingLimit (in_sessionCertificate i),
        lg_state = genesisOf (in_context i) (in_sessionCertificate i)\<rparr>,
      sg_nodes = sortBy compareNodes (nodesOf (finalState L i)), sg_edges = sortBy compareEdges (ls_edges (finalState L i)),
      sg_invalidCredentials = sortBy compareRejected (ls_invalid (finalState L i)),
      sg_duplicateCredentials = sortBy compareDuplicates (ls_duplicates (finalState L i)),
      sg_forks = detectForksFromVerifiedEdges (sc_sessionId (in_sessionCertificate i))
        (sortBy compareEdges (ls_edges (finalState L i)))\<rparr>"
  by (auto simp: buildStateGraph_def bindE_Inr_iff createLedgerGenesis_iff buildable_def Let_def finalState_def
      pendingOf_def startState_def nodesOf_def genesisNode_def validateCertificateChain_iff soundTerms_def)

lemma startState_sound: "sound L cx cert (genesisNode cert) (startState L cert cs)"
  by (simp add: sound_def mirrored_def nodesOf_def startState_def genesisNode_def grown.genesis)

lemma finalState_sound:
  "sound L (in_context i) (in_sessionCertificate i) (genesisNode (in_sessionCertificate i)) (finalState L i)"
  unfolding finalState_def using settle_spec [OF startState_sound] by blast

lemma finalState_grown:
  "grown L (in_context i) (in_sessionCertificate i) (genesisNode (in_sessionCertificate i))
     (nodesOf (finalState L i)) (ls_edges (finalState L i))"
  using finalState_sound by (simp add: sound_def)

lemma finalState_accounts: "settledCredentials (finalState L i) = mset (in_credentials i)"
proof -
  have "settledCredentials (finalState L i) =
      settledCredentials (startState L (in_sessionCertificate i) (in_credentials i)) +
      mset (map ix_credential (pendingOf L (in_credentials i)))"
    unfolding finalState_def using settle_spec [OF startState_sound] by blast
  also have "mset (map ix_credential (pendingOf L (in_credentials i))) =
      mset (map (ix_credential \<circ> snd) (it_representatives (intake L (in_credentials i))))"
    by (simp add: pendingOf_def multiset.map_comp comp_def)
  finally show ?thesis
    using intake_credentials [of L "in_credentials i"]
    by (simp add: settledCredentials_def startState_def intakeCredentials_def ac_simps)
qed

lemma finalState_answered:
  assumes "c \<in> set (in_credentials i)" "credentialHash L c = Inr h"
  shows "\<exists>d \<in> set (in_credentials i). credentialHash L d = Inr h \<and>
    answered L (in_context i) (in_sessionCertificate i) (finalState L i) d"
proof -
  obtain x where x: "(bytesToHex h, x) \<in> set (it_representatives (intake L (in_credentials i)))"
    using intake_represented [OF assms] by blast
  then have d: "ix_credential x \<in> set (in_credentials i)" "isOk (credentialHash L (ix_credential x))"
    and eq: "x = indexed L (ix_credential x)" "bytesToHex h = ix_credentialHashHex x"
    using intake_sound [of L "in_credentials i"] unfolding intakeSound_def by blast+
  have "ix_credentialHashHex x = bytesToHex (projr (credentialHash L (ix_credential x)))"
    by (subst eq(1)) (simp add: indexed_def)
  with eq(2) d(2) have "credentialHash L (ix_credential x) = Inr h" by (auto simp: isOk_iff)
  moreover have "x \<in> set (pendingOf L (in_credentials i))"
    using x by (force simp: pendingOf_def)
  then have "answered L (in_context i) (in_sessionCertificate i) (finalState L i) (ix_credential x)"
    unfolding finalState_def using settle_spec [OF startState_sound] by blast
  ultimately show ?thesis using d(1) by blast
qed

end
