(* ===== verification/LedgerOrder.thy ===== *)
theory LedgerOrder
  imports LedgerFacts
begin

text \<open>
  The graph \<open>packages/offline-ledger\<close> builds does not depend on the order of the credentials:
  every comparator it sorts with is consistent (\<open>comparator\<close>), the first pass yields the same
  sorted work list for every permutation, and the loop ignores what the result lists already hold.
\<close>

section \<open>The orders are consistent\<close>

lemma orElse_0 [simp]: "orElse a b = 0 \<longleftrightarrow> a = 0 \<and> b = 0"
  by (simp add: orElse_def)

lemmas comparator_intros =
  comparator_key [OF comparator_int] comparator_key [OF byte_order.comparator_axioms]
  comparator_key [OF text_order.comparator_axioms] comparator_orElse

interpretation edge_order: comparator compareEdges
  unfolding compareEdges_def [abs_def] by (intro comparator_intros)

interpretation node_order: comparator compareNodes
  unfolding compareNodes_def [abs_def] by (intro comparator_intros)

interpretation duplicate_order: comparator compareDuplicates
  unfolding compareDuplicates_def [abs_def] by (intro comparator_intros)

interpretation fork_order: comparator "\<lambda>l r. orElse (compareBytes (fp_parentStateHash l) (fp_parentStateHash r))
    (fp_sequence l - fp_sequence r)"
  by (intro comparator_intros)

interpretation hashed_order: comparator "\<lambda>l r. orElse (compareBytes (the (rc_credentialHash l)) (the (rc_credentialHash r)))
    (compareText (rc_reason l) (rc_reason r))"
  by (intro comparator_intros)

interpretation malformed_order: comparator "\<lambda>l r. orElse
    (compareText (diagnosticCredentialKey (rc_credential l)) (diagnosticCredentialKey (rc_credential r)))
    (compareText (rc_reason l) (rc_reason r))"
  by (intro comparator_intros)

lemma compareRejected_alt:
  "compareRejected l r =
    (if rc_credentialHash l \<noteq> None \<and> rc_credentialHash r \<noteq> None
     then orElse (compareBytes (the (rc_credentialHash l)) (the (rc_credentialHash r))) (compareText (rc_reason l) (rc_reason r))
     else if rc_credentialHash l \<noteq> None then -1 else if rc_credentialHash r \<noteq> None then 1
     else orElse (compareText (diagnosticCredentialKey (rc_credential l)) (diagnosticCredentialKey (rc_credential r)))
       (compareText (rc_reason l) (rc_reason r)))"
  by (auto simp: compareRejected_def split: option.split)

interpretation rejected_order: comparator compareRejected
proof
  fix x y z :: RejectedCredential
  show "0 \<le> compareRejected y x \<longleftrightarrow> compareRejected x y \<le> 0"
    using hashed_order.swap [of y x] malformed_order.swap [of y x] by (simp add: compareRejected_alt)
  show "compareRejected x y \<le> 0 \<Longrightarrow> compareRejected y z \<le> 0 \<Longrightarrow> compareRejected x z \<le> 0"
    using hashed_order.trans [of x y z] malformed_order.trans [of x y z]
    by (auto simp: compareRejected_alt split: if_splits)
qed

lemma compareEdges_0: "compareEdges a b = 0 \<Longrightarrow> ed_childStateHash a = ed_childStateHash b"
  by (simp add: compareEdges_def)

lemma compareNodes_0: "compareNodes a b = 0 \<Longrightarrow> pt_stateHash a = pt_stateHash b"
  by (simp add: compareNodes_def)

subsection \<open>Sorting in blocks\<close>

lemma insertBy_before: "\<forall>b \<in> set bs. cmp x b \<le> 0 \<Longrightarrow> insertBy cmp x (as @ bs) = insertBy cmp x as @ bs"
  by (induction as) (cases bs; auto)+

lemma sortBy_append_before:
  "\<forall>a \<in> set as. \<forall>b \<in> set bs. cmp a b \<le> 0 \<Longrightarrow> sortBy cmp (as @ bs) = sortBy cmp as @ sortBy cmp bs"
  by (induction as) (auto simp: insertBy_before)

lemma insertBy_after: "\<forall>b \<in> set bs. 0 < cmp x b \<Longrightarrow> insertBy cmp x (bs @ as) = bs @ insertBy cmp x as"
  by (induction bs) auto

lemma sortBy_append_after:
  "\<forall>a \<in> set as. \<forall>b \<in> set bs. 0 < cmp a b \<Longrightarrow> sortBy cmp (as @ bs) = sortBy cmp bs @ sortBy cmp as"
  by (induction as) (auto simp: insertBy_after)

section \<open>Independence of the input order\<close>

text \<open>What the loop adds to the lists does not depend on what they already hold.\<close>

definition prepend :: "DuplicateCredential list \<Rightarrow> RejectedCredential list \<Rightarrow> LedgerState \<Rightarrow> LedgerState" where
  "prepend D V st = st\<lparr>ls_duplicates := D @ ls_duplicates st, ls_invalid := V @ ls_invalid st\<rparr>"

lemma prepend_simps [simp]:
  "ls_nodesByHash (prepend D V st) = ls_nodesByHash st" "ls_acceptedEdges (prepend D V st) = ls_acceptedEdges st"
  "ls_edges (prepend D V st) = ls_edges st" "nodesOf (prepend D V st) = nodesOf st"
  "ls_duplicates (prepend D V st) = D @ ls_duplicates st" "ls_invalid (prepend D V st) = V @ ls_invalid st"
  by (simp_all add: prepend_def nodesOf_def)

lemma prepend_reject: "rejectEntry x r (prepend D V st) = prepend D V (rejectEntry x r st)"
  by (simp add: rejectEntry_def prepend_def)

lemma prepend_settleEntry: "settleEntry L cx cert p x (prepend D V st) = prepend D V (settleEntry L cx cert p x st)"
  by (cases "verifyStateTransition L cx cert p (ix_credential x)")
    (auto simp: settleEntry_def prepend_reject Let_def split: option.split)

lemma prepend_settleRound:
  "settleRound L cx cert pending progressed waiting (prepend D V st) =
     (let (b, w, s) = settleRound L cx cert pending progressed waiting st in (b, w, prepend D V s))"
  by (induction L cx cert pending progressed waiting st rule: settleRound.induct)
    (auto simp: prepend_settleEntry split: option.split prod.split)

lemma prepend_fold: "fold (\<lambda>x. rejectEntry x r) xs (prepend D V st) = prepend D V (fold (\<lambda>x. rejectEntry x r) xs st)"
  by (induction xs arbitrary: st) (simp_all add: prepend_reject)

lemma settle_Nil [simp]: "settle L cx cert [] st = st"
  by (simp add: settle.simps)

lemma prepend_settle: "settle L cx cert pending (prepend D V st) = prepend D V (settle L cx cert pending st)"
proof (induction L cx cert pending st rule: settle.induct)
  case (1 L cx cert pending st)
  obtain progressed waiting st' where r: "settleRound L cx cert pending False [] st = (progressed, waiting, st')"
    by (metis prod_cases3)
  show ?case
    using 1 [OF _ r [symmetric] refl]
    by (cases "pending = []"; cases progressed)
      (simp_all add: settle.simps [of L cx cert pending] r prepend_settleRound prepend_fold)
qed

text \<open>The loop itself only reports equivalent edges and credentials with a hash.\<close>

definition tagged :: "LedgerState \<Rightarrow> bool" where
  "tagged st \<longleftrightarrow> (\<forall>d \<in> set (ls_duplicates st). dc_reason d = DUPLICATE_STATE_EDGE) \<and>
     (\<forall>r \<in> set (ls_invalid st). rc_credentialHash r \<noteq> None)"

lemma tagged_reject: "tagged st \<Longrightarrow> tagged (rejectEntry x r st)"
  by (auto simp: tagged_def rejectEntry_def)

lemma tagged_settleEntry: "tagged st \<Longrightarrow> tagged (settleEntry L cx cert p x st)"
  by (auto simp: settleEntry_def Let_def tagged_reject split: sum.split option.split) (auto simp: tagged_def)

lemma tagged_settleRound:
  "settleRound L cx cert pending progressed waiting st = (b, w, s) \<Longrightarrow> tagged st \<Longrightarrow> tagged s"
  by (induction L cx cert pending progressed waiting st rule: settleRound.induct)
    (auto intro: tagged_settleEntry split: option.splits)

lemma tagged_fold: "tagged st \<Longrightarrow> tagged (fold (\<lambda>x. rejectEntry x r) xs st)"
  by (induction xs arbitrary: st) (simp_all add: tagged_reject)

lemma tagged_settle: "tagged st \<Longrightarrow> tagged (settle L cx cert pending st)"
proof (induction L cx cert pending st rule: settle.induct)
  case (1 L cx cert pending st)
  obtain progressed waiting st' where r: "settleRound L cx cert pending False [] st = (progressed, waiting, st')"
    by (metis prod_cases3)
  note t = tagged_settleRound [OF r 1(2)]
  show ?case
    using 1(1) [OF _ r [symmetric] refl _ t] 1(2) t
    by (cases "pending = []"; cases progressed) (simp_all add: settle.simps [of L cx cert pending] r tagged_fold)
qed

subsection \<open>The intake of a permuted input\<close>

definition rejectedOf :: "lib \<Rightarrow> PaymentCredential \<Rightarrow> RejectedCredential" where
  "rejectedOf L c = \<lparr>rc_credential = c, rc_credentialHash = None, rc_reason = errorCode (projl (credentialHash L c))\<rparr>"

definition duplicateOf :: "lib \<Rightarrow> PaymentCredential \<Rightarrow> DuplicateCredential" where
  "duplicateOf L c = \<lparr>dc_credential = c, dc_credentialHash = projr (credentialHash L c),
     dc_canonicalCredentialHash = projr (credentialHash L c), dc_reason = DUPLICATE_CREDENTIAL\<rparr>"

lemma intake_invalid: "it_invalid (intake L cs) = map (rejectedOf L) (filter (\<lambda>c. \<not> isOk (credentialHash L c)) cs)"
proof -
  have "it_invalid (fold (intakeStep L) cs it) = it_invalid it @ map (rejectedOf L) (filter (\<lambda>c. \<not> isOk (credentialHash L c)) cs)" for it
    by (induction cs arbitrary: it) (auto simp: intakeStep_def rejectedOf_def Let_def split: sum.split option.split)
  then show ?thesis by (simp add: intake_def)
qed

lemma intake_duplicates: "\<forall>d \<in> set (it_duplicates (intake L cs)). d = duplicateOf L (dc_credential d) \<and>
    dc_credential d \<in> set cs \<and> isOk (credentialHash L (dc_credential d))"
proof -
  have "intakeSound L C it \<Longrightarrow> \<forall>d \<in> set (it_duplicates it). d = duplicateOf L (dc_credential d) \<and>
      dc_credential d \<in> C \<and> isOk (credentialHash L (dc_credential d)) \<Longrightarrow>
    \<forall>d \<in> set (it_duplicates (fold (intakeStep L) cs it)). d = duplicateOf L (dc_credential d) \<and>
      dc_credential d \<in> C \<union> set cs \<and> isOk (credentialHash L (dc_credential d))" for C it
  proof (induction cs arbitrary: C it)
    case (Cons c cs)
    have "\<forall>d \<in> set (it_duplicates (intakeStep L c it)). d = duplicateOf L (dc_credential d) \<and>
      dc_credential d \<in> insert c C \<and> isOk (credentialHash L (dc_credential d))"
    proof (cases "credentialHash L c")
      case (Inr h)
      show ?thesis
      proof (cases "map_of (it_representatives it) (bytesToHex h)")
        case (Some x)
        then have x: "x = indexed L (ix_credential x)" "bytesToHex h = ix_credentialHashHex x"
          using Cons.prems(1) by (auto simp: intakeSound_def dest!: map_of_SomeD)
        then have "ix_credentialHash x = h" by (metis IndexedCredential.select_convs(2,3) bytesToHex_inject indexed_def)
        with Inr Some Cons.prems(2) show ?thesis by (auto simp: intakeStep_def Let_def duplicateOf_def)
      qed (use Inr Cons.prems(2) in \<open>auto simp: intakeStep_def Let_def\<close>)
    qed (use Cons.prems(2) in \<open>auto simp: intakeStep_def\<close>)
    from Cons.IH [OF intakeStep_sound [OF Cons.prems(1)] this] show ?case by simp
  qed simp
  from this [of "{}" "\<lparr>it_representatives = [], it_duplicates = [], it_invalid = []\<rparr>"]
  show ?thesis by (simp add: intake_def intakeSound_def)
qed

text \<open>SHA-256 does not collide on the encodings of the given credentials.\<close>

definition collisionFree :: "lib \<Rightarrow> PaymentCredential set \<Rightarrow> bool" where
  "collisionFree L C \<longleftrightarrow> borsh_ok L \<and> inj_on (sha256 L) {m. \<exists>c \<in> C. encodePaymentCredential L c = Inr m}"

lemma collisionFree_inject:
  "collisionFree L C \<Longrightarrow> c \<in> C \<Longrightarrow> d \<in> C \<Longrightarrow> credentialHash L c = Inr h \<Longrightarrow> credentialHash L d = Inr h \<Longrightarrow> c = d"
  using credentialHash_inject [of L c h d "{m. \<exists>c \<in> C. encodePaymentCredential L c = Inr m}"]
  by (auto simp: collisionFree_def)

lemma representatives_set:
  assumes "collisionFree L (set cs)"
  shows "set (map snd (it_representatives (intake L cs))) = indexed L ` {c \<in> set cs. isOk (credentialHash L c)}"
proof
  show "set (map snd (it_representatives (intake L cs))) \<subseteq> indexed L ` {c \<in> set cs. isOk (credentialHash L c)}"
    using intake_sound [of L cs] unfolding intakeSound_def by fastforce
  show "indexed L ` {c \<in> set cs. isOk (credentialHash L c)} \<subseteq> set (map snd (it_representatives (intake L cs)))"
  proof clarify
    fix c assume c: "c \<in> set cs" "isOk (credentialHash L c)"
    then obtain h where h: "credentialHash L c = Inr h" by (auto simp: isOk_iff)
    obtain x where x: "(bytesToHex h, x) \<in> set (it_representatives (intake L cs))"
      using intake_represented [OF c(1) h] by blast
    then have d: "ix_credential x \<in> set cs" "isOk (credentialHash L (ix_credential x))" "x = indexed L (ix_credential x)"
      "bytesToHex h = ix_credentialHashHex x"
      using intake_sound [of L cs] unfolding intakeSound_def by blast+
    then have "projr (credentialHash L (ix_credential x)) = h"
      by (metis IndexedCredential.select_convs(3) bytesToHex_inject indexed_def)
    with d(2) have "credentialHash L (ix_credential x) = Inr h" by (auto simp: isOk_iff)
    with collisionFree_inject [OF assms c(1) d(1) h] d(3) x
    show "indexed L c \<in> set (map snd (it_representatives (intake L cs)))" by force
  qed
qed

lemma representatives_distinct: "distinct (map snd (it_representatives (intake L cs)))"
proof -
  have "map fst (it_representatives (intake L cs)) = map ix_credentialHashHex (map snd (it_representatives (intake L cs)))"
    using intake_sound [of L cs] by (auto simp: intakeSound_def)
  then show ?thesis using intake_sound [of L cs] unfolding intakeSound_def by (metis distinct_map)
qed

lemma representatives_mset:
  assumes "collisionFree L (set cs)" "set cs = set cs'"
  shows "mset (map snd (it_representatives (intake L cs))) = mset (map snd (it_representatives (intake L cs')))"
proof -
  from assms show ?thesis
    using representatives_set [of L cs] representatives_set [of L cs'] representatives_distinct
    by (intro set_eq_iff_mset_eq_distinct [THEN iffD1]) simp_all
qed

lemma pendingOf_same_set:
  assumes "collisionFree L (set cs)" "set cs = set cs'"
  shows "pendingOf L cs = pendingOf L cs'"
  unfolding pendingOf_def
proof (rule comparator.sortBy_cong_mset)
  show "comparator (\<lambda>l r. compareText (ix_credentialHashHex l) (ix_credentialHashHex r))" by (intro comparator_intros)
  show "mset (map snd (it_representatives (intake L cs))) = mset (map snd (it_representatives (intake L cs')))"
    by (rule representatives_mset [OF assms])
  fix x y
  assume "x \<in> set (map snd (it_representatives (intake L cs)))" "y \<in> set (map snd (it_representatives (intake L cs)))"
    and eq: "compareText (ix_credentialHashHex x) (ix_credentialHashHex y) = 0"
  then obtain c d where cd: "c \<in> set cs" "d \<in> set cs" "isOk (credentialHash L c)" "isOk (credentialHash L d)"
    "x = indexed L c" "y = indexed L d"
    unfolding representatives_set [OF assms(1)] by blast
  with eq have "credentialHash L c = Inr (projr (credentialHash L c))" "credentialHash L d = Inr (projr (credentialHash L c))"
    by (auto simp: indexed_def isOk_iff)
  with collisionFree_inject [OF assms(1) cd(1,2)] cd show "x = y" by metis
qed

lemma intake_duplicates_mset:
  assumes "collisionFree L (set cs)" "mset cs = mset cs'"
  shows "mset (it_duplicates (intake L cs)) = mset (it_duplicates (intake L cs'))"
proof -
  have dups: "mset (it_duplicates (intake L ds)) = image_mset (duplicateOf L) (mset (map dc_credential (it_duplicates (intake L ds))))" for ds
  proof -
    have "map (duplicateOf L \<circ> dc_credential) (it_duplicates (intake L ds)) = it_duplicates (intake L ds)"
      using intake_duplicates [of L ds] by (intro map_idI) auto
    then show ?thesis by (metis map_map mset_map)
  qed
  have reps: "mset (map (ix_credential \<circ> snd) (it_representatives (intake L cs))) =
      mset (map (ix_credential \<circ> snd) (it_representatives (intake L cs')))"
    using representatives_mset [OF assms(1) mset_eq_setD [OF assms(2)]] by (metis map_map mset_map)
  have "mset (map rc_credential (it_invalid (intake L ds))) = filter_mset (\<lambda>c. \<not> isOk (credentialHash L c)) (mset ds)" for ds
    by (simp add: intake_invalid rejectedOf_def multiset.map_comp comp_def)
  then have inv: "mset (map rc_credential (it_invalid (intake L cs))) = mset (map rc_credential (it_invalid (intake L cs')))"
    by (simp add: assms(2))
  have "mset (map dc_credential (it_duplicates (intake L cs))) = mset (map dc_credential (it_duplicates (intake L cs')))"
    using trans [OF trans [OF intake_credentials assms(2)] intake_credentials [symmetric], of L L]
    unfolding intakeCredentials_def reps inv by simp
  then show ?thesis by (simp only: dups)
qed

lemma intake_invalid_mset: "mset cs = mset cs' \<Longrightarrow> mset (it_invalid (intake L cs)) = mset (it_invalid (intake L cs'))"
  by (simp add: intake_invalid)


lemma finalState_frame:
  "finalState L i = prepend (it_duplicates (intake L (in_credentials i))) (it_invalid (intake L (in_credentials i)))
     (settle L (in_context i) (in_sessionCertificate i) (pendingOf L (in_credentials i))
       (startState L (in_sessionCertificate i) []))"
proof -
  have "startState L cert cs = prepend (it_duplicates (intake L cs)) (it_invalid (intake L cs)) (startState L cert [])" for cert cs
    by (simp add: startState_def prepend_def intake_def)
  then show ?thesis unfolding finalState_def by (metis prepend_settle)
qed

lemma tagged_start: "tagged (startState L cert [])"
  by (simp add: tagged_def startState_def intake_def)

text \<open>The duplicate and the invalid list, block by block.\<close>

lemma compare_reasons:
  assumes "dc_reason a = DUPLICATE_CREDENTIAL" "dc_reason b = DUPLICATE_STATE_EDGE"
  shows "compareDuplicates a b \<le> 0"
proof -
  have "compareText ''DUPLICATE_CREDENTIAL'' ''DUPLICATE_STATE_EDGE'' = -1" by code_simp
  with assms show ?thesis by (simp only: compareDuplicates_def duplicateReasonText.simps orElse_def) simp
qed

lemma compare_hashless:
  "rc_credentialHash a = None \<Longrightarrow> rc_credentialHash b \<noteq> None \<Longrightarrow> 0 < compareRejected a b"
  by (simp add: compareRejected_alt)

lemma sorted_duplicates:
  assumes "tagged st" "\<forall>d \<in> set D. dc_reason d = DUPLICATE_CREDENTIAL"
  shows "sortBy compareDuplicates (ls_duplicates (prepend D V st)) =
    sortBy compareDuplicates D @ sortBy compareDuplicates (ls_duplicates st)"
  unfolding prepend_simps using assms
  by (intro sortBy_append_before) (blast intro: compare_reasons dest: tagged_def [THEN iffD1])

lemma sorted_invalid:
  assumes "tagged st" "\<forall>r \<in> set V. rc_credentialHash r = None"
  shows "sortBy compareRejected (ls_invalid (prepend D V st)) =
    sortBy compareRejected (ls_invalid st) @ sortBy compareRejected V"
  unfolding prepend_simps using assms
  by (intro sortBy_append_after) (blast intro: compare_hashless dest: tagged_def [THEN iffD1])

text \<open>Malformed credentials the diagnostic key tells apart.\<close>

definition diagnosable :: "lib \<Rightarrow> PaymentCredential set \<Rightarrow> bool" where
  "diagnosable L C \<longleftrightarrow> (\<forall>a \<in> C. \<forall>b \<in> C. \<not> isOk (credentialHash L a) \<longrightarrow> \<not> isOk (credentialHash L b) \<longrightarrow>
     diagnosticCredentialKey a = diagnosticCredentialKey b \<longrightarrow> a = b)"

lemma duplicates_sorted_alike:
  assumes "collisionFree L (set cs)" "mset cs = mset cs'"
  shows "sortBy compareDuplicates (it_duplicates (intake L cs)) = sortBy compareDuplicates (it_duplicates (intake L cs'))"
proof (rule duplicate_order.sortBy_cong_mset [OF intake_duplicates_mset [OF assms]])
  fix x y assume xy: "x \<in> set (it_duplicates (intake L cs))" "y \<in> set (it_duplicates (intake L cs))"
    "compareDuplicates x y = 0"
  then have x: "x = duplicateOf L (dc_credential x)" "dc_credential x \<in> set cs" "isOk (credentialHash L (dc_credential x))"
    and y: "y = duplicateOf L (dc_credential y)" "dc_credential y \<in> set cs" "isOk (credentialHash L (dc_credential y))"
    using intake_duplicates by blast+
  have "dc_credentialHash x = dc_credentialHash y" using xy(3) by (simp add: compareDuplicates_def)
  then have "projr (credentialHash L (dc_credential x)) = projr (credentialHash L (dc_credential y))"
    using x(1) y(1) by (metis DuplicateCredential.select_convs(2) duplicateOf_def)
  with collisionFree_inject [OF assms(1) x(2) y(2)] x(3) y(3) have "dc_credential x = dc_credential y"
    by (auto simp: isOk_iff)
  with x(1) y(1) show "x = y" by metis
qed

lemma invalid_sorted_alike:
  assumes "diagnosable L (set cs)" "mset cs = mset cs'"
  shows "sortBy compareRejected (it_invalid (intake L cs)) = sortBy compareRejected (it_invalid (intake L cs'))"
proof (rule rejected_order.sortBy_cong_mset [OF intake_invalid_mset [OF assms(2)]])
  fix x y assume xy: "x \<in> set (it_invalid (intake L cs))" "y \<in> set (it_invalid (intake L cs))" "compareRejected x y = 0"
  then obtain a b where ab: "a \<in> set cs" "b \<in> set cs" "\<not> isOk (credentialHash L a)" "\<not> isOk (credentialHash L b)"
    "x = rejectedOf L a" "y = rejectedOf L b"
    by (auto simp: intake_invalid)
  have "diagnosticCredentialKey a = diagnosticCredentialKey b"
    using xy(3) unfolding ab(5,6) by (simp add: compareRejected_alt rejectedOf_def)
  with assms(1) ab show "x = y" unfolding diagnosable_def by blast
qed

text \<open>Nodes, edges and forks depend on the set of credentials only.\<close>

lemma finalState_same_set:
  assumes "collisionFree L (set (in_credentials i))" "set cs = set (in_credentials i)"
  shows "nodesOf (finalState L (i\<lparr>in_credentials := cs\<rparr>)) = nodesOf (finalState L i)"
    and "ls_edges (finalState L (i\<lparr>in_credentials := cs\<rparr>)) = ls_edges (finalState L i)"
  using pendingOf_same_set [OF assms(1) assms(2) [symmetric]] by (simp_all add: finalState_frame)

lemma buildStateGraph_permuted:
  assumes "collisionFree L (set (in_credentials i))" "mset cs = mset (in_credentials i)" "buildStateGraph L i = Inr g"
  shows "\<exists>V. buildStateGraph L (i\<lparr>in_credentials := cs\<rparr>) = Inr (g\<lparr>sg_invalidCredentials := V\<rparr>) \<and>
    mset V = mset (sg_invalidCredentials g) \<and> (diagnosable L (set (in_credentials i)) \<longrightarrow> V = sg_invalidCredentials g)"
proof -
  let ?j = "i\<lparr>in_credentials := cs\<rparr>"
  let ?st = "settle L (in_context i) (in_sessionCertificate i) (pendingOf L (in_credentials i))
    (startState L (in_sessionCertificate i) [])"
  have pending: "pendingOf L cs = pendingOf L (in_credentials i)"
    by (rule pendingOf_same_set [OF assms(1) mset_eq_setD [OF assms(2) [symmetric]], symmetric])
  note fi = finalState_frame [of L i]
  have fj: "finalState L ?j = prepend (it_duplicates (intake L cs)) (it_invalid (intake L cs)) ?st"
    using finalState_frame [of L ?j] unfolding pending [symmetric] by simp
  have tag: "tagged ?st" by (rule tagged_settle [OF tagged_start])
  have reasons: "\<forall>d \<in> set (it_duplicates (intake L ds)). dc_reason d = DUPLICATE_CREDENTIAL" for ds
    using intake_duplicates [of L ds] by (metis DuplicateCredential.select_convs(4) duplicateOf_def)
  have hashless: "\<forall>r \<in> set (it_invalid (intake L ds)). rc_credentialHash r = None" for ds
    by (auto simp: intake_invalid rejectedOf_def)
  have dups: "sortBy compareDuplicates (ls_duplicates (finalState L ?j)) = sortBy compareDuplicates (ls_duplicates (finalState L i))"
    unfolding fi fj sorted_duplicates [OF tag reasons]
    using duplicates_sorted_alike [OF assms(1) assms(2) [symmetric]] by simp
  let ?V = "sortBy compareRejected (ls_invalid (finalState L ?j))"
  have "mset ?V = mset (sortBy compareRejected (ls_invalid (finalState L i)))"
    unfolding fi fj using intake_invalid_mset [OF assms(2)] by simp
  moreover have "diagnosable L (set (in_credentials i)) \<Longrightarrow> ?V = sortBy compareRejected (ls_invalid (finalState L i))"
    unfolding fi fj sorted_invalid [OF tag hashless]
    using invalid_sorted_alike [OF _ assms(2) [symmetric]] by simp
  moreover have "buildStateGraph L ?j = Inr (g\<lparr>sg_invalidCredentials := ?V\<rparr>)"
    using assms(3) dups by (auto simp: buildStateGraph_iff buildable_def fi fj)
  ultimately show ?thesis using assms(3) by (auto simp: buildStateGraph_iff)
qed

end
