(* ===== verification/Forks.thy ===== *)
theory Forks
  imports LedgerOrder
begin

text \<open>
  \<open>detectForks\<close> of \<open>packages/offline-ledger\<close> reports exactly the states with two different
  successors, once each, with all their successors in order. Nothing is assumed of the edges.
\<close>

section \<open>Groups\<close>

lemma groupEdge_lookup:
  "map_of (groupEdge e gs) k = (if k = forkKey e then Some (case map_of gs k of None \<Rightarrow> [e] | Some es \<Rightarrow> es @ [e]) else map_of gs k)"
  by (auto simp: groupEdge_def update_conv' split: option.split)

lemma groupEdge_keys: "distinct (map fst gs) \<Longrightarrow> distinct (map fst (groupEdge e gs))"
  by (auto simp: groupEdge_def distinct_update split: option.split)

lemma groups_lookup:
  "map_of (fold groupEdge es gs) k =
     (let new = filter (\<lambda>e. forkKey e = k) es
      in if new = [] then map_of gs k else Some (case map_of gs k of None \<Rightarrow> new | Some old \<Rightarrow> old @ new))"
  by (induction es arbitrary: gs) (auto simp: groupEdge_lookup Let_def split: option.split)

lemma groups_keys: "distinct (map fst gs) \<Longrightarrow> distinct (map fst (fold groupEdge es gs))"
  by (induction es arbitrary: gs) (auto simp: groupEdge_keys)

definition edgeGroup :: "StateEdge list \<Rightarrow> string \<Rightarrow> StateEdge list" where
  "edgeGroup es k = filter (\<lambda>e. forkKey e = k) es"

lemma groups_set: "set (fold groupEdge es []) = {(k, edgeGroup es k) |k. k \<in> forkKey ` set es}"
proof -
  have d: "distinct (map fst (fold groupEdge es []))" by (rule groups_keys) simp
  have "map_of (fold groupEdge es []) k = (if k \<in> forkKey ` set es then Some (edgeGroup es k) else None)" for k
    by (auto simp: groups_lookup Let_def edgeGroup_def filter_empty_conv)
  then have "(k, v) \<in> set (fold groupEdge es []) \<longleftrightarrow> k \<in> forkKey ` set es \<and> v = edgeGroup es k" for k v
    using map_of_eq_Some_iff [OF d, of k v] by (metis option.distinct(1) option.inject)
  then show ?thesis by auto
qed

section \<open>Children\<close>

definition addChild :: "StateEdge \<Rightarrow> (string \<times> StateEdge) list \<Rightarrow> (string \<times> StateEdge) list" where
  "addChild edge children = AList.update (bytesToHex (ed_childStateHash edge)) edge children"

lemma set_update:
  "set (AList.update k v al) \<subseteq> insert (k, v) (set al)" "fst ` set (AList.update k v al) = insert k (fst ` set al)"
  by (induction al) auto

definition childrenSound :: "StateEdge set \<Rightarrow> (string \<times> StateEdge) list \<Rightarrow> bool" where
  "childrenSound E m \<longleftrightarrow> distinct (map fst m) \<and> (\<forall>x \<in> set m. fst x = bytesToHex (ed_childStateHash (snd x)) \<and> snd x \<in> E) \<and>
     fst ` set m = (\<lambda>e. bytesToHex (ed_childStateHash e)) ` E"

lemma childrenSound_add:
  assumes "childrenSound E m"
  shows "childrenSound (insert e E) (addChild e m)"
proof -
  let ?k = "bytesToHex (ed_childStateHash e)"
  have "\<forall>x \<in> set (addChild e m). x = (?k, e) \<or> x \<in> set m"
    using set_update(1) [of ?k e m] by (auto simp: addChild_def)
  moreover have "fst ` set (addChild e m) = insert ?k (fst ` set m)" by (simp add: addChild_def set_update(2))
  moreover have "distinct (map fst (addChild e m))"
    using assms by (simp add: addChild_def childrenSound_def distinct_update)
  ultimately show ?thesis using assms unfolding childrenSound_def by fastforce
qed

lemma childrenSound_fold: "childrenSound E m \<Longrightarrow> childrenSound (E \<union> set es) (fold addChild es m)"
proof (induction es arbitrary: E m)
  case (Cons e es)
  from Cons.IH [OF childrenSound_add [OF Cons.prems, of e]] show ?case by simp
qed simp

lemma uniqueChildren_spec:
  "distinct (map ed_childStateHash (map snd (uniqueChildren es)))"
  "set (map ed_childStateHash (map snd (uniqueChildren es))) = ed_childStateHash ` set es"
  "set (map snd (uniqueChildren es)) \<subseteq> set es"
proof -
  have "childrenSound {} []" by (simp add: childrenSound_def)
  from childrenSound_fold [OF this, of es] have "childrenSound (set es) (uniqueChildren es)"
    by (simp add: uniqueChildren_def addChild_def [abs_def])
  then have spec: "distinct (map fst (uniqueChildren es))"
    "\<forall>x \<in> set (uniqueChildren es). fst x = bytesToHex (ed_childStateHash (snd x))"
    "snd ` set (uniqueChildren es) \<subseteq> set es"
    "fst ` set (uniqueChildren es) = (\<lambda>e. bytesToHex (ed_childStateHash e)) ` set es"
    unfolding childrenSound_def by blast+
  have keys: "map fst (uniqueChildren es) = map bytesToHex (map ed_childStateHash (map snd (uniqueChildren es)))"
    using spec(2) by auto
  with spec(1) show "distinct (map ed_childStateHash (map snd (uniqueChildren es)))" by (metis distinct_map)
  have "bytesToHex ` set (map ed_childStateHash (map snd (uniqueChildren es))) = bytesToHex ` ed_childStateHash ` set es"
    using arg_cong [OF keys, of set] spec(4) by (simp add: image_image)
  then show "set (map ed_childStateHash (map snd (uniqueChildren es))) = ed_childStateHash ` set es"
    by (simp add: inj_image_eq_iff inj_def)
  show "set (map snd (uniqueChildren es)) \<subseteq> set es" using spec(3) by simp
qed

section \<open>One fork\<close>

lemma forkOfGroup_None: "forkOfGroup s es = None \<longleftrightarrow> card (ed_childStateHash ` set es) \<le> 1"
proof -
  have len: "length (uniqueChildren es) = card (ed_childStateHash ` set es)"
    using uniqueChildren_spec(1,2) [of es] by (metis distinct_card length_map)
  have "sortBy c (map snd (uniqueChildren es)) \<noteq> []" if "\<not> length (uniqueChildren es) \<le> 1" for c
    using that by (metis length_0_conv length_map length_sortBy zero_le)
  then show ?thesis by (auto simp: forkOfGroup_def Let_def len [symmetric] split: list.split)
qed

lemma sorted_by_child:
  "sorted (map ed_childStateHash (sortBy (\<lambda>l r. compareBytes (ed_childStateHash l) (ed_childStateHash r)) es))"
  using comparator.sorted_sortBy [OF comparator_key [OF byte_order.comparator_axioms], of ed_childStateHash es]
  by (simp add: sorted_map compareBytes_le_iff)

lemma forkOfGroup_Some:
  assumes "forkOfGroup s es = Some f" "\<forall>e \<in> set es. ed_parentStateHash e = h \<and> ed_sequence e = n"
  shows "fp_sessionId f = s" "fp_parentStateHash f = h" "fp_sequence f = n"
    "set (fp_childStateHashes f) = ed_childStateHash ` set es" "distinct (fp_childStateHashes f)"
    "sorted (fp_childStateHashes f)" "fp_branchCount f = card (ed_childStateHash ` set es)" "2 \<le> fp_branchCount f"
    "list_all2 (\<lambda>c h. \<exists>e \<in> set es. ed_childStateHash e = c \<and> ed_credentialHash e = h) (fp_childStateHashes f) (fp_credentialHashes f)"
proof -
  let ?b = "sortBy (\<lambda>l r. compareBytes (ed_childStateHash l) (ed_childStateHash r)) (map snd (uniqueChildren es))"
  have n: "1 < length (uniqueChildren es)" using assms(1) by (simp add: forkOfGroup_def Let_def split: if_splits)
  then have "?b \<noteq> []" by (metis length_map length_sortBy list.size(3) not_one_less_zero)
  then obtain first rest where b: "?b = first # rest" by (cases ?b) auto
  have f: "f = \<lparr>fp_sessionId = s, fp_parentStateHash = ed_parentStateHash first,
      fp_sequence = ed_sequence first, fp_childStateHashes = map ed_childStateHash ?b, fp_credentialHashes = map ed_credentialHash ?b,
      fp_branchCount = length ?b\<rparr>"
    using assms(1) n unfolding forkOfGroup_def Let_def b by simp
  have sub: "set ?b \<subseteq> set es" using uniqueChildren_spec(3) [of es] by simp
  then have "first \<in> set es" using b by (metis list.set_intros(1) subsetD)
  with f assms(2) show "fp_sessionId f = s" "fp_parentStateHash f = h" "fp_sequence f = n" by simp_all
  have "mset (map ed_childStateHash ?b) = mset (map ed_childStateHash (map snd (uniqueChildren es)))"
    by (simp only: mset_map mset_sortBy)
  then show set: "set (fp_childStateHashes f) = ed_childStateHash ` set es" and dist: "distinct (fp_childStateHashes f)"
    using uniqueChildren_spec(1,2) [of es] f
    by (metis ForkPoint.select_convs(4) mset_eq_setD, metis ForkPoint.select_convs(4) mset_eq_imp_distinct_iff)
  show "sorted (fp_childStateHashes f)" using f sorted_by_child by simp
  have "fp_branchCount f = length (fp_childStateHashes f)" by (simp add: f)
  then show "fp_branchCount f = card (ed_childStateHash ` set es)" using set dist by (metis distinct_card)
  show "2 \<le> fp_branchCount f" using n f by simp
  show "list_all2 (\<lambda>c h. \<exists>e \<in> set es. ed_childStateHash e = c \<and> ed_credentialHash e = h) (fp_childStateHashes f) (fp_credentialHashes f)"
    unfolding f ForkPoint.select_convs list_all2_map1 list_all2_map2
    by (rule list.rel_refl_strong) (use sub in blast)
qed

section \<open>All forks\<close>

definition successors :: "StateEdge list \<Rightarrow> bytes \<Rightarrow> int \<Rightarrow> bytes set" where
  "successors es h n = {ed_childStateHash e |e. e \<in> set es \<and> ed_parentStateHash e = h \<and> ed_sequence e = n}"

lemma edgeGroup_successors:
  "e \<in> set es \<Longrightarrow> ed_childStateHash ` set (edgeGroup es (forkKey e)) = successors es (ed_parentStateHash e) (ed_sequence e)"
  by (auto simp: edgeGroup_def forkKey_inject successors_def)

lemma forks_iff:
  "f \<in> set (detectForksFromVerifiedEdges s es) \<longleftrightarrow> (\<exists>e \<in> set es. forkOfGroup s (edgeGroup es (forkKey e)) = Some f)"
  by (auto simp: detectForksFromVerifiedEdges_def Let_def map_filter_def groups_set image_iff)
    (metis (mono_tags, lifting) option.distinct(1) option.sel)+

lemma fork_facts:
  assumes "f \<in> set (detectForksFromVerifiedEdges s es)"
  shows "fp_sessionId f = s \<and> set (fp_childStateHashes f) = successors es (fp_parentStateHash f) (fp_sequence f) \<and>
    distinct (fp_childStateHashes f) \<and> sorted (fp_childStateHashes f) \<and>
    fp_branchCount f = card (successors es (fp_parentStateHash f) (fp_sequence f)) \<and> 2 \<le> fp_branchCount f"
proof -
  obtain e where e: "e \<in> set es" "forkOfGroup s (edgeGroup es (forkKey e)) = Some f" using assms by (auto simp: forks_iff)
  have "\<forall>x \<in> set (edgeGroup es (forkKey e)). ed_parentStateHash x = ed_parentStateHash e \<and> ed_sequence x = ed_sequence e"
    by (auto simp: edgeGroup_def forkKey_inject)
  from forkOfGroup_Some [OF e(2) this] edgeGroup_successors [OF e(1)] show ?thesis by simp
qed

lemma fork_exists:
  assumes "a \<in> set es" "b \<in> set es" "ed_parentStateHash a = ed_parentStateHash b" "ed_sequence a = ed_sequence b"
    "ed_childStateHash a \<noteq> ed_childStateHash b"
  shows "\<exists>f \<in> set (detectForksFromVerifiedEdges s es). fp_parentStateHash f = ed_parentStateHash a \<and> fp_sequence f = ed_sequence a"
proof -
  let ?g = "edgeGroup es (forkKey a)"
  have "{ed_childStateHash a, ed_childStateHash b} \<subseteq> ed_childStateHash ` set ?g"
    using assms by (auto simp: edgeGroup_def forkKey_inject)
  then have "card {ed_childStateHash a, ed_childStateHash b} \<le> card (ed_childStateHash ` set ?g)"
    by (intro card_mono) simp_all
  then have "2 \<le> card (ed_childStateHash ` set ?g)" using assms(5) by simp
  then obtain f where f: "forkOfGroup s ?g = Some f" using forkOfGroup_None [of s ?g] by (cases "forkOfGroup s ?g") auto
  have "\<forall>x \<in> set ?g. ed_parentStateHash x = ed_parentStateHash a \<and> ed_sequence x = ed_sequence a"
    by (auto simp: edgeGroup_def forkKey_inject)
  from forkOfGroup_Some(2,3) [OF f this] forks_iff [of f s es] f assms(1) show ?thesis by blast
qed

text \<open>A state is reported once.\<close>

lemma forks_distinct:
  "distinct (map (\<lambda>f. (fp_parentStateHash f, fp_sequence f)) (detectForksFromVerifiedEdges s es))"
proof -
  let ?key = "\<lambda>f. (fp_parentStateHash f, fp_sequence f)"
  let ?groups = "fold groupEdge es []"
  have sub: "set gs \<subseteq> set ?groups \<Longrightarrow> distinct (map fst gs) \<Longrightarrow> distinct (map ?key (List.map_filter (forkOfGroup s) (map snd gs)))" for gs
  proof (induction gs)
    case (Cons g gs)
    then have IH: "distinct (map ?key (List.map_filter (forkOfGroup s) (map snd gs)))" by simp
    have key: "\<exists>e \<in> set es. fst x = forkKey e \<and> ?key f = (ed_parentStateHash e, ed_sequence e)"
      if x: "x \<in> set (g # gs)" "forkOfGroup s (snd x) = Some f" for x f
    proof -
      obtain e where e: "e \<in> set es" "x = (forkKey e, edgeGroup es (forkKey e))"
        using x(1) Cons.prems(1) unfolding groups_set by auto
      have "\<forall>y \<in> set (edgeGroup es (forkKey e)). ed_parentStateHash y = ed_parentStateHash e \<and> ed_sequence y = ed_sequence e"
        by (auto simp: edgeGroup_def forkKey_inject)
      from forkOfGroup_Some(2,3) [OF _ this, of s f] x(2) e show ?thesis by auto
    qed
    show ?case
    proof (cases "forkOfGroup s (snd g)")
      case None
      with IH show ?thesis by (simp add: List.map_filter_simps)
    next
      case (Some f)
      obtain e where e: "fst g = forkKey e" "?key f = (ed_parentStateHash e, ed_sequence e)" using key [OF _ Some] by auto
      have "?key f \<noteq> ?key f'" if "f' \<in> set (List.map_filter (forkOfGroup s) (map snd gs))" for f'
      proof
        assume same: "?key f = ?key f'"
        obtain x where x: "x \<in> set gs" "forkOfGroup s (snd x) = Some f'"
          using \<open>f' \<in> set (List.map_filter (forkOfGroup s) (map snd gs))\<close> by (auto simp: map_filter_def)
        then obtain e' where "fst x = forkKey e'" "?key f' = (ed_parentStateHash e', ed_sequence e')" using key [of x f'] by auto
        with e same have "fst x = fst g" by (simp add: forkKey_inject)
        with x(1) Cons.prems(2) show False by (metis distinct.simps(2) image_eqI list.simps(9) list.set_map)
      qed
      with IH Some show ?thesis by (auto simp: List.map_filter_simps)
    qed
  qed (simp add: List.map_filter_simps)
  have "distinct (map ?key (List.map_filter (forkOfGroup s) (map snd ?groups)))"
    by (rule sub) (simp_all add: groups_keys)
  moreover have "mset (map ?key (detectForksFromVerifiedEdges s es)) = mset (map ?key (List.map_filter (forkOfGroup s) (map snd ?groups)))"
    by (simp add: detectForksFromVerifiedEdges_def Let_def)
  ultimately show ?thesis using mset_eq_imp_distinct_iff by blast
qed

lemma successors_sortBy [simp]: "successors (sortBy c es) h n = successors es h n"
  by (simp add: successors_def)

end
