(* ===== verification/LedgerTheorems.thy ===== *)
theory LedgerTheorems
  imports Forks
begin

text \<open>
  The properties of \<open>packages/offline-ledger\<close>, each with a witness on the sample session.
\<close>

section \<open>Sample inputs\<close>

definition sampleInput :: "PaymentCredential list \<Rightarrow> BuildStateGraphInput" where
  "sampleInput cs = \<lparr>in_context = sampleContext, in_sessionCertificate = sampleCertificate,
     in_deviceAuthorization = sampleAuthorization, in_credentials = cs\<rparr>"

lemma sampleInput_fields [simp]:
  "in_context (sampleInput cs) = sampleContext" "in_sessionCertificate (sampleInput cs) = sampleCertificate"
  "in_deviceAuthorization (sampleInput cs) = sampleAuthorization" "in_credentials (sampleInput cs) = cs"
  "(sampleInput cs)\<lparr>in_credentials := ds\<rparr> = sampleInput ds"
  by (simp_all add: sampleInput_def)

lemma sampleInput_buildable: "buildable sampleLib (sampleInput cs)"
  by (simp add: buildable_def)

lemma sampleGraph: obtains g where "buildStateGraph sampleLib (sampleInput cs) = Inr g"
  using sampleInput_buildable [of cs] by (simp add: buildStateGraph_iff)

lemma samplePayment_hash: "\<exists>h. credentialHash sampleLib samplePayment = Inr h"
  using encodePaymentCredential_ok [OF sampleLib_borsh, of samplePayment] samplePayments_valid
  by (simp add: credentialHash_iff isOk_iff)

lemma samplePayment_transition:
  "\<exists>t. verifyStateTransition sampleLib sampleContext sampleCertificate (genesisNode sampleCertificate) samplePayment = Inr t"
proof -
  have "validatePaymentCredential sampleLib sampleContext sampleCertificate (genesisNode sampleCertificate) samplePayment = Inr ()"
    using sample_payments_accepted(1)
      validate_more [of sampleLib sampleContext sampleCertificate "genesisNode sampleCertificate" samplePayment]
    by (simp add: sampleParent_def genesisParent_def genesisNode_def ParentState.truncate_def)
  then show ?thesis using samplePayment_hash by (auto simp: verifyStateTransition_iff genesisNode_def)
qed

lemma sample_collisionFree: "collisionFree sampleLib {samplePayment}"
  by (auto simp: collisionFree_def inj_on_def)

section \<open>The graph\<close>

text \<open>
  No credential can make \<open>buildStateGraph\<close> fail: it returns a graph exactly
  when the certificate chain is valid and the certificate commits to its genesis state, whatever
  the credentials are.
\<close>

theorem graph_always_built:
  "(\<exists>g. buildStateGraph L i = Inr g) \<longleftrightarrow>
     validateCertificateChain L (in_context i) (in_sessionCertificate i) (in_deviceAuthorization i) = Inr () \<and>
     genesisStateHash L (genesisOf (in_context i) (in_sessionCertificate i)) =
       Inr (sc_genesisStateHash (in_sessionCertificate i))"
  by (simp add: buildStateGraph_iff buildable_def)

text \<open>
  C10: the graph is a tree rooted at the genesis. State hashes are distinct, there is
  one node more than edges, every node but the genesis is the target of exactly one edge, and
  every edge is the verified transition from a node of the graph to a node of the graph.
\<close>

theorem graph_is_tree:
  assumes "buildStateGraph L i = Inr g"
  shows "distinct (map pt_stateHash (sg_nodes g)) \<and> length (sg_nodes g) = Suc (length (sg_edges g)) \<and>
    genesisNode (in_sessionCertificate i) \<in> set (sg_nodes g) \<and> distinct (map ed_childStateHash (sg_edges g)) \<and>
    pt_stateHash ` set (sg_nodes g) =
      insert (sc_genesisStateHash (in_sessionCertificate i)) (ed_childStateHash ` set (sg_edges g)) \<and>
    (\<forall>e \<in> set (sg_edges g). \<exists>p \<in> set (sg_nodes g). \<exists>n \<in> set (sg_nodes g).
       verifyStateTransition L (in_context i) (in_sessionCertificate i) p (ed_credential e) =
         Inr \<lparr>vt_edge = e, vt_nextState = n\<rparr>)"
proof -
  let ?st = "finalState L i"
  have g: "set (sg_nodes g) = set (nodesOf ?st)" "set (sg_edges g) = set (ls_edges ?st)"
    "length (sg_nodes g) = length (nodesOf ?st)" "length (sg_edges g) = length (ls_edges ?st)"
    "mset (map pt_stateHash (sg_nodes g)) = mset (map pt_stateHash (nodesOf ?st))"
    "mset (map ed_childStateHash (sg_edges g)) = mset (map ed_childStateHash (ls_edges ?st))"
    using assms by (auto simp: buildStateGraph_iff)
  note grown = finalState_grown [of L i]
  have "map pt_stateHash (nodesOf ?st) = sc_genesisStateHash (in_sessionCertificate i) # map ed_childStateHash (ls_edges ?st)"
    using grown_hashes [OF grown] by (simp add: genesisNode_def)
  from arg_cong [OF this, of set] show ?thesis
    using g(1-4) mset_eq_imp_distinct_iff [OF g(5)] mset_eq_imp_distinct_iff [OF g(6)] grown_distinct [OF grown]
      grown_distinct_children [OF grown] grown_length [OF grown] grown_genesis [OF grown] grown_edge [OF grown]
    by simp
qed

theorem graph_is_tree_witness:
  "\<exists>g. buildStateGraph sampleLib (sampleInput [secondPayment, samplePayment, rivalPayment]) = Inr g \<and>
     genesisNode sampleCertificate \<in> set (sg_nodes g) \<and> length (sg_nodes g) = Suc (length (sg_edges g))"
proof -
  obtain g where g: "buildStateGraph sampleLib (sampleInput [secondPayment, samplePayment, rivalPayment]) = Inr g"
    by (rule sampleGraph)
  from graph_is_tree [OF this] g show ?thesis by auto
qed

text \<open>
  Every state of the graph is provable. Some sequence of accepted credentials of
  the graph forms, with the certificate and the authorization, a proof bundle that validates to
  exactly that state; so its depth is the number of payments made to reach it and what remains is
  the spending limit less what they paid.
\<close>

theorem node_has_proof:
  assumes "buildStateGraph L i = Inr g" "n \<in> set (sg_nodes g)"
  shows "\<exists>cs. set cs \<subseteq> ed_credential ` set (sg_edges g) \<and>
    validateCredentialProofBundle L (in_context i) \<lparr>sessionCertificate = in_sessionCertificate i,
      deviceAuthorization = in_deviceAuthorization i, credentials = cs\<rparr> = Inr (ParentState.truncate n) \<and>
    pt_sequence n = int (length cs) \<and> length cs \<le> 32 \<and>
    pt_remaining n + sum_list (map pc_amount cs) = sc_branchSpendingLimit (in_sessionCertificate i)"
proof -
  let ?cert = "in_sessionCertificate i"
  from assms have b: "buildable L i" and n: "n \<in> set (nodesOf (finalState L i))"
    and es: "set (sg_edges g) = set (ls_edges (finalState L i))"
    by (auto simp: buildStateGraph_iff)
  obtain cs where cs: "set cs \<subseteq> ed_credential ` set (sg_edges g)"
    "replayCredentials L (in_context i) ?cert (ParentState.truncate (genesisNode ?cert)) cs = Inr (ParentState.truncate n)"
    using grown_chain [OF finalState_grown n] es by auto
  have start: "ParentState.truncate (genesisNode ?cert) = genesisParent ?cert"
    by (simp add: genesisNode_def genesisParent_def ParentState.truncate_def)
  note totals = replay_totals [OF cs(2) [unfolded start]]
  have seq: "pt_sequence n = int (length cs)"
    and rem: "pt_remaining n + sum_list (map pc_amount cs) = sc_branchSpendingLimit ?cert"
    using totals by (simp_all add: genesisParent_def ParentState.truncate_def)
  have "soundTerms ?cert" using b by (simp add: buildable_def validateCertificateChain_iff)
  with totals seq have "length cs \<le> 32"
    by (cases "cs = []") (auto simp: soundTerms_def ParentState.truncate_def)
  with b cs seq rem show ?thesis
    by (intro exI [of _ cs]) (simp add: validateCredentialProofBundle_iff buildable_def start)
qed

theorem node_has_proof_witness:
  "\<exists>g. buildStateGraph sampleLib (sampleInput [samplePayment]) = Inr g \<and>
     (\<exists>cs. set cs \<subseteq> ed_credential ` set (sg_edges g) \<and> cs = [])"
proof -
  obtain g where g: "buildStateGraph sampleLib (sampleInput [samplePayment]) = Inr g" by (rule sampleGraph)
  have n: "genesisNode sampleCertificate \<in> set (sg_nodes g)"
    using g grown_genesis [OF finalState_grown [of sampleLib "sampleInput [samplePayment]"]] by (auto simp: buildStateGraph_iff)
  from node_has_proof [OF g n] obtain cs where "set cs \<subseteq> ed_credential ` set (sg_edges g)" "int (length cs) = 0"
    by (auto simp: genesisNode_def)
  with g show ?thesis by auto
qed

text \<open>
  Every credential of the input ends in exactly one place, as often as
  it was given: as an edge, as an invalid credential or as a duplicate.
\<close>

theorem graph_accounts_for_input:
  assumes "buildStateGraph L i = Inr g"
  shows "mset (in_credentials i) = mset (map ed_credential (sg_edges g)) +
    mset (map rc_credential (sg_invalidCredentials g)) + mset (map dc_credential (sg_duplicateCredentials g))"
  using assms finalState_accounts [of L i] by (auto simp: buildStateGraph_iff settledCredentials_def ac_simps)

theorem graph_accounts_for_input_witness:
  "\<exists>g. buildStateGraph sampleLib (sampleInput [samplePayment, samplePayment]) = Inr g \<and>
     length (sg_edges g) + length (sg_invalidCredentials g) + length (sg_duplicateCredentials g) = 2"
proof -
  obtain g where g: "buildStateGraph sampleLib (sampleInput [samplePayment, samplePayment]) = Inr g" by (rule sampleGraph)
  from arg_cong [OF graph_accounts_for_input [OF g], of size] g show ?thesis by simp
qed

text \<open>
  The graph is closed under the valid transitions of the input. Whenever a
  credential of the input verifies against a state of the graph, the state it leads to is in the
  graph too, provided SHA-256 does not collide on the encodings of the input.
\<close>

theorem graph_is_complete:
  assumes "collisionFree L (set (in_credentials i))" "buildStateGraph L i = Inr g"
    and "c \<in> set (in_credentials i)" "p \<in> set (sg_nodes g)"
    and "verifyStateTransition L (in_context i) (in_sessionCertificate i) p c = Inr t"
  shows "\<exists>n \<in> set (sg_nodes g). pt_stateHash n = pc_newStateHash c"
proof -
  obtain h where h: "credentialHash L c = Inr h" using transition_edge(10) [OF assms(5)] by blast
  obtain d where d: "d \<in> set (in_credentials i)" "credentialHash L d = Inr h"
    "answered L (in_context i) (in_sessionCertificate i) (finalState L i) d"
    using finalState_answered [OF assms(3) h] by blast
  have "d = c" by (rule collisionFree_inject [OF assms(1) d(1) assms(3) d(2) h])
  moreover have "p \<in> set (nodesOf (finalState L i))" using assms(2,4) by (auto simp: buildStateGraph_iff)
  ultimately have "pt_stateHash (vt_nextState t) \<in> pt_stateHash ` set (nodesOf (finalState L i))"
    using d(3) assms(5) unfolding answered_def by blast
  moreover have "pt_stateHash (vt_nextState t) = pc_newStateHash c" using assms(5) by (auto simp: verifyStateTransition_iff)
  ultimately show ?thesis using assms(2) by (auto simp: buildStateGraph_iff)
qed

theorem graph_is_complete_witness:
  "\<exists>g. buildStateGraph sampleLib (sampleInput [samplePayment]) = Inr g \<and>
     (\<exists>n \<in> set (sg_nodes g). pt_stateHash n = pc_newStateHash samplePayment)"
proof -
  obtain g where g: "buildStateGraph sampleLib (sampleInput [samplePayment]) = Inr g" by (rule sampleGraph)
  have n: "genesisNode sampleCertificate \<in> set (sg_nodes g)"
    using g grown_genesis [OF finalState_grown [of sampleLib "sampleInput [samplePayment]"]] by (auto simp: buildStateGraph_iff)
  obtain t where "verifyStateTransition sampleLib sampleContext sampleCertificate (genesisNode sampleCertificate) samplePayment = Inr t"
    using samplePayment_transition by blast
  with graph_is_complete [OF _ g _ n] sample_collisionFree g show ?thesis by auto
qed

section \<open>Order and duplicates\<close>

text \<open>
  C31: under a collision-free hash, permuting the input changes nothing but the
  order in which malformed credentials are listed, and not even that when their diagnostic keys
  tell them apart.
\<close>

theorem graph_ignores_order:
  assumes "collisionFree L (set (in_credentials i))" "mset cs = mset (in_credentials i)"
    and "buildStateGraph L i = Inr g"
  shows "\<exists>V. buildStateGraph L (i\<lparr>in_credentials := cs\<rparr>) = Inr (g\<lparr>sg_invalidCredentials := V\<rparr>) \<and>
    mset V = mset (sg_invalidCredentials g) \<and>
    (diagnosable L (set (in_credentials i)) \<longrightarrow> V = sg_invalidCredentials g)"
  by (rule buildStateGraph_permuted [OF assms])

definition malformedPayment :: "bytes \<Rightarrow> PaymentCredential" where
  "malformedPayment name = samplePayment\<lparr>pc_domain := (pc_domain samplePayment)\<lparr>dm_protocolName := name\<rparr>\<rparr>"

lemma malformedPayment_hash:
  assumes "length name \<noteq> 8"
  shows "credentialHash sampleLib (malformedPayment name) = Inl (OgpValidationError ''INVALID_LENGTH'')"
proof -
  have "isOk (paymentCredentialValue samplePayment)" "length (pc_payerSignature samplePayment) = 64"
    using samplePayments_valid by (simp_all add: paymentCredentialValue_ok)
  then obtain obj where obj: "paymentCredentialValue samplePayment = Inr obj"
    and sig: "assertBytes (pc_payerSignature (malformedPayment name)) 64 = Inr ()"
    by (auto simp: isOk_iff malformedPayment_def)
  have "commonValue (pc_domain (malformedPayment name)) PaymentCredentialObject = Inl (OgpValidationError ''INVALID_LENGTH'')"
    using assms by (simp add: commonValue_def assertDomain_def assertBytes_def malformedPayment_def)
  then have "paymentCredentialValue (malformedPayment name) = Inl (OgpValidationError ''INVALID_LENGTH'')"
    using obj unfolding paymentCredentialValue_def bindE_Inr_iff
    by (auto simp: malformedPayment_def simp del: runE.simps)
  with sig show ?thesis by (simp only: credentialHash_def encodePaymentCredential_def bindE_simps)
qed

lemma malformedPayment_key: "diagnosticCredentialKey (malformedPayment name) = diagnosticCredentialKey samplePayment"
  by (simp add: diagnosticCredentialKey_def malformedPayment_def)

theorem graph_ignores_order_witness:
  "\<exists>g. buildStateGraph sampleLib (sampleInput [samplePayment, malformedPayment []]) = Inr g \<and>
     buildStateGraph sampleLib (sampleInput [malformedPayment [], samplePayment]) = Inr g"
proof -
  obtain g where g: "buildStateGraph sampleLib (sampleInput [samplePayment, malformedPayment []]) = Inr g" by (rule sampleGraph)
  have bad: "\<not> isOk (credentialHash sampleLib (malformedPayment []))" by (simp add: malformedPayment_hash)
  then have free: "collisionFree sampleLib (set [samplePayment, malformedPayment []])"
    by (auto simp: collisionFree_def inj_on_def credentialHash_def isOk_iff bindE_Inr_iff)
  have "isOk (credentialHash sampleLib samplePayment)" using samplePayment_hash by (auto simp: isOk_iff)
  with bad have diag: "diagnosable sampleLib (set [samplePayment, malformedPayment []])" by (auto simp: diagnosable_def)
  with graph_ignores_order [OF _ _ g, of "[malformedPayment [], samplePayment]"] free g show ?thesis
    by (auto simp: add_mset_commute)
qed

text \<open>
  The order of the input is visible in the graph in one case: two
  malformed credentials that differ only in a field the diagnostic key leaves out (here the
  protocol name) are listed in the order they came in.
\<close>

theorem malformed_order_visible:
  "collisionFree sampleLib {malformedPayment [], malformedPayment [0]} \<and>
   isOk (buildStateGraph sampleLib (sampleInput [malformedPayment [], malformedPayment [0]])) \<and>
   buildStateGraph sampleLib (sampleInput [malformedPayment [], malformedPayment [0]]) \<noteq>
     buildStateGraph sampleLib (sampleInput [malformedPayment [0], malformedPayment []])"
proof -
  let ?a = "malformedPayment []" and ?b = "malformedPayment [0]"
  have bad: "credentialHash sampleLib ?a = Inl (OgpValidationError ''INVALID_LENGTH'')"
    "credentialHash sampleLib ?b = Inl (OgpValidationError ''INVALID_LENGTH'')"
    by (simp_all add: malformedPayment_hash)
  then have free: "collisionFree sampleLib {?a, ?b}"
    by (auto simp: collisionFree_def inj_on_def credentialHash_def bindE_Inl_iff)
  have differ: "?a \<noteq> ?b"
    by (metis malformedPayment_def PaymentCredentialPayload.select_convs(1) PaymentCredentialPayload.surjective
        PaymentCredentialPayload.update_convs(1) Domain.select_convs(1) Domain.surjective Domain.update_convs(1) list.distinct(1))
  have invalid: "sg_invalidCredentials g = map (rejectedOf sampleLib) [c, d]"
    if "buildStateGraph sampleLib (sampleInput [c, d]) = Inr g" "{c, d} \<subseteq> {?a, ?b}" for c d g
  proof -
    have cd: "credentialHash sampleLib c = Inl (OgpValidationError ''INVALID_LENGTH'')"
      "credentialHash sampleLib d = Inl (OgpValidationError ''INVALID_LENGTH'')"
      "diagnosticCredentialKey c = diagnosticCredentialKey d"
      using that(2) bad by (auto simp: malformedPayment_key)
    then have "ls_invalid (finalState sampleLib (sampleInput [c, d])) = map (rejectedOf sampleLib) [c, d]"
      by (simp add: finalState_def pendingOf_def startState_def intake_def intakeStep_def rejectedOf_def)
    moreover have "compareRejected (rejectedOf sampleLib c) (rejectedOf sampleLib d) = 0"
      by (simp add: compareRejected_alt rejectedOf_def cd)
    ultimately show ?thesis using that(1) by (auto simp: buildStateGraph_iff)
  qed
  have rejected: "rejectedOf sampleLib ?a \<noteq> rejectedOf sampleLib ?b"
    using differ by (metis RejectedCredential.select_convs(1) rejectedOf_def)
  obtain g h where g: "buildStateGraph sampleLib (sampleInput [?a, ?b]) = Inr g"
    and h: "buildStateGraph sampleLib (sampleInput [?b, ?a]) = Inr h" by (meson sampleGraph)
  have "g \<noteq> h"
  proof
    assume same: "g = h"
    have "sg_invalidCredentials g = map (rejectedOf sampleLib) [?a, ?b]" by (rule invalid [OF g]) blast
    moreover have "sg_invalidCredentials h = map (rejectedOf sampleLib) [?b, ?a]" by (rule invalid [OF h]) blast
    ultimately have "map (rejectedOf sampleLib) [?a, ?b] = map (rejectedOf sampleLib) [?b, ?a]" using same by metis
    with rejected show False unfolding list.map list.inject by blast
  qed
  with g h free show ?thesis by (metis isOk_simps(1) sum.inject(2))
qed

text \<open>
  Resubmitting evidence is harmless: two inputs with the same set of
  credentials, however often each is repeated, give the same states, the same edges and the same
  forks.
\<close>

theorem graph_ignores_repetition:
  assumes "collisionFree L (set (in_credentials i))" "set cs = set (in_credentials i)"
    and "buildStateGraph L i = Inr g"
  shows "\<exists>g'. buildStateGraph L (i\<lparr>in_credentials := cs\<rparr>) = Inr g' \<and> sg_genesis g' = sg_genesis g \<and>
    sg_nodes g' = sg_nodes g \<and> sg_edges g' = sg_edges g \<and> sg_forks g' = sg_forks g"
  using assms(3) finalState_same_set [OF assms(1,2)] by (auto simp: buildStateGraph_iff buildable_def)

theorem graph_ignores_repetition_witness:
  "\<exists>g g'. buildStateGraph sampleLib (sampleInput [samplePayment]) = Inr g \<and>
     buildStateGraph sampleLib (sampleInput [samplePayment, samplePayment, samplePayment]) = Inr g' \<and>
     sg_edges g' = sg_edges g"
proof -
  obtain g where g: "buildStateGraph sampleLib (sampleInput [samplePayment]) = Inr g" by (rule sampleGraph)
  with graph_ignores_repetition [OF _ _ g, of "[samplePayment, samplePayment, samplePayment]"] sample_collisionFree
  show ?thesis by auto
qed

section \<open>Forks\<close>

text \<open>
  On any edges, \<open>detectForks\<close> reports a state exactly when two edges leave it, at
  the same depth, for different successors; it reports it once, with all its successors and no
  others, in ascending order, and with their number.
\<close>

theorem forks_exact:
  "(\<forall>h n. (\<exists>f \<in> set (detectForks g). fp_parentStateHash f = h \<and> fp_sequence f = n) \<longleftrightarrow>
      (\<exists>a \<in> set (sg_edges g). \<exists>b \<in> set (sg_edges g). ed_parentStateHash a = h \<and> ed_sequence a = n \<and>
         ed_parentStateHash b = h \<and> ed_sequence b = n \<and> ed_childStateHash a \<noteq> ed_childStateHash b)) \<and>
   (\<forall>f \<in> set (detectForks g). set (fp_childStateHashes f) = successors (sg_edges g) (fp_parentStateHash f) (fp_sequence f) \<and>
      distinct (fp_childStateHashes f) \<and> sorted (fp_childStateHashes f) \<and>
      fp_branchCount f = length (fp_childStateHashes f) \<and> 2 \<le> fp_branchCount f) \<and>
   distinct (map (\<lambda>f. (fp_parentStateHash f, fp_sequence f)) (detectForks g))"
proof (intro conjI allI ballI)
  fix h n
  show "(\<exists>f \<in> set (detectForks g). fp_parentStateHash f = h \<and> fp_sequence f = n) \<longleftrightarrow>
      (\<exists>a \<in> set (sg_edges g). \<exists>b \<in> set (sg_edges g). ed_parentStateHash a = h \<and> ed_sequence a = n \<and>
         ed_parentStateHash b = h \<and> ed_sequence b = n \<and> ed_childStateHash a \<noteq> ed_childStateHash b)"
  proof
    assume "\<exists>f \<in> set (detectForks g). fp_parentStateHash f = h \<and> fp_sequence f = n"
    then obtain f where f: "f \<in> set (detectForksFromVerifiedEdges (sg_sessionId g) (sg_edges g))"
      "fp_parentStateHash f = h" "fp_sequence f = n" by (auto simp: detectForks_def)
    have "\<not> card (successors (sg_edges g) h n) \<le> Suc 0" using fork_facts [OF f(1)] f(2,3) by simp
    moreover have "finite (successors (sg_edges g) h n)" by (simp add: successors_def)
    ultimately obtain x y where "x \<in> successors (sg_edges g) h n" "y \<in> successors (sg_edges g) h n" "x \<noteq> y"
      using card_le_Suc0_iff_eq by blast
    then show "\<exists>a \<in> set (sg_edges g). \<exists>b \<in> set (sg_edges g). ed_parentStateHash a = h \<and> ed_sequence a = n \<and>
         ed_parentStateHash b = h \<and> ed_sequence b = n \<and> ed_childStateHash a \<noteq> ed_childStateHash b"
      unfolding successors_def by blast
  qed (use fork_exists [of _ "sg_edges g" _ "sg_sessionId g"] in \<open>auto simp: detectForks_def\<close>)
next
  fix f assume "f \<in> set (detectForks g)"
  then have f: "f \<in> set (detectForksFromVerifiedEdges (sg_sessionId g) (sg_edges g))" by (simp add: detectForks_def)
  note facts = fork_facts [OF this]
  then show "set (fp_childStateHashes f) = successors (sg_edges g) (fp_parentStateHash f) (fp_sequence f)"
    "distinct (fp_childStateHashes f)" "sorted (fp_childStateHashes f)" "2 \<le> fp_branchCount f" by auto
  from facts show "fp_branchCount f = length (fp_childStateHashes f)" by (metis distinct_card)
qed (simp add: detectForks_def forks_distinct)

definition forkedEdge :: "byte \<Rightarrow> StateEdge" where
  "forkedEdge b = \<lparr>ed_credential = samplePayment, ed_credentialHash = [b], ed_parentStateHash = [0], ed_childStateHash = [b],
     ed_sequence = 1, ed_merchant = [b], ed_amount = 5\<rparr>"

definition forkedGraph :: StateGraph where
  "forkedGraph = \<lparr>sg_sessionId = [], sg_genesis = \<lparr>pt_stateHash = [0], pt_sequence = 0, pt_remaining = 100, lg_state = sampleGenesis\<rparr>,
     sg_nodes = [], sg_edges = [forkedEdge 2, forkedEdge 1], sg_invalidCredentials = [], sg_duplicateCredentials = [], sg_forks = []\<rparr>"

theorem forks_exact_witness:
  "\<exists>f \<in> set (detectForks forkedGraph). fp_parentStateHash f = [0] \<and> 2 \<le> fp_branchCount f"
proof -
  have two: "forkedEdge 1 \<in> set (sg_edges forkedGraph)" "forkedEdge 2 \<in> set (sg_edges forkedGraph)"
    by (simp_all add: forkedGraph_def)
  have e: "ed_parentStateHash (forkedEdge b) = [0]" "ed_sequence (forkedEdge b) = 1" "ed_childStateHash (forkedEdge b) = [b]" for b
    by (simp_all add: forkedEdge_def)
  have "\<exists>f \<in> set (detectForks forkedGraph). fp_parentStateHash f = [0] \<and> fp_sequence f = 1"
    by (rule forks_exact [THEN conjunct1, THEN spec, THEN spec, THEN iffD2], rule bexI [OF _ two(1)], rule bexI [OF _ two(2)])
      (simp add: e)
  then obtain f where f: "f \<in> set (detectForks forkedGraph)" "fp_parentStateHash f = [0]" by blast
  with forks_exact [of forkedGraph, THEN conjunct2, THEN conjunct1] show ?thesis by (intro bexI [of _ f]) auto
qed

text \<open>
  The forks \<open>buildStateGraph\<close> stores are what \<open>detectForks\<close> finds on
  the graph, and in a graph two edges conflict as soon as they leave the same state: every state
  with two outgoing edges is reported.
\<close>

theorem graph_forks_are_detected:
  assumes "buildStateGraph L i = Inr g"
  shows "sg_forks g = detectForks g \<and>
    (\<forall>a \<in> set (sg_edges g). \<forall>b \<in> set (sg_edges g). ed_parentStateHash a = ed_parentStateHash b \<longrightarrow> a \<noteq> b \<longrightarrow>
       (\<exists>f \<in> set (sg_forks g). fp_parentStateHash f = ed_parentStateHash a \<and>
          {ed_childStateHash a, ed_childStateHash b} \<subseteq> set (fp_childStateHashes f)))"
proof (intro conjI ballI impI)
  show stored: "sg_forks g = detectForks g" using assms by (auto simp: buildStateGraph_iff detectForks_def)
  fix a b assume ab: "a \<in> set (sg_edges g)" "b \<in> set (sg_edges g)" "ed_parentStateHash a = ed_parentStateHash b" "a \<noteq> b"
  let ?st = "finalState L i"
  note grown = finalState_grown [of L i]
  have es: "set (sg_edges g) = set (ls_edges ?st)" using assms by (auto simp: buildStateGraph_iff)
  obtain p n where p: "p \<in> set (nodesOf ?st)" "n \<in> set (nodesOf ?st)"
    "verifyStateTransition L (in_context i) (in_sessionCertificate i) p (ed_credential a) = Inr \<lparr>vt_edge = a, vt_nextState = n\<rparr>"
    using grown_edge [OF grown] ab(1) es by blast
  obtain q m where q: "q \<in> set (nodesOf ?st)" "m \<in> set (nodesOf ?st)"
    "verifyStateTransition L (in_context i) (in_sessionCertificate i) q (ed_credential b) = Inr \<lparr>vt_edge = b, vt_nextState = m\<rparr>"
    using grown_edge [OF grown] ab(2) es by blast
  have "pt_stateHash p = pt_stateHash q" using transition_edge(2) [OF p(3)] transition_edge(2) [OF q(3)] ab(3) by simp
  then have "p = q" using sound_same_node [OF finalState_sound p(1) q(1)] by simp
  then have seq: "ed_sequence a = ed_sequence b" using transition_edge(5) [OF p(3)] transition_edge(5) [OF q(3)] by simp
  have child: "ed_childStateHash a \<noteq> ed_childStateHash b"
    using grown_distinct_children [OF grown] ab es by (auto simp: distinct_map dest: inj_onD)
  obtain f where f: "f \<in> set (detectForks g)" "fp_parentStateHash f = ed_parentStateHash a" "fp_sequence f = ed_sequence a"
    using fork_exists [OF ab(1,2,3) seq child] by (auto simp: detectForks_def)
  then have "set (fp_childStateHashes f) = successors (sg_edges g) (ed_parentStateHash a) (ed_sequence a)"
    using fork_facts [of f "sg_sessionId g" "sg_edges g"] by (simp add: detectForks_def)
  with ab seq f stored show "\<exists>f \<in> set (sg_forks g). fp_parentStateHash f = ed_parentStateHash a \<and>
      {ed_childStateHash a, ed_childStateHash b} \<subseteq> set (fp_childStateHashes f)"
    by (intro bexI [of _ f]) (auto simp: successors_def)
qed

theorem graph_forks_are_detected_witness:
  "\<exists>g. buildStateGraph sampleLib (sampleInput [samplePayment, rivalPayment]) = Inr g \<and> sg_forks g = detectForks g"
proof -
  obtain g where g: "buildStateGraph sampleLib (sampleInput [samplePayment, rivalPayment]) = Inr g" by (rule sampleGraph)
  with graph_forks_are_detected [OF g] show ?thesis by blast
qed

end
