(* ===== verification/Reconciliation.thy ===== *)
theory Reconciliation
  imports Forks
begin

text \<open>
  \<open>packages/reconciliation/src/index.ts\<close>: classification of the graph's edges, exposure, the
  commitment to the graph, and the deterministic allocation of the collateral.

  \<open>bigint\<close> division truncates towards zero; the dividends here are never negative and the divisor
  is positive, where it is \<open>div\<close>.
\<close>

section \<open>Data\<close>

datatype Classification = VALID | CONFLICTING

record ReconciledClaim =
  cl_edge :: StateEdge
  cl_classification :: Classification

record ReconciliationResult =
  rr_sessionId :: bytes
  rr_stateGraph :: StateGraph
  rr_eligibleClaims :: "ReconciledClaim list"
  rr_validClaims :: "ReconciledClaim list"
  rr_conflictingClaims :: "ReconciledClaim list"
  rr_invalidCredentials :: "RejectedCredential list"
  rr_duplicateCredentials :: "DuplicateCredential list"
  rr_forks :: "ForkPoint list"
  rr_aggregateOfflineExposure :: int
  rr_conflictingExposure :: int
  rr_stateGraphCommitment :: bytes

record CoverageAllocation =
  al_credentialHash :: bytes
  al_merchant :: bytes
  al_amount :: int
  al_baseAllocation :: int
  al_dust :: int
  al_payout :: int

record DeterministicCoverageResult =
  cv_aggregateOfflineExposure :: int
  cv_collateralCoverageCap :: int
  cv_coverage :: int
  cv_baseAllocationTotal :: int
  cv_dustUnits :: int
  cv_totalPayout :: int
  cv_insolvent :: bool
  cv_allocations :: "CoverageAllocation list"

section \<open>Bytes\<close>

text \<open>\<open>"OGP:STATE_GRAPH:V1\0"\<close> in UTF-8\<close>

definition GRAPH_COMMITMENT_PREFIX :: bytes where
  "GRAPH_COMMITMENT_PREFIX =
     [0x4f, 0x47, 0x50, 0x3a, 0x53, 0x54, 0x41, 0x54, 0x45, 0x5f, 0x47, 0x52, 0x41, 0x50, 0x48, 0x3a, 0x56, 0x31, 0]"

definition u32 :: "int \<Rightarrow> bytes result" where
  "u32 value =
    bindE (failIf (value > 2 ^ 53 - 1 \<or> value < 0 \<or> value > 0xffffffff) ''GRAPH_VALUE_OUT_OF_RANGE'') (\<lambda>_.
      Inr (leBytes 4 value))"

definition u64 :: "int \<Rightarrow> bytes result" where
  "u64 value =
    bindE (failIf (value < 0 \<or> value > U64_MAX) ''EXPOSURE_OVERFLOW'') (\<lambda>_. Inr (leBytes 8 value))"

section \<open>Exposure\<close>

fun checkedExposureFrom :: "int \<Rightarrow> StateEdge list \<Rightarrow> int result" where
  "checkedExposureFrom acc [] = Inr acc"
| "checkedExposureFrom acc (edge # edges) =
    (let total' = acc + ed_amount edge in
     bindE (failIf (total' > U64_MAX) ''EXPOSURE_OVERFLOW'') (\<lambda>_. checkedExposureFrom total' edges))"

definition checkedExposure :: "StateEdge list \<Rightarrow> int result" where
  "checkedExposure edges = checkedExposureFrom 0 edges"

section \<open>Allocation\<close>

definition assertNamedU64 :: "int \<Rightarrow> string \<Rightarrow> unit result" where
  "assertNamedU64 value name = failIf (value < 0 \<or> value > U64_MAX) (name @ ''_OUT_OF_RANGE'')"

text \<open>The loop over the sorted claims: ranges, duplicates, the running sum.\<close>

fun sumClaims :: "ReconciledClaim list \<Rightarrow> string list \<Rightarrow> int \<Rightarrow> int result" where
  "sumClaims [] seen aggregate = Inr aggregate"
| "sumClaims (claim # claims) seen aggregate =
    bindE (assertNamedU64 (ed_amount (cl_edge claim)) ''CLAIM_AMOUNT'') (\<lambda>_.
    bindE (failIf (ed_amount (cl_edge claim) = 0) ''CLAIM_AMOUNT_OUT_OF_RANGE'') (\<lambda>_.
    let identity = bytesToHex (ed_credentialHash (cl_edge claim)) in
    bindE (failIf (identity \<in> set seen) ''DUPLICATE_ALLOCATION_EDGE'') (\<lambda>_.
    let aggregate' = aggregate + ed_amount (cl_edge claim) in
    bindE (failIf (aggregate' > U64_MAX) ''EXPOSURE_OVERFLOW'') (\<lambda>_.
      sumClaims claims (setAdd identity seen) aggregate'))))"

text \<open>The allocation of the claim at \<open>index\<close>.\<close>

definition allocateClaim :: "int list \<Rightarrow> int \<Rightarrow> nat \<Rightarrow> ReconciledClaim \<Rightarrow> CoverageAllocation result" where
  "allocateClaim bases dustUnits index claim =
    (let baseAllocation = (if index < length bases then bases ! index else 0);
         dust = (if int index < dustUnits then 1 else 0);
         payout = baseAllocation + dust
     in bindE (failIf (payout > ed_amount (cl_edge claim)) ''ALLOCATION_EXCEEDS_CLAIM'') (\<lambda>_.
       Inr \<lparr>al_credentialHash = ed_credentialHash (cl_edge claim), al_merchant = ed_merchant (cl_edge claim),
         al_amount = ed_amount (cl_edge claim), al_baseAllocation = baseAllocation, al_dust = dust, al_payout = payout\<rparr>))"

definition allocateDeterministicCoverage :: "ReconciledClaim list \<Rightarrow> int \<Rightarrow> DeterministicCoverageResult result" where
  "allocateDeterministicCoverage claims collateralCoverageCap =
    bindE (assertNamedU64 collateralCoverageCap ''COLLATERAL_COVERAGE_CAP'') (\<lambda>_.
    let ordered = sortBy (\<lambda>left right. compareBytes (ed_credentialHash (cl_edge left)) (ed_credentialHash (cl_edge right))) claims in
    bindE (sumClaims ordered [] 0) (\<lambda>aggregate.
    let coverage = (if aggregate < collateralCoverageCap then aggregate else collateralCoverageCap) in
    if aggregate = 0 then
      Inr \<lparr>cv_aggregateOfflineExposure = aggregate, cv_collateralCoverageCap = collateralCoverageCap, cv_coverage = coverage,
        cv_baseAllocationTotal = 0, cv_dustUnits = 0, cv_totalPayout = 0, cv_insolvent = False, cv_allocations = []\<rparr>
    else
    let bases = map (\<lambda>claim. ed_amount (cl_edge claim) * coverage div aggregate) ordered;
        baseAllocationTotal = foldl (\<lambda>total value. total + value) 0 bases;
        dustUnits = coverage - baseAllocationTotal
    in
    bindE (failIf (dustUnits < 0 \<or> dustUnits > int (length ordered)) ''INVALID_DUST_REMAINDER'') (\<lambda>_.
    bindE (mapE (\<lambda>(index, claim). allocateClaim bases dustUnits index claim) (enumerate 0 ordered)) (\<lambda>allocations.
    let totalPayout = foldl (\<lambda>total allocation. total + al_payout allocation) 0 allocations in
    bindE (failIf (totalPayout \<noteq> coverage \<or> totalPayout > collateralCoverageCap) ''COVERAGE_INVARIANT_VIOLATION'') (\<lambda>_.
      Inr \<lparr>cv_aggregateOfflineExposure = aggregate, cv_collateralCoverageCap = collateralCoverageCap, cv_coverage = coverage,
        cv_baseAllocationTotal = baseAllocationTotal, cv_dustUnits = dustUnits, cv_totalPayout = totalPayout,
        cv_insolvent = aggregate > collateralCoverageCap, cv_allocations = allocations\<rparr>)))))"

section \<open>Conflicts\<close>

text \<open>One pass of the fixed-point loop: whether it changed anything, and the set afterwards.\<close>

fun conflictPass :: "StateEdge list \<Rightarrow> bool \<Rightarrow> string list \<Rightarrow> bool \<times> string list" where
  "conflictPass [] changed conflicting = (changed, conflicting)"
| "conflictPass (edge # edges) changed conflicting =
    (let child = bytesToHex (ed_childStateHash edge) in
     if child \<in> set conflicting \<or> bytesToHex (ed_parentStateHash edge) \<notin> set conflicting
     then conflictPass edges changed conflicting
     else conflictPass edges True (setAdd child conflicting))"

text \<open>The states an edge list can still add.\<close>

definition missing :: "StateEdge list \<Rightarrow> string list \<Rightarrow> nat" where
  "missing edges conflicting = card ((\<lambda>e. bytesToHex (ed_childStateHash e)) ` set edges - set conflicting)"

lemma conflictPass_grows:
  "conflictPass edges changed conflicting = (changed', conflicting') \<Longrightarrow>
    set conflicting \<subseteq> set conflicting' \<and>
    (changed' \<longrightarrow> changed \<or> (\<exists>e \<in> set edges. bytesToHex (ed_childStateHash e) \<in> set conflicting' - set conflicting))"
  by (induction edges changed conflicting rule: conflictPass.induct)
    (auto simp: Let_def split: if_splits)

lemma conflictPass_decreases:
  assumes "(True, conflicting') = conflictPass edges False conflicting"
  shows "missing edges conflicting' < missing edges conflicting"
proof -
  obtain e where "set conflicting \<subseteq> set conflicting'" "e \<in> set edges"
    "bytesToHex (ed_childStateHash e) \<in> set conflicting' - set conflicting"
    using conflictPass_grows [OF assms [symmetric]] by blast
  then show ?thesis unfolding missing_def by (intro psubset_card_mono) auto
qed

function propagate :: "StateEdge list \<Rightarrow> string list \<Rightarrow> string list" where
  "propagate edges conflicting =
    (case conflictPass edges False conflicting of
       (changed, conflicting') \<Rightarrow> if changed then propagate edges conflicting' else conflicting')"
  by pat_completeness auto
termination
  by (relation "measure (\<lambda>(edges, conflicting). missing edges conflicting)")
    (simp_all add: conflictPass_decreases)

declare propagate.simps [simp del]

definition conflictingChildHashes :: "StateGraph \<Rightarrow> string list" where
  "conflictingChildHashes graph =
    propagate (sg_edges graph)
      (fold (\<lambda>fork conflicting. fold (\<lambda>child. setAdd (bytesToHex child)) (fp_childStateHashes fork) conflicting)
        (sg_forks graph) [])"

section \<open>Commitment\<close>

definition edgeParts :: "StateEdge \<Rightarrow> bytes list result" where
  "edgeParts edge =
    bindE (u32 (ed_sequence edge)) (\<lambda>sequence.
    bindE (u64 (ed_amount edge)) (\<lambda>amount.
      Inr [ed_credentialHash edge, ed_parentStateHash edge, sequence, ed_childStateHash edge, ed_merchant edge, amount]))"

text \<open>The message the commitment hashes.\<close>

definition graphMessage :: "StateGraph \<Rightarrow> bytes result" where
  "graphMessage graph =
    bindE (u32 (int (length (sg_edges graph)))) (\<lambda>count.
    bindE (mapE edgeParts (sg_edges graph)) (\<lambda>parts.
      Inr (concat ([GRAPH_COMMITMENT_PREFIX, sg_sessionId graph, pt_stateHash (sg_genesis graph), count] @ concat parts))))"

definition stateGraphCommitment :: "lib \<Rightarrow> StateGraph \<Rightarrow> bytes result" where
  "stateGraphCommitment L graph = bindE (graphMessage graph) (\<lambda>message. Inr (hashSha256 L message))"

section \<open>Reconciliation\<close>

definition reconcileSession :: "lib \<Rightarrow> BuildStateGraphInput \<Rightarrow> ReconciliationResult result" where
  "reconcileSession L input =
    bindE (buildStateGraph L input) (\<lambda>stateGraph.
    let conflictingChildren = conflictingChildHashes stateGraph;
        eligibleClaims = map (\<lambda>edge. \<lparr>cl_edge = edge, cl_classification =
          (if bytesToHex (ed_childStateHash edge) \<in> set conflictingChildren then CONFLICTING else VALID)\<rparr>) (sg_edges stateGraph);
        validClaims = filter (\<lambda>claim. cl_classification claim = VALID) eligibleClaims;
        conflictingClaims = filter (\<lambda>claim. cl_classification claim = CONFLICTING) eligibleClaims
    in
    bindE (checkedExposure (sg_edges stateGraph)) (\<lambda>aggregateOfflineExposure.
    bindE (checkedExposure (map cl_edge conflictingClaims)) (\<lambda>conflictingExposure.
    bindE (stateGraphCommitment L stateGraph) (\<lambda>commitment.
      Inr \<lparr>rr_sessionId = sg_sessionId stateGraph, rr_stateGraph = stateGraph, rr_eligibleClaims = eligibleClaims,
        rr_validClaims = validClaims, rr_conflictingClaims = conflictingClaims,
        rr_invalidCredentials = sg_invalidCredentials stateGraph, rr_duplicateCredentials = sg_duplicateCredentials stateGraph,
        rr_forks = sg_forks stateGraph, rr_aggregateOfflineExposure = aggregateOfflineExposure,
        rr_conflictingExposure = conflictingExposure, rr_stateGraphCommitment = commitment\<rparr>))))"

end
