(* ===== verification/ReconciliationFacts.thy ===== *)
theory ReconciliationFacts
  imports Reconciliation
begin

text \<open>
  What \<open>packages/reconciliation\<close> promises: the allocation pays out exactly the smaller of exposure
  and cap, in proportion, whatever the order of the claims; the conflicting states are exactly
  the fork children and their descendants; the commitment determines the edges.
\<close>

section \<open>Sums over claims\<close>

abbreviation claimAmount :: "ReconciledClaim \<Rightarrow> int" where "claimAmount c \<equiv> ed_amount (cl_edge c)"
abbreviation claimHash :: "ReconciledClaim \<Rightarrow> bytes" where "claimHash c \<equiv> ed_credentialHash (cl_edge c)"

definition totalAmount :: "ReconciledClaim list \<Rightarrow> int" where
  "totalAmount claims = sum_list (map claimAmount claims)"

text \<open>Claims the allocation accepts: positive, distinct, and within 64 bits together.\<close>

definition allocatable :: "ReconciledClaim list \<Rightarrow> bool" where
  "allocatable claims \<longleftrightarrow> (\<forall>c \<in> set claims. 0 < claimAmount c) \<and> distinct (map claimHash claims) \<and>
     totalAmount claims \<le> U64_MAX"

lemma failIf_bind [simp]: "bindE (failIf b m) f = (if b then Inl (JsError m) else f ())"
  by (simp add: failIf_def)

lemma foldl_sum: "foldl (\<lambda>total x. total + f x) (a :: int) xs = a + sum_list (map f xs)"
  by (induction xs arbitrary: a) simp_all

lemma sum_list_nonneg_int: "\<forall>x \<in> set xs. 0 \<le> f x \<Longrightarrow> 0 \<le> sum_list (map f xs :: int list)"
  by (induction xs) auto

lemma sumClaims_iff:
  "0 \<le> acc \<Longrightarrow> sumClaims claims seen acc = Inr r \<longleftrightarrow>
     (\<forall>c \<in> set claims. 0 < claimAmount c) \<and> distinct (map claimHash claims) \<and>
     (\<forall>c \<in> set claims. bytesToHex (claimHash c) \<notin> set seen) \<and>
     (claims \<noteq> [] \<longrightarrow> acc + totalAmount claims \<le> U64_MAX) \<and> r = acc + totalAmount claims"
proof (induction claims seen acc rule: sumClaims.induct)
  case (2 claim claims seen acc)
  have nonneg: "0 \<le> totalAmount claims" if "\<forall>c \<in> set claims. 0 < claimAmount c"
    using that sum_list_nonneg_int [of claims claimAmount] by (fastforce simp: totalAmount_def)
  show ?case
  proof (cases "0 < claimAmount claim \<and> bytesToHex (claimHash claim) \<notin> set seen \<and> acc + claimAmount claim \<le> U64_MAX")
    case True
    then have "sumClaims (claim # claims) seen acc = Inr r \<longleftrightarrow>
        sumClaims claims (setAdd (bytesToHex (claimHash claim)) seen) (acc + claimAmount claim) = Inr r"
      using 2(2) by (simp add: assertNamedU64_def Let_def)
    also have "\<dots> \<longleftrightarrow> (\<forall>c \<in> set claims. 0 < claimAmount c) \<and> distinct (map claimHash claims) \<and>
        (\<forall>c \<in> set claims. bytesToHex (claimHash c) \<notin> set (setAdd (bytesToHex (claimHash claim)) seen)) \<and>
        (claims \<noteq> [] \<longrightarrow> acc + claimAmount claim + totalAmount claims \<le> U64_MAX) \<and>
        r = acc + claimAmount claim + totalAmount claims"
      using True 2 by (intro 2(1)) auto
    finally have step: "sumClaims (claim # claims) seen acc = Inr r \<longleftrightarrow> \<dots>" .
    have "(\<forall>c \<in> set claims. bytesToHex (claimHash c) \<notin> set (setAdd (bytesToHex (claimHash claim)) seen)) \<longleftrightarrow>
        claimHash claim \<notin> claimHash ` set claims \<and> (\<forall>c \<in> set claims. bytesToHex (claimHash c) \<notin> set seen)"
      by (auto simp: image_iff)
    with True show ?thesis unfolding step by (cases "claims = []") (auto simp: totalAmount_def)
  next
    case False
    have "sumClaims (claim # claims) seen acc \<noteq> Inr r" using False by (auto simp: assertNamedU64_def Let_def)
    moreover have "\<not> ((\<forall>c \<in> set (claim # claims). 0 < claimAmount c) \<and>
        (\<forall>c \<in> set (claim # claims). bytesToHex (claimHash c) \<notin> set seen) \<and> acc + totalAmount (claim # claims) \<le> U64_MAX)"
      using False nonneg by (auto simp: totalAmount_def)
    ultimately show ?thesis by blast
  qed
qed (auto simp: totalAmount_def)

section \<open>Proportional shares\<close>

text \<open>Rounding down leaves less than one unit per claim.\<close>

lemma floor_shares:
  fixes d :: int
  assumes "0 < d"
  shows "sum_list (map (\<lambda>a. a * k div d) as) * d \<le> sum_list as * k"
    "sum_list as * k - sum_list (map (\<lambda>a. a * k div d) as) * d \<le> int (length as) * (d - 1)"
proof -
  have "sum_list as * k - sum_list (map (\<lambda>a. a * k div d) as) * d = sum_list (map (\<lambda>a. a * k mod d) as)"
  proof (induction as)
    case (Cons a as)
    have "a * k = (a * k div d) * d + a * k mod d" by simp
    with Cons show ?case by (simp add: algebra_simps)
  qed simp
  moreover have "0 \<le> sum_list (map (\<lambda>a. a * k mod d) as) \<and>
      sum_list (map (\<lambda>a. a * k mod d) as) \<le> int (length as) * (d - 1)"
  proof (induction as)
    case (Cons a as)
    have "0 \<le> a * k mod d" "a * k mod d \<le> d - 1" using assms by simp_all
    with Cons show ?case by (simp add: algebra_simps)
  qed simp
  ultimately show "sum_list (map (\<lambda>a. a * k div d) as) * d \<le> sum_list as * k"
    "sum_list as * k - sum_list (map (\<lambda>a. a * k div d) as) * d \<le> int (length as) * (d - 1)" by linarith+
qed

lemma dust_bounds:
  fixes T C :: int
  assumes "0 < T" "T = sum_list as"
  shows "0 \<le> C - sum_list (map (\<lambda>a. a * C div T) as)"
    "C - sum_list (map (\<lambda>a. a * C div T) as) \<le> int (length as)"
    "as \<noteq> [] \<Longrightarrow> C - sum_list (map (\<lambda>a. a * C div T) as) < int (length as)"
proof -
  let ?B = "sum_list (map (\<lambda>a. a * C div T) as)"
  have lower: "?B * T \<le> C * T" and upper: "(C - ?B) * T \<le> int (length as) * (T - 1)"
    using floor_shares [OF assms(1), where k = C and as = as] assms(2) by (simp_all add: algebra_simps)
  from lower assms(1) show "0 \<le> C - ?B" by simp
  have less: "(C - ?B) * T < int (length as) * T" if "as \<noteq> []"
  proof -
    have "0 < int (length as)" using that by simp
    then have "int (length as) * (T - 1) < int (length as) * T" by (simp add: algebra_simps)
    with upper show ?thesis by linarith
  qed
  show "as \<noteq> [] \<Longrightarrow> C - ?B < int (length as)" using less assms(1) by simp
  then show "C - ?B \<le> int (length as)" using assms by (cases "as = []") auto
qed

text \<open>A share below the whole claim leaves room for one more unit.\<close>

lemma share_room:
  fixes a T C :: int
  assumes "0 < a" "0 < T" "C < T" "0 \<le> C"
  shows "a * C div T + 1 \<le> a"
proof -
  have "a * C < a * T" using assms by simp
  moreover have "a * C div T * T \<le> a * C" using assms(2) by (simp add: minus_mod_eq_div_mult [symmetric])
  ultimately have "a * C div T * T < a * T" by linarith
  then have "a * C div T < a" using assms(2) by simp
  then show ?thesis by simp
qed

lemma share_bounds:
  fixes a T C :: int
  assumes "0 \<le> a" "0 < T" "0 \<le> C" "C \<le> T"
  shows "0 \<le> a * C div T" "a * C div T \<le> a"
proof -
  show "0 \<le> a * C div T" using assms by (simp add: pos_imp_zdiv_nonneg_iff)
  have "a * C \<le> a * T" using assms by (simp add: mult_left_mono)
  then have "a * C div T \<le> a * T div T" using assms(2) by (rule zdiv_mono1)
  then show "a * C div T \<le> a" using assms(2) by simp
qed

lemma sum_dust: "0 \<le> d \<Longrightarrow> (\<Sum>i \<leftarrow> [0..<n]. if int i < d then 1 else 0) = min d (int n)"
  by (induction n) auto

section \<open>The allocation\<close>

definition orderedClaims :: "ReconciledClaim list \<Rightarrow> ReconciledClaim list" where
  "orderedClaims claims = sortBy (\<lambda>l r. compareBytes (claimHash l) (claimHash r)) claims"

lemma mset_orderedClaims [simp]: "mset (orderedClaims claims) = mset claims"
  by (simp add: orderedClaims_def)

lemma set_orderedClaims [simp]: "set (orderedClaims claims) = set claims"
  by (metis mset_orderedClaims set_mset_mset)

lemma length_orderedClaims [simp]: "length (orderedClaims claims) = length claims"
  by (simp add: orderedClaims_def)

lemma totalAmount_mset: "mset a = mset b \<Longrightarrow> totalAmount a = totalAmount b"
  unfolding totalAmount_def by (metis mset_map sum_mset_sum_list)

lemma allocatable_mset: "mset a = mset b \<Longrightarrow> allocatable a = allocatable b"
proof -
  assume eq: "mset a = mset b"
  then have "mset (map claimHash a) = mset (map claimHash b)" by simp
  with eq show ?thesis
    unfolding allocatable_def using totalAmount_mset [OF eq] mset_eq_setD [OF eq] mset_eq_imp_distinct_iff by metis
qed

definition share :: "int \<Rightarrow> int \<Rightarrow> ReconciledClaim \<Rightarrow> int" where
  "share C T c = claimAmount c * C div T"

text \<open>The allocation written out: the share rounded down, plus one unit for the first claims.\<close>

definition allocationsOf :: "ReconciledClaim list \<Rightarrow> int \<Rightarrow> CoverageAllocation list" where
  "allocationsOf claims cap =
    (let T = totalAmount claims; C = min T cap; dust = C - sum_list (map (share C T) claims)
     in map (\<lambda>(i, c). \<lparr>al_credentialHash = claimHash c, al_merchant = ed_merchant (cl_edge c), al_amount = claimAmount c,
          al_baseAllocation = share C T c, al_dust = (if int i < dust then 1 else 0),
          al_payout = share C T c + (if int i < dust then 1 else 0)\<rparr>) (enumerate 0 claims))"

definition coverageOf :: "ReconciledClaim list \<Rightarrow> int \<Rightarrow> DeterministicCoverageResult" where
  "coverageOf claims cap =
    (let ordered = orderedClaims claims; T = totalAmount claims; C = min T cap
     in \<lparr>cv_aggregateOfflineExposure = T, cv_collateralCoverageCap = cap, cv_coverage = C,
         cv_baseAllocationTotal = sum_list (map (share C T) ordered),
         cv_dustUnits = C - sum_list (map (share C T) ordered), cv_totalPayout = C, cv_insolvent = cap < T,
         cv_allocations = allocationsOf ordered cap\<rparr>)"

lemma sum_enumerate: "sum_list (map (\<lambda>(i, c). f c + g i) (enumerate n xs)) = sum_list (map f xs) + (\<Sum>i \<leftarrow> [n..<n + length xs]. g i :: int)"
  by (induction xs arbitrary: n) (simp_all add: upt_rec)

text \<open>The quantities of an allocation: exposure \<open>T\<close>, coverage \<open>C\<close> and dust \<open>D\<close>.\<close>

definition allocationFor :: "ReconciledClaim list \<Rightarrow> int \<Rightarrow> int \<Rightarrow> int \<Rightarrow> int \<Rightarrow> bool" where
  "allocationFor claims cap T C D \<longleftrightarrow> allocatable claims \<and> claims \<noteq> [] \<and> 0 \<le> cap \<and> T = totalAmount claims \<and>
     C = min T cap \<and> D = C - sum_list (map (share C T) claims)"

lemma total_positive: "allocationFor claims cap T C D \<Longrightarrow> 0 < T"
proof -
  assume a: "allocationFor claims cap T C D"
  then obtain c cs where c: "claims = c # cs" by (cases claims) (auto simp: allocationFor_def)
  with a have "0 < claimAmount c" "0 \<le> sum_list (map claimAmount cs)"
    using sum_list_nonneg_int [of cs claimAmount] by (fastforce simp: allocationFor_def allocatable_def)+
  with c a show ?thesis by (simp add: allocationFor_def totalAmount_def)
qed

lemma coverage_range: "allocationFor claims cap T C D \<Longrightarrow> 0 \<le> C \<and> C \<le> T"
  using total_positive [of claims cap T C D] by (auto simp: allocationFor_def)

lemma dust_range:
  assumes "allocationFor claims cap T C D"
  shows "0 \<le> D" "D < int (length claims)"
proof -
  have eq: "map (\<lambda>a. a * C div T) (map claimAmount claims) = map (share C T) claims" by (simp add: share_def)
  have T: "T = sum_list (map claimAmount claims)" "map claimAmount claims \<noteq> []"
    and D: "D = C - sum_list (map (share C T) claims)"
    using assms by (simp_all add: allocationFor_def totalAmount_def)
  from dust_bounds(1,3) [OF total_positive [OF assms] T(1), of C, unfolded eq] T(2)
  show "0 \<le> D" "D < int (length claims)" unfolding D by simp_all
qed

lemma solvent_dust:
  assumes "allocationFor claims cap T C D" "C = T"
  shows "D = 0" "share C T c = claimAmount c"
proof -
  have share: "share C T c = claimAmount c" for c using total_positive [OF assms(1)] assms(2) by (simp add: share_def)
  then show "share C T c = claimAmount c" .
  have "share C T = claimAmount" using share by (simp add: fun_eq_iff)
  with assms show "D = 0" by (simp add: allocationFor_def totalAmount_def)
qed

lemma payout_covered:
  assumes "allocationFor claims cap T C D" "c \<in> set claims"
  shows "share C T c + (if int i < D then 1 else 0) \<le> claimAmount c" "0 \<le> share C T c" "share C T c \<le> claimAmount c"
proof -
  have c: "0 < claimAmount c" using assms by (simp add: allocationFor_def allocatable_def)
  note T = total_positive [OF assms(1)] and C = coverage_range [OF assms(1)]
  show "0 \<le> share C T c" "share C T c \<le> claimAmount c"
    using share_bounds [OF _ T, where a = "claimAmount c" and C = C] c C by (simp_all add: share_def)
  show "share C T c + (if int i < D then 1 else 0) \<le> claimAmount c"
  proof (cases "C = T")
    case True
    then show ?thesis using solvent_dust [OF assms(1) True] by simp
  next
    case False
    with C have "C < T" by simp
    from share_room [OF c T this] C show ?thesis by (simp add: share_def)
  qed
qed

lemma payouts_total:
  assumes "allocationFor claims cap T C D"
  shows "sum_list (map al_payout (allocationsOf claims cap)) = C"
proof -
  have "map al_payout (allocationsOf claims cap) = map (\<lambda>(i, c). share C T c + (if int i < D then 1 else 0)) (enumerate 0 claims)"
    using assms by (auto simp: allocationsOf_def Let_def allocationFor_def)
  then have "sum_list (map al_payout (allocationsOf claims cap)) =
      sum_list (map (share C T) claims) + (\<Sum>i \<leftarrow> [0..<length claims]. if int i < D then 1 else 0)"
    using sum_enumerate [of "share C T" "\<lambda>i. if int i < D then 1 else 0" 0 claims] by simp
  then show ?thesis using sum_dust dust_range [OF assms] assms by (simp add: allocationFor_def)
qed

lemma allocate_all:
  assumes "allocationFor claims cap T C D"
  shows "mapE (\<lambda>(index, claim). allocateClaim (map (share C T) claims) D index claim) (enumerate 0 claims) =
     Inr (allocationsOf claims cap)"
proof -
  let ?alloc = "\<lambda>(i, c). \<lparr>al_credentialHash = claimHash c, al_merchant = ed_merchant (cl_edge c),
      al_amount = claimAmount c, al_baseAllocation = share C T c, al_dust = (if int i < D then 1 else 0),
      al_payout = share C T c + (if int i < D then 1 else 0)\<rparr>"
  have eq: "allocationsOf claims cap = map ?alloc (enumerate 0 claims)"
    using assms by (simp add: allocationsOf_def Let_def allocationFor_def)
  have "list_all2 (\<lambda>x y. (case x of (index, claim) \<Rightarrow> allocateClaim (map (share C T) claims) D index claim) = Inr y)
      (enumerate 0 claims) (map ?alloc (enumerate 0 claims))"
    unfolding list_all2_map2
  proof (rule list.rel_refl_strong)
    fix x assume "x \<in> set (enumerate 0 claims)"
    moreover obtain i c where "x = (i, c)" by (cases x)
    ultimately have x: "x = (i, c)" "i < length claims" "c = claims ! i"
      by (simp_all add: in_set_enumerate_eq)
    then have "c \<in> set claims" by simp
    with x payout_covered(1) [OF assms, of c i]
    show "(case x of (index, claim) \<Rightarrow> allocateClaim (map (share C T) claims) D index claim) = Inr (?alloc x)"
      by (auto simp: allocateClaim_def Let_def)
  qed
  then show ?thesis by (simp add: mapE_Inr_iff eq)
qed

lemma allocation_correct:
  "allocateDeterministicCoverage claims cap = Inr r \<longleftrightarrow>
     0 \<le> cap \<and> cap \<le> U64_MAX \<and> allocatable claims \<and> r = coverageOf claims cap"
proof (cases "0 \<le> cap \<and> cap \<le> U64_MAX \<and> allocatable claims")
  case False
  have "sumClaims (orderedClaims claims) [] 0 \<noteq> Inr a" if "\<not> allocatable claims" for a
    using that sumClaims_iff [of 0 "orderedClaims claims" "[]" a] allocatable_mset [of "orderedClaims claims" claims]
    by (cases "claims = []") (auto simp: allocatable_def U64_MAX_def totalAmount_def)
  with False show ?thesis
    by (auto simp: allocateDeterministicCoverage_def assertNamedU64_def Let_def bindE_Inr_iff simp flip: orderedClaims_def)
next
  case True
  let ?o = "orderedClaims claims" and ?T = "totalAmount claims"
  let ?C = "min ?T cap"
  let ?D = "?C - sum_list (map (share ?C ?T) ?o)"
  have ok: "allocatable ?o" using True allocatable_mset [of ?o claims] by simp
  have T: "totalAmount ?o = ?T" by (rule totalAmount_mset) simp
  have sum: "sumClaims ?o [] 0 = Inr ?T"
    using ok T by (subst sumClaims_iff) (auto simp: allocatable_def)
  have C: "(if ?T < cap then ?T else cap) = ?C" by simp
  show ?thesis
  proof (cases "claims = []")
    case True
    then show ?thesis using \<open>0 \<le> cap \<and> _\<close>
      by (auto simp: allocateDeterministicCoverage_def assertNamedU64_def coverageOf_def orderedClaims_def totalAmount_def
          allocationsOf_def Let_def)
  next
    case False
    then have some: "?o \<noteq> []" by (metis length_0_conv length_orderedClaims)
    then have a: "allocationFor ?o cap ?T ?C ?D" using ok T \<open>0 \<le> cap \<and> _\<close> by (simp add: allocationFor_def)
    note facts = total_positive [OF a] dust_range [OF a] payouts_total [OF a] allocate_all [OF a]
    show ?thesis
      using facts sum \<open>0 \<le> cap \<and> _\<close>
      by (auto simp: allocateDeterministicCoverage_def assertNamedU64_def Let_def coverageOf_def foldl_sum C
          simp flip: orderedClaims_def share_def)
  qed
qed

section \<open>Reading the allocation\<close>

lemma allocation_order:
  assumes "mset a = mset b"
  shows "allocateDeterministicCoverage a cap = Inr r \<longleftrightarrow> allocateDeterministicCoverage b cap = Inr r"
proof -
  have "orderedClaims a = orderedClaims b" if ok: "allocatable a"
    unfolding orderedClaims_def
  proof (rule comparator.sortBy_cong_mset [OF comparator_key [OF byte_order.comparator_axioms] assms])
    fix x y assume "x \<in> set a" "y \<in> set a" "compareBytes (claimHash x) (claimHash y) = 0"
    with ok show "x = y" by (auto simp: allocatable_def distinct_map dest: inj_onD)
  qed
  then have "allocatable a \<Longrightarrow> coverageOf a cap = coverageOf b cap"
    using totalAmount_mset [OF assms] by (simp add: coverageOf_def)
  then show ?thesis using allocatable_mset [OF assms] by (auto simp: allocation_correct)
qed

lemma sumClaims_error: "sumClaims claims seen acc = Inl e \<Longrightarrow>
    e \<in> {JsError ''CLAIM_AMOUNT_OUT_OF_RANGE'', JsError ''DUPLICATE_ALLOCATION_EDGE'', JsError ''EXPOSURE_OVERFLOW''}"
  by (induction claims seen acc rule: sumClaims.induct) (auto simp: assertNamedU64_def Let_def split: if_splits)

lemma allocation_error:
  assumes "allocateDeterministicCoverage claims cap = Inl e"
  shows "e \<in> {JsError ''COLLATERAL_COVERAGE_CAP_OUT_OF_RANGE'', JsError ''CLAIM_AMOUNT_OUT_OF_RANGE'',
    JsError ''DUPLICATE_ALLOCATION_EDGE'', JsError ''EXPOSURE_OVERFLOW''}"
proof (cases "0 \<le> cap \<and> cap \<le> U64_MAX")
  case False
  with assms show ?thesis by (auto simp: allocateDeterministicCoverage_def assertNamedU64_def)
next
  case True
  show ?thesis
  proof (cases "sumClaims (orderedClaims claims) [] 0")
    case (Inl e')
    with assms True have "e = e'"
      by (simp add: allocateDeterministicCoverage_def assertNamedU64_def Let_def flip: orderedClaims_def)
    with sumClaims_error [OF Inl] show ?thesis by auto
  next
    case (Inr r)
    then have "allocatable (orderedClaims claims)"
      using sumClaims_iff [of 0 "orderedClaims claims" "[]" r]
      by (cases "orderedClaims claims = []") (auto simp: allocatable_def U64_MAX_def totalAmount_def)
    with True have "allocateDeterministicCoverage claims cap = Inr (coverageOf claims cap)"
      using allocatable_mset [of "orderedClaims claims" claims] by (simp add: allocation_correct)
    with assms show ?thesis by simp
  qed
qed

lemma allocation_setting:
  assumes "allocateDeterministicCoverage claims cap = Inr r" "claims \<noteq> []"
  shows "allocationFor (orderedClaims claims) cap (totalAmount claims) (min (totalAmount claims) cap)
    (min (totalAmount claims) cap - sum_list (map (share (min (totalAmount claims) cap) (totalAmount claims)) (orderedClaims claims)))"
proof -
  have "orderedClaims claims \<noteq> []" using assms(2) by (metis length_0_conv length_orderedClaims)
  then show ?thesis
    using assms(1) allocatable_mset [of "orderedClaims claims" claims] totalAmount_mset [of "orderedClaims claims" claims]
    by (simp add: allocation_correct allocationFor_def)
qed

lemma allocation_member:
  assumes "allocateDeterministicCoverage claims cap = Inr r" "x \<in> set (cv_allocations r)"
  obtains c dust where "c \<in> set claims" "al_credentialHash x = claimHash c" "al_merchant x = ed_merchant (cl_edge c)"
    "al_amount x = claimAmount c" "al_baseAllocation x = claimAmount c * cv_coverage r div cv_aggregateOfflineExposure r"
    "al_dust x = dust" "dust = 0 \<or> dust = 1" "al_payout x = al_baseAllocation x + dust"
    "0 \<le> al_payout x" "al_payout x \<le> claimAmount c"
proof -
  have r: "r = coverageOf claims cap" using assms(1) by (simp add: allocation_correct)
  define f where "f = (\<lambda>(i :: nat, c). \<lparr>al_credentialHash = claimHash c, al_merchant = ed_merchant (cl_edge c),
      al_amount = claimAmount c, al_baseAllocation = share (cv_coverage r) (cv_aggregateOfflineExposure r) c,
      al_dust = (if int i < cv_dustUnits r then 1 else 0),
      al_payout = share (cv_coverage r) (cv_aggregateOfflineExposure r) c + (if int i < cv_dustUnits r then 1 else 0)\<rparr>)"
  have "cv_allocations r = map f (enumerate 0 (orderedClaims claims))"
    using totalAmount_mset [of "orderedClaims claims" claims]
    by (simp add: r coverageOf_def allocationsOf_def Let_def f_def)
  with assms(2) obtain i c where ic: "(i, c) \<in> set (enumerate 0 (orderedClaims claims))" and x: "x = f (i, c)" by auto
  from ic have "c \<in> set (map snd (enumerate 0 (orderedClaims claims)))" by (metis image_eqI list.set_map snd_conv)
  then have "c \<in> set claims" by simp
  moreover have "al_credentialHash x = claimHash c" "al_merchant x = ed_merchant (cl_edge c)" "al_amount x = claimAmount c"
    "al_baseAllocation x = claimAmount c * cv_coverage r div cv_aggregateOfflineExposure r"
    "al_dust x = 0 \<or> al_dust x = 1" "al_payout x = al_baseAllocation x + al_dust x"
    by (simp_all add: x f_def share_def)
  moreover have "0 \<le> al_payout x" "al_payout x \<le> claimAmount c"
  proof -
    have "claims \<noteq> []" using \<open>c \<in> set claims\<close> by auto
    note a = allocation_setting [OF assms(1) this]
    have "c \<in> set (orderedClaims claims)" using \<open>c \<in> set claims\<close> by simp
    note payout_covered [OF a this]
    moreover have "cv_coverage r = min (totalAmount claims) cap" "cv_aggregateOfflineExposure r = totalAmount claims"
      "cv_dustUnits r = cv_coverage r - sum_list (map (share (cv_coverage r) (totalAmount claims)) (orderedClaims claims))"
      by (simp_all add: r coverageOf_def Let_def)
    ultimately show "0 \<le> al_payout x" "al_payout x \<le> claimAmount c" by (auto simp: x f_def)
  qed
  ultimately show thesis by (intro that [OF _ _ _ _ _ refl])
qed

lemma allocation_hashes:
  assumes "allocateDeterministicCoverage claims cap = Inr r"
  shows "mset (map al_credentialHash (cv_allocations r)) = mset (map claimHash claims)"
    "sorted (map al_credentialHash (cv_allocations r))"
proof -
  have r: "r = coverageOf claims cap" using assms by (simp add: allocation_correct)
  have "map al_credentialHash (cv_allocations r) = map claimHash (map snd (enumerate 0 (orderedClaims claims)))"
    unfolding r coverageOf_def allocationsOf_def Let_def DeterministicCoverageResult.select_convs map_map
    by (rule map_cong) (auto simp: case_prod_beta)
  then have eq: "map al_credentialHash (cv_allocations r) = map claimHash (orderedClaims claims)"
    by simp
  then show "mset (map al_credentialHash (cv_allocations r)) = mset (map claimHash claims)" by simp
  have "sorted_wrt (\<lambda>x y. compareBytes (claimHash x) (claimHash y) \<le> 0) (orderedClaims claims)"
    unfolding orderedClaims_def by (rule comparator.sorted_sortBy [OF comparator_key [OF byte_order.comparator_axioms]])
  then show "sorted (map al_credentialHash (cv_allocations r))"
    unfolding eq by (simp add: sorted_map compareBytes_le_iff)
qed

section \<open>Conflicting states\<close>

text \<open>The states that descend, along the edges, from one of \<open>roots\<close>.\<close>

inductive descends :: "StateEdge list \<Rightarrow> bytes set \<Rightarrow> bytes \<Rightarrow> bool" for es roots where
  root: "h \<in> roots \<Longrightarrow> descends es roots h"
| child: "descends es roots (ed_parentStateHash e) \<Longrightarrow> e \<in> set es \<Longrightarrow> descends es roots (ed_childStateHash e)"

lemma conflictPass_sound:
  "set conflicting \<subseteq> bytesToHex ` {h. descends all roots h} \<Longrightarrow> set es \<subseteq> set all \<Longrightarrow>
   set (snd (conflictPass es changed conflicting)) \<subseteq> bytesToHex ` {h. descends all roots h}"
proof (induction es changed conflicting rule: conflictPass.induct)
  case (2 e es changed conflicting)
  show ?case
  proof (cases "bytesToHex (ed_childStateHash e) \<in> set conflicting \<or> bytesToHex (ed_parentStateHash e) \<notin> set conflicting")
    case True
    with 2 show ?thesis by (simp add: Let_def)
  next
    case False
    then have "descends all roots (ed_parentStateHash e)" using 2(3) by auto
    then have "descends all roots (ed_childStateHash e)" using 2(4) by (auto intro: descends.child)
    with 2(3) have "set (setAdd (bytesToHex (ed_childStateHash e)) conflicting) \<subseteq> bytesToHex ` {h. descends all roots h}"
      by simp
    with 2(2) [OF refl False] 2(4) False show ?thesis by (simp add: Let_def)
  qed
qed simp

lemma conflictPass_unchanged:
  "\<not> fst (conflictPass es changed conflicting) \<Longrightarrow> snd (conflictPass es changed conflicting) = conflicting \<and> \<not> changed \<and>
     (\<forall>e \<in> set es. bytesToHex (ed_parentStateHash e) \<in> set conflicting \<longrightarrow> bytesToHex (ed_childStateHash e) \<in> set conflicting)"
  by (induction es changed conflicting rule: conflictPass.induct) (auto simp: Let_def split: if_splits)

lemma conflictPass_keeps: "set conflicting \<subseteq> set (snd (conflictPass es changed conflicting))"
  using conflictPass_grows [of es changed conflicting] by (metis prod.collapse)

lemma propagate_exact:
  "set conflicting \<subseteq> bytesToHex ` {h. descends es roots h} \<Longrightarrow> bytesToHex ` roots \<subseteq> set conflicting \<Longrightarrow>
   set (propagate es conflicting) = bytesToHex ` {h. descends es roots h}"
proof (induction es conflicting rule: propagate.induct)
  case (1 es conflicting)
  obtain changed conflicting' where p: "conflictPass es False conflicting = (changed, conflicting')" by force
  have sound: "set conflicting' \<subseteq> bytesToHex ` {h. descends es roots h}"
    using conflictPass_sound [OF 1(2), of es False] p by simp
  have keeps: "bytesToHex ` roots \<subseteq> set conflicting'"
    using conflictPass_keeps [of conflicting es False] p 1(3) by simp
  show ?case
  proof (cases changed)
    case True
    then show ?thesis using 1(1) [OF p [symmetric] True sound keeps] p by (subst propagate.simps) simp
  next
    case False
    then have closed: "\<forall>e \<in> set es. bytesToHex (ed_parentStateHash e) \<in> set conflicting' \<longrightarrow> bytesToHex (ed_childStateHash e) \<in> set conflicting'"
      using conflictPass_unchanged [of es False conflicting] p by simp
    have "descends es roots h \<Longrightarrow> bytesToHex h \<in> set conflicting'" for h
      by (induction rule: descends.induct) (use keeps closed in auto)
    with sound False p show ?thesis by (subst propagate.simps) auto
  qed
qed

lemma fold_setAdd_map: "set (fold (\<lambda>x. setAdd (f x)) xs hs) = set hs \<union> f ` set xs"
  by (induction xs arbitrary: hs) auto

lemma fork_roots: "set (fold (\<lambda>fork conflicting. fold (\<lambda>child. setAdd (bytesToHex child)) (fp_childStateHashes fork) conflicting) forks hs)
    = set hs \<union> bytesToHex ` (\<Union>f \<in> set forks. set (fp_childStateHashes f))"
  by (induction forks arbitrary: hs) (auto simp: fold_setAdd_map)

lemma conflictingChildHashes_exact:
  "bytesToHex h \<in> set (conflictingChildHashes g) \<longleftrightarrow>
     descends (sg_edges g) (\<Union>f \<in> set (sg_forks g). set (fp_childStateHashes f)) h"
proof -
  let ?roots = "\<Union>f \<in> set (sg_forks g). set (fp_childStateHashes f)"
  have "set (conflictingChildHashes g) = bytesToHex ` {h. descends (sg_edges g) ?roots h}"
    unfolding conflictingChildHashes_def
    by (rule propagate_exact) (auto simp: fork_roots intro: descends.root)
  then show ?thesis by (auto simp: image_iff)
qed

section \<open>Commitment\<close>

definition edgeWellFormed :: "StateEdge \<Rightarrow> bool" where
  "edgeWellFormed e \<longleftrightarrow> length (ed_credentialHash e) = 32 \<and> length (ed_parentStateHash e) = 32 \<and>
     length (ed_childStateHash e) = 32 \<and> length (ed_merchant e) = 32"

definition graphWellFormed :: "StateGraph \<Rightarrow> bool" where
  "graphWellFormed g \<longleftrightarrow> length (sg_sessionId g) = 32 \<and> length (pt_stateHash (sg_genesis g)) = 32 \<and>
     (\<forall>e \<in> set (sg_edges g). edgeWellFormed e)"

text \<open>What the commitment is about: the edge without the credential itself.\<close>

definition edgeSummary :: "StateEdge \<Rightarrow> bytes \<times> bytes \<times> int \<times> bytes \<times> bytes \<times> int" where
  "edgeSummary e = (ed_credentialHash e, ed_parentStateHash e, ed_sequence e, ed_childStateHash e, ed_merchant e, ed_amount e)"

lemma u32_iff: "u32 n = Inr bs \<longleftrightarrow> 0 \<le> n \<and> n < 2 ^ 32 \<and> bs = leBytes 4 n"
  by (auto simp: u32_def)

lemma u64_iff: "u64 n = Inr bs \<longleftrightarrow> 0 \<le> n \<and> n < 2 ^ 64 \<and> bs = leBytes 8 n"
  by (auto simp: u64_def U64_MAX_def)

lemma edgeParts_iff: "edgeParts e = Inr ps \<longleftrightarrow> 0 \<le> ed_sequence e \<and> ed_sequence e < 2 ^ 32 \<and> 0 \<le> ed_amount e \<and>
    ed_amount e < 2 ^ 64 \<and> ps = [ed_credentialHash e, ed_parentStateHash e, leBytes 4 (ed_sequence e), ed_childStateHash e,
      ed_merchant e, leBytes 8 (ed_amount e)]"
  by (auto simp: edgeParts_def bindE_Inr_iff u32_iff u64_iff)

lemma edgeParts_inject:
  assumes "edgeWellFormed a" "edgeWellFormed b" "edgeParts a = Inr p" "edgeParts b = Inr q" "concat p @ r = concat q @ s"
  shows "edgeSummary a = edgeSummary b \<and> r = s"
proof -
  have eq: "ed_credentialHash a = ed_credentialHash b" "ed_parentStateHash a = ed_parentStateHash b"
    "leBytes 4 (ed_sequence a) = leBytes 4 (ed_sequence b)" "ed_childStateHash a = ed_childStateHash b"
    "ed_merchant a = ed_merchant b" "leBytes 8 (ed_amount a) = leBytes 8 (ed_amount b)" "r = s"
    using assms by (auto simp: edgeParts_iff edgeWellFormed_def)
  moreover have "ed_sequence a = ed_sequence b" "ed_amount a = ed_amount b"
    using assms(3,4) leBytes_inject [OF eq(3)] leBytes_inject [OF eq(6)] by (simp_all add: edgeParts_iff)
  ultimately show ?thesis by (simp add: edgeSummary_def)
qed

lemma edges_inject:
  "list_all2 (\<lambda>e p. edgeParts e = Inr p) as ps \<Longrightarrow> list_all2 (\<lambda>e p. edgeParts e = Inr p) bs qs \<Longrightarrow>
   \<forall>e \<in> set as \<union> set bs. edgeWellFormed e \<Longrightarrow> length as = length bs \<Longrightarrow> concat (concat ps) = concat (concat qs) \<Longrightarrow>
   map edgeSummary as = map edgeSummary bs"
proof (induction as arbitrary: bs ps qs)
  case (Cons a as)
  obtain b bs' where bs: "bs = b # bs'" using Cons.prems(4) by (cases bs) auto
  obtain p ps' where ps: "ps = p # ps'" "edgeParts a = Inr p" "list_all2 (\<lambda>e p. edgeParts e = Inr p) as ps'"
    using Cons.prems(1) by (auto simp: list_all2_Cons1)
  obtain q qs' where qs: "qs = q # qs'" "edgeParts b = Inr q" "list_all2 (\<lambda>e p. edgeParts e = Inr p) bs' qs'"
    using Cons.prems(2) by (auto simp: bs list_all2_Cons1)
  have "concat p @ concat (concat ps') = concat q @ concat (concat qs')" using Cons.prems(5) by (simp add: ps qs)
  from edgeParts_inject [OF _ _ ps(2) qs(2) this] Cons.prems(3) bs
  have "edgeSummary a = edgeSummary b" "concat (concat ps') = concat (concat qs')" by auto
  with Cons.IH [OF ps(3) qs(3)] Cons.prems(3,4) bs show ?case by simp
qed simp

lemma graphMessage_inject:
  assumes "graphWellFormed g" "graphWellFormed h" "graphMessage g = Inr m" "graphMessage h = Inr m"
  shows "sg_sessionId g = sg_sessionId h \<and> pt_stateHash (sg_genesis g) = pt_stateHash (sg_genesis h) \<and>
    map edgeSummary (sg_edges g) = map edgeSummary (sg_edges h)"
proof -
  obtain ps where g: "int (length (sg_edges g)) < 2 ^ 32" "list_all2 (\<lambda>e p. edgeParts e = Inr p) (sg_edges g) ps"
    "m = GRAPH_COMMITMENT_PREFIX @ sg_sessionId g @ pt_stateHash (sg_genesis g) @ leBytes 4 (int (length (sg_edges g))) @
       concat (concat ps)"
    using assms(3) by (auto simp: graphMessage_def bindE_Inr_iff mapE_Inr_iff u32_iff)
  obtain qs where h: "int (length (sg_edges h)) < 2 ^ 32" "list_all2 (\<lambda>e p. edgeParts e = Inr p) (sg_edges h) qs"
    "m = GRAPH_COMMITMENT_PREFIX @ sg_sessionId h @ pt_stateHash (sg_genesis h) @ leBytes 4 (int (length (sg_edges h))) @
       concat (concat qs)"
    using assms(4) by (auto simp: graphMessage_def bindE_Inr_iff mapE_Inr_iff u32_iff)
  have eq: "sg_sessionId g = sg_sessionId h" "pt_stateHash (sg_genesis g) = pt_stateHash (sg_genesis h)"
    "leBytes 4 (int (length (sg_edges g))) = leBytes 4 (int (length (sg_edges h)))" "concat (concat ps) = concat (concat qs)"
    using g(3) h(3) assms(1,2) by (auto simp: graphWellFormed_def)
  have "length (sg_edges g) = length (sg_edges h)" using leBytes_inject [OF eq(3)] g(1) h(1) by simp
  from edges_inject [OF g(2) h(2) _ this eq(4)] assms(1,2) eq show ?thesis by (auto simp: graphWellFormed_def)
qed

end
