(* ===== verification/SessionFacts.thy ===== *)
theory SessionFacts
  imports ReconciliationFacts
begin

text \<open>
  Facts about reconciled sessions: the exposure of a graph against the spending limit of its
  branches, and what \<open>reconcileSession\<close> returns.
\<close>

section \<open>Exposure of a session\<close>

lemma checkedExposureFrom_iff:
  "\<forall>e \<in> set es. 0 \<le> ed_amount e \<Longrightarrow> checkedExposureFrom acc es = Inr r \<longleftrightarrow>
     (es \<noteq> [] \<longrightarrow> acc + sum_list (map ed_amount es) \<le> U64_MAX) \<and> r = acc + sum_list (map ed_amount es)"
proof (induction es arbitrary: acc)
  case (Cons e es)
  have "0 \<le> sum_list (map ed_amount es)" using Cons.prems by (intro sum_list_nonneg_int) simp
  with Cons show ?case by (cases "es = []") (auto simp: Let_def)
qed auto

lemma checkedExposure_iff:
  "\<forall>e \<in> set es. 0 \<le> ed_amount e \<Longrightarrow> checkedExposure es = Inr r \<longleftrightarrow>
     sum_list (map ed_amount es) \<le> U64_MAX \<and> r = sum_list (map ed_amount es)"
  unfolding checkedExposure_def by (subst checkedExposureFrom_iff) (auto simp: U64_MAX_def)

text \<open>States nobody has spent from: the ends of the branches.\<close>

definition leavesOf :: "StateNode list \<Rightarrow> StateEdge list \<Rightarrow> StateNode list" where
  "leavesOf ns es = filter (\<lambda>n. pt_stateHash n \<notin> ed_parentStateHash ` set es) ns"

definition spentAt :: "SessionCertificate \<Rightarrow> StateNode \<Rightarrow> int" where
  "spentAt cert n = sc_branchSpendingLimit cert - pt_remaining n"

lemma grown_remaining:
  "grown L cx cert (genesisNode cert) ns es \<Longrightarrow> 0 \<le> sc_branchSpendingLimit cert \<Longrightarrow> n \<in> set ns \<Longrightarrow>
     0 \<le> pt_remaining n \<and> pt_remaining n \<le> sc_branchSpendingLimit cert"
proof (induction arbitrary: n rule: grown.induct)
  case (extend ns es p c t)
  note t = transition_edge [OF extend.hyps(3)]
  have p: "0 \<le> pt_remaining p" "pt_remaining p \<le> sc_branchSpendingLimit cert"
    using extend.IH [OF extend.prems(1) extend.hyps(2)] by simp_all
  show ?case
  proof (cases "n = vt_nextState t")
    case True
    with t(6,8,9) p show ?thesis by simp
  next
    case False
    with extend.prems(2) have "n \<in> set ns" by simp
    with extend.IH [OF extend.prems(1)] show ?thesis by blast
  qed
qed (simp add: genesisNode_def)

text \<open>
  Whatever the payer signs, the payments of a session never exceed what its branches have spent:
  each edge lies below some leaf.
\<close>

lemma sum_list_filter_remove:
  fixes f :: "'a \<Rightarrow> int"
  assumes "distinct xs" "p \<in> set xs" "P p"
  shows "sum_list (map f (filter (\<lambda>x. P x \<and> x \<noteq> p) xs)) = sum_list (map f (filter P xs)) - f p"
  using assms
proof (induction xs)
  case (Cons x xs)
  show ?case
  proof (cases "x = p")
    case True
    with Cons have "filter (\<lambda>y. P y \<and> y \<noteq> p) xs = filter P xs" by (intro filter_cong) auto
    with True Cons show ?thesis by simp
  next
    case False
    with Cons show ?thesis by auto
  qed
qed simp

lemma grown_exposure:
  "grown L cx cert (genesisNode cert) ns es \<Longrightarrow> 0 \<le> sc_branchSpendingLimit cert \<Longrightarrow>
     sum_list (map ed_amount es) \<le> sum_list (map (spentAt cert) (leavesOf ns es))"
proof (induction rule: grown.induct)
  case genesis
  then show ?case by (simp add: leavesOf_def spentAt_def genesisNode_def)
next
  case (extend ns es p c t)
  let ?n = "vt_nextState t" and ?e = "vt_edge t"
  note t = transition_edge [OF extend.hyps(3)]
  have dist: "distinct (map pt_stateHash ns)" by (rule grown_distinct [OF extend.hyps(1)])
  have p_hash: "pt_stateHash x = pt_stateHash p \<longleftrightarrow> x = p" if "x \<in> set ns" for x
    using that dist extend.hyps(2) by (auto simp: distinct_map dest: inj_onD)
  have parents: "ed_parentStateHash ` set es \<subseteq> pt_stateHash ` set ns"
  proof clarify
    fix e assume "e \<in> set es"
    then obtain q m where "q \<in> set ns"
      "verifyStateTransition L cx cert q (ed_credential e) = Inr \<lparr>vt_edge = e, vt_nextState = m\<rparr>"
      using grown_edge [OF extend.hyps(1)] by blast
    with transition_edge(2) [OF this(2)] show "ed_parentStateHash e \<in> pt_stateHash ` set ns" by simp
  qed
  have fresh: "pt_stateHash ?n \<notin> ed_parentStateHash ` set es" using parents extend.hyps(4) by blast
  have self: "pt_stateHash ?n \<noteq> pt_stateHash p" using extend.hyps(2,4) by auto
  have leaves: "leavesOf (ns @ [?n]) (es @ [?e]) = filter (\<lambda>x. pt_stateHash x \<notin> ed_parentStateHash ` set es \<and> x \<noteq> p) ns @ [?n]"
    using fresh self t(2) p_hash by (auto simp: leavesOf_def intro!: filter_cong)
  have p_range: "pt_remaining p \<le> sc_branchSpendingLimit cert" using extend.hyps(3) by (simp add: verifyStateTransition_iff)
  have n: "spentAt cert ?n = spentAt cert p + ed_amount ?e" using t(8) by (simp add: spentAt_def)
  show ?case
  proof (cases "pt_stateHash p \<in> ed_parentStateHash ` set es")
    case True
    then have "filter (\<lambda>x. pt_stateHash x \<notin> ed_parentStateHash ` set es \<and> x \<noteq> p) ns = leavesOf ns es"
      by (auto simp: leavesOf_def intro!: filter_cong)
    with extend n p_range show ?thesis by (simp add: leaves spentAt_def)
  next
    case False
    have "distinct ns" using dist by (simp add: distinct_map)
    from sum_list_filter_remove [OF this extend.hyps(2), of "\<lambda>x. pt_stateHash x \<notin> ed_parentStateHash ` set es" "spentAt cert"] False
    have "sum_list (map (spentAt cert) (leavesOf (ns @ [?n]) (es @ [?e]))) =
        sum_list (map (spentAt cert) (leavesOf ns es)) - spentAt cert p + spentAt cert ?n"
      unfolding leaves by (simp add: leavesOf_def)
    with extend.IH [OF extend.prems] n show ?thesis by simp
  qed
qed

lemma sum_list_bound:
  fixes f :: "'a \<Rightarrow> int"
  shows "\<forall>x \<in> set xs. f x \<le> b \<Longrightarrow> sum_list (map f xs) \<le> int (length xs) * b"
proof (induction xs)
  case (Cons x xs)
  then have "f x \<le> b" "sum_list (map f xs) \<le> int (length xs) * b" by simp_all
  then show ?case by (simp add: distrib_right)
qed simp

lemma exposure_bound:
  assumes "grown L cx cert (genesisNode cert) ns es" "0 \<le> sc_branchSpendingLimit cert"
  shows "sum_list (map ed_amount es) \<le> int (length (leavesOf ns es)) * sc_branchSpendingLimit cert"
proof -
  have "\<forall>n \<in> set (leavesOf ns es). spentAt cert n \<le> sc_branchSpendingLimit cert"
    using grown_remaining [OF assms] by (auto simp: leavesOf_def spentAt_def)
  then have "sum_list (map (spentAt cert) (leavesOf ns es)) \<le> int (length (leavesOf ns es)) * sc_branchSpendingLimit cert"
    by (rule sum_list_bound)
  with grown_exposure [OF assms] show ?thesis by simp
qed

section \<open>Reconciled sessions\<close>

definition claimsOf :: "StateGraph \<Rightarrow> ReconciledClaim list" where
  "claimsOf g = map (\<lambda>edge. \<lparr>cl_edge = edge, cl_classification =
     (if bytesToHex (ed_childStateHash edge) \<in> set (conflictingChildHashes g) then CONFLICTING else VALID)\<rparr>) (sg_edges g)"

lemma claimsOf_edges [simp]: "map cl_edge (claimsOf g) = sg_edges g"
  by (simp add: claimsOf_def comp_def)

lemma claimsOf_amount: "totalAmount (claimsOf g) = sum_list (map ed_amount (sg_edges g))"
  by (simp add: totalAmount_def claimsOf_def comp_def)

lemma built_edge:
  assumes "buildStateGraph L i = Inr g" "e \<in> set (sg_edges g)"
  obtains p n where "p \<in> set (sg_nodes g)" "n \<in> set (sg_nodes g)"
    "verifyStateTransition L (in_context i) (in_sessionCertificate i) p (ed_credential e) = Inr \<lparr>vt_edge = e, vt_nextState = n\<rparr>"
proof -
  have "e \<in> set (ls_edges (finalState L i))" "set (sg_nodes g) = set (nodesOf (finalState L i))"
    using assms by (auto simp: buildStateGraph_iff)
  then show thesis using grown_edge [OF finalState_grown] that by blast
qed

lemma transition_fields:
  assumes "verifyStateTransition L cx cert p c = Inr t"
  shows "ed_parentStateHash (vt_edge t) = pc_previousStateHash c" "ed_childStateHash (vt_edge t) = pc_newStateHash c"
    "ed_sequence (vt_edge t) = pc_sequence c" "ed_merchant (vt_edge t) = pc_merchant c" "ed_amount (vt_edge t) = pc_amount c"
    "validatePaymentCredential L cx cert p c = Inr ()"
  using assms by (auto simp: verifyStateTransition_iff)

lemma built_edge_facts:
  assumes "buildStateGraph L i = Inr g" "e \<in> set (sg_edges g)"
  shows "0 < ed_amount e" "ed_amount e < 2 ^ 64" "0 \<le> ed_sequence e" "ed_sequence e < 2 ^ 32"
    "credentialHash L (ed_credential e) = Inr (ed_credentialHash e)"
    "ed_childStateHash e = pc_newStateHash (ed_credential e)" "ed_credential e \<in> set (in_credentials i)"
    "length (ed_parentStateHash e) = 32" "length (ed_childStateHash e) = 32" "length (ed_merchant e) = 32"
proof -
  obtain p n where "p \<in> set (sg_nodes g)" "n \<in> set (sg_nodes g)" and
    t: "verifyStateTransition L (in_context i) (in_sessionCertificate i) p (ed_credential e) = Inr \<lparr>vt_edge = e, vt_nextState = n\<rparr>"
    by (rule built_edge [OF assms])
  note e = transition_fields [OF t, simplified]
  from e(6) obtain m where m: "encodePaymentCredentialPayload L (ed_credential e) = Inr m"
    by (auto simp: validatePaymentCredential_iff)
  from m have "isOk (paymentCredentialValue (ed_credential e))" by (auto simp: encodePaymentCredentialPayload_def bindE_Inr_iff isOk_iff)
  then have v: "validPaymentCredential (ed_credential e)" by (simp add: paymentCredentialValue_ok)
  show "0 < ed_amount e" using transition_edge(6) [OF t] by simp
  show "ed_amount e < 2 ^ 64" "0 \<le> ed_sequence e" "ed_sequence e < 2 ^ 32" "length (ed_parentStateHash e) = 32"
    "length (ed_childStateHash e) = 32" "length (ed_merchant e) = 32"
    using v by (simp_all add: e(1-5) validPaymentCredential_def integer_ranges)
  show "credentialHash L (ed_credential e) = Inr (ed_credentialHash e)" using transition_edge(10) [OF t] by simp
  show "ed_childStateHash e = pc_newStateHash (ed_credential e)" by (rule e(2))
  have "mset (in_credentials i) = mset (map ed_credential (ls_edges (finalState L i))) + mset (map dc_credential (ls_duplicates (finalState L i))) +
      mset (map rc_credential (ls_invalid (finalState L i)))"
    using finalState_accounts [of L i] by (simp add: settledCredentials_def)
  then have "set (map ed_credential (ls_edges (finalState L i))) \<subseteq> set (in_credentials i)"
    by (metis mset_subset_eq_add_left set_mset_mono set_mset_mset add.assoc)
  moreover have "e \<in> set (ls_edges (finalState L i))" using assms by (auto simp: buildStateGraph_iff)
  ultimately show "ed_credential e \<in> set (in_credentials i)" by auto
qed

lemma built_distinct_hashes:
  assumes "collisionFree L (set (in_credentials i))" "buildStateGraph L i = Inr g"
  shows "distinct (map ed_credentialHash (sg_edges g))"
proof -
  have "distinct (map ed_childStateHash (ls_edges (finalState L i)))"
    by (rule grown_distinct_children [OF finalState_grown])
  moreover have "mset (map ed_childStateHash (sg_edges g)) = mset (map ed_childStateHash (ls_edges (finalState L i)))"
    using assms(2) by (auto simp: buildStateGraph_iff)
  ultimately have dist: "distinct (map ed_childStateHash (sg_edges g))" using mset_eq_imp_distinct_iff by blast
  have "inj_on ed_credentialHash (set (sg_edges g))"
  proof (rule inj_onI)
    fix a b
    assume ab: "a \<in> set (sg_edges g)" "b \<in> set (sg_edges g)" "ed_credentialHash a = ed_credentialHash b"
    note a = built_edge_facts(5-7) [OF assms(2) ab(1)] and b = built_edge_facts(5-7) [OF assms(2) ab(2)]
    have "ed_credential a = ed_credential b"
      using collisionFree_inject [OF assms(1) a(3) b(3) a(1)] b(1) ab(3) by simp
    then have "ed_childStateHash a = ed_childStateHash b" using a(2) b(2) by simp
    then show "a = b" using dist ab(1,2) by (auto simp: distinct_map dest: inj_onD)
  qed
  with dist show ?thesis by (simp add: distinct_map)
qed

lemma claims_allocatable:
  assumes "collisionFree L (set (in_credentials i))" "buildStateGraph L i = Inr g"
  shows "allocatable (claimsOf g) \<longleftrightarrow> sum_list (map ed_amount (sg_edges g)) \<le> U64_MAX"
  using built_distinct_hashes [OF assms] built_edge_facts(1) [OF assms(2)] claimsOf_amount [of g]
  by (auto simp: allocatable_def claimsOf_def comp_def)

lemma reconcileSession_iff:
  "reconcileSession L i = Inr r \<longleftrightarrow>
    (\<exists>g m. buildStateGraph L i = Inr g \<and> sum_list (map ed_amount (sg_edges g)) \<le> U64_MAX \<and> graphMessage g = Inr m \<and>
      r = \<lparr>rr_sessionId = sg_sessionId g, rr_stateGraph = g, rr_eligibleClaims = claimsOf g,
        rr_validClaims = filter (\<lambda>c. cl_classification c = VALID) (claimsOf g),
        rr_conflictingClaims = filter (\<lambda>c. cl_classification c = CONFLICTING) (claimsOf g),
        rr_invalidCredentials = sg_invalidCredentials g, rr_duplicateCredentials = sg_duplicateCredentials g,
        rr_forks = sg_forks g, rr_aggregateOfflineExposure = sum_list (map ed_amount (sg_edges g)),
        rr_conflictingExposure = totalAmount (filter (\<lambda>c. cl_classification c = CONFLICTING) (claimsOf g)),
        rr_stateGraphCommitment = sha256 L m\<rparr>)"
proof (cases "buildStateGraph L i")
  case (Inr g)
  let ?conflicting = "filter (\<lambda>c. cl_classification c = CONFLICTING) (claimsOf g)"
  have pos: "\<forall>e \<in> set (sg_edges g). 0 \<le> ed_amount e" using built_edge_facts(1) [OF Inr] by (simp add: less_imp_le)
  have pos': "\<forall>e \<in> set (map cl_edge ?conflicting). 0 \<le> ed_amount e" using pos by (auto simp: claimsOf_def)
  have part: "sum_list (map ed_amount (map cl_edge ?conflicting)) \<le> sum_list (map ed_amount (sg_edges g))"
  proof -
    have "sum_list (map claimAmount (filter P cs)) \<le> sum_list (map claimAmount cs)" if "\<forall>c \<in> set cs. 0 \<le> claimAmount c" for P cs
      using that by (induction cs) auto
    from this [of "claimsOf g"] pos show ?thesis
      by (simp add: claimsOf_def comp_def)
  qed
  show ?thesis
    unfolding reconcileSession_def Inr bindE_simps Let_def claimsOf_def [symmetric]
    using part
    by (auto simp: bindE_Inr_iff checkedExposure_iff [OF pos] checkedExposure_iff [OF pos'] stateGraphCommitment_def hashSha256_def
        totalAmount_def comp_def)
qed (simp add: reconcileSession_def)

end
