(* ===== verification/ReconciliationTheorems.thy ===== *)
theory ReconciliationTheorems
  imports SessionFacts LedgerTheorems
begin

text \<open>
  The properties of \<open>packages/reconciliation\<close>: what the allocation pays, which claims conflict,
  what the commitment binds, and how the exposure of a session relates to its collateral. The
  witnesses allocate three sample claims and reconcile the sample session.
\<close>

section \<open>Sample claims\<close>

definition sampleClaim :: "byte \<Rightarrow> int \<Rightarrow> ReconciledClaim" where
  "sampleClaim b amount = \<lparr>cl_edge = \<lparr>ed_credential = samplePayment, ed_credentialHash = replicate 32 b,
     ed_parentStateHash = [], ed_childStateHash = [], ed_sequence = 1, ed_merchant = replicate 32 b, ed_amount = amount\<rparr>,
     cl_classification = VALID\<rparr>"

definition sampleClaims :: "ReconciledClaim list" where
  "sampleClaims = [sampleClaim 2 3, sampleClaim 1 3, sampleClaim 3 4]"

lemma sampleClaims_allocatable: "allocatable sampleClaims" "totalAmount sampleClaims = 10" "sampleClaims \<noteq> []"
  by (simp_all add: allocatable_def totalAmount_def sampleClaims_def sampleClaim_def U64_MAX_def)

lemma sampleAllocation:
  "0 \<le> cap \<Longrightarrow> cap \<le> U64_MAX \<Longrightarrow> allocateDeterministicCoverage sampleClaims cap = Inr (coverageOf sampleClaims cap)"
  using sampleClaims_allocatable by (simp add: allocation_correct)

section \<open>The allocation\<close>

text \<open>
  C4: an allocation pays out exactly the smaller of the exposure and the cap. Every
  claim gets one allocation, no payout is negative or above its claim, and the claims are listed by
  ascending credential hash. The session is reported insolvent exactly when the exposure is above
  the cap.
\<close>

theorem allocation_pays:
  assumes "allocateDeterministicCoverage claims cap = Inr r"
  shows "cv_aggregateOfflineExposure r = sum_list (map (ed_amount \<circ> cl_edge) claims) \<and>
    cv_coverage r = min (cv_aggregateOfflineExposure r) cap \<and> cv_totalPayout r = cv_coverage r \<and>
    sum_list (map al_payout (cv_allocations r)) = cv_coverage r \<and>
    mset (map al_credentialHash (cv_allocations r)) = mset (map (ed_credentialHash \<circ> cl_edge) claims) \<and>
    sorted (map al_credentialHash (cv_allocations r)) \<and> distinct (map al_credentialHash (cv_allocations r)) \<and>
    (\<forall>x \<in> set (cv_allocations r). 0 \<le> al_payout x \<and> al_payout x \<le> al_amount x) \<and>
    cv_insolvent r = (cap < cv_aggregateOfflineExposure r)"
proof -
  have r: "r = coverageOf claims cap" and ok: "allocatable claims" "0 \<le> cap" using assms by (simp_all add: allocation_correct)
  have "sum_list (map al_payout (cv_allocations r)) = cv_coverage r"
  proof (cases "claims = []")
    case True
    with ok(2) show ?thesis by (simp add: r coverageOf_def allocationsOf_def Let_def orderedClaims_def totalAmount_def)
  next
    case False
    from payouts_total [OF allocation_setting [OF assms False]] show ?thesis by (simp add: r coverageOf_def Let_def)
  qed
  moreover have "\<forall>x \<in> set (cv_allocations r). 0 \<le> al_payout x \<and> al_payout x \<le> al_amount x"
    by (auto elim: allocation_member [OF assms])
  moreover have "distinct (map al_credentialHash (cv_allocations r))"
    using mset_eq_imp_distinct_iff [OF allocation_hashes(1) [OF assms]] ok(1) by (simp add: allocatable_def)
  ultimately show ?thesis
    using allocation_hashes [OF assms] by (simp add: r coverageOf_def Let_def totalAmount_def comp_def)
qed

theorem allocation_pays_witness:
  "\<exists>r. allocateDeterministicCoverage sampleClaims 7 = Inr r \<and> cv_totalPayout r = 7 \<and> cv_insolvent r \<and>
     sum_list (map al_payout (cv_allocations r)) = 7"
proof -
  have "allocateDeterministicCoverage sampleClaims 7 = Inr (coverageOf sampleClaims 7)"
    by (rule sampleAllocation) (simp_all add: U64_MAX_def)
  from allocation_pays [OF this] this show ?thesis
    using sampleClaims_allocatable(2) by (simp add: totalAmount_def comp_def)
qed

lemma exposure_positive:
  assumes "allocateDeterministicCoverage claims cap = Inr r" "x \<in> set (cv_allocations r)"
  shows "0 < cv_aggregateOfflineExposure r"
proof -
  obtain c where "c \<in> set claims" by (rule allocation_member [OF assms]) blast
  then have "claims \<noteq> []" by auto
  from total_positive [OF allocation_setting [OF assms(1) this]] show ?thesis
    using assms(1) by (simp add: allocation_correct coverageOf_def Let_def)
qed

lemma solvent_payout:
  assumes "allocateDeterministicCoverage claims cap = Inr r" "x \<in> set (cv_allocations r)" "\<not> cv_insolvent r"
  shows "al_payout x = al_amount x"
proof -
  obtain c dust where c: "al_amount x = claimAmount c"
    "al_baseAllocation x = claimAmount c * cv_coverage r div cv_aggregateOfflineExposure r"
    "dust = 0 \<or> dust = 1" "al_payout x = al_baseAllocation x + dust" "al_payout x \<le> claimAmount c"
    by (rule allocation_member [OF assms(1,2)]) blast
  have "cv_coverage r = cv_aggregateOfflineExposure r"
    using assms(1,3) by (simp add: allocation_correct coverageOf_def Let_def)
  with c(2) exposure_positive [OF assms(1,2)] have "al_baseAllocation x = claimAmount c" by simp
  with c show ?thesis by auto
qed

text \<open>
  Every payout is within one unit of the claim's exact share of the
  coverage; when the cap covers the exposure, every claim is paid in full.
\<close>

theorem allocation_is_fair:
  assumes "allocateDeterministicCoverage claims cap = Inr r" "x \<in> set (cv_allocations r)"
  shows "al_amount x * cv_coverage r - cv_aggregateOfflineExposure r < al_payout x * cv_aggregateOfflineExposure r \<and>
    al_payout x * cv_aggregateOfflineExposure r \<le> al_amount x * cv_coverage r + cv_aggregateOfflineExposure r \<and>
    (\<not> cv_insolvent r \<longrightarrow> al_payout x = al_amount x)"
proof -
  obtain c dust where c: "c \<in> set claims" "al_amount x = claimAmount c"
    "al_baseAllocation x = claimAmount c * cv_coverage r div cv_aggregateOfflineExposure r"
    "dust = 0 \<or> dust = 1" "al_payout x = al_baseAllocation x + dust" "al_payout x \<le> claimAmount c"
    by (rule allocation_member [OF assms]) blast
  let ?T = "cv_aggregateOfflineExposure r" and ?a = "al_amount x * cv_coverage r"
  have T: "0 < ?T" by (rule exposure_positive [OF assms])
  have base: "al_baseAllocation x * ?T = ?a - ?a mod ?T" using c(2,3) by (simp add: minus_mod_eq_div_mult)
  have pay: "al_payout x * ?T = al_baseAllocation x * ?T + dust * ?T" using c(5) by (simp add: distrib_right)
  have "dust * ?T = 0 \<or> dust * ?T = ?T" using c(4) by auto
  with base pay pos_mod_bound [OF T, of ?a] pos_mod_sign [OF T, of ?a]
  have bounds: "?a - ?T < al_payout x * ?T \<and> al_payout x * ?T \<le> ?a + ?T" using T by linarith
  with solvent_payout [OF assms] show ?thesis by blast
qed

theorem allocation_is_fair_witness:
  "\<exists>r. allocateDeterministicCoverage sampleClaims 10 = Inr r \<and> (\<exists>x \<in> set (cv_allocations r). al_payout x = al_amount x)"
proof -
  have a: "allocateDeterministicCoverage sampleClaims 10 = Inr (coverageOf sampleClaims 10)"
    by (rule sampleAllocation) (simp_all add: U64_MAX_def)
  have "map al_credentialHash (cv_allocations (coverageOf sampleClaims 10)) \<noteq> []"
    using allocation_hashes(1) [OF a] by (auto simp: sampleClaims_def)
  then obtain x where x: "x \<in> set (cv_allocations (coverageOf sampleClaims 10))" by (cases "cv_allocations (coverageOf sampleClaims 10)") auto
  have "\<not> cv_insolvent (coverageOf sampleClaims 10)"
    using sampleClaims_allocatable(2) by (simp add: coverageOf_def Let_def)
  with allocation_is_fair [OF a x] a x show ?thesis by blast
qed

text \<open>
  The allocation succeeds exactly on a 64-bit cap and positive claims with
  distinct hashes whose sum fits in 64 bits. Its three internal checks (on the dust, on a payout
  above its claim, on the total) never fail: every error is one of the four on the input.
\<close>

theorem allocation_is_total:
  "((\<exists>r. allocateDeterministicCoverage claims cap = Inr r) \<longleftrightarrow>
      0 \<le> cap \<and> cap < 2 ^ 64 \<and> (\<forall>c \<in> set claims. 0 < ed_amount (cl_edge c)) \<and>
      distinct (map (ed_credentialHash \<circ> cl_edge) claims) \<and> sum_list (map (ed_amount \<circ> cl_edge) claims) < 2 ^ 64) \<and>
   (\<forall>e. allocateDeterministicCoverage claims cap = Inl e \<longrightarrow>
      e \<in> {JsError ''COLLATERAL_COVERAGE_CAP_OUT_OF_RANGE'', JsError ''CLAIM_AMOUNT_OUT_OF_RANGE'',
        JsError ''DUPLICATE_ALLOCATION_EDGE'', JsError ''EXPOSURE_OVERFLOW''})"
proof (intro conjI allI impI)
  show "(\<exists>r. allocateDeterministicCoverage claims cap = Inr r) \<longleftrightarrow>
      0 \<le> cap \<and> cap < 2 ^ 64 \<and> (\<forall>c \<in> set claims. 0 < ed_amount (cl_edge c)) \<and>
      distinct (map (ed_credentialHash \<circ> cl_edge) claims) \<and> sum_list (map (ed_amount \<circ> cl_edge) claims) < 2 ^ 64"
    by (auto simp: allocation_correct allocatable_def totalAmount_def U64_MAX_def comp_def)
  show "e \<in> {JsError ''COLLATERAL_COVERAGE_CAP_OUT_OF_RANGE'', JsError ''CLAIM_AMOUNT_OUT_OF_RANGE'',
      JsError ''DUPLICATE_ALLOCATION_EDGE'', JsError ''EXPOSURE_OVERFLOW''}"
    if "allocateDeterministicCoverage claims cap = Inl e" for e
    using that by (rule allocation_error)
qed

theorem allocation_is_total_witness:
  "(\<exists>r. allocateDeterministicCoverage sampleClaims 7 = Inr r) \<and>
   (\<forall>r. allocateDeterministicCoverage (sampleClaims @ sampleClaims) 7 \<noteq> Inr r)"
  using allocation_is_total [of sampleClaims 7] allocation_is_total [of "sampleClaims @ sampleClaims" 7]
    sampleClaims_allocatable
  by (auto simp: allocatable_def totalAmount_def U64_MAX_def comp_def sampleClaims_def sampleClaim_def)

text \<open>
  The allocation depends only on which claims are given, not on their
  order.
\<close>

theorem allocation_ignores_order:
  assumes "mset a = mset b"
  shows "(allocateDeterministicCoverage a cap = Inr r) = (allocateDeterministicCoverage b cap = Inr r)"
  using assms by (rule allocation_order)

theorem allocation_ignores_order_witness:
  "\<exists>r. allocateDeterministicCoverage (rev sampleClaims) 7 = Inr r \<and> allocateDeterministicCoverage sampleClaims 7 = Inr r"
  using allocation_ignores_order [of "rev sampleClaims" sampleClaims 7] sampleAllocation [of 7]
  by (simp add: U64_MAX_def)

section \<open>Reconciled sessions\<close>

lemma commitment_defined:
  assumes "buildStateGraph L i = Inr g"
  shows "(\<exists>m. graphMessage g = Inr m) \<longleftrightarrow> length (sg_edges g) < 2 ^ 32"
proof -
  have "\<exists>ps. list_all2 (\<lambda>e p. edgeParts e = Inr p) es ps" if "set es \<subseteq> set (sg_edges g)" for es
    using that
  proof (induction es)
    case Nil
    show ?case by (rule exI [of _ "[]"]) simp
  next
    case (Cons e es)
    note e = built_edge_facts [OF assms, of e]
    have "\<exists>p. edgeParts e = Inr p" using e(1-4) Cons.prems by (simp add: edgeParts_iff)
    with Cons show ?case by (auto simp: list_all2_Cons1)
  qed
  from this [of "sg_edges g"] show ?thesis
    by (auto simp: graphMessage_def bindE_Inr_iff mapE_Inr_iff u32_iff)
qed

text \<open>
  Reconciling fails in three cases only: the graph cannot be built, the
  payments sum to more than 64 bits hold, or there are 2^32 edges.
\<close>

theorem reconcile_succeeds:
  "(\<exists>r. reconcileSession L i = Inr r) \<longleftrightarrow>
     (\<exists>g. buildStateGraph L i = Inr g \<and> sum_list (map ed_amount (sg_edges g)) < 2 ^ 64 \<and> length (sg_edges g) < 2 ^ 32)"
  using commitment_defined [of L i] by (auto simp: reconcileSession_iff U64_MAX_def)

lemma sampleEdges:
  assumes "buildStateGraph sampleLib (sampleInput [samplePayment]) = Inr g"
  shows "length (sg_edges g) \<le> 1" "length (sg_nodes g) \<le> 2" "sum_list (map ed_amount (sg_edges g)) < 2 ^ 64"
proof -
  have "length (ls_edges (finalState sampleLib (sampleInput [samplePayment]))) \<le> 1"
    using arg_cong [OF finalState_accounts [of sampleLib "sampleInput [samplePayment]"], of size] by (simp add: settledCredentials_def)
  then show edges: "length (sg_edges g) \<le> 1" using assms by (auto simp: buildStateGraph_iff)
  then show "length (sg_nodes g) \<le> 2"
    using assms grown_length [OF finalState_grown [of sampleLib "sampleInput [samplePayment]"]] by (auto simp: buildStateGraph_iff)
  show "sum_list (map ed_amount (sg_edges g)) < 2 ^ 64"
    using edges built_edge_facts(2) [OF assms] by (cases "sg_edges g") auto
qed

lemma sampleReconciled: obtains r where "reconcileSession sampleLib (sampleInput [samplePayment]) = Inr r"
proof -
  obtain g where g: "buildStateGraph sampleLib (sampleInput [samplePayment]) = Inr g" by (rule sampleGraph)
  obtain m where "graphMessage g = Inr m" using commitment_defined [OF g] sampleEdges(1) [OF g] by auto
  with g sampleEdges(3) [OF g] that show thesis by (auto simp: reconcileSession_iff U64_MAX_def)
qed

text \<open>
  C21: a reconciled session claims every edge of its graph, each once, split into
  valid and conflicting claims. A claim conflicts exactly when its state is a child of a fork or
  descends from one; nothing else taints it. The exposures are the sums of the claims.
\<close>

theorem conflicts_exact:
  assumes "reconcileSession L i = Inr r"
  shows "buildStateGraph L i = Inr (rr_stateGraph r) \<and> map cl_edge (rr_eligibleClaims r) = sg_edges (rr_stateGraph r) \<and>
    mset (rr_eligibleClaims r) = mset (rr_validClaims r) + mset (rr_conflictingClaims r) \<and>
    (\<forall>c \<in> set (rr_eligibleClaims r). c \<in> set (rr_conflictingClaims r) \<longleftrightarrow>
       descends (sg_edges (rr_stateGraph r)) (\<Union>f \<in> set (detectForks (rr_stateGraph r)). set (fp_childStateHashes f))
         (ed_childStateHash (cl_edge c))) \<and>
    rr_aggregateOfflineExposure r = sum_list (map (ed_amount \<circ> cl_edge) (rr_eligibleClaims r)) \<and>
    rr_conflictingExposure r = sum_list (map (ed_amount \<circ> cl_edge) (rr_conflictingClaims r))"
proof -
  obtain g where g: "buildStateGraph L i = Inr g" and r: "rr_stateGraph r = g" "rr_eligibleClaims r = claimsOf g"
    "rr_validClaims r = filter (\<lambda>c. cl_classification c = VALID) (claimsOf g)"
    "rr_conflictingClaims r = filter (\<lambda>c. cl_classification c = CONFLICTING) (claimsOf g)"
    "rr_aggregateOfflineExposure r = totalAmount (claimsOf g)" "rr_conflictingExposure r = totalAmount (rr_conflictingClaims r)"
    using assms by (auto simp: reconcileSession_iff claimsOf_amount)
  have forks: "sg_forks g = detectForks g" using g by (auto simp: buildStateGraph_iff detectForks_def)
  have other: "cl_classification c = CONFLICTING \<longleftrightarrow> cl_classification c \<noteq> VALID" for c :: ReconciledClaim
    by (cases "cl_classification c") simp_all
  have "mset (rr_eligibleClaims r) = mset (rr_validClaims r) + mset (rr_conflictingClaims r)"
    unfolding r(2-4) mset_filter other by (rule multiset_partition)
  moreover have "c \<in> set (rr_conflictingClaims r) \<longleftrightarrow> bytesToHex (ed_childStateHash (cl_edge c)) \<in> set (conflictingChildHashes g)"
    if "c \<in> set (rr_eligibleClaims r)" for c
    using that by (auto simp: r claimsOf_def split: if_splits)
  ultimately show ?thesis
    using g by (simp add: conflictingChildHashes_exact forks r(1,2,5,6) totalAmount_def comp_def)
qed

theorem conflicts_exact_witness:
  "\<exists>r. reconcileSession sampleLib (sampleInput [samplePayment]) = Inr r \<and>
     map cl_edge (rr_eligibleClaims r) = sg_edges (rr_stateGraph r)"
proof -
  obtain r where r: "reconcileSession sampleLib (sampleInput [samplePayment]) = Inr r" by (rule sampleReconciled)
  from conflicts_exact [OF this] r show ?thesis by blast
qed

lemma built_valid:
  assumes "buildStateGraph L i = Inr g"
  shows "validSessionCertificate (in_sessionCertificate i)"
proof -
  have "verifySessionCertificate L (in_sessionCertificate i)"
    using assms by (simp add: buildStateGraph_iff buildable_def validateCertificateChain_iff trustedCertificate_def)
  then have "isOk (sessionCertificateValue (in_sessionCertificate i))"
    by (auto simp: verifySessionCertificate_iff encodeSessionCertificatePayload_def bindE_Inr_iff isOk_iff)
  then show ?thesis by (simp add: sessionCertificateValue_ok)
qed

lemma built_well_formed:
  assumes "hash_ok L" "buildStateGraph L i = Inr g"
  shows "graphWellFormed g"
proof -
  let ?cert = "in_sessionCertificate i"
  note valid = built_valid [OF assms(2)]
  have "edgeWellFormed e" if "e \<in> set (sg_edges g)" for e
    using built_edge_facts(5,8-10) [OF assms(2) that] assms(1) by (auto simp: edgeWellFormed_def credentialHash_iff hash_ok_def)
  moreover have "sg_sessionId g = sc_sessionId ?cert" "pt_stateHash (sg_genesis g) = sc_genesisStateHash ?cert"
    using assms(2) by (auto simp: buildStateGraph_iff)
  ultimately show ?thesis using valid by (simp add: graphWellFormed_def validSessionCertificate_def)
qed

text \<open>
  The commitment binds the session. When two reconciliations commit to the
  same 32 bytes, and SHA-256 does not collide on their two messages, they are about the same
  session, the same genesis and the same payments: same credential hashes, states, sequences,
  merchants and amounts, in the same order.
\<close>

theorem commitment_binds:
  assumes "hash_ok L" "reconcileSession L i = Inr r" "reconcileSession L j = Inr s"
    and "rr_stateGraphCommitment r = rr_stateGraphCommitment s"
    and "\<forall>x y. graphMessage (rr_stateGraph r) = Inr x \<longrightarrow> graphMessage (rr_stateGraph s) = Inr y \<longrightarrow>
      sha256 L x = sha256 L y \<longrightarrow> x = y"
  shows "length (rr_stateGraphCommitment r) = 32 \<and> rr_sessionId r = rr_sessionId s \<and>
    pt_stateHash (sg_genesis (rr_stateGraph r)) = pt_stateHash (sg_genesis (rr_stateGraph s)) \<and>
    map edgeSummary (sg_edges (rr_stateGraph r)) = map edgeSummary (sg_edges (rr_stateGraph s)) \<and>
    rr_aggregateOfflineExposure r = rr_aggregateOfflineExposure s"
proof -
  obtain g x where g: "buildStateGraph L i = Inr g" "graphMessage g = Inr x" and r: "rr_stateGraph r = g"
    "rr_stateGraphCommitment r = sha256 L x" "rr_sessionId r = sg_sessionId g"
    "rr_aggregateOfflineExposure r = sum_list (map ed_amount (sg_edges g))"
    using assms(2) by (auto simp: reconcileSession_iff)
  obtain h y where h: "buildStateGraph L j = Inr h" "graphMessage h = Inr y" and s: "rr_stateGraph s = h"
    "rr_stateGraphCommitment s = sha256 L y" "rr_sessionId s = sg_sessionId h"
    "rr_aggregateOfflineExposure s = sum_list (map ed_amount (sg_edges h))"
    using assms(3) by (auto simp: reconcileSession_iff)
  have "x = y" using assms(4,5) g(2) h(2) r(1,2) s(1,2) by simp
  from graphMessage_inject [OF built_well_formed [OF assms(1) g(1)] built_well_formed [OF assms(1) h(1)] g(2)] h(2) this
  have eq: "sg_sessionId g = sg_sessionId h" "pt_stateHash (sg_genesis g) = pt_stateHash (sg_genesis h)"
    "map edgeSummary (sg_edges g) = map edgeSummary (sg_edges h)" by simp_all
  have "map ed_amount es = map (snd \<circ> snd \<circ> snd \<circ> snd \<circ> snd) (map edgeSummary es)" for es
    by (simp add: edgeSummary_def)
  with eq(3) have "map ed_amount (sg_edges g) = map ed_amount (sg_edges h)" by metis
  with eq show ?thesis using r s assms(1) by (simp add: hash_ok_def)
qed

theorem commitment_binds_witness:
  "\<exists>r. reconcileSession sampleLib (sampleInput [samplePayment]) = Inr r \<and> length (rr_stateGraphCommitment r) = 32"
proof -
  obtain r where r: "reconcileSession sampleLib (sampleInput [samplePayment]) = Inr r" by (rule sampleReconciled)
  from commitment_binds [OF sampleLib_hash r r refl] r show ?thesis by force
qed

section \<open>Exposure and collateral\<close>

lemma built_exposure:
  assumes "buildStateGraph L i = Inr g"
  shows "sum_list (map ed_amount (sg_edges g)) \<le>
    int (length (leavesOf (sg_nodes g) (sg_edges g))) * sc_branchSpendingLimit (in_sessionCertificate i)"
proof -
  let ?st = "finalState L i"
  have limit: "0 \<le> sc_branchSpendingLimit (in_sessionCertificate i)"
    using assms by (simp add: buildStateGraph_iff buildable_def validateCertificateChain_iff soundTerms_def)
  have m: "mset (sg_nodes g) = mset (nodesOf ?st)" "mset (sg_edges g) = mset (ls_edges ?st)"
    using assms by (auto simp: buildStateGraph_iff)
  have "mset (leavesOf (sg_nodes g) (sg_edges g)) = mset (leavesOf (nodesOf ?st) (ls_edges ?st))"
    unfolding leavesOf_def using m(1) mset_eq_setD [OF m(2)] by simp
  then have "length (leavesOf (sg_nodes g) (sg_edges g)) = length (leavesOf (nodesOf ?st) (ls_edges ?st))" by (rule mset_eq_length)
  moreover have "sum_list (map ed_amount (sg_edges g)) = sum_list (map ed_amount (ls_edges ?st))"
    using m(2) by (metis mset_map sum_mset_sum_list)
  ultimately show ?thesis using exposure_bound [OF finalState_grown limit] by simp
qed

lemma three_branches:
  assumes "buildStateGraph L i = Inr g" "length (leavesOf (sg_nodes g) (sg_edges g)) \<le> 3"
  shows "sum_list (map ed_amount (sg_edges g)) \<le> sc_collateralLocked (in_sessionCertificate i)"
proof -
  let ?limit = "sc_branchSpendingLimit (in_sessionCertificate i)"
  have terms: "0 < ?limit" "3 * ?limit \<le> sc_collateralLocked (in_sessionCertificate i)"
    using assms(1) by (simp_all add: buildStateGraph_iff buildable_def validateCertificateChain_iff soundTerms_def)
  have "int (length (leavesOf (sg_nodes g) (sg_edges g))) * ?limit \<le> 3 * ?limit"
    using assms(2) terms(1) by (intro mult_right_mono) auto
  with built_exposure [OF assms(1)] terms(2) show ?thesis by linarith
qed

lemma filtered_amount: "\<forall>c \<in> set cs. 0 \<le> claimAmount c \<Longrightarrow> totalAmount (filter P cs) \<le> totalAmount cs"
  unfolding totalAmount_def by (induction cs) auto

text \<open>
  C29: however the payer forks, the exposure of a session is at most the
  spending limit for every branch that ends in an unspent state. Up to three branches are within
  the collateral, which the certificate chain requires to be at least three limits.
\<close>

theorem exposure_is_bounded:
  assumes "reconcileSession L i = Inr r"
  shows "rr_conflictingExposure r \<le> rr_aggregateOfflineExposure r \<and>
    rr_aggregateOfflineExposure r \<le>
      int (length (leavesOf (sg_nodes (rr_stateGraph r)) (sg_edges (rr_stateGraph r)))) *
        sc_branchSpendingLimit (in_sessionCertificate i) \<and>
    (length (leavesOf (sg_nodes (rr_stateGraph r)) (sg_edges (rr_stateGraph r))) \<le> 3 \<longrightarrow>
       rr_aggregateOfflineExposure r \<le> sc_collateralLocked (in_sessionCertificate i))"
proof -
  let ?limit = "sc_branchSpendingLimit (in_sessionCertificate i)"
  obtain g where g: "buildStateGraph L i = Inr g" and r: "rr_stateGraph r = g"
    "rr_aggregateOfflineExposure r = totalAmount (claimsOf g)"
    "rr_conflictingExposure r = totalAmount (filter (\<lambda>c. cl_classification c = CONFLICTING) (claimsOf g))"
    using assms by (auto simp: reconcileSession_iff claimsOf_amount)
  let ?n = "length (leavesOf (sg_nodes g) (sg_edges g))"
  have bound: "totalAmount (claimsOf g) \<le> int ?n * ?limit"
    using built_exposure [OF g] by (simp add: claimsOf_amount)
  have three: "totalAmount (claimsOf g) \<le> sc_collateralLocked (in_sessionCertificate i)" if "?n \<le> 3"
    using three_branches [OF g that] by (simp add: claimsOf_amount)
  have "\<forall>c \<in> set (claimsOf g). 0 \<le> claimAmount c" using built_edge_facts(1) [OF g] by (auto simp: claimsOf_def less_imp_le)
  then have "totalAmount (filter P (claimsOf g)) \<le> totalAmount (claimsOf g)" for P by (rule filtered_amount)
  with bound three show ?thesis by (simp add: r)
qed

theorem exposure_is_bounded_witness:
  "\<exists>r. reconcileSession sampleLib (sampleInput [samplePayment]) = Inr r \<and> rr_aggregateOfflineExposure r \<le> 300"
proof -
  obtain r where r: "reconcileSession sampleLib (sampleInput [samplePayment]) = Inr r" by (rule sampleReconciled)
  then have "buildStateGraph sampleLib (sampleInput [samplePayment]) = Inr (rr_stateGraph r)" by (auto simp: reconcileSession_iff)
  from sampleEdges(2) [OF this] have "length (leavesOf (sg_nodes (rr_stateGraph r)) (sg_edges (rr_stateGraph r))) \<le> 3"
    unfolding leavesOf_def by (rule order_trans [OF length_filter_le, rotated, THEN order_trans]) simp
  with exposure_is_bounded [OF r] have "rr_aggregateOfflineExposure r \<le> sc_collateralLocked sampleCertificate" by simp
  with r show ?thesis by auto
qed

text \<open>
  C16: the claims of a reconciled session always allocate on the coverage cap of
  its certificate, and while the payer has opened at most three branches every merchant is paid in
  full, conflicting payments included.
\<close>

theorem claims_are_settled:
  assumes "collisionFree L (set (in_credentials i))" "reconcileSession L i = Inr r"
  shows "\<exists>a. allocateDeterministicCoverage (rr_eligibleClaims r) (sc_collateralCoverageCap (in_sessionCertificate i)) = Inr a \<and>
    cv_aggregateOfflineExposure a = rr_aggregateOfflineExposure r \<and>
    (length (leavesOf (sg_nodes (rr_stateGraph r)) (sg_edges (rr_stateGraph r))) \<le> 3 \<longrightarrow>
       \<not> cv_insolvent a \<and> (\<forall>x \<in> set (cv_allocations a). al_payout x = al_amount x))"
proof -
  let ?cert = "in_sessionCertificate i"
  obtain g where g: "buildStateGraph L i = Inr g" "sum_list (map ed_amount (sg_edges g)) \<le> U64_MAX" and
    r: "rr_stateGraph r = g" "rr_eligibleClaims r = claimsOf g" "rr_aggregateOfflineExposure r = totalAmount (claimsOf g)"
    using assms(2) by (auto simp: reconcileSession_iff claimsOf_amount)
  have cap: "0 \<le> sc_collateralCoverageCap ?cert" "sc_collateralCoverageCap ?cert \<le> U64_MAX"
    using built_valid [OF g(1)] by (simp_all add: validSessionCertificate_def integer_ranges U64_MAX_def)
  let ?a = "coverageOf (claimsOf g) (sc_collateralCoverageCap ?cert)"
  have a: "allocateDeterministicCoverage (claimsOf g) (sc_collateralCoverageCap ?cert) = Inr ?a"
    using claims_allocatable [OF assms(1) g(1)] g(2) cap by (simp add: allocation_correct)
  have "\<not> cv_insolvent ?a" if "length (leavesOf (sg_nodes g) (sg_edges g)) \<le> 3"
  proof -
    have "sc_collateralCoverageCap ?cert = sc_collateralLocked ?cert"
      using g(1) by (simp add: buildStateGraph_iff buildable_def validateCertificateChain_iff soundTerms_def)
    with three_branches [OF g(1) that] show ?thesis by (simp add: coverageOf_def Let_def claimsOf_amount)
  qed
  with solvent_payout [OF a] a show ?thesis
    by (intro exI [of _ ?a]) (auto simp: r coverageOf_def Let_def)
qed

theorem claims_are_settled_witness:
  "\<exists>r a. reconcileSession sampleLib (sampleInput [samplePayment]) = Inr r \<and>
     allocateDeterministicCoverage (rr_eligibleClaims r) 300 = Inr a"
proof -
  obtain r where r: "reconcileSession sampleLib (sampleInput [samplePayment]) = Inr r" by (rule sampleReconciled)
  from claims_are_settled [OF _ this] sample_collisionFree r show ?thesis by auto
qed

end
