(* ===== verification/TextCoding.thy ===== *)
theory TextCoding
  imports SharedTypes DecimalText
begin

text \<open>
  The text encodings of \<open>packages/transports/src/index.ts\<close>: lower-case hexadecimal, unpadded
  base64url, canonical decimal numbers and dot-separated fields, each with its inverse.

  The bitwise operators of JavaScript work on 32-bit integers: the accumulator is a \<open>32 word\<close>,
  which its 24 bits never leave.
\<close>

section \<open>Hexadecimal\<close>

text \<open>\<open>text.indexOf(char)\<close>, \<open>None\<close> where it is \<open>-1\<close>\<close>

fun indexOfChar :: "string \<Rightarrow> char \<Rightarrow> nat option" where
  "indexOfChar [] c = None"
| "indexOfChar (x # xs) c = (if x = c then Some 0 else map_option Suc (indexOfChar xs c))"

definition hexValue :: "char \<Rightarrow> nat" where
  "hexValue c = (case indexOfChar ''0123456789abcdef'' c of None \<Rightarrow> 0 | Some n \<Rightarrow> n)"

fun hexPairs :: "string \<Rightarrow> bytes" where
  "hexPairs (h # l # rest) = word_of_nat (16 * hexValue h + hexValue l) # hexPairs rest"
| "hexPairs _ = []"

definition hexToBytes :: "string \<Rightarrow> bytes result" where
  "hexToBytes value =
    bindE (throwIf (\<not> (value \<noteq> [] \<and> list_all (\<lambda>c. c \<in> set ''0123456789abcdef'') value) \<or> length value mod 2 \<noteq> 0)
      ''INVALID_QR_FRAME'') (\<lambda>_.
      Inr (hexPairs value))"

lemma indexOfChar_Some: "indexOfChar xs c = Some n \<Longrightarrow> n < length xs \<and> xs ! n = c"
  by (induction xs c arbitrary: n rule: indexOfChar.induct) (auto split: if_splits)

lemma indexOfChar_member: "c \<in> set xs \<Longrightarrow> \<exists>n. indexOfChar xs c = Some n"
  by (induction xs c rule: indexOfChar.induct) auto

lemma indexOfChar_nth: "distinct xs \<Longrightarrow> n < length xs \<Longrightarrow> indexOfChar xs (xs ! n) = Some n"
proof -
  assume d: "distinct xs" and n: "n < length xs"
  then obtain m where "indexOfChar xs (xs ! n) = Some m" using indexOfChar_member by fastforce
  with indexOfChar_Some [OF this] d n show ?thesis by (metis nth_eq_iff_index_eq)
qed

lemma hexValue_hexDigit: "n < 16 \<Longrightarrow> hexValue (hexDigit n) = n"
  unfolding hexValue_def hexDigit_def by (subst indexOfChar_nth) auto

lemma hexDigit_hexValue: "c \<in> set ''0123456789abcdef'' \<Longrightarrow> hexDigit (hexValue c) = c \<and> hexValue c < 16"
  using indexOfChar_member [of c "''0123456789abcdef''"] indexOfChar_Some [of "''0123456789abcdef''" c]
  by (auto simp: hexValue_def hexDigit_def simp del: indexOfChar.simps)

lemma byte_parts: "unat (b :: byte) div 16 < 16" "word_of_nat (16 * (unat b div 16) + unat b mod 16) = b"
proof -
  have "unat b < 256" using unsigned_less [of b] by simp
  then show "unat b div 16 < 16" by simp
  show "word_of_nat (16 * (unat b div 16) + unat b mod 16) = b" by (simp add: mult_div_mod_eq)
qed

lemma hexPairs_bytesToHex: "hexPairs (bytesToHex bs) = bs"
  by (induction bs) (simp_all add: byteHex_def hexValue_hexDigit byte_parts)

lemma bytesToHex_hexPairs:
  "list_all (\<lambda>c. c \<in> set ''0123456789abcdef'') s \<Longrightarrow> even (length s) \<Longrightarrow> bytesToHex (hexPairs s) = s"
proof (induction s rule: hexPairs.induct)
  case (1 h l rest)
  then have h: "hexDigit (hexValue h) = h" "hexValue h < 16" and l: "hexDigit (hexValue l) = l" "hexValue l < 16"
    using hexDigit_hexValue [of h] hexDigit_hexValue [of l] by simp_all
  have "16 * hexValue h + hexValue l < 256" using h l by simp
  then have "unat (word_of_nat (16 * hexValue h + hexValue l) :: byte) = 16 * hexValue h + hexValue l"
    by (simp only: unat_of_nat) simp
  then have "byteHex (word_of_nat (16 * hexValue h + hexValue l)) = [h, l]" using h l by (simp add: byteHex_def)
  with 1 show ?case by simp
qed simp_all

lemma bytesToHex_digits: "list_all (\<lambda>c. c \<in> set ''0123456789abcdef'') (bytesToHex bs)"
proof (induction bs)
  case (Cons b bs)
  have "hexDigit n \<in> set ''0123456789abcdef''" if "n < 16" for n
    unfolding hexDigit_def using that by (intro nth_mem) simp
  with Cons byte_parts(1) [of b] show ?case by (simp add: byteHex_def)
qed simp

lemma hexToBytes_iff: "hexToBytes s = Inr bs \<longleftrightarrow> bs \<noteq> [] \<and> s = bytesToHex bs"
proof
  assume l: "hexToBytes s = Inr bs"
  then have "s \<noteq> []" "even (length s)" "bs = hexPairs s" "bytesToHex (hexPairs s) = s"
    by (auto simp: hexToBytes_def bindE_Inr_iff even_iff_mod_2_eq_zero intro!: bytesToHex_hexPairs)
  then show "bs \<noteq> [] \<and> s = bytesToHex bs" by auto
next
  assume r: "bs \<noteq> [] \<and> s = bytesToHex bs"
  then have "bytesToHex bs \<noteq> []" by (cases bs) (simp_all add: byteHex_def)
  with r show "hexToBytes s = Inr bs"
    by (simp add: hexToBytes_def hexPairs_bytesToHex bytesToHex_digits del: list.set)
qed

section \<open>Base64url\<close>

definition BASE64URL_ALPHABET :: string where
  "BASE64URL_ALPHABET = ''ABCDEFGHIJKLMNOPQRSTUVWXYZabcdefghijklmnopqrstuvwxyz0123456789-_''"

text \<open>\<open>(first << 16) | (second << 8) | third\<close>\<close>

definition packBytes :: "byte \<Rightarrow> byte \<Rightarrow> byte \<Rightarrow> 32 word" where
  "packBytes first second third = push_bit 16 (ucast first) OR push_bit 8 (ucast second) OR ucast third"

text \<open>\<open>BASE64URL_ALPHABET[(packed >>> shift) & 63]\<close>\<close>

definition base64Digit :: "32 word \<Rightarrow> nat \<Rightarrow> char" where
  "base64Digit packed shift = BASE64URL_ALPHABET ! unat (drop_bit shift packed AND 63)"

text \<open>One round of the loop per three bytes; a missing byte counts as zero and yields no digit.\<close>

fun base64UrlEncode :: "bytes \<Rightarrow> string" where
  "base64UrlEncode [] = []"
| "base64UrlEncode [first] =
    (let packed = packBytes first 0 0 in [base64Digit packed 18, base64Digit packed 12])"
| "base64UrlEncode [first, second] =
    (let packed = packBytes first second 0 in [base64Digit packed 18, base64Digit packed 12, base64Digit packed 6])"
| "base64UrlEncode (first # second # third # rest) =
    (let packed = packBytes first second third
     in [base64Digit packed 18, base64Digit packed 12, base64Digit packed 6, base64Digit packed 0] @ base64UrlEncode rest)"

fun packDigits :: "string \<Rightarrow> 32 word \<Rightarrow> 32 word result" where
  "packDigits [] packed = Inr packed"
| "packDigits (char # chars) packed =
    (case indexOfChar BASE64URL_ALPHABET char of
       None \<Rightarrow> Inl (OgpValidationError ''INVALID_QR_FRAME'')
     | Some digit \<Rightarrow> packDigits chars (push_bit 6 packed OR word_of_nat digit))"

definition unpackBytes :: "nat \<Rightarrow> 32 word \<Rightarrow> bytes" where
  "unpackBytes chars packed =
     [ucast (drop_bit 16 packed AND 0xff)] @
     (if chars \<ge> 3 then [ucast (drop_bit 8 packed AND 0xff)] else []) @
     (if chars = 4 then [ucast (packed AND 0xff)] else [])"

text \<open>The loop over the input, four characters at a time.\<close>

function decodeGroups :: "string \<Rightarrow> bytes result" where
  "decodeGroups input =
    (if input = [] then Inr []
     else let chars = take 4 input in
       bindE (packDigits chars 0) (\<lambda>packed.
       bindE (decodeGroups (drop 4 input)) (\<lambda>rest.
         Inr (unpackBytes (length chars) (push_bit ((4 - length chars) * 6) packed) @ rest))))"
  by pat_completeness auto
termination by (relation "measure length") simp_all

declare decodeGroups.simps [simp del]

definition base64UrlDecode :: "string \<Rightarrow> bytes result" where
  "base64UrlDecode input =
    bindE (throwIf (\<not> list_all (\<lambda>c. c \<in> set BASE64URL_ALPHABET) input \<or> length input mod 4 = 1) ''INVALID_QR_FRAME'') (\<lambda>_.
    bindE (decodeGroups input) (\<lambda>result.
    bindE (throwIf (base64UrlEncode result \<noteq> input) ''INVALID_QR_FRAME'') (\<lambda>_.
      Inr result)))"

lemma alphabet: "distinct BASE64URL_ALPHABET" "length BASE64URL_ALPHABET = 64"
  by (simp_all add: BASE64URL_ALPHABET_def)

lemma mask_63: "(63 :: 32 word) = mask 6" and mask_255: "(255 :: 32 word) = mask 8"
  by (simp_all add: mask_eq_exp_minus_1)

lemma digit_bound: "unat (w AND 63 :: 32 word) < 64"
proof -
  have "w AND 63 < 2 ^ 6" unfolding mask_63 by (rule and_mask_less_size) (simp add: word_size)
  then show ?thesis by (simp add: word_less_nat_alt)
qed

lemma base64Digit_index: "indexOfChar BASE64URL_ALPHABET (base64Digit w k) = Some (unat (drop_bit k w AND 63))"
  unfolding base64Digit_def by (rule indexOfChar_nth) (simp_all add: alphabet digit_bound)

lemma base64Digit_member: "base64Digit w k \<in> set BASE64URL_ALPHABET"
  unfolding base64Digit_def by (rule nth_mem) (simp add: alphabet digit_bound)

lemma packDigits_digit:
  "packDigits (base64Digit w k # chars) packed = packDigits chars (push_bit 6 packed OR (drop_bit k w AND 63))"
  by (simp add: base64Digit_index)

text \<open>The digits of three packed bytes, put together again.\<close>

lemma repack_4:
  fixes w :: "32 word"
  assumes "\<forall>m \<ge> 24. \<not> bit w m"
  shows "push_bit 6 (push_bit 6 (push_bit 6 (drop_bit 18 w AND 63) OR (drop_bit 12 w AND 63)) OR (drop_bit 6 w AND 63)) OR (w AND 63) = w"
proof (rule bit_eqI)
  fix n :: nat
  consider "n < 6" | "6 \<le> n" "n < 12" | "12 \<le> n" "n < 18" | "18 \<le> n" "n < 24" | "24 \<le> n" by linarith
  then show "bit (push_bit 6 (push_bit 6 (push_bit 6 (drop_bit 18 w AND 63) OR (drop_bit 12 w AND 63)) OR
      (drop_bit 6 w AND 63)) OR (w AND 63)) n = bit w n"
    by cases (use assms in \<open>simp_all add: mask_63 bit_simps less_diff_conv2\<close>)
qed

lemma repack_3:
  fixes w :: "32 word"
  assumes "\<forall>m \<ge> 24. \<not> bit w m" "\<forall>m < 6. \<not> bit w m"
  shows "push_bit 6 (push_bit 6 (push_bit 6 (drop_bit 18 w AND 63) OR (drop_bit 12 w AND 63)) OR (drop_bit 6 w AND 63)) = w"
proof (rule bit_eqI)
  fix n :: nat
  consider "n < 6" | "6 \<le> n" "n < 12" | "12 \<le> n" "n < 18" | "18 \<le> n" "n < 24" | "24 \<le> n" by linarith
  then show "bit (push_bit 6 (push_bit 6 (push_bit 6 (drop_bit 18 w AND 63) OR (drop_bit 12 w AND 63)) OR
      (drop_bit 6 w AND 63))) n = bit w n"
    by cases (use assms in \<open>simp_all add: mask_63 bit_simps less_diff_conv2\<close>)
qed

lemma repack_2:
  fixes w :: "32 word"
  assumes "\<forall>m \<ge> 24. \<not> bit w m" "\<forall>m < 12. \<not> bit w m"
  shows "push_bit 12 (push_bit 6 (drop_bit 18 w AND 63) OR (drop_bit 12 w AND 63)) = w"
proof (rule bit_eqI)
  fix n :: nat
  consider "n < 12" | "12 \<le> n" "n < 18" | "18 \<le> n" "n < 24" | "24 \<le> n" by linarith
  then show "bit (push_bit 12 (push_bit 6 (drop_bit 18 w AND 63) OR (drop_bit 12 w AND 63))) n = bit w n"
    by cases (use assms in \<open>simp_all add: mask_63 bit_simps less_diff_conv2\<close>)
qed

lemma packBytes_bits: "bit (packBytes a b c) n \<longleftrightarrow>
    (if n < 8 then bit c n else if n < 16 then bit b (n - 8) else n < 24 \<and> bit a (n - 16))"
  unfolding packBytes_def
  by (cases "n < 8"; cases "n < 16"; cases "n < 24")
    (auto simp: bit_simps dest: bit_imp_le_length)

lemma unpack_packed:
  "(ucast (drop_bit 16 (packBytes a b c) AND 0xff) :: byte) = a"
  "(ucast (drop_bit 8 (packBytes a b c) AND 0xff) :: byte) = b"
  "(ucast (packBytes a b c AND 0xff) :: byte) = c"
  by (rule bit_eqI; simp add: mask_255 bit_simps packBytes_bits)+

lemma base64UrlDecode_group:
  assumes "packDigits chars 0 = Inr packed" "length chars = 4" "decodeGroups rest = Inr bs"
  shows "decodeGroups (chars @ rest) = Inr (unpackBytes 4 packed @ bs)"
  using assms by (subst decodeGroups.simps) (auto simp: Let_def)

lemma decodeGroups_last:
  assumes "packDigits chars 0 = Inr packed"
  shows "length chars = 2 \<Longrightarrow> push_bit 12 packed = w \<Longrightarrow> decodeGroups chars = Inr (unpackBytes 2 w)"
    "length chars = 3 \<Longrightarrow> push_bit 6 packed = w \<Longrightarrow> decodeGroups chars = Inr (unpackBytes 3 w)"
  using assms by (subst decodeGroups.simps, auto simp: Let_def decodeGroups.simps [of "[]"])+

lemma decodeGroups_encode: "decodeGroups (base64UrlEncode bs) = Inr bs"
proof (induction bs rule: base64UrlEncode.induct)
  case 1
  show ?case by (subst decodeGroups.simps) simp
next
  case (2 a)
  let ?w = "packBytes a 0 0"
  have w: "push_bit 12 (push_bit 6 (drop_bit 18 ?w AND 63) OR (drop_bit 12 ?w AND 63)) = ?w"
    by (rule repack_2) (auto simp: packBytes_bits)
  have "packDigits [base64Digit ?w 18, base64Digit ?w 12] 0 =
      Inr (push_bit 6 (drop_bit 18 ?w AND 63) OR (drop_bit 12 ?w AND 63))"
    unfolding packDigits_digit by simp
  from decodeGroups_last(1) [OF this _ w] show ?case by (simp add: Let_def unpackBytes_def unpack_packed)
next
  case (3 a b)
  let ?w = "packBytes a b 0"
  have w: "push_bit 6 (push_bit 6 (push_bit 6 (drop_bit 18 ?w AND 63) OR (drop_bit 12 ?w AND 63)) OR (drop_bit 6 ?w AND 63)) = ?w"
    by (rule repack_3) (auto simp: packBytes_bits)
  have "packDigits [base64Digit ?w 18, base64Digit ?w 12, base64Digit ?w 6] 0 =
      Inr (push_bit 6 (push_bit 6 (drop_bit 18 ?w AND 63) OR (drop_bit 12 ?w AND 63)) OR (drop_bit 6 ?w AND 63))"
    unfolding packDigits_digit by simp
  from decodeGroups_last(2) [OF this _ w] show ?case by (simp add: Let_def unpackBytes_def unpack_packed)
next
  case (4 a b c rest)
  let ?w = "packBytes a b c"
  have w: "push_bit 6 (push_bit 6 (push_bit 6 (drop_bit 18 ?w AND 63) OR (drop_bit 12 ?w AND 63)) OR
      (drop_bit 6 ?w AND 63)) OR (?w AND 63) = ?w"
    by (rule repack_4) (auto simp: packBytes_bits)
  have "packDigits [base64Digit ?w 18, base64Digit ?w 12, base64Digit ?w 6, base64Digit ?w 0] 0 =
      Inr (push_bit 6 (push_bit 6 (push_bit 6 (drop_bit 18 ?w AND 63) OR (drop_bit 12 ?w AND 63)) OR
      (drop_bit 6 ?w AND 63)) OR (?w AND 63))"
    unfolding packDigits_digit by simp
  then have "packDigits [base64Digit ?w 18, base64Digit ?w 12, base64Digit ?w 6, base64Digit ?w 0] 0 = Inr ?w"
    unfolding w .
  from base64UrlDecode_group [OF this _ 4(1) [OF refl]] show ?case
    by (simp add: Let_def unpackBytes_def unpack_packed)
qed

lemma base64UrlEncode_chars: "list_all (\<lambda>c. c \<in> set BASE64URL_ALPHABET) (base64UrlEncode bs)"
  by (induction bs rule: base64UrlEncode.induct) (simp_all add: Let_def base64Digit_member)

lemma base64UrlEncode_length: "length (base64UrlEncode bs) mod 4 \<noteq> 1"
  by (induction bs rule: base64UrlEncode.induct) (simp_all add: Let_def)

lemma base64UrlDecode_iff: "base64UrlDecode s = Inr bs \<longleftrightarrow> s = base64UrlEncode bs"
  using base64UrlEncode_chars [of bs] base64UrlEncode_length [of bs] decodeGroups_encode [of bs]
  by (auto simp: base64UrlDecode_def bindE_Inr_iff)

section \<open>White space\<close>

text \<open>What \<open>trim\<close> removes, of the characters below 256.\<close>

definition spaceChar :: "char \<Rightarrow> bool" where
  "spaceChar c \<longleftrightarrow> c \<in> {CHR 0x20, CHR 0x09, CHR 0x0A, CHR 0x0B, CHR 0x0C, CHR 0x0D, CHR 0xA0}"

definition trim :: "string \<Rightarrow> string" where
  "trim text = rev (dropWhile spaceChar (rev (dropWhile spaceChar text)))"

section \<open>Decimal numbers\<close>

text \<open>\<open>/^[1-9][0-9]*$/\<close> and \<open>/^(0|[1-9][0-9]*)$/\<close>\<close>

definition digitChars :: string where "digitChars = ''0123456789''"

definition positiveNumber :: "string \<Rightarrow> bool" where
  "positiveNumber text \<longleftrightarrow> text \<noteq> [] \<and> hd text \<in> set ''123456789'' \<and> list_all (\<lambda>c. c \<in> set digitChars) (tl text)"

definition canonicalNumber :: "string \<Rightarrow> bool" where
  "canonicalNumber text \<longleftrightarrow> text = ''0'' \<or> positiveNumber text"

text \<open>\<open>Number(text)\<close> on such a text\<close>

definition numberOf :: "string \<Rightarrow> nat" where
  "numberOf text = foldl (\<lambda>n c. 10 * n + hexValue c) 0 text"

lemma numberOf_natDecimal: "numberOf (natDecimal n) = n"
proof (induction n rule: natDecimal.induct)
  case (1 n)
  show ?case
  proof (cases "n < 10")
    case True
    then show ?thesis by (subst natDecimal.simps) (simp add: numberOf_def hexValue_hexDigit)
  next
    case False
    then have "natDecimal n = natDecimal (n div 10) @ [hexDigit (n mod 10)]" by (subst natDecimal.simps) simp
    then have "numberOf (natDecimal n) = 10 * numberOf (natDecimal (n div 10)) + hexValue (hexDigit (n mod 10))"
      by (simp add: numberOf_def)
    with 1 [OF False] show ?thesis by (simp add: hexValue_hexDigit)
  qed
qed

lemma hexDigit_digitChars: "d < 10 \<Longrightarrow> hexDigit d \<in> set digitChars"
proof -
  assume d: "d < 10"
  then have "hexDigit d = digitChars ! d"
    using nth_append [of digitChars "''abcdef''" d] by (simp add: hexDigit_def digitChars_def)
  moreover have "length digitChars = 10" by (simp add: digitChars_def)
  ultimately show ?thesis using d by (metis nth_mem)
qed

lemma natDecimal_positive: "0 < n \<Longrightarrow> positiveNumber (natDecimal n)"
proof (induction n rule: natDecimal.induct)
  case (1 n)
  show ?case
  proof (cases "n < 10")
    case True
    then have "n \<in> {1, 2, 3, 4, 5, 6, 7, 8, 9}" using 1(2) by auto
    then show ?thesis by (subst natDecimal.simps) (auto simp: positiveNumber_def hexDigit_def)
  next
    case False
    then have "natDecimal n = natDecimal (n div 10) @ [hexDigit (n mod 10)]" by (subst natDecimal.simps) simp
    moreover have "positiveNumber (natDecimal (n div 10))" using 1(1) [OF False] False by simp
    ultimately show ?thesis using hexDigit_digitChars [of "n mod 10"]
      by (cases "natDecimal (n div 10)") (simp_all add: positiveNumber_def)
  qed
qed

lemma natDecimal_canonical: "canonicalNumber (natDecimal n)"
proof (cases "n = 0")
  case True
  then show ?thesis by (simp add: canonicalNumber_def natDecimal.simps [of 0] hexDigit_def)
qed (simp add: canonicalNumber_def natDecimal_positive)

section \<open>Fields\<close>

text \<open>\<open>text.split(".")\<close>\<close>

fun splitDots :: "string \<Rightarrow> string list" where
  "splitDots [] = [[]]"
| "splitDots (c # cs) =
    (if c = CHR ''.'' then [] # splitDots cs
     else case splitDots cs of [] \<Rightarrow> [[c]] | f # fs \<Rightarrow> (c # f) # fs)"

lemma splitDots_field: "CHR ''.'' \<notin> set f \<Longrightarrow> splitDots f = [f]"
  by (induction f) auto

lemma splitDots_fields: "CHR ''.'' \<notin> set f \<Longrightarrow> splitDots (f @ CHR ''.'' # rest) = f # splitDots rest"
  by (induction f) auto

lemma base64UrlEncode_dot: "CHR ''.'' \<notin> set (base64UrlEncode bs)"
proof -
  have "CHR ''.'' \<notin> set BASE64URL_ALPHABET" by (simp add: BASE64URL_ALPHABET_def)
  with base64UrlEncode_chars [of bs] show ?thesis by (auto simp: list_all_iff)
qed

lemma bytesToHex_dot: "CHR ''.'' \<notin> set (bytesToHex bs)"
proof -
  have "CHR ''.'' \<notin> set ''0123456789abcdef''" by simp
  with bytesToHex_digits [of bs] show ?thesis by (auto simp: list_all_iff simp del: list.set)
qed

lemma natDecimal_dot: "CHR ''.'' \<notin> set (natDecimal n)"
proof
  assume "CHR ''.'' \<in> set (natDecimal n)"
  then obtain d where "d < 10" "CHR ''.'' = hexDigit d" using natDecimal_chars by blast
  then have "CHR ''.'' \<in> set digitChars" using hexDigit_digitChars [of d] by metis
  then show False by (simp add: digitChars_def)
qed

end
