(* ===== verification/Transports.thy ===== *)
theory Transports
  imports TextCoding Credentials "HOL-Library.AList"
begin

text \<open>
  \<open>packages/transports/src/index.ts\<close>: the merchant's challenge, the check of the payer's answer,
  and the QR transport that carries challenge, proof bundle and receipt as numbered text frames.

  A \<open>Map\<close> is an association list (\<open>AList.update\<close> is \<open>set\<close>, \<open>map_of\<close> is \<open>get\<close>). A decimal index
  or count above \<open>2 ^ 53\<close>, which \<open>Number\<close> rounds, is rejected with or without the rounding.
\<close>

section \<open>Constants and data\<close>

definition QR_PREFIX :: string where "QR_PREFIX = ''OGPQR1''"
definition CHALLENGE_PAYLOAD_VERSION :: byte where "CHALLENGE_PAYLOAD_VERSION = 1"
definition CHALLENGE_ENCODED_LENGTH :: nat where
  "CHALLENGE_ENCODED_LENGTH = 1 + 1 + HASH_LENGTH + PUBLIC_KEY_LENGTH * 3 + 8 + CHALLENGE_LENGTH"
definition RECEIPT_PAYLOAD_VERSION :: byte where "RECEIPT_PAYLOAD_VERSION = 1"
definition RECEIPT_ENCODED_LENGTH :: nat where "RECEIPT_ENCODED_LENGTH = 1 + HASH_LENGTH + CHALLENGE_LENGTH"
definition BUNDLE_HEADER_LENGTH :: nat where
  "BUNDLE_HEADER_LENGTH = LEN_sessionCertificate + LEN_deviceAuthorization + 4"
definition DEFAULT_CHUNK_BYTES :: int where "DEFAULT_CHUNK_BYTES = 480"
definition MAX_CHUNK_BYTES :: int where "MAX_CHUNK_BYTES = 1024"
definition MAX_FRAME_COUNT :: nat where "MAX_FRAME_COUNT = 128"
definition MAX_TRANSFER_BYTES :: nat where "MAX_TRANSFER_BYTES = 64 * 1024"

lemmas transport_constants =
  CHALLENGE_PAYLOAD_VERSION_def CHALLENGE_ENCODED_LENGTH_def RECEIPT_PAYLOAD_VERSION_def RECEIPT_ENCODED_LENGTH_def
  BUNDLE_HEADER_LENGTH_def MAX_CHUNK_BYTES_def MAX_FRAME_COUNT_def MAX_TRANSFER_BYTES_def
  HASH_LENGTH_def PUBLIC_KEY_LENGTH_def CHALLENGE_LENGTH_def

datatype OfflineMessageKind = ChallengeMessage | CredentialBundleMessage | ReceiptMessage

fun kindNumber :: "OfflineMessageKind \<Rightarrow> nat" where
  "kindNumber ChallengeMessage = 1"
| "kindNumber CredentialBundleMessage = 2"
| "kindNumber ReceiptMessage = 3"

text \<open>\<open>Omit<DomainContext, "sessionId">\<close>\<close>

record ProtocolEnvironment =
  ev_networkId :: int
  ev_clusterGenesisHash :: bytes
  ev_programId :: bytes

record MerchantChallenge = ProtocolEnvironment +
  mc_merchant :: bytes
  mc_merchantDeviceKey :: bytes
  mc_amount :: int
  mc_challenge :: bytes

record TransportReceipt =
  tr_credentialHash :: bytes
  tr_merchantChallenge :: bytes

record OfflineTrustEnvironment = ProtocolEnvironment +
  ev_trustedCertificateIssuer :: bytes

record VerifiedMerchantResponse =
  vr_credential :: PaymentCredential
  vr_finalState :: ParentState

record ParsedFrame =
  pf_kind :: OfflineMessageKind
  pf_payloadHash :: bytes
  pf_payloadHashHex :: string
  pf_index :: nat
  pf_count :: nat
  pf_chunk :: bytes

section \<open>The merchant's check\<close>

definition assertChallengeEnvironment :: "'a ProtocolEnvironment_scheme \<Rightarrow> 'b ProtocolEnvironment_scheme \<Rightarrow> unit result" where
  "assertChallengeEnvironment challenge expected =
    throwIf (ev_networkId challenge \<noteq> ev_networkId expected \<or>
      \<not> equalBytes (ev_clusterGenesisHash challenge) (ev_clusterGenesisHash expected) \<or>
      \<not> equalBytes (ev_programId challenge) (ev_programId expected)) ''DOMAIN_MISMATCH''"

definition validateMerchantResponse ::
  "lib \<Rightarrow> OfflineTrustEnvironment \<Rightarrow> MerchantChallenge \<Rightarrow> CredentialProofBundle \<Rightarrow> VerifiedMerchantResponse result" where
  "validateMerchantResponse L environment challenge bundle =
    bindE (assertChallengeEnvironment challenge environment) (\<lambda>_.
    let context = \<lparr>cx_networkId = ev_networkId environment, cx_clusterGenesisHash = ev_clusterGenesisHash environment,
          cx_programId = ev_programId environment, cx_sessionId = sc_sessionId (sessionCertificate bundle),
          cx_trustedCertificateIssuer = ev_trustedCertificateIssuer environment\<rparr>
    in
    bindE (validateCredentialProofBundle L context bundle) (\<lambda>finalState.
    if credentials bundle = [] then Inl (OgpValidationError ''INVALID_TRANSITION'')
    else let credential = last (credentials bundle) in
    bindE (throwIf (pc_sequence credential \<noteq> pt_sequence finalState \<or>
        \<not> equalBytes (pc_newStateHash credential) (pt_stateHash finalState)) ''INVALID_TRANSITION'') (\<lambda>_.
    bindE (throwIf (\<not> equalBytes (pc_merchant credential) (mc_merchant challenge) \<or>
        \<not> equalBytes (pc_merchantDeviceKey credential) (mc_merchantDeviceKey challenge)) ''MERCHANT_MISMATCH'') (\<lambda>_.
    bindE (throwIf (pc_amount credential \<noteq> mc_amount challenge \<or>
        \<not> equalBytes (pc_merchantChallenge credential) (mc_challenge challenge)) ''CHALLENGE_MISMATCH'') (\<lambda>_.
      Inr \<lparr>vr_credential = credential, vr_finalState = finalState\<rparr>)))))"

section \<open>Payloads\<close>

definition assertExactBytes :: "bytes \<Rightarrow> nat \<Rightarrow> unit result" where
  "assertExactBytes value len = throwIf (length value \<noteq> len) ''INVALID_LENGTH''"

text \<open>\<open>input.slice(from, to)\<close>\<close>

definition slice :: "bytes \<Rightarrow> nat \<Rightarrow> nat \<Rightarrow> bytes" where
  "slice input start stop = take (stop - start) (drop start input)"

definition writeU64LE :: "int \<Rightarrow> bytes result" where
  "writeU64LE value = bindE (throwIf (value \<le> 0 \<or> value > U64_MAX) ''INVALID_AMOUNT'') (\<lambda>_. Inr (leBytes 8 value))"

definition readU64LE :: "bytes \<Rightarrow> nat \<Rightarrow> int" where
  "readU64LE input offset = leInt (slice input offset (offset + 8))"

definition readU32LE :: "bytes \<Rightarrow> nat \<Rightarrow> int" where
  "readU32LE input offset = leInt (slice input offset (offset + 4))"

definition encodeChallenge :: "MerchantChallenge \<Rightarrow> bytes result" where
  "encodeChallenge value =
    bindE (throwIf (ev_networkId value < networkNumber Localnet \<or> ev_networkId value > networkNumber MainnetBeta)
      ''DOMAIN_MISMATCH'') (\<lambda>_.
    bindE (runE (map (\<lambda>bytes. assertExactBytes bytes 32)
      [ev_clusterGenesisHash value, ev_programId value, mc_merchant value, mc_merchantDeviceKey value, mc_challenge value])) (\<lambda>_.
    bindE (throwIf (list_all (\<lambda>byte. byte = 0) (mc_challenge value)) ''INVALID_CHALLENGE'') (\<lambda>_.
    bindE (writeU64LE (mc_amount value)) (\<lambda>amount.
      Inr ([CHALLENGE_PAYLOAD_VERSION, word_of_int (ev_networkId value)] @ ev_clusterGenesisHash value @
        ev_programId value @ mc_merchant value @ mc_merchantDeviceKey value @ amount @ mc_challenge value)))))"

definition decodeChallenge :: "bytes \<Rightarrow> MerchantChallenge result" where
  "decodeChallenge input =
    bindE (throwIf (length input \<noteq> CHALLENGE_ENCODED_LENGTH \<or> input ! 0 \<noteq> CHALLENGE_PAYLOAD_VERSION)
      ''INVALID_QR_PAYLOAD'') (\<lambda>_.
    let networkId = uint (input ! 1) in
    bindE (throwIf (networkId > networkNumber MainnetBeta) ''DOMAIN_MISMATCH'') (\<lambda>_.
    let clusterGenesisHash = slice input 2 34; programId = slice input 34 66; merchant = slice input 66 98;
        merchantDeviceKey = slice input 98 130; amount = readU64LE input 130; challenge = slice input 138 170
    in
    bindE (throwIf (amount = 0) ''INVALID_AMOUNT'') (\<lambda>_.
    bindE (throwIf (list_all (\<lambda>byte. byte = 0) challenge) ''INVALID_CHALLENGE'') (\<lambda>_.
      Inr \<lparr>ev_networkId = networkId, ev_clusterGenesisHash = clusterGenesisHash, ev_programId = programId,
        mc_merchant = merchant, mc_merchantDeviceKey = merchantDeviceKey, mc_amount = amount, mc_challenge = challenge\<rparr>))))"

definition decodeBundle :: "lib \<Rightarrow> bytes \<Rightarrow> CredentialProofBundle result" where
  "decodeBundle L input =
    bindE (throwIf (length input < BUNDLE_HEADER_LENGTH \<or> length input > MAX_TRANSFER_BYTES) ''INVALID_QR_PAYLOAD'') (\<lambda>_.
    let countOffset = LEN_sessionCertificate + LEN_deviceAuthorization;
        declared = readU32LE input countOffset
    in
    bindE (throwIf (declared > MAX_BRANCH_DEPTH) ''BRANCH_DEPTH_EXCEEDED'') (\<lambda>_.
    bindE (throwIf (length input \<noteq> BUNDLE_HEADER_LENGTH + nat declared * LEN_paymentCredential) ''INVALID_QR_PAYLOAD'') (\<lambda>_.
    bindE (decodeSessionCertificate L (slice input 0 LEN_sessionCertificate)) (\<lambda>certificate.
    bindE (decodeDeviceAuthorization L (slice input LEN_sessionCertificate countOffset)) (\<lambda>authorization.
    bindE (mapE (\<lambda>index. let offset = BUNDLE_HEADER_LENGTH + index * LEN_paymentCredential in
        decodePaymentCredential L (slice input offset (offset + LEN_paymentCredential))) [0..<nat declared]) (\<lambda>decoded.
      Inr \<lparr>sessionCertificate = certificate, deviceAuthorization = authorization, credentials = decoded\<rparr>))))))"

definition encodeReceipt :: "TransportReceipt \<Rightarrow> bytes result" where
  "encodeReceipt value =
    bindE (assertExactBytes (tr_credentialHash value) HASH_LENGTH) (\<lambda>_.
    bindE (assertExactBytes (tr_merchantChallenge value) CHALLENGE_LENGTH) (\<lambda>_.
      Inr ([RECEIPT_PAYLOAD_VERSION] @ tr_credentialHash value @ tr_merchantChallenge value)))"

definition decodeReceipt :: "bytes \<Rightarrow> TransportReceipt result" where
  "decodeReceipt input =
    bindE (throwIf (length input \<noteq> RECEIPT_ENCODED_LENGTH \<or> input ! 0 \<noteq> RECEIPT_PAYLOAD_VERSION) ''INVALID_QR_PAYLOAD'') (\<lambda>_.
      Inr \<lparr>tr_credentialHash = slice input 1 (1 + HASH_LENGTH), tr_merchantChallenge = drop (1 + HASH_LENGTH) input\<rparr>)"

section \<open>Frames\<close>

definition parseKind :: "string \<Rightarrow> OfflineMessageKind option" where
  "parseKind text =
    (if text = ''1'' then Some ChallengeMessage
     else if text = ''2'' then Some CredentialBundleMessage
     else if text = ''3'' then Some ReceiptMessage else None)"

definition parseFrame :: "string \<Rightarrow> ParsedFrame result" where
  "parseFrame text =
    (case splitDots text of
       [prefix, kindText, hashText, indexText, countText, chunkText] \<Rightarrow>
         bindE (throwIf (prefix \<noteq> QR_PREFIX) ''INVALID_QR_FRAME'') (\<lambda>_.
         (case parseKind kindText of
            None \<Rightarrow> Inl (OgpValidationError ''INVALID_QR_FRAME'')
          | Some kind \<Rightarrow>
             bindE (throwIf (\<not> canonicalNumber indexText \<or> \<not> positiveNumber countText) ''INVALID_QR_FRAME'') (\<lambda>_.
             let index = numberOf indexText; frameCount = numberOf countText in
             bindE (throwIf (frameCount > MAX_FRAME_COUNT \<or> index \<ge> frameCount) ''INVALID_QR_FRAME'') (\<lambda>_.
             bindE (hexToBytes hashText) (\<lambda>payloadHash.
             bindE (assertExactBytes payloadHash HASH_LENGTH) (\<lambda>_.
             bindE (base64UrlDecode chunkText) (\<lambda>chunk.
               Inr \<lparr>pf_kind = kind, pf_payloadHash = payloadHash, pf_payloadHashHex = hashText, pf_index = index,
                 pf_count = frameCount, pf_chunk = chunk\<rparr>)))))))
     | _ \<Rightarrow> Inl (OgpValidationError ''INVALID_QR_FRAME''))"

text \<open>The template literal of one frame.\<close>

definition frameText :: "OfflineMessageKind \<Rightarrow> string \<Rightarrow> nat \<Rightarrow> nat \<Rightarrow> bytes \<Rightarrow> string" where
  "frameText kind hashHex index frameCount chunk =
     QR_PREFIX @ ''.'' @ natDecimal (kindNumber kind) @ ''.'' @ hashHex @ ''.'' @ natDecimal index @ ''.'' @
     natDecimal frameCount @ ''.'' @ base64UrlEncode chunk"

section \<open>The QR transport\<close>

record QRTransport =
  qr_chunkBytes :: nat

text \<open>The constructor.\<close>

definition newQRTransport :: "int \<Rightarrow> QRTransport result" where
  "newQRTransport chunkBytes =
    bindE (throwIf (chunkBytes < 64 \<or> chunkBytes > MAX_CHUNK_BYTES) ''INVALID_QR_CONFIG'') (\<lambda>_.
      Inr \<lparr>qr_chunkBytes = nat chunkBytes\<rparr>)"

definition frame :: "lib \<Rightarrow> QRTransport \<Rightarrow> OfflineMessageKind \<Rightarrow> bytes \<Rightarrow> string list result" where
  "frame L this kind payload =
    bindE (throwIf (length payload = 0 \<or> length payload > MAX_TRANSFER_BYTES) ''INVALID_QR_PAYLOAD'') (\<lambda>_.
    let hashHex = bytesToHex (hashSha256 L payload);
        frameCount = (length payload + qr_chunkBytes this - 1) div qr_chunkBytes this
    in
    bindE (throwIf (frameCount > MAX_FRAME_COUNT) ''INVALID_QR_PAYLOAD'') (\<lambda>_.
      Inr (map (\<lambda>index. frameText kind hashHex index frameCount
        (slice payload (index * qr_chunkBytes this) (min (length payload) ((index + 1) * qr_chunkBytes this))))
        [0..<frameCount])))"

record Assembly =
  as_chunks :: "(nat \<times> bytes) list"
  as_transfer :: "ParsedFrame option"

fun assembleFrames :: "OfflineMessageKind \<Rightarrow> string list \<Rightarrow> Assembly \<Rightarrow> Assembly result" where
  "assembleFrames expectedKind [] st = Inr st"
| "assembleFrames expectedKind (raw # frames) st =
    bindE (parseFrame raw) (\<lambda>f.
    bindE (throwIf (pf_kind f \<noteq> expectedKind) ''INVALID_QR_FRAME'') (\<lambda>_.
    bindE (throwIf (case as_transfer st of None \<Rightarrow> False
        | Some transfer \<Rightarrow> pf_payloadHashHex f \<noteq> pf_payloadHashHex transfer \<or> pf_count f \<noteq> pf_count transfer)
      ''MIXED_QR_TRANSFER'') (\<lambda>_.
    bindE (throwIf (case map_of (as_chunks st) (pf_index f) of None \<Rightarrow> False
        | Some existing \<Rightarrow> \<not> equalBytes existing (pf_chunk f)) ''CONFLICTING_QR_FRAME'') (\<lambda>_.
      assembleFrames expectedKind frames
        \<lparr>as_chunks = AList.update (pf_index f) (pf_chunk f) (as_chunks st),
         as_transfer = (case as_transfer st of None \<Rightarrow> Some f | Some transfer \<Rightarrow> Some transfer)\<rparr>))))"

definition assemble :: "lib \<Rightarrow> OfflineMessageKind \<Rightarrow> string list \<Rightarrow> bytes result" where
  "assemble L expectedKind frames =
    bindE (assembleFrames expectedKind frames \<lparr>as_chunks = [], as_transfer = None\<rparr>) (\<lambda>st.
    (case as_transfer st of
       None \<Rightarrow> Inl (OgpValidationError ''INCOMPLETE_QR_TRANSFER'')
     | Some transfer \<Rightarrow>
        bindE (throwIf (length (as_chunks st) \<noteq> pf_count transfer) ''INCOMPLETE_QR_TRANSFER'') (\<lambda>_.
        bindE (throwIf (sum_list (map (\<lambda>(index, chunk). length chunk) (as_chunks st)) > MAX_TRANSFER_BYTES)
          ''INVALID_QR_PAYLOAD'') (\<lambda>_.
        bindE (mapE (\<lambda>index. case map_of (as_chunks st) index of
            None \<Rightarrow> Inl (OgpValidationError ''INCOMPLETE_QR_TRANSFER'')
          | Some chunk \<Rightarrow> Inr chunk) [0..<pf_count transfer]) (\<lambda>chunks.
        let payload = concat chunks in
        bindE (throwIf (\<not> equalBytes (hashSha256 L payload) (pf_payloadHash transfer)) ''QR_INTEGRITY_FAILURE'') (\<lambda>_.
          Inr payload))))))"

definition sendChallenge :: "lib \<Rightarrow> QRTransport \<Rightarrow> MerchantChallenge \<Rightarrow> string list result" where
  "sendChallenge L this value = bindE (encodeChallenge value) (frame L this ChallengeMessage)"

definition receiveChallenge :: "lib \<Rightarrow> string list \<Rightarrow> MerchantChallenge result" where
  "receiveChallenge L frames = bindE (assemble L ChallengeMessage frames) decodeChallenge"

definition sendCredential :: "lib \<Rightarrow> QRTransport \<Rightarrow> CredentialProofBundle \<Rightarrow> string list result" where
  "sendCredential L this value = bindE (encodeCredentialProofBundle L value) (frame L this CredentialBundleMessage)"

definition receiveCredential :: "lib \<Rightarrow> string list \<Rightarrow> CredentialProofBundle result" where
  "receiveCredential L frames = bindE (assemble L CredentialBundleMessage frames) (decodeBundle L)"

definition sendReceipt :: "lib \<Rightarrow> QRTransport \<Rightarrow> TransportReceipt \<Rightarrow> string list result" where
  "sendReceipt L this value = bindE (encodeReceipt value) (frame L this ReceiptMessage)"

definition receiveReceipt :: "lib \<Rightarrow> string list \<Rightarrow> TransportReceipt result" where
  "receiveReceipt L frames = bindE (assemble L ReceiptMessage frames) decodeReceipt"

end
