(* ===== verification/TransportFacts.thy ===== *)
theory TransportFacts
  imports Transports CredentialFacts
begin

text \<open>
  What \<open>packages/transports\<close> promises: the three payload formats are read back exactly, a frame is
  read back exactly, and assembling depends only on the set of frames received.
\<close>

section \<open>Slices\<close>

lemma slice_append: "a \<le> b \<Longrightarrow> b \<le> c \<Longrightarrow> slice xs a b @ slice xs b c = slice xs a c"
proof -
  assume ab: "a \<le> b" "b \<le> c"
  then have "drop b xs = drop (b - a) (drop a xs)" "c - a = (b - a) + (c - b)" by simp_all
  then show ?thesis by (simp only: slice_def take_add)
qed

lemma slice_all: "slice xs 0 (length xs) = xs"
  by (simp add: slice_def)

lemma length_slice: "b \<le> length xs \<Longrightarrow> length (slice xs a b) = b - a"
  by (simp add: slice_def)

lemma slice_byte: "a < length xs \<Longrightarrow> slice xs a (Suc a) = [xs ! a]"
  by (simp add: slice_def take_Suc_conv_app_nth)

lemma slice_from: "a \<le> length xs \<Longrightarrow> drop a xs = slice xs a (length xs)"
  by (simp add: slice_def)

text \<open>A slice of a concatenation: the part that starts at an offset.\<close>

lemma slice_skip: "length xs \<le> a \<Longrightarrow> slice (xs @ ys) a b = slice ys (a - length xs) (b - length xs)"
  by (simp add: slice_def)

lemma slice_head: "length xs = b \<Longrightarrow> slice (xs @ ys) 0 b = xs"
  by (simp add: slice_def)

section \<open>Payloads\<close>

definition validChallenge :: "MerchantChallenge \<Rightarrow> bool" where
  "validChallenge c \<longleftrightarrow> 0 \<le> ev_networkId c \<and> ev_networkId c \<le> 2 \<and> length (ev_clusterGenesisHash c) = 32 \<and>
     length (ev_programId c) = 32 \<and> length (mc_merchant c) = 32 \<and> length (mc_merchantDeviceKey c) = 32 \<and>
     length (mc_challenge c) = 32 \<and> \<not> list_all (\<lambda>b. b = 0) (mc_challenge c) \<and> 0 < mc_amount c \<and> mc_amount c < 2 ^ 64"

lemma encodeChallenge_iff:
  "encodeChallenge c = Inr bs \<longleftrightarrow> validChallenge c \<and>
     bs = [1, word_of_int (ev_networkId c)] @ ev_clusterGenesisHash c @ ev_programId c @ mc_merchant c @
       mc_merchantDeviceKey c @ leBytes 8 (mc_amount c) @ mc_challenge c"
  by (auto simp: encodeChallenge_def validChallenge_def bindE_Inr_iff assertExactBytes_def writeU64LE_def U64_MAX_def
      transport_constants)

lemma uint_word_of_int_small: "0 \<le> n \<Longrightarrow> n < 256 \<Longrightarrow> uint (word_of_int n :: byte) = n"
  by (simp add: uint_word_of_int)

lemma decodeChallenge_encode:
  assumes "encodeChallenge c = Inr bs"
  shows "decodeChallenge bs = Inr c"
proof -
  have v: "0 \<le> ev_networkId c" "ev_networkId c \<le> 2" "length (ev_clusterGenesisHash c) = 32" "length (ev_programId c) = 32"
    "length (mc_merchant c) = 32" "length (mc_merchantDeviceKey c) = 32" "length (mc_challenge c) = 32"
    "\<not> list_all (\<lambda>b. b = 0) (mc_challenge c)" "0 < mc_amount c" "mc_amount c < 2 ^ 64"
    and bs: "bs = [1, word_of_int (ev_networkId c)] @ ev_clusterGenesisHash c @ ev_programId c @ mc_merchant c @
       mc_merchantDeviceKey c @ leBytes 8 (mc_amount c) @ mc_challenge c"
    using assms by (simp_all add: encodeChallenge_iff validChallenge_def)
  have parts: "length bs = 170" "bs ! 0 = 1" "bs ! 1 = word_of_int (ev_networkId c)"
    "slice bs 2 34 = ev_clusterGenesisHash c" "slice bs 34 66 = ev_programId c" "slice bs 66 98 = mc_merchant c"
    "slice bs 98 130 = mc_merchantDeviceKey c" "slice bs 130 138 = leBytes 8 (mc_amount c)" "slice bs 138 170 = mc_challenge c"
    using v(3-7) by (simp_all add: bs slice_def)
  have "readU64LE bs 130 = mc_amount c" using v(9,10) by (simp add: readU64LE_def parts leInt_leBytes)
  moreover have "uint (bs ! 1) = ev_networkId c" using v(1,2) unfolding parts(3) by (simp add: uint_word_of_int_small)
  ultimately show ?thesis
    using v by (simp add: decodeChallenge_def parts transport_constants Let_def)
qed

lemma decodeChallenge_iff: "decodeChallenge bs = Inr c \<longleftrightarrow> encodeChallenge c = Inr bs"
proof
  assume d: "decodeChallenge bs = Inr c"
  then have len: "length bs = 170" and head: "bs ! 0 = 1" and net: "uint (bs ! 1) \<le> 2"
    and amount: "readU64LE bs 130 \<noteq> 0" and challenge: "\<not> list_all (\<lambda>b. b = 0) (slice bs 138 170)"
    and c: "c = \<lparr>ev_networkId = uint (bs ! 1), ev_clusterGenesisHash = slice bs 2 34, ev_programId = slice bs 34 66,
        mc_merchant = slice bs 66 98, mc_merchantDeviceKey = slice bs 98 130, mc_amount = readU64LE bs 130,
        mc_challenge = slice bs 138 170\<rparr>"
    by (auto simp: decodeChallenge_def bindE_Inr_iff Let_def transport_constants)
  have eight: "length (slice bs 130 138) = 8" using len by (simp add: length_slice)
  have range: "0 < readU64LE bs 130" "readU64LE bs 130 < 2 ^ 64"
    using amount leInt_bounds [of "slice bs 130 138"] eight by (simp_all add: readU64LE_def order_less_le)
  have le: "leBytes 8 (readU64LE bs 130) = slice bs 130 138"
    using leBytes_leInt [of "slice bs 130 138"] eight by (simp add: readU64LE_def)
  have "bs = slice bs 0 170" using slice_all [of bs] len by simp
  also have "\<dots> = slice bs 0 2 @ slice bs 2 34 @ slice bs 34 66 @ slice bs 66 98 @ slice bs 98 130 @ slice bs 130 138 @
      slice bs 138 170"
    by (simp add: slice_append)
  also have "slice bs 0 2 = [bs ! 0, bs ! 1]"
    using slice_append [of 0 1 2 bs] slice_byte [of 0 bs] slice_byte [of 1 bs] len by (simp add: numeral_2_eq_2)
  finally have "bs = [bs ! 0, bs ! 1] @ slice bs 2 34 @ slice bs 34 66 @ slice bs 66 98 @ slice bs 98 130 @
      slice bs 130 138 @ slice bs 138 170" .
  moreover have "word_of_int (uint (bs ! 1)) = bs ! 1" by simp
  ultimately show "encodeChallenge c = Inr bs"
    using len head net challenge range
    by (simp add: encodeChallenge_iff validChallenge_def c le length_slice)
qed (rule decodeChallenge_encode)

lemma decodeReceipt_iff: "decodeReceipt bs = Inr r \<longleftrightarrow> encodeReceipt r = Inr bs"
proof
  assume d: "decodeReceipt bs = Inr r"
  then have len: "length bs = 65" and head: "bs ! 0 = 1"
    and r: "r = \<lparr>tr_credentialHash = slice bs 1 33, tr_merchantChallenge = slice bs 33 65\<rparr>"
    by (auto simp: decodeReceipt_def bindE_Inr_iff transport_constants slice_from)
  have "bs = slice bs 0 65" using slice_all [of bs] len by simp
  also have "\<dots> = slice bs 0 1 @ slice bs 1 33 @ slice bs 33 65" by (simp add: slice_append)
  also have "slice bs 0 1 = [bs ! 0]" using slice_byte [of 0 bs] len by simp
  finally show "encodeReceipt r = Inr bs"
    using len head by (simp add: encodeReceipt_def r assertExactBytes_def length_slice transport_constants)
next
  assume "encodeReceipt r = Inr bs"
  then have "length (tr_credentialHash r) = 32" "length (tr_merchantChallenge r) = 32"
    "bs = [1] @ tr_credentialHash r @ tr_merchantChallenge r"
    by (auto simp: encodeReceipt_def bindE_Inr_iff assertExactBytes_def transport_constants)
  then show "decodeReceipt bs = Inr r" by (simp add: decodeReceipt_def transport_constants slice_def)
qed

section \<open>Bundles\<close>

lemma slice_concat:
  "\<forall>e \<in> set es. length e = k \<Longrightarrow> i < length es \<Longrightarrow> slice (concat es) (i * k) (i * k + k) = es ! i"
proof (induction es arbitrary: i)
  case (Cons e es)
  show ?case
  proof (cases i)
    case 0
    with Cons.prems show ?thesis by (simp add: slice_head)
  next
    case (Suc j)
    with Cons.prems have "slice (concat (e # es)) (i * k) (i * k + k) = slice (concat es) (j * k) (j * k + k)"
      by (simp add: slice_skip add.commute)
    with Cons Suc show ?thesis by simp
  qed
qed simp

lemma concat_slices: "concat (map (\<lambda>i. slice bs (a + i * k) (a + i * k + k)) [0..<n]) = slice bs a (a + n * k)"
proof (induction n)
  case (Suc n)
  then show ?case using slice_append [of a "a + n * k" "a + n * k + k" bs] by (simp add: add_ac)
qed (simp add: slice_def)

lemma decodeBundle_encode:
  assumes "borsh_ok L" "validBundle b" "encodeCredentialProofBundle L b = Inr bs"
  shows "decodeBundle L bs = Inr b"
proof -
  let ?n = "length (credentials b)"
  obtain cb ab encs where cb: "encodeSessionCertificate L (sessionCertificate b) = Inr cb"
    and ab: "encodeDeviceAuthorization L (deviceAuthorization b) = Inr ab"
    and encs: "list_all2 (\<lambda>c e. encodePaymentCredential L c = Inr e) (credentials b) encs"
    and bs: "bs = cb @ ab @ leBytes 4 (int ?n) @ concat encs"
    using encodeCredentialProofBundle_layout [OF assms(1,2)] assms(3) by auto
  have lens: "length cb = 554" "length ab = 370" "length (concat encs) = ?n * 474" "length encs = ?n" "?n \<le> 32"
    using cb ab encoded_credentials_length [OF encs] encs encodeCredentialProofBundle_length(1) [OF assms(3)]
    by (simp_all add: encodeSessionCertificate_length encodeDeviceAuthorization_length list_all2_lengthD)
  have parts: "slice bs 0 554 = cb" "slice bs 554 924 = ab" "slice bs 924 928 = leBytes 4 (int ?n)"
    using lens by (simp_all add: bs slice_def)
  then have declared: "readU32LE bs 924 = int ?n" using lens by (simp add: readU32LE_def leInt_leBytes)
  have each: "\<forall>e \<in> set encs. length e = 474"
  proof
    fix e assume "e \<in> set encs"
    then obtain i where "i < length encs" "e = encs ! i" by (auto simp: in_set_conv_nth)
    with encs have "encodePaymentCredential L (credentials b ! i) = Inr e" by (simp add: list_all2_conv_all_nth)
    then show "length e = 474" by (rule encodePaymentCredential_length)
  qed
  have "slice bs (928 + i * 474) (928 + i * 474 + 474) = encs ! i" if "i < ?n" for i
    using slice_concat [OF each, of i] that lens by (simp add: bs slice_skip add.commute)
  then have "mapE (\<lambda>i. decodePaymentCredential L (slice bs (928 + i * 474) (928 + i * 474 + 474))) [0..<?n] = Inr (credentials b)"
    using encs lens by (simp add: mapE_Inr_iff list_all2_conv_all_nth decodePaymentCredential_iff [OF assms(1)])
  moreover have "decodeSessionCertificate L cb = Inr (sessionCertificate b)" "decodeDeviceAuthorization L ab = Inr (deviceAuthorization b)"
    using cb ab by (simp_all add: decodeSessionCertificate_iff [OF assms(1)] decodeDeviceAuthorization_iff [OF assms(1)])
  moreover have "length bs = 928 + ?n * 474" using lens by (simp add: bs)
  ultimately show ?thesis using parts declared lens(5)
    by (simp add: decodeBundle_def Let_def transport_constants encoded_lengths MAX_BRANCH_DEPTH_def del: upt.simps)
qed

lemma decodeBundle_iff:
  assumes "borsh_ok L"
  shows "decodeBundle L bs = Inr b \<longleftrightarrow> validBundle b \<and> encodeCredentialProofBundle L b = Inr bs"
proof
  assume d: "decodeBundle L bs = Inr b"
  define n where "n = nat (readU32LE bs 924)"
  have small: "readU32LE bs 924 \<le> 32" and len: "length bs = 928 + n * 474"
    and cb: "encodeSessionCertificate L (sessionCertificate b) = Inr (slice bs 0 554)"
    and ab: "encodeDeviceAuthorization L (deviceAuthorization b) = Inr (slice bs 554 924)"
    and creds: "mapE (\<lambda>i. decodePaymentCredential L (slice bs (928 + i * 474) (928 + i * 474 + 474))) [0..<n] = Inr (credentials b)"
    using d by (auto simp: decodeBundle_def bindE_Inr_iff Let_def transport_constants encoded_lengths MAX_BRANCH_DEPTH_def n_def
        decodeSessionCertificate_iff [OF assms] decodeDeviceAuthorization_iff [OF assms])
  let ?encs = "map (\<lambda>i. slice bs (928 + i * 474) (928 + i * 474 + 474)) [0..<n]"
  from creds have encs: "list_all2 (\<lambda>c e. encodePaymentCredential L c = Inr e) (credentials b) ?encs"
    by (auto simp: mapE_Inr_iff list_all2_conv_all_nth decodePaymentCredential_iff [OF assms])
  then have count: "length (credentials b) = n" by (simp add: list_all2_lengthD)
  have "\<forall>c \<in> set (credentials b). isOk (encodePaymentCredential L c)"
    using encs by (auto simp: list_all2_conv_all_nth in_set_conv_nth isOk_iff)
  moreover have "isOk (encodeSessionCertificate L (sessionCertificate b))" "isOk (encodeDeviceAuthorization L (deviceAuthorization b))"
    using cb ab by simp_all
  moreover have "n \<le> 32" using small by (simp add: n_def)
  ultimately have valid: "validBundle b"
    using count by (simp add: validBundle_def encodePaymentCredential_ok [OF assms] encodeSessionCertificate_ok [OF assms]
        encodeDeviceAuthorization_ok [OF assms])
  obtain encs' where "list_all2 (\<lambda>c e. encodePaymentCredential L c = Inr e) (credentials b) encs'"
    and enc: "encodeCredentialProofBundle L b = Inr (slice bs 0 554 @ slice bs 554 924 @ leBytes 4 (int n) @ concat encs')"
    using encodeCredentialProofBundle_layout [OF assms valid] cb ab count by auto
  then have "encs' = ?encs" using encs by (auto simp: list_all2_conv_all_nth intro!: nth_equalityI)
  have "0 \<le> readU32LE bs 924" using leInt_bounds by (simp add: readU32LE_def)
  then have "leBytes 4 (int n) = slice bs 924 928"
    using leBytes_leInt [of "slice bs 924 928"] len by (simp add: n_def readU32LE_def length_slice)
  moreover have "concat encs' = slice bs 928 (length bs)"
    unfolding \<open>encs' = ?encs\<close> concat_slices len by (simp add: mult.commute)
  moreover have "slice bs 0 554 @ slice bs 554 924 @ slice bs 924 928 @ slice bs 928 (length bs) = bs"
    using len slice_all [of bs] by (simp add: slice_append)
  ultimately show "validBundle b \<and> encodeCredentialProofBundle L b = Inr bs" using valid enc by simp
qed (use decodeBundle_encode [OF assms] in blast)

section \<open>Frames\<close>

lemma parseKind_number: "parseKind (natDecimal (kindNumber kind)) = Some kind"
  by (cases kind) (simp_all add: parseKind_def natDecimal.simps hexDigit_def)

lemma frame_fields:
  assumes "CHR ''.'' \<notin> set a" "CHR ''.'' \<notin> set b" "CHR ''.'' \<notin> set c" "CHR ''.'' \<notin> set d" "CHR ''.'' \<notin> set e"
    "CHR ''.'' \<notin> set f"
  shows "splitDots (a @ ''.'' @ b @ ''.'' @ c @ ''.'' @ d @ ''.'' @ e @ ''.'' @ f) = [a, b, c, d, e, f]"
  using assms by (simp add: splitDots_fields splitDots_field)

lemma parseFrame_text:
  assumes "length hash = 32" "index < frames" "frames \<le> 128"
  shows "parseFrame (frameText kind (bytesToHex hash) index frames chunk) =
    Inr \<lparr>pf_kind = kind, pf_payloadHash = hash, pf_payloadHashHex = bytesToHex hash, pf_index = index, pf_count = frames,
      pf_chunk = chunk\<rparr>"
proof -
  have fields: "splitDots (frameText kind (bytesToHex hash) index frames chunk) =
      [QR_PREFIX, natDecimal (kindNumber kind), bytesToHex hash, natDecimal index, natDecimal frames, base64UrlEncode chunk]"
    unfolding frameText_def
    by (rule frame_fields) (simp_all add: QR_PREFIX_def natDecimal_dot bytesToHex_dot base64UrlEncode_dot)
  have "hash \<noteq> []" using assms(1) by auto
  then have "hexToBytes (bytesToHex hash) = Inr hash" by (simp add: hexToBytes_iff)
  moreover have "base64UrlDecode (base64UrlEncode chunk) = Inr chunk" by (simp add: base64UrlDecode_iff)
  ultimately show ?thesis
    using assms by (simp add: parseFrame_def fields parseKind_number natDecimal_canonical natDecimal_positive
        numberOf_natDecimal assertExactBytes_def transport_constants Let_def)
qed

lemma parseFrame_facts:
  assumes "parseFrame text = Inr f"
  shows "pf_payloadHashHex f = bytesToHex (pf_payloadHash f)" "length (pf_payloadHash f) = 32" "pf_index f < pf_count f"
    "pf_count f \<le> 128"
  using assms
  by (auto simp: parseFrame_def bindE_Inr_iff Let_def hexToBytes_iff assertExactBytes_def transport_constants
      split: list.splits option.splits)

section \<open>Assembling\<close>

text \<open>Frames of one transfer: of the expected kind, with one hash and count, equal where the index is.\<close>

definition compatible :: "OfflineMessageKind \<Rightarrow> ParsedFrame set \<Rightarrow> bool" where
  "compatible kind fs \<longleftrightarrow> (\<forall>f \<in> fs. pf_kind f = kind) \<and>
     (\<forall>f \<in> fs. \<forall>g \<in> fs. pf_payloadHashHex f = pf_payloadHashHex g \<and> pf_count f = pf_count g \<and>
        (pf_index f = pf_index g \<longrightarrow> pf_chunk f = pf_chunk g))"

lemma compatible_subset: "compatible kind A \<Longrightarrow> B \<subseteq> A \<Longrightarrow> compatible kind B"
  unfolding compatible_def by blast

lemma compatible_chunk: "compatible kind A \<Longrightarrow> f \<in> A \<Longrightarrow> g \<in> A \<Longrightarrow> pf_index f = pf_index g \<Longrightarrow> pf_chunk f = pf_chunk g"
  unfolding compatible_def by blast

lemma compatible_same: "compatible kind A \<Longrightarrow> f \<in> A \<Longrightarrow> g \<in> A \<Longrightarrow>
    pf_payloadHashHex f = pf_payloadHashHex g \<and> pf_count f = pf_count g"
  unfolding compatible_def by blast

lemma compatible_add:
  assumes "compatible kind A"
  shows "compatible kind (insert f A) \<longleftrightarrow> pf_kind f = kind \<and> (\<forall>g \<in> A. pf_payloadHashHex f = pf_payloadHashHex g \<and>
    pf_count f = pf_count g \<and> (pf_index g = pf_index f \<longrightarrow> pf_chunk g = pf_chunk f))"
proof
  assume "compatible kind (insert f A)"
  then show "pf_kind f = kind \<and> (\<forall>g \<in> A. pf_payloadHashHex f = pf_payloadHashHex g \<and>
      pf_count f = pf_count g \<and> (pf_index g = pf_index f \<longrightarrow> pf_chunk g = pf_chunk f))"
    unfolding compatible_def by blast
next
  assume f: "pf_kind f = kind \<and> (\<forall>g \<in> A. pf_payloadHashHex f = pf_payloadHashHex g \<and>
      pf_count f = pf_count g \<and> (pf_index g = pf_index f \<longrightarrow> pf_chunk g = pf_chunk f))"
  show "compatible kind (insert f A)"
    unfolding compatible_def
  proof (intro conjI ballI impI)
    fix g h assume gh: "g \<in> insert f A" "h \<in> insert f A"
    show "pf_payloadHashHex g = pf_payloadHashHex h" "pf_count g = pf_count h"
      using f gh compatible_same [OF assms, of g h] by (metis insertE)+
    show "pf_chunk g = pf_chunk h" if "pf_index g = pf_index h"
      using f gh compatible_chunk [OF assms, of g h] that by (metis insertE)
  qed (use f assms [unfolded compatible_def] in blast)
qed

text \<open>The state of the loop after the frames \<open>fs\<close>.\<close>

definition stateOf :: "ParsedFrame list \<Rightarrow> Assembly" where
  "stateOf fs = \<lparr>as_chunks = fold (\<lambda>f. AList.update (pf_index f) (pf_chunk f)) fs [],
     as_transfer = (case fs of [] \<Rightarrow> None | f # _ \<Rightarrow> Some f)\<rparr>"

lemma stateOf_snoc: "stateOf (fs @ [f]) = \<lparr>as_chunks = AList.update (pf_index f) (pf_chunk f) (as_chunks (stateOf fs)),
    as_transfer = (case as_transfer (stateOf fs) of None \<Rightarrow> Some f | Some t \<Rightarrow> Some t)\<rparr>"
  by (simp add: stateOf_def split: list.split)

lemma stateOf_keys: "distinct (map fst (as_chunks (stateOf fs)))" "fst ` set (as_chunks (stateOf fs)) = pf_index ` set fs"
proof (induction fs rule: rev_induct)
  case (snoc f fs)
  { case 1 then show ?case using snoc by (simp add: stateOf_snoc distinct_update) }
  { case 2
    have "dom (map_of (as_chunks (stateOf (fs @ [f])))) = insert (pf_index f) (dom (map_of (as_chunks (stateOf fs))))"
      by (simp add: stateOf_snoc update_conv')
    then show ?case using snoc by (simp add: dom_map_of_conv_image_fst) }
qed (simp_all add: stateOf_def)

lemma stateOf_lookup:
  "compatible kind (set fs) \<Longrightarrow> map_of (as_chunks (stateOf fs)) i = Some c \<longleftrightarrow> (\<exists>f \<in> set fs. pf_index f = i \<and> pf_chunk f = c)"
proof (induction fs rule: rev_induct)
  case (snoc f fs)
  have "compatible kind (set fs)" by (rule compatible_subset [OF snoc.prems]) auto
  note IH = snoc.IH [OF this]
  show ?case
  proof (cases "pf_index f = i")
    case True
    then have lookup: "map_of (as_chunks (stateOf (fs @ [f]))) i = Some (pf_chunk f)"
      by (simp add: stateOf_snoc update_conv')
    have "pf_chunk g = pf_chunk f" if "g \<in> set (fs @ [f])" "pf_index g = i" for g
      by (rule compatible_chunk [OF snoc.prems that(1)]) (use that True in simp_all)
    moreover have "f \<in> set (fs @ [f])" by simp
    ultimately show ?thesis using True unfolding lookup option.inject by metis
  next
    case False
    with IH show ?thesis by (auto simp: stateOf_snoc update_conv')
  qed
qed (simp add: stateOf_def)

lemma stateOf_lookup_None: "map_of (as_chunks (stateOf fs)) i = None \<longleftrightarrow> i \<notin> pf_index ` set fs"
  by (simp add: map_of_eq_None_iff stateOf_keys)

lemma compatible_insert:
  assumes "compatible kind (set fs)"
  shows "compatible kind (insert f (set fs)) \<longleftrightarrow> pf_kind f = kind \<and>
    (case as_transfer (stateOf fs) of None \<Rightarrow> True
     | Some t \<Rightarrow> pf_payloadHashHex f = pf_payloadHashHex t \<and> pf_count f = pf_count t) \<and>
    (case map_of (as_chunks (stateOf fs)) (pf_index f) of None \<Rightarrow> True | Some c \<Rightarrow> c = pf_chunk f)"
proof (cases fs)
  case Nil
  then show ?thesis using compatible_add [of kind "{}" f] by (simp add: compatible_def [of kind "{}"] stateOf_def)
next
  case (Cons t ts)
  then have t: "as_transfer (stateOf fs) = Some t" "t \<in> set fs" by (simp_all add: stateOf_def)
  have chunk: "(case map_of (as_chunks (stateOf fs)) (pf_index f) of None \<Rightarrow> True | Some c \<Rightarrow> c = pf_chunk f) \<longleftrightarrow>
      (\<forall>g \<in> set fs. pf_index g = pf_index f \<longrightarrow> pf_chunk g = pf_chunk f)"
  proof (cases "map_of (as_chunks (stateOf fs)) (pf_index f)")
    case None
    then have "pf_index f \<notin> pf_index ` set fs" using stateOf_lookup_None by metis
    then show ?thesis unfolding None by (simp, metis image_eqI)
  next
    case (Some c)
    then obtain g where g: "g \<in> set fs" "pf_index g = pf_index f" "pf_chunk g = c"
      using stateOf_lookup [OF assms] by blast
    then have "pf_chunk h = c" if "h \<in> set fs" "pf_index h = pf_index f" for h
      using compatible_chunk [OF assms that(1) g(1)] that(2) by simp
    with g show ?thesis unfolding Some option.case by metis
  qed
  have same: "(pf_payloadHashHex f = pf_payloadHashHex t \<and> pf_count f = pf_count t) \<longleftrightarrow>
      (\<forall>g \<in> set fs. pf_payloadHashHex f = pf_payloadHashHex g \<and> pf_count f = pf_count g)"
    using compatible_same [OF assms t(2)] t(2) by metis
  show ?thesis unfolding chunk t(1) option.case same compatible_add [OF assms] by blast
qed

lemma assembleFrames_iff:
  "compatible kind (set fs) \<Longrightarrow> assembleFrames kind raws (stateOf fs) = Inr st \<longleftrightarrow>
     (\<exists>gs. list_all2 (\<lambda>raw g. parseFrame raw = Inr g) raws gs \<and> compatible kind (set (fs @ gs)) \<and> st = stateOf (fs @ gs))"
proof (induction raws arbitrary: fs)
  case Nil
  then show ?case by auto
next
  case (Cons raw raws)
  show ?case
  proof (cases "parseFrame raw")
    case (Inl e)
    then show ?thesis by (auto simp: list_all2_Cons1)
  next
    case (Inr f)
    have step: "assembleFrames kind (raw # raws) (stateOf fs) = Inr st \<longleftrightarrow>
        compatible kind (set (fs @ [f])) \<and> assembleFrames kind raws (stateOf (fs @ [f])) = Inr st"
    proof -
      have other: "(case as_transfer (stateOf fs) of None \<Rightarrow> False
          | Some transfer \<Rightarrow> pf_payloadHashHex f \<noteq> pf_payloadHashHex transfer \<or> pf_count f \<noteq> pf_count transfer) \<longleftrightarrow>
          \<not> (case as_transfer (stateOf fs) of None \<Rightarrow> True
            | Some t \<Rightarrow> pf_payloadHashHex f = pf_payloadHashHex t \<and> pf_count f = pf_count t)"
        by (simp split: option.split)
      have changed: "(case map_of (as_chunks (stateOf fs)) (pf_index f) of None \<Rightarrow> False
          | Some existing \<Rightarrow> \<not> equalBytes existing (pf_chunk f)) \<longleftrightarrow>
          \<not> (case map_of (as_chunks (stateOf fs)) (pf_index f) of None \<Rightarrow> True | Some c \<Rightarrow> c = pf_chunk f)"
        by (simp split: option.split)
      have set: "set (fs @ [f]) = insert f (set fs)" by simp
      show ?thesis
        unfolding assembleFrames.simps Inr bindE_simps bindE_Inr_iff throwIf_Inr_iff other changed stateOf_snoc set
          compatible_insert [OF Cons.prems]
        by blast
    qed
    have more: "(\<exists>gs. list_all2 (\<lambda>raw g. parseFrame raw = Inr g) (raw # raws) gs \<and> Q (fs @ gs)) \<longleftrightarrow>
        (\<exists>gs. list_all2 (\<lambda>raw g. parseFrame raw = Inr g) raws gs \<and> Q ((fs @ [f]) @ gs))" for Q
      using Inr by (auto simp: list_all2_Cons1)
    have "(compatible kind (set (fs @ [f])) \<and> assembleFrames kind raws (stateOf (fs @ [f])) = Inr st) \<longleftrightarrow>
        (\<exists>gs. list_all2 (\<lambda>raw g. parseFrame raw = Inr g) raws gs \<and> compatible kind (set ((fs @ [f]) @ gs)) \<and>
           st = stateOf ((fs @ [f]) @ gs))"
    proof (cases "compatible kind (set (fs @ [f]))")
      case True
      with Cons.IH [OF True] show ?thesis by blast
    next
      case False
      moreover have "compatible kind (set ((fs @ [f]) @ gs)) \<Longrightarrow> compatible kind (set (fs @ [f]))" for gs
        by (erule compatible_subset) auto
      ultimately show ?thesis by blast
    qed
    then show ?thesis using step more [of "\<lambda>xs. compatible kind (set xs) \<and> st = stateOf xs"] by argo
  qed
qed

text \<open>The payload the frames carry, and when they carry one.\<close>

definition carries :: "lib \<Rightarrow> OfflineMessageKind \<Rightarrow> ParsedFrame set \<Rightarrow> bytes \<Rightarrow> bool" where
  "carries L kind fs payload \<longleftrightarrow> fs \<noteq> {} \<and> compatible kind fs \<and> (\<forall>f \<in> fs. pf_payloadHash f = sha256 L payload) \<and>
     length payload \<le> 65536 \<and> (\<exists>chunks. payload = concat chunks \<and> (\<forall>f \<in> fs. pf_count f = length chunks) \<and>
       (\<forall>i < length chunks. \<exists>f \<in> fs. pf_index f = i \<and> pf_chunk f = chunks ! i))"

lemma permuted_lengths:
  assumes "distinct (map fst al)" "fst ` set al = {..<n}" "length chunks = n" "\<forall>i < n. map_of al i = Some (chunks ! i)"
  shows "sum_list (map (\<lambda>(i, c). length c) al) = length (concat chunks)"
proof -
  have "sum_list (map (\<lambda>(i, c). length c) al) = (\<Sum>p \<in> set al. length (snd p))"
    using assms(1) by (simp add: sum_list_distinct_conv_sum_set distinct_map case_prod_beta)
  also have "\<dots> = (\<Sum>i \<in> fst ` set al. length (chunks ! i))"
  proof (rule sum.reindex_cong [of fst, symmetric])
    show "inj_on fst (set al)" using assms(1) by (simp add: distinct_map)
    fix p assume p: "p \<in> set al"
    then have "fst p < n" using assms(2) by auto
    moreover have "map_of al (fst p) = Some (snd p)" using p assms(1) by simp
    ultimately show "length (chunks ! fst p) = length (snd p)" using assms(4) by simp
  qed simp
  also have "\<dots> = sum_list (map length chunks)"
    unfolding assms(2) by (simp add: sum_list_sum_nth assms(3) atLeast0LessThan)
  finally show ?thesis by (simp add: length_concat)
qed

lemma parsed_member:
  "list_all2 (\<lambda>raw f. parseFrame raw = Inr f) raws fs \<Longrightarrow> f \<in> set fs \<Longrightarrow> \<exists>raw. parseFrame raw = Inr f"
  by (auto simp: list_all2_conv_all_nth in_set_conv_nth)

lemma received_member:
  assumes "list_all2 (\<lambda>raw f. parseFrame raw = Inr f) raws fs" "raw \<in> set raws"
  obtains f where "f \<in> set fs" "parseFrame raw = Inr f"
proof -
  obtain i where "i < length raws" "raw = raws ! i" using assms(2) by (auto simp: in_set_conv_nth)
  with assms(1) that [of "fs ! i"] show thesis by (simp add: list_all2_conv_all_nth)
qed

lemma transfer_first: "as_transfer (stateOf fs) = Some t \<Longrightarrow> t \<in> set fs"
  by (cases fs) (simp_all add: stateOf_def)

lemma stateOf_size: "length (as_chunks (stateOf fs)) = card (pf_index ` set fs)"
proof -
  have "length (as_chunks (stateOf fs)) = card (fst ` set (as_chunks (stateOf fs)))"
    using distinct_card [OF stateOf_keys(1), of fs] by simp
  then show ?thesis by (simp add: stateOf_keys)
qed

lemma assemble_carries:
  assumes "list_all2 (\<lambda>raw f. parseFrame raw = Inr f) raws fs" "compatible kind (set fs)" "carries L kind (set fs) p"
  shows "assemble L kind raws = Inr p"
proof -
  obtain chunks where p: "p = concat chunks" and counts: "\<forall>f \<in> set fs. pf_count f = length chunks"
    and all: "\<forall>i < length chunks. \<exists>f \<in> set fs. pf_index f = i \<and> pf_chunk f = chunks ! i"
    and some: "fs \<noteq> []" and hash: "\<forall>f \<in> set fs. pf_payloadHash f = sha256 L p" and size: "length p \<le> 65536"
    using assms(3) by (auto simp: carries_def)
  obtain t where t: "as_transfer (stateOf fs) = Some t" using some by (cases fs) (auto simp: stateOf_def)
  note t_in = transfer_first [OF t]
  have bound: "pf_index f < length chunks" if "f \<in> set fs" for f
    using parsed_member [OF assms(1) that] parseFrame_facts(3) counts that by fastforce
  then have keys: "pf_index ` set fs = {..<length chunks}" using all by force
  have lookup: "map_of (as_chunks (stateOf fs)) i = Some (chunks ! i)" if "i < length chunks" for i
    using all that stateOf_lookup [OF assms(2)] by blast
  have loop: "assembleFrames kind raws \<lparr>as_chunks = [], as_transfer = None\<rparr> = Inr (stateOf fs)"
    using assembleFrames_iff [of kind "[]" raws "stateOf fs"] assms(1,2) by (auto simp: compatible_def stateOf_def)
  have joined: "mapE (\<lambda>i. case map_of (as_chunks (stateOf fs)) i of None \<Rightarrow> Inl (OgpValidationError ''INCOMPLETE_QR_TRANSFER'')
      | Some chunk \<Rightarrow> Inr chunk) [0..<length chunks] = Inr chunks"
    by (simp add: mapE_Inr_iff list_all2_conv_all_nth lookup)
  have total: "sum_list (map (\<lambda>(i, c). length c) (as_chunks (stateOf fs))) = length p"
    unfolding p
    by (rule permuted_lengths [OF stateOf_keys(1) trans [OF stateOf_keys(2) keys] refl]) (use lookup in blast)
  show ?thesis
    using t t_in counts hash size
    by (simp add: assemble_def loop stateOf_size keys total joined p [symmetric] hashSha256_def transport_constants Let_def)
qed

lemma assemble_sound:
  assumes "assemble L kind raws = Inr p"
  obtains fs where "list_all2 (\<lambda>raw f. parseFrame raw = Inr f) raws fs" "carries L kind (set fs) p"
proof -
  obtain st t chunks where loop: "assembleFrames kind raws \<lparr>as_chunks = [], as_transfer = None\<rparr> = Inr st"
    and t: "as_transfer st = Some t" and size: "length (as_chunks st) = pf_count t"
    and total: "sum_list (map (\<lambda>(i, c). length c) (as_chunks st)) \<le> 65536"
    and joined: "mapE (\<lambda>i. case map_of (as_chunks st) i of None \<Rightarrow> Inl (OgpValidationError ''INCOMPLETE_QR_TRANSFER'')
      | Some chunk \<Rightarrow> Inr chunk) [0..<pf_count t] = Inr chunks"
    and p: "p = concat chunks" and hash: "sha256 L p = pf_payloadHash t"
    using assms by (auto simp: assemble_def bindE_Inr_iff Let_def hashSha256_def transport_constants split: option.splits)
  obtain fs where parsed: "list_all2 (\<lambda>raw f. parseFrame raw = Inr f) raws fs" and comp: "compatible kind (set fs)"
    and st: "st = stateOf fs"
    using assembleFrames_iff [of kind "[]" raws st] loop by (auto simp: compatible_def stateOf_def)
  have t_in: "t \<in> set fs" using t transfer_first st by blast
  have facts: "pf_payloadHashHex f = bytesToHex (pf_payloadHash f)" "pf_index f < pf_count f" if "f \<in> set fs" for f
    using parsed_member [OF parsed that] parseFrame_facts by blast+
  have same: "pf_payloadHash f = sha256 L p" "pf_count f = pf_count t" if "f \<in> set fs" for f
    using compatible_same [OF comp that t_in] facts(1) [OF that] facts(1) [OF t_in] hash by simp_all
  have lookup: "length chunks = pf_count t" "\<forall>i < pf_count t. map_of (as_chunks st) i = Some (chunks ! i)"
    using joined by (auto simp: mapE_Inr_iff list_all2_conv_all_nth split: option.splits)
  then have all: "\<forall>i < length chunks. \<exists>f \<in> set fs. pf_index f = i \<and> pf_chunk f = chunks ! i"
    using stateOf_lookup [OF comp] st by simp
  then have "fst ` set (as_chunks st) = {..<length chunks}"
    using facts(2) same(2) lookup(1) by (force simp: st stateOf_keys)
  then have "sum_list (map (\<lambda>(i, c). length c) (as_chunks st)) = length p"
    unfolding p
    by (intro permuted_lengths [OF _ _ refl]) (use lookup in \<open>auto simp only: st stateOf_keys\<close>)
  with total have "length p \<le> 65536" by simp
  moreover have "\<forall>f \<in> set fs. pf_count f = length chunks" using same(2) lookup(1) by simp
  moreover have "set fs \<noteq> {}" using t_in by auto
  moreover have "\<forall>f \<in> set fs. pf_payloadHash f = sha256 L p" using same(1) by simp
  ultimately have "carries L kind (set fs) p"
    unfolding carries_def using comp p all by (intro conjI exI [of _ chunks]) assumption+
  with parsed show thesis by (rule that)
qed

text \<open>Only the set of frames matters.\<close>

lemma parsed_set:
  assumes "list_all2 (\<lambda>raw f. parseFrame raw = Inr f) as fs" "set bs = set as"
  obtains gs where "list_all2 (\<lambda>raw f. parseFrame raw = Inr f) bs gs" "set gs = set fs"
proof
  let ?gs = "map (\<lambda>raw. projr (parseFrame raw)) bs"
  have fs: "fs = map (\<lambda>raw. projr (parseFrame raw)) as" and ok: "\<forall>raw \<in> set as. isOk (parseFrame raw)"
    using assms(1) by (auto simp: list_all2_conv_all_nth in_set_conv_nth isOk_iff intro!: nth_equalityI)
  show "list_all2 (\<lambda>raw f. parseFrame raw = Inr f) bs ?gs"
    using ok assms(2) by (auto simp: list_all2_conv_all_nth isOk_iff) (metis nth_mem sum.sel(2))
  show "set ?gs = set fs" using fs assms(2) by simp
qed

lemma assemble_set:
  assumes "set as = set bs" "assemble L kind as = Inr p"
  shows "assemble L kind bs = Inr p"
proof -
  obtain fs where fs: "list_all2 (\<lambda>raw f. parseFrame raw = Inr f) as fs" "carries L kind (set fs) p"
    using assemble_sound [OF assms(2)] .
  obtain gs where gs: "list_all2 (\<lambda>raw f. parseFrame raw = Inr f) bs gs" "set gs = set fs"
    using parsed_set [OF fs(1) assms(1) [symmetric]] .
  from fs(2) gs(2) have "carries L kind (set gs) p" "compatible kind (set gs)" by (simp_all add: carries_def)
  with assemble_carries [OF gs(1)] show ?thesis by blast
qed

section \<open>Framing\<close>

lemma concat_chunks: "concat (map (\<lambda>i. take k (drop (i * k) p)) [0..<n]) = take (n * k) p"
proof (induction n)
  case (Suc n)
  have "take (Suc n * k) p = take (n * k) p @ take k (drop (n * k) p)"
    using take_add [of "n * k" k p] by (simp add: add.commute)
  with Suc show ?case by simp
qed simp

lemma frame_slice: "slice p (i * k) (min (length p) (Suc i * k)) = take k (drop (i * k) p)"
proof (cases "Suc i * k \<le> length p")
  case False
  then have "take k (drop (i * k) p) = drop (i * k) p" by simp
  with False show ?thesis by (simp add: slice_def)
qed (simp add: slice_def)

lemma frame_count: "0 < k \<Longrightarrow> m \<le> (m + k - 1) div k * k" for m k :: nat
  using div_mult_mod_eq [of "m + k - 1" k] mod_less_divisor [of k "m + k - 1"] by linarith

lemma frames_assemble:
  assumes "hash_ok L" "0 < qr_chunkBytes t" "frame L t kind p = Inr raws" "set received = set raws"
  shows "assemble L kind received = Inr p"
proof -
  let ?k = "qr_chunkBytes t"
  let ?n = "(length p + ?k - 1) div ?k" and ?hash = "sha256 L p" and ?chunk = "\<lambda>i. take ?k (drop (i * ?k) p)"
  let ?f = "\<lambda>i. \<lparr>pf_kind = kind, pf_payloadHash = ?hash, pf_payloadHashHex = bytesToHex ?hash, pf_index = i, pf_count = ?n,
    pf_chunk = ?chunk i\<rparr>"
  have size: "0 < length p" "length p \<le> 65536" "?n \<le> 128"
    and raws: "raws = map (\<lambda>i. frameText kind (bytesToHex ?hash) i ?n (?chunk i)) [0..<?n]"
    using assms(3) by (auto simp: frame_def bindE_Inr_iff Let_def transport_constants hashSha256_def frame_slice
        simp del: mult_Suc)
  have cover: "length p \<le> ?n * ?k" by (rule frame_count [OF assms(2)])
  then have some: "0 < ?n" using size(1) by (cases "?n = 0") auto
  have parsed: "list_all2 (\<lambda>raw f. parseFrame raw = Inr f) raws (map ?f [0..<?n])"
    using assms(1) size(3) by (simp add: raws list_all2_conv_all_nth parseFrame_text hash_ok_def)
  have "concat (map ?chunk [0..<?n]) = p" using cover by (simp add: concat_chunks)
  then have "carries L kind (set (map ?f [0..<?n])) p"
    unfolding carries_def using some size(2)
    by (intro conjI exI [of _ "map ?chunk [0..<?n]"]) (auto simp: compatible_def)
  moreover from this have "compatible kind (set (map ?f [0..<?n]))" by (simp add: carries_def)
  ultimately have "assemble L kind raws = Inr p" using assemble_carries [OF parsed] by blast
  with assemble_set [OF assms(4) [symmetric]] show ?thesis .
qed

lemma frame_defined:
  assumes "hash_ok L" "0 < length p" "length p \<le> 65536" "length p \<le> 128 * qr_chunkBytes t" "0 < qr_chunkBytes t"
  shows "isOk (frame L t kind p)"
proof -
  have "(length p + qr_chunkBytes t - 1) div qr_chunkBytes t < 129"
    using assms(4,5) by (subst div_less_iff_less_mult) auto
  with assms show ?thesis by (simp add: frame_def Let_def transport_constants isOk_iff)
qed

end
