(* ===== verification/TransportTheorems.thy ===== *)
theory TransportTheorems
  imports TransportFacts Samples
begin

text \<open>
  The properties of \<open>packages/transports\<close>: what the merchant accepts, the payload formats, and the
  delivery of messages over frames that may arrive in any order and repeatedly.
\<close>

section \<open>Sample challenge\<close>

definition sampleEnvironment :: OfflineTrustEnvironment where
  "sampleEnvironment = \<lparr>ev_networkId = cx_networkId sampleContext, ev_clusterGenesisHash = cx_clusterGenesisHash sampleContext,
     ev_programId = cx_programId sampleContext, ev_trustedCertificateIssuer = cx_trustedCertificateIssuer sampleContext\<rparr>"

definition challengeFor :: "PaymentRequest \<Rightarrow> MerchantChallenge" where
  "challengeFor rq = \<lparr>ev_networkId = cx_networkId sampleContext, ev_clusterGenesisHash = cx_clusterGenesisHash sampleContext,
     ev_programId = cx_programId sampleContext, mc_merchant = rq_merchant rq, mc_merchantDeviceKey = rq_merchantDeviceKey rq,
     mc_amount = rq_amount rq, mc_challenge = rq_merchantChallenge rq\<rparr>"

definition contextOf :: "OfflineTrustEnvironment \<Rightarrow> bytes \<Rightarrow> ProtocolTrustContext" where
  "contextOf environment sessionId = \<lparr>cx_networkId = ev_networkId environment,
     cx_clusterGenesisHash = ev_clusterGenesisHash environment, cx_programId = ev_programId environment,
     cx_sessionId = sessionId, cx_trustedCertificateIssuer = ev_trustedCertificateIssuer environment\<rparr>"

lemma sampleContextOf: "contextOf sampleEnvironment (sc_sessionId sampleCertificate) = sampleContext"
  by (simp add: contextOf_def sampleEnvironment_def sampleContext_def)

lemma sampleChallenge_valid: "validChallenge (challengeFor sampleRequest)"
  by (simp add: validChallenge_def challengeFor_def sampleRequest_def sampleContext_def list_all_iff)

lemma sampleTransport: "newQRTransport 480 = Inr \<lparr>qr_chunkBytes = 480\<rparr>"
  by (simp add: newQRTransport_def MAX_CHUNK_BYTES_def)

lemma newQRTransport_iff: "newQRTransport n = Inr t \<longleftrightarrow> 64 \<le> n \<and> n \<le> 1024 \<and> t = \<lparr>qr_chunkBytes = nat n\<rparr>"
  by (auto simp: newQRTransport_def bindE_Inr_iff MAX_CHUNK_BYTES_def)

lemma sampleBundle_wellFormed: "validBundle sampleBundle"
  using samplePayments_valid by (simp add: validBundle_def sampleBundle_def validDeviceAuthorization_def integer_ranges)

section \<open>The answer to a challenge\<close>

lemma validateMerchantResponse_iff:
  "validateMerchantResponse L env ch bundle = Inr v \<longleftrightarrow>
     ev_networkId ch = ev_networkId env \<and> ev_clusterGenesisHash ch = ev_clusterGenesisHash env \<and>
     ev_programId ch = ev_programId env \<and>
     validateCredentialProofBundle L (contextOf env (sc_sessionId (sessionCertificate bundle))) bundle = Inr (vr_finalState v) \<and>
     credentials bundle \<noteq> [] \<and> vr_credential v = last (credentials bundle) \<and>
     pc_merchant (vr_credential v) = mc_merchant ch \<and> pc_merchantDeviceKey (vr_credential v) = mc_merchantDeviceKey ch \<and>
     pc_amount (vr_credential v) = mc_amount ch \<and> pc_merchantChallenge (vr_credential v) = mc_challenge ch"
proof -
  have "pc_sequence (last (credentials bundle)) = pt_sequence s \<and> pc_newStateHash (last (credentials bundle)) = pt_stateHash s"
    if "validateCredentialProofBundle L cx bundle = Inr s" "credentials bundle \<noteq> []" for cx s
    using bundle_last [OF that] by (simp add: nextParent_def)
  then show ?thesis
    by (cases v) (auto simp: validateMerchantResponse_def assertChallengeEnvironment_def bindE_Inr_iff Let_def contextOf_def)
qed

text \<open>
  C19: a merchant accepts a bundle exactly when the challenge is for the
  merchant's own network and program, the bundle is a valid proof bundle of its session under the
  merchant's trust root, and its last payment is to this merchant and device, of the requested
  amount, on the outstanding challenge. The final state it reports is the one that payment
  leads to.
\<close>

theorem merchant_accepts_exactly:
  "(\<exists>v. validateMerchantResponse L env ch bundle = Inr v) \<longleftrightarrow>
     ev_networkId ch = ev_networkId env \<and> ev_clusterGenesisHash ch = ev_clusterGenesisHash env \<and>
     ev_programId ch = ev_programId env \<and>
     validateCredentialProofBundle L (contextOf env (sc_sessionId (sessionCertificate bundle))) bundle =
       Inr (nextParent (last (credentials bundle))) \<and>
     credentials bundle \<noteq> [] \<and> pc_merchant (last (credentials bundle)) = mc_merchant ch \<and>
     pc_merchantDeviceKey (last (credentials bundle)) = mc_merchantDeviceKey ch \<and>
     pc_amount (last (credentials bundle)) = mc_amount ch \<and>
     pc_merchantChallenge (last (credentials bundle)) = mc_challenge ch"
  (is "?l \<longleftrightarrow> ?r")
proof
  assume ?l
  then obtain v where v: "validateMerchantResponse L env ch bundle = Inr v" by blast
  then have "vr_finalState v = nextParent (last (credentials bundle))"
    using bundle_last by (auto simp: validateMerchantResponse_iff)
  with v show ?r unfolding validateMerchantResponse_iff by metis
next
  assume ?r
  then have "validateMerchantResponse L env ch bundle =
      Inr \<lparr>vr_credential = last (credentials bundle), vr_finalState = nextParent (last (credentials bundle))\<rparr>"
    by (simp add: validateMerchantResponse_iff)
  then show ?l by blast
qed

text \<open>
  When a payer holds a valid bundle for the merchant's environment and
  creates a payment that answers the challenge, the bundle extended by it is accepted: the
  merchant sees that payment and the state it leads to.
\<close>

theorem honest_payment_accepted:
  assumes "signature_ok L" "cx = contextOf env (sc_sessionId (sessionCertificate bundle))"
    and "validateCredentialProofBundle L cx bundle = Inr parent"
    and "createPaymentCredential L cx (sessionCertificate bundle) parent
      \<lparr>rq_merchant = mc_merchant ch, rq_merchantDeviceKey = mc_merchantDeviceKey ch, rq_amount = mc_amount ch,
       rq_merchantChallenge = mc_challenge ch, rq_createdAt = now\<rparr> sk = Inr payment"
    and "assertChallengeEnvironment ch env = Inr ()"
  shows "validateMerchantResponse L env ch (bundle\<lparr>credentials := credentials bundle @ [payment]\<rparr>) =
    Inr \<lparr>vr_credential = payment, vr_finalState = nextParent payment\<rparr>"
  using bundle_extended [OF assms(1,3,4)] created_fields [OF assms(4)] assms(2,5)
  by (simp add: validateMerchantResponse_iff assertChallengeEnvironment_def)

theorem honest_payment_accepted_witness:
  "validateMerchantResponse sampleLib sampleEnvironment (challengeFor secondRequest) sampleBundle =
     Inr \<lparr>vr_credential = secondPayment, vr_finalState = nextParent secondPayment\<rparr>"
proof -
  let ?b = "sampleBundle\<lparr>credentials := [samplePayment]\<rparr>"
  have valid: "validateCredentialProofBundle sampleLib sampleContext ?b = Inr (nextParent samplePayment)"
    using sample_payments_accepted(1) [unfolded sampleParent_def]
    by (simp add: validateCredentialProofBundle_iff sampleBundle_def)
  have env: "sampleContext = contextOf sampleEnvironment (sc_sessionId (sessionCertificate ?b))"
    using sampleContextOf by (simp add: sampleBundle_def)
  have created: "createPaymentCredential sampleLib sampleContext (sessionCertificate ?b) (nextParent samplePayment)
      \<lparr>rq_merchant = mc_merchant (challengeFor secondRequest), rq_merchantDeviceKey = mc_merchantDeviceKey (challengeFor secondRequest),
       rq_amount = mc_amount (challengeFor secondRequest), rq_merchantChallenge = mc_challenge (challengeFor secondRequest),
       rq_createdAt = 3000\<rparr> (replicate 32 6) = Inr secondPayment"
    using secondPayment_created by (simp add: challengeFor_def secondRequest_def sampleBundle_def)
  have "assertChallengeEnvironment (challengeFor secondRequest) sampleEnvironment = Inr ()"
    by (simp add: assertChallengeEnvironment_def challengeFor_def sampleEnvironment_def)
  from honest_payment_accepted [OF sampleLib_signature env valid created this] show ?thesis by (simp add: sampleBundle_def)
qed

section \<open>Payloads\<close>

text \<open>
  The three payload decoders are the exact inverses of their encoders. A
  payload is read as a given challenge, receipt or bundle exactly when that is its encoding; a
  bundle that is read has at most 32 well-formed, signed credentials.
\<close>

theorem payloads_roundtrip:
  assumes "borsh_ok L"
  shows "(decodeChallenge bs = Inr ch \<longleftrightarrow> encodeChallenge ch = Inr bs) \<and>
    (decodeReceipt bs = Inr rc \<longleftrightarrow> encodeReceipt rc = Inr bs) \<and>
    (decodeBundle L bs = Inr b \<longleftrightarrow> validBundle b \<and> encodeCredentialProofBundle L b = Inr bs)"
  using decodeChallenge_iff decodeReceipt_iff decodeBundle_iff [OF assms] by blast

theorem payloads_roundtrip_witness:
  "\<exists>bs. length bs = 1876 \<and> decodeBundle sampleLib bs = Inr sampleBundle"
proof -
  obtain bs where bs: "encodeCredentialProofBundle sampleLib sampleBundle = Inr bs"
    using encodeCredentialProofBundle_ok [OF sampleLib_borsh sampleBundle_wellFormed] by (auto simp: isOk_iff)
  have "length bs = 1876" using encodeCredentialProofBundle_length(2) [OF bs] by (simp add: sampleBundle_def)
  with payloads_roundtrip [OF sampleLib_borsh, of bs _ _ sampleBundle] bs sampleBundle_wellFormed show ?thesis by blast
qed

text \<open>
  Chunk text is canonical. The decoder accepts a text as given bytes exactly
  when it is their unpadded base64url encoding, and likewise for hexadecimal hashes, where the
  empty text is refused.
\<close>

theorem base64_canonical:
  "(base64UrlDecode s = Inr bs \<longleftrightarrow> s = base64UrlEncode bs) \<and> (hexToBytes s = Inr bs \<longleftrightarrow> bs \<noteq> [] \<and> s = bytesToHex bs)"
  using base64UrlDecode_iff hexToBytes_iff by blast

section \<open>Delivery\<close>

text \<open>
  Whatever the chunk size, order and repetition, a receiver that has seen
  exactly the frames the sender produced reads the message that was sent: the challenge, the
  proof bundle or the receipt.
\<close>

theorem messages_delivered:
  assumes "borsh_ok L" "hash_ok L" "newQRTransport n = Inr t" "set received = set sent"
  shows "(sendChallenge L t ch = Inr sent \<longrightarrow> receiveChallenge L received = Inr ch) \<and>
    (sendCredential L t b = Inr sent \<longrightarrow> validBundle b \<longrightarrow> receiveCredential L received = Inr b) \<and>
    (sendReceipt L t rc = Inr sent \<longrightarrow> receiveReceipt L received = Inr rc)"
proof -
  have t: "0 < qr_chunkBytes t" using assms(3) by (auto simp: newQRTransport_iff)
  note deliver = frames_assemble [OF assms(2) t _ assms(4)]
  show ?thesis
    by (auto simp: sendChallenge_def receiveChallenge_def sendCredential_def receiveCredential_def sendReceipt_def
        receiveReceipt_def bindE_Inr_iff decodeChallenge_iff decodeReceipt_iff decodeBundle_iff [OF assms(1)]
        dest!: deliver)
qed

lemma sampleFrames: obtains fs where "sendChallenge sampleLib \<lparr>qr_chunkBytes = 480\<rparr> (challengeFor sampleRequest) = Inr fs"
proof -
  obtain bs where bs: "encodeChallenge (challengeFor sampleRequest) = Inr bs"
    using sampleChallenge_valid by (auto simp: encodeChallenge_iff)
  then have "length bs = 170" using sampleChallenge_valid by (auto simp: encodeChallenge_iff validChallenge_def)
  then have "isOk (frame sampleLib \<lparr>qr_chunkBytes = 480\<rparr> ChallengeMessage bs)" by (intro frame_defined) simp_all
  with bs that show thesis by (auto simp: sendChallenge_def isOk_iff)
qed

theorem messages_delivered_witness:
  "\<exists>fs. sendChallenge sampleLib \<lparr>qr_chunkBytes = 480\<rparr> (challengeFor sampleRequest) = Inr fs \<and>
     receiveChallenge sampleLib (rev fs @ fs) = Inr (challengeFor sampleRequest)"
proof -
  obtain fs where fs: "sendChallenge sampleLib \<lparr>qr_chunkBytes = 480\<rparr> (challengeFor sampleRequest) = Inr fs" by (rule sampleFrames)
  from messages_delivered [OF sampleLib_borsh sampleLib_hash sampleTransport, of "rev fs @ fs" fs "challengeFor sampleRequest"] fs
  show ?thesis by auto
qed

text \<open>
  A transport can send a well-formed bundle exactly when its bytes fit in
  128 chunks. With the default chunk size every bundle of up to 32 payments can be sent; with
  the smallest chunk size of 64 bytes only bundles of up to 15 payments can.
\<close>

lemma frame_iff:
  assumes "0 < qr_chunkBytes t" "0 < length p" "length p \<le> 65536"
  shows "(\<exists>fs. frame L t kind p = Inr fs) \<longleftrightarrow> length p \<le> 128 * qr_chunkBytes t"
proof -
  have "(length p + qr_chunkBytes t - 1) div qr_chunkBytes t < 129 \<longleftrightarrow> length p \<le> 128 * qr_chunkBytes t"
    using assms(1) by (subst div_less_iff_less_mult) auto
  with assms show ?thesis by (auto simp: frame_def bindE_Inr_iff Let_def transport_constants)
qed

theorem transport_capacity:
  assumes "borsh_ok L" "newQRTransport n = Inr t" "validBundle b"
  shows "(\<exists>fs. sendCredential L t b = Inr fs) = (928 + 474 * int (length (credentials b)) \<le> 128 * n)"
proof -
  obtain bs where bs: "encodeCredentialProofBundle L b = Inr bs"
    using encodeCredentialProofBundle_ok [OF assms(1,3)] by (auto simp: isOk_iff)
  note len = encodeCredentialProofBundle_length [OF bs]
  have t: "qr_chunkBytes t = nat n" "64 \<le> n" using assms(2) by (simp_all add: newQRTransport_iff)
  have "(\<exists>fs. frame L t CredentialBundleMessage bs = Inr fs) \<longleftrightarrow> length bs \<le> 128 * nat n"
    using frame_iff [of t bs L CredentialBundleMessage] t len by simp
  also have "\<dots> \<longleftrightarrow> 928 + 474 * int (length (credentials b)) \<le> 128 * n" using len(2) t(2) by linarith
  finally show ?thesis using bs by (simp add: sendCredential_def bindE_Inr_iff)
qed

theorem transport_capacity_witness:
  "\<exists>fs. sendCredential sampleLib \<lparr>qr_chunkBytes = 480\<rparr> sampleBundle = Inr fs"
  using transport_capacity [OF sampleLib_borsh sampleTransport sampleBundle_wellFormed] by (simp add: sampleBundle_def)

text \<open>
  Assembled bytes are what the frames say. They are at most 64 KiB, every
  received frame is of the expected kind and carries their digest, and the result does not depend
  on order or repetition. So when one frame of a genuine transfer is among the received ones,
  nothing injected beside it can change the payload, short of a digest collision.
\<close>

theorem assembly_is_intended:
  assumes "assemble L kind received = Inr p"
  shows "length p \<le> 65536 \<and>
    (\<forall>raw \<in> set received. \<exists>f. parseFrame raw = Inr f \<and> pf_kind f = kind \<and> pf_payloadHash f = sha256 L p) \<and>
    (\<forall>again. set again = set received \<longrightarrow> assemble L kind again = Inr p) \<and>
    (\<forall>t k sent q. hash_ok L \<longrightarrow> 0 < qr_chunkBytes t \<longrightarrow> frame L t k q = Inr sent \<longrightarrow> set sent \<inter> set received \<noteq> {} \<longrightarrow>
       inj_on (sha256 L) {p, q} \<longrightarrow> p = q \<and> k = kind)"
proof -
  obtain fs where fs: "list_all2 (\<lambda>raw f. parseFrame raw = Inr f) received fs" "carries L kind (set fs) p"
    using assemble_sound [OF assms] .
  have each: "\<exists>f. parseFrame raw = Inr f \<and> pf_kind f = kind \<and> pf_payloadHash f = sha256 L p" if raw: "raw \<in> set received" for raw
  proof -
    obtain f where "f \<in> set fs" "parseFrame raw = Inr f" by (rule received_member [OF fs(1) raw])
    with fs(2) show ?thesis by (auto simp: carries_def compatible_def)
  qed
  have genuine: "p = q \<and> k = kind"
    if hash: "hash_ok L" and sent: "0 < qr_chunkBytes t" "frame L t k q = Inr sent"
      and common: "set sent \<inter> set received \<noteq> {}" and inj: "inj_on (sha256 L) {p, q}" for t k sent q
  proof -
    obtain raw where raw: "raw \<in> set sent" "raw \<in> set received" using common by blast
    have "assemble L k sent = Inr q" using frames_assemble [OF hash sent refl] .
    then obtain gs where gs: "list_all2 (\<lambda>raw f. parseFrame raw = Inr f) sent gs" "carries L k (set gs) q"
      by (rule assemble_sound)
    obtain g where g: "g \<in> set gs" "parseFrame raw = Inr g" by (rule received_member [OF gs(1) raw(1)])
    with gs(2) have "pf_kind g = k" "pf_payloadHash g = sha256 L q" by (auto simp: carries_def compatible_def)
    with each [OF raw(2)] g(2) have "sha256 L p = sha256 L q" "k = kind" by auto
    with inj show ?thesis by (auto dest: inj_onD)
  qed
  have "length p \<le> 65536" using fs(2) by (simp add: carries_def)
  with each assemble_set [OF _ assms] genuine show ?thesis by blast
qed

theorem assembly_is_intended_witness:
  "\<exists>fs p. sendChallenge sampleLib \<lparr>qr_chunkBytes = 480\<rparr> (challengeFor sampleRequest) = Inr fs \<and>
     assemble sampleLib ChallengeMessage fs = Inr p \<and> length p \<le> 65536"
proof -
  obtain fs where fs: "sendChallenge sampleLib \<lparr>qr_chunkBytes = 480\<rparr> (challengeFor sampleRequest) = Inr fs" by (rule sampleFrames)
  then obtain p where "frame sampleLib \<lparr>qr_chunkBytes = 480\<rparr> ChallengeMessage p = Inr fs"
    by (auto simp: sendChallenge_def bindE_Inr_iff)
  then have "assemble sampleLib ChallengeMessage fs = Inr p" by (intro frames_assemble [OF sampleLib_hash]) simp_all
  with assembly_is_intended [OF this] fs show ?thesis by blast
qed

end
