(* ===== verification/ProtocolSdk.thy ===== *)
theory ProtocolSdk
  imports Credentials DecimalText
begin

text \<open>
  \<open>packages/protocol-sdk/src/index.ts\<close>: the material a merchant submits for a claim, and the
  decoders of the four on-chain accounts the applications read. A \<open>DataView\<close> reads the bytes of
  the account itself; the decoders check its length before they read.
\<close>

section \<open>Constants\<close>

definition PAYMENT_CREDENTIAL_PAYLOAD_SIZE :: nat where "PAYMENT_CREDENTIAL_PAYLOAD_SIZE = 410"
definition ED25519_SIGNATURE_SIZE :: nat where "ED25519_SIGNATURE_SIZE = 64"
definition USER_PROFILE_ACCOUNT_SIZE :: nat where "USER_PROFILE_ACCOUNT_SIZE = 163"
definition OFFLINE_SESSION_ACCOUNT_SIZE :: nat where "OFFLINE_SESSION_ACCOUNT_SIZE = 530"
definition CLAIM_ACCOUNT_SIZE :: nat where "CLAIM_ACCOUNT_SIZE = 272"
definition STATE_EDGE_RECORD_ACCOUNT_SIZE :: nat where "STATE_EDGE_RECORD_ACCOUNT_SIZE = 228"

definition USER_PROFILE_DISCRIMINATOR :: bytes where "USER_PROFILE_DISCRIMINATOR = [32, 37, 119, 205, 179, 180, 13, 194]"
definition OFFLINE_SESSION_DISCRIMINATOR :: bytes where "OFFLINE_SESSION_DISCRIMINATOR = [29, 211, 31, 106, 205, 160, 10, 15]"
definition CLAIM_DISCRIMINATOR :: bytes where "CLAIM_DISCRIMINATOR = [155, 70, 22, 176, 123, 215, 246, 102]"
definition STATE_EDGE_RECORD_DISCRIMINATOR :: bytes where "STATE_EDGE_RECORD_DISCRIMINATOR = [204, 197, 54, 127, 253, 121, 58, 245]"

lemmas account_constants =
  USER_PROFILE_ACCOUNT_SIZE_def OFFLINE_SESSION_ACCOUNT_SIZE_def CLAIM_ACCOUNT_SIZE_def STATE_EDGE_RECORD_ACCOUNT_SIZE_def
  USER_PROFILE_DISCRIMINATOR_def OFFLINE_SESSION_DISCRIMINATOR_def CLAIM_DISCRIMINATOR_def STATE_EDGE_RECORD_DISCRIMINATOR_def

section \<open>Data\<close>

datatype SessionStatus = SessionActive | SessionClaimWindow | SessionConflicted | SessionReconciling | SessionSettled | SessionInsolvent | SessionClosed

datatype CoverageStatus = CoverageUncalculated | CoverageFullyCovered | CoverageInsolvent

datatype ClaimStatus = ClaimSubmitted | ClaimValid | ClaimConflicting | ClaimSettled | ClaimRejected

datatype ClaimRejectionReason = RejectionNone | RejectionDuplicateStateEdge

record ClaimSubmissionMaterial =
  cm_payload :: bytes
  cm_payerSignature :: bytes
  cm_credentialHash :: bytes

record DecodedUserProfile =
  up_owner :: bytes
  up_identityAttestationHash :: bytes
  up_identityIssuer :: bytes
  up_riskTier :: int
  up_offlineAccessEnabled :: bool
  up_successfulSessions :: int
  up_conflictCount :: int
  up_revokedAt :: int
  up_identityExpiresAt :: int
  up_activeSession :: bytes
  up_bump :: int

record DecodedOfflineSession =
  os_sessionId :: bytes
  os_owner :: bytes
  os_devicePublicKey :: bytes
  os_collateralVault :: bytes
  os_collateralLocked :: int
  os_branchSpendingLimit :: int
  os_collateralCoverageCap :: int
  os_maxBranchDepth :: int
  os_issuedAt :: int
  os_expiresAt :: int
  os_claimSubmissionDeadline :: int
  os_status :: SessionStatus
  os_authenticatedFork :: bool
  os_coverageStatus :: CoverageStatus
  os_genesisStateHash :: bytes
  os_deviceAuthorizationHash :: bytes
  os_identityAttestationHash :: bytes
  os_settledAmount :: int
  os_aggregateOfflineExposure :: int
  os_uniqueEdgeCount :: int
  os_conflictingClaimCount :: int
  os_resolutionHash :: bytes
  os_bump :: int
  os_frozenEdgeCount :: int
  os_frozenExposure :: int
  os_submittedClaimCount :: int
  os_classifiedEdgeCount :: int
  os_classifiedExposure :: int
  os_baseAllocationTotal :: int
  os_allocatedEdgeCount :: int
  os_allocatedTotal :: int
  os_scannedClaimCount :: int
  os_settledEdgeCount :: int
  os_claimHead :: bytes
  os_claimTail :: bytes
  os_nextAllocationClaim :: bytes
  os_classificationComplete :: bool
  os_allocationComplete :: bool

record DecodedClaim =
  dc_credentialHash :: bytes
  dc_session :: bytes
  dc_merchant :: bytes
  dc_amount :: int
  dc_sequence :: int
  dc_previousStateHash :: bytes
  dc_newStateHash :: bytes
  dc_submittedSlot :: int
  dc_status :: ClaimStatus
  dc_rejectionReason :: ClaimRejectionReason
  dc_allocatedAmount :: int
  dc_settledAmount :: int
  dc_bump :: int
  dc_previousClaim :: bytes
  dc_nextClaim :: bytes
  dc_allocationProcessed :: bool

record DecodedStateEdgeRecord =
  se_session :: bytes
  se_previousStateHash :: bytes
  se_sequence :: int
  se_newStateHash :: bytes
  se_merchant :: bytes
  se_amount :: int
  se_previousRemaining :: int
  se_newRemaining :: int
  se_representativeCredentialHash :: bytes
  se_wrapperCount :: int
  se_submittedSlot :: int
  se_allocatedAmount :: int
  se_settledAmount :: int
  se_bump :: int
  se_classified :: bool
  se_conflicting :: bool
  se_allocationFinalized :: bool

section \<open>Claim submission\<close>

definition createClaimSubmissionMaterial :: "lib \<Rightarrow> PaymentCredential \<Rightarrow> ClaimSubmissionMaterial result" where
  "createClaimSubmissionMaterial L credential =
    bindE (encodePaymentCredentialPayload L credential) (\<lambda>payload.
    let payerSignature = pc_payerSignature credential in
    bindE (credentialHash L credential) (\<lambda>hash.
    bindE (failIf (length payload \<noteq> PAYMENT_CREDENTIAL_PAYLOAD_SIZE) ''payment credential payload layout mismatch'') (\<lambda>_.
    bindE (failIf (length payerSignature \<noteq> ED25519_SIGNATURE_SIZE) ''payer signature must contain exactly 64 bytes'') (\<lambda>_.
    bindE (failIf (length hash \<noteq> 32) ''credential hash must contain exactly 32 bytes'') (\<lambda>_.
      Inr \<lparr>cm_payload = payload, cm_payerSignature = payerSignature, cm_credentialHash = hash\<rparr>)))))"

section \<open>Reading an account\<close>

definition bytes_at :: "bytes \<Rightarrow> nat \<Rightarrow> nat \<Rightarrow> bytes" where
  "bytes_at value start len = take len (drop start value)"

definition assertAccount :: "bytes \<Rightarrow> nat \<Rightarrow> bytes \<Rightarrow> string \<Rightarrow> unit result" where
  "assertAccount value expectedSize discriminator name =
    bindE (failIf (length value \<noteq> expectedSize) (name @ '' account must contain exactly '' @ natDecimal expectedSize @ '' bytes'')) (\<lambda>_.
    failIf (\<not> list_all (\<lambda>(index, byte). value ! index = byte) (enumerate 0 discriminator))
      (name @ '' account discriminator mismatch''))"

text \<open>The \<open>DataView\<close> readers the decoders call; \<open>true\<close> in the source asks for little endian.\<close>

definition getUint8 :: "bytes \<Rightarrow> nat \<Rightarrow> int" where "getUint8 data offset = uint (data ! offset)"
definition getUint32 :: "bytes \<Rightarrow> nat \<Rightarrow> int" where "getUint32 data offset = leInt (bytes_at data offset 4)"
definition getBigUint64 :: "bytes \<Rightarrow> nat \<Rightarrow> int" where "getBigUint64 data offset = leInt (bytes_at data offset 8)"
definition getBigInt64 :: "bytes \<Rightarrow> nat \<Rightarrow> int" where "getBigInt64 data offset = leSigned (bytes_at data offset 8)"

text \<open>\<open>statuses[value]\<close>, with the error when it is \<open>undefined\<close>\<close>

definition variant :: "string \<Rightarrow> 'a list \<Rightarrow> int \<Rightarrow> 'a result" where
  "variant name statuses value =
    (if 0 \<le> value \<and> value < int (length statuses) then Inr (statuses ! nat value)
     else Inl (JsError (''unknown '' @ name @ '' variant '' @ decimal value)))"

definition claimStatus :: "int \<Rightarrow> ClaimStatus result" where
  "claimStatus value = variant ''ClaimStatus''
    [ClaimSubmitted, ClaimValid, ClaimConflicting, ClaimSettled, ClaimRejected] value"

definition rejectionReason :: "int \<Rightarrow> ClaimRejectionReason result" where
  "rejectionReason value = variant ''ClaimRejectionReason''
    [RejectionNone, RejectionDuplicateStateEdge] value"

definition sessionStatus :: "int \<Rightarrow> SessionStatus result" where
  "sessionStatus value = variant ''SessionStatus''
    [SessionActive, SessionClaimWindow, SessionConflicted, SessionReconciling, SessionSettled, SessionInsolvent, SessionClosed] value"

definition coverageStatus :: "int \<Rightarrow> CoverageStatus result" where
  "coverageStatus value = variant ''CoverageStatus''
    [CoverageUncalculated, CoverageFullyCovered, CoverageInsolvent] value"

definition decodeUserProfile :: "bytes \<Rightarrow> DecodedUserProfile result" where
  "decodeUserProfile value =
    bindE (assertAccount value USER_PROFILE_ACCOUNT_SIZE USER_PROFILE_DISCRIMINATOR ''UserProfile'') (\<lambda>_.
      Inr \<lparr>up_owner = bytes_at value 8 32,
        up_identityAttestationHash = bytes_at value 40 32,
        up_identityIssuer = bytes_at value 72 32,
        up_riskTier = getUint8 value 104,
        up_offlineAccessEnabled = getUint8 value 105 \<noteq> 0,
        up_successfulSessions = getUint32 value 106,
        up_conflictCount = getUint32 value 110,
        up_revokedAt = getBigInt64 value 114,
        up_identityExpiresAt = getBigInt64 value 122,
        up_activeSession = bytes_at value 130 32,
        up_bump = getUint8 value 162\<rparr>)"

definition decodeOfflineSession :: "bytes \<Rightarrow> DecodedOfflineSession result" where
  "decodeOfflineSession value =
    bindE (assertAccount value OFFLINE_SESSION_ACCOUNT_SIZE OFFLINE_SESSION_DISCRIMINATOR ''OfflineSession'') (\<lambda>_.
    bindE (sessionStatus (getUint8 value 188)) (\<lambda>status.
    bindE (coverageStatus (getUint8 value 190)) (\<lambda>coverage.
      Inr \<lparr>os_sessionId = bytes_at value 8 32,
        os_owner = bytes_at value 40 32,
        os_devicePublicKey = bytes_at value 72 32,
        os_collateralVault = bytes_at value 104 32,
        os_collateralLocked = getBigUint64 value 136,
        os_branchSpendingLimit = getBigUint64 value 144,
        os_collateralCoverageCap = getBigUint64 value 152,
        os_maxBranchDepth = getUint32 value 160,
        os_issuedAt = getBigInt64 value 164,
        os_expiresAt = getBigInt64 value 172,
        os_claimSubmissionDeadline = getBigInt64 value 180,
        os_status = status,
        os_authenticatedFork = getUint8 value 189 \<noteq> 0,
        os_coverageStatus = coverage,
        os_genesisStateHash = bytes_at value 191 32,
        os_deviceAuthorizationHash = bytes_at value 223 32,
        os_identityAttestationHash = bytes_at value 255 32,
        os_settledAmount = getBigUint64 value 287,
        os_aggregateOfflineExposure = getBigUint64 value 295,
        os_uniqueEdgeCount = getBigUint64 value 303,
        os_conflictingClaimCount = getBigUint64 value 311,
        os_resolutionHash = bytes_at value 319 32,
        os_bump = getUint8 value 351,
        os_frozenEdgeCount = getBigUint64 value 352,
        os_frozenExposure = getBigUint64 value 360,
        os_submittedClaimCount = getBigUint64 value 368,
        os_classifiedEdgeCount = getBigUint64 value 376,
        os_classifiedExposure = getBigUint64 value 384,
        os_baseAllocationTotal = getBigUint64 value 392,
        os_allocatedEdgeCount = getBigUint64 value 400,
        os_allocatedTotal = getBigUint64 value 408,
        os_scannedClaimCount = getBigUint64 value 416,
        os_settledEdgeCount = getBigUint64 value 424,
        os_claimHead = bytes_at value 432 32,
        os_claimTail = bytes_at value 464 32,
        os_nextAllocationClaim = bytes_at value 496 32,
        os_classificationComplete = getUint8 value 528 \<noteq> 0,
        os_allocationComplete = getUint8 value 529 \<noteq> 0\<rparr>)))"

definition decodeClaim :: "bytes \<Rightarrow> DecodedClaim result" where
  "decodeClaim value =
    bindE (assertAccount value CLAIM_ACCOUNT_SIZE CLAIM_DISCRIMINATOR ''Claim'') (\<lambda>_.
    bindE (claimStatus (getUint8 value 188)) (\<lambda>status.
    bindE (rejectionReason (getUint8 value 189)) (\<lambda>reason.
      Inr \<lparr>dc_credentialHash = bytes_at value 8 32,
        dc_session = bytes_at value 40 32,
        dc_merchant = bytes_at value 72 32,
        dc_amount = getBigUint64 value 104,
        dc_sequence = getUint32 value 112,
        dc_previousStateHash = bytes_at value 116 32,
        dc_newStateHash = bytes_at value 148 32,
        dc_submittedSlot = getBigUint64 value 180,
        dc_status = status,
        dc_rejectionReason = reason,
        dc_allocatedAmount = getBigUint64 value 190,
        dc_settledAmount = getBigUint64 value 198,
        dc_bump = getUint8 value 206,
        dc_previousClaim = bytes_at value 207 32,
        dc_nextClaim = bytes_at value 239 32,
        dc_allocationProcessed = getUint8 value 271 \<noteq> 0\<rparr>)))"

definition decodeStateEdgeRecord :: "bytes \<Rightarrow> DecodedStateEdgeRecord result" where
  "decodeStateEdgeRecord value =
    bindE (assertAccount value STATE_EDGE_RECORD_ACCOUNT_SIZE STATE_EDGE_RECORD_DISCRIMINATOR ''StateEdgeRecord'') (\<lambda>_.
      Inr \<lparr>se_session = bytes_at value 8 32,
        se_previousStateHash = bytes_at value 40 32,
        se_sequence = getUint32 value 72,
        se_newStateHash = bytes_at value 76 32,
        se_merchant = bytes_at value 108 32,
        se_amount = getBigUint64 value 140,
        se_previousRemaining = getBigUint64 value 148,
        se_newRemaining = getBigUint64 value 156,
        se_representativeCredentialHash = bytes_at value 164 32,
        se_wrapperCount = getUint32 value 196,
        se_submittedSlot = getBigUint64 value 200,
        se_allocatedAmount = getBigUint64 value 208,
        se_settledAmount = getBigUint64 value 216,
        se_bump = getUint8 value 224,
        se_classified = getUint8 value 225 \<noteq> 0,
        se_conflicting = getUint8 value 226 \<noteq> 0,
        se_allocationFinalized = getUint8 value 227 \<noteq> 0\<rparr>)"

end
