(* ===== verification/SdkFacts.thy ===== *)
theory SdkFacts
  imports ProtocolSdk CodecContract
begin

text \<open>
  The layout the programs under \<open>src/programs/offline-guarantee/src/state.rs\<close> give the four
  accounts (Anchor: an 8-byte discriminator, then the fields in the order of the struct, each in
  Borsh), and the proof that the decoders are its exact inverse.
\<close>

section \<open>The Anchor layout\<close>

definition oneByte :: "int \<Rightarrow> bytes" where "oneByte n = leBytes 1 n"
definition flagByte :: "bool \<Rightarrow> bytes" where "flagByte b = oneByte (if b then 1 else 0)"

fun sessionStatusTag :: "SessionStatus \<Rightarrow> int" where
  "sessionStatusTag SessionActive = 0"
| "sessionStatusTag SessionClaimWindow = 1"
| "sessionStatusTag SessionConflicted = 2"
| "sessionStatusTag SessionReconciling = 3"
| "sessionStatusTag SessionSettled = 4"
| "sessionStatusTag SessionInsolvent = 5"
| "sessionStatusTag SessionClosed = 6"

fun coverageTag :: "CoverageStatus \<Rightarrow> int" where
  "coverageTag CoverageUncalculated = 0"
| "coverageTag CoverageFullyCovered = 1"
| "coverageTag CoverageInsolvent = 2"

fun claimStatusTag :: "ClaimStatus \<Rightarrow> int" where
  "claimStatusTag ClaimSubmitted = 0"
| "claimStatusTag ClaimValid = 1"
| "claimStatusTag ClaimConflicting = 2"
| "claimStatusTag ClaimSettled = 3"
| "claimStatusTag ClaimRejected = 4"

fun rejectionTag :: "ClaimRejectionReason \<Rightarrow> int" where
  "rejectionTag RejectionNone = 0"
| "rejectionTag RejectionDuplicateStateEdge = 1"

definition userProfileAccount :: "DecodedUserProfile \<Rightarrow> bytes" where
  "userProfileAccount x =
    USER_PROFILE_DISCRIMINATOR @ up_owner x @ up_identityAttestationHash x @ up_identityIssuer x @
    oneByte (up_riskTier x) @ flagByte (up_offlineAccessEnabled x) @
    leBytes 4 (up_successfulSessions x) @ leBytes 4 (up_conflictCount x) @ leBytes 8 (up_revokedAt x) @
    leBytes 8 (up_identityExpiresAt x) @ up_activeSession x @ oneByte (up_bump x)"

definition validUserProfile :: "DecodedUserProfile \<Rightarrow> bool" where
  "validUserProfile x \<longleftrightarrow>
    length (up_owner x) = 32 \<and> length (up_identityAttestationHash x) = 32 \<and>
    length (up_identityIssuer x) = 32 \<and> isU8 (up_riskTier x) \<and>
    isU32 (up_successfulSessions x) \<and> isU32 (up_conflictCount x) \<and>
    isI64 (up_revokedAt x) \<and> isI64 (up_identityExpiresAt x) \<and>
    length (up_activeSession x) = 32 \<and> isU8 (up_bump x)"

definition userProfileFlags :: "nat list" where "userProfileFlags = [105]"

definition offlineSessionAccount :: "DecodedOfflineSession \<Rightarrow> bytes" where
  "offlineSessionAccount x =
    OFFLINE_SESSION_DISCRIMINATOR @ os_sessionId x @ os_owner x @ os_devicePublicKey x @
    os_collateralVault x @ leBytes 8 (os_collateralLocked x) @ leBytes 8 (os_branchSpendingLimit x) @
    leBytes 8 (os_collateralCoverageCap x) @ leBytes 4 (os_maxBranchDepth x) @
    leBytes 8 (os_issuedAt x) @ leBytes 8 (os_expiresAt x) @ leBytes 8 (os_claimSubmissionDeadline x) @
    oneByte (sessionStatusTag (os_status x)) @ flagByte (os_authenticatedFork x) @
    oneByte (coverageTag (os_coverageStatus x)) @ os_genesisStateHash x @
    os_deviceAuthorizationHash x @ os_identityAttestationHash x @ leBytes 8 (os_settledAmount x) @
    leBytes 8 (os_aggregateOfflineExposure x) @ leBytes 8 (os_uniqueEdgeCount x) @
    leBytes 8 (os_conflictingClaimCount x) @ os_resolutionHash x @ oneByte (os_bump x) @
    leBytes 8 (os_frozenEdgeCount x) @ leBytes 8 (os_frozenExposure x) @
    leBytes 8 (os_submittedClaimCount x) @ leBytes 8 (os_classifiedEdgeCount x) @
    leBytes 8 (os_classifiedExposure x) @ leBytes 8 (os_baseAllocationTotal x) @
    leBytes 8 (os_allocatedEdgeCount x) @ leBytes 8 (os_allocatedTotal x) @
    leBytes 8 (os_scannedClaimCount x) @ leBytes 8 (os_settledEdgeCount x) @ os_claimHead x @
    os_claimTail x @ os_nextAllocationClaim x @ flagByte (os_classificationComplete x) @
    flagByte (os_allocationComplete x)"

definition validOfflineSession :: "DecodedOfflineSession \<Rightarrow> bool" where
  "validOfflineSession x \<longleftrightarrow>
    length (os_sessionId x) = 32 \<and> length (os_owner x) = 32 \<and>
    length (os_devicePublicKey x) = 32 \<and> length (os_collateralVault x) = 32 \<and>
    isU64 (os_collateralLocked x) \<and> isU64 (os_branchSpendingLimit x) \<and>
    isU64 (os_collateralCoverageCap x) \<and> isU32 (os_maxBranchDepth x) \<and>
    isI64 (os_issuedAt x) \<and> isI64 (os_expiresAt x) \<and>
    isI64 (os_claimSubmissionDeadline x) \<and> length (os_genesisStateHash x) = 32 \<and>
    length (os_deviceAuthorizationHash x) = 32 \<and> length (os_identityAttestationHash x) = 32 \<and>
    isU64 (os_settledAmount x) \<and> isU64 (os_aggregateOfflineExposure x) \<and>
    isU64 (os_uniqueEdgeCount x) \<and> isU64 (os_conflictingClaimCount x) \<and>
    length (os_resolutionHash x) = 32 \<and> isU8 (os_bump x) \<and>
    isU64 (os_frozenEdgeCount x) \<and> isU64 (os_frozenExposure x) \<and>
    isU64 (os_submittedClaimCount x) \<and> isU64 (os_classifiedEdgeCount x) \<and>
    isU64 (os_classifiedExposure x) \<and> isU64 (os_baseAllocationTotal x) \<and>
    isU64 (os_allocatedEdgeCount x) \<and> isU64 (os_allocatedTotal x) \<and>
    isU64 (os_scannedClaimCount x) \<and> isU64 (os_settledEdgeCount x) \<and>
    length (os_claimHead x) = 32 \<and> length (os_claimTail x) = 32 \<and>
    length (os_nextAllocationClaim x) = 32"

definition offlineSessionFlags :: "nat list" where "offlineSessionFlags = [189, 528, 529]"

definition claimAccount :: "DecodedClaim \<Rightarrow> bytes" where
  "claimAccount x =
    CLAIM_DISCRIMINATOR @ dc_credentialHash x @ dc_session x @ dc_merchant x @
    leBytes 8 (dc_amount x) @ leBytes 4 (dc_sequence x) @ dc_previousStateHash x @ dc_newStateHash x @
    leBytes 8 (dc_submittedSlot x) @ oneByte (claimStatusTag (dc_status x)) @
    oneByte (rejectionTag (dc_rejectionReason x)) @ leBytes 8 (dc_allocatedAmount x) @
    leBytes 8 (dc_settledAmount x) @ oneByte (dc_bump x) @ dc_previousClaim x @ dc_nextClaim x @
    flagByte (dc_allocationProcessed x)"

definition validClaim :: "DecodedClaim \<Rightarrow> bool" where
  "validClaim x \<longleftrightarrow>
    length (dc_credentialHash x) = 32 \<and> length (dc_session x) = 32 \<and>
    length (dc_merchant x) = 32 \<and> isU64 (dc_amount x) \<and> isU32 (dc_sequence x) \<and>
    length (dc_previousStateHash x) = 32 \<and> length (dc_newStateHash x) = 32 \<and>
    isU64 (dc_submittedSlot x) \<and> isU64 (dc_allocatedAmount x) \<and>
    isU64 (dc_settledAmount x) \<and> isU8 (dc_bump x) \<and> length (dc_previousClaim x) = 32 \<and>
    length (dc_nextClaim x) = 32"

definition claimFlags :: "nat list" where "claimFlags = [271]"

definition stateEdgeRecordAccount :: "DecodedStateEdgeRecord \<Rightarrow> bytes" where
  "stateEdgeRecordAccount x =
    STATE_EDGE_RECORD_DISCRIMINATOR @ se_session x @ se_previousStateHash x @
    leBytes 4 (se_sequence x) @ se_newStateHash x @ se_merchant x @ leBytes 8 (se_amount x) @
    leBytes 8 (se_previousRemaining x) @ leBytes 8 (se_newRemaining x) @
    se_representativeCredentialHash x @ leBytes 4 (se_wrapperCount x) @
    leBytes 8 (se_submittedSlot x) @ leBytes 8 (se_allocatedAmount x) @
    leBytes 8 (se_settledAmount x) @ oneByte (se_bump x) @ flagByte (se_classified x) @
    flagByte (se_conflicting x) @ flagByte (se_allocationFinalized x)"

definition validStateEdgeRecord :: "DecodedStateEdgeRecord \<Rightarrow> bool" where
  "validStateEdgeRecord x \<longleftrightarrow>
    length (se_session x) = 32 \<and> length (se_previousStateHash x) = 32 \<and>
    isU32 (se_sequence x) \<and> length (se_newStateHash x) = 32 \<and>
    length (se_merchant x) = 32 \<and> isU64 (se_amount x) \<and> isU64 (se_previousRemaining x) \<and>
    isU64 (se_newRemaining x) \<and> length (se_representativeCredentialHash x) = 32 \<and>
    isU32 (se_wrapperCount x) \<and> isU64 (se_submittedSlot x) \<and>
    isU64 (se_allocatedAmount x) \<and> isU64 (se_settledAmount x) \<and> isU8 (se_bump x)"

definition stateEdgeRecordFlags :: "nat list" where "stateEdgeRecordFlags = [225, 226, 227]"

definition canonicalFlags :: "bytes \<Rightarrow> nat list \<Rightarrow> bool" where
  "canonicalFlags v offsets \<longleftrightarrow> list_all (\<lambda>offset. getUint8 v offset \<le> 1) offsets"

lemmas account_flags = canonicalFlags_def userProfileFlags_def offlineSessionFlags_def claimFlags_def stateEdgeRecordFlags_def

section \<open>Enumerations\<close>

lemma variant_iff:
  "variant name xs n = Inr x \<longleftrightarrow> 0 \<le> n \<and> n < int (length xs) \<and> x = xs ! nat n"
  by (auto simp: variant_def)

lemma sessionStatus_iff: "sessionStatus n = Inr s \<longleftrightarrow> sessionStatusTag s = n"
proof
  assume "sessionStatus n = Inr s"
  then have "0 \<le> n" "n < 7" and s: "s = [SessionActive, SessionClaimWindow, SessionConflicted, SessionReconciling, SessionSettled, SessionInsolvent, SessionClosed] ! nat n"
    by (auto simp: sessionStatus_def variant_iff)
  then have "n \<in> {0, 1, 2, 3, 4, 5, 6}" by auto
  with s show "sessionStatusTag s = n" by auto
next
  assume "sessionStatusTag s = n"
  then show "sessionStatus n = Inr s" by (cases s) (auto simp: sessionStatus_def variant_iff)
qed

lemma sessionStatusTag_range: "0 \<le> sessionStatusTag s \<and> sessionStatusTag s < 256"
  by (cases s) simp_all

lemma coverageStatus_iff: "coverageStatus n = Inr s \<longleftrightarrow> coverageTag s = n"
proof
  assume "coverageStatus n = Inr s"
  then have "0 \<le> n" "n < 3" and s: "s = [CoverageUncalculated, CoverageFullyCovered, CoverageInsolvent] ! nat n"
    by (auto simp: coverageStatus_def variant_iff)
  then have "n \<in> {0, 1, 2}" by auto
  with s show "coverageTag s = n" by auto
next
  assume "coverageTag s = n"
  then show "coverageStatus n = Inr s" by (cases s) (auto simp: coverageStatus_def variant_iff)
qed

lemma coverageTag_range: "0 \<le> coverageTag s \<and> coverageTag s < 256"
  by (cases s) simp_all

lemma claimStatus_iff: "claimStatus n = Inr s \<longleftrightarrow> claimStatusTag s = n"
proof
  assume "claimStatus n = Inr s"
  then have "0 \<le> n" "n < 5" and s: "s = [ClaimSubmitted, ClaimValid, ClaimConflicting, ClaimSettled, ClaimRejected] ! nat n"
    by (auto simp: claimStatus_def variant_iff)
  then have "n \<in> {0, 1, 2, 3, 4}" by auto
  with s show "claimStatusTag s = n" by auto
next
  assume "claimStatusTag s = n"
  then show "claimStatus n = Inr s" by (cases s) (auto simp: claimStatus_def variant_iff)
qed

lemma claimStatusTag_range: "0 \<le> claimStatusTag s \<and> claimStatusTag s < 256"
  by (cases s) simp_all

lemma rejectionReason_iff: "rejectionReason n = Inr s \<longleftrightarrow> rejectionTag s = n"
proof
  assume "rejectionReason n = Inr s"
  then have "0 \<le> n" "n < 2" and s: "s = [RejectionNone, RejectionDuplicateStateEdge] ! nat n"
    by (auto simp: rejectionReason_def variant_iff)
  then have "n \<in> {0, 1}" by auto
  with s show "rejectionTag s = n" by auto
next
  assume "rejectionTag s = n"
  then show "rejectionReason n = Inr s" by (cases s) (auto simp: rejectionReason_def variant_iff)
qed

lemma rejectionTag_range: "0 \<le> rejectionTag s \<and> rejectionTag s < 256"
  by (cases s) simp_all

lemmas variant_iffs = sessionStatus_iff coverageStatus_iff claimStatus_iff rejectionReason_iff
lemmas tag_ranges = sessionStatusTag_range coverageTag_range claimStatusTag_range rejectionTag_range

section \<open>Reading a layout\<close>

lemma bytes_at_skip: "length xs \<le> a \<Longrightarrow> bytes_at (xs @ ys) a n = bytes_at ys (a - length xs) n"
  by (simp add: bytes_at_def)

lemma bytes_at_head: "length xs = n \<Longrightarrow> bytes_at (xs @ ys) 0 n = xs"
  by (auto simp: bytes_at_def)

lemma bytes_at_only: "length xs = n \<Longrightarrow> bytes_at xs 0 n = xs"
  by (auto simp: bytes_at_def)

lemma length_bytes_at: "a + n \<le> length v \<Longrightarrow> length (bytes_at v a n) = n"
  by (simp add: bytes_at_def)

lemma bytes_at_glue: "b = a + n \<Longrightarrow> bytes_at v a n @ bytes_at v b m = bytes_at v a (n + m)"
  by (simp add: bytes_at_def take_add add.commute [of a n])

lemma bytes_at_glue_more: "b = a + n \<Longrightarrow> bytes_at v a n @ bytes_at v b m @ r = bytes_at v a (n + m) @ r"
  by (simp add: bytes_at_def take_add add.commute [of a n])

lemma bytes_at_all: "length v = n \<Longrightarrow> bytes_at v 0 n = v"
  by (simp add: bytes_at_def)

lemma getUint8_at: "a < length v \<Longrightarrow> getUint8 v a = leInt (bytes_at v a 1)"
  by (simp add: getUint8_def bytes_at_def take_Suc_conv_app_nth drop_Suc hd_drop_conv_nth take_Suc)

lemma assertAccount_iff:
  assumes "length d = 8" "8 \<le> n"
  shows "assertAccount v n d name = Inr u \<longleftrightarrow> length v = n \<and> bytes_at v 0 8 = d"
proof -
  have "list_all (\<lambda>(i, b). v ! i = b) (enumerate 0 d) \<longleftrightarrow> bytes_at v 0 8 = d" if "8 \<le> length v"
    using that assms by (auto simp: list_all_length nth_enumerate_eq bytes_at_def list_eq_iff_nth_eq)
  with assms(2) show ?thesis by (auto simp: assertAccount_def bindE_Inr_iff)
qed

lemma leSigned_range:
  assumes "length bs = k" "0 < k"
  shows "- (256 ^ k) \<le> 2 * leSigned bs \<and> 2 * leSigned bs < 256 ^ k"
proof -
  have split: "- m \<le> 2 * (if 2 * n < m then n else n - m) \<and> 2 * (if 2 * n < m then n else n - m) < m"
    if "0 \<le> n" "n < m" for n m :: int
    using that by auto
  have "0 \<le> leInt bs" "leInt bs < 256 ^ length bs" using leInt_bounds [of bs] by auto
  from split [OF this] assms(1) show ?thesis unfolding leSigned_def Let_def by blast
qed

lemma leBytes_leSigned: "length bs = k \<Longrightarrow> leBytes k (leSigned bs) = bs"
proof -
  assume k: "length bs = k"
  have "leInt (leBytes k (leSigned bs)) = leInt bs"
    using leInt_bounds [of bs] k by (auto simp: leInt_leBytes leSigned_def Let_def)
  then show ?thesis by (metis k leBytes_leInt length_leBytes)
qed

lemma leBytes_leInt_len: "length bs = k \<Longrightarrow> leBytes k (leInt bs) = bs"
  using leBytes_leInt by blast

lemma leInt_read: "isU8 n \<Longrightarrow> leInt (oneByte n) = n" "isU32 n \<Longrightarrow> leInt (leBytes 4 n) = n"
  "isU64 n \<Longrightarrow> leInt (leBytes 8 n) = n" "isI64 n \<Longrightarrow> leSigned (leBytes 8 n) = n"
  by (simp_all only: integer_ranges leInt_leBytes oneByte_def) (simp_all add: leSigned_leBytes)

lemma leInt_range: "length bs = 1 \<Longrightarrow> isU8 (leInt bs)" "length bs = 4 \<Longrightarrow> isU32 (leInt bs)"
  "length bs = 8 \<Longrightarrow> isU64 (leInt bs)" "length bs = 8 \<Longrightarrow> isI64 (leSigned bs)"
  using leInt_bounds [of bs] leSigned_range [of bs 8] by (auto simp: integer_ranges)

lemma leInt_oneByte: "0 \<le> n \<Longrightarrow> n < 256 \<Longrightarrow> leInt (oneByte n) = n"
  unfolding oneByte_def by (rule leInt_leBytes_id) simp_all

lemmas leInt_tag = leInt_oneByte [OF sessionStatusTag_range [THEN conjunct1] sessionStatusTag_range [THEN conjunct2]]
  leInt_oneByte [OF coverageTag_range [THEN conjunct1] coverageTag_range [THEN conjunct2]]
  leInt_oneByte [OF claimStatusTag_range [THEN conjunct1] claimStatusTag_range [THEN conjunct2]]
  leInt_oneByte [OF rejectionTag_range [THEN conjunct1] rejectionTag_range [THEN conjunct2]]

lemma length_oneByte [simp]: "length (oneByte n) = 1"
  by (simp add: oneByte_def)

lemma oneByte_leInt: "length bs = 1 \<Longrightarrow> oneByte (leInt bs) = bs"
  unfolding oneByte_def using leBytes_leInt_len .

lemma leInt_flag: "leInt (flagByte b) = (if b then 1 else 0)"
  by (simp add: flagByte_def leInt_oneByte)

lemma length_flagByte [simp]: "length (flagByte b) = 1"
  by (simp add: flagByte_def)

lemma flagByte_read: "length bs = 1 \<Longrightarrow> leInt bs \<le> 1 \<Longrightarrow> flagByte (leInt bs \<noteq> 0) = bs"
proof -
  assume bs: "length bs = 1" "leInt bs \<le> 1"
  have "0 \<le> leInt bs" using leInt_bounds by blast
  with bs(2) have "leInt bs = 0 \<or> leInt bs = 1" by linarith
  then have "leInt bs = (if leInt bs \<noteq> 0 then 1 else 0)" by auto
  then show ?thesis unfolding flagByte_def using bs(1) oneByte_leInt by metis
qed

lemma discriminator_lengths [simp]: "length USER_PROFILE_DISCRIMINATOR = 8" "length OFFLINE_SESSION_DISCRIMINATOR = 8"
  "length CLAIM_DISCRIMINATOR = 8" "length STATE_EDGE_RECORD_DISCRIMINATOR = 8"
  by (simp_all add: account_constants)

lemmas account_sizes = USER_PROFILE_ACCOUNT_SIZE_def OFFLINE_SESSION_ACCOUNT_SIZE_def CLAIM_ACCOUNT_SIZE_def
  STATE_EDGE_RECORD_ACCOUNT_SIZE_def
lemmas account_readers = getUint8_at getUint32_def getBigUint64_def getBigInt64_def
lemmas layout_reading = bytes_at_skip bytes_at_head bytes_at_only leInt_read leInt_tag leInt_flag
lemmas layout_gluing = leBytes_leSigned leBytes_leInt_len oneByte_leInt flagByte_read length_bytes_at bytes_at_glue bytes_at_glue_more

section \<open>UserProfile\<close>

lemma userProfileAccount_length: "validUserProfile x \<Longrightarrow> length (userProfileAccount x) = USER_PROFILE_ACCOUNT_SIZE"
  by (simp add: validUserProfile_def userProfileAccount_def account_sizes)

lemma decodeUserProfile_account:
  assumes "validUserProfile x"
  shows "decodeUserProfile (userProfileAccount x) = Inr x \<and> canonicalFlags (userProfileAccount x) userProfileFlags"
proof -
  note len = userProfileAccount_length [OF assms, unfolded account_sizes]
  have ok: "assertAccount (userProfileAccount x) USER_PROFILE_ACCOUNT_SIZE USER_PROFILE_DISCRIMINATOR name = Inr ()" for name
    using len by (simp add: assertAccount_iff account_sizes) (simp add: userProfileAccount_def bytes_at_head)
  note parts = assms [unfolded validUserProfile_def]
  show ?thesis
    unfolding decodeUserProfile_def ok account_flags using len parts
    by (simp add: account_readers) (simp add: userProfileAccount_def layout_reading variant_iffs [THEN iffD2])
qed

lemma decodeUserProfile_bytes:
  assumes "decodeUserProfile v = Inr x" "canonicalFlags v userProfileFlags"
  shows "validUserProfile x \<and> v = userProfileAccount x"
proof -
  have v: "length v = USER_PROFILE_ACCOUNT_SIZE" "bytes_at v 0 8 = USER_PROFILE_DISCRIMINATOR"
    using assms(1) by (auto simp: decodeUserProfile_def bindE_Inr_iff assertAccount_iff account_sizes)
  note x = assms(1) [unfolded decodeUserProfile_def bindE_Inr_iff variant_iffs]
  have "validUserProfile x"
    using x v(1) by (auto simp: validUserProfile_def account_readers account_sizes length_bytes_at intro!: leInt_range)
  moreover have "userProfileAccount x = v"
    using x v(1) assms(2)
    by (auto simp: userProfileAccount_def account_readers account_sizes account_flags layout_gluing bytes_at_all
        variant_iffs simp flip: v(2))
  ultimately show ?thesis by simp
qed

section \<open>OfflineSession\<close>

lemma offlineSessionAccount_length: "validOfflineSession x \<Longrightarrow> length (offlineSessionAccount x) = OFFLINE_SESSION_ACCOUNT_SIZE"
  by (simp add: validOfflineSession_def offlineSessionAccount_def account_sizes)

lemma decodeOfflineSession_account:
  assumes "validOfflineSession x"
  shows "decodeOfflineSession (offlineSessionAccount x) = Inr x \<and> canonicalFlags (offlineSessionAccount x) offlineSessionFlags"
proof -
  note len = offlineSessionAccount_length [OF assms, unfolded account_sizes]
  have ok: "assertAccount (offlineSessionAccount x) OFFLINE_SESSION_ACCOUNT_SIZE OFFLINE_SESSION_DISCRIMINATOR name = Inr ()" for name
    using len by (simp add: assertAccount_iff account_sizes) (simp add: offlineSessionAccount_def bytes_at_head)
  note parts = assms [unfolded validOfflineSession_def]
  show ?thesis
    unfolding decodeOfflineSession_def ok account_flags using len parts
    by (simp add: account_readers) (simp add: offlineSessionAccount_def layout_reading variant_iffs [THEN iffD2])
qed

lemma decodeOfflineSession_bytes:
  assumes "decodeOfflineSession v = Inr x" "canonicalFlags v offlineSessionFlags"
  shows "validOfflineSession x \<and> v = offlineSessionAccount x"
proof -
  have v: "length v = OFFLINE_SESSION_ACCOUNT_SIZE" "bytes_at v 0 8 = OFFLINE_SESSION_DISCRIMINATOR"
    using assms(1) by (auto simp: decodeOfflineSession_def bindE_Inr_iff assertAccount_iff account_sizes)
  note x = assms(1) [unfolded decodeOfflineSession_def bindE_Inr_iff variant_iffs]
  have "validOfflineSession x"
    using x v(1) by (auto simp: validOfflineSession_def account_readers account_sizes length_bytes_at intro!: leInt_range)
  moreover have "offlineSessionAccount x = v"
    using x v(1) assms(2)
    by (auto simp: offlineSessionAccount_def account_readers account_sizes account_flags layout_gluing bytes_at_all
        variant_iffs simp flip: v(2))
  ultimately show ?thesis by simp
qed

section \<open>Claim\<close>

lemma claimAccount_length: "validClaim x \<Longrightarrow> length (claimAccount x) = CLAIM_ACCOUNT_SIZE"
  by (simp add: validClaim_def claimAccount_def account_sizes)

lemma decodeClaim_account:
  assumes "validClaim x"
  shows "decodeClaim (claimAccount x) = Inr x \<and> canonicalFlags (claimAccount x) claimFlags"
proof -
  note len = claimAccount_length [OF assms, unfolded account_sizes]
  have ok: "assertAccount (claimAccount x) CLAIM_ACCOUNT_SIZE CLAIM_DISCRIMINATOR name = Inr ()" for name
    using len by (simp add: assertAccount_iff account_sizes) (simp add: claimAccount_def bytes_at_head)
  note parts = assms [unfolded validClaim_def]
  show ?thesis
    unfolding decodeClaim_def ok account_flags using len parts
    by (simp add: account_readers) (simp add: claimAccount_def layout_reading variant_iffs [THEN iffD2])
qed

lemma decodeClaim_bytes:
  assumes "decodeClaim v = Inr x" "canonicalFlags v claimFlags"
  shows "validClaim x \<and> v = claimAccount x"
proof -
  have v: "length v = CLAIM_ACCOUNT_SIZE" "bytes_at v 0 8 = CLAIM_DISCRIMINATOR"
    using assms(1) by (auto simp: decodeClaim_def bindE_Inr_iff assertAccount_iff account_sizes)
  note x = assms(1) [unfolded decodeClaim_def bindE_Inr_iff variant_iffs]
  have "validClaim x"
    using x v(1) by (auto simp: validClaim_def account_readers account_sizes length_bytes_at intro!: leInt_range)
  moreover have "claimAccount x = v"
    using x v(1) assms(2)
    by (auto simp: claimAccount_def account_readers account_sizes account_flags layout_gluing bytes_at_all
        variant_iffs simp flip: v(2))
  ultimately show ?thesis by simp
qed

section \<open>StateEdgeRecord\<close>

lemma stateEdgeRecordAccount_length: "validStateEdgeRecord x \<Longrightarrow> length (stateEdgeRecordAccount x) = STATE_EDGE_RECORD_ACCOUNT_SIZE"
  by (simp add: validStateEdgeRecord_def stateEdgeRecordAccount_def account_sizes)

lemma decodeStateEdgeRecord_account:
  assumes "validStateEdgeRecord x"
  shows "decodeStateEdgeRecord (stateEdgeRecordAccount x) = Inr x \<and> canonicalFlags (stateEdgeRecordAccount x) stateEdgeRecordFlags"
proof -
  note len = stateEdgeRecordAccount_length [OF assms, unfolded account_sizes]
  have ok: "assertAccount (stateEdgeRecordAccount x) STATE_EDGE_RECORD_ACCOUNT_SIZE STATE_EDGE_RECORD_DISCRIMINATOR name = Inr ()" for name
    using len by (simp add: assertAccount_iff account_sizes) (simp add: stateEdgeRecordAccount_def bytes_at_head)
  note parts = assms [unfolded validStateEdgeRecord_def]
  show ?thesis
    unfolding decodeStateEdgeRecord_def ok account_flags using len parts
    by (simp add: account_readers) (simp add: stateEdgeRecordAccount_def layout_reading variant_iffs [THEN iffD2])
qed

lemma decodeStateEdgeRecord_bytes:
  assumes "decodeStateEdgeRecord v = Inr x" "canonicalFlags v stateEdgeRecordFlags"
  shows "validStateEdgeRecord x \<and> v = stateEdgeRecordAccount x"
proof -
  have v: "length v = STATE_EDGE_RECORD_ACCOUNT_SIZE" "bytes_at v 0 8 = STATE_EDGE_RECORD_DISCRIMINATOR"
    using assms(1) by (auto simp: decodeStateEdgeRecord_def bindE_Inr_iff assertAccount_iff account_sizes)
  note x = assms(1) [unfolded decodeStateEdgeRecord_def bindE_Inr_iff variant_iffs]
  have "validStateEdgeRecord x"
    using x v(1) by (auto simp: validStateEdgeRecord_def account_readers account_sizes length_bytes_at intro!: leInt_range)
  moreover have "stateEdgeRecordAccount x = v"
    using x v(1) assms(2)
    by (auto simp: stateEdgeRecordAccount_def account_readers account_sizes account_flags layout_gluing bytes_at_all
        variant_iffs simp flip: v(2))
  ultimately show ?thesis by simp
qed

section \<open>The signed credential\<close>

lemma borshFields_append:
  "borshFields (fs @ gs) obj = (case borshFields fs obj of None \<Rightarrow> None
     | Some a \<Rightarrow> map_option (\<lambda>b. a @ b) (borshFields gs obj))"
  by (cases "borshFields gs obj"; induction fs) (auto split: option.splits)

lemma signature_appended:
  assumes "borsh_ok L" "encodePaymentCredential L c = Inr bs"
  shows "\<exists>m. encodePaymentCredentialPayload L c = Inr m \<and> bs = m @ pc_payerSignature c"
proof -
  obtain obj where obj: "paymentCredentialValue c = Inr obj" "length (pc_payerSignature c) = 64"
    "borshFields (paymentCredentialFields @ [(''payerSignature'', fixedBytes 64)])
       (obj @ [(''payerSignature'', bytesValue (pc_payerSignature c))]) = Some bs"
    using assms(2) unfolding encodePaymentCredential_def' credential_signed.encodeWith_Inr_iff [OF assms(1)]
    by (auto simp: signedPaymentCredential_def bindE_Inr_iff)
  obtain m where m: "borshFields paymentCredentialFields obj = Some m"
    using credential_payload.layout [OF obj(1)] .
  note keys = paymentCredentialValue_shape(1) [OF obj(1)]
  have fresh: "''payerSignature'' \<notin> fst ` set obj"
    using arg_cong [OF keys, of set] by (simp add: object_fields)
  have "borshFields paymentCredentialFields (obj @ [(''payerSignature'', bytesValue (pc_payerSignature c))])
      = borshFields paymentCredentialFields obj"
  proof (rule borshFields_cong)
    fix k s assume "(k, s) \<in> set paymentCredentialFields"
    then have "k \<in> fst ` set obj" using arg_cong [OF keys, of set] by force
    then show "map_of (obj @ [(''payerSignature'', bytesValue (pc_payerSignature c))]) k = map_of obj k"
      by (auto simp: map_add_def dom_map_of_conv_image_fst [symmetric] split: option.splits)
  qed
  with obj fresh m have "bs = m @ pc_payerSignature c"
    by (simp add: borshFields_append map_add_def map_of_eq_None_iff [THEN iffD2])
  moreover have "encodePaymentCredentialPayload L c = Inr m"
    unfolding encodePaymentCredentialPayload_def' credential_payload.encodeWith_Inr_iff [OF assms(1)]
    using obj(1) m by blast
  ultimately show ?thesis by blast
qed

text \<open>The device key stands at offset 178 of the signed payload.\<close>

lemma payload_device_key:
  assumes "borsh_ok L" "encodePaymentCredentialPayload L c = Inr m"
  shows "bytes_at m 178 32 = pc_payerDeviceKey c"
proof -
  obtain obj where obj: "paymentCredentialValue c = Inr obj" "borshFields paymentCredentialFields obj = Some m"
    using assms(2) unfolding encodePaymentCredentialPayload_def' credential_payload.encodeWith_Inr_iff [OF assms(1)] by blast
  define before where "before = domainFields @ [(''payloadSessionId'', fixedBytes 32), (''sequence'', U32), (''payer'', fixedBytes 32)]"
  define after where "after = drop 12 paymentCredentialFields"
  have split: "paymentCredentialFields = before @ (''payerDeviceKey'', fixedBytes 32) # after"
    by (simp add: before_def after_def object_fields)
  have key: "map_of obj ''payerDeviceKey'' = Some (bytesValue (pc_payerDeviceKey c))" "length (pc_payerDeviceKey c) = 32"
    using obj(1) by (auto simp: paymentCredentialValue_def bindE_Inr_iff runE_Inr_iff commonValue_iff domainValue_def)
  obtain a b where ab: "borshFields before obj = Some a" "m = a @ pc_payerDeviceKey c @ b"
    using obj(2) key unfolding split borshFields_append by (auto split: option.splits)
  have "length a = 178"
    using length_borshFields [OF ab(1)] by (simp add: before_def domainFields_def)
  with ab(2) key(2) show ?thesis by (simp add: bytes_at_def)
qed

end
