(* ===== verification/SdkTheorems.thy ===== *)
theory SdkTheorems
  imports SdkFacts Samples
begin

text \<open>
  The properties of \<open>packages/protocol-sdk\<close>: the account decoders invert the layout of the
  on-chain programs, and the claim material is what the programs check.
\<close>

section \<open>Accounts\<close>

text \<open>
  Each account decoder is the exact inverse of the layout the on-chain program
  writes. On bytes whose flags are the canonical 0 or 1, a decoder returns a value exactly when
  every field of the value is within its width and the bytes are that value's account.
\<close>

theorem account_codec:
  "(decodeUserProfile v = Inr p \<and> canonicalFlags v userProfileFlags \<longleftrightarrow> validUserProfile p \<and> v = userProfileAccount p) \<and>
   (decodeOfflineSession v = Inr s \<and> canonicalFlags v offlineSessionFlags \<longleftrightarrow> validOfflineSession s \<and> v = offlineSessionAccount s) \<and>
   (decodeClaim v = Inr c \<and> canonicalFlags v claimFlags \<longleftrightarrow> validClaim c \<and> v = claimAccount c) \<and>
   (decodeStateEdgeRecord v = Inr e \<and> canonicalFlags v stateEdgeRecordFlags \<longleftrightarrow>
      validStateEdgeRecord e \<and> v = stateEdgeRecordAccount e)"
  using decodeUserProfile_bytes decodeUserProfile_account decodeOfflineSession_bytes decodeOfflineSession_account
    decodeClaim_bytes decodeClaim_account decodeStateEdgeRecord_bytes decodeStateEdgeRecord_account
  by metis

text \<open>
  An account decodes exactly when it has the size and the discriminator of
  its kind and its enumerations hold a known variant; every other input is an error. No input
  decodes as two kinds, since the discriminators differ.
\<close>

theorem account_recognised:
  "(isOk (decodeUserProfile v) \<longleftrightarrow> length v = 163 \<and> bytes_at v 0 8 = USER_PROFILE_DISCRIMINATOR) \<and>
   (isOk (decodeOfflineSession v) \<longleftrightarrow> length v = 530 \<and> bytes_at v 0 8 = OFFLINE_SESSION_DISCRIMINATOR \<and>
      uint (v ! 188) < 7 \<and> uint (v ! 190) < 3) \<and>
   (isOk (decodeClaim v) \<longleftrightarrow> length v = 272 \<and> bytes_at v 0 8 = CLAIM_DISCRIMINATOR \<and>
      uint (v ! 188) < 5 \<and> uint (v ! 189) < 2) \<and>
   (isOk (decodeStateEdgeRecord v) \<longleftrightarrow> length v = 228 \<and> bytes_at v 0 8 = STATE_EDGE_RECORD_DISCRIMINATOR) \<and>
   distinct [USER_PROFILE_DISCRIMINATOR, OFFLINE_SESSION_DISCRIMINATOR, CLAIM_DISCRIMINATOR, STATE_EDGE_RECORD_DISCRIMINATOR]"
proof (intro conjI)
  show "distinct [USER_PROFILE_DISCRIMINATOR, OFFLINE_SESSION_DISCRIMINATOR, CLAIM_DISCRIMINATOR, STATE_EDGE_RECORD_DISCRIMINATOR]"
    by (simp add: account_constants)
qed (auto simp: isOk_iff decodeUserProfile_def decodeOfflineSession_def decodeClaim_def decodeStateEdgeRecord_def
    bindE_Inr_iff assertAccount_iff account_sizes sessionStatus_def coverageStatus_def claimStatus_def
    rejectionReason_def variant_iff getUint8_def)

section \<open>Claim material\<close>

lemma claim_material_iff:
  assumes "borsh_ok L" "hash_ok L"
  shows "createClaimSubmissionMaterial L c = Inr m \<longleftrightarrow>
    validPaymentCredential c \<and> length (pc_payerSignature c) = 64 \<and>
    encodePaymentCredentialPayload L c = Inr (cm_payload m) \<and> length (cm_payload m) = 410 \<and>
    cm_payerSignature m = pc_payerSignature c \<and>
    cm_credentialHash m = hashSha256 L (cm_payload m @ cm_payerSignature m) \<and> credentialHash L c = Inr (cm_credentialHash m)"
proof -
  have 410: "length p = 410" if "encodePaymentCredentialPayload L c = Inr p" for p
    using that credential_payload.encodeWith_length unfolding encodePaymentCredentialPayload_def'
    by (fastforce simp: encoded_lengths)
  have hash: "h = hashSha256 L (p @ pc_payerSignature c) \<and> length h = 32 \<and> validPaymentCredential c \<and> length (pc_payerSignature c) = 64"
    if cred: "credentialHash L c = Inr h" "encodePaymentCredentialPayload L c = Inr p" for p h
  proof -
    obtain bs where bs: "encodePaymentCredential L c = Inr bs" "h = hashSha256 L bs"
      using cred(1) by (auto simp: credentialHash_def bindE_Inr_iff)
    with signature_appended [OF assms(1) bs(1)] cred(2) assms(2) length_hashSha256
      encodePaymentCredential_ok [OF assms(1), of c]
    show ?thesis by (auto simp: isOk_iff)
  qed
  have material: "createClaimSubmissionMaterial L c = Inr m \<longleftrightarrow>
    encodePaymentCredentialPayload L c = Inr (cm_payload m) \<and> length (cm_payload m) = 410 \<and>
    cm_payerSignature m = pc_payerSignature c \<and> length (pc_payerSignature c) = 64 \<and>
    credentialHash L c = Inr (cm_credentialHash m) \<and> length (cm_credentialHash m) = 32"
    by (cases m) (auto simp: createClaimSubmissionMaterial_def bindE_Inr_iff Let_def
      PAYMENT_CREDENTIAL_PAYLOAD_SIZE_def ED25519_SIGNATURE_SIZE_def)
  show ?thesis unfolding material using 410 hash by metis
qed

text \<open>
  Claim material exists exactly for credentials with all fields in range and a
  64-byte signature. It is the 410-byte signed payload, the signature, and as credential hash
  the digest of the payload followed by the signature, so the program can recompute the hash
  from what is submitted.
\<close>

theorem claim_material:
  assumes "borsh_ok L" "hash_ok L"
  shows "createClaimSubmissionMaterial L c = Inr m \<longleftrightarrow>
    validPaymentCredential c \<and> length (pc_payerSignature c) = 64 \<and>
    encodePaymentCredentialPayload L c = Inr (cm_payload m) \<and> length (cm_payload m) = 410 \<and>
    cm_payerSignature m = pc_payerSignature c \<and>
    cm_credentialHash m = hashSha256 L (cm_payload m @ cm_payerSignature m) \<and> credentialHash L c = Inr (cm_credentialHash m)"
  by (rule claim_material_iff [OF assms])

theorem claim_material_witness:
  "\<exists>m. createClaimSubmissionMaterial sampleLib samplePayment = Inr m \<and> length (cm_payload m) = 410"
proof -
  obtain p where p: "encodePaymentCredentialPayload sampleLib samplePayment = Inr p"
    using encodePaymentCredentialPayload_ok [OF sampleLib_borsh] samplePayments_valid by (auto simp: isOk_iff)
  obtain bs where bs: "encodePaymentCredential sampleLib samplePayment = Inr bs"
    using encodePaymentCredential_ok [OF sampleLib_borsh] samplePayments_valid by (auto simp: isOk_iff)
  have b: "bs = p @ pc_payerSignature samplePayment"
    using signature_appended [OF sampleLib_borsh bs] p by auto
  have l: "length p = 410" using encodePaymentCredential_length [OF bs] samplePayments_valid(2) b by simp
  have "createClaimSubmissionMaterial sampleLib samplePayment =
      Inr \<lparr>cm_payload = p, cm_payerSignature = pc_payerSignature samplePayment, cm_credentialHash = hashSha256 sampleLib bs\<rparr>"
    using p bs b l samplePayments_valid by (simp add: claim_material credentialHash_iff hashSha256_def)
  with l show ?thesis by auto
qed

end
