(* ===== verification/JsonValue.thy ===== *)
theory JsonValue
  imports Complex_Main JsArrays
begin

text \<open>
  The values \<open>JSON.parse\<close> returns, as the applications inspect them. A property that is absent
  is \<open>undefined\<close>, here \<open>None\<close>; a number is the rational value of its IEEE double (an overflow to
  infinity fails the same tests as a fraction). A text is the list of its characters; a text
  with characters beyond code 255 behaves like any other text that matches no pattern.
\<close>

datatype json =
  JNull
| JBool bool
| JNumber rat
| JString string
| JArray "json list"
| JObject "(string \<times> json) list"

text \<open>\<open>Number.isInteger\<close>\<close>

definition isInteger :: "json option \<Rightarrow> bool" where
  "isInteger v = (case v of Some (JNumber n) \<Rightarrow> snd (quotient_of n) = 1 | _ \<Rightarrow> False)"

text \<open>
  The test that an object has exactly the expected keys, as the applications write it: sort the
  observed names and compare them position by position.
\<close>

definition sameKeys :: "string list \<Rightarrow> string list \<Rightarrow> bool" where
  "sameKeys observed expected \<longleftrightarrow>
     \<not> (length observed \<noteq> length expected \<or>
        list_ex (\<lambda>(index, key). key \<noteq> expected ! index) (enumerate 0 observed))"

lemma sameKeys_iff: "sameKeys observed expected \<longleftrightarrow> observed = expected"
  by (auto simp: sameKeys_def list_ex_length nth_enumerate_eq list_eq_iff_nth_eq)

text \<open>Lower-case hexadecimal text of a given number of bytes: \<open>/^[0-9a-f]{2n}$/\<close>.\<close>

definition isHex :: "nat \<Rightarrow> string \<Rightarrow> bool" where
  "isHex n s \<longleftrightarrow> length s = 2 * n \<and> list_all (\<lambda>c. c \<in> set ''0123456789abcdef'') s"

lemma isInteger_of_int [simp]: "isInteger (Some (JNumber (of_int n)))"
  by (simp add: isInteger_def)

lemma isInteger_iff: "isInteger v \<longleftrightarrow> (\<exists>n. v = Some (JNumber (of_int n)))"
proof
  assume v: "isInteger v"
  then obtain q where q: "v = Some (JNumber q)" "snd (quotient_of q) = 1"
    by (auto simp: isInteger_def split: option.splits json.splits)
  have "q = Fract (fst (quotient_of q)) (snd (quotient_of q))"
    by (metis Fract_of_int_quotient quotient_of_div prod.collapse)
  with q show "\<exists>n. v = Some (JNumber (of_int n))" by (metis of_int_rat)
qed auto

end
