(* ===== verification/MerchantClaims.thy ===== *)
theory MerchantClaims
  imports Transports ProtocolSdk JsonValue
begin

text \<open>
  \<open>apps/merchant-mobile/src/claim-history.ts\<close> and \<open>claim-material.ts\<close>: the claims a merchant keeps,
  how a stored list is read back, and how the claim material is derived again from the stored
  frames. Error messages are written without diacritics.
\<close>

section \<open>Stored claims\<close>

datatype ReceiptPresentation = ReceiptNotShown | ReceiptShown | ReceiptUnknown

datatype ClaimLifecycleStatus = LifecyclePending | LifecycleSubmitted | LifecycleSettled | LifecycleRejected

record StoredClaim =
  st_credentialHash :: string
  st_amount :: string
  st_sessionId :: string
  st_frames :: "string list"
  st_status :: ClaimLifecycleStatus
  st_receiptPresentation :: ReceiptPresentation
  st_submissionAttempts :: int
  st_transactionSignature :: "string option"
  st_lastConfirmedSlot :: "string option"
  st_lastSubmissionError :: "string option"

record ClaimBranchDescriptor =
  bd_credentialHash :: string
  bd_sessionId :: string
  bd_parentStateHash :: string
  bd_sequence :: int
  bd_resultingStateHash :: string

text \<open>\<open>value.key\<close> on an object; an array has none of the properties that are read here.\<close>

definition propertyOf :: "json \<Rightarrow> string \<Rightarrow> json option" where
  "propertyOf value key = (case value of JObject entries \<Rightarrow> map_of entries key | _ \<Rightarrow> None)"

definition isRecord :: "json \<Rightarrow> bool" where
  "isRecord value = (case value of JObject _ \<Rightarrow> True | JArray _ \<Rightarrow> True | _ \<Rightarrow> False)"

text \<open>\<open>isCanonicalHex(value, bytes)\<close> with the text it accepts\<close>

definition canonicalHex :: "json option \<Rightarrow> nat \<Rightarrow> string option" where
  "canonicalHex value n =
    (case value of Some (JString text) \<Rightarrow> if 0 < n \<and> isHex n text then Some text else None | _ \<Rightarrow> None)"

text \<open>\<open>typeof value === "string" \&\& test(value)\<close>, otherwise \<open>null\<close>\<close>

definition textWhere :: "(string \<Rightarrow> bool) \<Rightarrow> json option \<Rightarrow> string option" where
  "textWhere test value = (case value of Some (JString text) \<Rightarrow> if test text then Some text else None | _ \<Rightarrow> None)"

definition framesOf :: "json option \<Rightarrow> string list option" where
  "framesOf value =
    (case value of
       Some (JArray entries) \<Rightarrow>
         if entries = [] then None
         else those (map (\<lambda>frame. textWhere (\<lambda>text. text \<noteq> []) (Some frame)) entries)
     | _ \<Rightarrow> None)"

definition statusOf :: "json option \<Rightarrow> ClaimLifecycleStatus option" where
  "statusOf value =
    (if value = Some (JString ''pending-settlement'') then Some LifecyclePending
     else if value = Some (JString ''pending-submission'') then Some LifecyclePending
     else if value = Some (JString ''submitted'') then Some LifecycleSubmitted
     else if value = Some (JString ''settled'') then Some LifecycleSettled
     else if value = Some (JString ''rejected'') then Some LifecycleRejected
     else None)"

definition presentationOf :: "json option \<Rightarrow> ReceiptPresentation" where
  "presentationOf value =
    (if value = Some (JString ''not-shown'') then ReceiptNotShown
     else if value = Some (JString ''shown'') then ReceiptShown else ReceiptUnknown)"

text \<open>\<open>Number.isSafeInteger(value) \&\& value >= 0 ? value : 0\<close>\<close>

definition attemptsOf :: "json option \<Rightarrow> int" where
  "attemptsOf value =
    (case value of
       Some (JNumber n) \<Rightarrow> if isInteger value \<and> 0 \<le> n \<and> n \<le> 2 ^ 53 - 1 then \<lfloor>n\<rfloor> else 0
     | _ \<Rightarrow> 0)"

definition normalizeClaim :: "json \<Rightarrow> StoredClaim option" where
  "normalizeClaim value =
    (if \<not> isRecord value then None else
     Option.bind (canonicalHex (propertyOf value ''credentialHash'') 32) (\<lambda>credentialHash.
     Option.bind (canonicalHex (propertyOf value ''sessionId'') 32) (\<lambda>sessionId.
     Option.bind (textWhere positiveNumber (propertyOf value ''amount'')) (\<lambda>amount.
     Option.bind (framesOf (propertyOf value ''frames'')) (\<lambda>frames.
     Option.bind (statusOf (propertyOf value ''status'')) (\<lambda>status.
       Some \<lparr>st_credentialHash = credentialHash, st_amount = amount, st_sessionId = sessionId, st_frames = frames,
         st_status = status,
         st_receiptPresentation = presentationOf (propertyOf value ''receiptPresentation''),
         st_submissionAttempts = attemptsOf (propertyOf value ''submissionAttempts''),
         st_transactionSignature = textWhere (\<lambda>text. text \<noteq> []) (propertyOf value ''transactionSignature''),
         st_lastConfirmedSlot = textWhere canonicalNumber (propertyOf value ''lastConfirmedSlot''),
         st_lastSubmissionError = textWhere (\<lambda>text. text \<noteq> []) (propertyOf value ''lastSubmissionError'')\<rparr>))))))"

definition createStoredClaim :: "string \<Rightarrow> string \<Rightarrow> string \<Rightarrow> string list \<Rightarrow> StoredClaim" where
  "createStoredClaim hash amount sessionId frames =
    \<lparr>st_credentialHash = hash, st_amount = amount, st_sessionId = sessionId, st_frames = frames,
     st_status = LifecyclePending, st_receiptPresentation = ReceiptNotShown, st_submissionAttempts = 0,
     st_transactionSignature = None, st_lastConfirmedSlot = None, st_lastSubmissionError = None\<rparr>"

text \<open>
  \<open>parseStoredClaims\<close> after \<open>JSON.parse\<close>: \<open>None\<close> stands for a missing text and for one that does
  not parse.
\<close>

definition parsedStoredClaims :: "json option \<Rightarrow> StoredClaim list" where
  "parsedStoredClaims decoded =
    (case decoded of Some (JArray entries) \<Rightarrow> List.map_filter normalizeClaim entries | _ \<Rightarrow> [])"

definition markReceiptShown :: "StoredClaim list \<Rightarrow> string \<Rightarrow> StoredClaim list" where
  "markReceiptShown claims hash =
    map (\<lambda>claim. if st_credentialHash claim = hash then claim\<lparr>st_receiptPresentation := ReceiptShown\<rparr> else claim) claims"

text \<open>The \<open>Map\<close> of groups keeps insertion order.\<close>

definition branchKey :: "ClaimBranchDescriptor \<Rightarrow> string" where
  "branchKey descriptor =
     bd_sessionId descriptor @ '':'' @ bd_parentStateHash descriptor @ '':'' @ decimal (bd_sequence descriptor)"

definition groupDescriptor ::
  "ClaimBranchDescriptor \<Rightarrow> (string \<times> ClaimBranchDescriptor list) list \<Rightarrow> (string \<times> ClaimBranchDescriptor list) list" where
  "groupDescriptor descriptor groups =
    (case map_of groups (branchKey descriptor) of
       None \<Rightarrow> AList.update (branchKey descriptor) [descriptor] groups
     | Some members \<Rightarrow> AList.update (branchKey descriptor) (members @ [descriptor]) groups)"

definition conflictsOfGroup :: "ClaimBranchDescriptor list \<Rightarrow> string list \<Rightarrow> string list" where
  "conflictsOfGroup members result =
    (if length (remdups (map bd_resultingStateHash members)) \<le> 1 then result
     else fold (\<lambda>descriptor found. setAdd (bd_credentialHash descriptor) found) members result)"

definition findPotentialConflictHashes :: "ClaimBranchDescriptor list \<Rightarrow> string list" where
  "findPotentialConflictHashes descriptors =
     fold conflictsOfGroup (map snd (fold groupDescriptor descriptors [])) []"

section \<open>Claim material from stored frames\<close>

record StoredClaimTrust = OfflineTrustEnvironment +
  sct_merchant :: bytes
  sct_merchantDeviceKey :: bytes

record StoredClaimEvidence =
  sce_material :: ClaimSubmissionMaterial
  sce_owner :: bytes
  sce_sessionId :: bytes
  sce_merchant :: bytes
  sce_amount :: int

definition materializeStoredClaimEvidence :: "lib \<Rightarrow> StoredClaim \<Rightarrow> StoredClaimTrust \<Rightarrow> StoredClaimEvidence result" where
  "materializeStoredClaimEvidence L claim trust =
    bindE (receiveCredential L (st_frames claim)) (\<lambda>bundle.
    bindE (failIf (credentials bundle = []) ''prova armazenada nao contem credencial'') (\<lambda>_.
    let credential = last (credentials bundle);
        context = \<lparr>cx_networkId = ev_networkId trust, cx_clusterGenesisHash = ev_clusterGenesisHash trust,
          cx_programId = ev_programId trust, cx_sessionId = sc_sessionId (sessionCertificate bundle),
          cx_trustedCertificateIssuer = ev_trustedCertificateIssuer trust\<rparr>
    in
    bindE (validateCredentialProofBundle L context bundle) (\<lambda>_.
    bindE (failIf (\<not> equalBytes (pc_merchant credential) (sct_merchant trust)) ''merchant da prova armazenada divergente'') (\<lambda>_.
    bindE (failIf (\<not> equalBytes (pc_merchantDeviceKey credential) (sct_merchantDeviceKey trust))
      ''dispositivo merchant da prova armazenada divergente'') (\<lambda>_.
    bindE (failIf (bytesToHex (pc_sessionId credential) \<noteq> st_sessionId claim) ''sessao da prova armazenada divergente'') (\<lambda>_.
    bindE (failIf (decimal (pc_amount credential) \<noteq> st_amount claim) ''valor da prova armazenada divergente'') (\<lambda>_.
    bindE (createClaimSubmissionMaterial L credential) (\<lambda>material.
    bindE (credentialHash L credential) (\<lambda>hash.
    bindE (failIf (bytesToHex hash \<noteq> st_credentialHash claim) ''credential hash da prova armazenada divergente'') (\<lambda>_.
    bindE (failIf (bytesToHex (cm_credentialHash material) \<noteq> st_credentialHash claim)
      ''claim material nao corresponde a prova armazenada'') (\<lambda>_.
      Inr \<lparr>sce_material = material, sce_owner = sc_owner (sessionCertificate bundle), sce_sessionId = pc_sessionId credential,
        sce_merchant = pc_merchant credential, sce_amount = pc_amount credential\<rparr>)))))))))))"

definition materializeStoredClaim :: "lib \<Rightarrow> StoredClaim \<Rightarrow> StoredClaimTrust \<Rightarrow> ClaimSubmissionMaterial result" where
  "materializeStoredClaim L claim trust =
    bindE (materializeStoredClaimEvidence L claim trust) (\<lambda>evidence. Inr (sce_material evidence))"

end
