(* ===== verification/ClaimRelayer.thy ===== *)
theory ClaimRelayer
  imports ProtocolSdk TextCoding JsonValue "HOL-Library.AList"
begin

text \<open>
  \<open>apps/claim-relayer/src/claim-relayer.ts\<close>: the relayer checks a claim request against the
  chain, finds the place of the claim in the session's ordered list, builds the instruction and
  submits it once per credential.

  Third-party code is a parameter: \<open>web3\<close> for the pure functions and constants of
  \<open>@solana/web3.js\<close> and \<open>node:crypto\<close>, \<open>Connection\<close> for the answers of the RPC node. A public key
  is its 32 bytes; \<open>new PublicKey(bytes)\<close> and \<open>toBytes\<close> are the identity on them.
\<close>

section \<open>Third-party code\<close>

record web3 =
  publicKeyOfBase58 :: "string \<Rightarrow> bytes option"
  base58OfPublicKey :: "bytes \<Rightarrow> string"
  findProgramAddress :: "bytes list \<Rightarrow> bytes \<Rightarrow> bytes option"
  createHashSha256 :: "bytes \<Rightarrow> bytes"
  SYSVAR_INSTRUCTIONS :: bytes
  SystemProgramId :: bytes

record AccountInfo =
  ac_owner :: bytes
  ac_data :: bytes

record AccountMeta =
  am_pubkey :: bytes
  am_isSigner :: bool
  am_isWritable :: bool

record TransactionInstruction =
  ti_programId :: bytes
  ti_keys :: "AccountMeta list"
  ti_data :: bytes

text \<open>\<open>RelayerError\<close> with its code and HTTP status; any other error is passed on.\<close>

datatype relayer_error = RelayerError string nat | OtherError js_error

type_synonym 'a relay = "relayer_error + 'a"

text \<open>
  The answers of the RPC node. The node may answer two reads of one plan from different states,
  so \<open>getAccountInfo\<close> depends on the number of the read.
\<close>

record Connection =
  cn_getGenesisHash :: "string option"
  cn_getAccountInfo :: "nat \<Rightarrow> bytes \<Rightarrow> AccountInfo option relay"
  cn_getProgramAccounts :: "bytes \<Rightarrow> nat \<Rightarrow> nat \<Rightarrow> string \<Rightarrow> (bytes \<times> AccountInfo) list relay"
  cn_getLatestBlockhash :: "string relay"
  cn_sendRawTransaction :: "bytes \<Rightarrow> string \<Rightarrow> TransactionInstruction list \<Rightarrow> string relay"
  cn_confirmTransaction :: "string \<Rightarrow> string \<Rightarrow> bool relay"

section \<open>Constants and data\<close>

text \<open>\<open>Buffer.from(text)\<close> for ASCII text\<close>

definition textBytes :: "string \<Rightarrow> bytes" where "textBytes text = map of_char text"

definition CONFIG_SEED :: bytes where "CONFIG_SEED = textBytes ''config''"
definition PROFILE_SEED :: bytes where "PROFILE_SEED = textBytes ''user''"
definition SESSION_SEED :: bytes where "SESSION_SEED = textBytes ''session''"
definition CLAIM_SEED :: bytes where "CLAIM_SEED = textBytes ''claim''"
definition EDGE_SEED :: bytes where "EDGE_SEED = textBytes ''edge''"
definition FORK_SEED :: bytes where "FORK_SEED = textBytes ''fork''"
definition PAYMENT_PAYLOAD_SIZE :: nat where "PAYMENT_PAYLOAD_SIZE = 410"
definition SIGNATURE_SIZE :: nat where "SIGNATURE_SIZE = 64"
definition ZERO :: bytes where "ZERO = replicate 32 0"

record ClaimRelayerRequest =
  rr_networkId :: int
  rr_clusterGenesisHash :: string
  rr_programId :: string
  rr_sessionAccount :: string
  rr_claimAccount :: string
  rr_merchant :: string
  rr_credentialPayload :: string
  rr_payerSignature :: string
  rr_credentialHash :: string

record ClaimRelayerConfig =
  rf_networkId :: int
  rf_clusterGenesisHash :: bytes
  rf_programId :: bytes
  rf_relayer :: bytes

record PlannedClaim =
  pl_request :: ClaimRelayerRequest
  pl_claim :: bytes
  pl_instruction :: TransactionInstruction
  pl_verifierInstruction :: TransactionInstruction

record ListedClaim =
  lc_address :: bytes
  lc_value :: DecodedClaim

definition relayIf :: "bool \<Rightarrow> string \<Rightarrow> nat \<Rightarrow> unit relay" where
  "relayIf b code status = (if b then Inl (RelayerError code status) else Inr ())"

text \<open>An error that is not a \<open>RelayerError\<close> passes through unchanged.\<close>

definition pass :: "'a result \<Rightarrow> 'a relay" where
  "pass r = (case r of Inl e \<Rightarrow> Inl (OtherError e) | Inr x \<Rightarrow> Inr x)"

section \<open>Reading the request\<close>

definition exactHex :: "json option \<Rightarrow> nat \<Rightarrow> bytes relay" where
  "exactHex value n =
    (case value of
       Some (JString text) \<Rightarrow> if isHex n text then Inr (hexPairs text) else Inl (RelayerError ''INVALID_REQUEST'' 400)
     | _ \<Rightarrow> Inl (RelayerError ''INVALID_REQUEST'' 400))"

definition exactPublicKey :: "web3 \<Rightarrow> json option \<Rightarrow> bytes relay" where
  "exactPublicKey W value =
    (case value of
       Some (JString text) \<Rightarrow>
         (case publicKeyOfBase58 W text of
            None \<Rightarrow> Inl (RelayerError ''INVALID_REQUEST'' 400)
          | Some key \<Rightarrow> if base58OfPublicKey W key \<noteq> text then Inl (RelayerError ''INVALID_REQUEST'' 400) else Inr key)
     | _ \<Rightarrow> Inl (RelayerError ''INVALID_REQUEST'' 400))"

definition requestKeys :: "string list" where
  "requestKeys = [''claimAccount'', ''clusterGenesisHash'', ''credentialHash'', ''credentialPayload'', ''merchant'',
     ''networkId'', ''payerSignature'', ''programId'', ''sessionAccount'', ''version'']"

text \<open>A property that the checks before have shown to be a text, or an integer.\<close>

definition textProperty :: "(string \<times> json) list \<Rightarrow> string \<Rightarrow> string" where
  "textProperty record key = (case map_of record key of Some (JString text) \<Rightarrow> text | _ \<Rightarrow> [])"

definition integerProperty :: "(string \<times> json) list \<Rightarrow> string \<Rightarrow> int" where
  "integerProperty record key = (case map_of record key of Some (JNumber n) \<Rightarrow> \<lfloor>n\<rfloor> | _ \<Rightarrow> 0)"

definition strictRequest :: "web3 \<Rightarrow> json \<Rightarrow> ClaimRelayerRequest relay" where
  "strictRequest W value =
    (case value of
       JObject record \<Rightarrow>
         bindE (relayIf (\<not> sameKeys (sortBy compareText (map fst record)) requestKeys) ''INVALID_REQUEST'' 400) (\<lambda>_.
         bindE (relayIf (map_of record ''version'' \<noteq> Some (JNumber 1) \<or> \<not> isInteger (map_of record ''networkId''))
           ''INVALID_REQUEST'' 400) (\<lambda>_.
         bindE (exactHex (map_of record ''clusterGenesisHash'') 32) (\<lambda>_.
         bindE (exactHex (map_of record ''credentialPayload'') PAYMENT_PAYLOAD_SIZE) (\<lambda>_.
         bindE (exactHex (map_of record ''payerSignature'') SIGNATURE_SIZE) (\<lambda>_.
         bindE (exactHex (map_of record ''credentialHash'') 32) (\<lambda>_.
         bindE (exactPublicKey W (map_of record ''programId'')) (\<lambda>_.
         bindE (exactPublicKey W (map_of record ''sessionAccount'')) (\<lambda>_.
         bindE (exactPublicKey W (map_of record ''claimAccount'')) (\<lambda>_.
         bindE (exactPublicKey W (map_of record ''merchant'')) (\<lambda>_.
           Inr \<lparr>rr_networkId = integerProperty record ''networkId'',
             rr_clusterGenesisHash = textProperty record ''clusterGenesisHash'',
             rr_programId = textProperty record ''programId'',
             rr_sessionAccount = textProperty record ''sessionAccount'',
             rr_claimAccount = textProperty record ''claimAccount'',
             rr_merchant = textProperty record ''merchant'',
             rr_credentialPayload = textProperty record ''credentialPayload'',
             rr_payerSignature = textProperty record ''payerSignature'',
             rr_credentialHash = textProperty record ''credentialHash''\<rparr>))))))))))
     | _ \<Rightarrow> Inl (RelayerError ''INVALID_REQUEST'' 400))"

section \<open>Accounts\<close>

definition accountData :: "AccountInfo option \<Rightarrow> bytes \<Rightarrow> bytes relay" where
  "accountData account owner =
    (case account of
       None \<Rightarrow> Inl (RelayerError ''ACCOUNT_NOT_FOUND'' 409)
     | Some info \<Rightarrow> if ac_owner info \<noteq> owner then Inl (RelayerError ''WRONG_ACCOUNT_OWNER'' 409) else Inr (ac_data info))"

text \<open>\<open>writeUInt32LE\<close> throws outside 32 bits.\<close>

definition relayerU32 :: "int \<Rightarrow> bytes relay" where
  "relayerU32 value = pass (if 0 \<le> value \<and> value \<le> U32_MAX then Inr (leBytes 4 value) else Inl (JsError ''ERR_OUT_OF_RANGE''))"

definition pda :: "web3 \<Rightarrow> bytes \<Rightarrow> bytes list \<Rightarrow> bytes relay" where
  "pda W program seeds = pass (fromLib ''Unable to find a viable program address nonce'' (findProgramAddress W seeds program))"

definition claimPda :: "web3 \<Rightarrow> bytes \<Rightarrow> bytes \<Rightarrow> bytes \<Rightarrow> bytes relay" where
  "claimPda W program session hash = pda W program [CLAIM_SEED, session, hash]"

definition edgePda :: "web3 \<Rightarrow> bytes \<Rightarrow> bytes \<Rightarrow> bytes \<Rightarrow> int \<Rightarrow> bytes \<Rightarrow> bytes relay" where
  "edgePda W program session previous sequence next =
    bindE (relayerU32 sequence) (\<lambda>number. pda W program [EDGE_SEED, session, previous, number, next])"

text \<open>\<open>Buffer.compare\<close>\<close>

definition bufferCompare :: "bytes \<Rightarrow> bytes \<Rightarrow> int" where
  "bufferCompare left right = (if left < right then -1 else if right < left then 1 else 0)"

definition claimLinks :: "bytes \<Rightarrow> ListedClaim list \<Rightarrow> nat \<Rightarrow> ListedClaim \<Rightarrow> unit relay" where
  "claimLinks sessionAddress claims index entry =
    bindE (relayIf (\<not> equalBytes (dc_session (lc_value entry)) sessionAddress) ''STALE_RPC_STATE'' 503) (\<lambda>_.
    let previous = (if index = 0 then ZERO else lc_address (claims ! (index - 1)));
        next = (if index = length claims - 1 then ZERO else lc_address (claims ! (index + 1)))
    in
    bindE (relayIf (dc_previousClaim (lc_value entry) \<noteq> previous \<or> dc_nextClaim (lc_value entry) \<noteq> next)
      ''STALE_RPC_STATE'' 503) (\<lambda>_.
    relayIf (0 < index \<and>
        0 \<le> bufferCompare (dc_credentialHash (lc_value (claims ! (index - 1)))) (dc_credentialHash (lc_value entry)))
      ''STALE_RPC_STATE'' 503))"

definition assertClaimList :: "bytes \<Rightarrow> DecodedOfflineSession \<Rightarrow> ListedClaim list \<Rightarrow> unit relay" where
  "assertClaimList sessionAddress session claims =
    bindE (relayIf (int (length claims) \<noteq> os_submittedClaimCount session) ''STALE_RPC_STATE'' 503) (\<lambda>_.
    if claims = [] then
      relayIf (os_claimHead session \<noteq> ZERO \<or> os_claimTail session \<noteq> ZERO) ''STALE_RPC_STATE'' 503
    else
      bindE (relayIf (lc_address (hd claims) \<noteq> os_claimHead session \<or> lc_address (last claims) \<noteq> os_claimTail session)
        ''STALE_RPC_STATE'' 503) (\<lambda>_.
      runE (map (\<lambda>(index, entry). claimLinks sessionAddress claims index entry) (enumerate 0 claims))))"

section \<open>Instructions\<close>

definition submitClaimData :: "web3 \<Rightarrow> bytes \<Rightarrow> bytes \<Rightarrow> bytes relay" where
  "submitClaimData W payload signature =
    (let discriminator = take 8 (createHashSha256 W (textBytes ''global:submit_claim'')) in
     bindE (relayerU32 (int (length payload))) (\<lambda>size. Inr (discriminator @ size @ payload @ signature)))"

definition writeUInt16LE :: "int \<Rightarrow> nat \<Rightarrow> bytes \<Rightarrow> bytes" where
  "writeUInt16LE value offset data = take offset data @ leBytes 2 value @ drop (offset + 2) data"

definition verifierData :: bytes where
  "verifierData =
    (let data = (replicate 16 0)[0 := 1];
         data = writeUInt16LE 422 2 data;
         data = writeUInt16LE 1 4 data;
         data = writeUInt16LE 190 6 data;
         data = writeUInt16LE 1 8 data;
         data = writeUInt16LE 12 10 data;
         data = writeUInt16LE (int PAYMENT_PAYLOAD_SIZE) 12 data
     in writeUInt16LE 1 14 data)"

definition verifierInstruction :: "web3 \<Rightarrow> TransactionInstruction relay" where
  "verifierInstruction W =
    bindE (pass (fromLib ''Invalid public key input''
      (publicKeyOfBase58 W ''Ed25519SigVerify111111111111111111111111111''))) (\<lambda>program.
      Inr \<lparr>ti_programId = program, ti_keys = [], ti_data = verifierData\<rparr>)"

section \<open>Planning a claim\<close>

text \<open>The request names this relayer's network, cluster and program, and the node serves that cluster.\<close>

definition checkDomain :: "web3 \<Rightarrow> ClaimRelayerConfig \<Rightarrow> Connection \<Rightarrow> ClaimRelayerRequest \<Rightarrow> unit relay" where
  "checkDomain W config connection request =
    bindE (relayIf (rr_networkId request \<noteq> rf_networkId config) ''DOMAIN_MISMATCH'' 403) (\<lambda>_.
    bindE (exactHex (Some (JString (rr_clusterGenesisHash request))) 32) (\<lambda>requestGenesis.
    bindE (relayIf (\<not> equalBytes requestGenesis (rf_clusterGenesisHash config)) ''DOMAIN_MISMATCH'' 403) (\<lambda>_.
    bindE (exactPublicKey W (Some (JString (rr_programId request)))) (\<lambda>requestProgram.
    bindE (relayIf (requestProgram \<noteq> rf_programId config) ''DOMAIN_MISMATCH'' 403) (\<lambda>_.
    (case Option.bind (cn_getGenesisHash connection) (publicKeyOfBase58 W) of
       None \<Rightarrow> Inl (RelayerError ''RPC_UNAVAILABLE'' 503)
     | Some observedGenesis \<Rightarrow>
         relayIf (\<not> equalBytes observedGenesis (rf_clusterGenesisHash config)) ''RPC_CLUSTER_MISMATCH'' 503))))))"

record ClaimEvidence =
  ce_payload :: bytes
  ce_signature :: bytes
  ce_hash :: bytes
  ce_credential :: PaymentCredential

text \<open>The payload and signature of the request are a signed canonical credential of this domain.\<close>

definition checkEvidence :: "lib \<Rightarrow> ClaimRelayerConfig \<Rightarrow> ClaimRelayerRequest \<Rightarrow> ClaimEvidence relay" where
  "checkEvidence L config request =
    bindE (exactHex (Some (JString (rr_credentialPayload request))) PAYMENT_PAYLOAD_SIZE) (\<lambda>payload.
    bindE (exactHex (Some (JString (rr_payerSignature request))) SIGNATURE_SIZE) (\<lambda>signature.
    bindE (exactHex (Some (JString (rr_credentialHash request))) 32) (\<lambda>requestedHash.
    let computedHash = hashSha256 L (payload @ signature) in
    bindE (relayIf (\<not> equalBytes requestedHash computedHash) ''HASH_MISMATCH'' 400) (\<lambda>_.
    (case decodePaymentCredential L (payload @ signature) of
       Inl _ \<Rightarrow> Inl (RelayerError ''NON_CANONICAL_CREDENTIAL'' 400)
     | Inr credential \<Rightarrow>
         bindE (relayIf (\<not> verifyEd25519 L signature payload (pc_payerDeviceKey credential)) ''INVALID_SIGNATURE'' 400) (\<lambda>_.
         bindE (relayIf (dm_networkId (pc_domain credential) \<noteq> rf_networkId config \<or>
             \<not> equalBytes (dm_clusterGenesisHash (pc_domain credential)) (rf_clusterGenesisHash config) \<or>
             \<not> equalBytes (dm_programId (pc_domain credential)) (rf_programId config) \<or>
             \<not> equalBytes (dm_sessionId (pc_domain credential)) (pc_sessionId credential)) ''DOMAIN_MISMATCH'' 403) (\<lambda>_.
           Inr \<lparr>ce_payload = payload, ce_signature = signature, ce_hash = computedHash, ce_credential = credential\<rparr>)))))))"

text \<open>The accounts the request declares are the ones the credential determines.\<close>

definition deriveAccounts ::
  "web3 \<Rightarrow> ClaimRelayerConfig \<Rightarrow> ClaimRelayerRequest \<Rightarrow> ClaimEvidence \<Rightarrow> (bytes \<times> bytes) relay" where
  "deriveAccounts W config request evidence =
    (let credential = ce_credential evidence in
    bindE (pda W (rf_programId config) [SESSION_SEED, pc_payer credential, pc_sessionId credential]) (\<lambda>session.
    bindE (claimPda W (rf_programId config) session (ce_hash evidence)) (\<lambda>claim.
    bindE (exactPublicKey W (Some (JString (rr_sessionAccount request)))) (\<lambda>declaredSession.
    if session \<noteq> declaredSession then Inl (RelayerError ''DERIVATION_MISMATCH'' 400) else
    bindE (exactPublicKey W (Some (JString (rr_claimAccount request)))) (\<lambda>declaredClaim.
    if claim \<noteq> declaredClaim then Inl (RelayerError ''DERIVATION_MISMATCH'' 400) else
    bindE (exactPublicKey W (Some (JString (rr_merchant request)))) (\<lambda>declaredMerchant.
    if pc_merchant credential \<noteq> declaredMerchant then Inl (RelayerError ''DERIVATION_MISMATCH'' 400) else
      Inr (session, claim)))))))"

text \<open>The on-chain session is the credential's.\<close>

definition readSession ::
  "ClaimRelayerConfig \<Rightarrow> Connection \<Rightarrow> PaymentCredential \<Rightarrow> bytes \<Rightarrow> DecodedOfflineSession relay" where
  "readSession config connection credential session =
    bindE (cn_getAccountInfo connection 1 session) (\<lambda>account.
    bindE (accountData account (rf_programId config)) (\<lambda>bytes.
    bindE (pass (decodeOfflineSession bytes)) (\<lambda>decoded.
    bindE (relayIf (\<not> equalBytes (os_sessionId decoded) (pc_sessionId credential) \<or>
        \<not> equalBytes (os_owner decoded) (pc_payer credential) \<or>
        \<not> equalBytes (os_devicePublicKey decoded) (pc_payerDeviceKey credential)) ''SESSION_MISMATCH'' 409) (\<lambda>_.
      Inr decoded))))"

text \<open>The session's claims in the order of their hashes.\<close>

definition readClaims :: "web3 \<Rightarrow> ClaimRelayerConfig \<Rightarrow> Connection \<Rightarrow> bytes \<Rightarrow> ListedClaim list relay" where
  "readClaims W config connection session =
    bindE (cn_getProgramAccounts connection (rf_programId config) CLAIM_ACCOUNT_SIZE 40 (base58OfPublicKey W session)) (\<lambda>listed.
    bindE (mapE (\<lambda>(pubkey, account).
        bindE (accountData (Some account) (rf_programId config)) (\<lambda>bytes.
        bindE (pass (decodeClaim bytes)) (\<lambda>value. Inr \<lparr>lc_address = pubkey, lc_value = value\<rparr>))) listed) (\<lambda>claims.
      Inr (sortBy (\<lambda>left right. bufferCompare (dc_credentialHash (lc_value left)) (dc_credentialHash (lc_value right))) claims)))"

text \<open>\<open>findIndex\<close>, \<open>None\<close> where it is \<open>-1\<close>\<close>

fun findIndex :: "('a \<Rightarrow> bool) \<Rightarrow> 'a list \<Rightarrow> nat option" where
  "findIndex P [] = None"
| "findIndex P (x # xs) = (if P x then Some 0 else map_option Suc (findIndex P xs))"

text \<open>The neighbours of the new claim in the list; the session's address stands for an end.\<close>

definition claimNeighbours :: "bytes \<Rightarrow> ListedClaim list \<Rightarrow> bytes \<Rightarrow> bytes \<times> bytes" where
  "claimNeighbours session claims computedHash =
    (let insertion = findIndex (\<lambda>entry. bufferCompare computedHash (dc_credentialHash (lc_value entry)) < 0) claims;
         predecessor =
           (case insertion of
              None \<Rightarrow> if claims = [] then session else lc_address (last claims)
            | Some i \<Rightarrow> if i = 0 then session else lc_address (claims ! (i - 1)));
         successor = (case insertion of None \<Rightarrow> session | Some i \<Rightarrow> lc_address (claims ! i))
     in (predecessor, successor))"

text \<open>The claim that represents the edge, and the account that proves its parent.\<close>

definition edgeAccounts ::
  "web3 \<Rightarrow> ClaimRelayerConfig \<Rightarrow> Connection \<Rightarrow> PaymentCredential \<Rightarrow> bytes \<Rightarrow> bytes \<Rightarrow> bytes \<Rightarrow> ListedClaim list \<Rightarrow>
    (bytes \<times> bytes) relay" where
  "edgeAccounts W config connection credential session claim edge claims =
    bindE (cn_getAccountInfo connection 2 edge) (\<lambda>edgeAccount.
    if edgeAccount \<noteq> None then
      bindE (accountData edgeAccount (rf_programId config)) (\<lambda>bytes.
      bindE (pass (decodeStateEdgeRecord bytes)) (\<lambda>decodedEdge.
      bindE (claimPda W (rf_programId config) session (se_representativeCredentialHash decodedEdge)) (\<lambda>representative.
        Inr (representative, session))))
    else if pc_sequence credential > 1 then
      (case find (\<lambda>entry. dc_sequence (lc_value entry) = pc_sequence credential - 1 \<and>
           equalBytes (dc_newStateHash (lc_value entry)) (pc_previousStateHash credential)) claims of
         None \<Rightarrow> Inl (RelayerError ''PARENT_NOT_FOUND'' 409)
       | Some parentClaim \<Rightarrow>
           bindE (edgePda W (rf_programId config) session (dc_previousStateHash (lc_value parentClaim))
             (dc_sequence (lc_value parentClaim)) (dc_newStateHash (lc_value parentClaim))) (\<lambda>parent.
           bindE (cn_getAccountInfo connection 3 parent) (\<lambda>parentAccount.
           bindE (accountData parentAccount (rf_programId config)) (\<lambda>_.
             Inr (claim, parent)))))
    else Inr (claim, session))"

definition accountMeta :: "bytes \<Rightarrow> bool \<Rightarrow> bool \<Rightarrow> AccountMeta" where
  "accountMeta pubkey isSigner isWritable =
     \<lparr>am_pubkey = pubkey, am_isSigner = isSigner, am_isWritable = isWritable\<rparr>"

definition claimInstruction ::
  "web3 \<Rightarrow> ClaimRelayerConfig \<Rightarrow> ClaimEvidence \<Rightarrow> bytes \<Rightarrow> bytes \<Rightarrow> bytes \<Rightarrow> bytes \<times> bytes \<Rightarrow> bytes \<times> bytes \<Rightarrow>
    TransactionInstruction relay" where
  "claimInstruction W config evidence session claim edge edges neighbours =
    (let credential = ce_credential evidence in
    bindE (pda W (rf_programId config) [PROFILE_SEED, pc_payer credential]) (\<lambda>profile.
    bindE (pda W (rf_programId config) [CONFIG_SEED]) (\<lambda>configAccount.
    bindE (bindE (relayerU32 (pc_sequence credential)) (\<lambda>number.
      pda W (rf_programId config) [FORK_SEED, session, pc_previousStateHash credential, number])) (\<lambda>fork.
    bindE (submitClaimData W (ce_payload evidence) (ce_signature evidence)) (\<lambda>bytes.
      Inr \<lparr>ti_programId = rf_programId config,
        ti_keys =
          [accountMeta configAccount False False,
           accountMeta session False True,
           accountMeta profile False True,
           accountMeta (pc_merchant credential) False False,
           accountMeta (rf_relayer config) True True,
           accountMeta claim False True,
           accountMeta edge False True,
           accountMeta (fst edges) False True,
           accountMeta (fst neighbours) False True,
           accountMeta (snd neighbours) False True,
           accountMeta fork False True,
           accountMeta (snd edges) False False,
           accountMeta (SYSVAR_INSTRUCTIONS W) False False,
           accountMeta (SystemProgramId W) False False],
        ti_data = bytes\<rparr>)))))"

definition planRequest :: "lib \<Rightarrow> web3 \<Rightarrow> ClaimRelayerConfig \<Rightarrow> Connection \<Rightarrow> ClaimRelayerRequest \<Rightarrow> PlannedClaim relay" where
  "planRequest L W config connection request =
    bindE (checkDomain W config connection request) (\<lambda>_.
    bindE (checkEvidence L config request) (\<lambda>evidence.
    bindE (deriveAccounts W config request evidence) (\<lambda>(session, claim).
    bindE (cn_getAccountInfo connection 0 claim) (\<lambda>existing.
    bindE (relayIf (existing \<noteq> None) ''CLAIM_ALREADY_EXISTS'' 409) (\<lambda>_.
    bindE (readSession config connection (ce_credential evidence) session) (\<lambda>decodedSession.
    bindE (readClaims W config connection session) (\<lambda>claims.
    bindE (assertClaimList session decodedSession claims) (\<lambda>_.
    let neighbours = claimNeighbours session claims (ce_hash evidence);
        credential = ce_credential evidence
    in
    bindE (edgePda W (rf_programId config) session (pc_previousStateHash credential) (pc_sequence credential)
      (pc_newStateHash credential)) (\<lambda>edge.
    bindE (edgeAccounts W config connection credential session claim edge claims) (\<lambda>edges.
    bindE (claimInstruction W config evidence session claim edge edges neighbours) (\<lambda>instruction.
    bindE (verifierInstruction W) (\<lambda>verifier.
      Inr \<lparr>pl_request = request, pl_claim = claim, pl_instruction = instruction,
        pl_verifierInstruction = verifier\<rparr>))))))))))))"

definition plan :: "lib \<Rightarrow> web3 \<Rightarrow> ClaimRelayerConfig \<Rightarrow> Connection \<Rightarrow> json \<Rightarrow> PlannedClaim relay" where
  "plan L W config connection input = bindE (strictRequest W input) (planRequest L W config connection)"

section \<open>Submitting\<close>

text \<open>The private \<open>#submit\<close>: plan, sign and send both instructions, wait for the confirmation.\<close>

definition submitPlanned ::
  "lib \<Rightarrow> web3 \<Rightarrow> ClaimRelayerConfig \<Rightarrow> Connection \<Rightarrow> ClaimRelayerRequest \<Rightarrow> string relay" where
  "submitPlanned L W config connection request =
    bindE (planRequest L W config connection request) (\<lambda>planned.
    bindE (cn_getLatestBlockhash connection) (\<lambda>latest.
    bindE (cn_sendRawTransaction connection (rf_relayer config) latest
      [pl_verifierInstruction planned, pl_instruction planned]) (\<lambda>transactionSignature.
    bindE (cn_confirmTransaction connection transactionSignature latest) (\<lambda>failed.
    bindE (relayIf failed ''TRANSACTION_FAILED'' 422) (\<lambda>_.
      Inr transactionSignature)))))"

text \<open>
  The public \<open>submit\<close> is synchronous up to its promise. The state is the \<open>#inflight\<close> map from
  credential hashes to operations; an operation is its number in the order of starting.
\<close>

record RelayerState =
  rs_inflight :: "(string \<times> nat) list"
  rs_operations :: "ClaimRelayerRequest list"

definition submit :: "web3 \<Rightarrow> json \<Rightarrow> RelayerState \<Rightarrow> (RelayerState \<times> nat) relay" where
  "submit W input st =
    bindE (strictRequest W input) (\<lambda>request.
    let key = rr_credentialHash request in
    (case map_of (rs_inflight st) key of
       Some existing \<Rightarrow> Inr (st, existing)
     | None \<Rightarrow>
         let operation = length (rs_operations st) in
         Inr (st\<lparr>rs_inflight := AList.update key operation (rs_inflight st),
                rs_operations := rs_operations st @ [request]\<rparr>, operation)))"

text \<open>\<open>finally(() => this.#inflight.delete(key))\<close> when operation \<open>n\<close> ends.\<close>

definition finish :: "nat \<Rightarrow> RelayerState \<Rightarrow> RelayerState" where
  "finish n st = st\<lparr>rs_inflight := AList.delete (rr_credentialHash (rs_operations st ! n)) (rs_inflight st)\<rparr>"

end
