(* ===== verification/ClaimPort.thy ===== *)
theory ClaimPort
  imports MerchantClaims ClaimRelayer
begin

text \<open>
  \<open>apps/merchant-mobile/src/solana-claim-port.ts\<close>: the merchant's port to the chain. It derives the
  claim's addresses from the stored evidence, reads the claim account, sends the request to the
  relayer and polls for the confirmation. The answers of the RPC node and of the relayer are
  arguments, \<open>None\<close> where a promise never settles (no call to the node has a timeout); the clock and
  the answers of the polling loop are functions of the round.
\<close>

section \<open>Addresses and the request\<close>

definition addressOf :: "web3 \<Rightarrow> bytes list \<Rightarrow> bytes \<Rightarrow> bytes result" where
  "addressOf W seeds program = fromLib ''Unable to find a viable program address nonce'' (findProgramAddress W seeds program)"

definition assertProgramId :: "bytes \<Rightarrow> bytes result" where
  "assertProgramId value =
    bindE (failIf (length value \<noteq> 32) ''program ID deve conter exatamente 32 bytes'') (\<lambda>_. Inr value)"

record DerivedClaimAddresses =
  ca_session :: bytes
  ca_claim :: bytes

definition deriveClaimAddresses :: "web3 \<Rightarrow> bytes \<Rightarrow> StoredClaimEvidence \<Rightarrow> DerivedClaimAddresses result" where
  "deriveClaimAddresses W programId evidence =
    bindE (assertProgramId programId) (\<lambda>program.
    bindE (addressOf W [textBytes ''session'', sce_owner evidence, sce_sessionId evidence] program) (\<lambda>session.
    bindE (addressOf W [textBytes ''claim'', session, cm_credentialHash (sce_material evidence)] program) (\<lambda>claim.
      Inr \<lparr>ca_session = session, ca_claim = claim\<rparr>)))"

definition requestFor ::
  "web3 \<Rightarrow> bytes \<Rightarrow> DerivedClaimAddresses \<Rightarrow> StoredClaimEvidence \<Rightarrow> StoredClaimTrust \<Rightarrow> ClaimRelayerRequest" where
  "requestFor W program addresses evidence trust =
    \<lparr>rr_networkId = ev_networkId trust,
     rr_clusterGenesisHash = bytesToHex (ev_clusterGenesisHash trust),
     rr_programId = base58OfPublicKey W program,
     rr_sessionAccount = base58OfPublicKey W (ca_session addresses),
     rr_claimAccount = base58OfPublicKey W (ca_claim addresses),
     rr_merchant = base58OfPublicKey W (sce_merchant evidence),
     rr_credentialPayload = bytesToHex (cm_payload (sce_material evidence)),
     rr_payerSignature = bytesToHex (cm_payerSignature (sce_material evidence)),
     rr_credentialHash = bytesToHex (cm_credentialHash (sce_material evidence))\<rparr>"

text \<open>The properties of the request object, which the relayer receives as JSON.\<close>

definition requestObject :: "ClaimRelayerRequest \<Rightarrow> json" where
  "requestObject rq = JObject
    [(''version'', JNumber 1),
     (''networkId'', JNumber (of_int (rr_networkId rq))),
     (''clusterGenesisHash'', JString (rr_clusterGenesisHash rq)),
     (''programId'', JString (rr_programId rq)),
     (''sessionAccount'', JString (rr_sessionAccount rq)),
     (''claimAccount'', JString (rr_claimAccount rq)),
     (''merchant'', JString (rr_merchant rq)),
     (''credentialPayload'', JString (rr_credentialPayload rq)),
     (''payerSignature'', JString (rr_payerSignature rq)),
     (''credentialHash'', JString (rr_credentialHash rq))]"

section \<open>The port\<close>

record SolanaClaimPortConfig =
  sp_programId :: bytes
  sp_trust :: StoredClaimTrust
  sp_confirmationTimeoutMs :: int

text \<open>The guards of \<open>createSolanaClaimSubmissionPort\<close>\<close>

definition createPort :: "SolanaClaimPortConfig \<Rightarrow> int \<Rightarrow> int \<Rightarrow> bytes result" where
  "createPort config requestTimeoutMs confirmationPollMs =
    bindE (assertProgramId (sp_programId config)) (\<lambda>program.
    bindE (failIf (\<not> equalBytes (sp_programId config) (ev_programId (sp_trust config)))
      ''program ID do RPC diverge do dominio criptografico'') (\<lambda>_.
    bindE (failIf (requestTimeoutMs \<le> 0 \<or> sp_confirmationTimeoutMs config \<le> 0 \<or> confirmationPollMs \<le> 0)
      ''timeouts devem ser positivos'') (\<lambda>_.
      Inr program)))"

text \<open>
  \<open>clusterVerification ??= connection.getGenesisHash().then(...)\<close>: the state is the promise, once it
  exists, with its outcome; the outcome is \<open>None\<close> if it never settles. \<open>answer\<close> is what the node answers if
  it is asked now.
\<close>

type_synonym cluster_verification = "unit result option option"

definition checkedCluster :: "web3 \<Rightarrow> StoredClaimTrust \<Rightarrow> string result \<Rightarrow> unit result" where
  "checkedCluster W trust answer =
    bindE answer (\<lambda>value.
    (case publicKeyOfBase58 W value of
       None \<Rightarrow> Inl (JsError ''genesis hash retornado pelo RPC e invalido'')
     | Some observed \<Rightarrow>
         failIf (\<not> equalBytes observed (ev_clusterGenesisHash trust)) ''RPC pertence a cluster inesperado''))"

definition verifyCluster ::
  "web3 \<Rightarrow> StoredClaimTrust \<Rightarrow> string result option \<Rightarrow> cluster_verification \<Rightarrow> unit result option \<times> cluster_verification" where
  "verifyCluster W trust answer state =
    (case state of
       Some outcome \<Rightarrow> (outcome, state)
     | None \<Rightarrow> let outcome = map_option (checkedCluster W trust) answer in (outcome, Some outcome))"

definition evidenceFor :: "lib \<Rightarrow> web3 \<Rightarrow> SolanaClaimPortConfig \<Rightarrow> StoredClaim \<Rightarrow>
    (StoredClaimEvidence \<times> DerivedClaimAddresses) result" where
  "evidenceFor L W config claim =
    bindE (materializeStoredClaimEvidence L claim (sp_trust config)) (\<lambda>evidence.
    bindE (deriveClaimAddresses W (sp_programId config) evidence) (\<lambda>addresses.
      Inr (evidence, addresses)))"

record AuthoritativeClaimSnapshot =
  cs_confirmed :: bool
  cs_credentialHash :: string
  cs_sessionId :: string
  cs_amount :: string
  cs_status :: ClaimStatus
  cs_confirmedSlot :: string
  cs_transactionSignature :: "string option"

text \<open>\<open>lookupConfirmedClaim\<close> once the cluster is verified\<close>

definition lookupClaim ::
  "lib \<Rightarrow> web3 \<Rightarrow> SolanaClaimPortConfig \<Rightarrow> (bytes \<Rightarrow> (AccountInfo option \<times> nat) result) \<Rightarrow> StoredClaim \<Rightarrow>
    AuthoritativeClaimSnapshot option result" where
  "lookupClaim L W config getAccountInfoAndContext claim =
    bindE (evidenceFor L W config claim) (\<lambda>(evidence, addresses).
    bindE (getAccountInfoAndContext (ca_claim addresses)) (\<lambda>(value, slot).
    (case value of
       None \<Rightarrow> Inr None
     | Some account \<Rightarrow>
         bindE (failIf (ac_owner account \<noteq> sp_programId config) ''conta Claim pertence a program ID inesperado'') (\<lambda>_.
         bindE (decodeClaim (ac_data account)) (\<lambda>decoded.
         bindE (failIf (\<not> equalBytes (dc_session decoded) (ca_session addresses)) ''PDA de sessao do claim on-chain divergente'') (\<lambda>_.
         bindE (failIf (\<not> equalBytes (dc_credentialHash decoded) (cm_credentialHash (sce_material evidence)))
           ''credential hash on-chain divergente'') (\<lambda>_.
         bindE (failIf (\<not> equalBytes (dc_merchant decoded) (sce_merchant evidence)) ''merchant on-chain divergente'') (\<lambda>_.
         bindE (failIf (dc_amount decoded \<noteq> sce_amount evidence) ''valor do claim on-chain divergente'') (\<lambda>_.
           Inr (Some \<lparr>cs_confirmed = True, cs_credentialHash = st_credentialHash claim, cs_sessionId = st_sessionId claim,
             cs_amount = st_amount claim, cs_status = dc_status decoded, cs_confirmedSlot = natDecimal slot,
             cs_transactionSignature = None\<rparr>))))))))))"

text \<open>\<open>SOLANA_SIGNATURE\<close>\<close>

definition base58Char :: "char \<Rightarrow> bool" where
  "base58Char c \<longleftrightarrow> c \<in> set ''123456789ABCDEFGHJKLMNPQRSTUVWXYZabcdefghijkmnopqrstuvwxyz''"

definition isSolanaSignature :: "string \<Rightarrow> bool" where
  "isSolanaSignature text \<longleftrightarrow> 64 \<le> length text \<and> length text \<le> 96 \<and> list_all base58Char text"

text \<open>\<open>submitClaim\<close> once the cluster is verified; \<open>relayer\<close> is the remote \<open>submit\<close>.\<close>

definition submitStoredClaim ::
  "lib \<Rightarrow> web3 \<Rightarrow> SolanaClaimPortConfig \<Rightarrow> (ClaimRelayerRequest \<Rightarrow> string result) \<Rightarrow> StoredClaim \<Rightarrow> string result" where
  "submitStoredClaim L W config relayer claim =
    bindE (evidenceFor L W config claim) (\<lambda>(evidence, addresses).
    bindE (relayer (requestFor W (sp_programId config) addresses evidence (sp_trust config))) (\<lambda>transactionSignature.
    bindE (failIf (\<not> isSolanaSignature transactionSignature) ''assinatura retornada pelo relayer e invalida'') (\<lambda>_.
      Inr transactionSignature)))"

text \<open>
  \<open>getSignatureStatuses\<close> in one round: \<open>None\<close> is no status; otherwise whether the transaction
  failed, and its confirmation status.
\<close>

record SignatureStatus =
  ss_failed :: bool
  ss_confirmationStatus :: "string option"

text \<open>
  The polling loop: \<open>clock\<close> gives \<open>Date.now()\<close> at the head of each round, \<open>statuses\<close> the answer to its
  request. It does not return if an answer never comes, nor if the clock never passes the deadline, so
  it is a partial function.
\<close>

partial_function (option) pollConfirmation ::
  "(nat \<Rightarrow> int) \<Rightarrow> (nat \<Rightarrow> SignatureStatus option result option) \<Rightarrow> int \<Rightarrow> nat \<Rightarrow> unit result option" where
  "pollConfirmation clock statuses deadline poll =
    (if clock poll \<le> deadline then
       (case statuses poll of
          None \<Rightarrow> None
        | Some (Inl e) \<Rightarrow> Some (Inl e)
        | Some (Inr status) \<Rightarrow>
            if (case status of None \<Rightarrow> False | Some s \<Rightarrow> ss_failed s) then
              Some (Inl (JsError ''transacao do claim falhou on-chain''))
            else if (case status of None \<Rightarrow> False | Some s \<Rightarrow>
                ss_confirmationStatus s = Some ''confirmed'' \<or> ss_confirmationStatus s = Some ''finalized'') then
              Some (Inr ())
            else pollConfirmation clock statuses deadline (Suc poll))
     else Some (Inl (JsError ''tempo limite aguardando confirmacao do claim'')))"

definition confirmTransaction ::
  "(nat \<Rightarrow> int) \<Rightarrow> (nat \<Rightarrow> SignatureStatus option result option) \<Rightarrow> int \<Rightarrow> int \<Rightarrow> string \<Rightarrow> unit result option" where
  "confirmTransaction clock statuses now confirmationTimeoutMs transactionSignature =
    (if \<not> isSolanaSignature transactionSignature then Some (Inl (JsError ''assinatura de transacao invalida''))
     else pollConfirmation clock statuses (now + confirmationTimeoutMs) 0)"

end
