(* ===== verification/RelayerFacts.thy ===== *)
theory RelayerFacts
  imports ClaimRelayer SdkTheorems
begin

text \<open>
  Facts about the claim relayer: the list check as a predicate on doubly linked lists, the place
  of a new claim in it, and the list insertion of the on-chain program
  (\<open>insert_claim_in_order\<close> of \<open>src/programs/offline-guarantee/src/lib.rs\<close>) as the specification
  the chosen neighbours have to meet.
\<close>

named_theorems relay_simps \<open>inversion of the relayer's guards\<close>

lemma relayIf_iff [simp, relay_simps]: "relayIf b code status = Inr u \<longleftrightarrow> \<not> b"
  by (simp add: relayIf_def)

lemma pass_iff [simp, relay_simps]: "pass r = Inr x \<longleftrightarrow> r = Inr x"
  by (cases r) (simp_all add: pass_def)

lemma case_error_iff: "(case r of Inl _ \<Rightarrow> Inl e | Inr x \<Rightarrow> f x) = Inr y \<longleftrightarrow> (\<exists>x. r = Inr x \<and> f x = Inr y)"
  by (cases r) auto

lemma exactHex_iff: "exactHex v n = Inr bs \<longleftrightarrow> v = Some (JString (bytesToHex bs)) \<and> length bs = n"
proof
  assume "exactHex v n = Inr bs"
  then obtain s where s: "v = Some (JString s)" "isHex n s" "bs = hexPairs s"
    by (auto simp: exactHex_def split: option.splits json.splits if_splits)
  then have "bytesToHex bs = s" by (simp add: isHex_def bytesToHex_hexPairs)
  with s show "v = Some (JString (bytesToHex bs)) \<and> length bs = n"
    by (metis isHex_def length_bytesToHex mult_cancel1 zero_neq_numeral)
next
  assume "v = Some (JString (bytesToHex bs)) \<and> length bs = n"
  then show "exactHex v n = Inr bs"
    by (simp add: exactHex_def isHex_def hexPairs_bytesToHex bytesToHex_digits del: list.set)
qed

lemma exactPublicKey_iff:
  "exactPublicKey W v = Inr k \<longleftrightarrow> v = Some (JString (base58OfPublicKey W k)) \<and> publicKeyOfBase58 W (base58OfPublicKey W k) = Some k"
proof
  assume "exactPublicKey W v = Inr k"
  then obtain s where s: "v = Some (JString s)" "publicKeyOfBase58 W s = Some k" "base58OfPublicKey W k = s"
    by (auto simp: exactPublicKey_def split: option.splits json.splits if_splits)
  then show "v = Some (JString (base58OfPublicKey W k)) \<and> publicKeyOfBase58 W (base58OfPublicKey W k) = Some k" by simp
qed (simp add: exactPublicKey_def)

lemma accountData_iff: "accountData a p = Inr bs \<longleftrightarrow> (\<exists>info. a = Some info \<and> ac_owner info = p \<and> ac_data info = bs)"
  by (cases a) (auto simp: accountData_def)

lemma pda_iff: "pda W p seeds = Inr a \<longleftrightarrow> findProgramAddress W seeds p = Some a"
  by (simp add: pda_def)

lemma bufferCompare_less: "bufferCompare x y < 0 \<longleftrightarrow> x < y"
  by (simp add: bufferCompare_def)

lemma bufferCompare_nonneg: "0 \<le> bufferCompare x y \<longleftrightarrow> \<not> x < y"
  by (simp add: bufferCompare_def)

interpretation claim_order: comparator bufferCompare
  by unfold_locales (auto simp: bufferCompare_def split: if_splits)

section \<open>Linked lists of claims\<close>

text \<open>\<open>linked s p es q\<close>: a segment that begins after \<open>p\<close> and ends before \<open>q\<close>.\<close>

fun linked :: "bytes \<Rightarrow> bytes \<Rightarrow> ListedClaim list \<Rightarrow> bytes \<Rightarrow> bool" where
  "linked s p [] q \<longleftrightarrow> True"
| "linked s p (e # es) q \<longleftrightarrow> dc_session (lc_value e) = s \<and> dc_previousClaim (lc_value e) = p \<and>
     dc_nextClaim (lc_value e) = (if es = [] then q else lc_address (hd es)) \<and> linked s (lc_address e) es q"

lemma linked_append:
  "linked s p (es @ fs) q \<longleftrightarrow> linked s p es (if fs = [] then q else lc_address (hd fs)) \<and>
     linked s (if es = [] then p else lc_address (last es)) fs q"
  by (induction es arbitrary: p) (auto simp: hd_append)

lemma linked_nth:
  "linked s p es q \<longleftrightarrow> (\<forall>i < length es. dc_session (lc_value (es ! i)) = s \<and>
     dc_previousClaim (lc_value (es ! i)) = (if i = 0 then p else lc_address (es ! (i - 1))) \<and>
     dc_nextClaim (lc_value (es ! i)) = (if i = length es - 1 then q else lc_address (es ! (i + 1))))"
proof (induction es arbitrary: p)
  case (Cons e es)
  show ?case unfolding linked.simps Cons.IH length_Cons All_less_Suc2
    by (cases es) (auto simp: nth_Cons')
qed simp

abbreviation claimHash :: "ListedClaim \<Rightarrow> bytes" where
  "claimHash e \<equiv> dc_credentialHash (lc_value e)"

lemma sorted_adjacent:
  "sorted_wrt (<) (map claimHash es) \<longleftrightarrow> (\<forall>i < length es. 0 < i \<longrightarrow> claimHash (es ! (i - 1)) < claimHash (es ! i))"
proof -
  have "(\<forall>i. Suc i < length es \<longrightarrow> claimHash (es ! i) < claimHash (es ! Suc i)) \<longleftrightarrow>
    (\<forall>i < length es. 0 < i \<longrightarrow> claimHash (es ! (i - 1)) < claimHash (es ! i))"
    by (metis Suc_pred diff_Suc_1 zero_less_Suc)
  then show ?thesis by (simp add: sorted_wrt_iff_nth_Suc_transp)
qed

lemma assertClaimList_iff:
  "assertClaimList s session es = Inr u \<longleftrightarrow>
     int (length es) = os_submittedClaimCount session \<and>
     (if es = [] then os_claimHead session = ZERO \<and> os_claimTail session = ZERO
      else lc_address (hd es) = os_claimHead session \<and> lc_address (last es) = os_claimTail session) \<and>
     linked s ZERO es ZERO \<and> sorted_wrt (<) (map claimHash es)"
proof -
  have "set (enumerate 0 es) = (\<lambda>i. (i, es ! i)) ` {..<length es}"
    by (auto simp: in_set_enumerate_eq image_iff)
  then have "runE (map (\<lambda>(index, entry). claimLinks s es index entry) (enumerate 0 es)) = Inr () \<longleftrightarrow>
    (\<forall>i < length es. claimLinks s es i (es ! i) = Inr ())"
    by (auto simp: runE_Inr_iff)
  also have "\<dots> \<longleftrightarrow> linked s ZERO es ZERO \<and> sorted_wrt (<) (map claimHash es)"
    unfolding linked_nth sorted_adjacent claimLinks_def bindE_Inr_iff Let_def relayIf_iff bufferCompare_nonneg equalBytes_eq
    by (simp only: not_not de_Morgan_conj de_Morgan_disj ex_simps simp_thms)
      (simp only: disj_not1 imp_conjR all_conj_distrib conj_assoc)
  finally have links: "runE (map (\<lambda>(index, entry). claimLinks s es index entry) (enumerate 0 es)) = Inr () \<longleftrightarrow>
    linked s ZERO es ZERO \<and> sorted_wrt (<) (map claimHash es)" .
  show ?thesis
  proof (cases "es = []")
    case True
    then show ?thesis by (simp add: assertClaimList_def bindE_Inr_iff)
  next
    case False
    then show ?thesis by (simp add: assertClaimList_def bindE_Inr_iff links)
  qed
qed

section \<open>The place of a new claim\<close>

lemma findIndex_Some: "findIndex P xs = Some i \<Longrightarrow> i < length xs \<and> P (xs ! i) \<and> (\<forall>x \<in> set (take i xs). \<not> P x)"
  by (induction xs arbitrary: i) (auto split: if_splits)

lemma findIndex_None: "findIndex P xs = None \<Longrightarrow> \<forall>x \<in> set xs. \<not> P x"
  by (induction xs) (auto split: if_splits)

text \<open>
  The neighbours split the list: the hashes before are smaller, those after larger.
\<close>

lemma claimNeighbours_split:
  assumes "sorted_wrt (<) (map claimHash es)" "h \<notin> claimHash ` set es"
  obtains xs ys where "es = xs @ ys" "list_all (\<lambda>e. claimHash e < h) xs" "list_all (\<lambda>e. h < claimHash e) ys"
    "claimNeighbours s es h = (if xs = [] then s else lc_address (last xs), if ys = [] then s else lc_address (hd ys))"
proof (cases "findIndex (\<lambda>e. bufferCompare h (claimHash e) < 0) es")
  case None
  then have "\<forall>e \<in> set es. \<not> h < claimHash e" by (auto dest: findIndex_None simp: bufferCompare_less)
  with assms(2) have "list_all (\<lambda>e. claimHash e < h) es" by (force simp: list_all_iff)
  with None show ?thesis by (intro that [of es "[]"]) (auto simp: claimNeighbours_def)
next
  case (Some i)
  then have i: "i < length es" "h < claimHash (es ! i)" "\<forall>e \<in> set (take i es). \<not> h < claimHash e"
    using findIndex_Some [OF Some] by (simp_all add: bufferCompare_less)
  have before: "list_all (\<lambda>e. claimHash e < h) (take i es)"
    using i(3) assms(2) by (force simp: list_all_iff dest: in_set_takeD)
  have "drop i es = es ! i # drop (Suc i) es" using i(1) by (simp add: Cons_nth_drop_Suc)
  moreover have "sorted_wrt (<) (map claimHash (drop i es))"
    using assms(1) by (simp add: sorted_wrt_drop flip: drop_map)
  ultimately have after: "list_all (\<lambda>e. h < claimHash e) (drop i es)"
    using i(2) by (auto simp: list_all_iff)
  have "last (take i es) = es ! (i - 1)" if "i \<noteq> 0"
    using i(1) that by (subst last_conv_nth) auto
  then show ?thesis
    using i(1) Some before after by (intro that [of "take i es" "drop i es"]) (auto simp: claimNeighbours_def hd_drop_conv_nth)
qed

section \<open>The insertion of the on-chain program\<close>

text \<open>
  \<open>insert_claim_in_order\<close>: the accounts are a map from addresses to claims; the claim to insert
  is already among them. \<open>None\<close> is any of its errors.
\<close>

definition insertClaimInOrder ::
  "bytes \<Rightarrow> DecodedOfflineSession \<Rightarrow> (bytes \<Rightarrow> DecodedClaim option) \<Rightarrow> bytes \<Rightarrow> bytes \<Rightarrow> bytes \<Rightarrow>
    (DecodedOfflineSession \<times> (bytes \<Rightarrow> DecodedClaim option)) option" where
  "insertClaimInOrder s session accounts claimKey predecessorKey successorKey =
    Option.bind (accounts claimKey) (\<lambda>claim.
    if dc_session claim \<noteq> s \<or> dc_previousClaim claim \<noteq> ZERO \<or> dc_nextClaim claim \<noteq> ZERO then None
    else Option.bind
      (if os_submittedClaimCount session = 0 \<and> os_claimHead session = ZERO then
         if predecessorKey \<noteq> s \<or> successorKey \<noteq> s then None
         else Some (session\<lparr>os_claimHead := claimKey, os_claimTail := claimKey\<rparr>, accounts, claim)
       else if predecessorKey = s \<and> successorKey = s then None
       else if predecessorKey = s then
         if successorKey \<noteq> os_claimHead session then None
         else Option.bind (accounts successorKey) (\<lambda>successor.
           if dc_session successor \<noteq> s \<or> dc_previousClaim successor \<noteq> ZERO \<or>
              \<not> dc_credentialHash claim < dc_credentialHash successor then None
           else Some (session\<lparr>os_claimHead := claimKey\<rparr>,
             accounts(successorKey \<mapsto> successor\<lparr>dc_previousClaim := claimKey\<rparr>),
             claim\<lparr>dc_nextClaim := successorKey\<rparr>))
       else if successorKey = s then
         if predecessorKey \<noteq> os_claimTail session then None
         else Option.bind (accounts predecessorKey) (\<lambda>predecessor.
           if dc_session predecessor \<noteq> s \<or> dc_nextClaim predecessor \<noteq> ZERO \<or>
              \<not> dc_credentialHash predecessor < dc_credentialHash claim then None
           else Some (session\<lparr>os_claimTail := claimKey\<rparr>,
             accounts(predecessorKey \<mapsto> predecessor\<lparr>dc_nextClaim := claimKey\<rparr>),
             claim\<lparr>dc_previousClaim := predecessorKey\<rparr>))
       else
         Option.bind (accounts predecessorKey) (\<lambda>predecessor.
         Option.bind (accounts successorKey) (\<lambda>successor.
           if dc_session predecessor \<noteq> s \<or> dc_session successor \<noteq> s \<or>
              dc_nextClaim predecessor \<noteq> successorKey \<or> dc_previousClaim successor \<noteq> predecessorKey \<or>
              \<not> dc_credentialHash predecessor < dc_credentialHash claim \<or>
              \<not> dc_credentialHash claim < dc_credentialHash successor then None
           else Some (session,
             accounts(predecessorKey \<mapsto> predecessor\<lparr>dc_nextClaim := claimKey\<rparr>,
               successorKey \<mapsto> successor\<lparr>dc_previousClaim := claimKey\<rparr>),
             claim\<lparr>dc_previousClaim := predecessorKey, dc_nextClaim := successorKey\<rparr>))))
      (\<lambda>(session, accounts, claim).
        if os_submittedClaimCount session + 1 > U64_MAX then None
        else Some (session\<lparr>os_submittedClaimCount := os_submittedClaimCount session + 1\<rparr>, accounts(claimKey \<mapsto> claim))))"

text \<open>Relinking the end or the beginning of a segment.\<close>

definition setNext :: "bytes \<Rightarrow> ListedClaim \<Rightarrow> ListedClaim" where
  "setNext q e = e\<lparr>lc_value := (lc_value e)\<lparr>dc_nextClaim := q\<rparr>\<rparr>"

definition setPrevious :: "bytes \<Rightarrow> ListedClaim \<Rightarrow> ListedClaim" where
  "setPrevious p e = e\<lparr>lc_value := (lc_value e)\<lparr>dc_previousClaim := p\<rparr>\<rparr>"

lemma set_links [simp]: "lc_address (setNext q e) = lc_address e" "lc_address (setPrevious p e) = lc_address e"
  "claimHash (setNext q e) = claimHash e" "claimHash (setPrevious p e) = claimHash e"
  by (simp_all add: setNext_def setPrevious_def)

lemma linked_last: "linked s p (es @ [e]) q \<Longrightarrow> linked s p (es @ [setNext q' e]) q'"
  by (simp add: linked_append setNext_def)

lemma linked_first: "linked s p (e # es) q \<Longrightarrow> linked s p' (setPrevious p' e # es) q"
  by (simp add: setPrevious_def)

text \<open>\<open>holds accounts es\<close>: the accounts hold the claims of the list.\<close>

definition holds :: "(bytes \<Rightarrow> DecodedClaim option) \<Rightarrow> ListedClaim list \<Rightarrow> bool" where
  "holds accounts es \<longleftrightarrow> list_all (\<lambda>e. accounts (lc_address e) = Some (lc_value e)) es"

lemma holds_update: "holds accounts es \<Longrightarrow> a \<notin> lc_address ` set es \<Longrightarrow> holds (accounts(a \<mapsto> v)) es"
  by (auto simp: holds_def list_all_iff)

lemma holds_simps [simp]: "holds accounts []" "holds accounts (e # es) \<longleftrightarrow> accounts (lc_address e) = Some (lc_value e) \<and> holds accounts es"
  "holds accounts (es @ fs) \<longleftrightarrow> holds accounts es \<and> holds accounts fs"
  by (auto simp: holds_def)

lemma insert_between:
  assumes ok: "assertClaimList s session (xs @ ys) = Inr ()"
    and acc: "holds accounts (xs @ ys)" "accounts k = Some v"
    and new: "dc_session v = s" "dc_previousClaim v = ZERO" "dc_nextClaim v = ZERO"
    and order: "list_all (\<lambda>e. claimHash e < dc_credentialHash v) xs" "list_all (\<lambda>e. dc_credentialHash v < claimHash e) ys"
    and fresh: "distinct (s # ZERO # k # map lc_address (xs @ ys))" "os_submittedClaimCount session < U64_MAX"
  shows "\<exists>session' accounts' es. insertClaimInOrder s session accounts k
      (if xs = [] then s else lc_address (last xs)) (if ys = [] then s else lc_address (hd ys)) = Some (session', accounts') \<and>
    assertClaimList s session' es = Inr () \<and> holds accounts' es \<and>
    map lc_address es = map lc_address xs @ k # map lc_address ys"
proof (cases xs rule: rev_cases)
  case Nil
  show ?thesis
  proof (cases ys)
    case Nil
    with ok acc new fresh \<open>xs = []\<close> show ?thesis
      by (intro exI [of _ "session\<lparr>os_claimHead := k, os_claimTail := k, os_submittedClaimCount := 1\<rparr>"]
          exI [of _ "accounts(k \<mapsto> v)"] exI [of _ "[\<lparr>lc_address = k, lc_value = v\<rparr>]"])
        (simp add: assertClaimList_iff insertClaimInOrder_def)
  next
    case (Cons y ys')
    with ok acc new fresh order \<open>xs = []\<close> show ?thesis
      by (intro exI [of _ "session\<lparr>os_claimHead := k, os_submittedClaimCount := os_submittedClaimCount session + 1\<rparr>"]
          exI [of _ "accounts(lc_address y \<mapsto> (lc_value y)\<lparr>dc_previousClaim := k\<rparr>, k \<mapsto> v\<lparr>dc_nextClaim := lc_address y\<rparr>)"]
          exI [of _ "\<lparr>lc_address = k, lc_value = v\<lparr>dc_nextClaim := lc_address y\<rparr>\<rparr> # setPrevious k y # ys'"])
        (auto simp: assertClaimList_iff insertClaimInOrder_def holds_update list_all_iff setPrevious_def)
  qed
next
  case (snoc xs' x)
  show ?thesis
  proof (cases ys)
    case Nil
    with ok acc new fresh order snoc show ?thesis
      by (intro exI [of _ "session\<lparr>os_claimTail := k, os_submittedClaimCount := os_submittedClaimCount session + 1\<rparr>"]
          exI [of _ "accounts(lc_address x \<mapsto> (lc_value x)\<lparr>dc_nextClaim := k\<rparr>, k \<mapsto> v\<lparr>dc_previousClaim := lc_address x\<rparr>)"]
          exI [of _ "xs' @ [setNext k x, \<lparr>lc_address = k, lc_value = v\<lparr>dc_previousClaim := lc_address x\<rparr>\<rparr>]"])
        (auto simp: assertClaimList_iff insertClaimInOrder_def holds_update list_all_iff setNext_def linked_append sorted_wrt_append hd_append)
  next
    case (Cons y ys')
    define v' where "v' = v\<lparr>dc_previousClaim := lc_address x, dc_nextClaim := lc_address y\<rparr>"
    have links: "linked s ZERO xs' (lc_address x)" "dc_session (lc_value x) = s" "dc_nextClaim (lc_value x) = lc_address y"
      "dc_previousClaim (lc_value x) = (if xs' = [] then ZERO else lc_address (last xs'))"
      "dc_session (lc_value y) = s" "dc_previousClaim (lc_value y) = lc_address x"
      "dc_nextClaim (lc_value y) = (if ys' = [] then ZERO else lc_address (hd ys'))" "linked s (lc_address y) ys' ZERO"
      using ok unfolding snoc Cons assertClaimList_iff by (simp_all add: linked_append)
    have neq: "lc_address x \<noteq> s" "lc_address y \<noteq> s" "lc_address x \<noteq> lc_address y" "lc_address x \<noteq> k" "lc_address y \<noteq> k"
      "lc_address x \<notin> lc_address ` set xs'" "lc_address x \<notin> lc_address ` set ys'" "lc_address y \<notin> lc_address ` set xs'"
      "lc_address y \<notin> lc_address ` set ys'" "k \<notin> lc_address ` set xs'" "k \<notin> lc_address ` set ys'"
      using fresh(1) by (auto simp: snoc Cons)
    have size: "os_submittedClaimCount session \<noteq> 0" using ok by (auto simp: snoc Cons assertClaimList_iff)
    let ?a = "accounts(lc_address x \<mapsto> (lc_value x)\<lparr>dc_nextClaim := k\<rparr>, lc_address y \<mapsto> (lc_value y)\<lparr>dc_previousClaim := k\<rparr>, k \<mapsto> v')"
    let ?s = "session\<lparr>os_submittedClaimCount := os_submittedClaimCount session + 1\<rparr>"
    let ?es = "xs' @ [setNext k x, \<lparr>lc_address = k, lc_value = v'\<rparr>, setPrevious k y] @ ys'"
    have "insertClaimInOrder s session accounts k (if xs = [] then s else lc_address (last xs))
        (if ys = [] then s else lc_address (hd ys)) = Some (?s, ?a)"
      using acc new order fresh(2) links size neq by (simp add: insertClaimInOrder_def snoc Cons v'_def)
    moreover have "assertClaimList s ?s ?es = Inr ()"
      unfolding assertClaimList_iff
    proof (intro conjI)
      show "linked s ZERO ?es ZERO"
        using links new by (simp add: linked_append setNext_def setPrevious_def v'_def)
      show "sorted_wrt (<) (map claimHash ?es)"
        using ok order by (auto simp: assertClaimList_iff snoc Cons sorted_wrt_append list_all_iff v'_def)
    qed (use ok in \<open>auto simp: assertClaimList_iff snoc Cons hd_append\<close>)
    moreover have "holds ?a ?es"
      using acc neq by (simp add: snoc Cons holds_update setNext_def setPrevious_def)
    ultimately show ?thesis
      by (intro exI [of _ ?s] exI [of _ ?a] exI [of _ ?es]) (simp add: snoc Cons)
  qed
qed

section \<open>The steps of a plan\<close>

lemma checkEvidence_iff:
  "checkEvidence L config rq = Inr ev \<longleftrightarrow>
     rr_credentialPayload rq = bytesToHex (ce_payload ev) \<and> length (ce_payload ev) = 410 \<and>
     rr_payerSignature rq = bytesToHex (ce_signature ev) \<and> length (ce_signature ev) = 64 \<and>
     rr_credentialHash rq = bytesToHex (ce_hash ev) \<and> length (ce_hash ev) = 32 \<and>
     ce_hash ev = hashSha256 L (ce_payload ev @ ce_signature ev) \<and>
     decodePaymentCredential L (ce_payload ev @ ce_signature ev) = Inr (ce_credential ev) \<and>
     verifyEd25519 L (ce_signature ev) (ce_payload ev) (pc_payerDeviceKey (ce_credential ev)) \<and>
     dm_networkId (pc_domain (ce_credential ev)) = rf_networkId config \<and>
     dm_clusterGenesisHash (pc_domain (ce_credential ev)) = rf_clusterGenesisHash config \<and>
     dm_programId (pc_domain (ce_credential ev)) = rf_programId config \<and>
     dm_sessionId (pc_domain (ce_credential ev)) = pc_sessionId (ce_credential ev)"
  by (cases ev) (auto simp: checkEvidence_def bindE_Inr_iff exactHex_iff Let_def PAYMENT_PAYLOAD_SIZE_def SIGNATURE_SIZE_def
      case_error_iff)

lemma deriveAccounts_iff:
  "deriveAccounts W config rq ev = Inr (session, claim) \<longleftrightarrow>
     findProgramAddress W [SESSION_SEED, pc_payer (ce_credential ev), pc_sessionId (ce_credential ev)] (rf_programId config) = Some session \<and>
     findProgramAddress W [CLAIM_SEED, session, ce_hash ev] (rf_programId config) = Some claim \<and>
     exactPublicKey W (Some (JString (rr_sessionAccount rq))) = Inr session \<and>
     exactPublicKey W (Some (JString (rr_claimAccount rq))) = Inr claim \<and>
     exactPublicKey W (Some (JString (rr_merchant rq))) = Inr (pc_merchant (ce_credential ev))"
  by (auto simp: deriveAccounts_def Let_def bindE_Inr_iff claimPda_def pda_iff split: if_splits)

lemma planRequest_iff:
  "planRequest L W config cn rq = Inr p \<longleftrightarrow> (\<exists>ev session decoded claims edge edges.
     checkDomain W config cn rq = Inr () \<and> checkEvidence L config rq = Inr ev \<and>
     deriveAccounts W config rq ev = Inr (session, pl_claim p) \<and>
     cn_getAccountInfo cn 0 (pl_claim p) = Inr None \<and>
     readSession config cn (ce_credential ev) session = Inr decoded \<and>
     readClaims W config cn session = Inr claims \<and> assertClaimList session decoded claims = Inr () \<and>
     edgePda W (rf_programId config) session (pc_previousStateHash (ce_credential ev)) (pc_sequence (ce_credential ev))
       (pc_newStateHash (ce_credential ev)) = Inr edge \<and>
     edgeAccounts W config cn (ce_credential ev) session (pl_claim p) edge claims = Inr edges \<and>
     claimInstruction W config ev session (pl_claim p) edge edges (claimNeighbours session claims (ce_hash ev)) = Inr (pl_instruction p) \<and>
     verifierInstruction W = Inr (pl_verifierInstruction p) \<and> pl_request p = rq)"
  by (cases p) (auto simp: planRequest_def bindE_Inr_iff Let_def intro!: exI)

lemma readSession_iff:
  "readSession config cn c session = Inr decoded \<longleftrightarrow> (\<exists>info. cn_getAccountInfo cn 1 session = Inr (Some info) \<and>
     ac_owner info = rf_programId config \<and> decodeOfflineSession (ac_data info) = Inr decoded \<and>
     os_sessionId decoded = pc_sessionId c \<and> os_owner decoded = pc_payer c \<and> os_devicePublicKey decoded = pc_payerDeviceKey c)"
  by (auto simp: readSession_def bindE_Inr_iff accountData_iff)

text \<open>
  What the relayer relies on in \<open>@solana/web3.js\<close> and \<open>node:crypto\<close>: the text of a public key reads
  back, a program address that is found has 32 bytes (whether one is found is not assumed), a SHA-256 hash
  has 32 bytes, and the literal name of the signature program is a key.
\<close>

definition web3_ok :: "web3 \<Rightarrow> bool" where
  "web3_ok W \<longleftrightarrow>
     (\<forall>k. length k = 32 \<longrightarrow> publicKeyOfBase58 W (base58OfPublicKey W k) = Some k) \<and>
     (\<forall>seeds p a. findProgramAddress W seeds p = Some a \<longrightarrow> length a = 32) \<and>
     (\<forall>m. length (createHashSha256 W m) = 32) \<and>
     publicKeyOfBase58 W ''Ed25519SigVerify111111111111111111111111111'' \<noteq> None"

lemma web3_address: "web3_ok W \<Longrightarrow> findProgramAddress W seeds p = Some a \<Longrightarrow> length a = 32"
  unfolding web3_ok_def by blast

lemma web3_key: "web3_ok W \<Longrightarrow> length k = 32 \<Longrightarrow> exactPublicKey W (Some (JString (base58OfPublicKey W k))) = Inr k"
  by (simp add: web3_ok_def exactPublicKey_iff)

lemma relayerU32_iff: "relayerU32 n = Inr bs \<longleftrightarrow> 0 \<le> n \<and> n \<le> U32_MAX \<and> bs = leBytes 4 n"
  by (auto simp: relayerU32_def)

lemma submitClaimData_iff:
  assumes "length payload = 410"
  shows "submitClaimData W payload signature = Inr d \<longleftrightarrow>
    d = take 8 (createHashSha256 W (textBytes ''global:submit_claim'')) @ leBytes 4 410 @ payload @ signature"
  using assms by (auto simp: submitClaimData_def bindE_Inr_iff relayerU32_iff U32_MAX_def)

text \<open>
  The accounts of a claim's instruction that are derived from the credential: the profile of the
  payer, the configuration and the fork of the parent state.
\<close>

definition accountsFound :: "web3 \<Rightarrow> bytes \<Rightarrow> PaymentCredential \<Rightarrow> bytes \<Rightarrow> bool" where
  "accountsFound W program c session \<longleftrightarrow> findProgramAddress W [PROFILE_SEED, pc_payer c] program \<noteq> None \<and>
     findProgramAddress W [CONFIG_SEED] program \<noteq> None \<and>
     findProgramAddress W [FORK_SEED, session, pc_previousStateHash c, leBytes 4 (pc_sequence c)] program \<noteq> None"

lemma claimInstruction_ok:
  assumes "accountsFound W (rf_programId config) (ce_credential ev) session" "length (ce_payload ev) = 410" "0 \<le> pc_sequence (ce_credential ev)" "pc_sequence (ce_credential ev) \<le> U32_MAX"
  shows "\<exists>i. claimInstruction W config ev session claim edge edges neighbours = Inr i"
proof -
  obtain profile where p: "findProgramAddress W [PROFILE_SEED, pc_payer (ce_credential ev)] (rf_programId config) = Some profile"
    using assms(1) by (auto simp: accountsFound_def)
  obtain cf where c: "findProgramAddress W [CONFIG_SEED] (rf_programId config) = Some cf"
    using assms(1) by (auto simp: accountsFound_def)
  obtain fork where f: "findProgramAddress W [FORK_SEED, session, pc_previousStateHash (ce_credential ev),
      leBytes 4 (pc_sequence (ce_credential ev))] (rf_programId config) = Some fork"
    using assms(1) by (auto simp: accountsFound_def)
  have n: "relayerU32 (pc_sequence (ce_credential ev)) = Inr (leBytes 4 (pc_sequence (ce_credential ev)))"
    using assms by (simp add: relayerU32_iff)
  obtain d where d: "submitClaimData W (ce_payload ev) (ce_signature ev) = Inr d"
    using submitClaimData_iff [OF assms(2)] by blast
  show ?thesis
    by (simp add: claimInstruction_def Let_def n d pda_iff [THEN iffD2, OF p] pda_iff [THEN iffD2, OF c] pda_iff [THEN iffD2, OF f])
qed

text \<open>The edge of the credential is new and it is the first of its branch, or its parent is listed.\<close>

definition parentKnown ::
  "web3 \<Rightarrow> ClaimRelayerConfig \<Rightarrow> Connection \<Rightarrow> PaymentCredential \<Rightarrow> bytes \<Rightarrow> ListedClaim list \<Rightarrow> bool" where
  "parentKnown W config cn c session claims \<longleftrightarrow>
     pc_sequence c = 1 \<or>
     (\<exists>e parent info. find (\<lambda>e. dc_sequence (lc_value e) = pc_sequence c - 1 \<and>
         dc_newStateHash (lc_value e) = pc_previousStateHash c) claims = Some e \<and>
       edgePda W (rf_programId config) session (dc_previousStateHash (lc_value e)) (dc_sequence (lc_value e))
         (dc_newStateHash (lc_value e)) = Inr parent \<and>
       cn_getAccountInfo cn 3 parent = Inr (Some info) \<and> ac_owner info = rf_programId config)"

lemma edgeAccounts_first:
  assumes "cn_getAccountInfo cn 2 edge = Inr None" "parentKnown W config cn c session claims"
  shows "\<exists>parent. edgeAccounts W config cn c session claim edge claims = Inr (claim, parent)"
  using assms by (auto simp: edgeAccounts_def parentKnown_def accountData_def)

end
