(* ===== verification/MerchantFacts.thy ===== *)
theory MerchantFacts
  imports ClaimPort RelayerFacts TransportFacts
begin

text \<open>
  Facts about the merchant's side of a claim: what the evidence derived from stored frames
  guarantees, and that the request made from it reads back as itself.
\<close>

section \<open>Evidence\<close>

lemma bundle_last_accepted:
  assumes "validateCredentialProofBundle L cx bundle = Inr q" "credentials bundle \<noteq> []"
  shows "\<exists>parent :: ParentState. validatePaymentCredential L cx (sessionCertificate bundle) parent (last (credentials bundle)) = Inr ()"
proof -
  have "credentials bundle = butlast (credentials bundle) @ [last (credentials bundle)]" using assms(2) by simp
  then have "replayCredentials L cx (sessionCertificate bundle) (genesisParent (sessionCertificate bundle))
      (butlast (credentials bundle) @ [last (credentials bundle)]) = Inr q"
    using assms(1) by (simp add: validateCredentialProofBundle_iff)
  then show ?thesis by (auto simp: replay_append bindE_Inr_iff)
qed

definition trustContext :: "'a OfflineTrustEnvironment_scheme \<Rightarrow> bytes \<Rightarrow> ProtocolTrustContext" where
  "trustContext trust sessionId = \<lparr>cx_networkId = ev_networkId trust, cx_clusterGenesisHash = ev_clusterGenesisHash trust,
     cx_programId = ev_programId trust, cx_sessionId = sessionId,
     cx_trustedCertificateIssuer = ev_trustedCertificateIssuer trust\<rparr>"

lemma materialize_steps:
  assumes "materializeStoredClaimEvidence L claim trust = Inr ev"
  obtains b q where "receiveCredential L (st_frames claim) = Inr b" "credentials b \<noteq> []"
    "validateCredentialProofBundle L (trustContext trust (sc_sessionId (sessionCertificate b))) b = Inr q"
    "pc_merchant (last (credentials b)) = sct_merchant trust"
    "bytesToHex (pc_sessionId (last (credentials b))) = st_sessionId claim"
    "decimal (pc_amount (last (credentials b))) = st_amount claim"
    "createClaimSubmissionMaterial L (last (credentials b)) = Inr (sce_material ev)"
    "bytesToHex (cm_credentialHash (sce_material ev)) = st_credentialHash claim"
    "sce_owner ev = sc_owner (sessionCertificate b)" "sce_sessionId ev = pc_sessionId (last (credentials b))"
    "sce_merchant ev = pc_merchant (last (credentials b))" "sce_amount ev = pc_amount (last (credentials b))"
proof -
  obtain b q material where m: "receiveCredential L (st_frames claim) = Inr b" "credentials b \<noteq> []"
    "validateCredentialProofBundle L (trustContext trust (sc_sessionId (sessionCertificate b))) b = Inr q"
    "equalBytes (pc_merchant (last (credentials b))) (sct_merchant trust)"
    "bytesToHex (pc_sessionId (last (credentials b))) = st_sessionId claim"
    "decimal (pc_amount (last (credentials b))) = st_amount claim"
    "createClaimSubmissionMaterial L (last (credentials b)) = Inr material"
    "bytesToHex (cm_credentialHash material) = st_credentialHash claim"
    and ev: "Inr \<lparr>sce_material = material, sce_owner = sc_owner (sessionCertificate b),
        sce_sessionId = pc_sessionId (last (credentials b)), sce_merchant = pc_merchant (last (credentials b)),
        sce_amount = pc_amount (last (credentials b))\<rparr> = (Inr ev :: StoredClaimEvidence result)"
    using assms unfolding materializeStoredClaimEvidence_def bindE_Inr_iff Let_def failIf_Inr_iff trustContext_def not_not
    by metis
  from ev have "ev = \<lparr>sce_material = material, sce_owner = sc_owner (sessionCertificate b),
      sce_sessionId = pc_sessionId (last (credentials b)), sce_merchant = pc_merchant (last (credentials b)),
      sce_amount = pc_amount (last (credentials b))\<rparr>" by simp
  with m show ?thesis by (intro that) simp_all
qed

text \<open>\<open>evidences L trust ev c\<close>: the evidence is of the credential \<open>c\<close>, which its session accepted.\<close>

definition evidences :: "lib \<Rightarrow> StoredClaimTrust \<Rightarrow> StoredClaimEvidence \<Rightarrow> PaymentCredential \<Rightarrow> bool" where
  "evidences L trust ev c \<longleftrightarrow> (\<exists>cert (parent :: ParentState). validatePaymentCredential L (trustContext trust (sc_sessionId cert)) cert parent c = Inr () \<and>
     sce_owner ev = sc_owner cert) \<and> createClaimSubmissionMaterial L c = Inr (sce_material ev) \<and>
     sce_sessionId ev = pc_sessionId c \<and> sce_merchant ev = pc_merchant c \<and> sce_amount ev = pc_amount c \<and>
     pc_merchant c = sct_merchant trust"

lemma materialize_evidences:
  assumes "materializeStoredClaimEvidence L claim trust = Inr ev"
  obtains c where "evidences L trust ev c" "bytesToHex (cm_credentialHash (sce_material ev)) = st_credentialHash claim"
    "bytesToHex (pc_sessionId c) = st_sessionId claim" "decimal (pc_amount c) = st_amount claim"
  using materialize_steps [OF assms] bundle_last_accepted unfolding evidences_def by metis

lemma evidences_fields:
  assumes "evidences L trust ev c"
  shows "sce_owner ev = pc_payer c \<and> dm_networkId (pc_domain c) = ev_networkId trust \<and>
    dm_clusterGenesisHash (pc_domain c) = ev_clusterGenesisHash trust \<and> dm_programId (pc_domain c) = ev_programId trust \<and>
    dm_sessionId (pc_domain c) = pc_sessionId c"
  using assms by (auto simp: evidences_def validatePaymentCredential_iff spends_def contextDomain_def trustContext_def)

section \<open>The request\<close>

lemma requestObject_read:
  assumes "length g = 32" "rr_clusterGenesisHash rq = bytesToHex g"
    "length m = 410" "rr_credentialPayload rq = bytesToHex m" "length s = 64" "rr_payerSignature rq = bytesToHex s"
    "length h = 32" "rr_credentialHash rq = bytesToHex h"
    "exactPublicKey W (Some (JString (rr_programId rq))) = Inr program"
    "exactPublicKey W (Some (JString (rr_sessionAccount rq))) = Inr session"
    "exactPublicKey W (Some (JString (rr_claimAccount rq))) = Inr claim"
    "exactPublicKey W (Some (JString (rr_merchant rq))) = Inr merchant"
  shows "strictRequest W (requestObject rq) = Inr rq"
proof -
  have "sortBy compareText [''version'', ''networkId'', ''clusterGenesisHash'', ''programId'', ''sessionAccount'', ''claimAccount'',
      ''merchant'', ''credentialPayload'', ''payerSignature'', ''credentialHash''] = requestKeys"
    by code_simp
  then show ?thesis
    using assms by (simp add: strictRequest_def requestObject_def sameKeys_iff exactHex_iff [THEN iffD2]
        PAYMENT_PAYLOAD_SIZE_def SIGNATURE_SIZE_def textProperty_def integerProperty_def bindE_def relayIf_def)
qed

section \<open>A stored claim is planned\<close>

lemma evidence_request:
  assumes "borsh_ok L" "hash_ok L" "web3_ok W" "evidences L (sp_trust pc) ev c"
    and addresses: "deriveClaimAddresses W (sp_programId pc) ev = Inr a"
    and config: "rf_networkId config = ev_networkId (sp_trust pc)"
      "rf_clusterGenesisHash config = ev_clusterGenesisHash (sp_trust pc)"
      "rf_programId config = sp_programId pc" "sp_programId pc = ev_programId (sp_trust pc)"
  defines "rq \<equiv> requestFor W (sp_programId pc) a ev (sp_trust pc)"
  defines "evidence \<equiv> \<lparr>ce_payload = cm_payload (sce_material ev), ce_signature = cm_payerSignature (sce_material ev),
      ce_hash = cm_credentialHash (sce_material ev), ce_credential = c\<rparr>"
  shows "strictRequest W (requestObject rq) = Inr rq \<and> checkEvidence L config rq = Inr evidence \<and>
    deriveAccounts W config rq evidence = Inr (ca_session a, ca_claim a) \<and> validPaymentCredential c \<and>
    exactPublicKey W (Some (JString (rr_programId rq))) = Inr (rf_programId config) \<and>
    exactHex (Some (JString (rr_clusterGenesisHash rq))) 32 = Inr (rf_clusterGenesisHash config)"
proof -
  define m where "m = sce_material ev"
  have mat: "createClaimSubmissionMaterial L c = Inr m" using assms(4) by (simp add: evidences_def m_def)
  note c = mat [unfolded claim_material_iff [OF assms(1,2)]]
  note f = evidences_fields [OF assms(4)]
  have ev: "sce_merchant ev = pc_merchant c" "sce_sessionId ev = pc_sessionId c"
    using assms(4) by (simp_all add: evidences_def)
  have valid: "length (pc_merchant c) = 32" "length (dm_clusterGenesisHash (pc_domain c)) = 32" "length (dm_programId (pc_domain c)) = 32"
    using c by (simp_all add: validPaymentCredential_def validDomain_def)
  have a: "findProgramAddress W [SESSION_SEED, pc_payer c, pc_sessionId c] (sp_programId pc) = Some (ca_session a)"
    "findProgramAddress W [CLAIM_SEED, ca_session a, cm_credentialHash m] (sp_programId pc) = Some (ca_claim a)"
    using addresses f ev by (auto simp: deriveClaimAddresses_def assertProgramId_def addressOf_def bindE_Inr_iff SESSION_SEED_def
        CLAIM_SEED_def m_def)
  then have keys: "length (ca_session a) = 32" "length (ca_claim a) = 32"
    using web3_address [OF assms(3)] by blast+
  have key: "exactPublicKey W (Some (JString (base58OfPublicKey W k))) = Inr k" if "length k = 32" for k
    using web3_key [OF assms(3) that] .
  have program: "exactPublicKey W (Some (JString (rr_programId rq))) = Inr (rf_programId config)"
    "exactPublicKey W (Some (JString (rr_sessionAccount rq))) = Inr (ca_session a)"
    "exactPublicKey W (Some (JString (rr_claimAccount rq))) = Inr (ca_claim a)"
    "exactPublicKey W (Some (JString (rr_merchant rq))) = Inr (pc_merchant c)"
    using key valid keys f config ev by (simp_all add: rq_def requestFor_def)
  have texts: "rr_clusterGenesisHash rq = bytesToHex (ev_clusterGenesisHash (sp_trust pc))" "rr_credentialPayload rq = bytesToHex (cm_payload m)"
    "rr_payerSignature rq = bytesToHex (cm_payerSignature m)" "rr_credentialHash rq = bytesToHex (cm_credentialHash m)"
    by (simp_all add: rq_def requestFor_def m_def)
  have sizes: "length (ev_clusterGenesisHash (sp_trust pc)) = 32" "length (cm_payload m) = 410" "length (cm_payerSignature m) = 64"
    "length (cm_credentialHash m) = 32"
    using valid f c assms(2) by (simp_all add: length_hashSha256)
  have "strictRequest W (requestObject rq) = Inr rq"
    by (rule requestObject_read [OF sizes(1) texts(1) sizes(2) texts(2) sizes(3) texts(3) sizes(4) texts(4) program])
  moreover have "checkEvidence L config rq = Inr evidence"
  proof -
    obtain bs where bs: "encodePaymentCredential L c = Inr bs"
      using c encodePaymentCredential_ok [OF assms(1)] by (metis isOk_iff)
    with signature_appended [OF assms(1) bs] c have "bs = cm_payload m @ cm_payerSignature m" by auto
    with bs have dec: "decodePaymentCredential L (cm_payload m @ cm_payerSignature m) = Inr c"
      using decodePaymentCredential_iff [OF assms(1)] by blast
    obtain cert parent where "validatePaymentCredential L (trustContext (sp_trust pc) (sc_sessionId cert)) cert (parent :: ParentState) c = Inr ()"
      using assms(4) unfolding evidences_def by blast
    then have "verifyEd25519 L (cm_payerSignature m) (cm_payload m) (pc_payerDeviceKey c)"
      using c by (auto simp: validatePaymentCredential_iff spends_def)
    with texts sizes dec c f config show ?thesis
      by (simp add: checkEvidence_iff evidence_def flip: m_def)
  qed
  moreover have "deriveAccounts W config rq evidence = Inr (ca_session a, ca_claim a)"
    using a program config by (simp add: deriveAccounts_iff evidence_def flip: m_def)
  moreover have "exactHex (Some (JString (rr_clusterGenesisHash rq))) 32 = Inr (rf_clusterGenesisHash config)"
    using texts(1) sizes(1) config by (simp add: exactHex_iff)
  ultimately show ?thesis using program(1) c by blast
qed

lemma stored_claim_planned:
  assumes "borsh_ok L" "hash_ok L" "web3_ok W" "evidenceFor L W pc claim = Inr (ev, a)"
    "rf_networkId config = ev_networkId (sp_trust pc)" "rf_clusterGenesisHash config = ev_clusterGenesisHash (sp_trust pc)"
    "rf_programId config = sp_programId pc" "sp_programId pc = ev_programId (sp_trust pc)"
    "decodePaymentCredential L (cm_payload (sce_material ev) @ cm_payerSignature (sce_material ev)) = Inr c"
    "Option.bind (cn_getGenesisHash cn) (publicKeyOfBase58 W) = Some (ev_clusterGenesisHash (sp_trust pc))"
    "cn_getAccountInfo cn 0 (ca_claim a) = Inr None"
    "readSession config cn c (ca_session a) = Inr decoded"
    "readClaims W config cn (ca_session a) = Inr claims" "assertClaimList (ca_session a) decoded claims = Inr ()"
    "cn_getAccountInfo cn 2 edge = Inr None"
    "edgePda W (sp_programId pc) (ca_session a) (pc_previousStateHash c) (pc_sequence c) (pc_newStateHash c) = Inr edge"
    "parentKnown W config cn c (ca_session a) claims" "accountsFound W (sp_programId pc) c (ca_session a)"
  shows "\<exists>p. plan L W config cn (requestObject (requestFor W (sp_programId pc) a ev (sp_trust pc))) = Inr p \<and> pl_claim p = ca_claim a"
proof -
  have steps: "materializeStoredClaimEvidence L claim (sp_trust pc) = Inr ev" "deriveClaimAddresses W (sp_programId pc) ev = Inr a"
    using assms(4) by (auto simp: evidenceFor_def bindE_Inr_iff)
  obtain c' where c': "evidences L (sp_trust pc) ev c'" using materialize_evidences [OF steps(1)] by blast
  define rq where "rq = requestFor W (sp_programId pc) a ev (sp_trust pc)"
  define evidence where "evidence = \<lparr>ce_payload = cm_payload (sce_material ev), ce_signature = cm_payerSignature (sce_material ev),
      ce_hash = cm_credentialHash (sce_material ev), ce_credential = c'\<rparr>"
  note r = evidence_request [OF assms(1-3) c' steps(2) assms(5-8), folded rq_def evidence_def]
  have c: "c' = c"
    using r assms(9) by (simp add: checkEvidence_iff evidence_def)
  have range: "0 \<le> pc_sequence c" "pc_sequence c \<le> U32_MAX" and valid: "length (pc_merchant c) = 32"
    using r c by (simp_all add: validPaymentCredential_def integer_ranges U32_MAX_def)
  have domain: "checkDomain W config cn rq = Inr ()"
    using r assms(5,6,10) by (simp add: checkDomain_def bindE_Inr_iff) (simp add: rq_def requestFor_def)
  obtain parent where edges: "edgeAccounts W config cn c (ca_session a) (ca_claim a) edge claims = Inr (ca_claim a, parent)"
    using edgeAccounts_first [OF assms(15,17)] by blast
  have payload: "length (ce_payload evidence) = 410" using r by (simp add: checkEvidence_iff)
  have "accountsFound W (rf_programId config) (ce_credential evidence) (ca_session a)"
    "0 \<le> pc_sequence (ce_credential evidence)" "pc_sequence (ce_credential evidence) \<le> U32_MAX"
    using range c assms(7,18) by (simp_all add: evidence_def)
  from claimInstruction_ok [OF this(1) payload this(2,3)] obtain i where i: "claimInstruction W config evidence (ca_session a) (ca_claim a) edge (ca_claim a, parent)
      (claimNeighbours (ca_session a) claims (ce_hash evidence)) = Inr i"
    by blast
  obtain v where v: "verifierInstruction W = Inr v"
    using assms(3) by (auto simp: web3_ok_def verifierInstruction_def bindE_Inr_iff)
  have "planRequest L W config cn rq = Inr \<lparr>pl_request = rq, pl_claim = ca_claim a, pl_instruction = i, pl_verifierInstruction = v\<rparr>"
    unfolding planRequest_iff using domain r assms(11-14) assms(16) edges i v c assms(7)
    by (intro exI [of _ evidence] exI [of _ "ca_session a"] exI [of _ decoded] exI [of _ claims] exI [of _ edge]
        exI [of _ "(ca_claim a, parent)"]) (simp add: evidence_def)
  with r show ?thesis by (simp add: plan_def flip: rq_def)
qed

end
