(* ===== verification/ClaimSamples.thy ===== *)
theory ClaimSamples
  imports MerchantFacts TransportTheorems
begin

text \<open>
  A stored claim, a chain and a relayer for it, built on the sample session, on which the
  witnesses of the claim theories apply the properties. Base58 is replaced by hexadecimal and a
  program address by the last seed.
\<close>

definition sampleWeb3 :: web3 where
  "sampleWeb3 = \<lparr>publicKeyOfBase58 = (\<lambda>text. if isHex 32 text then Some (hexPairs text)
       else if text = ''Ed25519SigVerify111111111111111111111111111'' then Some (replicate 32 20) else None),
     base58OfPublicKey = bytesToHex, findProgramAddress = (\<lambda>seeds program. Some (rev (lastBytes 32 (concat seeds)))),
     createHashSha256 = lastBytes 32, SYSVAR_INSTRUCTIONS = replicate 32 21, SystemProgramId = ZERO\<rparr>"

lemma sampleWeb3_ok [simp]: "web3_ok sampleWeb3"
  unfolding web3_ok_def
  by (simp add: sampleWeb3_def isHex_def hexPairs_bytesToHex bytesToHex_digits del: list.set)

definition sampleTrust :: StoredClaimTrust where
  "sampleTrust = OfflineTrustEnvironment.extend sampleEnvironment
     (StoredClaimTrust.fields (replicate 32 9) (replicate 32 10))"

definition sampleClaimBundle :: CredentialProofBundle where
  "sampleClaimBundle = \<lparr>sessionCertificate = sampleCertificate, deviceAuthorization = sampleAuthorization,
     credentials = [samplePayment]\<rparr>"

definition sampleMaterial :: ClaimSubmissionMaterial where
  "sampleMaterial = projr (createClaimSubmissionMaterial sampleLib samplePayment)"

definition sampleClaim :: StoredClaim where
  "sampleClaim = createStoredClaim (bytesToHex (cm_credentialHash sampleMaterial)) (decimal 40) (bytesToHex (replicate 32 3))
     (projr (sendCredential sampleLib \<lparr>qr_chunkBytes = 480\<rparr> sampleClaimBundle))"

definition samplePort :: SolanaClaimPortConfig where
  "samplePort = \<lparr>sp_programId = replicate 32 2, sp_trust = sampleTrust, sp_confirmationTimeoutMs = 45000\<rparr>"

definition sampleRelayer :: ClaimRelayerConfig where
  "sampleRelayer = \<lparr>rf_networkId = 1, rf_clusterGenesisHash = replicate 32 1, rf_programId = replicate 32 2,
     rf_relayer = replicate 32 22\<rparr>"

definition sampleOnchainSession :: DecodedOfflineSession where
  "sampleOnchainSession = \<lparr>os_sessionId = replicate 32 3, os_owner = replicate 32 5, os_devicePublicKey = replicate 32 6,
     os_collateralVault = replicate 32 7, os_collateralLocked = 300, os_branchSpendingLimit = 100, os_collateralCoverageCap = 300,
     os_maxBranchDepth = 32, os_issuedAt = 1000, os_expiresAt = 11800, os_claimSubmissionDeadline = 33400,
     os_status = SessionActive, os_authenticatedFork = False, os_coverageStatus = CoverageUncalculated,
     os_genesisStateHash = ZERO, os_deviceAuthorizationHash = ZERO, os_identityAttestationHash = ZERO, os_settledAmount = 0,
     os_aggregateOfflineExposure = 0, os_uniqueEdgeCount = 0, os_conflictingClaimCount = 0, os_resolutionHash = ZERO, os_bump = 1,
     os_frozenEdgeCount = 0, os_frozenExposure = 0, os_submittedClaimCount = 0, os_classifiedEdgeCount = 0,
     os_classifiedExposure = 0, os_baseAllocationTotal = 0, os_allocatedEdgeCount = 0, os_allocatedTotal = 0,
     os_scannedClaimCount = 0, os_settledEdgeCount = 0, os_claimHead = ZERO, os_claimTail = ZERO, os_nextAllocationClaim = ZERO,
     os_classificationComplete = False, os_allocationComplete = False\<rparr>"

lemma sampleOnchainSession_valid [simp]: "validOfflineSession sampleOnchainSession"
  by (simp add: validOfflineSession_def sampleOnchainSession_def ZERO_def integer_ranges)

lemma sampleOnchainSession_decodes [simp]:
  "decodeOfflineSession (offlineSessionAccount sampleOnchainSession) = Inr sampleOnchainSession"
  using decodeOfflineSession_account by simp

text \<open>The node knows the session and no claim.\<close>

definition sampleConnection :: Connection where
  "sampleConnection = \<lparr>cn_getGenesisHash = Some (bytesToHex (replicate 32 1)),
     cn_getAccountInfo = (\<lambda>read address. if read = 1 then Inr (Some \<lparr>ac_owner = replicate 32 2,
       ac_data = offlineSessionAccount sampleOnchainSession\<rparr>) else Inr None),
     cn_getProgramAccounts = (\<lambda>_ _ _ _. Inr []), cn_getLatestBlockhash = Inr ''blockhash'',
     cn_sendRawTransaction = (\<lambda>_ _ _. Inr ''signature''), cn_confirmTransaction = (\<lambda>_ _. Inr False)\<rparr>"

lemma samplePayment_fields:
  "pc_merchant samplePayment = replicate 32 9" "pc_merchantDeviceKey samplePayment = replicate 32 10"
  "pc_sessionId samplePayment = replicate 32 3" "pc_payer samplePayment = replicate 32 5"
  "pc_payerDeviceKey samplePayment = replicate 32 6"
  using created_fields [OF samplePayment_created] created_spends [OF samplePayment_created]
  by (simp_all add: sampleRequest_def spends_def)

lemma sampleMaterial_created: "createClaimSubmissionMaterial sampleLib samplePayment = Inr sampleMaterial"
proof -
  obtain bs m where "encodePaymentCredential sampleLib samplePayment = Inr bs"
    "encodePaymentCredentialPayload sampleLib samplePayment = Inr m"
    using encodePaymentCredential_ok [OF sampleLib_borsh] encodePaymentCredentialPayload_ok [OF sampleLib_borsh]
      samplePayments_valid by (metis isOk_iff)
  moreover have "length m = 410"
    using calculation(2) credential_payload.encodeWith_length unfolding encodePaymentCredentialPayload_def'
    by (fastforce simp: encoded_lengths)
  ultimately have "\<exists>x. createClaimSubmissionMaterial sampleLib samplePayment = Inr x"
    using samplePayments_valid by (simp add: createClaimSubmissionMaterial_def credentialHash_def Let_def
        PAYMENT_CREDENTIAL_PAYLOAD_SIZE_def ED25519_SIGNATURE_SIZE_def length_hashSha256 bindE_def)
  then show ?thesis by (auto simp: sampleMaterial_def)
qed

lemmas sampleMaterial_facts = sampleMaterial_created [unfolded claim_material_iff [OF sampleLib_borsh sampleLib_hash]]

text \<open>Its frames, in any order and repeated, are received as the bundle.\<close>

lemma sampleClaim_frames:
  assumes "set fs = set (st_frames sampleClaim)"
  shows "receiveCredential sampleLib fs = Inr sampleClaimBundle"
proof -
  have valid: "validBundle sampleClaimBundle"
    using samplePayments_valid by (simp add: validBundle_def sampleClaimBundle_def validDeviceAuthorization_def integer_ranges)
  then obtain bs where bs: "encodeCredentialProofBundle sampleLib sampleClaimBundle = Inr bs"
    using encodeCredentialProofBundle_ok [OF sampleLib_borsh] by (auto simp: isOk_iff)
  have len: "length bs = 1402"
    using encodeCredentialProofBundle_length(2) [OF bs] by (simp add: sampleClaimBundle_def)
  have "isOk (frame sampleLib \<lparr>qr_chunkBytes = 480\<rparr> CredentialBundleMessage bs)"
    by (rule frame_defined) (simp_all add: len)
  then obtain sent where sent: "frame sampleLib \<lparr>qr_chunkBytes = 480\<rparr> CredentialBundleMessage bs = Inr sent" by (auto simp: isOk_iff)
  have "st_frames sampleClaim = sent"
    using bs sent by (simp add: sampleClaim_def createStoredClaim_def sendCredential_def)
  with assms have "set fs = set sent" by simp
  moreover have "decodeBundle sampleLib bs = Inr sampleClaimBundle"
    using decodeBundle_iff [OF sampleLib_borsh] valid bs by blast
  ultimately show ?thesis
    using frames_assemble [OF sampleLib_hash _ sent] by (simp add: receiveCredential_def)
qed

lemmas sampleClaim_received = sampleClaim_frames [OF refl]

definition sampleEvidence :: StoredClaimEvidence where
  "sampleEvidence = \<lparr>sce_material = sampleMaterial, sce_owner = replicate 32 5, sce_sessionId = replicate 32 3,
     sce_merchant = replicate 32 9, sce_amount = 40\<rparr>"

definition sampleAddresses :: DerivedClaimAddresses where
  "sampleAddresses = \<lparr>ca_session = replicate 32 3, ca_claim = cm_credentialHash sampleMaterial\<rparr>"

lemma lastBytes_suffix: "length s = n \<Longrightarrow> rev (lastBytes n (xs @ s)) = s"
  by (simp add: lastBytes_def)

lemma sampleClaim_evidence: "evidenceFor sampleLib sampleWeb3 samplePort sampleClaim = Inr (sampleEvidence, sampleAddresses)"
proof -
  have trust: "\<lparr>cx_networkId = ev_networkId sampleTrust, cx_clusterGenesisHash = ev_clusterGenesisHash sampleTrust,
      cx_programId = ev_programId sampleTrust, cx_sessionId = sc_sessionId sampleCertificate,
      cx_trustedCertificateIssuer = ev_trustedCertificateIssuer sampleTrust\<rparr> = sampleContext"
    by (simp add: sampleTrust_def OfflineTrustEnvironment.defs StoredClaimTrust.defs sampleEnvironment_def sampleContext_def)
  have "validateCredentialProofBundle sampleLib sampleContext sampleClaimBundle = Inr (nextParent samplePayment)"
    using sample_payments_accepted(1) [unfolded sampleParent_def]
    by (simp add: validateCredentialProofBundle_iff sampleClaimBundle_def)
  then have "materializeStoredClaimEvidence sampleLib sampleClaim sampleTrust = Inr sampleEvidence"
    using sampleMaterial_facts trust
    by (simp add: materializeStoredClaimEvidence_def sampleClaim_received sampleMaterial_created)
      (simp add: sampleClaimBundle_def samplePayment_fields sampleTrust_def OfflineTrustEnvironment.defs StoredClaimTrust.defs
        sampleClaim_def createStoredClaim_def sampleMaterial_created sampleEvidence_def)
  moreover have "deriveClaimAddresses sampleWeb3 (replicate 32 2) sampleEvidence = Inr sampleAddresses"
    using sampleMaterial_facts
    by (simp add: deriveClaimAddresses_def assertProgramId_def addressOf_def sampleWeb3_def sampleEvidence_def
        sampleAddresses_def lastBytes_suffix length_hashSha256 flip: append_assoc)
  ultimately show ?thesis by (simp add: evidenceFor_def samplePort_def)
qed

text \<open>The hypotheses of planning, on the sample.\<close>

lemma sample_domain:
  "rf_networkId sampleRelayer = ev_networkId (sp_trust samplePort)"
  "rf_clusterGenesisHash sampleRelayer = ev_clusterGenesisHash (sp_trust samplePort)"
  "rf_programId sampleRelayer = sp_programId samplePort" "sp_programId samplePort = ev_programId (sp_trust samplePort)"
  "Option.bind (cn_getGenesisHash sampleConnection) (publicKeyOfBase58 sampleWeb3) = Some (ev_clusterGenesisHash (sp_trust samplePort))"
  by (simp_all add: sampleRelayer_def samplePort_def sampleTrust_def OfflineTrustEnvironment.defs StoredClaimTrust.defs
      sampleEnvironment_def sampleContext_def sampleConnection_def sampleWeb3_def isHex_def hexPairs_bytesToHex
      bytesToHex_digits del: list.set)

lemma sample_decodes:
  "decodePaymentCredential sampleLib (cm_payload (sce_material sampleEvidence) @ cm_payerSignature (sce_material sampleEvidence)) = Inr samplePayment"
proof -
  obtain bs where bs: "encodePaymentCredential sampleLib samplePayment = Inr bs"
    using sampleMaterial_facts encodePaymentCredential_ok [OF sampleLib_borsh] by (metis isOk_iff)
  with signature_appended [OF sampleLib_borsh bs] sampleMaterial_facts
  have "bs = cm_payload sampleMaterial @ cm_payerSignature sampleMaterial" by auto
  with bs show ?thesis using decodePaymentCredential_iff [OF sampleLib_borsh] by (simp add: sampleEvidence_def)
qed

lemma sample_chain:
  "cn_getAccountInfo sampleConnection 0 (ca_claim sampleAddresses) = Inr None"
  "readSession sampleRelayer sampleConnection samplePayment (ca_session sampleAddresses) = Inr sampleOnchainSession"
  "readClaims sampleWeb3 sampleRelayer sampleConnection (ca_session sampleAddresses) = Inr []"
  "assertClaimList (ca_session sampleAddresses) sampleOnchainSession [] = Inr ()"
  "cn_getAccountInfo sampleConnection 2 (pc_newStateHash samplePayment) = Inr None"
  "edgePda sampleWeb3 (sp_programId samplePort) (ca_session sampleAddresses) (pc_previousStateHash samplePayment)
     (pc_sequence samplePayment) (pc_newStateHash samplePayment) = Inr (pc_newStateHash samplePayment)"
  "parentKnown sampleWeb3 sampleRelayer sampleConnection samplePayment (ca_session sampleAddresses) []"
  "accountsFound sampleWeb3 (sp_programId samplePort) samplePayment (ca_session sampleAddresses)"
proof -
  show "readSession sampleRelayer sampleConnection samplePayment (ca_session sampleAddresses) = Inr sampleOnchainSession"
    by (simp add: readSession_iff sampleConnection_def sampleRelayer_def samplePayment_fields)
      (simp add: sampleOnchainSession_def)
  show "edgePda sampleWeb3 (sp_programId samplePort) (ca_session sampleAddresses) (pc_previousStateHash samplePayment)
     (pc_sequence samplePayment) (pc_newStateHash samplePayment) = Inr (pc_newStateHash samplePayment)"
    by (simp add: edgePda_def relayerU32_def U32_MAX_def pda_iff sampleWeb3_def lastBytes_suffix bindE_def pass_def flip: append_assoc)
qed (simp_all add: sampleConnection_def readClaims_def bindE_def assertClaimList_iff sampleOnchainSession_def parentKnown_def accountsFound_def
    sampleWeb3_def)

lemmas sample_conditions = sampleLib_borsh sampleLib_hash sampleWeb3_ok sampleClaim_evidence sample_domain(1-4) sample_decodes
  sample_domain(5) sample_chain

lemma sampleRequest_read:
  obtains rq where "rq = requestFor sampleWeb3 (sp_programId samplePort) sampleAddresses sampleEvidence (sp_trust samplePort)"
    "strictRequest sampleWeb3 (requestObject rq) = Inr rq"
proof -
  have steps: "materializeStoredClaimEvidence sampleLib sampleClaim (sp_trust samplePort) = Inr sampleEvidence"
    "deriveClaimAddresses sampleWeb3 (sp_programId samplePort) sampleEvidence = Inr sampleAddresses"
    using sampleClaim_evidence unfolding evidenceFor_def bindE_Inr_iff by (auto split: prod.splits)
  obtain c where c: "evidences sampleLib (sp_trust samplePort) sampleEvidence c"
    by (rule materialize_evidences [OF steps(1)])
  from evidence_request [OF sample_conditions(1-3) c steps(2) sample_domain(1-4)] show thesis by (blast intro: that [OF refl])
qed

lemma samplePlan:
  obtains p where "planRequest sampleLib sampleWeb3 sampleRelayer sampleConnection
    (requestFor sampleWeb3 (sp_programId samplePort) sampleAddresses sampleEvidence (sp_trust samplePort)) = Inr p"
    "pl_claim p = ca_claim sampleAddresses"
proof -
  obtain rq where rq: "rq = requestFor sampleWeb3 (sp_programId samplePort) sampleAddresses sampleEvidence (sp_trust samplePort)"
    "strictRequest sampleWeb3 (requestObject rq) = Inr rq" by (rule sampleRequest_read)
  have "\<exists>p. plan sampleLib sampleWeb3 sampleRelayer sampleConnection (requestObject rq) = Inr p \<and> pl_claim p = ca_claim sampleAddresses"
    unfolding rq(1) by (rule stored_claim_planned [OF sample_conditions])
  then obtain p where "plan sampleLib sampleWeb3 sampleRelayer sampleConnection (requestObject rq) = Inr p"
    "pl_claim p = ca_claim sampleAddresses" by blast
  with rq(2) that show thesis unfolding rq(1) by (simp add: plan_def)
qed

end
