(* ===== verification/RelayerTheorems.thy ===== *)
theory RelayerTheorems
  imports ClaimSamples
begin

text \<open>
  The properties of \<open>apps/claim-relayer/src/claim-relayer.ts\<close>: what a plan guarantees, that the
  signature check of the built transaction covers the right bytes, that the place chosen in the
  claim list is the one the on-chain program accepts, and that a credential is submitted once
  at a time.
\<close>

section \<open>What a plan guarantees\<close>

text \<open>
  C11: a plan exists only for a canonical credential of this network, cluster and program
  whose payload, signature and hash are the request's, signed by the device key of the on-chain
  session of its payer; and only if the claim account, derived from the session and the
  credential's hash, does not exist yet.
\<close>

theorem plan_is_safe:
  assumes "borsh_ok L" "planRequest L W config cn rq = Inr p"
  shows "\<exists>m c session info decoded.
    encodePaymentCredential L c = Inr (m @ pc_payerSignature c) \<and> verifyCredentialSignature L c \<and>
    rr_credentialPayload rq = bytesToHex m \<and> rr_payerSignature rq = bytesToHex (pc_payerSignature c) \<and>
    credentialHash L c = Inr (hashSha256 L (m @ pc_payerSignature c)) \<and>
    rr_credentialHash rq = bytesToHex (hashSha256 L (m @ pc_payerSignature c)) \<and>
    dm_networkId (pc_domain c) = rf_networkId config \<and> dm_clusterGenesisHash (pc_domain c) = rf_clusterGenesisHash config \<and>
    dm_programId (pc_domain c) = rf_programId config \<and> dm_sessionId (pc_domain c) = pc_sessionId c \<and>
    findProgramAddress W [SESSION_SEED, pc_payer c, pc_sessionId c] (rf_programId config) = Some session \<and>
    findProgramAddress W [CLAIM_SEED, session, hashSha256 L (m @ pc_payerSignature c)] (rf_programId config) = Some (pl_claim p) \<and>
    cn_getAccountInfo cn 0 (pl_claim p) = Inr None \<and>
    cn_getAccountInfo cn 1 session = Inr (Some info) \<and> ac_owner info = rf_programId config \<and>
    decodeOfflineSession (ac_data info) = Inr decoded \<and> os_owner decoded = pc_payer c \<and>
    os_sessionId decoded = pc_sessionId c \<and> os_devicePublicKey decoded = pc_payerDeviceKey c"
proof -
  obtain ev session decoded where ev: "checkEvidence L config rq = Inr ev"
    and derived: "deriveAccounts W config rq ev = Inr (session, pl_claim p)"
    and free: "cn_getAccountInfo cn 0 (pl_claim p) = Inr None"
    and read: "readSession config cn (ce_credential ev) session = Inr decoded"
    using assms(2) unfolding planRequest_iff by blast
  note e = ev [unfolded checkEvidence_iff]
  obtain info where info: "cn_getAccountInfo cn 1 session = Inr (Some info)" "ac_owner info = rf_programId config"
    "decodeOfflineSession (ac_data info) = Inr decoded" "os_sessionId decoded = pc_sessionId (ce_credential ev)"
    "os_owner decoded = pc_payer (ce_credential ev)" "os_devicePublicKey decoded = pc_payerDeviceKey (ce_credential ev)"
    using read unfolding readSession_iff by blast
  have enc: "encodePaymentCredential L (ce_credential ev) = Inr (ce_payload ev @ ce_signature ev)"
    using e decodePaymentCredential_iff [OF assms(1)] by blast
  then obtain m where m: "encodePaymentCredentialPayload L (ce_credential ev) = Inr m"
    "ce_payload ev @ ce_signature ev = m @ pc_payerSignature (ce_credential ev)"
    using signature_appended [OF assms(1) enc] by blast
  have len: "length (pc_payerSignature (ce_credential ev)) = 64"
    using encodePaymentCredential_ok [OF assms(1)] enc by (metis isOk_iff)
  then have same: "ce_payload ev = m" "ce_signature ev = pc_payerSignature (ce_credential ev)"
    using m(2) e by (metis append_eq_append_conv)+
  have "verifyCredentialSignature L (ce_credential ev)"
    using m(1) e len same by (simp add: verifyCredentialSignature_def bindE_def SIGNATURE_LENGTH_def)
  moreover have "credentialHash L (ce_credential ev) = Inr (ce_hash ev)"
    using enc e by (simp add: credentialHash_def)
  ultimately show ?thesis
    using e enc derived free info same
    by (intro exI [of _ m] exI [of _ "ce_credential ev"] exI [of _ session] exI [of _ info] exI [of _ decoded])
      (simp add: deriveAccounts_iff)
qed

theorem plan_is_safe_witness:
  "\<exists>p. planRequest sampleLib sampleWeb3 sampleRelayer sampleConnection
     (requestFor sampleWeb3 (sp_programId samplePort) sampleAddresses sampleEvidence (sp_trust samplePort)) = Inr p \<and>
   (\<exists>c. verifyCredentialSignature sampleLib c \<and> dm_sessionId (pc_domain c) = pc_sessionId c)"
proof -
  obtain p where p: "planRequest sampleLib sampleWeb3 sampleRelayer sampleConnection
    (requestFor sampleWeb3 (sp_programId samplePort) sampleAddresses sampleEvidence (sp_trust samplePort)) = Inr p"
    by (rule samplePlan)
  with plan_is_safe [OF sampleLib_borsh p] show ?thesis by blast
qed

section \<open>The signature check of the transaction\<close>

text \<open>\<open>u16\<close> at an offset of the verifier's data\<close>

definition offsetAt :: "bytes \<Rightarrow> nat \<Rightarrow> nat" where
  "offsetAt d n = nat (leInt (bytes_at d n 2))"

lemma verifierData_bytes: "verifierData = [1, 0, 166, 1, 1, 0, 190, 0, 1, 0, 12, 0, 154, 1, 1, 0]"
  by code_simp

lemma verifier_offsets:
  "verifierData ! 0 = 1" "offsetAt verifierData 2 = 422" "offsetAt verifierData 4 = 1" "offsetAt verifierData 6 = 190"
  "offsetAt verifierData 8 = 1" "offsetAt verifierData 10 = 12" "offsetAt verifierData 12 = 410" "offsetAt verifierData 14 = 1"
  unfolding verifierData_bytes by code_simp+

text \<open>
  The transaction's Ed25519 instruction names one signature, and takes signature,
  message and public key from the claim instruction, which is the second of the transaction. The
  bytes it points to are the credential's signature, its whole signed payload and its device
  key, and they verify.
\<close>

theorem verified_bytes:
  assumes "borsh_ok L" "web3_ok W" "planRequest L W config cn rq = Inr p"
    "d = ti_data (pl_instruction p)" "v = ti_data (pl_verifierInstruction p)"
  shows "v ! 0 = 1 \<and> offsetAt v 4 = 1 \<and> offsetAt v 8 = 1 \<and> offsetAt v 14 = 1 \<and>
    bytesToHex (bytes_at d (offsetAt v 10) (offsetAt v 12)) = rr_credentialPayload rq \<and>
    bytesToHex (bytes_at d (offsetAt v 2) 64) = rr_payerSignature rq \<and>
    verifyEd25519 L (bytes_at d (offsetAt v 2) 64) (bytes_at d (offsetAt v 10) (offsetAt v 12)) (bytes_at d (offsetAt v 6) 32)"
proof -
  obtain ev session edge edges neighbours where ev: "checkEvidence L config rq = Inr ev"
    and instr: "claimInstruction W config ev session (pl_claim p) edge edges neighbours = Inr (pl_instruction p)"
    and ver: "verifierInstruction W = Inr (pl_verifierInstruction p)"
    using assms(3) unfolding planRequest_iff by blast
  note e = ev [unfolded checkEvidence_iff]
  have v: "v = verifierData"
    using ver assms(5) by (cases "pl_verifierInstruction p") (auto simp: verifierInstruction_def bindE_Inr_iff)
  define h where "h = take 8 (createHashSha256 W (textBytes ''global:submit_claim''))"
  have h: "length h = 8" using assms(2) by (simp add: h_def web3_ok_def)
  have d: "d = h @ leBytes 4 410 @ ce_payload ev @ ce_signature ev"
    using instr assms(4) e
    by (cases "pl_instruction p") (auto simp: claimInstruction_def Let_def bindE_Inr_iff submitClaimData_iff h_def)
  have message: "bytes_at d 12 410 = ce_payload ev" and signature: "bytes_at d 422 64 = ce_signature ev"
    using h e unfolding d by (simp_all add: layout_reading)
  have key: "bytes_at d 190 32 = bytes_at (ce_payload ev) 178 32"
    using h e unfolding d by (simp add: bytes_at_skip) (simp add: bytes_at_def)
  have enc: "encodePaymentCredential L (ce_credential ev) = Inr (ce_payload ev @ ce_signature ev)"
    using e decodePaymentCredential_iff [OF assms(1)] by blast
  then obtain m where m: "encodePaymentCredentialPayload L (ce_credential ev) = Inr m"
    "ce_payload ev @ ce_signature ev = m @ pc_payerSignature (ce_credential ev)"
    using signature_appended [OF assms(1) enc] by blast
  have "length (pc_payerSignature (ce_credential ev)) = 64"
    using encodePaymentCredential_ok [OF assms(1)] enc by (metis isOk_iff)
  then have "ce_payload ev = m" using m(2) e by (metis append_eq_append_conv)
  then have "bytes_at (ce_payload ev) 178 32 = pc_payerDeviceKey (ce_credential ev)"
    using payload_device_key [OF assms(1) m(1)] by simp
  with e key message signature show ?thesis unfolding v verifier_offsets by simp
qed

theorem verified_bytes_witness:
  "\<exists>p. planRequest sampleLib sampleWeb3 sampleRelayer sampleConnection
     (requestFor sampleWeb3 (sp_programId samplePort) sampleAddresses sampleEvidence (sp_trust samplePort)) = Inr p \<and>
   verifyEd25519 sampleLib (bytes_at (ti_data (pl_instruction p)) (offsetAt (ti_data (pl_verifierInstruction p)) 2) 64)
     (bytes_at (ti_data (pl_instruction p)) (offsetAt (ti_data (pl_verifierInstruction p)) 10)
       (offsetAt (ti_data (pl_verifierInstruction p)) 12))
     (bytes_at (ti_data (pl_instruction p)) (offsetAt (ti_data (pl_verifierInstruction p)) 6) 32)"
proof -
  obtain p where p: "planRequest sampleLib sampleWeb3 sampleRelayer sampleConnection
    (requestFor sampleWeb3 (sp_programId samplePort) sampleAddresses sampleEvidence (sp_trust samplePort)) = Inr p"
    by (rule samplePlan)
  with verified_bytes [OF sampleLib_borsh sampleWeb3_ok p refl refl] show ?thesis by blast
qed

section \<open>The list of claims\<close>

text \<open>
  On a consistent claim list, the on-chain program accepts the neighbours the
  relayer chooses for a new claim, and after the insertion the session and the claims pass the
  relayer's list check again, with the new claim added: the next request is not turned away as
  stale.
\<close>

theorem claim_list_stays_ordered:
  assumes "assertClaimList s session es = Inr ()" "holds accounts es" "accounts k = Some v"
    "dc_session v = s" "dc_previousClaim v = ZERO" "dc_nextClaim v = ZERO" "dc_credentialHash v \<notin> claimHash ` set es"
    "distinct (s # ZERO # k # map lc_address es)" "os_submittedClaimCount session < U64_MAX"
  shows "\<exists>session' accounts' es'.
    insertClaimInOrder s session accounts k (fst (claimNeighbours s es (dc_credentialHash v)))
      (snd (claimNeighbours s es (dc_credentialHash v))) = Some (session', accounts') \<and>
    assertClaimList s session' es' = Inr () \<and> holds accounts' es' \<and>
    mset (map lc_address es') = add_mset k (mset (map lc_address es))"
proof -
  have "sorted_wrt (<) (map claimHash es)" using assms(1) by (simp add: assertClaimList_iff)
  then obtain xs ys where split: "es = xs @ ys" "list_all (\<lambda>e. claimHash e < dc_credentialHash v) xs"
    "list_all (\<lambda>e. dc_credentialHash v < claimHash e) ys"
    and neighbours: "claimNeighbours s es (dc_credentialHash v) =
      (if xs = [] then s else lc_address (last xs), if ys = [] then s else lc_address (hd ys))"
    using claimNeighbours_split assms(7) by blast
  from insert_between [OF assms(1,2) [unfolded split(1)] assms(3-6) split(2,3) assms(8) [unfolded split(1)] assms(9)]
  obtain session' accounts' es' where r: "insertClaimInOrder s session accounts k (if xs = [] then s else lc_address (last xs))
      (if ys = [] then s else lc_address (hd ys)) = Some (session', accounts')"
    "assertClaimList s session' es' = Inr ()" "holds accounts' es'" "map lc_address es' = map lc_address xs @ k # map lc_address ys"
    by blast
  have "mset (map lc_address es') = add_mset k (mset (map lc_address es))"
    unfolding r(4) split(1) by simp
  with r neighbours show ?thesis by (intro exI [of _ session'] exI [of _ accounts'] exI [of _ es']) simp
qed

text \<open>A list of one claim, hash 5, and a new claim with hash 9.\<close>

definition listedSample :: "bytes \<Rightarrow> DecodedClaim" where
  "listedSample hash = \<lparr>dc_credentialHash = hash, dc_session = replicate 32 3, dc_merchant = ZERO, dc_amount = 1, dc_sequence = 1,
     dc_previousStateHash = ZERO, dc_newStateHash = ZERO, dc_submittedSlot = 0, dc_status = ClaimSubmitted,
     dc_rejectionReason = RejectionNone, dc_allocatedAmount = 0, dc_settledAmount = 0, dc_bump = 1, dc_previousClaim = ZERO,
     dc_nextClaim = ZERO, dc_allocationProcessed = False\<rparr>"

theorem claim_list_stays_ordered_witness:
  "\<exists>session' accounts' es'.
    insertClaimInOrder (replicate 32 3)
      (sampleOnchainSession\<lparr>os_submittedClaimCount := 1, os_claimHead := replicate 32 4, os_claimTail := replicate 32 4\<rparr>)
      [replicate 32 4 \<mapsto> listedSample (replicate 32 5), replicate 32 8 \<mapsto> listedSample (replicate 32 9)]
      (replicate 32 8) (replicate 32 4) (replicate 32 3) = Some (session', accounts') \<and>
    assertClaimList (replicate 32 3) session' es' = Inr () \<and> length es' = 2"
proof -
  let ?s = "sampleOnchainSession\<lparr>os_submittedClaimCount := 1, os_claimHead := replicate 32 4, os_claimTail := replicate 32 4\<rparr>"
  let ?es = "[\<lparr>lc_address = replicate 32 4, lc_value = listedSample (replicate 32 5)\<rparr>]"
  let ?acc = "[replicate 32 4 \<mapsto> listedSample (replicate 32 5), replicate 32 8 \<mapsto> listedSample (replicate 32 9)]"
  have ok: "assertClaimList (replicate 32 3) ?s ?es = Inr ()"
    by (simp add: assertClaimList_iff listedSample_def)
  have neighbours: "claimNeighbours (replicate 32 3) ?es (dc_credentialHash (listedSample (replicate 32 9))) = (replicate 32 4, replicate 32 3)"
    by (simp add: claimNeighbours_def listedSample_def) code_simp
  obtain session' accounts' es' where r:
    "insertClaimInOrder (replicate 32 3) ?s ?acc (replicate 32 8) (replicate 32 4) (replicate 32 3) = Some (session', accounts')"
    "assertClaimList (replicate 32 3) session' es' = Inr ()"
    "mset (map lc_address es') = add_mset (replicate 32 8) (mset (map lc_address ?es))"
    using claim_list_stays_ordered [OF ok, of ?acc "replicate 32 8" "listedSample (replicate 32 9)"] neighbours
    by (auto simp: listedSample_def ZERO_def sampleOnchainSession_def U64_MAX_def)
  have "length es' = 2" using arg_cong [OF r(3), of size] by simp
  with r show ?thesis by blast
qed

section \<open>One submission at a time\<close>

text \<open>
  The states of a relayer: requests arrive, operations end in any order. \<open>active\<close> are the
  operations that have started and not ended.
\<close>

inductive relayed :: "web3 \<Rightarrow> RelayerState \<Rightarrow> nat set \<Rightarrow> bool" for W where
  started: "relayed W \<lparr>rs_inflight = [], rs_operations = []\<rparr> {}"
| submitted: "relayed W st active \<Longrightarrow> submit W input st = Inr (st', n) \<Longrightarrow> relayed W st' (insert n active)"
| finished: "relayed W st active \<Longrightarrow> n \<in> active \<Longrightarrow> relayed W (finish n st) (active - {n})"

inductive_cases relayed_start: "relayed W st {}"

definition hashOf :: "RelayerState \<Rightarrow> nat \<Rightarrow> string" where
  "hashOf st n = rr_credentialHash (rs_operations st ! n)"

lemma submit_iff:
  "submit W input st = Inr (st', n) \<longleftrightarrow> (\<exists>rq. strictRequest W input = Inr rq \<and>
     (case map_of (rs_inflight st) (rr_credentialHash rq) of
        Some m \<Rightarrow> st' = st \<and> n = m
      | None \<Rightarrow> n = length (rs_operations st) \<and>
          st' = \<lparr>rs_inflight = AList.update (rr_credentialHash rq) n (rs_inflight st), rs_operations = rs_operations st @ [rq]\<rparr>))"
  by (cases st) (auto simp: submit_def bindE_Inr_iff Let_def split: option.splits)

text \<open>The map holds exactly the active operations, each under its own hash.\<close>

lemma relayed_inflight:
  assumes "relayed W st active"
  shows "active \<subseteq> {..<length (rs_operations st)} \<and>
    (\<forall>key n. map_of (rs_inflight st) key = Some n \<longleftrightarrow> n \<in> active \<and> hashOf st n = key)"
  using assms
proof induction
  case (submitted st active input st' n)
  then obtain rq where rq: "strictRequest W input = Inr rq"
    "case map_of (rs_inflight st) (rr_credentialHash rq) of Some m \<Rightarrow> st' = st \<and> n = m
      | None \<Rightarrow> n = length (rs_operations st) \<and>
          st' = \<lparr>rs_inflight = AList.update (rr_credentialHash rq) n (rs_inflight st), rs_operations = rs_operations st @ [rq]\<rparr>"
    unfolding submit_iff by blast
  show ?case
  proof (cases "map_of (rs_inflight st) (rr_credentialHash rq)")
    case None
    with rq submitted.IH have st': "n = length (rs_operations st)"
      "st' = \<lparr>rs_inflight = AList.update (rr_credentialHash rq) n (rs_inflight st), rs_operations = rs_operations st @ [rq]\<rparr>" by auto
    moreover have "hashOf st' m = (if m = n then rr_credentialHash rq else hashOf st m)" if "m \<le> n" for m
      using that st' by (auto simp: hashOf_def nth_append)
    moreover have "m < n" if "m \<in> active" for m using submitted.IH that st'(1) by auto
    ultimately show ?thesis
      using None submitted.IH by (auto simp: update_conv' less_Suc_eq) (metis less_imp_le option.distinct(1) nat_less_le)+
  next
    case (Some m)
    with rq submitted.IH show ?thesis by (auto simp: insert_absorb)
  qed
next
  case (finished st active n)
  have same: "m = n" if "m \<in> active" "hashOf st m = hashOf st n" for m
    using finished.IH finished.hyps(2) that by (metis option.inject)
  have lookup: "map_of (rs_inflight (finish n st)) key = (if key = hashOf st n then None else map_of (rs_inflight st) key)" for key
    by (simp add: finish_def hashOf_def delete_conv')
  have hash: "hashOf (finish n st) m = hashOf st m" "rs_operations (finish n st) = rs_operations st" for m
    by (simp_all add: finish_def hashOf_def)
  show ?case unfolding lookup hash using finished.IH same by auto
qed simp

text \<open>
  At any moment the active operations have different credential hashes. A request
  whose credential is being submitted joins that operation and starts nothing; any other valid
  request starts a new one.
\<close>

theorem one_submission_at_a_time:
  assumes "relayed W st active" "submit W input st = Inr (st', n)"
  shows "\<exists>rq. strictRequest W input = Inr rq \<and> inj_on (hashOf st) active \<and>
    (if rr_credentialHash rq \<in> hashOf st ` active then st' = st \<and> n \<in> active \<and> hashOf st n = rr_credentialHash rq
     else n = length (rs_operations st) \<and> rs_operations st' = rs_operations st @ [rq])"
proof -
  note inv = relayed_inflight [OF assms(1)]
  obtain rq where rq: "strictRequest W input = Inr rq"
    "case map_of (rs_inflight st) (rr_credentialHash rq) of Some m \<Rightarrow> st' = st \<and> n = m
      | None \<Rightarrow> n = length (rs_operations st) \<and>
          st' = \<lparr>rs_inflight = AList.update (rr_credentialHash rq) n (rs_inflight st), rs_operations = rs_operations st @ [rq]\<rparr>"
    using assms(2) unfolding submit_iff by blast
  have "inj_on (hashOf st) active"
  proof (rule inj_onI)
    fix a b assume "a \<in> active" "b \<in> active" "hashOf st a = hashOf st b"
    with inv have "map_of (rs_inflight st) (hashOf st b) = Some a" "map_of (rs_inflight st) (hashOf st b) = Some b" by blast+
    then show "a = b" by simp
  qed
  moreover have "if rr_credentialHash rq \<in> hashOf st ` active then st' = st \<and> n \<in> active \<and> hashOf st n = rr_credentialHash rq
     else n = length (rs_operations st) \<and> rs_operations st' = rs_operations st @ [rq]"
  proof (cases "map_of (rs_inflight st) (rr_credentialHash rq)")
    case None
    then have "m \<notin> active" if "hashOf st m = rr_credentialHash rq" for m using inv that by (metis option.distinct(1))
    then have "rr_credentialHash rq \<notin> hashOf st ` active" by (metis imageE)
    with None rq(2) show ?thesis by simp
  next
    case (Some m)
    with inv have "m \<in> active" "hashOf st m = rr_credentialHash rq" by blast+
    with Some rq(2) show ?thesis by force
  qed
  ultimately show ?thesis using rq(1) by blast
qed

theorem one_submission_at_a_time_witness:
  "\<exists>rq st. strictRequest sampleWeb3 (requestObject rq) = Inr rq \<and>
     submit sampleWeb3 (requestObject rq) \<lparr>rs_inflight = [], rs_operations = []\<rparr> = Inr (st, 0) \<and>
     submit sampleWeb3 (requestObject rq) st = Inr (st, 0)"
proof -
  obtain rq where rq: "strictRequest sampleWeb3 (requestObject rq) = Inr rq" by (rule sampleRequest_read)
  obtain st n where first: "submit sampleWeb3 (requestObject rq) \<lparr>rs_inflight = [], rs_operations = []\<rparr> = Inr (st, n)"
    using rq by (simp add: submit_def Let_def)
  have n: "n = 0" "rs_operations st = [rq]"
    using one_submission_at_a_time [OF relayed.started first] rq by auto
  obtain st' m where second: "submit sampleWeb3 (requestObject rq) st = Inr (st', m)"
    using rq by (cases "map_of (rs_inflight st) (rr_credentialHash rq)") (simp_all add: submit_def Let_def)
  have "st' = st \<and> m = 0"
    using one_submission_at_a_time [OF relayed.submitted [OF relayed.started first] second] rq n
    by (auto simp: hashOf_def)
  with rq first second n show ?thesis by blast
qed

end
