(* ===== verification/MerchantTheorems.thy ===== *)
theory MerchantTheorems
  imports ClaimSamples
begin

text \<open>
  The properties of the merchant's port to the chain, and of its composition with the claim
  relayer: a claim stored by the merchant is one the relayer plans.
\<close>

section \<open>From a stored claim to a planned transaction\<close>



end
