(* ===== verification/ClaimSync.thy ===== *)
theory ClaimSync
  imports ClaimPort
begin

text \<open>
  \<open>apps/merchant-mobile/src/claim-sync.ts\<close>: bringing the stored claims in line with the chain. The
  port is a record of operations on a state \<open>'s\<close>, the world behind it; an operation that rejects
  its promise returns \<open>Inl\<close>, and one whose promise never settles returns \<open>None\<close>: what awaits it is then
  \<open>None\<close> too.
\<close>

record 's ClaimSubmissionPort =
  lookupConfirmedClaim :: "StoredClaim \<Rightarrow> 's \<Rightarrow> AuthoritativeClaimSnapshot option result option \<times> 's"
  submitClaim :: "StoredClaim \<Rightarrow> 's \<Rightarrow> string result option \<times> 's"
  confirmClaim :: "string \<Rightarrow> 's \<Rightarrow> unit result option \<times> 's"

record ClaimQueueSyncResult =
  qs_claims :: "StoredClaim list"
  qs_attempted :: nat
  qs_confirmed :: nat
  qs_failed :: nat

definition lifecycleStatus :: "ClaimStatus \<Rightarrow> ClaimLifecycleStatus" where
  "lifecycleStatus status =
    (if status = ClaimSettled then LifecycleSettled
     else if status = ClaimRejected then LifecycleRejected else LifecycleSubmitted)"

definition assertSnapshotMatches :: "StoredClaim \<Rightarrow> AuthoritativeClaimSnapshot \<Rightarrow> unit result" where
  "assertSnapshotMatches claim snapshot = runE
    [failIf (\<not> cs_confirmed snapshot) ''claim on-chain ainda nao esta confirmado'',
     failIf (cs_credentialHash snapshot \<noteq> st_credentialHash claim) ''credential hash on-chain divergente'',
     failIf (cs_sessionId snapshot \<noteq> st_sessionId claim) ''sessao do claim on-chain divergente'',
     failIf (cs_amount snapshot \<noteq> st_amount claim) ''valor do claim on-chain divergente'',
     failIf (\<not> canonicalNumber (cs_confirmedSlot snapshot)) ''slot confirmado do claim e invalido'']"

text \<open>\<open>a ?? b\<close>\<close>

definition orNull :: "'a option \<Rightarrow> 'a option \<Rightarrow> 'a option" where
  "orNull a b = (case a of None \<Rightarrow> b | Some x \<Rightarrow> Some x)"

definition applySnapshot :: "StoredClaim \<Rightarrow> AuthoritativeClaimSnapshot \<Rightarrow> string option \<Rightarrow> StoredClaim result" where
  "applySnapshot claim snapshot fallbackSignature =
    bindE (assertSnapshotMatches claim snapshot) (\<lambda>_.
      Inr (claim\<lparr>st_status := lifecycleStatus (cs_status snapshot),
        st_transactionSignature := orNull (cs_transactionSignature snapshot) (orNull fallbackSignature (st_transactionSignature claim)),
        st_lastConfirmedSlot := Some (cs_confirmedSlot snapshot),
        st_lastSubmissionError := None\<rparr>))"

text \<open>
  \<open>reason.message\<close>; for an \<open>OgpValidationError\<close>, whose messages are not modelled, its code stands for it.
\<close>

definition errorMessage :: "js_error \<Rightarrow> string" where
  "errorMessage reason = (case reason of OgpValidationError text \<Rightarrow> text | JsError text \<Rightarrow> text)"

definition failedAttempt :: "StoredClaim \<Rightarrow> js_error \<Rightarrow> StoredClaim" where
  "failedAttempt claim reason = claim\<lparr>st_submissionAttempts := st_submissionAttempts claim + 1,
     st_lastSubmissionError := Some (errorMessage reason)\<rparr>"

definition lookupAfterAmbiguousFailure ::
  "'s ClaimSubmissionPort \<Rightarrow> StoredClaim \<Rightarrow> 's \<Rightarrow> AuthoritativeClaimSnapshot option option \<times> 's" where
  "lookupAfterAmbiguousFailure port claim s =
    (case lookupConfirmedClaim port claim s of
       (None, s') \<Rightarrow> (None, s')
     | (Some (Inl _), s') \<Rightarrow> (Some None, s')
     | (Some (Inr found), s') \<Rightarrow> (Some found, s'))"

text \<open>The body of the second \<open>try\<close>: the signature is known as soon as the submission returned.\<close>

definition submitAndConfirm ::
  "'s ClaimSubmissionPort \<Rightarrow> StoredClaim \<Rightarrow> 's \<Rightarrow> StoredClaim result option \<times> string option \<times> 's" where
  "submitAndConfirm port claim s =
    (case submitClaim port claim s of
       (None, s1) \<Rightarrow> (None, None, s1)
     | (Some (Inl e), s1) \<Rightarrow> (Some (Inl e), None, s1)
     | (Some (Inr signature), s1) \<Rightarrow>
        (case confirmClaim port signature s1 of
           (None, s2) \<Rightarrow> (None, Some signature, s2)
         | (Some (Inl e), s2) \<Rightarrow> (Some (Inl e), Some signature, s2)
         | (Some (Inr _), s2) \<Rightarrow>
            (case lookupConfirmedClaim port claim s2 of
               (None, s3) \<Rightarrow> (None, Some signature, s3)
             | (Some (Inl e), s3) \<Rightarrow> (Some (Inl e), Some signature, s3)
             | (Some (Inr None), s3) \<Rightarrow>
                (Some (Inl (JsError ''transacao confirmou sem claim on-chain observavel'')), Some signature, s3)
             | (Some (Inr (Some confirmed)), s3) \<Rightarrow>
                (Some (applySnapshot (claim\<lparr>st_submissionAttempts := st_submissionAttempts claim + 1\<rparr>) confirmed (Some signature)),
                 Some signature, s3))))"

definition syncStoredClaim :: "'s ClaimSubmissionPort \<Rightarrow> StoredClaim \<Rightarrow> 's \<Rightarrow> StoredClaim result option \<times> 's" where
  "syncStoredClaim port claim s =
    (if st_status claim = LifecycleSettled \<or> st_status claim = LifecycleRejected then (Some (Inr claim), s)
     else
      (case lookupConfirmedClaim port claim s of
         (None, s1) \<Rightarrow> (None, s1)
       | (Some (Inl reason), s1) \<Rightarrow> (Some (Inr (failedAttempt claim reason)), s1)
       | (Some (Inr (Some existing)), s1) \<Rightarrow>
          (case applySnapshot claim existing None of
             Inl reason \<Rightarrow> (Some (Inr (failedAttempt claim reason)), s1)
           | Inr updated \<Rightarrow> (Some (Inr updated), s1))
       | (Some (Inr None), s1) \<Rightarrow>
          (case submitAndConfirm port claim s1 of
             (None, _, s2) \<Rightarrow> (None, s2)
           | (Some (Inr updated), _, s2) \<Rightarrow> (Some (Inr updated), s2)
           | (Some (Inl reason), signature, s2) \<Rightarrow>
              (case lookupAfterAmbiguousFailure port claim s2 of
                 (None, s3) \<Rightarrow> (None, s3)
               | (Some (Some confirmed), s3) \<Rightarrow>
                   (Some (applySnapshot (claim\<lparr>st_submissionAttempts := st_submissionAttempts claim + 1\<rparr>) confirmed signature), s3)
               | (Some None, s3) \<Rightarrow> (Some (Inr (failedAttempt claim reason)), s3)))))"

text \<open>
  The loop over the eligible claims. \<open>persist\<close> is an operation on the same state, absent when it is
  \<open>None\<close>; the credential hashes are hexadecimal, on which \<open>localeCompare\<close> is the order of the
  character codes.
\<close>

definition updatedClaims :: "StoredClaim list \<Rightarrow> (string \<times> StoredClaim) list \<Rightarrow> StoredClaim list" where
  "updatedClaims claims updates =
    map (\<lambda>item. case map_of updates (st_credentialHash item) of None \<Rightarrow> item | Some updated \<Rightarrow> updated) claims"

record SyncProgress =
  sy_updates :: "(string \<times> StoredClaim) list"
  sy_attempted :: nat
  sy_confirmed :: nat
  sy_failed :: nat

fun syncEligible ::
  "'s ClaimSubmissionPort \<Rightarrow> (StoredClaim list \<Rightarrow> 's \<Rightarrow> unit result \<times> 's) option \<Rightarrow> StoredClaim list \<Rightarrow> StoredClaim list \<Rightarrow>
    SyncProgress \<Rightarrow> 's \<Rightarrow> SyncProgress result option \<times> 's" where
  "syncEligible port persist claims [] progress s = (Some (Inr progress), s)"
| "syncEligible port persist claims (claim # rest) progress s =
    (case syncStoredClaim port claim s of
       (None, s1) \<Rightarrow> (None, s1)
     | (Some (Inl e), s1) \<Rightarrow> (Some (Inl e), s1)
     | (Some (Inr updated), s1) \<Rightarrow>
        let updates = AList.update (st_credentialHash claim) updated (sy_updates progress);
            persisted = (case persist of None \<Rightarrow> (Inr (), s1) | Some save \<Rightarrow> save (updatedClaims claims updates) s1)
        in
        (case persisted of
           (Inl e, s2) \<Rightarrow> (Some (Inl e), s2)
         | (Inr _, s2) \<Rightarrow>
            syncEligible port persist claims rest
              \<lparr>sy_updates = updates, sy_attempted = sy_attempted progress + 1,
               sy_confirmed = sy_confirmed progress + (if st_lastSubmissionError updated = None then 1 else 0),
               sy_failed = sy_failed progress + (if st_lastSubmissionError updated = None then 0 else 1)\<rparr> s2))"

definition eligibleClaims :: "StoredClaim list \<Rightarrow> StoredClaim list" where
  "eligibleClaims claims =
    sortBy (\<lambda>left right. compareText (st_credentialHash left) (st_credentialHash right))
      (filter (\<lambda>claim. st_status claim = LifecyclePending \<or> st_status claim = LifecycleSubmitted) claims)"

definition syncClaimQueue ::
  "'s ClaimSubmissionPort \<Rightarrow> StoredClaim list \<Rightarrow> bool \<Rightarrow> (StoredClaim list \<Rightarrow> 's \<Rightarrow> unit result \<times> 's) option \<Rightarrow> 's \<Rightarrow>
    ClaimQueueSyncResult result option \<times> 's" where
  "syncClaimQueue port claims online persist s =
    (if \<not> online then (Some (Inr \<lparr>qs_claims = claims, qs_attempted = 0, qs_confirmed = 0, qs_failed = 0\<rparr>), s)
     else
      (case syncEligible port persist claims (eligibleClaims claims)
          \<lparr>sy_updates = [], sy_attempted = 0, sy_confirmed = 0, sy_failed = 0\<rparr> s of
         (None, s') \<Rightarrow> (None, s')
       | (Some (Inl e), s') \<Rightarrow> (Some (Inl e), s')
       | (Some (Inr progress), s') \<Rightarrow>
          (Some (Inr \<lparr>qs_claims = updatedClaims claims (sy_updates progress), qs_attempted = sy_attempted progress,
             qs_confirmed = sy_confirmed progress, qs_failed = sy_failed progress\<rparr>), s')))"

section \<open>The port to Solana\<close>

text \<open>
  The object \<open>createSolanaClaimSubmissionPort\<close> returns, on the state of its cluster verification and
  the world \<open>'w\<close> of the node and the relayer, whose calls may reject and may never settle. A run of the
  polling loop of \<open>confirmTransaction\<close> sees the time when it starts, and at each round the time and the
  answer to its request.
\<close>

record PollRun =
  pr_now :: int
  pr_clock :: "nat \<Rightarrow> int"
  pr_statuses :: "nat \<Rightarrow> SignatureStatus option result option"

record 'w ChainNode =
  nd_getGenesisHash :: "'w \<Rightarrow> string result option \<times> 'w"
  nd_getAccountInfo :: "bytes \<Rightarrow> 'w \<Rightarrow> (AccountInfo option \<times> nat) result option \<times> 'w"
  nd_relayer :: "ClaimRelayerRequest \<Rightarrow> 'w \<Rightarrow> string result option \<times> 'w"
  nd_polled :: "string \<Rightarrow> 'w \<Rightarrow> PollRun \<times> 'w"

type_synonym 'w port_state = "cluster_verification \<times> 'w"

definition awaitCluster :: "web3 \<Rightarrow> StoredClaimTrust \<Rightarrow> 'w ChainNode \<Rightarrow> 'w port_state \<Rightarrow> unit result option \<times> 'w port_state" where
  "awaitCluster W trust node st =
    (case fst st of
       Some outcome \<Rightarrow> (outcome, st)
     | None \<Rightarrow>
        (case nd_getGenesisHash node (snd st) of
           (answer, w) \<Rightarrow>
             (case verifyCluster W trust answer None of (outcome, cluster) \<Rightarrow> (outcome, (cluster, w)))))"

definition solanaPort :: "lib \<Rightarrow> web3 \<Rightarrow> SolanaClaimPortConfig \<Rightarrow> 'w ChainNode \<Rightarrow> 'w port_state ClaimSubmissionPort" where
  "solanaPort L W config node =
    \<lparr>lookupConfirmedClaim = (\<lambda>claim st.
       (case awaitCluster W (sp_trust config) node st of
          (None, st1) \<Rightarrow> (None, st1)
        | (Some (Inl e), st1) \<Rightarrow> (Some (Inl e), st1)
        | (Some (Inr _), st1) \<Rightarrow>
           (case evidenceFor L W config claim of
              Inl e \<Rightarrow> (Some (Inl e), st1)
            | Inr (evidence, addresses) \<Rightarrow>
               (case nd_getAccountInfo node (ca_claim addresses) (snd st1) of
                  (answer, w) \<Rightarrow> (map_option (\<lambda>info. lookupClaim L W config (\<lambda>_. info) claim) answer, (fst st1, w)))))),
     submitClaim = (\<lambda>claim st.
       (case awaitCluster W (sp_trust config) node st of
          (None, st1) \<Rightarrow> (None, st1)
        | (Some (Inl e), st1) \<Rightarrow> (Some (Inl e), st1)
        | (Some (Inr _), st1) \<Rightarrow>
           (case evidenceFor L W config claim of
              Inl e \<Rightarrow> (Some (Inl e), st1)
            | Inr (evidence, addresses) \<Rightarrow>
               (case nd_relayer node (requestFor W (sp_programId config) addresses evidence (sp_trust config)) (snd st1) of
                  (answer, w) \<Rightarrow> (map_option (\<lambda>reply. submitStoredClaim L W config (\<lambda>_. reply) claim) answer, (fst st1, w)))))),
     confirmClaim = (\<lambda>transactionSignature st.
       (case awaitCluster W (sp_trust config) node st of
          (None, st1) \<Rightarrow> (None, st1)
        | (Some (Inl e), st1) \<Rightarrow> (Some (Inl e), st1)
        | (Some (Inr _), st1) \<Rightarrow>
           if \<not> isSolanaSignature transactionSignature then (Some (Inl (JsError ''assinatura de transacao invalida'')), st1)
           else
             (case nd_polled node transactionSignature (snd st1) of
                (run, w) \<Rightarrow>
                  (confirmTransaction (pr_clock run) (pr_statuses run) (pr_now run) (sp_confirmationTimeoutMs config) transactionSignature,
                   (fst st1, w)))))\<rparr>"

end
