(* ===== verification/SyncFacts.thy ===== *)
theory SyncFacts
  imports ClaimSync MerchantFacts
begin

text \<open>
  Facts about the synchronisation of stored claims: what one synchronisation can change, and the
  contracts of a port: under the first a synchronisation never rejects, under the second the queue ends.
\<close>

section \<open>Snapshots\<close>

text \<open>A confirmed snapshot of exactly this claim.\<close>

definition snapshotOf :: "StoredClaim \<Rightarrow> AuthoritativeClaimSnapshot \<Rightarrow> bool" where
  "snapshotOf c sn \<longleftrightarrow> cs_confirmed sn \<and> cs_credentialHash sn = st_credentialHash c \<and> cs_sessionId sn = st_sessionId c \<and>
     cs_amount sn = st_amount c \<and> canonicalNumber (cs_confirmedSlot sn)"

lemma assertSnapshotMatches_iff: "assertSnapshotMatches c sn = Inr u \<longleftrightarrow> snapshotOf c sn"
  by (auto simp: assertSnapshotMatches_def bindE_Inr_iff snapshotOf_def)

text \<open>\<open>confirmedBy c sn c'\<close>: the claim \<open>c'\<close> is \<open>c\<close> as the snapshot shows it.\<close>

definition confirmedBy :: "StoredClaim \<Rightarrow> AuthoritativeClaimSnapshot \<Rightarrow> StoredClaim \<Rightarrow> bool" where
  "confirmedBy c sn c' \<longleftrightarrow> snapshotOf c sn \<and> st_status c' = lifecycleStatus (cs_status sn) \<and>
     st_lastConfirmedSlot c' = Some (cs_confirmedSlot sn) \<and> st_lastSubmissionError c' = None"

text \<open>What never changes.\<close>

definition sameProof :: "StoredClaim \<Rightarrow> StoredClaim \<Rightarrow> bool" where
  "sameProof c c' \<longleftrightarrow> st_credentialHash c' = st_credentialHash c \<and> st_amount c' = st_amount c \<and> st_sessionId c' = st_sessionId c \<and>
     st_frames c' = st_frames c \<and> st_receiptPresentation c' = st_receiptPresentation c"

lemma applySnapshot_Inr:
  "applySnapshot c sn sig = Inr c' \<Longrightarrow> confirmedBy c sn c' \<and> sameProof c c' \<and> st_submissionAttempts c' = st_submissionAttempts c"
  by (auto simp: applySnapshot_def bindE_Inr_iff assertSnapshotMatches_iff confirmedBy_def sameProof_def)

lemma applySnapshot_retry:
  "applySnapshot (c\<lparr>st_submissionAttempts := n\<rparr>) sn sig = Inr c' \<Longrightarrow> confirmedBy c sn c' \<and> sameProof c c'"
  by (auto simp: applySnapshot_def bindE_Inr_iff assertSnapshotMatches_iff confirmedBy_def sameProof_def snapshotOf_def)

lemma applySnapshot_total: "snapshotOf c sn \<Longrightarrow> \<exists>c'. applySnapshot (c\<lparr>st_submissionAttempts := n\<rparr>) sn sig = Inr c'"
proof -
  assume "snapshotOf c sn"
  then have "assertSnapshotMatches (c\<lparr>st_submissionAttempts := n\<rparr>) sn = Inr ()"
    by (simp add: assertSnapshotMatches_iff snapshotOf_def)
  then show ?thesis by (simp add: applySnapshot_def)
qed

lemma failedAttempt_same: "sameProof c (failedAttempt c e)" "st_status (failedAttempt c e) = st_status c"
  "st_lastConfirmedSlot (failedAttempt c e) = st_lastConfirmedSlot c"
  "st_submissionAttempts (failedAttempt c e) = st_submissionAttempts c + 1" "st_lastSubmissionError (failedAttempt c e) \<noteq> None"
  "st_transactionSignature (failedAttempt c e) = st_transactionSignature c"
  by (simp_all add: failedAttempt_def sameProof_def)

section \<open>One synchronisation\<close>

definition stillOpen :: "StoredClaim \<Rightarrow> bool" where
  "stillOpen c \<longleftrightarrow> st_status c = LifecyclePending \<or> st_status c = LifecycleSubmitted"

text \<open>
  The three outcomes: nothing to do, advanced by a snapshot some lookup of this claim returned, or
  a failed attempt that leaves the status alone.
\<close>

lemma submitAndConfirm_Inr:
  assumes "submitAndConfirm port c s = (Some (Inr c'), sig, s')"
  shows "\<exists>t sn t'. lookupConfirmedClaim port c t = (Some (Inr (Some sn)), t') \<and> confirmedBy c sn c' \<and> sameProof c c'"
  using assms by (auto simp: submitAndConfirm_def split: prod.splits sum.splits option.splits dest!: applySnapshot_retry; blast)

lemma afterFailure_Some: "lookupAfterAmbiguousFailure port c s = (Some (Some sn), s') \<Longrightarrow>
    lookupConfirmedClaim port c s = (Some (Inr (Some sn)), s')"
  by (auto simp: lookupAfterAmbiguousFailure_def split: prod.splits sum.splits option.splits)

text \<open>How an open claim is synchronised: by its first lookup, or by what follows its submission.\<close>

lemma syncStoredClaim_cases:
  assumes "syncStoredClaim port c s = (Some r, s')" "stillOpen c"
  obtains (failed) e where "r = Inr (failedAttempt c e)"
    | (found) sn s1 c' where "lookupConfirmedClaim port c s = (Some (Inr (Some sn)), s1)" "applySnapshot c sn None = Inr c'" "r = Inr c'"
    | (sent) t c' sig where "submitAndConfirm port c t = (Some (Inr c'), sig, s')" "r = Inr c'"
    | (observed) t sn sig where "lookupAfterAmbiguousFailure port c t = (Some (Some sn), s')"
        "r = applySnapshot (c\<lparr>st_submissionAttempts := st_submissionAttempts c + 1\<rparr>) sn sig"
proof -
  have "\<not> (st_status c = LifecycleSettled \<or> st_status c = LifecycleRejected)" using assms(2) by (auto simp: stillOpen_def)
  with assms(1) show thesis
    by (auto simp: syncStoredClaim_def split: prod.splits sum.splits option.splits intro: failed sent observed) (metis found)
qed

lemma syncStoredClaim_outcome:
  assumes "syncStoredClaim port c s = (Some (Inr c'), s')"
  shows "sameProof c c' \<and>
    (c' = c \<and> s' = s \<and> st_status c \<in> {LifecycleSettled, LifecycleRejected} \<or>
     st_status c \<in> {LifecyclePending, LifecycleSubmitted} \<and>
       ((\<exists>t sn t'. lookupConfirmedClaim port c t = (Some (Inr (Some sn)), t') \<and> confirmedBy c sn c') \<or>
        (\<exists>e. c' = failedAttempt c e)))"
proof (cases "stillOpen c")
  case False
  then have "st_status c \<in> {LifecycleSettled, LifecycleRejected}" by (cases "st_status c") (auto simp: stillOpen_def)
  with assms show ?thesis by (auto simp: syncStoredClaim_def sameProof_def)
next
  case True
  then have status: "st_status c \<in> {LifecyclePending, LifecycleSubmitted}" by (auto simp: stillOpen_def)
  from assms True show ?thesis
  proof (cases rule: syncStoredClaim_cases)
    case (failed e)
    with status show ?thesis by (auto simp: failedAttempt_same)
  next
    case (found sn s1 c'')
    with status applySnapshot_Inr [OF found(2)] show ?thesis by auto
  next
    case (sent t c'' sig)
    with status submitAndConfirm_Inr [OF sent(1)] show ?thesis by auto
  next
    case (observed t sn sig)
    with status applySnapshot_retry [OF observed(2) [symmetric]] afterFailure_Some [OF observed(1)] show ?thesis by blast
  qed
qed

text \<open>A synchronisation rejects only on a mismatching snapshot after a failed submission.\<close>

lemma syncStoredClaim_rejects:
  assumes "syncStoredClaim port c s = (Some (Inl e), s')"
  shows "\<exists>t sn t'. lookupConfirmedClaim port c t = (Some (Inr (Some sn)), t') \<and> \<not> snapshotOf c sn"
proof -
  have "stillOpen c" using assms by (cases "st_status c") (auto simp: syncStoredClaim_def stillOpen_def)
  with assms show ?thesis
  proof (cases rule: syncStoredClaim_cases)
    case (observed t sn sig)
    with applySnapshot_total have "\<not> snapshotOf c sn" by (metis Inl_Inr_False)
    with afterFailure_Some [OF observed(1)] show ?thesis by blast
  qed simp_all
qed

section \<open>Polling\<close>

definition pollSucceeds :: "(nat \<Rightarrow> int) \<Rightarrow> (nat \<Rightarrow> SignatureStatus option result option) \<Rightarrow> int \<Rightarrow> nat \<Rightarrow> bool" where
  "pollSucceeds clock statuses deadline i \<longleftrightarrow> clock i \<le> deadline \<and>
    (\<exists>s. statuses i = Some (Inr (Some s)) \<and> \<not> ss_failed s \<and>
      (ss_confirmationStatus s = Some ''confirmed'' \<or> ss_confirmationStatus s = Some ''finalized''))"

lemma pollConfirmation_step:
  assumes "clock poll \<le> deadline" "statuses poll \<noteq> None"
  shows "(\<exists>e. pollConfirmation clock statuses deadline poll = Some (Inl e)) \<or>
    pollSucceeds clock statuses deadline poll \<and> pollConfirmation clock statuses deadline poll = Some (Inr ()) \<or>
    pollConfirmation clock statuses deadline poll = pollConfirmation clock statuses deadline (Suc poll)"
proof -
  obtain answer where answer: "statuses poll = Some answer" using assms(2) by blast
  show ?thesis
  proof (cases answer)
    case (Inr status)
    with assms answer show ?thesis
      unfolding pollConfirmation.simps [of clock statuses deadline poll] pollSucceeds_def by (cases status) auto
  qed (use assms answer in \<open>simp add: pollConfirmation.simps [of clock statuses deadline poll]\<close>)
qed

lemma pollConfirmation_stops:
  assumes "\<And>i. clock i < clock (Suc i)" "\<And>i. statuses i \<noteq> None"
  shows "\<exists>r. pollConfirmation clock statuses deadline poll = Some r \<and> (r = Inr () \<longrightarrow> (\<exists>i \<ge> poll. pollSucceeds clock statuses deadline i))"
proof (induction "nat (deadline + 1 - clock poll)" arbitrary: poll rule: less_induct)
  case less
  show ?case
  proof (cases "clock poll \<le> deadline")
    case True
    then have "nat (deadline + 1 - clock (Suc poll)) < nat (deadline + 1 - clock poll)" using assms(1) [of poll] by linarith
    from less [OF this] obtain r where r: "pollConfirmation clock statuses deadline (Suc poll) = Some r"
      "r = Inr () \<longrightarrow> (\<exists>i \<ge> Suc poll. pollSucceeds clock statuses deadline i)" by blast
    let ?answer = "pollConfirmation clock statuses deadline poll"
    consider "\<exists>e. ?answer = Some (Inl e)" | "pollSucceeds clock statuses deadline poll" "?answer = Some (Inr ())" | "?answer = Some r"
      using pollConfirmation_step [of clock poll deadline statuses] assms(2) True r(1) by metis
    then show ?thesis using r(2) by cases (auto intro: Suc_leD)
  qed (simp add: pollConfirmation.simps)
qed

section \<open>The contracts of a port\<close>

text \<open>What the loop did: the claims it attempted with their outcomes, each from the state the last one left.\<close>

definition savedAfter :: "(StoredClaim list \<Rightarrow> 's \<Rightarrow> unit result \<times> 's) option \<Rightarrow> StoredClaim list \<Rightarrow> 's \<Rightarrow> unit result \<times> 's" where
  "savedAfter persist claims s = (case persist of None \<Rightarrow> (Inr (), s) | Some save \<Rightarrow> save claims s)"

fun attempted ::
  "'s ClaimSubmissionPort \<Rightarrow> (StoredClaim list \<Rightarrow> 's \<Rightarrow> unit result \<times> 's) option \<Rightarrow> StoredClaim list \<Rightarrow> (string \<times> StoredClaim) list \<Rightarrow>
    (StoredClaim \<times> StoredClaim) list \<Rightarrow> 's \<Rightarrow> 's \<Rightarrow> bool" where
  "attempted port persist claims updates [] s s' \<longleftrightarrow> s' = s"
| "attempted port persist claims updates ((c, c') # rest) s s' \<longleftrightarrow>
    (case syncStoredClaim port c s of (answer, s1) \<Rightarrow> answer = Some (Inr c') \<and>
      (let updates' = AList.update (st_credentialHash c) c' updates in
       attempted port persist claims updates' rest (snd (savedAfter persist (updatedClaims claims updates') s1)) s'))"

definition withUpdate :: "StoredClaim \<times> StoredClaim \<Rightarrow> (string \<times> StoredClaim) list \<Rightarrow> (string \<times> StoredClaim) list" where
  "withUpdate attempt updates = AList.update (st_credentialHash (fst attempt)) (snd attempt) updates"

definition reached :: "(StoredClaim \<times> StoredClaim) list \<Rightarrow> nat" where
  "reached attempts = length (filter (\<lambda>(c, c'). st_lastSubmissionError c' = None) attempts)"

definition missed :: "(StoredClaim \<times> StoredClaim) list \<Rightarrow> nat" where
  "missed attempts = length (filter (\<lambda>(c, c'). st_lastSubmissionError c' \<noteq> None) attempts)"

lemma counts_simps [simp]: "reached [] = 0" "missed [] = 0"
  "reached ((c, c') # rest) = (if st_lastSubmissionError c' = None then 1 else 0) + reached rest"
  "missed ((c, c') # rest) = (if st_lastSubmissionError c' = None then 0 else 1) + missed rest"
  by (simp_all add: reached_def missed_def)

lemma counts_all: "reached attempts + missed attempts = length attempts"
  by (induction attempts) auto

text \<open>A lookup returns snapshots of its claim only.\<close>

locale faithful_port =
  fixes lookup :: "StoredClaim \<Rightarrow> 's \<Rightarrow> AuthoritativeClaimSnapshot option result option \<times> 's"
    and transmit :: "StoredClaim \<Rightarrow> 's \<Rightarrow> string result option \<times> 's"
    and await :: "string \<Rightarrow> 's \<Rightarrow> unit result option \<times> 's"
  assumes faithful: "lookup c s = (Some (Inr (Some sn)), s') \<Longrightarrow> snapshotOf c sn"
begin

abbreviation port where
  "port \<equiv> \<lparr>lookupConfirmedClaim = lookup, submitClaim = transmit, confirmClaim = await\<rparr>"

lemma never_rejects: "syncStoredClaim port c s = (Some r, s') \<Longrightarrow> \<exists>c'. r = Inr c'"
  using syncStoredClaim_rejects [of port c s] faithful by (cases r) auto

end

text \<open>In the states \<open>live\<close>, every call settles.\<close>

locale settling_port = faithful_port lookup transmit await
  for lookup :: "StoredClaim \<Rightarrow> 's \<Rightarrow> AuthoritativeClaimSnapshot option result option \<times> 's"
    and transmit :: "StoredClaim \<Rightarrow> 's \<Rightarrow> string result option \<times> 's"
    and await :: "string \<Rightarrow> 's \<Rightarrow> unit result option \<times> 's" +
  fixes live :: "'s \<Rightarrow> bool"
  assumes looks: "live s \<Longrightarrow> \<exists>r s'. lookup c s = (Some r, s') \<and> live s'"
    and transmits: "live s \<Longrightarrow> \<exists>r s'. transmit c s = (Some r, s') \<and> live s'"
    and awaits: "live s \<Longrightarrow> \<exists>r s'. await t s = (Some r, s') \<and> live s'"
begin

lemma sends: "live s \<Longrightarrow> \<exists>r sig s'. submitAndConfirm port c s = (Some r, sig, s') \<and> live s'"
proof -
  assume "live s"
  then obtain r1 s1 where one: "transmit c s = (Some r1, s1)" "live s1" using transmits by blast
  then obtain r2 s2 where two: "await (projr r1) s1 = (Some r2, s2)" "live s2" using awaits by blast
  then obtain r3 s3 where three: "lookup c s2 = (Some r3, s3)" "live s3" using looks by blast
  from one two three show ?thesis
    by (auto simp: submitAndConfirm_def split: sum.split option.split)
qed

lemma sync_total: "live s \<Longrightarrow> \<exists>c' s'. syncStoredClaim port c s = (Some (Inr c'), s') \<and> live s'"
proof -
  assume s: "live s"
  obtain r1 s1 where one: "lookup c s = (Some r1, s1)" "live s1" using looks [OF s] by blast
  obtain r2 sig s2 where two: "submitAndConfirm port c s1 = (Some r2, sig, s2)" "live s2" using sends [OF one(2)] by blast
  obtain r3 s3 where three: "lookup c s2 = (Some r3, s3)" "live s3" using looks [OF two(2)] by blast
  have "\<exists>r s'. syncStoredClaim port c s = (Some r, s') \<and> live s'"
    using s one two three
    by (auto simp: syncStoredClaim_def lookupAfterAmbiguousFailure_def split: sum.split option.split)
  with never_rejects show ?thesis by blast
qed

lemma queue_total:
  assumes "\<And>save xs s. persist = Some save \<Longrightarrow> live s \<Longrightarrow> \<exists>s'. save xs s = (Inr (), s') \<and> live s'" "live s"
  shows "\<exists>p' s' attempts. syncEligible port persist claims cs p s = (Some (Inr p'), s') \<and> map fst attempts = cs \<and>
    attempted port persist claims (sy_updates p) attempts s s' \<and> sy_updates p' = fold withUpdate attempts (sy_updates p) \<and>
    sy_attempted p' = sy_attempted p + length attempts \<and> sy_confirmed p' = sy_confirmed p + reached attempts \<and>
    sy_failed p' = sy_failed p + missed attempts"
  using assms(2)
proof (induction cs arbitrary: p s)
  case Nil
  then show ?case by (intro exI [of _ p] exI [of _ s] exI [of _ "[]"]) simp
next
  case (Cons c cs)
  obtain c' s1 where c': "syncStoredClaim port c s = (Some (Inr c'), s1)" "live s1" using sync_total [OF Cons.prems] by blast
  define updates where "updates = AList.update (st_credentialHash c) c' (sy_updates p)"
  have "\<exists>s2. savedAfter persist (updatedClaims claims updates) s1 = (Inr (), s2) \<and> live s2"
  proof (cases persist)
    case (Some save)
    from assms(1) [OF this c'(2)] show ?thesis by (simp add: savedAfter_def Some)
  qed (use c'(2) in \<open>simp add: savedAfter_def\<close>)
  then obtain s2 where s2: "savedAfter persist (updatedClaims claims updates) s1 = (Inr (), s2)" "live s2" by blast
  let ?q = "\<lparr>sy_updates = updates, sy_attempted = sy_attempted p + 1,
        sy_confirmed = sy_confirmed p + (if st_lastSubmissionError c' = None then 1 else 0),
        sy_failed = sy_failed p + (if st_lastSubmissionError c' = None then 0 else 1)\<rparr>"
  from Cons.IH [OF s2(2), of ?q] obtain p' s' attempts where
    rest: "syncEligible port persist claims cs ?q s2 = (Some (Inr p'), s')" "map fst attempts = cs"
      "attempted port persist claims updates attempts s2 s'" "sy_updates p' = fold withUpdate attempts updates"
      "sy_attempted p' = sy_attempted ?q + length attempts" "sy_confirmed p' = sy_confirmed ?q + reached attempts"
      "sy_failed p' = sy_failed ?q + missed attempts"
    by auto
  have saved: "(case persist of None \<Rightarrow> (Inr (), s1) | Some save \<Rightarrow> save (updatedClaims claims updates) s1) = (Inr (), s2)"
    using s2(1) by (simp add: savedAfter_def)
  have first: "withUpdate (c, c') (sy_updates p) = updates" by (simp add: withUpdate_def updates_def)
  have "syncEligible port persist claims (c # cs) p s = (Some (Inr p'), s')"
    using rest(1) c'(1) saved by (simp add: Let_def flip: updates_def)
  moreover have "attempted port persist claims (sy_updates p) ((c, c') # attempts) s s'"
    using rest(3) c'(1) s2(1) by (simp add: Let_def flip: updates_def)
  moreover have "sy_updates p' = fold withUpdate ((c, c') # attempts) (sy_updates p)" using rest(4) first by simp
  ultimately show ?case using rest(2,5-7)
    by (intro exI [of _ p'] exI [of _ s'] exI [of _ "(c, c') # attempts"]) simp
qed

end

section \<open>The port to Solana keeps the contract\<close>

lemma lookupClaim_snapshot:
  assumes "lookupClaim L W config answer c = Inr (Some sn)"
  shows "snapshotOf c sn"
proof -
  obtain slot status where "sn = \<lparr>cs_confirmed = True, cs_credentialHash = st_credentialHash c, cs_sessionId = st_sessionId c,
      cs_amount = st_amount c, cs_status = status, cs_confirmedSlot = natDecimal slot, cs_transactionSignature = None\<rparr>"
    using assms by (auto simp: lookupClaim_def bindE_Inr_iff split: option.splits)
  then show ?thesis by (simp add: snapshotOf_def natDecimal_canonical)
qed

lemma solanaPort_lookup:
  assumes "lookupConfirmedClaim (solanaPort L W config node) c st = (Some (Inr (Some sn)), st')"
  shows "\<exists>answer. lookupClaim L W config answer c = Inr (Some sn)"
  using assms by (auto simp: solanaPort_def split: prod.splits sum.splits option.splits)

text \<open>A node that answers every request, seen through a clock that advances, and a cluster check that is not waited for in vain.\<close>

definition answering :: "'w ChainNode \<Rightarrow> bool" where
  "answering node \<longleftrightarrow> (\<forall>w. fst (nd_getGenesisHash node w) \<noteq> None) \<and> (\<forall>address w. fst (nd_getAccountInfo node address w) \<noteq> None) \<and>
     (\<forall>request w. fst (nd_relayer node request w) \<noteq> None) \<and>
     (\<forall>signature w i. pr_statuses (fst (nd_polled node signature w)) i \<noteq> None \<and>
       pr_clock (fst (nd_polled node signature w)) i < pr_clock (fst (nd_polled node signature w)) (Suc i))"

definition solanaLive :: "'w ChainNode \<Rightarrow> 'w port_state \<Rightarrow> bool" where
  "solanaLive node st \<longleftrightarrow> answering node \<and> fst st \<noteq> Some None"

lemma awaitCluster_settles:
  assumes "solanaLive node st"
  obtains r st' where "awaitCluster W trust node st = (Some r, st')" "solanaLive node st'" "fst st' \<noteq> None"
proof -
  obtain answer w where a: "nd_getGenesisHash node (snd st) = (answer, w)" by force
  then have "answer \<noteq> None" using assms by (auto simp: solanaLive_def answering_def) (metis fst_conv)
  with a assms that show thesis
    by (cases "fst st") (auto simp: awaitCluster_def verifyCluster_def solanaLive_def Let_def)
qed

lemma confirmTransaction_settles:
  assumes "answering node" "nd_polled node signature w = (run, w')"
  shows "\<exists>r. confirmTransaction (pr_clock run) (pr_statuses run) now timeout signature = Some r"
proof -
  have "pr_clock run i < pr_clock run (Suc i)" "pr_statuses run i \<noteq> None" for i
    using assms unfolding answering_def by (metis fst_conv)+
  then have "\<exists>r. pollConfirmation (pr_clock run) (pr_statuses run) (now + timeout) 0 = Some r"
    using pollConfirmation_stops [of "pr_clock run" "pr_statuses run" "now + timeout" 0] by blast
  then show ?thesis by (auto simp: confirmTransaction_def)
qed

lemma solana_settles:
  assumes "solanaLive node st"
  shows "\<exists>r st'. lookupConfirmedClaim (solanaPort L W config node) c st = (Some r, st') \<and> solanaLive node st'"
    "\<exists>r st'. submitClaim (solanaPort L W config node) c st = (Some r, st') \<and> solanaLive node st'"
    "\<exists>r st'. confirmClaim (solanaPort L W config node) t st = (Some r, st') \<and> solanaLive node st'"
proof -
  obtain r checked world where cluster: "awaitCluster W (sp_trust config) node st = (Some r, (checked, world))" "solanaLive node (checked, world)"
    using awaitCluster_settles [OF assms, of W "sp_trust config"] by (metis prod.collapse)
  have live: "solanaLive node (checked, w)" for w using cluster(2) by (simp add: solanaLive_def)
  have node: "answering node" using assms by (simp add: solanaLive_def)
  obtain info w1 where info: "nd_getAccountInfo node (ca_claim (snd (projr (evidenceFor L W config c)))) world = (info, w1)" by force
  obtain reply w2 where reply: "nd_relayer node (requestFor W (sp_programId config) (snd (projr (evidenceFor L W config c)))
      (fst (projr (evidenceFor L W config c))) (sp_trust config)) world = (reply, w2)" by force
  obtain run w3 where run: "nd_polled node t world = (run, w3)" by force
  have "info \<noteq> None" "reply \<noteq> None" using node info reply unfolding answering_def by (metis fst_conv)+
  with cluster info live show "\<exists>r st'. lookupConfirmedClaim (solanaPort L W config node) c st = (Some r, st') \<and> solanaLive node st'"
    by (auto simp: solanaPort_def split: sum.split)
  from \<open>reply \<noteq> None\<close> cluster reply live show "\<exists>r st'. submitClaim (solanaPort L W config node) c st = (Some r, st') \<and> solanaLive node st'"
    by (auto simp: solanaPort_def split: sum.split)
  from cluster run live confirmTransaction_settles [OF node run, of "pr_now run" "sp_confirmationTimeoutMs config"]
  show "\<exists>r st'. confirmClaim (solanaPort L W config node) t st = (Some r, st') \<and> solanaLive node st'"
    by (auto simp: solanaPort_def split: sum.split)
qed

interpretation solana: settling_port
  "lookupConfirmedClaim (solanaPort L W config node)" "submitClaim (solanaPort L W config node)" "confirmClaim (solanaPort L W config node)"
  "solanaLive node"
  for L W config node
proof unfold_locales
  fix c st sn st' assume "lookupConfirmedClaim (solanaPort L W config node) c st = (Some (Inr (Some sn)), st')"
  then show "snapshotOf c sn" using solanaPort_lookup lookupClaim_snapshot by blast
qed (use solana_settles in blast)+

lemma port_fields: "\<lparr>lookupConfirmedClaim = lookupConfirmedClaim p, submitClaim = submitClaim p, confirmClaim = confirmClaim p\<rparr> = p"
  by simp

lemmas solana_queue_total = solana.queue_total [unfolded port_fields]

section \<open>What the queue changes\<close>

lemma attempted_same: "attempted port persist claims updates attempts s s' \<Longrightarrow> (c, c') \<in> set attempts \<Longrightarrow> sameProof c c'"
proof (induction attempts arbitrary: updates s)
  case (Cons attempt rest)
  then show ?case using syncStoredClaim_outcome [of port c s c'] by (cases attempt) (auto simp: Let_def split: prod.splits)
qed simp

lemma updates_other: "h \<notin> st_credentialHash ` fst ` set attempts \<Longrightarrow> map_of (fold withUpdate attempts updates) h = map_of updates h"
  by (induction attempts arbitrary: updates) (auto simp: withUpdate_def update_conv')

lemma updates_found:
  "distinct (map (st_credentialHash \<circ> fst) attempts) \<Longrightarrow> (c, c') \<in> set attempts \<Longrightarrow>
    map_of (fold withUpdate attempts updates) (st_credentialHash c) = Some c'"
proof (induction attempts arbitrary: updates)
  case (Cons attempt rest)
  show ?case
  proof (cases "attempt = (c, c')")
    case True
    then have "st_credentialHash c \<notin> st_credentialHash ` fst ` set rest" using Cons.prems(1) by (auto simp: comp_def)
    from updates_other [OF this, of "withUpdate (c, c') updates"] show ?thesis using True by (simp add: withUpdate_def [of "(c, c') "] update_conv')
  qed (use Cons in auto)
qed simp

lemma eligible_open: "set (eligibleClaims claims) = {c \<in> set claims. stillOpen c}"
  "length (eligibleClaims claims) = length (filter stillOpen claims)"
  by (auto simp: eligibleClaims_def stillOpen_def [abs_def])

text \<open>Entry by entry, the queue after a synchronisation is the queue before it.\<close>

lemma updatedClaims_attempts:
  assumes "distinct (map st_credentialHash claims)" "attempted port persist claims [] attempts s s'"
    "map fst attempts = eligibleClaims claims"
  shows "list_all2 (\<lambda>c c'. sameProof c c' \<and> (if stillOpen c then (c, c') \<in> set attempts else c' = c)) claims
    (updatedClaims claims (fold withUpdate attempts []))"
proof -
  have opened: "fst ` set attempts = {c \<in> set claims. stillOpen c}" using assms(3) eligible_open(1) [of claims] by (metis set_map)
  have inj: "inj_on st_credentialHash (set claims)" and claims: "distinct claims" using assms(1) by (simp_all add: distinct_map)
  have "distinct (map fst attempts)" unfolding assms(3) eligibleClaims_def using claims by (simp add: distinct_sortBy)
  moreover have "inj_on st_credentialHash (set (map fst attempts))" using inj opened by (auto intro: inj_on_subset)
  ultimately have hashes: "distinct (map (st_credentialHash \<circ> fst) attempts)" by (metis distinct_map map_map)
  have "sameProof c c' \<and> (if stillOpen c then (c, c') \<in> set attempts else c' = c)"
    if c: "c \<in> set claims" "c' = (case map_of (fold withUpdate attempts []) (st_credentialHash c) of None \<Rightarrow> c | Some u \<Rightarrow> u)" for c c'
  proof (cases "stillOpen c")
    case True
    then obtain u where u: "(c, u) \<in> set attempts" using c(1) opened by force
    with updates_found [OF hashes u, of "[]"] attempted_same [OF assms(2) u] True c(2) show ?thesis by simp
  next
    case False
    have "st_credentialHash c \<notin> st_credentialHash ` fst ` set attempts"
      using inj c(1) False unfolding opened by (auto dest: inj_onD)
    with updates_other [OF this, of "[]"] False c(2) show ?thesis by (simp add: sameProof_def)
  qed
  then show ?thesis by (simp add: updatedClaims_def list_all2_map2 list.rel_refl_strong)
qed

lemma solana_queue:
  assumes "distinct (map st_credentialHash claims)"
    "\<And>save xs cluster w. persist = Some save \<Longrightarrow> \<exists>w'. save xs (cluster, w) = (Inr (), (cluster, w'))" "solanaLive node st"
  shows "\<exists>r st' attempts. syncClaimQueue (solanaPort L W config node) claims True persist st = (Some (Inr r), st') \<and>
    map fst attempts = eligibleClaims claims \<and> attempted (solanaPort L W config node) persist claims [] attempts st st' \<and>
    list_all2 (\<lambda>c c'. sameProof c c' \<and> (if stillOpen c then (c, c') \<in> set attempts else c' = c)) claims (qs_claims r) \<and>
    qs_attempted r = length attempts \<and> qs_confirmed r = reached attempts \<and> qs_failed r = missed attempts"
proof -
  let ?p = "\<lparr>sy_updates = [], sy_attempted = 0, sy_confirmed = 0, sy_failed = 0\<rparr>"
  have saves: "\<exists>s'. save xs s = (Inr (), s') \<and> solanaLive node s'" if "persist = Some save" "solanaLive node s" for save xs s
    using assms(2) [OF that(1), of xs "fst s" "snd s"] that(2) by (auto simp: solanaLive_def)
  obtain p' st' attempts where
    run: "syncEligible (solanaPort L W config node) persist claims (eligibleClaims claims) ?p st = (Some (Inr p'), st')"
      "map fst attempts = eligibleClaims claims" "attempted (solanaPort L W config node) persist claims [] attempts st st'"
      "sy_updates p' = fold withUpdate attempts []" "sy_attempted p' = length attempts" "sy_confirmed p' = reached attempts"
      "sy_failed p' = missed attempts"
    using solana_queue_total [of persist node st L W config claims "eligibleClaims claims" ?p, OF _ assms(3)] saves by auto
  let ?r = "\<lparr>qs_claims = updatedClaims claims (sy_updates p'), qs_attempted = sy_attempted p', qs_confirmed = sy_confirmed p',
      qs_failed = sy_failed p'\<rparr>"
  have "syncClaimQueue (solanaPort L W config node) claims True persist st = (Some (Inr ?r), st')"
    using run(1) by (simp add: syncClaimQueue_def)
  then show ?thesis using updatedClaims_attempts [OF assms(1) run(3,2)] run(2-7)
    by (intro exI [of _ ?r] exI [of _ st'] exI [of _ attempts]) simp
qed

section \<open>What the port has seen when it advances a claim\<close>

lemma lookupClaim_account:
  assumes "lookupClaim L W config answer c = Inr (Some sn)"
  shows "\<exists>ev a account slot decoded. evidenceFor L W config c = Inr (ev, a) \<and> answer (ca_claim a) = Inr (Some account, slot) \<and>
    ac_owner account = sp_programId config \<and> decodeClaim (ac_data account) = Inr decoded \<and>
    dc_session decoded = ca_session a \<and> dc_credentialHash decoded = cm_credentialHash (sce_material ev) \<and>
    dc_merchant decoded = sce_merchant ev \<and> dc_amount decoded = sce_amount ev \<and>
    cs_status sn = dc_status decoded \<and> cs_confirmedSlot sn = natDecimal slot"
  using assms by (auto simp: lookupClaim_def bindE_Inr_iff split: option.splits)

lemma solanaPort_account:
  assumes "lookupConfirmedClaim (solanaPort L W config node) c st = (Some (Inr (Some sn)), st')"
  shows "\<exists>ev a w account slot w' decoded. evidenceFor L W config c = Inr (ev, a) \<and>
    nd_getAccountInfo node (ca_claim a) w = (Some (Inr (Some account, slot)), w') \<and>
    ac_owner account = sp_programId config \<and> decodeClaim (ac_data account) = Inr decoded \<and>
    dc_session decoded = ca_session a \<and> dc_credentialHash decoded = cm_credentialHash (sce_material ev) \<and>
    dc_merchant decoded = sce_merchant ev \<and> dc_amount decoded = sce_amount ev \<and>
    cs_status sn = dc_status decoded \<and> cs_confirmedSlot sn = natDecimal slot"
proof -
  obtain st1 ev a answer w where "evidenceFor L W config c = Inr (ev, a)"
    "nd_getAccountInfo node (ca_claim a) (snd st1) = (Some answer, w)" "lookupClaim L W config (\<lambda>_. answer) c = Inr (Some sn)"
    using assms by (auto simp: solanaPort_def split: prod.splits sum.splits option.splits)
  with lookupClaim_account [OF this(3)] show ?thesis by fastforce
qed

section \<open>A cluster that could not be verified\<close>

lemma broken_port:
  "lookupConfirmedClaim (solanaPort L W config node) c (Some (Some (Inl e)), w) = (Some (Inl e), (Some (Some (Inl e)), w))"
  by (simp add: solanaPort_def awaitCluster_def)

lemma unverified_port:
  assumes "nd_getGenesisHash node w = (Some (Inl e), w')"
  shows "lookupConfirmedClaim (solanaPort L W config node) c (None, w) = (Some (Inl e), (Some (Some (Inl e)), w'))"
  using assms by (simp add: solanaPort_def awaitCluster_def verifyCluster_def checkedCluster_def Let_def)

lemma broken_sync:
  assumes "stillOpen c"
  shows "syncStoredClaim (solanaPort L W config node) c (Some (Some (Inl e)), w) = (Some (Inr (failedAttempt c e)), (Some (Some (Inl e)), w))"
  using assms by (auto simp: syncStoredClaim_def stillOpen_def broken_port)

lemma unverified_sync:
  assumes "stillOpen c" "nd_getGenesisHash node w = (Some (Inl e), w')"
  shows "syncStoredClaim (solanaPort L W config node) c (None, w) = (Some (Inr (failedAttempt c e)), (Some (Some (Inl e)), w'))"
  using assms by (auto simp: syncStoredClaim_def stillOpen_def unverified_port)

lemma broken_queue:
  assumes "list_all stillOpen cs"
  shows "\<exists>p'. syncEligible (solanaPort L W config node) None claims cs p (Some (Some (Inl e)), w) = (Some (Inr p'), (Some (Some (Inl e)), w)) \<and>
    sy_confirmed p' = sy_confirmed p \<and> sy_failed p' = sy_failed p + length cs"
  using assms
proof (induction cs arbitrary: p)
  case (Cons c cs)
  then show ?case
    using Cons.IH [of "\<lparr>sy_updates = AList.update (st_credentialHash c) (failedAttempt c e) (sy_updates p),
      sy_attempted = sy_attempted p + 1, sy_confirmed = sy_confirmed p, sy_failed = sy_failed p + 1\<rparr>"]
    by (auto simp: broken_sync failedAttempt_def)
qed simp

text \<open>
  No request to the node has a timeout: while the first one is not answered, the queue does not
  return, and no later synchronisation through the port does.
\<close>

lemma unanswered_queue_hangs:
  assumes "filter stillOpen claims \<noteq> []" "cluster = Some None \<or> cluster = None \<and> nd_getGenesisHash node w = (None, w')"
  shows "\<exists>w''. syncClaimQueue (solanaPort L W config node) claims True persist (cluster, w) = (None, (Some None, w''))"
proof -
  have "length (eligibleClaims claims) \<noteq> 0" using assms(1) by (simp only: eligible_open length_0_conv) simp
  then obtain c cs where cs: "eligibleClaims claims = c # cs" by (cases "eligibleClaims claims") auto
  then have "stillOpen c" using eligible_open(1) [of claims] by auto
  with assms(2) show ?thesis
    by (auto simp: syncClaimQueue_def cs syncStoredClaim_def stillOpen_def solanaPort_def awaitCluster_def verifyCluster_def)
qed

end
