(* ===== verification/SyncTheorems.thy ===== *)
theory SyncTheorems
  imports SyncFacts ClaimSamples
begin

text \<open>
  The properties of the synchronisation of the stored claims with the chain, through the port the
  application builds.
\<close>

section \<open>The sample chain\<close>

text \<open>The sample claim, settled on chain; the world counts the requests.\<close>

definition sampleOnchainClaim :: DecodedClaim where
  "sampleOnchainClaim = \<lparr>dc_credentialHash = cm_credentialHash sampleMaterial, dc_session = replicate 32 3,
     dc_merchant = replicate 32 9, dc_amount = 40, dc_sequence = 1, dc_previousStateHash = ZERO, dc_newStateHash = ZERO,
     dc_submittedSlot = 77, dc_status = ClaimSettled, dc_rejectionReason = RejectionNone, dc_allocatedAmount = 40,
     dc_settledAmount = 40, dc_bump = 1, dc_previousClaim = ZERO, dc_nextClaim = ZERO, dc_allocationProcessed = True\<rparr>"

definition sampleNode :: "string result \<Rightarrow> nat ChainNode" where
  "sampleNode genesis = \<lparr>nd_getGenesisHash = (\<lambda>w. (Some genesis, Suc w)),
     nd_getAccountInfo = (\<lambda>address w. (Some (Inr (Some \<lparr>ac_owner = replicate 32 2, ac_data = claimAccount sampleOnchainClaim\<rparr>, 77)), Suc w)),
     nd_relayer = (\<lambda>request w. (Some (Inl (JsError ''offline'')), Suc w)),
     nd_polled = (\<lambda>signature w. (\<lparr>pr_now = 0, pr_clock = (\<lambda>i. 750 * int i), pr_statuses = (\<lambda>i. Some (Inr None))\<rparr>, Suc w))\<rparr>"

lemma sampleNode_answers: "answering (sampleNode genesis)"
  by (simp add: answering_def sampleNode_def)

abbreviation sampleGenesis :: "string result" where "sampleGenesis \<equiv> Inr (bytesToHex (replicate 32 1))"

lemma sampleOnchainClaim_decodes: "decodeClaim (claimAccount sampleOnchainClaim) = Inr sampleOnchainClaim"
proof -
  have "length (cm_credentialHash sampleMaterial) = 32" using sampleMaterial_facts length_hashSha256 [OF sampleLib_hash] by auto
  then have "validClaim sampleOnchainClaim" by (simp add: validClaim_def sampleOnchainClaim_def ZERO_def integer_ranges)
  then show ?thesis using decodeClaim_account by blast
qed

lemma sample_lookup:
  "lookupConfirmedClaim (solanaPort sampleLib sampleWeb3 samplePort (sampleNode sampleGenesis)) sampleClaim (None, 0) =
    (Some (Inr (Some \<lparr>cs_confirmed = True, cs_credentialHash = st_credentialHash sampleClaim, cs_sessionId = st_sessionId sampleClaim,
       cs_amount = st_amount sampleClaim, cs_status = ClaimSettled, cs_confirmedSlot = natDecimal 77,
       cs_transactionSignature = None\<rparr>)), (Some (Some (Inr ())), 2))"
proof -
  have "publicKeyOfBase58 sampleWeb3 (bytesToHex (replicate 32 1)) = Some (ev_clusterGenesisHash (sp_trust samplePort))"
    using sample_domain(5) by (simp add: sampleConnection_def)
  then have cluster: "awaitCluster sampleWeb3 (sp_trust samplePort) (sampleNode sampleGenesis) (None, 0) =
      (Some (Inr ()), (Some (Some (Inr ())), 1))"
    by (simp add: awaitCluster_def verifyCluster_def checkedCluster_def sampleNode_def Let_def)
  have "lookupClaim sampleLib sampleWeb3 samplePort
      (\<lambda>_. Inr (Some \<lparr>ac_owner = replicate 32 2, ac_data = claimAccount sampleOnchainClaim\<rparr>, 77)) sampleClaim =
    Inr (Some \<lparr>cs_confirmed = True, cs_credentialHash = st_credentialHash sampleClaim, cs_sessionId = st_sessionId sampleClaim,
       cs_amount = st_amount sampleClaim, cs_status = ClaimSettled, cs_confirmedSlot = natDecimal 77, cs_transactionSignature = None\<rparr>)"
    by (simp add: lookupClaim_def sampleClaim_evidence sampleOnchainClaim_decodes)
      (simp add: sampleOnchainClaim_def samplePort_def sampleEvidence_def sampleAddresses_def)
  with cluster show ?thesis by (simp add: solanaPort_def sampleClaim_evidence) (simp add: sampleNode_def)
qed

lemma sample_sync:
  obtains c' where "syncStoredClaim (solanaPort sampleLib sampleWeb3 samplePort (sampleNode sampleGenesis)) sampleClaim (None, 0) =
    (Some (Inr c'), (Some (Some (Inr ())), 2))" "st_status c' = LifecycleSettled" "st_lastSubmissionError c' = None"
proof -
  let ?sn = "\<lparr>cs_confirmed = True, cs_credentialHash = st_credentialHash sampleClaim, cs_sessionId = st_sessionId sampleClaim,
       cs_amount = st_amount sampleClaim, cs_status = ClaimSettled, cs_confirmedSlot = natDecimal 77, cs_transactionSignature = None\<rparr>"
  have "snapshotOf sampleClaim ?sn" by (simp add: snapshotOf_def natDecimal_canonical)
  from applySnapshot_total [OF this, of "st_submissionAttempts sampleClaim" None]
  obtain c' where c': "applySnapshot sampleClaim ?sn None = Inr c'" by auto
  show thesis
  proof (rule that)
    show "syncStoredClaim (solanaPort sampleLib sampleWeb3 samplePort (sampleNode sampleGenesis)) sampleClaim (None, 0) =
      (Some (Inr c'), (Some (Some (Inr ())), 2))"
      using c' by (simp add: syncStoredClaim_def sample_lookup) (simp add: sampleClaim_def createStoredClaim_def)
  qed (use applySnapshot_Inr [OF c'] in \<open>simp_all add: confirmedBy_def lifecycleStatus_def\<close>)
qed

section \<open>Local state follows the chain\<close>

text \<open>
  C17: synchronising a stored claim never changes the stored proof, and its status
  changes in one way only: to the status of an account that the program of the trusted domain
  owns at the address derived from the proof, and that holds this session, credential hash,
  merchant and amount. A finished claim is left alone and a failed attempt keeps the status.
\<close>

theorem settlement_is_onchain:
  assumes "syncStoredClaim (solanaPort L W config node) c st = (Some (Inr c'), st')"
  shows "sameProof c c' \<and>
    (c' = c \<and> \<not> stillOpen c \<or> stillOpen c \<and>
      ((\<exists>e. c' = failedAttempt c e) \<or>
       (\<exists>ev a w account slot w' decoded. evidenceFor L W config c = Inr (ev, a) \<and>
          nd_getAccountInfo node (ca_claim a) w = (Some (Inr (Some account, slot)), w') \<and>
          ac_owner account = sp_programId config \<and> decodeClaim (ac_data account) = Inr decoded \<and>
          dc_session decoded = ca_session a \<and> dc_credentialHash decoded = cm_credentialHash (sce_material ev) \<and>
          dc_merchant decoded = sce_merchant ev \<and> dc_amount decoded = sce_amount ev \<and>
          st_status c' = lifecycleStatus (dc_status decoded) \<and> st_lastConfirmedSlot c' = Some (natDecimal slot) \<and>
          st_lastSubmissionError c' = None)))"
proof -
  note outcome = syncStoredClaim_outcome [OF assms]
  then consider "c' = c" "st_status c \<in> {LifecycleSettled, LifecycleRejected}"
    | t sn t' where "st_status c \<in> {LifecyclePending, LifecycleSubmitted}" "confirmedBy c sn c'"
        "lookupConfirmedClaim (solanaPort L W config node) c t = (Some (Inr (Some sn)), t')"
    | e where "st_status c \<in> {LifecyclePending, LifecycleSubmitted}" "c' = failedAttempt c e" by blast
  then show ?thesis
  proof cases
    case 2
    with solanaPort_account [OF 2(3)] outcome show ?thesis by (fastforce simp: confirmedBy_def stillOpen_def)
  qed (use outcome in \<open>auto simp: stillOpen_def\<close>)
qed

theorem settlement_is_onchain_witness:
  "\<exists>c' st'. syncStoredClaim (solanaPort sampleLib sampleWeb3 samplePort (sampleNode sampleGenesis)) sampleClaim (None, 0) = (Some (Inr c'), st') \<and>
     sameProof sampleClaim c' \<and> st_status c' = LifecycleSettled"
proof -
  obtain c' where c': "syncStoredClaim (solanaPort sampleLib sampleWeb3 samplePort (sampleNode sampleGenesis)) sampleClaim (None, 0) =
    (Some (Inr c'), (Some (Some (Inr ())), 2))" "st_status c' = LifecycleSettled" by (rule sample_sync)
  from settlement_is_onchain [OF c'(1)] c' show ?thesis by blast
qed

section \<open>The queue\<close>

text \<open>
  C32: with the application's port, when the credential hashes of the queue are distinct, the
  store takes the writes, the node and the relayer answer every request (with anything, errors
  included) and the clock advances, a synchronisation of the queue returns. It has attempted
  every open claim exactly once, in the order of the hashes, each from the state the one before
  left behind: the claim in the returned queue is the outcome of its own attempt, or, when it was
  already finished or nothing was online, the claim itself, and always carries the same proof. The three
  counters are the numbers of the attempts, of those that left no error and of those that left one.
\<close>

theorem queue_never_starves:
  assumes "distinct (map st_credentialHash claims)" "answering node" "fst st \<noteq> Some None"
    "\<And>save xs cluster w. persist = Some save \<Longrightarrow> \<exists>w'. save xs (cluster, w) = (Inr (), (cluster, w'))"
  shows "\<exists>r st' attempts. syncClaimQueue (solanaPort L W config node) claims online persist st = (Some (Inr r), st') \<and>
    map fst attempts = (if online then eligibleClaims claims else []) \<and>
    distinct (map fst attempts) \<and> fst ` set attempts = {c \<in> set claims. online \<and> stillOpen c} \<and>
    attempted (solanaPort L W config node) persist claims [] attempts st st' \<and>
    list_all2 (\<lambda>c c'. sameProof c c' \<and> (if online \<and> stillOpen c then (c, c') \<in> set attempts else c' = c)) claims (qs_claims r) \<and>
    qs_attempted r = length attempts \<and> qs_confirmed r = reached attempts \<and> qs_failed r = missed attempts"
proof (cases online)
  case True
  obtain r st' attempts where queue:
    "syncClaimQueue (solanaPort L W config node) claims True persist st = (Some (Inr r), st')"
    "map fst attempts = eligibleClaims claims" "attempted (solanaPort L W config node) persist claims [] attempts st st'"
    "list_all2 (\<lambda>c c'. sameProof c c' \<and> (if stillOpen c then (c, c') \<in> set attempts else c' = c)) claims (qs_claims r)"
    "qs_attempted r = length attempts" "qs_confirmed r = reached attempts" "qs_failed r = missed attempts"
    using solana_queue [of claims persist node st L W config] assms by (auto simp: solanaLive_def)
  moreover have "fst ` set attempts = {c \<in> set claims. stillOpen c}" using queue(2) eligible_open(1) [of claims] by (metis set_map)
  moreover have "distinct (map fst attempts)"
    unfolding queue(2) eligibleClaims_def using assms(1) by (simp add: distinct_sortBy distinct_map)
  ultimately show ?thesis using True by (intro exI [of _ r] exI [of _ st'] exI [of _ attempts]) simp
qed (simp add: syncClaimQueue_def list_all2_same sameProof_def)

theorem queue_never_starves_witness:
  "\<exists>r st' attempts. syncClaimQueue (solanaPort sampleLib sampleWeb3 samplePort (sampleNode sampleGenesis)) [sampleClaim] True None (None, 0) =
     (Some (Inr r), st') \<and> map fst attempts = [sampleClaim] \<and> qs_attempted r = 1 \<and> qs_claims r = map snd attempts"
proof -
  have eligible: "eligibleClaims [sampleClaim] = [sampleClaim]"
    by (simp add: eligibleClaims_def sampleClaim_def createStoredClaim_def)
  have "stillOpen sampleClaim" by (simp add: stillOpen_def sampleClaim_def createStoredClaim_def)
  with queue_never_starves [of "[sampleClaim]" "sampleNode sampleGenesis" "(None, 0)" None sampleLib sampleWeb3 samplePort True]
  show ?thesis by (fastforce simp: sampleNode_answers eligible list_all2_Cons1)
qed

text \<open>
  C39: the port keeps the outcome of its first check of the cluster. When that
  one request fails, every open claim of the queue fails, although the node is asked nothing
  more: the state behind the port is the one after the failed request.
\<close>

theorem one_failure_fails_the_queue:
  assumes "nd_getGenesisHash node w = (Some (Inl e), w')" "filter stillOpen claims \<noteq> []"
  shows "\<exists>r. syncClaimQueue (solanaPort L W config node) claims True None (None, w) = (Some (Inr r), (Some (Some (Inl e)), w')) \<and>
    qs_confirmed r = 0 \<and> qs_failed r = length (filter stillOpen claims)"
proof -
  have all: "list_all stillOpen (eligibleClaims claims)" by (simp add: list_all_iff eligible_open)
  have "length (eligibleClaims claims) \<noteq> 0" using assms(2) by (simp only: eligible_open length_0_conv) simp
  then obtain c cs where cs: "eligibleClaims claims = c # cs" by (cases "eligibleClaims claims") auto
  then have "stillOpen c" "list_all stillOpen cs" using all by auto
  let ?p = "\<lparr>sy_updates = [(st_credentialHash c, failedAttempt c e)], sy_attempted = 1, sy_confirmed = 0, sy_failed = 1\<rparr>"
  obtain p' where p': "syncEligible (solanaPort L W config node) None claims cs ?p (Some (Some (Inl e)), w') = (Some (Inr p'), (Some (Some (Inl e)), w'))"
    "sy_confirmed p' = 0" "sy_failed p' = Suc (length cs)"
    using broken_queue [OF \<open>list_all stillOpen cs\<close>, of L W config node claims ?p e w'] by auto
  have "syncEligible (solanaPort L W config node) None claims (eligibleClaims claims)
      \<lparr>sy_updates = [], sy_attempted = 0, sy_confirmed = 0, sy_failed = 0\<rparr> (None, w) = (Some (Inr p'), (Some (Some (Inl e)), w'))"
    using p'(1) unverified_sync [OF \<open>stillOpen c\<close> assms(1)] by (simp add: cs failedAttempt_def)
  moreover have "length (filter stillOpen claims) = Suc (length cs)" using cs eligible_open(2) [of claims] by simp
  ultimately show ?thesis using p' by (simp add: syncClaimQueue_def)
qed

theorem one_failure_fails_the_queue_witness:
  "\<exists>r. syncClaimQueue (solanaPort sampleLib sampleWeb3 samplePort (sampleNode (Inl (JsError ''timeout''))))
      [sampleClaim, sampleClaim\<lparr>st_credentialHash := ''00''\<rparr>] True None (None, 0) = (Some (Inr r), (Some (Some (Inl (JsError ''timeout''))), 1)) \<and>
    qs_confirmed r = 0 \<and> qs_failed r = 2"
proof -
  have "filter stillOpen [sampleClaim, sampleClaim\<lparr>st_credentialHash := ''00''\<rparr>] = [sampleClaim, sampleClaim\<lparr>st_credentialHash := ''00''\<rparr>]"
    by (simp add: stillOpen_def sampleClaim_def createStoredClaim_def)
  with one_failure_fails_the_queue [of "sampleNode (Inl (JsError ''timeout''))" 0 "JsError ''timeout''" 1
      "[sampleClaim, sampleClaim\<lparr>st_credentialHash := ''00''\<rparr>]" sampleLib sampleWeb3 samplePort]
  show ?thesis by (simp add: sampleNode_def numeral_2_eq_2)
qed

section \<open>Waiting for the confirmation\<close>

text \<open>
  C38: on a clock that advances from round to round, when the node answers each
  round, the wait for a confirmation ends, and it ends well only if within the deadline a round saw the transaction confirmed or
  finalized without an error.
\<close>

theorem confirmation_terminates:
  assumes "\<And>i. clock i < clock (Suc i)" "\<And>i. statuses i \<noteq> None"
  shows "\<exists>r. confirmTransaction clock statuses now timeout signature = Some r \<and>
    (r = Inr () \<longrightarrow> isSolanaSignature signature \<and> (\<exists>i. pollSucceeds clock statuses (now + timeout) i))"
  using pollConfirmation_stops [of clock statuses "now + timeout" 0, OF assms] by (auto simp: confirmTransaction_def)

theorem confirmation_terminates_witness:
  "\<exists>r. confirmTransaction (\<lambda>i. 750 * int i) (\<lambda>i. Some (Inr None)) 0 45000 (replicate 64 (CHR ''1'')) = Some r"
  using confirmation_terminates [of "\<lambda>i. 750 * int i" "\<lambda>i. Some (Inr None)" 0 45000 "replicate 64 (CHR ''1'')"] by auto

end
