(* ===== verification/SessionAccess.thy ===== *)
theory SessionAccess
  imports ProtocolSdk JsonValue TextCoding
begin

text \<open>
  The payer's access gate: \<open>session-access.ts\<close>, \<open>onchain-recovery.ts\<close> and
  \<open>confirmed-recovery-port.ts\<close> of \<open>apps/payer-mobile/src\<close>. What the local installation and the
  confirmed on-chain accounts say decides whether the payer may spend offline.
\<close>

section \<open>The gate\<close>

datatype SessionAccessOutcome =
  OfflineReady | OnlineRecoveryRequired | ActiveSessionBlocksReprovisioning | OfflineAccessRevoked
| WalletAuthorizationRequired | NewSessionAllowed

datatype SessionAccessReason =
  CompleteLocalSession | LocalSessionMissingOrInvalid | ChainStateRequired | ActiveSessionLocalBindingMissing
| ActiveSessionLocalBindingMismatch | ActiveSessionNotSpendable | ProfileOfflineAccessRevoked | WalletSignatureRequired
| AuthoritativeProfileFree

datatype AuthoritativeSessionStatus =
  StatusActive | StatusClaimWindow | StatusReconciling | StatusSettled | StatusConflicted | StatusInsolvent | StatusClosed

datatype ProvisioningSource = OnChainSource | DevelopmentFixtureSource

record LocalProvisioningRecord =
  lp_source :: ProvisioningSource
  lp_provisioningConfirmed :: bool
  lp_sessionAccount :: string
  lp_sessionId :: string
  lp_branchStateSessionId :: string
  lp_owner :: string
  lp_certificateOwner :: string
  lp_devicePublicKey :: string
  lp_certificateDevicePublicKey :: string
  lp_protectedDeviceKeyPublicKey :: "string option"
  lp_branchStatePresent :: bool

record AuthoritativeRecoveryState =
  ar_confirmed :: bool
  ar_profileOwner :: string
  ar_offlineAccessEnabled :: bool
  ar_activeSessionAccount :: "string option"
  ar_sessionAccount :: "string option"
  ar_sessionId :: "string option"
  ar_sessionOwner :: "string option"
  ar_sessionDevicePublicKey :: "string option"
  ar_sessionStatus :: "AuthoritativeSessionStatus option"

record SessionAccessInput =
  sai_connected :: bool
  sai_local :: "LocalProvisioningRecord option"
  sai_authoritative :: "AuthoritativeRecoveryState option"
  sai_walletAuthorizationConfirmed :: bool

record SessionAccessDecision =
  sad_outcome :: SessionAccessOutcome
  sad_reason :: SessionAccessReason

definition isHex32 :: "string option \<Rightarrow> bool" where
  "isHex32 value = (case value of None \<Rightarrow> False | Some text \<Rightarrow> isHex 32 text)"

definition isCompleteLocalRecord :: "LocalProvisioningRecord option \<Rightarrow> bool" where
  "isCompleteLocalRecord value =
    (case value of
       None \<Rightarrow> False
     | Some loc \<Rightarrow>
         if lp_source loc \<noteq> OnChainSource \<or> \<not> lp_provisioningConfirmed loc \<or> \<not> lp_branchStatePresent loc then False
         else if \<not> isHex32 (Some (lp_sessionAccount loc)) \<or> \<not> isHex32 (Some (lp_sessionId loc)) \<or>
           \<not> isHex32 (Some (lp_owner loc)) \<or> \<not> isHex32 (Some (lp_devicePublicKey loc)) then False
         else lp_sessionId loc = lp_branchStateSessionId loc \<and> lp_owner loc = lp_certificateOwner loc \<and>
           lp_devicePublicKey loc = lp_certificateDevicePublicKey loc \<and>
           Some (lp_devicePublicKey loc) = lp_protectedDeviceKeyPublicKey loc)"

definition authoritativeBindingIsComplete :: "AuthoritativeRecoveryState \<Rightarrow> bool" where
  "authoritativeBindingIsComplete state =
    (if \<not> isHex32 (Some (ar_profileOwner state)) then False
     else if ar_activeSessionAccount state = None then
       ar_sessionAccount state = None \<and> ar_sessionId state = None \<and> ar_sessionOwner state = None \<and>
       ar_sessionDevicePublicKey state = None \<and> ar_sessionStatus state = None
     else isHex32 (ar_activeSessionAccount state) \<and> ar_activeSessionAccount state = ar_sessionAccount state \<and>
       isHex32 (ar_sessionId state) \<and> isHex32 (ar_sessionOwner state) \<and> isHex32 (ar_sessionDevicePublicKey state) \<and>
       ar_sessionStatus state \<noteq> None)"

definition localMatchesAuthority :: "LocalProvisioningRecord \<Rightarrow> AuthoritativeRecoveryState \<Rightarrow> bool" where
  "localMatchesAuthority loc state \<longleftrightarrow>
    Some (lp_sessionAccount loc) = ar_activeSessionAccount state \<and> Some (lp_sessionId loc) = ar_sessionId state \<and>
    lp_owner loc = ar_profileOwner state \<and> Some (lp_owner loc) = ar_sessionOwner state \<and>
    Some (lp_devicePublicKey loc) = ar_sessionDevicePublicKey state"

definition decision :: "SessionAccessOutcome \<Rightarrow> SessionAccessReason \<Rightarrow> SessionAccessDecision" where
  "decision outcome reason = \<lparr>sad_outcome = outcome, sad_reason = reason\<rparr>"

definition decideWithAuthority :: "SessionAccessInput \<Rightarrow> AuthoritativeRecoveryState \<Rightarrow> SessionAccessDecision" where
  "decideWithAuthority input authority =
    (if \<not> ar_offlineAccessEnabled authority then decision OfflineAccessRevoked ProfileOfflineAccessRevoked
     else if ar_activeSessionAccount authority \<noteq> None then
       (if \<not> isCompleteLocalRecord (sai_local input) then
          decision ActiveSessionBlocksReprovisioning ActiveSessionLocalBindingMissing
        else if \<not> localMatchesAuthority (the (sai_local input)) authority then
          decision ActiveSessionBlocksReprovisioning ActiveSessionLocalBindingMismatch
        else if ar_sessionStatus authority \<noteq> Some StatusActive then
          decision ActiveSessionBlocksReprovisioning ActiveSessionNotSpendable
        else decision OfflineReady CompleteLocalSession)
     else if \<not> sai_walletAuthorizationConfirmed input then decision WalletAuthorizationRequired WalletSignatureRequired
     else decision NewSessionAllowed AuthoritativeProfileFree)"

definition decideSessionAccess :: "SessionAccessInput \<Rightarrow> SessionAccessDecision" where
  "decideSessionAccess input =
    (if \<not> sai_connected input then
       (if isCompleteLocalRecord (sai_local input) then decision OfflineReady CompleteLocalSession
        else decision OnlineRecoveryRequired LocalSessionMissingOrInvalid)
     else
       (case sai_authoritative input of
          None \<Rightarrow> decision OnlineRecoveryRequired ChainStateRequired
        | Some authority \<Rightarrow>
            if \<not> ar_confirmed authority \<or> \<not> authoritativeBindingIsComplete authority
            then decision OnlineRecoveryRequired ChainStateRequired
            else decideWithAuthority input authority))"

section \<open>From account data to the state of the chain\<close>

record RawProgramAccount =
  ra_address :: bytes
  ra_ownerProgramId :: bytes
  ra_data :: bytes

record RecoveryAccountSnapshot =
  rs_confirmed :: bool
  rs_expectedProgramId :: bytes
  rs_expectedProfileAddress :: bytes
  rs_expectedOwner :: bytes
  rs_profile :: RawProgramAccount
  rs_session :: "RawProgramAccount option"

text \<open>The local \<open>equalBytes\<close> and \<open>isZero\<close>\<close>

definition sameBytes :: "bytes \<Rightarrow> bytes \<Rightarrow> bool" where
  "sameBytes left right \<longleftrightarrow> length left = length right \<and> list_all (\<lambda>(a, b). a = b) (zip left right)"

definition isZero :: "bytes \<Rightarrow> bool" where
  "isZero value = list_all (\<lambda>byte. byte = 0) value"

fun accessStatus :: "SessionStatus \<Rightarrow> AuthoritativeSessionStatus" where
  "accessStatus SessionActive = StatusActive"
| "accessStatus SessionClaimWindow = StatusClaimWindow"
| "accessStatus SessionConflicted = StatusConflicted"
| "accessStatus SessionReconciling = StatusReconciling"
| "accessStatus SessionSettled = StatusSettled"
| "accessStatus SessionInsolvent = StatusInsolvent"
| "accessStatus SessionClosed = StatusClosed"

definition assertOwnedAccount :: "RawProgramAccount \<Rightarrow> bytes \<Rightarrow> bytes \<Rightarrow> string \<Rightarrow> unit result" where
  "assertOwnedAccount account expectedAddress expectedProgramId name =
    bindE (failIf (\<not> sameBytes (ra_address account) expectedAddress) (name @ '' address mismatch'')) (\<lambda>_.
      failIf (\<not> sameBytes (ra_ownerProgramId account) expectedProgramId) (name @ '' owner program mismatch''))"

definition authoritativeRecoveryFromAccounts :: "RecoveryAccountSnapshot \<Rightarrow> AuthoritativeRecoveryState result" where
  "authoritativeRecoveryFromAccounts snapshot =
    bindE (assertOwnedAccount (rs_profile snapshot) (rs_expectedProfileAddress snapshot) (rs_expectedProgramId snapshot) ''UserProfile'') (\<lambda>_.
    bindE (decodeUserProfile (ra_data (rs_profile snapshot))) (\<lambda>profile.
    bindE (failIf (\<not> sameBytes (up_owner profile) (rs_expectedOwner snapshot)) ''UserProfile owner mismatch'') (\<lambda>_.
    if isZero (up_activeSession profile) then
      bindE (failIf (rs_session snapshot \<noteq> None) ''unexpected OfflineSession for a profile without active_session'') (\<lambda>_.
        Inr \<lparr>ar_confirmed = rs_confirmed snapshot, ar_profileOwner = bytesToHex (up_owner profile),
          ar_offlineAccessEnabled = up_offlineAccessEnabled profile, ar_activeSessionAccount = None, ar_sessionAccount = None,
          ar_sessionId = None, ar_sessionOwner = None, ar_sessionDevicePublicKey = None, ar_sessionStatus = None\<rparr>)
    else
      (case rs_session snapshot of
         None \<Rightarrow> Inl (JsError ''active_session requires its OfflineSession account'')
       | Some account \<Rightarrow>
           bindE (assertOwnedAccount account (up_activeSession profile) (rs_expectedProgramId snapshot) ''OfflineSession'') (\<lambda>_.
           bindE (decodeOfflineSession (ra_data account)) (\<lambda>session.
             Inr \<lparr>ar_confirmed = rs_confirmed snapshot, ar_profileOwner = bytesToHex (up_owner profile),
               ar_offlineAccessEnabled = up_offlineAccessEnabled profile,
               ar_activeSessionAccount = Some (bytesToHex (up_activeSession profile)),
               ar_sessionAccount = Some (bytesToHex (ra_address account)), ar_sessionId = Some (bytesToHex (os_sessionId session)),
               ar_sessionOwner = Some (bytesToHex (os_owner session)),
               ar_sessionDevicePublicKey = Some (bytesToHex (os_devicePublicKey session)),
               ar_sessionStatus = Some (accessStatus (os_status session))\<rparr>))))))"

section \<open>The confirmed port\<close>

record ConfirmedProgramAccount =
  ca_contextSlot :: int
  ca_account :: RawProgramAccount

text \<open>\<open>hexToBytes\<close> of \<open>payer-runtime.ts\<close>\<close>

definition runtimeHexToBytes :: "string \<Rightarrow> bytes result" where
  "runtimeHexToBytes value =
    bindE (failIf (\<not> (value \<noteq> [] \<and> list_all (\<lambda>c. c \<in> set ''0123456789abcdef'') value) \<or> length value mod 2 \<noteq> 0)
      ''hexadecimal invalido'') (\<lambda>_. Inr (hexPairs value))"

definition assertEnvelope :: "ConfirmedProgramAccount \<Rightarrow> bytes \<Rightarrow> bytes \<Rightarrow> string \<Rightarrow> unit result" where
  "assertEnvelope value address programId name = runE
    [failIf (ca_contextSlot value < 0) (name @ '' retornou slot confirmado invalido''),
     failIf (\<not> sameBytes (ra_address (ca_account value)) address) (name @ '' retornou endereco diferente do solicitado''),
     failIf (\<not> sameBytes (ra_ownerProgramId (ca_account value)) programId) (name @ '' nao pertence ao programa configurado'')]"

text \<open>\<open>reader\<close> is \<open>getConfirmedAccount\<close>: an address and a minimal slot; it may reject.\<close>

definition fetchConfirmedRecovery ::
  "bytes \<Rightarrow> (bytes \<Rightarrow> bytes) \<Rightarrow> (bytes \<Rightarrow> int option \<Rightarrow> ConfirmedProgramAccount option result) \<Rightarrow> string \<Rightarrow> AuthoritativeRecoveryState result" where
  "fetchConfirmedRecovery expectedProgramId profileAddressOf reader ownerHex =
    bindE (runtimeHexToBytes ownerHex) (\<lambda>owner.
    bindE (failIf (length owner \<noteq> 32) ''owner deve conter 32 bytes'') (\<lambda>_.
    let profileAddress = profileAddressOf owner in
    bindE (failIf (length profileAddress \<noteq> 32) ''profile PDA deve conter 32 bytes'') (\<lambda>_.
    bindE (reader profileAddress None) (\<lambda>found.
    (case found of
       None \<Rightarrow> Inl (JsError ''UserProfile confirmado nao encontrado'')
     | Some profileEnvelope \<Rightarrow>
         bindE (assertEnvelope profileEnvelope profileAddress expectedProgramId ''UserProfile'') (\<lambda>_.
         bindE (decodeUserProfile (ra_data (ca_account profileEnvelope))) (\<lambda>profile.
         bindE (if isZero (up_activeSession profile) then Inr None
           else bindE (reader (up_activeSession profile) (Some (ca_contextSlot profileEnvelope))) (\<lambda>session.
             (case session of
                None \<Rightarrow> Inl (JsError ''OfflineSession ativo confirmado nao encontrado'')
              | Some sessionEnvelope \<Rightarrow>
                  bindE (assertEnvelope sessionEnvelope (up_activeSession profile) expectedProgramId ''OfflineSession'') (\<lambda>_.
                  bindE (failIf (ca_contextSlot sessionEnvelope < ca_contextSlot profileEnvelope)
                    ''OfflineSession retornou contexto anterior ao UserProfile'') (\<lambda>_.
                    Inr (Some sessionEnvelope)))))) (\<lambda>sessionEnvelope.
           authoritativeRecoveryFromAccounts
             \<lparr>rs_confirmed = True, rs_expectedProgramId = expectedProgramId, rs_expectedProfileAddress = profileAddress,
              rs_expectedOwner = owner, rs_profile = ca_account profileEnvelope,
              rs_session = map_option ca_account sessionEnvelope\<rparr>))))))))"

text \<open>\<open>createConfirmedRecoveryPort\<close>\<close>

definition createConfirmedRecoveryPort ::
  "bytes \<Rightarrow> (bytes \<Rightarrow> bytes) \<Rightarrow> (bytes \<Rightarrow> int option \<Rightarrow> ConfirmedProgramAccount option result) \<Rightarrow>
    (string \<Rightarrow> AuthoritativeRecoveryState result) result" where
  "createConfirmedRecoveryPort expectedProgramId profileAddressOf reader =
    bindE (failIf (length expectedProgramId \<noteq> 32) ''program ID configurado deve conter 32 bytes'') (\<lambda>_.
      Inr (fetchConfirmedRecovery expectedProgramId profileAddressOf reader))"

section \<open>Facts\<close>

lemma sameBytes_iff [simp]: "sameBytes a b \<longleftrightarrow> a = b"
proof -
  have "list_all (\<lambda>(x, y). x = y) (zip a b) \<longleftrightarrow> (\<forall>(x, y)\<in>set (zip a b). x = y)" by (simp add: list_all_iff)
  then have "sameBytes a b \<longleftrightarrow> list_all2 (=) a b" by (simp add: sameBytes_def list_all2_iff)
  then show ?thesis by (simp add: list_all2_eq)
qed

lemma isHex_bytesToHex: "isHex n (bytesToHex bs) \<longleftrightarrow> length bs = n"
  by (auto simp: isHex_def bytesToHex_digits simp del: list.set)

lemma isHex32_bytes [simp]: "isHex32 (Some (bytesToHex bs)) \<longleftrightarrow> length bs = 32"
  by (simp add: isHex32_def isHex_bytesToHex)

end
