(* ===== verification/JsonText.thy ===== *)
theory JsonText
  imports JsonValue TextCoding "HOL-Library.AList"
begin

text \<open>
  \<open>JSON.stringify\<close> and \<open>JSON.parse\<close> of the standard library, as the applications use them on
  what they store. Characters have codes below 256, so an escape beyond them is refused; numbers
  are read exactly (no rounding to a double), and only whole numbers are printed, the
  applications store no others.
\<close>

section \<open>Printing\<close>

definition jsonEscape :: "char \<Rightarrow> string" where
  "jsonEscape c =
    (if c = CHR 0x22 then [CHR 0x5C, CHR 0x22]
     else if c = CHR 0x5C then [CHR 0x5C, CHR 0x5C]
     else if c = CHR 0x08 then [CHR 0x5C, CHR ''b'']
     else if c = CHR 0x0C then [CHR 0x5C, CHR ''f'']
     else if c = CHR 0x0A then [CHR 0x5C, CHR ''n'']
     else if c = CHR 0x0D then [CHR 0x5C, CHR ''r'']
     else if c = CHR 0x09 then [CHR 0x5C, CHR ''t'']
     else if of_char c < (32 :: nat) then [CHR 0x5C, CHR ''u'', CHR ''0'', CHR ''0''] @ byteHex (of_char c)
     else [c])"

definition jsonQuote :: "string \<Rightarrow> string" where
  "jsonQuote text = CHR 0x22 # concat (map jsonEscape text) @ [CHR 0x22]"

fun joinComma :: "string list \<Rightarrow> string" where
  "joinComma [] = []"
| "joinComma [x] = x"
| "joinComma (x # y # ys) = x @ CHR '','' # joinComma (y # ys)"

fun JSON_stringify :: "json \<Rightarrow> string" where
  "JSON_stringify JNull = ''null''"
| "JSON_stringify (JBool b) = (if b then ''true'' else ''false'')"
| "JSON_stringify (JNumber n) = decimal \<lfloor>n\<rfloor>"
| "JSON_stringify (JString text) = jsonQuote text"
| "JSON_stringify (JArray vs) = CHR ''['' # joinComma (map JSON_stringify vs) @ '']''"
| "JSON_stringify (JObject kvs) = CHR ''{'' # joinComma (map (\<lambda>(k, v). jsonQuote k @ CHR '':'' # JSON_stringify v) kvs) @ ''}''"

section \<open>Parsing\<close>

definition jsonSpace :: "char \<Rightarrow> bool" where
  "jsonSpace c \<longleftrightarrow> c = CHR 0x20 \<or> c = CHR 0x09 \<or> c = CHR 0x0A \<or> c = CHR 0x0D"

abbreviation skipSpace :: "string \<Rightarrow> string" where "skipSpace \<equiv> dropWhile jsonSpace"

definition hexChar :: "char \<Rightarrow> bool" where
  "hexChar c \<longleftrightarrow> c \<in> set ''0123456789abcdefABCDEF''"

definition hexDigitValue :: "char \<Rightarrow> nat" where
  "hexDigitValue c = (if c \<in> set ''ABCDEF'' then of_char c - 55 else hexValue c)"

definition simpleEscape :: "char \<Rightarrow> char option" where
  "simpleEscape e =
    (if e = CHR 0x22 \<or> e = CHR 0x5C \<or> e = CHR ''/'' then Some e
     else if e = CHR ''b'' then Some (CHR 0x08)
     else if e = CHR ''f'' then Some (CHR 0x0C)
     else if e = CHR ''n'' then Some (CHR 0x0A)
     else if e = CHR ''r'' then Some (CHR 0x0D)
     else if e = CHR ''t'' then Some (CHR 0x09)
     else None)"

text \<open>The rest of a text after its opening quote.\<close>

fun readString :: "string \<Rightarrow> (string \<times> string) option" where
  "readString [] = None"
| "readString (c # cs) =
    (if c = CHR 0x22 then Some ([], cs)
     else if c = CHR 0x5C then
       (case cs of
          [] \<Rightarrow> None
        | e # rest \<Rightarrow>
            if e = CHR ''u'' then
              (case rest of
                 h1 # h2 # h3 # h4 # rest' \<Rightarrow>
                   if list_all hexChar [h1, h2, h3, h4] \<and> hexDigitValue h1 = 0 \<and> hexDigitValue h2 = 0
                   then map_option (map_prod (Cons (char_of (16 * hexDigitValue h3 + hexDigitValue h4))) id) (readString rest')
                   else None
               | _ \<Rightarrow> None)
            else
              (case simpleEscape e of
                 None \<Rightarrow> None
               | Some x \<Rightarrow> map_option (map_prod (Cons x) id) (readString rest)))
     else if of_char c < (32 :: nat) then None
     else map_option (map_prod (Cons c) id) (readString cs))"

definition isDigit :: "char \<Rightarrow> bool" where "isDigit c \<longleftrightarrow> c \<in> set digitChars"

text \<open>The fraction and the exponent of a number; a number without them has 0.\<close>

definition readFraction :: "string \<Rightarrow> (rat \<times> string) option" where
  "readFraction s =
    (case s of
       c # cs \<Rightarrow>
         if c = CHR ''.'' then
           (let ds = takeWhile isDigit cs in
            if ds = [] then None else Some (of_nat (numberOf ds) / 10 ^ length ds, dropWhile isDigit cs))
         else Some (0, s)
     | [] \<Rightarrow> Some (0, s))"

definition readExponent :: "string \<Rightarrow> (rat \<times> string) option" where
  "readExponent s =
    (case s of
       c # cs \<Rightarrow>
         if c = CHR ''e'' \<or> c = CHR ''E'' then
           (let negative = (cs \<noteq> [] \<and> hd cs = CHR ''-'');
                t = (if cs \<noteq> [] \<and> (hd cs = CHR ''-'' \<or> hd cs = CHR ''+'') then tl cs else cs);
                ds = takeWhile isDigit t
            in if ds = [] then None
               else Some (if negative then 1 / 10 ^ numberOf ds else 10 ^ numberOf ds, dropWhile isDigit t))
         else Some (1, s)
     | [] \<Rightarrow> Some (1, s))"

definition readNumber :: "string \<Rightarrow> (json \<times> string) option" where
  "readNumber s =
    (let negative = (s \<noteq> [] \<and> hd s = CHR ''-'');
         t = (if negative then tl s else s);
         ds = takeWhile isDigit t
     in if \<not> canonicalNumber ds then None
        else Option.bind (readFraction (dropWhile isDigit t)) (\<lambda>(fraction, r).
             Option.bind (readExponent r) (\<lambda>(exponent, r').
               let value = (of_nat (numberOf ds) + fraction) * exponent
               in Some (JNumber (if negative then - value else value), r'))))"

definition readWord :: "string \<Rightarrow> json \<Rightarrow> string \<Rightarrow> (json \<times> string) option" where
  "readWord word v s = (if take (length word) s = word then Some (v, drop (length word) s) else None)"

text \<open>
  Recursive descent, one unit of fuel per call; every call consumes a character, so the length of
  the text is enough. A member that repeats a key replaces the earlier one.
\<close>

fun parseValue :: "nat \<Rightarrow> string \<Rightarrow> (json \<times> string) option"
  and parseElements :: "nat \<Rightarrow> string \<Rightarrow> json list \<Rightarrow> (json \<times> string) option"
  and parseMembers :: "nat \<Rightarrow> string \<Rightarrow> (string \<times> json) list \<Rightarrow> (json \<times> string) option" where
  "parseValue 0 s = None"
| "parseValue (Suc n) s =
    (case skipSpace s of
       [] \<Rightarrow> None
     | c # cs \<Rightarrow>
         if c = CHR ''{'' then
           (case skipSpace cs of
              [] \<Rightarrow> None
            | d # ds \<Rightarrow> if d = CHR ''}'' then Some (JObject [], ds) else parseMembers n (d # ds) [])
         else if c = CHR ''['' then
           (case skipSpace cs of
              [] \<Rightarrow> None
            | d # ds \<Rightarrow> if d = CHR '']'' then Some (JArray [], ds) else parseElements n (d # ds) [])
         else if c = CHR 0x22 then map_option (map_prod JString id) (readString cs)
         else if c = CHR ''n'' then readWord ''null'' JNull (c # cs)
         else if c = CHR ''t'' then readWord ''true'' (JBool True) (c # cs)
         else if c = CHR ''f'' then readWord ''false'' (JBool False) (c # cs)
         else readNumber (c # cs))"
| "parseElements 0 s vs = None"
| "parseElements (Suc n) s vs =
    (case parseValue n s of
       None \<Rightarrow> None
     | Some (v, r) \<Rightarrow>
         (case skipSpace r of
            [] \<Rightarrow> None
          | c # cs \<Rightarrow>
              if c = CHR '','' then parseElements n cs (vs @ [v])
              else if c = CHR '']'' then Some (JArray (vs @ [v]), cs)
              else None))"
| "parseMembers 0 s kvs = None"
| "parseMembers (Suc n) s kvs =
    (case skipSpace s of
       [] \<Rightarrow> None
     | q # qs \<Rightarrow>
         if q \<noteq> CHR 0x22 then None
         else
           (case readString qs of
              None \<Rightarrow> None
            | Some (k, r) \<Rightarrow>
                (case skipSpace r of
                   [] \<Rightarrow> None
                 | colon # cs \<Rightarrow>
                     if colon \<noteq> CHR '':'' then None
                     else
                       (case parseValue n cs of
                          None \<Rightarrow> None
                        | Some (v, r') \<Rightarrow>
                            (case skipSpace r' of
                               [] \<Rightarrow> None
                             | c # cs' \<Rightarrow>
                                 if c = CHR '','' then parseMembers n cs' (AList.update k v kvs)
                                 else if c = CHR ''}'' then Some (JObject (AList.update k v kvs), cs')
                                 else None)))))"

definition JSON_parse :: "string \<Rightarrow> json option" where
  "JSON_parse text =
    (case parseValue (Suc (length text)) text of
       Some (v, r) \<Rightarrow> if skipSpace r = [] then Some v else None
     | None \<Rightarrow> None)"

section \<open>Reading back what was printed\<close>

text \<open>What the applications store: whole numbers, and objects without repeated keys.\<close>

fun plainJson :: "json \<Rightarrow> bool" where
  "plainJson (JNumber n) \<longleftrightarrow> of_int \<lfloor>n\<rfloor> = n"
| "plainJson (JArray vs) \<longleftrightarrow> list_all plainJson vs"
| "plainJson (JObject kvs) \<longleftrightarrow> distinct (map fst kvs) \<and> list_all (\<lambda>(k, v). plainJson v) kvs"
| "plainJson _ \<longleftrightarrow> True"

lemma hexDigit_hexChar:
  assumes "d < 16"
  shows "hexChar (hexDigit d)" "hexDigitValue (hexDigit d) = d"
proof -
  have "\<forall>n \<in> set [0..<16]. hexChar (hexDigit n) \<and> hexDigitValue (hexDigit n) = n"
    by (simp add: hexDigit_def hexChar_def hexDigitValue_def hexValue_def upt_rec)
  then show "hexChar (hexDigit d)" "hexDigitValue (hexDigit d) = d" using assms by simp_all
qed

lemma unat_of_char: "unat (of_char c :: byte) = of_char c"
proof -
  have "of_char c < (256 :: nat)" using of_char_mod_256 [of c, where 'a = nat] by linarith
  moreover have "unat (of_nat n :: byte) = n" if "n < 256" for n
    using that by (simp add: unsigned_of_nat take_bit_nat_eq_self)
  ultimately have "unat (of_nat (of_char c) :: byte) = of_char c" by blast
  then show ?thesis by (simp only: of_nat_of_char)
qed

lemma readString_escape: "readString (jsonEscape c @ s) = map_option (map_prod (Cons c) id) (readString s)"
proof (cases "c = CHR 0x22 \<or> c = CHR 0x5C \<or> c = CHR 0x08 \<or> c = CHR 0x0C \<or> c = CHR 0x0A \<or> c = CHR 0x0D \<or> c = CHR 0x09")
  case True
  then show ?thesis by (auto simp: jsonEscape_def simpleEscape_def)
next
  case False
  show ?thesis
  proof (cases "of_char c < (32 :: nat)")
    case True
    let ?n = "of_char c :: nat"
    have d: "?n div 16 < 16" "?n mod 16 < 16" using True by simp_all
    have z: "hexChar (CHR ''0'')" "hexDigitValue (CHR ''0'') = 0"
      by (simp_all add: hexChar_def hexDigitValue_def hexValue_def)
    have "jsonEscape c = [CHR 0x5C, CHR ''u'', CHR ''0'', CHR ''0'', hexDigit (?n div 16), hexDigit (?n mod 16)]"
      using False True by (simp add: jsonEscape_def byteHex_def unat_of_char)
    then show ?thesis using z hexDigit_hexChar [OF d(1)] hexDigit_hexChar [OF d(2)] by simp
  next
    case False
    with \<open>\<not> (c = CHR 0x22 \<or> _)\<close> show ?thesis by (simp add: jsonEscape_def)
  qed
qed

lemma readString_quote: "readString (concat (map jsonEscape t) @ CHR 0x22 # r) = Some (t, r)"
  by (induction t) (simp_all add: readString_escape)

lemma digit_range: "isDigit c \<Longrightarrow> c \<noteq> CHR ''-'' \<and> c \<noteq> CHR ''{'' \<and> c \<noteq> CHR ''['' \<and> c \<noteq> CHR 0x22 \<and> c \<noteq> CHR ''n'' \<and> c \<noteq> CHR ''t'' \<and>
    c \<noteq> CHR ''f'' \<and> \<not> jsonSpace c"
  by (auto simp: isDigit_def digitChars_def jsonSpace_def)

lemma natDecimal_digits: "list_all isDigit (natDecimal n)"
  using natDecimal_chars hexDigit_digitChars by (auto simp: list_all_iff isDigit_def)

definition endsNumber :: "string \<Rightarrow> bool" where
  "endsNumber r \<longleftrightarrow> (case r of [] \<Rightarrow> True | c # _ \<Rightarrow> c \<notin> set (digitChars @ ''.eE''))"

lemma span_digits: "list_all isDigit ds \<Longrightarrow> endsNumber r \<Longrightarrow> takeWhile isDigit (ds @ r) = ds \<and> dropWhile isDigit (ds @ r) = r"
  by (induction ds) (auto simp: endsNumber_def isDigit_def split: list.splits)

lemma readNumber_decimal:
  assumes "endsNumber r"
  shows "readNumber (decimal n @ r) = Some (JNumber (of_int n), r)"
proof -
  have tail: "readFraction r = Some (0, r)" "readExponent r = Some (1, r)"
    using assms by (auto simp: readFraction_def readExponent_def endsNumber_def split: list.splits)
  have minus: "\<not> (natDecimal m @ r \<noteq> [] \<and> hd (natDecimal m @ r) = CHR ''-'')" for m
    by (cases "natDecimal m") (use natDecimal_minus(2) in auto)
  note digits = span_digits [OF natDecimal_digits assms] natDecimal_canonical numberOf_natDecimal tail
  consider k where "n = int k" | k where "n = - int k" "k \<noteq> 0" by (cases n rule: int_cases2) auto
  then show ?thesis
  proof cases
    case 1
    with digits minus [of k] show ?thesis by (simp add: readNumber_def decimal_def Let_def)
  next
    case 2
    with digits show ?thesis by (simp add: readNumber_def decimal_def Let_def)
  qed
qed

lemma decimal_first: "\<exists>c cs. decimal n = c # cs \<and> (isDigit c \<or> c = CHR ''-'')"
proof (cases "n < 0")
  case False
  obtain c cs where "natDecimal (nat n) = c # cs" by (cases "natDecimal (nat n)") auto
  with False natDecimal_digits [of "nat n"] show ?thesis by (simp add: decimal_def)
qed (simp add: decimal_def)

lemma not_space: "c = CHR ''{'' \<or> c = CHR ''['' \<or> c = CHR '']'' \<or> c = CHR ''}'' \<or> c = CHR '','' \<or> c = CHR '':'' \<or> c = CHR 0x22 \<or> c = CHR ''-'' \<or>
    c = CHR ''n'' \<or> c = CHR ''t'' \<or> c = CHR ''f'' \<Longrightarrow> \<not> jsonSpace c"
  by (auto simp: jsonSpace_def)


lemma endsNumber_simps [simp]:
  "endsNumber []" "endsNumber (CHR '','' # r)" "endsNumber (CHR '']'' # r)" "endsNumber (CHR ''}'' # r)"
  by (simp_all add: endsNumber_def digitChars_def)

text \<open>The first character of a printed value decides how it is read.\<close>

lemma stringify_first: "\<exists>c cs. JSON_stringify v = c # cs \<and> \<not> jsonSpace c \<and> c \<noteq> CHR '']'' \<and> c \<noteq> CHR ''}''"
proof (cases v)
  case (JNumber n)
  obtain c cs where "decimal \<lfloor>n\<rfloor> = c # cs" "isDigit c \<or> c = CHR ''-''" using decimal_first by blast
  with JNumber digit_range [of c] show ?thesis by (auto simp: jsonSpace_def isDigit_def digitChars_def)
qed (auto simp: jsonQuote_def jsonSpace_def)

lemma joinComma_Cons: "joinComma (x # xs) = x @ (if xs = [] then [] else CHR '','' # joinComma xs)"
  by (cases xs) auto

lemma parse_number: "endsNumber r \<Longrightarrow> parseValue (Suc n) (decimal m @ r) = Some (JNumber (of_int m), r)"
proof -
  assume r: "endsNumber r"
  obtain c cs where c: "decimal m = c # cs" "isDigit c \<or> c = CHR ''-''" using decimal_first by blast
  have "\<not> jsonSpace c" "c \<noteq> CHR ''{''" "c \<noteq> CHR ''[''" "c \<noteq> CHR 0x22" "c \<noteq> CHR ''n''" "c \<noteq> CHR ''t''" "c \<noteq> CHR ''f''"
    using digit_range [of c] c(2) by (cases "isDigit c"; simp add: jsonSpace_def)+
  moreover have "readNumber (c # cs @ r) = Some (JNumber (of_int m), r)"
    using readNumber_decimal [OF r, of m] unfolding c(1) by (simp only: append_Cons)
  ultimately show ?thesis unfolding c(1) append_Cons parseValue.simps by (simp only: dropWhile.simps list.case if_False)
qed

lemma parse_elements:
  assumes "\<And>v n r. v \<in> set vs \<Longrightarrow> length (JSON_stringify v) < n \<Longrightarrow> endsNumber r \<Longrightarrow> parseValue n (JSON_stringify v @ r) = Some (v, r)"
    "vs \<noteq> []" "Suc (length (joinComma (map JSON_stringify vs))) < n"
  shows "parseElements n (joinComma (map JSON_stringify vs) @ CHR '']'' # r) us = Some (JArray (us @ vs), r)"
  using assms
proof (induction vs arbitrary: n us)
  case (Cons v vs)
  obtain m where m: "n = Suc m" using Cons.prems(3) by (cases n) auto
  show ?case
  proof (cases "vs = []")
    case True
    with m Cons.prems(1) [of v m "CHR '']'' # r"] Cons.prems(3) show ?thesis by (simp add: jsonSpace_def)
  next
    case False
    let ?rest = "joinComma (map JSON_stringify vs) @ CHR '']'' # r"
    have "parseValue m (JSON_stringify v @ CHR '','' # ?rest) = Some (v, CHR '','' # ?rest)"
      using Cons.prems(1,3) m by (simp add: joinComma_Cons)
    moreover have "parseElements m ?rest (us @ [v]) = Some (JArray (us @ v # vs), r)"
      using Cons.IH [of m "us @ [v]"] Cons.prems(1,3) False m by (simp add: joinComma_Cons)
    ultimately show ?thesis using False m by (simp add: joinComma_Cons jsonSpace_def)
  qed
qed simp

abbreviation memberText :: "string \<times> json \<Rightarrow> string" where
  "memberText \<equiv> \<lambda>(k, v). jsonQuote k @ CHR '':'' # JSON_stringify v"

lemma update_new: "k \<notin> set (map fst kvs) \<Longrightarrow> AList.update k v kvs = kvs @ [(k, v)]"
  by (induction kvs) auto

lemma parse_members:
  assumes "\<And>k v n r. (k, v) \<in> set kvs \<Longrightarrow> length (JSON_stringify v) < n \<Longrightarrow> endsNumber r \<Longrightarrow> parseValue n (JSON_stringify v @ r) = Some (v, r)"
    "kvs \<noteq> []" "Suc (length (joinComma (map memberText kvs))) < n" "distinct (map fst (us @ kvs))"
  shows "parseMembers n (joinComma (map memberText kvs) @ CHR ''}'' # r) us = Some (JObject (us @ kvs), r)"
  using assms
proof (induction kvs arbitrary: n us)
  case (Cons kv kvs)
  obtain k v where kv: "kv = (k, v)" by force
  obtain m where m: "n = Suc m" using Cons.prems(3) by (cases n) auto
  have new: "AList.update k v us = us @ [(k, v)]"
    using Cons.prems(4) kv by (simp add: update_new)
  show ?case
  proof (cases "kvs = []")
    case True
    with m kv new Cons.prems(1) [of k v m "CHR ''}'' # r"] Cons.prems(3) show ?thesis
      by (simp add: jsonSpace_def jsonQuote_def readString_quote)
  next
    case False
    have members: "parseValue n (JSON_stringify w @ r) = Some (w, r)"
      if "(j, w) \<in> set kvs" "length (JSON_stringify w) < n" "endsNumber r" for j w n r
      using that Cons.prems(1) [of j w n r] by simp
    let ?rest = "joinComma (map memberText kvs) @ CHR ''}'' # r"
    have "parseValue m (JSON_stringify v @ CHR '','' # ?rest) = Some (v, CHR '','' # ?rest)"
      using Cons.prems(1) [of k v m "CHR '','' # ?rest"] Cons.prems(3) m kv by (simp add: joinComma_Cons)
    moreover have "parseMembers m ?rest (us @ [(k, v)]) = Some (JObject (us @ (k, v) # kvs), r)"
      using Cons.IH [of m "us @ [(k, v)]", OF members False] Cons.prems(3,4) False m kv by (simp add: joinComma_Cons)
    ultimately show ?thesis using False m kv new
      by (simp add: joinComma_Cons jsonSpace_def jsonQuote_def readString_quote)
  qed
qed simp

lemma parse_stringify:
  "plainJson v \<Longrightarrow> length (JSON_stringify v) < n \<Longrightarrow> endsNumber r \<Longrightarrow> parseValue n (JSON_stringify v @ r) = Some (v, r)"
proof (induction v arbitrary: n r)
  case (JNumber q)
  then show ?case using parse_number [of r _ "\<lfloor>q\<rfloor>"] by (cases n) auto
next
  case (JArray vs)
  then obtain m where m: "n = Suc m" by (cases n) auto
  show ?case
  proof (cases "vs = []")
    case False
    then obtain c cs where "joinComma (map JSON_stringify vs) = c # cs" "\<not> jsonSpace c" "c \<noteq> CHR '']''"
      using stringify_first [of "hd vs"] by (cases vs) (auto simp: joinComma_Cons)
    moreover have "parseElements m (joinComma (map JSON_stringify vs) @ CHR '']'' # r) [] = Some (JArray ([] @ vs), r)"
      using JArray m False by (intro parse_elements) (auto simp: list_all_iff)
    ultimately show ?thesis using m by (simp add: jsonSpace_def)
  qed (use m in \<open>simp add: jsonSpace_def\<close>)
next
  case (JObject kvs)
  then obtain m where m: "n = Suc m" by (cases n) auto
  show ?case
  proof (cases "kvs = []")
    case False
    then obtain cs where cs: "joinComma (map memberText kvs) = CHR 0x22 # cs"
      by (cases kvs) (auto simp: joinComma_Cons jsonQuote_def split: prod.splits)
    moreover have "parseMembers m (joinComma (map memberText kvs) @ CHR ''}'' # r) [] = Some (JObject ([] @ kvs), r)"
      using JObject m False by (intro parse_members) (fastforce simp: list_all_iff)+
    ultimately show ?thesis using m by (simp add: jsonSpace_def)
  qed (use m in \<open>simp add: jsonSpace_def\<close>)
qed (case_tac n; simp add: readWord_def jsonSpace_def jsonQuote_def readString_quote)+

lemma JSON_parse_stringify: "plainJson v \<Longrightarrow> JSON_parse (JSON_stringify v) = Some v"
  using parse_stringify [of v "Suc (length (JSON_stringify v))" "[]"] by (simp add: JSON_parse_def)

end
