(* ===== verification/PayerSession.thy ===== *)
theory PayerSession
  imports SessionAccess Transports JsonText
begin

text \<open>
  The payer's stored session: \<open>payer-runtime.ts\<close> and \<open>onchain-provisioning.ts\<close> of
  \<open>apps/payer-mobile/src\<close>. A session is stored as two JSON texts and the device key; restoring it
  checks every signature and replays the stored payments.
\<close>

section \<open>Data\<close>

record PayerSessionRuntime =
  rt_deviceSecretHex :: string
  rt_deviceAuthorization :: DeviceAuthorization
  rt_sessionCertificate :: SessionCertificate
  rt_trustContext :: ProtocolTrustContext
  rt_initialParent :: ParentState

record RestoredPayerSession =
  rp_runtime :: PayerSessionRuntime
  rp_parent :: ParentState
  rp_credentials :: "PaymentCredential list"
  rp_outgoingFrames :: "string list"
  rp_pendingDelivery :: bool

record StoredOnchainProvisioningV1 =
  sv_sessionAccount :: string
  sv_confirmedSessionSlot :: string
  sv_deviceAuthorizationHex :: string
  sv_sessionCertificateHex :: string

record StoredPayerBranchStateV1 =
  sb_sessionId :: string
  sb_stateHash :: string
  sb_sequence :: int
  sb_remaining :: string
  sb_frames :: "string list"
  sb_pendingDelivery :: bool

record PersistedOnchainSession =
  po_provisioningJson :: string
  po_branchStateJson :: string
  po_deviceSecretHex :: string

record RestoredOnchainSession = RestoredPayerSession +
  ro_localProvisioning :: LocalProvisioningRecord
  ro_confirmedSessionSlot :: string

section \<open>Reading what is stored\<close>

definition parseJson :: "string \<Rightarrow> string \<Rightarrow> (string \<times> json) list result" where
  "parseJson value name =
    (case JSON_parse value of
       Some (JObject members) \<Rightarrow> Inr members
     | Some _ \<Rightarrow> Inl (JsError (name @ '' invalido''))
     | None \<Rightarrow> Inl (JsError (name @ '' nao contem JSON valido'')))"

definition storedHex :: "json option \<Rightarrow> nat \<Rightarrow> string \<Rightarrow> string result" where
  "storedHex value bytes name =
    (case value of
       Some (JString text) \<Rightarrow>
         if isHex bytes text then Inr text
         else Inl (JsError (name @ '' deve conter exatamente '' @ natDecimal bytes @ '' bytes hexadecimais''))
     | _ \<Rightarrow> Inl (JsError (name @ '' deve conter exatamente '' @ natDecimal bytes @ '' bytes hexadecimais'')))"

definition integerString :: "json option \<Rightarrow> string \<Rightarrow> string result" where
  "integerString value name =
    (case value of
       Some (JString text) \<Rightarrow> if canonicalNumber text then Inr text else Inl (JsError (name @ '' invalido''))
     | _ \<Rightarrow> Inl (JsError (name @ '' invalido'')))"

definition parseProvisioning :: "string \<Rightarrow> StoredOnchainProvisioningV1 result" where
  "parseProvisioning value =
    bindE (parseJson value ''provisionamento on-chain'') (\<lambda>parsed.
    bindE (failIf (map_of parsed ''version'' \<noteq> Some (JNumber 1) \<or> map_of parsed ''source'' \<noteq> Some (JString ''on-chain''))
      ''versao ou origem do provisionamento on-chain invalida'') (\<lambda>_.
    bindE (storedHex (map_of parsed ''sessionAccount'') 32 ''sessionAccount'') (\<lambda>sessionAccount.
    bindE (integerString (map_of parsed ''confirmedSessionSlot'') ''confirmedSessionSlot'') (\<lambda>confirmedSessionSlot.
    bindE (storedHex (map_of parsed ''deviceAuthorizationHex'') 370 ''deviceAuthorization'') (\<lambda>deviceAuthorizationHex.
    bindE (storedHex (map_of parsed ''sessionCertificateHex'') 554 ''sessionCertificate'') (\<lambda>sessionCertificateHex.
      Inr \<lparr>sv_sessionAccount = sessionAccount, sv_confirmedSessionSlot = confirmedSessionSlot,
        sv_deviceAuthorizationHex = deviceAuthorizationHex, sv_sessionCertificateHex = sessionCertificateHex\<rparr>))))))"

definition sequenceOf :: "json option \<Rightarrow> int result" where
  "sequenceOf value =
    (case value of
       Some (JNumber n) \<Rightarrow>
         if of_int \<lfloor>n\<rfloor> \<noteq> n \<or> n < 0 \<or> n > 4294967295 then Inl (JsError ''sequencia local invalida'') else Inr \<lfloor>n\<rfloor>
     | _ \<Rightarrow> Inl (JsError ''sequencia local invalida''))"

definition storedFrame :: "json \<Rightarrow> string result" where
  "storedFrame value =
    (case value of
       JString text \<Rightarrow> if text \<noteq> [] then Inr text else Inl (JsError ''frames locais invalidos'')
     | _ \<Rightarrow> Inl (JsError ''frames locais invalidos''))"

definition storedFramesOf :: "json option \<Rightarrow> string list result" where
  "storedFramesOf value =
    (case value of
       Some (JArray items) \<Rightarrow> mapE storedFrame items
     | _ \<Rightarrow> Inl (JsError ''frames locais invalidos''))"

definition pendingDeliveryOf :: "json option \<Rightarrow> bool result" where
  "pendingDeliveryOf value = (case value of Some (JBool b) \<Rightarrow> Inr b | _ \<Rightarrow> Inl (JsError ''estado de entrega local invalido''))"

definition parseBranchState :: "string \<Rightarrow> StoredPayerBranchStateV1 result" where
  "parseBranchState value =
    bindE (parseJson value ''estado local da sessao'') (\<lambda>parsed.
    bindE (failIf (map_of parsed ''version'' \<noteq> Some (JNumber 1)) ''versao do estado local da sessao invalida'') (\<lambda>_.
    bindE (sequenceOf (map_of parsed ''sequence'')) (\<lambda>sequence.
    bindE (storedFramesOf (map_of parsed ''frames'')) (\<lambda>frames.
    bindE (pendingDeliveryOf (map_of parsed ''pendingDelivery'')) (\<lambda>pendingDelivery.
    bindE (failIf (pendingDelivery \<and> length frames = 0) ''entrega pendente exige prova persistida'') (\<lambda>_.
    bindE (storedHex (map_of parsed ''sessionId'') 32 ''sessionId local'') (\<lambda>sessionId.
    bindE (storedHex (map_of parsed ''stateHash'') 32 ''stateHash local'') (\<lambda>stateHash.
    bindE (integerString (map_of parsed ''remaining'') ''saldo local'') (\<lambda>remaining.
      Inr \<lparr>sb_sessionId = sessionId, sb_stateHash = stateHash, sb_sequence = sequence, sb_remaining = remaining,
        sb_frames = frames, sb_pendingDelivery = pendingDelivery\<rparr>)))))))))"

section \<open>Restoring a session\<close>

definition payerTrustContext :: "OfflineTrustEnvironment \<Rightarrow> bytes \<Rightarrow> ProtocolTrustContext" where
  "payerTrustContext expected sessionId =
    \<lparr>cx_networkId = ev_networkId expected, cx_clusterGenesisHash = ev_clusterGenesisHash expected,
     cx_programId = ev_programId expected, cx_sessionId = sessionId,
     cx_trustedCertificateIssuer = ev_trustedCertificateIssuer expected\<rparr>"

definition initialParent :: "lib \<Rightarrow> ProtocolTrustContext \<Rightarrow> SessionCertificate \<Rightarrow> ParentState result" where
  "initialParent L context certificate =
    bindE (createGenesisState context
      \<lparr>gf_owner = sc_owner certificate, gf_devicePublicKey = sc_devicePublicKey certificate,
       gf_branchSpendingLimit = sc_branchSpendingLimit certificate, gf_maxBranchDepth = sc_maxBranchDepth certificate,
       gf_initialRemaining = sc_branchSpendingLimit certificate, gf_issuedAt = sc_issuedAt certificate,
       gf_expiresAt = sc_expiresAt certificate\<rparr>) (\<lambda>genesis.
    bindE (genesisStateHash L genesis) (\<lambda>hash.
      Inr \<lparr>pt_stateHash = hash, pt_sequence = 0, pt_remaining = sc_branchSpendingLimit certificate\<rparr>))"

definition assertParentMatches :: "ParentState \<Rightarrow> StoredPayerBranchStateV1 \<Rightarrow> unit result" where
  "assertParentMatches parent stored =
    failIf (bytesToHex (pt_stateHash parent) \<noteq> sb_stateHash stored \<or> pt_sequence parent \<noteq> sb_sequence stored \<or>
      decimal (pt_remaining parent) \<noteq> sb_remaining stored) ''estado local nao corresponde a cadeia criptografica persistida''"

definition exactObject :: "bytes \<Rightarrow> bytes \<Rightarrow> string \<Rightarrow> unit result" where
  "exactObject value expected name =
    failIf (\<not> equalBytes value expected) (name @ '' da prova nao corresponde ao provisionamento'')"

text \<open>The state and the payments that the stored frames prove.\<close>

definition restoreFrames ::
  "lib \<Rightarrow> ProtocolTrustContext \<Rightarrow> DeviceAuthorization \<Rightarrow> SessionCertificate \<Rightarrow> ParentState \<Rightarrow> string list \<Rightarrow>
    (ParentState \<times> PaymentCredential list) result" where
  "restoreFrames L context authorization certificate genesis frames =
    (if length frames > 0 then
       bindE (receiveCredential L frames) (\<lambda>bundle.
       bindE (encodeDeviceAuthorization L (deviceAuthorization bundle)) (\<lambda>a.
       bindE (encodeDeviceAuthorization L authorization) (\<lambda>a'.
       bindE (exactObject a a' ''autorizacao'') (\<lambda>_.
       bindE (encodeSessionCertificate L (sessionCertificate bundle)) (\<lambda>c.
       bindE (encodeSessionCertificate L certificate) (\<lambda>c'.
       bindE (exactObject c c' ''certificado'') (\<lambda>_.
       bindE (validateCredentialProofBundle L context bundle) (\<lambda>parent.
         Inr (parent, credentials bundle)))))))))
     else Inr (genesis, []))"

definition restoreOnchainSession ::
  "lib \<Rightarrow> string \<Rightarrow> string \<Rightarrow> string \<Rightarrow> OfflineTrustEnvironment \<Rightarrow> RestoredOnchainSession result" where
  "restoreOnchainSession L provisioningJson branchStateJson deviceSecretHex expected =
    bindE (parseProvisioning provisioningJson) (\<lambda>provisioning.
    bindE (parseBranchState branchStateJson) (\<lambda>storedBranch.
    bindE (storedHex (Some (JString deviceSecretHex)) 32 ''chave protegida da sessao'') (\<lambda>secretHex.
    bindE (runtimeHexToBytes secretHex) (\<lambda>deviceSecret.
    bindE (runtimeHexToBytes (sv_deviceAuthorizationHex provisioning)) (\<lambda>authorizationBytes.
    bindE (decodeDeviceAuthorization L authorizationBytes) (\<lambda>authorization.
    bindE (runtimeHexToBytes (sv_sessionCertificateHex provisioning)) (\<lambda>certificateBytes.
    bindE (decodeSessionCertificate L certificateBytes) (\<lambda>certificate.
    let context = payerTrustContext expected (sc_sessionId certificate) in
    bindE (validateCertificateChain L context certificate authorization) (\<lambda>_.
    bindE (derivePublicKey L deviceSecret) (\<lambda>publicKey.
    bindE (failIf (\<not> equalBytes publicKey (sc_devicePublicKey certificate))
      ''chave protegida nao corresponde ao dispositivo autorizado'') (\<lambda>_.
    bindE (failIf (sb_sessionId storedBranch \<noteq> bytesToHex (sc_sessionId certificate)) ''estado local pertence a outra sessao'') (\<lambda>_.
    bindE (failIf (sv_confirmedSessionSlot provisioning \<noteq> decimal (sc_finalizedSlot certificate))
      ''slot confirmado nao corresponde ao certificado assinado'') (\<lambda>_.
    bindE (initialParent L context certificate) (\<lambda>genesisParent.
    bindE (failIf (\<not> equalBytes (pt_stateHash genesisParent) (sc_genesisStateHash certificate))
      ''genesis_state_hash do certificado nao corresponde aos fatos da sessao'') (\<lambda>_.
    bindE (restoreFrames L context authorization certificate genesisParent (sb_frames storedBranch)) (\<lambda>(parent, payments).
    bindE (assertParentMatches parent storedBranch) (\<lambda>_.
      Inr \<lparr>rp_runtime = \<lparr>rt_deviceSecretHex = deviceSecretHex, rt_deviceAuthorization = authorization,
            rt_sessionCertificate = certificate, rt_trustContext = context, rt_initialParent = genesisParent\<rparr>,
          rp_parent = parent, rp_credentials = payments, rp_outgoingFrames = sb_frames storedBranch,
          rp_pendingDelivery = sb_pendingDelivery storedBranch,
          ro_localProvisioning = \<lparr>lp_source = OnChainSource, lp_provisioningConfirmed = True,
            lp_sessionAccount = sv_sessionAccount provisioning, lp_sessionId = bytesToHex (sc_sessionId certificate),
            lp_branchStateSessionId = sb_sessionId storedBranch, lp_owner = bytesToHex (sc_owner certificate),
            lp_certificateOwner = bytesToHex (sc_owner certificate),
            lp_devicePublicKey = bytesToHex (sc_devicePublicKey certificate),
            lp_certificateDevicePublicKey = bytesToHex (sc_devicePublicKey certificate),
            lp_protectedDeviceKeyPublicKey = Some (bytesToHex publicKey), lp_branchStatePresent = True\<rparr>,
          ro_confirmedSessionSlot = sv_confirmedSessionSlot provisioning\<rparr>)))))))))))))))))"

section \<open>Storing a session\<close>

definition provisioningText :: "StoredOnchainProvisioningV1 \<Rightarrow> string" where
  "provisioningText p = JSON_stringify (JObject
    [(''version'', JNumber 1), (''source'', JString ''on-chain''), (''sessionAccount'', JString (sv_sessionAccount p)),
     (''confirmedSessionSlot'', JString (sv_confirmedSessionSlot p)),
     (''deviceAuthorizationHex'', JString (sv_deviceAuthorizationHex p)),
     (''sessionCertificateHex'', JString (sv_sessionCertificateHex p))])"

definition branchStateText :: "StoredPayerBranchStateV1 \<Rightarrow> string" where
  "branchStateText b = JSON_stringify (JObject
    [(''version'', JNumber 1), (''sessionId'', JString (sb_sessionId b)), (''stateHash'', JString (sb_stateHash b)),
     (''sequence'', JNumber (of_int (sb_sequence b))), (''remaining'', JString (sb_remaining b)),
     (''frames'', JArray (map JString (sb_frames b))), (''pendingDelivery'', JBool (sb_pendingDelivery b))])"

text \<open>The argument of \<open>createPersistedOnchainSession\<close>; an absent member is \<open>None\<close>.\<close>

record PersistInput =
  pi_sessionAccount :: bytes
  pi_runtime :: PayerSessionRuntime
  pi_parent :: "ParentState option"
  pi_frames :: "string list option"
  pi_pendingDelivery :: "bool option"

definition createPersistedOnchainSession :: "lib \<Rightarrow> PersistInput \<Rightarrow> PersistedOnchainSession result" where
  "createPersistedOnchainSession L input =
    (let runtime = pi_runtime input;
         certificate = rt_sessionCertificate runtime;
         context = rt_trustContext runtime
     in
    bindE (failIf (length (pi_sessionAccount input) \<noteq> 32) ''sessionAccount deve conter 32 bytes'') (\<lambda>_.
    bindE (validateCertificateChain L context certificate (rt_deviceAuthorization runtime)) (\<lambda>_.
    bindE (storedHex (Some (JString (rt_deviceSecretHex runtime))) 32 ''chave protegida da sessao'') (\<lambda>secretHex.
    bindE (runtimeHexToBytes secretHex) (\<lambda>deviceSecret.
    bindE (derivePublicKey L deviceSecret) (\<lambda>protectedPublicKey.
    bindE (failIf (\<not> equalBytes protectedPublicKey (sc_devicePublicKey certificate))
      ''chave protegida nao corresponde ao certificado'') (\<lambda>_.
    let parent = (case pi_parent input of None \<Rightarrow> rt_initialParent runtime | Some p \<Rightarrow> p);
        frames = (case pi_frames input of None \<Rightarrow> [] | Some fs \<Rightarrow> fs)
    in
    bindE (encodeDeviceAuthorization L (rt_deviceAuthorization runtime)) (\<lambda>authorizationBytes.
    bindE (encodeSessionCertificate L certificate) (\<lambda>certificateBytes.
    let provisioning = \<lparr>sv_sessionAccount = bytesToHex (pi_sessionAccount input),
          sv_confirmedSessionSlot = decimal (sc_finalizedSlot certificate),
          sv_deviceAuthorizationHex = bytesToHex authorizationBytes, sv_sessionCertificateHex = bytesToHex certificateBytes\<rparr>;
        branch = \<lparr>sb_sessionId = bytesToHex (sc_sessionId certificate), sb_stateHash = bytesToHex (pt_stateHash parent),
          sb_sequence = pt_sequence parent, sb_remaining = decimal (pt_remaining parent), sb_frames = frames,
          sb_pendingDelivery = (case pi_pendingDelivery input of None \<Rightarrow> False | Some b \<Rightarrow> b)\<rparr>;
        persisted = \<lparr>po_provisioningJson = provisioningText provisioning, po_branchStateJson = branchStateText branch,
          po_deviceSecretHex = rt_deviceSecretHex runtime\<rparr>;
        expected = \<lparr>ev_networkId = cx_networkId context, ev_clusterGenesisHash = cx_clusterGenesisHash context,
          ev_programId = cx_programId context, ev_trustedCertificateIssuer = cx_trustedCertificateIssuer context\<rparr>
    in
    bindE (restoreOnchainSession L (po_provisioningJson persisted) (po_branchStateJson persisted)
      (po_deviceSecretHex persisted) expected) (\<lambda>_.
      Inr persisted))))))))))"

definition hasCompleteOnchainStorage :: "string option \<Rightarrow> string option \<Rightarrow> string option \<Rightarrow> bool" where
  "hasCompleteOnchainStorage provisioningJson branchStateJson deviceSecretHex \<longleftrightarrow>
    provisioningJson \<noteq> None \<and> branchStateJson \<noteq> None \<and> deviceSecretHex \<noteq> None"

definition isSessionAccountHex :: "string \<Rightarrow> bool" where
  "isSessionAccountHex value = isHex 32 value"

end
