(* ===== verification/PayerFacts.thy ===== *)
theory PayerFacts
  imports PayerSession TransportFacts CredentialFacts
begin

text \<open>
  What restoring and storing a payer session come down to: the two texts read back as they were
  written, and a restored session is one whose certificate chain, key and payments all check.
\<close>

section \<open>Texts\<close>

lemma runtimeHexToBytes_iff: "runtimeHexToBytes s = Inr bs \<longleftrightarrow> bs \<noteq> [] \<and> s = bytesToHex bs"
proof
  assume l: "runtimeHexToBytes s = Inr bs"
  then have "s \<noteq> []" "even (length s)" "bs = hexPairs s" "bytesToHex (hexPairs s) = s"
    by (auto simp: runtimeHexToBytes_def bindE_Inr_iff even_iff_mod_2_eq_zero intro!: bytesToHex_hexPairs)
  then show "bs \<noteq> [] \<and> s = bytesToHex bs" by auto
next
  assume r: "bs \<noteq> [] \<and> s = bytesToHex bs"
  then have "bytesToHex bs \<noteq> []" by (cases bs) (simp_all add: byteHex_def)
  with r show "runtimeHexToBytes s = Inr bs"
    by (simp add: runtimeHexToBytes_def bytesToHex_digits hexPairs_bytesToHex del: list.set)
qed

lemma isHex_iff: "isHex n s \<longleftrightarrow> (\<exists>bs. length bs = n \<and> s = bytesToHex bs)"
proof
  assume s: "isHex n s"
  then have "s = bytesToHex (hexPairs s)" by (simp add: isHex_def bytesToHex_hexPairs del: list.set)
  with s show "\<exists>bs. length bs = n \<and> s = bytesToHex bs" by (metis isHex_bytesToHex)
qed (use isHex_bytesToHex in auto)

lemma storedHex_iff: "storedHex v n name = Inr s \<longleftrightarrow> v = Some (JString s) \<and> isHex n s"
  by (auto simp: storedHex_def split: option.splits json.splits)

lemma integerString_iff: "integerString v name = Inr s \<longleftrightarrow> v = Some (JString s) \<and> canonicalNumber s"
  by (auto simp: integerString_def split: option.splits json.splits)

lemma storedHex_ok [simp]: "isHex n s \<Longrightarrow> storedHex (Some (JString s)) n name = Inr s"
  by (simp add: storedHex_iff)

lemma integerString_ok [simp]: "canonicalNumber s \<Longrightarrow> integerString (Some (JString s)) name = Inr s"
  by (simp add: integerString_iff)

lemma decimal_canonical: "0 \<le> n \<Longrightarrow> canonicalNumber (decimal n)"
  by (simp add: decimal_def natDecimal_canonical)

lemma parse_provisioningText:
  "parseProvisioning (provisioningText p) = Inr q \<longleftrightarrow> q = p \<and> isHex 32 (sv_sessionAccount p) \<and>
    canonicalNumber (sv_confirmedSessionSlot p) \<and> isHex 370 (sv_deviceAuthorizationHex p) \<and> isHex 554 (sv_sessionCertificateHex p)"
proof -
  have "parseJson (provisioningText p) name = Inr
    [(''version'', JNumber 1), (''source'', JString ''on-chain''), (''sessionAccount'', JString (sv_sessionAccount p)),
     (''confirmedSessionSlot'', JString (sv_confirmedSessionSlot p)),
     (''deviceAuthorizationHex'', JString (sv_deviceAuthorizationHex p)),
     (''sessionCertificateHex'', JString (sv_sessionCertificateHex p))]" for name
    unfolding parseJson_def provisioningText_def by (subst JSON_parse_stringify) simp_all
  then show ?thesis by (auto simp: parseProvisioning_def bindE_Inr_iff storedHex_iff integerString_iff)
qed

lemma storedFramesOf_strings: "storedFramesOf (Some (JArray (map JString fs))) = Inr gs \<longleftrightarrow> gs = fs \<and> [] \<notin> set fs"
proof -
  have "mapE storedFrame (map JString fs) = Inr gs \<longleftrightarrow> gs = fs \<and> [] \<notin> set fs"
    by (induction fs arbitrary: gs) (auto simp: storedFrame_def bindE_Inr_iff)
  then show ?thesis by (simp add: storedFramesOf_def)
qed

lemma parse_branchStateText:
  "parseBranchState (branchStateText b) = Inr c \<longleftrightarrow> c = b \<and> isHex 32 (sb_sessionId b) \<and> isHex 32 (sb_stateHash b) \<and>
    0 \<le> sb_sequence b \<and> sb_sequence b \<le> 4294967295 \<and> canonicalNumber (sb_remaining b) \<and> [] \<notin> set (sb_frames b) \<and>
    (sb_pendingDelivery b \<longrightarrow> sb_frames b \<noteq> [])"
proof -
  have strings: "list_all plainJson (map JString fs)" for fs by (simp add: list_all_iff)
  have "parseJson (branchStateText b) name = Inr
    [(''version'', JNumber 1), (''sessionId'', JString (sb_sessionId b)), (''stateHash'', JString (sb_stateHash b)),
     (''sequence'', JNumber (of_int (sb_sequence b))), (''remaining'', JString (sb_remaining b)),
     (''frames'', JArray (map JString (sb_frames b))), (''pendingDelivery'', JBool (sb_pendingDelivery b))]" for name
    unfolding parseJson_def branchStateText_def by (subst JSON_parse_stringify) (simp_all add: strings)
  moreover have "sequenceOf (Some (JNumber (of_int (sb_sequence b)))) = Inr n \<longleftrightarrow>
      n = sb_sequence b \<and> 0 \<le> sb_sequence b \<and> sb_sequence b \<le> 4294967295" for n
    by (auto simp: sequenceOf_def)
  ultimately show ?thesis
    by (auto simp: parseBranchState_def bindE_Inr_iff storedHex_iff integerString_iff storedFramesOf_strings pendingDeliveryOf_def)
qed

lemma parseProvisioning_account: "parseProvisioning s = Inr p \<Longrightarrow> isHex 32 (sv_sessionAccount p)"
  by (auto simp: parseProvisioning_def bindE_Inr_iff storedHex_iff)

section \<open>Restoring\<close>

lemma initialParent_iff:
  "initialParent L cx cert = Inr g \<and> pt_stateHash g = sc_genesisStateHash cert \<longleftrightarrow>
    0 < sc_branchSpendingLimit cert \<and> sc_maxBranchDepth cert = 32 \<and> sc_issuedAt cert < sc_expiresAt cert \<and>
    genesisStateHash L (genesisOf cx cert) = Inr (sc_genesisStateHash cert) \<and> g = genesisParent cert"
  unfolding initialParent_def certificateGenesis_def [symmetric] bindE_Inr_iff createGenesisState_iff genesisParent_def
  by auto

lemma encodings_equal:
  assumes "borsh_ok L"
  shows "encodeDeviceAuthorization L a = Inr m \<Longrightarrow> encodeDeviceAuthorization L b = Inr m \<Longrightarrow> a = b"
    "encodeSessionCertificate L c = Inr n \<Longrightarrow> encodeSessionCertificate L d = Inr n \<Longrightarrow> c = d"
  using decodeDeviceAuthorization_iff [OF assms] decodeSessionCertificate_iff [OF assms] by (metis Inr_inject)+

text \<open>The payments a stored session proves, from the genesis of its certificate.\<close>

definition provenBy ::
  "lib \<Rightarrow> ProtocolTrustContext \<Rightarrow> DeviceAuthorization \<Rightarrow> SessionCertificate \<Rightarrow> string list \<Rightarrow> ParentState \<Rightarrow> PaymentCredential list \<Rightarrow> bool" where
  "provenBy L cx auth cert frames parent payments \<longleftrightarrow>
    (if frames = [] then parent = genesisParent cert \<and> payments = []
     else receiveCredential L frames = Inr \<lparr>sessionCertificate = cert, deviceAuthorization = auth, credentials = payments\<rparr> \<and>
       validateCredentialProofBundle L cx \<lparr>sessionCertificate = cert, deviceAuthorization = auth, credentials = payments\<rparr> = Inr parent)"

lemma restoreFrames_iff:
  assumes "borsh_ok L" "isOk (encodeDeviceAuthorization L auth)" "isOk (encodeSessionCertificate L cert)"
  shows "restoreFrames L cx auth cert (genesisParent cert) frames = Inr (parent, payments) \<longleftrightarrow> provenBy L cx auth cert frames parent payments"
proof (cases "frames = []")
  case False
  obtain a c where a: "encodeDeviceAuthorization L auth = Inr a" and c: "encodeSessionCertificate L cert = Inr c"
    using assms(2,3) by (auto simp: isOk_iff)
  have eq: "encodeDeviceAuthorization L (deviceAuthorization b) = Inr a \<and> encodeSessionCertificate L (sessionCertificate b) = Inr c \<longleftrightarrow>
      b = \<lparr>sessionCertificate = cert, deviceAuthorization = auth, credentials = credentials b\<rparr>" for b :: CredentialProofBundle
    using encodings_equal [OF assms(1)] a c by (cases b) auto
  have "restoreFrames L cx auth cert (genesisParent cert) frames = Inr (parent, payments) \<longleftrightarrow>
    (\<exists>b. receiveCredential L frames = Inr b \<and> (encodeDeviceAuthorization L (deviceAuthorization b) = Inr a \<and>
      encodeSessionCertificate L (sessionCertificate b) = Inr c) \<and> validateCredentialProofBundle L cx b = Inr parent \<and> credentials b = payments)"
    using False a c by (simp add: restoreFrames_def exactObject_def bindE_Inr_iff)
  also have "\<dots> \<longleftrightarrow> provenBy L cx auth cert frames parent payments"
    unfolding eq using False by (auto simp: provenBy_def)
  finally show ?thesis .
qed (auto simp: restoreFrames_def provenBy_def)

text \<open>What a restored session is.\<close>

definition soundSession :: "lib \<Rightarrow> OfflineTrustEnvironment \<Rightarrow> RestoredOnchainSession \<Rightarrow> bool" where
  "soundSession L env r \<longleftrightarrow>
    (let runtime = rp_runtime r; cert = rt_sessionCertificate runtime; auth = rt_deviceAuthorization runtime; cx = rt_trustContext runtime in
     cx = payerTrustContext env (sc_sessionId cert) \<and> validateCertificateChain L cx cert auth = Inr () \<and>
     genesisStateHash L (genesisOf cx cert) = Inr (sc_genesisStateHash cert) \<and> rt_initialParent runtime = genesisParent cert \<and>
     (\<exists>secret. length secret = 32 \<and> rt_deviceSecretHex runtime = bytesToHex secret \<and> derivePublicKey L secret = Inr (sc_devicePublicKey cert)) \<and>
     provenBy L cx auth cert (rp_outgoingFrames r) (rp_parent r) (rp_credentials r) \<and>
     ro_localProvisioning r = \<lparr>lp_source = OnChainSource, lp_provisioningConfirmed = True,
       lp_sessionAccount = lp_sessionAccount (ro_localProvisioning r), lp_sessionId = bytesToHex (sc_sessionId cert),
       lp_branchStateSessionId = bytesToHex (sc_sessionId cert), lp_owner = bytesToHex (sc_owner cert),
       lp_certificateOwner = bytesToHex (sc_owner cert), lp_devicePublicKey = bytesToHex (sc_devicePublicKey cert),
       lp_certificateDevicePublicKey = bytesToHex (sc_devicePublicKey cert),
       lp_protectedDeviceKeyPublicKey = Some (bytesToHex (sc_devicePublicKey cert)), lp_branchStatePresent = True\<rparr> \<and>
     isHex 32 (lp_sessionAccount (ro_localProvisioning r)) \<and> ro_confirmedSessionSlot r = decimal (sc_finalizedSlot cert))"

definition restoredAs ::
  "string \<Rightarrow> OfflineTrustEnvironment \<Rightarrow> DeviceAuthorization \<Rightarrow> SessionCertificate \<Rightarrow> ParentState \<Rightarrow> PaymentCredential list \<Rightarrow>
    StoredOnchainProvisioningV1 \<Rightarrow> StoredPayerBranchStateV1 \<Rightarrow> RestoredOnchainSession" where
  "restoredAs sk env auth cert parent payments p b =
    \<lparr>rp_runtime = \<lparr>rt_deviceSecretHex = sk, rt_deviceAuthorization = auth, rt_sessionCertificate = cert,
       rt_trustContext = payerTrustContext env (sc_sessionId cert), rt_initialParent = genesisParent cert\<rparr>,
     rp_parent = parent, rp_credentials = payments, rp_outgoingFrames = sb_frames b, rp_pendingDelivery = sb_pendingDelivery b,
     ro_localProvisioning = \<lparr>lp_source = OnChainSource, lp_provisioningConfirmed = True,
       lp_sessionAccount = sv_sessionAccount p, lp_sessionId = bytesToHex (sc_sessionId cert),
       lp_branchStateSessionId = bytesToHex (sc_sessionId cert), lp_owner = bytesToHex (sc_owner cert),
       lp_certificateOwner = bytesToHex (sc_owner cert), lp_devicePublicKey = bytesToHex (sc_devicePublicKey cert),
       lp_certificateDevicePublicKey = bytesToHex (sc_devicePublicKey cert),
       lp_protectedDeviceKeyPublicKey = Some (bytesToHex (sc_devicePublicKey cert)), lp_branchStatePresent = True\<rparr>,
     ro_confirmedSessionSlot = sv_confirmedSessionSlot p\<rparr>"

lemma chain_genesis:
  "validateCertificateChain L cx cert auth = Inr () \<Longrightarrow>
    initialParent L cx cert = Inr g \<and> pt_stateHash g = sc_genesisStateHash cert \<longleftrightarrow>
    genesisStateHash L (genesisOf cx cert) = Inr (sc_genesisStateHash cert) \<and> g = genesisParent cert"
  unfolding initialParent_iff validateCertificateChain_iff soundTerms_def by auto

lemma ex_unit: "(\<exists>u :: unit. P u) \<longleftrightarrow> P ()"
  by (metis (full_types) old.unit.exhaust)

lemma restore_iff:
  assumes "borsh_ok L"
  shows "restoreOnchainSession L pj bj sk env = Inr r \<longleftrightarrow>
    (\<exists>p b secret a c auth cert parent payments.
      parseProvisioning pj = Inr p \<and> parseBranchState bj = Inr b \<and> isHex 32 sk \<and> runtimeHexToBytes sk = Inr secret \<and>
      runtimeHexToBytes (sv_deviceAuthorizationHex p) = Inr a \<and> encodeDeviceAuthorization L auth = Inr a \<and>
      runtimeHexToBytes (sv_sessionCertificateHex p) = Inr c \<and> encodeSessionCertificate L cert = Inr c \<and>
      validateCertificateChain L (payerTrustContext env (sc_sessionId cert)) cert auth = Inr () \<and>
      derivePublicKey L secret = Inr (sc_devicePublicKey cert) \<and> sb_sessionId b = bytesToHex (sc_sessionId cert) \<and>
      sv_confirmedSessionSlot p = decimal (sc_finalizedSlot cert) \<and>
      genesisStateHash L (genesisOf (payerTrustContext env (sc_sessionId cert)) cert) = Inr (sc_genesisStateHash cert) \<and>
      provenBy L (payerTrustContext env (sc_sessionId cert)) auth cert (sb_frames b) parent payments \<and>
      assertParentMatches parent b = Inr () \<and> r = restoredAs sk env auth cert parent payments p b)"
  (is "?lhs \<longleftrightarrow> (\<exists>p b secret a c auth cert parent payments. ?R p b secret a c auth cert parent payments)")
proof
  assume ?lhs
  then obtain p b secret a c auth cert g parent payments publicKey where
    o: "parseProvisioning pj = Inr p" "parseBranchState bj = Inr b" "isHex 32 sk" "runtimeHexToBytes sk = Inr secret"
      "runtimeHexToBytes (sv_deviceAuthorizationHex p) = Inr a" "decodeDeviceAuthorization L a = Inr auth"
      "runtimeHexToBytes (sv_sessionCertificateHex p) = Inr c" "decodeSessionCertificate L c = Inr cert"
      "validateCertificateChain L (payerTrustContext env (sc_sessionId cert)) cert auth = Inr ()"
      "derivePublicKey L secret = Inr publicKey" "publicKey = sc_devicePublicKey cert"
      "sb_sessionId b = bytesToHex (sc_sessionId cert)" "sv_confirmedSessionSlot p = decimal (sc_finalizedSlot cert)"
      "initialParent L (payerTrustContext env (sc_sessionId cert)) cert = Inr g" "pt_stateHash g = sc_genesisStateHash cert"
      "restoreFrames L (payerTrustContext env (sc_sessionId cert)) auth cert g (sb_frames b) = Inr (parent, payments)"
      "assertParentMatches parent b = Inr ()" and
    r: "r = \<lparr>rp_runtime = \<lparr>rt_deviceSecretHex = sk, rt_deviceAuthorization = auth,
            rt_sessionCertificate = cert, rt_trustContext = payerTrustContext env (sc_sessionId cert), rt_initialParent = g\<rparr>,
          rp_parent = parent, rp_credentials = payments, rp_outgoingFrames = sb_frames b,
          rp_pendingDelivery = sb_pendingDelivery b,
          ro_localProvisioning = \<lparr>lp_source = OnChainSource, lp_provisioningConfirmed = True,
            lp_sessionAccount = sv_sessionAccount p, lp_sessionId = bytesToHex (sc_sessionId cert),
            lp_branchStateSessionId = sb_sessionId b, lp_owner = bytesToHex (sc_owner cert),
            lp_certificateOwner = bytesToHex (sc_owner cert),
            lp_devicePublicKey = bytesToHex (sc_devicePublicKey cert),
            lp_certificateDevicePublicKey = bytesToHex (sc_devicePublicKey cert),
            lp_protectedDeviceKeyPublicKey = Some (bytesToHex publicKey), lp_branchStatePresent = True\<rparr>,
          ro_confirmedSessionSlot = sv_confirmedSessionSlot p\<rparr>"
    unfolding restoreOnchainSession_def bindE_Inr_iff ex_unit Let_def split_paired_Ex prod.case storedHex_iff
      failIf_Inr_iff equalBytes_eq not_not option.inject json.inject sum.inject
    by blast
  have enc: "encodeDeviceAuthorization L auth = Inr a" "encodeSessionCertificate L cert = Inr c"
    using o(6,8) decodeDeviceAuthorization_iff [OF assms] decodeSessionCertificate_iff [OF assms] by auto
  have g: "genesisStateHash L (genesisOf (payerTrustContext env (sc_sessionId cert)) cert) = Inr (sc_genesisStateHash cert)" "g = genesisParent cert"
    using chain_genesis [OF o(9)] o(14,15) by auto
  have "provenBy L (payerTrustContext env (sc_sessionId cert)) auth cert (sb_frames b) parent payments"
    using o(16) restoreFrames_iff [OF assms] enc g(2) by (simp add: isOk_def)
  then have "?R p b secret a c auth cert parent payments" using o enc g r by (simp add: restoredAs_def)
  then show "\<exists>p b secret a c auth cert parent payments. ?R p b secret a c auth cert parent payments" by blast
next
  assume "\<exists>p b secret a c auth cert parent payments. ?R p b secret a c auth cert parent payments"
  then obtain p b secret a c auth cert parent payments where R: "?R p b secret a c auth cert parent payments" by blast
  note enc = R [THEN conjunct2, THEN conjunct2]
  have dec: "decodeDeviceAuthorization L a = Inr auth" "decodeSessionCertificate L c = Inr cert"
    using R decodeDeviceAuthorization_iff [OF assms] decodeSessionCertificate_iff [OF assms] by auto
  have g: "initialParent L (payerTrustContext env (sc_sessionId cert)) cert = Inr (genesisParent cert)"
    using R chain_genesis [of L "payerTrustContext env (sc_sessionId cert)" cert auth "genesisParent cert"] by blast
  have "restoreFrames L (payerTrustContext env (sc_sessionId cert)) auth cert (genesisParent cert) (sb_frames b) = Inr (parent, payments)"
    using R restoreFrames_iff [OF assms, of auth cert] by (simp add: isOk_def)
  with R dec g show ?lhs
    by (simp add: restoreOnchainSession_def restoredAs_def Let_def genesisParent_def [THEN arg_cong, of pt_stateHash, simplified])
qed

lemma restore_sound:
  assumes "borsh_ok L" "restoreOnchainSession L pj bj sk env = Inr r"
  shows "soundSession L env r"
proof -
  obtain p b secret auth cert parent payments where
    R: "parseProvisioning pj = Inr p" "isHex 32 sk" "runtimeHexToBytes sk = Inr secret"
      "validateCertificateChain L (payerTrustContext env (sc_sessionId cert)) cert auth = Inr ()"
      "derivePublicKey L secret = Inr (sc_devicePublicKey cert)" "sv_confirmedSessionSlot p = decimal (sc_finalizedSlot cert)"
      "genesisStateHash L (genesisOf (payerTrustContext env (sc_sessionId cert)) cert) = Inr (sc_genesisStateHash cert)"
      "provenBy L (payerTrustContext env (sc_sessionId cert)) auth cert (sb_frames b) parent payments"
    and r: "r = restoredAs sk env auth cert parent payments p b"
    using assms(2) unfolding restore_iff [OF assms(1)] by blast
  have "sk = bytesToHex secret" "length secret = 32" using R(2,3) unfolding runtimeHexToBytes_iff isHex_iff by auto
  with R parseProvisioning_account [OF R(1)] show ?thesis by (auto simp: soundSession_def r restoredAs_def Let_def)
qed

section \<open>Storing\<close>

definition storedParent :: "PersistInput \<Rightarrow> ParentState" where
  "storedParent i = (case pi_parent i of None \<Rightarrow> rt_initialParent (pi_runtime i) | Some p \<Rightarrow> p)"

definition storedFrames :: "PersistInput \<Rightarrow> string list" where
  "storedFrames i = (case pi_frames i of None \<Rightarrow> [] | Some fs \<Rightarrow> fs)"

definition storedPending :: "PersistInput \<Rightarrow> bool" where
  "storedPending i = (case pi_pendingDelivery i of None \<Rightarrow> False | Some b \<Rightarrow> b)"

definition environmentOf :: "ProtocolTrustContext \<Rightarrow> OfflineTrustEnvironment" where
  "environmentOf cx = \<lparr>ev_networkId = cx_networkId cx, ev_clusterGenesisHash = cx_clusterGenesisHash cx,
     ev_programId = cx_programId cx, ev_trustedCertificateIssuer = cx_trustedCertificateIssuer cx\<rparr>"

text \<open>A session that can be stored: signed, with its key, and with a state its frames prove.\<close>

definition storable :: "lib \<Rightarrow> PersistInput \<Rightarrow> PaymentCredential list \<Rightarrow> bool" where
  "storable L i payments \<longleftrightarrow>
    (let runtime = pi_runtime i; cert = rt_sessionCertificate runtime; auth = rt_deviceAuthorization runtime; cx = rt_trustContext runtime in
     length (pi_sessionAccount i) = 32 \<and> validateCertificateChain L cx cert auth = Inr () \<and>
     length (da_walletSignature auth) = 64 \<and> length (sc_issuerSignature cert) = 64 \<and>
     (\<exists>secret. length secret = 32 \<and> rt_deviceSecretHex runtime = bytesToHex secret \<and> derivePublicKey L secret = Inr (sc_devicePublicKey cert)) \<and>
     genesisStateHash L (genesisOf cx cert) = Inr (sc_genesisStateHash cert) \<and>
     provenBy L cx auth cert (storedFrames i) (storedParent i) payments \<and> (storedPending i \<longrightarrow> storedFrames i \<noteq> []))"

definition provisioningOf :: "PersistInput \<Rightarrow> bytes \<Rightarrow> bytes \<Rightarrow> StoredOnchainProvisioningV1" where
  "provisioningOf i a c = \<lparr>sv_sessionAccount = bytesToHex (pi_sessionAccount i),
     sv_confirmedSessionSlot = decimal (sc_finalizedSlot (rt_sessionCertificate (pi_runtime i))),
     sv_deviceAuthorizationHex = bytesToHex a, sv_sessionCertificateHex = bytesToHex c\<rparr>"

definition branchOf :: "PersistInput \<Rightarrow> StoredPayerBranchStateV1" where
  "branchOf i = \<lparr>sb_sessionId = bytesToHex (sc_sessionId (rt_sessionCertificate (pi_runtime i))),
     sb_stateHash = bytesToHex (pt_stateHash (storedParent i)), sb_sequence = pt_sequence (storedParent i),
     sb_remaining = decimal (pt_remaining (storedParent i)), sb_frames = storedFrames i, sb_pendingDelivery = storedPending i\<rparr>"

definition persistedAs :: "PersistInput \<Rightarrow> bytes \<Rightarrow> bytes \<Rightarrow> PersistedOnchainSession" where
  "persistedAs i a c = \<lparr>po_provisioningJson = provisioningText (provisioningOf i a c), po_branchStateJson = branchStateText (branchOf i),
     po_deviceSecretHex = rt_deviceSecretHex (pi_runtime i)\<rparr>"

definition restoreAll :: "lib \<Rightarrow> PersistedOnchainSession \<Rightarrow> OfflineTrustEnvironment \<Rightarrow> RestoredOnchainSession result" where
  "restoreAll L ps env = restoreOnchainSession L (po_provisioningJson ps) (po_branchStateJson ps) (po_deviceSecretHex ps) env"

lemma environment_context: "cx_sessionId cx = s \<Longrightarrow> payerTrustContext (environmentOf cx) s = cx"
  by (simp add: payerTrustContext_def environmentOf_def)

lemma create_iff:
  "createPersistedOnchainSession L i = Inr ps \<longleftrightarrow>
    (\<exists>secret a c r. length (pi_sessionAccount i) = 32 \<and>
      validateCertificateChain L (rt_trustContext (pi_runtime i)) (rt_sessionCertificate (pi_runtime i))
        (rt_deviceAuthorization (pi_runtime i)) = Inr () \<and>
      isHex 32 (rt_deviceSecretHex (pi_runtime i)) \<and> runtimeHexToBytes (rt_deviceSecretHex (pi_runtime i)) = Inr secret \<and>
      derivePublicKey L secret = Inr (sc_devicePublicKey (rt_sessionCertificate (pi_runtime i))) \<and>
      encodeDeviceAuthorization L (rt_deviceAuthorization (pi_runtime i)) = Inr a \<and>
      encodeSessionCertificate L (rt_sessionCertificate (pi_runtime i)) = Inr c \<and> ps = persistedAs i a c \<and>
      restoreAll L ps (environmentOf (rt_trustContext (pi_runtime i))) = Inr r)"
  unfolding createPersistedOnchainSession_def Let_def bindE_Inr_iff ex_unit storedHex_iff failIf_Inr_iff equalBytes_eq not_not
    option.inject json.inject sum.inject storedParent_def [symmetric] storedFrames_def [symmetric] storedPending_def [symmetric]
    environmentOf_def [symmetric] provisioningOf_def [symmetric] branchOf_def [symmetric] persistedAs_def [symmetric] restoreAll_def
  by (auto simp: persistedAs_def provisioningOf_def branchOf_def)

lemma replay_hash:
  assumes "hash_ok L"
  shows "replayCredentials L cx cert p cs = Inr q \<Longrightarrow> length (pt_stateHash p) = 32 \<Longrightarrow> length (pt_stateHash q) = 32"
proof (induction cs arbitrary: p)
  case (Cons c cs)
  then have c: "validatePaymentCredential L cx cert p c = Inr ()" and rest: "replayCredentials L cx cert (nextParent c) cs = Inr q"
    by (auto simp: bindE_Inr_iff)
  have "length (pc_newStateHash c) = 32"
    using c length_hashSha256 [OF assms] by (auto simp: validatePaymentCredential_iff paymentStateHash_iff)
  with Cons.IH [OF rest] show ?case by (simp add: nextParent_def)
qed simp

lemma received_texts: "receiveCredential L frames = Inr b \<Longrightarrow> [] \<notin> set frames"
proof
  assume b: "receiveCredential L frames = Inr b" "[] \<in> set frames"
  then obtain m where "assemble L CredentialBundleMessage frames = Inr m" by (auto simp: receiveCredential_def bindE_Inr_iff)
  then obtain fs where "list_all2 (\<lambda>raw f. parseFrame raw = Inr f) frames fs" by (rule assemble_sound)
  with b(2) obtain f where "parseFrame [] = Inr f" by (metis received_member)
  then show False by (simp add: parseFrame_def)
qed

lemma proven_state:
  assumes "borsh_ok L" "hash_ok L" "validateCertificateChain L cx cert auth = Inr ()" "provenBy L cx auth cert frames parent payments"
  shows "replayCredentials L cx cert (genesisParent cert) payments = Inr parent" "length payments \<le> 32" "length (pt_stateHash parent) = 32"
    "pt_sequence parent = int (length payments)" "pt_remaining parent = sc_branchSpendingLimit cert - sum_list (map pc_amount payments)"
    "0 \<le> pt_remaining parent" "[] \<notin> set frames"
proof -
  have cert: "trustedCertificate L cx cert" "soundTerms cert" using assms(3) by (auto simp: validateCertificateChain_iff)
  then have start: "length (pt_stateHash (genesisParent cert)) = 32" "0 \<le> pt_remaining (genesisParent cert)"
    using trusted_valid [OF assms(1)] by (auto simp: validSessionCertificate_def genesisParent_def soundTerms_def)
  show r: "replayCredentials L cx cert (genesisParent cert) payments = Inr parent" and "length payments \<le> 32"
    using assms(4) by (auto simp: provenBy_def validateCredentialProofBundle_iff split: if_splits)
  show "length (pt_stateHash parent) = 32" by (rule replay_hash [OF assms(2) r start(1)])
  show "pt_sequence parent = int (length payments)" "0 \<le> pt_remaining parent"
    "pt_remaining parent = sc_branchSpendingLimit cert - sum_list (map pc_amount payments)"
    using replay_totals [OF r] start(2) by (auto simp: genesisParent_def)
  show "[] \<notin> set frames" using assms(4) received_texts by (auto simp: provenBy_def split: if_splits)
qed

lemma storable_persists:
  assumes "borsh_ok L" "hash_ok L" "storable L i payments"
  obtains a c where "createPersistedOnchainSession L i = Inr (persistedAs i a c)"
    "restoreAll L (persistedAs i a c) (environmentOf (rt_trustContext (pi_runtime i))) =
      Inr (restoredAs (rt_deviceSecretHex (pi_runtime i)) (environmentOf (rt_trustContext (pi_runtime i)))
        (rt_deviceAuthorization (pi_runtime i)) (rt_sessionCertificate (pi_runtime i)) (storedParent i) payments
        (provisioningOf i a c) (branchOf i))"
proof -
  let ?runtime = "pi_runtime i"
  let ?cert = "rt_sessionCertificate ?runtime" and ?auth = "rt_deviceAuthorization ?runtime" and ?cx = "rt_trustContext ?runtime"
  note s = assms(3) [unfolded storable_def Let_def]
  then have acct: "length (pi_sessionAccount i) = 32" and chain: "validateCertificateChain L ?cx ?cert ?auth = Inr ()"
    and genesis: "genesisStateHash L (genesisOf ?cx ?cert) = Inr (sc_genesisStateHash ?cert)"
    and proven: "provenBy L ?cx ?auth ?cert (storedFrames i) (storedParent i) payments"
    and pending: "storedPending i \<longrightarrow> storedFrames i \<noteq> []" by auto
  obtain secret where secret: "length secret = 32" "rt_deviceSecretHex ?runtime = bytesToHex secret"
      "derivePublicKey L secret = Inr (sc_devicePublicKey ?cert)" using s by blast
  have trusted: "trustedCertificate L ?cx ?cert" "verifyDeviceAuthorization L ?auth" using chain by (auto simp: validateCertificateChain_iff)
  have valid: "validSessionCertificate ?cert" "validDeviceAuthorization ?auth"
    using trusted_valid [OF assms(1) trusted(1)] verifyDeviceAuthorization_valid [OF assms(1) trusted(2)] by auto
  obtain a c where enc: "encodeDeviceAuthorization L ?auth = Inr a" "encodeSessionCertificate L ?cert = Inr c"
    using encodeDeviceAuthorization_ok [OF assms(1), of ?auth] encodeSessionCertificate_ok [OF assms(1), of ?cert] s valid
    by (auto simp: isOk_iff)
  have len: "length a = 370" "length c = 554" using enc encodeDeviceAuthorization_length encodeSessionCertificate_length by blast+
  have cx: "payerTrustContext (environmentOf ?cx) (sc_sessionId ?cert) = ?cx"
    by (rule environment_context) (simp add: trusted_session [OF trusted(1)])
  note state = proven_state [OF assms(1,2) chain proven]
  have texts: "parseProvisioning (provisioningText (provisioningOf i a c)) = Inr (provisioningOf i a c)"
      "parseBranchState (branchStateText (branchOf i)) = Inr (branchOf i)"
    unfolding parse_provisioningText parse_branchStateText using acct len state pending valid
    by (simp_all add: provisioningOf_def branchOf_def isHex_bytesToHex decimal_canonical validSessionCertificate_def integer_ranges)
  have nonempty: "secret \<noteq> []" "a \<noteq> []" "c \<noteq> []" using secret(1) len by auto
  have key: "runtimeHexToBytes (rt_deviceSecretHex ?runtime) = Inr secret" using nonempty secret(2) by (simp add: runtimeHexToBytes_iff)
  have "restoreAll L (persistedAs i a c) (environmentOf ?cx) =
      Inr (restoredAs (rt_deviceSecretHex ?runtime) (environmentOf ?cx) ?auth ?cert (storedParent i) payments (provisioningOf i a c) (branchOf i))"
    unfolding restoreAll_def restore_iff [OF assms(1)]
    by (intro exI [of _ "provisioningOf i a c"] exI [of _ "branchOf i"] exI [of _ secret] exI [of _ a] exI [of _ ?auth] exI [of _ c]
          exI [of _ ?cert] exI [of _ "storedParent i"] exI [of _ payments])
      (use texts key enc chain genesis proven secret nonempty in
        \<open>simp add: persistedAs_def cx provisioningOf_def branchOf_def isHex_bytesToHex runtimeHexToBytes_iff assertParentMatches_def\<close>)
  moreover from this have "createPersistedOnchainSession L i = Inr (persistedAs i a c)"
    unfolding create_iff using acct chain key secret enc by (auto simp: isHex_bytesToHex)
  ultimately show ?thesis using that by blast
qed

lemma persisted_storable:
  assumes "borsh_ok L" "createPersistedOnchainSession L i = Inr ps"
  shows "\<exists>payments. storable L i payments"
proof -
  let ?runtime = "pi_runtime i"
  let ?cert = "rt_sessionCertificate ?runtime" and ?auth = "rt_deviceAuthorization ?runtime" and ?cx = "rt_trustContext ?runtime"
  obtain secret a c r where k: "length (pi_sessionAccount i) = 32" "validateCertificateChain L ?cx ?cert ?auth = Inr ()"
    "isHex 32 (rt_deviceSecretHex ?runtime)" "runtimeHexToBytes (rt_deviceSecretHex ?runtime) = Inr secret"
    "derivePublicKey L secret = Inr (sc_devicePublicKey ?cert)" "encodeDeviceAuthorization L ?auth = Inr a"
    "encodeSessionCertificate L ?cert = Inr c" "restoreAll L (persistedAs i a c) (environmentOf ?cx) = Inr r"
    using assms(2) unfolding create_iff by blast
  have len: "length a = 370" "length c = 554" using k(6,7) encodeDeviceAuthorization_length encodeSessionCertificate_length by blast+
  then have nonempty: "a \<noteq> []" "c \<noteq> []" by auto
  obtain p b secret' a' c' auth cert parent payments where
    R: "parseProvisioning (provisioningText (provisioningOf i a c)) = Inr p" "parseBranchState (branchStateText (branchOf i)) = Inr b"
      "runtimeHexToBytes (sv_deviceAuthorizationHex p) = Inr a'" "encodeDeviceAuthorization L auth = Inr a'"
      "runtimeHexToBytes (sv_sessionCertificateHex p) = Inr c'" "encodeSessionCertificate L cert = Inr c'"
      "genesisStateHash L (genesisOf (payerTrustContext (environmentOf ?cx) (sc_sessionId cert)) cert) = Inr (sc_genesisStateHash cert)"
      "provenBy L (payerTrustContext (environmentOf ?cx) (sc_sessionId cert)) auth cert (sb_frames b) parent payments"
      "assertParentMatches parent b = Inr ()"
    using k(8) unfolding restoreAll_def persistedAs_def PersistedOnchainSession.select_convs restore_iff [OF assms(1)] by blast
  have pb: "p = provisioningOf i a c" "b = branchOf i" "storedPending i \<longrightarrow> storedFrames i \<noteq> []"
    using R(1,2) unfolding parse_provisioningText parse_branchStateText by (auto simp: branchOf_def)
  have "a' = a" "c' = c" using R(3,5) nonempty by (auto simp: pb provisioningOf_def runtimeHexToBytes_iff)
  then have same: "auth = ?auth" "cert = ?cert" using encodings_equal [OF assms(1)] R(4,6) k(6,7) by auto
  have cx: "payerTrustContext (environmentOf ?cx) (sc_sessionId ?cert) = ?cx"
    using k(2) by (intro environment_context) (auto simp: validateCertificateChain_iff trusted_session)
  have "parent = storedParent i"
    using R(9) decimal_inject [of "pt_remaining parent"] by (simp add: assertParentMatches_def pb branchOf_def)
  moreover have "length (da_walletSignature ?auth) = 64" "length (sc_issuerSignature ?cert) = 64"
    using k(6,7) encodeDeviceAuthorization_ok [OF assms(1), of ?auth] encodeSessionCertificate_ok [OF assms(1), of ?cert] by auto
  moreover have "length secret = 32" "rt_deviceSecretHex ?runtime = bytesToHex secret"
    using k(3,4) by (auto simp: runtimeHexToBytes_iff isHex_bytesToHex)
  ultimately have "storable L i payments"
    using k(1,2,5) R(7,8) pb(3) unfolding same cx storable_def Let_def by (auto simp: pb branchOf_def)
  then show ?thesis ..
qed

end
