(* ===== verification/MobileStorage.thy ===== *)
theory MobileStorage
  imports Crypto JsonText
begin

text \<open>
  \<open>packages/mobile-storage/src/index.ts\<close>: a store whose commits survive the death of the process.
  A storage operation of the device either works, rejects, or the process dies at it; whether
  the effect happened before the rejection or the death is open. What each access of a run meets
  is the oracle \<open>faults\<close> of the device.
\<close>

section \<open>The device\<close>

datatype StorageArea = PublicArea | ProtectedArea

definition areaText :: "StorageArea \<Rightarrow> string" where
  "areaText area = (case area of PublicArea \<Rightarrow> ''public'' | ProtectedArea \<Rightarrow> ''protected'')"

datatype fault = Works | Rejects bool | Dies bool

type_synonym disk = "StorageArea \<Rightarrow> string \<Rightarrow> string option"

record Device =
  contents :: disk
  faults :: "nat \<Rightarrow> fault"
  accesses :: nat

datatype 'a outcome = Done 'a | Thrown js_error | Died

type_synonym 'a io = "Device \<Rightarrow> 'a outcome \<times> Device"

definition returnIO :: "'a \<Rightarrow> 'a io" where "returnIO x d = (Done x, d)"

definition throwIO :: "js_error \<Rightarrow> 'a io" where "throwIO e d = (Thrown e, d)"

definition bindIO :: "'a io \<Rightarrow> ('a \<Rightarrow> 'b io) \<Rightarrow> 'b io" where
  "bindIO m f d =
    (case m d of
       (Done x, d') \<Rightarrow> f x d'
     | (Thrown e, d') \<Rightarrow> (Thrown e, d')
     | (Died, d') \<Rightarrow> (Died, d'))"

text \<open>\<open>try { ... } catch (reason) { ... }\<close>: a dead process catches nothing.\<close>

definition catchIO :: "'a io \<Rightarrow> (js_error \<Rightarrow> 'a io) \<Rightarrow> 'a io" where
  "catchIO m handler d =
    (case m d of
       (Thrown e, d') \<Rightarrow> handler e d'
     | other \<Rightarrow> other)"

definition liftIO :: "'a result \<Rightarrow> 'a io" where
  "liftIO r = (case r of Inl e \<Rightarrow> throwIO e | Inr x \<Rightarrow> returnIO x)"

fun foldIO :: "('a \<Rightarrow> unit io) \<Rightarrow> 'a list \<Rightarrow> unit io" where
  "foldIO f [] = returnIO ()"
| "foldIO f (x # xs) = bindIO (f x) (\<lambda>_. foldIO f xs)"

fun mapIO :: "('a \<Rightarrow> 'b io) \<Rightarrow> 'a list \<Rightarrow> 'b list io" where
  "mapIO f [] = returnIO []"
| "mapIO f (x # xs) = bindIO (f x) (\<lambda>y. bindIO (mapIO f xs) (\<lambda>ys. returnIO (y # ys)))"

definition accessIO :: "(disk \<Rightarrow> 'a) \<Rightarrow> (disk \<Rightarrow> disk) \<Rightarrow> 'a io" where
  "accessIO result effect d =
    (let next = d\<lparr>accesses := accesses d + 1\<rparr>;
         changed = next\<lparr>contents := effect (contents d)\<rparr>
     in
     (case faults d (accesses d) of
        Works \<Rightarrow> (Done (result (contents d)), changed)
      | Rejects applied \<Rightarrow> (Thrown (JsError ''storage''), if applied then changed else next)
      | Dies applied \<Rightarrow> (Died, if applied then changed else next)))"

definition writeDisk :: "StorageArea \<Rightarrow> string \<Rightarrow> string option \<Rightarrow> disk \<Rightarrow> disk" where
  "writeDisk area key value disk = disk(area := (disk area)(key := value))"

definition storageGet :: "StorageArea \<Rightarrow> string \<Rightarrow> string option io" where
  "storageGet area key = accessIO (\<lambda>disk. disk area key) id"

definition storageSet :: "StorageArea \<Rightarrow> string \<Rightarrow> string \<Rightarrow> unit io" where
  "storageSet area key value = accessIO (\<lambda>_. ()) (writeDisk area key (Some value))"

definition storageRemove :: "StorageArea \<Rightarrow> string \<Rightarrow> unit io" where
  "storageRemove area key = accessIO (\<lambda>_. ()) (writeDisk area key None)"

section \<open>Formats\<close>

record DurableComponentDefinition =
  cd_name :: string
  cd_area :: StorageArea

datatype RecoveryDisposition = RecoveryClean | RolledBackPrepared | CompletedCommit | DiscardedInvalidPrepared

datatype DurableLoadResult =
  LoadEmpty RecoveryDisposition bool
| LoadCommitted string "(string \<times> string) list" RecoveryDisposition bool
| LoadCorrupt string

record DurableCommitResult =
  cr_generation :: string
  cr_cleanupPending :: bool

record CrashConsistentStoreOptions =
  so_namespace :: string
  so_components :: "DurableComponentDefinition list"

datatype ManifestPhase = PreparedPhase | CommittedPhase

definition phaseText :: "ManifestPhase \<Rightarrow> string" where
  "phaseText phase = (case phase of PreparedPhase \<Rightarrow> ''prepared'' | CommittedPhase \<Rightarrow> ''committed'')"

record ManifestComponentV1 =
  mf_name :: string
  mf_area :: StorageArea
  mf_key :: string
  mf_sha256 :: string

record ManifestV1 =
  mf_namespace :: string
  mf_generation :: string
  mf_phase :: ManifestPhase
  mf_components :: "ManifestComponentV1 list"

record ProtectedJournalV1 =
  jn_namespace :: string
  jn_currentGeneration :: "string option"
  jn_pendingGeneration :: "string option"

text \<open>What \<open>JSON.stringify\<close> gets\<close>

definition componentJson :: "ManifestComponentV1 \<Rightarrow> json" where
  "componentJson c = JObject
    [(''name'', JString (mf_name c)), (''area'', JString (areaText (mf_area c))), (''key'', JString (mf_key c)),
     (''sha256'', JString (mf_sha256 c))]"

definition manifestJson :: "ManifestV1 \<Rightarrow> json" where
  "manifestJson m = JObject
    [(''version'', JNumber 1), (''namespace'', JString (mf_namespace m)), (''generation'', JString (mf_generation m)),
     (''phase'', JString (phaseText (mf_phase m))), (''components'', JArray (map componentJson (mf_components m)))]"

definition nullableJson :: "string option \<Rightarrow> json" where
  "nullableJson v = (case v of None \<Rightarrow> JNull | Some s \<Rightarrow> JString s)"

definition journalJson :: "ProtectedJournalV1 \<Rightarrow> json" where
  "journalJson j = JObject
    [(''version'', JNumber 1), (''namespace'', JString (jn_namespace j)),
     (''currentGeneration'', nullableJson (jn_currentGeneration j)), (''pendingGeneration'', nullableJson (jn_pendingGeneration j))]"

definition envelopeJson :: "string \<Rightarrow> string \<Rightarrow> string \<Rightarrow> json" where
  "envelopeJson generationId name payload = JObject
    [(''version'', JNumber 1), (''generation'', JString generationId), (''name'', JString name), (''payload'', JString payload)]"

text \<open>\<open>new TextEncoder().encode(value)\<close>, UTF-8\<close>

definition utf8Char :: "char \<Rightarrow> bytes" where
  "utf8Char c =
    (let code = (of_char c :: nat) in
     if code < 128 then [word_of_nat code] else [word_of_nat (192 + code div 64), word_of_nat (128 + code mod 64)])"

definition digest :: "lib \<Rightarrow> string \<Rightarrow> string" where
  "digest L value = bytesToHex (hashSha256 L (concat (map utf8Char value)))"

section \<open>Parsing\<close>

definition objectOf :: "json \<Rightarrow> string \<Rightarrow> (string \<times> json) list result" where
  "objectOf value name = (case value of JObject kvs \<Rightarrow> Inr kvs | _ \<Rightarrow> Inl (JsError (name @ '' invalido'')))"

definition exactKeys :: "(string \<times> json) list \<Rightarrow> string list \<Rightarrow> string \<Rightarrow> unit result" where
  "exactKeys value expected name =
    failIf (\<not> sameKeys (sortBy compareText (map fst value)) (sortBy compareText expected)) (name @ '' contem campos inesperados'')"

definition jsonOf :: "string \<Rightarrow> string \<Rightarrow> (string \<times> json) list result" where
  "jsonOf value name =
    (case JSON_parse value of
       None \<Rightarrow> Inl (JsError (name @ '' nao contem JSON valido''))
     | Some v \<Rightarrow> objectOf v name)"

text \<open>\<open>generation\<close>: a text or 32 bytes, checked to be 64 hexadecimal characters\<close>

definition generationText :: "string + bytes \<Rightarrow> string result" where
  "generationText value =
    (let encoded = (case value of Inl s \<Rightarrow> s | Inr b \<Rightarrow> bytesToHex b) in
     bindE (failIf (\<not> isHex 32 encoded) ''generation ID deve conter exatamente 32 bytes hexadecimais'') (\<lambda>_. Inr encoded))"

definition componentKey :: "string \<Rightarrow> string \<Rightarrow> string \<Rightarrow> string" where
  "componentKey ns generationId name = ns @ ''.generation.'' @ generationId @ ''.'' @ name"

definition hexText :: "json option \<Rightarrow> string option" where
  "hexText v = (case v of Some (JString s) \<Rightarrow> if isHex 32 s then Some s else None | _ \<Rightarrow> None)"

definition manifestName :: string where "manifestName = ''manifesto duravel''"

definition parseManifestComponent ::
  "string \<Rightarrow> string \<Rightarrow> DurableComponentDefinition \<times> json \<Rightarrow> ManifestComponentV1 result" where
  "parseManifestComponent ns generationId = (\<lambda>(def, entry).
    bindE (objectOf entry ''componente do manifesto'') (\<lambda>item.
    bindE (exactKeys item [''name'', ''area'', ''key'', ''sha256''] ''componente do manifesto'') (\<lambda>_.
    let expectedKey = componentKey ns generationId (cd_name def) in
    (case hexText (map_of item ''sha256'') of
       Some sha \<Rightarrow>
         bindE (failIf (map_of item ''name'' \<noteq> Some (JString (cd_name def)) \<or>
             map_of item ''area'' \<noteq> Some (JString (areaText (cd_area def))) \<or> map_of item ''key'' \<noteq> Some (JString expectedKey))
           ''componente do manifesto nao corresponde ao layout configurado'') (\<lambda>_.
           Inr \<lparr>mf_name = cd_name def, mf_area = cd_area def, mf_key = expectedKey, mf_sha256 = sha\<rparr>)
     | None \<Rightarrow> Inl (JsError ''componente do manifesto nao corresponde ao layout configurado'')))))"

definition parseManifest ::
  "string \<Rightarrow> string \<Rightarrow> DurableComponentDefinition list \<Rightarrow> ManifestPhase \<Rightarrow> ManifestV1 result" where
  "parseManifest raw ns defs expectedPhase =
    bindE (jsonOf raw manifestName) (\<lambda>parsed.
    bindE (exactKeys parsed [''version'', ''namespace'', ''generation'', ''phase'', ''components''] manifestName) (\<lambda>_.
    bindE (failIf (map_of parsed ''version'' \<noteq> Some (JNumber 1) \<or> map_of parsed ''namespace'' \<noteq> Some (JString ns) \<or>
        map_of parsed ''phase'' \<noteq> Some (JString (phaseText expectedPhase)) \<or> hexText (map_of parsed ''generation'') = None)
      ''manifesto duravel possui versao, namespace, fase ou geracao invalida'') (\<lambda>_.
    let generationId = the (hexText (map_of parsed ''generation'')) in
    (case map_of parsed ''components'' of
       Some (JArray entries) \<Rightarrow>
         bindE (failIf (length entries \<noteq> length defs) ''manifesto duravel possui componentes invalidos'') (\<lambda>_.
         bindE (mapE (parseManifestComponent ns generationId) (zip defs entries)) (\<lambda>components.
           Inr \<lparr>mf_namespace = ns, mf_generation = generationId, mf_phase = expectedPhase, mf_components = components\<rparr>))
     | _ \<Rightarrow> Inl (JsError ''manifesto duravel possui componentes invalidos'')))))"

definition componentName :: "ManifestComponentV1 \<Rightarrow> string" where
  "componentName expected = ''componente duravel '' @ mf_name expected"

definition parseComponent :: "lib \<Rightarrow> string \<Rightarrow> ManifestV1 \<Rightarrow> ManifestComponentV1 \<Rightarrow> string result" where
  "parseComponent L raw manifest expected =
    bindE (jsonOf raw (componentName expected)) (\<lambda>parsed.
    bindE (exactKeys parsed [''version'', ''generation'', ''name'', ''payload''] (componentName expected)) (\<lambda>_.
    (case map_of parsed ''payload'' of
       Some (JString payload) \<Rightarrow>
         bindE (failIf (map_of parsed ''version'' \<noteq> Some (JNumber 1) \<or>
             map_of parsed ''generation'' \<noteq> Some (JString (mf_generation manifest)) \<or>
             map_of parsed ''name'' \<noteq> Some (JString (mf_name expected)))
           (componentName expected @ '' nao corresponde a geracao comprometida'')) (\<lambda>_.
         bindE (failIf (digest L payload \<noteq> mf_sha256 expected)
           (componentName expected @ '' falhou na verificacao SHA-256'')) (\<lambda>_.
           Inr payload))
     | _ \<Rightarrow> Inl (JsError (componentName expected @ '' nao corresponde a geracao comprometida'')))))"

definition nullableGeneration :: "json option \<Rightarrow> string \<Rightarrow> string option result" where
  "nullableGeneration value name =
    (case value of
       Some JNull \<Rightarrow> Inr None
     | _ \<Rightarrow>
        (case hexText value of
           Some s \<Rightarrow> Inr (Some s)
         | None \<Rightarrow> Inl (JsError (name @ '' invalida''))))"

definition parseProtectedJournal :: "string \<Rightarrow> string \<Rightarrow> ProtectedJournalV1 result" where
  "parseProtectedJournal raw ns =
    bindE (jsonOf raw ''journal protegido'') (\<lambda>parsed.
    bindE (exactKeys parsed [''version'', ''namespace'', ''currentGeneration'', ''pendingGeneration''] ''journal protegido'') (\<lambda>_.
    bindE (failIf (map_of parsed ''version'' \<noteq> Some (JNumber 1) \<or> map_of parsed ''namespace'' \<noteq> Some (JString ns))
      ''journal protegido possui versao ou namespace invalido'') (\<lambda>_.
    bindE (nullableGeneration (map_of parsed ''currentGeneration'') ''geracao atual do journal'') (\<lambda>current.
    bindE (nullableGeneration (map_of parsed ''pendingGeneration'') ''geracao pendente do journal'') (\<lambda>pending.
    bindE (failIf (current \<noteq> None \<and> current = pending) ''journal protegido repete a geracao atual como pendente'') (\<lambda>_.
      Inr \<lparr>jn_namespace = ns, jn_currentGeneration = current, jn_pendingGeneration = pending\<rparr>))))))"

text \<open>\<open>/^[a-z][a-z0-9-]{0,63}$/\<close> and \<open>/\s/\<close>\<close>

definition componentNameText :: "string \<Rightarrow> bool" where
  "componentNameText name \<longleftrightarrow> name \<noteq> [] \<and> length name \<le> 64 \<and> hd name \<in> set ''abcdefghijklmnopqrstuvwxyz'' \<and>
     list_all (\<lambda>c. c \<in> set ''abcdefghijklmnopqrstuvwxyz0123456789-'') (tl name)"

fun definitionNames :: "DurableComponentDefinition list \<Rightarrow> string list \<Rightarrow> unit result" where
  "definitionNames [] names = Inr ()"
| "definitionNames (def # defs) names =
    bindE (failIf (\<not> componentNameText (cd_name def)) (''nome de componente duravel invalido: '' @ cd_name def)) (\<lambda>_.
    bindE (failIf (cd_name def \<in> set names) (''componente duravel duplicado: '' @ cd_name def)) (\<lambda>_.
      definitionNames defs (cd_name def # names)))"

definition validateDefinitions :: "string \<Rightarrow> DurableComponentDefinition list \<Rightarrow> unit result" where
  "validateDefinitions ns defs =
    bindE (failIf (length ns = 0 \<or> length ns > 240 \<or> list_ex spaceChar ns) ''namespace duravel invalido'') (\<lambda>_.
    bindE (failIf (length defs = 0) ''ao menos um componente duravel e obrigatorio'') (\<lambda>_.
      definitionNames defs []))"

section \<open>Loading\<close>

definition bestEffortRemove :: "StorageArea \<Rightarrow> string \<Rightarrow> bool io" where
  "bestEffortRemove area key =
    catchIO (bindIO (storageRemove area key) (\<lambda>_. returnIO False)) (\<lambda>_. returnIO True)"

definition bestEffortSet :: "StorageArea \<Rightarrow> string \<Rightarrow> string \<Rightarrow> bool io" where
  "bestEffortSet area key value =
    catchIO (bindIO (storageSet area key value) (\<lambda>_. returnIO False)) (\<lambda>_. returnIO True)"

definition messageOf :: "js_error \<Rightarrow> string" where
  "messageOf reason = (case reason of OgpValidationError m \<Rightarrow> m | JsError m \<Rightarrow> m)"

text \<open>\<open>text.includes(part)\<close>\<close>

fun textIncludes :: "string \<Rightarrow> string \<Rightarrow> bool" where
  "textIncludes s part \<longleftrightarrow> take (length part) s = part \<or> (case s of [] \<Rightarrow> False | _ # cs \<Rightarrow> textIncludes cs part)"

definition preparedKey :: "CrashConsistentStoreOptions \<Rightarrow> string" where
  "preparedKey options = so_namespace options @ ''.transaction.prepared''"

definition committedKey :: "CrashConsistentStoreOptions \<Rightarrow> string" where
  "committedKey options = so_namespace options @ ''.transaction.committed''"

definition protectedJournalKey :: "CrashConsistentStoreOptions \<Rightarrow> string" where
  "protectedJournalKey options = so_namespace options @ ''.transaction.protected-journal''"

text \<open>Without a committed pointer: roll back what an interrupted first commit left behind.\<close>

definition preparedRecovery ::
  "CrashConsistentStoreOptions \<Rightarrow> ProtectedJournalV1 option \<Rightarrow> string \<Rightarrow> string + RecoveryDisposition" where
  "preparedRecovery options journal preparedRaw =
    (case parseManifest preparedRaw (so_namespace options) (so_components options) PreparedPhase of
       Inl reason \<Rightarrow>
         if textIncludes (messageOf reason) ''diverge'' then Inl (messageOf reason) else Inr DiscardedInvalidPrepared
     | Inr prepared \<Rightarrow>
         (case Option.bind journal jn_pendingGeneration of
            Some pending \<Rightarrow>
              if mf_generation prepared \<noteq> pending then Inl ''manifesto preparado diverge da geracao protegida pendente''
              else Inr RolledBackPrepared
          | None \<Rightarrow> Inr RolledBackPrepared))"

definition loadWithoutPointer ::
  "CrashConsistentStoreOptions \<Rightarrow> ProtectedJournalV1 option \<Rightarrow> string option \<Rightarrow> DurableLoadResult io" where
  "loadWithoutPointer options journal preparedRaw =
    (if Option.bind journal jn_currentGeneration \<noteq> None then
       returnIO (LoadCorrupt ''ponteiro publico comprometido ausente para a geracao protegida atual'')
     else if preparedRaw = None \<and> journal = None then returnIO (LoadEmpty RecoveryClean False)
     else
      (case (case preparedRaw of None \<Rightarrow> Inr RolledBackPrepared | Some raw \<Rightarrow> preparedRecovery options journal raw) of
         Inl reason \<Rightarrow> returnIO (LoadCorrupt reason)
       | Inr recovery \<Rightarrow>
           bindIO (if journal \<noteq> None then bestEffortRemove ProtectedArea (protectedJournalKey options) else returnIO False) (\<lambda>pending1.
           bindIO (if preparedRaw \<noteq> None then bestEffortRemove PublicArea (preparedKey options) else returnIO False) (\<lambda>pending2.
             returnIO (LoadEmpty recovery (pending2 \<or> pending1))))))"

definition loadComponent :: "lib \<Rightarrow> ManifestV1 \<Rightarrow> ManifestComponentV1 \<Rightarrow> (string \<times> string) io" where
  "loadComponent L committed component =
    bindIO (storageGet (mf_area component) (mf_key component)) (\<lambda>raw.
    (case raw of
       None \<Rightarrow> throwIO (JsError (componentName component @ '' ausente''))
     | Some text \<Rightarrow>
         bindIO (liftIO (parseComponent L text committed component)) (\<lambda>payload.
           returnIO (mf_name component, payload))))"

definition journalAfter :: "CrashConsistentStoreOptions \<Rightarrow> string \<Rightarrow> string" where
  "journalAfter options generationId = JSON_stringify (journalJson
     \<lparr>jn_namespace = so_namespace options, jn_currentGeneration = Some generationId, jn_pendingGeneration = None\<rparr>)"

text \<open>With its components read: finish or roll back what the journal says is pending.\<close>

definition settleCommitted ::
  "CrashConsistentStoreOptions \<Rightarrow> ProtectedJournalV1 \<Rightarrow> string option \<Rightarrow> ManifestV1 \<Rightarrow> (string \<times> string) list \<Rightarrow> DurableLoadResult io" where
  "settleCommitted options journal preparedRaw committed values =
    (let isPendingCommit = (jn_pendingGeneration journal = Some (mf_generation committed));
         recovery = (if isPendingCommit then CompletedCommit
           else if jn_pendingGeneration journal \<noteq> None then RolledBackPrepared else RecoveryClean)
     in
     bindIO (if jn_pendingGeneration journal \<noteq> None
       then bestEffortSet ProtectedArea (protectedJournalKey options) (journalAfter options (mf_generation committed))
       else returnIO False) (\<lambda>pending1.
     (case preparedRaw of
        None \<Rightarrow> returnIO (LoadCommitted (mf_generation committed) values recovery pending1)
      | Some raw \<Rightarrow>
          let recovery' = (case parseManifest raw (so_namespace options) (so_components options) PreparedPhase of
              Inl _ \<Rightarrow> DiscardedInvalidPrepared
            | Inr prepared \<Rightarrow>
                if recovery = RecoveryClean
                then (if mf_generation prepared = mf_generation committed then CompletedCommit else RolledBackPrepared)
                else recovery)
          in bindIO (bestEffortRemove PublicArea (preparedKey options)) (\<lambda>pending2.
            returnIO (LoadCommitted (mf_generation committed) values recovery' (pending2 \<or> pending1))))))"

definition loadCommitted ::
  "lib \<Rightarrow> CrashConsistentStoreOptions \<Rightarrow> ProtectedJournalV1 option \<Rightarrow> string option \<Rightarrow> string \<Rightarrow> DurableLoadResult io" where
  "loadCommitted L options journal preparedRaw committedRaw =
    (case journal of
       None \<Rightarrow> returnIO (LoadCorrupt ''journal protegido ausente para o ponteiro publico comprometido'')
     | Some protected \<Rightarrow>
        (case parseManifest committedRaw (so_namespace options) (so_components options) CommittedPhase of
           Inl reason \<Rightarrow> returnIO (LoadCorrupt (messageOf reason))
         | Inr committed \<Rightarrow>
             if jn_currentGeneration protected \<noteq> Some (mf_generation committed) \<and>
                jn_pendingGeneration protected \<noteq> Some (mf_generation committed)
             then returnIO (LoadCorrupt ''geracao publica comprometida diverge do journal protegido'')
             else
               bindIO (catchIO (bindIO (mapIO (loadComponent L committed) (mf_components committed)) (\<lambda>values. returnIO (Inr values)))
                 (\<lambda>reason. returnIO (Inl (messageOf reason)))) (\<lambda>loaded.
               (case loaded of
                  Inl reason \<Rightarrow> returnIO (LoadCorrupt reason)
                | Inr values \<Rightarrow> settleCommitted options protected preparedRaw committed values))))"

definition loadStore :: "lib \<Rightarrow> CrashConsistentStoreOptions \<Rightarrow> DurableLoadResult io" where
  "loadStore L options =
    bindIO (storageGet PublicArea (committedKey options)) (\<lambda>committedRaw.
    bindIO (storageGet PublicArea (preparedKey options)) (\<lambda>preparedRaw.
    bindIO (storageGet ProtectedArea (protectedJournalKey options)) (\<lambda>protectedJournalRaw.
    (case (case protectedJournalRaw of
             None \<Rightarrow> Inr None
           | Some raw \<Rightarrow> bindE (parseProtectedJournal raw (so_namespace options)) (\<lambda>j. Inr (Some j))) of
       Inl reason \<Rightarrow> returnIO (LoadCorrupt (messageOf reason))
     | Inr journal \<Rightarrow>
        (case committedRaw of
           None \<Rightarrow> loadWithoutPointer options journal preparedRaw
         | Some raw \<Rightarrow> loadCommitted L options journal preparedRaw raw)))))"

section \<open>Committing\<close>

text \<open>The loop over the generations \<open>nextGeneration\<close> returns, at most 8 of them.\<close>

fun uniqueGeneration :: "string option \<Rightarrow> (string + bytes) list \<Rightarrow> string result" where
  "uniqueGeneration current [] = Inl (JsError ''nao foi possivel gerar generation ID unico'')"
| "uniqueGeneration current (value # values) =
    bindE (generationText value) (\<lambda>candidate.
      if Some candidate \<noteq> current then Inr candidate else uniqueGeneration current values)"

definition manifestComponents ::
  "lib \<Rightarrow> CrashConsistentStoreOptions \<Rightarrow> string \<Rightarrow> (string \<times> string) list \<Rightarrow> ManifestComponentV1 list result" where
  "manifestComponents L options generationId values =
    mapE (\<lambda>def. case map_of values (cd_name def) of
        None \<Rightarrow> Inl (JsError (''componente duravel '' @ cd_name def @ '' ausente''))
      | Some payload \<Rightarrow> Inr \<lparr>mf_name = cd_name def, mf_area = cd_area def,
          mf_key = componentKey (so_namespace options) generationId (cd_name def), mf_sha256 = digest L payload\<rparr>)
      (so_components options)"

definition storeComponent :: "string \<Rightarrow> (string \<times> string) list \<Rightarrow> ManifestComponentV1 \<Rightarrow> unit io" where
  "storeComponent generationId values component =
    (case map_of values (mf_name component) of
       None \<Rightarrow> throwIO (JsError (componentName component @ '' ausente''))
     | Some payload \<Rightarrow> storageSet (mf_area component) (mf_key component)
         (JSON_stringify (envelopeJson generationId (mf_name component) payload)))"

definition commitGeneration ::
  "lib \<Rightarrow> CrashConsistentStoreOptions \<Rightarrow> (string \<times> string) list \<Rightarrow> string option \<Rightarrow> string \<Rightarrow> DurableCommitResult io" where
  "commitGeneration L options values currentGeneration generationId =
    bindIO (liftIO (manifestComponents L options generationId values)) (\<lambda>components.
    let prepared = \<lparr>mf_namespace = so_namespace options, mf_generation = generationId, mf_phase = PreparedPhase,
          mf_components = components\<rparr>;
        pending = \<lparr>jn_namespace = so_namespace options, jn_currentGeneration = currentGeneration,
          jn_pendingGeneration = Some generationId\<rparr>
    in
    bindIO (storageSet PublicArea (preparedKey options) (JSON_stringify (manifestJson prepared))) (\<lambda>_.
    bindIO (storageSet ProtectedArea (protectedJournalKey options) (JSON_stringify (journalJson pending))) (\<lambda>_.
    bindIO (foldIO (storeComponent generationId values) components) (\<lambda>_.
    bindIO (storageSet PublicArea (committedKey options)
      (JSON_stringify (manifestJson (prepared\<lparr>mf_phase := CommittedPhase\<rparr>)))) (\<lambda>_.
    bindIO (bestEffortSet ProtectedArea (protectedJournalKey options) (journalAfter options generationId)) (\<lambda>pending1.
    bindIO (bestEffortRemove PublicArea (preparedKey options)) (\<lambda>pending2.
      returnIO \<lparr>cr_generation = generationId, cr_cleanupPending = (pending2 \<or> pending1)\<rparr>)))))))"

definition commitStore ::
  "lib \<Rightarrow> CrashConsistentStoreOptions \<Rightarrow> (nat \<Rightarrow> string + bytes) \<Rightarrow> (string \<times> string) list \<Rightarrow> DurableCommitResult io" where
  "commitStore L options nextGeneration values =
    bindIO (liftIO (failIf (\<not> sameKeys (sortBy compareText (map fst values)) (sortBy compareText (map cd_name (so_components options))))
      ''snapshot duravel nao contem exatamente os componentes configurados'')) (\<lambda>_.
    bindIO (loadStore L options) (\<lambda>previous.
    bindIO (case previous of
        LoadCorrupt reason \<Rightarrow> throwIO (JsError (''snapshot duravel anterior invalido: '' @ reason))
      | LoadCommitted current _ _ _ \<Rightarrow> returnIO (Some current)
      | LoadEmpty _ _ \<Rightarrow> returnIO None) (\<lambda>currentGeneration.
    bindIO (liftIO (uniqueGeneration currentGeneration (map nextGeneration [0..<8]))) (\<lambda>generationId.
      commitGeneration L options values currentGeneration generationId))))"

end
