(* ===== verification/PayerRecovery.thy ===== *)
theory PayerRecovery
  imports PayerSession MobileStorage
begin

text \<open>
  The payer's recovery and provisioning: \<open>payer-crash-storage.ts\<close>,
  \<open>onchain-recovery-controller.ts\<close> and \<open>session-provisioning.ts\<close> of \<open>apps/payer-mobile/src\<close>. They
  run on the failing device of \<open>MobileStorage\<close>; the queue \<open>exclusive\<close> lets one storage operation
  run at a time, so the model runs them in sequence. The wallet, the chain, the issuer and the
  entropy source are functions that may reject.
\<close>

section \<open>The payer's store\<close>

record PayerRecoveryStorageSnapshot =
  sn_provisioningJson :: "string option"
  sn_branchStateJson :: "string option"
  sn_deviceSecretHex :: "string option"

definition PAYER_ONCHAIN_DURABLE_NAMESPACE :: string where
  "PAYER_ONCHAIN_DURABLE_NAMESPACE = ''ogp.payer.onchain.storage.v1''"

definition payerStore :: CrashConsistentStoreOptions where
  "payerStore = \<lparr>so_namespace = PAYER_ONCHAIN_DURABLE_NAMESPACE, so_components =
     [\<lparr>cd_name = ''branch-state'', cd_area = PublicArea\<rparr>, \<lparr>cd_name = ''provisioning'', cd_area = PublicArea\<rparr>,
      \<lparr>cd_name = ''device-secret'', cd_area = ProtectedArea\<rparr>]\<rparr>"

definition committedPayer :: "(string \<times> string) list \<Rightarrow> PayerRecoveryStorageSnapshot" where
  "committedPayer values =
    \<lparr>sn_provisioningJson = map_of values ''provisioning'', sn_branchStateJson = map_of values ''branch-state'',
     sn_deviceSecretHex = map_of values ''device-secret''\<rparr>"

definition loadPayer :: "lib \<Rightarrow> PayerRecoveryStorageSnapshot io \<Rightarrow> PayerRecoveryStorageSnapshot io" where
  "loadPayer L legacy =
    bindIO (loadStore L payerStore) (\<lambda>result.
    (case result of
       LoadCorrupt reason \<Rightarrow> throwIO (JsError (''Armazenamento duravel do pagador invalido: '' @ reason))
     | LoadEmpty _ _ \<Rightarrow> legacy
     | LoadCommitted _ values _ _ \<Rightarrow> returnIO (committedPayer values)))"

definition payerValues :: "PersistedOnchainSession \<Rightarrow> (string \<times> string) list" where
  "payerValues snapshot =
    [(''branch-state'', po_branchStateJson snapshot), (''provisioning'', po_provisioningJson snapshot),
     (''device-secret'', po_deviceSecretHex snapshot)]"

definition commitPayer :: "lib \<Rightarrow> (nat \<Rightarrow> string + bytes) \<Rightarrow> PersistedOnchainSession \<Rightarrow> unit io" where
  "commitPayer L nextGeneration snapshot =
    bindIO (commitStore L payerStore nextGeneration (payerValues snapshot)) (\<lambda>_. returnIO ())"

section \<open>The recovery controller\<close>

record PayerRecoveryControllerInput =
  ri_connected :: bool
  ri_walletOwnerHex :: "string option"
  ri_expectedEnvironment :: OfflineTrustEnvironment

record PayerRecoveryControllerResult =
  rr_decision :: SessionAccessDecision
  rr_restoredSession :: "RestoredOnchainSession option"
  rr_localValidationError :: "string option"
  rr_authoritative :: "AuthoritativeRecoveryState option"

definition walletOwner :: "string option \<Rightarrow> string option result" where
  "walletOwner value =
    (case value of
       None \<Rightarrow> Inr None
     | Some text \<Rightarrow>
         if \<not> isHex 32 text then Inl (JsError ''wallet owner deve conter exatamente 32 bytes hexadecimais'') else Inr (Some text))"

definition PARTIAL_INSTALLATION :: string where
  "PARTIAL_INSTALLATION = ''A instalacao contem somente parte da sessao.''"

text \<open>What the stored snapshot restores to, and why it does not.\<close>

definition restoreSnapshot ::
  "lib \<Rightarrow> OfflineTrustEnvironment \<Rightarrow> PayerRecoveryStorageSnapshot \<Rightarrow> RestoredOnchainSession option \<times> string option" where
  "restoreSnapshot L expected snapshot =
    (let present = length (filter (\<lambda>value. value \<noteq> None)
       [sn_provisioningJson snapshot, sn_branchStateJson snapshot, sn_deviceSecretHex snapshot])
     in
     if present = 0 then (None, None)
     else if \<not> hasCompleteOnchainStorage (sn_provisioningJson snapshot) (sn_branchStateJson snapshot) (sn_deviceSecretHex snapshot)
     then (None, Some PARTIAL_INSTALLATION)
     else
       (case restoreOnchainSession L (the (sn_provisioningJson snapshot)) (the (sn_branchStateJson snapshot))
           (the (sn_deviceSecretHex snapshot)) expected of
          Inl reason \<Rightarrow> (None, Some (messageOf reason))
        | Inr restored \<Rightarrow> (Some restored, None)))"

definition restoreLocal ::
  "lib \<Rightarrow> PayerRecoveryStorageSnapshot io \<Rightarrow> OfflineTrustEnvironment \<Rightarrow> (RestoredOnchainSession option \<times> string option) io" where
  "restoreLocal L load expected = bindIO load (\<lambda>snapshot. returnIO (restoreSnapshot L expected snapshot))"

text \<open>After the wallet: \<open>fetch\<close> is \<open>fetchConfirmedRecovery\<close> of the chain port.\<close>

definition decideOnline ::
  "(string \<Rightarrow> AuthoritativeRecoveryState result) \<Rightarrow> RestoredOnchainSession option \<Rightarrow> string option \<Rightarrow> string option \<Rightarrow>
    PayerRecoveryControllerResult result" where
  "decideOnline fetch restored error authorizedOwner =
    (let loc = map_option ro_localProvisioning restored;
         owner = (case loc of Some l \<Rightarrow> Some (lp_owner l) | None \<Rightarrow> authorizedOwner)
     in
     (case owner of
        None \<Rightarrow> Inr \<lparr>rr_decision = decision WalletAuthorizationRequired WalletSignatureRequired, rr_restoredSession = None,
          rr_localValidationError = error, rr_authoritative = None\<rparr>
      | Some ownerHex \<Rightarrow>
          if authorizedOwner \<noteq> None \<and> loc \<noteq> None \<and> authorizedOwner \<noteq> map_option lp_owner loc then
            Inr \<lparr>rr_decision = decision ActiveSessionBlocksReprovisioning ActiveSessionLocalBindingMismatch, rr_restoredSession = None,
              rr_localValidationError = Some ''A wallet autorizada nao corresponde ao owner da sessao local.'', rr_authoritative = None\<rparr>
          else
            bindE (fetch ownerHex) (\<lambda>authoritative.
              let verdict = decideSessionAccess \<lparr>sai_connected = True, sai_local = loc, sai_authoritative = Some authoritative,
                    sai_walletAuthorizationConfirmed = (authorizedOwner \<noteq> None)\<rparr>
              in Inr \<lparr>rr_decision = verdict, rr_restoredSession = (if sad_outcome verdict = OfflineReady then restored else None),
                rr_localValidationError = error, rr_authoritative = Some authoritative\<rparr>)))"

definition evaluatePayerRecovery ::
  "lib \<Rightarrow> PayerRecoveryControllerInput \<Rightarrow> PayerRecoveryStorageSnapshot io \<Rightarrow> (string \<Rightarrow> AuthoritativeRecoveryState result) \<Rightarrow>
    PayerRecoveryControllerResult io" where
  "evaluatePayerRecovery L input load fetch =
    bindIO (restoreLocal L load (ri_expectedEnvironment input)) (\<lambda>(restored, error).
    if \<not> ri_connected input then
      (let verdict = decideSessionAccess \<lparr>sai_connected = False, sai_local = map_option ro_localProvisioning restored,
             sai_authoritative = None, sai_walletAuthorizationConfirmed = False\<rparr>
       in returnIO \<lparr>rr_decision = verdict, rr_restoredSession = (if sad_outcome verdict = OfflineReady then restored else None),
         rr_localValidationError = error, rr_authoritative = None\<rparr>)
    else
      liftIO (bindE (walletOwner (ri_walletOwnerHex input)) (decideOnline fetch restored error)))"

section \<open>Provisioning a session\<close>

record NewOfflineSessionRequest =
  nr_collateralLocked :: int
  nr_branchSpendingLimit :: int
  nr_expiresAt :: int

record CreateSessionInput = NewOfflineSessionRequest +
  nr_owner :: bytes
  nr_sessionId :: bytes
  nr_devicePublicKey :: bytes

record SubmittedSessionTransaction =
  tx_signature :: string
  tx_sessionAccount :: bytes

record ConfirmedProvisioningSession =
  cs_contextSlot :: int
  cs_sessionAccount :: bytes
  cs_sessionId :: bytes
  cs_owner :: bytes
  cs_devicePublicKey :: bytes
  cs_vault :: bytes
  cs_tokenMint :: bytes
  cs_collateralLocked :: int
  cs_branchSpendingLimit :: int
  cs_collateralCoverageCap :: int
  cs_maxBranchDepth :: int
  cs_issuedAt :: int
  cs_expiresAt :: int
  cs_claimSubmissionDeadline :: int
  cs_genesisStateHash :: bytes
  cs_deviceAuthorizationHash :: bytes
  cs_identityAttestationHash :: bytes

text \<open>
  The ports. A call may reject. \<open>confirmAndFetchSession\<close> and \<open>random32\<close> are called more than once;
  their first argument is the number of the call, so two calls may answer differently.
\<close>

record ProvisioningPorts =
  authorizeOwner :: "bytes result"
  createOfflineSession :: "CreateSessionInput \<Rightarrow> SubmittedSessionTransaction result"
  signDeviceAuthorizationMessage :: "bytes \<Rightarrow> bytes \<Rightarrow> bytes result"
  registerDeviceAuthorization :: "bytes \<Rightarrow> bytes \<Rightarrow> bytes \<Rightarrow> string result"
  confirmAndFetchSession :: "nat \<Rightarrow> string \<Rightarrow> bytes \<Rightarrow> ConfirmedProvisioningSession result"
  issueCertificate :: "bytes \<Rightarrow> DeviceAuthorization \<Rightarrow> SessionCertificate result"
  random32 :: "nat \<Rightarrow> bytes result"

record ProvisionedPayerSession =
  pp_runtime :: PayerSessionRuntime
  pp_sessionAccount :: bytes
  pp_creationSignature :: string
  pp_authorizationRegistrationSignature :: string

definition assert32 :: "bytes \<Rightarrow> string \<Rightarrow> bool \<Rightarrow> unit result" where
  "assert32 value name nonzero = runE
    [failIf (length value \<noteq> 32) (name @ '' deve conter exatamente 32 bytes''),
     failIf (nonzero \<and> list_all (\<lambda>byte. byte = 0) value) (name @ '' nao pode ser zero'')]"

definition assert64 :: "bytes \<Rightarrow> string \<Rightarrow> unit result" where
  "assert64 value name = failIf (length value \<noteq> 64) (name @ '' deve conter exatamente 64 bytes'')"

definition assertEqual :: "bytes \<Rightarrow> bytes \<Rightarrow> string \<Rightarrow> unit result" where
  "assertEqual left right name = failIf (\<not> equalBytes left right) (name @ '' nao corresponde ao estado confirmado'')"

definition assertCreatedFacts :: "ConfirmedProvisioningSession \<Rightarrow> 'a CreateSessionInput_scheme \<Rightarrow> bytes \<Rightarrow> unit result" where
  "assertCreatedFacts facts expected sessionAccount = runE
    [assert32 (cs_sessionAccount facts) ''sessionAccount'' True, assert32 (cs_sessionId facts) ''sessionId'' True,
     assert32 (cs_owner facts) ''owner'' True, assert32 (cs_devicePublicKey facts) ''devicePublicKey'' True,
     assert32 (cs_vault facts) ''vault'' True, assert32 (cs_tokenMint facts) ''tokenMint'' True,
     assert32 (cs_genesisStateHash facts) ''genesisStateHash'' True,
     assert32 (cs_deviceAuthorizationHash facts) ''deviceAuthorizationHash'' False,
     assert32 (cs_identityAttestationHash facts) ''identityAttestationHash'' True,
     failIf (cs_contextSlot facts < 0) ''slot confirmado invalido'',
     assertEqual (cs_sessionAccount facts) sessionAccount ''sessionAccount'',
     assertEqual (cs_sessionId facts) (nr_sessionId expected) ''sessionId'',
     assertEqual (cs_owner facts) (nr_owner expected) ''owner'',
     assertEqual (cs_devicePublicKey facts) (nr_devicePublicKey expected) ''devicePublicKey'',
     failIf (cs_collateralLocked facts \<noteq> nr_collateralLocked expected \<or>
       cs_branchSpendingLimit facts \<noteq> nr_branchSpendingLimit expected \<or> cs_expiresAt facts \<noteq> nr_expiresAt expected)
       ''limites da sessao nao correspondem a transacao solicitada'',
     failIf (cs_collateralCoverageCap facts \<noteq> cs_collateralLocked facts \<or> cs_maxBranchDepth facts \<noteq> MAX_BRANCH_DEPTH)
       ''invariantes economicos confirmados invalidos'',
     failIf (cs_issuedAt facts \<ge> cs_expiresAt facts \<or> cs_claimSubmissionDeadline facts \<noteq> cs_expiresAt facts + 21600)
       ''janela temporal confirmada invalida'',
     failIf (\<not> equalBytes (cs_deviceAuthorizationHash facts) (replicate 32 0)) ''sessao recem-criada ja possui autorizacao registrada'']"

definition assertSameSession :: "ConfirmedProvisioningSession \<Rightarrow> ConfirmedProvisioningSession \<Rightarrow> unit result" where
  "assertSameSession left right = runE
    [assertEqual (cs_sessionAccount left) (cs_sessionAccount right) ''sessionAccount'',
     assertEqual (cs_sessionId left) (cs_sessionId right) ''sessionId'', assertEqual (cs_owner left) (cs_owner right) ''owner'',
     assertEqual (cs_devicePublicKey left) (cs_devicePublicKey right) ''devicePublicKey'',
     assertEqual (cs_vault left) (cs_vault right) ''vault'', assertEqual (cs_tokenMint left) (cs_tokenMint right) ''tokenMint'',
     assertEqual (cs_genesisStateHash left) (cs_genesisStateHash right) ''genesisStateHash'',
     assertEqual (cs_identityAttestationHash left) (cs_identityAttestationHash right) ''identityAttestationHash'',
     failIf (\<not> (cs_collateralLocked left = cs_collateralLocked right \<and> cs_branchSpendingLimit left = cs_branchSpendingLimit right \<and>
         cs_collateralCoverageCap left = cs_collateralCoverageCap right \<and> cs_maxBranchDepth left = cs_maxBranchDepth right \<and>
         cs_issuedAt left = cs_issuedAt right \<and> cs_expiresAt left = cs_expiresAt right \<and>
         cs_claimSubmissionDeadline left = cs_claimSubmissionDeadline right) \<or> cs_contextSlot right < cs_contextSlot left)
       ''sessao mudou ou regrediu durante o provisionamento'']"

definition assertCertificate :: "ConfirmedProvisioningSession \<Rightarrow> SessionCertificate \<Rightarrow> unit result" where
  "assertCertificate facts certificate = runE
    [assertEqual (sc_sessionId certificate) (cs_sessionId facts) ''certificado sessionId'',
     assertEqual (sc_owner certificate) (cs_owner facts) ''certificado owner'',
     assertEqual (sc_devicePublicKey certificate) (cs_devicePublicKey facts) ''certificado devicePublicKey'',
     assertEqual (sc_vault certificate) (cs_vault facts) ''certificado vault'',
     assertEqual (sc_tokenMint certificate) (cs_tokenMint facts) ''certificado tokenMint'',
     assertEqual (sc_genesisStateHash certificate) (cs_genesisStateHash facts) ''certificado genesisStateHash'',
     assertEqual (sc_deviceAuthorizationHash certificate) (cs_deviceAuthorizationHash facts) ''certificado deviceAuthorizationHash'',
     assertEqual (sc_identityAttestationHash certificate) (cs_identityAttestationHash facts) ''certificado identityAttestationHash'',
     failIf (\<not> (sc_collateralLocked certificate = cs_collateralLocked facts \<and>
         sc_branchSpendingLimit certificate = cs_branchSpendingLimit facts \<and>
         sc_collateralCoverageCap certificate = cs_collateralCoverageCap facts \<and>
         sc_maxBranchDepth certificate = cs_maxBranchDepth facts \<and> sc_issuedAt certificate = cs_issuedAt facts \<and>
         sc_expiresAt certificate = cs_expiresAt facts \<and>
         sc_claimSubmissionDeadline certificate = cs_claimSubmissionDeadline facts) \<or>
         sc_finalizedSlot certificate < cs_contextSlot facts)
       ''certificado nao representa o estado confirmado registrado'']"

text \<open>The wallet's message and what it signed.\<close>

definition authorizationPayload ::
  "ProtocolTrustContext \<Rightarrow> CreateSessionInput \<Rightarrow> ConfirmedProvisioningSession \<Rightarrow> bytes \<Rightarrow> DeviceAuthorizationPayload" where
  "authorizationPayload context input created authorizationNonce =
    \<lparr>da_domain = createDomain context DeviceAuthorizationObject, da_owner = nr_owner input,
     da_devicePublicKey = nr_devicePublicKey input, da_sessionId = nr_sessionId input, da_vault = cs_vault created,
     da_branchSpendingLimit = cs_branchSpendingLimit created, da_collateralCoverageCap = cs_collateralCoverageCap created,
     da_maxBranchDepth = cs_maxBranchDepth created, da_issuedAt = cs_issuedAt created, da_expiresAt = cs_expiresAt created,
     da_authorizationNonce = authorizationNonce\<rparr>"

text \<open>From the created session to the certificate: lines 191 to 225.\<close>

definition registerSession ::
  "lib \<Rightarrow> ProvisioningPorts \<Rightarrow> ProtocolTrustContext \<Rightarrow> CreateSessionInput \<Rightarrow> bytes \<Rightarrow> ConfirmedProvisioningSession \<Rightarrow> bytes \<Rightarrow>
    (DeviceAuthorization \<times> ConfirmedProvisioningSession \<times> string) result" where
  "registerSession L ports context input sessionAccount created authorizationNonce =
    (let payload = authorizationPayload context input created authorizationNonce in
    bindE (encodeDeviceAuthorizationPayload L payload) (\<lambda>message.
    bindE (signDeviceAuthorizationMessage ports (nr_owner input) message) (\<lambda>walletSignature.
    bindE (assert64 walletSignature ''assinatura da wallet'') (\<lambda>_.
    let authorization = DeviceAuthorizationPayload.extend payload (DeviceAuthorization.fields walletSignature) in
    bindE (failIf (\<not> verifyDeviceAuthorization L authorization) ''wallet retornou assinatura invalida para DeviceAuthorization'') (\<lambda>_.
    bindE (deviceAuthorizationHash L authorization) (\<lambda>authorizationHash.
    bindE (registerDeviceAuthorization ports (nr_owner input) sessionAccount authorizationHash) (\<lambda>registrationSignature.
    bindE (failIf (length registrationSignature = 0) ''assinatura do registro ausente'') (\<lambda>_.
    bindE (confirmAndFetchSession ports 1 registrationSignature sessionAccount) (\<lambda>registered.
    bindE (assertSameSession created registered) (\<lambda>_.
    bindE (assertEqual (cs_deviceAuthorizationHash registered) authorizationHash ''deviceAuthorizationHash registrado'') (\<lambda>_.
      Inr (authorization, registered, registrationSignature))))))))))))"

definition certifySession ::
  "lib \<Rightarrow> ProvisioningPorts \<Rightarrow> ProtocolTrustContext \<Rightarrow> CreateSessionInput \<Rightarrow> bytes \<Rightarrow> bytes \<Rightarrow> DeviceAuthorization \<Rightarrow>
    ConfirmedProvisioningSession \<Rightarrow> PayerSessionRuntime result" where
  "certifySession L ports context input deviceSecret sessionAccount authorization registered =
    bindE (issueCertificate ports sessionAccount authorization) (\<lambda>certificate.
    bindE (validateCertificateChain L context certificate authorization) (\<lambda>_.
    bindE (assertCertificate registered certificate) (\<lambda>_.
    bindE (createGenesisState context
      \<lparr>gf_owner = nr_owner input, gf_devicePublicKey = nr_devicePublicKey input,
       gf_branchSpendingLimit = cs_branchSpendingLimit registered, gf_maxBranchDepth = cs_maxBranchDepth registered,
       gf_initialRemaining = cs_branchSpendingLimit registered, gf_issuedAt = cs_issuedAt registered,
       gf_expiresAt = cs_expiresAt registered\<rparr>) (\<lambda>genesis.
    bindE (genesisStateHash L genesis) (\<lambda>computedGenesis.
    bindE (assertEqual computedGenesis (cs_genesisStateHash registered) ''genesisStateHash recalculado'') (\<lambda>_.
      Inr \<lparr>rt_deviceSecretHex = bytesToHex deviceSecret, rt_deviceAuthorization = authorization,
        rt_sessionCertificate = certificate, rt_trustContext = context,
        rt_initialParent = \<lparr>pt_stateHash = computedGenesis, pt_sequence = 0, pt_remaining = cs_branchSpendingLimit registered\<rparr>\<rparr>))))))"

text \<open>Everything between the access decision and the commit.\<close>

definition prepareSession ::
  "lib \<Rightarrow> ProvisioningPorts \<Rightarrow> OfflineTrustEnvironment \<Rightarrow> NewOfflineSessionRequest \<Rightarrow> bytes \<Rightarrow>
    (ProvisionedPayerSession \<times> PersistedOnchainSession) result" where
  "prepareSession L ports environment request owner =
    bindE (random32 ports 0) (\<lambda>deviceSecret.
    bindE (random32 ports 1) (\<lambda>sessionId.
    bindE (random32 ports 2) (\<lambda>authorizationNonce.
    bindE (assert32 deviceSecret ''chave do dispositivo'' True) (\<lambda>_.
    bindE (assert32 sessionId ''sessionId'' True) (\<lambda>_.
    bindE (assert32 authorizationNonce ''authorizationNonce'' True) (\<lambda>_.
    bindE (derivePublicKey L deviceSecret) (\<lambda>devicePublicKey.
    bindE (failIf (equalBytes owner devicePublicKey) ''wallet e chave da sessao devem ser distintas'') (\<lambda>_.
    let input = NewOfflineSessionRequest.extend request (CreateSessionInput.fields owner sessionId devicePublicKey) in
    bindE (createOfflineSession ports input) (\<lambda>submitted.
    bindE (assert32 (tx_sessionAccount submitted) ''sessionAccount'' True) (\<lambda>_.
    bindE (failIf (length (tx_signature submitted) = 0) ''assinatura da criacao ausente'') (\<lambda>_.
    bindE (confirmAndFetchSession ports 0 (tx_signature submitted) (tx_sessionAccount submitted)) (\<lambda>created.
    bindE (assertCreatedFacts created input (tx_sessionAccount submitted)) (\<lambda>_.
    let context = payerTrustContext environment sessionId in
    bindE (registerSession L ports context input (tx_sessionAccount submitted) created authorizationNonce)
      (\<lambda>(authorization, registered, registrationSignature).
    bindE (certifySession L ports context input deviceSecret (tx_sessionAccount submitted) authorization registered) (\<lambda>runtime.
    bindE (createPersistedOnchainSession L \<lparr>pi_sessionAccount = tx_sessionAccount submitted, pi_runtime = runtime,
      pi_parent = None, pi_frames = None, pi_pendingDelivery = None\<rparr>) (\<lambda>persisted.
      Inr (\<lparr>pp_runtime = runtime, pp_sessionAccount = tx_sessionAccount submitted, pp_creationSignature = tx_signature submitted,
        pp_authorizationRegistrationSignature = registrationSignature\<rparr>, persisted)))))))))))))))))"

definition persistConfirmedProvisioning ::
  "(PersistedOnchainSession \<Rightarrow> unit io) \<Rightarrow> PersistedOnchainSession \<Rightarrow> unit io" where
  "persistConfirmedProvisioning commit persisted = commit persisted"

definition reasonText :: "SessionAccessReason \<Rightarrow> string" where
  "reasonText reason = (case reason of
      CompleteLocalSession \<Rightarrow> ''complete-local-session''
    | LocalSessionMissingOrInvalid \<Rightarrow> ''local-session-missing-or-invalid''
    | ChainStateRequired \<Rightarrow> ''chain-state-required''
    | ActiveSessionLocalBindingMissing \<Rightarrow> ''active-session-local-binding-missing''
    | ActiveSessionLocalBindingMismatch \<Rightarrow> ''active-session-local-binding-mismatch''
    | ActiveSessionNotSpendable \<Rightarrow> ''active-session-not-spendable''
    | ProfileOfflineAccessRevoked \<Rightarrow> ''profile-offline-access-revoked''
    | WalletSignatureRequired \<Rightarrow> ''wallet-signature-required''
    | AuthoritativeProfileFree \<Rightarrow> ''authoritative-profile-free'')"

definition provisionNewPayerSession ::
  "lib \<Rightarrow> ProvisioningPorts \<Rightarrow> NewOfflineSessionRequest \<Rightarrow> OfflineTrustEnvironment \<Rightarrow> PayerRecoveryStorageSnapshot io \<Rightarrow>
    (PersistedOnchainSession \<Rightarrow> unit io) \<Rightarrow> (string \<Rightarrow> AuthoritativeRecoveryState result) \<Rightarrow> ProvisionedPayerSession io" where
  "provisionNewPayerSession L ports request environment load commit fetch =
    bindIO (liftIO (authorizeOwner ports)) (\<lambda>owner.
    bindIO (liftIO (assert32 owner ''owner autorizado'' True)) (\<lambda>_.
    bindIO (evaluatePayerRecovery L \<lparr>ri_connected = True, ri_walletOwnerHex = Some (bytesToHex owner),
      ri_expectedEnvironment = environment\<rparr> load fetch) (\<lambda>access.
    bindIO (liftIO (failIf (sad_outcome (rr_decision access) \<noteq> NewSessionAllowed)
      (''provisionamento bloqueado: '' @ reasonText (sad_reason (rr_decision access))))) (\<lambda>_.
    bindIO (liftIO (prepareSession L ports environment request owner)) (\<lambda>(provisioned, persisted).
    bindIO (persistConfirmedProvisioning commit persisted) (\<lambda>_.
      returnIO provisioned))))))"

end
