(* ===== verification/MerchantStorage.thy ===== *)
theory MerchantStorage
  imports MobileStorage
begin

text \<open>
  \<open>apps/merchant-mobile/src/merchant-crash-storage.ts\<close>: the merchant's key, claims and outstanding
  request in one crash-consistent store, with a one-time migration of the legacy keys. The queue
  \<open>exclusive\<close> lets one operation run at a time, so the model runs them in sequence. The types of
  the fields make the \<open>typeof\<close> checks of \<open>validateSnapshot\<close> true.
\<close>

record MerchantDurableSnapshot =
  md_deviceSecretHex :: string
  md_claimsJson :: string
  md_outstandingChallengeJson :: "string option"

record LegacyMerchantSnapshot =
  lm_deviceSecretHex :: "string option"
  lm_claimsJson :: "string option"
  lm_outstandingChallengeJson :: "string option"

definition validateSnapshot :: "MerchantDurableSnapshot \<Rightarrow> MerchantDurableSnapshot result" where
  "validateSnapshot snapshot =
    bindE (failIf (\<not> isHex 32 (md_deviceSecretHex snapshot))
      ''chave protegida do merchant deve conter exatamente 32 bytes hexadecimais'') (\<lambda>_. Inr snapshot)"

definition merchantStore :: "string \<Rightarrow> CrashConsistentStoreOptions" where
  "merchantStore ns = \<lparr>so_namespace = ns, so_components =
     [\<lparr>cd_name = ''claims'', cd_area = PublicArea\<rparr>, \<lparr>cd_name = ''outstanding-challenge'', cd_area = PublicArea\<rparr>,
      \<lparr>cd_name = ''device-secret'', cd_area = ProtectedArea\<rparr>]\<rparr>"

definition merchantValues :: "MerchantDurableSnapshot \<Rightarrow> (string \<times> string) list" where
  "merchantValues valid =
    [(''claims'', md_claimsJson valid),
     (''outstanding-challenge'', case md_outstandingChallengeJson valid of None \<Rightarrow> ''null'' | Some text \<Rightarrow> text),
     (''device-secret'', md_deviceSecretHex valid)]"

definition commitMerchant ::
  "lib \<Rightarrow> string \<Rightarrow> (nat \<Rightarrow> string + bytes) \<Rightarrow> MerchantDurableSnapshot \<Rightarrow> unit io" where
  "commitMerchant L ns nextGeneration snapshot =
    bindIO (liftIO (validateSnapshot snapshot)) (\<lambda>valid.
    bindIO (commitStore L (merchantStore ns) nextGeneration (merchantValues valid)) (\<lambda>_. returnIO ()))"

text \<open>\<open>result.values\<close> of a committed load; a missing member is \<open>undefined\<close>.\<close>

definition committedSnapshot :: "(string \<times> string) list \<Rightarrow> MerchantDurableSnapshot result" where
  "committedSnapshot values =
    (case map_of values ''outstanding-challenge'' of
       None \<Rightarrow> Inl (JsError ''Snapshot duravel do merchant nao contem pedido pendente'')
     | Some outstanding \<Rightarrow>
         validateSnapshot
           \<lparr>md_deviceSecretHex = (case map_of values ''device-secret'' of None \<Rightarrow> [] | Some text \<Rightarrow> text),
            md_claimsJson = (case map_of values ''claims'' of None \<Rightarrow> [] | Some text \<Rightarrow> text),
            md_outstandingChallengeJson = (if outstanding = ''null'' then None else Some outstanding)\<rparr>)"

text \<open>The legacy keys: nothing there, or a snapshot to migrate.\<close>

definition legacySnapshot :: "LegacyMerchantSnapshot \<Rightarrow> MerchantDurableSnapshot option result" where
  "legacySnapshot old =
    (let publicPresent = (lm_claimsJson old \<noteq> None \<or> lm_outstandingChallengeJson old \<noteq> None) in
     (case lm_deviceSecretHex old of
        None \<Rightarrow> bindE (failIf publicPresent ''Estado publico legado existe sem a chave protegida do merchant'') (\<lambda>_. Inr None)
      | Some secret \<Rightarrow>
          bindE (validateSnapshot
            \<lparr>md_deviceSecretHex = secret, md_claimsJson = (case lm_claimsJson old of None \<Rightarrow> ''[]'' | Some text \<Rightarrow> text),
             md_outstandingChallengeJson = lm_outstandingChallengeJson old\<rparr>) (\<lambda>migrated. Inr (Some migrated))))"

definition rawLoad ::
  "lib \<Rightarrow> string \<Rightarrow> (nat \<Rightarrow> string + bytes) \<Rightarrow> LegacyMerchantSnapshot io \<Rightarrow> MerchantDurableSnapshot option io" where
  "rawLoad L ns nextGeneration legacy =
    bindIO (loadStore L (merchantStore ns)) (\<lambda>result.
    (case result of
       LoadCorrupt reason \<Rightarrow> throwIO (JsError (''Armazenamento duravel do merchant invalido: '' @ reason))
     | LoadCommitted _ values _ _ \<Rightarrow> bindIO (liftIO (committedSnapshot values)) (\<lambda>snapshot. returnIO (Some snapshot))
     | LoadEmpty _ _ \<Rightarrow>
         bindIO legacy (\<lambda>old.
         bindIO (liftIO (legacySnapshot old)) (\<lambda>found.
         (case found of
            None \<Rightarrow> returnIO None
          | Some migrated \<Rightarrow> bindIO (commitMerchant L ns nextGeneration migrated) (\<lambda>_. returnIO (Some migrated)))))))"

definition initializeMerchant ::
  "lib \<Rightarrow> string \<Rightarrow> (nat \<Rightarrow> string + bytes) \<Rightarrow> LegacyMerchantSnapshot io \<Rightarrow> string \<Rightarrow> MerchantDurableSnapshot io" where
  "initializeMerchant L ns nextGeneration legacy deviceSecretHex =
    bindIO (rawLoad L ns nextGeneration legacy) (\<lambda>existing.
    (case existing of
       Some snapshot \<Rightarrow> returnIO snapshot
     | None \<Rightarrow>
         bindIO (liftIO (validateSnapshot
           \<lparr>md_deviceSecretHex = deviceSecretHex, md_claimsJson = ''[]'', md_outstandingChallengeJson = None\<rparr>)) (\<lambda>initial.
         bindIO (commitMerchant L ns nextGeneration initial) (\<lambda>_. returnIO initial))))"

definition updateMerchant ::
  "lib \<Rightarrow> string \<Rightarrow> (nat \<Rightarrow> string + bytes) \<Rightarrow> LegacyMerchantSnapshot io \<Rightarrow>
    (MerchantDurableSnapshot \<Rightarrow> MerchantDurableSnapshot result) \<Rightarrow> MerchantDurableSnapshot io" where
  "updateMerchant L ns nextGeneration legacy mutate =
    bindIO (rawLoad L ns nextGeneration legacy) (\<lambda>current.
    (case current of
       None \<Rightarrow> throwIO (JsError ''armazenamento do merchant ainda nao foi inicializado'')
     | Some snapshot \<Rightarrow>
         bindIO (liftIO (bindE (mutate snapshot) validateSnapshot)) (\<lambda>next.
         bindIO (commitMerchant L ns nextGeneration next) (\<lambda>_. returnIO next))))"

end
