(* ===== verification/StorageLogic.thy ===== *)
theory StorageLogic
  imports MobileStorage
begin

text \<open>
  Reasoning about programs on a failing device: \<open>triple F P m Q E D\<close> says that \<open>m\<close>, started with
  contents \<open>P\<close> on a device whose faults are all allowed by \<open>F\<close>, returns with \<open>Q\<close>, throws with \<open>E\<close>
  or dies with \<open>D\<close>, and leaves the oracle of faults alone.
\<close>

definition triple ::
  "(fault \<Rightarrow> bool) \<Rightarrow> (disk \<Rightarrow> bool) \<Rightarrow> 'a io \<Rightarrow> ('a \<Rightarrow> disk \<Rightarrow> bool) \<Rightarrow> (disk \<Rightarrow> bool) \<Rightarrow> (disk \<Rightarrow> bool) \<Rightarrow> bool" where
  "triple F P m Q E D \<longleftrightarrow>
    (\<forall>d r d'. P (contents d) \<longrightarrow> (\<forall>n. F (faults d n)) \<longrightarrow> m d = (r, d') \<longrightarrow>
      faults d' = faults d \<and>
      (case r of Done x \<Rightarrow> Q x (contents d') | Thrown _ \<Rightarrow> E (contents d') | Died \<Rightarrow> D (contents d')))"

definition rejecting :: "(fault \<Rightarrow> bool) \<Rightarrow> bool" where "rejecting F \<longleftrightarrow> (\<exists>applied. F (Rejects applied))"

named_theorems triple_rules \<open>the rules of the logic\<close>

lemma triple_weaken:
  assumes "triple F P' m Q' E' D'" "\<And>x. P x \<Longrightarrow> P' x" "\<And>v x. Q' v x \<Longrightarrow> Q v x" "\<And>x. E' x \<Longrightarrow> E x" "\<And>x. D' x \<Longrightarrow> D x"
  shows "triple F P m Q E D"
  unfolding triple_def
proof (intro allI impI)
  fix d r d' assume "P (contents d)" "\<forall>n. F (faults d n)" "m d = (r, d')"
  with assms(1,2) have "faults d' = faults d \<and>
    (case r of Done x \<Rightarrow> Q' x (contents d') | Thrown _ \<Rightarrow> E' (contents d') | Died \<Rightarrow> D' (contents d'))"
    unfolding triple_def by blast
  with assms(3-5) show "faults d' = faults d \<and>
    (case r of Done x \<Rightarrow> Q x (contents d') | Thrown _ \<Rightarrow> E (contents d') | Died \<Rightarrow> D (contents d'))"
    by (cases r) auto
qed

lemma triple_return [triple_rules]: "(\<And>x. P x \<Longrightarrow> Q v x) \<Longrightarrow> triple F P (returnIO v) Q E D"
  by (auto simp: triple_def returnIO_def)

lemma triple_throw: "(\<And>x. P x \<Longrightarrow> E x) \<Longrightarrow> triple F P (throwIO e) Q E D"
  by (auto simp: triple_def throwIO_def)

lemma triple_bind [triple_rules]:
  assumes "triple F P m M E D" "\<And>v. triple F (M v) (f v) Q E D"
  shows "triple F P (bindIO m f) Q E D"
  unfolding triple_def
proof (intro allI impI)
  fix d r d' assume d: "P (contents d)" "\<forall>n. F (faults d n)" "bindIO m f d = (r, d')"
  obtain r1 d1 where m: "m d = (r1, d1)" by force
  note first = assms(1) [unfolded triple_def, rule_format, OF d(1) d(2) [rule_format] m]
  show "faults d' = faults d \<and> (case r of Done x \<Rightarrow> Q x (contents d') | Thrown _ \<Rightarrow> E (contents d') | Died \<Rightarrow> D (contents d'))"
  proof (cases r1)
    case (Done v)
    with d(3) m have "f v d1 = (r, d')" by (simp add: bindIO_def)
    with assms(2) [of v, unfolded triple_def, rule_format, of d1 r d'] first Done d(2) show ?thesis by simp
  qed (use d(3) m first in \<open>auto simp: bindIO_def\<close>)
qed

lemma triple_catch:
  assumes "triple F P m Q M D" "\<And>e. triple F M (h e) Q E D"
  shows "triple F P (catchIO m h) Q E D"
  unfolding triple_def
proof (intro allI impI)
  fix d r d' assume d: "P (contents d)" "\<forall>n. F (faults d n)" "catchIO m h d = (r, d')"
  obtain r1 d1 where m: "m d = (r1, d1)" by force
  note first = assms(1) [unfolded triple_def, rule_format, OF d(1) d(2) [rule_format] m]
  show "faults d' = faults d \<and> (case r of Done x \<Rightarrow> Q x (contents d') | Thrown _ \<Rightarrow> E (contents d') | Died \<Rightarrow> D (contents d'))"
  proof (cases r1)
    case (Thrown e)
    with d(3) m have "h e d1 = (r, d')" by (simp add: catchIO_def)
    with assms(2) [of e, unfolded triple_def, rule_format, of d1 r d'] first Thrown d(2) show ?thesis by simp
  qed (use d(3) m first in \<open>auto simp: catchIO_def\<close>)
qed

lemma triple_lift:
  assumes "\<And>v x. P x \<Longrightarrow> r = Inr v \<Longrightarrow> Q v x" "\<And>e x. P x \<Longrightarrow> r = Inl e \<Longrightarrow> E x"
  shows "triple F P (liftIO r) Q E D"
  using assms by (cases r) (auto simp: liftIO_def intro!: triple_return triple_throw)

lemma triple_access:
  assumes "\<And>x. P x \<Longrightarrow> Q (result x) (effect x)" "\<And>x. P x \<Longrightarrow> rejecting F \<Longrightarrow> E x \<and> E (effect x)" "\<And>x. P x \<Longrightarrow> D x \<and> D (effect x)"
  shows "triple F P (accessIO result effect) Q E D"
  unfolding triple_def
proof (intro allI impI)
  fix d r d' assume d: "P (contents d)" "\<forall>n. F (faults d n)" "accessIO result effect d = (r, d')"
  show "faults d' = faults d \<and> (case r of Done x \<Rightarrow> Q x (contents d') | Thrown _ \<Rightarrow> E (contents d') | Died \<Rightarrow> D (contents d'))"
  proof (cases "faults d (accesses d)")
    case (Rejects applied)
    then have "rejecting F" using d(2) unfolding rejecting_def by metis
    with d Rejects assms(2) show ?thesis by (cases applied) (auto simp: accessIO_def Let_def)
  next
    case (Dies applied)
    with d assms(3) show ?thesis by (cases applied) (auto simp: accessIO_def Let_def)
  qed (use d assms(1) in \<open>auto simp: accessIO_def Let_def\<close>)
qed

text \<open>Reading leaves the contents alone.\<close>

lemma triple_get:
  "triple F ((=) x) (storageGet area key) (\<lambda>v y. v = x area key \<and> y = x) (\<lambda>y. rejecting F \<and> y = x) ((=) x)"
  unfolding storageGet_def by (rule triple_access) auto

lemma triple_set:
  assumes "\<And>x. P x \<Longrightarrow> Q (writeDisk area key (Some value) x)"
    "\<And>x. P x \<Longrightarrow> rejecting F \<Longrightarrow> E x \<and> E (writeDisk area key (Some value) x)"
    "\<And>x. P x \<Longrightarrow> D x \<and> D (writeDisk area key (Some value) x)"
  shows "triple F P (storageSet area key value) (\<lambda>_. Q) E D"
  unfolding storageSet_def by (rule triple_access) (use assms in auto)

lemma triple_bestEffort:
  assumes "\<And>x. P x \<Longrightarrow> Q (writeDisk area key value x)" "\<And>x. P x \<Longrightarrow> rejecting F \<Longrightarrow> Q x"
    "\<And>x. P x \<Longrightarrow> D x \<and> D (writeDisk area key value x)"
  shows "triple F P (catchIO (bindIO (accessIO (\<lambda>_. ()) (writeDisk area key value)) (\<lambda>_. returnIO False)) (\<lambda>_. returnIO True)) (\<lambda>_. Q) E D"
proof (rule triple_catch)
  show "triple F P (bindIO (accessIO (\<lambda>_. ()) (writeDisk area key value)) (\<lambda>_. returnIO False)) (\<lambda>_. Q) Q D"
    by (intro triple_bind [where M = "\<lambda>_. Q"] triple_access triple_return) (use assms in auto)
qed (auto intro: triple_return)

lemma triple_bestEffortSet:
  assumes "\<And>x. P x \<Longrightarrow> Q (writeDisk area key (Some value) x)" "\<And>x. P x \<Longrightarrow> rejecting F \<Longrightarrow> Q x"
    "\<And>x. P x \<Longrightarrow> D x \<and> D (writeDisk area key (Some value) x)"
  shows "triple F P (bestEffortSet area key value) (\<lambda>_. Q) E D"
  unfolding bestEffortSet_def storageSet_def by (rule triple_bestEffort) (use assms in auto)

lemma triple_bestEffortRemove:
  assumes "\<And>x. P x \<Longrightarrow> Q (writeDisk area key None x)" "\<And>x. P x \<Longrightarrow> rejecting F \<Longrightarrow> Q x"
    "\<And>x. P x \<Longrightarrow> D x \<and> D (writeDisk area key None x)"
  shows "triple F P (bestEffortRemove area key) (\<lambda>_. Q) E D"
  unfolding bestEffortRemove_def storageRemove_def by (rule triple_bestEffort) (use assms in auto)

lemma triple_fold:
  assumes "\<And>x xs. triple F (J (x # xs)) (f x) (\<lambda>_. J xs) E D"
  shows "triple F (J xs) (foldIO f xs) (\<lambda>_. J []) E D"
proof (induction xs)
  case (Cons x xs)
  show ?case unfolding foldIO.simps by (rule triple_bind [OF assms Cons.IH])
qed (auto intro: triple_return)

lemma triple_known:
  assumes "P0 \<Longrightarrow> triple F ((=) x) m Q E D"
  shows "triple F (\<lambda>y. P0 \<and> y = x) m Q E D"
  using assms unfolding triple_def by blast

lemma triple_map:
  assumes "list_all2 (\<lambda>c v. triple F ((=) x) (f c) (\<lambda>w y. w = v \<and> y = x) E D) cs vs"
  shows "triple F ((=) x) (mapIO f cs) (\<lambda>ws y. ws = vs \<and> y = x) E D"
  using assms
proof (induction rule: list_all2_induct)
  case (Cons c cs v vs)
  have "triple F (\<lambda>y. w = v \<and> y = x) (bindIO (mapIO f cs) (\<lambda>ys. returnIO (w # ys))) (\<lambda>ws y. ws = v # vs \<and> y = x) E D" for w
    by (rule triple_known, rule triple_bind [OF Cons.IH]) (auto intro: triple_return)
  with Cons.hyps(1) show ?case unfolding mapIO.simps by (rule triple_bind)
qed (auto intro: triple_return)

text \<open>Case distinctions on what is known before the program starts.\<close>

lemma triple_pre: "(\<And>x. P x \<Longrightarrow> triple F ((=) x) m Q E D) \<Longrightarrow> triple F P m Q E D"
  unfolding triple_def by metis

lemma triple_run:
  assumes "triple F P m Q E D" "P (contents d)" "\<And>n. F (faults d n)" "m d = (r, d')"
  shows "case r of Done x \<Rightarrow> Q x (contents d') | Thrown _ \<Rightarrow> E (contents d') | Died \<Rightarrow> D (contents d')"
  using assms unfolding triple_def by blast

end
