(* ===== verification/StorageFacts.thy ===== *)
theory StorageFacts
  imports StorageLogic
begin

text \<open>
  The contents of a durable store and their abstraction: \<open>durable L options disk s\<close> says that the disk
  holds the snapshot \<open>s\<close>, a generation with its payloads or nothing yet, whatever an interrupted
  transaction left around it.
\<close>

section \<open>Reading back the formats\<close>

lemma map_of_cells: "map_of ((k, v) # kvs) k = Some v" "k \<noteq> j \<Longrightarrow> map_of ((j, v) # kvs) k = map_of kvs k"
  by simp_all

lemma hexText_JString: "hexText (Some (JString s)) = (if isHex 32 s then Some s else None)"
  by (simp add: hexText_def)

lemma jsonOf_object: "plainJson (JObject kvs) \<Longrightarrow> jsonOf (JSON_stringify (JObject kvs)) name = Inr kvs"
  by (simp only: jsonOf_def JSON_parse_stringify option.case objectOf_def json.case)

lemma exactKeys_same: "map fst kvs = ks \<Longrightarrow> exactKeys kvs ks name = Inr ()"
  by (simp add: exactKeys_def sameKeys_iff)

definition generationOk :: "string option \<Rightarrow> bool" where
  "generationOk g \<longleftrightarrow> (case g of None \<Rightarrow> True | Some s \<Rightarrow> isHex 32 s)"

lemma nullableGeneration_json: "generationOk g \<Longrightarrow> nullableGeneration (Some (nullableJson g)) name = Inr g"
  by (cases g) (simp_all add: nullableGeneration_def nullableJson_def hexText_def generationOk_def)

definition journalOf :: "string \<Rightarrow> string option \<Rightarrow> string option \<Rightarrow> ProtectedJournalV1" where
  "journalOf ns c p = \<lparr>jn_namespace = ns, jn_currentGeneration = c, jn_pendingGeneration = p\<rparr>"

lemma plain_nullable: "plainJson (nullableJson g)"
  by (cases g) (simp_all add: nullableJson_def)

lemma parse_journal:
  assumes "generationOk c" "generationOk p" "c = None \<or> c \<noteq> p"
  shows "parseProtectedJournal (JSON_stringify (journalJson (journalOf ns c p))) ns = Inr (journalOf ns c p)"
proof -
  let ?kvs = "[(''version'', JNumber 1), (''namespace'', JString ns), (''currentGeneration'', nullableJson c),
    (''pendingGeneration'', nullableJson p)]"
  have "jsonOf (JSON_stringify (journalJson (journalOf ns c p))) name = Inr ?kvs" for name
    unfolding journalJson_def journalOf_def ProtectedJournalV1.select_convs by (rule jsonOf_object) (simp add: plain_nullable)
  moreover have "exactKeys ?kvs [''version'', ''namespace'', ''currentGeneration'', ''pendingGeneration''] name = Inr ()" for name
    by (rule exactKeys_same) simp
  ultimately show ?thesis using assms
    by (auto simp: parseProtectedJournal_def nullableGeneration_json journalOf_def)
qed

section \<open>Manifests\<close>

definition componentOf :: "lib \<Rightarrow> string \<Rightarrow> string \<Rightarrow> DurableComponentDefinition \<Rightarrow> string \<Rightarrow> ManifestComponentV1" where
  "componentOf L ns g def payload =
    \<lparr>mf_name = cd_name def, mf_area = cd_area def, mf_key = componentKey ns g (cd_name def), mf_sha256 = digest L payload\<rparr>"

definition manifestOf :: "lib \<Rightarrow> CrashConsistentStoreOptions \<Rightarrow> string \<Rightarrow> string list \<Rightarrow> ManifestPhase \<Rightarrow> ManifestV1" where
  "manifestOf L options g ps phase =
    \<lparr>mf_namespace = so_namespace options, mf_generation = g, mf_phase = phase,
     mf_components = map2 (componentOf L (so_namespace options) g) (so_components options) ps\<rparr>"

lemma digest_hex: "hash_ok L \<Longrightarrow> isHex 32 (digest L s)"
  by (simp add: digest_def isHex_def bytesToHex_digits length_hashSha256 del: list.set)

lemma parse_component_entry:
  assumes "isHex 32 sha"
  shows "parseManifestComponent ns g (def, componentJson
      \<lparr>mf_name = cd_name def, mf_area = cd_area def, mf_key = componentKey ns g (cd_name def), mf_sha256 = sha\<rparr>) =
    Inr \<lparr>mf_name = cd_name def, mf_area = cd_area def, mf_key = componentKey ns g (cd_name def), mf_sha256 = sha\<rparr>"
proof -
  let ?kvs = "[(''name'', JString (cd_name def)), (''area'', JString (areaText (cd_area def))),
    (''key'', JString (componentKey ns g (cd_name def))), (''sha256'', JString sha)]"
  have "exactKeys ?kvs [''name'', ''area'', ''key'', ''sha256''] name = Inr ()" for name
    by (rule exactKeys_same) simp
  with assms show ?thesis
    by (simp add: parseManifestComponent_def componentJson_def objectOf_def hexText_JString)
qed

lemma parse_manifest:
  assumes "hash_ok L" "isHex 32 g" "length ps = length (so_components options)"
  shows "parseManifest (JSON_stringify (manifestJson (manifestOf L options g ps phase))) (so_namespace options) (so_components options) phase =
    Inr (manifestOf L options g ps phase)"
proof -
  let ?entries = "map componentJson (map2 (componentOf L (so_namespace options) g) (so_components options) ps)"
  let ?kvs = "[(''version'', JNumber 1), (''namespace'', JString (so_namespace options)), (''generation'', JString g),
    (''phase'', JString (phaseText phase)), (''components'', JArray ?entries)]"
  have "list_all plainJson ?entries" by (auto simp: list_all_iff componentJson_def)
  then have "plainJson (JObject ?kvs)" by (simp del: map_map)
  then have read: "jsonOf (JSON_stringify (manifestJson (manifestOf L options g ps phase))) name = Inr ?kvs" for name
    unfolding manifestJson_def manifestOf_def ManifestV1.select_convs by (rule jsonOf_object)
  have keys: "exactKeys ?kvs [''version'', ''namespace'', ''generation'', ''phase'', ''components''] name = Inr ()" for name
    by (rule exactKeys_same) simp
  have "mapE (parseManifestComponent (so_namespace options) g) (zip (so_components options) ?entries) =
      Inr (map2 (componentOf L (so_namespace options) g) (so_components options) ps)"
    unfolding mapE_Inr_iff list_all2_conv_all_nth
    using assms(3) parse_component_entry [OF digest_hex [OF assms(1)]] by (simp add: componentOf_def)
  then show ?thesis
    using assms(2,3) unfolding parseManifest_def read keys bindE_simps
    by (simp add: hexText_JString manifestOf_def del: map_map)
qed

lemma parse_component:
  assumes "hash_ok L"
  shows "parseComponent L (JSON_stringify (envelopeJson g (cd_name def) payload)) (manifestOf L options g ps phase)
    (componentOf L ns g def payload) = Inr payload"
proof -
  let ?kvs = "[(''version'', JNumber 1), (''generation'', JString g), (''name'', JString (cd_name def)), (''payload'', JString payload)]"
  have "jsonOf (JSON_stringify (envelopeJson g (cd_name def) payload)) name = Inr ?kvs" for name
    unfolding envelopeJson_def by (rule jsonOf_object) simp
  moreover have "exactKeys ?kvs [''version'', ''generation'', ''name'', ''payload''] name = Inr ()" for name
    by (rule exactKeys_same) simp
  ultimately show ?thesis by (simp add: parseComponent_def manifestOf_def componentOf_def)
qed

section \<open>Keys\<close>

lemma keys_differ [simp]:
  "preparedKey options \<noteq> committedKey options" "committedKey options \<noteq> preparedKey options"
  "preparedKey options \<noteq> protectedJournalKey options" "protectedJournalKey options \<noteq> preparedKey options"
  "committedKey options \<noteq> protectedJournalKey options" "protectedJournalKey options \<noteq> committedKey options"
  "componentKey (so_namespace options) g name \<noteq> preparedKey options" "preparedKey options \<noteq> componentKey (so_namespace options) g name"
  "componentKey (so_namespace options) g name \<noteq> committedKey options" "committedKey options \<noteq> componentKey (so_namespace options) g name"
  "componentKey (so_namespace options) g name \<noteq> protectedJournalKey options"
  "protectedJournalKey options \<noteq> componentKey (so_namespace options) g name"
  by (simp_all add: preparedKey_def committedKey_def protectedJournalKey_def componentKey_def)

lemma componentKey_inject:
  "length g = length g' \<Longrightarrow> componentKey ns g n = componentKey ns g' n' \<longleftrightarrow> g = g' \<and> n = n'"
  by (auto simp: componentKey_def)

lemma isHex_length: "isHex n g \<Longrightarrow> length g = 2 * n"
  by (simp add: isHex_def)

lemma writeDisk_apply [simp]:
  "writeDisk a k v disk b j = (if a = b \<and> k = j then v else disk b j)"
  by (simp add: writeDisk_def)

section \<open>The abstraction\<close>

definition snapshotStored :: "lib \<Rightarrow> CrashConsistentStoreOptions \<Rightarrow> disk \<Rightarrow> string \<Rightarrow> string list \<Rightarrow> bool" where
  "snapshotStored L options disk g ps \<longleftrightarrow> isHex 32 g \<and> length ps = length (so_components options) \<and>
    disk PublicArea (committedKey options) = Some (JSON_stringify (manifestJson (manifestOf L options g ps CommittedPhase))) \<and>
    (\<forall>(def, p) \<in> set (zip (so_components options) ps).
      disk (cd_area def) (componentKey (so_namespace options) g (cd_name def)) = Some (JSON_stringify (envelopeJson g (cd_name def) p)))"

definition journalIs :: "CrashConsistentStoreOptions \<Rightarrow> disk \<Rightarrow> string option \<Rightarrow> string option \<Rightarrow> bool" where
  "journalIs options disk c p \<longleftrightarrow> generationOk c \<and> generationOk p \<and> (c = None \<or> c \<noteq> p) \<and>
    disk ProtectedArea (protectedJournalKey options) = Some (JSON_stringify (journalJson (journalOf (so_namespace options) c p)))"

definition journalAbsent :: "CrashConsistentStoreOptions \<Rightarrow> disk \<Rightarrow> bool" where
  "journalAbsent options disk \<longleftrightarrow> disk ProtectedArea (protectedJournalKey options) = None"

definition preparedIs :: "lib \<Rightarrow> CrashConsistentStoreOptions \<Rightarrow> disk \<Rightarrow> string \<Rightarrow> bool" where
  "preparedIs L options disk g \<longleftrightarrow> isHex 32 g \<and> (\<exists>ps. length ps = length (so_components options) \<and>
    disk PublicArea (preparedKey options) = Some (JSON_stringify (manifestJson (manifestOf L options g ps PreparedPhase))))"

definition durable :: "lib \<Rightarrow> CrashConsistentStoreOptions \<Rightarrow> disk \<Rightarrow> (string \<times> string list) option \<Rightarrow> bool" where
  "durable L options disk s \<longleftrightarrow>
    (case s of
       None \<Rightarrow> disk PublicArea (committedKey options) = None \<and>
         (journalAbsent options disk \<and> (disk PublicArea (preparedKey options) = None \<or> (\<exists>g. preparedIs L options disk g)) \<or>
          (\<exists>p. isHex 32 p \<and> journalIs options disk None (Some p) \<and>
             (disk PublicArea (preparedKey options) = None \<or> preparedIs L options disk p)))
     | Some (g, ps) \<Rightarrow> snapshotStored L options disk g ps \<and>
         (\<exists>c p. journalIs options disk c p \<and> (c = Some g \<or> p = Some g)))"

text \<open>
  No committed snapshot. This is all that stays when a device rejects accesses of first commits:
  the journal and the prepared manifest may then name different generations.
\<close>

definition uncommitted :: "lib \<Rightarrow> CrashConsistentStoreOptions \<Rightarrow> disk \<Rightarrow> bool" where
  "uncommitted L options disk \<longleftrightarrow> disk PublicArea (committedKey options) = None \<and>
    (journalAbsent options disk \<or> (\<exists>p. isHex 32 p \<and> journalIs options disk None (Some p))) \<and>
    (disk PublicArea (preparedKey options) = None \<or> (\<exists>g. preparedIs L options disk g))"

lemma durable_uncommitted: "durable L options disk None \<Longrightarrow> uncommitted L options disk"
  by (auto simp: durable_def uncommitted_def)

text \<open>What survives an interrupted commit on a device whose faults \<open>F\<close> allows\<close>

definition kept :: "(fault \<Rightarrow> bool) \<Rightarrow> lib \<Rightarrow> CrashConsistentStoreOptions \<Rightarrow> (string \<times> string list) option \<Rightarrow> disk \<Rightarrow> bool" where
  "kept F L options s disk \<longleftrightarrow> durable L options disk s \<or> s = None \<and> rejecting F \<and> uncommitted L options disk"

lemma kept_durable [intro]: "durable L options disk s \<Longrightarrow> kept F L options s disk"
  by (simp add: kept_def)

text \<open>What a load may report of a snapshot\<close>

definition reports :: "CrashConsistentStoreOptions \<Rightarrow> (string \<times> string list) option \<Rightarrow> DurableLoadResult \<Rightarrow> bool" where
  "reports options s r \<longleftrightarrow>
    (case s of
       None \<Rightarrow> (\<exists>recovery cleanup. r = LoadEmpty recovery cleanup)
     | Some (g, ps) \<Rightarrow> (\<exists>recovery cleanup. r = LoadCommitted g (zip (map cd_name (so_components options)) ps) recovery cleanup))"

lemma snapshotStored_write:
  "snapshotStored L options disk g ps \<Longrightarrow> (a, k) \<noteq> (PublicArea, committedKey options) \<Longrightarrow>
    (\<And>name. k \<noteq> componentKey (so_namespace options) g name) \<Longrightarrow> snapshotStored L options (writeDisk a k v disk) g ps"
  by (auto simp: snapshotStored_def)

lemma journalIs_write: "k \<noteq> protectedJournalKey options \<Longrightarrow> journalIs options (writeDisk a k v disk) c p = journalIs options disk c p"
  by (simp add: journalIs_def)

lemma journalAbsent_write: "k \<noteq> protectedJournalKey options \<Longrightarrow> journalAbsent options (writeDisk a k v disk) = journalAbsent options disk"
  by (simp add: journalAbsent_def)

lemma preparedIs_write: "k \<noteq> preparedKey options \<Longrightarrow> preparedIs L options (writeDisk a k v disk) = preparedIs L options disk"
  by (auto simp: preparedIs_def fun_eq_iff)

lemmas write_rules = snapshotStored_write journalIs_write journalAbsent_write preparedIs_write

section \<open>Loading\<close>

text \<open>The payloads of a snapshot, as the load returns them\<close>

abbreviation namedPayloads :: "CrashConsistentStoreOptions \<Rightarrow> string list \<Rightarrow> (string \<times> string) list" where
  "namedPayloads options ps \<equiv> zip (map cd_name (so_components options)) ps"

lemma triple_loadComponent:
  assumes "hash_ok L" "disk (cd_area def) (componentKey ns g (cd_name def)) = Some (JSON_stringify (envelopeJson g (cd_name def) payload))"
  shows "triple F ((=) disk) (loadComponent L (manifestOf L options g ps CommittedPhase) (componentOf L ns g def payload))
    (\<lambda>v y. v = (cd_name def, payload) \<and> y = disk) (\<lambda>y. rejecting F \<and> y = disk) ((=) disk)"
proof -
  let ?c = "componentOf L ns g def payload"
  have "triple F ((=) disk) (storageGet (mf_area ?c) (mf_key ?c))
      (\<lambda>v y. v = Some (JSON_stringify (envelopeJson g (cd_name def) payload)) \<and> y = disk) (\<lambda>y. rejecting F \<and> y = disk) ((=) disk)"
    by (rule triple_weaken [OF triple_get]) (use assms(2) in \<open>auto simp: componentOf_def\<close>)
  then show ?thesis unfolding loadComponent_def
  proof (rule triple_bind, intro triple_known)
    fix raw assume raw: "raw = Some (JSON_stringify (envelopeJson g (cd_name def) payload))"
    show "triple F ((=) disk)
      (case raw of None \<Rightarrow> throwIO (JsError (componentName ?c @ '' ausente''))
       | Some text \<Rightarrow> bindIO (liftIO (parseComponent L text (manifestOf L options g ps CommittedPhase) ?c))
           (\<lambda>payload. returnIO (mf_name ?c, payload)))
      (\<lambda>v y. v = (cd_name def, payload) \<and> y = disk) (\<lambda>y. rejecting F \<and> y = disk) ((=) disk)"
      unfolding raw option.case parse_component [OF assms(1)]
      by (rule triple_bind [where M = "\<lambda>v y. v = payload \<and> y = disk"])
        (auto simp: liftIO_def componentOf_def intro!: triple_return)
  qed
qed

lemma triple_components:
  assumes "hash_ok L" "snapshotStored L options disk g ps"
  shows "triple F ((=) disk) (mapIO (loadComponent L (manifestOf L options g ps CommittedPhase))
      (mf_components (manifestOf L options g ps CommittedPhase)))
    (\<lambda>vs y. vs = namedPayloads options ps \<and> y = disk) (\<lambda>y. rejecting F \<and> y = disk) ((=) disk)"
proof (rule triple_map)
  have len: "length ps = length (so_components options)" using assms(2) by (simp add: snapshotStored_def)
  have "triple F ((=) disk) (loadComponent L (manifestOf L options g ps CommittedPhase) (componentOf L (so_namespace options) g def p))
      (\<lambda>v y. v = (cd_name def, p) \<and> y = disk) (\<lambda>y. rejecting F \<and> y = disk) ((=) disk)"
    if "(def, p) \<in> set (zip (so_components options) ps)" for def p
    using assms(2) that by (intro triple_loadComponent [OF assms(1)]) (auto simp: snapshotStored_def)
  then show "list_all2 (\<lambda>c v. triple F ((=) disk) (loadComponent L (manifestOf L options g ps CommittedPhase) c)
        (\<lambda>w y. w = v \<and> y = disk) (\<lambda>y. rejecting F \<and> y = disk) ((=) disk))
      (mf_components (manifestOf L options g ps CommittedPhase)) (namedPayloads options ps)"
    unfolding list_all2_conv_all_nth using len by (auto simp: manifestOf_def set_zip)
qed

lemma durable_journal_written:
  assumes "durable L options disk (Some (g, ps))"
  shows "durable L options (writeDisk ProtectedArea (protectedJournalKey options) (Some (journalAfter options g)) disk) (Some (g, ps))"
proof -
  have s: "snapshotStored L options disk g ps" using assms by (simp add: durable_def)
  then have "snapshotStored L options (writeDisk ProtectedArea (protectedJournalKey options) (Some (journalAfter options g)) disk) g ps"
    by (rule snapshotStored_write) simp_all
  moreover have "journalIs options (writeDisk ProtectedArea (protectedJournalKey options) (Some (journalAfter options g)) disk) (Some g) None"
    using s by (simp add: journalIs_def journalAfter_def journalOf_def generationOk_def snapshotStored_def)
  ultimately show ?thesis by (auto simp: durable_def)
qed

lemma durable_prepared_removed:
  assumes "durable L options disk (Some (g, ps))"
  shows "durable L options (writeDisk PublicArea (preparedKey options) None disk) (Some (g, ps))"
  using assms by (auto simp: durable_def write_rules)

lemma triple_settleCommitted:
  assumes "snapshotStored L options disk g ps" "journalIs options disk c p" "c = Some g \<or> p = Some g"
    "prepared = disk PublicArea (preparedKey options)"
  shows "triple F ((=) disk) (settleCommitted options (journalOf (so_namespace options) c p) prepared
      (manifestOf L options g ps CommittedPhase) (namedPayloads options ps))
    (\<lambda>r y. durable L options y (Some (g, ps)) \<and> reports options (Some (g, ps)) r) (\<lambda>_. False) (\<lambda>y. durable L options y (Some (g, ps)))"
proof -
  have now: "durable L options disk (Some (g, ps))" using assms by (auto simp: durable_def)
  have gen: "mf_generation (manifestOf L options g ps CommittedPhase) = g" "jn_pendingGeneration (journalOf (so_namespace options) c p) = p"
    by (simp_all add: manifestOf_def journalOf_def)
  show ?thesis
    unfolding settleCommitted_def gen Let_def
  proof (rule triple_bind)
    show "triple F ((=) disk) (if p \<noteq> None then bestEffortSet ProtectedArea (protectedJournalKey options) (journalAfter options g)
        else returnIO False) (\<lambda>_ y. durable L options y (Some (g, ps))) (\<lambda>_. False) (\<lambda>y. durable L options y (Some (g, ps)))"
      using now by (auto intro!: triple_return triple_bestEffortSet durable_journal_written)
    fix pending
    show "triple F (\<lambda>y. durable L options y (Some (g, ps)))
      (case prepared of None \<Rightarrow> returnIO (LoadCommitted g (namedPayloads options ps)
          (if p = Some g then CompletedCommit else if p \<noteq> None then RolledBackPrepared else RecoveryClean) pending)
       | Some raw \<Rightarrow> bindIO (bestEffortRemove PublicArea (preparedKey options)) (\<lambda>pending2.
           returnIO (LoadCommitted g (namedPayloads options ps)
             (case parseManifest raw (so_namespace options) (so_components options) PreparedPhase of
                Inl _ \<Rightarrow> DiscardedInvalidPrepared
              | Inr prepared \<Rightarrow>
                  if (if p = Some g then CompletedCommit else if p \<noteq> None then RolledBackPrepared else RecoveryClean) = RecoveryClean
                  then if mf_generation prepared = g then CompletedCommit else RolledBackPrepared
                  else if p = Some g then CompletedCommit else if p \<noteq> None then RolledBackPrepared else RecoveryClean)
             (pending2 \<or> pending))))
      (\<lambda>r y. durable L options y (Some (g, ps)) \<and> reports options (Some (g, ps)) r) (\<lambda>_. False) (\<lambda>y. durable L options y (Some (g, ps)))"
    proof (cases prepared)
      case None
      then show ?thesis by (auto simp: reports_def intro!: triple_return)
    next
      case (Some raw)
      show ?thesis unfolding Some option.case
        by (rule triple_bind [where M = "\<lambda>_ y. durable L options y (Some (g, ps))"])
          (auto simp: reports_def intro!: triple_return triple_bestEffortRemove durable_prepared_removed)
    qed
  qed
qed

text \<open>
  The whole load: the snapshot stays what it was, and is what is reported, unless a component
  could not be read; then the load reports corruption without touching anything. On a device that never
  rejects, a load without a snapshot removes the journal of the interrupted commit.
\<close>

definition loadPost ::
  "(fault \<Rightarrow> bool) \<Rightarrow> lib \<Rightarrow> CrashConsistentStoreOptions \<Rightarrow> (string \<times> string list) option \<Rightarrow> DurableLoadResult \<Rightarrow> disk \<Rightarrow> bool" where
  "loadPost F L options s r y \<longleftrightarrow> durable L options y s \<and>
    (reports options s r \<or> s \<noteq> None \<and> rejecting F \<and> (\<exists>reason. r = LoadCorrupt reason)) \<and>
    (s = None \<and> \<not> rejecting F \<longrightarrow> journalAbsent options y)"

lemma triple_loadCommitted:
  assumes "hash_ok L" "snapshotStored L options disk g ps" "journalIs options disk c p" "c = Some g \<or> p = Some g"
  shows "triple F ((=) disk) (loadCommitted L options (Some (journalOf (so_namespace options) c p)) (disk PublicArea (preparedKey options))
      (JSON_stringify (manifestJson (manifestOf L options g ps CommittedPhase))))
    (loadPost F L options (Some (g, ps))) (\<lambda>_. False) (\<lambda>y. durable L options y (Some (g, ps)))"
proof -
  have s: "isHex 32 g" "length ps = length (so_components options)" using assms(2) by (auto simp: snapshotStored_def)
  have now: "durable L options disk (Some (g, ps))" using assms by (auto simp: durable_def)
  have sel: "jn_currentGeneration (journalOf (so_namespace options) c p) = c" "jn_pendingGeneration (journalOf (so_namespace options) c p) = p"
    "mf_generation (manifestOf L options g ps CommittedPhase) = g"
    by (simp_all add: journalOf_def manifestOf_def)
  have known: "(c \<noteq> Some g \<and> p \<noteq> Some g) = False" using assms(4) by blast
  let ?read = "catchIO (bindIO (mapIO (loadComponent L (manifestOf L options g ps CommittedPhase))
      (mf_components (manifestOf L options g ps CommittedPhase))) (\<lambda>values. returnIO (Inr values)))
    (\<lambda>reason. returnIO (Inl (messageOf reason)))"
  let ?read_post = "\<lambda>v y. (v = Inr (namedPayloads options ps) \<or> rejecting F \<and> (\<exists>m :: string. v = Inl m)) \<and> y = disk"
  have "triple F ((=) disk) ?read ?read_post (\<lambda>_. False) ((=) disk)"
  proof (rule triple_catch)
    show "triple F ((=) disk) (bindIO (mapIO (loadComponent L (manifestOf L options g ps CommittedPhase))
        (mf_components (manifestOf L options g ps CommittedPhase))) (\<lambda>values. returnIO (Inr values)))
      ?read_post (\<lambda>y. rejecting F \<and> y = disk) ((=) disk)"
      by (rule triple_bind [OF triple_components [OF assms(1,2)]]) (auto intro!: triple_return)
  qed (auto intro!: triple_return)
  then have read: "triple F ((=) disk) ?read ?read_post (\<lambda>_. False) (\<lambda>y. durable L options y (Some (g, ps)))"
    by (rule triple_weaken) (use now in auto)
  show ?thesis
    unfolding loadCommitted_def option.case parse_manifest [OF assms(1) s] sum.case sel known if_False
  proof (rule triple_bind [OF read], rule triple_known, elim disjE conjE)
    fix v :: "string + (string \<times> string) list" assume v: "v = Inr (namedPayloads options ps)"
    show "triple F ((=) disk) (case v of Inl reason \<Rightarrow> returnIO (LoadCorrupt reason)
       | Inr values \<Rightarrow> settleCommitted options (journalOf (so_namespace options) c p) (disk PublicArea (preparedKey options))
           (manifestOf L options g ps CommittedPhase) values)
      (loadPost F L options (Some (g, ps))) (\<lambda>_. False) (\<lambda>y. durable L options y (Some (g, ps)))"
      unfolding v sum.case by (rule triple_weaken [OF triple_settleCommitted [OF assms(2-4) refl]]) (auto simp: loadPost_def)
  qed (use now in \<open>auto simp: loadPost_def intro!: triple_return\<close>)
qed

lemma durable_cleanup:
  assumes "durable L options disk None"
  shows "durable L options (writeDisk PublicArea (preparedKey options) None disk) None"
    "durable L options (writeDisk ProtectedArea (protectedJournalKey options) None disk) None"
  using assms by (auto simp: durable_def write_rules) (auto simp: journalAbsent_def)

lemma journal_removed: "journalAbsent options (writeDisk ProtectedArea (protectedJournalKey options) None disk)"
  by (simp add: journalAbsent_def)

lemma preparedRecovery_rollback:
  assumes "hash_ok L" "isHex 32 g" "length ps = length (so_components options)" "Option.bind journal jn_pendingGeneration \<in> {None, Some g}"
  shows "preparedRecovery options journal (JSON_stringify (manifestJson (manifestOf L options g ps PreparedPhase))) = Inr RolledBackPrepared"
  unfolding preparedRecovery_def parse_manifest [OF assms(1-3)] sum.case using assms(4) by (auto simp: manifestOf_def)

lemma triple_loadWithoutPointer:
  assumes "hash_ok L" "durable L options disk None"
    "journal = None \<and> journalAbsent options disk \<and> (disk PublicArea (preparedKey options) = None \<or> (\<exists>g. preparedIs L options disk g)) \<or>
     journal = Some (journalOf (so_namespace options) None (Some p)) \<and>
      (disk PublicArea (preparedKey options) = None \<or> preparedIs L options disk p)"
  shows "triple F ((=) disk) (loadWithoutPointer options journal (disk PublicArea (preparedKey options)))
    (loadPost F L options None) (\<lambda>_. False) (\<lambda>y. durable L options y None)"
proof -
  have current: "Option.bind journal jn_currentGeneration = None" using assms(3) by (auto simp: journalOf_def)
  have recovery: "(case disk PublicArea (preparedKey options) of None \<Rightarrow> Inr RolledBackPrepared
      | Some raw \<Rightarrow> preparedRecovery options journal raw) = Inr RolledBackPrepared"
    using assms(3) preparedRecovery_rollback [OF assms(1)] by (auto simp: preparedIs_def journalOf_def split: option.splits)
  show ?thesis
  proof (cases "disk PublicArea (preparedKey options) = None \<and> journal = None")
    case True
    with assms show ?thesis by (auto simp: loadWithoutPointer_def loadPost_def reports_def intro!: triple_return)
  next
    case False
    let ?mid = "\<lambda>_ y. durable L options y None \<and> (\<not> rejecting F \<longrightarrow> journalAbsent options y)"
    have first: "triple F ((=) disk) (if journal \<noteq> None then bestEffortRemove ProtectedArea (protectedJournalKey options) else returnIO False)
        ?mid (\<lambda>_. False) (\<lambda>y. durable L options y None)"
      using assms by (auto simp: journal_removed intro!: triple_return triple_bestEffortRemove durable_cleanup)
    show ?thesis
      unfolding loadWithoutPointer_def current recovery if_not_P [OF False] sum.case simp_thms if_False
      by (intro triple_bind [OF first] triple_bind [where M = ?mid])
        (auto simp: loadPost_def reports_def journalAbsent_write intro!: triple_return triple_bestEffortRemove durable_cleanup)
  qed
qed

lemma triple_loadStore:
  assumes "hash_ok L" "durable L options disk s"
  shows "triple F ((=) disk) (loadStore L options) (loadPost F L options s) (\<lambda>y. durable L options y s) (\<lambda>y. durable L options y s)"
proof -
  let ?E = "\<lambda>y. durable L options y s"
  have get: "triple F ((=) disk) (storageGet area key) (\<lambda>v y. v = disk area key \<and> y = disk) ?E ?E" for area key
    by (rule triple_weaken [OF triple_get]) (use assms(2) in auto)
  show ?thesis
    unfolding loadStore_def
  proof (rule triple_bind [OF get], rule triple_known, rule triple_bind [OF get], rule triple_known, rule triple_bind [OF get], rule triple_known)
    fix committedRaw preparedRaw journalRaw
    assume raw: "committedRaw = disk PublicArea (committedKey options)" "preparedRaw = disk PublicArea (preparedKey options)"
      "journalRaw = disk ProtectedArea (protectedJournalKey options)"
    show "triple F ((=) disk)
      (case (case journalRaw of None \<Rightarrow> Inr None
             | Some raw \<Rightarrow> bindE (parseProtectedJournal raw (so_namespace options)) (\<lambda>j. Inr (Some j))) of
         Inl reason \<Rightarrow> returnIO (LoadCorrupt (messageOf reason))
       | Inr journal \<Rightarrow>
          (case committedRaw of None \<Rightarrow> loadWithoutPointer options journal preparedRaw
           | Some raw \<Rightarrow> loadCommitted L options journal preparedRaw raw))
      (loadPost F L options s) ?E ?E"
    proof (cases s)
      case None
      then consider "journalAbsent options disk" "disk PublicArea (preparedKey options) = None \<or> (\<exists>g. preparedIs L options disk g)"
        | p where "isHex 32 p" "journalIs options disk None (Some p)" "disk PublicArea (preparedKey options) = None \<or> preparedIs L options disk p"
        using assms(2) by (auto simp: durable_def)
      then show ?thesis
      proof cases
        case 1
        with None raw assms triple_weaken [OF triple_loadWithoutPointer [OF assms(1), of options disk None]] show ?thesis
          by (auto simp: durable_def journalAbsent_def)
      next
        case 2
        then have "parseProtectedJournal (the journalRaw) (so_namespace options) = Inr (journalOf (so_namespace options) None (Some p))"
          using raw parse_journal [of None "Some p"] by (simp add: journalIs_def)
        with 2 None raw assms triple_weaken [OF triple_loadWithoutPointer [OF assms(1), of options disk "Some (journalOf (so_namespace options) None (Some p))" p]]
        show ?thesis by (auto simp: durable_def journalIs_def)
      qed
    next
      case (Some gps)
      obtain g ps where gps: "gps = (g, ps)" by force
      obtain c p where j: "snapshotStored L options disk g ps" "journalIs options disk c p" "c = Some g \<or> p = Some g"
        using assms(2) Some gps by (auto simp: durable_def)
      have "parseProtectedJournal (the journalRaw) (so_namespace options) = Inr (journalOf (so_namespace options) c p)"
        using raw parse_journal j(2) by (simp add: journalIs_def)
      moreover have "committedRaw = Some (JSON_stringify (manifestJson (manifestOf L options g ps CommittedPhase)))"
        using raw j(1) by (simp add: snapshotStored_def)
      moreover have "journalRaw = Some (the journalRaw)" using raw j(2) by (simp add: journalIs_def)
      ultimately show ?thesis
        using triple_weaken [OF triple_loadCommitted [OF assms(1) j]] raw Some gps by (auto split: option.splits)
    qed
  qed
qed

text \<open>Without a committed snapshot a load reports none, or an inconsistent rest of an interrupted commit.\<close>

lemma uncommitted_cleanup:
  assumes "uncommitted L options disk"
  shows "uncommitted L options (writeDisk PublicArea (preparedKey options) None disk)"
    "uncommitted L options (writeDisk ProtectedArea (protectedJournalKey options) None disk)"
  using assms by (auto simp: uncommitted_def write_rules) (auto simp: journalAbsent_def)

lemma triple_loadUncommitted:
  assumes "uncommitted L options disk"
  shows "triple F ((=) disk) (loadStore L options)
    (\<lambda>r y. uncommitted L options y \<and> (reports options None r \<or> (\<exists>reason. r = LoadCorrupt reason)))
    (uncommitted L options) (uncommitted L options)" (is "triple F _ _ ?Q ?E ?E")
proof -
  have pointer: "disk PublicArea (committedKey options) = None" using assms by (simp add: uncommitted_def)
  have get: "triple F ((=) disk) (storageGet area key) (\<lambda>v y. v = disk area key \<and> y = disk) ?E ?E" for area key
    by (rule triple_weaken [OF triple_get]) (use assms in auto)
  have without: "triple F ((=) disk) (loadWithoutPointer options journal (disk PublicArea (preparedKey options))) ?Q ?E ?E"
    if "Option.bind journal jn_currentGeneration = None" for journal
  proof (cases "disk PublicArea (preparedKey options) = None \<and> journal = None")
    case True
    then show ?thesis using assms by (auto simp: loadWithoutPointer_def reports_def intro!: triple_return)
  next
    case False
    let ?mid = "\<lambda>(_ :: bool) y. uncommitted L options y"
    have first: "triple F ((=) disk) (if journal \<noteq> None then bestEffortRemove ProtectedArea (protectedJournalKey options) else returnIO False) ?mid ?E ?E"
      using assms by (auto intro!: triple_return triple_bestEffortRemove uncommitted_cleanup)
    have clean: "triple F ((=) disk) (bindIO (if journal \<noteq> None then bestEffortRemove ProtectedArea (protectedJournalKey options) else returnIO False) (\<lambda>pending1.
        bindIO (if disk PublicArea (preparedKey options) \<noteq> None then bestEffortRemove PublicArea (preparedKey options) else returnIO False) (\<lambda>pending2.
          returnIO (LoadEmpty recovery (pending2 \<or> pending1))))) ?Q ?E ?E" for recovery
      by (intro triple_bind [OF first] triple_bind [where M = ?mid])
        (auto simp: reports_def intro!: triple_return triple_bestEffortRemove uncommitted_cleanup)
    show ?thesis
      unfolding loadWithoutPointer_def that if_not_P [OF False] simp_thms if_False
      using clean assms by (auto intro!: triple_return split: sum.split)
  qed
  show ?thesis
    unfolding loadStore_def
  proof (rule triple_bind [OF get], rule triple_known, rule triple_bind [OF get], rule triple_known, rule triple_bind [OF get], rule triple_known)
    fix committedRaw preparedRaw journalRaw
    assume raw: "committedRaw = disk PublicArea (committedKey options)" "preparedRaw = disk PublicArea (preparedKey options)"
      "journalRaw = disk ProtectedArea (protectedJournalKey options)"
    have "Option.bind j jn_currentGeneration = None"
      if "(case journalRaw of None \<Rightarrow> Inr None | Some raw \<Rightarrow> bindE (parseProtectedJournal raw (so_namespace options)) (\<lambda>j. Inr (Some j))) = Inr j" for j
      using that assms raw parse_journal [of None "Some p" for p]
      by (auto simp: uncommitted_def journalAbsent_def journalIs_def journalOf_def)
    with raw pointer without assms show "triple F ((=) disk)
      (case (case journalRaw of None \<Rightarrow> Inr None
             | Some raw \<Rightarrow> bindE (parseProtectedJournal raw (so_namespace options)) (\<lambda>j. Inr (Some j))) of
         Inl reason \<Rightarrow> returnIO (LoadCorrupt (messageOf reason))
       | Inr journal \<Rightarrow>
          (case committedRaw of None \<Rightarrow> loadWithoutPointer options journal preparedRaw
           | Some raw \<Rightarrow> loadCommitted L options journal preparedRaw raw)) ?Q ?E ?E"
      by (auto intro!: triple_return split: sum.split)
  qed
qed

text \<open>The load before a commit\<close>

definition loadKept ::
  "(fault \<Rightarrow> bool) \<Rightarrow> lib \<Rightarrow> CrashConsistentStoreOptions \<Rightarrow> (string \<times> string list) option \<Rightarrow> DurableLoadResult \<Rightarrow> disk \<Rightarrow> bool" where
  "loadKept F L options s r y \<longleftrightarrow> kept F L options s y \<and>
    (reports options s r \<or> rejecting F \<and> (\<exists>reason. r = LoadCorrupt reason)) \<and>
    (s = None \<and> \<not> rejecting F \<longrightarrow> journalAbsent options y)"

lemma triple_loadKept:
  assumes "hash_ok L" "kept F L options s disk"
  shows "triple F ((=) disk) (loadStore L options) (loadKept F L options s) (kept F L options s) (kept F L options s)"
proof (cases "durable L options disk s")
  case True
  show ?thesis by (rule triple_weaken [OF triple_loadStore [OF assms(1) True]]) (auto simp: loadPost_def loadKept_def)
next
  case False
  with assms(2) have s: "s = None" "rejecting F" "uncommitted L options disk" by (auto simp: kept_def)
  show ?thesis by (rule triple_weaken [OF triple_loadUncommitted [OF s(3)]]) (use s in \<open>auto simp: loadKept_def kept_def\<close>)
qed

section \<open>Committing\<close>

lemma definitionNames_ok: "definitionNames defs names = Inr () \<Longrightarrow> distinct (map cd_name defs) \<and> set names \<inter> set (map cd_name defs) = {}"
proof (induction defs arbitrary: names)
  case (Cons def defs)
  then show ?case using Cons.IH [of "cd_name def # names"] by (auto simp: bindE_Inr_iff)
qed simp

lemma validateDefinitions_distinct: "validateDefinitions ns defs = Inr () \<Longrightarrow> distinct (map cd_name defs) \<and> defs \<noteq> []"
  using definitionNames_ok by (fastforce simp: validateDefinitions_def bindE_Inr_iff)

lemma uniqueGeneration_Inr: "uniqueGeneration current vs = Inr g \<Longrightarrow> isHex 32 g \<and> Some g \<noteq> current"
  by (induction vs) (auto simp: bindE_Inr_iff generationText_def Let_def split: if_splits)

text \<open>The payloads of the values, in the order of the components\<close>

definition payloadsOf :: "CrashConsistentStoreOptions \<Rightarrow> (string \<times> string) list \<Rightarrow> string list" where
  "payloadsOf options values = map (\<lambda>def. the (map_of values (cd_name def))) (so_components options)"

lemma length_payloadsOf [simp]: "length (payloadsOf options values) = length (so_components options)"
  by (simp add: payloadsOf_def)

lemma zip_payloads: "(def, p) \<in> set (zip (so_components options) (payloadsOf options values)) \<Longrightarrow>
    def \<in> set (so_components options) \<and> p = the (map_of values (cd_name def))"
  by (auto simp: payloadsOf_def zip_map2 zip_same_conv_map)

text \<open>The commit of generation \<open>g\<close> over the snapshot \<open>s\<close>\<close>

definition commitReady :: "lib \<Rightarrow> CrashConsistentStoreOptions \<Rightarrow> (string \<times> string) list \<Rightarrow> string \<Rightarrow> (string \<times> string list) option \<Rightarrow> bool" where
  "commitReady L options values g s \<longleftrightarrow> distinct (map cd_name (so_components options)) \<and>
    (\<forall>def \<in> set (so_components options). map_of values (cd_name def) \<noteq> None) \<and> hash_ok L \<and> isHex 32 g \<and> Some g \<noteq> map_option fst s"

abbreviation partsOf :: "lib \<Rightarrow> CrashConsistentStoreOptions \<Rightarrow> (string \<times> string) list \<Rightarrow> string \<Rightarrow> ManifestComponentV1 list" where
  "partsOf L options values g \<equiv> map2 (componentOf L (so_namespace options) g) (so_components options) (payloadsOf options values)"

definition announced :: "lib \<Rightarrow> CrashConsistentStoreOptions \<Rightarrow> string \<Rightarrow> (string \<times> string list) option \<Rightarrow> disk \<Rightarrow> bool" where
  "announced L options g s x \<longleftrightarrow> durable L options x s \<and> journalIs options x (map_option fst s) (Some g)"

definition partlyStored ::
  "lib \<Rightarrow> CrashConsistentStoreOptions \<Rightarrow> (string \<times> string) list \<Rightarrow> string \<Rightarrow> (string \<times> string list) option \<Rightarrow> ManifestComponentV1 list \<Rightarrow> disk \<Rightarrow> bool" where
  "partlyStored L options values g s rest x \<longleftrightarrow> announced L options g s x \<and> set rest \<subseteq> set (partsOf L options values g) \<and>
    (\<forall>(def, p) \<in> set (zip (so_components options) (payloadsOf options values)).
       componentOf L (so_namespace options) g def p \<in> set rest \<or>
       x (cd_area def) (componentKey (so_namespace options) g (cd_name def)) = Some (JSON_stringify (envelopeJson g (cd_name def) p)))"

lemma old_generation:
  assumes "commitReady L options values g s" "durable L options x s"
  shows "durable L options (writeDisk a (componentKey (so_namespace options) g name) v x) s"
proof (cases s)
  case None
  with assms(2) show ?thesis by (simp add: durable_def write_rules)
next
  case (Some gps)
  obtain g' ps where gps: "gps = (g', ps)" by force
  then have "isHex 32 g'" using assms(2) Some by (simp add: durable_def snapshotStored_def)
  then have "componentKey (so_namespace options) g name \<noteq> componentKey (so_namespace options) g' n" for n
    using assms(1) Some gps by (subst componentKey_inject) (auto simp: isHex_def commitReady_def)
  with assms(2) Some gps show ?thesis
    by (auto simp: durable_def write_rules intro!: snapshotStored_write)
qed

lemma components_listed:
  assumes "commitReady L options values g s"
  shows "manifestComponents L options g values = Inr (partsOf L options values g)"
proof -
  have parts: "partsOf L options values g =
      map (\<lambda>def. componentOf L (so_namespace options) g def (the (map_of values (cd_name def)))) (so_components options)"
    by (simp add: payloadsOf_def zip_map2 zip_same_conv_map)
  show ?thesis
    unfolding manifestComponents_def mapE_Inr_iff parts list_all2_map2
    by (rule list.rel_refl_strong) (use assms in \<open>auto simp: commitReady_def componentOf_def\<close>)
qed

lemma triple_storeComponent:
  assumes ready: "commitReady L options values g s"
  shows "triple F (partlyStored L options values g s (c # rest)) (storeComponent g values c)
    (\<lambda>_. partlyStored L options values g s rest) (\<lambda>x. durable L options x s) (\<lambda>x. durable L options x s)"
proof (rule triple_pre)
  fix x assume x: "partlyStored L options values g s (c # rest) x"
  then obtain def p where c: "(def, p) \<in> set (zip (so_components options) (payloadsOf options values))"
    "c = componentOf L (so_namespace options) g def p" by (auto simp: partlyStored_def set_zip)
  then have d: "def \<in> set (so_components options)" "map_of values (cd_name def) = Some p"
    using zip_payloads [OF c(1)] ready by (auto simp: commitReady_def)
  let ?key = "componentKey (so_namespace options) g (cd_name def)"
  let ?y = "writeDisk (cd_area def) ?key (Some (JSON_stringify (envelopeJson g (cd_name def) p))) x"
  have now: "durable L options x s" "durable L options ?y s"
    using x old_generation [OF ready] by (auto simp: partlyStored_def announced_def)
  have "componentOf L (so_namespace options) g def' p' \<in> set rest \<or>
      ?y (cd_area def') (componentKey (so_namespace options) g (cd_name def')) = Some (JSON_stringify (envelopeJson g (cd_name def') p'))"
    if e: "(def', p') \<in> set (zip (so_components options) (payloadsOf options values))" for def' p'
  proof (cases "cd_name def' = cd_name def")
    case True
    then have "def' = def" "p' = p"
      using zip_payloads [OF e] zip_payloads [OF c(1)] ready by (auto simp: distinct_map inj_on_def commitReady_def)
    then show ?thesis by simp
  next
    case False
    then have "componentOf L (so_namespace options) g def' p' \<noteq> c" using c(2) by (simp add: componentOf_def)
    with e x False show ?thesis by (auto simp: partlyStored_def componentKey_inject)
  qed
  then have y: "partlyStored L options values g s rest ?y"
    using x now(2) by (auto simp: partlyStored_def announced_def write_rules)
  show "triple F ((=) x) (storeComponent g values c) (\<lambda>_. partlyStored L options values g s rest)
      (\<lambda>x. durable L options x s) (\<lambda>x. durable L options x s)"
    using d(2) y now by (auto simp: storeComponent_def c(2) componentOf_def intro!: triple_set)
qed

lemma publishes:
  assumes "commitReady L options values g s" "partlyStored L options values g s [] x"
  shows "durable L options (writeDisk PublicArea (committedKey options)
      (Some (JSON_stringify (manifestJson (manifestOf L options g (payloadsOf options values) CommittedPhase)))) x)
    (Some (g, payloadsOf options values))"
  using assms by (auto simp: partlyStored_def announced_def durable_def snapshotStored_def write_rules commitReady_def)

text \<open>The disk before the first write, after the prepared manifest, after the journal\<close>

definition settled :: "(fault \<Rightarrow> bool) \<Rightarrow> lib \<Rightarrow> CrashConsistentStoreOptions \<Rightarrow> (string \<times> string list) option \<Rightarrow> disk \<Rightarrow> bool" where
  "settled F L options s x \<longleftrightarrow> kept F L options s x \<and> (s = None \<and> \<not> rejecting F \<longrightarrow> journalAbsent options x)"

lemma prepares:
  assumes "commitReady L options values g s" "settled F L options s x"
    "y = writeDisk PublicArea (preparedKey options)
      (Some (JSON_stringify (manifestJson (manifestOf L options g (payloadsOf options values) PreparedPhase)))) x"
  shows "settled F L options s y" "preparedIs L options y g"
proof -
  show "preparedIs L options y g" using assms
    by (auto simp: preparedIs_def commitReady_def intro!: exI [of _ "payloadsOf options values"])
  then show "settled F L options s y"
    using assms by (auto simp: settled_def kept_def uncommitted_def durable_def write_rules split: option.splits)
qed

lemma announces:
  assumes "commitReady L options values g s" "settled F L options s x" "preparedIs L options x g"
  shows "announced L options g s (writeDisk ProtectedArea (protectedJournalKey options)
    (Some (JSON_stringify (journalJson (journalOf (so_namespace options) (map_option fst s) (Some g))))) x)"
proof -
  have "journalIs options (writeDisk ProtectedArea (protectedJournalKey options)
      (Some (JSON_stringify (journalJson (journalOf (so_namespace options) (map_option fst s) (Some g))))) x) (map_option fst s) (Some g)"
    using assms by (auto simp: journalIs_def generationOk_def settled_def kept_def durable_def snapshotStored_def commitReady_def split: option.splits)
  then show ?thesis
    using assms
    by (cases s; auto simp: announced_def settled_def kept_def uncommitted_def durable_def write_rules commitReady_def intro!: snapshotStored_write; blast)
qed

lemma bind_return: "bindIO (returnIO v) f = f v"
  by (rule ext) (simp add: bindIO_def returnIO_def)

lemma triple_commitGeneration:
  assumes ready: "commitReady L options values g s"
  shows "triple F (settled F L options s) (commitGeneration L options values (map_option fst s) g)
    (\<lambda>r x. durable L options x (Some (g, payloadsOf options values)) \<and> cr_generation r = g)
    (\<lambda>x. kept F L options s x \<or> durable L options x (Some (g, payloadsOf options values)))
    (\<lambda>x. kept F L options s x \<or> durable L options x (Some (g, payloadsOf options values)))"
proof -
  let ?new = "\<lambda>x. durable L options x (Some (g, payloadsOf options values))"
  let ?E = "\<lambda>x. kept F L options s x \<or> ?new x"
  have prepared: "\<lparr>mf_namespace = so_namespace options, mf_generation = g, mf_phase = phase, mf_components = partsOf L options values g\<rparr> =
      manifestOf L options g (payloadsOf options values) phase" for phase
    by (simp add: manifestOf_def)
  have committed: "(manifestOf L options g (payloadsOf options values) PreparedPhase)\<lparr>mf_phase := CommittedPhase\<rparr> =
      manifestOf L options g (payloadsOf options values) CommittedPhase"
    by (simp add: manifestOf_def)
  have old: "kept F L options s x" if "announced L options g s x \<or> settled F L options s x \<or> partlyStored L options values g s rest x" for x rest
    using that by (auto simp: announced_def settled_def partlyStored_def)
  have components: "triple F (\<lambda>x. announced L options g s x) (foldIO (storeComponent g values) (partsOf L options values g))
      (\<lambda>_. partlyStored L options values g s []) ?E ?E"
  proof (rule triple_weaken [OF triple_fold [OF triple_storeComponent [OF ready]]])
    show "partlyStored L options values g s (partsOf L options values g) x" if "announced L options g s x" for x
      using that by (auto simp: partlyStored_def set_zip)
  qed auto
  have w1: "triple F (settled F L options s) (storageSet PublicArea (preparedKey options)
      (JSON_stringify (manifestJson (manifestOf L options g (payloadsOf options values) PreparedPhase))))
      (\<lambda>_ x. settled F L options s x \<and> preparedIs L options x g) ?E ?E"
    by (rule triple_set) (use prepares [OF ready] old in blast)+
  have w2: "triple F (\<lambda>x. settled F L options s x \<and> preparedIs L options x g) (storageSet ProtectedArea (protectedJournalKey options)
      (JSON_stringify (journalJson (journalOf (so_namespace options) (map_option fst s) (Some g)))))
      (\<lambda>_. announced L options g s) ?E ?E"
    by (rule triple_set) (use announces [OF ready] old in blast)+
  have w3: "triple F (partlyStored L options values g s []) (storageSet PublicArea (committedKey options)
      (JSON_stringify (manifestJson (manifestOf L options g (payloadsOf options values) CommittedPhase)))) (\<lambda>_. ?new) ?E ?E"
    by (rule triple_set) (use publishes [OF ready] old in blast)+
  have w4: "triple F ?new (bestEffortSet ProtectedArea (protectedJournalKey options) (journalAfter options g)) (\<lambda>_. ?new) ?E ?E"
    by (rule triple_bestEffortSet) (auto intro: durable_journal_written)
  have w5: "triple F ?new (bestEffortRemove PublicArea (preparedKey options)) (\<lambda>_. ?new) ?E ?E"
    by (rule triple_bestEffortRemove) (auto intro: durable_prepared_removed)
  show ?thesis
    unfolding commitGeneration_def components_listed [OF ready] liftIO_def sum.case bind_return Let_def prepared committed
      journalOf_def [symmetric]
    by (rule triple_bind [OF w1], rule triple_bind [OF w2], rule triple_bind [OF components], rule triple_bind [OF w3],
        rule triple_bind [OF w4], rule triple_bind [OF w5]) (simp add: triple_return)
qed

text \<open>The values of a commit: one payload for each component\<close>

lemma names_agree:
  assumes "sortBy compareText (map fst values) = sortBy compareText (map cd_name (so_components options))" "def \<in> set (so_components options)"
  shows "map_of values (cd_name def) \<noteq> None"
proof -
  have "set (map fst values) = set (map cd_name (so_components options))" using assms(1) by (metis set_sortBy)
  with assms(2) show ?thesis by (auto simp: map_of_eq_None_iff)
qed

text \<open>An interrupted commit leaves the old snapshot or the new one.\<close>

definition oldOrNew :: "(fault \<Rightarrow> bool) \<Rightarrow> lib \<Rightarrow> CrashConsistentStoreOptions \<Rightarrow> (string \<times> string) list \<Rightarrow> (string \<times> string list) option \<Rightarrow> disk \<Rightarrow> bool" where
  "oldOrNew F L options values s x \<longleftrightarrow> kept F L options s x \<or> (\<exists>g. durable L options x (Some (g, payloadsOf options values)))"

lemma triple_afterLoad:
  assumes "hash_ok L" "validateDefinitions (so_namespace options) (so_components options) = Inr ()"
    "sortBy compareText (map fst values) = sortBy compareText (map cd_name (so_components options))"
  shows "triple F (loadKept F L options s previous)
    (bindIO (case previous of
        LoadCorrupt reason \<Rightarrow> throwIO (JsError (''snapshot duravel anterior invalido: '' @ reason))
      | LoadCommitted current _ _ _ \<Rightarrow> returnIO (Some current)
      | LoadEmpty _ _ \<Rightarrow> returnIO None) (\<lambda>currentGeneration.
    bindIO (liftIO (uniqueGeneration currentGeneration (map nextGeneration [0..<8]))) (\<lambda>generationId.
      commitGeneration L options values currentGeneration generationId)))
    (\<lambda>r x. durable L options x (Some (cr_generation r, payloadsOf options values)))
    (oldOrNew F L options values s) (oldOrNew F L options values s)"
proof (cases "\<exists>reason. previous = LoadCorrupt reason")
  case True
  then obtain reason where "previous = LoadCorrupt reason" ..
  then show ?thesis
    by (auto simp: loadKept_def oldOrNew_def intro!: triple_bind [where M = "\<lambda>_ _. False"] triple_throw) (simp_all add: triple_def)
next
  case False
  let ?current = "\<lambda>v x. v = map_option fst s \<and> settled F L options s x"
  have "triple F (loadKept F L options s previous) (case previous of
        LoadCorrupt reason \<Rightarrow> throwIO (JsError (''snapshot duravel anterior invalido: '' @ reason))
      | LoadCommitted current _ _ _ \<Rightarrow> returnIO (Some current)
      | LoadEmpty _ _ \<Rightarrow> returnIO None) ?current (oldOrNew F L options values s) (oldOrNew F L options values s)"
    using False by (cases s; cases previous)
      (auto simp: loadKept_def reports_def settled_def intro!: triple_return)
  then show ?thesis
  proof (rule triple_bind)
    fix current
    show "triple F (?current current) (bindIO (liftIO (uniqueGeneration current (map nextGeneration [0..<8]))) (\<lambda>generationId.
        commitGeneration L options values current generationId))
      (\<lambda>r x. durable L options x (Some (cr_generation r, payloadsOf options values))) (oldOrNew F L options values s) (oldOrNew F L options values s)"
    proof (rule triple_bind)
      show "triple F (?current current) (liftIO (uniqueGeneration current (map nextGeneration [0..<8])))
        (\<lambda>g x. current = map_option fst s \<and> settled F L options s x \<and> commitReady L options values g s) (oldOrNew F L options values s) (oldOrNew F L options values s)"
        using validateDefinitions_distinct [OF assms(2)] names_agree [OF assms(3)] assms(1) uniqueGeneration_Inr [of current]
        by (intro triple_lift) (auto simp: commitReady_def oldOrNew_def settled_def)
      fix g
      show "triple F (\<lambda>x. current = map_option fst s \<and> settled F L options s x \<and> commitReady L options values g s)
        (commitGeneration L options values current g)
        (\<lambda>r x. durable L options x (Some (cr_generation r, payloadsOf options values))) (oldOrNew F L options values s) (oldOrNew F L options values s)"
      proof (cases "current = map_option fst s \<and> commitReady L options values g s")
        case True
        then have c: "current = map_option fst s" "commitReady L options values g s" by auto
        show ?thesis unfolding c(1) by (rule triple_weaken [OF triple_commitGeneration [OF c(2)]]) (auto simp: oldOrNew_def)
      qed (auto simp: triple_def)
    qed
  qed
qed

lemma triple_commitStore:
  assumes "hash_ok L" "validateDefinitions (so_namespace options) (so_components options) = Inr ()"
    "kept F L options s disk"
  shows "triple F ((=) disk) (commitStore L options nextGeneration values)
    (\<lambda>r x. durable L options x (Some (cr_generation r, payloadsOf options values)))
    (oldOrNew F L options values s) (oldOrNew F L options values s)"
proof -
  have now: "oldOrNew F L options values s disk" using assms(3) by (simp add: oldOrNew_def)
  have load: "triple F ((=) disk) (loadStore L options) (loadKept F L options s) (oldOrNew F L options values s) (oldOrNew F L options values s)"
    by (rule triple_weaken [OF triple_loadKept [OF assms(1,3)]]) (auto simp: oldOrNew_def)
  show ?thesis
    unfolding commitStore_def
  proof (rule triple_bind)
    show "triple F ((=) disk) (liftIO (failIf (\<not> sameKeys (sortBy compareText (map fst values)) (sortBy compareText (map cd_name (so_components options))))
        ''snapshot duravel nao contem exatamente os componentes configurados''))
      (\<lambda>_ x. sortBy compareText (map fst values) = sortBy compareText (map cd_name (so_components options)) \<and> x = disk)
      (oldOrNew F L options values s) (oldOrNew F L options values s)"
      using now by (intro triple_lift) (auto simp: sameKeys_iff)
    show "triple F (\<lambda>x. sortBy compareText (map fst values) = sortBy compareText (map cd_name (so_components options)) \<and> x = disk)
      (bindIO (loadStore L options) (\<lambda>previous.
        bindIO (case previous of
            LoadCorrupt reason \<Rightarrow> throwIO (JsError (''snapshot duravel anterior invalido: '' @ reason))
          | LoadCommitted current _ _ _ \<Rightarrow> returnIO (Some current)
          | LoadEmpty _ _ \<Rightarrow> returnIO None) (\<lambda>currentGeneration.
        bindIO (liftIO (uniqueGeneration currentGeneration (map nextGeneration [0..<8]))) (\<lambda>generationId.
          commitGeneration L options values currentGeneration generationId))))
      (\<lambda>r x. durable L options x (Some (cr_generation r, payloadsOf options values)))
      (oldOrNew F L options values s) (oldOrNew F L options values s)" for v :: unit
      by (rule triple_known, rule triple_bind [OF load]) (rule triple_afterLoad [OF assms(1,2)])
  qed
qed

end
