(* ===== verification/StorageClients.thy ===== *)
theory StorageClients
  imports PayerRecovery MerchantStorage StorageFacts
begin

text \<open>
  What the applications rely on of the store: a value that was committed is the value that is
  loaded. The contract is the locale \<open>typed_store\<close>, interpreted on the payer's and the merchant's
  store; the client programs run on the triples of \<open>StorageLogic\<close>.
\<close>

text \<open>The store holds the typed value \<open>v\<close>, or nothing yet.\<close>

definition holdsValue ::
  "lib \<Rightarrow> CrashConsistentStoreOptions \<Rightarrow> ('a \<Rightarrow> (string \<times> string) list) \<Rightarrow> 'a option \<Rightarrow> disk \<Rightarrow> bool" where
  "holdsValue L options toValues v x \<longleftrightarrow>
    (case v of
       None \<Rightarrow> durable L options x None
     | Some a \<Rightarrow> \<exists>g. durable L options x (Some (g, payloadsOf options (toValues a))))"

text \<open>
  What an interrupted commit may leave of the value: the value, or, where a device rejected the
  first commit, a store in which nothing is committed.
\<close>

definition keepsValue ::
  "(fault \<Rightarrow> bool) \<Rightarrow> lib \<Rightarrow> CrashConsistentStoreOptions \<Rightarrow> ('a \<Rightarrow> (string \<times> string) list) \<Rightarrow> 'a option \<Rightarrow> disk \<Rightarrow> bool" where
  "keepsValue F L options toValues v x \<longleftrightarrow>
    holdsValue L options toValues v x \<or> v = None \<and> rejecting F \<and> uncommitted L options x"

lemma keepsValue_Some [simp]: "keepsValue F L options toValues (Some a) = holdsValue L options toValues (Some a)"
  by (auto simp: keepsValue_def)

lemma holds_keeps: "holdsValue L options toValues v x \<Longrightarrow> keepsValue F L options toValues v x"
  by (simp add: keepsValue_def)

text \<open>What a load says of a typed value\<close>

definition tells ::
  "(fault \<Rightarrow> bool) \<Rightarrow> ((string \<times> string) list \<Rightarrow> 'b result) \<Rightarrow> ('a \<Rightarrow> bool) \<Rightarrow> ('a \<Rightarrow> 'b) \<Rightarrow> 'a option \<Rightarrow> DurableLoadResult \<Rightarrow> bool" where
  "tells F fromValues storable seen v r \<longleftrightarrow>
    (case r of
       LoadEmpty _ _ \<Rightarrow> v = None
     | LoadCommitted _ values _ _ \<Rightarrow> (\<exists>a. v = Some a \<and> (storable a \<longrightarrow> fromValues values = Inr (seen a)))
     | LoadCorrupt _ \<Rightarrow> v \<noteq> None \<and> rejecting F)"

locale typed_store =
  fixes options :: CrashConsistentStoreOptions
    and toValues :: "'a \<Rightarrow> (string \<times> string) list"
    and fromValues :: "(string \<times> string) list \<Rightarrow> 'b result"
    and storable :: "'a \<Rightarrow> bool"
    and seen :: "'a \<Rightarrow> 'b"
  assumes read: "storable a \<Longrightarrow> fromValues (namedPayloads options (payloadsOf options (toValues a))) = Inr (seen a)"
begin

lemma typed_load:
  assumes "hash_ok L" "holdsValue L options toValues v x"
  shows "triple F ((=) x) (loadStore L options) (\<lambda>r y. holdsValue L options toValues v y \<and> tells F fromValues storable seen v r)
    (holdsValue L options toValues v) (holdsValue L options toValues v)"
proof (cases v)
  case None
  then have "durable L options x None" using assms(2) by (simp add: holdsValue_def)
  from triple_loadStore [OF assms(1) this] show ?thesis
    by (rule triple_weaken) (auto simp: None holdsValue_def loadPost_def reports_def tells_def)
next
  case (Some a)
  then obtain g where "durable L options x (Some (g, payloadsOf options (toValues a)))" using assms(2) by (auto simp: holdsValue_def)
  from triple_loadStore [OF assms(1) this] show ?thesis
  proof (rule triple_weaken)
    fix r y assume "loadPost F L options (Some (g, payloadsOf options (toValues a))) r y"
    then show "holdsValue L options toValues v y \<and> tells F fromValues storable seen v r"
      using read [of a] by (auto simp: Some holdsValue_def loadPost_def reports_def tells_def)
  qed (auto simp: Some holdsValue_def)
qed

lemma typed_commit:
  assumes "hash_ok L" "validateDefinitions (so_namespace options) (so_components options) = Inr ()"
    "holdsValue L options toValues v x"
  shows "triple F ((=) x) (commitStore L options nextGeneration (toValues a)) (\<lambda>_. holdsValue L options toValues (Some a))
    (\<lambda>y. keepsValue F L options toValues v y \<or> holdsValue L options toValues (Some a) y)
    (\<lambda>y. keepsValue F L options toValues v y \<or> holdsValue L options toValues (Some a) y)"
proof -
  obtain s where s: "durable L options x s" "\<And>y. kept F L options s y \<Longrightarrow> keepsValue F L options toValues v y"
    using assms(3) by (cases v) (auto simp: holdsValue_def keepsValue_def kept_def)
  from triple_commitStore [OF assms(1,2) kept_durable [OF s(1)], of F nextGeneration "toValues a"] show ?thesis
    by (rule triple_weaken) (use s(2) in \<open>auto simp: oldOrNew_def holdsValue_def\<close>)
qed

end

section \<open>The two stores\<close>

lemma payer_components: "so_components payerStore =
    [\<lparr>cd_name = ''branch-state'', cd_area = PublicArea\<rparr>, \<lparr>cd_name = ''provisioning'', cd_area = PublicArea\<rparr>,
     \<lparr>cd_name = ''device-secret'', cd_area = ProtectedArea\<rparr>]"
  by (simp add: payerStore_def)

lemma merchant_components: "so_components (merchantStore ns) =
    [\<lparr>cd_name = ''claims'', cd_area = PublicArea\<rparr>, \<lparr>cd_name = ''outstanding-challenge'', cd_area = PublicArea\<rparr>,
     \<lparr>cd_name = ''device-secret'', cd_area = ProtectedArea\<rparr>]"
  by (simp add: merchantStore_def)

definition payerSnapshot :: "PersistedOnchainSession \<Rightarrow> PayerRecoveryStorageSnapshot" where
  "payerSnapshot ps = \<lparr>sn_provisioningJson = Some (po_provisioningJson ps), sn_branchStateJson = Some (po_branchStateJson ps),
     sn_deviceSecretHex = Some (po_deviceSecretHex ps)\<rparr>"

interpretation payer_store: typed_store payerStore payerValues "\<lambda>values. Inr (committedPayer values)" "\<lambda>_. True" payerSnapshot
  by unfold_locales (simp add: payloadsOf_def payer_components payerValues_def committedPayer_def payerSnapshot_def)

text \<open>The text \<open>null\<close> stands for no outstanding request.\<close>

definition merchantOk :: "MerchantDurableSnapshot \<Rightarrow> bool" where
  "merchantOk x \<longleftrightarrow> isHex 32 (md_deviceSecretHex x) \<and> md_outstandingChallengeJson x \<noteq> Some ''null''"

interpretation merchant_store: typed_store "merchantStore ns" merchantValues committedSnapshot merchantOk "\<lambda>x. x" for ns
  by unfold_locales
    (auto simp: payloadsOf_def merchant_components merchantValues_def committedSnapshot_def merchantOk_def validateSnapshot_def
      split: option.splits)

lemma payerStore_valid: "validateDefinitions (so_namespace payerStore) (so_components payerStore) = Inr ()"
  by (simp add: validateDefinitions_def payerStore_def spaceChar_def componentNameText_def PAYER_ONCHAIN_DURABLE_NAMESPACE_def)

abbreviation payerHolds :: "lib \<Rightarrow> PersistedOnchainSession option \<Rightarrow> disk \<Rightarrow> bool" where
  "payerHolds L \<equiv> holdsValue L payerStore payerValues"

abbreviation payerKeeps :: "(fault \<Rightarrow> bool) \<Rightarrow> lib \<Rightarrow> PersistedOnchainSession option \<Rightarrow> disk \<Rightarrow> bool" where
  "payerKeeps F L \<equiv> keepsValue F L payerStore payerValues"

abbreviation merchantHolds :: "lib \<Rightarrow> string \<Rightarrow> MerchantDurableSnapshot option \<Rightarrow> disk \<Rightarrow> bool" where
  "merchantHolds L ns \<equiv> holdsValue L (merchantStore ns) merchantValues"

text \<open>Reading the legacy keys: it may fail, but it does not change the store.\<close>

definition readsOnly :: "'a io \<Rightarrow> bool" where
  "readsOnly m \<longleftrightarrow> (\<forall>d. contents (snd (m d)) = contents d \<and> faults (snd (m d)) = faults d)"

lemma triple_readsOnly: "readsOnly m \<Longrightarrow> triple F P m (\<lambda>_. P) P P"
  unfolding triple_def readsOnly_def by (metis (no_types, lifting) outcome.case outcome.exhaust snd_conv)

section \<open>The payer's recovery\<close>

lemma triple_loadPayer:
  assumes "hash_ok L" "readsOnly legacy" "payerHolds L v x"
  shows "triple F ((=) x) (loadPayer L legacy)
    (\<lambda>sn y. payerHolds L v y \<and> (\<forall>ps. v = Some ps \<longrightarrow> sn = payerSnapshot ps)) (payerHolds L v) (payerHolds L v)"
  unfolding loadPayer_def
proof (rule triple_bind [OF payer_store.typed_load [OF assms(1,3)]], rule triple_pre)
  fix r x' assume r: "payerHolds L v x' \<and> tells F (\<lambda>values. Inr (committedPayer values)) (\<lambda>_. True) payerSnapshot v r"
  show "triple F ((=) x')
    (case r of LoadCorrupt reason \<Rightarrow> throwIO (JsError (''Armazenamento duravel do pagador invalido: '' @ reason))
     | LoadEmpty _ _ \<Rightarrow> legacy | LoadCommitted _ values _ _ \<Rightarrow> returnIO (committedPayer values))
    (\<lambda>sn y. payerHolds L v y \<and> (\<forall>ps. v = Some ps \<longrightarrow> sn = payerSnapshot ps)) (payerHolds L v) (payerHolds L v)"
  proof (cases r)
    case (LoadEmpty recovery cleanup)
    with r have "v = None" "payerHolds L None x'" by (auto simp: tells_def)
    then show ?thesis unfolding LoadEmpty DurableLoadResult.case
      by (intro triple_weaken [OF triple_readsOnly [OF assms(2), of F "(=) x'"]]) auto
  qed (use r in \<open>auto simp: tells_def intro!: triple_return triple_throw\<close>)
qed

lemma triple_commitPayer:
  assumes "hash_ok L" "payerHolds L v x"
  shows "triple F ((=) x) (commitPayer L nextGeneration ps) (\<lambda>_. payerHolds L (Some ps))
    (\<lambda>y. payerKeeps F L v y \<or> payerHolds L (Some ps) y) (\<lambda>y. payerKeeps F L v y \<or> payerHolds L (Some ps) y)"
  unfolding commitPayer_def
  by (rule triple_bind [OF payer_store.typed_commit [OF assms(1) payerStore_valid assms(2)]]) (auto intro: triple_return)

lemma triple_evaluate:
  assumes "hash_ok L" "readsOnly legacy" "payerHolds L v x"
  shows "triple F ((=) x) (evaluatePayerRecovery L input (loadPayer L legacy) fetch)
    (\<lambda>_. payerHolds L v) (payerHolds L v) (payerHolds L v)"
  unfolding evaluatePayerRecovery_def restoreLocal_def
proof (rule triple_bind [where M = "\<lambda>_. payerHolds L v"])
  show "triple F ((=) x) (bindIO (loadPayer L legacy) (\<lambda>snapshot. returnIO (restoreSnapshot L (ri_expectedEnvironment input) snapshot)))
      (\<lambda>_. payerHolds L v) (payerHolds L v) (payerHolds L v)"
    by (rule triple_bind [OF triple_loadPayer [OF assms]]) (auto intro: triple_return)
qed (auto simp: Let_def split: prod.split intro!: triple_return triple_lift)

section \<open>The merchant's updates\<close>

lemma triple_commitMerchant:
  assumes "hash_ok L" "validateDefinitions ns (so_components (merchantStore ns)) = Inr ()" "merchantHolds L ns (Some old) x"
  shows "triple F ((=) x) (commitMerchant L ns nextGeneration m) (\<lambda>_. merchantHolds L ns (Some m))
    (\<lambda>y. merchantHolds L ns (Some old) y \<or> merchantHolds L ns (Some m) y) (\<lambda>y. merchantHolds L ns (Some old) y \<or> merchantHolds L ns (Some m) y)"
proof -
  have ns: "so_namespace (merchantStore ns) = ns" by (simp add: merchantStore_def)
  show ?thesis unfolding commitMerchant_def
  proof (rule triple_bind [where M = "\<lambda>valid y. valid = m \<and> y = x"])
    show "triple F ((=) x) (liftIO (validateSnapshot m)) (\<lambda>valid y. valid = m \<and> y = x)
      (\<lambda>y. merchantHolds L ns (Some old) y \<or> merchantHolds L ns (Some m) y) (\<lambda>y. merchantHolds L ns (Some old) y \<or> merchantHolds L ns (Some m) y)"
      by (rule triple_lift) (use assms(3) in \<open>auto simp: validateSnapshot_def bindE_Inr_iff\<close>)
    fix valid
    show "triple F (\<lambda>y. valid = m \<and> y = x)
      (bindIO (commitStore L (merchantStore ns) nextGeneration (merchantValues valid)) (\<lambda>_. returnIO ()))
      (\<lambda>_. merchantHolds L ns (Some m)) (\<lambda>y. merchantHolds L ns (Some old) y \<or> merchantHolds L ns (Some m) y)
      (\<lambda>y. merchantHolds L ns (Some old) y \<or> merchantHolds L ns (Some m) y)"
      by (rule triple_known)
        (use merchant_store.typed_commit [OF assms(1) _ assms(3), unfolded ns keepsValue_Some, OF assms(2), of F nextGeneration m] in
          \<open>auto intro!: triple_bind triple_return\<close>)
  qed
qed

lemma triple_rawLoad:
  assumes "hash_ok L" "merchantHolds L ns (Some m) x" "merchantOk m"
  shows "triple F ((=) x) (rawLoad L ns nextGeneration legacy)
    (\<lambda>found y. found = Some m \<and> merchantHolds L ns (Some m) y) (merchantHolds L ns (Some m)) (merchantHolds L ns (Some m))"
  unfolding rawLoad_def
proof (rule triple_bind [OF merchant_store.typed_load [OF assms(1,2)]], rule triple_pre)
  fix r x' assume r: "merchantHolds L ns (Some m) x' \<and> tells F committedSnapshot merchantOk (\<lambda>x. x) (Some m) r"
  show "triple F ((=) x')
    (case r of LoadCorrupt reason \<Rightarrow> throwIO (JsError (''Armazenamento duravel do merchant invalido: '' @ reason))
     | LoadCommitted _ values _ _ \<Rightarrow> bindIO (liftIO (committedSnapshot values)) (\<lambda>snapshot. returnIO (Some snapshot))
     | LoadEmpty _ _ \<Rightarrow>
         bindIO legacy (\<lambda>old. bindIO (liftIO (legacySnapshot old)) (\<lambda>found.
         (case found of None \<Rightarrow> returnIO None
          | Some migrated \<Rightarrow> bindIO (commitMerchant L ns nextGeneration migrated) (\<lambda>_. returnIO (Some migrated))))))
    (\<lambda>found y. found = Some m \<and> merchantHolds L ns (Some m) y) (merchantHolds L ns (Some m)) (merchantHolds L ns (Some m))"
  proof (cases r)
    case (LoadCommitted g vals recovery cleanup)
    with r assms(3) have "committedSnapshot vals = Inr m" by (auto simp: tells_def)
    with r LoadCommitted show ?thesis by (auto simp: liftIO_def bind_return intro!: triple_return)
  qed (use r in \<open>auto simp: tells_def intro!: triple_throw\<close>)
qed

lemma triple_updateMerchant:
  assumes "hash_ok L" "validateDefinitions ns (so_components (merchantStore ns)) = Inr ()" "merchantHolds L ns (Some m) x" "merchantOk m"
  shows "triple F ((=) x) (updateMerchant L ns nextGeneration legacy mutate)
    (\<lambda>n y. mutate m = Inr n \<and> merchantHolds L ns (Some n) y)
    (\<lambda>y. merchantHolds L ns (Some m) y \<or> (\<exists>n. mutate m = Inr n \<and> merchantHolds L ns (Some n) y))
    (\<lambda>y. merchantHolds L ns (Some m) y \<or> (\<exists>n. mutate m = Inr n \<and> merchantHolds L ns (Some n) y))"
    (is "triple F _ _ ?Q ?E ?E")
  unfolding updateMerchant_def
proof (rule triple_bind [where M = "\<lambda>found y. found = Some m \<and> merchantHolds L ns (Some m) y"])
  show "triple F ((=) x) (rawLoad L ns nextGeneration legacy) (\<lambda>found y. found = Some m \<and> merchantHolds L ns (Some m) y) ?E ?E"
    by (rule triple_weaken [OF triple_rawLoad [OF assms(1,3,4)]]) auto
next
  fix current
  show "triple F (\<lambda>y. current = Some m \<and> merchantHolds L ns (Some m) y)
    (case current of None \<Rightarrow> throwIO (JsError ''armazenamento do merchant ainda nao foi inicializado'')
     | Some snapshot \<Rightarrow> bindIO (liftIO (bindE (mutate snapshot) validateSnapshot)) (\<lambda>next.
         bindIO (commitMerchant L ns nextGeneration next) (\<lambda>_. returnIO next))) ?Q ?E ?E"
  proof (rule triple_pre, elim conjE)
    fix y assume current: "current = Some m" and y: "merchantHolds L ns (Some m) y"
    show "triple F ((=) y)
      (case current of None \<Rightarrow> throwIO (JsError ''armazenamento do merchant ainda nao foi inicializado'')
       | Some snapshot \<Rightarrow> bindIO (liftIO (bindE (mutate snapshot) validateSnapshot)) (\<lambda>next.
           bindIO (commitMerchant L ns nextGeneration next) (\<lambda>_. returnIO next))) ?Q ?E ?E"
      unfolding current option.case
    proof (rule triple_bind [where M = "\<lambda>n z. mutate m = Inr n \<and> z = y"])
      show "triple F ((=) y) (liftIO (bindE (mutate m) validateSnapshot)) (\<lambda>n z. mutate m = Inr n \<and> z = y) ?E ?E"
        by (rule triple_lift) (use y in \<open>auto simp: bindE_Inr_iff validateSnapshot_def\<close>)
    next
      fix n
      show "triple F (\<lambda>z. mutate m = Inr n \<and> z = y) (bindIO (commitMerchant L ns nextGeneration n) (\<lambda>_. returnIO n)) ?Q ?E ?E"
      proof (rule triple_known)
        assume n: "mutate m = Inr n"
        have "triple F ((=) y) (commitMerchant L ns nextGeneration n) (\<lambda>_. merchantHolds L ns (Some n)) ?E ?E"
          by (rule triple_weaken [OF triple_commitMerchant [OF assms(1,2) y]]) (use n in auto)
        then show "triple F ((=) y) (bindIO (commitMerchant L ns nextGeneration n) (\<lambda>_. returnIO n)) ?Q ?E ?E"
          by (rule triple_bind) (use n in \<open>auto intro: triple_return\<close>)
      qed
    qed
  qed
qed

end
