(* ===== verification/PayerTheorems.thy ===== *)
theory PayerTheorems
  imports PayerFacts StorageClients SdkFacts Samples
begin

text \<open>
  The properties of the payer's application: who may spend offline, what the chain said when they
  may, what a stored session restores to, and that provisioning and the merchant's updates are
  atomic.
\<close>

section \<open>The access gate\<close>

lemma gate_ready:
  "sad_outcome (decideSessionAccess i) = OfflineReady \<longleftrightarrow>
     isCompleteLocalRecord (sai_local i) \<and> (\<not> sai_connected i \<or> (\<exists>loc a. sai_local i = Some loc \<and> sai_authoritative i = Some a \<and>
       ar_confirmed a \<and> authoritativeBindingIsComplete a \<and> ar_offlineAccessEnabled a \<and>
       ar_activeSessionAccount a = Some (lp_sessionAccount loc) \<and> ar_sessionId a = Some (lp_sessionId loc) \<and>
       ar_profileOwner a = lp_owner loc \<and> ar_sessionOwner a = Some (lp_owner loc) \<and>
       ar_sessionDevicePublicKey a = Some (lp_devicePublicKey loc) \<and> ar_sessionStatus a = Some StatusActive))"
proof -
  have loc: "isCompleteLocalRecord (sai_local i) \<Longrightarrow> \<exists>loc. sai_local i = Some loc"
    by (cases "sai_local i") (auto simp: isCompleteLocalRecord_def)
  show ?thesis
  proof (cases "sai_connected i")
    case True
    then show ?thesis using loc
      by (cases "sai_authoritative i") (auto simp: decideSessionAccess_def decideWithAuthority_def decision_def localMatchesAuthority_def)
  qed (simp add: decideSessionAccess_def decision_def)
qed

lemma gate_new:
  "sad_outcome (decideSessionAccess i) = NewSessionAllowed \<longleftrightarrow>
     sai_connected i \<and> sai_walletAuthorizationConfirmed i \<and> (\<exists>a. sai_authoritative i = Some a \<and> ar_confirmed a \<and>
       authoritativeBindingIsComplete a \<and> ar_offlineAccessEnabled a \<and> ar_activeSessionAccount a = None)"
  by (cases "sai_authoritative i") (auto simp: decideSessionAccess_def decideWithAuthority_def decision_def)

text \<open>
  The gate opens exactly as it should. The payer may spend offline exactly when the
  local installation is complete and, when there is a connection, the confirmed chain names this
  very session, owner and device key as active and has not revoked access. A new session may be
  made exactly when the confirmed chain shows no active session, access is not revoked and the
  wallet has authorised.
\<close>

theorem access_gate_exact:
  "(sad_outcome (decideSessionAccess i) = OfflineReady \<longleftrightarrow>
     isCompleteLocalRecord (sai_local i) \<and> (\<not> sai_connected i \<or> (\<exists>loc a. sai_local i = Some loc \<and> sai_authoritative i = Some a \<and>
       ar_confirmed a \<and> authoritativeBindingIsComplete a \<and> ar_offlineAccessEnabled a \<and>
       ar_activeSessionAccount a = Some (lp_sessionAccount loc) \<and> ar_sessionId a = Some (lp_sessionId loc) \<and>
       ar_profileOwner a = lp_owner loc \<and> ar_sessionOwner a = Some (lp_owner loc) \<and>
       ar_sessionDevicePublicKey a = Some (lp_devicePublicKey loc) \<and> ar_sessionStatus a = Some StatusActive))) \<and>
   (sad_outcome (decideSessionAccess i) = NewSessionAllowed \<longleftrightarrow>
     sai_connected i \<and> sai_walletAuthorizationConfirmed i \<and> (\<exists>a. sai_authoritative i = Some a \<and> ar_confirmed a \<and>
       authoritativeBindingIsComplete a \<and> ar_offlineAccessEnabled a \<and> ar_activeSessionAccount a = None))"
  by (rule conjI [OF gate_ready gate_new])

section \<open>The confirmed state of the chain\<close>

lemma isZero_iff: "length bs = n \<Longrightarrow> isZero bs \<longleftrightarrow> bs = replicate n 0"
  unfolding isZero_def list_all_iff by (metis in_set_replicate replicate_eqI)

lemma decodeUserProfile_lengths: "decodeUserProfile v = Inr p \<Longrightarrow> length (up_owner p) = 32 \<and> length (up_activeSession p) = 32"
  by (auto simp: decodeUserProfile_def bindE_Inr_iff assertAccount_iff account_sizes length_bytes_at)

lemma decodeOfflineSession_lengths:
  "decodeOfflineSession v = Inr s \<Longrightarrow> length (os_sessionId s) = 32 \<and> length (os_owner s) = 32 \<and> length (os_devicePublicKey s) = 32"
  by (auto simp: decodeOfflineSession_def bindE_Inr_iff assertAccount_iff account_sizes length_bytes_at)

text \<open>An account of the program at an address, as a reader answers it\<close>

definition answers :: "(bytes \<Rightarrow> int option \<Rightarrow> ConfirmedProgramAccount option result) \<Rightarrow> bytes \<Rightarrow> bytes \<Rightarrow> int option \<Rightarrow> int \<Rightarrow> bytes \<Rightarrow> bool" where
  "answers reader program address minSlot slot data \<longleftrightarrow> 0 \<le> slot \<and> reader address minSlot =
     Inr (Some \<lparr>ca_contextSlot = slot, ca_account = \<lparr>ra_address = address, ra_ownerProgramId = program, ra_data = data\<rparr>\<rparr>)"

definition freeState :: "DecodedUserProfile \<Rightarrow> AuthoritativeRecoveryState" where
  "freeState p = \<lparr>ar_confirmed = True, ar_profileOwner = bytesToHex (up_owner p), ar_offlineAccessEnabled = up_offlineAccessEnabled p,
     ar_activeSessionAccount = None, ar_sessionAccount = None, ar_sessionId = None, ar_sessionOwner = None,
     ar_sessionDevicePublicKey = None, ar_sessionStatus = None\<rparr>"

definition activeState :: "DecodedUserProfile \<Rightarrow> DecodedOfflineSession \<Rightarrow> AuthoritativeRecoveryState" where
  "activeState p s = \<lparr>ar_confirmed = True, ar_profileOwner = bytesToHex (up_owner p), ar_offlineAccessEnabled = up_offlineAccessEnabled p,
     ar_activeSessionAccount = Some (bytesToHex (up_activeSession p)), ar_sessionAccount = Some (bytesToHex (up_activeSession p)),
     ar_sessionId = Some (bytesToHex (os_sessionId s)), ar_sessionOwner = Some (bytesToHex (os_owner s)),
     ar_sessionDevicePublicKey = Some (bytesToHex (os_devicePublicKey s)), ar_sessionStatus = Some (accessStatus (os_status s))\<rparr>"

definition chainShows ::
  "bytes \<Rightarrow> (bytes \<Rightarrow> bytes) \<Rightarrow> (bytes \<Rightarrow> int option \<Rightarrow> ConfirmedProgramAccount option result) \<Rightarrow> bytes \<Rightarrow> AuthoritativeRecoveryState \<Rightarrow> bool" where
  "chainShows program pda reader owner st \<longleftrightarrow> length owner = 32 \<and> length (pda owner) = 32 \<and>
    (\<exists>slot profileData p. answers reader program (pda owner) None slot profileData \<and> decodeUserProfile profileData = Inr p \<and> up_owner p = owner \<and>
      (if up_activeSession p = replicate 32 0 then st = freeState p
       else \<exists>slot' sessionData s. answers reader program (up_activeSession p) (Some slot) slot' sessionData \<and> slot \<le> slot' \<and>
         decodeOfflineSession sessionData = Inr s \<and> st = activeState p s))"

lemma assertEnvelope_iff:
  "assertEnvelope e address program name = Inr () \<longleftrightarrow>
    0 \<le> ca_contextSlot e \<and> ra_address (ca_account e) = address \<and> ra_ownerProgramId (ca_account e) = program"
  by (auto simp: assertEnvelope_def bindE_Inr_iff)

lemma answers_iff: "reader address minSlot = Inr (Some e) \<and> assertEnvelope e address program name = Inr () \<and> ra_data (ca_account e) = data \<and>
    ca_contextSlot e = slot \<longleftrightarrow> answers reader program address minSlot slot data \<and>
    e = \<lparr>ca_contextSlot = slot, ca_account = \<lparr>ra_address = address, ra_ownerProgramId = program, ra_data = data\<rparr>\<rparr>"
proof (cases e)
  case (fields s a)
  then show ?thesis by (cases a) (auto simp: assertEnvelope_iff answers_def)
qed

lemma recovery_free:
  assumes "decodeUserProfile d = Inr p" "up_activeSession p = replicate 32 0"
  shows "authoritativeRecoveryFromAccounts \<lparr>rs_confirmed = True, rs_expectedProgramId = program, rs_expectedProfileAddress = a,
      rs_expectedOwner = owner, rs_profile = \<lparr>ra_address = a, ra_ownerProgramId = program, ra_data = d\<rparr>, rs_session = None\<rparr> = Inr st \<longleftrightarrow>
    up_owner p = owner \<and> st = freeState p"
  using assms by (auto simp: authoritativeRecoveryFromAccounts_def assertOwnedAccount_def bindE_Inr_iff freeState_def isZero_def list_all_iff)

lemma recovery_active:
  assumes "decodeUserProfile d = Inr p" "up_activeSession p \<noteq> replicate 32 0"
  shows "authoritativeRecoveryFromAccounts \<lparr>rs_confirmed = True, rs_expectedProgramId = program, rs_expectedProfileAddress = a,
      rs_expectedOwner = owner, rs_profile = \<lparr>ra_address = a, ra_ownerProgramId = program, ra_data = d\<rparr>,
      rs_session = Some \<lparr>ra_address = up_activeSession p, ra_ownerProgramId = program, ra_data = sd\<rparr>\<rparr> = Inr st \<longleftrightarrow>
    up_owner p = owner \<and> (\<exists>s. decodeOfflineSession sd = Inr s \<and> st = activeState p s)"
proof -
  have "\<not> isZero (up_activeSession p)" using assms decodeUserProfile_lengths isZero_iff by blast
  with assms(1) show ?thesis
    by (auto simp: authoritativeRecoveryFromAccounts_def assertOwnedAccount_def bindE_Inr_iff activeState_def)
qed

lemma fetch_profile:
  assumes "answers reader program (pda owner) None slot d" "decodeUserProfile d = Inr p" "length owner = 32" "length (pda owner) = 32"
  shows "fetchConfirmedRecovery program pda reader (bytesToHex owner) = Inr st \<longleftrightarrow> up_owner p = owner \<and>
    (if up_activeSession p = replicate 32 0 then st = freeState p
     else \<exists>slot' sd s. answers reader program (up_activeSession p) (Some slot) slot' sd \<and> slot \<le> slot' \<and>
       decodeOfflineSession sd = Inr s \<and> st = activeState p s)"
proof -
  have owner: "runtimeHexToBytes (bytesToHex owner) = Inr owner" using assms(3) by (auto simp: runtimeHexToBytes_iff)
  have profile: "reader (pda owner) None =
      Inr (Some \<lparr>ca_contextSlot = slot, ca_account = \<lparr>ra_address = pda owner, ra_ownerProgramId = program, ra_data = d\<rparr>\<rparr>)" "0 \<le> slot"
    using assms(1) by (auto simp: answers_def)
  then have envelope: "assertEnvelope \<lparr>ca_contextSlot = slot, ca_account = \<lparr>ra_address = pda owner, ra_ownerProgramId = program, ra_data = d\<rparr>\<rparr>
      (pda owner) program name = Inr ()" for name by (simp add: assertEnvelope_iff)
  show ?thesis
  proof (cases "up_activeSession p = replicate 32 0")
    case True
    then have "isZero (up_activeSession p)" by (simp add: isZero_def list_all_iff)
    with True recovery_free [OF assms(2) True] assms(2-4) owner profile envelope show ?thesis
      by (simp add: fetchConfirmedRecovery_def Let_def)
  next
    case False
    then have nz: "\<not> isZero (up_activeSession p)" using assms(2) decodeUserProfile_lengths isZero_iff by blast
    let ?env = "\<lambda>s' sd. \<lparr>ca_contextSlot = s', ca_account = \<lparr>ra_address = up_activeSession p, ra_ownerProgramId = program, ra_data = sd\<rparr>\<rparr>"
    have "fetchConfirmedRecovery program pda reader (bytesToHex owner) = Inr st \<longleftrightarrow>
      (\<exists>e. reader (up_activeSession p) (Some slot) = Inr (Some e) \<and> assertEnvelope e (up_activeSession p) program ''OfflineSession'' = Inr () \<and>
        slot \<le> ca_contextSlot e \<and> authoritativeRecoveryFromAccounts \<lparr>rs_confirmed = True, rs_expectedProgramId = program,
          rs_expectedProfileAddress = pda owner, rs_expectedOwner = owner,
          rs_profile = \<lparr>ra_address = pda owner, ra_ownerProgramId = program, ra_data = d\<rparr>, rs_session = Some (ca_account e)\<rparr> = Inr st)"
    proof (cases "reader (up_activeSession p) (Some slot)")
      case (Inr found)
      with nz assms(2-4) owner profile envelope show ?thesis
        by (cases found) (auto simp: fetchConfirmedRecovery_def Let_def bindE_Inr_iff)
    qed (use nz assms(2-4) owner profile envelope in \<open>simp add: fetchConfirmedRecovery_def\<close>)
    also have "\<dots> \<longleftrightarrow> (\<exists>slot' sd. answers reader program (up_activeSession p) (Some slot) slot' sd \<and> slot \<le> slot' \<and>
        authoritativeRecoveryFromAccounts \<lparr>rs_confirmed = True, rs_expectedProgramId = program,
          rs_expectedProfileAddress = pda owner, rs_expectedOwner = owner,
          rs_profile = \<lparr>ra_address = pda owner, ra_ownerProgramId = program, ra_data = d\<rparr>, rs_session = Some (ca_account (?env slot' sd))\<rparr> = Inr st)"
      using answers_iff [of reader "up_activeSession p" "Some slot"] by metis
    also have "\<dots> \<longleftrightarrow> up_owner p = owner \<and> (\<exists>slot' sd s. answers reader program (up_activeSession p) (Some slot) slot' sd \<and> slot \<le> slot' \<and>
       decodeOfflineSession sd = Inr s \<and> st = activeState p s)"
      using recovery_active [OF assms(2) False] by auto
    finally show ?thesis using False by simp
  qed
qed

lemma fetch_iff: "fetchConfirmedRecovery program pda reader (bytesToHex owner) = Inr st \<longleftrightarrow> chainShows program pda reader owner st"
proof
  assume fetched: "fetchConfirmedRecovery program pda reader (bytesToHex owner) = Inr st"
  then obtain owner' found where o: "runtimeHexToBytes (bytesToHex owner) = Inr owner'" "length owner' = 32" "length (pda owner') = 32"
    "reader (pda owner') None = Inr found"
    by (auto simp: fetchConfirmedRecovery_def Let_def bindE_Inr_iff)
  then have owner: "owner' = owner" by (simp add: runtimeHexToBytes_iff)
  obtain e p where e: "found = Some e" "assertEnvelope e (pda owner) program ''UserProfile'' = Inr ()"
      "decodeUserProfile (ra_data (ca_account e)) = Inr p"
    using fetched o by (cases found) (auto simp: owner fetchConfirmedRecovery_def Let_def bindE_Inr_iff)
  then have answer: "answers reader program (pda owner) None (ca_contextSlot e) (ra_data (ca_account e))"
    using answers_iff [of reader "pda owner" None e program "''UserProfile''" "ra_data (ca_account e)" "ca_contextSlot e"] o(4) owner by blast
  with fetched o(2,3) e(3) have "up_owner p = owner \<and> (if up_activeSession p = replicate 32 0 then st = freeState p
      else \<exists>slot' sd s. answers reader program (up_activeSession p) (Some (ca_contextSlot e)) slot' sd \<and> ca_contextSlot e \<le> slot' \<and>
        decodeOfflineSession sd = Inr s \<and> st = activeState p s)"
    using fetch_profile [where pda = pda and owner = owner] unfolding owner by blast
  with answer o(2,3) e(3) owner show "chainShows program pda reader owner st" unfolding chainShows_def by blast
next
  assume "chainShows program pda reader owner st"
  then obtain slot d p where "length owner = 32" "length (pda owner) = 32" "answers reader program (pda owner) None slot d"
    "decodeUserProfile d = Inr p" "up_owner p = owner \<and> (if up_activeSession p = replicate 32 0 then st = freeState p
       else \<exists>slot' sd s. answers reader program (up_activeSession p) (Some slot) slot' sd \<and> slot \<le> slot' \<and>
         decodeOfflineSession sd = Inr s \<and> st = activeState p s)"
    unfolding chainShows_def by blast
  with fetch_profile show "fetchConfirmedRecovery program pda reader (bytesToHex owner) = Inr st" by blast
qed

lemma fetch_owner: "fetchConfirmedRecovery program pda reader text = Inr st \<Longrightarrow> \<exists>owner. text = bytesToHex owner"
  by (auto simp: fetchConfirmedRecovery_def bindE_Inr_iff runtimeHexToBytes_iff)

text \<open>
  The confirmed port reports exactly what the chain shows. It returns a state
  exactly when the reader answers, at the owner's profile address, an account of the program that
  decodes to a profile of that owner and, if the profile names an active session, at that address
  and no earlier slot, an account of the program that decodes to a session; the state is the
  profile's and the session's own data. Such a state is always complete, so the gate never rejects
  it as unconfirmed.
\<close>

theorem confirmed_recovery_exact:
  "(fetchConfirmedRecovery program pda reader (bytesToHex owner) = Inr st \<longleftrightarrow> chainShows program pda reader owner st) \<and>
   (chainShows program pda reader owner st \<longrightarrow> ar_confirmed st \<and> authoritativeBindingIsComplete st)"
proof (rule conjI [OF fetch_iff], rule impI)
  assume "chainShows program pda reader owner st"
  then obtain d p where p: "decodeUserProfile d = Inr p" "length owner = 32" "up_owner p = owner"
    "st = freeState p \<or> (\<exists>sd s. decodeOfflineSession sd = Inr s \<and> st = activeState p s)"
    unfolding chainShows_def by (metis (no_types, lifting))
  then show "ar_confirmed st \<and> authoritativeBindingIsComplete st"
    using decodeUserProfile_lengths [OF p(1)] decodeOfflineSession_lengths
    by (auto simp: authoritativeBindingIsComplete_def freeState_def activeState_def)
qed

section \<open>A sample chain\<close>

text \<open>The profile and the session of the sample certificate, in the accounts of the sample program.\<close>

definition sampleProfile :: DecodedUserProfile where
  "sampleProfile = \<lparr>up_owner = replicate 32 5, up_identityAttestationHash = replicate 32 13, up_identityIssuer = replicate 32 4,
     up_riskTier = 1, up_offlineAccessEnabled = True, up_successfulSessions = 0, up_conflictCount = 0, up_revokedAt = 0,
     up_identityExpiresAt = 20000, up_activeSession = replicate 32 21, up_bump = 255\<rparr>"

definition sampleSession :: DecodedOfflineSession where
  "sampleSession = \<lparr>os_sessionId = replicate 32 3, os_owner = replicate 32 5, os_devicePublicKey = replicate 32 6,
     os_collateralVault = replicate 32 7, os_collateralLocked = 300, os_branchSpendingLimit = 100, os_collateralCoverageCap = 300,
     os_maxBranchDepth = 32, os_issuedAt = 1000, os_expiresAt = 11800, os_claimSubmissionDeadline = 33400,
     os_status = SessionActive, os_authenticatedFork = False, os_coverageStatus = CoverageUncalculated,
     os_genesisStateHash = sampleGenesisHash, os_deviceAuthorizationHash = sampleAuthorizationHash,
     os_identityAttestationHash = replicate 32 13, os_settledAmount = 0, os_aggregateOfflineExposure = 0, os_uniqueEdgeCount = 0,
     os_conflictingClaimCount = 0, os_resolutionHash = replicate 32 0, os_bump = 254, os_frozenEdgeCount = 0,
     os_frozenExposure = 0, os_submittedClaimCount = 0, os_classifiedEdgeCount = 0, os_classifiedExposure = 0,
     os_baseAllocationTotal = 0, os_allocatedEdgeCount = 0, os_allocatedTotal = 0, os_scannedClaimCount = 0,
     os_settledEdgeCount = 0, os_claimHead = replicate 32 0, os_claimTail = replicate 32 0,
     os_nextAllocationClaim = replicate 32 0, os_classificationComplete = False, os_allocationComplete = False\<rparr>"

definition samplePda :: "bytes \<Rightarrow> bytes" where "samplePda owner = replicate 32 20"

definition sampleReader :: "bytes \<Rightarrow> int option \<Rightarrow> ConfirmedProgramAccount option result" where
  "sampleReader address minSlot = Inr
    (if address = replicate 32 20 then Some \<lparr>ca_contextSlot = 7, ca_account =
       \<lparr>ra_address = address, ra_ownerProgramId = replicate 32 2, ra_data = userProfileAccount sampleProfile\<rparr>\<rparr>
     else if address = replicate 32 21 then Some \<lparr>ca_contextSlot = 8, ca_account =
       \<lparr>ra_address = address, ra_ownerProgramId = replicate 32 2, ra_data = offlineSessionAccount sampleSession\<rparr>\<rparr>
     else None)"

lemma sampleAccounts_decode:
  "decodeUserProfile (userProfileAccount sampleProfile) = Inr sampleProfile"
  "decodeOfflineSession (offlineSessionAccount sampleSession) = Inr sampleSession"
proof -
  have "validUserProfile sampleProfile" by (simp add: validUserProfile_def sampleProfile_def integer_ranges)
  then show "decodeUserProfile (userProfileAccount sampleProfile) = Inr sampleProfile" using decodeUserProfile_account by blast
  have "validOfflineSession sampleSession" by (simp add: validOfflineSession_def sampleSession_def integer_ranges)
  then show "decodeOfflineSession (offlineSessionAccount sampleSession) = Inr sampleSession" using decodeOfflineSession_account by blast
qed

lemma sampleChain: "chainShows (replicate 32 2) samplePda sampleReader (replicate 32 5) (activeState sampleProfile sampleSession)"
proof -
  have active: "up_activeSession sampleProfile = replicate 32 21" "up_owner sampleProfile = replicate 32 5" by (simp_all add: sampleProfile_def)
  have "answers sampleReader (replicate 32 2) (samplePda (replicate 32 5)) None 7 (userProfileAccount sampleProfile)"
    "answers sampleReader (replicate 32 2) (replicate 32 21) (Some 7) 8 (offlineSessionAccount sampleSession)"
    by (simp_all add: answers_def sampleReader_def samplePda_def)
  moreover have "replicate 32 21 \<noteq> (replicate 32 0 :: bytes)" "length (samplePda (replicate 32 5)) = 32" "(7 :: int) \<le> 8"
    by (simp_all add: samplePda_def)
  ultimately have "length (replicate 32 5 :: bytes) = 32 \<and> length (samplePda (replicate 32 5)) = 32 \<and>
      answers sampleReader (replicate 32 2) (samplePda (replicate 32 5)) None 7 (userProfileAccount sampleProfile) \<and>
      (if up_activeSession sampleProfile = replicate 32 0 then activeState sampleProfile sampleSession = freeState sampleProfile
       else \<exists>slot' d s. answers sampleReader (replicate 32 2) (up_activeSession sampleProfile) (Some 7) slot' d \<and> 7 \<le> slot' \<and>
         decodeOfflineSession d = Inr s \<and> activeState sampleProfile sampleSession = activeState sampleProfile s)"
    using sampleAccounts_decode(2) unfolding active(1) by (metis length_replicate)
  then show ?thesis unfolding chainShows_def using sampleAccounts_decode(1) active(2) by blast
qed

theorem confirmed_recovery_exact_witness:
  "ar_confirmed (activeState sampleProfile sampleSession) \<and> authoritativeBindingIsComplete (activeState sampleProfile sampleSession)"
  using confirmed_recovery_exact [of "replicate 32 2" samplePda sampleReader "replicate 32 5" "activeState sampleProfile sampleSession"] sampleChain
  by blast

section \<open>Stored sessions\<close>

lemma complete_record:
  assumes "isHex 32 account" "length sid = 32" "length owner = 32" "length key = 32"
  shows "isCompleteLocalRecord (Some \<lparr>lp_source = OnChainSource, lp_provisioningConfirmed = True, lp_sessionAccount = account,
    lp_sessionId = bytesToHex sid, lp_branchStateSessionId = bytesToHex sid, lp_owner = bytesToHex owner,
    lp_certificateOwner = bytesToHex owner, lp_devicePublicKey = bytesToHex key, lp_certificateDevicePublicKey = bytesToHex key,
    lp_protectedDeviceKeyPublicKey = Some (bytesToHex key), lp_branchStatePresent = True\<rparr>)"
  using assms by (simp add: isCompleteLocalRecord_def) (simp add: isHex32_def)

lemma sound_complete:
  assumes "borsh_ok L" "soundSession L env r"
  shows "isCompleteLocalRecord (Some (ro_localProvisioning r))"
proof -
  let ?cert = "rt_sessionCertificate (rp_runtime r)"
  note s = assms(2) [unfolded soundSession_def Let_def]
  have "validSessionCertificate ?cert" using s trusted_valid [OF assms(1)] by (auto simp: validateCertificateChain_iff)
  then have "length (sc_sessionId ?cert) = 32" "length (sc_owner ?cert) = 32" "length (sc_devicePublicKey ?cert) = 32"
    by (auto simp: validSessionCertificate_def)
  moreover have "isHex 32 (lp_sessionAccount (ro_localProvisioning r))" and loc: "ro_localProvisioning r = \<lparr>lp_source = OnChainSource, lp_provisioningConfirmed = True,
       lp_sessionAccount = lp_sessionAccount (ro_localProvisioning r), lp_sessionId = bytesToHex (sc_sessionId ?cert),
       lp_branchStateSessionId = bytesToHex (sc_sessionId ?cert), lp_owner = bytesToHex (sc_owner ?cert),
       lp_certificateOwner = bytesToHex (sc_owner ?cert), lp_devicePublicKey = bytesToHex (sc_devicePublicKey ?cert),
       lp_certificateDevicePublicKey = bytesToHex (sc_devicePublicKey ?cert),
       lp_protectedDeviceKeyPublicKey = Some (bytesToHex (sc_devicePublicKey ?cert)), lp_branchStatePresent = True\<rparr>"
    using s by blast+
  ultimately show ?thesis by (subst loc) (rule complete_record)
qed

text \<open>
  C6: whatever was in the storage, a session that is restored is one the payer may
  spend from. Its certificate chain is valid for this deployment, the device key is the certified
  one, its state is the replay of valid payments from the certified genesis, so the balance is
  the limit less exactly those payments and never negative, and the record is complete for the
  access gate.
\<close>

theorem restored_session_sound:
  assumes "borsh_ok L" "hash_ok L" "restoreOnchainSession L provisioningJson branchStateJson deviceSecretHex env = Inr r"
  shows "let cert = rt_sessionCertificate (rp_runtime r); cx = payerTrustContext env (sc_sessionId cert) in
    rt_trustContext (rp_runtime r) = cx \<and> validateCertificateChain L cx cert (rt_deviceAuthorization (rp_runtime r)) = Inr () \<and>
    (\<exists>secret. deviceSecretHex = bytesToHex secret \<and> derivePublicKey L secret = Inr (sc_devicePublicKey cert)) \<and>
    replayCredentials L cx cert (genesisParent cert) (rp_credentials r) = Inr (rp_parent r) \<and> length (rp_credentials r) \<le> 32 \<and>
    pt_sequence (rp_parent r) = int (length (rp_credentials r)) \<and> 0 \<le> pt_remaining (rp_parent r) \<and>
    pt_remaining (rp_parent r) = sc_branchSpendingLimit cert - sum_list (map pc_amount (rp_credentials r)) \<and>
    isCompleteLocalRecord (Some (ro_localProvisioning r))"
proof -
  let ?cert = "rt_sessionCertificate (rp_runtime r)" and ?auth = "rt_deviceAuthorization (rp_runtime r)" and ?cx = "rt_trustContext (rp_runtime r)"
  have sound: "soundSession L env r" by (rule restore_sound [OF assms(1,3)])
  note s = sound [unfolded soundSession_def Let_def]
  have chain: "validateCertificateChain L ?cx ?cert ?auth = Inr ()" and cx: "?cx = payerTrustContext env (sc_sessionId ?cert)"
    and proven: "provenBy L ?cx ?auth ?cert (rp_outgoingFrames r) (rp_parent r) (rp_credentials r)" using s by blast+
  have key: "rt_deviceSecretHex (rp_runtime r) = deviceSecretHex"
    using assms(3) unfolding restore_iff [OF assms(1)] by (auto simp: restoredAs_def)
  with s have "\<exists>secret. deviceSecretHex = bytesToHex secret \<and> derivePublicKey L secret = Inr (sc_devicePublicKey ?cert)" by blast
  with proven_state [OF assms(1,2) chain proven] chain sound_complete [OF assms(1) sound] cx show ?thesis unfolding Let_def by metis
qed

text \<open>The sample session after two payments, with the frames that carry them.\<close>

definition payerFrames :: "string list" where
  "payerFrames = projr (sendCredential sampleLib \<lparr>qr_chunkBytes = 480\<rparr> sampleBundle)"

definition sampleRuntime :: PayerSessionRuntime where
  "sampleRuntime = \<lparr>rt_deviceSecretHex = bytesToHex (replicate 32 6), rt_deviceAuthorization = sampleAuthorization,
     rt_sessionCertificate = sampleCertificate, rt_trustContext = sampleContext, rt_initialParent = genesisParent sampleCertificate\<rparr>"

definition payerInput :: PersistInput where
  "payerInput = \<lparr>pi_sessionAccount = replicate 32 21, pi_runtime = sampleRuntime, pi_parent = Some (nextParent secondPayment),
     pi_frames = Some payerFrames, pi_pendingDelivery = Some True\<rparr>"

lemma payerFrames_received: "receiveCredential sampleLib payerFrames = Inr sampleBundle" "payerFrames \<noteq> []"
proof -
  have wf: "validBundle sampleBundle"
    using samplePayments_valid by (simp add: validBundle_def sampleBundle_def validDeviceAuthorization_def integer_ranges)
  obtain bs where bs: "encodeCredentialProofBundle sampleLib sampleBundle = Inr bs"
    using encodeCredentialProofBundle_ok [OF sampleLib_borsh wf] by (auto simp: isOk_iff)
  have len: "length bs = 1876" using encodeCredentialProofBundle_length(2) [OF bs] by (simp add: sampleBundle_def)
  have "isOk (frame sampleLib \<lparr>qr_chunkBytes = 480\<rparr> CredentialBundleMessage bs)"
    by (rule frame_defined) (simp_all add: len)
  then have sent: "frame sampleLib \<lparr>qr_chunkBytes = 480\<rparr> CredentialBundleMessage bs = Inr payerFrames"
    by (auto simp: isOk_iff payerFrames_def sendCredential_def bs)
  then have "assemble sampleLib CredentialBundleMessage payerFrames = Inr bs" by (intro frames_assemble [OF sampleLib_hash]) simp_all
  then show r: "receiveCredential sampleLib payerFrames = Inr sampleBundle"
    by (simp add: receiveCredential_def decodeBundle_encode [OF sampleLib_borsh wf bs])
  show "payerFrames \<noteq> []" using r by (auto simp: receiveCredential_def assemble_def)
qed

lemma payerInput_storable: "storable sampleLib payerInput [samplePayment, secondPayment]"
proof -
  have "validateCertificateChain sampleLib sampleContext sampleCertificate sampleAuthorization = Inr ()"
    using sampleBundle_valid by (simp add: validateCredentialProofBundle_iff sampleBundle_def)
  moreover have "length (sc_issuerSignature sampleCertificate) = 64" using samplePayments_valid by simp
  moreover have "provenBy sampleLib sampleContext sampleAuthorization sampleCertificate payerFrames (nextParent secondPayment) [samplePayment, secondPayment]"
    using payerFrames_received sampleBundle_valid by (simp add: provenBy_def sampleBundle_def)
  ultimately show ?thesis
    using payerFrames_received(2)
    by (auto simp: storable_def payerInput_def sampleRuntime_def storedParent_def storedFrames_def storedPending_def intro!: exI [of _ "replicate 32 6"])
qed

lemma sampleStored:
  obtains ps r where "createPersistedOnchainSession sampleLib payerInput = Inr ps"
    "restoreAll sampleLib ps (environmentOf sampleContext) = Inr r" "rp_parent r = nextParent secondPayment"
    "rp_runtime r = sampleRuntime" "lp_sessionAccount (ro_localProvisioning r) = bytesToHex (replicate 32 21)"
proof -
  have cx: "payerTrustContext (environmentOf sampleContext) (replicate 32 3) = sampleContext" by (rule environment_context) simp
  have input: "pi_runtime payerInput = sampleRuntime" "rt_trustContext sampleRuntime = sampleContext"
    "storedParent payerInput = nextParent secondPayment" "pi_sessionAccount payerInput = replicate 32 21"
    by (simp_all add: payerInput_def sampleRuntime_def storedParent_def)
  obtain a c where "createPersistedOnchainSession sampleLib payerInput = Inr (persistedAs payerInput a c)"
    "restoreAll sampleLib (persistedAs payerInput a c) (environmentOf sampleContext) =
      Inr (restoredAs (rt_deviceSecretHex sampleRuntime) (environmentOf sampleContext) (rt_deviceAuthorization sampleRuntime)
        (rt_sessionCertificate sampleRuntime) (nextParent secondPayment) [samplePayment, secondPayment]
        (provisioningOf payerInput a c) (branchOf payerInput))"
    by (rule storable_persists [OF sampleLib_borsh sampleLib_hash payerInput_storable, unfolded input])
  then show ?thesis by (rule that) (simp_all add: restoredAs_def provisioningOf_def input sampleRuntime_def cx)
qed

theorem restored_session_sound_witness:
  "\<exists>ps r. restoreAll sampleLib ps (environmentOf sampleContext) = Inr r \<and>
    isCompleteLocalRecord (Some (ro_localProvisioning r)) \<and> pt_remaining (rp_parent r) = 0"
proof -
  obtain ps r where r: "restoreAll sampleLib ps (environmentOf sampleContext) = Inr r" "rp_parent r = nextParent secondPayment"
    by (rule sampleStored)
  have "pt_remaining (nextParent secondPayment) = 0"
    using created_fields(9) [OF secondPayment_created] by (simp add: nextParent_def secondRequest_def)
  moreover have "isCompleteLocalRecord (Some (ro_localProvisioning r))"
    using restored_session_sound [OF sampleLib_borsh sampleLib_hash r(1) [unfolded restoreAll_def]] unfolding Let_def by blast
  ultimately have "pt_remaining (rp_parent r) = 0" "isCompleteLocalRecord (Some (ro_localProvisioning r))" using r(2) by simp_all
  with r(1) show ?thesis by blast
qed

lemma stored_restores:
  assumes "borsh_ok L" "hash_ok L" "storable L i payments" "createPersistedOnchainSession L i = Inr ps"
  shows "\<exists>r. restoreAll L ps (environmentOf (rt_trustContext (pi_runtime i))) = Inr r \<and>
    rp_runtime r = (pi_runtime i)\<lparr>rt_initialParent := genesisParent (rt_sessionCertificate (pi_runtime i))\<rparr> \<and>
    rp_parent r = storedParent i \<and> rp_credentials r = payments \<and> rp_outgoingFrames r = storedFrames i \<and>
    rp_pendingDelivery r = storedPending i \<and> lp_sessionAccount (ro_localProvisioning r) = bytesToHex (pi_sessionAccount i)"
proof -
  have "cx_sessionId (rt_trustContext (pi_runtime i)) = sc_sessionId (rt_sessionCertificate (pi_runtime i))"
    using assms(3) by (auto simp: storable_def Let_def validateCertificateChain_iff trusted_session)
  note cx = environment_context [OF this]
  obtain a c where "ps = persistedAs i a c" and r: "restoreAll L (persistedAs i a c) (environmentOf (rt_trustContext (pi_runtime i))) =
      Inr (restoredAs (rt_deviceSecretHex (pi_runtime i)) (environmentOf (rt_trustContext (pi_runtime i)))
        (rt_deviceAuthorization (pi_runtime i)) (rt_sessionCertificate (pi_runtime i)) (storedParent i) payments
        (provisioningOf i a c) (branchOf i))"
    using storable_persists [OF assms(1-3)] assms(4) by (metis Inr_inject)
  then show ?thesis by (simp add: restoredAs_def provisioningOf_def branchOf_def cx)
qed

lemma stores_storable: "borsh_ok L \<Longrightarrow> hash_ok L \<Longrightarrow> isOk (createPersistedOnchainSession L i) \<longleftrightarrow> (\<exists>payments. storable L i payments)"
proof -
  assume L: "borsh_ok L" "hash_ok L"
  have "isOk (createPersistedOnchainSession L i)" if "storable L i payments" for payments
    using storable_persists [OF L that] by (metis isOk_simps(1))
  moreover have "\<exists>payments. storable L i payments" if "createPersistedOnchainSession L i = Inr ps" for ps
    by (rule persisted_storable [OF L(1) that])
  ultimately show ?thesis unfolding isOk_iff by blast
qed

text \<open>
  C33: storing a session is exact. It succeeds precisely for sessions that are signed, whose
  key is the certified one and whose state is what their frames prove, and restoring what was
  stored gives back the same certificate, key, state, payments, frames and delivery flag.
\<close>

theorem storing_is_exact:
  assumes "borsh_ok L" "hash_ok L"
  shows "(isOk (createPersistedOnchainSession L i) \<longleftrightarrow> (\<exists>payments. storable L i payments)) \<and>
    (createPersistedOnchainSession L i = Inr ps \<longrightarrow>
      (\<exists>r payments. restoreAll L ps (environmentOf (rt_trustContext (pi_runtime i))) = Inr r \<and> storable L i payments \<and>
        rp_runtime r = (pi_runtime i)\<lparr>rt_initialParent := genesisParent (rt_sessionCertificate (pi_runtime i))\<rparr> \<and>
        rp_parent r = storedParent i \<and> rp_credentials r = payments \<and> rp_outgoingFrames r = storedFrames i \<and>
        rp_pendingDelivery r = storedPending i \<and>
        lp_sessionAccount (ro_localProvisioning r) = bytesToHex (pi_sessionAccount i)))"
  using stores_storable [OF assms] persisted_storable [OF assms(1)] stored_restores [OF assms] by blast

theorem storing_is_exact_witness:
  "\<exists>ps r. createPersistedOnchainSession sampleLib payerInput = Inr ps \<and>
    restoreAll sampleLib ps (environmentOf sampleContext) = Inr r \<and> rp_outgoingFrames r = payerFrames"
proof -
  obtain ps where "createPersistedOnchainSession sampleLib payerInput = Inr ps" by (rule sampleStored)
  with storing_is_exact [OF sampleLib_borsh sampleLib_hash, of payerInput ps] show ?thesis
    by (auto simp: payerInput_def sampleRuntime_def storedFrames_def)
qed

end
