(* ===== verification/StorageTheorems.thy ===== *)
theory StorageTheorems
  imports StorageFacts Samples
begin

text \<open>
  The properties of the crash-consistent store: commits are atomic under faults, loads are
  faithful, damage is detected, and the one sequence of faults after which the store stays
  unusable.
\<close>

section \<open>The sample store\<close>

text \<open>The layout of the payer's store, with the library of the samples.\<close>

definition sampleStore :: CrashConsistentStoreOptions where
  "sampleStore = \<lparr>so_namespace = ''ogp.payer'', so_components =
     [\<lparr>cd_name = ''branch-state'', cd_area = PublicArea\<rparr>, \<lparr>cd_name = ''device-secret'', cd_area = ProtectedArea\<rparr>]\<rparr>"

definition sampleValues :: "(string \<times> string) list" where
  "sampleValues = [(''device-secret'', ''00''), (''branch-state'', ''{}'')]"

definition sampleGeneration :: "byte \<Rightarrow> string" where
  "sampleGeneration b = bytesToHex (replicate 32 b)"

definition blank :: disk where "blank = (\<lambda>_ _. None)"

lemma blank_durable: "durable L options blank None"
  by (simp add: durable_def blank_def journalAbsent_def)

lemma sampleStore_valid: "validateDefinitions (so_namespace sampleStore) (so_components sampleStore) = Inr ()"
  by (simp add: validateDefinitions_def sampleStore_def spaceChar_def componentNameText_def)

section \<open>Atomic commits\<close>

definition neverRejects :: "Device \<Rightarrow> bool" where
  "neverRejects d \<longleftrightarrow> (\<forall>n applied. faults d n \<noteq> Rejects applied)"

text \<open>The faults a device shows\<close>

abbreviation faultsOf :: "Device \<Rightarrow> fault \<Rightarrow> bool" where
  "faultsOf d f \<equiv> \<exists>n. f = faults d n"

lemma run_triple:
  assumes "triple (faultsOf d) ((=) (contents d)) m Q E D" "m d = (r, d')"
  shows "case r of Done x \<Rightarrow> Q x (contents d') | Thrown _ \<Rightarrow> E (contents d') | Died \<Rightarrow> D (contents d')"
  by (rule triple_run [OF assms(1) refl _ assms(2)]) blast

lemma not_rejecting: "neverRejects d \<Longrightarrow> \<not> rejecting (faultsOf d)"
  by (simp add: neverRejects_def rejecting_def) metis

lemma commit_kept:
  assumes "hash_ok L" "validateDefinitions (so_namespace options) (so_components options) = Inr ()"
    "kept F L options s (contents d)" "\<And>n. F (faults d n)" "commitStore L options nextGeneration values d = (r, d')"
  shows "case r of
      Done result \<Rightarrow> durable L options (contents d') (Some (cr_generation result, payloadsOf options values))
    | _ \<Rightarrow> oldOrNew F L options values s (contents d')"
  using triple_run [OF triple_commitStore [OF assms(1-3)] refl assms(4,5)] by (cases r) simp_all

lemma commit_outcome:
  assumes "hash_ok L" "validateDefinitions (so_namespace options) (so_components options) = Inr ()"
    "durable L options (contents d) s" "commitStore L options nextGeneration values d = (r, d')"
  shows "case r of
      Done result \<Rightarrow> durable L options (contents d') (Some (cr_generation result, payloadsOf options values))
    | _ \<Rightarrow> durable L options (contents d') s \<or> (\<exists>g. durable L options (contents d') (Some (g, payloadsOf options values))) \<or>
        s = None \<and> \<not> neverRejects d \<and> uncommitted L options (contents d')"
proof -
  have "oldOrNew (faultsOf d) L options values s x \<Longrightarrow> durable L options x s \<or> (\<exists>g. durable L options x (Some (g, payloadsOf options values))) \<or>
      s = None \<and> \<not> neverRejects d \<and> uncommitted L options x" for x
    using not_rejecting [of d] by (auto simp: oldOrNew_def kept_def)
  moreover have "faultsOf d (faults d n)" for n by blast
  ultimately show ?thesis
    using commit_kept [OF assms(1,2) kept_durable [OF assms(3)] _ assms(4), of "faultsOf d"] by (cases r) simp_all
qed

lemma load_outcome:
  assumes "hash_ok L" "durable L options (contents d) s" "loadStore L options d = (r, d')"
  shows "durable L options (contents d') s \<and>
    (case r of Done result \<Rightarrow> reports options s result \<or> s \<noteq> None \<and> \<not> neverRejects d \<and> (\<exists>reason. result = LoadCorrupt reason) | _ \<Rightarrow> True)"
  using run_triple [OF triple_loadStore [OF assms(1,2)] assms(3)] not_rejecting [of d]
  by (cases r) (auto simp: loadPost_def)

text \<open>
  C7: a commit is atomic, however the device fails. Whatever happens at each access, the
  committed values are in the store if the commit returned; if it did not, the store holds either
  exactly the snapshot it held before or exactly the committed values. The one other outcome is of
  the first commit of a store, on a device that rejects an access: then nothing is committed, and
  no part of the values can be loaded, but the rest of that commit may not be consistent.
\<close>

theorem commit_is_atomic:
  assumes "hash_ok L" "validateDefinitions (so_namespace options) (so_components options) = Inr ()"
    "durable L options (contents d) s" "commitStore L options nextGeneration values d = (r, d')"
  shows "case r of
      Done result \<Rightarrow> durable L options (contents d') (Some (cr_generation result, payloadsOf options values))
    | _ \<Rightarrow> durable L options (contents d') s \<or> (\<exists>g. durable L options (contents d') (Some (g, payloadsOf options values))) \<or>
        s = None \<and> \<not> neverRejects d \<and> uncommitted L options (contents d')"
  by (rule commit_outcome [OF assms])

text \<open>A device that dies at the fifth access, in the middle of the first commit.\<close>

definition dyingDevice :: Device where
  "dyingDevice = \<lparr>contents = blank, faults = (\<lambda>n. if n = 4 then Dies True else Works), accesses = 0\<rparr>"

theorem commit_is_atomic_witness:
  "\<exists>d'. snd (commitStore sampleLib sampleStore (\<lambda>_. Inl (sampleGeneration 1)) sampleValues dyingDevice) = d' \<and>
    (durable sampleLib sampleStore (contents d') None \<or>
     (\<exists>g. durable sampleLib sampleStore (contents d') (Some (g, payloadsOf sampleStore sampleValues))))"
proof -
  obtain r d' where run: "commitStore sampleLib sampleStore (\<lambda>_. Inl (sampleGeneration 1)) sampleValues dyingDevice = (r, d')" by force
  have "durable sampleLib sampleStore (contents dyingDevice) None" by (simp add: dyingDevice_def blank_durable)
  moreover have "neverRejects dyingDevice" by (simp add: neverRejects_def dyingDevice_def)
  ultimately show ?thesis
    using commit_is_atomic [OF sampleLib_hash sampleStore_valid _ run, of None] run by (cases r) auto
qed

text \<open>
  Loading never changes the snapshot a store holds, and reports exactly that
  snapshot: the one exception is a read that the device rejects, which is reported as corruption
  but leaves the store as it was.
\<close>

theorem load_is_faithful:
  assumes "hash_ok L" "durable L options (contents d) s" "loadStore L options d = (r, d')"
  shows "durable L options (contents d') s \<and>
    (case r of Done result \<Rightarrow> reports options s result \<or> s \<noteq> None \<and> \<not> neverRejects d \<and> (\<exists>reason. result = LoadCorrupt reason) | _ \<Rightarrow> True)"
  by (rule load_outcome [OF assms])

theorem load_is_faithful_witness:
  "durable sampleLib sampleStore (contents (snd (loadStore sampleLib sampleStore dyingDevice))) None"
proof -
  obtain r d' where run: "loadStore sampleLib sampleStore dyingDevice = (r, d')" by force
  have "durable sampleLib sampleStore (contents dyingDevice) None" by (simp add: dyingDevice_def blank_durable)
  from load_is_faithful [OF sampleLib_hash this run] run show ?thesis by simp
qed

section \<open>Histories\<close>

text \<open>
  The states of a store through any history of loads and commits, each interrupted anywhere, with
  the snapshots that may be found: the last committed one and those of later interrupted commits.
  The flag says that no device rejected an access of a commit while nothing was known to be committed.
\<close>

inductive history :: "lib \<Rightarrow> CrashConsistentStoreOptions \<Rightarrow> bool \<Rightarrow> disk \<Rightarrow> string list option set \<Rightarrow> bool" for L options where
  start: "history L options True blank {None}"
| loads: "history L options q x C \<Longrightarrow> contents d = x \<Longrightarrow> loadStore L options d = (r, d') \<Longrightarrow> history L options q (contents d') C"
| commits: "history L options q x C \<Longrightarrow> contents d = x \<Longrightarrow>
    commitStore L options nextGeneration values d = (Done result, d') \<Longrightarrow> history L options q (contents d') {Some (payloadsOf options values)}"
| interrupted: "history L options q x C \<Longrightarrow> contents d = x \<Longrightarrow>
    commitStore L options nextGeneration values d = (r, d') \<Longrightarrow>
    history L options (q \<and> (None \<notin> C \<or> neverRejects d)) (contents d') (insert (Some (payloadsOf options values)) C)"

definition found :: "bool \<Rightarrow> lib \<Rightarrow> CrashConsistentStoreOptions \<Rightarrow> disk \<Rightarrow> (string \<times> string list) option \<Rightarrow> bool" where
  "found q L options x s \<longleftrightarrow> durable L options x s \<or> s = None \<and> \<not> q \<and> uncommitted L options x"

lemma load_found:
  assumes "hash_ok L" "found q L options (contents d) s" "loadStore L options d = (r, d')"
  shows "found q L options (contents d') s \<and>
    (case r of Done result \<Rightarrow> reports options s result \<or> (\<exists>reason. result = LoadCorrupt reason) \<and> (s \<noteq> None \<and> \<not> neverRejects d \<or> s = None \<and> \<not> q)
     | _ \<Rightarrow> True)"
proof (cases "durable L options (contents d) s")
  case True
  from load_outcome [OF assms(1) True assms(3)] show ?thesis by (cases r) (auto simp: found_def)
next
  case False
  with assms(2) have s: "s = None" "\<not> q" "uncommitted L options (contents d)" by (auto simp: found_def)
  from run_triple [OF triple_loadUncommitted [OF s(3)] assms(3)] s(1,2) show ?thesis by (cases r) (auto simp: found_def)
qed

lemma commit_found:
  assumes "hash_ok L" "validateDefinitions (so_namespace options) (so_components options) = Inr ()"
    "found q L options (contents d) s" "commitStore L options nextGeneration values d = (r, d')"
  shows "case r of
      Done result \<Rightarrow> durable L options (contents d') (Some (cr_generation result, payloadsOf options values))
    | _ \<Rightarrow> found (q \<and> (s \<noteq> None \<or> neverRejects d)) L options (contents d') s \<or>
        (\<exists>g. durable L options (contents d') (Some (g, payloadsOf options values)))"
proof (cases "durable L options (contents d) s")
  case True
  from commit_outcome [OF assms(1,2) True assms(4)] show ?thesis by (cases r) (auto simp: found_def)
next
  case False
  with assms(3) have s: "s = None" "\<not> q" "kept (\<lambda>_. True) L options s (contents d)" by (auto simp: found_def kept_def rejecting_def)
  from commit_kept [OF assms(1,2) s(3) _ assms(4)] s(1,2) show ?thesis by (cases r) (auto simp: found_def oldOrNew_def kept_def)
qed

lemma history_found:
  assumes "hash_ok L" "validateDefinitions (so_namespace options) (so_components options) = Inr ()" "history L options q x C"
  shows "\<exists>s. found q L options x s \<and> map_option snd s \<in> C"
  using assms(3)
proof induction
  case start
  then show ?case using blank_durable by (force simp: found_def)
next
  case (loads q x C d r d')
  then show ?case using load_found [OF assms(1)] by blast
next
  case (commits q x C d nextGeneration "values" result d')
  then obtain s where "found q L options (contents d) s" by auto
  from commit_found [OF assms(1,2) this commits(3)] show ?case by (fastforce simp: found_def)
next
  case (interrupted q x C d nextGeneration "values" r d')
  then obtain s where s: "found q L options (contents d) s" "map_option snd s \<in> C" by auto
  let ?new = "\<exists>g. durable L options (contents d') (Some (g, payloadsOf options values))"
  from commit_found [OF assms(1,2) s(1) interrupted(3)]
  consider "found (q \<and> (s \<noteq> None \<or> neverRejects d)) L options (contents d') s" | ?new by (cases r) auto
  then show ?case
  proof cases
    case 1
    then have "found (q \<and> (None \<notin> C \<or> neverRejects d)) L options (contents d') s"
      using s(2) by (cases s) (auto simp: found_def)
    with s(2) show ?thesis by blast
  next
    case 2
    then show ?thesis by (force simp: found_def)
  qed
qed

text \<open>
  C28: after any history of loads and commits, each interrupted anywhere on any device, a
  load reports a complete snapshot: nothing, the last committed values, or the values of a commit
  interrupted since, and never a mixture. It can report corruption only if a device rejected an access:
  one of this load, or one of a commit that ran while nothing was known to be committed.
\<close>

theorem history_is_consistent:
  assumes "hash_ok L" "validateDefinitions (so_namespace options) (so_components options) = Inr ()" "history L options quiet (contents d) C"
    "loadStore L options d = (Done result, d')"
  shows "case result of
      LoadEmpty _ _ \<Rightarrow> None \<in> C
    | LoadCommitted _ values _ _ \<Rightarrow> map fst values = map cd_name (so_components options) \<and> Some (map snd values) \<in> C
    | LoadCorrupt _ \<Rightarrow> \<not> neverRejects d \<or> None \<in> C \<and> \<not> quiet"
proof -
  obtain s where s: "found quiet L options (contents d) s" "map_option snd s \<in> C" using history_found [OF assms(1-3)] by blast
  note load = load_found [OF assms(1) s(1) assms(4)]
  show ?thesis
  proof (cases s)
    case None
    with load s(2) show ?thesis by (cases result) (auto simp: reports_def)
  next
    case (Some gps)
    then obtain g ps where "s = Some (g, ps)" by (cases gps) auto
    moreover have "length ps = length (so_components options)" using s(1) calculation by (simp add: found_def durable_def snapshotStored_def)
    ultimately show ?thesis using load s(2) by (cases result) (auto simp: reports_def)
  qed
qed

section \<open>Runs on a given device\<close>

abbreviation device :: "disk \<Rightarrow> (nat \<Rightarrow> fault) \<Rightarrow> nat \<Rightarrow> Device" where
  "device x f n \<equiv> \<lparr>contents = x, faults = f, accesses = n\<rparr>"

lemma run_get: "f n = Works \<Longrightarrow> storageGet area key (device x f n) = (Done (x area key), device x f (n + 1))"
  by (simp add: storageGet_def accessIO_def Let_def)

lemma run_set:
  "f n = Works \<Longrightarrow> storageSet area key v (device x f n) = (Done (), device (writeDisk area key (Some v) x) f (n + 1))"
  "f n = Rejects False \<Longrightarrow> storageSet area key v (device x f n) = (Thrown (JsError ''storage''), device x f (n + 1))"
  by (simp_all add: storageSet_def accessIO_def Let_def)

lemma run_remove:
  "f n = Works \<Longrightarrow> bestEffortRemove area key (device x f n) = (Done False, device (writeDisk area key None x) f (n + 1))"
  "f n = Rejects False \<Longrightarrow> bestEffortRemove area key (device x f n) = (Done True, device x f (n + 1))"
  by (simp_all add: bestEffortRemove_def catchIO_def bindIO_def storageRemove_def accessIO_def Let_def returnIO_def)

lemmas run_rules = bindIO_def returnIO_def throwIO_def liftIO_def run_get run_set run_remove

lemma load_blank: "f n = Works \<Longrightarrow> f (n + 1) = Works \<Longrightarrow> f (n + 2) = Works \<Longrightarrow> loadStore L options (device blank f n) = (Done (LoadEmpty RecoveryClean False), device blank f (n + 3))"
  by (simp add: loadStore_def loadWithoutPointer_def run_rules blank_def numeral_3_eq_3)

theorem history_is_consistent_witness:
  "\<exists>result d'. loadStore sampleLib sampleStore (device blank (\<lambda>_. Works) 0) = (Done result, d') \<and>
    (case result of LoadEmpty _ _ \<Rightarrow> True | _ \<Rightarrow> False)"
  using history_is_consistent [OF sampleLib_hash sampleStore_valid, of True "device blank (\<lambda>_. Works) 0" "{None}"]
    history.start [of sampleLib sampleStore] load_blank [of "\<lambda>_. Works" 0 sampleLib sampleStore]
  by (fastforce split: DurableLoadResult.splits)

section \<open>Damage is detected\<close>

definition intact :: "lib \<Rightarrow> disk \<Rightarrow> ManifestV1 \<Rightarrow> ManifestComponentV1 \<Rightarrow> string \<times> string \<Rightarrow> bool" where
  "intact L x m c v \<longleftrightarrow> fst v = mf_name c \<and> digest L (snd v) = mf_sha256 c \<and>
    (\<exists>raw. x (mf_area c) (mf_key c) = Some raw \<and> parseComponent L raw m c = Inr (snd v))"

definition authentic :: "lib \<Rightarrow> CrashConsistentStoreOptions \<Rightarrow> disk \<Rightarrow> string \<Rightarrow> (string \<times> string) list \<Rightarrow> bool" where
  "authentic L options x g values \<longleftrightarrow> (\<exists>mraw m jraw j.
    x PublicArea (committedKey options) = Some mraw \<and>
    parseManifest mraw (so_namespace options) (so_components options) CommittedPhase = Inr m \<and>
    x ProtectedArea (protectedJournalKey options) = Some jraw \<and> parseProtectedJournal jraw (so_namespace options) = Inr j \<and>
    mf_generation m = g \<and> (jn_currentGeneration j = Some g \<or> jn_pendingGeneration j = Some g) \<and>
    list_all2 (intact L x m) (mf_components m) values)"

lemma triple_map_rel:
  assumes "\<And>c. triple F ((=) x) (f c) (\<lambda>v y. R c v \<and> y = x) E D"
  shows "triple F ((=) x) (mapIO f cs) (\<lambda>vs y. list_all2 R cs vs \<and> y = x) E D"
proof (induction cs)
  case (Cons c cs)
  have "triple F (\<lambda>y. R c w \<and> y = x) (bindIO (mapIO f cs) (\<lambda>ys. returnIO (w # ys))) (\<lambda>ws y. list_all2 R (c # cs) ws \<and> y = x) E D" for w
    by (rule triple_known, rule triple_bind [OF Cons.IH]) (auto intro: triple_return)
  with assms show ?case unfolding mapIO.simps by (rule triple_bind)
qed (auto intro: triple_return)

lemma parseComponent_digest: "parseComponent L raw m c = Inr payload \<Longrightarrow> digest L payload = mf_sha256 c"
proof -
  assume "parseComponent L raw m c = Inr payload"
  then obtain parsed where "(case map_of parsed ''payload'' of
       Some (JString payload) \<Rightarrow>
         bindE (failIf (map_of parsed ''version'' \<noteq> Some (JNumber 1) \<or>
             map_of parsed ''generation'' \<noteq> Some (JString (mf_generation m)) \<or>
             map_of parsed ''name'' \<noteq> Some (JString (mf_name c)))
           (componentName c @ '' nao corresponde a geracao comprometida'')) (\<lambda>_.
         bindE (failIf (digest L payload \<noteq> mf_sha256 c)
           (componentName c @ '' falhou na verificacao SHA-256'')) (\<lambda>_.
           Inr payload))
     | _ \<Rightarrow> Inl (JsError (componentName c @ '' nao corresponde a geracao comprometida''))) = Inr payload"
    unfolding parseComponent_def bindE_Inr_iff by blast
  then show ?thesis
    by (cases "map_of parsed ''payload''"; cases "the (map_of parsed ''payload'')") (simp_all add: bindE_Inr_iff)
qed

lemma triple_get_any: "triple F ((=) x) (storageGet area key) (\<lambda>v y. v = x area key \<and> y = x) (\<lambda>_. True) (\<lambda>_. True)"
  by (rule triple_weaken [OF triple_get]) auto

lemma triple_intact:
  "triple F ((=) x) (loadComponent L m c) (\<lambda>v y. intact L x m c v \<and> y = x) (\<lambda>_. True) (\<lambda>_. True)"
  unfolding loadComponent_def
proof (rule triple_bind [OF triple_get_any])
  fix raw
  show "triple F (\<lambda>y. raw = x (mf_area c) (mf_key c) \<and> y = x)
    (case raw of None \<Rightarrow> throwIO (JsError (componentName c @ '' ausente''))
     | Some text \<Rightarrow> bindIO (liftIO (parseComponent L text m c)) (\<lambda>payload. returnIO (mf_name c, payload)))
    (\<lambda>v y. intact L x m c v \<and> y = x) (\<lambda>_. True) (\<lambda>_. True)"
  proof (rule triple_known, cases raw)
    case (Some t)
    assume "raw = x (mf_area c) (mf_key c)"
    with Some have t: "x (mf_area c) (mf_key c) = Some t" by simp
    show "triple F ((=) x) (case raw of None \<Rightarrow> throwIO (JsError (componentName c @ '' ausente''))
       | Some text \<Rightarrow> bindIO (liftIO (parseComponent L text m c)) (\<lambda>payload. returnIO (mf_name c, payload)))
      (\<lambda>v y. intact L x m c v \<and> y = x) (\<lambda>_. True) (\<lambda>_. True)"
      unfolding Some option.case
    proof (rule triple_bind)
      show "triple F ((=) x) (liftIO (parseComponent L t m c)) (\<lambda>payload y. parseComponent L t m c = Inr payload \<and> y = x) (\<lambda>_. True) (\<lambda>_. True)"
        by (rule triple_lift) auto
    qed (use t parseComponent_digest in \<open>auto simp: intact_def intro!: triple_return\<close>)
  qed (auto intro: triple_throw)
qed

abbreviation trustedLoad :: "lib \<Rightarrow> CrashConsistentStoreOptions \<Rightarrow> disk \<Rightarrow> DurableLoadResult \<Rightarrow> bool" where
  "trustedLoad L options x r \<equiv> (\<forall>g vs recovery cleanup. r = LoadCommitted g vs recovery cleanup \<longrightarrow> authentic L options x g vs)"

lemma triple_settle_same:
  "triple F P (settleCommitted options j prepared m vs)
    (\<lambda>r _. \<exists>recovery cleanup. r = LoadCommitted (mf_generation m) vs recovery cleanup) (\<lambda>_. True) (\<lambda>_. True)"
  unfolding settleCommitted_def Let_def
proof (rule triple_bind [where M = "\<lambda>_ _. True"])
  show "triple F P (if jn_pendingGeneration j \<noteq> None
      then bestEffortSet ProtectedArea (protectedJournalKey options) (journalAfter options (mf_generation m)) else returnIO False)
    (\<lambda>_ _. True) (\<lambda>_. True) (\<lambda>_. True)"
    by (auto intro!: triple_bestEffortSet triple_return)
qed (cases prepared; auto intro!: triple_return triple_bind [where M = "\<lambda>_ _. True"] triple_bestEffortRemove)

lemma triple_loadCommitted_authentic:
  assumes "x PublicArea (committedKey options) = Some mraw"
    "x ProtectedArea (protectedJournalKey options) = Some jraw" "parseProtectedJournal jraw (so_namespace options) = Inr j"
  shows "triple F ((=) x) (loadCommitted L options (Some j) prepared mraw) (\<lambda>r _. trustedLoad L options x r) (\<lambda>_. True) (\<lambda>_. True)"
proof (cases "parseManifest mraw (so_namespace options) (so_components options) CommittedPhase")
  case (Inr m)
  let ?post = "\<lambda>v y. (\<forall>values. v = Inr values \<longrightarrow> list_all2 (intact L x m) (mf_components m) values) \<and> y = x"
  have read: "triple F ((=) x) (bindIO (mapIO (loadComponent L m) (mf_components m)) (\<lambda>values. returnIO (Inr values))) ?post (\<lambda>_. True) (\<lambda>_. True)"
    by (rule triple_bind [OF triple_map_rel [OF triple_intact]]) (auto intro: triple_return)
  have caught: "triple F ((=) x) (catchIO (bindIO (mapIO (loadComponent L m) (mf_components m)) (\<lambda>values. returnIO (Inr values)))
      (\<lambda>reason. returnIO (Inl (messageOf reason)))) (\<lambda>v _. \<forall>values. v = Inr values \<longrightarrow> list_all2 (intact L x m) (mf_components m) values)
      (\<lambda>_. True) (\<lambda>_. True)"
    by (rule triple_catch [OF triple_weaken [OF read]]) (auto intro: triple_return)
  show ?thesis
  proof (cases "jn_currentGeneration j \<noteq> Some (mf_generation m) \<and> jn_pendingGeneration j \<noteq> Some (mf_generation m)")
    case True
    then show ?thesis using Inr by (auto simp: loadCommitted_def intro!: triple_return)
  next
    case False
    have "triple F (\<lambda>_. \<forall>values. v = Inr values \<longrightarrow> list_all2 (intact L x m) (mf_components m) values)
        (case v of Inl reason \<Rightarrow> returnIO (LoadCorrupt reason) | Inr values \<Rightarrow> settleCommitted options j prepared m values)
        (\<lambda>r _. trustedLoad L options x r) (\<lambda>_. True) (\<lambda>_. True)" for v
    proof (cases "\<exists>values. v = Inr values \<and> \<not> list_all2 (intact L x m) (mf_components m) values")
      case known: False
      show ?thesis
      proof (cases v)
        case (Inr vs)
        with known have "list_all2 (intact L x m) (mf_components m) vs" by blast
        then have "authentic L options x (mf_generation m) vs"
          using assms False \<open>parseManifest _ _ _ _ = Inr m\<close> by (auto simp: authentic_def)
        then show ?thesis unfolding Inr sum.case by (intro triple_weaken [OF triple_settle_same]) auto
      qed (auto intro!: triple_return)
    qed (auto simp: triple_def)
    with Inr False show ?thesis
      unfolding loadCommitted_def option.case Inr sum.case if_not_P [OF False] by (intro triple_bind [OF caught])
  qed
qed (auto simp: loadCommitted_def intro!: triple_return)

lemma triple_loadWithoutPointer_empty:
  "triple F P (loadWithoutPointer options j prepared) (\<lambda>r _. \<forall>g vs recovery cleanup. r \<noteq> LoadCommitted g vs recovery cleanup) (\<lambda>_. True) (\<lambda>_. True)"
  unfolding loadWithoutPointer_def
  by (auto intro!: triple_return triple_bind [where M = "\<lambda>_ _. True"] triple_bestEffortRemove split: sum.splits)

lemma triple_authentic:
  "triple F ((=) x) (loadStore L options) (\<lambda>r _. trustedLoad L options x r) (\<lambda>_. True) (\<lambda>_. True)"
  unfolding loadStore_def
proof (rule triple_bind [OF triple_get_any], rule triple_known, rule triple_bind [OF triple_get_any], rule triple_known,
    rule triple_bind [OF triple_get_any], rule triple_known)
  fix mraw praw jraw
  assume raw: "mraw = x PublicArea (committedKey options)" "jraw = x ProtectedArea (protectedJournalKey options)"
  consider "jraw = None" | t e where "jraw = Some t" "parseProtectedJournal t (so_namespace options) = Inl e"
    | t j where "jraw = Some t" "parseProtectedJournal t (so_namespace options) = Inr j" by (metis option.exhaust sum.exhaust)
  then show "triple F ((=) x)
      (case (case jraw of None \<Rightarrow> Inr None
             | Some raw \<Rightarrow> bindE (parseProtectedJournal raw (so_namespace options)) (\<lambda>j. Inr (Some j))) of
         Inl reason \<Rightarrow> returnIO (LoadCorrupt (messageOf reason))
       | Inr journal \<Rightarrow>
          (case mraw of None \<Rightarrow> loadWithoutPointer options journal praw
           | Some raw \<Rightarrow> loadCommitted L options journal praw raw))
      (\<lambda>r _. trustedLoad L options x r) (\<lambda>_. True) (\<lambda>_. True)"
  proof cases
    case 1
    then show ?thesis
      by (cases mraw) (auto simp: loadCommitted_def intro!: triple_return triple_weaken [OF triple_loadWithoutPointer_empty])
  next
    case 3
    show ?thesis
    proof (cases mraw)
      case (Some a)
      then have "triple F ((=) x) (loadCommitted L options (Some j) praw a) (\<lambda>r _. trustedLoad L options x r) (\<lambda>_. True) (\<lambda>_. True)"
        using raw 3 by (intro triple_loadCommitted_authentic) auto
      with 3 Some show ?thesis by simp
    qed (use 3 in \<open>auto intro!: triple_weaken [OF triple_loadWithoutPointer_empty]\<close>)
  qed (auto intro!: triple_return)
qed

lemma parseManifest_names:
  assumes "parseManifest raw ns defs phase = Inr m"
  shows "map mf_name (mf_components m) = map cd_name defs"
proof -
  obtain parsed where "(case map_of parsed ''components'' of
       Some (JArray entries) \<Rightarrow>
         bindE (failIf (length entries \<noteq> length defs) ''manifesto duravel possui componentes invalidos'') (\<lambda>_.
         bindE (mapE (parseManifestComponent ns (the (hexText (map_of parsed ''generation'')))) (zip defs entries)) (\<lambda>components.
           Inr \<lparr>mf_namespace = ns, mf_generation = the (hexText (map_of parsed ''generation'')), mf_phase = phase,
             mf_components = components\<rparr>))
     | _ \<Rightarrow> Inl (JsError ''manifesto duravel possui componentes invalidos'')) = Inr m"
    using assms unfolding parseManifest_def bindE_Inr_iff Let_def by blast
  then obtain g entries where e: "length entries = length defs" "mapE (parseManifestComponent ns g) (zip defs entries) = Inr (mf_components m)"
    by (cases "map_of parsed ''components''"; cases "the (map_of parsed ''components'')") (auto simp: bindE_Inr_iff)
  have "mf_name c = cd_name def" if "parseManifestComponent ns g (def, entry) = Inr c" for def entry c
    using that by (cases "hexText (map_of (projr (objectOf entry ''componente do manifesto'')) ''sha256'')")
      (auto simp: parseManifestComponent_def Let_def bindE_Inr_iff)
  then have "list_all2 (\<lambda>(def, entry) c. mf_name c = cd_name def) (zip defs entries) (mf_components m)"
    using e(2) unfolding mapE_Inr_iff by (elim list_all2_mono) auto
  with e(1) show ?thesis by (auto simp: list_all2_conv_all_nth intro!: nth_equalityI split: prod.splits)
qed

text \<open>
  C30: what a load returns as committed is authentic, whatever the disk holds: the generation of
  the public manifest is the current or pending one of the protected journal, and each value is the
  payload of an envelope of that generation and name whose SHA-256 is the manifest's.
\<close>

theorem damage_is_detected:
  assumes "loadStore L options d = (Done (LoadCommitted g values recovery cleanup), d')"
  shows "authentic L options (contents d) g values \<and> map fst values = map cd_name (so_components options)"
proof -
  have a: "authentic L options (contents d) g values" using run_triple [OF triple_authentic assms] by simp
  then obtain m mraw where m: "parseManifest mraw (so_namespace options) (so_components options) CommittedPhase = Inr m"
    "list_all2 (intact L (contents d) m) (mf_components m) values" unfolding authentic_def by blast
  from m(2) have "map fst values = map mf_name (mf_components m)"
    by (auto simp: list_all2_conv_all_nth intact_def intro!: nth_equalityI)
  with a parseManifest_names [OF m(1)] show ?thesis by simp
qed

section \<open>A store that stays unusable\<close>

definition rejectsAt :: "nat list \<Rightarrow> nat \<Rightarrow> fault" where
  "rejectsAt ns n = (if n \<in> set ns then Rejects False else Works)"

lemma rejectsAt_simps:
  "n \<notin> set ns \<Longrightarrow> rejectsAt ns n = Works" "n \<in> set ns \<Longrightarrow> rejectsAt ns n = Rejects False"
  by (simp_all add: rejectsAt_def)

abbreviation preparedText :: "lib \<Rightarrow> CrashConsistentStoreOptions \<Rightarrow> string \<Rightarrow> string list \<Rightarrow> string" where
  "preparedText L options g ps \<equiv> JSON_stringify (manifestJson (manifestOf L options g ps PreparedPhase))"

abbreviation pendingText :: "CrashConsistentStoreOptions \<Rightarrow> string \<Rightarrow> string" where
  "pendingText options g \<equiv> JSON_stringify (journalJson (journalOf (so_namespace options) None (Some g)))"

text \<open>A disk with nothing committed, a pending journal and a prepared manifest\<close>

definition pendingDisk :: "lib \<Rightarrow> CrashConsistentStoreOptions \<Rightarrow> string list \<Rightarrow> string \<Rightarrow> string \<Rightarrow> disk" where
  "pendingDisk L options ps gj gp = writeDisk ProtectedArea (protectedJournalKey options) (Some (pendingText options gj))
     (writeDisk PublicArea (preparedKey options) (Some (preparedText L options gp ps)) blank)"

lemma pendingDisk_apply [simp]:
  "pendingDisk L options ps gj gp PublicArea (committedKey options) = None"
  "pendingDisk L options ps gj gp PublicArea (preparedKey options) = Some (preparedText L options gp ps)"
  "pendingDisk L options ps gj gp ProtectedArea (protectedJournalKey options) = Some (pendingText options gj)"
  by (simp_all add: pendingDisk_def blank_def)

lemma commit_fresh:
  assumes "commitReady L options values g None"
  shows "commitGeneration L options values None g = bindIO (storageSet PublicArea (preparedKey options) (preparedText L options g (payloadsOf options values)))
    (\<lambda>_. bindIO (storageSet ProtectedArea (protectedJournalKey options) (pendingText options g)) (\<lambda>_.
      bindIO (foldIO (storeComponent g values) (partsOf L options values g)) (\<lambda>_.
      bindIO (storageSet PublicArea (committedKey options)
        (JSON_stringify (manifestJson (manifestOf L options g (payloadsOf options values) CommittedPhase)))) (\<lambda>_.
      bindIO (bestEffortSet ProtectedArea (protectedJournalKey options) (journalAfter options g)) (\<lambda>pending1.
      bindIO (bestEffortRemove PublicArea (preparedKey options)) (\<lambda>pending2.
        returnIO \<lparr>cr_generation = g, cr_cleanupPending = (pending2 \<or> pending1)\<rparr>))))))"
  unfolding commitGeneration_def components_listed [OF assms] liftIO_def sum.case bind_return Let_def
  by (simp add: manifestOf_def journalOf_def)

lemma load_pending:
  assumes "hash_ok L" "isHex 32 gj" "isHex 32 gp" "length ps = length (so_components options)" "f n = Works" "f (n + 1) = Works" "f (n + 2) = Works"
  shows "loadStore L options (device (pendingDisk L options ps gj gp) f n) =
    loadWithoutPointer options (Some (journalOf (so_namespace options) None (Some gj))) (Some (preparedText L options gp ps))
      (device (pendingDisk L options ps gj gp) f (n + 3))"
  using parse_journal [of None "Some gj" "so_namespace options"] assms(2-)
  by (simp add: loadStore_def run_rules generationOk_def numeral_3_eq_3)

lemma preparedRecovery_diverges:
  assumes "hash_ok L" "isHex 32 gp" "length ps = length (so_components options)" "gp \<noteq> gj"
  shows "preparedRecovery options (Some (journalOf (so_namespace options) None (Some gj))) (preparedText L options gp ps) =
    Inl ''manifesto preparado diverge da geracao protegida pendente''"
  unfolding preparedRecovery_def parse_manifest [OF assms(1-3)] using assms(4) by (simp add: manifestOf_def journalOf_def)

lemma load_locked:
  assumes "hash_ok L" "isHex 32 gj" "isHex 32 gp" "length ps = length (so_components options)" "gp \<noteq> gj" "\<And>k. f k = Works"
  shows "loadStore L options (device (pendingDisk L options ps gj gp) f n) =
    (Done (LoadCorrupt ''manifesto preparado diverge da geracao protegida pendente''), device (pendingDisk L options ps gj gp) f (n + 3))"
  unfolding load_pending [OF assms(1-4) assms(6) assms(6) assms(6)] loadWithoutPointer_def
  using preparedRecovery_diverges [OF assms(1,3-5)] by (simp add: journalOf_def returnIO_def)

lemma commit_locked:
  assumes "hash_ok L" "isHex 32 gj" "isHex 32 gp" "length ps = length (so_components options)" "gp \<noteq> gj" "\<And>k. f k = Works"
  shows "\<exists>e k. commitStore L options nextGeneration values (device (pendingDisk L options ps gj gp) f n) =
    (Thrown e, device (pendingDisk L options ps gj gp) f k)"
proof (cases "sortBy compareText (map fst values) = sortBy compareText (map cd_name (so_components options))")
  case True
  then show ?thesis
    using load_locked [OF assms] by (auto simp: commitStore_def sameKeys_iff bindIO_def liftIO_def returnIO_def throwIO_def)
qed (auto simp: commitStore_def sameKeys_iff bindIO_def liftIO_def throwIO_def)

lemma unique_first: "isHex 32 g \<Longrightarrow> uniqueGeneration None (map (\<lambda>_. Inl g) [0..<8]) = Inr g"
  by (simp add: upt_rec generationText_def)

definition commitInput :: "lib \<Rightarrow> CrashConsistentStoreOptions \<Rightarrow> (string \<times> string) list \<Rightarrow> bool" where
  "commitInput L options values \<longleftrightarrow> hash_ok L \<and> validateDefinitions (so_namespace options) (so_components options) = Inr () \<and>
     sortBy compareText (map fst values) = sortBy compareText (map cd_name (so_components options))"

lemma commitInput_ready: "commitInput L options values \<Longrightarrow> isHex 32 g \<Longrightarrow> commitReady L options values g None"
  using validateDefinitions_distinct names_agree unfolding commitInput_def commitReady_def by fastforce

text \<open>A commit on an empty store, from the first write on\<close>

lemma commit_after_load:
  assumes "commitInput L options values" "isHex 32 g" "loadStore L options d = (Done (LoadEmpty recovery cleanup), d')"
  shows "commitStore L options (\<lambda>_. Inl g) values d = commitGeneration L options values None g d'"
  using assms unique_first [OF assms(2)]
  by (simp add: commitInput_def commitStore_def sameKeys_iff bindIO_def liftIO_def returnIO_def)

lemma first_component:
  assumes "commitInput L options values"
  obtains c rest v where "partsOf L options values g = c # rest" "storeComponent g values c = storageSet (mf_area c) (mf_key c) v"
proof -
  obtain def defs where d: "so_components options = def # defs"
    using validateDefinitions_distinct assms by (cases "so_components options") (auto simp: commitInput_def)
  then obtain p where "map_of values (cd_name def) = Some p"
    using names_agree [of "values" options def] assms by (auto simp: commitInput_def)
  with d show thesis
    by (intro that [of "componentOf L (so_namespace options) g def p" _ "JSON_stringify (envelopeJson g (cd_name def) p)"])
      (simp_all add: payloadsOf_def storeComponent_def componentOf_def)
qed

lemma first_interrupted:
  assumes "commitInput L options values" "isHex 32 g"
  shows "commitStore L options (\<lambda>_. Inl g) values (device blank (rejectsAt [5]) 0) =
    (Thrown (JsError ''storage''), device (pendingDisk L options (payloadsOf options values) g g) (rejectsAt [5]) 6)"
proof -
  have load: "loadStore L options (device blank (rejectsAt [5]) 0) = (Done (LoadEmpty RecoveryClean False), device blank (rejectsAt [5]) 3)"
    using load_blank [of "rejectsAt [5]" 0] by (simp add: rejectsAt_simps)
  obtain c rest v where c: "partsOf L options values g = c # rest" "storeComponent g values c = storageSet (mf_area c) (mf_key c) v"
    by (rule first_component [OF assms(1), of g])
  show ?thesis
    unfolding commit_after_load [OF assms load] commit_fresh [OF commitInput_ready [OF assms]] c(1) foldIO.simps
    by (simp add: bindIO_def run_set rejectsAt_simps c(2) pendingDisk_def)
qed

lemma second_interrupted:
  assumes "commitInput L options values" "isHex 32 g1" "isHex 32 g2"
  shows "commitStore L options (\<lambda>_. Inl g2) values (device (pendingDisk L options (payloadsOf options values) g1 g1) (rejectsAt [3, 6]) 0) =
    (Thrown (JsError ''storage''), device (pendingDisk L options (payloadsOf options values) g1 g2) (rejectsAt [3, 6]) 7)"
proof -
  let ?ps = "payloadsOf options values" and ?f = "rejectsAt [3, 6]"
  let ?x = "writeDisk PublicArea (preparedKey options) None (pendingDisk L options ?ps g1 g1)"
  have hash: "hash_ok L" using assms(1) by (simp add: commitInput_def)
  have roll: "preparedRecovery options (Some (journalOf (so_namespace options) None (Some g1))) (preparedText L options g1 ?ps) = Inr RolledBackPrepared"
    by (rule preparedRecovery_rollback [OF hash assms(2)]) (simp_all add: journalOf_def)
  have "loadStore L options (device (pendingDisk L options ?ps g1 g1) ?f 0) =
      loadWithoutPointer options (Some (journalOf (so_namespace options) None (Some g1))) (Some (preparedText L options g1 ?ps))
        (device (pendingDisk L options ?ps g1 g1) ?f (0 + 3))"
    by (rule load_pending [OF hash assms(2,2)]) (simp_all add: rejectsAt_simps)
  then have load: "loadStore L options (device (pendingDisk L options ?ps g1 g1) ?f 0) =
      (Done (LoadEmpty RolledBackPrepared True), device ?x ?f 5)"
    using roll by (simp add: loadWithoutPointer_def journalOf_def bindIO_def run_remove rejectsAt_simps returnIO_def)
  have "writeDisk PublicArea (preparedKey options) (Some (preparedText L options g2 ?ps)) ?x = pendingDisk L options ?ps g1 g2"
    by (intro ext) (auto simp: pendingDisk_def blank_def)
  then show ?thesis
    unfolding commit_after_load [OF assms(1,3) load] commit_fresh [OF commitInput_ready [OF assms(1,3)]]
    by (simp add: bindIO_def run_set rejectsAt_simps)
qed

text \<open>
  C40: two interrupted first commits can lock a store for good. A write is rejected in
  the first commit after the journal; in the second commit the protected area rejects (the removal of that
  journal, which is passed over, and the new journal). From then on every load reports corruption
  and every commit of any values fails, and both change nothing, although the device works and nothing
  was ever committed.
\<close>

theorem rejected_rollback_locks_the_store:
  assumes "commitInput L options values" "isHex 32 g1" "isHex 32 g2" "g1 \<noteq> g2"
  shows "\<exists>d1 d2 e1 e2. commitStore L options (\<lambda>_. Inl g1) values (device blank (rejectsAt [5]) 0) = (Thrown e1, d1) \<and>
    commitStore L options (\<lambda>_. Inl g2) values (device (contents d1) (rejectsAt [3, 6]) 0) = (Thrown e2, d2) \<and>
    (\<forall>nextGeneration values' n. \<exists>e d'. commitStore L options nextGeneration values' (device (contents d2) (\<lambda>_. Works) n) = (Thrown e, d') \<and>
       contents d' = contents d2) \<and>
    (\<forall>n. \<exists>d'. loadStore L options (device (contents d2) (\<lambda>_. Works) n) =
         (Done (LoadCorrupt ''manifesto preparado diverge da geracao protegida pendente''), d') \<and> contents d' = contents d2)"
proof -
  have hash: "hash_ok L" using assms(1) by (simp add: commitInput_def)
  have load: "\<exists>d'. loadStore L options (device (pendingDisk L options (payloadsOf options values) g1 g2) (\<lambda>_. Works) n) =
      (Done (LoadCorrupt ''manifesto preparado diverge da geracao protegida pendente''), d') \<and>
      contents d' = pendingDisk L options (payloadsOf options values) g1 g2" for n
    by (subst load_locked [OF hash assms(2,3) length_payloadsOf]) (use assms(4) in auto)
  have locked: "\<exists>e d'. commitStore L options nextGeneration values'
      (device (pendingDisk L options (payloadsOf options values) g1 g2) (\<lambda>_. Works) n) = (Thrown e, d') \<and>
      contents d' = pendingDisk L options (payloadsOf options values) g1 g2" for nextGeneration values' n
  proof -
    have "\<exists>e k. commitStore L options nextGeneration values' (device (pendingDisk L options (payloadsOf options values) g1 g2) (\<lambda>_. Works) n) =
        (Thrown e, device (pendingDisk L options (payloadsOf options values) g1 g2) (\<lambda>_. Works) k)"
      by (rule commit_locked [OF hash assms(2,3) length_payloadsOf]) (use assms(4) in auto)
    then show ?thesis by auto
  qed
  with load first_interrupted [OF assms(1,2)] second_interrupted [OF assms(1-3)] show ?thesis by fastforce
qed

lemma sampleInput: "commitInput sampleLib sampleStore sampleValues"
  using sampleStore_valid by (simp add: commitInput_def sampleStore_def sampleValues_def compareText_def)

lemma sampleGenerations: "isHex 32 (sampleGeneration b)" "sampleGeneration 1 \<noteq> sampleGeneration 2"
proof -
  show "isHex 32 (sampleGeneration b)" by (simp add: sampleGeneration_def isHex_def bytesToHex_digits del: list.set)
  show "sampleGeneration 1 \<noteq> sampleGeneration 2" by (simp add: sampleGeneration_def)
qed

theorem rejected_rollback_locks_the_store_witness:
  "\<exists>d1 d2 e1 e2. commitStore sampleLib sampleStore (\<lambda>_. Inl (sampleGeneration 1)) sampleValues (device blank (rejectsAt [5]) 0) = (Thrown e1, d1) \<and>
    commitStore sampleLib sampleStore (\<lambda>_. Inl (sampleGeneration 2)) sampleValues (device (contents d1) (rejectsAt [3, 6]) 0) = (Thrown e2, d2) \<and>
    (\<exists>e. fst (commitStore sampleLib sampleStore (\<lambda>_. Inl (sampleGeneration 3)) sampleValues (device (contents d2) (\<lambda>_. Works) 0)) = Thrown e) \<and>
    (\<exists>reason. fst (loadStore sampleLib sampleStore (device (contents d2) (\<lambda>_. Works) 0)) = Done (LoadCorrupt reason))"
  using rejected_rollback_locks_the_store [OF sampleInput sampleGenerations(1) sampleGenerations(1) sampleGenerations(2)]
  by (metis fst_conv)

section \<open>A committed sample\<close>

definition sampleDisk :: disk where
  "sampleDisk = (let g = sampleGeneration 1 in
     writeDisk PublicArea (committedKey sampleStore)
       (Some (JSON_stringify (manifestJson (manifestOf sampleLib sampleStore g [''{}'', ''00''] CommittedPhase))))
     (writeDisk ProtectedArea (protectedJournalKey sampleStore) (Some (journalAfter sampleStore g))
     (writeDisk PublicArea (componentKey (so_namespace sampleStore) g ''branch-state'') (Some (JSON_stringify (envelopeJson g ''branch-state'' ''{}'')))
     (writeDisk ProtectedArea (componentKey (so_namespace sampleStore) g ''device-secret'') (Some (JSON_stringify (envelopeJson g ''device-secret'' ''00'')))
       blank))))"

lemma sampleDisk_stored:
  "snapshotStored sampleLib sampleStore sampleDisk (sampleGeneration 1) [''{}'', ''00'']"
  "journalIs sampleStore sampleDisk (Some (sampleGeneration 1)) None" "sampleDisk PublicArea (preparedKey sampleStore) = None"
proof -
  have keys: "so_components sampleStore = [\<lparr>cd_name = ''branch-state'', cd_area = PublicArea\<rparr>, \<lparr>cd_name = ''device-secret'', cd_area = ProtectedArea\<rparr>]"
    by (simp add: sampleStore_def)
  show "snapshotStored sampleLib sampleStore sampleDisk (sampleGeneration 1) [''{}'', ''00'']"
    by (simp add: snapshotStored_def keys sampleGenerations sampleDisk_def Let_def componentKey_inject)
  show "journalIs sampleStore sampleDisk (Some (sampleGeneration 1)) None"
    by (simp add: journalIs_def generationOk_def sampleGenerations sampleDisk_def Let_def journalAfter_def journalOf_def)
  show "sampleDisk PublicArea (preparedKey sampleStore) = None"
    by (simp add: sampleDisk_def Let_def blank_def)
qed

lemma sampleDisk_loads:
  "loadStore sampleLib sampleStore (device sampleDisk (\<lambda>_. Works) 0) =
    (Done (LoadCommitted (sampleGeneration 1) [(''branch-state'', ''{}''), (''device-secret'', ''00'')] RecoveryClean False),
     device sampleDisk (\<lambda>_. Works) 5)"
proof -
  let ?g = "sampleGeneration 1" and ?ps = "[''{}'', ''00'']"
  let ?b = "\<lparr>cd_name = ''branch-state'', cd_area = PublicArea\<rparr>" and ?s = "\<lparr>cd_name = ''device-secret'', cd_area = ProtectedArea\<rparr>"
  let ?m = "manifestOf sampleLib sampleStore ?g ?ps CommittedPhase"
  have keys: "so_components sampleStore = [?b, ?s]" by (simp add: sampleStore_def)
  have parts: "mf_components ?m = [componentOf sampleLib (so_namespace sampleStore) ?g ?b ''{}'',
      componentOf sampleLib (so_namespace sampleStore) ?g ?s ''00'']"
    by (simp add: manifestOf_def keys)
  have journal: "parseProtectedJournal (JSON_stringify (journalJson (journalOf (so_namespace sampleStore) (Some ?g) None))) (so_namespace sampleStore) =
      Inr (journalOf (so_namespace sampleStore) (Some ?g) None)"
    by (rule parse_journal) (simp_all add: generationOk_def sampleGenerations)
  have manifest: "parseManifest (JSON_stringify (manifestJson ?m)) (so_namespace sampleStore) (so_components sampleStore) CommittedPhase = Inr ?m"
    by (rule parse_manifest) (simp_all add: sampleGenerations keys)
  have stored: "sampleDisk PublicArea (committedKey sampleStore) = Some (JSON_stringify (manifestJson ?m))"
    "sampleDisk ProtectedArea (protectedJournalKey sampleStore) =
       Some (JSON_stringify (journalJson (journalOf (so_namespace sampleStore) (Some ?g) None)))"
    "sampleDisk PublicArea (componentKey (so_namespace sampleStore) ?g ''branch-state'') = Some (JSON_stringify (envelopeJson ?g ''branch-state'' ''{}''))"
    "sampleDisk ProtectedArea (componentKey (so_namespace sampleStore) ?g ''device-secret'') = Some (JSON_stringify (envelopeJson ?g ''device-secret'' ''00''))"
    using sampleDisk_stored(1,2) by (simp_all add: snapshotStored_def journalIs_def keys)
  have component: "loadComponent sampleLib ?m (componentOf sampleLib (so_namespace sampleStore) ?g def payload) (device sampleDisk (\<lambda>_. Works) n) =
      (Done (cd_name def, payload), device sampleDisk (\<lambda>_. Works) (n + 1))"
    if "sampleDisk (cd_area def) (componentKey (so_namespace sampleStore) ?g (cd_name def)) = Some (JSON_stringify (envelopeJson ?g (cd_name def) payload))"
    for def payload n
    using that parse_component [OF sampleLib_hash, of ?g def payload sampleStore ?ps CommittedPhase "so_namespace sampleStore"]
    by (simp add: loadComponent_def run_rules) (simp add: componentOf_def run_rules)
  have gen: "mf_generation ?m = ?g" by (simp add: manifestOf_def)
  have sel: "jn_currentGeneration (journalOf ns c p) = c" "jn_pendingGeneration (journalOf ns c p) = p" for ns c p
    by (simp_all add: journalOf_def)
  show ?thesis
    using component [of ?b "''{}''"] component [of ?s "''00''"] stored sampleDisk_stored(3)
    by (simp add: loadStore_def loadCommitted_def journal manifest parts gen sel settleCommitted_def catchIO_def
        bindIO_def returnIO_def run_get numeral_eq_Suc)
qed

theorem damage_is_detected_witness:
  "\<exists>d'. loadStore sampleLib sampleStore (device sampleDisk (\<lambda>_. Works) 0) =
     (Done (LoadCommitted (sampleGeneration 1) [(''branch-state'', ''{}''), (''device-secret'', ''00'')] RecoveryClean False), d') \<and>
   authentic sampleLib sampleStore sampleDisk (sampleGeneration 1) [(''branch-state'', ''{}''), (''device-secret'', ''00'')]"
  using damage_is_detected [OF sampleDisk_loads] sampleDisk_loads by simp

end
