(* ===== verification/RecoveryTheorems.thy ===== *)
theory RecoveryTheorems
  imports PayerTheorems StorageTheorems
begin

text \<open>
  The properties that join the payer's storage, the chain and the access gate: spending offline is
  backed by the chain, provisioning is authorised and atomic, and the merchant's updates are
  atomic.
\<close>

section \<open>Recovery\<close>

lemma bindIO_Done: "bindIO m f d = (Done y, d') \<longleftrightarrow> (\<exists>x d1. m d = (Done x, d1) \<and> f x d1 = (Done y, d'))"
  by (auto simp: bindIO_def split: prod.splits outcome.splits)

lemma liftIO_Done: "liftIO r d = (Done y, d') \<longleftrightarrow> r = Inr y \<and> d' = d"
  by (cases r) (auto simp: liftIO_def throwIO_def returnIO_def)

lemma returnIO_Done: "returnIO x d = (Done y, d') \<longleftrightarrow> y = x \<and> d' = d"
  by (auto simp: returnIO_def)

lemmas run_done = bindIO_Done liftIO_Done returnIO_Done

lemma restoreSnapshot_Some:
  "restoreSnapshot L env sn = (Some s, e) \<Longrightarrow> \<exists>pj bj sk. restoreOnchainSession L pj bj sk env = Inr s"
  by (auto simp: restoreSnapshot_def Let_def split: if_splits sum.splits)

lemma evaluate_ready:
  assumes "evaluatePayerRecovery L input load fetch d = (Done r, d')" "sad_outcome (rr_decision r) = OfflineReady"
  shows "\<exists>s pj bj sk. rr_restoredSession r = Some s \<and> restoreOnchainSession L pj bj sk (ri_expectedEnvironment input) = Inr s \<and>
    (ri_connected input \<longrightarrow> (\<exists>st w. fetch (lp_owner (ro_localProvisioning s)) = Inr st \<and> rr_authoritative r = Some st \<and>
      sad_outcome (decideSessionAccess \<lparr>sai_connected = True, sai_local = Some (ro_localProvisioning s),
        sai_authoritative = Some st, sai_walletAuthorizationConfirmed = w\<rparr>) = OfflineReady))"
proof -
  obtain sn d1 where load: "load d = (Done sn, d1)" and
    rest: "(case restoreSnapshot L (ri_expectedEnvironment input) sn of (restored, error) \<Rightarrow>
      if \<not> ri_connected input then
        (let verdict = decideSessionAccess \<lparr>sai_connected = False, sai_local = map_option ro_localProvisioning restored,
               sai_authoritative = None, sai_walletAuthorizationConfirmed = False\<rparr>
         in returnIO \<lparr>rr_decision = verdict, rr_restoredSession = (if sad_outcome verdict = OfflineReady then restored else None),
           rr_localValidationError = error, rr_authoritative = None\<rparr>)
      else liftIO (bindE (walletOwner (ri_walletOwnerHex input)) (decideOnline fetch restored error))) d1 = (Done r, d')"
    using assms(1) unfolding evaluatePayerRecovery_def restoreLocal_def run_done by blast
  obtain restored error where sn: "restoreSnapshot L (ri_expectedEnvironment input) sn = (restored, error)" by force
  show ?thesis
  proof (cases "ri_connected input")
    case False
    with rest sn assms(2) have "isCompleteLocalRecord (map_option ro_localProvisioning restored) \<and> rr_restoredSession r = restored"
      by (auto simp: Let_def returnIO_Done gate_ready)
    with restoreSnapshot_Some sn False show ?thesis
      by (cases restored) (auto simp: isCompleteLocalRecord_def)
  next
    case True
    with rest sn obtain w where w: "decideOnline fetch restored error w = Inr r" by (auto simp: liftIO_Done bindE_Inr_iff)
    show ?thesis
    proof (cases restored)
      case None
      with w assms(2) show ?thesis
        by (auto simp: decideOnline_def Let_def decision_def bindE_Inr_iff gate_ready isCompleteLocalRecord_def split: option.splits if_splits)
    next
      case (Some s)
      with w assms(2) have "\<exists>st. fetch (lp_owner (ro_localProvisioning s)) = Inr st \<and> rr_authoritative r = Some st \<and> rr_restoredSession r = Some s \<and>
          sad_outcome (decideSessionAccess \<lparr>sai_connected = True, sai_local = Some (ro_localProvisioning s),
            sai_authoritative = Some st, sai_walletAuthorizationConfirmed = (w \<noteq> None)\<rparr>) = OfflineReady"
        by (auto simp: decideOnline_def Let_def decision_def bindE_Inr_iff split: if_splits)
      with restoreSnapshot_Some sn Some show ?thesis by blast
    qed
  qed
qed

text \<open>The chain shows the session \<open>s\<close> of this device active, with access enabled.\<close>

definition activeOnChain ::
  "bytes \<Rightarrow> (bytes \<Rightarrow> bytes) \<Rightarrow> (bytes \<Rightarrow> int option \<Rightarrow> ConfirmedProgramAccount option result) \<Rightarrow> RestoredOnchainSession \<Rightarrow> bool" where
  "activeOnChain program pda reader s \<longleftrightarrow>
    (let cert = rt_sessionCertificate (rp_runtime s) in
     \<exists>slot profileData p slot' sessionData session.
       answers reader program (pda (sc_owner cert)) None slot profileData \<and> decodeUserProfile profileData = Inr p \<and>
       up_owner p = sc_owner cert \<and> up_offlineAccessEnabled p \<and>
       bytesToHex (up_activeSession p) = lp_sessionAccount (ro_localProvisioning s) \<and>
       answers reader program (up_activeSession p) (Some slot) slot' sessionData \<and> slot \<le> slot' \<and>
       decodeOfflineSession sessionData = Inr session \<and> os_status session = SessionActive \<and>
       os_sessionId session = sc_sessionId cert \<and> os_owner session = sc_owner cert \<and>
       os_devicePublicKey session = sc_devicePublicKey cert)"

lemma accessStatus_active: "accessStatus s = StatusActive \<longleftrightarrow> s = SessionActive"
  by (cases s) simp_all

text \<open>
  C12: whenever the recovery reports that the payer may spend offline, it hands out a
  sound restored session of this deployment; and with a connection, the chain itself shows that
  session, with this owner and device key, active and its profile with access enabled.
\<close>

theorem spending_is_backed:
  assumes "borsh_ok L" "evaluatePayerRecovery L input load (fetchConfirmedRecovery program pda reader) d = (Done r, d')"
    "sad_outcome (rr_decision r) = OfflineReady"
  shows "\<exists>s. rr_restoredSession r = Some s \<and> soundSession L (ri_expectedEnvironment input) s \<and>
    (ri_connected input \<longrightarrow> activeOnChain program pda reader s)"
proof -
  obtain s pj bj sk where s: "rr_restoredSession r = Some s" "restoreOnchainSession L pj bj sk (ri_expectedEnvironment input) = Inr s"
    and online: "ri_connected input \<Longrightarrow> \<exists>st w. fetchConfirmedRecovery program pda reader (lp_owner (ro_localProvisioning s)) = Inr st \<and>
      sad_outcome (decideSessionAccess \<lparr>sai_connected = True, sai_local = Some (ro_localProvisioning s),
        sai_authoritative = Some st, sai_walletAuthorizationConfirmed = w\<rparr>) = OfflineReady"
    using evaluate_ready [OF assms(2,3)] by blast
  have sound: "soundSession L (ri_expectedEnvironment input) s" by (rule restore_sound [OF assms(1) s(2)])
  let ?cert = "rt_sessionCertificate (rp_runtime s)"
  obtain account where loc: "ro_localProvisioning s = \<lparr>lp_source = OnChainSource, lp_provisioningConfirmed = True,
       lp_sessionAccount = account, lp_sessionId = bytesToHex (sc_sessionId ?cert),
       lp_branchStateSessionId = bytesToHex (sc_sessionId ?cert), lp_owner = bytesToHex (sc_owner ?cert),
       lp_certificateOwner = bytesToHex (sc_owner ?cert), lp_devicePublicKey = bytesToHex (sc_devicePublicKey ?cert),
       lp_certificateDevicePublicKey = bytesToHex (sc_devicePublicKey ?cert),
       lp_protectedDeviceKeyPublicKey = Some (bytesToHex (sc_devicePublicKey ?cert)), lp_branchStatePresent = True\<rparr>"
    using sound unfolding soundSession_def Let_def by blast
  have "activeOnChain program pda reader s" if connected: "ri_connected input"
  proof -
    obtain st w where st: "chainShows program pda reader (sc_owner ?cert) st" and
      ready: "sad_outcome (decideSessionAccess \<lparr>sai_connected = True, sai_local = Some (ro_localProvisioning s),
        sai_authoritative = Some st, sai_walletAuthorizationConfirmed = w\<rparr>) = OfflineReady"
      using online [OF connected] unfolding loc LocalProvisioningRecord.select_convs fetch_iff by blast
    have a: "ar_offlineAccessEnabled st" "ar_activeSessionAccount st = Some account" "ar_sessionId st = Some (bytesToHex (sc_sessionId ?cert))"
      "ar_sessionOwner st = Some (bytesToHex (sc_owner ?cert))" "ar_sessionDevicePublicKey st = Some (bytesToHex (sc_devicePublicKey ?cert))"
      "ar_sessionStatus st = Some StatusActive"
      using ready unfolding gate_ready by (auto simp: loc)
    have "\<And>p. st \<noteq> freeState p" using a(2) by (auto simp: freeState_def)
    then obtain slot pd p slot' sd session where c: "answers reader program (pda (sc_owner ?cert)) None slot pd" "decodeUserProfile pd = Inr p"
      "up_owner p = sc_owner ?cert" "answers reader program (up_activeSession p) (Some slot) slot' sd" "slot \<le> slot'"
      "decodeOfflineSession sd = Inr session" "st = activeState p session"
      using st unfolding chainShows_def by (metis (full_types))
    then have "up_offlineAccessEnabled p" "bytesToHex (up_activeSession p) = lp_sessionAccount (ro_localProvisioning s)"
      "os_status session = SessionActive" "os_sessionId session = sc_sessionId ?cert" "os_owner session = sc_owner ?cert"
      "os_devicePublicKey session = sc_devicePublicKey ?cert"
      using a by (auto simp: activeState_def loc accessStatus_active)
    with c show ?thesis unfolding activeOnChain_def Let_def by blast
  qed
  with s(1) sound show ?thesis by blast
qed

definition sampleRecoveryInput :: PayerRecoveryControllerInput where
  "sampleRecoveryInput = \<lparr>ri_connected = True, ri_walletOwnerHex = None, ri_expectedEnvironment = environmentOf sampleContext\<rparr>"

theorem spending_is_backed_witness:
  "\<exists>ps r s. fst (evaluatePayerRecovery sampleLib sampleRecoveryInput (returnIO (payerSnapshot ps))
      (fetchConfirmedRecovery (replicate 32 2) samplePda sampleReader) dyingDevice) = Done r \<and>
    rr_restoredSession r = Some s \<and> activeOnChain (replicate 32 2) samplePda sampleReader s"
proof -
  obtain ps s where s: "restoreAll sampleLib ps (environmentOf sampleContext) = Inr s" "rp_runtime s = sampleRuntime"
    "lp_sessionAccount (ro_localProvisioning s) = bytesToHex (replicate 32 21)"
    by (rule sampleStored)
  have sound: "soundSession sampleLib (environmentOf sampleContext) s"
    by (rule restore_sound [OF sampleLib_borsh]) (rule s(1) [unfolded restoreAll_def])
  have loc: "lp_sessionId (ro_localProvisioning s) = bytesToHex (replicate 32 3)" "lp_owner (ro_localProvisioning s) = bytesToHex (replicate 32 5)"
    "lp_devicePublicKey (ro_localProvisioning s) = bytesToHex (replicate 32 6)"
    using sound unfolding soundSession_def Let_def by (simp_all add: s(2) sampleRuntime_def) (metis LocalProvisioningRecord.select_convs)+
  have complete: "isCompleteLocalRecord (Some (ro_localProvisioning s))" by (rule sound_complete [OF sampleLib_borsh sound])
  let ?fetch = "fetchConfirmedRecovery (replicate 32 2) samplePda sampleReader" and ?st = "activeState sampleProfile sampleSession"
  have fetched: "?fetch (bytesToHex (replicate 32 5)) = Inr ?st" using sampleChain fetch_iff by blast
  have state: "ar_confirmed ?st" "ar_offlineAccessEnabled ?st" "ar_activeSessionAccount ?st = Some (bytesToHex (replicate 32 21))"
    "ar_sessionId ?st = Some (bytesToHex (replicate 32 3))" "ar_profileOwner ?st = bytesToHex (replicate 32 5)"
    "ar_sessionOwner ?st = Some (bytesToHex (replicate 32 5))" "ar_sessionDevicePublicKey ?st = Some (bytesToHex (replicate 32 6))"
    "ar_sessionStatus ?st = Some StatusActive" "authoritativeBindingIsComplete ?st"
    by (simp_all add: activeState_def sampleProfile_def sampleSession_def authoritativeBindingIsComplete_def del: bytesToHex_simps)
  have ready: "sad_outcome (decideSessionAccess \<lparr>sai_connected = True, sai_local = Some (ro_localProvisioning s),
      sai_authoritative = Some ?st, sai_walletAuthorizationConfirmed = w\<rparr>) = OfflineReady" for w
    unfolding gate_ready using complete state loc s(3) by simp
  have snapshot: "restoreSnapshot sampleLib (environmentOf sampleContext) (payerSnapshot ps) = (Some s, None)"
    using s(1) by (simp add: restoreSnapshot_def payerSnapshot_def hasCompleteOnchainStorage_def restoreAll_def)
  obtain r where run: "evaluatePayerRecovery sampleLib sampleRecoveryInput (returnIO (payerSnapshot ps)) ?fetch dyingDevice = (Done r, dyingDevice)"
    and r: "sad_outcome (rr_decision r) = OfflineReady"
    using ready [of False] loc(2) fetched
    by (simp add: evaluatePayerRecovery_def restoreLocal_def sampleRecoveryInput_def bindIO_def returnIO_def snapshot walletOwner_def
        decideOnline_def Let_def liftIO_def)
  have "ri_connected sampleRecoveryInput" by (simp add: sampleRecoveryInput_def)
  with spending_is_backed [OF sampleLib_borsh run r] obtain t where
    "rr_restoredSession r = Some t \<and> activeOnChain (replicate 32 2) samplePda sampleReader t" by blast
  moreover have "fst (evaluatePayerRecovery sampleLib sampleRecoveryInput (returnIO (payerSnapshot ps)) ?fetch dyingDevice) = Done r"
    by (simp add: run)
  ultimately show ?thesis by blast
qed

section \<open>Provisioning\<close>

text \<open>The certificate says what the registered session says.\<close>

definition certifies :: "ConfirmedProvisioningSession \<Rightarrow> SessionCertificate \<Rightarrow> bool" where
  "certifies f cert \<longleftrightarrow> sc_sessionId cert = cs_sessionId f \<and> sc_owner cert = cs_owner f \<and> sc_devicePublicKey cert = cs_devicePublicKey f \<and>
    sc_vault cert = cs_vault f \<and> sc_tokenMint cert = cs_tokenMint f \<and> sc_genesisStateHash cert = cs_genesisStateHash f \<and>
    sc_deviceAuthorizationHash cert = cs_deviceAuthorizationHash f \<and> sc_identityAttestationHash cert = cs_identityAttestationHash f \<and>
    sc_collateralLocked cert = cs_collateralLocked f \<and> sc_branchSpendingLimit cert = cs_branchSpendingLimit f \<and>
    sc_collateralCoverageCap cert = cs_collateralCoverageCap f \<and> sc_maxBranchDepth cert = cs_maxBranchDepth f \<and>
    sc_issuedAt cert = cs_issuedAt f \<and> sc_expiresAt cert = cs_expiresAt f \<and>
    sc_claimSubmissionDeadline cert = cs_claimSubmissionDeadline f \<and> cs_contextSlot f \<le> sc_finalizedSlot cert"

lemma assertCertificate_iff: "assertCertificate f cert = Inr () \<longleftrightarrow> certifies f cert"
  by (auto simp: assertCertificate_def assertEqual_def bindE_Inr_iff certifies_def)

lemma prepared:
  assumes "prepareSession L ports env request owner = Inr (pp, ps)"
  obtains sid key secret nonce created authorization registered signature where
    "createPersistedOnchainSession L \<lparr>pi_sessionAccount = pp_sessionAccount pp, pi_runtime = pp_runtime pp, pi_parent = None,
      pi_frames = None, pi_pendingDelivery = None\<rparr> = Inr ps"
    "derivePublicKey L secret = Inr key" "owner \<noteq> key"
    "assertCreatedFacts created (NewOfflineSessionRequest.extend request (CreateSessionInput.fields owner sid key)) (pp_sessionAccount pp) = Inr ()"
    "registerSession L ports (payerTrustContext env sid) (NewOfflineSessionRequest.extend request (CreateSessionInput.fields owner sid key))
      (pp_sessionAccount pp) created nonce = Inr (authorization, registered, signature)"
    "certifySession L ports (payerTrustContext env sid) (NewOfflineSessionRequest.extend request (CreateSessionInput.fields owner sid key))
      secret (pp_sessionAccount pp) authorization registered = Inr (pp_runtime pp)"
  using assms unfolding prepareSession_def bindE_Inr_iff ex_unit Let_def split_paired_Ex prod.case failIf_Inr_iff equalBytes_eq
  by (elim exE conjE) (rule that, auto)

lemma certified:
  assumes "certifySession L ports cx input secret account authorization registered = Inr runtime"
  shows "rt_deviceAuthorization runtime = authorization" "rt_trustContext runtime = cx" "certifies registered (rt_sessionCertificate runtime)"
    "validateCertificateChain L cx (rt_sessionCertificate runtime) authorization = Inr ()"
    "rt_initialParent runtime = genesisParent (rt_sessionCertificate runtime)"
  using assms by (auto simp: certifySession_def bindE_Inr_iff assertCertificate_iff assertEqual_def genesisParent_def certifies_def)

lemma registered:
  assumes "registerSession L ports cx input account created nonce = Inr (authorization, registered, signature)"
  shows "confirmAndFetchSession ports 1 signature account = Inr registered"
    "deviceAuthorizationHash L authorization = Inr (cs_deviceAuthorizationHash registered)" "assertSameSession created registered = Inr ()"
  using assms by (auto simp: registerSession_def bindE_Inr_iff Let_def assertEqual_def)

text \<open>The stored session restores to the runtime that was provisioned, with nothing spent.\<close>

definition provisionedAs :: "lib \<Rightarrow> OfflineTrustEnvironment \<Rightarrow> PersistedOnchainSession \<Rightarrow> PayerSessionRuntime \<Rightarrow> bool" where
  "provisionedAs L env ps runtime \<longleftrightarrow> (\<exists>s. restoreAll L ps env = Inr s \<and> rp_runtime s = runtime \<and>
    rp_parent s = genesisParent (rt_sessionCertificate runtime) \<and> rp_credentials s = [] \<and> rp_outgoingFrames s = [])"

lemma environmentOf_payerTrust: "environmentOf (payerTrustContext env sid) = env"
  by (cases env) (simp add: environmentOf_def payerTrustContext_def)

lemma prepared_restores:
  assumes "borsh_ok L" "hash_ok L" "prepareSession L ports env request owner = Inr (pp, ps)"
  shows "provisionedAs L env ps (pp_runtime pp)"
proof -
  let ?i = "\<lparr>pi_sessionAccount = pp_sessionAccount pp, pi_runtime = pp_runtime pp, pi_parent = None, pi_frames = None, pi_pendingDelivery = None\<rparr>"
  let ?cert = "rt_sessionCertificate (pp_runtime pp)"
  obtain sid key secret authorization registered input where created: "createPersistedOnchainSession L ?i = Inr ps" and
    cert: "certifySession L ports (payerTrustContext env sid) input secret (pp_sessionAccount pp) authorization registered = Inr (pp_runtime pp)"
    using prepared [OF assms(3)] by metis
  obtain payments where payments: "storable L ?i payments" using persisted_storable [OF assms(1) created] by blast
  note c = certified [OF cert]
  have i: "pi_runtime ?i = pp_runtime pp" "storedParent ?i = genesisParent ?cert" "storedFrames ?i = []" by (simp_all add: storedParent_def storedFrames_def c(5))
  have "payments = []" using payments by (simp add: storable_def Let_def provenBy_def storedFrames_def)
  moreover have "(pp_runtime pp)\<lparr>rt_initialParent := genesisParent ?cert\<rparr> = pp_runtime pp" by (cases "pp_runtime pp") (use c(5) in simp)
  moreover have "environmentOf (rt_trustContext (pp_runtime pp)) = env" by (simp add: c(2) environmentOf_payerTrust)
  ultimately show ?thesis using stored_restores [OF assms(1,2) payments created] unfolding provisionedAs_def i by auto
qed

lemma triple_provision:
  assumes "borsh_ok L" "hash_ok L" "readsOnly legacy" "payerHolds L v x"
  shows "triple F ((=) x) (provisionNewPayerSession L ports request env (loadPayer L legacy) (commitPayer L nextGeneration) fetch)
    (\<lambda>pp y. \<exists>ps. payerHolds L (Some ps) y \<and> provisionedAs L env ps (pp_runtime pp))
    (\<lambda>y. payerKeeps F L v y \<or> (\<exists>ps runtime. payerHolds L (Some ps) y \<and> provisionedAs L env ps runtime))
    (\<lambda>y. payerKeeps F L v y \<or> (\<exists>ps runtime. payerHolds L (Some ps) y \<and> provisionedAs L env ps runtime))"
    (is "triple F _ _ ?Q ?E ?E")
proof -
  have commit: "triple F (payerHolds L v) (bindIO (persistConfirmedProvisioning (commitPayer L nextGeneration) ps) (\<lambda>_. returnIO pp)) ?Q ?E ?E"
    if "prepareSession L ports env request owner = Inr (pp, ps)" for owner pp ps
  proof (rule triple_pre)
    fix y assume y: "payerHolds L v y"
    have ps: "provisionedAs L env ps (pp_runtime pp)" by (rule prepared_restores [OF assms(1,2) that])
    have "triple F ((=) y) (commitPayer L nextGeneration ps) (\<lambda>_. payerHolds L (Some ps)) ?E ?E"
      by (rule triple_weaken [OF triple_commitPayer [OF assms(2) y]]) (use ps in auto)
    then show "triple F ((=) y) (bindIO (persistConfirmedProvisioning (commitPayer L nextGeneration) ps) (\<lambda>_. returnIO pp)) ?Q ?E ?E"
      unfolding persistConfirmedProvisioning_def by (rule triple_bind) (use ps in \<open>auto intro: triple_return\<close>)
  qed
  have prepare: "triple F (payerHolds L v) (bindIO (liftIO (prepareSession L ports env request owner)) (\<lambda>(provisioned, persisted).
      bindIO (persistConfirmedProvisioning (commitPayer L nextGeneration) persisted) (\<lambda>_. returnIO provisioned))) ?Q ?E ?E" for owner
  proof (rule triple_bind [where M = "\<lambda>u y. prepareSession L ports env request owner = Inr u \<and> payerHolds L v y"])
    fix u show "triple F (\<lambda>y. prepareSession L ports env request owner = Inr u \<and> payerHolds L v y)
      (case u of (provisioned, persisted) \<Rightarrow> bindIO (persistConfirmedProvisioning (commitPayer L nextGeneration) persisted) (\<lambda>_. returnIO provisioned)) ?Q ?E ?E"
      using commit [of owner] by (cases u) (auto simp: triple_def)
  qed (rule triple_lift, auto intro: holds_keeps)
  have evaluate: "triple F ((=) x) (evaluatePayerRecovery L input (loadPayer L legacy) fetch) (\<lambda>_. payerHolds L v) ?E ?E" for input
    by (rule triple_weaken [OF triple_evaluate [OF assms(2-4)]]) (auto intro: holds_keeps)
  have check: "triple F (payerHolds L v) (liftIO r) (\<lambda>_. payerHolds L v) ?E ?E" for r :: "unit result"
    by (rule triple_lift) (auto intro: holds_keeps)
  show ?thesis unfolding provisionNewPayerSession_def
    by (rule triple_bind [where M = "\<lambda>_. (=) x"], rule triple_lift, simp, use assms(4) holds_keeps in blast,
        rule triple_bind [where M = "\<lambda>_. (=) x"], rule triple_lift, simp, use assms(4) holds_keeps in blast,
        rule triple_bind [OF evaluate], rule triple_bind [OF check], rule prepare)
qed

text \<open>
  C18: provisioning a session is atomic. Whatever the ports answer and wherever the
  device fails, the payer's store holds afterwards exactly what it held before, or a new session
  that restores with nothing spent; when the call returns, it is the session it returned. The one
  other outcome is of the first session of an installation, on a device that rejects an access: then
  the call did not return and nothing is committed, so no session can be restored from the store.
\<close>

theorem provisioning_is_atomic:
  assumes "borsh_ok L" "hash_ok L" "readsOnly legacy" "payerHolds L v (contents d)"
    "provisionNewPayerSession L ports request env (loadPayer L legacy) (commitPayer L nextGeneration) fetch d = (r, d')"
  shows "case r of
      Done pp \<Rightarrow> \<exists>ps. payerHolds L (Some ps) (contents d') \<and> provisionedAs L env ps (pp_runtime pp)
    | _ \<Rightarrow> payerHolds L v (contents d') \<or> (\<exists>ps runtime. payerHolds L (Some ps) (contents d') \<and> provisionedAs L env ps runtime) \<or>
        v = None \<and> \<not> neverRejects d \<and> uncommitted L payerStore (contents d')"
  using run_triple [OF triple_provision [OF assms(1-4)] assms(5)] not_rejecting [of d] unfolding keepsValue_def by (cases r) auto

text \<open>Ports whose wallet refuses.\<close>

definition refusingPorts :: ProvisioningPorts where
  "refusingPorts = \<lparr>authorizeOwner = Inl (JsError ''refused''), createOfflineSession = (\<lambda>_. Inl (JsError ''refused'')),
     signDeviceAuthorizationMessage = (\<lambda>_ _. Inl (JsError ''refused'')), registerDeviceAuthorization = (\<lambda>_ _ _. Inl (JsError ''refused'')),
     confirmAndFetchSession = (\<lambda>_ _ _. Inl (JsError ''refused'')), issueCertificate = (\<lambda>_ _. Inl (JsError ''refused'')),
     random32 = (\<lambda>_. Inl (JsError ''refused''))\<rparr>"

theorem provisioning_is_atomic_witness:
  "\<exists>d'. snd (provisionNewPayerSession sampleLib refusingPorts \<lparr>nr_collateralLocked = 300, nr_branchSpendingLimit = 100, nr_expiresAt = 11800\<rparr>
      (environmentOf sampleContext) (loadPayer sampleLib (returnIO \<lparr>sn_provisioningJson = None, sn_branchStateJson = None, sn_deviceSecretHex = None\<rparr>))
      (commitPayer sampleLib (\<lambda>_. Inl (sampleGeneration 1))) (\<lambda>_. Inl (JsError ''offline'')) dyingDevice) = d' \<and>
    (payerHolds sampleLib None (contents d') \<or>
     (\<exists>ps runtime. payerHolds sampleLib (Some ps) (contents d') \<and> provisionedAs sampleLib (environmentOf sampleContext) ps runtime))"
proof -
  let ?legacy = "returnIO \<lparr>sn_provisioningJson = None, sn_branchStateJson = None, sn_deviceSecretHex = None\<rparr> :: PayerRecoveryStorageSnapshot io"
  obtain r d' where run: "provisionNewPayerSession sampleLib refusingPorts \<lparr>nr_collateralLocked = 300, nr_branchSpendingLimit = 100, nr_expiresAt = 11800\<rparr>
      (environmentOf sampleContext) (loadPayer sampleLib ?legacy) (commitPayer sampleLib (\<lambda>_. Inl (sampleGeneration 1))) (\<lambda>_. Inl (JsError ''offline''))
      dyingDevice = (r, d')" by force
  have "readsOnly ?legacy" by (simp add: readsOnly_def returnIO_def)
  moreover have "payerHolds sampleLib None (contents dyingDevice)" by (simp add: holdsValue_def dyingDevice_def blank_durable)
  moreover have "neverRejects dyingDevice" by (simp add: neverRejects_def dyingDevice_def)
  ultimately show ?thesis
    using provisioning_is_atomic [OF sampleLib_borsh sampleLib_hash _ _ run, of None] run by (cases r) auto
qed

lemma evaluate_new:
  assumes "evaluatePayerRecovery L \<lparr>ri_connected = True, ri_walletOwnerHex = Some ownerHex, ri_expectedEnvironment = env\<rparr> load fetch d = (Done r, d')"
    "sad_outcome (rr_decision r) = NewSessionAllowed"
  shows "\<exists>st. fetch ownerHex = Inr st \<and> ar_confirmed st \<and> ar_offlineAccessEnabled st \<and> ar_activeSessionAccount st = None"
proof -
  obtain restored error where "decideOnline fetch restored error (Some ownerHex) = Inr r"
    using assms(1)
    by (auto simp: evaluatePayerRecovery_def restoreLocal_def run_done bindE_Inr_iff walletOwner_def Let_def split: prod.splits if_splits)
  with assms(2) show ?thesis
    by (cases restored) (auto simp: decideOnline_def Let_def decision_def bindE_Inr_iff gate_new split: if_splits)
qed

text \<open>
  C27: a session is provisioned only when everything agrees. When provisioning
  returns, the confirmed chain showed the authorised owner's profile enabled and without an
  active session; the session registered on chain carries the hash of the wallet's authorization;
  and the certificate is valid for this deployment, states exactly the registered session, has the
  limits that were requested and a device key other than the wallet's.
\<close>

theorem provisioning_is_authorised:
  assumes "provisionNewPayerSession L ports request env load commit fetch d = (Done pp, d')"
  shows "let cert = rt_sessionCertificate (pp_runtime pp); auth = rt_deviceAuthorization (pp_runtime pp) in
    \<exists>owner st signature session. authorizeOwner ports = Inr owner \<and> fetch (bytesToHex owner) = Inr st \<and>
      ar_confirmed st \<and> ar_offlineAccessEnabled st \<and> ar_activeSessionAccount st = None \<and>
      confirmAndFetchSession ports 1 signature (pp_sessionAccount pp) = Inr session \<and> certifies session cert \<and>
      deviceAuthorizationHash L auth = Inr (cs_deviceAuthorizationHash session) \<and>
      validateCertificateChain L (payerTrustContext env (sc_sessionId cert)) cert auth = Inr () \<and>
      sc_owner cert = owner \<and> sc_devicePublicKey cert \<noteq> owner \<and>
      sc_collateralLocked cert = nr_collateralLocked request \<and> sc_branchSpendingLimit cert = nr_branchSpendingLimit request \<and>
      sc_expiresAt cert = nr_expiresAt request"
proof -
  obtain owner access d1 d2 ps where o: "authorizeOwner ports = Inr owner" and
    access: "evaluatePayerRecovery L \<lparr>ri_connected = True, ri_walletOwnerHex = Some (bytesToHex owner), ri_expectedEnvironment = env\<rparr> load fetch d1 = (Done access, d2)"
      "sad_outcome (rr_decision access) = NewSessionAllowed" and
    prep: "prepareSession L ports env request owner = Inr (pp, ps)"
    using assms by (auto simp: provisionNewPayerSession_def run_done split: prod.splits)
  obtain st where st: "fetch (bytesToHex owner) = Inr st" "ar_confirmed st" "ar_offlineAccessEnabled st" "ar_activeSessionAccount st = None"
    using evaluate_new [OF access] by blast
  let ?cert = "rt_sessionCertificate (pp_runtime pp)"
  obtain sid key secret nonce created authorization session signature where p: "owner \<noteq> key"
    "assertCreatedFacts created (NewOfflineSessionRequest.extend request (CreateSessionInput.fields owner sid key)) (pp_sessionAccount pp) = Inr ()"
    "registerSession L ports (payerTrustContext env sid) (NewOfflineSessionRequest.extend request (CreateSessionInput.fields owner sid key))
      (pp_sessionAccount pp) created nonce = Inr (authorization, session, signature)"
    "certifySession L ports (payerTrustContext env sid) (NewOfflineSessionRequest.extend request (CreateSessionInput.fields owner sid key))
      secret (pp_sessionAccount pp) authorization session = Inr (pp_runtime pp)"
    by (rule prepared [OF prep])
  note c = certified [OF p(4)] and r = registered [OF p(3)]
  have "sc_sessionId ?cert = sid" using trusted_session [of L "payerTrustContext env sid" ?cert] c(4)
    by (auto simp: validateCertificateChain_iff payerTrustContext_def)
  moreover have "cs_owner created = owner" "cs_devicePublicKey created = key" "cs_collateralLocked created = nr_collateralLocked request"
    "cs_branchSpendingLimit created = nr_branchSpendingLimit request" "cs_expiresAt created = nr_expiresAt request"
    using p(2) by (auto simp: assertCreatedFacts_def bindE_Inr_iff assertEqual_def NewOfflineSessionRequest.extend_def CreateSessionInput.fields_def)
  moreover from this have "cs_owner session = owner" "cs_devicePublicKey session = key" "cs_collateralLocked session = nr_collateralLocked request"
    "cs_branchSpendingLimit session = nr_branchSpendingLimit request" "cs_expiresAt session = nr_expiresAt request"
    using r(3) by (auto simp: assertSameSession_def bindE_Inr_iff assertEqual_def)
  ultimately show ?thesis unfolding Let_def
    using o st p(1) c(1,3,4) r(1,2)
    by (intro exI [of _ owner] exI [of _ st] exI [of _ signature] exI [of _ session]) (auto simp: certifies_def)
qed

text \<open>Ports that answer with the session of the samples, for a profile that is free.\<close>

definition sampleCreated :: ConfirmedProvisioningSession where
  "sampleCreated = \<lparr>cs_contextSlot = 4, cs_sessionAccount = replicate 32 21, cs_sessionId = replicate 32 3, cs_owner = replicate 32 5,
     cs_devicePublicKey = replicate 32 6, cs_vault = replicate 32 7, cs_tokenMint = replicate 32 12, cs_collateralLocked = 300,
     cs_branchSpendingLimit = 100, cs_collateralCoverageCap = 300, cs_maxBranchDepth = 32, cs_issuedAt = 1000, cs_expiresAt = 11800,
     cs_claimSubmissionDeadline = 33400, cs_genesisStateHash = sampleGenesisHash, cs_deviceAuthorizationHash = replicate 32 0,
     cs_identityAttestationHash = replicate 32 13\<rparr>"

definition samplePorts :: ProvisioningPorts where
  "samplePorts = \<lparr>authorizeOwner = Inr (replicate 32 5),
     createOfflineSession = (\<lambda>_. Inr \<lparr>tx_signature = ''create'', tx_sessionAccount = replicate 32 21\<rparr>),
     signDeviceAuthorizationMessage = (\<lambda>owner message. signEd25519 sampleLib message owner),
     registerDeviceAuthorization = (\<lambda>_ _ _. Inr ''register''),
     confirmAndFetchSession = (\<lambda>n _ _. Inr (if n = 0 then sampleCreated
       else sampleCreated\<lparr>cs_deviceAuthorizationHash := sampleAuthorizationHash\<rparr>)),
     issueCertificate = (\<lambda>_ _. Inr sampleCertificate),
     random32 = (\<lambda>n. Inr (replicate 32 (if n = 0 then 6 else if n = 1 then 3 else 8)))\<rparr>"

definition sampleNewSession :: NewOfflineSessionRequest where
  "sampleNewSession = \<lparr>nr_collateralLocked = 300, nr_branchSpendingLimit = 100, nr_expiresAt = 11800\<rparr>"

definition sampleCreateInput :: CreateSessionInput where
  "sampleCreateInput = NewOfflineSessionRequest.extend sampleNewSession
     (CreateSessionInput.fields (replicate 32 5) (replicate 32 3) (replicate 32 6))"

lemma sampleCreated_accepted: "assertCreatedFacts sampleCreated sampleCreateInput (replicate 32 21) = Inr ()"
  by code_simp

lemma sampleRegistered:
  "registerSession sampleLib samplePorts sampleContext sampleCreateInput (replicate 32 21) sampleCreated (replicate 32 8) =
    Inr (sampleAuthorization, sampleCreated\<lparr>cs_deviceAuthorizationHash := sampleAuthorizationHash\<rparr>, ''register'')"
  by code_simp

lemma sampleCertified:
  "certifySession sampleLib samplePorts sampleContext sampleCreateInput (replicate 32 6) (replicate 32 21) sampleAuthorization
    (sampleCreated\<lparr>cs_deviceAuthorizationHash := sampleAuthorizationHash\<rparr>) = Inr sampleRuntime"
  by code_simp

lemma samplePrepared:
  "\<exists>ps. prepareSession sampleLib samplePorts (environmentOf sampleContext) sampleNewSession (replicate 32 5) =
    Inr (\<lparr>pp_runtime = sampleRuntime, pp_sessionAccount = replicate 32 21, pp_creationSignature = ''create'',
      pp_authorizationRegistrationSignature = ''register''\<rparr>, ps)"
proof -
  let ?i = "\<lparr>pi_sessionAccount = replicate 32 21, pi_runtime = sampleRuntime, pi_parent = None, pi_frames = None, pi_pendingDelivery = None\<rparr>"
  have "storable sampleLib ?i []"
    using payerInput_storable
    by (auto simp: storable_def Let_def payerInput_def provenBy_def storedParent_def storedFrames_def storedPending_def) (simp add: sampleRuntime_def)
  then obtain ps where ps: "createPersistedOnchainSession sampleLib ?i = Inr ps"
    by (rule storable_persists [OF sampleLib_borsh sampleLib_hash])
  have cx: "payerTrustContext (environmentOf sampleContext) (replicate 32 3) = sampleContext" by (rule environment_context) simp
  have draws: "random32 samplePorts 0 = Inr (replicate 32 6)" "random32 samplePorts (Suc 0) = Inr (replicate 32 3)"
    "random32 samplePorts 2 = Inr (replicate 32 8)"
    "createOfflineSession samplePorts input = Inr \<lparr>tx_signature = ''create'', tx_sessionAccount = replicate 32 21\<rparr>"
    "confirmAndFetchSession samplePorts 0 sig account = Inr sampleCreated" for input sig account
    by (simp_all add: samplePorts_def)
  have nonzero: "assert32 (replicate 32 6) name True = Inr ()" "assert32 (replicate 32 3) name True = Inr ()"
    "assert32 (replicate 32 8) name True = Inr ()" "assert32 (replicate 32 21) name True = Inr ()" for name
    by (simp_all add: assert32_def list_all_iff)
  show ?thesis unfolding prepareSession_def
    by (simp add: draws nonzero cx ps sampleCreated_accepted [unfolded sampleCreateInput_def] sampleRegistered [unfolded sampleCreateInput_def]
        sampleCertified [unfolded sampleCreateInput_def])
qed

theorem provisioning_is_authorised_witness:
  "\<exists>pp. fst (provisionNewPayerSession sampleLib samplePorts sampleNewSession (environmentOf sampleContext)
      (returnIO \<lparr>sn_provisioningJson = None, sn_branchStateJson = None, sn_deviceSecretHex = None\<rparr>) (\<lambda>_. returnIO ())
      (\<lambda>_. Inr (freeState sampleProfile)) dyingDevice) = Done pp \<and>
    sc_owner (rt_sessionCertificate (pp_runtime pp)) = replicate 32 5 \<and> sc_branchSpendingLimit (rt_sessionCertificate (pp_runtime pp)) = 100"
proof -
  let ?load = "returnIO \<lparr>sn_provisioningJson = None, sn_branchStateJson = None, sn_deviceSecretHex = None\<rparr> :: PayerRecoveryStorageSnapshot io"
  let ?fetch = "\<lambda>_. Inr (freeState sampleProfile)"
  let ?owner = "bytesToHex (replicate 32 5)"
  have empty: "restoreSnapshot L env \<lparr>sn_provisioningJson = None, sn_branchStateJson = None, sn_deviceSecretHex = None\<rparr> = (None, None)" for L env
    by (simp add: restoreSnapshot_def)
  have free: "sad_outcome (decideSessionAccess \<lparr>sai_connected = True, sai_local = None, sai_authoritative = Some (freeState sampleProfile),
      sai_walletAuthorizationConfirmed = True\<rparr>) = NewSessionAllowed"
    unfolding gate_new by (simp add: freeState_def sampleProfile_def authoritativeBindingIsComplete_def del: bytesToHex_simps)
  obtain access where access: "evaluatePayerRecovery sampleLib \<lparr>ri_connected = True, ri_walletOwnerHex = Some ?owner,
      ri_expectedEnvironment = environmentOf sampleContext\<rparr> ?load ?fetch dyingDevice = (Done access, dyingDevice)"
    "sad_outcome (rr_decision access) = NewSessionAllowed"
    using free by (simp add: evaluatePayerRecovery_def restoreLocal_def bindIO_def returnIO_def empty walletOwner_def isHex_bytesToHex
        decideOnline_def Let_def liftIO_def)
  obtain ps where prep: "prepareSession sampleLib samplePorts (environmentOf sampleContext) sampleNewSession (replicate 32 5) =
    Inr (\<lparr>pp_runtime = sampleRuntime, pp_sessionAccount = replicate 32 21, pp_creationSignature = ''create'',
      pp_authorizationRegistrationSignature = ''register''\<rparr>, ps)" using samplePrepared by blast
  have owner: "authorizeOwner samplePorts = Inr (replicate 32 5)" "assert32 (replicate 32 5) name True = Inr ()" for name
    by (simp_all add: samplePorts_def assert32_def list_all_iff)
  obtain pp where run: "provisionNewPayerSession sampleLib samplePorts sampleNewSession (environmentOf sampleContext) ?load (\<lambda>_. returnIO ())
      ?fetch dyingDevice = (Done pp, dyingDevice)"
    unfolding provisionNewPayerSession_def
    by (simp add: owner bindIO_def liftIO_def returnIO_def access prep persistConfirmedProvisioning_def)
  have "sc_owner (rt_sessionCertificate (pp_runtime pp)) = replicate 32 5 \<and> sc_branchSpendingLimit (rt_sessionCertificate (pp_runtime pp)) = 100"
    using provisioning_is_authorised [OF run] owner(1) by (auto simp: Let_def sampleNewSession_def)
  with run show ?thesis by (metis fst_conv)
qed

section \<open>The merchant's updates\<close>

text \<open>
  An update of the merchant's store is atomic. On a device that fails
  anywhere, the store holds afterwards the old snapshot or the updated one, never a mixture of
  claims, outstanding request and key; when the update returns, it returns the updated snapshot
  and the store holds it, so no accepted claim is lost.
\<close>

theorem merchant_update_is_atomic:
  assumes "hash_ok L" "validateDefinitions ns (so_components (merchantStore ns)) = Inr ()" "merchantHolds L ns (Some m) (contents d)"
    "merchantOk m" "updateMerchant L ns nextGeneration legacy mutate d = (r, d')"
  shows "case r of
      Done n \<Rightarrow> mutate m = Inr n \<and> merchantHolds L ns (Some n) (contents d')
    | _ \<Rightarrow> merchantHolds L ns (Some m) (contents d') \<or> (\<exists>n. mutate m = Inr n \<and> merchantHolds L ns (Some n) (contents d'))"
  using run_triple [OF triple_updateMerchant [OF assms(1-4)] assms(5)] by (cases r) simp_all

text \<open>A merchant's store with no claims yet, on a device that dies in the middle of the update.\<close>

definition sampleMerchant :: MerchantDurableSnapshot where
  "sampleMerchant = \<lparr>md_deviceSecretHex = bytesToHex (replicate 32 9), md_claimsJson = ''[]'', md_outstandingChallengeJson = None\<rparr>"

definition merchantDisk :: disk where
  "merchantDisk = (let g = sampleGeneration 1; options = merchantStore ''ogp.merchant''; stored = (\<lambda>name payload.
       writeDisk (if name = ''device-secret'' then ProtectedArea else PublicArea) (componentKey (so_namespace options) g name)
         (Some (JSON_stringify (envelopeJson g name payload))))
     in
     writeDisk PublicArea (committedKey options) (Some (JSON_stringify (manifestJson
       (manifestOf sampleLib options g (payloadsOf options (merchantValues sampleMerchant)) CommittedPhase))))
     (writeDisk ProtectedArea (protectedJournalKey options) (Some (journalAfter options g))
     (stored ''claims'' ''[]'' (stored ''outstanding-challenge'' ''null'' (stored ''device-secret'' (md_deviceSecretHex sampleMerchant) blank)))))"

lemma merchantDisk_holds: "merchantHolds sampleLib ''ogp.merchant'' (Some sampleMerchant) merchantDisk"
proof -
  let ?options = "merchantStore ''ogp.merchant''"
  have payloads: "payloadsOf ?options (merchantValues sampleMerchant) = [''[]'', ''null'', md_deviceSecretHex sampleMerchant]"
    by (simp add: payloadsOf_def merchant_components merchantValues_def) (simp add: sampleMerchant_def)
  have "snapshotStored sampleLib ?options merchantDisk (sampleGeneration 1) (payloadsOf ?options (merchantValues sampleMerchant))"
    by (simp add: snapshotStored_def merchant_components payloads sampleGenerations merchantDisk_def Let_def componentKey_inject)
  moreover have "journalIs ?options merchantDisk (Some (sampleGeneration 1)) None"
    by (simp add: journalIs_def generationOk_def sampleGenerations merchantDisk_def Let_def journalAfter_def journalOf_def)
  ultimately show ?thesis by (auto simp: holdsValue_def durable_def)
qed

theorem merchant_update_is_atomic_witness:
  "\<exists>d'. snd (updateMerchant sampleLib ''ogp.merchant'' (\<lambda>_. Inl (sampleGeneration 2)) (returnIO \<lparr>lm_deviceSecretHex = None, lm_claimsJson = None,
      lm_outstandingChallengeJson = None\<rparr>) (\<lambda>m. Inr (m\<lparr>md_claimsJson := ''[1]''\<rparr>)) (device merchantDisk (\<lambda>n. if n = 9 then Dies True else Works) 0)) = d' \<and>
    (merchantHolds sampleLib ''ogp.merchant'' (Some sampleMerchant) (contents d') \<or>
     merchantHolds sampleLib ''ogp.merchant'' (Some (sampleMerchant\<lparr>md_claimsJson := ''[1]''\<rparr>)) (contents d'))"
proof -
  let ?d = "device merchantDisk (\<lambda>n. if n = 9 then Dies True else Works) 0"
  obtain r d' where run: "updateMerchant sampleLib ''ogp.merchant'' (\<lambda>_. Inl (sampleGeneration 2)) (returnIO \<lparr>lm_deviceSecretHex = None, lm_claimsJson = None,
      lm_outstandingChallengeJson = None\<rparr>) (\<lambda>m. Inr (m\<lparr>md_claimsJson := ''[1]''\<rparr>)) ?d = (r, d')" by force
  have "validateDefinitions ''ogp.merchant'' (so_components (merchantStore ''ogp.merchant'')) = Inr ()"
    by (simp add: validateDefinitions_def merchant_components spaceChar_def componentNameText_def)
  moreover have "merchantHolds sampleLib ''ogp.merchant'' (Some sampleMerchant) (contents ?d)" by (simp add: merchantDisk_holds)
  moreover have "merchantOk sampleMerchant" by (simp add: merchantOk_def sampleMerchant_def isHex_bytesToHex del: bytesToHex_simps)
  ultimately show ?thesis
    using merchant_update_is_atomic [OF sampleLib_hash _ _ _ run] run by (cases r) auto
qed

end
