(* ===== verification/RuntimeConfiguration.thy ===== *)
theory RuntimeConfiguration
  imports SessionAccess PayerSession MobileStorage
begin

text \<open>
  What the two applications read from their build environment: \<open>runtime-configuration.ts\<close>,
  \<open>runtime-mode.ts\<close> and \<open>payer-storage-keys.ts\<close> of \<open>apps/payer-mobile/src\<close>;
  \<open>runtime-configuration.ts\<close>, \<open>storage-scope.ts\<close> and \<open>trust.ts\<close> of \<open>apps/merchant-mobile/src\<close>. An
  unset variable is \<open>None\<close>. The URL parser of the platform is a parameter.
\<close>

section \<open>The payer\<close>

record PayerRuntimeEnvironment =
  pe_NETWORK_ID :: "string option"
  pe_CLUSTER_GENESIS_HASH_HEX :: "string option"
  pe_PROGRAM_ID_HEX :: "string option"
  pe_CERTIFICATE_ISSUER_HEX :: "string option"

definition payerBytes32 :: "string option \<Rightarrow> string \<Rightarrow> bytes result" where
  "payerBytes32 value name =
    (case value of
       None \<Rightarrow> Inl (JsError (name @ '' deve conter exatamente 32 bytes hexadecimais''))
     | Some text \<Rightarrow>
         if \<not> isHex 32 text then Inl (JsError (name @ '' deve conter exatamente 32 bytes hexadecimais''))
         else runtimeHexToBytes text)"

definition networkIdOf :: "string option \<Rightarrow> NetworkId result" where
  "networkIdOf value =
    (if value = Some ''localnet'' then Inr Localnet
     else if value = Some ''devnet'' then Inr Devnet
     else if value = Some ''mainnet-beta'' then Inr MainnetBeta
     else Inl (JsError ''EXPO_PUBLIC_OGP_NETWORK_ID deve ser localnet, devnet ou mainnet-beta''))"

definition configuredTrustEnvironment :: "PayerRuntimeEnvironment \<Rightarrow> OfflineTrustEnvironment result" where
  "configuredTrustEnvironment environment =
    bindE (networkIdOf (pe_NETWORK_ID environment)) (\<lambda>networkId.
    bindE (payerBytes32 (pe_CLUSTER_GENESIS_HASH_HEX environment) ''cluster genesis hash'') (\<lambda>clusterGenesisHash.
    bindE (payerBytes32 (pe_PROGRAM_ID_HEX environment) ''program ID'') (\<lambda>programId.
    bindE (payerBytes32 (pe_CERTIFICATE_ISSUER_HEX environment) ''certificate issuer'') (\<lambda>issuer.
      Inr \<lparr>ev_networkId = networkNumber networkId, ev_clusterGenesisHash = clusterGenesisHash, ev_programId = programId,
        ev_trustedCertificateIssuer = issuer\<rparr>))))"

datatype PayerRuntimeMode = OnChainMode | DevelopmentFixtureMode

datatype PayerRuntimeBootstrap = BootstrapReady PayerSessionRuntime | BootstrapRecoveryRequired

definition payerRuntimeMode :: "string option \<Rightarrow> PayerRuntimeMode result" where
  "payerRuntimeMode value =
    (case value of
       None \<Rightarrow> Inr OnChainMode
     | Some text \<Rightarrow>
         if text = [] \<or> text = ''on-chain'' then Inr OnChainMode
         else if text = ''development-fixture'' then Inr DevelopmentFixtureMode
         else Inl (JsError (''modo de execucao do pagador nao reconhecido: '' @ text)))"

definition bootstrapPayerRuntime ::
  "string option \<Rightarrow> PayerSessionRuntime result option \<Rightarrow> PayerRuntimeBootstrap result" where
  "bootstrapPayerRuntime value loadFixture =
    bindE (payerRuntimeMode value) (\<lambda>mode.
      if mode = OnChainMode then Inr BootstrapRecoveryRequired
      else
        (case loadFixture of
           None \<Rightarrow> Inl (JsError ''a entrada de demonstracao nao forneceu uma fixture explicita'')
         | Some fixture \<Rightarrow> bindE fixture (\<lambda>runtime. Inr (BootstrapReady runtime))))"

definition ONCHAIN_DEVICE_KEY_STORAGE :: string where "ONCHAIN_DEVICE_KEY_STORAGE = ''ogp.onchain.v1.device-key''"

definition ONCHAIN_PROVISIONING_STORAGE :: string where "ONCHAIN_PROVISIONING_STORAGE = ''ogp.onchain.v1.provisioning''"

definition ONCHAIN_BRANCH_STORAGE :: string where "ONCHAIN_BRANCH_STORAGE = ''ogp.onchain.v1.branch-state''"

section \<open>The merchant\<close>

record MerchantRuntimeConfiguration =
  mr_trust :: OfflineTrustEnvironment
  mr_merchant :: bytes
  mr_rpcUrl :: string
  mr_relayerUrl :: string

record MerchantRuntimeEnvironment = PayerRuntimeEnvironment +
  me_MERCHANT_HEX :: "string option"
  me_RPC_URL :: "string option"
  me_RELAYER_URL :: "string option"

text \<open>What the code reads of a parsed \<open>URL\<close>; \<open>None\<close> where the constructor throws.\<close>

record UrlParts =
  url_protocol :: string
  url_hostname :: string
  url_username :: string
  url_password :: string
  url_search :: string
  url_hash :: string
  url_pathname :: string
  url_text :: string

type_synonym url_parser = "string \<Rightarrow> UrlParts option"

definition merchantBytes32 :: "string option \<Rightarrow> string \<Rightarrow> bytes result" where
  "merchantBytes32 value name =
    (case value of
       None \<Rightarrow> Inl (JsError (name @ '' deve conter exatamente 32 bytes hexadecimais''))
     | Some text \<Rightarrow>
         if \<not> isHex 32 text then Inl (JsError (name @ '' deve conter exatamente 32 bytes hexadecimais''))
         else
           let decoded = hexPairs text in
           if allZero decoded then Inl (JsError (name @ '' nao pode ser zero'')) else Inr decoded)"

definition loopbackHost :: "UrlParts \<Rightarrow> bool" where
  "loopbackHost parsed \<longleftrightarrow>
    url_hostname parsed = ''localhost'' \<or> url_hostname parsed = ''127.0.0.1'' \<or> url_hostname parsed = ''::1''"

definition endpoint :: "url_parser \<Rightarrow> string option \<Rightarrow> string \<Rightarrow> bool \<Rightarrow> bool \<Rightarrow> string result" where
  "endpoint parseUrl value name allowLocalHttp allowQuery =
    (case value of
       None \<Rightarrow> Inl (JsError (name @ '' e obrigatoria''))
     | Some text \<Rightarrow>
         bindE (fromLib ''Invalid URL'' (parseUrl text)) (\<lambda>parsed.
         bindE (failIf (url_protocol parsed \<noteq> ''https:'' \<and>
             \<not> (allowLocalHttp \<and> loopbackHost parsed \<and> url_protocol parsed = ''http:''))
           (name @ '' deve usar HTTPS'' @ (if allowLocalHttp then '' ou HTTP local'' else []))) (\<lambda>_.
         bindE (failIf (url_username parsed \<noteq> [] \<or> url_password parsed \<noteq> []) (name @ '' nao pode conter credenciais'')) (\<lambda>_.
         bindE (failIf (\<not> allowQuery \<and> (url_search parsed \<noteq> [] \<or> url_hash parsed \<noteq> []))
           (name @ '' nao pode conter query ou fragmento'')) (\<lambda>_.
           Inr (url_text parsed))))))"

definition configuredMerchantRuntime ::
  "url_parser \<Rightarrow> MerchantRuntimeEnvironment \<Rightarrow> MerchantRuntimeConfiguration result" where
  "configuredMerchantRuntime parseUrl environment =
    bindE (merchantBytes32 (pe_PROGRAM_ID_HEX environment) ''program ID'') (\<lambda>programId.
    bindE (networkIdOf (pe_NETWORK_ID environment)) (\<lambda>networkId.
    bindE (merchantBytes32 (pe_CLUSTER_GENESIS_HASH_HEX environment) ''cluster genesis hash'') (\<lambda>clusterGenesisHash.
    bindE (merchantBytes32 (pe_CERTIFICATE_ISSUER_HEX environment) ''certificate issuer'') (\<lambda>issuer.
    bindE (merchantBytes32 (me_MERCHANT_HEX environment) ''merchant'') (\<lambda>merchant.
    bindE (endpoint parseUrl (me_RPC_URL environment) ''RPC URL'' True True) (\<lambda>rpcUrl.
    bindE (endpoint parseUrl (me_RELAYER_URL environment) ''relayer URL'' True False) (\<lambda>relayerUrl.
      Inr \<lparr>mr_trust = \<lparr>ev_networkId = networkNumber networkId, ev_clusterGenesisHash = clusterGenesisHash,
             ev_programId = programId, ev_trustedCertificateIssuer = issuer\<rparr>,
           mr_merchant = merchant, mr_rpcUrl = rpcUrl, mr_relayerUrl = relayerUrl\<rparr>)))))))"

section \<open>Storage keys of a deployment\<close>

record MerchantStorageKeys =
  mk_deviceKey :: string
  mk_claims :: string
  mk_outstandingChallenge :: string
  mk_durableNamespace :: string

definition LEGACY_KEYS :: MerchantStorageKeys where
  "LEGACY_KEYS = \<lparr>mk_deviceKey = ''ogp.merchant.device-key'', mk_claims = ''ogp.merchant.pending-claims'',
     mk_outstandingChallenge = ''ogp.merchant.outstanding-challenge'', mk_durableNamespace = ''ogp.merchant.demo.storage.v1''\<rparr>"

definition storageScope :: "MerchantRuntimeConfiguration \<Rightarrow> string" where
  "storageScope runtime =
    decimal (ev_networkId (mr_trust runtime)) @ ''.'' @ bytesToHex (ev_clusterGenesisHash (mr_trust runtime)) @ ''.'' @
    bytesToHex (ev_programId (mr_trust runtime)) @ ''.'' @ bytesToHex (mr_merchant runtime)"

definition merchantStorageKeys :: "MerchantRuntimeConfiguration \<Rightarrow> bool \<Rightarrow> MerchantStorageKeys" where
  "merchantStorageKeys runtime historicalDemonstration =
    (if historicalDemonstration then LEGACY_KEYS
     else
       let scope = storageScope runtime in
       \<lparr>mk_deviceKey = ''ogp.merchant.device-key.'' @ scope, mk_claims = ''ogp.merchant.claims.v1.'' @ scope,
        mk_outstandingChallenge = ''ogp.merchant.outstanding-challenge.'' @ scope,
        mk_durableNamespace = ''ogp.merchant.storage.v1.'' @ scope\<rparr>)"

section \<open>The demonstration's trust roots\<close>

definition trustHexToBytes :: "string \<Rightarrow> bytes result" where
  "trustHexToBytes value =
    bindE (failIf (\<not> (value \<noteq> [] \<and> list_all (\<lambda>c. c \<in> set ''0123456789abcdef'') value) \<or> length value mod 2 \<noteq> 0)
      ''invalid hex'') (\<lambda>_. Inr (hexPairs value))"

definition expectedEnvironment :: "OfflineTrustEnvironment result" where
  "expectedEnvironment =
    bindE (trustHexToBytes ''a1a1a1a1a1a1a1a1a1a1a1a1a1a1a1a1a1a1a1a1a1a1a1a1a1a1a1a1a1a1a1a1'') (\<lambda>clusterGenesisHash.
    bindE (trustHexToBytes ''b2b2b2b2b2b2b2b2b2b2b2b2b2b2b2b2b2b2b2b2b2b2b2b2b2b2b2b2b2b2b2b2'') (\<lambda>programId.
    bindE (trustHexToBytes ''ed4928c628d1c2c6eae90338905995612959273a5c63f93636c14614ac8737d1'') (\<lambda>issuer.
      Inr \<lparr>ev_networkId = networkNumber Devnet, ev_clusterGenesisHash = clusterGenesisHash, ev_programId = programId,
        ev_trustedCertificateIssuer = issuer\<rparr>)))"

end
