(* ===== verification/PayerApp.thy ===== *)
theory PayerApp
  imports RuntimeConfiguration PayerRecovery
begin

text \<open>
  The payer's application, \<open>apps/payer-mobile/App.tsx\<close>, in the mode of its production entry point
  (\<open>on-chain\<close>): the state of \<open>PayerApplication\<close> and its handlers, without what they draw. The
  setters of React change one field each; \<open>reason\<close>, the error that is shown, is kept as the error
  itself. A handler that awaits the storage reads the state at its start (its closure) and sets
  fields of the state at its end, so it takes both.
\<close>

section \<open>State\<close>

datatype PayerScreen =
  HomeScreen | ScanChallengeScreen | ConfirmScreen | ShowCredentialScreen | ScanReceiptScreen | CompleteScreen

datatype BootstrapStatus = BootstrapLoading | BootstrapDone | OnlineRecoveryNeeded

record PayerApp =
  pa_screen :: PayerScreen
  pa_sessionRuntime :: "PayerSessionRuntime option"
  pa_onchainSessionAccount :: "bytes option"
  pa_challenge :: "MerchantChallenge option"
  pa_credentials :: "PaymentCredential list"
  pa_parent :: "ParentState option"
  pa_outgoingFrames :: "string list"
  pa_lastCredential :: "PaymentCredential option"
  pa_error :: "js_error option"
  pa_bootstrapStatus :: BootstrapStatus
  pa_receivedFrames :: "string list"

definition initialPayerApp :: PayerApp where
  "initialPayerApp = \<lparr>pa_screen = HomeScreen, pa_sessionRuntime = None, pa_onchainSessionAccount = None, pa_challenge = None,
     pa_credentials = [], pa_parent = None, pa_outgoingFrames = [], pa_lastCredential = None, pa_error = None,
     pa_bootstrapStatus = BootstrapLoading, pa_receivedFrames = []\<rparr>"

text \<open>\<open>new QRTransport()\<close> with its default chunk size\<close>

definition payerTransport :: QRTransport where
  "payerTransport = \<lparr>qr_chunkBytes = nat DEFAULT_CHUNK_BYTES\<rparr>"

section \<open>Boot\<close>

definition forbiddenOfflineChainRead :: "string \<Rightarrow> AuthoritativeRecoveryState result" where
  "forbiddenOfflineChainRead owner = Inl (JsError ''RPC nao pode ser consultado durante o bootstrap offline'')"

definition lastOf :: "'a list \<Rightarrow> 'a option" where
  "lastOf xs = (if xs = [] then None else Some (last xs))"

definition restoredApp :: "RestoredOnchainSession \<Rightarrow> PayerApp" where
  "restoredApp restored =
    (let started = initialPayerApp\<lparr>pa_sessionRuntime := Some (rp_runtime restored)\<rparr>;
         restoredLast = lastOf (rp_credentials restored)
     in
     (case runtimeHexToBytes (lp_sessionAccount (ro_localProvisioning restored)) of
        Inl reason \<Rightarrow> started\<lparr>pa_error := Some reason, pa_bootstrapStatus := OnlineRecoveryNeeded\<rparr>
      | Inr account \<Rightarrow>
          let ready = started\<lparr>pa_onchainSessionAccount := Some account, pa_credentials := rp_credentials restored,
                pa_parent := Some (rp_parent restored), pa_lastCredential := restoredLast, pa_bootstrapStatus := BootstrapDone\<rparr>
          in
          if rp_pendingDelivery restored \<and> restoredLast \<noteq> None
          then ready\<lparr>pa_outgoingFrames := rp_outgoingFrames restored, pa_screen := ShowCredentialScreen\<rparr>
          else ready))"

definition bootPayer ::
  "lib \<Rightarrow> PayerRuntimeEnvironment \<Rightarrow> PayerRecoveryStorageSnapshot io \<Rightarrow> PayerApp io" where
  "bootPayer L environment load =
    catchIO
      (bindIO (liftIO (configuredTrustEnvironment environment)) (\<lambda>expected.
       bindIO (evaluatePayerRecovery L \<lparr>ri_connected = False, ri_walletOwnerHex = None, ri_expectedEnvironment = expected\<rparr>
         load forbiddenOfflineChainRead) (\<lambda>recovery.
       (case rr_restoredSession recovery of
          Some restored \<Rightarrow>
            if sad_outcome (rr_decision recovery) = OfflineReady then returnIO (restoredApp restored)
            else returnIO (initialPayerApp\<lparr>pa_error := map_option JsError (rr_localValidationError recovery),
              pa_bootstrapStatus := OnlineRecoveryNeeded\<rparr>)
        | None \<Rightarrow>
            returnIO (initialPayerApp\<lparr>pa_error := map_option JsError (rr_localValidationError recovery),
              pa_bootstrapStatus := OnlineRecoveryNeeded\<rparr>)))))
      (\<lambda>reason. returnIO (initialPayerApp\<lparr>pa_error := Some reason, pa_bootstrapStatus := OnlineRecoveryNeeded\<rparr>))"

section \<open>Scanning\<close>

definition startScan :: "PayerScreen \<Rightarrow> PayerApp \<Rightarrow> PayerApp" where
  "startScan next app = app\<lparr>pa_receivedFrames := [], pa_error := None, pa_screen := next\<rparr>"

text \<open>An incomplete transfer is not an error: the scanner waits for more frames.\<close>

definition reportScanError :: "js_error \<Rightarrow> PayerApp \<Rightarrow> PayerApp" where
  "reportScanError reason app =
    (if reason = OgpValidationError ''INCOMPLETE_QR_TRANSFER'' then app else app\<lparr>pa_error := Some reason\<rparr>)"

text \<open>The trust context, read as an environment.\<close>

definition contextEnvironment :: "ProtocolTrustContext \<Rightarrow> ProtocolEnvironment" where
  "contextEnvironment context = \<lparr>ev_networkId = cx_networkId context, ev_clusterGenesisHash = cx_clusterGenesisHash context,
     ev_programId = cx_programId context\<rparr>"

definition acceptChallenge :: "lib \<Rightarrow> PayerApp \<Rightarrow> MerchantChallenge result" where
  "acceptChallenge L app =
    (case (pa_sessionRuntime app, pa_parent app) of
       (Some runtime, Some parent) \<Rightarrow>
         bindE (receiveChallenge L (pa_receivedFrames app)) (\<lambda>decoded.
         bindE (assertChallengeEnvironment decoded (contextEnvironment (rt_trustContext runtime))) (\<lambda>_.
         bindE (throwIf (equalBytes (mc_merchant decoded) (sc_owner (rt_sessionCertificate runtime))) ''SELF_MERCHANT_FORBIDDEN'') (\<lambda>_.
         bindE (throwIf (mc_amount decoded > pt_remaining parent) ''INVALID_AMOUNT'') (\<lambda>_.
           Inr decoded))))
     | _ \<Rightarrow> Inl (JsError ''Sessao de pagamento indisponivel''))"

definition scanChallenge :: "lib \<Rightarrow> string \<Rightarrow> PayerApp \<Rightarrow> PayerApp" where
  "scanChallenge L raw app =
    (let scanned = app\<lparr>pa_receivedFrames := setAdd raw (pa_receivedFrames app)\<rparr> in
     (case acceptChallenge L scanned of
        Inl reason \<Rightarrow> reportScanError reason scanned
      | Inr decoded \<Rightarrow> scanned\<lparr>pa_challenge := Some decoded, pa_screen := ConfirmScreen\<rparr>))"

definition cancelTo :: "PayerScreen \<Rightarrow> PayerApp \<Rightarrow> PayerApp" where
  "cancelTo screen app = app\<lparr>pa_screen := screen\<rparr>"

section \<open>Paying\<close>

definition persistBranchState ::
  "lib \<Rightarrow> (PersistedOnchainSession \<Rightarrow> unit io) \<Rightarrow> PayerApp \<Rightarrow> string list \<Rightarrow> bool \<Rightarrow> ParentState \<Rightarrow> unit io" where
  "persistBranchState L commit app frames pendingDelivery parent =
    (case pa_sessionRuntime app of
       None \<Rightarrow> throwIO (JsError ''Sessao de pagamento indisponivel'')
     | Some runtime \<Rightarrow>
        (case pa_onchainSessionAccount app of
           None \<Rightarrow> throwIO (JsError ''Conta on-chain da sessao indisponivel'')
         | Some account \<Rightarrow>
             bindIO (liftIO (createPersistedOnchainSession L
               \<lparr>pi_sessionAccount = account, pi_runtime = runtime, pi_parent = Some parent, pi_frames = Some frames,
                pi_pendingDelivery = Some pendingDelivery\<rparr>)) commit))"

text \<open>The payment the payer authorises, from the stored key.\<close>

definition paymentFor ::
  "lib \<Rightarrow> PayerSessionRuntime \<Rightarrow> ParentState \<Rightarrow> MerchantChallenge \<Rightarrow> string option \<Rightarrow> PaymentCredential result" where
  "paymentFor L runtime parent challenge storedSecret =
    (case storedSecret of
       None \<Rightarrow> Inl (JsError ''Chave da sessao indisponivel'')
     | Some secretHex \<Rightarrow>
         bindE (runtimeHexToBytes secretHex) (\<lambda>secret.
           createPaymentCredential L (rt_trustContext runtime) (rt_sessionCertificate runtime) parent
             \<lparr>rq_merchant = mc_merchant challenge, rq_merchantDeviceKey = mc_merchantDeviceKey challenge,
              rq_amount = mc_amount challenge, rq_merchantChallenge = mc_challenge challenge,
              rq_createdAt = sc_issuedAt (rt_sessionCertificate runtime) + (pt_sequence parent + 1)\<rparr> secret))"

text \<open>The payment and its frames, stored before anything is shown.\<close>

definition storePayment ::
  "lib \<Rightarrow> PayerRecoveryStorageSnapshot io \<Rightarrow> (PersistedOnchainSession \<Rightarrow> unit io) \<Rightarrow> PayerApp \<Rightarrow>
    PayerSessionRuntime \<Rightarrow> ParentState \<Rightarrow> MerchantChallenge \<Rightarrow> (PaymentCredential \<times> string list) io" where
  "storePayment L load commit closure runtime parent challenge =
    bindIO load (\<lambda>snapshot.
    bindIO (liftIO (paymentFor L runtime parent challenge (sn_deviceSecretHex snapshot))) (\<lambda>credential.
    bindIO (liftIO (sendCredential L payerTransport
      \<lparr>sessionCertificate = rt_sessionCertificate runtime, deviceAuthorization = rt_deviceAuthorization runtime,
       credentials = pa_credentials closure @ [credential]\<rparr>)) (\<lambda>frames.
    bindIO (persistBranchState L commit closure frames True (nextParent credential)) (\<lambda>_.
      returnIO (credential, frames)))))"

definition showPayment :: "PayerApp \<Rightarrow> PaymentCredential \<Rightarrow> string list \<Rightarrow> PayerApp \<Rightarrow> PayerApp" where
  "showPayment closure credential frames now =
    now\<lparr>pa_credentials := pa_credentials closure @ [credential], pa_lastCredential := Some credential,
      pa_parent := Some (nextParent credential),
      pa_outgoingFrames := frames, pa_screen := ShowCredentialScreen\<rparr>"

text \<open>\<open>closure\<close>: the state the handler was created with; \<open>now\<close>: the state it changes.\<close>

definition authorizePayment ::
  "lib \<Rightarrow> PayerRecoveryStorageSnapshot io \<Rightarrow> (PersistedOnchainSession \<Rightarrow> unit io) \<Rightarrow> PayerApp \<Rightarrow> PayerApp \<Rightarrow> PayerApp io" where
  "authorizePayment L load commit closure now =
    (case (pa_challenge closure, pa_sessionRuntime closure, pa_parent closure) of
       (Some challenge, Some runtime, Some parent) \<Rightarrow>
         catchIO
           (bindIO (storePayment L load commit closure runtime parent challenge) (\<lambda>(credential, frames).
             returnIO (showPayment closure credential frames now)))
           (\<lambda>reason. returnIO (now\<lparr>pa_error := Some reason\<rparr>))
     | _ \<Rightarrow> returnIO now)"

section \<open>The receipt\<close>

definition acceptReceipt :: "lib \<Rightarrow> PayerApp \<Rightarrow> ParentState result" where
  "acceptReceipt L app =
    bindE (receiveReceipt L (pa_receivedFrames app)) (\<lambda>receipt.
    bindE (case pa_lastCredential app of
        None \<Rightarrow> Inl (OgpValidationError ''INVALID_RECEIPT'')
      | Some credential \<Rightarrow>
          bindE (credentialHash L credential) (\<lambda>hash.
            throwIf (\<not> equalBytes (tr_credentialHash receipt) hash \<or>
              \<not> equalBytes (tr_merchantChallenge receipt) (pc_merchantChallenge credential)) ''INVALID_RECEIPT'')) (\<lambda>_.
    (case pa_parent app of
       None \<Rightarrow> Inl (JsError ''Estado da sessao indisponivel'')
     | Some parent \<Rightarrow> Inr parent)))"

definition scanReceipt ::
  "lib \<Rightarrow> (PersistedOnchainSession \<Rightarrow> unit io) \<Rightarrow> string \<Rightarrow> PayerApp \<Rightarrow> PayerApp io" where
  "scanReceipt L commit raw app =
    (let scanned = app\<lparr>pa_receivedFrames := setAdd raw (pa_receivedFrames app)\<rparr> in
     catchIO
       (bindIO (liftIO (acceptReceipt L scanned)) (\<lambda>parent.
        bindIO (persistBranchState L commit scanned (pa_outgoingFrames scanned) False parent) (\<lambda>_.
          returnIO (scanned\<lparr>pa_screen := CompleteScreen\<rparr>))))
       (\<lambda>reason. returnIO (reportScanError reason scanned)))"

text \<open>\<open>CONCLUIR\<close>\<close>

definition finishPayment :: "PayerApp \<Rightarrow> PayerApp" where
  "finishPayment app =
    app\<lparr>pa_challenge := None, pa_lastCredential := None, pa_outgoingFrames := [], pa_screen := HomeScreen\<rparr>"

end
