(* ===== verification/StorageLive.thy ===== *)
theory StorageLive
  imports StorageTheorems
begin

text \<open>
  The store on a device that works: operations run to their end, a load reports what is held and
  a commit of the configured components returns. It keeps the atomicity of commits from being a
  property of a store that always fails.
\<close>

definition works :: "Device \<Rightarrow> bool" where
  "works d \<longleftrightarrow> (\<forall>n. faults d n = Works)"

text \<open>On a working device: the operation returns; or at least the process survives it.\<close>

definition runs :: "'a io \<Rightarrow> bool" where
  "runs m \<longleftrightarrow> (\<forall>d. works d \<longrightarrow> (\<exists>x d'. m d = (Done x, d') \<and> faults d' = faults d))"

definition survives :: "'a io \<Rightarrow> bool" where
  "survives m \<longleftrightarrow> (\<forall>d. works d \<longrightarrow> fst (m d) \<noteq> Died \<and> faults (snd (m d)) = faults d)"

named_theorems live_rules \<open>operations that return on a working device\<close>

lemma works_faults: "faults d' = faults d \<Longrightarrow> works d \<Longrightarrow> works d'"
  by (simp add: works_def)

lemma runs_survives: "runs m \<Longrightarrow> survives m"
  unfolding runs_def survives_def by (metis fst_conv outcome.distinct(3) snd_conv)

lemma survives_throw [live_rules]: "survives (throwIO e)"
  by (simp add: survives_def throwIO_def)

lemma runs_return [live_rules]: "runs (returnIO x)"
  by (simp add: runs_def returnIO_def)

lemma runs_access [live_rules]: "runs (accessIO result effect)"
  by (simp add: runs_def accessIO_def works_def Let_def)

lemma runs_bind [live_rules]: "runs m \<Longrightarrow> (\<And>x. runs (f x)) \<Longrightarrow> runs (bindIO m f)"
  unfolding runs_def bindIO_def by (metis (no_types, lifting) outcome.case(1) prod.case works_faults)

lemma survives_bind [live_rules]:
  assumes "survives m" "\<And>x. survives (f x)"
  shows "survives (bindIO m f)"
  unfolding survives_def
proof (intro allI impI)
  fix d :: Device assume d: "works d"
  obtain r d1 where m: "m d = (r, d1)" by force
  with assms(1) d have "r \<noteq> Died" "faults d1 = faults d" unfolding survives_def by auto
  with assms(2) m works_faults [OF _ d] show "fst (bindIO m f d) \<noteq> Died \<and> faults (snd (bindIO m f d)) = faults d"
    unfolding survives_def by (cases r) (auto simp: bindIO_def)
qed

lemma runs_catch [live_rules]:
  assumes "survives m" "\<And>e. runs (h e)"
  shows "runs (catchIO m h)"
  unfolding runs_def
proof (intro allI impI)
  fix d :: Device assume d: "works d"
  obtain r d1 where m: "m d = (r, d1)" by force
  with assms(1) d have "r \<noteq> Died" "faults d1 = faults d" unfolding survives_def by auto
  show "\<exists>x d'. catchIO m h d = (Done x, d') \<and> faults d' = faults d"
  proof (cases r)
    case (Thrown e)
    have "works d1" using works_faults [OF \<open>faults d1 = faults d\<close> d] .
    then obtain x d' where "h e d1 = (Done x, d')" "faults d' = faults d1" using assms(2) unfolding runs_def by blast
    with m Thrown \<open>faults d1 = faults d\<close> show ?thesis by (simp add: catchIO_def)
  qed (use m \<open>r \<noteq> Died\<close> \<open>faults d1 = faults d\<close> in \<open>simp_all add: catchIO_def\<close>)
qed

lemma survives_lift [live_rules]: "survives (liftIO r)"
  by (cases r) (simp_all add: liftIO_def survives_throw runs_survives runs_return)

lemma survives_map [live_rules]: "(\<And>x. survives (f x)) \<Longrightarrow> survives (mapIO f xs)"
  by (induction xs) (auto intro!: survives_bind runs_survives [OF runs_return])

lemma runs_bestEffort [live_rules]: "runs (bestEffortRemove area key)" "runs (bestEffortSet area key value)" "runs (storageGet area key)"
    "runs (storageSet area key value)"
  by (auto simp: bestEffortRemove_def bestEffortSet_def storageSet_def storageRemove_def storageGet_def
      intro!: runs_catch runs_survives runs_bind runs_return runs_access)

lemma survives_loadComponent: "survives (loadComponent L m c)"
  unfolding loadComponent_def
  by (rule survives_bind [OF runs_survives [OF runs_bestEffort(3)]])
    (auto intro!: survives_throw survives_bind survives_lift runs_survives [OF runs_return] split: option.split)

lemma runs_settle: "runs (settleCommitted options j prepared m vs)"
  unfolding settleCommitted_def Let_def
  by (rule runs_bind) (auto intro!: runs_return runs_bestEffort runs_bind split: option.split)

lemma runs_loadStore: "runs (loadStore L options)"
proof -
  have "runs (loadWithoutPointer options j praw)" for j praw
    unfolding loadWithoutPointer_def by (auto intro!: runs_return runs_bestEffort runs_bind split: sum.split)
  moreover have "runs (loadCommitted L options j praw raw)" for j praw raw
    unfolding loadCommitted_def
    by (auto intro!: runs_return runs_bind runs_catch runs_settle survives_bind survives_map survives_loadComponent
        runs_survives [OF runs_return] split: option.split sum.split)
  ultimately show ?thesis
    unfolding loadStore_def by (intro runs_bind runs_bestEffort) (auto intro!: runs_return split: option.split sum.split)
qed

lemma works_quiet: "works d \<Longrightarrow> neverRejects d"
  by (simp add: works_def neverRejects_def)

lemma load_works:
  assumes "hash_ok L" "durable L options (contents d) s" "works d"
  obtains r d' where "loadStore L options d = (Done r, d')" "works d'" "durable L options (contents d') s" "reports options s r"
proof -
  obtain r d' where run: "loadStore L options d = (Done r, d')" "faults d' = faults d"
    using runs_loadStore assms(3) unfolding runs_def by blast
  with load_outcome [OF assms(1,2) run(1)] works_quiet [OF assms(3)] that works_faults assms(3) show ?thesis by auto
qed

section \<open>Commits\<close>

lemma runs_fold: "(\<And>x. x \<in> set xs \<Longrightarrow> runs (f x)) \<Longrightarrow> runs (foldIO f xs)"
  by (induction xs) (auto intro!: runs_return runs_bind)

lemma mapE_ok: "(\<And>x. x \<in> set xs \<Longrightarrow> \<exists>y. f x = Inr y \<and> P y) \<Longrightarrow> \<exists>ys. mapE f xs = Inr ys \<and> (\<forall>y \<in> set ys. P y)"
  by (induction xs) (auto simp: bindE_Inr_iff, metis insert_iff list.set(2))

lemma manifestComponents_ok:
  assumes "set (map cd_name (so_components options)) \<subseteq> set (map fst values)"
  shows "\<exists>cs. manifestComponents L options g values = Inr cs \<and> (\<forall>c \<in> set cs. map_of values (mf_name c) \<noteq> None)"
  unfolding manifestComponents_def
proof (rule mapE_ok)
  fix def assume "def \<in> set (so_components options)"
  then have "cd_name def \<in> set (map fst values)" using assms by auto
  then obtain payload where "map_of values (cd_name def) = Some payload" by (metis (no_types, lifting) map_of_eq_None_iff not_Some_eq set_map)
  then show "\<exists>y. (case map_of values (cd_name def) of
        None \<Rightarrow> Inl (JsError (''componente duravel '' @ cd_name def @ '' ausente''))
      | Some payload \<Rightarrow> Inr \<lparr>mf_name = cd_name def, mf_area = cd_area def,
          mf_key = componentKey (so_namespace options) g (cd_name def), mf_sha256 = digest L payload\<rparr>) = Inr y \<and>
      map_of values (mf_name y) \<noteq> None" by simp
qed

lemma runs_commitGeneration:
  assumes "set (map cd_name (so_components options)) \<subseteq> set (map fst values)"
  shows "runs (commitGeneration L options values c g)"
proof -
  obtain cs where cs: "manifestComponents L options g values = Inr cs" "\<forall>c \<in> set cs. map_of values (mf_name c) \<noteq> None"
    using manifestComponents_ok [OF assms] by blast
  have "runs (foldIO (storeComponent g values) cs)"
    using cs(2) by (intro runs_fold) (auto simp: storeComponent_def dest!: bspec intro: runs_bestEffort)
  then show ?thesis
    unfolding commitGeneration_def Let_def cs(1) liftIO_def sum.case bind_return by (intro runs_bind runs_return runs_bestEffort)
qed

text \<open>A commit of the configured components with a fresh generation returns.\<close>

lemma commit_works:
  assumes "hash_ok L" "validateDefinitions (so_namespace options) (so_components options) = Inr ()" "durable L options (contents d) s" "works d"
    "sameKeys (sortBy compareText (map fst values)) (sortBy compareText (map cd_name (so_components options)))"
    "set (map cd_name (so_components options)) \<subseteq> set (map fst values)"
    "\<And>current. \<exists>g. uniqueGeneration current (map nextGeneration [0..<8]) = Inr g"
  obtains result d' where "commitStore L options nextGeneration values d = (Done result, d')" "works d'"
    "durable L options (contents d') (Some (cr_generation result, payloadsOf options values))"
proof -
  obtain r d1 where load: "loadStore L options d = (Done r, d1)" "works d1" "reports options s r" by (rule load_works [OF assms(1,3,4)])
  obtain current where current: "(case r of LoadCorrupt reason \<Rightarrow> throwIO (JsError (''snapshot duravel anterior invalido: '' @ reason))
      | LoadCommitted current _ _ _ \<Rightarrow> returnIO (Some current) | LoadEmpty _ _ \<Rightarrow> returnIO None) = returnIO current"
    using load(3) by (cases r) (auto simp: reports_def split: option.splits)
  obtain g where g: "uniqueGeneration current (map nextGeneration [0..<8]) = Inr g" using assms(7) by blast
  obtain result d2 where final: "commitGeneration L options values current g d1 = (Done result, d2)" "faults d2 = faults d1"
    using runs_commitGeneration [OF assms(6)] load(2) unfolding runs_def by blast
  have run: "commitStore L options nextGeneration values d = (Done result, d2)"
    using assms(5) load(1) g final(1) by (simp add: commitStore_def bindIO_def liftIO_def returnIO_def current)
  from commit_outcome [OF assms(1-3) run] works_faults [OF final(2) load(2)] run that show thesis by simp
qed

text \<open>The generation source gives one that is fresh: the platform's random bytes, 32 of them.\<close>

definition freshGenerations :: "(nat \<Rightarrow> string + bytes) \<Rightarrow> bool" where
  "freshGenerations nextGeneration \<longleftrightarrow> (\<forall>current. isOk (uniqueGeneration current (map nextGeneration [0..<8])))"

lemma freshGenerations_example: "freshGenerations (\<lambda>n. Inl (sampleGeneration (of_nat n)))"
proof -
  have texts: "generationText (Inl (sampleGeneration b)) = Inr (sampleGeneration b)" for b
    using sampleGenerations(1) by (simp add: generationText_def)
  have "sampleGeneration 0 \<noteq> sampleGeneration 1" by code_simp
  then have "isOk (uniqueGeneration current (map (\<lambda>n. Inl (sampleGeneration (of_nat n))) (0 # 1 # ns)))" for current ns
    by (auto simp: texts)
  from this [of _ "[2..<8]"] show ?thesis by (simp add: freshGenerations_def upt_rec)
qed

end
