(* ===== verification/PayerAppFacts.thy ===== *)
theory PayerAppFacts
  imports PayerApp RecoveryTheorems StorageLive "HOL-Library.Sublist"
begin

text \<open>
  The runs of the payer's application on a failing device, and their invariant: what the store
  holds and what the screen shows are prefixes of one chain of payments.
\<close>

section \<open>Runs\<close>

text \<open>The screens are drawn only with a session; \<open>onScreen\<close> is what a merchant can read.\<close>

definition usable :: "PayerApp \<Rightarrow> bool" where
  "usable app \<longleftrightarrow> pa_bootstrapStatus app = BootstrapDone \<and> pa_sessionRuntime app \<noteq> None \<and> pa_parent app \<noteq> None"

definition onScreen :: "PayerApp \<Rightarrow> string list set" where
  "onScreen app = (if usable app \<and> pa_screen app = ShowCredentialScreen then {pa_outgoingFrames app} else {})"

text \<open>What the user does without touching the storage.\<close>

inductive touch :: "lib \<Rightarrow> PayerApp \<Rightarrow> PayerApp \<Rightarrow> bool" for L where
  pay: "pa_screen app = HomeScreen \<Longrightarrow> touch L app (startScan ScanChallengeScreen app)"
| challenge: "pa_screen app = ScanChallengeScreen \<Longrightarrow> touch L app (scanChallenge L raw app)"
| cancelScan: "pa_screen app = ScanChallengeScreen \<Longrightarrow> touch L app (cancelTo HomeScreen app)"
| cancelPayment: "pa_screen app = ConfirmScreen \<Longrightarrow> touch L app (cancelTo HomeScreen app)"
| receipt: "pa_screen app = ShowCredentialScreen \<Longrightarrow> touch L app (startScan ScanReceiptScreen app)"
| cancelReceipt: "pa_screen app = ScanReceiptScreen \<Longrightarrow> touch L app (cancelTo ShowCredentialScreen app)"
| finish: "pa_screen app = CompleteScreen \<Longrightarrow> touch L app (finishPayment app)"

text \<open>
  A run from an installation: the disk, the application if the process lives, and all frames ever
  shown. Each storage operation meets a device of its own, with any faults; a handler runs to its
  end before the next one starts.
\<close>

inductive payerRun ::
  "lib \<Rightarrow> PayerRuntimeEnvironment \<Rightarrow> PayerRecoveryStorageSnapshot io \<Rightarrow> disk \<Rightarrow> disk \<Rightarrow> PayerApp option \<Rightarrow> string list set \<Rightarrow> bool"
  for L penv legacy x0 where
  installed: "payerRun L penv legacy x0 x0 None {}"
| booted: "payerRun L penv legacy x0 x a S \<Longrightarrow> contents d = x \<Longrightarrow> bootPayer L penv (loadPayer L legacy) d = (Done app, d') \<Longrightarrow>
    payerRun L penv legacy x0 (contents d') (Some app) (S \<union> onScreen app)"
| bootDied: "payerRun L penv legacy x0 x a S \<Longrightarrow> contents d = x \<Longrightarrow> bootPayer L penv (loadPayer L legacy) d = (Died, d') \<Longrightarrow>
    payerRun L penv legacy x0 (contents d') None S"
| killed: "payerRun L penv legacy x0 x a S \<Longrightarrow> payerRun L penv legacy x0 x None S"
| touched: "payerRun L penv legacy x0 x (Some app) S \<Longrightarrow> usable app \<Longrightarrow> touch L app app' \<Longrightarrow>
    payerRun L penv legacy x0 x (Some app') (S \<union> onScreen app')"
| paid: "payerRun L penv legacy x0 x (Some app) S \<Longrightarrow> usable app \<Longrightarrow> pa_screen app = ConfirmScreen \<Longrightarrow> contents d = x \<Longrightarrow>
    authorizePayment L (loadPayer L legacy) (commitPayer L nextGeneration) app app d = (Done app', d') \<Longrightarrow>
    payerRun L penv legacy x0 (contents d') (Some app') (S \<union> onScreen app')"
| payDied: "payerRun L penv legacy x0 x (Some app) S \<Longrightarrow> usable app \<Longrightarrow> pa_screen app = ConfirmScreen \<Longrightarrow> contents d = x \<Longrightarrow>
    authorizePayment L (loadPayer L legacy) (commitPayer L nextGeneration) app app d = (Died, d') \<Longrightarrow>
    payerRun L penv legacy x0 (contents d') None S"
| received: "payerRun L penv legacy x0 x (Some app) S \<Longrightarrow> usable app \<Longrightarrow> pa_screen app = ScanReceiptScreen \<Longrightarrow> contents d = x \<Longrightarrow>
    scanReceipt L (commitPayer L nextGeneration) raw app d = (Done app', d') \<Longrightarrow>
    payerRun L penv legacy x0 (contents d') (Some app') (S \<union> onScreen app')"
| receiptDied: "payerRun L penv legacy x0 x (Some app) S \<Longrightarrow> usable app \<Longrightarrow> pa_screen app = ScanReceiptScreen \<Longrightarrow> contents d = x \<Longrightarrow>
    scanReceipt L (commitPayer L nextGeneration) raw app d = (Died, d') \<Longrightarrow>
    payerRun L penv legacy x0 (contents d') None S"

section \<open>The invariant\<close>

definition sessionBundle :: "PayerSessionRuntime \<Rightarrow> PaymentCredential list \<Rightarrow> CredentialProofBundle" where
  "sessionBundle rt cs = \<lparr>sessionCertificate = rt_sessionCertificate rt, deviceAuthorization = rt_deviceAuthorization rt, credentials = cs\<rparr>"

definition conveys :: "lib \<Rightarrow> PayerSessionRuntime \<Rightarrow> string list \<Rightarrow> PaymentCredential list \<Rightarrow> bool" where
  "conveys L rt frames cs \<longleftrightarrow> receiveCredential L frames = Inr (sessionBundle rt cs) \<and>
     isOk (validateCredentialProofBundle L (rt_trustContext rt) (sessionBundle rt cs))"

definition soundRuntime :: "lib \<Rightarrow> OfflineTrustEnvironment \<Rightarrow> PayerSessionRuntime \<Rightarrow> bool" where
  "soundRuntime L env rt \<longleftrightarrow> rt_trustContext rt = payerTrustContext env (sc_sessionId (rt_sessionCertificate rt)) \<and>
     rt_initialParent rt = genesisParent (rt_sessionCertificate rt)"

definition heldPayments ::
  "lib \<Rightarrow> OfflineTrustEnvironment \<Rightarrow> PayerSessionRuntime \<Rightarrow> PaymentCredential list \<Rightarrow> disk \<Rightarrow> bool" where
  "heldPayments L env rt cs x \<longleftrightarrow> (\<exists>ps s. payerHolds L (Some ps) x \<and> restoreAll L ps env = Inr s \<and> rp_runtime s = rt \<and> rp_credentials s = cs)"

text \<open>A usable application is at the end of its payments, and has the frames of exactly these.\<close>

definition appOk :: "lib \<Rightarrow> PayerSessionRuntime \<Rightarrow> PayerApp \<Rightarrow> bool" where
  "appOk L rt app \<longleftrightarrow> pa_sessionRuntime app = Some rt \<and>
     (\<exists>p. pa_parent app = Some p \<and>
       validateCredentialProofBundle L (rt_trustContext rt) (sessionBundle rt (pa_credentials app)) = Inr p) \<and>
     validBundle (sessionBundle rt (pa_credentials app)) \<and>
     (pa_screen app = ShowCredentialScreen \<or> pa_screen app = ScanReceiptScreen \<longrightarrow> pa_outgoingFrames app \<noteq> []) \<and>
     (pa_outgoingFrames app \<noteq> [] \<longrightarrow> conveys L rt (pa_outgoingFrames app) (pa_credentials app))"

definition allWithin :: "lib \<Rightarrow> PayerSessionRuntime \<Rightarrow> string list set \<Rightarrow> PaymentCredential list \<Rightarrow> bool" where
  "allWithin L rt S cs \<longleftrightarrow> (\<forall>fs \<in> S. \<exists>ps. conveys L rt fs ps \<and> prefix ps cs)"

definition runInvariant ::
  "lib \<Rightarrow> OfflineTrustEnvironment \<Rightarrow> PayerSessionRuntime \<Rightarrow> disk \<Rightarrow> PayerApp option \<Rightarrow> string list set \<Rightarrow> bool" where
  "runInvariant L env rt x a S \<longleftrightarrow> (\<exists>cs. heldPayments L env rt cs x \<and> allWithin L rt S cs) \<and>
     (\<forall>app. a = Some app \<longrightarrow> usable app \<longrightarrow> appOk L rt app \<and> allWithin L rt S (pa_credentials app) \<and>
       (pa_screen app = ShowCredentialScreen \<or> pa_screen app = ScanReceiptScreen \<longrightarrow> pa_outgoingFrames app \<in> S))"

lemma allWithin_empty [simp]: "allWithin L rt {} cs"
  by (simp add: allWithin_def)

lemma allWithin_longer: "allWithin L rt S cs \<Longrightarrow> prefix cs ds \<Longrightarrow> allWithin L rt S ds"
  unfolding allWithin_def by (meson prefix_order.trans)

lemma allWithin_screen:
  assumes "allWithin L rt S cs" "usable app \<Longrightarrow> appOk L rt app"
    "usable app \<Longrightarrow> pa_screen app = ShowCredentialScreen \<Longrightarrow> prefix (pa_credentials app) cs"
  shows "allWithin L rt (S \<union> onScreen app) cs"
  using assms by (auto simp: allWithin_def onScreen_def appOk_def)

section \<open>Restored sessions\<close>

lemma restored_runtime:
  assumes "borsh_ok L" "hash_ok L" "restoreAll L ps env = Inr s"
  shows "soundRuntime L env (rp_runtime s)"
    "validateCredentialProofBundle L (rt_trustContext (rp_runtime s)) (sessionBundle (rp_runtime s) (rp_credentials s)) = Inr (rp_parent s)"
    "validBundle (sessionBundle (rp_runtime s) (rp_credentials s))"
    "rp_outgoingFrames s \<noteq> [] \<Longrightarrow> conveys L (rp_runtime s) (rp_outgoingFrames s) (rp_credentials s)"
proof -
  let ?rt = "rp_runtime s"
  let ?cert = "rt_sessionCertificate ?rt" and ?auth = "rt_deviceAuthorization ?rt" and ?cx = "rt_trustContext ?rt"
  have sound: "soundSession L env s" by (rule restore_sound [OF assms(1) assms(3) [unfolded restoreAll_def]])
  then have s: "?cx = payerTrustContext env (sc_sessionId ?cert)" "validateCertificateChain L ?cx ?cert ?auth = Inr ()"
    "genesisStateHash L (genesisOf ?cx ?cert) = Inr (sc_genesisStateHash ?cert)" "rt_initialParent ?rt = genesisParent ?cert"
    and proven: "provenBy L ?cx ?auth ?cert (rp_outgoingFrames s) (rp_parent s) (rp_credentials s)"
    unfolding soundSession_def Let_def by blast+
  show "soundRuntime L env ?rt" using s by (simp add: soundRuntime_def)
  note state = proven_state [OF assms(1,2) s(2) proven]
  show valid: "validateCredentialProofBundle L ?cx (sessionBundle ?rt (rp_credentials s)) = Inr (rp_parent s)"
    using s state(1,2) by (simp add: validateCredentialProofBundle_iff sessionBundle_def)
  show "conveys L ?rt (rp_outgoingFrames s) (rp_credentials s)" if "rp_outgoingFrames s \<noteq> []"
    using that proven valid by (simp add: conveys_def provenBy_def sessionBundle_def)
  obtain a c where "encodeDeviceAuthorization L ?auth = Inr a" "encodeSessionCertificate L ?cert = Inr c"
    using assms(3) unfolding restoreAll_def restore_iff [OF assms(1)] by (auto simp: restoredAs_def)
  then have ends: "validSessionCertificate ?cert" "length (sc_issuerSignature ?cert) = 64" "validDeviceAuthorization ?auth"
    "length (da_walletSignature ?auth) = 64"
    using encodeDeviceAuthorization_ok [OF assms(1), of ?auth] encodeSessionCertificate_ok [OF assms(1), of ?cert] by auto
  show "validBundle (sessionBundle ?rt (rp_credentials s))"
  proof (cases "rp_outgoingFrames s = []")
    case True
    with proven ends show ?thesis by (simp add: validBundle_def sessionBundle_def provenBy_def)
  next
    case False
    with proven have "receiveCredential L (rp_outgoingFrames s) = Inr (sessionBundle ?rt (rp_credentials s))"
      by (simp add: provenBy_def sessionBundle_def)
    then show ?thesis by (auto simp: receiveCredential_def bindE_Inr_iff decodeBundle_iff [OF assms(1)])
  qed
qed

lemma restoredApp_ok:
  assumes "borsh_ok L" "hash_ok L" "restoreAll L ps env = Inr s" "usable (restoredApp s)"
  shows "appOk L (rp_runtime s) (restoredApp s)" "pa_credentials (restoredApp s) = rp_credentials s"
proof -
  obtain account where account: "runtimeHexToBytes (lp_sessionAccount (ro_localProvisioning s)) = Inr account"
    using assms(4) by (cases "runtimeHexToBytes (lp_sessionAccount (ro_localProvisioning s))")
      (auto simp: usable_def restoredApp_def initialPayerApp_def Let_def)
  note restored = restored_runtime [OF assms(1-3)]
  have pending: "rp_pendingDelivery s \<longrightarrow> rp_outgoingFrames s \<noteq> []"
    using assms(3) unfolding restoreAll_def restore_iff [OF assms(1)]
    by (auto simp: restoredAs_def parseBranchState_def bindE_Inr_iff)
  show "appOk L (rp_runtime s) (restoredApp s)"
    using restored pending by (auto simp: appOk_def restoredApp_def Let_def account initialPayerApp_def)
  show "pa_credentials (restoredApp s) = rp_credentials s"
    by (simp add: restoredApp_def Let_def account)
qed

lemma restoredApp_screen: "pa_screen (restoredApp s) \<noteq> ScanReceiptScreen"
  by (simp add: restoredApp_def Let_def initialPayerApp_def split: sum.split)

section \<open>Storing the next state\<close>

lemma persisted_held:
  assumes "borsh_ok L" "hash_ok L" "soundRuntime L env rt"
    "createPersistedOnchainSession L \<lparr>pi_sessionAccount = account, pi_runtime = rt, pi_parent = Some p, pi_frames = Some frames,
      pi_pendingDelivery = Some pending\<rparr> = Inr ps" "payerHolds L (Some ps) y" "conveys L rt frames cs" "frames \<noteq> []"
  shows "heldPayments L env rt cs y"
proof -
  let ?i = "\<lparr>pi_sessionAccount = account, pi_runtime = rt, pi_parent = Some p, pi_frames = Some frames, pi_pendingDelivery = Some pending\<rparr>"
  obtain payments where st: "storable L ?i payments" using persisted_storable [OF assms(1,4)] by blast
  have env: "environmentOf (rt_trustContext rt) = env" using assms(3) by (simp add: soundRuntime_def environmentOf_payerTrust)
  obtain r where r: "restoreAll L ps env = Inr r" "rp_runtime r = rt\<lparr>rt_initialParent := genesisParent (rt_sessionCertificate rt)\<rparr>"
    "rp_credentials r = payments"
    using stored_restores [OF assms(1,2) st assms(4)] env by auto
  have "rp_runtime r = rt" using r(2) assms(3) by (simp add: soundRuntime_def)
  moreover have "payments = cs"
    using st assms(6,7) by (auto simp: storable_def Let_def provenBy_def storedFrames_def conveys_def sessionBundle_def)
  ultimately show ?thesis using r assms(5) by (auto simp: heldPayments_def)
qed

lemma triple_persistBranch:
  assumes "hash_ok L" "payerHolds L (Some ps) x" "pa_sessionRuntime app = Some rt"
  shows "triple F ((=) x) (persistBranchState L (commitPayer L nextGeneration) app frames pending p)
    (\<lambda>_ y. \<exists>account ps'. createPersistedOnchainSession L \<lparr>pi_sessionAccount = account, pi_runtime = rt, pi_parent = Some p,
        pi_frames = Some frames, pi_pendingDelivery = Some pending\<rparr> = Inr ps' \<and> payerHolds L (Some ps') y)
    (\<lambda>y. payerHolds L (Some ps) y \<or> (\<exists>account ps'. createPersistedOnchainSession L \<lparr>pi_sessionAccount = account, pi_runtime = rt,
        pi_parent = Some p, pi_frames = Some frames, pi_pendingDelivery = Some pending\<rparr> = Inr ps' \<and> payerHolds L (Some ps') y))
    (\<lambda>y. payerHolds L (Some ps) y \<or> (\<exists>account ps'. createPersistedOnchainSession L \<lparr>pi_sessionAccount = account, pi_runtime = rt,
        pi_parent = Some p, pi_frames = Some frames, pi_pendingDelivery = Some pending\<rparr> = Inr ps' \<and> payerHolds L (Some ps') y))"
    (is "triple F _ _ ?Q ?E ?E")
proof (cases "pa_onchainSessionAccount app")
  case None
  then show ?thesis using assms(2,3) by (auto simp: persistBranchState_def intro!: triple_throw)
next
  case (Some account)
  let ?i = "\<lparr>pi_sessionAccount = account, pi_runtime = rt, pi_parent = Some p, pi_frames = Some frames, pi_pendingDelivery = Some pending\<rparr>"
  have "triple F ((=) x) (bindIO (liftIO (createPersistedOnchainSession L ?i)) (commitPayer L nextGeneration)) ?Q ?E ?E"
  proof (rule triple_bind [where M = "\<lambda>ps' y. createPersistedOnchainSession L ?i = Inr ps' \<and> y = x"])
    show "triple F ((=) x) (liftIO (createPersistedOnchainSession L ?i)) (\<lambda>ps' y. createPersistedOnchainSession L ?i = Inr ps' \<and> y = x) ?E ?E"
      by (rule triple_lift) (use assms(2) in auto)
    fix ps'
    show "triple F (\<lambda>y. createPersistedOnchainSession L ?i = Inr ps' \<and> y = x) (commitPayer L nextGeneration ps') ?Q ?E ?E"
    proof (rule triple_known)
      assume c: "createPersistedOnchainSession L ?i = Inr ps'"
      show "triple F ((=) x) (commitPayer L nextGeneration ps') ?Q ?E ?E"
        by (rule triple_weaken [OF triple_commitPayer [OF assms(1,2), unfolded keepsValue_Some]]) (use c in blast)+
    qed
  qed
  then show ?thesis using Some assms(3) by (simp add: persistBranchState_def)
qed

section \<open>One more payment\<close>

lemma payment_carried:
  assumes "borsh_ok L" "hash_ok L" "signature_ok L"
    "validateCredentialProofBundle L (rt_trustContext rt) (sessionBundle rt cs) = Inr p" "validBundle (sessionBundle rt cs)"
    "paymentFor L rt p ch secret = Inr c" "sendCredential L payerTransport (sessionBundle rt (cs @ [c])) = Inr frames"
  shows "conveys L rt frames (cs @ [c])" "validBundle (sessionBundle rt (cs @ [c]))" "frames \<noteq> []"
    "validateCredentialProofBundle L (rt_trustContext rt) (sessionBundle rt (cs @ [c])) = Inr (nextParent c)"
proof -
  let ?cx = "rt_trustContext rt" and ?cert = "rt_sessionCertificate rt"
  obtain rq sk where c: "createPaymentCredential L ?cx ?cert p rq sk = Inr c"
    using assms(6) by (auto simp: paymentFor_def bindE_Inr_iff split: option.splits)
  show valid: "validateCredentialProofBundle L ?cx (sessionBundle rt (cs @ [c])) = Inr (nextParent c)"
    using bundle_extended [OF assms(3,4), of rq sk c] c by (simp add: sessionBundle_def)
  obtain m where "encodePaymentCredentialPayload L c = Inr m" using c unfolding createPaymentCredential_iff by blast
  then have "validPaymentCredential c" using encodePaymentCredentialPayload_ok [OF assms(1)] by (metis isOk_simps(1))
  moreover have "length (pc_payerSignature c) = 64" by (rule created_validates(2) [OF assms(3) c])
  moreover have "length (cs @ [c]) \<le> 32" using valid by (simp add: validateCredentialProofBundle_iff sessionBundle_def)
  ultimately show wf: "validBundle (sessionBundle rt (cs @ [c]))" using assms(5) by (simp add: validBundle_def sessionBundle_def)
  obtain bs where bs: "encodeCredentialProofBundle L (sessionBundle rt (cs @ [c])) = Inr bs" "frame L payerTransport CredentialBundleMessage bs = Inr frames"
    using assms(7) by (auto simp: sendCredential_def bindE_Inr_iff)
  have "0 < qr_chunkBytes payerTransport" by (simp add: payerTransport_def DEFAULT_CHUNK_BYTES_def)
  from frames_assemble [OF assms(2) this bs(2) refl] have received: "receiveCredential L frames = Inr (sessionBundle rt (cs @ [c]))"
    using wf bs(1) by (simp add: receiveCredential_def decodeBundle_iff [OF assms(1)])
  with valid show "conveys L rt frames (cs @ [c])" by (simp add: conveys_def)
  from received show "frames \<noteq> []" by (auto simp: receiveCredential_def assemble_def bindE_Inr_iff)
qed

lemma triple_storePayment:
  assumes "hash_ok L" "readsOnly legacy" "payerHolds L (Some ps) x" "pa_sessionRuntime app = Some rt"
  shows "triple F ((=) x) (storePayment L (loadPayer L legacy) (commitPayer L nextGeneration) app rt p ch)
    (\<lambda>(c, frames) y. \<exists>secret account ps'. paymentFor L rt p ch secret = Inr c \<and>
      sendCredential L payerTransport (sessionBundle rt (pa_credentials app @ [c])) = Inr frames \<and>
      createPersistedOnchainSession L \<lparr>pi_sessionAccount = account, pi_runtime = rt, pi_parent = Some (nextParent c),
        pi_frames = Some frames, pi_pendingDelivery = Some True\<rparr> = Inr ps' \<and> payerHolds L (Some ps') y)
    (\<lambda>y. payerHolds L (Some ps) y \<or> (\<exists>c frames secret account ps'. paymentFor L rt p ch secret = Inr c \<and>
      sendCredential L payerTransport (sessionBundle rt (pa_credentials app @ [c])) = Inr frames \<and>
      createPersistedOnchainSession L \<lparr>pi_sessionAccount = account, pi_runtime = rt, pi_parent = Some (nextParent c),
        pi_frames = Some frames, pi_pendingDelivery = Some True\<rparr> = Inr ps' \<and> payerHolds L (Some ps') y))
    (\<lambda>y. payerHolds L (Some ps) y \<or> (\<exists>c frames secret account ps'. paymentFor L rt p ch secret = Inr c \<and>
      sendCredential L payerTransport (sessionBundle rt (pa_credentials app @ [c])) = Inr frames \<and>
      createPersistedOnchainSession L \<lparr>pi_sessionAccount = account, pi_runtime = rt, pi_parent = Some (nextParent c),
        pi_frames = Some frames, pi_pendingDelivery = Some True\<rparr> = Inr ps' \<and> payerHolds L (Some ps') y))"
    (is "triple F _ _ ?Q ?E ?E")
  unfolding storePayment_def sessionBundle_def [symmetric]
proof (rule triple_bind [where M = "\<lambda>_. payerHolds L (Some ps)"])
  show "triple F ((=) x) (loadPayer L legacy) (\<lambda>_. payerHolds L (Some ps)) ?E ?E"
    by (rule triple_weaken [OF triple_loadPayer [OF assms(1-3)]]) auto
next
  fix sn :: PayerRecoveryStorageSnapshot
  let ?secret = "sn_deviceSecretHex sn"
  show "triple F (payerHolds L (Some ps)) (bindIO (liftIO (paymentFor L rt p ch ?secret)) (\<lambda>credential.
      bindIO (liftIO (sendCredential L payerTransport (sessionBundle rt (pa_credentials app @ [credential])))) (\<lambda>frames.
      bindIO (persistBranchState L (commitPayer L nextGeneration) app frames True (nextParent credential)) (\<lambda>_. returnIO (credential, frames))))) ?Q ?E ?E"
  proof (rule triple_bind [where M = "\<lambda>c y. paymentFor L rt p ch ?secret = Inr c \<and> payerHolds L (Some ps) y"], (rule triple_lift; blast),
      rule triple_bind [where M = "\<lambda>frames y. paymentFor L rt p ch ?secret = Inr c \<and>
        sendCredential L payerTransport (sessionBundle rt (pa_credentials app @ [c])) = Inr frames \<and> payerHolds L (Some ps) y" for c],
      (rule triple_lift; blast))
    fix c frames
    show "triple F (\<lambda>y. paymentFor L rt p ch ?secret = Inr c \<and>
        sendCredential L payerTransport (sessionBundle rt (pa_credentials app @ [c])) = Inr frames \<and> payerHolds L (Some ps) y)
      (bindIO (persistBranchState L (commitPayer L nextGeneration) app frames True (nextParent c)) (\<lambda>_. returnIO (c, frames))) ?Q ?E ?E"
    proof (rule triple_pre, elim conjE)
      fix y assume c: "paymentFor L rt p ch ?secret = Inr c"
        "sendCredential L payerTransport (sessionBundle rt (pa_credentials app @ [c])) = Inr frames" and y: "payerHolds L (Some ps) y"
      show "triple F ((=) y) (bindIO (persistBranchState L (commitPayer L nextGeneration) app frames True (nextParent c)) (\<lambda>_. returnIO (c, frames))) ?Q ?E ?E"
        by (rule triple_bind [OF triple_weaken [OF triple_persistBranch [OF assms(1) y assms(4)]]])
          (use c in \<open>blast intro: triple_return\<close>)+
    qed
  qed
qed

section \<open>Every step keeps the invariant\<close>

lemma runInvariant_dead: "runInvariant L env rt x a S \<Longrightarrow> runInvariant L env rt x None S"
  by (simp add: runInvariant_def)

lemma runInvariantI:
  assumes "heldPayments L env rt cs x" "allWithin L rt S cs" "usable app \<Longrightarrow> appOk L rt app"
    "usable app \<Longrightarrow> pa_screen app = ShowCredentialScreen \<Longrightarrow> prefix (pa_credentials app) cs"
    "usable app \<Longrightarrow> allWithin L rt S (pa_credentials app)" "usable app \<Longrightarrow> pa_screen app = ScanReceiptScreen \<Longrightarrow> pa_outgoingFrames app \<in> S"
  shows "runInvariant L env rt x (Some app) (S \<union> onScreen app)"
proof -
  have "allWithin L rt (S \<union> onScreen app) cs" using assms(2,3,4) by (rule allWithin_screen)
  moreover have "allWithin L rt (S \<union> onScreen app) (pa_credentials app)" if "usable app"
    using assms(5) [OF that] assms(3) by (rule allWithin_screen) auto
  ultimately show ?thesis using assms(1,3,6) by (auto simp: runInvariant_def onScreen_def)
qed

lemma triple_boot:
  assumes "hash_ok L" "readsOnly legacy" "configuredTrustEnvironment penv = Inr env" "payerHolds L (Some ps) x" "restoreAll L ps env = Inr s"
  shows "triple F ((=) x) (bootPayer L penv (loadPayer L legacy))
    (\<lambda>app y. payerHolds L (Some ps) y \<and> (app = restoredApp s \<or> \<not> usable app)) (\<lambda>_. False) (payerHolds L (Some ps))"
proof -
  let ?input = "\<lparr>ri_connected = False, ri_walletOwnerHex = None, ri_expectedEnvironment = env\<rparr>"
  let ?held = "payerHolds L (Some ps)"
  have snapshot: "restoreSnapshot L env (payerSnapshot ps) = (Some s, None)"
    using assms(5) by (simp add: restoreSnapshot_def payerSnapshot_def hasCompleteOnchainStorage_def restoreAll_def)
  have "triple F ((=) x) (evaluatePayerRecovery L ?input (loadPayer L legacy) forbiddenOfflineChainRead)
      (\<lambda>r y. ?held y \<and> (rr_restoredSession r = Some s \<or> rr_restoredSession r = None)) ?held ?held"
    unfolding evaluatePayerRecovery_def restoreLocal_def
  proof (rule triple_bind [where M = "\<lambda>re y. re = (Some s, None) \<and> ?held y"])
    show "triple F ((=) x) (bindIO (loadPayer L legacy) (\<lambda>snapshot. returnIO (restoreSnapshot L (ri_expectedEnvironment ?input) snapshot)))
        (\<lambda>re y. re = (Some s, None) \<and> ?held y) ?held ?held"
      by (rule triple_bind [OF triple_loadPayer [OF assms(1,2,4)]]) (auto simp: snapshot intro!: triple_return)
  qed (auto simp: Let_def split: prod.split intro!: triple_return)
  then have "triple F ((=) x) (bindIO (liftIO (configuredTrustEnvironment penv)) (\<lambda>expected.
      bindIO (evaluatePayerRecovery L \<lparr>ri_connected = False, ri_walletOwnerHex = None, ri_expectedEnvironment = expected\<rparr>
        (loadPayer L legacy) forbiddenOfflineChainRead) (\<lambda>recovery.
      (case rr_restoredSession recovery of
         Some restored \<Rightarrow>
           if sad_outcome (rr_decision recovery) = OfflineReady then returnIO (restoredApp restored)
           else returnIO (initialPayerApp\<lparr>pa_error := map_option JsError (rr_localValidationError recovery),
             pa_bootstrapStatus := OnlineRecoveryNeeded\<rparr>)
       | None \<Rightarrow>
           returnIO (initialPayerApp\<lparr>pa_error := map_option JsError (rr_localValidationError recovery),
             pa_bootstrapStatus := OnlineRecoveryNeeded\<rparr>)))))
      (\<lambda>app y. ?held y \<and> (app = restoredApp s \<or> \<not> usable app)) ?held ?held"
    unfolding assms(3) liftIO_def sum.case bind_return
    by (rule triple_bind) (auto simp: usable_def split: option.split intro!: triple_return)
  then show ?thesis unfolding bootPayer_def by (rule triple_catch) (auto simp: usable_def intro!: triple_return)
qed

lemma boot_step:
  assumes L: "borsh_ok L" "hash_ok L" and io: "readsOnly legacy" "configuredTrustEnvironment penv = Inr env"
    and inv: "runInvariant L env rt (contents d) a S" and run: "bootPayer L penv (loadPayer L legacy) d = (r, d')"
  shows "(\<forall>app. r = Done app \<longrightarrow> runInvariant L env rt (contents d') (Some app) (S \<union> onScreen app)) \<and> runInvariant L env rt (contents d') None S"
proof -
  obtain ps s where ps: "payerHolds L (Some ps) (contents d)" "restoreAll L ps env = Inr s" "rp_runtime s = rt"
    and within: "allWithin L rt S (rp_credentials s)"
    using inv by (auto simp: runInvariant_def heldPayments_def)
  note after = run_triple [OF triple_boot [OF L(2) io ps(1,2)] run]
  have held: "heldPayments L env rt (rp_credentials s) y" if "payerHolds L (Some ps) y" for y
    using that ps by (auto simp: heldPayments_def)
  have still: "payerHolds L (Some ps) (contents d')" using after by (cases r) auto
  have "runInvariant L env rt (contents d') (Some app) (S \<union> onScreen app)" if "r = Done app" for app
  proof (rule runInvariantI [OF held [OF still] within])
    assume u: "usable app"
    with after that have app: "app = restoredApp s" by simp
    note ok = restoredApp_ok [OF L ps(2) u [unfolded app]]
    show "appOk L rt app" "prefix (pa_credentials app) (rp_credentials s)" "allWithin L rt S (pa_credentials app)"
      "pa_screen app = ScanReceiptScreen \<Longrightarrow> pa_outgoingFrames app \<in> S"
      using ok within ps(3) restoredApp_screen [of s] by (simp_all add: app)
  qed
  with held [OF still] within show ?thesis by (auto simp: runInvariant_def)
qed

lemma touch_keeps:
  assumes "touch L app app'"
  shows "pa_sessionRuntime app' = pa_sessionRuntime app" "pa_credentials app' = pa_credentials app" "usable app' = usable app"
    "appOk L rt app \<Longrightarrow> appOk L rt app'"
    "pa_screen app' = ShowCredentialScreen \<or> pa_screen app' = ScanReceiptScreen \<Longrightarrow>
      (pa_screen app = ShowCredentialScreen \<or> pa_screen app = ScanReceiptScreen) \<and> pa_outgoingFrames app' = pa_outgoingFrames app"
proof -
  have scan: "pa_sessionRuntime (scanChallenge L raw app) = pa_sessionRuntime app \<and> pa_credentials (scanChallenge L raw app) = pa_credentials app \<and>
      pa_parent (scanChallenge L raw app) = pa_parent app \<and> pa_outgoingFrames (scanChallenge L raw app) = pa_outgoingFrames app \<and>
      pa_bootstrapStatus (scanChallenge L raw app) = pa_bootstrapStatus app \<and>
      (pa_screen (scanChallenge L raw app) = pa_screen app \<or> pa_screen (scanChallenge L raw app) = ConfirmScreen)" for raw
    by (auto simp: scanChallenge_def reportScanError_def Let_def split: sum.split)
  show "pa_sessionRuntime app' = pa_sessionRuntime app" "pa_credentials app' = pa_credentials app" "usable app' = usable app"
    using assms by (cases; auto simp: startScan_def cancelTo_def finishPayment_def usable_def scan)+
  show "appOk L rt app \<Longrightarrow> appOk L rt app'"
    using assms
  proof cases
    case (challenge raw)
    then show "appOk L rt app \<Longrightarrow> appOk L rt app'" using scan [of raw] by (auto simp: appOk_def)
  qed (auto simp: appOk_def startScan_def cancelTo_def finishPayment_def)
  show "(pa_screen app = ShowCredentialScreen \<or> pa_screen app = ScanReceiptScreen) \<and> pa_outgoingFrames app' = pa_outgoingFrames app"
    if "pa_screen app' = ShowCredentialScreen \<or> pa_screen app' = ScanReceiptScreen"
    using assms that
  proof cases
    case (challenge raw)
    then show ?thesis using scan [of raw] that by auto
  qed (auto simp: startScan_def cancelTo_def finishPayment_def)
qed

text \<open>The store has moved on, the application has not.\<close>

lemma invariant_store:
  assumes "runInvariant L env rt x (Some app) S" "heldPayments L env rt cs y" "allWithin L rt S cs"
    "pa_sessionRuntime app' = pa_sessionRuntime app" "pa_parent app' = pa_parent app" "pa_credentials app' = pa_credentials app"
    "pa_outgoingFrames app' = pa_outgoingFrames app" "pa_bootstrapStatus app' = pa_bootstrapStatus app"
    "pa_screen app' = pa_screen app \<or> pa_screen app' = CompleteScreen"
  shows "runInvariant L env rt y (Some app') (S \<union> onScreen app')"
proof -
  have u: "usable app' = usable app" using assms(4,5,8) by (simp add: usable_def)
  have known: "appOk L rt app" "allWithin L rt S (pa_credentials app)"
    "pa_screen app = ShowCredentialScreen \<or> pa_screen app = ScanReceiptScreen \<Longrightarrow> pa_outgoingFrames app \<in> S" if "usable app"
    using assms(1) that by (auto simp: runInvariant_def)
  have "onScreen app' \<subseteq> S"
    using known(3) assms(9) by (auto simp: onScreen_def u assms(7))
  then have S: "S \<union> onScreen app' = S" by blast
  have ok: "appOk L rt app'" if "usable app"
    using known(1) [OF that] assms(9) unfolding appOk_def assms(4-7) by auto
  have screens: "pa_outgoingFrames app' \<in> S" if "usable app" "pa_screen app' = ShowCredentialScreen \<or> pa_screen app' = ScanReceiptScreen"
    using known(3) [OF that(1)] that(2) assms(9) unfolding assms(7) by auto
  show ?thesis unfolding S runInvariant_def option.inject
    using assms(2,3) ok known(2) screens u assms(6) by metis
qed

lemma pay_step:
  assumes L: "borsh_ok L" "hash_ok L" "signature_ok L" and io: "readsOnly legacy" and sound: "soundRuntime L env rt"
    and inv: "runInvariant L env rt (contents d) (Some app) S" and app: "usable app"
    and run: "authorizePayment L (loadPayer L legacy) (commitPayer L nextGeneration) app app d = (r, d')"
  shows "(\<forall>app'. r = Done app' \<longrightarrow> runInvariant L env rt (contents d') (Some app') (S \<union> onScreen app')) \<and> runInvariant L env rt (contents d') None S"
proof -
  obtain ps s where ps: "payerHolds L (Some ps) (contents d)" "restoreAll L ps env = Inr s" "rp_runtime s = rt"
    and within: "allWithin L rt S (rp_credentials s)"
    using inv by (auto simp: runInvariant_def heldPayments_def)
  have ok: "appOk L rt app" "allWithin L rt S (pa_credentials app)" using inv app by (auto simp: runInvariant_def)
  then obtain p where p: "pa_sessionRuntime app = Some rt" "pa_parent app = Some p"
    "validateCredentialProofBundle L (rt_trustContext rt) (sessionBundle rt (pa_credentials app)) = Inr p"
    "validBundle (sessionBundle rt (pa_credentials app))"
    unfolding appOk_def by blast
  let ?cs = "pa_credentials app"
  have old: "heldPayments L env rt (rp_credentials s) y" if "payerHolds L (Some ps) y" for y
    using that ps by (auto simp: heldPayments_def)
  have dead: "runInvariant L env rt y None S" if "payerHolds L (Some ps) y \<or> (\<exists>c. heldPayments L env rt (?cs @ [c]) y)" for y
    using that old within allWithin_longer [OF ok(2), of "?cs @ [c]" for c] by (auto simp: runInvariant_def)
  have same: "runInvariant L env rt y (Some app') (S \<union> onScreen app')"
    if "payerHolds L (Some ps) y \<or> (\<exists>c. heldPayments L env rt (?cs @ [c]) y)" "app' = app \<or> (\<exists>e. app' = app\<lparr>pa_error := Some e\<rparr>)" for y app'
    using that(1)
  proof (elim disjE exE)
    assume "payerHolds L (Some ps) y"
    from invariant_store [OF inv old [OF this] within] that(2) show ?thesis by auto
  next
    fix c assume "heldPayments L env rt (?cs @ [c]) y"
    moreover have "allWithin L rt S (?cs @ [c])" using ok(2) by (rule allWithin_longer) simp
    ultimately show ?thesis using invariant_store [OF inv] that(2) by auto
  qed
  show ?thesis
  proof (cases "pa_challenge app")
    case None
    with run have "r = Done app" "d' = d" by (auto simp: authorizePayment_def returnIO_def)
    then show ?thesis using same [of "contents d" app] dead [of "contents d"] ps(1) by simp
  next
    case (Some ch)
    let ?post = "\<lambda>app' y. (\<exists>c frames. app' = showPayment app c frames app \<and> heldPayments L env rt (?cs @ [c]) y \<and> conveys L rt frames (?cs @ [c]) \<and>
        validBundle (sessionBundle rt (?cs @ [c])) \<and> frames \<noteq> [] \<and>
        validateCredentialProofBundle L (rt_trustContext rt) (sessionBundle rt (?cs @ [c])) = Inr (nextParent c)) \<or>
      (\<exists>e. app' = app\<lparr>pa_error := Some e\<rparr>) \<and> (payerHolds L (Some ps) y \<or> (\<exists>c. heldPayments L env rt (?cs @ [c]) y))"
    let ?after = "\<lambda>y. payerHolds L (Some ps) y \<or> (\<exists>c. heldPayments L env rt (?cs @ [c]) y)"
    have stored: "heldPayments L env rt (?cs @ [c]) y"
      if "paymentFor L rt p ch secret = Inr c" "sendCredential L payerTransport (sessionBundle rt (?cs @ [c])) = Inr frames"
        "createPersistedOnchainSession L \<lparr>pi_sessionAccount = account, pi_runtime = rt, pi_parent = Some (nextParent c),
          pi_frames = Some frames, pi_pendingDelivery = Some True\<rparr> = Inr ps'" "payerHolds L (Some ps') y" for c frames secret account ps' y
      using persisted_held [OF L(1,2) sound that(3,4)] payment_carried [OF L p(3,4) that(1,2)] by blast
    let ?mid = "\<lambda>cf y. case cf of (c, frames) \<Rightarrow> \<exists>secret account ps'. paymentFor L rt p ch secret = Inr c \<and>
        sendCredential L payerTransport (sessionBundle rt (?cs @ [c])) = Inr frames \<and>
        createPersistedOnchainSession L \<lparr>pi_sessionAccount = account, pi_runtime = rt, pi_parent = Some (nextParent c),
          pi_frames = Some frames, pi_pendingDelivery = Some True\<rparr> = Inr ps' \<and> payerHolds L (Some ps') y"
    have "triple (faultsOf d) ((=) (contents d))
        (bindIO (storePayment L (loadPayer L legacy) (commitPayer L nextGeneration) app rt p ch)
          (\<lambda>(c, frames). returnIO (showPayment app c frames app))) ?post ?after ?after"
    proof (rule triple_bind [where M = ?mid])
      show "triple (faultsOf d) ((=) (contents d)) (storePayment L (loadPayer L legacy) (commitPayer L nextGeneration) app rt p ch) ?mid ?after ?after"
        by (rule triple_weaken [OF triple_storePayment [OF L(2) io ps(1) p(1)]]) (use stored in blast)+
      fix cf
      show "triple (faultsOf d) (?mid cf) (case cf of (c, frames) \<Rightarrow> returnIO (showPayment app c frames app)) ?post ?after ?after"
      proof (cases cf)
        case (Pair c frames)
        show ?thesis unfolding Pair prod.case
        proof (rule triple_return, rule disjI1, elim exE conjE)
          fix y secret account ps'
          assume c: "paymentFor L rt p ch secret = Inr c" "sendCredential L payerTransport (sessionBundle rt (?cs @ [c])) = Inr frames"
            and rest: "createPersistedOnchainSession L \<lparr>pi_sessionAccount = account, pi_runtime = rt, pi_parent = Some (nextParent c),
              pi_frames = Some frames, pi_pendingDelivery = Some True\<rparr> = Inr ps'" "payerHolds L (Some ps') y"
          note carried = payment_carried [OF L p(3,4) c]
          show "\<exists>c' frames'. showPayment app c frames app = showPayment app c' frames' app \<and> heldPayments L env rt (?cs @ [c']) y \<and>
            conveys L rt frames' (?cs @ [c']) \<and> validBundle (sessionBundle rt (?cs @ [c'])) \<and> frames' \<noteq> [] \<and>
            validateCredentialProofBundle L (rt_trustContext rt) (sessionBundle rt (?cs @ [c'])) = Inr (nextParent c')"
            by (intro exI [of _ c] exI [of _ frames] conjI refl stored [OF c rest] carried)
        qed
      qed
    qed
    then have "triple (faultsOf d) ((=) (contents d)) (authorizePayment L (loadPayer L legacy) (commitPayer L nextGeneration) app app)
        ?post (\<lambda>_. False) ?after"
      unfolding authorizePayment_def Some p(1,2) prod.case option.case by (rule triple_catch) (auto intro: triple_return)
    note post = run_triple [OF this run]
    have store: "?after (contents d')" using post by (cases r) auto
    have "runInvariant L env rt (contents d') (Some app') (S \<union> onScreen app')" if r: "r = Done app'" for app'
      using post [unfolded r outcome.case]
    proof (elim disjE exE conjE)
      fix c frames
      assume app': "app' = showPayment app c frames app" and c: "heldPayments L env rt (?cs @ [c]) (contents d')" "conveys L rt frames (?cs @ [c])"
        "validBundle (sessionBundle rt (?cs @ [c]))" "frames \<noteq> []"
        "validateCredentialProofBundle L (rt_trustContext rt) (sessionBundle rt (?cs @ [c])) = Inr (nextParent c)"
      have within': "allWithin L rt S (?cs @ [c])" using ok(2) by (rule allWithin_longer) simp
      show ?thesis
        by (rule runInvariantI [OF c(1) within'])
          (use c within' p(1) in \<open>auto simp: app' showPayment_def appOk_def\<close>)
    qed (use same in blast)+
    with dead [OF store] show ?thesis by blast
  qed
qed

lemma receipt_step:
  assumes L: "borsh_ok L" "hash_ok L" and sound: "soundRuntime L env rt"
    and inv: "runInvariant L env rt (contents d) (Some app) S" and app: "usable app" "pa_screen app = ScanReceiptScreen"
    and run: "scanReceipt L (commitPayer L nextGeneration) raw app d = (r, d')"
  shows "(\<forall>app'. r = Done app' \<longrightarrow> runInvariant L env rt (contents d') (Some app') (S \<union> onScreen app')) \<and> runInvariant L env rt (contents d') None S"
proof -
  obtain ps s where ps: "payerHolds L (Some ps) (contents d)" "restoreAll L ps env = Inr s" "rp_runtime s = rt"
    and within: "allWithin L rt S (rp_credentials s)"
    using inv by (auto simp: runInvariant_def heldPayments_def)
  have ok: "appOk L rt app" "allWithin L rt S (pa_credentials app)" using inv app(1) by (auto simp: runInvariant_def)
  then have rt: "pa_sessionRuntime app = Some rt" and frames: "conveys L rt (pa_outgoingFrames app) (pa_credentials app)" "pa_outgoingFrames app \<noteq> []"
    using app(2) by (auto simp: appOk_def)
  let ?scanned = "app\<lparr>pa_receivedFrames := setAdd raw (pa_receivedFrames app)\<rparr>"
  let ?after = "\<lambda>y. payerHolds L (Some ps) y \<or> heldPayments L env rt (pa_credentials app) y"
  let ?post = "\<lambda>app' y. (app' = ?scanned\<lparr>pa_screen := CompleteScreen\<rparr> \<or> (\<exists>e. app' = reportScanError e ?scanned)) \<and> ?after y"
  have stored: "heldPayments L env rt (pa_credentials app) y"
    if "createPersistedOnchainSession L \<lparr>pi_sessionAccount = account, pi_runtime = rt, pi_parent = Some p,
      pi_frames = Some (pa_outgoingFrames app), pi_pendingDelivery = Some False\<rparr> = Inr ps'" "payerHolds L (Some ps') y" for account p ps' y
    by (rule persisted_held [OF L sound that frames])
  have "triple (faultsOf d) ((=) (contents d)) (bindIO (liftIO (acceptReceipt L ?scanned)) (\<lambda>parent.
      bindIO (persistBranchState L (commitPayer L nextGeneration) ?scanned (pa_outgoingFrames ?scanned) False parent) (\<lambda>_.
        returnIO (?scanned\<lparr>pa_screen := CompleteScreen\<rparr>)))) ?post ?after ?after"
  proof (rule triple_bind [where M = "\<lambda>_ y. y = contents d"])
    show "triple (faultsOf d) ((=) (contents d)) (liftIO (acceptReceipt L ?scanned)) (\<lambda>_ y. y = contents d) ?after ?after"
      by (rule triple_lift) (use ps(1) in auto)
    fix parent
    have start: "triple (faultsOf d) (\<lambda>y. y = contents d)
        (persistBranchState L (commitPayer L nextGeneration) ?scanned (pa_outgoingFrames app) False parent) (\<lambda>_. ?after) ?after ?after"
      by (rule triple_weaken [OF triple_persistBranch [OF L(2) ps(1), of ?scanned rt]]) (use rt stored in auto)
    show "triple (faultsOf d) (\<lambda>y. y = contents d)
        (bindIO (persistBranchState L (commitPayer L nextGeneration) ?scanned (pa_outgoingFrames ?scanned) False parent) (\<lambda>_.
          returnIO (?scanned\<lparr>pa_screen := CompleteScreen\<rparr>))) ?post ?after ?after"
      using start by (intro triple_bind) (auto intro: triple_return)
  qed
  then have "triple (faultsOf d) ((=) (contents d)) (scanReceipt L (commitPayer L nextGeneration) raw app) ?post (\<lambda>_. False) ?after"
    unfolding scanReceipt_def Let_def by (rule triple_catch) (auto intro: triple_return)
  note post = run_triple [OF this run]
  have "?after (contents d')" using post by (cases r) auto
  then obtain cs where cs: "heldPayments L env rt cs (contents d')" "allWithin L rt S cs"
    using within ok(2) ps by (auto simp: heldPayments_def)
  have "runInvariant L env rt (contents d') (Some app') (S \<union> onScreen app')" if r: "r = Done app'" for app'
    by (rule invariant_store [OF inv cs]) (use post [unfolded r outcome.case] in \<open>auto simp: reportScanError_def split: if_splits\<close>)
  with cs show ?thesis by (auto simp: runInvariant_def)
qed

lemma run_invariant:
  assumes L: "borsh_ok L" "hash_ok L" "signature_ok L" and io: "readsOnly legacy" "configuredTrustEnvironment penv = Inr env"
    and start: "payerHolds L (Some ps) x0" "restoreAll L ps env = Inr s" and run: "payerRun L penv legacy x0 x a S"
  shows "runInvariant L env (rp_runtime s) x a S"
  using run
proof induction
  case installed
  show ?case using start by (auto simp: runInvariant_def heldPayments_def)
next
  case (booted x a S d app d')
  then show ?case using boot_step [OF L(1,2) io] by blast
next
  case (bootDied x a S d d')
  then show ?case using boot_step [OF L(1,2) io] by blast
next
  case (killed x a S)
  then show ?case by (simp add: runInvariant_dead)
next
  case (touched x app S app')
  note keep = touch_keeps [OF touched.hyps(3)]
  have "onScreen app' \<subseteq> S"
    using touched keep(3,5) by (auto simp: onScreen_def runInvariant_def)
  then have "S \<union> onScreen app' = S" by blast
  then show ?case using touched keep(2-5) by (auto simp: runInvariant_def)
qed (use pay_step [OF L io(1) restored_runtime(1) [OF L(1,2) start(2)]] receipt_step [OF L(1,2) restored_runtime(1) [OF L(1,2) start(2)]] in blast)+

end
