(* ===== verification/PayerAppTheorems.thy ===== *)
theory PayerAppTheorems
  imports PayerAppFacts TransportTheorems
begin

text \<open>
  The properties of the payer's application: an intact installation opens without a network, what
  it ever shows is one chain of payments, and two authorisations that overlap are not.
\<close>

section \<open>Opening offline\<close>

lemma loadPayer_works:
  assumes "hash_ok L" "payerHolds L (Some ps) (contents d)" "works d"
  obtains d' where "loadPayer L legacy d = (Done (payerSnapshot ps), d')" "works d'" "payerHolds L (Some ps) (contents d')"
proof -
  obtain g where g: "durable L payerStore (contents d) (Some (g, payloadsOf payerStore (payerValues ps)))"
    using assms(2) by (auto simp: holdsValue_def)
  obtain r d' where r: "loadStore L payerStore d = (Done r, d')" "works d'"
    "durable L payerStore (contents d') (Some (g, payloadsOf payerStore (payerValues ps)))"
    "reports payerStore (Some (g, payloadsOf payerStore (payerValues ps))) r"
    by (rule load_works [OF assms(1) g assms(3)])
  have "loadPayer L legacy d = (Done (payerSnapshot ps), d')"
    using r(1,4)
    by (auto simp: loadPayer_def bindIO_def returnIO_def reports_def payloadsOf_def payer_components payerValues_def committedPayer_def
        payerSnapshot_def)
  with r(2,3) that show thesis by (auto simp: holdsValue_def)
qed

lemma boot_works:
  assumes L: "borsh_ok L" "hash_ok L" and start: "payerHolds L (Some ps) (contents d)" "restoreAll L ps env = Inr s" "works d"
    and penv: "configuredTrustEnvironment penv = Inr env"
  obtains d' where "bootPayer L penv (loadPayer L legacy) d = (Done (restoredApp s), d')" "works d'" "payerHolds L (Some ps) (contents d')"
    "usable (restoredApp s)"
proof -
  obtain d' where d': "loadPayer L legacy d = (Done (payerSnapshot ps), d')" "works d'" "payerHolds L (Some ps) (contents d')"
    by (rule loadPayer_works [OF L(2) start(1,3)])
  have snapshot: "restoreSnapshot L env (payerSnapshot ps) = (Some s, None)"
    using start(2) by (simp add: restoreSnapshot_def payerSnapshot_def hasCompleteOnchainStorage_def restoreAll_def)
  have sound: "soundSession L env s" by (rule restore_sound [OF L(1) start(2) [unfolded restoreAll_def]])
  have complete: "isCompleteLocalRecord (Some (ro_localProvisioning s))" by (rule sound_complete [OF L(1) sound])
  have ready: "sad_outcome (decideSessionAccess \<lparr>sai_connected = False, sai_local = Some (ro_localProvisioning s),
      sai_authoritative = None, sai_walletAuthorizationConfirmed = False\<rparr>) = OfflineReady"
    unfolding gate_ready using complete by simp
  have run: "bootPayer L penv (loadPayer L legacy) d = (Done (restoredApp s), d')"
    by (simp add: bootPayer_def catchIO_def bindIO_def liftIO_def penv returnIO_def evaluatePayerRecovery_def restoreLocal_def
        d'(1) snapshot Let_def ready)
  have "isHex 32 (lp_sessionAccount (ro_localProvisioning s))"
    using sound unfolding soundSession_def Let_def by blast
  then have "runtimeHexToBytes (lp_sessionAccount (ro_localProvisioning s)) = Inr (hexPairs (lp_sessionAccount (ro_localProvisioning s)))"
    by (auto simp: runtimeHexToBytes_def isHex_def failIf_def)
  then have "usable (restoredApp s)"
    by (auto simp: usable_def restoredApp_def Let_def initialPayerApp_def)
  with run d' that show thesis by blast
qed

text \<open>
  C22: On a device that works, an installation whose stored session
  is sound opens without a connection: the application starts with exactly the stored session, its
  account on the chain, its state and payments, so that the next request can be paid; it shows the
  credential again when its delivery is still pending, and the store is kept.
\<close>

theorem intact_installation_opens_offline:
  assumes "borsh_ok L" "hash_ok L" "payerHolds L (Some ps) (contents d)" "restoreAll L ps env = Inr s" "works d"
    "configuredTrustEnvironment penv = Inr env"
  shows "\<exists>app d'. bootPayer L penv (loadPayer L legacy) d = (Done app, d') \<and> payerHolds L (Some ps) (contents d') \<and> usable app \<and>
    pa_sessionRuntime app = Some (rp_runtime s) \<and> pa_parent app = Some (rp_parent s) \<and> pa_credentials app = rp_credentials s \<and>
    appOk L (rp_runtime s) app \<and>
    (\<exists>account. length account = 32 \<and> lp_sessionAccount (ro_localProvisioning s) = bytesToHex account \<and> pa_onchainSessionAccount app = Some account) \<and>
    onScreen app = (if rp_pendingDelivery s \<and> rp_credentials s \<noteq> [] then {rp_outgoingFrames s} else {})"
proof -
  obtain d' where d': "bootPayer L penv (loadPayer L legacy) d = (Done (restoredApp s), d')" "payerHolds L (Some ps) (contents d')"
    "usable (restoredApp s)"
    by (rule boot_works [OF assms])
  have "soundSession L env s" by (rule restore_sound [OF assms(1) assms(4) [unfolded restoreAll_def]])
  then have "isHex 32 (lp_sessionAccount (ro_localProvisioning s))" unfolding soundSession_def Let_def by blast
  then obtain bs where bs: "length bs = 32" "lp_sessionAccount (ro_localProvisioning s) = bytesToHex bs" by (auto simp: isHex_iff)
  then have account: "runtimeHexToBytes (lp_sessionAccount (ro_localProvisioning s)) = Inr bs" by (auto simp: runtimeHexToBytes_iff)
  then have "pa_onchainSessionAccount (restoredApp s) = Some bs" by (simp add: restoredApp_def Let_def)
  moreover have "pa_sessionRuntime (restoredApp s) = Some (rp_runtime s) \<and> pa_parent (restoredApp s) = Some (rp_parent s) \<and>
    pa_credentials (restoredApp s) = rp_credentials s \<and>
    onScreen (restoredApp s) = (if rp_pendingDelivery s \<and> rp_credentials s \<noteq> [] then {rp_outgoingFrames s} else {})"
    using d'(3) by (auto simp: account restoredApp_def Let_def onScreen_def lastOf_def initialPayerApp_def usable_def split: if_splits)
  moreover have "appOk L (rp_runtime s) (restoredApp s)" by (rule restoredApp_ok(1) [OF assms(1,2,4) d'(3)])
  ultimately show ?thesis using d' bs by blast
qed

section \<open>Paying\<close>

lemma payer_names: "map fst (payerValues ps) = map cd_name (so_components payerStore)"
  by (simp add: payer_components payerValues_def)

lemma commitPayer_works:
  assumes "hash_ok L" "payerHolds L (Some ps) (contents d)" "works d" "freshGenerations nextGeneration"
  obtains d' where "commitPayer L nextGeneration ps' d = (Done (), d')" "works d'" "payerHolds L (Some ps') (contents d')"
proof -
  obtain g where g: "durable L payerStore (contents d) (Some (g, payloadsOf payerStore (payerValues ps)))"
    using assms(2) by (auto simp: holdsValue_def)
  obtain result d' where "commitStore L payerStore nextGeneration (payerValues ps') d = (Done result, d')" "works d'"
    "durable L payerStore (contents d') (Some (cr_generation result, payloadsOf payerStore (payerValues ps')))"
    by (rule commit_works [OF assms(1) payerStore_valid g assms(3), of "payerValues ps'" nextGeneration])
      (use assms(4) in \<open>auto simp: payer_names sameKeys_iff freshGenerations_def isOk_iff\<close>)
  then show thesis by (intro that) (auto simp: commitPayer_def bindIO_def returnIO_def holdsValue_def)
qed

text \<open>Storing a session whose frames convey payments of a valid chain succeeds.\<close>

lemma persist_works:
  assumes L: "borsh_ok L" "hash_ok L" and s: "restoreAll L ps env = Inr s" "rp_runtime s = rt"
    and app: "pa_sessionRuntime app = Some rt" "pa_onchainSessionAccount app = Some account" "length account = 32"
    and new: "validateCredentialProofBundle L (rt_trustContext rt) (sessionBundle rt cs) = Inr p" "validBundle (sessionBundle rt cs)"
      "receiveCredential L frames = Inr (sessionBundle rt cs)" "frames \<noteq> []"
    and d: "payerHolds L (Some ps) (contents d)" "works d" "freshGenerations nextGeneration"
  obtains ps' d' where "persistBranchState L (commitPayer L nextGeneration) app frames True p d = (Done (), d')" "works d'"
    "createPersistedOnchainSession L \<lparr>pi_sessionAccount = account, pi_runtime = rt, pi_parent = Some p, pi_frames = Some frames,
      pi_pendingDelivery = Some True\<rparr> = Inr ps'" "payerHolds L (Some ps') (contents d')"
proof -
  let ?i = "\<lparr>pi_sessionAccount = account, pi_runtime = rt, pi_parent = Some p, pi_frames = Some frames, pi_pendingDelivery = Some True\<rparr>"
  have "soundSession L env s" by (rule restore_sound [OF L(1) s(1) [unfolded restoreAll_def]])
  then have sound: "validateCertificateChain L (rt_trustContext rt) (rt_sessionCertificate rt) (rt_deviceAuthorization rt) = Inr ()"
    "genesisStateHash L (genesisOf (rt_trustContext rt) (rt_sessionCertificate rt)) = Inr (sc_genesisStateHash (rt_sessionCertificate rt))"
    "\<exists>secret. length secret = 32 \<and> rt_deviceSecretHex rt = bytesToHex secret \<and> derivePublicKey L secret = Inr (sc_devicePublicKey (rt_sessionCertificate rt))"
    unfolding soundSession_def Let_def s(2) by blast+
  have proven: "provenBy L (rt_trustContext rt) (rt_deviceAuthorization rt) (rt_sessionCertificate rt) frames p cs"
    using new(1,3,4) by (simp add: provenBy_def sessionBundle_def)
  have "storable L ?i cs"
    unfolding storable_def Let_def
    using sound proven app(3) new(2,4) by (simp add: storedFrames_def storedParent_def storedPending_def validBundle_def sessionBundle_def)
  then obtain ps' where ps': "createPersistedOnchainSession L ?i = Inr ps'" using stores_storable [OF L, of ?i] by (auto simp: isOk_iff)
  obtain d' where "commitPayer L nextGeneration ps' d = (Done (), d')" "works d'" "payerHolds L (Some ps') (contents d')"
    by (rule commitPayer_works [OF L(2) d(1,2,3)])
  with ps' app that show thesis by (simp add: persistBranchState_def bindIO_def liftIO_def returnIO_def)
qed

lemma paymentFor_works:
  assumes L: "borsh_ok L" "hash_ok L" and s: "restoreAll L ps env = Inr s" "rp_runtime s = rt"
    and p: "validateCredentialProofBundle L (rt_trustContext rt) (sessionBundle rt cs) = Inr p"
    and ch: "validChallenge ch" "mc_merchant ch \<noteq> sc_owner (rt_sessionCertificate rt)" "mc_amount ch \<le> pt_remaining p" "length cs < 32"
      "sc_issuedAt (rt_sessionCertificate rt) + int (length cs) < sc_expiresAt (rt_sessionCertificate rt)"
    and signs: "\<And>m secret. length secret = 32 \<Longrightarrow> ed25519Sign L m secret \<noteq> None"
  obtains c where "paymentFor L rt p ch (Some (po_deviceSecretHex ps)) = Inr c" "pc_amount c = mc_amount ch"
    "pc_merchant c = mc_merchant ch" "pc_merchantDeviceKey c = mc_merchantDeviceKey ch" "pc_merchantChallenge c = mc_challenge ch"
proof -
  let ?cert = "rt_sessionCertificate rt" and ?cx = "rt_trustContext rt"
  let ?rq = "\<lparr>rq_merchant = mc_merchant ch, rq_merchantDeviceKey = mc_merchantDeviceKey ch, rq_amount = mc_amount ch,
    rq_merchantChallenge = mc_challenge ch, rq_createdAt = sc_issuedAt ?cert + (pt_sequence p + 1)\<rparr>"
  have "soundSession L env s" by (rule restore_sound [OF L(1) s(1) [unfolded restoreAll_def]])
  then obtain secret where secret: "length secret = 32" "rt_deviceSecretHex rt = bytesToHex secret" "derivePublicKey L secret = Inr (sc_devicePublicKey ?cert)"
    unfolding soundSession_def Let_def s(2) by blast
  have "rt_deviceSecretHex rt = po_deviceSecretHex ps"
    using s unfolding restoreAll_def restore_iff [OF L(1)] by (auto simp: restoredAs_def)
  then have read: "runtimeHexToBytes (po_deviceSecretHex ps) = Inr secret"
    using secret(1,2) by (auto simp: runtimeHexToBytes_iff)
  have valid: "validateCertificateChain L ?cx ?cert (rt_deviceAuthorization rt) = Inr ()"
    and replay: "replayCredentials L ?cx ?cert (genesisParent ?cert) cs = Inr p"
    using p by (auto simp: validateCredentialProofBundle_iff sessionBundle_def)
  have cert: "trustedCertificate L ?cx ?cert" "soundTerms ?cert" using valid by (auto simp: validateCertificateChain_iff)
  have terms: "length (sc_genesisStateHash ?cert) = 32" "sc_branchSpendingLimit ?cert < 2 ^ 64"
    using trusted_valid [OF L(1) cert(1)] by (auto simp: validSessionCertificate_def isU64_def)
  have hash: "length (pt_stateHash p) = 32" using replay_hash [OF L(2) replay] terms(1) by (simp add: genesisParent_def)
  have "0 \<le> sum_list (map pc_amount cs)" if "\<forall>c \<in> set cs. 0 < pc_amount c" using that by (induction cs) auto
  then have parent: "pt_sequence p = int (length cs)" "pt_remaining p < 2 ^ 64"
    using replay_totals [OF replay] terms(2) by (auto simp: genesisParent_def)
  have ch': "0 < mc_amount ch" "length (mc_merchant ch) = 32" "length (mc_merchantDeviceKey ch) = 32" "length (mc_challenge ch) = 32"
    "\<not> list_all (\<lambda>b. b = 0) (mc_challenge ch)"
    using ch(1) by (simp_all add: validChallenge_def)
  have "isOk (createPaymentCredential L ?cx ?cert p ?rq secret)"
    by (rule createPaymentCredential_serves [OF L cert(1) hash])
      (use ch ch' parent cert(2) secret signs in \<open>simp_all add: soundTerms_def\<close>)
  then obtain c where c: "createPaymentCredential L ?cx ?cert p ?rq secret = Inr c" by (auto simp: isOk_iff)
  with read have "paymentFor L rt p ch (Some (po_deviceSecretHex ps)) = Inr c" by (simp add: paymentFor_def)
  with created_fields [OF c] that show thesis by simp
qed

lemma frames_work:
  assumes "borsh_ok L" "hash_ok L" "validBundle b"
  shows "isOk (sendCredential L payerTransport b)"
proof -
  obtain bs where bs: "encodeCredentialProofBundle L b = Inr bs"
    using encodeCredentialProofBundle_ok [OF assms(1,3)] by (auto simp: isOk_iff)
  have "isOk (frame L payerTransport CredentialBundleMessage bs)"
    using encodeCredentialProofBundle_length [OF bs]
    by (intro frame_defined [OF assms(2)]) (auto simp: payerTransport_def DEFAULT_CHUNK_BYTES_def)
  then show ?thesis by (simp add: sendCredential_def bs)
qed

text \<open>The payment is made from the closure, whatever the application does meanwhile.\<close>

lemma request_paid:
  assumes "borsh_ok L" "hash_ok L" "signature_ok L" "\<And>m secret. length secret = 32 \<Longrightarrow> ed25519Sign L m secret \<noteq> None"
    and "payerHolds L (Some ps) (contents d)" "restoreAll L ps env = Inr s" "works d" "freshGenerations nextGeneration"
    and "appOk L (rp_runtime s) app" "pa_onchainSessionAccount app = Some account" "length account = 32" "pa_challenge app = Some ch"
    and "validChallenge ch" "mc_merchant ch \<noteq> sc_owner (rt_sessionCertificate (rp_runtime s))"
    and "pa_parent app = Some p" "mc_amount ch \<le> pt_remaining p" "length (pa_credentials app) < 32"
    and "sc_issuedAt (rt_sessionCertificate (rp_runtime s)) + int (length (pa_credentials app)) < sc_expiresAt (rt_sessionCertificate (rp_runtime s))"
  obtains c frames d' where "authorizePayment L (loadPayer L legacy) (commitPayer L nextGeneration) app now d = (Done (showPayment app c frames now), d')"
    "works d'" "paymentFor L (rp_runtime s) p ch (Some (po_deviceSecretHex ps)) = Inr c"
    "pc_amount c = mc_amount ch" "pc_merchant c = mc_merchant ch" "pc_merchantDeviceKey c = mc_merchantDeviceKey ch" "pc_merchantChallenge c = mc_challenge ch"
    "conveys L (rp_runtime s) frames (pa_credentials app @ [c])" "heldPayments L env (rp_runtime s) (pa_credentials app @ [c]) (contents d')"
proof -
  note L = assms(1,2)
  let ?rt = "rp_runtime s" and ?cs = "pa_credentials app"
  have app: "pa_sessionRuntime app = Some ?rt" "validateCredentialProofBundle L (rt_trustContext ?rt) (sessionBundle ?rt ?cs) = Inr p"
    "validBundle (sessionBundle ?rt ?cs)"
    using assms(9,15) by (auto simp: appOk_def)
  obtain c where c: "paymentFor L ?rt p ch (Some (po_deviceSecretHex ps)) = Inr c" "pc_amount c = mc_amount ch"
    "pc_merchant c = mc_merchant ch" "pc_merchantDeviceKey c = mc_merchantDeviceKey ch" "pc_merchantChallenge c = mc_challenge ch"
    by (rule paymentFor_works [OF L assms(6) refl app(2) assms(13,14,16,17,18,4)])
  obtain d1 where d1: "loadPayer L legacy d = (Done (payerSnapshot ps), d1)" "works d1" "payerHolds L (Some ps) (contents d1)"
    by (rule loadPayer_works [OF L(2) assms(5,7)])
  obtain rq sk where created: "createPaymentCredential L (rt_trustContext ?rt) (rt_sessionCertificate ?rt) p rq sk = Inr c"
    using c(1) by (auto simp: paymentFor_def bindE_Inr_iff)
  have valid: "validateCredentialProofBundle L (rt_trustContext ?rt) (sessionBundle ?rt (?cs @ [c])) = Inr (nextParent c)"
    using bundle_extended [OF assms(3) app(2), of rq sk c] created by (simp add: sessionBundle_def)
  obtain m where "encodePaymentCredentialPayload L c = Inr m" using created unfolding createPaymentCredential_iff by blast
  then have "validPaymentCredential c" using encodePaymentCredentialPayload_ok [OF L(1)] by (metis isOk_simps(1))
  then have wf: "validBundle (sessionBundle ?rt (?cs @ [c]))"
    using app(3) created_validates(2) [OF assms(3) created] assms(17) by (simp add: validBundle_def sessionBundle_def)
  then obtain frames where frames: "sendCredential L payerTransport (sessionBundle ?rt (?cs @ [c])) = Inr frames"
    using frames_work [OF L] by (auto simp: isOk_iff)
  note carried = payment_carried [OF L assms(3) app(2,3) c(1) frames]
  obtain ps' d' where stored: "persistBranchState L (commitPayer L nextGeneration) app frames True (nextParent c) d1 = (Done (), d')" "works d'"
    "createPersistedOnchainSession L \<lparr>pi_sessionAccount = account, pi_runtime = ?rt, pi_parent = Some (nextParent c), pi_frames = Some frames,
      pi_pendingDelivery = Some True\<rparr> = Inr ps'" "payerHolds L (Some ps') (contents d')"
    by (rule persist_works [OF L assms(6) refl app(1) assms(10,11) valid wf _ carried(3) d1(3,2) assms(8)])
      (use carried(1) in \<open>simp add: conveys_def\<close>)
  have "heldPayments L env ?rt (?cs @ [c]) (contents d')"
    by (rule persisted_held [OF L restored_runtime(1) [OF L assms(6)] stored(3,4) carried(1,3)])
  moreover have "authorizePayment L (loadPayer L legacy) (commitPayer L nextGeneration) app now d = (Done (showPayment app c frames now), d')"
    using stored(1) frames
    by (simp add: authorizePayment_def assms(12,15) app(1) storePayment_def catchIO_def bindIO_def liftIO_def returnIO_def d1(1) payerSnapshot_def
        c(1) sessionBundle_def)
  ultimately show thesis using that stored(2) c carried(1) by blast
qed

text \<open>A request of the session's deployment, within its balance, scanned by the application\<close>

lemma request_scanned:
  assumes "appOk L rt app" "pa_parent app = Some p" "receiveChallenge L (setAdd raw (pa_receivedFrames app)) = Inr ch"
    "assertChallengeEnvironment ch (contextEnvironment (rt_trustContext rt)) = Inr ()"
    "mc_merchant ch \<noteq> sc_owner (rt_sessionCertificate rt)" "mc_amount ch \<le> pt_remaining p"
  shows "scanChallenge L raw app = app\<lparr>pa_receivedFrames := setAdd raw (pa_receivedFrames app), pa_challenge := Some ch, pa_screen := ConfirmScreen\<rparr>"
    "appOk L rt (scanChallenge L raw app)"
proof -
  have rt: "pa_sessionRuntime app = Some rt" using assms(1) by (simp add: appOk_def)
  then show scanned: "scanChallenge L raw app =
      app\<lparr>pa_receivedFrames := setAdd raw (pa_receivedFrames app), pa_challenge := Some ch, pa_screen := ConfirmScreen\<rparr>"
    using assms(2-) by (simp add: scanChallenge_def Let_def acceptChallenge_def equalBytes_def bindE_Inr_iff)
  show "appOk L rt (scanChallenge L raw app)" unfolding scanned using assms(1) unfolding appOk_def by auto
qed

lemma received_valid: "receiveChallenge L frames = Inr ch \<Longrightarrow> validChallenge ch"
  by (auto simp: receiveChallenge_def bindE_Inr_iff decodeChallenge_iff encodeChallenge_iff)

text \<open>
  C14: On a device that works, a payer who scans the request of a merchant of the same
  deployment, not of the session's own owner, within the balance, the depth (fewer than 32 payments
  so far) and the validity of the session, and authorises it, pays it. The application then shows
  frames that convey its previous payments and one more, of exactly the amount, merchant, merchant's
  device and challenge of the request, which the merchant's check of that request accepts; the store
  holds the same payments.
\<close>

theorem valid_request_is_paid:
  assumes "borsh_ok L" "hash_ok L" "signature_ok L" "\<And>m secret. length secret = 32 \<Longrightarrow> ed25519Sign L m secret \<noteq> None"
    and "payerHolds L (Some ps) (contents d)" "restoreAll L ps env = Inr s" "works d" "freshGenerations nextGeneration"
    and "appOk L (rp_runtime s) app" "pa_onchainSessionAccount app = Some account" "length account = 32"
    and "receiveChallenge L (setAdd raw (pa_receivedFrames app)) = Inr ch" "assertChallengeEnvironment ch env = Inr ()"
    and "mc_merchant ch \<noteq> sc_owner (rt_sessionCertificate (rp_runtime s))"
    and "pa_parent app = Some p" "mc_amount ch \<le> pt_remaining p" "length (pa_credentials app) < 32"
    and "sc_issuedAt (rt_sessionCertificate (rp_runtime s)) + int (length (pa_credentials app)) < sc_expiresAt (rt_sessionCertificate (rp_runtime s))"
  shows "\<exists>scanned app' d' c b. scanChallenge L raw app = scanned \<and> pa_screen scanned = ConfirmScreen \<and> pa_challenge scanned = Some ch \<and>
    authorizePayment L (loadPayer L legacy) (commitPayer L nextGeneration) scanned scanned d = (Done app', d') \<and>
    pa_screen app' = ShowCredentialScreen \<and> pa_credentials app' = pa_credentials app @ [c] \<and>
    pc_amount c = mc_amount ch \<and> pc_merchant c = mc_merchant ch \<and> pc_merchantDeviceKey c = mc_merchantDeviceKey ch \<and>
    pc_merchantChallenge c = mc_challenge ch \<and>
    receiveCredential L (pa_outgoingFrames app') = Inr b \<and> credentials b = pa_credentials app' \<and>
    validateMerchantResponse L env ch b = Inr \<lparr>vr_credential = c, vr_finalState = nextParent c\<rparr> \<and>
    heldPayments L env (rp_runtime s) (pa_credentials app') (contents d')"
proof -
  let ?rt = "rp_runtime s" and ?scanned = "scanChallenge L raw app"
  have cx: "rt_trustContext ?rt = contextOf env (sc_sessionId (rt_sessionCertificate ?rt))"
    using restored_runtime(1) [OF assms(1,2,6)] by (simp add: soundRuntime_def payerTrustContext_def contextOf_def)
  then have domain: "assertChallengeEnvironment ch (contextEnvironment (rt_trustContext ?rt)) = Inr ()"
    using assms(13) by (simp add: assertChallengeEnvironment_def contextEnvironment_def contextOf_def)
  note scanned = request_scanned [OF assms(9,15,12) domain assms(14,16)]
  have same: "pa_onchainSessionAccount ?scanned = Some account" "pa_challenge ?scanned = Some ch" "pa_parent ?scanned = Some p"
    "pa_credentials ?scanned = pa_credentials app" "pa_screen ?scanned = ConfirmScreen"
    using assms(10,15) by (simp_all add: scanned(1))
  obtain c frames d' where paid: "authorizePayment L (loadPayer L legacy) (commitPayer L nextGeneration) ?scanned ?scanned d =
      (Done (showPayment ?scanned c frames ?scanned), d')"
    "pc_amount c = mc_amount ch" "pc_merchant c = mc_merchant ch" "pc_merchantDeviceKey c = mc_merchantDeviceKey ch"
    "pc_merchantChallenge c = mc_challenge ch" "conveys L ?rt frames (pa_credentials app @ [c])"
    "heldPayments L env ?rt (pa_credentials app @ [c]) (contents d')"
    by (rule request_paid [OF assms(1-8) scanned(2) same(1) assms(11) same(2) received_valid [OF assms(12)] assms(14) same(3) assms(16)
          assms(17,18) [folded same(4)], unfolded same(4)])
  obtain q where q: "validateCredentialProofBundle L (rt_trustContext ?rt) (sessionBundle ?rt (pa_credentials app @ [c])) = Inr q"
    using paid(6) by (auto simp: conveys_def isOk_iff)
  have "validateMerchantResponse L env ch (sessionBundle ?rt (pa_credentials app @ [c])) = Inr \<lparr>vr_credential = c, vr_finalState = nextParent c\<rparr>"
    using q bundle_last [OF q] paid(2-5) assms(13)
    by (simp add: validateMerchantResponse_iff assertChallengeEnvironment_def sessionBundle_def cx)
  with paid same show ?thesis
    by (intro exI [of _ ?scanned] exI [of _ "showPayment ?scanned c frames ?scanned"] exI [of _ d'] exI [of _ c]
        exI [of _ "sessionBundle ?rt (pa_credentials app @ [c])"])
      (simp add: showPayment_def conveys_def sessionBundle_def)
qed

section \<open>One chain of payments\<close>

text \<open>
  C1: On a device whose storage may reject or kill the process at any access, for
  all that the user scans and cancels, through restarts and kills: everything the payer's screen
  ever showed carries a valid chain of payments that is a prefix of the one chain the store holds,
  so no two payments it ever handed out compete for the same balance, provided a handler is not
  started before the previous one has ended.
\<close>

theorem payer_never_forks:
  assumes "borsh_ok L" "hash_ok L" "signature_ok L" "readsOnly legacy" "configuredTrustEnvironment penv = Inr env"
    and "payerHolds L (Some ps) x0" "restoreAll L ps env = Inr s" "payerRun L penv legacy x0 x app shown"
    and "frames \<in> shown" "frames' \<in> shown"
  shows "\<exists>ps' s' b b'. payerHolds L (Some ps') x \<and> restoreAll L ps' env = Inr s' \<and> rp_runtime s' = rp_runtime s \<and>
    receiveCredential L frames = Inr b \<and> isOk (validateCredentialProofBundle L (rt_trustContext (rp_runtime s)) b) \<and>
    receiveCredential L frames' = Inr b' \<and> isOk (validateCredentialProofBundle L (rt_trustContext (rp_runtime s)) b') \<and>
    prefix (credentials b) (rp_credentials s') \<and> prefix (credentials b') (rp_credentials s')"
proof -
  obtain cs where cs: "heldPayments L env (rp_runtime s) cs x" "allWithin L (rp_runtime s) shown cs"
    using run_invariant [OF assms(1-8)] by (auto simp: runInvariant_def)
  then obtain one other where two: "conveys L (rp_runtime s) frames one" "prefix one cs" "conveys L (rp_runtime s) frames' other" "prefix other cs"
    using assms(9,10) by (metis allWithin_def)
  from cs(1) obtain q s' where held: "payerHolds L (Some q) x" "restoreAll L q env = Inr s'" "rp_runtime s' = rp_runtime s" "rp_credentials s' = cs"
    by (auto simp: heldPayments_def)
  show ?thesis
    by (intro exI [of _ q] exI [of _ s'] exI [of _ "sessionBundle (rp_runtime s) one"] exI [of _ "sessionBundle (rp_runtime s) other"] conjI)
      (use two held in \<open>simp_all add: conveys_def sessionBundle_def\<close>)
qed

text \<open>An installation of the sample session whose second payment waits for its receipt.\<close>

definition samplePayerEnvironment :: PayerRuntimeEnvironment where
  "samplePayerEnvironment = \<lparr>pe_NETWORK_ID = Some ''devnet'', pe_CLUSTER_GENESIS_HASH_HEX = Some (bytesToHex (replicate 32 1)),
     pe_PROGRAM_ID_HEX = Some (bytesToHex (replicate 32 2)), pe_CERTIFICATE_ISSUER_HEX = Some (bytesToHex (replicate 32 4))\<rparr>"

abbreviation nothingStored :: "PayerRecoveryStorageSnapshot io" where
  "nothingStored \<equiv> returnIO \<lparr>sn_provisioningJson = None, sn_branchStateJson = None, sn_deviceSecretHex = None\<rparr>"

lemma samplePayerEnvironment_read: "configuredTrustEnvironment samplePayerEnvironment = Inr (environmentOf sampleContext)"
proof -
  have hex: "isHex 32 (bytesToHex (replicate 32 b))" "runtimeHexToBytes (bytesToHex (replicate 32 b)) = Inr (replicate 32 b)" for b
    by (auto simp: isHex_iff runtimeHexToBytes_iff intro!: exI [of _ "replicate 32 b"])
  show ?thesis
    by (simp add: configuredTrustEnvironment_def samplePayerEnvironment_def networkIdOf_def payerBytes32_def hex environmentOf_def sampleContext_def)
qed

lemma storedInstalled:
  assumes "storable sampleLib i payments" "pi_runtime i = sampleRuntime"
  obtains ps s d where "payerHolds sampleLib (Some ps) (contents d)" "works d" "restoreAll sampleLib ps (environmentOf sampleContext) = Inr s"
    "rp_runtime s = sampleRuntime" "rp_credentials s = payments" "rp_outgoingFrames s = storedFrames i" "rp_pendingDelivery s = storedPending i"
    "rp_parent s = storedParent i" "lp_sessionAccount (ro_localProvisioning s) = bytesToHex (pi_sessionAccount i)"
proof -
  obtain ps where ps: "createPersistedOnchainSession sampleLib i = Inr ps"
    using stores_storable [OF sampleLib_borsh sampleLib_hash] assms(1) by (auto simp: isOk_iff)
  obtain r where r: "restoreAll sampleLib ps (environmentOf sampleContext) = Inr r" "rp_runtime r = sampleRuntime" "rp_credentials r = payments"
    "rp_outgoingFrames r = storedFrames i" "rp_pendingDelivery r = storedPending i" "rp_parent r = storedParent i"
    "lp_sessionAccount (ro_localProvisioning r) = bytesToHex (pi_sessionAccount i)"
    using stored_restores [OF sampleLib_borsh sampleLib_hash assms(1) ps] assms(2) by (auto simp: sampleRuntime_def)
  have d: "works (device blank (\<lambda>_. Works) 0)" "durable sampleLib payerStore (contents (device blank (\<lambda>_. Works) 0)) None"
    by (simp_all add: works_def blank_durable)
  have fresh: "\<exists>g. uniqueGeneration current (map (\<lambda>n. Inl (sampleGeneration (of_nat n))) [0..<8]) = Inr g" for current
    using freshGenerations_example unfolding freshGenerations_def isOk_iff by blast
  obtain result d' where "commitStore sampleLib payerStore (\<lambda>n. Inl (sampleGeneration (of_nat n))) (payerValues ps)
      (device blank (\<lambda>_. Works) 0) = (Done result, d')" "works d'"
    "durable sampleLib payerStore (contents d') (Some (cr_generation result, payloadsOf payerStore (payerValues ps)))"
    by (rule commit_works [OF sampleLib_hash payerStore_valid d(2,1), of "payerValues ps" "\<lambda>n. Inl (sampleGeneration (of_nat n))"])
      (use fresh in \<open>auto simp: payer_names sameKeys_iff\<close>)
  with r that show thesis by (auto simp: holdsValue_def)
qed

lemma sampleInstalled:
  obtains ps s d where "payerHolds sampleLib (Some ps) (contents d)" "works d" "restoreAll sampleLib ps (environmentOf sampleContext) = Inr s"
    "rp_credentials s = [samplePayment, secondPayment]" "rp_outgoingFrames s = payerFrames" "rp_pendingDelivery s"
  by (rule storedInstalled [OF payerInput_storable])
    (auto simp: payerInput_def storedFrames_def storedPending_def)

theorem payer_never_forks_witness:
  "\<exists>x0 x app b (s' :: RestoredOnchainSession). payerRun sampleLib samplePayerEnvironment nothingStored x0 x (Some app) {payerFrames} \<and>
    receiveCredential sampleLib payerFrames = Inr b \<and> prefix (credentials b) (rp_credentials s') \<and> length (credentials b) = 2"
proof -
  obtain ps s d where i: "payerHolds sampleLib (Some ps) (contents d)" "works d" "restoreAll sampleLib ps (environmentOf sampleContext) = Inr s"
    "rp_credentials s = [samplePayment, secondPayment]" "rp_outgoingFrames s = payerFrames" "rp_pendingDelivery s"
    by (rule sampleInstalled)
  obtain d' where d': "bootPayer sampleLib samplePayerEnvironment (loadPayer sampleLib nothingStored) d = (Done (restoredApp s), d')"
    "usable (restoredApp s)"
    by (rule boot_works [OF sampleLib_borsh sampleLib_hash i(1,3,2) samplePayerEnvironment_read])
  have "onScreen (restoredApp s) = {payerFrames}"
    using d'(2) i(4-6) by (auto simp: restoredApp_def Let_def onScreen_def lastOf_def initialPayerApp_def usable_def split: sum.split if_splits)
  then have run: "payerRun sampleLib samplePayerEnvironment nothingStored (contents d) (contents d') (Some (restoredApp s)) {payerFrames}"
    using payerRun.booted [OF payerRun.installed refl d'(1)] by simp
  have "readsOnly nothingStored" by (simp add: readsOnly_def returnIO_def)
  from payer_never_forks [OF sampleLib_borsh sampleLib_hash sampleLib_signature this samplePayerEnvironment_read i(1,3) run, of payerFrames payerFrames]
  have "\<exists>b (s' :: RestoredOnchainSession). receiveCredential sampleLib payerFrames = Inr b \<and> prefix (credentials b) (rp_credentials s')" by simp blast
  with run payerFrames_received(1) show ?thesis by (fastforce simp: sampleBundle_def)
qed

theorem intact_installation_opens_offline_witness:
  "\<exists>app d d'. bootPayer sampleLib samplePayerEnvironment (loadPayer sampleLib nothingStored) d = (Done app, d') \<and> usable app \<and>
    pa_credentials app = [samplePayment, secondPayment] \<and> onScreen app = {payerFrames}"
proof -
  obtain ps s d where i: "payerHolds sampleLib (Some ps) (contents d)" "works d" "restoreAll sampleLib ps (environmentOf sampleContext) = Inr s"
    "rp_credentials s = [samplePayment, secondPayment]" "rp_outgoingFrames s = payerFrames" "rp_pendingDelivery s"
    by (rule sampleInstalled)
  from intact_installation_opens_offline [OF sampleLib_borsh sampleLib_hash i(1,3,2) samplePayerEnvironment_read, of nothingStored]
  show ?thesis by (simp add: i(4-6)) blast
qed

text \<open>The sample session as it was provisioned: nothing spent.\<close>

definition provisionedInput :: PersistInput where
  "provisionedInput = \<lparr>pi_sessionAccount = replicate 32 21, pi_runtime = sampleRuntime, pi_parent = None, pi_frames = None,
     pi_pendingDelivery = None\<rparr>"

lemma provisionedInput_storable: "storable sampleLib provisionedInput []"
  using payerInput_storable
  by (auto simp: storable_def Let_def provisionedInput_def payerInput_def storedParent_def storedFrames_def storedPending_def provenBy_def
      sampleRuntime_def)

text \<open>The application opened on it, with the request \<open>rq\<close> scanned.\<close>

lemma sampleOpened:
  obtains ps s d where "payerHolds sampleLib (Some ps) (contents d)" "works d" "restoreAll sampleLib ps (environmentOf sampleContext) = Inr s"
    "rp_runtime s = sampleRuntime" "appOk sampleLib sampleRuntime (restoredApp s)" "pa_credentials (restoredApp s) = []"
    "pa_parent (restoredApp s) = Some (genesisParent sampleCertificate)" "pa_onchainSessionAccount (restoredApp s) = Some (replicate 32 21)"
proof -
  obtain ps s d where i: "payerHolds sampleLib (Some ps) (contents d)" "works d" "restoreAll sampleLib ps (environmentOf sampleContext) = Inr s"
    "rp_runtime s = sampleRuntime" "rp_credentials s = []" "rp_parent s = genesisParent sampleCertificate"
    "lp_sessionAccount (ro_localProvisioning s) = bytesToHex (replicate 32 21)"
    by (rule storedInstalled [OF provisionedInput_storable])
      (auto simp: provisionedInput_def sampleRuntime_def storedParent_def)
  obtain d' where u: "usable (restoredApp s)"
    by (rule boot_works [OF sampleLib_borsh sampleLib_hash i(1,3,2) samplePayerEnvironment_read])
  have "runtimeHexToBytes (lp_sessionAccount (ro_localProvisioning s)) = Inr (replicate 32 21)" by (simp add: i(7) runtimeHexToBytes_iff)
  then have "pa_parent (restoredApp s) = Some (genesisParent sampleCertificate)" "pa_onchainSessionAccount (restoredApp s) = Some (replicate 32 21)"
    by (simp_all add: restoredApp_def Let_def i(5,6) lastOf_def)
  with i restoredApp_ok [OF sampleLib_borsh sampleLib_hash i(3) u] that show thesis by simp
qed

text \<open>The one frame of a request.\<close>

lemma request_frame:
  assumes "hash_ok L" "validChallenge ch"
  obtains raw where "receiveChallenge L [raw] = Inr ch"
proof -
  obtain bs where bs: "encodeChallenge ch = Inr bs" "length bs = 170"
    using assms(2) by (auto simp: encodeChallenge_iff validChallenge_def)
  obtain fs where fs: "frame L payerTransport ChallengeMessage bs = Inr fs" "length fs = 1"
    using bs(2) by (simp add: frame_def Let_def transport_constants payerTransport_def DEFAULT_CHUNK_BYTES_def)
  then obtain raw where "fs = [raw]" by (auto simp: length_Suc_conv)
  with frames_assemble [OF assms(1) _ fs(1) refl] have "receiveChallenge L [raw] = Inr ch"
    by (simp add: receiveChallenge_def payerTransport_def DEFAULT_CHUNK_BYTES_def decodeChallenge_iff bs(1))
  then show thesis by (rule that)
qed

theorem valid_request_is_paid_witness:
  "\<exists>app raw d scanned app' d' c b. scanChallenge sampleLib raw app = scanned \<and> authorizePayment sampleLib (loadPayer sampleLib nothingStored)
      (commitPayer sampleLib (\<lambda>n. Inl (sampleGeneration (of_nat n)))) scanned scanned d = (Done app', d') \<and>
    pa_credentials app' = [c] \<and> pc_amount c = 40 \<and> receiveCredential sampleLib (pa_outgoingFrames app') = Inr b \<and>
    isOk (validateMerchantResponse sampleLib (environmentOf sampleContext) (challengeFor sampleRequest) b)"
proof -
  let ?ch = "challengeFor sampleRequest"
  obtain ps s d where i: "payerHolds sampleLib (Some ps) (contents d)" "works d" "restoreAll sampleLib ps (environmentOf sampleContext) = Inr s"
    "rp_runtime s = sampleRuntime" "appOk sampleLib sampleRuntime (restoredApp s)" "pa_credentials (restoredApp s) = []"
    "pa_parent (restoredApp s) = Some (genesisParent sampleCertificate)" "pa_onchainSessionAccount (restoredApp s) = Some (replicate 32 21)"
    by (rule sampleOpened)
  obtain raw where raw: "receiveChallenge sampleLib [raw] = Inr ?ch" by (rule request_frame [OF sampleLib_hash sampleChallenge_valid])
  let ?app = "startScan ScanChallengeScreen (restoredApp s)"
  have ok: "appOk sampleLib (rp_runtime s) ?app" using i(5) unfolding i(4) appOk_def startScan_def by auto
  have app: "pa_onchainSessionAccount ?app = Some (replicate 32 21)" "pa_parent ?app = Some (genesisParent sampleCertificate)" "pa_credentials ?app = []"
    "receiveChallenge sampleLib (setAdd raw (pa_receivedFrames ?app)) = Inr ?ch"
    using i raw by (simp_all add: startScan_def setAdd_def)
  have request: "mc_merchant ?ch \<noteq> sc_owner (rt_sessionCertificate (rp_runtime s))"
    "mc_amount ?ch \<le> pt_remaining (genesisParent sampleCertificate)" "mc_amount ?ch = 40"
    "assertChallengeEnvironment ?ch (environmentOf sampleContext) = Inr ()"
    by (simp_all add: i(4) sampleRuntime_def challengeFor_def sampleRequest_def genesisParent_def assertChallengeEnvironment_def environmentOf_def)
  have time: "sc_issuedAt (rt_sessionCertificate (rp_runtime s)) + int (length (pa_credentials ?app)) < sc_expiresAt (rt_sessionCertificate (rp_runtime s))"
    using app(3) by (simp add: i(4) sampleRuntime_def)
  have signs: "\<And>m secret. length secret = 32 \<Longrightarrow> ed25519Sign sampleLib m secret \<noteq> None" by (simp add: sampleLib_def)
  have size: "length (pa_credentials ?app) < 32" "length (replicate 32 (21 :: byte)) = 32" using app(3) by simp_all
  from valid_request_is_paid [OF sampleLib_borsh sampleLib_hash sampleLib_signature signs i(1,3,2) freshGenerations_example ok app(1) size(2) app(4)
      request(4,1) app(2) request(2) size(1) time, of nothingStored]
  show ?thesis unfolding app(3) request(3) append_Nil isOk_iff by metis
qed

section \<open>Two authorisations at a time\<close>

text \<open>What an authorisation that reports no error has done.\<close>

lemma authorised:
  assumes "authorizePayment L load commit closure now d = (Done after, d')" "pa_error after = None"
    "pa_challenge closure = Some ch" "pa_sessionRuntime closure = Some rt" "pa_parent closure = Some p"
  obtains c frames secret where "paymentFor L rt p ch secret = Inr c" "after = showPayment closure c frames now"
    "sendCredential L payerTransport (sessionBundle rt (pa_credentials closure @ [c])) = Inr frames"
proof -
  let ?body = "bindIO (storePayment L load commit closure rt p ch) (\<lambda>(credential, frames). returnIO (showPayment closure credential frames now))"
  have "catchIO ?body (\<lambda>reason. returnIO (now\<lparr>pa_error := Some reason\<rparr>)) d = (Done after, d')"
    using assms(1,3-5) by (simp add: authorizePayment_def)
  then have "?body d = (Done after, d')"
    using assms(2) by (auto simp: catchIO_def returnIO_def split: prod.splits outcome.splits)
  then obtain c frames d1 where "storePayment L load commit closure rt p ch d = (Done (c, frames), d1)" "after = showPayment closure c frames now"
    unfolding bindIO_Done by (auto simp: returnIO_Done)
  then show thesis using that by (auto simp: storePayment_def run_done sessionBundle_def)
qed

lemma paid_fields:
  assumes "signature_ok L" "paymentFor L rt p ch secret = Inr c"
  shows "validatePaymentCredential L (rt_trustContext rt) (rt_sessionCertificate rt) p c = Inr ()"
    "pc_merchantChallenge c = mc_challenge ch" "pc_previousStateHash c = pt_stateHash p" "pc_sequence c = pt_sequence p + 1"
proof -
  obtain sk where c: "createPaymentCredential L (rt_trustContext rt) (rt_sessionCertificate rt) p
      \<lparr>rq_merchant = mc_merchant ch, rq_merchantDeviceKey = mc_merchantDeviceKey ch, rq_amount = mc_amount ch,
       rq_merchantChallenge = mc_challenge ch, rq_createdAt = sc_issuedAt (rt_sessionCertificate rt) + (pt_sequence p + 1)\<rparr> sk = Inr c"
    using assms(2) by (auto simp: paymentFor_def bindE_Inr_iff split: option.splits)
  show "validatePaymentCredential L (rt_trustContext rt) (rt_sessionCertificate rt) p c = Inr ()"
    by (rule created_validates(1) [OF assms(1) c])
  show "pc_merchantChallenge c = mc_challenge ch" "pc_previousStateHash c = pt_stateHash p" "pc_sequence c = pt_sequence p + 1"
    using created_fields [OF c] by simp_all
qed

text \<open>What the user does on the confirmation screen while the first payment is stored.\<close>

definition scanAnother :: "lib \<Rightarrow> string \<Rightarrow> PayerApp \<Rightarrow> PayerApp" where
  "scanAnother L raw app = scanChallenge L raw (startScan ScanChallengeScreen (cancelTo HomeScreen app))"

lemma scanAnother_state:
  "pa_sessionRuntime (scanAnother L raw app) = pa_sessionRuntime app" "pa_parent (scanAnother L raw app) = pa_parent app"
  "pa_credentials (scanAnother L raw app) = pa_credentials app" "pa_onchainSessionAccount (scanAnother L raw app) = pa_onchainSessionAccount app"
  by (simp_all add: scanAnother_def scanChallenge_def startScan_def cancelTo_def reportScanError_def Let_def split: sum.split)

text \<open>
  C24: Nothing keeps a second authorisation from starting while the
  first still waits for the storage: the confirmation screen can be cancelled and another request
  scanned meanwhile. The second handler then still sees the parent from before the first payment,
  so two authorisations that both report success sign two different valid payments with the same
  sequence number on the same parent: the honest application has forked its own session.
\<close>

theorem concurrent_authorisations_fork:
  assumes "signature_ok L" "pa_sessionRuntime app = Some rt" "pa_parent app = Some p" "pa_challenge app = Some ch"
    and "pa_challenge (scanAnother L raw app) = Some ch'" "mc_challenge ch \<noteq> mc_challenge ch'"
    and "authorizePayment L load commit app (scanAnother L raw app) d = (Done one, d')" "pa_error one = None"
    and "authorizePayment L load commit (scanAnother L raw app) one d' = (Done two, d'')" "pa_error two = None"
  shows "\<exists>c c'. pa_credentials one = pa_credentials app @ [c] \<and> pa_credentials two = pa_credentials app @ [c'] \<and>
    pa_screen one = ShowCredentialScreen \<and> pa_screen two = ShowCredentialScreen \<and>
    validatePaymentCredential L (rt_trustContext rt) (rt_sessionCertificate rt) p c = Inr () \<and>
    validatePaymentCredential L (rt_trustContext rt) (rt_sessionCertificate rt) p c' = Inr () \<and>
    pc_sequence c = pc_sequence c' \<and> pc_previousStateHash c = pc_previousStateHash c' \<and>
    pc_merchantChallenge c = mc_challenge ch \<and> pc_merchantChallenge c' = mc_challenge ch' \<and> c \<noteq> c'"
proof -
  obtain c frames secret where one: "paymentFor L rt p ch secret = Inr c" "one = showPayment app c frames (scanAnother L raw app)"
    by (rule authorised [OF assms(7,8,4,2,3)]) (rule that)
  obtain c' frames' secret' where two: "paymentFor L rt p ch' secret' = Inr c'" "two = showPayment (scanAnother L raw app) c' frames' one"
    by (rule authorised [OF assms(9,10,5), unfolded scanAnother_state, OF assms(2,3)]) (rule that)
  note fields = paid_fields [OF assms(1) one(1)] paid_fields [OF assms(1) two(1)]
  have "c \<noteq> c'" using fields(2,6) assms(6) by auto
  with fields show ?thesis
    by (intro exI [of _ c] exI [of _ c'] conjI) (simp_all add: one(2) two(2) showPayment_def scanAnother_state)
qed

lemma secondRequest_valid: "validChallenge (challengeFor secondRequest)"
  by (simp add: validChallenge_def challengeFor_def secondRequest_def sampleContext_def list_all_iff)

lemma secondRequest_accepted:
  assumes "pa_sessionRuntime app = Some sampleRuntime" "pa_parent app = Some (genesisParent sampleCertificate)"
  obtains raw where "pa_challenge (scanAnother sampleLib raw app) = Some (challengeFor secondRequest)" "pa_error (scanAnother sampleLib raw app) = None"
proof -
  obtain raw where raw: "receiveChallenge sampleLib [raw] = Inr (challengeFor secondRequest)" by (rule request_frame [OF sampleLib_hash secondRequest_valid])
  have "assertChallengeEnvironment (challengeFor secondRequest) (contextEnvironment (rt_trustContext sampleRuntime)) = Inr ()"
    by (simp add: assertChallengeEnvironment_def challengeFor_def contextEnvironment_def sampleRuntime_def)
  then have "acceptChallenge sampleLib (startScan ScanChallengeScreen (cancelTo HomeScreen app)\<lparr>pa_receivedFrames := [raw]\<rparr>) = Inr (challengeFor secondRequest)"
    using assms raw
    by (simp add: acceptChallenge_def startScan_def cancelTo_def equalBytes_def sampleRuntime_def genesisParent_def challengeFor_def secondRequest_def)
  then have "pa_challenge (scanAnother sampleLib raw app) = Some (challengeFor secondRequest) \<and> pa_error (scanAnother sampleLib raw app) = None"
    by (simp add: scanAnother_def scanChallenge_def startScan_def setAdd_def Let_def)
  with that show thesis by blast
qed

lemma scanAnother_ok:
  assumes "appOk L rt app"
  shows "appOk L rt (scanAnother L raw app)"
proof -
  have "appOk L rt (startScan ScanChallengeScreen (cancelTo HomeScreen app))"
    using assms by (auto simp: appOk_def startScan_def cancelTo_def)
  then show ?thesis unfolding scanAnother_def
    by (rule touch_keeps(4) [OF touch.challenge, rotated]) (simp add: startScan_def)
qed

lemma sample_paid:
  assumes "payerHolds sampleLib (Some ps) (contents d)" "works d" "restoreAll sampleLib ps (environmentOf sampleContext) = Inr s"
    "rp_runtime s = sampleRuntime" "appOk sampleLib sampleRuntime app" "pa_challenge app = Some ch" "pa_credentials app = []"
    "pa_parent app = Some (genesisParent sampleCertificate)" "pa_onchainSessionAccount app = Some (replicate 32 21)"
    "validChallenge ch" "mc_merchant ch \<noteq> replicate 32 5" "mc_amount ch \<le> 100"
  obtains c frames d' where "authorizePayment sampleLib (loadPayer sampleLib nothingStored)
      (commitPayer sampleLib (\<lambda>n. Inl (sampleGeneration (of_nat n)))) app now d = (Done (showPayment app c frames now), d')" "works d'"
    "heldPayments sampleLib (environmentOf sampleContext) sampleRuntime [c] (contents d')"
proof -
  have signs: "\<And>m secret. length secret = 32 \<Longrightarrow> ed25519Sign sampleLib m secret \<noteq> None" by (simp add: sampleLib_def)
  have request: "mc_merchant ch \<noteq> sc_owner (rt_sessionCertificate (rp_runtime s))" "mc_amount ch \<le> pt_remaining (genesisParent sampleCertificate)"
    using assms(4,11,12) by (simp_all add: sampleRuntime_def genesisParent_def)
  have size: "length (pa_credentials app) < 32" "length (replicate 32 (21 :: byte)) = 32" using assms(7) by simp_all
  have time: "sc_issuedAt (rt_sessionCertificate (rp_runtime s)) + int (length (pa_credentials app)) < sc_expiresAt (rt_sessionCertificate (rp_runtime s))"
    using assms(7) by (simp add: assms(4) sampleRuntime_def)
  show thesis
    by (rule request_paid [OF sampleLib_borsh sampleLib_hash sampleLib_signature signs assms(1,3,2) freshGenerations_example
          assms(5) [folded assms(4)] assms(9) size(2) assms(6,10) request(1) assms(8) request(2) size(1) time, of nothingStored now])
      (use that in \<open>simp_all add: assms(4,7)\<close>)
qed

theorem concurrent_authorisations_fork_witness:
  "\<exists>app raw d one d' two d'' c c'. authorizePayment sampleLib (loadPayer sampleLib nothingStored)
      (commitPayer sampleLib (\<lambda>n. Inl (sampleGeneration (of_nat n)))) app (scanAnother sampleLib raw app) d = (Done one, d') \<and>
    authorizePayment sampleLib (loadPayer sampleLib nothingStored) (commitPayer sampleLib (\<lambda>n. Inl (sampleGeneration (of_nat n))))
      (scanAnother sampleLib raw app) one d' = (Done two, d'') \<and>
    pa_credentials one = [c] \<and> pa_credentials two = [c'] \<and> c \<noteq> c' \<and> pc_previousStateHash c = pc_previousStateHash c'"
proof -
  let ?load = "loadPayer sampleLib nothingStored" and ?commit = "commitPayer sampleLib (\<lambda>n. Inl (sampleGeneration (of_nat n)))"
  obtain ps s d where i: "payerHolds sampleLib (Some ps) (contents d)" "works d" "restoreAll sampleLib ps (environmentOf sampleContext) = Inr s"
    "rp_runtime s = sampleRuntime" "appOk sampleLib sampleRuntime (restoredApp s)" "pa_credentials (restoredApp s) = []"
    "pa_parent (restoredApp s) = Some (genesisParent sampleCertificate)" "pa_onchainSessionAccount (restoredApp s) = Some (replicate 32 21)"
    by (rule sampleOpened)
  let ?app = "(restoredApp s)\<lparr>pa_challenge := Some (challengeFor sampleRequest)\<rparr>"
  have ok: "appOk sampleLib sampleRuntime ?app" using i(5) unfolding appOk_def by auto
  then have rt: "pa_sessionRuntime ?app = Some sampleRuntime" by (simp add: appOk_def)
  obtain raw where raw: "pa_challenge (scanAnother sampleLib raw ?app) = Some (challengeFor secondRequest)" "pa_error (scanAnother sampleLib raw ?app) = None"
    by (rule secondRequest_accepted [OF rt]) (simp_all add: i(7))
  let ?again = "scanAnother sampleLib raw ?app"
  have again: "appOk sampleLib sampleRuntime ?again"
    by (rule scanAnother_ok [OF ok])
  obtain c1 f1 d1 where one: "authorizePayment sampleLib ?load ?commit ?app ?again d = (Done (showPayment ?app c1 f1 ?again), d1)" "works d1"
    "heldPayments sampleLib (environmentOf sampleContext) sampleRuntime [c1] (contents d1)"
    by (rule sample_paid [OF i(1-4) ok, of "challengeFor sampleRequest" ?again])
      (use i(6-8) sampleChallenge_valid in \<open>simp_all add: challengeFor_def sampleRequest_def\<close>)
  from one(3) obtain ps1 s1 where held: "payerHolds sampleLib (Some ps1) (contents d1)" "restoreAll sampleLib ps1 (environmentOf sampleContext) = Inr s1"
    "rp_runtime s1 = sampleRuntime" by (auto simp: heldPayments_def)
  let ?one = "showPayment ?app c1 f1 ?again"
  obtain c2 f2 d2 where two: "authorizePayment sampleLib ?load ?commit ?again ?one d1 = (Done (showPayment ?again c2 f2 ?one), d2)"
    by (rule sample_paid [OF held(1) one(2) held(2,3) again, of "challengeFor secondRequest" ?one])
      (use raw(1) i(6-8) secondRequest_valid in \<open>simp_all add: challengeFor_def secondRequest_def scanAnother_state\<close>)
  have other: "mc_challenge (challengeFor sampleRequest) \<noteq> mc_challenge (challengeFor secondRequest)"
    by (simp add: challengeFor_def sampleRequest_def secondRequest_def)
  have errors: "pa_error ?one = None" "pa_error (showPayment ?again c2 f2 ?one) = None" using raw(2) by (simp_all add: showPayment_def)
  have state: "pa_parent ?app = Some (genesisParent sampleCertificate)" "pa_challenge ?app = Some (challengeFor sampleRequest)"
    "pa_credentials ?app = []" using i(6,7) by simp_all
  from concurrent_authorisations_fork [OF sampleLib_signature rt state(1,2) raw(1) other one(1) errors(1) two errors(2)] one(1) two
  show ?thesis unfolding state(3) append_Nil by metis
qed

end
