(* ===== verification/ClaimHttp.thy ===== *)
theory ClaimHttp
  imports ClaimSync RuntimeConfiguration JsonText
begin

text \<open>
  The network side of \<open>apps/merchant-mobile/src/solana-claim-port.ts\<close>: the checks of the two URLs, the
  HTTP client of the relayer, and the port as the merchant's application builds it. \<open>fetch\<close> is a
  parameter: it gets the URL and the body of a POST with the content type \<open>application/json\<close>, and
  answers or rejects, as it also does when the client's timer aborts it.
\<close>

section \<open>Endpoints\<close>

definition assertEndpoint :: "url_parser \<Rightarrow> string \<Rightarrow> string \<Rightarrow> bool \<Rightarrow> UrlParts result" where
  "assertEndpoint parseUrl value label allowLocalHttp =
    bindE (fromLib ''Invalid URL'' (parseUrl value)) (\<lambda>parsed.
    bindE (failIf (url_protocol parsed \<noteq> ''https:'' \<and>
        \<not> (allowLocalHttp \<and> loopbackHost parsed \<and> url_protocol parsed = ''http:''))
      (label @ '' deve usar HTTPS'' @ (if allowLocalHttp then '' ou HTTP local'' else []))) (\<lambda>_.
    bindE (failIf (url_username parsed \<noteq> [] \<or> url_password parsed \<noteq> []) (label @ '' nao pode conter credenciais'')) (\<lambda>_.
      Inr parsed)))"

text \<open>\<open>replace(/\/$/, "")\<close>\<close>

definition claimsPath :: "string \<Rightarrow> string" where
  "claimsPath path = (if path \<noteq> [] \<and> last path = CHR ''/'' then butlast path else path) @ ''/v1/claims''"

definition relayerEndpoint :: "url_parser \<Rightarrow> string \<Rightarrow> UrlParts result" where
  "relayerEndpoint parseUrl url =
    bindE (assertEndpoint parseUrl url ''relayer URL'' True) (\<lambda>base.
    bindE (failIf (url_search base \<noteq> [] \<or> url_hash base \<noteq> []) ''relayer URL nao pode conter query ou fragmento'') (\<lambda>_.
      Inr (base\<lparr>url_pathname := claimsPath (url_pathname base)\<rparr>)))"

section \<open>The relayer's client\<close>

text \<open>\<open>None\<close> where \<open>response.json()\<close> rejects\<close>

record HttpResponse =
  hr_ok :: bool
  hr_status :: nat
  hr_json :: "json option"

type_synonym 'w fetch = "UrlParts \<Rightarrow> string \<Rightarrow> 'w \<Rightarrow> HttpResponse result \<times> 'w"

definition readResponse :: "HttpResponse \<Rightarrow> string result" where
  "readResponse response =
    bindE (failIf (\<not> hr_ok response) (''relayer recusou claim (HTTP '' @ natDecimal (hr_status response) @ '')'')) (\<lambda>_.
    bindE (fromLib ''JSON'' (hr_json response)) (\<lambda>body.
    (case propertyOf body ''transactionSignature'' of
       None \<Rightarrow> Inl (JsError ''resposta do relayer invalida'')
     | Some (JString transactionSignature) \<Rightarrow>
         bindE (failIf (\<not> isSolanaSignature transactionSignature) ''assinatura retornada pelo relayer e invalida'') (\<lambda>_.
           Inr transactionSignature)
     | Some _ \<Rightarrow> Inl (JsError ''assinatura retornada pelo relayer e invalida''))))"

definition httpSubmit :: "'w fetch \<Rightarrow> UrlParts \<Rightarrow> ClaimRelayerRequest \<Rightarrow> 'w \<Rightarrow> string result \<times> 'w" where
  "httpSubmit fetch base request w =
    (case fetch base (JSON_stringify (requestObject request)) w of
       (answer, w') \<Rightarrow> (bindE answer readResponse, w'))"

section \<open>The port of the application\<close>

text \<open>The default connection and relayer of \<open>createSolanaClaimSubmissionPort\<close>, by their URLs\<close>

definition portEndpoints :: "url_parser \<Rightarrow> string option \<Rightarrow> string option \<Rightarrow> (UrlParts \<times> UrlParts) result" where
  "portEndpoints parseUrl rpcUrl relayerUrl =
    (case rpcUrl of
       None \<Rightarrow> Inl (JsError ''rpcUrl e obrigatorio sem conexao injetada'')
     | Some rpc \<Rightarrow>
         bindE (assertEndpoint parseUrl rpc ''RPC URL'' True) (\<lambda>node.
         (case relayerUrl of
            None \<Rightarrow> Inl (JsError ''relayerUrl e obrigatorio sem relayer injetado'')
          | Some relayer \<Rightarrow> bindE (relayerEndpoint parseUrl relayer) (\<lambda>base. Inr (node, base)))))"

text \<open>
  The node the port reads: the connection to \<open>rpc\<close>, and the relayer behind \<open>base\<close>, whose requests are
  aborted after \<open>requestTimeoutMs\<close> and so always settle.
\<close>

definition clientNode :: "(UrlParts \<Rightarrow> 'w ChainNode) \<Rightarrow> 'w fetch \<Rightarrow> UrlParts \<Rightarrow> UrlParts \<Rightarrow> 'w ChainNode" where
  "clientNode connection fetch rpc base = (connection rpc)\<lparr>nd_relayer := (\<lambda>request w. case httpSubmit fetch base request w of (reply, w') \<Rightarrow> (Some reply, w'))\<rparr>"

definition merchantTrust :: "MerchantRuntimeConfiguration \<Rightarrow> bytes \<Rightarrow> StoredClaimTrust" where
  "merchantTrust runtime key = \<lparr>ev_networkId = ev_networkId (mr_trust runtime), ev_clusterGenesisHash = ev_clusterGenesisHash (mr_trust runtime),
     ev_programId = ev_programId (mr_trust runtime), ev_trustedCertificateIssuer = ev_trustedCertificateIssuer (mr_trust runtime),
     sct_merchant = mr_merchant runtime, sct_merchantDeviceKey = key\<rparr>"

definition merchantPortConfig :: "MerchantRuntimeConfiguration \<Rightarrow> bytes \<Rightarrow> SolanaClaimPortConfig" where
  "merchantPortConfig runtime merchantDeviceKey =
    \<lparr>sp_programId = ev_programId (mr_trust runtime), sp_trust = merchantTrust runtime merchantDeviceKey, sp_confirmationTimeoutMs = 45000\<rparr>"

definition createClaimPort ::
  "lib \<Rightarrow> web3 \<Rightarrow> url_parser \<Rightarrow> (UrlParts \<Rightarrow> 'w ChainNode) \<Rightarrow> 'w fetch \<Rightarrow> MerchantRuntimeConfiguration \<Rightarrow> bytes \<Rightarrow>
    'w port_state ClaimSubmissionPort result" where
  "createClaimPort L W parseUrl connection fetch runtime merchantDeviceKey =
    bindE (createPort (merchantPortConfig runtime merchantDeviceKey) 15000 750) (\<lambda>_.
    bindE (portEndpoints parseUrl (Some (mr_rpcUrl runtime)) (Some (mr_relayerUrl runtime))) (\<lambda>(rpc, base).
      Inr (solanaPort L W (merchantPortConfig runtime merchantDeviceKey) (clientNode connection fetch rpc base))))"

end
