(* ===== verification/MerchantApp.thy ===== *)
theory MerchantApp
  imports ClaimHttp MerchantStorage
begin

text \<open>
  The merchant's application, \<open>apps/merchant-mobile/App.tsx\<close>: the state of \<open>MerchantApplication\<close>
  and its handlers, without what they draw. The setters of React change one field each; an error
  that is shown is kept as the error. The store's operations \<open>load\<close>, \<open>initialize\<close> and \<open>update\<close> and
  the random values are arguments. A synchronisation waits for the network, and other handlers may
  run meanwhile: it works on a world that holds the device and the state of the application, and
  the operations of its port may change both.
\<close>

section \<open>State\<close>

datatype MerchantScreen =
  MerchantHome | ShowChallenge | ScanCredential | VerifiedScreen | ShowReceipt | HistoryScreen | ClaimDetail

record MerchantApp =
  ma_screen :: MerchantScreen
  ma_amountText :: string
  ma_merchantDeviceKey :: "bytes option"
  ma_challenge :: "MerchantChallenge option"
  ma_challengeFrames :: "string list"
  ma_receiptFrames :: "string list"
  ma_verifiedCredential :: "PaymentCredential option"
  ma_claims :: "StoredClaim list"
  ma_selectedClaimHash :: "string option"
  ma_error :: "js_error option"
  ma_syncing :: bool
  ma_syncSummary :: "string option"
  ma_receivedFrames :: "string list"

definition initialMerchantApp :: MerchantApp where
  "initialMerchantApp = \<lparr>ma_screen = MerchantHome, ma_amountText = ''100'', ma_merchantDeviceKey = None, ma_challenge = None,
     ma_challengeFrames = [], ma_receiptFrames = [], ma_verifiedCredential = None, ma_claims = [], ma_selectedClaimHash = None,
     ma_error = None, ma_syncing = False, ma_syncSummary = None, ma_receivedFrames = []\<rparr>"

text \<open>\<open>new QRTransport()\<close> with its default chunk size\<close>

definition merchantTransport :: QRTransport where
  "merchantTransport = \<lparr>qr_chunkBytes = nat DEFAULT_CHUNK_BYTES\<rparr>"

section \<open>Texts\<close>

text \<open>\<open>hexToBytes\<close> on a member that should be a text: any other value fails its test.\<close>

definition appHexToBytes :: "json option \<Rightarrow> bytes result" where
  "appHexToBytes value =
    (case value of
       Some (JString text) \<Rightarrow>
         bindE (failIf (\<not> (text \<noteq> [] \<and> list_all (\<lambda>c. c \<in> set ''0123456789abcdef'') text) \<or> length text mod 2 \<noteq> 0)
           ''hexadecimal invalido'') (\<lambda>_. Inr (hexPairs text))
     | _ \<Rightarrow> Inl (JsError ''hexadecimal invalido''))"

text \<open>
  \<open>BigInt\<close> of a text: white space around it is ignored, the empty text is 0, a prefix selects
  another base.
\<close>

definition digitsValue :: "nat \<Rightarrow> string \<Rightarrow> string \<Rightarrow> int option" where
  "digitsValue base alphabet text =
    (if text = [] \<or> \<not> list_all (\<lambda>c. c \<in> set alphabet) text then None
     else Some (fold (\<lambda>c n. n * int base + (case indexOfChar alphabet c of None \<Rightarrow> 0 | Some d \<Rightarrow> int d)) text 0))"

definition bigIntOf :: "string \<Rightarrow> int option" where
  "bigIntOf text =
    (let trimmed = trim text in
     if trimmed = [] then Some 0
     else if take 2 trimmed \<in> {''0x'', ''0X''}
       then digitsValue 16 ''0123456789abcdef'' (map (\<lambda>c. if c \<in> set ''ABCDEF'' then char_of (of_char c + 32 :: nat) else c) (drop 2 trimmed))
     else if take 2 trimmed \<in> {''0o'', ''0O''} then digitsValue 8 ''01234567'' (drop 2 trimmed)
     else if take 2 trimmed \<in> {''0b'', ''0B''} then digitsValue 2 ''01'' (drop 2 trimmed)
     else if hd trimmed = CHR ''-'' then map_option uminus (digitsValue 10 ''0123456789'' (tl trimmed))
     else if hd trimmed = CHR ''+'' then digitsValue 10 ''0123456789'' (tl trimmed)
     else digitsValue 10 ''0123456789'' trimmed)"

text \<open>\<open>BigInt\<close> of a member; objects and arrays, whose text it would read, are refused here.\<close>

definition bigIntMember :: "json option \<Rightarrow> int result" where
  "bigIntMember value =
    (case value of
       Some (JString text) \<Rightarrow> fromLib (''Cannot convert '' @ text @ '' to a BigInt'') (bigIntOf text)
     | Some (JNumber n) \<Rightarrow> if isInteger value then Inr \<lfloor>n\<rfloor> else Inl (JsError ''The number cannot be converted to a BigInt'')
     | Some (JBool b) \<Rightarrow> Inr (if b then 1 else 0)
     | _ \<Rightarrow> Inl (JsError ''Cannot convert to a BigInt''))"

section \<open>The claims in the store\<close>

definition statusText :: "ClaimLifecycleStatus \<Rightarrow> string" where
  "statusText status = (case status of
      LifecyclePending \<Rightarrow> ''pending-submission'' | LifecycleSubmitted \<Rightarrow> ''submitted''
    | LifecycleSettled \<Rightarrow> ''settled'' | LifecycleRejected \<Rightarrow> ''rejected'')"

definition presentationText :: "ReceiptPresentation \<Rightarrow> string" where
  "presentationText presentation = (case presentation of
      ReceiptNotShown \<Rightarrow> ''not-shown'' | ReceiptShown \<Rightarrow> ''shown'' | ReceiptUnknown \<Rightarrow> ''unknown'')"

definition nullable :: "string option \<Rightarrow> json" where
  "nullable value = (case value of None \<Rightarrow> JNull | Some text \<Rightarrow> JString text)"

definition claimJson :: "StoredClaim \<Rightarrow> json" where
  "claimJson claim = JObject
    [(''credentialHash'', JString (st_credentialHash claim)), (''amount'', JString (st_amount claim)),
     (''sessionId'', JString (st_sessionId claim)), (''frames'', JArray (map JString (st_frames claim))),
     (''status'', JString (statusText (st_status claim))),
     (''receiptPresentation'', JString (presentationText (st_receiptPresentation claim))),
     (''submissionAttempts'', JNumber (of_int (st_submissionAttempts claim))),
     (''transactionSignature'', nullable (st_transactionSignature claim)),
     (''lastConfirmedSlot'', nullable (st_lastConfirmedSlot claim)),
     (''lastSubmissionError'', nullable (st_lastSubmissionError claim))]"

text \<open>\<open>JSON.stringify(claims)\<close> and \<open>parseStoredClaims\<close> of the stored text\<close>

definition claimsText :: "StoredClaim list \<Rightarrow> string" where
  "claimsText claims = JSON_stringify (JArray (map claimJson claims))"

definition parseStoredClaims :: "string \<Rightarrow> StoredClaim list" where
  "parseStoredClaims serialized = parsedStoredClaims (JSON_parse serialized)"

section \<open>Boot\<close>

text \<open>\<open>equalBytesForStorage\<close> compares lengths and bytes; the members of the parsed text follow.\<close>

definition restoredChallenge :: "MerchantRuntimeConfiguration \<Rightarrow> bytes \<Rightarrow> string \<Rightarrow> MerchantChallenge result" where
  "restoredChallenge runtime devicePublicKey outstandingJson =
    bindE (fromLib ''JSON'' (JSON_parse outstandingJson)) (\<lambda>outstanding.
    bindE (failIf (outstanding = JNull) ''Cannot read properties of null'') (\<lambda>_.
    bindE (appHexToBytes (propertyOf outstanding ''merchantDeviceKey'')) (\<lambda>storedKey.
    bindE (failIf (\<not> equalBytes devicePublicKey storedKey) ''O pedido persistido pertence a outro dispositivo'') (\<lambda>_.
    bindE (bigIntMember (propertyOf outstanding ''amount'')) (\<lambda>amount.
    bindE (appHexToBytes (propertyOf outstanding ''challenge'')) (\<lambda>challenge.
      Inr \<lparr>ev_networkId = ev_networkId (mr_trust runtime), ev_clusterGenesisHash = ev_clusterGenesisHash (mr_trust runtime),
        ev_programId = ev_programId (mr_trust runtime), mc_merchant = mr_merchant runtime,
        mc_merchantDeviceKey = devicePublicKey, mc_amount = amount, mc_challenge = challenge\<rparr>))))))"

definition showChallenge :: "lib \<Rightarrow> MerchantChallenge \<Rightarrow> MerchantApp \<Rightarrow> MerchantApp" where
  "showChallenge L request app =
    (case sendChallenge L merchantTransport request of
       Inl reason \<Rightarrow> app\<lparr>ma_challenge := Some request, ma_error := Some reason\<rparr>
     | Inr frames \<Rightarrow> app\<lparr>ma_challenge := Some request, ma_challengeFrames := frames, ma_screen := ShowChallenge\<rparr>)"

definition restoredMerchantApp :: "lib \<Rightarrow> MerchantRuntimeConfiguration \<Rightarrow> MerchantDurableSnapshot \<Rightarrow> MerchantApp" where
  "restoredMerchantApp L runtime snapshot =
    (case bindE (appHexToBytes (Some (JString (md_deviceSecretHex snapshot)))) (derivePublicKey L) of
       Inl reason \<Rightarrow> initialMerchantApp\<lparr>ma_error := Some reason\<rparr>
     | Inr devicePublicKey \<Rightarrow>
         let ready = initialMerchantApp\<lparr>ma_merchantDeviceKey := Some devicePublicKey,
               ma_claims := parseStoredClaims (md_claimsJson snapshot)\<rparr>
         in
         (case md_outstandingChallengeJson snapshot of
            None \<Rightarrow> ready
          | Some outstandingJson \<Rightarrow>
              (case restoredChallenge runtime devicePublicKey outstandingJson of
                 Inl reason \<Rightarrow> ready\<lparr>ma_error := Some reason\<rparr>
               | Inr restored \<Rightarrow> showChallenge L restored ready)))"

definition bootMerchant ::
  "lib \<Rightarrow> MerchantRuntimeConfiguration \<Rightarrow> MerchantDurableSnapshot option io \<Rightarrow> (string \<Rightarrow> MerchantDurableSnapshot io) \<Rightarrow>
    bytes result \<Rightarrow> MerchantApp io" where
  "bootMerchant L runtime load initialize secretKey =
    catchIO
      (bindIO load (\<lambda>loaded.
       bindIO (case loaded of
           Some snapshot \<Rightarrow> returnIO snapshot
         | None \<Rightarrow> bindIO (liftIO secretKey) (\<lambda>secret. initialize (bytesToHex secret))) (\<lambda>snapshot.
         returnIO (restoredMerchantApp L runtime snapshot))))
      (\<lambda>reason. returnIO (initialMerchantApp\<lparr>ma_error := Some reason\<rparr>))"

section \<open>Requests\<close>

definition outstandingJson :: "int \<Rightarrow> bytes \<Rightarrow> bytes \<Rightarrow> string" where
  "outstandingJson amount challenge merchantDeviceKey = JSON_stringify (JObject
    [(''amount'', JString (decimal amount)), (''challenge'', JString (bytesToHex challenge)),
     (''merchantDeviceKey'', JString (bytesToHex merchantDeviceKey))])"

definition requestOf :: "MerchantRuntimeConfiguration \<Rightarrow> bytes result \<Rightarrow> MerchantApp \<Rightarrow> MerchantChallenge result" where
  "requestOf runtime challenge app =
    (case ma_merchantDeviceKey app of
       None \<Rightarrow> Inl (JsError ''Identidade do dispositivo ainda nao esta pronta'')
     | Some merchantDeviceKey \<Rightarrow>
         bindE (throwIf (\<not> positiveNumber (ma_amountText app)) ''INVALID_AMOUNT'') (\<lambda>_.
         bindE (fromLib ''BigInt'' (bigIntOf (ma_amountText app))) (\<lambda>amount.
         bindE challenge (\<lambda>drawn.
           Inr \<lparr>ev_networkId = ev_networkId (mr_trust runtime), ev_clusterGenesisHash = ev_clusterGenesisHash (mr_trust runtime),
             ev_programId = ev_programId (mr_trust runtime), mc_merchant = mr_merchant runtime,
             mc_merchantDeviceKey = merchantDeviceKey, mc_amount = amount, mc_challenge = drawn\<rparr>))))"

type_synonym merchant_update = "(MerchantDurableSnapshot \<Rightarrow> MerchantDurableSnapshot result) \<Rightarrow> MerchantDurableSnapshot io"

definition createRequest ::
  "lib \<Rightarrow> MerchantRuntimeConfiguration \<Rightarrow> merchant_update \<Rightarrow> bytes result \<Rightarrow> MerchantApp \<Rightarrow> MerchantApp io" where
  "createRequest L runtime update challenge app =
    catchIO
      (bindIO (liftIO (requestOf runtime challenge app)) (\<lambda>request.
       bindIO (update (\<lambda>current. Inr (current\<lparr>md_outstandingChallengeJson :=
           Some (outstandingJson (mc_amount request) (mc_challenge request) (mc_merchantDeviceKey request))\<rparr>))) (\<lambda>_.
         returnIO (showChallenge L request (app\<lparr>ma_error := None\<rparr>)))))
      (\<lambda>reason. returnIO (app\<lparr>ma_error := Some reason\<rparr>))"

section \<open>Payments\<close>

definition beginCredentialScan :: "MerchantApp \<Rightarrow> MerchantApp" where
  "beginCredentialScan app = app\<lparr>ma_receivedFrames := [], ma_error := None, ma_screen := ScanCredential\<rparr>"

definition reportCredentialError :: "js_error \<Rightarrow> MerchantApp \<Rightarrow> MerchantApp" where
  "reportCredentialError reason app =
    (if reason = OgpValidationError ''INCOMPLETE_QR_TRANSFER'' then app else app\<lparr>ma_error := Some reason\<rparr>)"

definition acceptCredential ::
  "lib \<Rightarrow> MerchantRuntimeConfiguration \<Rightarrow> MerchantApp \<Rightarrow> (PaymentCredential \<times> bytes) result" where
  "acceptCredential L runtime app =
    (case (ma_challenge app, ma_merchantDeviceKey app) of
       (Some challenge, Some _) \<Rightarrow>
         bindE (receiveCredential L (ma_receivedFrames app)) (\<lambda>bundle.
         bindE (validateMerchantResponse L (mr_trust runtime) challenge bundle) (\<lambda>response.
         bindE (credentialHash L (vr_credential response)) (\<lambda>hash.
           Inr (vr_credential response, hash))))
     | _ \<Rightarrow> Inl (JsError ''Nenhum pedido ativo''))"

text \<open>The update that stores the proof and closes the request in one commit\<close>

definition storeAccepted :: "PaymentCredential \<Rightarrow> bytes \<Rightarrow> string list \<Rightarrow> MerchantDurableSnapshot \<Rightarrow> MerchantDurableSnapshot result" where
  "storeAccepted credential hash frames current =
    bindE (failIf (md_outstandingChallengeJson current = None) ''pedido duravel ausente durante o recebimento da prova'') (\<lambda>_.
    let storedClaims = parseStoredClaims (md_claimsJson current);
        known = list_ex (\<lambda>claim. st_credentialHash claim = bytesToHex hash) storedClaims;
        claims = (if known then storedClaims
          else storedClaims @ [createStoredClaim (bytesToHex hash) (decimal (pc_amount credential)) (bytesToHex (pc_sessionId credential)) frames])
    in Inr (current\<lparr>md_claimsJson := claimsText claims, md_outstandingChallengeJson := None\<rparr>))"

definition scanCredential ::
  "lib \<Rightarrow> MerchantRuntimeConfiguration \<Rightarrow> merchant_update \<Rightarrow> string \<Rightarrow> MerchantApp \<Rightarrow> MerchantApp io" where
  "scanCredential L runtime update raw app =
    (let scanned = app\<lparr>ma_receivedFrames := setAdd raw (ma_receivedFrames app)\<rparr> in
     catchIO
       (bindIO (liftIO (acceptCredential L runtime scanned)) (\<lambda>(credential, hash).
        bindIO (update (storeAccepted credential hash (ma_receivedFrames scanned))) (\<lambda>committed.
        let stored = scanned\<lparr>ma_claims := parseStoredClaims (md_claimsJson committed), ma_verifiedCredential := Some credential\<rparr> in
        returnIO (case sendReceipt L merchantTransport \<lparr>tr_credentialHash = hash, tr_merchantChallenge = pc_merchantChallenge credential\<rparr> of
            Inl reason \<Rightarrow> reportCredentialError reason stored
          | Inr frames \<Rightarrow> stored\<lparr>ma_receiptFrames := frames, ma_screen := VerifiedScreen\<rparr>))))
       (\<lambda>reason. returnIO (reportCredentialError reason scanned)))"

definition markShown :: "bytes \<Rightarrow> MerchantDurableSnapshot \<Rightarrow> MerchantDurableSnapshot result" where
  "markShown hash current =
    Inr (current\<lparr>md_claimsJson := claimsText (markReceiptShown (parseStoredClaims (md_claimsJson current)) (bytesToHex hash))\<rparr>)"

definition showReceipt :: "lib \<Rightarrow> merchant_update \<Rightarrow> MerchantApp \<Rightarrow> MerchantApp io" where
  "showReceipt L update app =
    (case ma_verifiedCredential app of
       None \<Rightarrow> returnIO app
     | Some credential \<Rightarrow>
         catchIO
           (bindIO (liftIO (credentialHash L credential)) (\<lambda>hash.
            bindIO (update (markShown hash)) (\<lambda>committed.
              returnIO (app\<lparr>ma_claims := parseStoredClaims (md_claimsJson committed), ma_screen := ShowReceipt\<rparr>))))
           (\<lambda>reason. returnIO (app\<lparr>ma_error := Some reason\<rparr>)))"

text \<open>\<open>CONCLUIR\<close>\<close>

definition finishReceipt :: "MerchantApp \<Rightarrow> MerchantApp" where
  "finishReceipt app = app\<lparr>ma_challenge := None, ma_verifiedCredential := None, ma_challengeFrames := [], ma_receiptFrames := [],
     ma_screen := MerchantHome\<rparr>"

section \<open>The history of proofs\<close>

record ClaimInspection =
  ci_claim :: StoredClaim
  ci_descriptors :: "ClaimBranchDescriptor list"
  ci_valid :: bool
  ci_expiresAt :: "int option"
  ci_claimSubmissionDeadline :: "int option"

definition inspectedBundle ::
  "lib \<Rightarrow> MerchantRuntimeConfiguration \<Rightarrow> bytes option \<Rightarrow> StoredClaim \<Rightarrow> CredentialProofBundle result" where
  "inspectedBundle L runtime merchantDeviceKey claim =
    bindE (receiveCredential L (st_frames claim)) (\<lambda>bundle.
    bindE (failIf (credentials bundle = []) ''A prova nao contem credenciais'') (\<lambda>_.
    let finalCredential = last (credentials bundle);
        context = \<lparr>cx_networkId = ev_networkId (mr_trust runtime), cx_clusterGenesisHash = ev_clusterGenesisHash (mr_trust runtime),
          cx_programId = ev_programId (mr_trust runtime), cx_sessionId = sc_sessionId (sessionCertificate bundle),
          cx_trustedCertificateIssuer = ev_trustedCertificateIssuer (mr_trust runtime)\<rparr>
    in
    bindE (validateCredentialProofBundle L context bundle) (\<lambda>_.
    bindE (credentialHash L finalCredential) (\<lambda>hash.
    bindE (failIf (bytesToHex hash \<noteq> st_credentialHash claim \<or> bytesToHex (pc_sessionId finalCredential) \<noteq> st_sessionId claim \<or>
        decimal (pc_amount finalCredential) \<noteq> st_amount claim \<or>
        \<not> equalBytes (pc_merchant finalCredential) (mr_merchant runtime) \<or>
        (case merchantDeviceKey of None \<Rightarrow> False | Some key \<Rightarrow> \<not> equalBytes (pc_merchantDeviceKey finalCredential) key))
      ''Os metadados locais nao correspondem a prova'') (\<lambda>_.
      Inr bundle)))))"

definition inspectClaim ::
  "lib \<Rightarrow> MerchantRuntimeConfiguration \<Rightarrow> bytes option \<Rightarrow> StoredClaim \<Rightarrow> ClaimInspection" where
  "inspectClaim L runtime merchantDeviceKey claim =
    (case inspectedBundle L runtime merchantDeviceKey claim of
       Inl _ \<Rightarrow> \<lparr>ci_claim = claim, ci_descriptors = [], ci_valid = False, ci_expiresAt = None, ci_claimSubmissionDeadline = None\<rparr>
     | Inr bundle \<Rightarrow>
         \<lparr>ci_claim = claim,
          ci_descriptors = map (\<lambda>credential. \<lparr>bd_credentialHash = st_credentialHash claim, bd_sessionId = st_sessionId claim,
            bd_parentStateHash = bytesToHex (pc_previousStateHash credential), bd_sequence = pc_sequence credential,
            bd_resultingStateHash = bytesToHex (pc_newStateHash credential)\<rparr>) (credentials bundle),
          ci_valid = True, ci_expiresAt = Some (sc_expiresAt (sessionCertificate bundle)),
          ci_claimSubmissionDeadline = Some (sc_claimSubmissionDeadline (sessionCertificate bundle))\<rparr>)"

definition claimInspections :: "lib \<Rightarrow> MerchantRuntimeConfiguration \<Rightarrow> MerchantApp \<Rightarrow> ClaimInspection list" where
  "claimInspections L runtime app = map (inspectClaim L runtime (ma_merchantDeviceKey app)) (ma_claims app)"

definition potentialConflictHashes :: "lib \<Rightarrow> MerchantRuntimeConfiguration \<Rightarrow> MerchantApp \<Rightarrow> string list" where
  "potentialConflictHashes L runtime app = findPotentialConflictHashes (concat (map ci_descriptors (claimInspections L runtime app)))"

definition openClaim :: "string \<Rightarrow> MerchantApp \<Rightarrow> MerchantApp" where
  "openClaim hash app = app\<lparr>ma_selectedClaimHash := Some hash, ma_screen := ClaimDetail\<rparr>"

section \<open>Synchronisation\<close>

record 'w SyncWorld =
  sw_device :: Device
  sw_app :: MerchantApp
  sw_alive :: bool
  sw_rest :: 'w

text \<open>A storage operation of the synchronisation; \<open>None\<close> where it throws or the process dies.\<close>

definition syncIO :: "'a io \<Rightarrow> 'w SyncWorld \<Rightarrow> 'a result \<times> 'w SyncWorld" where
  "syncIO m w =
    (case m (sw_device w) of
       (Done x, d) \<Rightarrow> (Inr x, w\<lparr>sw_device := d\<rparr>)
     | (Thrown e, d) \<Rightarrow> (Inl e, w\<lparr>sw_device := d\<rparr>)
     | (Died, d) \<Rightarrow> (Inl (JsError []), w\<lparr>sw_device := d, sw_alive := False\<rparr>))"

definition setApp :: "(MerchantApp \<Rightarrow> MerchantApp) \<Rightarrow> 'w SyncWorld \<Rightarrow> 'w SyncWorld" where
  "setApp f w = w\<lparr>sw_app := f (sw_app w)\<rparr>"

text \<open>The \<open>persist\<close> argument of \<open>syncClaimQueue\<close>\<close>

definition persistClaims :: "merchant_update \<Rightarrow> StoredClaim list \<Rightarrow> 'w SyncWorld \<Rightarrow> unit result \<times> 'w SyncWorld" where
  "persistClaims update updated w =
    (case syncIO (update (\<lambda>stored. Inr (stored\<lparr>md_claimsJson := claimsText updated\<rparr>))) w of
       (Inl e, w') \<Rightarrow> (Inl e, w')
     | (Inr _, w') \<Rightarrow> (Inr (), setApp (\<lambda>app. app\<lparr>ma_claims := updated\<rparr>) w'))"

definition summaryText :: "ClaimQueueSyncResult \<Rightarrow> string" where
  "summaryText result =
    (if qs_attempted result = 0 then ''Nenhuma prova precisa de sincronizacao.''
     else natDecimal (qs_confirmed result) @ '' confirmada(s) on-chain - '' @ natDecimal (qs_failed result) @ '' ainda aguardando'')"

definition runSync ::
  "bool \<Rightarrow> MerchantDurableSnapshot option io \<Rightarrow> merchant_update \<Rightarrow> (bytes \<Rightarrow> 'w SyncWorld ClaimSubmissionPort result) \<Rightarrow>
    MerchantApp \<Rightarrow> 'w SyncWorld \<Rightarrow> unit result option \<times> 'w SyncWorld" where
  "runSync submissionEnabled load update makePort closure w =
    (if \<not> submissionEnabled then (Some (Inl (JsError ''A demonstracao offline nao envia claims. Use uma configuracao on-chain valida.'')), w)
     else
      (case ma_merchantDeviceKey closure of
         None \<Rightarrow> (Some (Inl (JsError ''Identidade do dispositivo ainda nao esta pronta'')), w)
       | Some merchantDeviceKey \<Rightarrow>
          (case syncIO load w of
             (Inl e, w1) \<Rightarrow> (Some (Inl e), w1)
           | (Inr None, w1) \<Rightarrow> (Some (Inl (JsError ''armazenamento duravel do merchant indisponivel'')), w1)
           | (Inr (Some snapshot), w1) \<Rightarrow>
              (case makePort merchantDeviceKey of
                 Inl e \<Rightarrow> (Some (Inl e), w1)
               | Inr port \<Rightarrow>
                  (case syncClaimQueue port (parseStoredClaims (md_claimsJson snapshot)) True (Some (persistClaims update)) w1 of
                     (None, w2) \<Rightarrow> (None, w2)
                   | (Some (Inl e), w2) \<Rightarrow> (Some (Inl e), w2)
                   | (Some (Inr result), w2) \<Rightarrow>
                       (Some (Inr ()), setApp (\<lambda>app. app\<lparr>ma_claims := qs_claims result, ma_syncSummary := Some (summaryText result)\<rparr>) w2))))))"

text \<open>
  The handler, with \<open>None\<close> where it does not end: a call of the port that never settles is waited for
  with \<open>syncing\<close> set.
\<close>

definition synchronizeClaims ::
  "bool \<Rightarrow> MerchantDurableSnapshot option io \<Rightarrow> merchant_update \<Rightarrow> (bytes \<Rightarrow> 'w SyncWorld ClaimSubmissionPort result) \<Rightarrow>
    MerchantApp \<Rightarrow> 'w SyncWorld \<Rightarrow> unit option \<times> 'w SyncWorld" where
  "synchronizeClaims submissionEnabled load update makePort closure w =
    (if ma_syncing closure then (Some (), w)
     else
       (case runSync submissionEnabled load update makePort closure
           (setApp (\<lambda>app. app\<lparr>ma_syncing := True, ma_error := None, ma_syncSummary := None\<rparr>) w) of
          (outcome, w') \<Rightarrow>
            if \<not> sw_alive w' then (None, w')
            else
              (case outcome of
                 None \<Rightarrow> (None, w')
               | Some (Inl reason) \<Rightarrow> (Some (), setApp (\<lambda>app. app\<lparr>ma_error := Some reason, ma_syncing := False\<rparr>) w')
               | Some (Inr _) \<Rightarrow> (Some (), setApp (\<lambda>app. app\<lparr>ma_syncing := False\<rparr>) w'))))"

end
