(* ===== verification/MerchantAppFacts.thy ===== *)
theory MerchantAppFacts
  imports MerchantApp RecoveryTheorems SyncFacts MerchantFacts TransportTheorems
begin

text \<open>
  The merchant's application on a failing device: what the stored texts read back as, that an
  accepted payment is stored as a claim whose evidence can be derived again, and that no later
  handler and no synchronisation takes it away.
\<close>

section \<open>Stored texts\<close>

text \<open>The claims that survive \<open>normalizeClaim\<close>\<close>

definition storableClaim :: "StoredClaim \<Rightarrow> bool" where
  "storableClaim claim \<longleftrightarrow> isHex 32 (st_credentialHash claim) \<and> isHex 32 (st_sessionId claim) \<and> positiveNumber (st_amount claim) \<and>
     st_frames claim \<noteq> [] \<and> [] \<notin> set (st_frames claim)"

lemma nullable_plain: "plainJson (nullable v)"
  by (simp add: nullable_def split: option.split)

lemma claimJson_plain: "plainJson (claimJson claim)"
  by (simp add: claimJson_def nullable_plain list_all_iff)

lemma framesOf_texts: "framesOf (Some (JArray (map JString fs))) = (if fs = [] \<or> [] \<in> set fs then None else Some fs)"
proof -
  have "those (map (\<lambda>frame. textWhere (\<lambda>text. text \<noteq> []) (Some frame)) (map JString fs)) = (if [] \<in> set fs then None else Some fs)"
    by (induction fs) (auto simp: textWhere_def)
  then show ?thesis by (simp add: framesOf_def)
qed

lemma statusOf_text: "statusOf (Some (JString (statusText s))) = Some s"
  by (cases s) (simp_all add: statusOf_def statusText_def)

text \<open>Its proof is what a claim has to keep: the bookkeeping of the synchronisation may be reset.\<close>

definition sameEvidence :: "StoredClaim \<Rightarrow> StoredClaim \<Rightarrow> bool" where
  "sameEvidence c c' \<longleftrightarrow> st_credentialHash c' = st_credentialHash c \<and> st_amount c' = st_amount c \<and> st_sessionId c' = st_sessionId c \<and>
     st_frames c' = st_frames c"

lemma sameProof_evidence: "sameProof c c' \<Longrightarrow> sameEvidence c c'"
  by (simp add: sameProof_def sameEvidence_def)

lemma normalize_claimJson:
  assumes "storableClaim c"
  shows "\<exists>c'. normalizeClaim (claimJson c) = Some c' \<and> sameEvidence c c'"
  using assms
  by (simp add: storableClaim_def normalizeClaim_def isRecord_def claimJson_def propertyOf_def canonicalHex_def framesOf_texts statusOf_text
      sameEvidence_def) (simp add: textWhere_def)

lemma normalize_storable: "normalizeClaim v = Some c \<Longrightarrow> storableClaim c"
proof -
  have frames: "fs \<noteq> [] \<and> [] \<notin> set fs" if "framesOf w = Some fs" for w fs
  proof -
    have whole: "length fs = length es \<and> [] \<notin> set fs" if "those (map (\<lambda>frame. textWhere (\<lambda>text. text \<noteq> []) (Some frame)) es) = Some fs" for es
      using that by (induction es arbitrary: fs) (auto simp: textWhere_def split: option.splits json.splits if_splits)
    show ?thesis using that by (auto simp: framesOf_def split: option.splits json.splits if_splits dest!: whole)
  qed
  show "normalizeClaim v = Some c \<Longrightarrow> storableClaim c"
    by (auto simp: normalizeClaim_def storableClaim_def canonicalHex_def bind_eq_Some_conv dest: frames split: if_splits option.splits json.splits)
      (auto simp: textWhere_def split: if_splits option.splits json.splits)
qed

lemma parsed_storable: "c \<in> set (parseStoredClaims t) \<Longrightarrow> storableClaim c"
  by (auto simp: parseStoredClaims_def parsedStoredClaims_def map_filter_def intro: normalize_storable split: option.splits json.splits)

lemma parse_claimsText: "parseStoredClaims (claimsText cs) = List.map_filter (\<lambda>c. normalizeClaim (claimJson c)) cs"
proof -
  have "JSON_parse (claimsText cs) = Some (JArray (map claimJson cs))"
    unfolding claimsText_def by (rule JSON_parse_stringify) (simp add: list_all_iff claimJson_plain)
  then show ?thesis by (simp add: parseStoredClaims_def parsedStoredClaims_def map_filter_def filter_map comp_def)
qed

text \<open>What is stored is read back, claim by claim, and nothing else is.\<close>

lemma parsed_claim:
  assumes "c \<in> set cs" "storableClaim c"
  shows "\<exists>c' \<in> set (parseStoredClaims (claimsText cs)). sameEvidence c c'"
  using normalize_claimJson [OF assms(2)] assms(1) by (fastforce simp: parse_claimsText map_filter_def)

lemma parsed_origin:
  assumes "c' \<in> set (parseStoredClaims (claimsText cs))" "list_all storableClaim cs"
  shows "\<exists>c \<in> set cs. sameEvidence c c'"
proof -
  obtain c where c: "c \<in> set cs" "normalizeClaim (claimJson c) = Some c'" using assms(1) by (auto simp: parse_claimsText map_filter_def)
  with assms(2) normalize_claimJson [of c] show ?thesis by (auto simp: list_all_iff)
qed

section \<open>Evidence\<close>

definition provable :: "lib \<Rightarrow> StoredClaimTrust \<Rightarrow> StoredClaim \<Rightarrow> bool" where
  "provable L trust claim \<longleftrightarrow> isOk (materializeStoredClaimEvidence L claim trust)"

lemma provable_same: "sameEvidence c c' \<Longrightarrow> provable L trust c' \<longleftrightarrow> provable L trust c"
  by (simp add: provable_def materializeStoredClaimEvidence_def sameEvidence_def)

lemma material_exists:
  assumes "borsh_ok L" "hash_ok L" "credentialHash L c = Inr h"
  obtains m where "createClaimSubmissionMaterial L c = Inr m" "cm_credentialHash m = h"
proof -
  obtain bs where bs: "encodePaymentCredential L c = Inr bs" "h = sha256 L bs" using assms(3) by (auto simp: credentialHash_iff)
  then have valid: "validPaymentCredential c" "length (pc_payerSignature c) = 64"
    using encodePaymentCredential_ok [OF assms(1), of c] by auto
  obtain p where p: "encodePaymentCredentialPayload L c = Inr p"
    using encodePaymentCredentialPayload_ok [OF assms(1)] valid(1) by (auto simp: isOk_iff)
  have b: "bs = p @ pc_payerSignature c" using signature_appended [OF assms(1) bs(1)] p by auto
  have l: "length p = 410" using encodePaymentCredential_length [OF bs(1)] valid(2) b by simp
  have "createClaimSubmissionMaterial L c = Inr \<lparr>cm_payload = p, cm_payerSignature = pc_payerSignature c, cm_credentialHash = h\<rparr>"
    using p bs b l valid assms(3) by (simp add: claim_material_iff [OF assms(1,2)] hashSha256_def)
  then show thesis by (rule that) simp
qed

lemma accepted_claim:
  assumes L: "borsh_ok L" "hash_ok L" and accepted: "acceptCredential L runtime app = Inr (c, hash)"
    and request: "ma_challenge app = Some ch" "mc_merchant ch = mr_merchant runtime" "mc_merchantDeviceKey ch = key"
  shows "storableClaim (createStoredClaim (bytesToHex hash) (decimal (pc_amount c)) (bytesToHex (pc_sessionId c)) (ma_receivedFrames app))"
    and "provable L (merchantTrust runtime key)
      (createStoredClaim (bytesToHex hash) (decimal (pc_amount c)) (bytesToHex (pc_sessionId c)) (ma_receivedFrames app))"
    and "credentialHash L c = Inr hash" "length hash = 32"
proof -
  obtain b v where b: "receiveCredential L (ma_receivedFrames app) = Inr b" "validateMerchantResponse L (mr_trust runtime) ch b = Inr v"
    "c = vr_credential v" and hash: "credentialHash L c = Inr hash"
    using accepted request(1) by (auto simp: acceptCredential_def bindE_Inr_iff split: option.splits)
  note w = b(2) [unfolded validateMerchantResponse_iff, folded b(3)]
  have v: "validateCredentialProofBundle L (trustContext (mr_trust runtime) (sc_sessionId (sessionCertificate b))) b = Inr (vr_finalState v)"
    "credentials b \<noteq> []" "c = last (credentials b)" "pc_merchant c = mr_merchant runtime" "pc_merchantDeviceKey c = key"
    using w request(2,3) by (auto simp: contextOf_def trustContext_def)
  obtain parent :: ParentState where accepts: "validatePaymentCredential L (trustContext (mr_trust runtime) (sc_sessionId (sessionCertificate b)))
      (sessionCertificate b) parent c = Inr ()"
    using bundle_last_accepted [OF v(1,2)] v(3) by blast
  then have amount: "0 < pc_amount c" by (simp add: validatePaymentCredential_iff spends_def)
  obtain bs where bs: "encodePaymentCredential L c = Inr bs" "hash = sha256 L bs" using hash by (auto simp: credentialHash_iff)
  then have valid: "validPaymentCredential c"
    using encodePaymentCredential_ok [OF L(1), of c] by auto
  show "credentialHash L c = Inr hash" "length hash = 32" using hash bs(2) L(2) by (simp_all add: hash_ok_def)
  have "ma_receivedFrames app \<noteq> []" "[] \<notin> set (ma_receivedFrames app)"
    using b(1) received_texts [OF b(1)] by (auto simp: receiveCredential_def assemble_def)
  moreover have "length (pc_sessionId c) = 32" using valid by (simp add: validPaymentCredential_def)
  moreover have "decimal (pc_amount c) = natDecimal (nat (pc_amount c))" using amount by (simp add: decimal_def)
  ultimately show "storableClaim (createStoredClaim (bytesToHex hash) (decimal (pc_amount c)) (bytesToHex (pc_sessionId c)) (ma_receivedFrames app))"
    using \<open>length hash = 32\<close> amount natDecimal_positive [of "nat (pc_amount c)"]
    by (auto simp: storableClaim_def createStoredClaim_def isHex_iff)
  obtain m where m: "createClaimSubmissionMaterial L c = Inr m" "cm_credentialHash m = hash" by (rule material_exists [OF L hash])
  show "provable L (merchantTrust runtime key)
      (createStoredClaim (bytesToHex hash) (decimal (pc_amount c)) (bytesToHex (pc_sessionId c)) (ma_receivedFrames app))"
    using b(1) v hash m
    by (simp add: provable_def isOk_iff materializeStoredClaimEvidence_def createStoredClaim_def merchantTrust_def trustContext_def equalBytes_def Let_def)
qed

section \<open>What the store keeps\<close>

text \<open>Every claim is provable, and there is one for every credential of \<open>R\<close>.\<close>

definition claimsKept :: "lib \<Rightarrow> StoredClaimTrust \<Rightarrow> PaymentCredential set \<Rightarrow> string \<Rightarrow> bool" where
  "claimsKept L trust R claims \<longleftrightarrow> (\<forall>claim \<in> set (parseStoredClaims claims). provable L trust claim) \<and>
     (\<forall>c \<in> R. \<exists>h claim. credentialHash L c = Inr h \<and> claim \<in> set (parseStoredClaims claims) \<and> st_credentialHash claim = bytesToHex h)"

definition merchantKeeps ::
  "lib \<Rightarrow> string \<Rightarrow> StoredClaimTrust \<Rightarrow> string \<Rightarrow> PaymentCredential set \<Rightarrow> disk \<Rightarrow> bool" where
  "merchantKeeps L ns trust secret R x \<longleftrightarrow> (\<exists>m. merchantHolds L ns (Some m) x \<and> merchantOk m \<and> md_deviceSecretHex m = secret \<and>
     claimsKept L trust R (md_claimsJson m))"

lemma claimsKept_mono: "claimsKept L trust R t \<Longrightarrow> S \<subseteq> R \<Longrightarrow> claimsKept L trust S t"
  unfolding claimsKept_def by blast

lemma merchantKeeps_mono: "merchantKeeps L ns trust secret R x \<Longrightarrow> S \<subseteq> R \<Longrightarrow> merchantKeeps L ns trust secret S x"
  unfolding merchantKeeps_def using claimsKept_mono by blast

lemma claimsKept_text:
  assumes "list_all storableClaim cs" "list_all (provable L trust) cs"
    "\<And>c. c \<in> R \<Longrightarrow> \<exists>h claim. credentialHash L c = Inr h \<and> claim \<in> set cs \<and> st_credentialHash claim = bytesToHex h"
  shows "claimsKept L trust R (claimsText cs)"
proof -
  have "provable L trust c'" if "c' \<in> set (parseStoredClaims (claimsText cs))" for c'
    using parsed_origin [OF that assms(1)] assms(2) provable_same by (auto simp: list_all_iff)
  moreover have "\<exists>h claim. credentialHash L c = Inr h \<and> claim \<in> set (parseStoredClaims (claimsText cs)) \<and> st_credentialHash claim = bytesToHex h"
    if c: "c \<in> R" for c
  proof -
    obtain h claim where h: "credentialHash L c = Inr h" "claim \<in> set cs" "st_credentialHash claim = bytesToHex h" using assms(3) [OF c] by blast
    with assms(1) obtain claim' where "claim' \<in> set (parseStoredClaims (claimsText cs))" "sameEvidence claim claim'"
      using parsed_claim [of claim cs] by (auto simp: list_all_iff)
    with h show ?thesis by (auto simp: sameEvidence_def)
  qed
  ultimately show ?thesis by (simp add: claimsKept_def)
qed

text \<open>A list each of whose claims stands for the stored one at its place.\<close>

lemma claimsKept_renewed:
  assumes "claimsKept L trust R t" "list_all2 (\<lambda>c c'. \<exists>d \<in> set (parseStoredClaims t). st_credentialHash d = st_credentialHash c \<and> sameEvidence d c')
    (parseStoredClaims t) cs"
  shows "claimsKept L trust R (claimsText cs)"
proof -
  note old = assms(1) [unfolded claimsKept_def]
  have whole: "storableClaim c' \<and> provable L trust c'" if c': "c' \<in> set cs" for c'
  proof -
    obtain i where "i < length cs" "c' = cs ! i" using c' by (auto simp: in_set_conv_nth)
    with list_all2_nthD2 [OF assms(2), of i] obtain d where d: "d \<in> set (parseStoredClaims t)" "sameEvidence d c'" by blast
    from d(1) old have "provable L trust d" by blast
    moreover have "storableClaim d" by (rule parsed_storable [OF d(1)])
    ultimately show ?thesis using d(2) provable_same [OF d(2)] by (simp add: storableClaim_def sameEvidence_def)
  qed
  have present: "\<exists>claim \<in> set cs. st_credentialHash claim = st_credentialHash c" if c: "c \<in> set (parseStoredClaims t)" for c
  proof -
    obtain i where i: "i < length (parseStoredClaims t)" "c = parseStoredClaims t ! i" using c by (auto simp: in_set_conv_nth)
    with list_all2_nthD [OF assms(2), of i] obtain d where "st_credentialHash d = st_credentialHash c" "sameEvidence d (cs ! i)" by blast
    moreover have "cs ! i \<in> set cs" using i(1) list_all2_lengthD [OF assms(2)] by simp
    ultimately show ?thesis by (auto simp: sameEvidence_def)
  qed
  show ?thesis
  proof (rule claimsKept_text)
    fix c assume "c \<in> R"
    then obtain h claim where h: "credentialHash L c = Inr h" "claim \<in> set (parseStoredClaims t)" "st_credentialHash claim = bytesToHex h"
      using old by blast
    from present [OF h(2)] h(1,3) show "\<exists>h claim. credentialHash L c = Inr h \<and> claim \<in> set cs \<and> st_credentialHash claim = bytesToHex h"
      by auto
  qed (use whole in \<open>simp_all add: list_all_iff\<close>)
qed

lemma claimsKept_updated:
  assumes "claimsKept L trust R t"
    "\<And>h c'. map_of updates h = Some c' \<Longrightarrow> \<exists>c \<in> set (parseStoredClaims t). st_credentialHash c = h \<and> sameProof c c'"
  shows "claimsKept L trust R (claimsText (updatedClaims (parseStoredClaims t) updates))"
proof (rule claimsKept_renewed [OF assms(1)])
  have "\<exists>d \<in> set (parseStoredClaims t). st_credentialHash d = st_credentialHash c \<and>
      sameEvidence d (case map_of updates (st_credentialHash c) of None \<Rightarrow> c | Some u \<Rightarrow> u)" if "c \<in> set (parseStoredClaims t)" for c
    using that assms(2) [of "st_credentialHash c"] sameProof_evidence
    by (cases "map_of updates (st_credentialHash c)") (auto simp: sameEvidence_def)
  then show "list_all2 (\<lambda>c c'. \<exists>d \<in> set (parseStoredClaims t). st_credentialHash d = st_credentialHash c \<and> sameEvidence d c')
      (parseStoredClaims t) (updatedClaims (parseStoredClaims t) updates)"
    by (simp add: updatedClaims_def list_all2_map2 list.rel_refl_strong)
qed

lemma claimsKept_marked:
  assumes "claimsKept L trust R t"
  shows "claimsKept L trust R (claimsText (markReceiptShown (parseStoredClaims t) h))"
  by (rule claimsKept_renewed [OF assms])
    (auto simp: markReceiptShown_def list_all2_map2 sameEvidence_def intro!: list.rel_refl_strong)

lemma claimsKept_accepted:
  assumes "claimsKept L trust R (md_claimsJson m)" "storeAccepted c hash frames m = Inr n" "credentialHash L c = Inr hash"
    "storableClaim (createStoredClaim (bytesToHex hash) (decimal (pc_amount c)) (bytesToHex (pc_sessionId c)) frames)"
    "provable L trust (createStoredClaim (bytesToHex hash) (decimal (pc_amount c)) (bytesToHex (pc_sessionId c)) frames)"
  shows "claimsKept L trust (insert c R) (md_claimsJson n)"
proof -
  let ?old = "parseStoredClaims (md_claimsJson m)"
  let ?new = "createStoredClaim (bytesToHex hash) (decimal (pc_amount c)) (bytesToHex (pc_sessionId c)) frames"
  let ?cs = "if list_ex (\<lambda>claim. st_credentialHash claim = bytesToHex hash) ?old then ?old else ?old @ [?new]"
  have n: "md_claimsJson n = claimsText ?cs" using assms(2) by (auto simp: storeAccepted_def bindE_Inr_iff Let_def)
  have "st_credentialHash ?new = bytesToHex hash" by (simp add: createStoredClaim_def)
  then have there: "\<exists>claim \<in> set ?cs. st_credentialHash claim = bytesToHex hash" by (auto simp: list_ex_iff)
  show ?thesis unfolding n
  proof (rule claimsKept_text)
    show "list_all storableClaim ?cs" using assms(4) parsed_storable by (auto simp: list_all_iff)
    show "list_all (provable L trust) ?cs" using assms(1,5) by (auto simp: list_all_iff claimsKept_def)
    fix c' assume "c' \<in> insert c R"
    moreover have "set ?old \<subseteq> set ?cs" by auto
    ultimately show "\<exists>h claim. credentialHash L c' = Inr h \<and> claim \<in> set ?cs \<and> st_credentialHash claim = bytesToHex h"
      using assms(1) [unfolded claimsKept_def] assms(3) there by (metis insert_iff subsetD)
  qed
qed

section \<open>Runs\<close>

text \<open>The operations of the store the application is given, with the generations of the platform.\<close>

record MerchantPorts =
  mp_namespace :: string
  mp_nextGeneration :: "nat \<Rightarrow> string + bytes"
  mp_legacy :: "LegacyMerchantSnapshot io"

definition merchantLoad :: "lib \<Rightarrow> MerchantPorts \<Rightarrow> MerchantDurableSnapshot option io" where
  "merchantLoad L ports = rawLoad L (mp_namespace ports) (mp_nextGeneration ports) (mp_legacy ports)"

definition merchantInitialize :: "lib \<Rightarrow> MerchantPorts \<Rightarrow> string \<Rightarrow> MerchantDurableSnapshot io" where
  "merchantInitialize L ports = initializeMerchant L (mp_namespace ports) (mp_nextGeneration ports) (mp_legacy ports)"

definition merchantUpdate :: "lib \<Rightarrow> MerchantPorts \<Rightarrow> merchant_update" where
  "merchantUpdate L ports = updateMerchant L (mp_namespace ports) (mp_nextGeneration ports) (mp_legacy ports)"

text \<open>A port of the network on its own world: no handler runs while it waits.\<close>

definition onRest :: "('w \<Rightarrow> 'a \<times> 'w) \<Rightarrow> 'w SyncWorld \<Rightarrow> 'a \<times> 'w SyncWorld" where
  "onRest f w = (case f (sw_rest w) of (r, z) \<Rightarrow> (r, w\<lparr>sw_rest := z\<rparr>))"

definition quietPort :: "'w ClaimSubmissionPort \<Rightarrow> 'w SyncWorld ClaimSubmissionPort" where
  "quietPort port = \<lparr>lookupConfirmedClaim = (\<lambda>claim. onRest (lookupConfirmedClaim port claim)),
     submitClaim = (\<lambda>claim. onRest (submitClaim port claim)), confirmClaim = (\<lambda>signature. onRest (confirmClaim port signature))\<rparr>"

text \<open>A synchronisation as one handler; one that waits for ever leaves \<open>syncing\<close> set.\<close>

definition synchronizing ::
  "bool \<Rightarrow> MerchantDurableSnapshot option io \<Rightarrow> merchant_update \<Rightarrow> (bytes \<Rightarrow> 'w ClaimSubmissionPort result) \<Rightarrow> 'w \<Rightarrow> MerchantApp \<Rightarrow> MerchantApp io" where
  "synchronizing enabled load update makePort z app d =
    (let w = snd (synchronizeClaims enabled load update (\<lambda>key. map_sum (\<lambda>e. e) quietPort (makePort key)) app
       \<lparr>sw_device = d, sw_app = app, sw_alive = True, sw_rest = z\<rparr>)
     in (if sw_alive w then Done (sw_app w) else Died, sw_device w))"

text \<open>What the user may do, screen by screen.\<close>

inductive merchantTouch :: "MerchantApp \<Rightarrow> MerchantApp \<Rightarrow> bool" where
  amount: "ma_screen app = MerchantHome \<Longrightarrow> merchantTouch app (app\<lparr>ma_amountText := amountText\<rparr>)"
| history: "ma_screen app = MerchantHome \<Longrightarrow> merchantTouch app (app\<lparr>ma_screen := HistoryScreen\<rparr>)"
| leaveHistory: "ma_screen app = HistoryScreen \<Longrightarrow> merchantTouch app (app\<lparr>ma_screen := MerchantHome\<rparr>)"
| detail: "ma_screen app = HistoryScreen \<Longrightarrow> merchantTouch app (openClaim hash app)"
| leaveDetail: "ma_screen app = ClaimDetail \<Longrightarrow> merchantTouch app (app\<lparr>ma_screen := HistoryScreen\<rparr>)"
| cancelRequest: "ma_screen app = ShowChallenge \<Longrightarrow> merchantTouch app (app\<lparr>ma_screen := MerchantHome\<rparr>)"
| receive: "ma_screen app = ShowChallenge \<Longrightarrow> merchantTouch app (beginCredentialScan app)"
| cancelScan: "ma_screen app = ScanCredential \<Longrightarrow> merchantTouch app (app\<lparr>ma_screen := ShowChallenge\<rparr>)"
| finish: "ma_screen app = ShowReceipt \<Longrightarrow> merchantTouch app (finishReceipt app)"

inductive merchantHandler ::
  "lib \<Rightarrow> MerchantRuntimeConfiguration \<Rightarrow> MerchantPorts \<Rightarrow> (bytes \<Rightarrow> 'w ClaimSubmissionPort result) \<Rightarrow> MerchantApp \<Rightarrow> MerchantApp io \<Rightarrow> bool"
  for L runtime ports makePort where
  touched: "merchantTouch app app' \<Longrightarrow> merchantHandler L runtime ports makePort app (returnIO app')"
| request: "ma_screen app = MerchantHome \<Longrightarrow>
    merchantHandler L runtime ports makePort app (createRequest L runtime (merchantUpdate L ports) drawn app)"
| scan: "ma_screen app = ScanCredential \<Longrightarrow>
    merchantHandler L runtime ports makePort app (scanCredential L runtime (merchantUpdate L ports) raw app)"
| receipt: "ma_screen app = VerifiedScreen \<Longrightarrow> merchantHandler L runtime ports makePort app (showReceipt L (merchantUpdate L ports) app)"
| sync: "ma_screen app = HistoryScreen \<Longrightarrow>
    merchantHandler L runtime ports makePort app (synchronizing enabled (merchantLoad L ports) (merchantUpdate L ports) makePort z app)"

text \<open>The payment whose confirmation is on the screen.\<close>

definition confirmed :: "MerchantApp \<Rightarrow> PaymentCredential set" where
  "confirmed app = (if ma_screen app = VerifiedScreen \<or> ma_screen app = ShowReceipt then set_option (ma_verifiedCredential app) else {})"

definition survivor :: "'a outcome \<Rightarrow> 'a option" where
  "survivor r = (case r of Done app \<Rightarrow> Some app | _ \<Rightarrow> None)"

definition confirmations :: "MerchantApp option \<Rightarrow> PaymentCredential set" where
  "confirmations a = (case a of None \<Rightarrow> {} | Some app \<Rightarrow> confirmed app)"

text \<open>A run: the disk, the application if the process lives, and every payment ever confirmed.\<close>

inductive merchantRun ::
  "lib \<Rightarrow> MerchantRuntimeConfiguration \<Rightarrow> MerchantPorts \<Rightarrow> (bytes \<Rightarrow> 'w ClaimSubmissionPort result) \<Rightarrow> disk \<Rightarrow> disk \<Rightarrow>
    MerchantApp option \<Rightarrow> PaymentCredential set \<Rightarrow> bool"
  for L runtime ports makePort x0 where
  installed: "merchantRun L runtime ports makePort x0 x0 None {}"
| booted: "merchantRun L runtime ports makePort x0 (contents d) a R \<Longrightarrow>
    bootMerchant L runtime (merchantLoad L ports) (merchantInitialize L ports) secretKey d = (r, d') \<Longrightarrow>
    merchantRun L runtime ports makePort x0 (contents d') (survivor r) (R \<union> confirmations (survivor r))"
| handled: "merchantRun L runtime ports makePort x0 (contents d) (Some app) R \<Longrightarrow> merchantHandler L runtime ports makePort app m \<Longrightarrow>
    m d = (r, d') \<Longrightarrow> merchantRun L runtime ports makePort x0 (contents d') (survivor r) (R \<union> confirmations (survivor r))"
| killed: "merchantRun L runtime ports makePort x0 x a R \<Longrightarrow> merchantRun L runtime ports makePort x0 x None R"

section \<open>Every handler keeps the claims\<close>

definition merchantAppOk :: "MerchantRuntimeConfiguration \<Rightarrow> bytes \<Rightarrow> MerchantApp \<Rightarrow> bool" where
  "merchantAppOk runtime key app \<longleftrightarrow> (ma_merchantDeviceKey app = None \<or> ma_merchantDeviceKey app = Some key) \<and>
     (\<forall>ch. ma_challenge app = Some ch \<longrightarrow> mc_merchant ch = mr_merchant runtime \<and> mc_merchantDeviceKey ch = key)"

lemma triple_keeps:
  assumes "hash_ok L" "validateDefinitions (mp_namespace ports) (so_components (merchantStore (mp_namespace ports))) = Inr ()" "R \<subseteq> R'"
    "\<And>m n. merchantOk m \<Longrightarrow> claimsKept L trust R (md_claimsJson m) \<Longrightarrow> mutate m = Inr n \<Longrightarrow>
      merchantOk n \<and> md_deviceSecretHex n = md_deviceSecretHex m \<and> claimsKept L trust R' (md_claimsJson n)"
  shows "triple F (merchantKeeps L (mp_namespace ports) trust secret R) (merchantUpdate L ports mutate)
    (\<lambda>_. merchantKeeps L (mp_namespace ports) trust secret R') (merchantKeeps L (mp_namespace ports) trust secret R)
    (merchantKeeps L (mp_namespace ports) trust secret R)"
proof (rule triple_pre)
  let ?K = "\<lambda>R. merchantKeeps L (mp_namespace ports) trust secret R"
  fix x assume "?K R x"
  then obtain m where m: "merchantHolds L (mp_namespace ports) (Some m) x" "merchantOk m" "md_deviceSecretHex m = secret"
    "claimsKept L trust R (md_claimsJson m)"
    by (auto simp: merchantKeeps_def)
  have new: "?K R' y" if "mutate m = Inr n" "merchantHolds L (mp_namespace ports) (Some n) y" for n y
    using assms(4) [OF m(2,4) that(1)] that(2) m(3) by (auto simp: merchantKeeps_def)
  have old: "?K R y" if "merchantHolds L (mp_namespace ports) (Some m) y" for y
    using that m(2-4) by (auto simp: merchantKeeps_def)
  show "triple F ((=) x) (merchantUpdate L ports mutate) (\<lambda>_. ?K R') (?K R) (?K R)"
    unfolding merchantUpdate_def
    by (rule triple_weaken [OF triple_updateMerchant [OF assms(1,2) m(1,2)]])
      (use new old merchantKeeps_mono [OF new assms(3)] in blast)+
qed

text \<open>The parts of a run that are fixed: the installation's key, its trust, its store.\<close>

definition installation :: "lib \<Rightarrow> MerchantPorts \<Rightarrow> bytes \<Rightarrow> string \<Rightarrow> bool" where
  "installation L ports key secret \<longleftrightarrow>
     validateDefinitions (mp_namespace ports) (so_components (merchantStore (mp_namespace ports))) = Inr () \<and>
     bindE (appHexToBytes (Some (JString secret))) (derivePublicKey L) = Inr key"

abbreviation keeps :: "lib \<Rightarrow> MerchantRuntimeConfiguration \<Rightarrow> MerchantPorts \<Rightarrow> bytes \<Rightarrow> string \<Rightarrow> PaymentCredential set \<Rightarrow> disk \<Rightarrow> bool" where
  "keeps L runtime ports key secret \<equiv> merchantKeeps L (mp_namespace ports) (merchantTrust runtime key) secret"

lemma outstandingJson_object: "outstandingJson amount challenge key \<noteq> ''null''"
  by (simp add: outstandingJson_def)

lemma showChallenge_ok:
  assumes "merchantAppOk runtime key app" "mc_merchant ch = mr_merchant runtime" "mc_merchantDeviceKey ch = key"
    "ma_screen app \<noteq> VerifiedScreen" "ma_screen app \<noteq> ShowReceipt"
  shows "merchantAppOk runtime key (showChallenge L ch app)" "confirmed (showChallenge L ch app) = {}"
  using assms by (auto simp: showChallenge_def merchantAppOk_def confirmed_def split: sum.split)

lemma request_keeps:
  assumes "hash_ok L" "installation L ports key secret" "merchantAppOk runtime key app" "ma_screen app = MerchantHome"
  shows "triple F (keeps L runtime ports key secret R) (createRequest L runtime (merchantUpdate L ports) drawn app)
    (\<lambda>app' y. merchantAppOk runtime key app' \<and> keeps L runtime ports key secret (R \<union> confirmed app') y) (\<lambda>_. False)
    (keeps L runtime ports key secret R)"
  unfolding createRequest_def
proof (rule triple_catch [where M = "keeps L runtime ports key secret R"])
  let ?K = "keeps L runtime ports key secret R"
  show "triple F ?K (returnIO (app\<lparr>ma_error := Some e\<rparr>))
    (\<lambda>app' y. merchantAppOk runtime key app' \<and> keeps L runtime ports key secret (R \<union> confirmed app') y) (\<lambda>_. False) ?K" for e
    using assms(3,4) by (intro triple_return) (simp add: merchantAppOk_def confirmed_def)
  have valid: "validateDefinitions (mp_namespace ports) (so_components (merchantStore (mp_namespace ports))) = Inr ()"
    using assms(2) by (simp add: installation_def)
  show "triple F ?K (bindIO (liftIO (requestOf runtime drawn app)) (\<lambda>request.
      bindIO (merchantUpdate L ports (\<lambda>current. Inr (current\<lparr>md_outstandingChallengeJson :=
        Some (outstandingJson (mc_amount request) (mc_challenge request) (mc_merchantDeviceKey request))\<rparr>))) (\<lambda>_.
      returnIO (showChallenge L request (app\<lparr>ma_error := None\<rparr>)))))
    (\<lambda>app' y. merchantAppOk runtime key app' \<and> keeps L runtime ports key secret (R \<union> confirmed app') y) ?K ?K"
  proof (rule triple_bind [where M = "\<lambda>rq y. mc_merchant rq = mr_merchant runtime \<and> mc_merchantDeviceKey rq = key \<and> ?K y"])
    show "triple F ?K (liftIO (requestOf runtime drawn app))
        (\<lambda>rq y. mc_merchant rq = mr_merchant runtime \<and> mc_merchantDeviceKey rq = key \<and> ?K y) ?K ?K"
      by (rule triple_lift) (use assms(3) in \<open>auto simp: requestOf_def bindE_Inr_iff merchantAppOk_def split: option.splits\<close>)
    fix rq
    show "triple F (\<lambda>y. mc_merchant rq = mr_merchant runtime \<and> mc_merchantDeviceKey rq = key \<and> ?K y)
      (bindIO (merchantUpdate L ports (\<lambda>current. Inr (current\<lparr>md_outstandingChallengeJson :=
          Some (outstandingJson (mc_amount rq) (mc_challenge rq) (mc_merchantDeviceKey rq))\<rparr>))) (\<lambda>_.
        returnIO (showChallenge L rq (app\<lparr>ma_error := None\<rparr>))))
      (\<lambda>app' y. merchantAppOk runtime key app' \<and> keeps L runtime ports key secret (R \<union> confirmed app') y) ?K ?K"
    proof (rule triple_pre, elim conjE)
      fix x assume rq: "mc_merchant rq = mr_merchant runtime" "mc_merchantDeviceKey rq = key" and x: "?K x"
      have app: "merchantAppOk runtime key (app\<lparr>ma_error := None\<rparr>)" "ma_screen (app\<lparr>ma_error := None\<rparr>) = MerchantHome"
        using assms(3,4) by (simp_all add: merchantAppOk_def)
      note shown = showChallenge_ok [OF app(1) rq, of L] app(2)
      have "triple F ?K (merchantUpdate L ports (\<lambda>current. Inr (current\<lparr>md_outstandingChallengeJson :=
          Some (outstandingJson (mc_amount rq) (mc_challenge rq) (mc_merchantDeviceKey rq))\<rparr>))) (\<lambda>_. ?K) ?K ?K"
        by (rule triple_keeps [OF assms(1) valid subset_refl]) (auto simp: merchantOk_def outstandingJson_object)
      then have "triple F ((=) x) (merchantUpdate L ports (\<lambda>current. Inr (current\<lparr>md_outstandingChallengeJson :=
          Some (outstandingJson (mc_amount rq) (mc_challenge rq) (mc_merchantDeviceKey rq))\<rparr>))) (\<lambda>_. ?K) ?K ?K"
        by (rule triple_weaken) (use x in auto)
      then show "triple F ((=) x)
        (bindIO (merchantUpdate L ports (\<lambda>current. Inr (current\<lparr>md_outstandingChallengeJson :=
            Some (outstandingJson (mc_amount rq) (mc_challenge rq) (mc_merchantDeviceKey rq))\<rparr>))) (\<lambda>_.
          returnIO (showChallenge L rq (app\<lparr>ma_error := None\<rparr>))))
        (\<lambda>app' y. merchantAppOk runtime key app' \<and> keeps L runtime ports key secret (R \<union> confirmed app') y) ?K ?K"
        by (rule triple_bind) (use shown in \<open>auto intro: triple_return\<close>)
    qed
  qed
qed

lemma scan_keeps:
  assumes L: "borsh_ok L" "hash_ok L" and inst: "installation L ports key secret" and app: "merchantAppOk runtime key app" "ma_screen app = ScanCredential"
  shows "triple F (keeps L runtime ports key secret R) (scanCredential L runtime (merchantUpdate L ports) raw app)
    (\<lambda>app' y. merchantAppOk runtime key app' \<and> keeps L runtime ports key secret (R \<union> confirmed app') y) (\<lambda>_. False)
    (keeps L runtime ports key secret R)"
  unfolding scanCredential_def Let_def
proof (rule triple_catch [where M = "keeps L runtime ports key secret R"])
  let ?K = "keeps L runtime ports key secret" and ?scanned = "app\<lparr>ma_receivedFrames := setAdd raw (ma_receivedFrames app)\<rparr>"
  let ?Q = "\<lambda>app' y. merchantAppOk runtime key app' \<and> ?K (R \<union> confirmed app') y"
  let ?after = "\<lambda>c hash committed. case sendReceipt L merchantTransport \<lparr>tr_credentialHash = hash, tr_merchantChallenge = pc_merchantChallenge c\<rparr> of
      Inl reason \<Rightarrow> reportCredentialError reason (?scanned\<lparr>ma_claims := parseStoredClaims (md_claimsJson committed), ma_verifiedCredential := Some c\<rparr>)
    | Inr frames \<Rightarrow> ?scanned\<lparr>ma_claims := parseStoredClaims (md_claimsJson committed), ma_verifiedCredential := Some c,
        ma_receiptFrames := frames, ma_screen := VerifiedScreen\<rparr>"
  show "triple F (?K R) (returnIO (reportCredentialError e ?scanned)) ?Q (\<lambda>_. False) (?K R)" for e
    using app by (intro triple_return) (simp add: merchantAppOk_def confirmed_def reportCredentialError_def)
  have valid: "validateDefinitions (mp_namespace ports) (so_components (merchantStore (mp_namespace ports))) = Inr ()"
    using inst by (simp add: installation_def)
  have stored: "triple F (?K R) (bindIO (merchantUpdate L ports (storeAccepted c hash (ma_receivedFrames ?scanned))) (\<lambda>committed. returnIO (?after c hash committed)))
      ?Q (?K R) (?K R)" if accepted: "acceptCredential L runtime ?scanned = Inr (c, hash)" for c hash
  proof -
    obtain ch where ch: "ma_challenge ?scanned = Some ch" using accepted by (auto simp: acceptCredential_def split: option.splits)
    then have "mc_merchant ch = mr_merchant runtime" "mc_merchantDeviceKey ch = key" using app(1) by (auto simp: merchantAppOk_def)
    note claim = accepted_claim [OF L accepted ch this]
    have "triple F (?K R) (merchantUpdate L ports (storeAccepted c hash (ma_receivedFrames ?scanned))) (\<lambda>_. ?K (insert c R)) (?K R) (?K R)"
    proof (rule triple_keeps [OF L(2) valid])
      fix m n assume m: "merchantOk m" "claimsKept L (merchantTrust runtime key) R (md_claimsJson m)"
        "storeAccepted c hash (ma_receivedFrames ?scanned) m = Inr n"
      have "claimsKept L (merchantTrust runtime key) (insert c R) (md_claimsJson n)"
        by (rule claimsKept_accepted [OF m(2,3) claim(3) claim(1,2)])
      with m(1,3) show "merchantOk n \<and> md_deviceSecretHex n = md_deviceSecretHex m \<and>
          claimsKept L (merchantTrust runtime key) (insert c R) (md_claimsJson n)"
        by (auto simp: storeAccepted_def bindE_Inr_iff Let_def merchantOk_def)
    qed auto
    moreover have "merchantAppOk runtime key (?after c hash committed) \<and> confirmed (?after c hash committed) \<subseteq> {c}" for committed
      using app by (auto simp: merchantAppOk_def confirmed_def reportCredentialError_def split: sum.split)
    then have "triple F (?K (insert c R)) (returnIO (?after c hash committed)) ?Q (?K R) (?K R)" for committed
      by (intro triple_return) (blast intro: merchantKeeps_mono)
    ultimately show ?thesis by (rule triple_bind)
  qed
  show "triple F (?K R) (bindIO (liftIO (acceptCredential L runtime ?scanned)) (\<lambda>(c, hash).
      bindIO (merchantUpdate L ports (storeAccepted c hash (ma_receivedFrames ?scanned))) (\<lambda>committed. returnIO (?after c hash committed))))
      ?Q (?K R) (?K R)"
  proof (rule triple_bind [where M = "\<lambda>ch y. acceptCredential L runtime ?scanned = Inr ch \<and> ?K R y"])
    show "triple F (?K R) (liftIO (acceptCredential L runtime ?scanned)) (\<lambda>ch y. acceptCredential L runtime ?scanned = Inr ch \<and> ?K R y) (?K R) (?K R)"
      by (rule triple_lift) auto
    fix ch
    show "triple F (\<lambda>y. acceptCredential L runtime ?scanned = Inr ch \<and> ?K R y) (case ch of (c, hash) \<Rightarrow>
      bindIO (merchantUpdate L ports (storeAccepted c hash (ma_receivedFrames ?scanned))) (\<lambda>committed. returnIO (?after c hash committed)))
      ?Q (?K R) (?K R)"
    proof (rule triple_pre, elim conjE)
      fix x assume ch: "acceptCredential L runtime ?scanned = Inr ch" and x: "?K R x"
      obtain c hash where p: "ch = (c, hash)" by force
      show "triple F ((=) x) (case ch of (c, hash) \<Rightarrow>
        bindIO (merchantUpdate L ports (storeAccepted c hash (ma_receivedFrames ?scanned))) (\<lambda>committed. returnIO (?after c hash committed)))
        ?Q (?K R) (?K R)"
        unfolding p prod.case by (rule triple_weaken [OF stored [OF ch [unfolded p]]]) (use x in auto)
    qed
  qed
qed

lemma receipt_keeps:
  assumes "hash_ok L" "installation L ports key secret" "merchantAppOk runtime key app" "ma_screen app = VerifiedScreen" "confirmed app \<subseteq> R"
  shows "triple F (keeps L runtime ports key secret R) (showReceipt L (merchantUpdate L ports) app)
    (\<lambda>app' y. merchantAppOk runtime key app' \<and> keeps L runtime ports key secret (R \<union> confirmed app') y) (\<lambda>_. False)
    (keeps L runtime ports key secret R)"
proof -
  let ?K = "keeps L runtime ports key secret"
  have quiet: "merchantAppOk runtime key app' \<and> ?K (R \<union> confirmed app') y"
    if "?K R y" "ma_merchantDeviceKey app' = ma_merchantDeviceKey app" "ma_challenge app' = ma_challenge app"
      "ma_verifiedCredential app' = ma_verifiedCredential app" for app' y
  proof -
    have "confirmed app' \<subseteq> R" using that(4) assms(4,5) by (auto simp: confirmed_def)
    then have "R \<union> confirmed app' = R" by blast
    then show ?thesis using that assms(3) by (simp add: merchantAppOk_def)
  qed
  have valid: "validateDefinitions (mp_namespace ports) (so_components (merchantStore (mp_namespace ports))) = Inr ()"
    using assms(2) by (simp add: installation_def)
  have mark: "triple F (?K R) (merchantUpdate L ports (markShown hash)) (\<lambda>_. ?K R) (?K R) (?K R)" for hash
    by (rule triple_keeps [OF assms(1) valid subset_refl]) (auto simp: markShown_def merchantOk_def intro: claimsKept_marked)
  show ?thesis
  proof (cases "ma_verifiedCredential app")
    case None
    then show ?thesis using assms(3,5) by (simp add: showReceipt_def confirmed_def triple_return)
  next
    case (Some c)
    show ?thesis unfolding showReceipt_def Some option.case
      by (rule triple_catch [where M = "?K R"], rule triple_bind [where M = "\<lambda>_. ?K R"], (rule triple_lift; assumption), rule triple_bind [OF mark])
        (rule triple_return, rule quiet, simp_all)+
  qed
qed

lemma touch_app:
  assumes "merchantTouch app app'" "merchantAppOk runtime key app"
  shows "merchantAppOk runtime key app'" "confirmed app' = {}"
  using assms by (cases; auto simp: merchantAppOk_def openClaim_def beginCredentialScan_def finishReceipt_def confirmed_def)+

section \<open>Boot\<close>

lemma restored_app:
  assumes "installation L ports key secret" "md_deviceSecretHex m = secret"
  shows "merchantAppOk runtime key (restoredMerchantApp L runtime m)" "confirmed (restoredMerchantApp L runtime m) = {}"
proof -
  let ?ready = "initialMerchantApp\<lparr>ma_merchantDeviceKey := Some key, ma_claims := parseStoredClaims (md_claimsJson m)\<rparr>"
  have ready: "merchantAppOk runtime key ?ready" "ma_screen ?ready = MerchantHome" by (simp_all add: merchantAppOk_def initialMerchantApp_def)
  have key: "bindE (appHexToBytes (Some (JString (md_deviceSecretHex m)))) (derivePublicKey L) = Inr key"
    using assms by (simp add: installation_def)
  have "merchantAppOk runtime key (showChallenge L ch ?ready) \<and> confirmed (showChallenge L ch ?ready) = {}"
    if "restoredChallenge runtime key json = Inr ch" for ch json
    using showChallenge_ok [OF ready(1), of ch L] ready(2) that by (auto simp: restoredChallenge_def bindE_Inr_iff)
  moreover have "merchantAppOk runtime key (?ready\<lparr>ma_error := e\<rparr>) \<and> confirmed (?ready\<lparr>ma_error := e\<rparr>) = {}" for e
    by (simp add: merchantAppOk_def confirmed_def initialMerchantApp_def)
  moreover have "confirmed ?ready = {}" by (simp add: confirmed_def initialMerchantApp_def)
  ultimately show "merchantAppOk runtime key (restoredMerchantApp L runtime m)" "confirmed (restoredMerchantApp L runtime m) = {}"
    using ready(1) unfolding restoredMerchantApp_def key sum.case Let_def by (auto split: option.split sum.split)
qed

lemma triple_merchantLoad:
  assumes "hash_ok L"
  shows "triple F (keeps L runtime ports key secret R) (merchantLoad L ports)
    (\<lambda>found y. \<exists>m. found = Some m \<and> md_deviceSecretHex m = secret \<and> claimsKept L (merchantTrust runtime key) R (md_claimsJson m) \<and>
      keeps L runtime ports key secret R y) (keeps L runtime ports key secret R) (keeps L runtime ports key secret R)"
proof (rule triple_pre)
  fix x assume "keeps L runtime ports key secret R x"
  then obtain m where m: "merchantHolds L (mp_namespace ports) (Some m) x" "merchantOk m" "md_deviceSecretHex m = secret"
    "claimsKept L (merchantTrust runtime key) R (md_claimsJson m)"
    by (auto simp: merchantKeeps_def)
  show "triple F ((=) x) (merchantLoad L ports)
    (\<lambda>found y. \<exists>m. found = Some m \<and> md_deviceSecretHex m = secret \<and> claimsKept L (merchantTrust runtime key) R (md_claimsJson m) \<and>
      keeps L runtime ports key secret R y) (keeps L runtime ports key secret R) (keeps L runtime ports key secret R)"
    unfolding merchantLoad_def
    by (rule triple_weaken [OF triple_rawLoad [OF assms m(1,2)]]) (use m(2-4) in \<open>auto simp: merchantKeeps_def\<close>)
qed

lemma boot_keeps:
  assumes "hash_ok L" "installation L ports key secret"
  shows "triple F (keeps L runtime ports key secret R) (bootMerchant L runtime (merchantLoad L ports) (merchantInitialize L ports) secretKey)
    (\<lambda>app y. merchantAppOk runtime key app \<and> keeps L runtime ports key secret (R \<union> confirmed app) y) (\<lambda>_. False)
    (keeps L runtime ports key secret R)"
  unfolding bootMerchant_def
proof (rule triple_catch [where M = "keeps L runtime ports key secret R"], rule triple_bind [OF triple_merchantLoad [OF assms(1)]])
  let ?K = "keeps L runtime ports key secret"
  fix loaded
  show "triple F (\<lambda>y. \<exists>m. loaded = Some m \<and> md_deviceSecretHex m = secret \<and> claimsKept L (merchantTrust runtime key) R (md_claimsJson m) \<and> ?K R y)
    (bindIO (case loaded of None \<Rightarrow> bindIO (liftIO secretKey) (\<lambda>secret. merchantInitialize L ports (bytesToHex secret)) | Some snapshot \<Rightarrow> returnIO snapshot)
      (\<lambda>snapshot. returnIO (restoredMerchantApp L runtime snapshot)))
    (\<lambda>app y. merchantAppOk runtime key app \<and> ?K (R \<union> confirmed app) y) (?K R) (?K R)"
  proof (rule triple_pre, elim exE conjE)
    fix x m assume m: "loaded = Some m" "md_deviceSecretHex m = secret" and x: "?K R x"
    show "triple F ((=) x)
      (bindIO (case loaded of None \<Rightarrow> bindIO (liftIO secretKey) (\<lambda>secret. merchantInitialize L ports (bytesToHex secret)) | Some snapshot \<Rightarrow> returnIO snapshot)
        (\<lambda>snapshot. returnIO (restoredMerchantApp L runtime snapshot)))
      (\<lambda>app y. merchantAppOk runtime key app \<and> ?K (R \<union> confirmed app) y) (?K R) (?K R)"
      unfolding m(1) option.case bind_return
      by (rule triple_return) (use restored_app [OF assms(2) m(2), of runtime] x in simp)
  qed
next
  fix e
  show "triple F (keeps L runtime ports key secret R) (returnIO (initialMerchantApp\<lparr>ma_error := Some e\<rparr>))
    (\<lambda>app y. merchantAppOk runtime key app \<and> keeps L runtime ports key secret (R \<union> confirmed app) y) (\<lambda>_. False) (keeps L runtime ports key secret R)"
    by (rule triple_return) (simp add: merchantAppOk_def confirmed_def initialMerchantApp_def)
qed

section \<open>Synchronisation\<close>

text \<open>An invariant of the world that the port and the saving keep is kept by the loop.\<close>

lemma syncStoredClaim_world:
  assumes "\<And>claim w. I w \<Longrightarrow> I (snd (lookupConfirmedClaim port claim w))" "\<And>claim w. I w \<Longrightarrow> I (snd (submitClaim port claim w))"
    "\<And>signature w. I w \<Longrightarrow> I (snd (confirmClaim port signature w))" "I w"
  shows "I (snd (syncStoredClaim port claim w))"
proof -
  have confirmed: "I w'" if w: "I w" "submitAndConfirm port claim w = (r, sig, w')" for w r sig w'
  proof -
    obtain rs w1 where s: "submitClaim port claim w = (rs, w1)" by force
    obtain rc w2 where c: "confirmClaim port (projr (the rs)) w1 = (rc, w2)" by force
    obtain rl w3 where l: "lookupConfirmedClaim port claim w2 = (rl, w3)" by force
    have "I w1" "I w2" "I w3" using assms(1-3) w(1) s c l by (metis snd_conv)+
    with w(2) s c l show ?thesis
      by (auto simp: submitAndConfirm_def split: sum.splits option.splits)
  qed
  have looked: "I w'" if "I w" "lookupAfterAmbiguousFailure port claim w = (r, w')" for w r w'
    using assms(1) [OF that(1), of claim] that(2)
    by (auto simp: lookupAfterAmbiguousFailure_def split: prod.splits sum.splits option.splits)
  show ?thesis
    using assms(1) [OF assms(4), of claim] assms(4)
    by (auto simp: syncStoredClaim_def split: prod.split sum.split option.split) (blast intro: confirmed looked)+
qed

lemma syncEligible_world:
  assumes "\<And>claim w. I w \<Longrightarrow> I (snd (syncStoredClaim port claim w))"
    and save: "\<And>updates w. I w \<Longrightarrow> (\<And>h c'. map_of updates h = Some c' \<Longrightarrow> \<exists>c \<in> set claims. st_credentialHash c = h \<and> sameProof c c') \<Longrightarrow>
      I (snd (save (updatedClaims claims updates) w))"
    and "I w" "set cs \<subseteq> set claims" "\<And>h c'. map_of (sy_updates p) h = Some c' \<Longrightarrow> \<exists>c \<in> set claims. st_credentialHash c = h \<and> sameProof c c'"
  shows "I (snd (syncEligible port (Some save) claims cs p w))"
  using assms(3-5)
proof (induction cs arbitrary: p w)
  case (Cons claim rest)
  obtain r w1 where sync: "syncStoredClaim port claim w = (r, w1)" by force
  have w1: "I w1" using assms(1) [OF Cons.prems(1), of claim] sync by simp
  show ?case
  proof (cases "\<exists>updated. r = Some (Inr updated)")
    case True
    then obtain updated where Inr: "r = Some (Inr updated)" by blast
    define updates where "updates = AList.update (st_credentialHash claim) updated (sy_updates p)"
    have same: "sameProof claim updated" using syncStoredClaim_outcome [OF sync [unfolded Inr]] by blast
    have good: "\<exists>c \<in> set claims. st_credentialHash c = h \<and> sameProof c c'" if "map_of updates h = Some c'" for h c'
      using that Cons.prems(2) Cons.prems(3) [of h c'] same by (cases "h = st_credentialHash claim") (auto simp: updates_def update_conv')
    obtain q w2 where saved: "save (updatedClaims claims updates) w1 = (q, w2)" by force
    have w2: "I w2" using save [OF w1 good] saved by (metis snd_conv)
    show ?thesis
    proof (cases q)
      case (Inr u)
      show ?thesis using sync \<open>r = Some (Inr updated)\<close> saved Inr w2 Cons.prems(2) good
        by (auto simp: Let_def simp flip: updates_def intro!: Cons.IH)
    qed (use sync \<open>r = Some (Inr updated)\<close> saved w2 in \<open>simp add: Let_def flip: updates_def\<close>)
  qed (use sync w1 in \<open>auto split: option.split sum.split\<close>)
qed simp

lemma syncIO_triple:
  assumes "triple F P m Q P P" "\<And>x y. Q x y \<Longrightarrow> P y" "P (contents (sw_device w))" "\<And>n. F (faults (sw_device w) n)" "syncIO m w = (r, w')"
  shows "P (contents (sw_device w')) \<and> faults (sw_device w') = faults (sw_device w) \<and> sw_app w' = sw_app w \<and>
    (\<forall>x. r = Inr x \<longrightarrow> Q x (contents (sw_device w')))"
proof -
  obtain q d where m: "m (sw_device w) = (q, d)" by force
  have t: "faults d = faults (sw_device w) \<and> (case q of Done x \<Rightarrow> Q x (contents d) | Thrown _ \<Rightarrow> P (contents d) | Died \<Rightarrow> P (contents d))"
    using assms(1,3,4) m unfolding triple_def by blast
  show ?thesis
  proof (cases q)
    case (Done x)
    with t m assms(2) [of x "contents d"] assms(5) show ?thesis by (auto simp: syncIO_def)
  qed (use t m assms(5) in \<open>auto simp: syncIO_def\<close>)
qed

definition syncInvariant ::
  "lib \<Rightarrow> MerchantRuntimeConfiguration \<Rightarrow> MerchantPorts \<Rightarrow> bytes \<Rightarrow> string \<Rightarrow> PaymentCredential set \<Rightarrow> (nat \<Rightarrow> fault) \<Rightarrow> 'w SyncWorld \<Rightarrow> bool" where
  "syncInvariant L runtime ports key secret R f w \<longleftrightarrow> keeps L runtime ports key secret R (contents (sw_device w)) \<and> faults (sw_device w) = f \<and>
     merchantAppOk runtime key (sw_app w) \<and> ma_screen (sw_app w) = HistoryScreen"

lemma syncInvariant_setApp:
  assumes "syncInvariant L runtime ports key secret R f w" "ma_screen (g (sw_app w)) = ma_screen (sw_app w)"
    "ma_merchantDeviceKey (g (sw_app w)) = ma_merchantDeviceKey (sw_app w)" "ma_challenge (g (sw_app w)) = ma_challenge (sw_app w)"
  shows "syncInvariant L runtime ports key secret R f (setApp g w)"
  using assms by (simp add: syncInvariant_def setApp_def merchantAppOk_def)

lemma syncInvariant_rest: "syncInvariant L runtime ports key secret R f w \<Longrightarrow> syncInvariant L runtime ports key secret R f (snd (onRest g w))"
  by (simp add: syncInvariant_def onRest_def split: prod.split)

lemma persist_keeps:
  assumes "hash_ok L" "installation L ports key secret" "claimsKept L (merchantTrust runtime key) R (claimsText updated)"
    "syncInvariant L runtime ports key secret R f w"
  shows "syncInvariant L runtime ports key secret R f (snd (persistClaims (merchantUpdate L ports) updated w))"
proof -
  let ?K = "keeps L runtime ports key secret R"
  obtain r w' where r: "syncIO (merchantUpdate L ports (\<lambda>stored. Inr (stored\<lparr>md_claimsJson := claimsText updated\<rparr>))) w = (r, w')" by force
  have valid: "validateDefinitions (mp_namespace ports) (so_components (merchantStore (mp_namespace ports))) = Inr ()"
    using assms(2) by (simp add: installation_def)
  have "triple (faultsOf (sw_device w)) ?K (merchantUpdate L ports (\<lambda>stored. Inr (stored\<lparr>md_claimsJson := claimsText updated\<rparr>))) (\<lambda>_. ?K) ?K ?K"
    by (rule triple_keeps [OF assms(1) valid subset_refl]) (use assms(3) in \<open>auto simp: merchantOk_def\<close>)
  moreover have "faultsOf (sw_device w) (faults (sw_device w) n)" for n by blast
  moreover have "?K (contents (sw_device w))" using assms(4) by (simp add: syncInvariant_def)
  ultimately have "?K (contents (sw_device w')) \<and> faults (sw_device w') = faults (sw_device w) \<and> sw_app w' = sw_app w"
    using syncIO_triple [OF _ _ _ _ r] by blast
  with assms(4) have w': "syncInvariant L runtime ports key secret R f w'" by (simp add: syncInvariant_def)
  have "syncInvariant L runtime ports key secret R f (setApp (\<lambda>app. app\<lparr>ma_claims := updated\<rparr>) w')"
    by (rule syncInvariant_setApp [OF w']) simp_all
  with r w' show ?thesis by (cases r) (simp_all add: persistClaims_def)
qed

lemma queue_keeps:
  assumes "hash_ok L" "installation L ports key secret" "claimsKept L (merchantTrust runtime key) R t"
    "syncInvariant L runtime ports key secret R f w"
    "syncClaimQueue (quietPort port) (parseStoredClaims t) True (Some (persistClaims (merchantUpdate L ports))) w = (r, w')"
  shows "syncInvariant L runtime ports key secret R f w'"
proof -
  let ?I = "syncInvariant L runtime ports key secret R f" and ?p = "\<lparr>sy_updates = [], sy_attempted = 0, sy_confirmed = 0, sy_failed = 0\<rparr>"
  have one: "?I (snd (syncStoredClaim (quietPort port) claim v))" if "?I v" for claim v
    by (rule syncStoredClaim_world [of ?I, OF _ _ _ that]) (simp_all add: quietPort_def syncInvariant_rest)
  have all: "?I (snd (syncEligible (quietPort port) (Some (persistClaims (merchantUpdate L ports))) (parseStoredClaims t)
      (eligibleClaims (parseStoredClaims t)) ?p w))"
  proof (rule syncEligible_world [of ?I, OF one])
    fix updates v assume v: "?I v" "\<And>h c'. map_of updates h = Some c' \<Longrightarrow>
      \<exists>c \<in> set (parseStoredClaims t). st_credentialHash c = h \<and> sameProof c c'"
    show "?I (snd (persistClaims (merchantUpdate L ports) (updatedClaims (parseStoredClaims t) updates) v))"
      by (rule persist_keeps [OF assms(1,2) claimsKept_updated [OF assms(3) v(2)] v(1)])
  qed (use assms(4) in \<open>auto simp: eligible_open\<close>)
  then show ?thesis using assms(5) by (auto simp: syncClaimQueue_def split: prod.splits sum.splits option.splits)
qed

lemma sync_keeps:
  assumes "hash_ok L" "installation L ports key secret" "merchantAppOk runtime key app" "ma_screen app = HistoryScreen"
  shows "triple F (keeps L runtime ports key secret R)
    (synchronizing enabled (merchantLoad L ports) (merchantUpdate L ports) makePort z app)
    (\<lambda>app' y. merchantAppOk runtime key app' \<and> keeps L runtime ports key secret (R \<union> confirmed app') y) (\<lambda>_. False)
    (keeps L runtime ports key secret R)"
  unfolding triple_def
proof (intro allI impI)
  fix d r d' assume d: "keeps L runtime ports key secret R (contents d)" "\<forall>n. F (faults d n)"
    and run: "synchronizing enabled (merchantLoad L ports) (merchantUpdate L ports) makePort z app d = (r, d')"
  let ?I = "syncInvariant L runtime ports key secret R (faults d)"
  let ?port = "\<lambda>key. map_sum (\<lambda>e. e) quietPort (makePort key)"
  define w where "w = \<lparr>sw_device = d, sw_app = app, sw_alive = True, sw_rest = z\<rparr>"
  have w: "?I w" using d(1) assms(3,4) by (simp add: syncInvariant_def w_def)
  have ran: "?I w2" if w1: "?I w1" and "runSync enabled (merchantLoad L ports) (merchantUpdate L ports) ?port app w1 = (q, w2)" for w1 w2 q
  proof -
    obtain l w3 where l: "syncIO (merchantLoad L ports) w1 = (l, w3)" by force
    have "faultsOf (sw_device w1) (faults (sw_device w1) n)" for n by blast
    moreover have "keeps L runtime ports key secret R (contents (sw_device w1))" using w1 by (simp add: syncInvariant_def)
    ultimately have loaded: "keeps L runtime ports key secret R (contents (sw_device w3)) \<and> faults (sw_device w3) = faults (sw_device w1) \<and>
        sw_app w3 = sw_app w1 \<and> (\<forall>found. l = Inr found \<longrightarrow> (\<exists>m. found = Some m \<and> claimsKept L (merchantTrust runtime key) R (md_claimsJson m)))"
      using syncIO_triple [OF triple_merchantLoad [OF assms(1)] _ _ _ l] by blast
    have w3: "?I w3" using w1 loaded by (simp add: syncInvariant_def)
    have shown: "?I (setApp (\<lambda>app. app\<lparr>ma_claims := cs, ma_syncSummary := t\<rparr>) v)" if "?I v" for v cs t
      by (rule syncInvariant_setApp [OF that]) simp_all
    have queue: "?I v" if "map_sum (\<lambda>e. e) quietPort (makePort k) = Inr port" "claimsKept L (merchantTrust runtime key) R (md_claimsJson m)"
      "syncClaimQueue port (parseStoredClaims (md_claimsJson m)) True (Some (persistClaims (merchantUpdate L ports))) w3 = (answer, v)"
      for k port m answer v
    proof -
      note sent = that(1)
      obtain quiet where "port = quietPort quiet" using sent by (cases "makePort k") auto
      with queue_keeps [OF assms(1,2) that(2) w3] that(3) show ?thesis by blast
    qed
    show ?thesis
      using that(2) w1 w3 l loaded
      by (auto simp: runSync_def split: if_splits option.splits sum.splits prod.splits intro: shown queue)
  qed
  have started: "?I (setApp (\<lambda>app. app\<lparr>ma_syncing := True, ma_error := None, ma_syncSummary := None\<rparr>) w)"
    by (rule syncInvariant_setApp [OF w]) simp_all
  have ended: "?I (setApp (\<lambda>app. app\<lparr>ma_error := Some e, ma_syncing := False\<rparr>) v)" "?I (setApp (\<lambda>app. app\<lparr>ma_syncing := False\<rparr>) v)"
    if "?I v" for v e
    by (rule syncInvariant_setApp [OF that]; simp)+
  obtain q v where v: "runSync enabled (merchantLoad L ports) (merchantUpdate L ports) ?port app
      (setApp (\<lambda>app. app\<lparr>ma_syncing := True, ma_error := None, ma_syncSummary := None\<rparr>) w) = (q, v)" by force
  note after = ran [OF started v]
  have "?I (snd (synchronizeClaims enabled (merchantLoad L ports) (merchantUpdate L ports) ?port app w))"
    using w after ended [OF after] by (auto simp: synchronizeClaims_def v split: option.split sum.split)
  with run show "faults d' = faults d \<and> (case r of Done app' \<Rightarrow> merchantAppOk runtime key app' \<and> keeps L runtime ports key secret (R \<union> confirmed app') (contents d')
      | Thrown _ \<Rightarrow> False | Died \<Rightarrow> keeps L runtime ports key secret R (contents d'))"
    by (auto simp: synchronizing_def Let_def syncInvariant_def confirmed_def simp flip: w_def)
qed

section \<open>The invariant of a run\<close>

lemma handler_keeps:
  assumes L: "borsh_ok L" "hash_ok L" and inst: "installation L ports key secret" and app: "merchantAppOk runtime key app" "confirmed app \<subseteq> R"
    and "merchantHandler L runtime ports makePort app m"
  shows "triple F (keeps L runtime ports key secret R) m
    (\<lambda>app' y. merchantAppOk runtime key app' \<and> keeps L runtime ports key secret (R \<union> confirmed app') y) (\<lambda>_. False)
    (keeps L runtime ports key secret R)"
  using assms(6)
proof cases
  case (touched app')
  then show ?thesis using touch_app [OF _ app(1)] by (auto intro: triple_return)
next
  case (receipt)
  then show ?thesis using receipt_keeps [OF L(2) inst app(1) _ app(2)] by simp
qed (use request_keeps [OF L(2) inst app(1)] scan_keeps [OF L inst app(1)] sync_keeps [OF L(2) inst app(1)] in simp_all)

lemma merchant_invariant:
  assumes L: "borsh_ok L" "hash_ok L" and inst: "installation L ports key secret" and start: "keeps L runtime ports key secret {} x0"
    and run: "merchantRun L runtime ports makePort x0 x a R"
  shows "keeps L runtime ports key secret R x \<and> (\<forall>app. a = Some app \<longrightarrow> merchantAppOk runtime key app \<and> confirmed app \<subseteq> R)"
  using run
proof induction
  case installed
  show ?case using start by simp
next
  case (booted d a R secretKey r d')
  then have "keeps L runtime ports key secret R (contents d)" by blast
  from triple_run [OF boot_keeps [OF L(2) inst, of "faultsOf d"] this _ booted.hyps(2)]
  have "case r of Done app' \<Rightarrow> merchantAppOk runtime key app' \<and> keeps L runtime ports key secret (R \<union> confirmed app') (contents d')
    | Thrown _ \<Rightarrow> False | Died \<Rightarrow> keeps L runtime ports key secret R (contents d')" by blast
  then show ?case by (cases r) (auto simp: survivor_def confirmations_def)
next
  case (handled d app R m r d')
  then have app: "merchantAppOk runtime key app" "confirmed app \<subseteq> R" and K: "keeps L runtime ports key secret R (contents d)" by blast+
  from triple_run [OF handler_keeps [OF L inst app handled.hyps(2), of "faultsOf d"] K _ handled.hyps(3)]
  have "case r of Done app' \<Rightarrow> merchantAppOk runtime key app' \<and> keeps L runtime ports key secret (R \<union> confirmed app') (contents d')
    | Thrown _ \<Rightarrow> False | Died \<Rightarrow> keeps L runtime ports key secret R (contents d')" by blast
  then show ?case by (cases r) (auto simp: survivor_def confirmations_def)
qed simp

end
