(* ===== verification/MerchantAppTheorems.thy ===== *)
theory MerchantAppTheorems
  imports MerchantAppFacts StorageLive ClaimSamples
begin

text \<open>
  The properties of the merchant's application: a payment it has confirmed stays claimable, and a
  proof that answers the open request is confirmed on a device that works.
\<close>

section \<open>Confirmed payments\<close>

text \<open>
  C2: On a device whose storage may reject or kill the process at
  any access, through restarts, kills and synchronisations with any network: for every payment the
  merchant's screen ever confirmed, the store holds a claim from which the evidence for exactly
  this payment's credential hash can be derived again, so the confirmation is never given for a
  proof that is not durable, provided a handler is not started before the previous one has ended.
\<close>

theorem confirmed_payments_stay_claimable:
  assumes "borsh_ok L" "hash_ok L" "installation L ports key secret"
    and "merchantHolds L (mp_namespace ports) (Some m0) x0" "merchantOk m0" "md_deviceSecretHex m0 = secret" "md_claimsJson m0 = claimsText []"
    and "merchantRun L runtime ports makePort x0 x app R" "c \<in> R"
  shows "\<exists>m claim ev. merchantHolds L (mp_namespace ports) (Some m) x \<and> claim \<in> set (parseStoredClaims (md_claimsJson m)) \<and>
    materializeStoredClaimEvidence L claim (merchantTrust runtime key) = Inr ev \<and>
    credentialHash L c = Inr (cm_credentialHash (sce_material ev))"
proof -
  have "keeps L runtime ports key secret {} x0"
    using assms(4-7) by (auto simp: merchantKeeps_def claimsKept_def parse_claimsText map_filter_def)
  then have "keeps L runtime ports key secret R x"
    using merchant_invariant [OF assms(1-3) _ assms(8)] by blast
  then obtain m h claim where m: "merchantHolds L (mp_namespace ports) (Some m) x" "claim \<in> set (parseStoredClaims (md_claimsJson m))"
    "provable L (merchantTrust runtime key) claim" "credentialHash L c = Inr h" "st_credentialHash claim = bytesToHex h"
    using assms(9) by (auto simp: merchantKeeps_def claimsKept_def)
  then obtain ev where ev: "materializeStoredClaimEvidence L claim (merchantTrust runtime key) = Inr ev"
    by (auto simp: provable_def isOk_iff)
  have "cm_credentialHash (sce_material ev) = h"
    using materialize_steps [OF ev] m(5) by (metis hexPairs_bytesToHex)
  with m ev show ?thesis by blast
qed

section \<open>On a working device\<close>

lemma merchant_store_namespace: "so_namespace (merchantStore ns) = ns"
  by (simp add: merchantStore_def)

lemma merchant_names: "map fst (merchantValues m) = map cd_name (so_components (merchantStore ns))"
  by (simp add: merchant_components merchantValues_def)

lemma merchantLoad_works:
  assumes "hash_ok L" "merchantHolds L (mp_namespace ports) (Some m) (contents d)" "merchantOk m" "works d"
  obtains d' where "merchantLoad L ports d = (Done (Some m), d')" "works d'" "merchantHolds L (mp_namespace ports) (Some m) (contents d')"
proof -
  let ?s = "merchantStore (mp_namespace ports)"
  obtain g where g: "durable L ?s (contents d) (Some (g, payloadsOf ?s (merchantValues m)))"
    using assms(2) by (auto simp: holdsValue_def)
  obtain r d' where r: "loadStore L ?s d = (Done r, d')" "works d'" "durable L ?s (contents d') (Some (g, payloadsOf ?s (merchantValues m)))"
    "reports ?s (Some (g, payloadsOf ?s (merchantValues m))) r"
    by (rule load_works [OF assms(1) g assms(4)])
  have "committedSnapshot (zip (map cd_name (so_components ?s)) (payloadsOf ?s (merchantValues m))) = Inr m"
    using assms(3)
    by (auto simp: payloadsOf_def merchant_components merchantValues_def committedSnapshot_def merchantOk_def validateSnapshot_def split: option.splits)
  with r(1,4) have "merchantLoad L ports d = (Done (Some m), d')"
    by (auto simp: merchantLoad_def rawLoad_def bindIO_def liftIO_def returnIO_def reports_def)
  with r(2,3) that show thesis by (auto simp: holdsValue_def)
qed

lemma merchantUpdate_works:
  assumes "hash_ok L" "installation L ports key secret" "merchantHolds L (mp_namespace ports) (Some m) (contents d)" "merchantOk m" "works d"
    "freshGenerations (mp_nextGeneration ports)" "mutate m = Inr n" "merchantOk n"
  obtains d' where "merchantUpdate L ports mutate d = (Done n, d')" "works d'" "merchantHolds L (mp_namespace ports) (Some n) (contents d')"
proof -
  let ?ns = "mp_namespace ports"
  obtain d1 where d1: "merchantLoad L ports d = (Done (Some m), d1)" "works d1" "merchantHolds L ?ns (Some m) (contents d1)"
    by (rule merchantLoad_works [OF assms(1,3-5)])
  obtain g where g: "durable L (merchantStore ?ns) (contents d1) (Some (g, payloadsOf (merchantStore ?ns) (merchantValues m)))"
    using d1(3) by (auto simp: holdsValue_def)
  have valid: "validateDefinitions (so_namespace (merchantStore ?ns)) (so_components (merchantStore ?ns)) = Inr ()"
    using assms(2) by (simp add: installation_def merchant_store_namespace)
  obtain result d' where d': "commitStore L (merchantStore ?ns) (mp_nextGeneration ports) (merchantValues n) d1 = (Done result, d')" "works d'"
    "durable L (merchantStore ?ns) (contents d') (Some (cr_generation result, payloadsOf (merchantStore ?ns) (merchantValues n)))"
    by (rule commit_works [OF assms(1) valid g d1(2), of "merchantValues n" "mp_nextGeneration ports"])
      (use assms(6) in \<open>auto simp: merchant_names [of _ ?ns] sameKeys_iff freshGenerations_def isOk_iff\<close>)
  have "validateSnapshot n = Inr n" using assms(8) by (simp add: validateSnapshot_def merchantOk_def)
  then have "merchantUpdate L ports mutate d = (Done n, d')"
    using d1(1) d'(1) assms(7)
    by (simp add: merchantUpdate_def merchantLoad_def updateMerchant_def commitMerchant_def bindIO_def liftIO_def returnIO_def)
  with d'(2,3) that show thesis by (auto simp: holdsValue_def)
qed

lemma receipt_frames:
  assumes "hash_ok L" "length hash = 32" "length challenge = 32"
  obtains frames where "sendReceipt L merchantTransport \<lparr>tr_credentialHash = hash, tr_merchantChallenge = challenge\<rparr> = Inr frames"
    "\<forall>fs. set fs = set frames \<longrightarrow> receiveReceipt L fs = Inr \<lparr>tr_credentialHash = hash, tr_merchantChallenge = challenge\<rparr>"
proof -
  let ?r = "\<lparr>tr_credentialHash = hash, tr_merchantChallenge = challenge\<rparr>"
  obtain bs where bs: "encodeReceipt ?r = Inr bs" "length bs = 65"
    using assms(2,3) by (simp add: encodeReceipt_def assertExactBytes_def transport_constants)
  have "isOk (frame L merchantTransport ReceiptMessage bs)"
    by (rule frame_defined [OF assms(1)]) (simp_all add: bs(2) merchantTransport_def DEFAULT_CHUNK_BYTES_def)
  then obtain frames where frames: "frame L merchantTransport ReceiptMessage bs = Inr frames" by (auto simp: isOk_iff)
  have "receiveReceipt L fs = Inr ?r" if "set fs = set frames" for fs
    using frames_assemble [OF assms(1) _ frames that] bs(1)
    by (simp add: receiveReceipt_def merchantTransport_def DEFAULT_CHUNK_BYTES_def decodeReceipt_iff)
  with frames bs(1) that show thesis by (simp add: sendReceipt_def)
qed

lemma scan_works:
  assumes L: "borsh_ok L" "hash_ok L" and inst: "installation L ports key secret"
    and store: "merchantHolds L (mp_namespace ports) (Some m) (contents d)" "merchantOk m" "md_outstandingChallengeJson m \<noteq> None" "works d"
      "freshGenerations (mp_nextGeneration ports)"
    and accepted: "acceptCredential L runtime (app\<lparr>ma_receivedFrames := setAdd raw (ma_receivedFrames app)\<rparr>) = Inr (c, hash)"
  obtains n d' frames where "scanCredential L runtime (merchantUpdate L ports) raw app d =
      (Done (app\<lparr>ma_receivedFrames := setAdd raw (ma_receivedFrames app), ma_claims := parseStoredClaims (md_claimsJson n),
        ma_verifiedCredential := Some c, ma_receiptFrames := frames, ma_screen := VerifiedScreen\<rparr>), d')"
    "works d'" "merchantHolds L (mp_namespace ports) (Some n) (contents d')" "merchantOk n" "md_deviceSecretHex n = md_deviceSecretHex m"
    "storeAccepted c hash (setAdd raw (ma_receivedFrames app)) m = Inr n"
    "\<forall>fs. set fs = set frames \<longrightarrow> receiveReceipt L fs = Inr \<lparr>tr_credentialHash = hash, tr_merchantChallenge = pc_merchantChallenge c\<rparr>"
    "credentialHash L c = Inr hash"
proof -
  have hash: "credentialHash L c = Inr hash" using accepted by (auto simp: acceptCredential_def bindE_Inr_iff split: option.splits)
  then obtain bs where bs: "encodePaymentCredential L c = Inr bs" "hash = sha256 L bs" by (auto simp: credentialHash_iff)
  then have sizes: "length hash = 32" "length (pc_merchantChallenge c) = 32"
    using encodePaymentCredential_ok [OF L(1), of c] L(2) by (auto simp: hash_ok_def validPaymentCredential_def)
  obtain n where n: "storeAccepted c hash (setAdd raw (ma_receivedFrames app)) m = Inr n" "merchantOk n" "md_deviceSecretHex n = md_deviceSecretHex m"
    using store(2,3) by (auto simp: storeAccepted_def Let_def merchantOk_def)
  obtain d' where d': "merchantUpdate L ports (storeAccepted c hash (setAdd raw (ma_receivedFrames app))) d = (Done n, d')" "works d'"
    "merchantHolds L (mp_namespace ports) (Some n) (contents d')"
    by (rule merchantUpdate_works [where mutate = "storeAccepted c hash (setAdd raw (ma_receivedFrames app))",
          OF L(2) inst store(1,2,4,5) n(1,2)])
  obtain frames where frames: "sendReceipt L merchantTransport \<lparr>tr_credentialHash = hash, tr_merchantChallenge = pc_merchantChallenge c\<rparr> = Inr frames"
    "\<forall>fs. set fs = set frames \<longrightarrow> receiveReceipt L fs = Inr \<lparr>tr_credentialHash = hash, tr_merchantChallenge = pc_merchantChallenge c\<rparr>"
    by (rule receipt_frames [OF L(2) sizes])
  show thesis
    by (rule that [OF _ d'(2,3) n(2,3,1) frames(2) hash])
      (simp add: scanCredential_def Let_def accepted catchIO_def bindIO_def liftIO_def returnIO_def d'(1) frames(1))
qed

text \<open>
  On a device that works, the merchant who has scanned all the frames of
  a proof that answers the outstanding request confirms it: the screen shows the payment, the store
  holds a claim for it and no outstanding request, and the receipt that is then shown reads as the
  receipt of exactly this payment.
\<close>

theorem valid_proof_is_confirmed:
  assumes "borsh_ok L" "hash_ok L" "installation L ports key secret"
    and "merchantHolds L (mp_namespace ports) (Some m) (contents d)" "merchantOk m" "md_outstandingChallengeJson m \<noteq> None" "works d"
    and "freshGenerations (mp_nextGeneration ports)" "merchantAppOk runtime key app"
    and "acceptCredential L runtime (app\<lparr>ma_receivedFrames := setAdd raw (ma_receivedFrames app)\<rparr>) = Inr (c, hash)"
  shows "\<exists>app' d' n claim. scanCredential L runtime (merchantUpdate L ports) raw app d = (Done app', d') \<and> confirmed app' = {c} \<and>
    receiveReceipt L (ma_receiptFrames app') = Inr \<lparr>tr_credentialHash = hash, tr_merchantChallenge = pc_merchantChallenge c\<rparr> \<and>
    merchantHolds L (mp_namespace ports) (Some n) (contents d') \<and> md_outstandingChallengeJson n = None \<and>
    claim \<in> set (parseStoredClaims (md_claimsJson n)) \<and> st_credentialHash claim = bytesToHex hash \<and> credentialHash L c = Inr hash"
proof -
  let ?scanned = "app\<lparr>ma_receivedFrames := setAdd raw (ma_receivedFrames app)\<rparr>"
  obtain n d' frames where ran: "scanCredential L runtime (merchantUpdate L ports) raw app d =
      (Done (?scanned\<lparr>ma_claims := parseStoredClaims (md_claimsJson n), ma_verifiedCredential := Some c, ma_receiptFrames := frames,
        ma_screen := VerifiedScreen\<rparr>), d')"
    "merchantHolds L (mp_namespace ports) (Some n) (contents d')" "storeAccepted c hash (setAdd raw (ma_receivedFrames app)) m = Inr n"
    "receiveReceipt L frames = Inr \<lparr>tr_credentialHash = hash, tr_merchantChallenge = pc_merchantChallenge c\<rparr>" "credentialHash L c = Inr hash"
    by (rule scan_works [OF assms(1-8,10)]) simp
  obtain ch where ch: "ma_challenge ?scanned = Some ch" using assms(10) by (auto simp: acceptCredential_def split: option.splits)
  then have "mc_merchant ch = mr_merchant runtime" "mc_merchantDeviceKey ch = key" using assms(9) by (auto simp: merchantAppOk_def)
  note claim = accepted_claim [OF assms(1,2,10) ch this]
  let ?new = "createStoredClaim (bytesToHex hash) (decimal (pc_amount c)) (bytesToHex (pc_sessionId c)) (setAdd raw (ma_receivedFrames app))"
  let ?old = "parseStoredClaims (md_claimsJson m)"
  let ?cs = "if list_ex (\<lambda>claim. st_credentialHash claim = bytesToHex hash) ?old then ?old else ?old @ [?new]"
  have n: "md_claimsJson n = claimsText ?cs" "md_outstandingChallengeJson n = None"
    using ran(3) by (auto simp: storeAccepted_def bindE_Inr_iff Let_def)
  have new: "st_credentialHash ?new = bytesToHex hash" by (simp add: createStoredClaim_def)
  obtain cl where cl: "cl \<in> set ?cs" "st_credentialHash cl = bytesToHex hash"
  proof (cases "list_ex (\<lambda>claim. st_credentialHash claim = bytesToHex hash) ?old")
    case True
    then obtain cl where "cl \<in> set ?old" "st_credentialHash cl = bytesToHex hash" by (auto simp: list_ex_iff)
    with True show thesis by (intro that) simp_all
  next
    case False
    with new show thesis by (intro that [of ?new]) simp_all
  qed
  have "storableClaim cl" using cl(1) claim(1) parsed_storable by (auto split: if_splits)
  then obtain claim' where "claim' \<in> set (parseStoredClaims (md_claimsJson n))" "st_credentialHash claim' = bytesToHex hash"
    using parsed_claim [OF cl(1)] cl(2) unfolding n(1) by (auto simp: sameEvidence_def)
  moreover have "confirmed (?scanned\<lparr>ma_claims := parseStoredClaims (md_claimsJson n), ma_verifiedCredential := Some c, ma_receiptFrames := frames,
      ma_screen := VerifiedScreen\<rparr>) = {c}" by (simp add: confirmed_def)
  moreover have "ma_receiptFrames (?scanned\<lparr>ma_claims := parseStoredClaims (md_claimsJson n), ma_verifiedCredential := Some c,
      ma_receiptFrames := frames, ma_screen := VerifiedScreen\<rparr>) = frames" by simp
  ultimately show ?thesis using ran n(2) by metis
qed

section \<open>A merchant with an open request\<close>

definition merchantSecret :: string where "merchantSecret = bytesToHex (replicate 32 10)"

definition shopRuntime :: MerchantRuntimeConfiguration where
  "shopRuntime = \<lparr>mr_trust = sampleEnvironment, mr_merchant = replicate 32 9, mr_rpcUrl = [], mr_relayerUrl = []\<rparr>"

definition shopPorts :: MerchantPorts where
  "shopPorts = \<lparr>mp_namespace = ''ogp.merchant'', mp_nextGeneration = (\<lambda>n. Inl (sampleGeneration (of_nat n))),
     mp_legacy = returnIO \<lparr>lm_deviceSecretHex = None, lm_claimsJson = None, lm_outstandingChallengeJson = None\<rparr>\<rparr>"

definition asking :: "StoredClaim list \<Rightarrow> MerchantDurableSnapshot" where
  "asking claims = \<lparr>md_deviceSecretHex = merchantSecret, md_claimsJson = claimsText claims,
     md_outstandingChallengeJson = Some (outstandingJson 40 (replicate 32 11) (replicate 32 10))\<rparr>"

lemma appHex_bytesToHex: "bs \<noteq> [] \<Longrightarrow> appHexToBytes (Some (JString (bytesToHex bs))) = Inr bs"
proof -
  assume "bs \<noteq> []"
  then have "bytesToHex bs \<noteq> []" by (cases bs) (simp_all add: byteHex_def)
  then show ?thesis by (simp add: appHexToBytes_def hexPairs_bytesToHex bytesToHex_digits failIf_def del: bytesToHex_simps list.set)
qed

lemma shopPorts_installed: "installation sampleLib shopPorts (replicate 32 10) merchantSecret"
proof -
  have "appHexToBytes (Some (JString merchantSecret)) = Inr (replicate 32 10)"
    unfolding merchantSecret_def by (rule appHex_bytesToHex) simp
  then show ?thesis
    by (simp add: installation_def shopPorts_def validateDefinitions_def merchant_components spaceChar_def componentNameText_def)
qed

lemma asking_ok: "merchantOk (asking claims)"
  by (simp add: merchantOk_def asking_def merchantSecret_def isHex_bytesToHex outstandingJson_object del: bytesToHex_simps)

lemma shopPorts_fresh: "freshGenerations (mp_nextGeneration shopPorts)"
  by (simp add: shopPorts_def freshGenerations_example)

lemma merchantInstalled:
  obtains d where "merchantHolds sampleLib (mp_namespace shopPorts) (Some (asking claims)) (contents d)" "works d"
proof -
  let ?ns = "mp_namespace shopPorts" and ?d = "device blank (\<lambda>_. Works) 0"
  have d: "works ?d" "durable sampleLib (merchantStore ?ns) (contents ?d) None" by (simp_all add: works_def blank_durable)
  have valid: "validateDefinitions (so_namespace (merchantStore ?ns)) (so_components (merchantStore ?ns)) = Inr ()"
    using shopPorts_installed by (simp add: installation_def merchant_store_namespace)
  obtain result d' where "commitStore sampleLib (merchantStore ?ns) (mp_nextGeneration shopPorts) (merchantValues (asking claims)) ?d = (Done result, d')"
    "works d'" "durable sampleLib (merchantStore ?ns) (contents d')
      (Some (cr_generation result, payloadsOf (merchantStore ?ns) (merchantValues (asking claims))))"
    by (rule commit_works [OF sampleLib_hash valid d(2,1), of "merchantValues (asking claims)" "mp_nextGeneration shopPorts"])
      (use shopPorts_fresh in \<open>auto simp: merchant_names [of _ ?ns] sameKeys_iff freshGenerations_def isOk_iff\<close>)
  then show thesis by (intro that) (auto simp: holdsValue_def)
qed

text \<open>The open request is shown again after a restart.\<close>

lemma bigInt_forty: "bigIntOf (decimal 40) = Some 40"
  by code_simp

lemma request_restored:
  "restoredChallenge shopRuntime (replicate 32 10) (outstandingJson 40 (replicate 32 11) (replicate 32 10)) = Inr (challengeFor sampleRequest)"
proof -
  let ?members = "[(''amount'', JString (decimal 40)), (''challenge'', JString (bytesToHex (replicate 32 11))),
     (''merchantDeviceKey'', JString (bytesToHex (replicate 32 10)))]"
  have "JSON_parse (outstandingJson 40 (replicate 32 11) (replicate 32 10)) = Some (JObject ?members)"
    unfolding outstandingJson_def by (rule JSON_parse_stringify) (simp add: list_all_iff)
  moreover have "propertyOf (JObject ?members) ''merchantDeviceKey'' = Some (JString (bytesToHex (replicate 32 10)))"
    "propertyOf (JObject ?members) ''amount'' = Some (JString (decimal 40))"
    "propertyOf (JObject ?members) ''challenge'' = Some (JString (bytesToHex (replicate 32 11)))"
    by (simp_all add: propertyOf_def)
  moreover have "appHexToBytes (Some (JString (bytesToHex (replicate 32 10)))) = Inr (replicate 32 10)"
    "appHexToBytes (Some (JString (bytesToHex (replicate 32 11)))) = Inr (replicate 32 11)"
    by (rule appHex_bytesToHex; simp)+
  ultimately show ?thesis
    by (simp add: restoredChallenge_def bigIntMember_def bigInt_forty equalBytes_def del: replicate.simps bytesToHex_simps)
      (simp add: challengeFor_def shopRuntime_def sampleEnvironment_def sampleRequest_def)
qed

lemma shopOpened:
  assumes "merchantHolds sampleLib (mp_namespace shopPorts) (Some (asking claims)) (contents d)" "works d"
  obtains d' app where "bootMerchant sampleLib shopRuntime (merchantLoad sampleLib shopPorts) (merchantInitialize sampleLib shopPorts) secretKey d = (Done app, d')"
    "works d'" "merchantHolds sampleLib (mp_namespace shopPorts) (Some (asking claims)) (contents d')" "ma_screen app = ShowChallenge"
    "ma_merchantDeviceKey app = Some (replicate 32 10)" "ma_challenge app = Some (challengeFor sampleRequest)"
proof -
  obtain d' where d': "merchantLoad sampleLib shopPorts d = (Done (Some (asking claims)), d')" "works d'"
    "merchantHolds sampleLib (mp_namespace shopPorts) (Some (asking claims)) (contents d')"
    by (rule merchantLoad_works [OF sampleLib_hash assms(1) asking_ok assms(2)])
  have t: "merchantTransport = \<lparr>qr_chunkBytes = 480\<rparr>" by (simp add: merchantTransport_def DEFAULT_CHUNK_BYTES_def)
  obtain fs where fs: "sendChallenge sampleLib merchantTransport (challengeFor sampleRequest) = Inr fs"
    unfolding t by (rule sampleFrames)
  have key: "bindE (appHexToBytes (Some (JString merchantSecret))) (derivePublicKey sampleLib) = Inr (replicate 32 10)"
    using shopPorts_installed by (simp add: installation_def)
  have "restoredMerchantApp sampleLib shopRuntime (asking claims) = initialMerchantApp\<lparr>ma_merchantDeviceKey := Some (replicate 32 10),
      ma_claims := parseStoredClaims (claimsText claims), ma_challenge := Some (challengeFor sampleRequest), ma_challengeFrames := fs,
      ma_screen := ShowChallenge\<rparr>"
    using key request_restored fs by (simp add: restoredMerchantApp_def asking_def showChallenge_def)
  then have boot: "bootMerchant sampleLib shopRuntime (merchantLoad sampleLib shopPorts) (merchantInitialize sampleLib shopPorts) secretKey d =
      (Done (initialMerchantApp\<lparr>ma_merchantDeviceKey := Some (replicate 32 10), ma_claims := parseStoredClaims (claimsText claims),
        ma_challenge := Some (challengeFor sampleRequest), ma_challengeFrames := fs, ma_screen := ShowChallenge\<rparr>), d')"
    using d'(1) by (simp add: bootMerchant_def catchIO_def bindIO_def returnIO_def)
  show thesis by (rule that [OF boot d'(2,3)]) simp_all
qed

text \<open>All the frames of the sample proof, in any order, are an answer to it.\<close>

lemma samplePayment_accepted:
  assumes "ma_challenge app = Some (challengeFor sampleRequest)" "ma_merchantDeviceKey app = Some (replicate 32 10)"
    "set (ma_receivedFrames app) = set (st_frames sampleClaim)"
  shows "acceptCredential sampleLib shopRuntime app = Inr (samplePayment, cm_credentialHash sampleMaterial)"
proof -
  have received: "receiveCredential sampleLib (ma_receivedFrames app) = Inr sampleClaimBundle"
    by (rule sampleClaim_frames [OF assms(3)])
  have "validateCredentialProofBundle sampleLib sampleContext sampleClaimBundle = Inr (nextParent samplePayment)"
    using sample_payments_accepted(1) [unfolded sampleParent_def]
    by (simp add: validateCredentialProofBundle_iff sampleClaimBundle_def)
  moreover have "contextOf sampleEnvironment (sc_sessionId (sessionCertificate sampleClaimBundle)) = sampleContext"
    using sampleContextOf by (simp add: sampleClaimBundle_def)
  ultimately have "validateMerchantResponse sampleLib sampleEnvironment (challengeFor sampleRequest) sampleClaimBundle =
      Inr \<lparr>vr_credential = samplePayment, vr_finalState = nextParent samplePayment\<rparr>"
    using created_fields [OF samplePayment_created]
    by (simp add: validateMerchantResponse_iff) (simp add: challengeFor_def sampleRequest_def sampleEnvironment_def sampleClaimBundle_def)
  with received assms(1,2) sampleMaterial_facts show ?thesis by (simp add: acceptCredential_def shopRuntime_def)
qed

text \<open>Scanning the frames one by one confirms a payment, at the latest with the last of them.\<close>

abbreviation noPort :: "bytes \<Rightarrow> unit ClaimSubmissionPort result" where "noPort \<equiv> \<lambda>_. Inl (JsError [])"

lemma shop_confirms:
  assumes "merchantRun sampleLib shopRuntime shopPorts noPort x0 (contents d) (Some app) R"
    "merchantHolds sampleLib (mp_namespace shopPorts) (Some (asking claims)) (contents d)" "works d" "ma_screen app = ScanCredential"
    "ma_challenge app = Some (challengeFor sampleRequest)" "ma_merchantDeviceKey app = Some (replicate 32 10)"
    "set (ma_receivedFrames app) \<union> set todo = set (st_frames sampleClaim)" "todo \<noteq> []"
  shows "\<exists>x a R c. merchantRun sampleLib shopRuntime shopPorts noPort x0 x a R \<and> c \<in> R"
  using assms
proof (induction todo arbitrary: app R)
  case (Cons raw rest)
  let ?scanned = "app\<lparr>ma_receivedFrames := setAdd raw (ma_receivedFrames app)\<rparr>"
  let ?scan = "scanCredential sampleLib shopRuntime (merchantUpdate sampleLib shopPorts) raw app"
  have frames: "set (ma_receivedFrames ?scanned) = insert raw (set (ma_receivedFrames app))" by (auto simp: setAdd_def)
  have handler: "merchantHandler sampleLib shopRuntime shopPorts noPort app ?scan" by (rule merchantHandler.scan [OF Cons.prems(4)])
  show ?case
  proof (cases "acceptCredential sampleLib shopRuntime ?scanned")
    case (Inr found)
    obtain c hash where found: "found = (c, hash)" by force
    have "md_outstandingChallengeJson (asking claims) \<noteq> None" by (simp add: asking_def)
    then obtain n :: MerchantDurableSnapshot and d' frames where scan: "?scan d = (Done (?scanned\<lparr>ma_claims := parseStoredClaims (md_claimsJson n), ma_verifiedCredential := Some c,
        ma_receiptFrames := frames, ma_screen := VerifiedScreen\<rparr>), d')"
      by (rule scan_works [OF sampleLib_borsh sampleLib_hash shopPorts_installed Cons.prems(2) asking_ok _ Cons.prems(3) shopPorts_fresh Inr [unfolded found]])
        (rule that)
    from merchantRun.handled [OF Cons.prems(1) handler scan] show ?thesis
      by (force simp: survivor_def confirmations_def confirmed_def)
  next
    case (Inl reason)
    have "rest \<noteq> []"
    proof
      assume "rest = []"
      with Cons.prems(7) frames have "set (ma_receivedFrames ?scanned) = set (st_frames sampleClaim)" by auto
      with samplePayment_accepted [of ?scanned] Cons.prems(5,6) Inl show False by simp
    qed
    have "?scan d = (Done (reportCredentialError reason ?scanned), d)"
      by (simp add: scanCredential_def Let_def catchIO_def bindIO_def liftIO_def returnIO_def throwIO_def Inl)
    from merchantRun.handled [OF Cons.prems(1) handler this]
    have run: "merchantRun sampleLib shopRuntime shopPorts noPort x0 (contents d) (Some (reportCredentialError reason ?scanned))
      (R \<union> confirmations (Some (reportCredentialError reason ?scanned)))" by (simp add: survivor_def)
    show ?thesis
      by (rule Cons.IH [OF run Cons.prems(2,3)])
        (use Cons.prems(4-7) frames \<open>rest \<noteq> []\<close> in \<open>auto simp: reportCredentialError_def\<close>)
  qed
qed simp

lemma shopScans:
  assumes "works d" "merchantHolds sampleLib (mp_namespace shopPorts) (Some (asking claims)) (contents d)"
  obtains d' app where "merchantRun sampleLib shopRuntime shopPorts noPort (contents d) (contents d') (Some app) {}"
    "merchantHolds sampleLib (mp_namespace shopPorts) (Some (asking claims)) (contents d')" "works d'" "ma_screen app = ScanCredential"
    "ma_challenge app = Some (challengeFor sampleRequest)" "ma_merchantDeviceKey app = Some (replicate 32 10)" "ma_receivedFrames app = []"
proof -
  obtain d' app where opened: "bootMerchant sampleLib shopRuntime (merchantLoad sampleLib shopPorts) (merchantInitialize sampleLib shopPorts) (Inr []) d = (Done app, d')"
    "works d'" "merchantHolds sampleLib (mp_namespace shopPorts) (Some (asking claims)) (contents d')" "ma_screen app = ShowChallenge"
    "ma_merchantDeviceKey app = Some (replicate 32 10)" "ma_challenge app = Some (challengeFor sampleRequest)"
    by (rule shopOpened [OF assms(2,1)])
  have none: "confirmed app = {}" using opened(4) by (simp add: confirmed_def)
  from merchantRun.booted [OF merchantRun.installed opened(1)]
  have booted: "merchantRun sampleLib shopRuntime shopPorts noPort (contents d) (contents d') (Some app) {}"
    by (simp add: survivor_def confirmations_def none)
  have "merchantHandler sampleLib shopRuntime shopPorts noPort app (returnIO (beginCredentialScan app))"
    by (intro merchantHandler.touched merchantTouch.receive opened(4))
  from merchantRun.handled [OF booted this, of "Done (beginCredentialScan app)" d']
  have "merchantRun sampleLib shopRuntime shopPorts noPort (contents d) (contents d') (Some (beginCredentialScan app)) {}"
    by (simp add: returnIO_def survivor_def confirmations_def confirmed_def beginCredentialScan_def)
  then show thesis by (rule that) (simp_all add: opened beginCredentialScan_def)
qed

theorem confirmed_payments_stay_claimable_witness:
  "\<exists>x0 x a R c m claim ev. merchantRun sampleLib shopRuntime shopPorts noPort x0 x a R \<and> c \<in> R \<and>
    merchantHolds sampleLib (mp_namespace shopPorts) (Some m) x \<and> claim \<in> set (parseStoredClaims (md_claimsJson m)) \<and>
    materializeStoredClaimEvidence sampleLib claim (merchantTrust shopRuntime (replicate 32 10)) = Inr ev \<and>
    credentialHash sampleLib c = Inr (cm_credentialHash (sce_material ev))"
proof -
  obtain d where d: "merchantHolds sampleLib (mp_namespace shopPorts) (Some (asking [])) (contents d)" "works d" by (rule merchantInstalled)
  obtain d' app where open_run: "merchantRun sampleLib shopRuntime shopPorts noPort (contents d) (contents d') (Some app) {}"
    "merchantHolds sampleLib (mp_namespace shopPorts) (Some (asking [])) (contents d')" "works d'" "ma_screen app = ScanCredential"
    "ma_challenge app = Some (challengeFor sampleRequest)" "ma_merchantDeviceKey app = Some (replicate 32 10)" "ma_receivedFrames app = []"
    by (rule shopScans [OF d(2,1)])
  have "st_frames sampleClaim \<noteq> []"
    using sampleClaim_received by (auto simp: receiveCredential_def assemble_def)
  then obtain x a R c where run: "merchantRun sampleLib shopRuntime shopPorts noPort (contents d) x a R" "c \<in> R"
    using shop_confirms [OF open_run(1-6), of "st_frames sampleClaim"] open_run(7) by auto
  from confirmed_payments_stay_claimable [OF sampleLib_borsh sampleLib_hash shopPorts_installed d(1) asking_ok _ _ run]
  show ?thesis using run by (simp add: asking_def) blast
qed

theorem valid_proof_is_confirmed_witness:
  "\<exists>raw app d app' d' n. scanCredential sampleLib shopRuntime (merchantUpdate sampleLib shopPorts) raw app d = (Done app', d') \<and>
    confirmed app' = {samplePayment} \<and> merchantHolds sampleLib (mp_namespace shopPorts) (Some n) (contents d') \<and>
    md_outstandingChallengeJson n = None"
proof -
  obtain d where d: "merchantHolds sampleLib (mp_namespace shopPorts) (Some (asking [])) (contents d)" "works d" by (rule merchantInstalled)
  let ?app = "initialMerchantApp\<lparr>ma_screen := ScanCredential, ma_challenge := Some (challengeFor sampleRequest),
    ma_merchantDeviceKey := Some (replicate 32 10), ma_receivedFrames := st_frames sampleClaim\<rparr>"
  obtain raw where raw: "raw \<in> set (st_frames sampleClaim)"
    using sampleClaim_received by (cases "st_frames sampleClaim") (auto simp: receiveCredential_def assemble_def)
  have "acceptCredential sampleLib shopRuntime (?app\<lparr>ma_receivedFrames := setAdd raw (ma_receivedFrames ?app)\<rparr>) =
      Inr (samplePayment, cm_credentialHash sampleMaterial)"
    by (rule samplePayment_accepted) (use raw in \<open>simp_all add: setAdd_def\<close>)
  moreover have "merchantAppOk shopRuntime (replicate 32 10) ?app"
    by (simp add: merchantAppOk_def challengeFor_def sampleRequest_def shopRuntime_def)
  moreover have "md_outstandingChallengeJson (asking []) \<noteq> None" by (simp add: asking_def)
  ultimately show ?thesis
    using valid_proof_is_confirmed [OF sampleLib_borsh sampleLib_hash shopPorts_installed d(1) asking_ok _ d(2) shopPorts_fresh] by blast
qed

end
