(* ===== verification/Applications.thy ===== *)
theory Applications
  imports PayerAppTheorems MerchantAppTheorems
begin

text \<open>
  The two applications together: a payment the payer authorises is confirmed by the merchant who
  scans its frames, and the receipt the merchant then shows is the one the payer waits for.
\<close>

section \<open>From screen to camera\<close>

text \<open>Frames that were shown, scanned in any order and any number of times.\<close>

lemma bundle_delivered:
  assumes "borsh_ok L" "hash_ok L" "sendCredential L payerTransport b = Inr frames" "validBundle b" "set fs = set frames"
  shows "receiveCredential L fs = Inr b"
proof -
  obtain bs where bs: "encodeCredentialProofBundle L b = Inr bs" "frame L payerTransport CredentialBundleMessage bs = Inr frames"
    using assms(3) by (auto simp: sendCredential_def bindE_Inr_iff)
  have "decodeBundle L bs = Inr b" using decodeBundle_iff [OF assms(1)] assms(4) bs(1) by blast
  moreover have "0 < qr_chunkBytes payerTransport" by (simp add: payerTransport_def DEFAULT_CHUNK_BYTES_def)
  ultimately show ?thesis
    using frames_assemble [OF assms(2) _ bs(2) assms(5)] by (simp add: receiveCredential_def)
qed

lemma bundle_hashes:
  assumes "borsh_ok L" "validBundle b" "c \<in> set (credentials b)"
  shows "\<exists>hash. credentialHash L c = Inr hash"
proof -
  have c: "validPaymentCredential c" "length (pc_payerSignature c) = 64" using assms(2,3) by (simp_all add: validBundle_def)
  then have "isOk (encodePaymentCredential L c)"
    by (simp add: encodePaymentCredential_ok [OF assms(1)] encodePaymentCredentialPayload_ok [OF assms(1)])
  then show ?thesis by (auto simp: isOk_iff credentialHash_iff)
qed

text \<open>The merchant whose request was paid accepts what the payer shows.\<close>

lemma payment_accepted:
  assumes L: "borsh_ok L" "hash_ok L" "signature_ok L"
    and payer: "appOk L rt payer" "pa_challenge payer = Some ch" "pa_parent payer = Some p" "pa_error paid = None"
      "authorizePayment L load commit payer payer d = (Done paid, d')"
    and domain: "rt_trustContext rt = contextOf (mr_trust runtime) (sc_sessionId (rt_sessionCertificate rt))"
      "assertChallengeEnvironment ch (mr_trust runtime) = Inr ()"
    and shop: "ma_challenge shop = Some ch" "ma_merchantDeviceKey shop \<noteq> None" "set (ma_receivedFrames shop) = set (pa_outgoingFrames paid)"
  obtains c hash where "acceptCredential L runtime shop = Inr (c, hash)" "pa_credentials paid = pa_credentials payer @ [c]" "credentialHash L c = Inr hash"
    "pa_lastCredential paid = Some c" "pa_parent paid = Some (nextParent c)" "pc_amount c = mc_amount ch"
proof -
  let ?cs = "pa_credentials payer" and ?cx = "rt_trustContext rt"
  have ok: "pa_sessionRuntime payer = Some rt" "validateCredentialProofBundle L ?cx (sessionBundle rt ?cs) = Inr p" "validBundle (sessionBundle rt ?cs)"
    using payer(1,3) by (auto simp: appOk_def)
  obtain c frames secret where c: "paymentFor L rt p ch secret = Inr c" "paid = showPayment payer c frames payer"
    "sendCredential L payerTransport (sessionBundle rt (?cs @ [c])) = Inr frames"
    by (rule authorised [OF payer(5,4,2) ok(1) payer(3)])
  note carried = payment_carried [OF L ok(2,3) c(1,3)]
  obtain sk where created: "createPaymentCredential L ?cx (rt_sessionCertificate rt) p
      \<lparr>rq_merchant = mc_merchant ch, rq_merchantDeviceKey = mc_merchantDeviceKey ch, rq_amount = mc_amount ch,
       rq_merchantChallenge = mc_challenge ch, rq_createdAt = sc_issuedAt (rt_sessionCertificate rt) + (pt_sequence p + 1)\<rparr> sk = Inr c"
    using c(1) by (auto simp: paymentFor_def bindE_Inr_iff split: option.splits)
  have shown: "pa_credentials paid = ?cs @ [c]" "pa_lastCredential paid = Some c" "pa_parent paid = Some (nextParent c)" "pa_outgoingFrames paid = frames"
    by (simp_all add: c(2) showPayment_def)
  have received: "receiveCredential L (ma_receivedFrames shop) = Inr (sessionBundle rt (?cs @ [c]))"
    by (rule bundle_delivered [OF L(1,2) c(3) carried(2)]) (simp add: shop(3) shown(4))
  have response: "validateMerchantResponse L (mr_trust runtime) ch (sessionBundle rt (?cs @ [c])) =
      Inr \<lparr>vr_credential = c, vr_finalState = nextParent c\<rparr>"
    using carried(4) domain created_fields [OF created]
    by (simp add: validateMerchantResponse_iff assertChallengeEnvironment_def sessionBundle_def)
  obtain hash where hash: "credentialHash L c = Inr hash"
    using bundle_hashes [OF L(1) carried(2), of c] by (auto simp: sessionBundle_def)
  have "acceptCredential L runtime shop = Inr (c, hash)"
    using shop(1,2) received response hash by (auto simp: acceptCredential_def)
  with hash shown created_fields [OF created] that show thesis by simp
qed

text \<open>
  C3: When the payer's application has authorised the payment of a request and shows
  its frames, a merchant of the same deployment who has that request open, has scanned exactly these
  frames and whose device works confirms this very payment, keeps a claim for it, and shows a receipt
  whose frames, scanned in any order, the payer's application accepts as the receipt of the payment.
\<close>

theorem payment_completes:
  assumes "borsh_ok L" "hash_ok L" "signature_ok L"
    and "appOk L rt payer" "pa_challenge payer = Some ch" "pa_parent payer = Some p" "pa_error paid = None"
    and "authorizePayment L load commit payer payer d = (Done paid, d')"
    and "rt_trustContext rt = contextOf (mr_trust runtime) (sc_sessionId (rt_sessionCertificate rt))"
    and "assertChallengeEnvironment ch (mr_trust runtime) = Inr ()"
    and "installation L ports key secret" "merchantHolds L (mp_namespace ports) (Some m) (contents e)" "merchantOk m"
    and "md_outstandingChallengeJson m \<noteq> None" "works e" "freshGenerations (mp_nextGeneration ports)"
    and "ma_challenge shop = Some ch" "ma_merchantDeviceKey shop \<noteq> None"
    and "set (setAdd raw (ma_receivedFrames shop)) = set (pa_outgoingFrames paid)"
  shows "\<exists>shop' e' c. scanCredential L runtime (merchantUpdate L ports) raw shop e = (Done shop', e') \<and> confirmed shop' = {c} \<and>
    pa_credentials paid = pa_credentials payer @ [c] \<and> pc_amount c = mc_amount ch \<and>
    (\<forall>fs. set fs = set (ma_receiptFrames shop') \<longrightarrow> acceptReceipt L (paid\<lparr>pa_receivedFrames := fs\<rparr>) = Inr (nextParent c))"
proof -
  let ?scanned = "shop\<lparr>ma_receivedFrames := setAdd raw (ma_receivedFrames shop)\<rparr>"
  have shop: "ma_challenge ?scanned = Some ch" "ma_merchantDeviceKey ?scanned \<noteq> None" "set (ma_receivedFrames ?scanned) = set (pa_outgoingFrames paid)"
    using assms(17-19) by simp_all
  obtain c hash where c: "acceptCredential L runtime ?scanned = Inr (c, hash)" "pa_credentials paid = pa_credentials payer @ [c]"
    "credentialHash L c = Inr hash" "pa_lastCredential paid = Some c" "pa_parent paid = Some (nextParent c)" "pc_amount c = mc_amount ch"
    by (rule payment_accepted [OF assms(1-10) shop])
  obtain n :: MerchantDurableSnapshot and e' frames where ran: "scanCredential L runtime (merchantUpdate L ports) raw shop e =
      (Done (?scanned\<lparr>ma_claims := parseStoredClaims (md_claimsJson n), ma_verifiedCredential := Some c, ma_receiptFrames := frames,
        ma_screen := VerifiedScreen\<rparr>), e')"
    and receipt: "\<forall>fs. set fs = set frames \<longrightarrow> receiveReceipt L fs = Inr \<lparr>tr_credentialHash = hash, tr_merchantChallenge = pc_merchantChallenge c\<rparr>"
    by (rule scan_works [OF assms(1,2,11-16) c(1)]) (rule that)
  let ?shop = "?scanned\<lparr>ma_claims := parseStoredClaims (md_claimsJson n), ma_verifiedCredential := Some c, ma_receiptFrames := frames,
    ma_screen := VerifiedScreen\<rparr>"
  have "acceptReceipt L (paid\<lparr>pa_receivedFrames := fs\<rparr>) = Inr (nextParent c)" if "set fs = set frames" for fs
    using receipt that c(3-5) by (simp add: acceptReceipt_def equalBytes_def)
  then have "\<forall>fs. set fs = set (ma_receiptFrames ?shop) \<longrightarrow> acceptReceipt L (paid\<lparr>pa_receivedFrames := fs\<rparr>) = Inr (nextParent c)" by simp
  moreover have "confirmed ?shop = {c}" by (simp add: confirmed_def)
  ultimately show ?thesis using ran c(2,6) by blast
qed

lemma showPayment_frames: "pa_outgoingFrames (showPayment closure c frames now) = frames"
  by (simp add: showPayment_def)

theorem payment_completes_witness:
  "\<exists>payer paid d d' raw shop e shop' e' c. authorizePayment sampleLib (loadPayer sampleLib nothingStored)
      (commitPayer sampleLib (\<lambda>n. Inl (sampleGeneration (of_nat n)))) payer payer d = (Done paid, d') \<and> pa_credentials paid = [c] \<and> pc_amount c = 40 \<and>
    scanCredential sampleLib shopRuntime (merchantUpdate sampleLib shopPorts) raw shop e = (Done shop', e') \<and> confirmed shop' = {c} \<and>
    acceptReceipt sampleLib (paid\<lparr>pa_receivedFrames := ma_receiptFrames shop'\<rparr>) = Inr (nextParent c)"
proof -
  obtain ps s d where i: "payerHolds sampleLib (Some ps) (contents d)" "works d" "restoreAll sampleLib ps (environmentOf sampleContext) = Inr s"
    "rp_runtime s = sampleRuntime" "appOk sampleLib sampleRuntime (restoredApp s)" "pa_credentials (restoredApp s) = []"
    "pa_parent (restoredApp s) = Some (genesisParent sampleCertificate)" "pa_onchainSessionAccount (restoredApp s) = Some (replicate 32 21)"
    by (rule sampleOpened)
  let ?payer = "(restoredApp s)\<lparr>pa_challenge := Some (challengeFor sampleRequest), pa_error := None\<rparr>"
  have ok: "appOk sampleLib sampleRuntime ?payer" using i(5) unfolding appOk_def by auto
  obtain c frames d' where paid: "authorizePayment sampleLib (loadPayer sampleLib nothingStored)
      (commitPayer sampleLib (\<lambda>n. Inl (sampleGeneration (of_nat n)))) ?payer ?payer d = (Done (showPayment ?payer c frames ?payer), d')"
    by (rule sample_paid [OF i(1-4) ok, of "challengeFor sampleRequest" ?payer])
      (use i(6-8) sampleChallenge_valid in \<open>simp_all add: challengeFor_def sampleRequest_def\<close>)
  let ?paid = "showPayment ?payer c frames ?payer"
  obtain e where e: "merchantHolds sampleLib (mp_namespace shopPorts) (Some (asking [])) (contents e)" "works e" by (rule merchantInstalled)
  have error: "pa_error ?paid = None" by (simp add: showPayment_def)
  have payer: "pa_challenge ?payer = Some (challengeFor sampleRequest)" "pa_parent ?payer = Some (genesisParent sampleCertificate)"
    "pa_sessionRuntime ?payer = Some sampleRuntime" "pa_credentials ?payer = []"
    using ok i(6,7) by (simp_all add: appOk_def)
  obtain c2 frames2 secret where c2: "paymentFor sampleLib sampleRuntime (genesisParent sampleCertificate) (challengeFor sampleRequest) secret = Inr c2"
    "?paid = showPayment ?payer c2 frames2 ?payer" "sendCredential sampleLib payerTransport (sessionBundle sampleRuntime (pa_credentials ?payer @ [c2])) = Inr frames2"
    by (rule authorised [OF paid error payer(1,3,2)])
  have proof_before: "validateCredentialProofBundle sampleLib (rt_trustContext sampleRuntime) (sessionBundle sampleRuntime (pa_credentials ?payer)) =
      Inr (genesisParent sampleCertificate)" "validBundle (sessionBundle sampleRuntime (pa_credentials ?payer))"
    using ok payer(2) by (auto simp: appOk_def)
  have "frames2 \<noteq> []" by (rule payment_carried(3) [OF sampleLib_borsh sampleLib_hash sampleLib_signature proof_before c2(1,3)])
  moreover have "frames2 = frames" using c2(2) by (metis showPayment_frames)
  ultimately obtain raw where raw: "raw \<in> set frames" by (cases frames) auto
  let ?shop = "initialMerchantApp\<lparr>ma_challenge := Some (challengeFor sampleRequest), ma_merchantDeviceKey := Some (replicate 32 10),
    ma_receivedFrames := frames\<rparr>"
  have domain: "rt_trustContext sampleRuntime = contextOf (mr_trust shopRuntime) (sc_sessionId (rt_sessionCertificate sampleRuntime))"
    "assertChallengeEnvironment (challengeFor sampleRequest) (mr_trust shopRuntime) = Inr ()"
    using sampleContextOf by (simp_all add: sampleRuntime_def shopRuntime_def assertChallengeEnvironment_def challengeFor_def sampleEnvironment_def)
  have shop: "ma_challenge ?shop = Some (challengeFor sampleRequest)" "ma_merchantDeviceKey ?shop \<noteq> None"
    "set (setAdd raw (ma_receivedFrames ?shop)) = set (pa_outgoingFrames ?paid)"
    using raw by (auto simp: setAdd_def showPayment_frames)
  have asked: "md_outstandingChallengeJson (asking []) \<noteq> None" by (simp add: asking_def)
  have amount: "mc_amount (challengeFor sampleRequest) = 40" by (simp add: challengeFor_def sampleRequest_def)
  obtain shop' e' c' where scan: "scanCredential sampleLib shopRuntime (merchantUpdate sampleLib shopPorts) raw ?shop e = (Done shop', e')" "confirmed shop' = {c'}"
    "pa_credentials ?paid = pa_credentials ?payer @ [c']" "pc_amount c' = 40"
    "\<forall>fs. set fs = set (ma_receiptFrames shop') \<longrightarrow> acceptReceipt sampleLib (?paid\<lparr>pa_receivedFrames := fs\<rparr>) = Inr (nextParent c')"
    using payment_completes [OF sampleLib_borsh sampleLib_hash sampleLib_signature ok payer(1,2) error paid domain shopPorts_installed
        e(1) asking_ok asked e(2) shopPorts_fresh shop] unfolding amount by blast
  then have "pa_credentials ?paid = [c']" "acceptReceipt sampleLib (?paid\<lparr>pa_receivedFrames := ma_receiptFrames shop'\<rparr>) = Inr (nextParent c')"
    using payer(4) by simp_all
  with paid scan(1,2,4) show ?thesis by blast
qed

end
