(* ===== verification/SyncOverlap.thy ===== *)
theory SyncOverlap
  imports MerchantAppTheorems
begin

text \<open>
  A synchronisation of the merchant's application that overlaps another handler: the list of claims
  it saves is the one it read when it began, so that what the other handler stored is lost.
\<close>

section \<open>A synchronisation and another handler at a time\<close>

text \<open>A store that holds some valid content: what every handler leaves behind.\<close>

definition validStore :: "lib \<Rightarrow> MerchantPorts \<Rightarrow> disk \<Rightarrow> bool" where
  "validStore L ports x \<longleftrightarrow> (\<exists>m. merchantHolds L (mp_namespace ports) (Some m) x \<and> merchantOk m)"

text \<open>The claims of the store are among these.\<close>

definition storedWithin :: "lib \<Rightarrow> MerchantPorts \<Rightarrow> string set \<Rightarrow> disk \<Rightarrow> bool" where
  "storedWithin L ports hashes x \<longleftrightarrow> (\<exists>m. merchantHolds L (mp_namespace ports) (Some m) x \<and> merchantOk m \<and>
     st_credentialHash ` set (parseStoredClaims (md_claimsJson m)) \<subseteq> hashes)"

lemma update_valid:
  assumes "hash_ok L" "installation L ports key secret" "\<And>m n. merchantOk m \<Longrightarrow> mutate m = Inr n \<Longrightarrow> merchantOk n \<and> Q n"
  shows "triple F (validStore L ports) (merchantUpdate L ports mutate)
    (\<lambda>_ y. \<exists>n. merchantHolds L (mp_namespace ports) (Some n) y \<and> merchantOk n \<and> Q n) (validStore L ports) (validStore L ports)"
proof (rule triple_pre)
  fix x assume "validStore L ports x"
  then obtain m where m: "merchantHolds L (mp_namespace ports) (Some m) x" "merchantOk m" by (auto simp: validStore_def)
  have valid: "validateDefinitions (mp_namespace ports) (so_components (merchantStore (mp_namespace ports))) = Inr ()"
    using assms(2) by (simp add: installation_def)
  show "triple F ((=) x) (merchantUpdate L ports mutate)
    (\<lambda>_ y. \<exists>n. merchantHolds L (mp_namespace ports) (Some n) y \<and> merchantOk n \<and> Q n) (validStore L ports) (validStore L ports)"
    unfolding merchantUpdate_def
    by (rule triple_weaken [OF triple_updateMerchant [OF assms(1) valid m]]) (use m(2) assms(3) [OF m(2)] in \<open>auto simp: validStore_def\<close>)
qed

lemma updated_origin:
  assumes "c' \<in> set (updatedClaims claims updates)"
    "\<And>h u. map_of updates h = Some u \<Longrightarrow> \<exists>c \<in> set claims. st_credentialHash c = h \<and> sameProof c u"
  shows "\<exists>c \<in> set claims. sameEvidence c c'"
proof -
  obtain item where item: "item \<in> set claims" "c' = (case map_of updates (st_credentialHash item) of None \<Rightarrow> item | Some u \<Rightarrow> u)"
    using assms(1) by (auto simp: updatedClaims_def)
  show ?thesis
  proof (cases "map_of updates (st_credentialHash item)")
    case None
    with item show ?thesis by (auto simp: sameEvidence_def)
  next
    case (Some u)
    with item assms(2) [OF Some] show ?thesis by (auto dest: sameProof_evidence)
  qed
qed

lemma save_within:
  assumes "hash_ok L" "installation L ports key secret" "validStore L ports (contents (sw_device w))"
    "\<And>c. c \<in> set updated \<Longrightarrow> \<exists>d \<in> set claims. sameEvidence d c" "list_all storableClaim claims"
    "persistClaims (merchantUpdate L ports) updated w = (r, w')"
  shows "validStore L ports (contents (sw_device w')) \<and>
    (isOk r \<longrightarrow> storedWithin L ports (st_credentialHash ` set claims) (contents (sw_device w')))"
proof -
  let ?save = "merchantUpdate L ports (\<lambda>stored. Inr (stored\<lparr>md_claimsJson := claimsText updated\<rparr>))"
  obtain q v where q: "syncIO ?save w = (q, v)" by force
  have "triple (\<lambda>_. True) (validStore L ports) ?save
      (\<lambda>_ y. \<exists>n. merchantHolds L (mp_namespace ports) (Some n) y \<and> merchantOk n \<and> md_claimsJson n = claimsText updated)
      (validStore L ports) (validStore L ports)"
    by (rule update_valid [OF assms(1,2)]) (auto simp: merchantOk_def)
  from syncIO_triple [OF this _ assms(3) _ q]
  have saved: "validStore L ports (contents (sw_device v))"
    "\<And>x. q = Inr x \<Longrightarrow> \<exists>n. merchantHolds L (mp_namespace ports) (Some n) (contents (sw_device v)) \<and> merchantOk n \<and> md_claimsJson n = claimsText updated"
    by (auto simp: validStore_def)
  have storable: "list_all storableClaim updated"
    unfolding list_all_iff
  proof
    fix c assume "c \<in> set updated"
    then obtain d where "d \<in> set claims" "sameEvidence d c" using assms(4) by blast
    with assms(5) show "storableClaim c" by (auto simp: list_all_iff storableClaim_def sameEvidence_def)
  qed
  have "st_credentialHash ` set (parseStoredClaims (claimsText updated)) \<subseteq> st_credentialHash ` set claims"
  proof
    fix h assume "h \<in> st_credentialHash ` set (parseStoredClaims (claimsText updated))"
    then obtain c' where c': "c' \<in> set (parseStoredClaims (claimsText updated))" "h = st_credentialHash c'" by blast
    obtain c where c: "c \<in> set updated" "sameEvidence c c'" using parsed_origin [OF c'(1) storable] by blast
    obtain d where "d \<in> set claims" "sameEvidence d c" using assms(4) [OF c(1)] by blast
    with c(2) c'(2) show "h \<in> st_credentialHash ` set claims" by (auto simp: sameEvidence_def)
  qed
  then have "storedWithin L ports (st_credentialHash ` set claims) (contents (sw_device v))" if "q = Inr x" for x
    using saved(2) [OF that] unfolding storedWithin_def by metis
  with saved(1) q assms(6) show ?thesis by (cases q) (auto simp: persistClaims_def setApp_def)
qed

text \<open>A port whose operations may run other handlers, as long as they leave a valid store.\<close>

definition portKeeps :: "('w SyncWorld \<Rightarrow> bool) \<Rightarrow> 'w SyncWorld ClaimSubmissionPort \<Rightarrow> bool" where
  "portKeeps I port \<longleftrightarrow> (\<forall>claim w. I w \<longrightarrow> I (snd (lookupConfirmedClaim port claim w))) \<and>
     (\<forall>claim w. I w \<longrightarrow> I (snd (submitClaim port claim w))) \<and> (\<forall>signature w. I w \<longrightarrow> I (snd (confirmClaim port signature w)))"

lemma eligible_within:
  assumes "hash_ok L" "installation L ports key secret" "portKeeps (\<lambda>w. validStore L ports (contents (sw_device w))) port"
    "list_all storableClaim claims"
    "syncEligible port (Some (persistClaims (merchantUpdate L ports))) claims cs p w = (Some (Inr q), w')"
    "validStore L ports (contents (sw_device w))" "set cs \<subseteq> set claims"
    "\<And>h u. map_of (sy_updates p) h = Some u \<Longrightarrow> \<exists>c \<in> set claims. st_credentialHash c = h \<and> sameProof c u"
    "cs = [] \<Longrightarrow> storedWithin L ports (st_credentialHash ` set claims) (contents (sw_device w))"
  shows "storedWithin L ports (st_credentialHash ` set claims) (contents (sw_device w'))"
  using assms(5-9)
proof (induction cs arbitrary: p w)
  case (Cons claim rest)
  let ?V = "\<lambda>w. validStore L ports (contents (sw_device w))"
  obtain r w1 where sync: "syncStoredClaim port claim w = (r, w1)" by force
  have w1: "?V w1"
    using syncStoredClaim_world [of ?V port w claim] assms(3) Cons.prems(2) sync unfolding portKeeps_def by (metis snd_conv)
  obtain updated where r: "r = Some (Inr updated)" using Cons.prems(1) sync by (auto split: option.splits sum.splits)
  define updates where "updates = AList.update (st_credentialHash claim) updated (sy_updates p)"
  have same: "sameProof claim updated" using syncStoredClaim_outcome [OF sync [unfolded r]] by blast
  have good: "\<exists>c \<in> set claims. st_credentialHash c = h \<and> sameProof c u" if "map_of updates h = Some u" for h u
    using that Cons.prems(3) Cons.prems(4) [of h u] same by (cases "h = st_credentialHash claim") (auto simp: updates_def update_conv')
  obtain s w2 where saved: "persistClaims (merchantUpdate L ports) (updatedClaims claims updates) w1 = (s, w2)" by force
  have ok: "isOk s" using Cons.prems(1) sync r saved by (cases s) (auto simp: Let_def updates_def)
  have origin: "\<exists>d \<in> set claims. sameEvidence d c" if "c \<in> set (updatedClaims claims updates)" for c
    by (rule updated_origin [OF that good])
  have w2: "?V w2" "storedWithin L ports (st_credentialHash ` set claims) (contents (sw_device w2))"
    using save_within [OF assms(1,2) w1 origin assms(4) saved] ok by blast+
  obtain p' where p': "syncEligible port (Some (persistClaims (merchantUpdate L ports))) claims rest p' w2 = (Some (Inr q), w')" "sy_updates p' = updates"
    using Cons.prems(1) sync r saved ok by (auto simp: Let_def isOk_iff simp flip: updates_def)
  show ?case by (rule Cons.IH [OF p'(1) w2(1)]) (use Cons.prems(3) p'(2) good w2(2) in auto)
qed simp

text \<open>
  C25: A synchronisation with an open claim that ends without an error
  leaves in the store only claims that were there when it began, whatever handlers ran while it
  waited for the network: the list it saves is the one it read at its start.
\<close>

theorem synchronisation_drops_new_claims:
  assumes "hash_ok L" "installation L ports key secret" "merchantHolds L (mp_namespace ports) (Some m0) (contents (sw_device w))" "merchantOk m0"
    and "eligibleClaims (parseStoredClaims (md_claimsJson m0)) \<noteq> []" "\<not> ma_syncing closure"
    and "\<And>k port. makePort k = Inr port \<Longrightarrow> portKeeps (\<lambda>v. validStore L ports (contents (sw_device v))) port"
    and "synchronizeClaims enabled (merchantLoad L ports) (merchantUpdate L ports) makePort closure w = (Some (), w')"
    and "sw_alive w'" "ma_error (sw_app w') = None"
  shows "\<exists>m. merchantHolds L (mp_namespace ports) (Some m) (contents (sw_device w')) \<and>
    st_credentialHash ` set (parseStoredClaims (md_claimsJson m)) \<subseteq> st_credentialHash ` set (parseStoredClaims (md_claimsJson m0))"
proof -
  let ?claims = "parseStoredClaims (md_claimsJson m0)" and ?load = "merchantLoad L ports" and ?update = "merchantUpdate L ports"
  let ?started = "setApp (\<lambda>app. app\<lparr>ma_syncing := True, ma_error := None, ma_syncSummary := None\<rparr>) w"
  obtain outcome v where ran: "runSync enabled ?load ?update makePort closure ?started = (outcome, v)" by force
  have ended: "sw_alive v" "(case outcome of None \<Rightarrow> False
      | Some (Inl reason) \<Rightarrow> w' = setApp (\<lambda>app. app\<lparr>ma_error := Some reason, ma_syncing := False\<rparr>) v
      | Some (Inr _) \<Rightarrow> w' = setApp (\<lambda>app. app\<lparr>ma_syncing := False\<rparr>) v)"
    using assms(6,8) by (auto simp: synchronizeClaims_def ran split: if_splits option.splits sum.splits)
  then obtain u where u: "outcome = Some (Inr u)" using assms(10) by (auto simp: setApp_def split: option.splits sum.splits)
  have run: "runSync enabled ?load ?update makePort closure ?started = (Some (Inr u), v)" "sw_device v = sw_device w'"
    using ran u ended by (simp_all add: setApp_def)
  obtain l w1 where l: "syncIO ?load ?started = (l, w1)" by force
  have "triple (\<lambda>_. True) (merchantHolds L (mp_namespace ports) (Some m0)) ?load
      (\<lambda>found y. found = Some m0 \<and> merchantHolds L (mp_namespace ports) (Some m0) y)
      (merchantHolds L (mp_namespace ports) (Some m0)) (merchantHolds L (mp_namespace ports) (Some m0))"
    unfolding merchantLoad_def by (rule triple_pre) (rule triple_rawLoad [OF assms(1) _ assms(4)])
  from syncIO_triple [OF this _ _ _ l] assms(3)
  have w1: "merchantHolds L (mp_namespace ports) (Some m0) (contents (sw_device w1))" "\<And>found. l = Inr found \<Longrightarrow> found = Some m0"
    by (auto simp: setApp_def)
  obtain deviceKey port q w2 where steps: "makePort deviceKey = Inr port" "syncClaimQueue port ?claims True (Some (persistClaims ?update)) w1 = (Some (Inr q), w2)"
    "sw_device v = sw_device w2"
    using run(1) l w1(2) by (auto simp: runSync_def setApp_def split: if_splits option.splits sum.splits prod.splits)
  obtain p where loop: "syncEligible port (Some (persistClaims ?update)) ?claims (eligibleClaims ?claims)
      \<lparr>sy_updates = [], sy_attempted = 0, sy_confirmed = 0, sy_failed = 0\<rparr> w1 = (Some (Inr p), w2)"
    using steps(2) by (auto simp: syncClaimQueue_def split: prod.splits sum.splits option.splits)
  have "storedWithin L ports (st_credentialHash ` set ?claims) (contents (sw_device w2))"
    by (rule eligible_within [OF assms(1,2) assms(7) [OF steps(1)] _ loop])
      (use w1(1) assms(4,5) parsed_storable in \<open>auto simp: list_all_iff validStore_def eligible_open\<close>)
  with run(2) steps(3) show ?thesis unfolding storedWithin_def by metis
qed

text \<open>On the sample: a proof is scanned while the node is asked for an older claim.\<close>

definition whileWaiting :: "string \<Rightarrow> unit SyncWorld \<Rightarrow> unit SyncWorld" where
  "whileWaiting raw w =
    (case scanCredential sampleLib shopRuntime (merchantUpdate sampleLib shopPorts) raw (sw_app w) (sw_device w) of
       (Done app, d) \<Rightarrow> w\<lparr>sw_app := app, sw_device := d\<rparr>
     | (Thrown _, d) \<Rightarrow> w\<lparr>sw_device := d\<rparr>
     | (Died, d) \<Rightarrow> w\<lparr>sw_device := d, sw_alive := False\<rparr>)"

definition busyPort :: "string \<Rightarrow> unit SyncWorld ClaimSubmissionPort" where
  "busyPort raw = \<lparr>lookupConfirmedClaim = (\<lambda>claim w. (Some (Inl (JsError ''timeout'')), whileWaiting raw w)),
     submitClaim = (\<lambda>claim w. (Some (Inl (JsError ''timeout'')), w)), confirmClaim = (\<lambda>signature w. (Some (Inl (JsError ''timeout'')), w))\<rparr>"

lemma scan_valid:
  assumes "hash_ok L" "installation L ports key secret"
  shows "triple F (validStore L ports) (scanCredential L runtime (merchantUpdate L ports) raw app) (\<lambda>_. validStore L ports) (\<lambda>_. False)
    (validStore L ports)"
  unfolding scanCredential_def Let_def
proof (rule triple_catch [where M = "validStore L ports"])
  let ?scanned = "app\<lparr>ma_receivedFrames := setAdd raw (ma_receivedFrames app)\<rparr>"
  show "triple F (validStore L ports) (returnIO (reportCredentialError e ?scanned)) (\<lambda>_. validStore L ports) (\<lambda>_. False) (validStore L ports)" for e
    by (rule triple_return) simp
  have stored: "triple F (validStore L ports) (bindIO (merchantUpdate L ports (storeAccepted c hash frames)) (\<lambda>n. returnIO (after n)))
      (\<lambda>_. validStore L ports) (validStore L ports) (validStore L ports)" for c hash frames and after :: "MerchantDurableSnapshot \<Rightarrow> MerchantApp"
  proof (rule triple_bind [where M = "\<lambda>_. validStore L ports"])
    show "triple F (validStore L ports) (merchantUpdate L ports (storeAccepted c hash frames)) (\<lambda>_. validStore L ports) (validStore L ports) (validStore L ports)"
      by (rule triple_weaken [OF update_valid [OF assms, where Q = "\<lambda>_. True"]])
        (auto simp: validStore_def storeAccepted_def bindE_Inr_iff Let_def merchantOk_def)
  qed (auto intro: triple_return)
  show "triple F (validStore L ports) (bindIO (liftIO (acceptCredential L runtime ?scanned)) (\<lambda>(credential, hash).
      bindIO (merchantUpdate L ports (storeAccepted credential hash (ma_receivedFrames ?scanned))) (\<lambda>committed. returnIO
        (case sendReceipt L merchantTransport \<lparr>tr_credentialHash = hash, tr_merchantChallenge = pc_merchantChallenge credential\<rparr> of
          Inl reason \<Rightarrow> reportCredentialError reason (?scanned\<lparr>ma_claims := parseStoredClaims (md_claimsJson committed), ma_verifiedCredential := Some credential\<rparr>)
        | Inr frames \<Rightarrow> ?scanned\<lparr>ma_claims := parseStoredClaims (md_claimsJson committed), ma_verifiedCredential := Some credential,
            ma_receiptFrames := frames, ma_screen := VerifiedScreen\<rparr>))))
    (\<lambda>_. validStore L ports) (validStore L ports) (validStore L ports)"
  proof (rule triple_bind [where M = "\<lambda>_. validStore L ports"])
    show "triple F (validStore L ports) (liftIO (acceptCredential L runtime ?scanned)) (\<lambda>_. validStore L ports) (validStore L ports) (validStore L ports)"
      by (rule triple_lift) auto
  qed (auto intro: stored)
qed

lemma busyPort_keeps: "portKeeps (\<lambda>v. validStore sampleLib shopPorts (contents (sw_device v))) (busyPort raw)"
proof -
  have "validStore sampleLib shopPorts (contents (sw_device (whileWaiting raw w)))"
    if "validStore sampleLib shopPorts (contents (sw_device w))" for w
  proof -
    obtain r d where r: "scanCredential sampleLib shopRuntime (merchantUpdate sampleLib shopPorts) raw (sw_app w) (sw_device w) = (r, d)" by force
    with scan_valid [OF sampleLib_hash shopPorts_installed, of "\<lambda>_. True" shopRuntime raw "sw_app w"] that
    have "validStore sampleLib shopPorts (contents d)" unfolding triple_def by (cases r) fastforce+
    with r show ?thesis by (cases r) (simp_all add: whileWaiting_def)
  qed
  then show ?thesis by (simp add: portKeeps_def busyPort_def)
qed

lemma olderClaim:
  assumes "isHex 32 h"
  obtains c where "parseStoredClaims (claimsText [sampleClaim\<lparr>st_credentialHash := h\<rparr>]) = [c]" "st_credentialHash c = h"
    "eligibleClaims [c] = [c]" "st_status c = LifecyclePending"
proof -
  let ?app = "initialMerchantApp\<lparr>ma_challenge := Some (challengeFor sampleRequest), ma_merchantDeviceKey := Some (replicate 32 10),
    ma_receivedFrames := st_frames sampleClaim\<rparr>"
  have "acceptCredential sampleLib shopRuntime ?app = Inr (samplePayment, cm_credentialHash sampleMaterial)"
    by (rule samplePayment_accepted) simp_all
  from accepted_claim(1) [OF sampleLib_borsh sampleLib_hash this, of "challengeFor sampleRequest" "replicate 32 10"]
  have "storableClaim (createStoredClaim (bytesToHex (cm_credentialHash sampleMaterial)) (decimal (pc_amount samplePayment))
      (bytesToHex (pc_sessionId samplePayment)) (st_frames sampleClaim))"
    by (simp add: shopRuntime_def challengeFor_def sampleRequest_def)
  moreover have "pc_amount samplePayment = 40"
    using created_fields [OF samplePayment_created] by (simp add: sampleRequest_def)
  ultimately have "storableClaim (sampleClaim\<lparr>st_credentialHash := h\<rparr>)"
    using assms by (simp add: storableClaim_def sampleClaim_def createStoredClaim_def samplePayment_fields)
  then obtain c where c: "normalizeClaim (claimJson (sampleClaim\<lparr>st_credentialHash := h\<rparr>)) = Some c"
    "sameEvidence (sampleClaim\<lparr>st_credentialHash := h\<rparr>) c" using normalize_claimJson by blast
  have status: "statusOf (propertyOf (claimJson (sampleClaim\<lparr>st_credentialHash := h\<rparr>)) ''status'') = Some LifecyclePending"
    by (simp add: claimJson_def propertyOf_def statusOf_text sampleClaim_def createStoredClaim_def)
  then have "st_status c = LifecyclePending"
    using c(1) by (auto simp: normalizeClaim_def bind_eq_Some_conv split: if_splits)
  with c show thesis
    by (intro that [of c]) (simp_all add: parse_claimsText map_filter_def sameEvidence_def eligibleClaims_def)
qed

text \<open>A synchronisation of one pending claim whose lookup is not answered.\<close>

lemma unanswered_sync:
  assumes "syncIO load (setApp (\<lambda>app. app\<lparr>ma_syncing := True, ma_error := None, ma_syncSummary := None\<rparr>) w) = (Inr (Some m0), w1)"
    "parseStoredClaims (md_claimsJson m0) = [c]" "eligibleClaims [c] = [c]" "st_status c = LifecyclePending" "makePort key = Inr port"
    "lookupConfirmedClaim port c w1 = (Some (Inl e), w2)" "persistClaims update [failedAttempt c e] w2 = (Inr (), w3)" "sw_alive w3"
    "ma_merchantDeviceKey closure = Some key" "\<not> ma_syncing closure"
  obtains app where "synchronizeClaims True load update makePort closure w = (Some (), w3\<lparr>sw_app := app\<rparr>)"
    "ma_verifiedCredential app = ma_verifiedCredential (sw_app w3)" "ma_screen app = ma_screen (sw_app w3)" "ma_error app = ma_error (sw_app w3)"
proof -
  let ?result = "\<lparr>qs_claims = [failedAttempt c e], qs_attempted = 1, qs_confirmed = 0, qs_failed = 1\<rparr>"
  have "syncStoredClaim port c w1 = (Some (Inr (failedAttempt c e)), w2)" by (simp add: syncStoredClaim_def assms(4,6))
  moreover have "updatedClaims [c] [(st_credentialHash c, failedAttempt c e)] = [failedAttempt c e]" by (simp add: updatedClaims_def)
  moreover have "st_lastSubmissionError (failedAttempt c e) \<noteq> None" by (simp add: failedAttempt_def)
  ultimately have queue: "syncClaimQueue port [c] True (Some (persistClaims update)) w1 = (Some (Inr ?result), w3)"
    by (simp add: syncClaimQueue_def assms(3,7) Let_def)
  let ?app = "(sw_app w3)\<lparr>ma_claims := qs_claims ?result, ma_syncSummary := Some (summaryText ?result), ma_syncing := False\<rparr>"
  have "synchronizeClaims True load update makePort closure w = (Some (), w3\<lparr>sw_app := ?app\<rparr>)"
    by (simp add: synchronizeClaims_def runSync_def assms(1,2,5,9,10) queue) (simp add: setApp_def assms(8))
  then show thesis by (rule that) simp_all
qed

theorem synchronisation_drops_new_claims_witness:
  "\<exists>makePort closure (w :: unit SyncWorld) w' hash m. synchronizeClaims True (merchantLoad sampleLib shopPorts) (merchantUpdate sampleLib shopPorts) makePort closure w = (Some (), w') \<and>
    sw_alive w' \<and> ma_error (sw_app w') = None \<and> confirmed (sw_app w') = {samplePayment} \<and> credentialHash sampleLib samplePayment = Inr hash \<and>
    merchantHolds sampleLib (mp_namespace shopPorts) (Some m) (contents (sw_device w')) \<and>
    bytesToHex hash \<notin> st_credentialHash ` set (parseStoredClaims (md_claimsJson m))"
proof -
  let ?hash = "cm_credentialHash sampleMaterial" and ?ns = "mp_namespace shopPorts"
  obtain b :: byte where other: "replicate 32 b \<noteq> ?hash"
    by (metis length_replicate nth_replicate zero_less_numeral zero_neq_one)
  let ?h = "bytesToHex (replicate 32 b)"
  have "isHex 32 ?h" by (simp add: isHex_bytesToHex del: bytesToHex_simps)
  then obtain c where c: "parseStoredClaims (claimsText [sampleClaim\<lparr>st_credentialHash := ?h\<rparr>]) = [c]" "st_credentialHash c = ?h"
    "eligibleClaims [c] = [c]" "st_status c = LifecyclePending" by (rule olderClaim)
  let ?m0 = "asking [sampleClaim\<lparr>st_credentialHash := ?h\<rparr>]"
  have m0: "parseStoredClaims (md_claimsJson ?m0) = [c]" by (simp add: asking_def c(1))
  obtain d where d: "merchantHolds sampleLib ?ns (Some ?m0) (contents d)" "works d" by (rule merchantInstalled)
  obtain d1 where d1: "merchantLoad sampleLib shopPorts d = (Done (Some ?m0), d1)" "works d1" "merchantHolds sampleLib ?ns (Some ?m0) (contents d1)"
    by (rule merchantLoad_works [OF sampleLib_hash d(1) asking_ok d(2)])
  obtain raw where raw: "raw \<in> set (st_frames sampleClaim)"
    using sampleClaim_received by (cases "st_frames sampleClaim") (auto simp: receiveCredential_def assemble_def)
  let ?app = "initialMerchantApp\<lparr>ma_screen := ScanCredential, ma_challenge := Some (challengeFor sampleRequest),
    ma_merchantDeviceKey := Some (replicate 32 10), ma_receivedFrames := st_frames sampleClaim\<rparr>"
  let ?w = "\<lparr>sw_device = d, sw_app = ?app, sw_alive = True, sw_rest = ()\<rparr>"
  let ?started = "?app\<lparr>ma_syncing := True, ma_error := None, ma_syncSummary := None\<rparr>"
  let ?w1 = "\<lparr>sw_device = d1, sw_app = ?started, sw_alive = True, sw_rest = ()\<rparr>"
  have load: "syncIO (merchantLoad sampleLib shopPorts) (setApp (\<lambda>app. app\<lparr>ma_syncing := True, ma_error := None, ma_syncSummary := None\<rparr>) ?w) =
      (Inr (Some ?m0), ?w1)"
    by (simp add: syncIO_def setApp_def d1(1))
  have accepted: "acceptCredential sampleLib shopRuntime (?started\<lparr>ma_receivedFrames := setAdd raw (ma_receivedFrames ?started)\<rparr>) =
      Inr (samplePayment, ?hash)"
    by (rule samplePayment_accepted) (use raw in \<open>simp_all add: setAdd_def\<close>)
  have asked: "md_outstandingChallengeJson ?m0 \<noteq> None" by (simp add: asking_def)
  obtain n d2 frames where scan: "scanCredential sampleLib shopRuntime (merchantUpdate sampleLib shopPorts) raw ?started d1 =
      (Done (?started\<lparr>ma_receivedFrames := setAdd raw (ma_receivedFrames ?started), ma_claims := parseStoredClaims (md_claimsJson n),
        ma_verifiedCredential := Some samplePayment, ma_receiptFrames := frames, ma_screen := VerifiedScreen\<rparr>), d2)"
    "works d2" "merchantHolds sampleLib ?ns (Some n) (contents d2)" "merchantOk n" "credentialHash sampleLib samplePayment = Inr ?hash"
    by (rule scan_works [OF sampleLib_borsh sampleLib_hash shopPorts_installed d1(3) asking_ok asked d1(2) shopPorts_fresh accepted]) (rule that)
  let ?confirmed = "?started\<lparr>ma_receivedFrames := setAdd raw (ma_receivedFrames ?started), ma_claims := parseStoredClaims (md_claimsJson n),
        ma_verifiedCredential := Some samplePayment, ma_receiptFrames := frames, ma_screen := VerifiedScreen\<rparr>"
  let ?w2 = "?w1\<lparr>sw_app := ?confirmed, sw_device := d2\<rparr>" and ?failed = "failedAttempt c (JsError ''timeout'')"
  have lookup: "lookupConfirmedClaim (busyPort raw) c ?w1 = (Some (Inl (JsError ''timeout'')), ?w2)"
    by (simp add: busyPort_def whileWaiting_def scan(1))
  let ?saved = "n\<lparr>md_claimsJson := claimsText [?failed]\<rparr>"
  obtain d3 where d3: "merchantUpdate sampleLib shopPorts (\<lambda>stored. Inr (stored\<lparr>md_claimsJson := claimsText [?failed]\<rparr>)) d2 = (Done ?saved, d3)"
    "merchantHolds sampleLib ?ns (Some ?saved) (contents d3)"
    by (rule merchantUpdate_works [where mutate = "\<lambda>stored. Inr (stored\<lparr>md_claimsJson := claimsText [?failed]\<rparr>)" and n = ?saved,
          OF sampleLib_hash shopPorts_installed scan(3,4,2) shopPorts_fresh refl])
      (use scan(4) in \<open>simp_all add: merchantOk_def\<close>)
  let ?w3 = "?w2\<lparr>sw_device := d3, sw_app := ?confirmed\<lparr>ma_claims := [?failed]\<rparr>\<rparr>"
  have saved: "persistClaims (merchantUpdate sampleLib shopPorts) [?failed] ?w2 = (Inr (), ?w3)"
    by (simp add: persistClaims_def syncIO_def d3(1) setApp_def)
  let ?port = "\<lambda>key :: bytes. (Inr (busyPort raw) :: unit SyncWorld ClaimSubmissionPort result)"
  let ?closure = "initialMerchantApp\<lparr>ma_merchantDeviceKey := Some (replicate 32 10)\<rparr>"
  have closure: "ma_merchantDeviceKey ?closure = Some (replicate 32 10)" "\<not> ma_syncing ?closure" by (simp_all add: initialMerchantApp_def)
  have alive: "sw_alive ?w3" by simp
  obtain app where sync: "synchronizeClaims True (merchantLoad sampleLib shopPorts) (merchantUpdate sampleLib shopPorts) ?port ?closure ?w =
      (Some (), ?w3\<lparr>sw_app := app\<rparr>)"
    "ma_verifiedCredential app = ma_verifiedCredential (sw_app ?w3)" "ma_screen app = ma_screen (sw_app ?w3)" "ma_error app = ma_error (sw_app ?w3)"
    by (rule unanswered_sync [OF load m0 c(3,4) refl lookup saved alive closure])
  let ?w' = "?w3\<lparr>sw_app := app\<rparr>"
  have shown: "sw_alive ?w'" "ma_error (sw_app ?w') = None" "confirmed (sw_app ?w') = {samplePayment}"
    using sync(2-4) by (simp_all add: confirmed_def)
  have "portKeeps (\<lambda>v. validStore sampleLib shopPorts (contents (sw_device v))) port" if "?port k = Inr port" for k port
    using that busyPort_keeps by auto
  moreover have "merchantHolds sampleLib ?ns (Some ?m0) (contents (sw_device ?w))" by (simp add: d(1))
  moreover have "eligibleClaims (parseStoredClaims (md_claimsJson ?m0)) \<noteq> []" by (simp add: m0 c(3))
  ultimately obtain m where m: "merchantHolds sampleLib ?ns (Some m) (contents (sw_device ?w'))"
    "st_credentialHash ` set (parseStoredClaims (md_claimsJson m)) \<subseteq> st_credentialHash ` set (parseStoredClaims (md_claimsJson ?m0))"
    using synchronisation_drops_new_claims [OF sampleLib_hash shopPorts_installed _ asking_ok _ closure(2) _ sync(1) shown(1,2)] by blast
  have "bytesToHex ?hash \<noteq> ?h" using other by (metis hexPairs_bytesToHex)
  with m(2) have "bytesToHex ?hash \<notin> st_credentialHash ` set (parseStoredClaims (md_claimsJson m))" unfolding m0 using c(2) by auto
  with sync(1) shown scan(5) m(1) show ?thesis by blast
qed

end
