(* ===== verification/RelayerServer.thy ===== *)
theory RelayerServer
  imports ClaimRelayer JsonText
begin

text \<open>
  \<open>apps/claim-relayer/src/server.ts\<close>: the HTTP server in front of the relayer. A request passes the
  route, its media type, the rate limit of its client and the limit of concurrent handlers, in this
  order and without waiting; then its handler reads the body, submits it, and answers once, with the
  result, with the error, or with the timeout, and gives its slot back. The steps of the handlers
  interleave: \<open>serverStep\<close> is the relation of the whole server with the relayer behind it.

  A reply is its status with what identifies it; the texts of the messages are left out. The body is
  read as UTF-8 within the characters below 256; others, which no field of a claim admits, count as
  text that does not parse. Node passes a \<open>content-length\<close> of digits only.
\<close>

section \<open>Limits\<close>

definition MAX_BODY_BYTES :: nat where "MAX_BODY_BYTES = 8192"

definition DEFAULT_SUBMISSION_TIMEOUT_MS :: int where "DEFAULT_SUBMISSION_TIMEOUT_MS = 45000"

definition DEFAULT_MAX_CONCURRENT :: int where "DEFAULT_MAX_CONCURRENT = 8"

definition DEFAULT_RATE_LIMIT_PER_MINUTE :: int where "DEFAULT_RATE_LIMIT_PER_MINUTE = 30"

record RelayerServerOptions =
  so_submissionTimeoutMs :: "int option"
  so_maxConcurrent :: "int option"
  so_rateLimitPerMinute :: "int option"

record ServerLimits =
  sl_submissionTimeoutMs :: int
  sl_maxConcurrent :: int
  sl_rateLimitPerMinute :: int

definition orDefault :: "'a option \<Rightarrow> 'a \<Rightarrow> 'a" where
  "orDefault value default_value = (case value of None \<Rightarrow> default_value | Some x \<Rightarrow> x)"

definition serverLimits :: "RelayerServerOptions \<Rightarrow> ServerLimits result" where
  "serverLimits options =
    (let limits = \<lparr>sl_submissionTimeoutMs = orDefault (so_submissionTimeoutMs options) DEFAULT_SUBMISSION_TIMEOUT_MS,
           sl_maxConcurrent = orDefault (so_maxConcurrent options) DEFAULT_MAX_CONCURRENT,
           sl_rateLimitPerMinute = orDefault (so_rateLimitPerMinute options) DEFAULT_RATE_LIMIT_PER_MINUTE\<rparr>
     in bindE (failIf (sl_submissionTimeoutMs limits \<le> 0 \<or> sl_maxConcurrent limits \<le> 0 \<or> sl_rateLimitPerMinute limits \<le> 0)
          ''relayer server limits must be positive'') (\<lambda>_. Inr limits))"

section \<open>Requests\<close>

record ServerRequest =
  sr_method :: string
  sr_url :: string
  sr_contentType :: "string option"
  sr_contentLength :: "string option"
  sr_remoteAddress :: "string option"
  sr_chunks :: "bytes list"

datatype ServerReply = Health | Failure nat string | Accepted string

definition lowerChar :: "char \<Rightarrow> char" where
  "lowerChar c = (if c \<in> set ''ABCDEFGHIJKLMNOPQRSTUVWXYZ'' then char_of (of_char c + 32 :: nat) else c)"

definition jsonContent :: "string option \<Rightarrow> bool" where
  "jsonContent contentType =
    (case contentType of
       None \<Rightarrow> False
     | Some text \<Rightarrow> map lowerChar (trim (takeWhile (\<lambda>c. c \<noteq> CHR '';'') text)) = ''application/json'')"

definition declaredLength :: "string option \<Rightarrow> nat option" where
  "declaredLength contentLength =
    (case contentLength of
       None \<Rightarrow> Some 0
     | Some text \<Rightarrow>
         if trim text = [] then Some 0
         else if list_all (\<lambda>c. c \<in> set digitChars) (trim text) then Some (numberOf (trim text)) else None)"

fun readChunks :: "nat \<Rightarrow> bytes \<Rightarrow> bytes list \<Rightarrow> bytes relay" where
  "readChunks received chunks [] = Inr chunks"
| "readChunks received chunks (bs # rest) =
    (if received + length bs > MAX_BODY_BYTES then Inl (RelayerError ''PAYLOAD_TOO_LARGE'' 413)
     else readChunks (received + length bs) (chunks @ bs) rest)"

fun utf8Text :: "bytes \<Rightarrow> string option" where
  "utf8Text [] = Some []"
| "utf8Text (b # bs) =
    (if b < 128 then map_option (Cons (char_of (unat b))) (utf8Text bs)
     else
       (case bs of
          [] \<Rightarrow> None
        | c # cs \<Rightarrow>
            if (b = 194 \<or> b = 195) \<and> 128 \<le> c \<and> c < 192
            then map_option (Cons (char_of ((unat b - 192) * 64 + (unat c - 128)))) (utf8Text cs)
            else None))"

definition readJson :: "ServerRequest \<Rightarrow> json relay" where
  "readJson request =
    bindE (case declaredLength (sr_contentLength request) of
        None \<Rightarrow> Inl (RelayerError ''PAYLOAD_TOO_LARGE'' 413)
      | Some declared \<Rightarrow> relayIf (declared > MAX_BODY_BYTES) ''PAYLOAD_TOO_LARGE'' 413) (\<lambda>_.
    bindE (readChunks 0 [] (sr_chunks request)) (\<lambda>body.
    (case Option.bind (utf8Text body) JSON_parse of
       None \<Rightarrow> Inl (RelayerError ''INVALID_JSON'' 400)
     | Some value \<Rightarrow> Inr value)))"

section \<open>Admission\<close>

record RateWindow =
  rw_count :: int
  rw_windowStartedAt :: int

record ServerState =
  ss_concurrent :: int
  ss_clients :: "(string \<times> RateWindow) list"

definition initialServer :: ServerState where
  "initialServer = \<lparr>ss_concurrent = 0, ss_clients = []\<rparr>"

definition rateAt :: "int \<Rightarrow> RateWindow option \<Rightarrow> RateWindow" where
  "rateAt now observed =
    (case observed of
       None \<Rightarrow> \<lparr>rw_count = 1, rw_windowStartedAt = now\<rparr>
     | Some w \<Rightarrow>
         if now - rw_windowStartedAt w \<ge> 60000 then \<lparr>rw_count = 1, rw_windowStartedAt = now\<rparr>
         else \<lparr>rw_count = rw_count w + 1, rw_windowStartedAt = rw_windowStartedAt w\<rparr>)"

definition clientOf :: "ServerRequest \<Rightarrow> string" where
  "clientOf request = orDefault (sr_remoteAddress request) ''unknown''"

text \<open>\<open>None\<close> where the handler goes on to read the body.\<close>

definition admit :: "ServerLimits \<Rightarrow> int \<Rightarrow> ServerRequest \<Rightarrow> ServerState \<Rightarrow> ServerReply option \<times> ServerState" where
  "admit limits now request st =
    (if sr_method request = ''GET'' \<and> sr_url request = ''/healthz'' then (Some Health, st)
     else if sr_method request \<noteq> ''POST'' \<or> sr_url request \<noteq> ''/v1/claims'' then (Some (Failure 404 ''NOT_FOUND''), st)
     else if \<not> jsonContent (sr_contentType request) then (Some (Failure 415 ''UNSUPPORTED_MEDIA_TYPE''), st)
     else
       let rate = rateAt now (map_of (ss_clients st) (clientOf request));
           counted = st\<lparr>ss_clients := AList.update (clientOf request) rate (ss_clients st)\<rparr>
       in
       if rw_count rate > sl_rateLimitPerMinute limits then (Some (Failure 429 ''RATE_LIMITED''), counted)
       else if ss_concurrent st \<ge> sl_maxConcurrent limits then (Some (Failure 503 ''RELAYER_BUSY''), counted)
       else (None, counted\<lparr>ss_concurrent := ss_concurrent st + 1\<rparr>))"

section \<open>Answers\<close>

definition errorReply :: "relayer_error \<Rightarrow> ServerReply" where
  "errorReply reason = (case reason of RelayerError code status \<Rightarrow> Failure status code | OtherError _ \<Rightarrow> Failure 500 ''INTERNAL_ERROR'')"

definition submissionReply :: "string relay \<Rightarrow> ServerReply" where
  "submissionReply outcome = (case outcome of Inl reason \<Rightarrow> errorReply reason | Inr signature \<Rightarrow> Accepted signature)"

definition timeoutReply :: ServerReply where
  "timeoutReply = errorReply (RelayerError ''SUBMISSION_TIMEOUT'' 504)"

text \<open>The \<open>finally\<close> of a handler\<close>

definition release :: "ServerState \<Rightarrow> ServerState" where
  "release st = st\<lparr>ss_concurrent := ss_concurrent st - 1\<rparr>"

section \<open>The server at work\<close>

text \<open>
  A handler waits for its body or for a submission, with the time its timer fires. Requests are
  numbered as they arrive, operations as the relayer numbers them; an outcome is kept with the operation
  that ended and the chain it ran against, and an operation without an outcome is still running.
\<close>

datatype Handler = ReadingBody | AwaitingSubmission nat int

record RelayerWorld =
  wd_now :: int
  wd_server :: ServerState
  wd_relayer :: RelayerState
  wd_requests :: "ServerRequest list"
  wd_handlers :: "(nat \<times> Handler) list"
  wd_replies :: "(nat \<times> ServerReply) list"
  wd_outcomes :: "(nat \<times> Connection \<times> string relay) list"

definition startedWorld :: "int \<Rightarrow> RelayerWorld" where
  "startedWorld now = \<lparr>wd_now = now, wd_server = initialServer, wd_relayer = \<lparr>rs_inflight = [], rs_operations = []\<rparr>,
     wd_requests = [], wd_handlers = [], wd_replies = [], wd_outcomes = []\<rparr>"

definition running :: "RelayerWorld \<Rightarrow> nat set" where
  "running w = {..<length (rs_operations (wd_relayer w))} - fst ` set (wd_outcomes w)"

text \<open>A request arrives: it is answered at once, or its handler starts.\<close>

definition arrive :: "ServerLimits \<Rightarrow> ServerRequest \<Rightarrow> RelayerWorld \<Rightarrow> RelayerWorld" where
  "arrive limits request w =
    (case admit limits (wd_now w) request (wd_server w) of
       (Some reply, server) \<Rightarrow> w\<lparr>wd_server := server, wd_requests := wd_requests w @ [request],
         wd_replies := wd_replies w @ [(length (wd_requests w), reply)]\<rparr>
     | (None, server) \<Rightarrow> w\<lparr>wd_server := server, wd_requests := wd_requests w @ [request],
         wd_handlers := wd_handlers w @ [(length (wd_requests w), ReadingBody)]\<rparr>)"

definition answer :: "nat \<Rightarrow> ServerReply \<Rightarrow> RelayerWorld \<Rightarrow> RelayerWorld" where
  "answer i reply w = w\<lparr>wd_server := release (wd_server w), wd_handlers := filter (\<lambda>(j, _). j \<noteq> i) (wd_handlers w),
     wd_replies := wd_replies w @ [(i, reply)]\<rparr>"

text \<open>The body has been read: it is submitted, and the timer is set.\<close>

definition submitBody :: "web3 \<Rightarrow> ServerLimits \<Rightarrow> nat \<Rightarrow> RelayerWorld \<Rightarrow> RelayerWorld" where
  "submitBody W limits i w =
    (case bindE (readJson (wd_requests w ! i)) (\<lambda>input. submit W input (wd_relayer w)) of
       Inl reason \<Rightarrow> answer i (errorReply reason) w
     | Inr (relayer, operation) \<Rightarrow>
         w\<lparr>wd_relayer := relayer,
           wd_handlers := map (\<lambda>(j, h). if j = i then (j, AwaitingSubmission operation (wd_now w + sl_submissionTimeoutMs limits)) else (j, h))
             (wd_handlers w)\<rparr>)"

text \<open>
  The steps: time passes, a request arrives, a body ends or its connection breaks, an operation ends
  with what the chain answers, a handler hears of it, a timer fires.
\<close>

inductive serverStep :: "lib \<Rightarrow> web3 \<Rightarrow> ClaimRelayerConfig \<Rightarrow> ServerLimits \<Rightarrow> RelayerWorld \<Rightarrow> RelayerWorld \<Rightarrow> bool"
  for L W config limits where
  tick: "wd_now w \<le> now \<Longrightarrow> serverStep L W config limits w (w\<lparr>wd_now := now\<rparr>)"
| arrives: "serverStep L W config limits w (arrive limits request w)"
| read: "(i, ReadingBody) \<in> set (wd_handlers w) \<Longrightarrow> serverStep L W config limits w (submitBody W limits i w)"
| broken: "(i, ReadingBody) \<in> set (wd_handlers w) \<Longrightarrow>
    serverStep L W config limits w (answer i (errorReply (OtherError (JsError ''aborted''))) w)"
| settled: "operation \<in> running w \<Longrightarrow> outcome = submitPlanned L W config connection (rs_operations (wd_relayer w) ! operation) \<Longrightarrow>
    serverStep L W config limits w
      (w\<lparr>wd_relayer := finish operation (wd_relayer w), wd_outcomes := wd_outcomes w @ [(operation, connection, outcome)]\<rparr>)"
| answered: "(i, AwaitingSubmission operation deadline) \<in> set (wd_handlers w) \<Longrightarrow> (operation, connection, outcome) \<in> set (wd_outcomes w) \<Longrightarrow>
    serverStep L W config limits w (answer i (submissionReply outcome) w)"
| timeout: "(i, AwaitingSubmission operation deadline) \<in> set (wd_handlers w) \<Longrightarrow> operation \<in> running w \<Longrightarrow> deadline \<le> wd_now w \<Longrightarrow>
    serverStep L W config limits w (answer i timeoutReply w)"

inductive served :: "lib \<Rightarrow> web3 \<Rightarrow> ClaimRelayerConfig \<Rightarrow> ServerLimits \<Rightarrow> RelayerWorld \<Rightarrow> bool" for L W config limits where
  started: "served L W config limits (startedWorld now)"
| stepped: "served L W config limits w \<Longrightarrow> serverStep L W config limits w w' \<Longrightarrow> served L W config limits w'"

inductive_cases served_cases: "served L W config limits w"

end
