(* ===== verification/RelayerServerTheorems.thy ===== *)
theory RelayerServerTheorems
  imports RelayerServer RelayerTheorems
begin

text \<open>
  The relayer's server: every request is answered once and the slots are counted, a client gets
  through twice its limit in any minute at most, an accepted answer is about the claim that was
  sent; and a submission that outlives its timer is no longer counted.
\<close>

section \<open>The invariant of the server\<close>

text \<open>The operation carries the claim of this request.\<close>

definition submittedBy :: "web3 \<Rightarrow> RelayerWorld \<Rightarrow> nat \<Rightarrow> nat \<Rightarrow> bool" where
  "submittedBy W w i operation \<longleftrightarrow> i < length (wd_requests w) \<and> operation < length (rs_operations (wd_relayer w)) \<and>
     (\<exists>input rq. readJson (wd_requests w ! i) = Inr input \<and> strictRequest W input = Inr rq \<and>
       rr_credentialHash rq = rr_credentialHash (rs_operations (wd_relayer w) ! operation))"

definition handlersInv :: "ServerLimits \<Rightarrow> RelayerWorld \<Rightarrow> bool" where
  "handlersInv limits w \<longleftrightarrow> distinct (map fst (wd_handlers w)) \<and> distinct (map fst (wd_replies w)) \<and>
     fst ` set (wd_handlers w) = {..<length (wd_requests w)} - fst ` set (wd_replies w) \<and>
     fst ` set (wd_replies w) \<subseteq> {..<length (wd_requests w)} \<and>
     ss_concurrent (wd_server w) = int (length (wd_handlers w)) \<and> ss_concurrent (wd_server w) \<le> sl_maxConcurrent limits"

definition operationsInv :: "lib \<Rightarrow> web3 \<Rightarrow> ClaimRelayerConfig \<Rightarrow> RelayerWorld \<Rightarrow> bool" where
  "operationsInv L W config w \<longleftrightarrow> relayed W (wd_relayer w) (running w) \<and>
     (\<forall>operation connection outcome. (operation, connection, outcome) \<in> set (wd_outcomes w) \<longrightarrow>
       operation < length (rs_operations (wd_relayer w)) \<and>
       outcome = submitPlanned L W config connection (rs_operations (wd_relayer w) ! operation)) \<and>
     (\<forall>i operation deadline. (i, AwaitingSubmission operation deadline) \<in> set (wd_handlers w) \<longrightarrow> submittedBy W w i operation) \<and>
     (\<forall>i signature. (i, Accepted signature) \<in> set (wd_replies w) \<longrightarrow>
       (\<exists>operation connection. submittedBy W w i operation \<and> (operation, connection, Inr signature) \<in> set (wd_outcomes w)))"

lemma length_removed:
  assumes "distinct (map fst hs)" "(i, h) \<in> set hs"
  shows "Suc (length (filter (\<lambda>(j, _). j \<noteq> i) hs)) = length hs"
  using assms
proof (induction hs)
  case (Cons a hs)
  show ?case
  proof (cases "fst a = i")
    case True
    with Cons.prems(1) have "i \<notin> fst ` set hs" by auto
    then have "\<forall>x \<in> set hs. fst x \<noteq> i" by force
    then have "filter (\<lambda>(j, _). j \<noteq> i) hs = hs" by (auto simp: filter_id_conv)
    with True show ?thesis by (cases a) simp
  next
    case False
    with Cons show ?thesis by (cases a) auto
  qed
qed simp

lemma answer_handlers:
  assumes "handlersInv limits w" "(i, h) \<in> set (wd_handlers w)"
  shows "handlersInv limits (answer i reply w)"
proof -
  have removed: "fst ` set (filter (\<lambda>(j, _). j \<noteq> i) (wd_handlers w)) = fst ` set (wd_handlers w) - {i}" by force
  have "i \<in> fst ` set (wd_handlers w)" using assms(2) by force
  moreover have "distinct (map fst (filter (\<lambda>(j, _). j \<noteq> i) (wd_handlers w)))"
    using assms(1) by (simp add: handlersInv_def distinct_map_filter)
  ultimately show ?thesis
    using assms(1) length_removed [OF _ assms(2)] removed
    unfolding handlersInv_def answer_def release_def by (auto simp: of_nat_diff)
qed

lemma arrive_handlers:
  assumes "handlersInv limits w"
  shows "handlersInv limits (arrive limits request w)"
proof -
  obtain r server where r: "admit limits (wd_now w) request (wd_server w) = (r, server)" by force
  have "ss_concurrent server = ss_concurrent (wd_server w) + (if r = None then 1 else 0)"
    "r = None \<Longrightarrow> ss_concurrent (wd_server w) < sl_maxConcurrent limits"
    using r by (auto simp: admit_def Let_def split: if_splits)
  with r assms show ?thesis
    by (cases r) (auto simp: arrive_def handlersInv_def)
qed

text \<open>Handlers that only change what they wait for.\<close>

lemma handlers_same:
  assumes "handlersInv limits w" "map fst (wd_handlers w') = map fst (wd_handlers w)" "wd_replies w' = wd_replies w"
    "wd_requests w' = wd_requests w" "wd_server w' = wd_server w"
  shows "handlersInv limits w'"
proof -
  have "fst ` set (wd_handlers w') = fst ` set (wd_handlers w)" "length (wd_handlers w') = length (wd_handlers w)"
    using assms(2) by (metis list.set_map, metis length_map)
  then show ?thesis using assms by (simp add: handlersInv_def)
qed

lemma step_handlers:
  assumes "serverStep L W config limits w w'" "handlersInv limits w"
  shows "handlersInv limits w'"
  using assms(1)
proof cases
  case (arrives request)
  then show ?thesis using arrive_handlers [OF assms(2)] by simp
next
  case (read i)
  show ?thesis
  proof (cases "bindE (readJson (wd_requests w ! i)) (\<lambda>input. submit W input (wd_relayer w))")
    case (Inl e)
    with read answer_handlers [OF assms(2) read(2)] show ?thesis by (simp add: submitBody_def)
  next
    case (Inr p)
    then have "map fst (wd_handlers w') = map fst (wd_handlers w)" "wd_replies w' = wd_replies w" "wd_requests w' = wd_requests w"
      "wd_server w' = wd_server w"
      using read(1) by (auto simp: submitBody_def split: prod.split)
    then show ?thesis by (rule handlers_same [OF assms(2)])
  qed
next
  case (broken i)
  then show ?thesis using answer_handlers [OF assms(2)] by simp
next
  case (answered i operation deadline connection outcome)
  then show ?thesis using answer_handlers [OF assms(2)] by simp
next
  case (timeout i operation deadline)
  then show ?thesis using answer_handlers [OF assms(2)] by simp
qed (simp_all add: handlers_same [OF assms(2)])

lemma served_handlers: "served L W config limits w \<Longrightarrow> 0 \<le> sl_maxConcurrent limits \<Longrightarrow> handlersInv limits w"
proof (induction rule: served.induct)
  case (started now)
  then show ?case by (simp add: handlersInv_def startedWorld_def initialServer_def)
qed (use step_handlers in blast)

text \<open>
  C8: In every state the server can reach, each request that has arrived either has
  its one reply or an open handler, never both; the slots in use are the open handlers, at most the
  configured number; every handler that ends gives its slot back.
\<close>

theorem server_answers_once:
  assumes "serverLimits options = Inr limits" "served L W config limits w"
  shows "distinct (map fst (wd_replies w)) \<and> distinct (map fst (wd_handlers w)) \<and>
    fst ` set (wd_handlers w) = {..<length (wd_requests w)} - fst ` set (wd_replies w) \<and>
    fst ` set (wd_replies w) \<subseteq> {..<length (wd_requests w)} \<and>
    ss_concurrent (wd_server w) = int (length (wd_handlers w)) \<and> ss_concurrent (wd_server w) \<le> sl_maxConcurrent limits"
proof -
  have "0 \<le> sl_maxConcurrent limits" using assms(1) by (auto simp: serverLimits_def Let_def bindE_Inr_iff)
  from served_handlers [OF assms(2) this] show ?thesis by (simp add: handlersInv_def)
qed

section \<open>Operations\<close>

lemma submittedBy_mono:
  assumes "submittedBy W w i operation" "wd_requests w' = wd_requests w @ requests" "rs_operations (wd_relayer w') = rs_operations (wd_relayer w) @ extra"
  shows "submittedBy W w' i operation"
  using assms by (auto simp: submittedBy_def nth_append)

lemma submitted_operation:
  assumes "relayed W st active" "submit W input st = Inr (st', n)"
  shows "\<exists>rq extra. strictRequest W input = Inr rq \<and> n < length (rs_operations st') \<and> rr_credentialHash (rs_operations st' ! n) = rr_credentialHash rq \<and>
    rs_operations st' = rs_operations st @ extra \<and> (extra = [] \<and> n \<in> active \<or> extra = [rq] \<and> n = length (rs_operations st))"
proof -
  obtain rq where rq: "strictRequest W input = Inr rq"
    "case map_of (rs_inflight st) (rr_credentialHash rq) of Some m \<Rightarrow> st' = st \<and> n = m
      | None \<Rightarrow> n = length (rs_operations st) \<and>
          st' = \<lparr>rs_inflight = AList.update (rr_credentialHash rq) n (rs_inflight st), rs_operations = rs_operations st @ [rq]\<rparr>"
    using assms(2) unfolding submit_iff by blast
  note inv = relayed_inflight [OF assms(1)]
  show ?thesis
  proof (cases "map_of (rs_inflight st) (rr_credentialHash rq)")
    case None
    with rq show ?thesis by (intro exI [of _ rq] exI [of _ "[rq]"]) simp
  next
    case (Some m)
    with inv have m: "m \<in> active" "hashOf st m = rr_credentialHash rq" "m < length (rs_operations st)" by blast+
    have "st' = st" "n = m" using rq(2) Some by simp_all
    with m rq(1) show ?thesis by (intro exI [of _ rq] exI [of _ "[]"]) (simp add: hashOf_def)
  qed
qed

text \<open>What a step may add.\<close>

lemma operations_grow:
  assumes inv: "operationsInv L W config w" and more: "wd_requests w' = wd_requests w @ requests"
    "rs_operations (wd_relayer w') = rs_operations (wd_relayer w) @ extra" "wd_outcomes w' = wd_outcomes w @ outcomes"
    and active: "relayed W (wd_relayer w') (running w')"
    and outcomes: "\<And>operation connection outcome. (operation, connection, outcome) \<in> set outcomes \<Longrightarrow>
      operation < length (rs_operations (wd_relayer w)) \<and> outcome = submitPlanned L W config connection (rs_operations (wd_relayer w) ! operation)"
    and handlers: "\<And>i operation deadline. (i, AwaitingSubmission operation deadline) \<in> set (wd_handlers w') \<Longrightarrow>
      (i, AwaitingSubmission operation deadline) \<in> set (wd_handlers w) \<or> submittedBy W w' i operation"
    and replies: "\<And>i signature. (i, Accepted signature) \<in> set (wd_replies w') \<Longrightarrow> (i, Accepted signature) \<in> set (wd_replies w) \<or>
      (\<exists>operation connection. submittedBy W w' i operation \<and> (operation, connection, Inr signature) \<in> set (wd_outcomes w'))"
  shows "operationsInv L W config w'"
  unfolding operationsInv_def
proof (intro conjI allI impI)
  note old = inv [unfolded operationsInv_def]
  have keep: "submittedBy W w' i operation" if "submittedBy W w i operation" for i operation
    by (rule submittedBy_mono [OF that more(1,2)])
  show "relayed W (wd_relayer w') (running w')" by (rule active)
  fix operation connection outcome assume "(operation, connection, outcome) \<in> set (wd_outcomes w')"
  then have "operation < length (rs_operations (wd_relayer w)) \<and>
      outcome = submitPlanned L W config connection (rs_operations (wd_relayer w) ! operation)"
    using old outcomes more(3) by auto
  then show "operation < length (rs_operations (wd_relayer w'))"
    "outcome = submitPlanned L W config connection (rs_operations (wd_relayer w') ! operation)"
    using more(2) by (auto simp: nth_append)
next
  note old = inv [unfolded operationsInv_def]
  have keep: "submittedBy W w' i operation" if "submittedBy W w i operation" for i operation
    by (rule submittedBy_mono [OF that more(1,2)])
  fix i operation deadline assume "(i, AwaitingSubmission operation deadline) \<in> set (wd_handlers w')"
  with old handlers keep show "submittedBy W w' i operation" by blast
next
  note old = inv [unfolded operationsInv_def]
  have keep: "submittedBy W w' i operation" if "submittedBy W w i operation" for i operation
    by (rule submittedBy_mono [OF that more(1,2)])
  fix i signature assume "(i, Accepted signature) \<in> set (wd_replies w')"
  with replies consider "(i, Accepted signature) \<in> set (wd_replies w)"
    | "\<exists>operation connection. submittedBy W w' i operation \<and> (operation, connection, Inr signature) \<in> set (wd_outcomes w')" by blast
  then show "\<exists>operation connection. submittedBy W w' i operation \<and> (operation, connection, Inr signature) \<in> set (wd_outcomes w')"
  proof cases
    case 1
    with old keep have "\<exists>operation connection. submittedBy W w' i operation \<and> (operation, connection, Inr signature) \<in> set (wd_outcomes w)" by blast
    then show ?thesis unfolding more(3) by auto
  qed
qed

lemma errorReply_refuses: "errorReply reason \<noteq> Accepted signature"
  by (cases reason) (simp_all add: errorReply_def)

lemma answer_operations:
  assumes "operationsInv L W config w"
    "\<And>signature. reply = Accepted signature \<Longrightarrow> \<exists>operation connection. submittedBy W w i operation \<and> (operation, connection, Inr signature) \<in> set (wd_outcomes w)"
  shows "operationsInv L W config (answer i reply w)"
proof (rule operations_grow [OF assms(1), where requests = "[]" and extra = "[]" and outcomes = "[]"])
  have same: "submittedBy W (answer i reply w) j operation = submittedBy W w j operation" for j operation
    by (simp add: submittedBy_def answer_def)
  show "relayed W (wd_relayer (answer i reply w)) (running (answer i reply w))"
    using assms(1) by (simp add: operationsInv_def answer_def running_def)
  fix j signature assume "(j, Accepted signature) \<in> set (wd_replies (answer i reply w))"
  then show "(j, Accepted signature) \<in> set (wd_replies w) \<or>
      (\<exists>operation connection. submittedBy W (answer i reply w) j operation \<and> (operation, connection, Inr signature) \<in> set (wd_outcomes (answer i reply w)))"
    using assms(2) unfolding same by (auto simp: answer_def)
qed (auto simp: answer_def)

lemma submit_operations:
  assumes "operationsInv L W config w" "(i, ReadingBody) \<in> set (wd_handlers w)" "i < length (wd_requests w)"
  shows "operationsInv L W config (submitBody W limits i w)"
proof (cases "bindE (readJson (wd_requests w ! i)) (\<lambda>input. submit W input (wd_relayer w))")
  case (Inl e)
  have "operationsInv L W config (answer i (errorReply e) w)" by (rule answer_operations [OF assms(1)]) (simp add: errorReply_refuses)
  with Inl show ?thesis by (simp add: submitBody_def)
next
  case (Inr p)
  let ?w = "submitBody W limits i w"
  obtain st' n where p: "p = (st', n)" by force
  obtain input where input: "readJson (wd_requests w ! i) = Inr input" "submit W input (wd_relayer w) = Inr (st', n)"
    using Inr p by (auto simp: bindE_Inr_iff)
  have w': "wd_relayer ?w = st'" "wd_requests ?w = wd_requests w" "wd_outcomes ?w = wd_outcomes w" "wd_replies ?w = wd_replies w"
    "wd_handlers ?w = map (\<lambda>(j, h). if j = i then (j, AwaitingSubmission n (wd_now w + sl_submissionTimeoutMs limits)) else (j, h)) (wd_handlers w)"
    using Inr p by (simp_all add: submitBody_def)
  have run: "relayed W (wd_relayer w) (running w)" using assms(1) by (simp add: operationsInv_def)
  obtain rq extra where op: "strictRequest W input = Inr rq" "n < length (rs_operations st')" "rr_credentialHash (rs_operations st' ! n) = rr_credentialHash rq"
    "rs_operations st' = rs_operations (wd_relayer w) @ extra" "extra = [] \<and> n \<in> running w \<or> extra = [rq] \<and> n = length (rs_operations (wd_relayer w))"
    using submitted_operation [OF run input(2)] by blast
  have own: "submittedBy W ?w i n" using input(1) op(1-3) assms(3) w' by (auto simp: submittedBy_def)
  have ended: "fst ` set (wd_outcomes w) \<subseteq> {..<length (rs_operations (wd_relayer w))}"
    using assms(1) unfolding operationsInv_def by fastforce
  have "running ?w = insert n (running w)" using op(4,5) ended unfolding running_def w' by auto
  with relayed.submitted [OF run input(2)] have active: "relayed W (wd_relayer ?w) (running ?w)" by (simp add: w'(1))
  show ?thesis
  proof (rule operations_grow [OF assms(1) _ _ _ active, where requests = "[]" and outcomes = "[]" and extra = extra])
    fix j operation deadline assume "(j, AwaitingSubmission operation deadline) \<in> set (wd_handlers ?w)"
    then show "(j, AwaitingSubmission operation deadline) \<in> set (wd_handlers w) \<or> submittedBy W ?w j operation"
      using own by (auto simp: w'(5) split: if_splits)
  qed (use w' op(4) in auto)
qed

lemma step_operations:
  assumes "serverStep L W config limits w w'" "operationsInv L W config w" "handlersInv limits w"
  shows "operationsInv L W config w'"
  using assms(1)
proof cases
  case (tick now)
  then show ?thesis using assms(2)
    by (intro operations_grow [OF assms(2), where requests = "[]" and extra = "[]" and outcomes = "[]"]) (auto simp: operationsInv_def running_def)
next
  case (arrives request)
  obtain r server where r: "admit limits (wd_now w) request (wd_server w) = (r, server)" by force
  have "r \<noteq> Some (Accepted signature)" for signature using r by (auto simp: admit_def Let_def split: if_splits)
  with arrives r assms(2) show ?thesis
    by (intro operations_grow [OF assms(2), where requests = "[request]" and extra = "[]" and outcomes = "[]"])
      (auto simp: arrive_def operationsInv_def running_def split: option.splits)
next
  case (read i)
  have "i < length (wd_requests w)" using assms(3) read(2) unfolding handlersInv_def by force
  with read submit_operations [OF assms(2) read(2)] show ?thesis by simp
next
  case (broken i)
  show ?thesis unfolding broken(1) by (rule answer_operations [OF assms(2)]) (simp add: errorReply_refuses)
next
  case (settled operation outcome connection)
  have active: "relayed W (wd_relayer w) (running w)" using assms(2) by (simp add: operationsInv_def)
  have "running w' = running w - {operation}" unfolding settled(1) running_def by (auto simp: finish_def)
  with relayed.finished [OF active settled(2)] have "relayed W (wd_relayer w') (running w')" by (simp add: settled(1))
  with settled show ?thesis
    by (intro operations_grow [OF assms(2), where requests = "[]" and extra = "[]" and outcomes = "[(operation, connection, outcome)]"])
      (auto simp: finish_def running_def)
next
  case (answered i operation deadline connection outcome)
  have own: "submittedBy W w i operation" using assms(2) answered(2) unfolding operationsInv_def by blast
  show ?thesis unfolding answered(1)
  proof (rule answer_operations [OF assms(2)])
    fix signature assume "submissionReply outcome = Accepted signature"
    then have "outcome = Inr signature" by (cases outcome) (simp_all add: submissionReply_def errorReply_refuses)
    with own answered(3) show "\<exists>operation connection. submittedBy W w i operation \<and> (operation, connection, Inr signature) \<in> set (wd_outcomes w)" by blast
  qed
next
  case (timeout i operation deadline)
  show ?thesis unfolding timeout(1) by (rule answer_operations [OF assms(2)]) (simp add: timeoutReply_def errorReply_refuses)
qed

lemma served_operations:
  assumes "served L W config limits w" "0 \<le> sl_maxConcurrent limits"
  shows "operationsInv L W config w"
  using assms(1)
proof induction
  case (started now)
  have "relayed W \<lparr>rs_inflight = [], rs_operations = []\<rparr> {}" by (rule relayed.started)
  then show ?case by (simp add: operationsInv_def startedWorld_def running_def)
qed (use step_operations served_handlers [OF _ assms(2)] in blast)

text \<open>An operation ends once.\<close>

lemma step_outcomes:
  assumes "serverStep L W config limits w w'" "distinct (map fst (wd_outcomes w))"
  shows "distinct (map fst (wd_outcomes w'))"
  using assms by cases (auto simp: arrive_def answer_def submitBody_def running_def split: option.splits sum.splits prod.splits)

lemma served_outcomes: "served L W config limits w \<Longrightarrow> distinct (map fst (wd_outcomes w))"
  by (induction rule: served.induct) (auto simp: startedWorld_def intro: step_outcomes)

text \<open>
  C9: When the server answers a request with a signature, the body of this
  request was a valid claim request, and the relayer ran an operation of the same credential hash that
  ended, once, with exactly this signature: the one that planning the operation's claim, sending its
  transaction and confirming it on the chain of that run returned.
\<close>

theorem accepted_reply_is_own_claim:
  assumes "serverLimits options = Inr limits" "served L W config limits w" "(i, Accepted signature) \<in> set (wd_replies w)"
  shows "\<exists>input rq operation connection. readJson (wd_requests w ! i) = Inr input \<and> strictRequest W input = Inr rq \<and>
    operation < length (rs_operations (wd_relayer w)) \<and>
    rr_credentialHash (rs_operations (wd_relayer w) ! operation) = rr_credentialHash rq \<and>
    (operation, connection, Inr signature) \<in> set (wd_outcomes w) \<and>
    (\<forall>ended \<in> set (wd_outcomes w). fst ended = operation \<longrightarrow> ended = (operation, connection, Inr signature)) \<and>
    submitPlanned L W config connection (rs_operations (wd_relayer w) ! operation) = Inr signature"
proof -
  have "0 \<le> sl_maxConcurrent limits" using assms(1) by (auto simp: serverLimits_def Let_def bindE_Inr_iff)
  note inv = served_operations [OF assms(2) this, unfolded operationsInv_def]
  obtain operation connection where operation: "submittedBy W w i operation" "(operation, connection, Inr signature) \<in> set (wd_outcomes w)"
    using inv assms(3) by blast
  then have sent: "Inr signature = submitPlanned L W config connection (rs_operations (wd_relayer w) ! operation)" using inv by blast
  have "\<forall>ended \<in> set (wd_outcomes w). fst ended = operation \<longrightarrow> ended = (operation, connection, Inr signature)"
    using eq_key_imp_eq_value [OF served_outcomes [OF assms(2)] operation(2)] by force
  with operation sent show ?thesis unfolding submittedBy_def by metis
qed

section \<open>The rate of a client\<close>

text \<open>
  The times at which requests of a client get past its rate, along any sequence of requests; between
  two of them the handlers may change the number of slots in use at will.
\<close>

fun passed :: "ServerLimits \<Rightarrow> string \<Rightarrow> (int \<times> int \<times> ServerRequest) list \<Rightarrow> ServerState \<Rightarrow> int list" where
  "passed limits client [] st = []"
| "passed limits client ((now, concurrent, request) # rest) st =
    (case admit limits now request (st\<lparr>ss_concurrent := concurrent\<rparr>) of
       (reply, st') \<Rightarrow> (if reply = None \<and> clientOf request = client then [now] else []) @ passed limits client rest st')"

definition countIn :: "int \<Rightarrow> int \<Rightarrow> int list \<Rightarrow> nat" where
  "countIn a b ts = length (filter (\<lambda>t. a \<le> t \<and> t < b) ts)"

lemma countIn_append [simp]: "countIn a b (ts @ us) = countIn a b ts + countIn a b us"
  by (simp add: countIn_def)

lemma countIn_simps [simp]: "countIn a b [] = 0" "countIn a b (t # ts) = (if a \<le> t \<and> t < b then Suc (countIn a b ts) else countIn a b ts)"
  by (simp_all add: countIn_def)

lemma countIn_mono: "(\<And>t. t \<in> set ts \<Longrightarrow> a \<le> t \<Longrightarrow> t < b \<Longrightarrow> a' \<le> t \<and> t < b') \<Longrightarrow> countIn a b ts \<le> countIn a' b' ts"
  by (induction ts) auto

lemma countIn_none: "(\<And>t. t \<in> set ts \<Longrightarrow> \<not> (a \<le> t \<and> t < b)) \<Longrightarrow> countIn a b ts = 0"
  by (induction ts) auto

lemma countIn_split: "a \<le> m \<Longrightarrow> m \<le> b \<Longrightarrow> countIn a b ts = countIn a m ts + countIn m b ts"
  by (induction ts) auto

text \<open>What the window of a client says of the times so far: at most the limit in it, and in the minute before it.\<close>

definition rateInv :: "nat \<Rightarrow> int \<Rightarrow> RateWindow option \<Rightarrow> int list \<Rightarrow> bool" where
  "rateInv limit now window ts \<longleftrightarrow> (\<forall>t \<in> set ts. t \<le> now) \<and> (\<forall>a. countIn a (a + 60000) ts \<le> 2 * limit) \<and>
     (case window of
        None \<Rightarrow> ts = []
      | Some w \<Rightarrow> rw_windowStartedAt w \<le> now \<and> (\<forall>t \<in> set ts. t < rw_windowStartedAt w + 60000) \<and>
          int (countIn (rw_windowStartedAt w) (rw_windowStartedAt w + 60000) ts) \<le> rw_count w \<and>
          countIn (rw_windowStartedAt w) (rw_windowStartedAt w + 60000) ts \<le> limit \<and>
          countIn (rw_windowStartedAt w - 60000) (rw_windowStartedAt w) ts \<le> limit)"

lemma rateInv_later: "rateInv limit now window ts \<Longrightarrow> now \<le> later \<Longrightarrow> rateInv limit later window ts"
  by (fastforce simp: rateInv_def split: option.splits)

text \<open>A request is counted, whether it gets through or not.\<close>

lemma rate_counted:
  assumes "rateInv limit now window ts" "now \<le> later" "1 \<le> limit"
  shows "rateInv limit later (Some (rateAt later window)) ts"
proof -
  note inv = rateInv_later [OF assms(1,2)]
  show ?thesis
  proof (cases window)
    case None
    with inv show ?thesis by (simp add: rateInv_def rateAt_def)
  next
    case (Some w)
    let ?s = "rw_windowStartedAt w"
    note old = inv [unfolded rateInv_def Some option.case]
    show ?thesis
    proof (cases "later - ?s \<ge> 60000")
      case True
      with old have "countIn later (later + 60000) ts = 0" by (intro countIn_none) force
      moreover have "countIn (later - 60000) later ts \<le> countIn ?s (?s + 60000) ts" using old True by (intro countIn_mono) force
      then have "countIn (later - 60000) later ts \<le> limit" using old by linarith
      moreover have "\<forall>t \<in> set ts. t < later + 60000" using old by force
      ultimately show ?thesis using old True assms(3) by (simp add: rateInv_def rateAt_def Some)
    next
      case False
      with old show ?thesis by (simp add: rateInv_def rateAt_def Some)
    qed
  qed
qed

text \<open>One that gets through is one more in its window.\<close>

lemma rate_passed:
  assumes "rateInv limit now window ts" "now \<le> later" "1 \<le> limit" "rw_count (rateAt later window) \<le> int limit"
  shows "rateInv limit later (Some (rateAt later window)) (ts @ [later])"
proof -
  let ?w = "rateAt later window"
  let ?s = "rw_windowStartedAt ?w"
  note new = rate_counted [OF assms(1-3), unfolded rateInv_def option.case]
  have one_more: "int (countIn ?s (?s + 60000) ts) + 1 \<le> rw_count ?w"
  proof (cases window)
    case None
    with assms(1) show ?thesis by (simp add: rateInv_def rateAt_def)
  next
    case (Some w)
    note old = assms(1) [unfolded rateInv_def Some option.case]
    show ?thesis
    proof (cases "later - rw_windowStartedAt w \<ge> 60000")
      case True
      with old have "countIn later (later + 60000) ts = 0" by (intro countIn_none) force
      with True Some show ?thesis by (simp add: rateAt_def)
    next
      case False
      with old Some show ?thesis by (simp add: rateAt_def)
    qed
  qed
  have inside: "later < ?s + 60000" using new by (auto simp: rateAt_def split: option.splits)
  have start: "?s \<le> later" using new by blast
  have spread: "countIn a (a + 60000) ts + 1 \<le> 2 * limit" if a: "a \<le> later" "later < a + 60000" for a
  proof (cases "a \<le> ?s")
    case True
    have "countIn a (a + 60000) ts = countIn a ?s ts + countIn ?s (a + 60000) ts"
      by (rule countIn_split) (use True a start in linarith)+
    moreover have "countIn a ?s ts \<le> countIn (?s - 60000) ?s ts" using a start by (intro countIn_mono) linarith
    moreover have "countIn ?s (a + 60000) ts \<le> countIn ?s (?s + 60000) ts" using True by (intro countIn_mono) linarith
    ultimately show ?thesis using new one_more assms(4) by linarith
  next
    case False
    have "countIn a (a + 60000) ts \<le> countIn ?s (?s + 60000) ts" using False new by (intro countIn_mono) force
    then show ?thesis using one_more assms(3,4) by linarith
  qed
  have "countIn a (a + 60000) (ts @ [later]) \<le> 2 * limit" for a
    using new spread [of a] by (cases "a \<le> later \<and> later < a + 60000") auto
  then show ?thesis using new one_more inside start assms(4) by (auto simp: rateInv_def)
qed

lemma admit_clients:
  assumes "admit limits now request st = (reply, st')"
  shows "ss_clients st' = ss_clients st \<and> reply \<noteq> None \<or>
    ss_clients st' = AList.update (clientOf request) (rateAt now (map_of (ss_clients st) (clientOf request))) (ss_clients st) \<and>
    (reply = None \<longrightarrow> rw_count (rateAt now (map_of (ss_clients st) (clientOf request))) \<le> sl_rateLimitPerMinute limits)"
  using assms by (auto simp: admit_def Let_def split: if_splits)

lemma passed_bounded:
  assumes "sl_rateLimitPerMinute limits = int limit" "1 \<le> limit" "rateInv limit now (map_of (ss_clients st) client) ts"
    "sorted (now # map fst events)"
  shows "countIn a (a + 60000) (ts @ passed limits client events st) \<le> 2 * limit"
  using assms(3,4)
proof (induction events arbitrary: now ts st)
  case Nil
  then show ?case by (simp add: rateInv_def)
next
  case (Cons event rest)
  obtain later concurrent request where event: "event = (later, concurrent, request)" by (cases event)
  obtain reply st' where r: "admit limits later request (st\<lparr>ss_concurrent := concurrent\<rparr>) = (reply, st')" by force
  have time: "now \<le> later" "sorted (later # map fst rest)" using Cons.prems(2) event by simp_all
  let ?got = "if reply = None \<and> clientOf request = client then [later] else []"
  let ?rate = "rateAt later (map_of (ss_clients st) (clientOf request))"
  have "rateInv limit later (map_of (ss_clients st') client) (ts @ ?got)"
    using admit_clients [OF r]
  proof (elim disjE conjE)
    assume "ss_clients st' = ss_clients (st\<lparr>ss_concurrent := concurrent\<rparr>)" "reply \<noteq> None"
    then show ?thesis using rateInv_later [OF Cons.prems(1) time(1)] by (cases reply) simp_all
  next
    assume new: "ss_clients st' = AList.update (clientOf request) (rateAt later (map_of (ss_clients (st\<lparr>ss_concurrent := concurrent\<rparr>)) (clientOf request)))
        (ss_clients (st\<lparr>ss_concurrent := concurrent\<rparr>))"
      "reply = None \<longrightarrow> rw_count (rateAt later (map_of (ss_clients (st\<lparr>ss_concurrent := concurrent\<rparr>)) (clientOf request))) \<le> sl_rateLimitPerMinute limits"
    show ?thesis
    proof (cases "clientOf request = client")
      case False
      with new rateInv_later [OF Cons.prems(1) time(1)] show ?thesis by (simp add: update_conv')
    next
      case True
      with new(1) have window: "map_of (ss_clients st') client = Some ?rate" by (simp add: update_conv')
      show ?thesis
      proof (cases reply)
        case None
        with True new(2) assms(1) have "rw_count ?rate \<le> int limit" by simp
        with rate_passed [OF Cons.prems(1) time(1) assms(2)] True None window show ?thesis by simp
      next
        case (Some x)
        with rate_counted [OF Cons.prems(1) time(1) assms(2)] True window show ?thesis by simp
      qed
    qed
  qed
  from Cons.IH [OF this time(2)] show ?case by (simp add: event r)
qed

text \<open>
  C35: Whatever requests arrive and whatever the handlers do, a client gets past the
  rate limit at most twice its limit in any minute (its windows are fixed, so twice and not once), as
  long as the clock does not go back.
\<close>

theorem client_rate_bounded:
  assumes "serverLimits options = Inr limits" "sorted (map fst events)"
  shows "int (countIn a (a + 60000) (passed limits client events initialServer)) \<le> 2 * sl_rateLimitPerMinute limits"
proof -
  have limit: "sl_rateLimitPerMinute limits = int (nat (sl_rateLimitPerMinute limits))" "1 \<le> nat (sl_rateLimitPerMinute limits)"
    using assms(1) by (auto simp: serverLimits_def Let_def bindE_Inr_iff)
  define start where "start = (case events of [] \<Rightarrow> 0 | e # _ \<Rightarrow> fst e)"
  have "sorted (start # map fst events)" using assms(2) by (cases events) (simp_all add: start_def)
  moreover have "rateInv (nat (sl_rateLimitPerMinute limits)) start (map_of (ss_clients initialServer) client) []"
    by (simp add: rateInv_def initialServer_def)
  ultimately have "countIn a (a + 60000) ([] @ passed limits client events initialServer) \<le> 2 * nat (sl_rateLimitPerMinute limits)"
    by (rule passed_bounded [OF limit, rotated])
  then show ?thesis using limit(2) by (auto simp: le_nat_iff nat_mult_distrib)
qed

definition sampleOptions :: RelayerServerOptions where
  "sampleOptions = \<lparr>so_submissionTimeoutMs = None, so_maxConcurrent = Some 1, so_rateLimitPerMinute = Some 1\<rparr>"

definition sampleLimits :: ServerLimits where
  "sampleLimits = \<lparr>sl_submissionTimeoutMs = 45000, sl_maxConcurrent = 1, sl_rateLimitPerMinute = 1\<rparr>"

lemma sampleLimits_read: "serverLimits sampleOptions = Inr sampleLimits"
  by (simp add: serverLimits_def sampleOptions_def sampleLimits_def orDefault_def DEFAULT_SUBMISSION_TIMEOUT_MS_def)

lemma sampleLimits_positive: "0 < sl_maxConcurrent sampleLimits" "1 \<le> sl_rateLimitPerMinute sampleLimits"
  by (simp_all add: sampleLimits_def)

definition claimPost :: "string \<Rightarrow> bytes \<Rightarrow> ServerRequest" where
  "claimPost address body = \<lparr>sr_method = ''POST'', sr_url = ''/v1/claims'', sr_contentType = Some ''application/json; charset=utf-8'',
     sr_contentLength = None, sr_remoteAddress = Some address, sr_chunks = [body]\<rparr>"

lemma claimPost_json: "jsonContent (sr_contentType (claimPost address body))"
proof -
  have "jsonContent (Some ''application/json; charset=utf-8'')" by code_simp
  then show ?thesis by (simp add: claimPost_def)
qed

theorem client_rate_bounded_witness:
  "passed sampleLimits ''a'' [(0, 0, claimPost ''a'' []), (59999, 0, claimPost ''a'' []), (60000, 0, claimPost ''a'' []), (60001, 0, claimPost ''a'' [])]
      initialServer = [0, 60000] \<and>
    int (countIn 0 60000 (passed sampleLimits ''a'' [(0, 0, claimPost ''a'' []), (59999, 0, claimPost ''a'' []), (60000, 0, claimPost ''a'' []),
      (60001, 0, claimPost ''a'' [])] initialServer)) \<le> 2"
proof -
  let ?events = "[(0, 0, claimPost ''a'' []), (59999, 0, claimPost ''a'' []), (60000, 0, claimPost ''a'' []), (60001, 0, claimPost ''a'' [])]"
  have fields: "sr_method (claimPost a b) = ''POST''" "sr_url (claimPost a b) = ''/v1/claims''" "clientOf (claimPost a b) = a" for a b
    by (simp_all add: claimPost_def clientOf_def orDefault_def)
  have "passed sampleLimits ''a'' ?events initialServer = [0, 60000]"
    by (simp add: admit_def fields claimPost_json initialServer_def rateAt_def sampleLimits_def Let_def)
  moreover have "int (countIn 0 (0 + 60000) (passed sampleLimits ''a'' ?events initialServer)) \<le> 2 * sl_rateLimitPerMinute sampleLimits"
    by (rule client_rate_bounded [OF sampleLimits_read]) simp
  ultimately show ?thesis by (simp add: sampleLimits_def)
qed

section \<open>Submissions that outlive their timer\<close>

definition claimRoute :: "ServerRequest \<Rightarrow> bool" where
  "claimRoute request \<longleftrightarrow> sr_method request = ''POST'' \<and> sr_url request = ''/v1/claims'' \<and> jsonContent (sr_contentType request)"

text \<open>An idle server: no handler is open, every window is over; these operations run.\<close>

definition idle :: "web3 \<Rightarrow> ClaimRelayerRequest list \<Rightarrow> RelayerWorld \<Rightarrow> bool" where
  "idle W rqs w \<longleftrightarrow> wd_handlers w = [] \<and> ss_concurrent (wd_server w) = 0 \<and> wd_outcomes w = [] \<and> rs_operations (wd_relayer w) = rqs \<and>
     relayed W (wd_relayer w) (running w) \<and>
     (\<forall>client window. map_of (ss_clients (wd_server w)) client = Some window \<longrightarrow> rw_windowStartedAt window + 60000 \<le> wd_now w)"

text \<open>The next claim is admitted, read and submitted.\<close>

lemma posted:
  assumes limits: "0 < sl_maxConcurrent limits" "1 \<le> sl_rateLimitPerMinute limits"
    and w: "served L W config limits w" "idle W rqs w"
    and post: "claimRoute post" "readJson post = Inr input" "strictRequest W input = Inr rq" "rr_credentialHash rq \<notin> rr_credentialHash ` set rqs"
  obtains w' where "served L W config limits w'" "wd_now w' = wd_now w" "wd_requests w' = wd_requests w @ [post]" "wd_replies w' = wd_replies w"
    "wd_handlers w' = [(length (wd_requests w), AwaitingSubmission (length rqs) (wd_now w + sl_submissionTimeoutMs limits))]"
    "ss_concurrent (wd_server w') = 1" "wd_outcomes w' = []" "rs_operations (wd_relayer w') = rqs @ [rq]"
    "relayed W (wd_relayer w') (running w')" "running w' = {..<Suc (length rqs)}"
    "ss_clients (wd_server w') = AList.update (clientOf post) \<lparr>rw_count = 1, rw_windowStartedAt = wd_now w\<rparr> (ss_clients (wd_server w))"
proof -
  note i = w(2) [unfolded idle_def]
  let ?n = "length (wd_requests w)" and ?clients = "AList.update (clientOf post) \<lparr>rw_count = 1, rw_windowStartedAt = wd_now w\<rparr> (ss_clients (wd_server w))"
  have "rateAt (wd_now w) (map_of (ss_clients (wd_server w)) (clientOf post)) = \<lparr>rw_count = 1, rw_windowStartedAt = wd_now w\<rparr>"
    using i by (fastforce simp: rateAt_def split: option.split)
  then have admitted: "admit limits (wd_now w) post (wd_server w) = (None, \<lparr>ss_concurrent = 1, ss_clients = ?clients\<rparr>)"
    using limits i post(1) by (simp add: admit_def claimRoute_def Let_def)
  let ?w1 = "w\<lparr>wd_server := \<lparr>ss_concurrent = 1, ss_clients = ?clients\<rparr>, wd_requests := wd_requests w @ [post], wd_handlers := [(?n, ReadingBody)]\<rparr>"
  have "arrive limits post w = ?w1" using admitted i by (simp add: arrive_def)
  with serverStep.arrives [of L W config limits w post] have one: "served L W config limits ?w1" using served.stepped [OF w(1)] by simp
  let ?m = "length rqs" and ?relayer = "\<lparr>rs_inflight = AList.update (rr_credentialHash rq) (length rqs) (rs_inflight (wd_relayer w)), rs_operations = rqs @ [rq]\<rparr>"
  have run: "running w = {..<length rqs}" using i by (simp add: running_def)
  have "map_of (rs_inflight (wd_relayer w)) (rr_credentialHash rq) = None"
  proof (rule ccontr)
    assume "map_of (rs_inflight (wd_relayer w)) (rr_credentialHash rq) \<noteq> None"
    then obtain m where "m < length rqs" "hashOf (wd_relayer w) m = rr_credentialHash rq" using relayed_inflight i run by (metis lessThan_iff not_None_eq)
    then have "rqs ! m \<in> set rqs" "rr_credentialHash (rqs ! m) = rr_credentialHash rq" using i by (simp_all add: hashOf_def)
    with post(4) show False by (metis imageI)
  qed
  then have submitted: "submit W input (wd_relayer w) = Inr (?relayer, ?m)" using post(3) i by (simp add: submit_def Let_def)
  let ?w2 = "?w1\<lparr>wd_relayer := ?relayer, wd_handlers := [(?n, AwaitingSubmission ?m (wd_now w + sl_submissionTimeoutMs limits))]\<rparr>"
  have "submitBody W limits ?n ?w1 = ?w2" using post(2) submitted by (simp add: submitBody_def)
  with serverStep.read [of ?n ?w1 L W config limits] have two: "served L W config limits ?w2" using served.stepped [OF one] by simp
  have running: "running ?w2 = {..<Suc (length rqs)}" using i by (auto simp: running_def)
  have "relayed W ?relayer (insert ?m (running w))" using relayed.submitted [OF _ submitted] i by blast
  then have active: "relayed W (wd_relayer ?w2) (running ?w2)" unfolding running by (simp add: run lessThan_Suc)
  show thesis by (rule that [OF two _ _ _ _ _ _ _ active running]) (use i in simp_all)
qed

lemma one_more_running:
  assumes limits: "0 < sl_submissionTimeoutMs limits" "0 < sl_maxConcurrent limits" "1 \<le> sl_rateLimitPerMinute limits"
    and w: "served L W config limits w" "idle W rqs w"
    and post: "claimRoute post" "readJson post = Inr input" "strictRequest W input = Inr rq" "rr_credentialHash rq \<notin> rr_credentialHash ` set rqs"
  shows "\<exists>w'. served L W config limits w' \<and> idle W (rqs @ [rq]) w'"
proof -
  let ?n = "length (wd_requests w)" and ?m = "length rqs" and ?deadline = "wd_now w + sl_submissionTimeoutMs limits"
  obtain w2 where two: "served L W config limits w2" "wd_now w2 = wd_now w" "wd_handlers w2 = [(?n, AwaitingSubmission ?m ?deadline)]"
    "ss_concurrent (wd_server w2) = 1" "wd_outcomes w2 = []" "rs_operations (wd_relayer w2) = rqs @ [rq]"
    "relayed W (wd_relayer w2) (running w2)" "running w2 = {..<Suc ?m}"
    "ss_clients (wd_server w2) = AList.update (clientOf post) \<lparr>rw_count = 1, rw_windowStartedAt = wd_now w\<rparr> (ss_clients (wd_server w))"
    by (rule posted [OF limits(2,3) w post])
  let ?w3 = "w2\<lparr>wd_now := ?deadline + 60000\<rparr>"
  have three: "served L W config limits ?w3" by (rule served.stepped [OF two(1) serverStep.tick]) (use limits two(2) in simp)
  have running: "running ?w3 = running w2" "running (answer ?n timeoutReply ?w3) = running w2" by (simp_all add: running_def answer_def)
  have four: "served L W config limits (answer ?n timeoutReply ?w3)"
    by (rule served.stepped [OF three serverStep.timeout [where operation = ?m and deadline = ?deadline]]) (use running two(3,8) in simp_all)
  have windows: "rw_windowStartedAt window + 60000 \<le> ?deadline + 60000" if "map_of (ss_clients (wd_server w2)) client = Some window" for client window
  proof (cases "client = clientOf post")
    case True
    with that have "window = \<lparr>rw_count = 1, rw_windowStartedAt = wd_now w\<rparr>" by (simp add: two(9) update_conv')
    with limits show ?thesis by simp
  next
    case False
    with that have "map_of (ss_clients (wd_server w)) client = Some window" by (simp add: two(9) update_conv')
    with w(2) have "rw_windowStartedAt window + 60000 \<le> wd_now w" unfolding idle_def by blast
    with limits show ?thesis by simp
  qed
  have "idle W (rqs @ [rq]) (answer ?n timeoutReply ?w3)"
    using two(3-7) windows unfolding idle_def running by (simp add: answer_def release_def)
  with four show ?thesis by blast
qed

lemma idle_start: "served L W config limits (startedWorld 0)" "idle W [] (startedWorld 0)"
proof -
  have "relayed W \<lparr>rs_inflight = [], rs_operations = []\<rparr> {}" by (rule relayed.started)
  then show "idle W [] (startedWorld 0)" by (simp add: idle_def startedWorld_def initialServer_def running_def)
qed (rule served.started)

text \<open>
  C26: The limit of concurrent handlers does not bound the submissions: any
  number of claims with different credential hashes, sent one after the other, can all be running
  while no slot is in use, since a timeout gives the slot back and lets the submission go on.
\<close>

theorem timed_out_submissions_pile_up:
  assumes "serverLimits options = Inr limits" "distinct (map rr_credentialHash rqs)"
    and "list_all2 (\<lambda>post rq. claimRoute post \<and> (\<exists>input. readJson post = Inr input \<and> strictRequest W input = Inr rq)) posts rqs"
  shows "\<exists>w. served L W config limits w \<and> ss_concurrent (wd_server w) = 0 \<and> card (running w) = length rqs"
proof -
  have limits: "0 < sl_submissionTimeoutMs limits" "0 < sl_maxConcurrent limits" "1 \<le> sl_rateLimitPerMinute limits"
    using assms(1) by (auto simp: serverLimits_def Let_def bindE_Inr_iff)
  have "\<exists>w. served L W config limits w \<and> idle W rqs w"
    using assms(2,3)
  proof (induction rqs arbitrary: posts rule: rev_induct)
    case Nil
    from idle_start show ?case by blast
  next
    case (snoc rq rqs)
    obtain post before where posts: "posts = before @ [post]" "claimRoute post \<and> (\<exists>input. readJson post = Inr input \<and> strictRequest W input = Inr rq)"
      "list_all2 (\<lambda>post rq. claimRoute post \<and> (\<exists>input. readJson post = Inr input \<and> strictRequest W input = Inr rq)) before rqs"
      using snoc.prems(2) by (auto simp: list_all2_append2 list_all2_Cons2)
    obtain w where "served L W config limits w" "idle W rqs w" using snoc.IH [OF _ posts(3)] snoc.prems(1) by auto
    with posts(2) snoc.prems(1) show ?case by (auto intro: one_more_running [OF limits])
  qed
  then obtain w where w: "served L W config limits w" "idle W rqs w" by blast
  then have "card (running w) = length rqs" by (simp add: idle_def running_def)
  with w show ?thesis by (auto simp: idle_def)
qed

section \<open>On the sample\<close>

lemma utf8Text_ascii: "\<forall>c \<in> set t. of_char c < (128 :: nat) \<Longrightarrow> utf8Text (textBytes t) = Some t"
proof (induction t)
  case (Cons c t)
  have "(of_char c :: byte) < 128"
    using Cons.prems unfolding word_less_nat_alt by (simp add: unat_of_char)
  with Cons show ?case by (simp add: textBytes_def unat_of_char)
qed (simp add: textBytes_def)

text \<open>Short texts that JSON writes as they are\<close>

definition plainText :: "nat \<Rightarrow> string \<Rightarrow> bool" where
  "plainText n t \<longleftrightarrow> length t \<le> n \<and> (\<forall>c \<in> set t. of_char c < (128 :: nat) \<and> jsonEscape c = [c])"

lemma plainText_quote: "plainText n t \<Longrightarrow> jsonQuote t = CHR 0x22 # t @ [CHR 0x22]"
proof -
  assume "plainText n t"
  then have "\<forall>c \<in> set t. jsonEscape c = [c]" by (simp add: plainText_def)
  then have "concat (map jsonEscape t) = t" by (induction t) auto
  then show ?thesis by (simp add: jsonQuote_def)
qed

lemma hexDigits_chars: "\<forall>c \<in> set ''0123456789abcdef''. of_char c < (128 :: nat) \<and> jsonEscape c = [c]"
  by code_simp

lemma plainText_hex: "2 * length bs \<le> n \<Longrightarrow> plainText n (bytesToHex bs)"
proof -
  have "\<forall>c \<in> set (bytesToHex bs). c \<in> set ''0123456789abcdef''" using bytesToHex_digits unfolding list_all_iff by blast
  with hexDigits_chars have "\<forall>c \<in> set (bytesToHex bs). of_char c < (128 :: nat) \<and> jsonEscape c = [c]" by blast
  then show "2 * length bs \<le> n \<Longrightarrow> plainText n (bytesToHex bs)" by (simp add: plainText_def)
qed

text \<open>The body of a claim request is short and plain.\<close>

definition shortAscii :: "nat \<Rightarrow> string \<Rightarrow> bool" where
  "shortAscii n t \<longleftrightarrow> length t \<le> n \<and> (\<forall>c \<in> set t. of_char c < (128 :: nat))"

lemma shortAscii_append: "shortAscii m t \<Longrightarrow> shortAscii n u \<Longrightarrow> shortAscii (m + n) (t @ u)"
  by (auto simp: shortAscii_def)

lemma shortAscii_join: "list_all2 shortAscii ns ts \<Longrightarrow> shortAscii (sum_list ns + length ts) (joinComma ts)"
proof (induction ts arbitrary: ns rule: joinComma.induct)
  case (3 x y ys)
  then obtain n ms where ns: "ns = n # ms" "shortAscii n x" "list_all2 shortAscii ms (y # ys)" by (auto simp: list_all2_Cons2)
  have "shortAscii (n + (1 + (sum_list ms + length (y # ys)))) (x @ [CHR '',''] @ joinComma (y # ys))"
    by (rule shortAscii_append [OF ns(2) shortAscii_append [OF _ "3.IH" [OF ns(3)]]]) (simp add: shortAscii_def)
  then show ?case by (simp add: ns(1) add_ac)
qed (auto simp: shortAscii_def list_all2_Cons2)

lemma trim_solid: "\<forall>c \<in> set t. \<not> spaceChar c \<Longrightarrow> trim t = t"
proof -
  assume solid: "\<forall>c \<in> set t. \<not> spaceChar c"
  then have "dropWhile spaceChar t = t" by (cases t) simp_all
  moreover from solid have "dropWhile spaceChar (rev t) = rev t" by (cases t rule: rev_cases) simp_all
  ultimately show ?thesis by (simp add: trim_def)
qed

lemma digits_solid: "\<forall>c \<in> set digitChars. \<not> spaceChar c"
  by code_simp

lemma declaredLength_decimal: "declaredLength (Some (natDecimal n)) = Some n"
proof -
  have digits: "list_all (\<lambda>c. c \<in> set digitChars) (natDecimal n)"
    using natDecimal_digits [of n] by (auto simp: list_all_iff isDigit_def)
  then have "\<forall>c \<in> set (natDecimal n). \<not> spaceChar c" using digits_solid by (auto simp: list_all_iff)
  then have "trim (natDecimal n) = natDecimal n" by (rule trim_solid)
  with digits show ?thesis by (simp add: declaredLength_def numberOf_natDecimal)
qed

text \<open>A body within the limit is read whole, however it is split.\<close>

lemma readChunks_all: "received + length (concat chunks) \<le> MAX_BODY_BYTES \<Longrightarrow> readChunks received body chunks = Inr (body @ concat chunks)"
  by (induction received body chunks rule: readChunks.induct) simp_all

lemma claim_body_read:
  assumes "rr_networkId rq \<in> {0, 1, 2}" "plainText 820 (rr_credentialPayload rq)"
    "list_all (plainText 128) [rr_clusterGenesisHash rq, rr_programId rq, rr_sessionAccount rq, rr_claimAccount rq, rr_merchant rq,
      rr_payerSignature rq, rr_credentialHash rq]"
  and post: "concat (sr_chunks post) = textBytes (JSON_stringify (requestObject rq))"
    "sr_contentLength post \<in> {None, Some (natDecimal (length (concat (sr_chunks post))))}"
  shows "readJson post = Inr (requestObject rq)"
proof -
  let ?t = "JSON_stringify (requestObject rq)"
  have texts: "plainText 128 (rr_clusterGenesisHash rq)" "plainText 128 (rr_programId rq)" "plainText 128 (rr_sessionAccount rq)"
    "plainText 128 (rr_claimAccount rq)" "plainText 128 (rr_merchant rq)" "plainText 128 (rr_payerSignature rq)" "plainText 128 (rr_credentialHash rq)"
    using assms(3) by simp_all
  have member: "shortAscii (22 + n) (jsonQuote k @ CHR '':'' # v)" if "shortAscii 21 (jsonQuote k)" "shortAscii n v" for k v n
    using that by (auto simp: shortAscii_def)
  have quoted: "shortAscii (n + 2) (jsonQuote x)" if "plainText n x" for n x
    using that by (auto simp: shortAscii_def plainText_def plainText_quote [OF that])
  have keys: "list_all (\<lambda>k. shortAscii 21 (jsonQuote k)) [''version'', ''networkId'', ''clusterGenesisHash'', ''programId'', ''sessionAccount'',
      ''claimAccount'', ''merchant'', ''credentialPayload'', ''payerSignature'', ''credentialHash'']"
    by code_simp
  have "shortAscii 1 (decimal 0)" "shortAscii 1 (decimal 1)" "shortAscii 1 (decimal 2)" by code_simp+
  then have digit: "shortAscii 1 (decimal 1)" "shortAscii 1 (decimal (rr_networkId rq))" using assms(1) by auto
  let ?members = "[jsonQuote ''version'' @ CHR '':'' # decimal 1, jsonQuote ''networkId'' @ CHR '':'' # decimal (rr_networkId rq),
    jsonQuote ''clusterGenesisHash'' @ CHR '':'' # jsonQuote (rr_clusterGenesisHash rq), jsonQuote ''programId'' @ CHR '':'' # jsonQuote (rr_programId rq),
    jsonQuote ''sessionAccount'' @ CHR '':'' # jsonQuote (rr_sessionAccount rq), jsonQuote ''claimAccount'' @ CHR '':'' # jsonQuote (rr_claimAccount rq),
    jsonQuote ''merchant'' @ CHR '':'' # jsonQuote (rr_merchant rq), jsonQuote ''credentialPayload'' @ CHR '':'' # jsonQuote (rr_credentialPayload rq),
    jsonQuote ''payerSignature'' @ CHR '':'' # jsonQuote (rr_payerSignature rq), jsonQuote ''credentialHash'' @ CHR '':'' # jsonQuote (rr_credentialHash rq)]"
  have t: "?t = ''{'' @ joinComma ?members @ ''}''" by (simp add: requestObject_def)
  have "list_all2 shortAscii [22 + 1, 22 + 1, 22 + (128 + 2), 22 + (128 + 2), 22 + (128 + 2), 22 + (128 + 2), 22 + (128 + 2),
      22 + (820 + 2), 22 + (128 + 2), 22 + (128 + 2)] ?members"
    using keys unfolding list.pred_inject list.rel_inject by (intro conjI list.rel_intros member digit quoted texts assms(2)) simp_all
  from shortAscii_join [OF this] have "shortAscii 2100 (joinComma ?members)" unfolding shortAscii_def by simp
  moreover have "shortAscii 1 ''{''" "shortAscii 1 ''}''" by (simp_all add: shortAscii_def)
  ultimately have all: "shortAscii (1 + (2100 + 1)) ?t" unfolding t by (intro shortAscii_append)
  then have short: "length (concat (sr_chunks post)) \<le> MAX_BODY_BYTES" by (simp add: post(1) shortAscii_def MAX_BODY_BYTES_def textBytes_def)
  have parsed: "JSON_parse ?t = Some (requestObject rq)"
    by (rule JSON_parse_stringify) (simp add: requestObject_def)
  have "\<exists>n. declaredLength (sr_contentLength post) = Some n \<and> n \<le> MAX_BODY_BYTES"
    using post(2) short by (auto simp: declaredLength_decimal) (simp add: declaredLength_def)
  with readChunks_all [of 0 "sr_chunks post" "[]"] short all utf8Text_ascii [of ?t] parsed post(1) show ?thesis
    by (auto simp: readJson_def relayIf_def shortAscii_def)
qed

text \<open>Two claims on the sample, by their hash\<close>

definition claimRequest :: "byte \<Rightarrow> ClaimRelayerRequest" where
  "claimRequest h = \<lparr>rr_networkId = 1, rr_clusterGenesisHash = bytesToHex (replicate 32 1), rr_programId = bytesToHex (replicate 32 2),
     rr_sessionAccount = bytesToHex (replicate 32 3), rr_claimAccount = bytesToHex (replicate 32 4), rr_merchant = bytesToHex (replicate 32 9),
     rr_credentialPayload = bytesToHex (replicate 410 0), rr_payerSignature = bytesToHex (replicate 64 0), rr_credentialHash = bytesToHex (replicate 32 h)\<rparr>"

definition claimBody :: "ClaimRelayerRequest \<Rightarrow> ServerRequest" where
  "claimBody rq = claimPost ''a'' (textBytes (JSON_stringify (requestObject rq)))"

lemma claimBody_route: "claimRoute (claimBody rq)"
  by (simp add: claimRoute_def claimBody_def claimPost_json) (simp add: claimPost_def)

lemma claimRequest_read:
  "readJson (claimBody (claimRequest h)) = Inr (requestObject (claimRequest h))"
  "strictRequest sampleWeb3 (requestObject (claimRequest h)) = Inr (claimRequest h)"
proof -
  show "readJson (claimBody (claimRequest h)) = Inr (requestObject (claimRequest h))"
    unfolding claimBody_def by (rule claim_body_read) (simp_all add: claimRequest_def claimPost_def plainText_hex del: replicate.simps bytesToHex_simps)
  have key: "exactPublicKey sampleWeb3 (Some (JString (bytesToHex bs))) = Inr bs" if "length bs = 32" for bs
    using that by (simp add: exactPublicKey_def sampleWeb3_def isHex_def hexPairs_bytesToHex bytesToHex_digits del: list.set)
  show "strictRequest sampleWeb3 (requestObject (claimRequest h)) = Inr (claimRequest h)"
    by (rule requestObject_read [where g = "replicate 32 1" and m = "replicate 410 0" and s = "replicate 64 0" and h = "replicate 32 h"
          and program = "replicate 32 2" and session = "replicate 32 3" and claim = "replicate 32 4" and merchant = "replicate 32 9"])
      (simp_all add: claimRequest_def key del: replicate.simps bytesToHex_simps)
qed

theorem timed_out_submissions_pile_up_witness:
  "\<exists>w. served sampleLib sampleWeb3 sampleRelayer sampleLimits w \<and> ss_concurrent (wd_server w) = 0 \<and> card (running w) = 2 \<and>
    sl_maxConcurrent sampleLimits = 1"
proof -
  have "distinct (map rr_credentialHash [claimRequest 1, claimRequest 2])"
    by (simp add: claimRequest_def del: bytesToHex_simps)
  moreover have "list_all2 (\<lambda>post rq. claimRoute post \<and> (\<exists>input. readJson post = Inr input \<and> strictRequest sampleWeb3 input = Inr rq))
      [claimBody (claimRequest 1), claimBody (claimRequest 2)] [claimRequest 1, claimRequest 2]"
    using claimBody_route claimRequest_read by auto
  ultimately show ?thesis
    using timed_out_submissions_pile_up [OF sampleLimits_read, of "[claimRequest 1, claimRequest 2]" sampleWeb3
        "[claimBody (claimRequest 1), claimBody (claimRequest 2)]" sampleLib sampleRelayer]
    by (simp add: sampleLimits_def numeral_2_eq_2)
qed

theorem server_answers_once_witness:
  "\<exists>w. served sampleLib sampleWeb3 sampleRelayer sampleLimits w \<and> length (wd_requests w) = 1 \<and> wd_replies w = [] \<and>
    fst ` set (wd_handlers w) = {0} \<and> ss_concurrent (wd_server w) = 1 \<and> ss_concurrent (wd_server w) \<le> 1"
proof -
  obtain w where w: "served sampleLib sampleWeb3 sampleRelayer sampleLimits w"
    "wd_requests w = wd_requests (startedWorld 0) @ [claimBody (claimRequest 1)]" "wd_replies w = wd_replies (startedWorld 0)"
    "ss_concurrent (wd_server w) = 1"
    by (rule posted [OF sampleLimits_positive idle_start claimBody_route claimRequest_read(1,2)]) simp
  then have "wd_replies w = []" "length (wd_requests w) = 1" by (simp_all add: startedWorld_def)
  with w(1,4) server_answers_once [OF sampleLimits_read w(1)] show ?thesis by (auto simp: lessThan_Suc)
qed

text \<open>The sample claim is submitted and answered.\<close>

lemma sampleClaim_body:
  fixes rq
  defines "rq \<equiv> requestFor sampleWeb3 (sp_programId samplePort) sampleAddresses sampleEvidence (sp_trust samplePort)"
  shows "readJson (claimBody rq) = Inr (requestObject rq)"
proof -
  have b58: "base58OfPublicKey sampleWeb3 bs = bytesToHex bs" for bs by (simp add: sampleWeb3_def)
  have trust: "ev_networkId (sp_trust samplePort) = 1" "length (ev_clusterGenesisHash (sp_trust samplePort)) = 32"
    by (simp_all add: samplePort_def sampleTrust_def OfflineTrustEnvironment.defs StoredClaimTrust.defs sampleEnvironment_def sampleContext_def)
  have sizes: "length (cm_payload sampleMaterial) = 410" "length (cm_payerSignature sampleMaterial) = 64" "length (cm_credentialHash sampleMaterial) = 32"
    using sampleMaterial_facts by (simp_all add: length_hashSha256)
  show ?thesis
    unfolding claimBody_def
    by (rule claim_body_read)
      (use trust sizes in \<open>simp_all add: rq_def requestFor_def b58 claimPost_def plainText_hex sampleEvidence_def sampleAddresses_def samplePort_def
        del: replicate.simps bytesToHex_simps\<close>)
qed

theorem accepted_reply_is_own_claim_witness:
  "\<exists>w operation connection. served sampleLib sampleWeb3 sampleRelayer sampleLimits w \<and> wd_replies w = [(0, Accepted ''signature'')] \<and>
    (operation, connection, Inr ''signature'') \<in> set (wd_outcomes w) \<and>
    submitPlanned sampleLib sampleWeb3 sampleRelayer connection (rs_operations (wd_relayer w) ! operation) = Inr ''signature''"
proof -
  obtain rq where rq: "rq = requestFor sampleWeb3 (sp_programId samplePort) sampleAddresses sampleEvidence (sp_trust samplePort)"
    "strictRequest sampleWeb3 (requestObject rq) = Inr rq" by (rule sampleRequest_read)
  obtain p where "planRequest sampleLib sampleWeb3 sampleRelayer sampleConnection rq = Inr p" unfolding rq(1) by (rule samplePlan)
  then have sent: "submitPlanned sampleLib sampleWeb3 sampleRelayer sampleConnection rq = Inr ''signature''"
    by (simp add: submitPlanned_def sampleConnection_def relayIf_def)
  obtain w where w: "served sampleLib sampleWeb3 sampleRelayer sampleLimits w" "wd_replies w = wd_replies (startedWorld 0)"
    "wd_handlers w = [(length (wd_requests (startedWorld 0)), AwaitingSubmission (length ([] :: ClaimRelayerRequest list))
      (wd_now (startedWorld 0) + sl_submissionTimeoutMs sampleLimits))]"
    "rs_operations (wd_relayer w) = [] @ [rq]" "running w = {..<Suc (length ([] :: ClaimRelayerRequest list))}"
    by (rule posted [OF sampleLimits_positive idle_start claimBody_route sampleClaim_body [folded rq(1)] rq(2)]) simp
  let ?done = "w\<lparr>wd_relayer := finish 0 (wd_relayer w), wd_outcomes := wd_outcomes w @ [(0, sampleConnection, Inr ''signature'')]\<rparr>"
  have "served sampleLib sampleWeb3 sampleRelayer sampleLimits ?done"
    by (rule served.stepped [OF w(1) serverStep.settled [where connection = sampleConnection]]) (use w(4,5) sent in simp_all)
  moreover have "serverStep sampleLib sampleWeb3 sampleRelayer sampleLimits ?done (answer 0 (submissionReply (Inr ''signature'')) ?done)"
    by (rule serverStep.answered [where operation = 0 and connection = sampleConnection and
          deadline = "wd_now (startedWorld 0) + sl_submissionTimeoutMs sampleLimits"])
      (use w(3) in \<open>simp_all add: startedWorld_def\<close>)
  ultimately have run: "served sampleLib sampleWeb3 sampleRelayer sampleLimits (answer 0 (submissionReply (Inr ''signature'')) ?done)"
    by (rule served.stepped)
  have replies: "wd_replies (answer 0 (submissionReply (Inr ''signature'')) ?done) = [(0, Accepted ''signature'')]"
    using w(2) by (simp add: answer_def submissionReply_def startedWorld_def)
  have "(0, Accepted ''signature'') \<in> set (wd_replies (answer 0 (submissionReply (Inr ''signature'')) ?done))" unfolding replies by simp
  from accepted_reply_is_own_claim [OF sampleLimits_read run this] replies run show ?thesis by blast
qed

end
