(* ===== verification/ConfigurationTheorems.thy ===== *)
theory ConfigurationTheorems
  imports RuntimeConfiguration StorageClients PayerFacts
begin

text \<open>
  The configurations of the applications: what a configuration that is accepted looks like, and that
  two deployments never share a storage key.
\<close>

section \<open>Accepted configurations\<close>

definition bytes32 :: "bytes \<Rightarrow> bool" where
  "bytes32 bs \<longleftrightarrow> length bs = 32 \<and> \<not> allZero bs"

lemma hexPairs_length: "isHex n t \<Longrightarrow> length (hexPairs t) = n"
  using isHex_iff by (auto simp: hexPairs_bytesToHex)

lemma merchantBytes32_iff:
  "merchantBytes32 value name = Inr bs \<longleftrightarrow> (\<exists>t. value = Some t \<and> isHex 32 t \<and> bs = hexPairs t \<and> bytes32 bs)"
  by (auto simp: merchantBytes32_def bytes32_def Let_def hexPairs_length split: option.splits)

lemma payerBytes32_hex: "isHex 32 t \<Longrightarrow> payerBytes32 (Some t) name = Inr (hexPairs t)"
  by (auto simp: payerBytes32_def runtimeHexToBytes_iff isHex_iff hexPairs_bytesToHex intro!: exI)

lemma endpoint_safe:
  assumes "endpoint parseUrl value name allowLocalHttp allowQuery = Inr url"
  shows "\<exists>t parsed. value = Some t \<and> parseUrl t = Some parsed \<and> url = url_text parsed \<and>
    (url_protocol parsed = ''https:'' \<or> url_protocol parsed = ''http:'' \<and> loopbackHost parsed) \<and> url_username parsed = [] \<and> url_password parsed = [] \<and>
    (allowQuery \<or> url_search parsed = [] \<and> url_hash parsed = [])"
  using assms by (auto simp: endpoint_def bindE_Inr_iff fromLib_def split: option.splits)

text \<open>The parts of the storage keys\<close>

lemma scope_chars: "bytes32 g \<Longrightarrow> \<not> list_ex spaceChar (bytesToHex g)"
proof -
  have "\<forall>c \<in> set ''0123456789abcdef''. \<not> spaceChar c" by (simp add: spaceChar_def)
  then show ?thesis using bytesToHex_digits [of g] unfolding list_all_iff list_ex_iff by blast
qed

definition wellConfigured :: "MerchantRuntimeConfiguration \<Rightarrow> bool" where
  "wellConfigured runtime \<longleftrightarrow> ev_networkId (mr_trust runtime) \<in> {0, 1, 2} \<and> bytes32 (ev_clusterGenesisHash (mr_trust runtime)) \<and>
     bytes32 (ev_programId (mr_trust runtime)) \<and> bytes32 (ev_trustedCertificateIssuer (mr_trust runtime)) \<and> bytes32 (mr_merchant runtime)"

lemma configured_well:
  assumes "configuredMerchantRuntime parseUrl environment = Inr runtime"
  shows "wellConfigured runtime"
  using assms
  by (auto simp: configuredMerchantRuntime_def bindE_Inr_iff merchantBytes32_iff wellConfigured_def networkIdOf_def split: if_splits)

lemma network_digit: "list_all (\<lambda>n. length (decimal n) = 1 \<and> \<not> list_ex spaceChar (decimal n)) [0, 1, 2]"
  by code_simp

lemma namespace_valid:
  assumes "wellConfigured runtime"
  shows "validateDefinitions (mk_durableNamespace (merchantStorageKeys runtime historical))
    (so_components (merchantStore (mk_durableNamespace (merchantStorageKeys runtime historical)))) = Inr ()"
proof -
  have scope: "length (storageScope runtime) \<le> 196 \<and> \<not> list_ex spaceChar (storageScope runtime)"
  proof -
    have "length (decimal n) = 1 \<and> \<not> list_ex spaceChar (decimal n)" if "n \<in> {0, 1, 2}" for n
      using that network_digit by auto
    with assms scope_chars show ?thesis
      unfolding wellConfigured_def by (auto simp: storageScope_def bytes32_def spaceChar_def)
  qed
  let ?ns = "mk_durableNamespace (merchantStorageKeys runtime historical)"
  have "?ns \<noteq> [] \<and> length ?ns \<le> 240 \<and> \<not> list_ex spaceChar ?ns"
    using scope by (simp add: merchantStorageKeys_def LEGACY_KEYS_def spaceChar_def Let_def)
  then show ?thesis by (simp add: validateDefinitions_def merchant_components componentNameText_def)
qed

text \<open>
  C36: A merchant configuration that is accepted has a known network,
  hashes and keys of 32 bytes that are not all zero, the endpoints given, which parse as HTTPS URLs or
  URLs of the local machine and without credentials, and a storage namespace the store accepts; a payer built
  with the same variables accepts them and trusts exactly the same cluster, program and issuer.
\<close>

theorem accepted_configuration_is_sound:
  assumes "configuredMerchantRuntime parseUrl environment = Inr runtime"
  shows "wellConfigured runtime \<and>
    configuredTrustEnvironment (PayerRuntimeEnvironment.truncate environment) = Inr (mr_trust runtime) \<and>
    validateDefinitions (mk_durableNamespace (merchantStorageKeys runtime historical))
      (so_components (merchantStore (mk_durableNamespace (merchantStorageKeys runtime historical)))) = Inr () \<and>
    (\<exists>rpcText relayerText rpc relayer. me_RPC_URL environment = Some rpcText \<and> me_RELAYER_URL environment = Some relayerText \<and>
      parseUrl rpcText = Some rpc \<and> parseUrl relayerText = Some relayer \<and>
      url_text rpc = mr_rpcUrl runtime \<and> url_text relayer = mr_relayerUrl runtime \<and>
      (url_protocol rpc = ''https:'' \<or> url_protocol rpc = ''http:'' \<and> loopbackHost rpc) \<and> url_username rpc = [] \<and> url_password rpc = [] \<and>
      (url_protocol relayer = ''https:'' \<or> url_protocol relayer = ''http:'' \<and> loopbackHost relayer) \<and> url_username relayer = [] \<and>
      url_password relayer = [] \<and> url_search relayer = [] \<and> url_hash relayer = [])"
proof (intro conjI)
  show well: "wellConfigured runtime" by (rule configured_well [OF assms])
  show "validateDefinitions (mk_durableNamespace (merchantStorageKeys runtime historical))
      (so_components (merchantStore (mk_durableNamespace (merchantStorageKeys runtime historical)))) = Inr ()"
    by (rule namespace_valid [OF well])
  show "configuredTrustEnvironment (PayerRuntimeEnvironment.truncate environment) = Inr (mr_trust runtime)"
    using assms
    by (auto simp: configuredMerchantRuntime_def bindE_Inr_iff merchantBytes32_iff configuredTrustEnvironment_def PayerRuntimeEnvironment.defs
        payerBytes32_hex)
  obtain rpcUrl relayerUrl where urls: "endpoint parseUrl (me_RPC_URL environment) ''RPC URL'' True True = Inr rpcUrl"
    "endpoint parseUrl (me_RELAYER_URL environment) ''relayer URL'' True False = Inr relayerUrl" "mr_rpcUrl runtime = rpcUrl" "mr_relayerUrl runtime = relayerUrl"
    using assms by (auto simp: configuredMerchantRuntime_def bindE_Inr_iff)
  show "\<exists>rpcText relayerText rpc relayer. me_RPC_URL environment = Some rpcText \<and> me_RELAYER_URL environment = Some relayerText \<and>
      parseUrl rpcText = Some rpc \<and> parseUrl relayerText = Some relayer \<and>
      url_text rpc = mr_rpcUrl runtime \<and> url_text relayer = mr_relayerUrl runtime \<and>
      (url_protocol rpc = ''https:'' \<or> url_protocol rpc = ''http:'' \<and> loopbackHost rpc) \<and> url_username rpc = [] \<and> url_password rpc = [] \<and>
      (url_protocol relayer = ''https:'' \<or> url_protocol relayer = ''http:'' \<and> loopbackHost relayer) \<and> url_username relayer = [] \<and>
      url_password relayer = [] \<and> url_search relayer = [] \<and> url_hash relayer = []"
    using endpoint_safe [OF urls(1)] endpoint_safe [OF urls(2)] urls(3,4) by clarsimp
qed

section \<open>Storage keys\<close>

lemma storageScope_inject:
  assumes "wellConfigured r" "wellConfigured r'" "storageScope r = storageScope r'"
  shows "ev_networkId (mr_trust r) = ev_networkId (mr_trust r') \<and> ev_clusterGenesisHash (mr_trust r) = ev_clusterGenesisHash (mr_trust r') \<and>
    ev_programId (mr_trust r) = ev_programId (mr_trust r') \<and> mr_merchant r = mr_merchant r'"
proof -
  have sizes: "length (decimal (ev_networkId (mr_trust r))) = length (decimal (ev_networkId (mr_trust r')))"
    using assms(1,2) network_digit by (auto simp: wellConfigured_def)
  have "decimal (ev_networkId (mr_trust r)) = decimal (ev_networkId (mr_trust r')) \<and>
      bytesToHex (ev_clusterGenesisHash (mr_trust r)) = bytesToHex (ev_clusterGenesisHash (mr_trust r')) \<and>
      bytesToHex (ev_programId (mr_trust r)) = bytesToHex (ev_programId (mr_trust r')) \<and> bytesToHex (mr_merchant r) = bytesToHex (mr_merchant r')"
    using assms sizes by (simp add: storageScope_def wellConfigured_def bytes32_def)
  then show ?thesis by simp
qed

definition storageKeys :: "MerchantStorageKeys \<Rightarrow> string set" where
  "storageKeys keys = {mk_deviceKey keys, mk_claims keys, mk_outstandingChallenge keys, mk_durableNamespace keys}"

text \<open>
  Two accepted configurations share a storage key only if they are the same
  deployment (the same network, cluster, program and merchant), and no deployment shares one with the
  historical demonstration: no claim, key or request of one is ever read by another.
\<close>

theorem deployments_are_separate:
  assumes "configuredMerchantRuntime parseUrl environment = Inr r" "configuredMerchantRuntime parseUrl environment' = Inr r'"
    and "key \<in> storageKeys (merchantStorageKeys r historical)" "key \<in> storageKeys (merchantStorageKeys r' historical')"
  shows "historical = historical' \<and> (historical \<or> ev_networkId (mr_trust r) = ev_networkId (mr_trust r') \<and>
    ev_clusterGenesisHash (mr_trust r) = ev_clusterGenesisHash (mr_trust r') \<and> ev_programId (mr_trust r) = ev_programId (mr_trust r') \<and>
    mr_merchant r = mr_merchant r')"
proof -
  note inject = storageScope_inject [OF configured_well [OF assms(1)] configured_well [OF assms(2)]]
  have "historical = historical' \<and> (historical \<or> storageScope r = storageScope r')"
    using assms(3,4) by (cases historical; cases historical') (auto simp: storageKeys_def merchantStorageKeys_def LEGACY_KEYS_def Let_def)
  with inject show ?thesis by blast
qed

definition sampleUrl :: "string \<Rightarrow> UrlParts option" where
  "sampleUrl t =
    (let host = (if take 8 t = ''https://'' then drop 8 t else t) in
     Some \<lparr>url_protocol = ''https:'', url_hostname = host, url_username = [], url_password = [], url_search = [], url_hash = [],
       url_pathname = ''/'', url_text = ''https://'' @ host\<rparr>)"

definition sampleEnvironmentFor :: "byte \<Rightarrow> MerchantRuntimeEnvironment" where
  "sampleEnvironmentFor b = \<lparr>pe_NETWORK_ID = Some ''devnet'', pe_CLUSTER_GENESIS_HASH_HEX = Some (bytesToHex (replicate 32 1)),
     pe_PROGRAM_ID_HEX = Some (bytesToHex (replicate 32 2)), pe_CERTIFICATE_ISSUER_HEX = Some (bytesToHex (replicate 32 4)),
     me_MERCHANT_HEX = Some (bytesToHex (replicate 32 b)), me_RPC_URL = Some ''rpc'', me_RELAYER_URL = Some ''relayer''\<rparr>"

definition sampleConfiguration :: "byte \<Rightarrow> MerchantRuntimeConfiguration" where
  "sampleConfiguration b = \<lparr>mr_trust = \<lparr>ev_networkId = 1, ev_clusterGenesisHash = replicate 32 1, ev_programId = replicate 32 2,
     ev_trustedCertificateIssuer = replicate 32 4\<rparr>, mr_merchant = replicate 32 b, mr_rpcUrl = ''https://rpc'', mr_relayerUrl = ''https://relayer''\<rparr>"

lemma sampleConfiguration_read:
  assumes "b \<noteq> 0"
  shows "configuredMerchantRuntime sampleUrl (sampleEnvironmentFor b) = Inr (sampleConfiguration b)"
proof -
  have read: "merchantBytes32 (Some (bytesToHex (replicate 32 c))) name = Inr (replicate 32 c)" if "c \<noteq> 0" for c name
    unfolding merchantBytes32_iff using that
    by (simp add: isHex_bytesToHex hexPairs_bytesToHex bytes32_def allZero_def list_all_iff del: bytesToHex_simps replicate.simps)
  show ?thesis
    using read assms
    by (simp add: configuredMerchantRuntime_def sampleEnvironmentFor_def sampleConfiguration_def networkIdOf_def endpoint_def sampleUrl_def Let_def
        fromLib_def del: replicate.simps bytesToHex_simps)
qed

theorem accepted_configuration_is_sound_witness:
  "configuredMerchantRuntime sampleUrl (sampleEnvironmentFor 9) = Inr (sampleConfiguration 9) \<and> wellConfigured (sampleConfiguration 9) \<and>
    configuredTrustEnvironment (PayerRuntimeEnvironment.truncate (sampleEnvironmentFor 9)) = Inr (mr_trust (sampleConfiguration 9))"
proof -
  have read: "configuredMerchantRuntime sampleUrl (sampleEnvironmentFor 9) = Inr (sampleConfiguration 9)" by (rule sampleConfiguration_read) simp
  with accepted_configuration_is_sound [OF read] show ?thesis by blast
qed

theorem deployments_are_separate_witness:
  "mk_claims (merchantStorageKeys (sampleConfiguration 9) False) \<notin> storageKeys (merchantStorageKeys (sampleConfiguration 15) False)"
proof
  assume key: "mk_claims (merchantStorageKeys (sampleConfiguration 9) False) \<in> storageKeys (merchantStorageKeys (sampleConfiguration 15) False)"
  have own: "mk_claims (merchantStorageKeys (sampleConfiguration 9) False) \<in> storageKeys (merchantStorageKeys (sampleConfiguration 9) False)"
    by (simp add: storageKeys_def)
  have "configuredMerchantRuntime sampleUrl (sampleEnvironmentFor 9) = Inr (sampleConfiguration 9)"
    "configuredMerchantRuntime sampleUrl (sampleEnvironmentFor 15) = Inr (sampleConfiguration 15)"
    by (rule sampleConfiguration_read; simp)+
  from deployments_are_separate [OF this own key] show False by (simp add: sampleConfiguration_def)
qed

end
