(* ===== verification/ClaimHttpTheorems.thy ===== *)
theory ClaimHttpTheorems
  imports ClaimHttp ConfigurationTheorems RelayerServerTheorems
begin

text \<open>
  The merchant's HTTP client and the relayer's server, composed: the request the client posts is the
  one the server reads, and the reply the server gives is the result the client reports.
\<close>

text \<open>What the platform's \<open>URL\<close> promises: parsing the text of a parsed URL gives the same URL.\<close>

definition url_ok :: "url_parser \<Rightarrow> bool" where
  "url_ok parseUrl \<longleftrightarrow> (\<forall>t u. parseUrl t = Some u \<longrightarrow> parseUrl (url_text u) = Some u)"

text \<open>Public keys print as short texts of letters and digits.\<close>

definition plainKeys :: "web3 \<Rightarrow> bool" where
  "plainKeys W \<longleftrightarrow> (\<forall>k. length k = 32 \<longrightarrow> plainText 128 (base58OfPublicKey W k))"

text \<open>How the server sees a POST of \<open>fetch\<close>: the body may arrive in any number of pieces.\<close>

definition sentTo :: "ServerRequest \<Rightarrow> UrlParts \<Rightarrow> string \<Rightarrow> bool" where
  "sentTo post base body \<longleftrightarrow> sr_method post = ''POST'' \<and> sr_url post = url_pathname base \<and> sr_contentType post = Some ''application/json'' \<and>
     sr_contentLength post = Some (natDecimal (length body)) \<and> concat (sr_chunks post) = textBytes body"

text \<open>What \<open>respond\<close> of the server sends, without the text of an error's message\<close>

definition replyResponse :: "ServerReply \<Rightarrow> HttpResponse" where
  "replyResponse reply = (case reply of
      Health \<Rightarrow> \<lparr>hr_ok = True, hr_status = 200, hr_json = Some (JObject [(''status'', JString ''ok'')])\<rparr>
    | Failure status code \<Rightarrow> \<lparr>hr_ok = 200 \<le> status \<and> status < 300, hr_status = status, hr_json = Some (JObject [(''code'', JString code)])\<rparr>
    | Accepted signature \<Rightarrow> \<lparr>hr_ok = True, hr_status = 200, hr_json = Some (JObject [(''transactionSignature'', JString signature)])\<rparr>)"

lemma reply_read: "readResponse (replyResponse reply) = Inr signature \<longleftrightarrow> reply = Accepted signature \<and> isSolanaSignature signature"
  by (auto simp: readResponse_def replyResponse_def propertyOf_def bindE_Inr_iff fromLib_def split: ServerReply.splits)

lemma endpoint_again:
  assumes "url_ok parseUrl" "endpoint parseUrl value name True allowQuery = Inr url"
  obtains u where "parseUrl url = Some u" "assertEndpoint parseUrl url label True = Inr u" "allowQuery \<or> url_search u = [] \<and> url_hash u = []"
proof -
  obtain t u where u: "parseUrl t = Some u" "url = url_text u" "url_protocol u = ''https:'' \<or> url_protocol u = ''http:'' \<and> loopbackHost u"
    "url_username u = []" "url_password u = []" "allowQuery \<or> url_search u = [] \<and> url_hash u = []"
    using endpoint_safe [OF assms(2)] by blast
  with assms(1) have "parseUrl url = Some u" unfolding url_ok_def by blast
  with u show ?thesis by (intro that [of u]) (auto simp: assertEndpoint_def fromLib_def)
qed

text \<open>A configuration that was accepted always gives a port.\<close>

lemma configured_port:
  assumes "url_ok parseUrl" "configuredMerchantRuntime parseUrl environment = Inr runtime" "parseUrl (mr_relayerUrl runtime) = Some u"
  obtains node where "portEndpoints parseUrl (Some (mr_rpcUrl runtime)) (Some (mr_relayerUrl runtime)) =
      Inr (node, u\<lparr>url_pathname := claimsPath (url_pathname u)\<rparr>)"
    "createClaimPort L W parseUrl connection fetch runtime key =
      Inr (solanaPort L W (merchantPortConfig runtime key) (clientNode connection fetch node (u\<lparr>url_pathname := claimsPath (url_pathname u)\<rparr>)))"
proof -
  obtain rpc relayer where "endpoint parseUrl rpc ''RPC URL'' True True = Inr (mr_rpcUrl runtime)"
    "endpoint parseUrl relayer ''relayer URL'' True False = Inr (mr_relayerUrl runtime)"
    using assms(2) by (auto simp: configuredMerchantRuntime_def bindE_Inr_iff)
  from endpoint_again [OF assms(1) this(1), of "''RPC URL''"] endpoint_again [OF assms(1) this(2), of "''relayer URL''"]
  obtain node u' where node: "assertEndpoint parseUrl (mr_rpcUrl runtime) ''RPC URL'' True = Inr node"
    and u': "parseUrl (mr_relayerUrl runtime) = Some u'" "assertEndpoint parseUrl (mr_relayerUrl runtime) ''relayer URL'' True = Inr u'"
      "url_search u' = []" "url_hash u' = []"
    by metis
  then have ends: "portEndpoints parseUrl (Some (mr_rpcUrl runtime)) (Some (mr_relayerUrl runtime)) =
      Inr (node, u\<lparr>url_pathname := claimsPath (url_pathname u)\<rparr>)"
    using assms(3) by (simp add: portEndpoints_def relayerEndpoint_def)
  have "length (ev_programId (mr_trust runtime)) = 32"
    using configured_well [OF assms(2)] by (simp add: wellConfigured_def bytes32_def)
  then have "createPort (merchantPortConfig runtime key) 15000 750 = Inr (ev_programId (mr_trust runtime))"
    by (simp add: createPort_def merchantPortConfig_def merchantTrust_def assertProgramId_def equalBytes_eq)
  with ends show ?thesis by (intro that [OF ends]) (simp add: createClaimPort_def)
qed

text \<open>The request of a stored claim, with its texts\<close>

lemma claim_request:
  assumes "borsh_ok L" "hash_ok L" "web3_ok W" "plainKeys W" "wellConfigured runtime"
    and "evidenceFor L W (merchantPortConfig runtime key) claim = Inr (ev, a)"
  defines "rq \<equiv> requestFor W (ev_programId (mr_trust runtime)) a ev (merchantTrust runtime key)"
  shows "strictRequest W (requestObject rq) = Inr rq \<and> rr_networkId rq \<in> {0, 1, 2} \<and> plainText 820 (rr_credentialPayload rq) \<and>
    list_all (plainText 128) [rr_clusterGenesisHash rq, rr_programId rq, rr_sessionAccount rq, rr_claimAccount rq, rr_merchant rq,
      rr_payerSignature rq, rr_credentialHash rq]"
proof -
  let ?pc = "merchantPortConfig runtime key" and ?trust = "merchantTrust runtime key"
  have pc: "sp_programId ?pc = ev_programId ?trust" "sp_trust ?pc = ?trust" "ev_programId ?trust = ev_programId (mr_trust runtime)"
    by (simp_all add: merchantPortConfig_def merchantTrust_def)
  have steps: "materializeStoredClaimEvidence L claim ?trust = Inr ev" "deriveClaimAddresses W (sp_programId ?pc) ev = Inr a"
    using assms(6) by (auto simp: evidenceFor_def bindE_Inr_iff pc)
  from materialize_evidences [OF steps(1)] obtain c where c: "evidences L (sp_trust ?pc) ev c" unfolding pc .
  note read = evidence_request [OF assms(1-3) c steps(2), of "\<lparr>rf_networkId = ev_networkId ?trust,
      rf_clusterGenesisHash = ev_clusterGenesisHash ?trust, rf_programId = ev_programId ?trust, rf_relayer = []\<rparr>", unfolded pc, simplified]
  have strict: "strictRequest W (requestObject rq) = Inr rq" using read by (simp add: rq_def pc)
  have m: "createClaimSubmissionMaterial L c = Inr (sce_material ev)" using c by (simp add: evidences_def)
  note sizes = m [unfolded claim_material_iff [OF assms(1,2)]]
  obtain seeds seeds' where "findProgramAddress W seeds (ev_programId ?trust) = Some (ca_session a)"
    "findProgramAddress W seeds' (ev_programId ?trust) = Some (ca_claim a)"
    using steps(2) by (auto simp: deriveClaimAddresses_def assertProgramId_def addressOf_def bindE_Inr_iff pc)
  then have "length (ca_session a) = 32" "length (ca_claim a) = 32" using web3_address [OF assms(3)] by blast+
  moreover have "length (sce_merchant ev) = 32"
    using c sizes by (simp add: evidences_def validPaymentCredential_def)
  moreover have "length (ev_programId (mr_trust runtime)) = 32" "length (ev_clusterGenesisHash (mr_trust runtime)) = 32"
    "ev_networkId (mr_trust runtime) \<in> {0, 1, 2}"
    using assms(5) by (simp_all add: wellConfigured_def bytes32_def)
  ultimately show ?thesis
    using strict sizes assms(2,4) by (simp add: rq_def requestFor_def plainKeys_def plainText_hex merchantTrust_def length_hashSha256)
qed

text \<open>
  C15: A merchant's application whose configuration was accepted, with the relayer's URL
  at the root of its host, builds a port whose relayer client and the relayer's server understand each
  other. What the client posts for a stored claim reaches the route of the server with the right media
  type; however its body is split, the server reads from it exactly the request of the claim, and the schema of the
  relayer accepts it. Of all the replies of the server, the client reports success on the accepted
  submissions alone, with the signature of the reply, and an error on every other.
\<close>

theorem client_meets_server:
  assumes "borsh_ok L" "hash_ok L" "web3_ok W" "plainKeys W" "url_ok parseUrl" "configuredMerchantRuntime parseUrl environment = Inr runtime"
    and "parseUrl (mr_relayerUrl runtime) = Some u" "url_pathname u = ''/''"
    and "evidenceFor L W (merchantPortConfig runtime key) claim = Inr (ev, a)"
    and "rq = requestFor W (ev_programId (mr_trust runtime)) a ev (merchantTrust runtime key)"
  shows "\<exists>node base. createClaimPort L W parseUrl connection fetch runtime key =
      Inr (solanaPort L W (merchantPortConfig runtime key) (clientNode connection fetch node base)) \<and>
    (\<forall>post. sentTo post base (JSON_stringify (requestObject rq)) \<longrightarrow>
      claimRoute post \<and> readJson post = Inr (requestObject rq) \<and> strictRequest W (requestObject rq) = Inr rq) \<and>
    (\<forall>w reply w' signature. fetch base (JSON_stringify (requestObject rq)) w = (Inr (replyResponse reply), w') \<longrightarrow>
      (httpSubmit fetch base rq w = (Inr signature, w') \<longleftrightarrow> reply = Accepted signature \<and> isSolanaSignature signature))"
proof -
  let ?base = "u\<lparr>url_pathname := claimsPath (url_pathname u)\<rparr>"
  obtain node where port: "createClaimPort L W parseUrl connection fetch runtime key =
      Inr (solanaPort L W (merchantPortConfig runtime key) (clientNode connection fetch node ?base))"
    by (rule configured_port [OF assms(5,6,7)])
  note request = claim_request [OF assms(1-4) configured_well [OF assms(6)] assms(9), folded assms(10)]
  have json: "jsonContent (Some ''application/json'')" by code_simp
  have "claimRoute post \<and> readJson post = Inr (requestObject rq)" if post: "sentTo post ?base (JSON_stringify (requestObject rq))" for post
  proof
    show "claimRoute post" using post json assms(8) by (simp add: sentTo_def claimRoute_def claimsPath_def)
    show "readJson post = Inr (requestObject rq)"
      using post request by (intro claim_body_read) (simp_all add: sentTo_def textBytes_def)
  qed
  with port request show ?thesis
    by (intro exI conjI) (auto simp: httpSubmit_def reply_read)
qed

theorem client_meets_server_witness:
  "\<exists>(connection :: UrlParts \<Rightarrow> unit ChainNode) fetch node base post. sentTo post base (JSON_stringify (requestObject
      (requestFor sampleWeb3 (replicate 32 2) sampleAddresses sampleEvidence (merchantTrust (sampleConfiguration 9) (replicate 32 10))))) \<and>
    claimRoute post \<and> createClaimPort sampleLib sampleWeb3 sampleUrl connection fetch (sampleConfiguration 9) (replicate 32 10) =
      Inr (solanaPort sampleLib sampleWeb3 (merchantPortConfig (sampleConfiguration 9) (replicate 32 10)) (clientNode connection fetch node base))"
proof -
  have "\<exists>node base post. sentTo post base (JSON_stringify (requestObject
      (requestFor sampleWeb3 (replicate 32 2) sampleAddresses sampleEvidence (merchantTrust (sampleConfiguration 9) (replicate 32 10))))) \<and>
    claimRoute post \<and> createClaimPort sampleLib sampleWeb3 sampleUrl connection fetch (sampleConfiguration 9) (replicate 32 10) =
      Inr (solanaPort sampleLib sampleWeb3 (merchantPortConfig (sampleConfiguration 9) (replicate 32 10)) (clientNode connection fetch node base))" for connection :: "UrlParts \<Rightarrow> unit ChainNode" and fetch
  proof -
    let ?runtime = "sampleConfiguration 9" and ?key = "replicate 32 (10 :: byte)"
    let ?rq = "requestFor sampleWeb3 (replicate 32 2) sampleAddresses sampleEvidence (merchantTrust ?runtime ?key)"
    have url: "url_ok sampleUrl" by (simp add: url_ok_def sampleUrl_def Let_def)
    have keys: "plainKeys sampleWeb3" by (simp add: plainKeys_def sampleWeb3_def plainText_hex)
    have config: "configuredMerchantRuntime sampleUrl (sampleEnvironmentFor 9) = Inr ?runtime" by (rule sampleConfiguration_read) simp
    have runtime: "ev_programId (mr_trust ?runtime) = replicate 32 2" by (simp add: sampleConfiguration_def)
    obtain u where u: "sampleUrl (mr_relayerUrl ?runtime) = Some u" "url_pathname u = ''/''"
      by (simp add: sampleConfiguration_def sampleUrl_def Let_def)
    have "merchantPortConfig ?runtime ?key = samplePort"
      by (simp add: merchantPortConfig_def merchantTrust_def samplePort_def sampleTrust_def sampleConfiguration_def
          OfflineTrustEnvironment.defs StoredClaimTrust.defs sampleEnvironment_def sampleContext_def)
    then have evidence: "evidenceFor sampleLib sampleWeb3 (merchantPortConfig ?runtime ?key) sampleClaim = Inr (sampleEvidence, sampleAddresses)"
      using sampleClaim_evidence by simp
    from client_meets_server [OF sampleLib_borsh sampleLib_hash sampleWeb3_ok keys url config u evidence, unfolded runtime, OF refl,
        of connection fetch] obtain node base where
      port: "createClaimPort sampleLib sampleWeb3 sampleUrl connection fetch ?runtime ?key =
        Inr (solanaPort sampleLib sampleWeb3 (merchantPortConfig ?runtime ?key) (clientNode connection fetch node base))"
      and sent: "\<And>post. sentTo post base (JSON_stringify (requestObject ?rq)) \<Longrightarrow> claimRoute post" by blast
    let ?body = "JSON_stringify (requestObject ?rq)"
    let ?post = "\<lparr>sr_method = ''POST'', sr_url = url_pathname base, sr_contentType = Some ''application/json'',
      sr_contentLength = Some (natDecimal (length ?body)), sr_remoteAddress = None, sr_chunks = [textBytes ?body]\<rparr>"
    have "sentTo ?post base ?body" by (simp add: sentTo_def)
    with sent [OF this] port show ?thesis by blast
  qed
  then show ?thesis by blast
qed

end
