(* ===== verification/ClaimDeadline.thy ===== *)
theory ClaimDeadline
  imports DecimalText
begin

text \<open>
  \<open>apps/merchant-mobile/src/claim-deadline.ts\<close>: how long the merchant has to submit a claim, by the
  clock of the phone, with the deadline as text. \<open>Date.prototype.toISOString\<close> is written out: the year
  is the last one that has begun (\<open>DayFromYear\<close> of the language's specification), the month and the day
  of the month follow from the days within the year.
\<close>

section \<open>The calendar\<close>

definition leapYear :: "int \<Rightarrow> bool" where
  "leapYear y \<longleftrightarrow> y mod 4 = 0 \<and> (y mod 100 \<noteq> 0 \<or> y mod 400 = 0)"

definition dayFromYear :: "int \<Rightarrow> int" where
  "dayFromYear y = 365 * (y - 1970) + (y - 1969) div 4 - (y - 1901) div 100 + (y - 1601) div 400"

definition monthLengths :: "int \<Rightarrow> int list" where
  "monthLengths y = [31, if leapYear y then 29 else 28, 31, 30, 31, 30, 31, 31, 30, 31, 30, 31]"

function yearDown :: "int \<Rightarrow> int \<Rightarrow> int" where
  "yearDown day y = (if y \<le> 1970 \<or> dayFromYear y \<le> day then y else yearDown day (y - 1))"
  by auto

termination by (relation "measure (\<lambda>(day, y). nat (y - 1970))") auto

declare yearDown.simps [simp del]

fun monthDate :: "int list \<Rightarrow> int \<Rightarrow> int \<Rightarrow> int \<times> int" where
  "monthDate [] month day = (month, day + 1)"
| "monthDate (n # ns) month day = (if day < n then (month, day + 1) else monthDate ns (month + 1) (day - n))"

record CivilTime =
  ct_year :: int
  ct_month :: int
  ct_day :: int
  ct_hour :: int
  ct_minute :: int
  ct_second :: int
  ct_millisecond :: int

definition civilOf :: "int \<Rightarrow> CivilTime" where
  "civilOf ms =
    (let day = ms div 86400000; rest = ms mod 86400000; year = yearDown day (1970 + day div 365);
         (month, date) = monthDate (monthLengths year) 1 (day - dayFromYear year)
     in \<lparr>ct_year = year, ct_month = month, ct_day = date, ct_hour = rest div 3600000, ct_minute = rest div 60000 mod 60,
         ct_second = rest div 1000 mod 60, ct_millisecond = rest mod 1000\<rparr>)"

definition padded :: "nat \<Rightarrow> int \<Rightarrow> string" where
  "padded width n = replicate (width - length (natDecimal (nat n))) (CHR ''0'') @ natDecimal (nat n)"

definition isoText :: "CivilTime \<Rightarrow> string" where
  "isoText t =
    (if ct_year t \<le> 9999 then padded 4 (ct_year t) else ''+'' @ padded 6 (ct_year t)) @ ''-'' @ padded 2 (ct_month t) @ ''-'' @
    padded 2 (ct_day t) @ ''T'' @ padded 2 (ct_hour t) @ '':'' @ padded 2 (ct_minute t) @ '':'' @ padded 2 (ct_second t) @
    ''.'' @ padded 3 (ct_millisecond t) @ ''Z''"

section \<open>The deadline\<close>

datatype DeadlineUrgency = UrgencyNormal | UrgencyAttention | UrgencyUrgent | ApparentlyExpired

record ClaimDeadlinePresentation =
  dp_utc :: string
  dp_urgency :: DeadlineUrgency
  dp_message :: string

definition MAX_DATE_SECONDS :: int where "MAX_DATE_SECONDS = 8640000000000"

definition MAX_SAFE_INTEGER :: int where "MAX_SAFE_INTEGER = 2 ^ 53 - 1"

definition presentClaimDeadline :: "int \<Rightarrow> int \<Rightarrow> ClaimDeadlinePresentation result" where
  "presentClaimDeadline deadlineSeconds nowMilliseconds =
    bindE (failIf (deadlineSeconds < 0 \<or> deadlineSeconds > MAX_DATE_SECONDS) ''claim submission deadline fora do intervalo exibivel'') (\<lambda>_.
    bindE (failIf (\<bar>nowMilliseconds\<bar> > MAX_SAFE_INTEGER \<or> nowMilliseconds < 0) ''relogio local invalido'') (\<lambda>_.
    let deadlineMilliseconds = deadlineSeconds * 1000;
        remaining = deadlineMilliseconds - nowMilliseconds;
        utc = isoText (civilOf deadlineMilliseconds)
    in
    if remaining < 0 then Inr \<lparr>dp_utc = utc, dp_urgency = ApparentlyExpired,
      dp_message = ''O relogio deste aparelho indica que o prazo passou.''\<rparr>
    else if remaining \<le> 3600000 then Inr \<lparr>dp_utc = utc, dp_urgency = UrgencyUrgent,
      dp_message = ''Menos de 1 hora pelo relogio deste aparelho. Sincronize agora.''\<rparr>
    else if remaining \<le> 21600000 then Inr \<lparr>dp_utc = utc, dp_urgency = UrgencyAttention,
      dp_message = ''Menos de 6 horas pelo relogio deste aparelho.''\<rparr>
    else Inr \<lparr>dp_utc = utc, dp_urgency = UrgencyNormal,
      dp_message = ''Prazo de envio ainda nao esta proximo pelo relogio deste aparelho.''\<rparr>))"

section \<open>The calendar is right\<close>

definition validCivil :: "CivilTime \<Rightarrow> bool" where
  "validCivil t \<longleftrightarrow> 1970 \<le> ct_year t \<and> 1 \<le> ct_month t \<and> ct_month t \<le> 12 \<and>
     1 \<le> ct_day t \<and> ct_day t \<le> monthLengths (ct_year t) ! nat (ct_month t - 1) \<and>
     0 \<le> ct_hour t \<and> ct_hour t < 24 \<and> 0 \<le> ct_minute t \<and> ct_minute t < 60 \<and> 0 \<le> ct_second t \<and> ct_second t < 60 \<and>
     0 \<le> ct_millisecond t \<and> ct_millisecond t < 1000"

text \<open>The days since the epoch, counted year by year and month by month\<close>

fun daysBefore :: "nat \<Rightarrow> int" where
  "daysBefore 0 = 0"
| "daysBefore (Suc n) = daysBefore n + (if leapYear (1970 + int n) then 366 else 365)"

definition civilMilliseconds :: "CivilTime \<Rightarrow> int" where
  "civilMilliseconds t =
    ((daysBefore (nat (ct_year t - 1970)) + sum_list (take (nat (ct_month t - 1)) (monthLengths (ct_year t))) + (ct_day t - 1)) * 24 +
      ct_hour t) * 3600000 + ct_minute t * 60000 + ct_second t * 1000 + ct_millisecond t"

lemma div_next: "0 < n \<Longrightarrow> (a + 1) div n = a div n + (if (a + 1) mod n = 0 then 1 else 0)" for a n :: int
proof (cases "a mod n = n - 1")
  case True
  assume n: "0 < n"
  have "a + 1 = n * (a div n + 1)" using mult_div_mod_eq [of n a] True by (simp add: algebra_simps)
  with n show ?thesis by simp
next
  case False
  assume n: "0 < n"
  have a: "a + 1 = n * (a div n) + (a mod n + 1)" using mult_div_mod_eq [of n a] by simp
  have "0 \<le> a mod n" "a mod n < n" using n by simp_all
  with False have r: "0 \<le> a mod n + 1" "a mod n + 1 < n" by simp_all
  from int_div_pos_eq [OF a r] int_mod_pos_eq [OF a r] \<open>0 \<le> a mod n\<close> show ?thesis by simp
qed

lemma year_div:
  fixes a b n y k :: int
  assumes "0 < n" "b = a + 1" "b = y + k * n"
  shows "b div n = a div n + (if y mod n = 0 then 1 else 0)"
  using div_next [OF assms(1), of a] by (simp only: flip: assms(2)) (simp only: assms(3) mod_mult_self1)

lemma dayFromYear_next: "dayFromYear (y + 1) = dayFromYear y + (if leapYear y then 366 else 365)"
proof -
  have sum: "365 * (x + 1) + (a + (if p then 1 else 0)) - (b + (if q then 1 else 0)) + (c + (if r then 1 else 0)) =
      365 * x + a - b + c + (if p \<and> (\<not> q \<or> r) then 366 else 365)" if "r \<longrightarrow> q" "q \<longrightarrow> p" for x a b c :: int and p q r
    using that by (cases p; cases q; cases r) simp_all
  have next_year: "y + 1 - 1970 = y - 1970 + 1" "y + 1 - 1969 = y - 1968" "y + 1 - 1901 = y - 1900" "y + 1 - 1601 = y - 1600" by simp_all
  have "(y - 1968) div 4 = (y - 1969) div 4 + (if y mod 4 = 0 then 1 else 0)" by (rule year_div [where k = "- 492"]) simp_all
  moreover have "(y - 1900) div 100 = (y - 1901) div 100 + (if y mod 100 = 0 then 1 else 0)" by (rule year_div [where k = "- 19"]) simp_all
  moreover have "(y - 1600) div 400 = (y - 1601) div 400 + (if y mod 400 = 0 then 1 else 0)" by (rule year_div [where k = "- 4"]) simp_all
  moreover have "y mod 400 = 0 \<longrightarrow> y mod 100 = 0"
    unfolding mod_eq_0_iff_dvd by (intro impI, rule dvd_trans [of 100 400]) simp_all
  moreover have "y mod 100 = 0 \<longrightarrow> y mod 4 = 0"
    unfolding mod_eq_0_iff_dvd by (intro impI, rule dvd_trans [of 4 100]) simp_all
  ultimately show ?thesis unfolding dayFromYear_def leapYear_def next_year by (simp only: sum)
qed

lemma daysBefore_year: "daysBefore n = dayFromYear (1970 + int n)"
proof (induction n)
  case 0
  show ?case by (simp add: dayFromYear_def)
next
  case (Suc n)
  then show ?case using dayFromYear_next [of "1970 + int n"] by (simp add: add.assoc add.commute)
qed

lemma dayFromYear_bound: "1970 \<le> y \<Longrightarrow> 365 * (y - 1970) \<le> dayFromYear y"
proof -
  have "365 * int n \<le> daysBefore n" for n by (induction n) auto
  from this [of "nat (y - 1970)"] show "1970 \<le> y \<Longrightarrow> 365 * (y - 1970) \<le> dayFromYear y" by (simp add: daysBefore_year)
qed

lemma yearDown_spec:
  "0 \<le> day \<Longrightarrow> 1970 \<le> y \<Longrightarrow> day < dayFromYear (y + 1) \<Longrightarrow>
    1970 \<le> yearDown day y \<and> dayFromYear (yearDown day y) \<le> day \<and> day < dayFromYear (yearDown day y + 1)"
proof (induction day y rule: yearDown.induct)
  case (1 day y)
  show ?case
  proof (cases "dayFromYear y \<le> day")
    case True
    with 1(3,4) show ?thesis by (subst (1 2 3) yearDown.simps) simp
  next
    case False
    have "dayFromYear 1970 = 0" by (simp add: dayFromYear_def)
    with False 1(2,3) have later: "\<not> (y \<le> 1970 \<or> dayFromYear y \<le> day)" by (metis order_antisym)
    then have "yearDown day y = yearDown day (y - 1)" by (subst yearDown.simps) simp
    with 1(1) [OF later] 1(2) later show ?thesis by simp
  qed
qed

lemma monthDate_spec:
  assumes "0 \<le> d" "d < sum_list ns" "monthDate ns m d = (m', date)"
  shows "\<exists>k < length ns. m' = m + int k \<and> 1 \<le> date \<and> date \<le> ns ! k \<and> d = sum_list (take k ns) + (date - 1)"
  using assms
proof (induction ns arbitrary: m d)
  case (Cons n ns)
  show ?case
  proof (cases "d < n")
    case True
    with Cons.prems show ?thesis by (intro exI [of _ 0]) auto
  next
    case False
    with Cons.prems Cons.IH [of "d - n" "m + 1"] obtain k
      where "k < length ns" "m' = m + 1 + int k" "1 \<le> date" "date \<le> ns ! k" "d - n = sum_list (take k ns) + (date - 1)" by auto
    then show ?thesis by (intro exI [of _ "Suc k"]) auto
  qed
qed simp

text \<open>A time within the day, unit by unit\<close>

lemma clock:
  assumes "0 \<le> rest" "rest < 86400000"
  defines "h \<equiv> rest div 3600000" and "m \<equiv> rest div 60000 mod 60" and "s \<equiv> rest div 1000 mod 60" and "f \<equiv> rest mod 1000"
  shows "0 \<le> h \<and> h < 24 \<and> 0 \<le> m \<and> m < 60 \<and> 0 \<le> s \<and> s < 60 \<and> 0 \<le> f \<and> f < 1000 \<and>
    rest = h * 3600000 + m * 60000 + s * 1000 + (f :: int)"
proof -
  have parts: "rest div 60000 = rest div 1000 div 60" "rest div 3600000 = rest div 60000 div 60"
    using zdiv_zmult2_eq [of 60 rest 1000] zdiv_zmult2_eq [of 60 rest 60000] by simp_all
  have "rest = 1000 * (rest div 1000) + f" "rest div 1000 = 60 * (rest div 60000) + s" "rest div 60000 = 60 * h + m"
    unfolding f_def s_def m_def h_def parts by simp_all
  then have sum: "rest = h * 3600000 + m * 60000 + s * 1000 + f" by linarith
  moreover have "0 \<le> m \<and> m < 60 \<and> 0 \<le> s \<and> s < 60 \<and> 0 \<le> f \<and> f < 1000" by (simp add: m_def s_def f_def)
  moreover have "0 \<le> h" using assms(1) by (simp add: h_def pos_imp_zdiv_nonneg_iff)
  ultimately show ?thesis using assms(2) by linarith
qed

lemma civilOf_right:
  assumes "0 \<le> ms"
  shows "validCivil (civilOf ms) \<and> civilMilliseconds (civilOf ms) = ms"
proof -
  define day rest where "day = ms div 86400000" and "rest = ms mod 86400000"
  define y where "y = yearDown day (1970 + day div 365)"
  obtain month date where md: "monthDate (monthLengths y) 1 (day - dayFromYear y) = (month, date)" by fastforce
  have day: "0 \<le> day" "0 \<le> rest" "rest < 86400000" "ms = day * 86400000 + rest"
    using assms by (simp_all add: day_def rest_def pos_imp_zdiv_nonneg_iff)
  have "0 \<le> day div 365" using day(1) by (simp add: pos_imp_zdiv_nonneg_iff)
  moreover have "day < 365 * (1970 + day div 365 + 1 - 1970)"
    using mult_div_mod_eq [of 365 day] pos_mod_bound [of 365 day] by (simp only: algebra_simps)
  ultimately have "day < dayFromYear (1970 + day div 365 + 1)"
    using dayFromYear_bound [of "1970 + day div 365 + 1"] by linarith
  with yearDown_spec [OF day(1), of "1970 + day div 365"] \<open>0 \<le> day div 365\<close>
  have y: "1970 \<le> y" "dayFromYear y \<le> day" "day < dayFromYear (y + 1)" by (simp_all add: y_def)
  have "day - dayFromYear y < sum_list (monthLengths y)"
    using y(3) dayFromYear_next [of y] by (auto simp: monthLengths_def)
  moreover have "length (monthLengths y) = 12" by (simp add: monthLengths_def)
  ultimately obtain k where k: "k < 12" "month = 1 + int k" "1 \<le> date" "date \<le> monthLengths y ! k"
    "day - dayFromYear y = sum_list (take k (monthLengths y)) + (date - 1)"
    using monthDate_spec [OF _ _ md] y(2) by auto
  have c: "civilOf ms = \<lparr>ct_year = y, ct_month = month, ct_day = date, ct_hour = rest div 3600000, ct_minute = rest div 60000 mod 60,
      ct_second = rest div 1000 mod 60, ct_millisecond = rest mod 1000\<rparr>"
    using md by (simp add: civilOf_def Let_def flip: day_def rest_def y_def)
  have valid: "validCivil (civilOf ms)"
    using y(1) k clock [OF day(2,3)] by (simp add: c validCivil_def)
  have "daysBefore (nat (y - 1970)) = dayFromYear y" using y(1) by (simp add: daysBefore_year)
  moreover from clock [OF day(2,3)] have "rest = rest div 3600000 * 3600000 + rest div 60000 mod 60 * 60000 + rest div 1000 mod 60 * 1000 + rest mod 1000"
    by blast
  moreover have "civilMilliseconds (civilOf ms) = ((daysBefore (nat (y - 1970)) + sum_list (take k (monthLengths y)) + (date - 1)) * 24 +
      rest div 3600000) * 3600000 + rest div 60000 mod 60 * 60000 + rest div 1000 mod 60 * 1000 + rest mod 1000"
    unfolding c civilMilliseconds_def using k(2) by simp
  ultimately have "civilMilliseconds (civilOf ms) = ms" using k(5) day(4) by (simp only: algebra_simps)
  with valid show ?thesis by blast
qed

section \<open>What the merchant reads\<close>

text \<open>
  C37: A deadline is presented exactly when it is an instant a date can show and the clock is a
  time. Its text is then a date and time of the calendar, with the fields in their ranges, that is exactly the
  deadline, counting years and months from the epoch; and the urgency is the first of the limits (passed, one
  hour, six hours) that the time left does not exceed.
\<close>

theorem deadline_is_presented:
  "(\<exists>p t. presentClaimDeadline deadline now = Inr p \<and> dp_utc p = isoText t \<and> validCivil t \<and> civilMilliseconds t = deadline * 1000 \<and>
     (dp_urgency p = ApparentlyExpired \<longleftrightarrow> deadline * 1000 < now) \<and>
     (dp_urgency p \<in> {ApparentlyExpired, UrgencyUrgent} \<longleftrightarrow> deadline * 1000 \<le> now + 60 * 60 * 1000) \<and>
     (dp_urgency p \<noteq> UrgencyNormal \<longleftrightarrow> deadline * 1000 \<le> now + 6 * 60 * 60 * 1000)) \<longleftrightarrow>
   0 \<le> deadline \<and> deadline \<le> MAX_DATE_SECONDS \<and> 0 \<le> now \<and> now \<le> MAX_SAFE_INTEGER"
  (is "?lhs \<longleftrightarrow> ?rhs")
proof
  show "?lhs \<Longrightarrow> ?rhs" by (auto simp: presentClaimDeadline_def bindE_Inr_iff)
next
  assume r: ?rhs
  define p where "p = projr (presentClaimDeadline deadline now)"
  have p: "presentClaimDeadline deadline now = Inr p" "dp_utc p = isoText (civilOf (deadline * 1000))"
    "dp_urgency p = (if deadline * 1000 < now then ApparentlyExpired else if deadline * 1000 - now \<le> 3600000 then UrgencyUrgent
      else if deadline * 1000 - now \<le> 21600000 then UrgencyAttention else UrgencyNormal)"
    using r by (auto simp: p_def presentClaimDeadline_def Let_def)
  show ?lhs
    by (intro exI [of _ p] exI [of _ "civilOf (deadline * 1000)"] conjI p(1,2))
      (use r p(3) civilOf_right [of "deadline * 1000"] in auto)
qed

end
