(* ===== verification/LifecycleProbe.thy ===== *)
theory LifecycleProbe
  imports PayerRecovery RuntimeConfiguration
begin

text \<open>
  The development session of the payer's application, \<open>dev-session.ts\<close>, and the life-cycle probe that
  is built on it: \<open>h0-lifecycle-probe.ts\<close> of \<open>apps/payer-mobile/src\<close> and the handlers of
  \<open>apps/payer-mobile/App.h0.tsx\<close>, without what its screen draws. The probe stores the session in plain
  keys of the device, one access each; \<open>multiRemove\<close> removes its keys one after the other.
\<close>

section \<open>The development session\<close>

definition DEVICE_SECRET_HEX :: string where
  "DEVICE_SECRET_HEX = ''0202020202020202020202020202020202020202020202020202020202020202''"

definition AUTHORIZATION_HEX :: string where
  "AUTHORIZATION_HEX = ''4f47500000000000010001000101a1a1a1a1a1a1a1a1a1a1a1a1a1a1a1a1a1a1a1a1a1a1a1a1a1a1a1a1a1a1a1a1b2b2b2b2b2b2b2b2b2b2b2b2b2b2b2b2b2b2b2b2b2b2b2b2b2b2b2b2b2b2b2b2c3c3c3c3c3c3c3c3c3c3c3c3c3c3c3c3c3c3c3c3c3c3c3c3c3c3c3c3c3c3c3c38a88e3dd7409f195fd52db2d3cba5d72ca6709bf1d94121bf3748801b40f6f5c8139770ea87d175f56a35466c34c7ecccb8d8a91b4ee37a25df60f5b8fc9b394c3c3c3c3c3c3c3c3c3c3c3c3c3c3c3c3c3c3c3c3c3c3c3c3c3c3c3c3c3c3c3c3d4d4d4d4d4d4d4d4d4d4d4d4d4d4d4d4d4d4d4d4d4d4d4d4d4d4d4d4d4d4d4d4e803000000000000b80b00000000000020000000009435770000000030be3577000000001111111111111111111111111111111111111111111111111111111111111111ec506420e35c9bcd5e68bb6dab18b531d28363c5c2c61296cbdf6761fe2d271a2e2c4461b399c4f0d86d5175bc388e0cedcc40269cd08f1184797e21fcff3a0a''"

definition CERTIFICATE_HEX :: string where
  "CERTIFICATE_HEX = ''4f47500000000000010001000201a1a1a1a1a1a1a1a1a1a1a1a1a1a1a1a1a1a1a1a1a1a1a1a1a1a1a1a1a1a1a1a1b2b2b2b2b2b2b2b2b2b2b2b2b2b2b2b2b2b2b2b2b2b2b2b2b2b2b2b2b2b2b2b2c3c3c3c3c3c3c3c3c3c3c3c3c3c3c3c3c3c3c3c3c3c3c3c3c3c3c3c3c3c3c3c3c3c3c3c3c3c3c3c3c3c3c3c3c3c3c3c3c3c3c3c3c3c3c3c3c3c3c3c38a88e3dd7409f195fd52db2d3cba5d72ca6709bf1d94121bf3748801b40f6f5c8139770ea87d175f56a35466c34c7ecccb8d8a91b4ee37a25df60f5b8fc9b394d4d4d4d4d4d4d4d4d4d4d4d4d4d4d4d4d4d4d4d4d4d4d4d4d4d4d4d4d4d4d4d4e5e5e5e5e5e5e5e5e5e5e5e5e5e5e5e5e5e5e5e5e5e5e5e5e5e5e5e5e5e5e5e5e803000000000000b80b000000000000b80b00000000000020000000009435770000000030be35770000000090123677000000001b90453511c6e11082539c08d8e5129bf691c5254deded469050014e24a7ae29fa6ab2ee80499422bb3a6dda4297c1dc486e36da7358fb6997f2abccf8b3d83ff6f6f6f6f6f6f6f6f6f6f6f6f6f6f6f6f6f6f6f6f6f6f6f6f6f6f6f6f6f6f6f6ed4928c628d1c2c6eae90338905995612959273a5c63f93636c14614ac8737d12a000000000000002222222222222222222222222222222222222222222222222222222222222222aa3a6d456acd7494f2b206a28e9444aab01ab8024bd0832dd10d689fbda92e50f647680cebc47f667abae66350e49eeff08f07af88622e40a118740086ba8102''"

text \<open>The four bytes that the stored certificate lacks are put back at byte 138.\<close>

definition repairedCertificate :: "bytes \<Rightarrow> bytes" where
  "repairedCertificate truncated = take 138 truncated @ replicate 4 0xC3 @ drop 138 truncated"

definition sessionFrom :: "lib \<Rightarrow> DeviceAuthorization \<Rightarrow> SessionCertificate \<Rightarrow> PayerSessionRuntime result" where
  "sessionFrom L authorization certificate =
    (let trustContext = \<lparr>cx_networkId = dm_networkId (sc_domain certificate), cx_clusterGenesisHash = dm_clusterGenesisHash (sc_domain certificate),
           cx_programId = dm_programId (sc_domain certificate), cx_sessionId = sc_sessionId certificate,
           cx_trustedCertificateIssuer = sc_issuer certificate\<rparr>
     in
     bindE (createGenesisState trustContext
       \<lparr>gf_owner = sc_owner certificate, gf_devicePublicKey = sc_devicePublicKey certificate,
        gf_branchSpendingLimit = sc_branchSpendingLimit certificate, gf_maxBranchDepth = sc_maxBranchDepth certificate,
        gf_initialRemaining = sc_branchSpendingLimit certificate, gf_issuedAt = sc_issuedAt certificate,
        gf_expiresAt = sc_expiresAt certificate\<rparr>) (\<lambda>genesis.
     bindE (genesisStateHash L genesis) (\<lambda>stateHash.
       Inr \<lparr>rt_deviceSecretHex = DEVICE_SECRET_HEX, rt_deviceAuthorization = authorization, rt_sessionCertificate = certificate,
         rt_trustContext = trustContext,
         rt_initialParent = \<lparr>pt_stateHash = stateHash, pt_sequence = 0, pt_remaining = sc_branchSpendingLimit certificate\<rparr>\<rparr>)))"

definition loadDevelopmentSession :: "lib \<Rightarrow> PayerSessionRuntime result" where
  "loadDevelopmentSession L =
    bindE (bindE (runtimeHexToBytes AUTHORIZATION_HEX) (decodeDeviceAuthorization L)) (\<lambda>deviceAuthorization.
    bindE (runtimeHexToBytes CERTIFICATE_HEX) (\<lambda>truncatedCertificate.
    let certificateBytes = repairedCertificate truncatedCertificate in
    bindE (failIf (length certificateBytes \<noteq> 554)
      (''fixture certificate must be 554 bytes, received '' @ natDecimal (length certificateBytes))) (\<lambda>_.
    bindE (decodeSessionCertificate L certificateBytes) (\<lambda>sessionCertificate.
      sessionFrom L deviceAuthorization sessionCertificate))))"

section \<open>The public copy\<close>

definition H0_PUBLIC_COPY_PREFIX :: string where "H0_PUBLIC_COPY_PREFIX = ''OGP:H0:PUBLIC-COPY:V1:''"

definition H0_PUBLIC_COPY_MAX_QR_BYTES :: nat where "H0_PUBLIC_COPY_MAX_QR_BYTES = 2953"

record H0PublicCopyV1 =
  hc_provisioningJson :: string
  hc_branchStateJson :: string

definition publicCopyJson :: "H0PublicCopyV1 \<Rightarrow> string" where
  "publicCopyJson copy = JSON_stringify (JObject
    [(''version'', JNumber 1), (''provisioningJson'', JString (hc_provisioningJson copy)),
     (''branchStateJson'', JString (hc_branchStateJson copy))])"

definition withoutPrefix :: "string \<Rightarrow> string" where
  "withoutPrefix value =
    (if take (length H0_PUBLIC_COPY_PREFIX) value = H0_PUBLIC_COPY_PREFIX then drop (length H0_PUBLIC_COPY_PREFIX) value else value)"

definition parseH0PublicCopy :: "string \<Rightarrow> H0PublicCopyV1 result" where
  "parseH0PublicCopy value =
    bindE (failIf (length (concat (map utf8Char value)) > H0_PUBLIC_COPY_MAX_QR_BYTES) ''copia publica H0 excede o limite do QR'') (\<lambda>_.
    bindE (fromLib ''copia publica H0 nao contem JSON valido'' (JSON_parse (withoutPrefix value))) (\<lambda>parsed.
    (case parsed of
       JObject record \<Rightarrow>
         (case (map_of record ''version'', map_of record ''provisioningJson'', map_of record ''branchStateJson'') of
            (Some (JNumber n), Some (JString provisioningJson), Some (JString branchStateJson)) \<Rightarrow>
              bindE (failIf (n \<noteq> 1) ''copia publica H0 invalida'') (\<lambda>_.
              bindE (failIf (joinComma (sortBy compareText (map fst record)) \<noteq> ''branchStateJson,provisioningJson,version'')
                ''copia publica H0 contem campos inesperados'') (\<lambda>_.
                Inr \<lparr>hc_provisioningJson = provisioningJson, hc_branchStateJson = branchStateJson\<rparr>))
          | _ \<Rightarrow> Inl (JsError ''copia publica H0 invalida''))
     | _ \<Rightarrow> Inl (JsError ''copia publica H0 invalida''))))"

definition hashH0PublicCopy :: "lib \<Rightarrow> H0PublicCopyV1 \<Rightarrow> string" where
  "hashH0PublicCopy L copy = bytesToHex (hashSha256 L (concat (map utf8Char (publicCopyJson copy))))"

record H0ProbeMaterial =
  hm_persisted :: PersistedOnchainSession
  hm_publicCopy :: H0PublicCopyV1
  hm_publicCopyJson :: string
  hm_publicCopyHash :: string
  hm_expectedEnvironment :: OfflineTrustEnvironment

definition createH0ProbeMaterial :: "lib \<Rightarrow> H0ProbeMaterial result" where
  "createH0ProbeMaterial L =
    bindE (loadDevelopmentSession L) (\<lambda>runtime.
    bindE (createPersistedOnchainSession L \<lparr>pi_sessionAccount = replicate 32 0x44, pi_runtime = runtime, pi_parent = None,
        pi_frames = None, pi_pendingDelivery = None\<rparr>) (\<lambda>persisted.
    let publicCopy = \<lparr>hc_provisioningJson = po_provisioningJson persisted, hc_branchStateJson = po_branchStateJson persisted\<rparr> in
    Inr \<lparr>hm_persisted = persisted, hm_publicCopy = publicCopy, hm_publicCopyJson = publicCopyJson publicCopy,
      hm_publicCopyHash = hashH0PublicCopy L publicCopy,
      hm_expectedEnvironment = \<lparr>ev_networkId = cx_networkId (rt_trustContext runtime),
        ev_clusterGenesisHash = cx_clusterGenesisHash (rt_trustContext runtime), ev_programId = cx_programId (rt_trustContext runtime),
        ev_trustedCertificateIssuer = cx_trustedCertificateIssuer (rt_trustContext runtime)\<rparr>\<rparr>))"

record H0ProbeResult =
  hr_outcome :: SessionAccessOutcome
  hr_localValidationError :: "string option"
  hr_economicAuthorityAvailable :: bool

definition evaluateH0Snapshot :: "lib \<Rightarrow> PayerRecoveryStorageSnapshot \<Rightarrow> H0ProbeResult io" where
  "evaluateH0Snapshot L snapshot =
    bindIO (liftIO (createH0ProbeMaterial L)) (\<lambda>material.
    bindIO (evaluatePayerRecovery L
      \<lparr>ri_connected = False, ri_walletOwnerHex = None, ri_expectedEnvironment = hm_expectedEnvironment material\<rparr>
      (returnIO snapshot) (\<lambda>_. Inl (JsError ''RPC proibido no probe H0 offline''))) (\<lambda>result.
      returnIO \<lparr>hr_outcome = sad_outcome (rr_decision result), hr_localValidationError = rr_localValidationError result,
        hr_economicAuthorityAvailable = (sad_outcome (rr_decision result) = OfflineReady \<and> rr_restoredSession result \<noteq> None)\<rparr>))"

section \<open>The probe's storage\<close>

definition probeLoad :: "PayerRecoveryStorageSnapshot io" where
  "probeLoad =
    bindIO (storageGet PublicArea ONCHAIN_PROVISIONING_STORAGE) (\<lambda>provisioningJson.
    bindIO (storageGet PublicArea ONCHAIN_BRANCH_STORAGE) (\<lambda>branchStateJson.
    bindIO (storageGet ProtectedArea ONCHAIN_DEVICE_KEY_STORAGE) (\<lambda>deviceSecretHex.
      returnIO \<lparr>sn_provisioningJson = provisioningJson, sn_branchStateJson = branchStateJson, sn_deviceSecretHex = deviceSecretHex\<rparr>)))"

definition probeCommit :: "PersistedOnchainSession \<Rightarrow> unit io" where
  "probeCommit snapshot =
    bindIO (storageSet PublicArea ONCHAIN_BRANCH_STORAGE (po_branchStateJson snapshot)) (\<lambda>_.
    bindIO (storageSet PublicArea ONCHAIN_PROVISIONING_STORAGE (po_provisioningJson snapshot)) (\<lambda>_.
      storageSet ProtectedArea ONCHAIN_DEVICE_KEY_STORAGE (po_deviceSecretHex snapshot)))"

definition resetStorage :: "unit io" where
  "resetStorage =
    bindIO (storageRemove PublicArea ONCHAIN_PROVISIONING_STORAGE) (\<lambda>_.
    bindIO (storageRemove PublicArea ONCHAIN_BRANCH_STORAGE) (\<lambda>_.
      storageRemove ProtectedArea ONCHAIN_DEVICE_KEY_STORAGE))"

section \<open>The handlers\<close>

datatype ProbeScenario = InitialProbe | ValidProbe | LostSecureKey | PublicOnly | ImportedPublic | ResetProbe

record ProbeView =
  pv_scenario :: ProbeScenario
  pv_outcome :: SessionAccessOutcome
  pv_error :: "string option"
  pv_publicHash :: "string option"
  pv_publicPresent :: bool
  pv_secretPresent :: bool
  pv_economicAuthorityAvailable :: bool

definition inspectProbe :: "lib \<Rightarrow> ProbeScenario \<Rightarrow> ProbeView io" where
  "inspectProbe L scenario =
    bindIO probeLoad (\<lambda>snapshot.
    bindIO (evaluateH0Snapshot L snapshot) (\<lambda>result.
      returnIO \<lparr>pv_scenario = scenario, pv_outcome = hr_outcome result, pv_error = hr_localValidationError result,
        pv_publicHash = (case (sn_provisioningJson snapshot, sn_branchStateJson snapshot) of
            (Some provisioningJson, Some branchStateJson) \<Rightarrow>
              Some (hashH0PublicCopy L \<lparr>hc_provisioningJson = provisioningJson, hc_branchStateJson = branchStateJson\<rparr>)
          | _ \<Rightarrow> None),
        pv_publicPresent = (sn_provisioningJson snapshot \<noteq> None \<and> sn_branchStateJson snapshot \<noteq> None),
        pv_secretPresent = (sn_deviceSecretHex snapshot \<noteq> None),
        pv_economicAuthorityAvailable = hr_economicAuthorityAvailable result\<rparr>))"

definition seedValid :: "lib \<Rightarrow> H0ProbeMaterial \<Rightarrow> ProbeView io" where
  "seedValid L material =
    bindIO resetStorage (\<lambda>_.
    bindIO (persistConfirmedProvisioning probeCommit (hm_persisted material)) (\<lambda>_.
      inspectProbe L ValidProbe))"

definition loseSecureKey :: "lib \<Rightarrow> ProbeView io" where
  "loseSecureKey L =
    bindIO (storageRemove ProtectedArea ONCHAIN_DEVICE_KEY_STORAGE) (\<lambda>_. inspectProbe L LostSecureKey)"

definition storePublicCopy :: "H0PublicCopyV1 \<Rightarrow> unit io" where
  "storePublicCopy copy =
    bindIO (storageSet PublicArea ONCHAIN_BRANCH_STORAGE (hc_branchStateJson copy)) (\<lambda>_.
      storageSet PublicArea ONCHAIN_PROVISIONING_STORAGE (hc_provisioningJson copy))"

definition restorePublicOnly :: "lib \<Rightarrow> H0ProbeMaterial \<Rightarrow> ProbeView io" where
  "restorePublicOnly L material =
    bindIO resetStorage (\<lambda>_.
    bindIO (storePublicCopy (hm_publicCopy material)) (\<lambda>_.
      inspectProbe L PublicOnly))"

definition resetProbe :: "lib \<Rightarrow> ProbeView io" where
  "resetProbe L = bindIO resetStorage (\<lambda>_. inspectProbe L ResetProbe)"

definition importedCopy :: "lib \<Rightarrow> string \<Rightarrow> ProbeView io" where
  "importedCopy L value =
    bindIO (liftIO (parseH0PublicCopy value)) (\<lambda>imported.
    bindIO resetStorage (\<lambda>_.
    bindIO (storePublicCopy imported) (\<lambda>_.
      inspectProbe L ImportedPublic)))"

text \<open>The state of \<open>H0LifecycleApp\<close>; its handlers run through \<open>runProbe\<close>.\<close>

record ProbeApp =
  pb_view :: "ProbeView option"
  pb_busy :: bool
  pb_failure :: "js_error option"
  pb_showExport :: bool
  pb_showImport :: bool
  pb_importLocked :: bool

definition runProbe :: "ProbeView io \<Rightarrow> ProbeApp \<Rightarrow> ProbeApp io" where
  "runProbe operation app =
    (if pb_busy app then returnIO app
     else
       (let started = app\<lparr>pb_busy := True, pb_failure := None\<rparr> in
        bindIO
          (catchIO
            (bindIO operation (\<lambda>view. returnIO (started\<lparr>pb_view := Some view\<rparr>)))
            (\<lambda>reason. returnIO (started\<lparr>pb_failure := Some reason\<rparr>)))
          (\<lambda>ended. returnIO (ended\<lparr>pb_busy := False\<rparr>))))"

definition importPublic :: "lib \<Rightarrow> string \<Rightarrow> ProbeApp \<Rightarrow> ProbeApp io" where
  "importPublic L value app =
    (if pb_busy app \<or> pb_importLocked app then returnIO app
     else bindIO (runProbe (importedCopy L value) (app\<lparr>pb_importLocked := True, pb_showImport := False\<rparr>)) (\<lambda>ended.
       returnIO (ended\<lparr>pb_importLocked := False\<rparr>)))"

definition exportedText :: "H0ProbeMaterial \<Rightarrow> string" where
  "exportedText material = H0_PUBLIC_COPY_PREFIX @ hm_publicCopyJson material"

end
