(* ===== verification/DevelopmentSession.thy ===== *)
theory DevelopmentSession
  imports LifecycleProbe PayerTheorems
begin

text \<open>
  The development session, field by field, and that the bytes in \<open>dev-session.ts\<close> are its canonical
  encoding: it loads with every library that keeps the Borsh layout.
\<close>

text \<open>The session of the demonstration, field by field\<close>

definition developmentContext :: ProtocolTrustContext where
  "developmentContext = \<lparr>cx_networkId = 1, cx_clusterGenesisHash = replicate 32 0xA1, cx_programId = replicate 32 0xB2,
     cx_sessionId = replicate 32 0xC3,
     cx_trustedCertificateIssuer = hexPairs ''ed4928c628d1c2c6eae90338905995612959273a5c63f93636c14614ac8737d1''\<rparr>"

definition developmentAuthorization :: DeviceAuthorization where
  "developmentAuthorization = \<lparr>da_domain = createDomain developmentContext DeviceAuthorizationObject,
     da_owner = hexPairs ''8a88e3dd7409f195fd52db2d3cba5d72ca6709bf1d94121bf3748801b40f6f5c'',
     da_devicePublicKey = hexPairs ''8139770ea87d175f56a35466c34c7ecccb8d8a91b4ee37a25df60f5b8fc9b394'',
     da_sessionId = replicate 32 0xC3,
     da_vault = replicate 32 0xD4,
     da_branchSpendingLimit = 1000,
     da_collateralCoverageCap = 3000,
     da_maxBranchDepth = 32,
     da_issuedAt = 2000000000,
     da_expiresAt = 2000010800,
     da_authorizationNonce = replicate 32 0x11,
     da_walletSignature = hexPairs ''ec506420e35c9bcd5e68bb6dab18b531d28363c5c2c61296cbdf6761fe2d271a2e2c4461b399c4f0d86d5175bc388e0cedcc40269cd08f1184797e21fcff3a0a''\<rparr>"

definition developmentCertificate :: SessionCertificate where
  "developmentCertificate = \<lparr>sc_domain = createDomain developmentContext SessionCertificateObject,
     sc_sessionId = replicate 32 0xC3,
     sc_owner = hexPairs ''8a88e3dd7409f195fd52db2d3cba5d72ca6709bf1d94121bf3748801b40f6f5c'',
     sc_devicePublicKey = hexPairs ''8139770ea87d175f56a35466c34c7ecccb8d8a91b4ee37a25df60f5b8fc9b394'',
     sc_vault = replicate 32 0xD4,
     sc_tokenMint = replicate 32 0xE5,
     sc_branchSpendingLimit = 1000,
     sc_collateralLocked = 3000,
     sc_collateralCoverageCap = 3000,
     sc_maxBranchDepth = 32,
     sc_issuedAt = 2000000000,
     sc_expiresAt = 2000010800,
     sc_claimSubmissionDeadline = 2000032400,
     sc_genesisStateHash = hexPairs ''1b90453511c6e11082539c08d8e5129bf691c5254deded469050014e24a7ae29'',
     sc_deviceAuthorizationHash = hexPairs ''fa6ab2ee80499422bb3a6dda4297c1dc486e36da7358fb6997f2abccf8b3d83f'',
     sc_identityAttestationHash = replicate 32 0xF6,
     sc_issuer = hexPairs ''ed4928c628d1c2c6eae90338905995612959273a5c63f93636c14614ac8737d1'',
     sc_finalizedSlot = 42,
     sc_certificateNonce = replicate 32 0x22,
     sc_issuerSignature = hexPairs ''aa3a6d456acd7494f2b206a28e9444aab01ab8024bd0832dd10d689fbda92e50f647680cebc47f667abae66350e49eeff08f07af88622e40a118740086ba8102''\<rparr>"

lemma developmentAuthorization_bytes:
  "(case signedDeviceAuthorization developmentAuthorization of Inl _ \<Rightarrow> None
    | Inr obj \<Rightarrow> borshFields (deviceAuthorizationFields @ [(''walletSignature'', fixedBytes 64)]) obj) = Some (hexPairs AUTHORIZATION_HEX)"
  by code_simp

lemma developmentCertificate_bytes:
  "(case signedSessionCertificate developmentCertificate of Inl _ \<Rightarrow> None
    | Inr obj \<Rightarrow> borshFields (sessionCertificateFields @ [(''issuerSignature'', fixedBytes 64)]) obj) =
     Some (repairedCertificate (hexPairs CERTIFICATE_HEX))"
  by code_simp

lemma development_texts: "runtimeHexToBytes AUTHORIZATION_HEX = Inr (hexPairs AUTHORIZATION_HEX)"
  "runtimeHexToBytes CERTIFICATE_HEX = Inr (hexPairs CERTIFICATE_HEX)" "length (repairedCertificate (hexPairs CERTIFICATE_HEX)) = 554"
  "length (hexPairs AUTHORIZATION_HEX) = 370"
  by code_simp+

lemma development_loaded:
  assumes "borsh_ok L"
  shows "loadDevelopmentSession L = sessionFrom L developmentAuthorization developmentCertificate"
proof -
  have "encodeDeviceAuthorization L developmentAuthorization = Inr (hexPairs AUTHORIZATION_HEX)"
    using developmentAuthorization_bytes
    unfolding encodeDeviceAuthorization_def' authorization_signed.encodeWith_Inr_iff [OF assms] by (auto split: sum.splits)
  moreover have "encodeSessionCertificate L developmentCertificate = Inr (repairedCertificate (hexPairs CERTIFICATE_HEX))"
    using developmentCertificate_bytes
    unfolding encodeSessionCertificate_def' certificate_signed.encodeWith_Inr_iff [OF assms] by (auto split: sum.splits)
  ultimately show ?thesis
    using development_texts
    by (simp add: loadDevelopmentSession_def decodeDeviceAuthorization_iff [OF assms, THEN iffD2] decodeSessionCertificate_iff [OF assms, THEN iffD2])
qed

lemma development_valid:
  "validDeviceAuthorization developmentAuthorization" "length (da_walletSignature developmentAuthorization) = 64"
  "validSessionCertificate developmentCertificate" "length (sc_issuerSignature developmentCertificate) = 64"
  "soundTerms developmentCertificate" "matchesAuthorization developmentCertificate developmentAuthorization"
  "validGenesisState (genesisOf developmentContext developmentCertificate)"
  by code_simp+

lemma development_domain:
  "contextDomain developmentContext SessionCertificateObject (sc_domain developmentCertificate)"
  "contextDomain developmentContext DeviceAuthorizationObject (da_domain developmentAuthorization)"
  "sc_sessionId developmentCertificate = cx_sessionId developmentContext" "da_sessionId developmentAuthorization = cx_sessionId developmentContext"
  "sc_issuer developmentCertificate = cx_trustedCertificateIssuer developmentContext"
  by (simp_all add: contextDomain_def createDomain_def developmentCertificate_def developmentAuthorization_def developmentContext_def)

definition developmentRuntime :: "bytes \<Rightarrow> PayerSessionRuntime" where
  "developmentRuntime stateHash = \<lparr>rt_deviceSecretHex = DEVICE_SECRET_HEX, rt_deviceAuthorization = developmentAuthorization,
     rt_sessionCertificate = developmentCertificate, rt_trustContext = developmentContext,
     rt_initialParent = \<lparr>pt_stateHash = stateHash, pt_sequence = 0, pt_remaining = sc_branchSpendingLimit developmentCertificate\<rparr>\<rparr>"

lemma development_session:
  assumes "borsh_ok L" "genesisStateHash L (genesisOf developmentContext developmentCertificate) = Inr stateHash"
  shows "loadDevelopmentSession L = Inr (developmentRuntime stateHash)"
proof -
  let ?c = developmentCertificate
  have trust: "\<lparr>cx_networkId = dm_networkId (sc_domain ?c), cx_clusterGenesisHash = dm_clusterGenesisHash (sc_domain ?c),
      cx_programId = dm_programId (sc_domain ?c), cx_sessionId = sc_sessionId ?c, cx_trustedCertificateIssuer = sc_issuer ?c\<rparr> = developmentContext"
    by (simp add: developmentCertificate_def developmentContext_def createDomain_def)
  have "createGenesisState developmentContext (certificateGenesis ?c) = Inr (genesisOf developmentContext ?c)"
    unfolding createGenesisState_iff using development_valid(5) by (simp add: soundTerms_def)
  then show ?thesis
    unfolding development_loaded [OF assms(1)] sessionFrom_def trust Let_def
    using assms(2) by (simp add: developmentRuntime_def certificateGenesis_def)
qed

section \<open>A library with which it verifies\<close>

text \<open>
  Its digests are those the session's documents name, every signature verifies, and the key
  of every secret is the device's.
\<close>

definition probeLib :: lib where
  "probeLib = sampleLib\<lparr>sha256 := (\<lambda>m. if m = hexPairs AUTHORIZATION_HEX then sc_deviceAuthorizationHash developmentCertificate
       else if length m = LEN_genesisState then sc_genesisStateHash developmentCertificate else lastBytes 32 m),
     ed25519GetPublicKey := (\<lambda>_. Some (sc_devicePublicKey developmentCertificate)), ed25519Verify := (\<lambda>_ _ _. Some True)\<rparr>"

lemma probeLib_ok: "borsh_ok probeLib" "hash_ok probeLib"
  using development_valid(3) by (simp_all add: probeLib_def borsh_ok_def hash_ok_def sampleLib_def borsh.borsh_library_axioms validSessionCertificate_def)

lemma probeLib_verifies [simp]: "verifyEd25519 probeLib s m k"
  by (simp add: verifyEd25519_def probeLib_def)

lemma development_stored:
  "\<exists>runtime ps. loadDevelopmentSession probeLib = Inr runtime \<and>
    createPersistedOnchainSession probeLib \<lparr>pi_sessionAccount = replicate 32 0x44, pi_runtime = runtime, pi_parent = None,
        pi_frames = None, pi_pendingDelivery = None\<rparr> = Inr ps"
proof -
  let ?c = developmentCertificate and ?a = developmentAuthorization and ?runtime = "developmentRuntime (sc_genesisStateHash developmentCertificate)"
  obtain g where g: "encodeGenesisState probeLib (genesisOf developmentContext ?c) = Inr g"
    using encodeGenesisState_ok [OF probeLib_ok(1)] development_valid(7) by (metis isOk_iff)
  then have "length g = LEN_genesisState" unfolding encodeGenesisState_def' by (rule genesis_payload.encodeWith_length)
  moreover have "g \<noteq> hexPairs AUTHORIZATION_HEX" using calculation development_texts(4) by (auto simp: LEN_genesisState_def)
  ultimately have genesis: "genesisStateHash probeLib (genesisOf developmentContext ?c) = Inr (sc_genesisStateHash ?c)"
    using g by (simp add: genesisStateHash_def hashSha256_def probeLib_def)
  have "encodeDeviceAuthorization probeLib ?a = Inr (hexPairs AUTHORIZATION_HEX)"
    using developmentAuthorization_bytes
    unfolding encodeDeviceAuthorization_def' authorization_signed.encodeWith_Inr_iff [OF probeLib_ok(1)] by (auto split: sum.splits)
  then have hash: "deviceAuthorizationHash probeLib ?a = Inr (sc_deviceAuthorizationHash ?c)"
    by (simp add: deviceAuthorizationHash_def hashSha256_def probeLib_def)
  have "isOk (encodeSessionCertificatePayload probeLib ?c)" "isOk (encodeDeviceAuthorizationPayload probeLib ?a)"
    using development_valid encodeSessionCertificatePayload_ok [OF probeLib_ok(1)] encodeDeviceAuthorizationPayload_ok [OF probeLib_ok(1)] by blast+
  then have chain: "validateCertificateChain probeLib developmentContext ?c ?a = Inr ()"
    using development_domain development_valid(5,6) hash
    by (auto simp: validateCertificateChain_iff trustedCertificate_def verifySessionCertificate_iff verifyDeviceAuthorization_iff isOk_iff contextDomain_def)
  have secret: "DEVICE_SECRET_HEX = bytesToHex (replicate 32 2)" by code_simp
  let ?i = "\<lparr>pi_sessionAccount = replicate 32 0x44, pi_runtime = ?runtime, pi_parent = None, pi_frames = None, pi_pendingDelivery = None\<rparr>"
  have "storable probeLib ?i []"
    using chain genesis development_valid(2,4) secret
    by (auto simp: storable_def Let_def developmentRuntime_def provenBy_def storedParent_def storedFrames_def storedPending_def genesisParent_def
        derivePublicKey_def probeLib_def simp del: replicate.simps intro!: exI [of _ "replicate 32 2"])
  then have "isOk (createPersistedOnchainSession probeLib ?i)" using stores_storable [OF probeLib_ok] by blast
  with development_session [OF probeLib_ok(1) genesis] show ?thesis by (auto simp: isOk_iff)
qed

end
