(* ===== verification/LifecycleProbeTheorems.thy ===== *)
theory LifecycleProbeTheorems
  imports DevelopmentSession StorageLive
begin

text \<open>
  The life-cycle probe: its public copy is read back as it was written, and it gives no one but the
  holder of the device key any authority. The development session the probe starts from is decoded for
  every library that keeps the Borsh layout.
\<close>

section \<open>The public copy\<close>

lemma parse_publicCopy:
  assumes "length (concat (map utf8Char value)) \<le> H0_PUBLIC_COPY_MAX_QR_BYTES"
    and "value = H0_PUBLIC_COPY_PREFIX @ publicCopyJson copy \<or> value = publicCopyJson copy"
  shows "parseH0PublicCopy value = Inr copy"
proof -
  have brace: "hd (publicCopyJson copy) = CHR ''{''" by (simp add: publicCopyJson_def)
  have letter: "hd H0_PUBLIC_COPY_PREFIX = CHR ''O''" "0 < length H0_PUBLIC_COPY_PREFIX" by (simp_all add: H0_PUBLIC_COPY_PREFIX_def)
  have "take (length H0_PUBLIC_COPY_PREFIX) (publicCopyJson copy) \<noteq> H0_PUBLIC_COPY_PREFIX"
  proof
    assume "take (length H0_PUBLIC_COPY_PREFIX) (publicCopyJson copy) = H0_PUBLIC_COPY_PREFIX"
    with letter(2) have "hd (publicCopyJson copy) = hd H0_PUBLIC_COPY_PREFIX" using hd_take by metis
    with brace letter(1) show False by simp
  qed
  with assms(2) have payload: "withoutPrefix value = publicCopyJson copy" by (auto simp: withoutPrefix_def)
  have parsed: "JSON_parse (publicCopyJson copy) = Some (JObject [(''version'', JNumber 1),
      (''provisioningJson'', JString (hc_provisioningJson copy)), (''branchStateJson'', JString (hc_branchStateJson copy))])"
    unfolding publicCopyJson_def by (rule JSON_parse_stringify) simp
  have "joinComma (sortBy compareText [''version'', ''provisioningJson'', ''branchStateJson'']) = ''branchStateJson,provisioningJson,version''"
    by code_simp
  with assms(1) payload parsed show ?thesis by (simp add: parseH0PublicCopy_def fromLib_def)
qed

section \<open>Without the key\<close>

lemma restore_without_key: "sn_deviceSecretHex sn = None \<Longrightarrow> fst (restoreSnapshot L env sn) = None"
  by (simp add: restoreSnapshot_def hasCompleteOnchainStorage_def Let_def)

definition noAuthority :: "H0ProbeResult \<Rightarrow> bool" where
  "noAuthority result \<longleftrightarrow> \<not> hr_economicAuthorityAvailable result \<and> hr_outcome result \<noteq> OfflineReady"

definition probeResult :: "lib \<Rightarrow> H0ProbeMaterial \<Rightarrow> PayerRecoveryStorageSnapshot \<Rightarrow> H0ProbeResult" where
  "probeResult L m snapshot =
    (case restoreSnapshot L (hm_expectedEnvironment m) snapshot of (restored, error) \<Rightarrow>
       let verdict = sad_outcome (decideSessionAccess \<lparr>sai_connected = False, sai_local = map_option ro_localProvisioning restored,
             sai_authoritative = None, sai_walletAuthorizationConfirmed = False\<rparr>)
       in \<lparr>hr_outcome = verdict, hr_localValidationError = error,
         hr_economicAuthorityAvailable = (verdict = OfflineReady \<and> restored \<noteq> None)\<rparr>)"

lemma evaluate_alt:
  "evaluateH0Snapshot L snapshot = liftIO (bindE (createH0ProbeMaterial L) (\<lambda>m. Inr (probeResult L m snapshot)))"
  by (cases "createH0ProbeMaterial L")
    (auto simp: evaluateH0Snapshot_def liftIO_def evaluatePayerRecovery_def restoreLocal_def bindIO_def returnIO_def throwIO_def fun_eq_iff Let_def
      probeResult_def split: prod.splits)

lemma result_without_key: "sn_deviceSecretHex sn = None \<Longrightarrow> noAuthority (probeResult L m sn)"
  using restore_without_key [of sn L "hm_expectedEnvironment m"]
  by (auto simp: noAuthority_def probeResult_def gate_ready isCompleteLocalRecord_def Let_def split: prod.splits)

lemma evaluate_without_key:
  assumes "sn_deviceSecretHex sn = None"
  shows "triple F P (evaluateH0Snapshot L sn) (\<lambda>result x. P x \<and> noAuthority result) P D"
  unfolding evaluate_alt by (rule triple_lift) (auto simp: bindE_Inr_iff result_without_key [OF assms])

definition keyless :: "disk \<Rightarrow> bool" where
  "keyless x \<longleftrightarrow> x ProtectedArea ONCHAIN_DEVICE_KEY_STORAGE = None"

definition powerless :: "ProbeView \<Rightarrow> bool" where
  "powerless view \<longleftrightarrow> \<not> pv_economicAuthorityAvailable view \<and> \<not> pv_secretPresent view \<and> pv_outcome view \<noteq> OfflineReady"

lemma triple_probeLoad:
  "triple F ((=) x) probeLoad (\<lambda>sn y. y = x \<and> sn = \<lparr>sn_provisioningJson = x PublicArea ONCHAIN_PROVISIONING_STORAGE,
     sn_branchStateJson = x PublicArea ONCHAIN_BRANCH_STORAGE, sn_deviceSecretHex = x ProtectedArea ONCHAIN_DEVICE_KEY_STORAGE\<rparr>)
     (\<lambda>_. rejecting F) ((=) x)"
proof -
  have get: "triple F (\<lambda>y. A \<and> y = x) (storageGet area key) (\<lambda>v y. (A \<and> v = x area key) \<and> y = x) (\<lambda>_. rejecting F) ((=) x)" for A area key
    by (rule triple_known) (rule triple_weaken [OF triple_get]; simp)
  show ?thesis
    unfolding probeLoad_def
    by (intro triple_weaken [OF triple_bind [OF get [of True] triple_bind [OF get triple_bind [OF get triple_return]]]]) auto
qed

definition probeView :: "lib \<Rightarrow> ProbeScenario \<Rightarrow> PayerRecoveryStorageSnapshot \<Rightarrow> H0ProbeResult \<Rightarrow> ProbeView" where
  "probeView L scenario snapshot result =
    \<lparr>pv_scenario = scenario, pv_outcome = hr_outcome result, pv_error = hr_localValidationError result,
     pv_publicHash = (case (sn_provisioningJson snapshot, sn_branchStateJson snapshot) of
         (Some provisioningJson, Some branchStateJson) \<Rightarrow>
           Some (hashH0PublicCopy L \<lparr>hc_provisioningJson = provisioningJson, hc_branchStateJson = branchStateJson\<rparr>)
       | _ \<Rightarrow> None),
     pv_publicPresent = (sn_provisioningJson snapshot \<noteq> None \<and> sn_branchStateJson snapshot \<noteq> None),
     pv_secretPresent = (sn_deviceSecretHex snapshot \<noteq> None),
     pv_economicAuthorityAvailable = hr_economicAuthorityAvailable result\<rparr>"

lemma triple_inspect:
  fixes x :: disk
  defines "sn \<equiv> \<lparr>sn_provisioningJson = x PublicArea ONCHAIN_PROVISIONING_STORAGE,
     sn_branchStateJson = x PublicArea ONCHAIN_BRANCH_STORAGE, sn_deviceSecretHex = x ProtectedArea ONCHAIN_DEVICE_KEY_STORAGE\<rparr>"
  assumes "triple F ((=) x) (evaluateH0Snapshot L sn) (\<lambda>result y. Q (probeView L scenario sn result) y) E D"
    and "\<And>y. rejecting F \<Longrightarrow> E y" "\<And>y. y = x \<Longrightarrow> D y"
  shows "triple F ((=) x) (inspectProbe L scenario) Q E D"
  unfolding inspectProbe_def probeView_def [symmetric]
proof (rule triple_bind [where M = "\<lambda>sn' y. sn' = sn \<and> y = x"])
  show "triple F ((=) x) probeLoad (\<lambda>sn' y. sn' = sn \<and> y = x) E D"
    by (rule triple_weaken [OF triple_probeLoad]) (auto simp: sn_def intro: assms(3,4))
next
  fix sn'
  show "triple F (\<lambda>y. sn' = sn \<and> y = x) (bindIO (evaluateH0Snapshot L sn') (\<lambda>result. returnIO (probeView L scenario sn' result))) Q E D"
  proof (rule triple_known)
    assume "sn' = sn"
    with assms(2) show "triple F ((=) x) (bindIO (evaluateH0Snapshot L sn') (\<lambda>result. returnIO (probeView L scenario sn' result))) Q E D"
      by (auto intro!: triple_bind triple_return)
  qed
qed

lemma triple_inspect_keyless:
  "triple F keyless (inspectProbe L scenario) (\<lambda>view _. powerless view) (\<lambda>_. True) (\<lambda>_. True)"
proof -
  have "triple F ((=) x) (inspectProbe L scenario) (\<lambda>view _. powerless view) (\<lambda>_. True) (\<lambda>_. True)" if "keyless x" for x
    by (rule triple_inspect, rule triple_weaken [OF evaluate_without_key [where P = "(=) x" and D = "\<lambda>_. True"]])
      (use that in \<open>auto simp: keyless_def noAuthority_def powerless_def probeView_def\<close>)
  then show ?thesis unfolding triple_def by blast
qed

lemma triple_remove:
  assumes "\<And>x. P x \<Longrightarrow> Q (writeDisk area key None x)"
    "\<And>x. P x \<Longrightarrow> rejecting F \<Longrightarrow> E x \<and> E (writeDisk area key None x)" "\<And>x. P x \<Longrightarrow> D x \<and> D (writeDisk area key None x)"
  shows "triple F P (storageRemove area key) (\<lambda>_. Q) E D"
  unfolding storageRemove_def by (rule triple_access) (use assms in auto)

lemmas probe_disk = writeDisk_def keyless_def ONCHAIN_DEVICE_KEY_STORAGE_def ONCHAIN_PROVISIONING_STORAGE_def ONCHAIN_BRANCH_STORAGE_def

lemma triple_resetStorage:
  "triple F (\<lambda>_. True) resetStorage (\<lambda>_ x. keyless x) (\<lambda>_. rejecting F) (\<lambda>_. True)"
  unfolding resetStorage_def
  by (intro triple_bind [where M = "\<lambda>_ _. True"] triple_remove) (auto simp: probe_disk)

lemma triple_storePublicCopy:
  "triple F keyless (storePublicCopy copy) (\<lambda>_ x. keyless x \<and> x PublicArea ONCHAIN_BRANCH_STORAGE = Some (hc_branchStateJson copy) \<and>
     x PublicArea ONCHAIN_PROVISIONING_STORAGE = Some (hc_provisioningJson copy)) (\<lambda>_. rejecting F) (\<lambda>_. True)"
  unfolding storePublicCopy_def
  by (rule triple_bind [where M = "\<lambda>_ x. keyless x \<and> x PublicArea ONCHAIN_BRANCH_STORAGE = Some (hc_branchStateJson copy)"])
    (rule triple_set; simp add: probe_disk)+

text \<open>However the device behaves, an operation that ends shows no authority.\<close>

definition withoutAuthority :: "ProbeView io \<Rightarrow> bool" where
  "withoutAuthority m \<longleftrightarrow> (\<forall>d view d'. m d = (Done view, d') \<longrightarrow> powerless view)"

lemma withoutAuthorityI: "triple (\<lambda>_. True) (\<lambda>_. True) m (\<lambda>view _. powerless view) (\<lambda>_. True) (\<lambda>_. True) \<Longrightarrow> withoutAuthority m"
  unfolding triple_def withoutAuthority_def by (metis (no_types, lifting) outcome.case(1))

lemma public_state_powerless:
  "withoutAuthority (loseSecureKey L)" "withoutAuthority (restorePublicOnly L material)" "withoutAuthority (resetProbe L)"
  "withoutAuthority (importedCopy L value)"
proof -
  note reset = triple_weaken [OF triple_resetStorage, where P = "\<lambda>_. True" and Q = "\<lambda>_. keyless" and E = "\<lambda>_. True" and D = "\<lambda>_. True"]
  note store = triple_weaken [OF triple_storePublicCopy, where P = keyless and Q = "\<lambda>_. keyless" and E = "\<lambda>_. True" and D = "\<lambda>_. True"]
  show "withoutAuthority (loseSecureKey L)"
    unfolding loseSecureKey_def
    by (rule withoutAuthorityI, rule triple_bind [where M = "\<lambda>_. keyless", OF triple_remove triple_inspect_keyless]) (auto simp: probe_disk)
  show "withoutAuthority (restorePublicOnly L material)"
    unfolding restorePublicOnly_def
    by (rule withoutAuthorityI, rule triple_bind [OF reset triple_bind [OF store triple_inspect_keyless]]) auto
  show "withoutAuthority (resetProbe L)"
    unfolding resetProbe_def by (rule withoutAuthorityI, rule triple_bind [OF reset triple_inspect_keyless]) auto
  show "withoutAuthority (importedCopy L value)"
    unfolding importedCopy_def
    by (rule withoutAuthorityI, rule triple_bind [where M = "\<lambda>_ _. True", OF triple_lift triple_bind [OF reset triple_bind [OF store triple_inspect_keyless]]]) auto
qed

section \<open>With the key\<close>

lemma triple_probeCommit:
  "triple F (\<lambda>_. True) (probeCommit ps) (\<lambda>_ x. x PublicArea ONCHAIN_BRANCH_STORAGE = Some (po_branchStateJson ps) \<and>
     x PublicArea ONCHAIN_PROVISIONING_STORAGE = Some (po_provisioningJson ps) \<and>
     x ProtectedArea ONCHAIN_DEVICE_KEY_STORAGE = Some (po_deviceSecretHex ps)) (\<lambda>_. True) (\<lambda>_. True)"
  unfolding probeCommit_def
  by (rule triple_bind [where M = "\<lambda>_ x. x PublicArea ONCHAIN_BRANCH_STORAGE = Some (po_branchStateJson ps)", OF triple_set triple_bind
        [where M = "\<lambda>_ x. x PublicArea ONCHAIN_BRANCH_STORAGE = Some (po_branchStateJson ps) \<and>
          x PublicArea ONCHAIN_PROVISIONING_STORAGE = Some (po_provisioningJson ps)", OF triple_set triple_set]])
    (auto simp: probe_disk)

text \<open>The view of the probe on given contents\<close>

lemma triple_inspect_at:
  assumes "createH0ProbeMaterial L = Inr m"
    and "\<And>x. P x \<Longrightarrow> Q (probeView L scenario \<lparr>sn_provisioningJson = x PublicArea ONCHAIN_PROVISIONING_STORAGE,
      sn_branchStateJson = x PublicArea ONCHAIN_BRANCH_STORAGE, sn_deviceSecretHex = x ProtectedArea ONCHAIN_DEVICE_KEY_STORAGE\<rparr>
      (probeResult L m \<lparr>sn_provisioningJson = x PublicArea ONCHAIN_PROVISIONING_STORAGE,
      sn_branchStateJson = x PublicArea ONCHAIN_BRANCH_STORAGE, sn_deviceSecretHex = x ProtectedArea ONCHAIN_DEVICE_KEY_STORAGE\<rparr>))"
  shows "triple F P (inspectProbe L scenario) (\<lambda>view _. Q view) (\<lambda>_. True) (\<lambda>_. True)"
proof -
  have "triple F ((=) x) (inspectProbe L scenario) (\<lambda>view _. Q view) (\<lambda>_. True) (\<lambda>_. True)" if "P x" for x
    by (rule triple_inspect, unfold evaluate_alt, rule triple_lift) (use assms(1) assms(2) [OF that] in auto)
  then show ?thesis unfolding triple_def by blast
qed

text \<open>On a device that works every operation of the probe ends.\<close>

lemma runs_probe:
  assumes "createH0ProbeMaterial L = Inr m"
  shows "runs resetStorage" "runs (probeCommit ps)" "runs (storePublicCopy copy)" "runs (inspectProbe L scenario)"
proof -
  have "runs (evaluateH0Snapshot L sn)" for sn
    unfolding evaluate_alt assms by (simp add: liftIO_def live_rules)
  then show "runs (inspectProbe L scenario)"
    unfolding inspectProbe_def probeLoad_def storageGet_def by (intro live_rules)
qed (auto simp: resetStorage_def probeCommit_def storePublicCopy_def storageSet_def storageRemove_def intro!: live_rules)

lemma runs_outcome:
  assumes "runs m" "works d" "triple (\<lambda>_. True) (\<lambda>_. True) m (\<lambda>view _. Q view) (\<lambda>_. True) (\<lambda>_. True)"
  shows "\<exists>view d'. m d = (Done view, d') \<and> Q view"
proof -
  obtain view d' where r: "m d = (Done view, d')" using assms(1,2) unfolding runs_def by blast
  with assms(3) show ?thesis unfolding triple_def by fastforce
qed

lemma material_restores:
  assumes "borsh_ok L" "hash_ok L" "createH0ProbeMaterial L = Inr m"
  shows "hr_economicAuthorityAvailable (probeResult L m \<lparr>sn_provisioningJson = Some (po_provisioningJson (hm_persisted m)),
      sn_branchStateJson = Some (po_branchStateJson (hm_persisted m)), sn_deviceSecretHex = Some (po_deviceSecretHex (hm_persisted m))\<rparr>)"
proof -
  let ?i = "\<lambda>runtime. \<lparr>pi_sessionAccount = replicate 32 0x44, pi_runtime = runtime, pi_parent = None, pi_frames = None, pi_pendingDelivery = None\<rparr>"
  obtain runtime where ps: "createPersistedOnchainSession L (?i runtime) = Inr (hm_persisted m)"
    and env: "hm_expectedEnvironment m = environmentOf (rt_trustContext runtime)"
    using assms(3) by (auto simp: createH0ProbeMaterial_def bindE_Inr_iff Let_def environmentOf_def simp del: replicate.simps)
  obtain payments where "storable L (?i runtime) payments" using persisted_storable [OF assms(1) ps] by blast
  from stored_restores [OF assms(1,2) this ps] obtain r where r: "restoreAll L (hm_persisted m) (hm_expectedEnvironment m) = Inr r"
    unfolding env by auto
  have "isCompleteLocalRecord (Some (ro_localProvisioning r))"
    by (rule sound_complete [OF assms(1) restore_sound [OF assms(1) r [unfolded restoreAll_def]]])
  with r show ?thesis
    by (simp add: probeResult_def restoreSnapshot_def hasCompleteOnchainStorage_def restoreAll_def Let_def gate_ready)
qed

text \<open>
  C23: On a device that works, the probe reports economic authority after it has stored the whole
  development session. However the device behaves, an operation that ends after the key was lost, after only the public state was
  restored, after a reset, or after a public copy of any text was imported reports none, and that the key is absent. And the
  copy that one device exports, if it fits a QR code, is imported on another: the hash the probe shows there is the one
  of the exported copy.
\<close>

theorem probe_isolates_the_key:
  assumes "borsh_ok L" "hash_ok L" "createH0ProbeMaterial L = Inr material" "works d"
  shows "(\<exists>view d'. seedValid L material d = (Done view, d') \<and> pv_economicAuthorityAvailable view) \<and>
    withoutAuthority (loseSecureKey L) \<and> withoutAuthority (restorePublicOnly L material) \<and> withoutAuthority (resetProbe L) \<and>
    withoutAuthority (importedCopy L value) \<and>
    (length (concat (map utf8Char (exportedText material))) \<le> H0_PUBLIC_COPY_MAX_QR_BYTES \<longrightarrow>
      (\<exists>view d'. importedCopy L (exportedText material) d = (Done view, d') \<and> pv_publicHash view = Some (hm_publicCopyHash material)))"
proof (intro conjI public_state_powerless impI)
  note runs = runs_probe [OF assms(3)]
  have copy: "hm_publicCopyHash material = hashH0PublicCopy L (hm_publicCopy material)" "hm_publicCopyJson material = publicCopyJson (hm_publicCopy material)"
    using assms(3) by (auto simp: createH0ProbeMaterial_def bindE_Inr_iff Let_def)
  note reset = triple_weaken [OF triple_resetStorage, where P = "\<lambda>_. True" and E = "\<lambda>_. True" and D = "\<lambda>_. True"]
  show "\<exists>view d'. seedValid L material d = (Done view, d') \<and> pv_economicAuthorityAvailable view"
  proof (rule runs_outcome [OF _ assms(4)])
    show "runs (seedValid L material)"
      unfolding seedValid_def persistConfirmedProvisioning_def by (intro runs_bind runs)
    show "triple (\<lambda>_. True) (\<lambda>_. True) (seedValid L material) (\<lambda>view _. pv_economicAuthorityAvailable view) (\<lambda>_. True) (\<lambda>_. True)"
      unfolding seedValid_def persistConfirmedProvisioning_def
      by (rule triple_bind [OF reset [where Q = "\<lambda>_ _. True"] triple_bind [OF triple_probeCommit triple_inspect_at [OF assms(3)]]])
        (use material_restores [OF assms(1-3)] in \<open>auto simp: probeView_def\<close>)
  qed
  assume "length (concat (map utf8Char (exportedText material))) \<le> H0_PUBLIC_COPY_MAX_QR_BYTES"
  then have imported: "parseH0PublicCopy (exportedText material) = Inr (hm_publicCopy material)"
    by (rule parse_publicCopy) (simp add: exportedText_def copy)
  have same: "\<lparr>hc_provisioningJson = hc_provisioningJson (hm_publicCopy material), hc_branchStateJson = hc_branchStateJson (hm_publicCopy material)\<rparr> =
      hm_publicCopy material"
    by (cases "hm_publicCopy material") simp
  have steps: "importedCopy L (exportedText material) = bindIO resetStorage (\<lambda>_. bindIO (storePublicCopy (hm_publicCopy material)) (\<lambda>_.
      inspectProbe L ImportedPublic))"
    by (simp add: importedCopy_def imported liftIO_def bindIO_def returnIO_def fun_eq_iff)
  show "\<exists>view d'. importedCopy L (exportedText material) d = (Done view, d') \<and> pv_publicHash view = Some (hm_publicCopyHash material)"
    unfolding steps
  proof (rule runs_outcome [OF _ assms(4)])
    show "runs (bindIO resetStorage (\<lambda>_. bindIO (storePublicCopy (hm_publicCopy material)) (\<lambda>_. inspectProbe L ImportedPublic)))"
      by (intro runs_bind runs)
    show "triple (\<lambda>_. True) (\<lambda>_. True) (bindIO resetStorage (\<lambda>_. bindIO (storePublicCopy (hm_publicCopy material)) (\<lambda>_.
        inspectProbe L ImportedPublic))) (\<lambda>view _. pv_publicHash view = Some (hm_publicCopyHash material)) (\<lambda>_. True) (\<lambda>_. True)"
      by (rule triple_bind [OF reset [where Q = "\<lambda>_. keyless"]
            triple_bind [OF triple_weaken [OF triple_storePublicCopy, where E = "\<lambda>_. True" and D = "\<lambda>_. True"] triple_inspect_at [OF assms(3)]]])
        (auto simp: probeView_def copy same)
  qed
qed

theorem probe_isolates_the_key_witness:
  "\<exists>material d view d'. createH0ProbeMaterial probeLib = Inr material \<and> seedValid probeLib material d = (Done view, d') \<and>
    pv_economicAuthorityAvailable view \<and> withoutAuthority (restorePublicOnly probeLib material)"
proof -
  obtain material where material: "createH0ProbeMaterial probeLib = Inr material"
    using development_stored by (auto simp: createH0ProbeMaterial_def Let_def simp del: replicate.simps)
  have "works \<lparr>contents = (\<lambda>_ _. None), faults = (\<lambda>_. Works), accesses = 0\<rparr>" by (simp add: works_def)
  from probe_isolates_the_key [OF probeLib_ok material this] material show ?thesis by blast
qed

end
