(* ===== verification/DemonstrationApp.thy ===== *)
theory DemonstrationApp
  imports PayerAppFacts LifecycleProbe
begin

text \<open>
  The payer's application of the demonstration, \<open>apps/payer-mobile/App.development.tsx\<close>: the branches
  of \<open>App.tsx\<close> in the mode \<open>development-fixture\<close>. The session is the fixture; its payments are kept in
  one plain key of the device and its device key in another. At the end: the demonstration touches no other key,
  and it opens again at the payment it showed.
\<close>

section \<open>The stored state\<close>

definition DEVICE_KEY_STORAGE :: string where "DEVICE_KEY_STORAGE = ''ogp.session.c3.device-key''"

definition SESSION_STATE_STORAGE :: string where "SESSION_STATE_STORAGE = ''ogp.session.c3.local-state''"

definition sessionStateText :: "string list \<Rightarrow> bool \<Rightarrow> string" where
  "sessionStateText frames pendingDelivery = JSON_stringify (JObject
    [(''frames'', JArray (map JString frames)), (''pendingDelivery'', JBool pendingDelivery)])"

text \<open>
  The stored text is trusted to have its type. Iterating something else throws, a string gives its
  characters; reading a frame that is not a string throws when its turn comes.
\<close>

fun leadingTexts :: "json list \<Rightarrow> string list \<times> bool" where
  "leadingTexts [] = ([], True)"
| "leadingTexts (JString text # items) = (case leadingTexts items of (texts, all) \<Rightarrow> (text # texts, all))"
| "leadingTexts (_ # items) = ([], False)"

definition receiveItems :: "lib \<Rightarrow> json list \<Rightarrow> CredentialProofBundle result" where
  "receiveItems L items =
    (case leadingTexts items of
       (texts, True) \<Rightarrow> receiveCredential L texts
     | (texts, False) \<Rightarrow>
         bindE (assembleFrames CredentialBundleMessage texts \<lparr>as_chunks = [], as_transfer = None\<rparr>) (\<lambda>_.
           Inl (JsError ''TypeError'')))"

definition memberOf :: "json \<Rightarrow> string \<Rightarrow> json option" where
  "memberOf value key = (case value of JObject entries \<Rightarrow> map_of entries key | _ \<Rightarrow> None)"

definition receiveState :: "lib \<Rightarrow> json \<Rightarrow> CredentialProofBundle result" where
  "receiveState L state =
    (case memberOf state ''frames'' of
       Some (JArray items) \<Rightarrow> receiveItems L items
     | Some (JString text) \<Rightarrow> receiveItems L (map (\<lambda>c. JString [c]) text)
     | _ \<Rightarrow> Inl (JsError ''TypeError''))"

definition truthy :: "json option \<Rightarrow> bool" where
  "truthy value =
    (case value of
       None \<Rightarrow> False
     | Some JNull \<Rightarrow> False
     | Some (JBool b) \<Rightarrow> b
     | Some (JNumber n) \<Rightarrow> n \<noteq> 0
     | Some (JString text) \<Rightarrow> text \<noteq> []
     | Some _ \<Rightarrow> True)"

text \<open>The frames that are shown again: only an array of strings passes \<open>receiveItems\<close> undamaged.\<close>

definition stateFrames :: "json \<Rightarrow> string list" where
  "stateFrames state =
    (case memberOf state ''frames'' of
       Some (JArray items) \<Rightarrow> fst (leadingTexts items)
     | _ \<Rightarrow> [])"

section \<open>Boot\<close>

definition openedApp :: "PayerSessionRuntime \<Rightarrow> PayerApp" where
  "openedApp runtime = initialPayerApp\<lparr>pa_sessionRuntime := Some runtime, pa_parent := Some (rt_initialParent runtime),
     pa_bootstrapStatus := BootstrapDone\<rparr>"

definition reopenedApp :: "PayerSessionRuntime \<Rightarrow> json \<Rightarrow> CredentialProofBundle \<Rightarrow> ParentState \<Rightarrow> PayerApp" where
  "reopenedApp runtime state bundle finalState =
    (let restoredLast = lastOf (credentials bundle);
         ready = (openedApp runtime)\<lparr>pa_credentials := credentials bundle, pa_parent := Some finalState,
           pa_lastCredential := restoredLast\<rparr>
     in
     if truthy (memberOf state ''pendingDelivery'') \<and> restoredLast \<noteq> None
     then ready\<lparr>pa_outgoingFrames := stateFrames state, pa_screen := ShowCredentialScreen\<rparr>
     else ready)"

definition restoreFixture :: "lib \<Rightarrow> PayerSessionRuntime \<Rightarrow> string option \<Rightarrow> PayerApp result" where
  "restoreFixture L runtime stored =
    (case stored of
       None \<Rightarrow> Inr (openedApp runtime)
     | Some text \<Rightarrow>
         bindE (fromLib ''JSON'' (JSON_parse text)) (\<lambda>state.
         bindE (receiveState L state) (\<lambda>bundle.
         bindE (validateCredentialProofBundle L (rt_trustContext runtime) bundle) (\<lambda>finalState.
           Inr (reopenedApp runtime state bundle finalState)))))"

definition bootFixture :: "lib \<Rightarrow> PayerSessionRuntime result option \<Rightarrow> PayerApp io" where
  "bootFixture L loadFixture =
    catchIO
      (bindIO (liftIO (bootstrapPayerRuntime (Some ''development-fixture'') loadFixture)) (\<lambda>bootstrap.
       (case bootstrap of
          BootstrapRecoveryRequired \<Rightarrow> throwIO (JsError ''fixture de desenvolvimento indisponivel'')
        | BootstrapReady runtime \<Rightarrow>
            bindIO (storageGet ProtectedArea DEVICE_KEY_STORAGE) (\<lambda>existing.
            bindIO (if existing = None then storageSet ProtectedArea DEVICE_KEY_STORAGE (rt_deviceSecretHex runtime) else returnIO ()) (\<lambda>_.
            bindIO (storageGet PublicArea SESSION_STATE_STORAGE) (\<lambda>stored.
              liftIO (restoreFixture L runtime stored)))))))
      (\<lambda>reason. returnIO (initialPayerApp\<lparr>pa_error := Some reason, pa_bootstrapStatus := OnlineRecoveryNeeded\<rparr>))"

definition bootDevelopment :: "lib \<Rightarrow> PayerApp io" where
  "bootDevelopment L = bootFixture L (Some (loadDevelopmentSession L))"

section \<open>Paying\<close>

definition persistFixtureState :: "PayerApp \<Rightarrow> string list \<Rightarrow> bool \<Rightarrow> unit io" where
  "persistFixtureState app frames pendingDelivery =
    (case pa_sessionRuntime app of
       None \<Rightarrow> throwIO (JsError ''Sessao de pagamento indisponivel'')
     | Some _ \<Rightarrow> storageSet PublicArea SESSION_STATE_STORAGE (sessionStateText frames pendingDelivery))"

definition storeFixturePayment ::
  "lib \<Rightarrow> PayerApp \<Rightarrow> PayerSessionRuntime \<Rightarrow> ParentState \<Rightarrow> MerchantChallenge \<Rightarrow> (PaymentCredential \<times> string list) io" where
  "storeFixturePayment L closure runtime parent challenge =
    bindIO (storageGet ProtectedArea DEVICE_KEY_STORAGE) (\<lambda>storedSecret.
    bindIO (liftIO (paymentFor L runtime parent challenge storedSecret)) (\<lambda>credential.
    bindIO (liftIO (sendCredential L payerTransport
      \<lparr>sessionCertificate = rt_sessionCertificate runtime, deviceAuthorization = rt_deviceAuthorization runtime,
       credentials = pa_credentials closure @ [credential]\<rparr>)) (\<lambda>frames.
    bindIO (persistFixtureState closure frames True) (\<lambda>_.
      returnIO (credential, frames)))))"

definition authorizeFixturePayment :: "lib \<Rightarrow> PayerApp \<Rightarrow> PayerApp \<Rightarrow> PayerApp io" where
  "authorizeFixturePayment L closure now =
    (case (pa_challenge closure, pa_sessionRuntime closure, pa_parent closure) of
       (Some challenge, Some runtime, Some parent) \<Rightarrow>
         catchIO
           (bindIO (storeFixturePayment L closure runtime parent challenge) (\<lambda>(credential, frames).
             returnIO (showPayment closure credential frames now)))
           (\<lambda>reason. returnIO (now\<lparr>pa_error := Some reason\<rparr>))
     | _ \<Rightarrow> returnIO now)"

definition scanFixtureReceipt :: "lib \<Rightarrow> string \<Rightarrow> PayerApp \<Rightarrow> PayerApp io" where
  "scanFixtureReceipt L raw app =
    (let scanned = app\<lparr>pa_receivedFrames := setAdd raw (pa_receivedFrames app)\<rparr> in
     catchIO
       (bindIO (liftIO (acceptReceipt L scanned)) (\<lambda>_.
        bindIO (persistFixtureState scanned (pa_outgoingFrames scanned) False) (\<lambda>_.
          returnIO (scanned\<lparr>pa_screen := CompleteScreen\<rparr>))))
       (\<lambda>reason. returnIO (reportScanError reason scanned)))"

section \<open>It stays within its two keys\<close>

definition sameElsewhere :: "disk \<Rightarrow> disk \<Rightarrow> bool" where
  "sameElsewhere x y \<longleftrightarrow> (\<forall>area key. (area, key) \<notin> {(ProtectedArea, DEVICE_KEY_STORAGE), (PublicArea, SESSION_STATE_STORAGE)} \<longrightarrow>
     y area key = x area key)"

text \<open>Whatever the device does, the operation keeps \<open>I\<close>.\<close>

definition keeping :: "(disk \<Rightarrow> bool) \<Rightarrow> 'a io \<Rightarrow> bool" where
  "keeping I m \<longleftrightarrow> triple (\<lambda>_. True) I m (\<lambda>_. I) I I"

lemma keeping_return: "keeping I (returnIO v)"
  unfolding keeping_def by (rule triple_return)

lemma keeping_throw: "keeping I (throwIO e)"
  unfolding keeping_def by (rule triple_throw)

lemma keeping_lift: "keeping I (liftIO r)"
  unfolding keeping_def by (rule triple_lift)

lemma keeping_bind: "keeping I m \<Longrightarrow> (\<And>v. keeping I (f v)) \<Longrightarrow> keeping I (bindIO m f)"
  unfolding keeping_def by (rule triple_bind)

lemma keeping_catch: "keeping I m \<Longrightarrow> (\<And>e. keeping I (h e)) \<Longrightarrow> keeping I (catchIO m h)"
  unfolding keeping_def by (rule triple_catch)

lemma keeping_get: "keeping I (storageGet area key)"
  unfolding keeping_def storageGet_def by (rule triple_access) simp_all

lemma keeping_set:
  "(\<And>x. I x \<Longrightarrow> I (writeDisk area key (Some value) x)) \<Longrightarrow> keeping I (storageSet area key value)"
  unfolding keeping_def storageSet_def by (rule triple_access) simp_all

lemma sameElsewhere_write:
  "sameElsewhere x y \<Longrightarrow> sameElsewhere x (writeDisk ProtectedArea DEVICE_KEY_STORAGE v y)"
  "sameElsewhere x y \<Longrightarrow> sameElsewhere x (writeDisk PublicArea SESSION_STATE_STORAGE v y)"
  by (auto simp: sameElsewhere_def writeDisk_def)

lemma keeping_state: "keeping (sameElsewhere x) (persistFixtureState app frames pending)"
  unfolding persistFixtureState_def by (cases "pa_sessionRuntime app") (auto intro!: keeping_throw keeping_set sameElsewhere_write)

lemma keeping_key: "keeping (sameElsewhere x) (if p then storageSet ProtectedArea DEVICE_KEY_STORAGE v else returnIO ())"
  by (auto intro!: keeping_return keeping_set sameElsewhere_write)

lemma demonstration_keeps:
  "keeping (sameElsewhere x) (bootFixture L loadFixture)"
  "keeping (sameElsewhere x) (authorizeFixturePayment L closure now)"
  "keeping (sameElsewhere x) (scanFixtureReceipt L raw app)"
proof -
  note rules = keeping_return keeping_throw keeping_lift keeping_get keeping_state keeping_key keeping_bind keeping_catch
  have start: "keeping (sameElsewhere x) (case b of BootstrapRecoveryRequired \<Rightarrow> throwIO e | BootstrapReady rt \<Rightarrow> m rt)"
    if "\<And>rt. keeping (sameElsewhere x) (m rt)" for b e and m :: "PayerSessionRuntime \<Rightarrow> PayerApp io"
    using that by (cases b) (simp_all add: keeping_throw)
  show "keeping (sameElsewhere x) (bootFixture L loadFixture)"
    unfolding bootFixture_def by (intro rules start)
  have pair: "keeping (sameElsewhere x) (case v of (c, fs) \<Rightarrow> returnIO (g c fs))" for v and g :: "PaymentCredential \<Rightarrow> string list \<Rightarrow> PayerApp"
    by (cases v) (simp add: keeping_return)
  have "keeping (sameElsewhere x) (storeFixturePayment L closure rt p ch)" for rt p ch
    unfolding storeFixturePayment_def by (intro rules)
  then have "keeping (sameElsewhere x) (catchIO (bindIO (storeFixturePayment L closure rt p ch) (\<lambda>(credential, frames).
      returnIO (showPayment closure credential frames now))) (\<lambda>reason. returnIO (now\<lparr>pa_error := Some reason\<rparr>)))" for rt p ch
    by (intro rules pair)
  then show "keeping (sameElsewhere x) (authorizeFixturePayment L closure now)"
    unfolding authorizeFixturePayment_def by (auto split: option.split intro: keeping_return)
  show "keeping (sameElsewhere x) (scanFixtureReceipt L raw app)"
    unfolding scanFixtureReceipt_def Let_def by (intro rules)
qed

text \<open>The store of the production application is one of the keys that stay as they were.\<close>

lemma demonstration_separate:
  assumes "run \<in> {bootFixture L loadFixture, authorizeFixturePayment L closure now, scanFixtureReceipt L raw app}" "run d = (r, d')"
  shows "sameElsewhere (contents d) (contents d')"
proof -
  have "keeping (sameElsewhere (contents d)) run" using assms(1) demonstration_keeps by auto
  then show ?thesis
    using assms(2) unfolding keeping_def triple_def by (cases r) (fastforce simp: sameElsewhere_def)+
qed

section \<open>It opens at the payment it showed\<close>

lemma leadingTexts_strings: "leadingTexts (map JString texts) = (texts, True)"
  by (induction texts) simp_all

lemma sessionState_read: "JSON_parse (sessionStateText frames pending) =
    Some (JObject [(''frames'', JArray (map JString frames)), (''pendingDelivery'', JBool pending)])"
  unfolding sessionStateText_def by (rule JSON_parse_stringify) (simp add: list_all_iff)

lemma fixture_restored:
  assumes "receiveCredential L frames = Inr b" "validateCredentialProofBundle L (rt_trustContext rt) b = Inr p"
  shows "restoreFixture L rt (Some (sessionStateText frames pending)) = Inr
    (if pending \<and> credentials b \<noteq> [] then (openedApp rt)\<lparr>pa_credentials := credentials b, pa_parent := Some p,
        pa_lastCredential := lastOf (credentials b), pa_outgoingFrames := frames, pa_screen := ShowCredentialScreen\<rparr>
     else (openedApp rt)\<lparr>pa_credentials := credentials b, pa_parent := Some p, pa_lastCredential := lastOf (credentials b)\<rparr>)"
  using assms
  by (simp add: restoreFixture_def sessionState_read fromLib_def receiveState_def memberOf_def receiveItems_def leadingTexts_strings
      reopenedApp_def Let_def truthy_def stateFrames_def lastOf_def)

lemma storageSet_done: "storageSet area key value d = (Done u, d') \<Longrightarrow> contents d' = writeDisk area key (Some value) (contents d)"
  by (cases "faults d (accesses d)") (auto simp: storageSet_def accessIO_def Let_def)

text \<open>
  An authorisation that reports no error has stored its frames; the next start reads the state from
  them, whatever happened to the device key.
\<close>

lemma demonstration_reopens:
  assumes "borsh_ok L" "hash_ok L" "signature_ok L" "appOk L rt app" "pa_challenge app = Some ch" "pa_parent app = Some p"
    and "authorizeFixturePayment L app now d = (Done after, d')" "pa_error after = None"
  obtains c frames where "after = showPayment app c frames now"
    "contents d' PublicArea SESSION_STATE_STORAGE = Some (sessionStateText frames True)"
    "restoreFixture L rt (contents d' PublicArea SESSION_STATE_STORAGE) = Inr
      ((openedApp rt)\<lparr>pa_credentials := pa_credentials app @ [c], pa_parent := Some (nextParent c), pa_lastCredential := Some c,
        pa_outgoingFrames := frames, pa_screen := ShowCredentialScreen\<rparr>)"
proof -
  have rt: "pa_sessionRuntime app = Some rt" using assms(4) by (simp add: appOk_def)
  let ?body = "bindIO (storeFixturePayment L app rt p ch) (\<lambda>(credential, frames). returnIO (showPayment app credential frames now))"
  have "catchIO ?body (\<lambda>reason. returnIO (now\<lparr>pa_error := Some reason\<rparr>)) d = (Done after, d')"
    using assms(5-7) rt by (simp add: authorizeFixturePayment_def)
  then have "?body d = (Done after, d')"
    using assms(8) by (auto simp: catchIO_def returnIO_def split: prod.splits outcome.splits)
  then obtain c frames d1 where stored: "storeFixturePayment L app rt p ch d = (Done (c, frames), d1)"
    and "after = showPayment app c frames now" "d' = d1"
    unfolding bindIO_Done by (auto simp: returnIO_Done)
  moreover from stored obtain secret where paid: "paymentFor L rt p ch secret = Inr c"
      "sendCredential L payerTransport (sessionBundle rt (pa_credentials app @ [c])) = Inr frames"
    and held: "contents d1 PublicArea SESSION_STATE_STORAGE = Some (sessionStateText frames True)"
    unfolding storeFixturePayment_def
    by (auto simp: run_done sessionBundle_def persistFixtureState_def rt writeDisk_def dest!: storageSet_done)
  moreover have "restoreFixture L rt (Some (sessionStateText frames True)) = Inr
      ((openedApp rt)\<lparr>pa_credentials := pa_credentials app @ [c], pa_parent := Some (nextParent c), pa_lastCredential := Some c,
        pa_outgoingFrames := frames, pa_screen := ShowCredentialScreen\<rparr>)"
  proof -
    have "validateCredentialProofBundle L (rt_trustContext rt) (sessionBundle rt (pa_credentials app)) = Inr p"
      "validBundle (sessionBundle rt (pa_credentials app))"
      using assms(4,6) by (auto simp: appOk_def)
    note carried = payment_carried [OF assms(1-3) this paid]
    then have "receiveCredential L frames = Inr (sessionBundle rt (pa_credentials app @ [c]))" by (simp add: conveys_def)
    from fixture_restored [OF this carried(4), of True] show ?thesis by (simp add: sessionBundle_def lastOf_def)
  qed
  ultimately show thesis using that by simp
qed

end
