(* ===== verification/Spec2Isabelle.thy ===== *)
theory Spec2Isabelle
  imports CredentialTheorems LedgerTheorems ReconciliationTheorems TransportTheorems SdkTheorems RelayerTheorems
    MerchantTheorems SyncTheorems RecoveryTheorems Applications SyncOverlap RelayerServerTheorems ConfigurationTheorems
    ClaimHttpTheorems ClaimDeadline LifecycleProbeTheorems DemonstrationApp
begin

text \<open>
  Verification development of the Offline Guarantee Protocol (TypeScript packages and applications).

  A payer locks collateral on chain and receives a session certificate. Offline, the payer signs
  payment credentials; each one spends from a parent state and names the state it leads to, so
  the credentials of a session form a tree of states. A dishonest payer can fork: sign two
  payments from one state. Merchants collect credentials; online again, anyone can rebuild the
  state graph, detect the forks, and split the collateral among the claims. A merchant's phone
  stores the proof, and submits it through a relayer that pays the transaction.

  \<^bold>\<open>Theories and sources\<close> (packages are under \<open>src/packages\<close>, file \<open>src/index.ts\<close> of each)

  \<^item> \<open>Prelude\<close>, \<open>JsArrays\<close>: results with the thrown error as a value, little-endian integers,
    hexadecimal text, byte and text comparison, the stable \<open>sort\<close> with the contract of its
    comparators (locale \<open>comparator\<close>, interpreted on every comparator the code uses).
  \<^item> \<open>SharedTypes\<close>: \<open>shared-types\<close>. Interfaces are records (extension is record extension), enums
    datatypes with their numbers, a \<open>Uint8Array\<close> a byte list, \<open>number\<close> and \<open>bigint\<close> integers whose
    widths the assertions check.
  \<^item> \<open>Borsh\<close>, \<open>Crypto\<close>: the third-party packages \<open>borsh\<close>, \<open>@noble/hashes\<close>, \<open>@noble/ed25519\<close> as the
    record \<open>lib\<close> of parameters, and \<open>crypto\<close> on top. Hypotheses: \<open>borsh_ok\<close> (the published Borsh
    layout), \<open>hash_ok\<close> (digests have 32 bytes), \<open>signature_ok\<close> (a signature verifies under its own
    key). No property assumes that SHA-256 is injective: where collisions matter, the hypothesis
    \<open>collisionFree\<close> is about the finitely many encodings at hand.
  \<^item> \<open>CanonicalCodec\<close>: \<open>canonical-codec\<close>. \<open>CodecContract\<close> proves, inside the locales
    \<open>canonical_encoder\<close> and \<open>canonical_codec\<close> interpreted on the code's functions, when each encoder
    succeeds, its length, injectivity, and that the strict decoders invert the encoders.
  \<^item> \<open>Credentials\<close>: \<open>credentials\<close>. \<open>CredentialFacts\<close> characterises every check as a predicate
    (\<open>trustedCertificate\<close>, \<open>spends\<close>, \<open>soundTerms\<close>, \<open>matchesAuthorization\<close>), and runs chains of
    payments in the locale \<open>payment_chain\<close>. \<open>CredentialTheorems\<close> holds the properties.
  \<^item> \<open>OfflineLedger\<close>: \<open>offline-ledger\<close>. \<open>LedgerFacts\<close> shows that the loop of \<open>buildStateGraph\<close> only
    grows trees of verified transitions (\<open>grown\<close>) and answers every credential; \<open>LedgerOrder\<close> that
    the order and repetition of the input do not matter; \<open>Forks\<close> that fork detection is exact.
    \<open>LedgerTheorems\<close> holds the properties.
  \<^item> \<open>Reconciliation\<close>: \<open>reconciliation\<close>. \<open>ReconciliationFacts\<close> proves the arithmetic of the
    allocation and the fixed point of the conflict classification, \<open>SessionFacts\<close> the exposure of a
    session. \<open>ReconciliationTheorems\<close> holds the properties.
  \<^item> \<open>DecimalText\<close>, \<open>TextCoding\<close>, \<open>Transports\<close>: \<open>transports\<close>. Decimal numbers, \<open>split\<close>, hexadecimal and
    base64url text; the challenge, bundle and receipt payloads, \<open>QRTransport\<close>, \<open>frame\<close> and
    \<open>assemble\<close>, and the merchant's acceptance of a bundle. \<open>TransportFacts\<close>: reading back what was
    written, and that a set of frames with all parts assembles. \<open>TransportTheorems\<close>: the properties.
  \<^item> \<open>ProtocolSdk\<close>: \<open>protocol-sdk\<close>. \<open>SdkFacts\<close> writes down the layout of the four Anchor accounts
    (\<open>userProfileAccount\<close>, \<open>offlineSessionAccount\<close>, \<open>claimAccount\<close>, \<open>stateEdgeRecordAccount\<close>), which the
    decoders refine (\<open>SdkTheorems\<close>).
  \<^item> \<open>JsonValue\<close>, \<open>ClaimRelayer\<close>: \<open>src/apps/claim-relayer/src/claim-relayer.ts\<close>. A request is a parsed
    JSON value. \<open>@solana/web3.js\<close> is the record \<open>web3\<close> of parameters (hypothesis \<open>web3_ok\<close>: a public key
    reads back from its base58 text, an address or digest it returns has 32 bytes; that a program address is
    found at all is never assumed of every seed, but named where it is needed, as \<open>accountsFound\<close>), the RPC connection the record \<open>Connection\<close> of the answers of one run.
    \<open>RelayerFacts\<close> holds the specification of the on-chain insertion into the ordered claim list
    (\<open>insertClaimInOrder\<close>, from \<open>src/programs/offline-guarantee/src/lib.rs\<close>); \<open>holds\<close> says that the listed
    claims are the accounts on chain. \<open>RelayerTheorems\<close>: the properties.
  \<^item> \<open>MerchantClaims\<close>, \<open>ClaimPort\<close>, \<open>ClaimSync\<close>: \<open>claim-history.ts\<close>, \<open>claim-material.ts\<close>,
    \<open>solana-claim-port.ts\<close> and \<open>claim-sync.ts\<close> of \<open>src/apps/merchant-mobile/src\<close>. The port is a record of
    three operations over an explicit state, whose answer is \<open>None\<close> when the promise never settles: what
    awaits it does not end either. \<open>solanaPort\<close> is the object the code builds, over an
    arbitrary chain and relayer (\<open>ChainNode\<close>); each of its confirmations is a run of the polling loop, on the
    clock and the answers that this run sees (\<open>PollRun\<close>). \<open>MerchantFacts\<close> reads the evidence and the request
    back. \<open>SyncFacts\<close> proves the outcome of one synchronisation and that polling ends on a clock that advances.
    The locale \<open>faithful_port\<close> shows that a synchronisation never rejects, \<open>settling_port\<close>, which extends it,
    that a queue ends when every call settles, having \<open>attempted\<close> each of its claims; both are
    interpreted on \<open>solanaPort\<close>. \<open>unanswered_queue_hangs\<close>: without an answer, it waits for ever. \<open>MerchantTheorems\<close>: the
    properties of a stored claim.
  \<^item> \<open>SyncTheorems\<close>: the properties of the synchronisation: a status changes only to that of a matching
    account on chain, a queue ends with every open claim attempted once, and how the cached check of the
    cluster fails a whole queue.
  \<^item> \<open>JsonText\<close>: \<open>JSON.stringify\<close> and \<open>JSON.parse\<close> on text, with the fuel of the parser the length of
    the text, and the proof that parsing gives back what was printed.
  \<^item> \<open>MobileStorage\<close>: \<open>mobile-storage\<close>. A \<open>Device\<close> has two storage areas and answers each access by
    working, rejecting (with or without the effect) or dying (with or without the effect); an
    operation of type \<open>io\<close> ends \<open>Done\<close>, \<open>Thrown\<close> or \<open>Died\<close>. The store's \<open>load\<close> and \<open>commit\<close> are
    \<open>loadStore\<close> and \<open>commitStore\<close>. \<open>StorageLogic\<close> proves operations by triples with three
    postconditions, one for each way to end; \<open>StorageFacts\<close> defines what a disk durably holds
    (\<open>durable\<close>), and what the first commit of a store may leave on a device that rejects an access, with nothing
    committed (\<open>uncommitted\<close>), and proves the triples of load and commit from both; \<open>StorageTheorems\<close> holds the
    properties, among them those of any interrupted \<open>history\<close> on any device.
  \<^item> \<open>SessionAccess\<close>: \<open>session-access.ts\<close>, \<open>onchain-recovery.ts\<close> and \<open>confirmed-recovery-port.ts\<close> of
    \<open>src/apps/payer-mobile/src\<close>: the access gate and what the chain says. \<open>PayerSession\<close>:
    \<open>onchain-provisioning.ts\<close> and \<open>payer-runtime.ts\<close>, the stored session and its restoration.
    \<open>PayerRecovery\<close>: \<open>payer-crash-storage.ts\<close>, \<open>onchain-recovery-controller.ts\<close> and
    \<open>session-provisioning.ts\<close>. The wallet, the issuer, the entropy and the confirmed chain are the record
    \<open>ProvisioningPorts\<close> of arbitrary answers. \<open>PayerFacts\<close>: when restoring and storing succeed.
  \<^item> \<open>MerchantStorage\<close>: \<open>merchant-crash-storage.ts\<close> of \<open>src/apps/merchant-mobile/src\<close>, with the migration of
    the legacy records. Each call of the adapters' \<open>exclusive\<close> queues is one atomic step.
  \<^item> \<open>StorageClients\<close>: the contract both applications have with the store, as the locale
    \<open>typed_store\<close>, interpreted on the payer's and the merchant's adapters. \<open>PayerTheorems\<close> and
    \<open>RecoveryTheorems\<close>: the properties of access, restoration, provisioning and updates.
  \<^item> \<open>RuntimeConfiguration\<close>: \<open>runtime-configuration.ts\<close>, \<open>runtime-mode.ts\<close>, \<open>payer-storage-keys.ts\<close>,
    \<open>storage-scope.ts\<close> and \<open>trust.ts\<close> of the two applications; the platform's URL parser is a parameter.
    \<open>ConfigurationTheorems\<close>: what an accepted configuration is, and that deployments share no key.
  \<^item> \<open>PayerApp\<close>, \<open>MerchantApp\<close>: \<open>App.tsx\<close> of \<open>src/apps/payer-mobile\<close> and of
    \<open>src/apps/merchant-mobile\<close>, the state of the component as a record and each handler as a function, without
    what the screens draw. A handler that waits takes the state it was drawn with and the one it changes.
    \<open>PayerAppFacts\<close> and \<open>MerchantAppFacts\<close> define a run of an application on its device
    (\<open>payerRun\<close>, \<open>merchantRun\<close>: boots, handlers, crashes; a handler ends before the next one starts) and its invariant;
    \<open>PayerAppTheorems\<close> and \<open>MerchantAppTheorems\<close> hold the properties. What happens when handlers
    overlap is stated apart, in \<open>PayerAppTheorems\<close> for two authorisations and in
    \<open>SyncOverlap\<close> for a proof received during a synchronisation. \<open>StorageLive\<close>: the storage on a device that works.
    \<open>Applications\<close> composes the two: a payment from the request to the receipt.
  \<^item> \<open>RelayerServer\<close>: \<open>src/apps/claim-relayer/src/server.ts\<close>, with the relayer of \<open>ClaimRelayer\<close> behind it. The steps
    of its handlers interleave in the relation \<open>serverStep\<close>; \<open>served\<close> are the states it reaches.
    \<open>RelayerServerTheorems\<close>: the properties.
  \<^item> \<open>ClaimHttp\<close>: the network side of \<open>solana-claim-port.ts\<close>: the checks of the two URLs, the HTTP client of the
    relayer, and the port as the merchant's application builds it (\<open>createClaimPort\<close>). \<open>fetch\<close> is a parameter, which
    also stands for the timer that aborts it. \<open>ClaimHttpTheorems\<close> composes the client with the relayer's server.
  \<^item> \<open>ClaimDeadline\<close>: \<open>claim-deadline.ts\<close> of \<open>src/apps/merchant-mobile/src\<close>, with \<open>toISOString\<close> written out, and the
    proof that the printed calendar time is the one the milliseconds count.
  \<^item> \<open>LifecycleProbe\<close>: \<open>dev-session.ts\<close>, \<open>h0-lifecycle-probe.ts\<close> and the handlers of \<open>App.h0.tsx\<close>, of
    \<open>src/apps/payer-mobile\<close>. \<open>DevelopmentSession\<close> evaluates the fixture of the repository for every library that keeps the
    Borsh layout; \<open>LifecycleProbeTheorems\<close>: what the probe shows after each of its operations.
  \<^item> \<open>DemonstrationApp\<close>: \<open>App.development.tsx\<close> of \<open>src/apps/payer-mobile\<close>, the branches of \<open>App.tsx\<close> in the
    mode \<open>development-fixture\<close>, and what they have in common with the production build: no key of the device.
  \<^item> \<open>Samples\<close>, \<open>ClaimSamples\<close>: a concrete session with three payments, built by the code's own
    functions, and a concrete chain with a claim to relay, on which the witnesses apply the properties.

  \<^bold>\<open>Termination.\<close> Every loop is a total function: the settling loop by the number of pending
  credentials, the conflict propagation by the number of states not yet marked. The loops
  that may not return, \<open>generateChallenge\<close> and \<open>pollConfirmation\<close> (which polls until a clock passes its
  deadline), are \<open>partial_function\<close>s.

  \<^bold>\<open>Not modelled.\<close> Messages of errors are written without diacritics; the messages of an \<open>OgpValidationError\<close>
  are not modelled, and its code stands for them in the error text a claim stores (\<open>errorMessage\<close>). Bytes
  that are not UTF-8, which Node decodes with replacement characters, count as a text that does not parse (\<open>utf8Text\<close>). \<open>NaN\<close> and fractional
  numbers are left out (the assertions reject them first; the JSON texts the code reads hold integers that
  are not rounded and characters up to 255). The Rust programs, but for the insertion above; what the React Native
  screens draw (that of the life-cycle probe too), the camera; in a stored request, an amount that is an
  array or an object; the headers and socket timeouts of the relayer's server and its process set-up (\<open>index.ts\<close>).
\<close>

end
